(* ===== verification/Prelude.thy ===== *)
theory Prelude
  imports Complex_Main "HOL-Library.Multiset"
begin

text \<open>
  Shared vocabulary of the development.

  \<^item> Identifiers and time stamps: database ids and UUIDs are compared for equality only and are
    natural numbers here; \<open>Date\<close> values are milliseconds since the epoch.
  \<^item> JavaScript numbers. Amounts and prices are exact reals (the columns are decimals; the
    rounding of IEEE doubles is not modelled). Where the code can divide by zero or return
    \<open>Infinity\<close> the value is a \<open>jsnum\<close>, which has the two infinities and \<open>NaN\<close>.
  \<^item> Exceptions: \<open>exn\<close> has one constructor per exception class the services throw, with the
    constant part of the message; a service returns \<open>exn + 'a\<close>.
  \<^item> Tables: a repository is the list of its rows in scan order; \<open>row_of\<close> is the lookup by
    key, \<open>save_row\<close> is \<open>Repository.save\<close> (an UPDATE of the rows with that key, an INSERT when
    there is none), \<open>first_by\<close> is \<open>ORDER BY ... LIMIT 1\<close>.
  \<^item> Interfaces as locales: \<open>repository\<close> (lookup after save), \<open>query_order\<close> (a sort order a
    query may use), \<open>guarded_loop\<close> and \<open>event_loop\<close> (an invariant kept by the handlers of a
    class of requests, or by all of them, is kept by every run).
\<close>

named_theorems js_simps \<open>arithmetic of JavaScript numbers\<close>
named_theorems table_simps \<open>lookups and updates of tables\<close>

type_synonym uid = nat
type_synonym uuid = nat
type_synonym asset_id = nat
type_synonym timestamp = int

section \<open>JavaScript numbers\<close>

datatype jsnum = Fin real | PosInf | NegInf | NaN

definition signed_inf :: "real \<Rightarrow> jsnum" where
  "signed_inf s = (if s > 0 then PosInf else if s < 0 then NegInf else NaN)"

fun js_add :: "jsnum \<Rightarrow> jsnum \<Rightarrow> jsnum" where
  "js_add NaN y = NaN"
| "js_add x NaN = NaN"
| "js_add (Fin a) (Fin b) = Fin (a + b)"
| "js_add (Fin a) y = y"
| "js_add x (Fin b) = x"
| "js_add PosInf PosInf = PosInf"
| "js_add NegInf NegInf = NegInf"
| "js_add PosInf NegInf = NaN"
| "js_add NegInf PosInf = NaN"

text \<open>The sign a factor contributes to an infinite product.\<close>

fun js_sgn :: "jsnum \<Rightarrow> real" where
  "js_sgn (Fin a) = sgn a"
| "js_sgn PosInf = 1"
| "js_sgn NegInf = - 1"
| "js_sgn NaN = 0"

fun js_mult :: "jsnum \<Rightarrow> jsnum \<Rightarrow> jsnum" where
  "js_mult (Fin a) (Fin b) = Fin (a * b)"
| "js_mult NaN y = NaN"
| "js_mult x NaN = NaN"
| "js_mult x y = signed_inf (js_sgn x * js_sgn y)"

text \<open>Division by a finite number; there is one zero only, of positive sign.\<close>

fun js_div :: "jsnum \<Rightarrow> real \<Rightarrow> jsnum" where
  "js_div NaN b = NaN"
| "js_div (Fin a) b = (if b = 0 then signed_inf a else Fin (a / b))"
| "js_div x b = (if b < 0 then signed_inf (- js_sgn x) else x)"

fun js_le :: "jsnum \<Rightarrow> jsnum \<Rightarrow> bool" where
  "js_le (Fin a) (Fin b) = (a \<le> b)"
| "js_le NaN y = False"
| "js_le x NaN = False"
| "js_le NegInf y = True"
| "js_le x PosInf = True"
| "js_le x y = False"

definition js_lt :: "jsnum \<Rightarrow> jsnum \<Rightarrow> bool" where
  "js_lt x y = (js_le x y \<and> \<not> js_le y x)"

fun js_abs :: "jsnum \<Rightarrow> jsnum" where
  "js_abs (Fin a) = Fin \<bar>a\<bar>"
| "js_abs NaN = NaN"
| "js_abs x = PosInf"

definition js_sub :: "jsnum \<Rightarrow> jsnum \<Rightarrow> jsnum" where
  "js_sub x y = js_add x (js_mult (Fin (- 1)) y)"

lemma js_sub_Fin [simp]: "js_sub (Fin a) (Fin b) = Fin (a - b)"
  by (simp add: js_sub_def)

lemma js_div_Fin [simp]: "b \<noteq> 0 \<Longrightarrow> js_div (Fin a) b = Fin (a / b)"
  by simp

lemma js_div_zero_zero [simp]: "js_div (Fin 0) 0 = NaN"
  by (simp add: signed_inf_def)

lemma js_lt_Fin [simp]: "js_lt (Fin a) (Fin b) \<longleftrightarrow> a < b"
  by (auto simp: js_lt_def)

lemma js_le_PosInf [simp]: "js_le x PosInf \<longleftrightarrow> x \<noteq> NaN"
  by (cases x) simp_all

lemma js_lt_PosInf [simp]: "js_lt (Fin a) PosInf" "\<not> js_lt PosInf y"
  by (cases y; simp add: js_lt_def)+

lemma js_mult_NaN_right [simp]: "js_mult x NaN = NaN"
  by (cases x) simp_all

lemma js_add_NaN_right [simp]: "js_add x NaN = NaN"
  by (cases x) simp_all

section \<open>JavaScript strings and arrays\<close>

text \<open>\<open>String.prototype.trim\<close> on 8-bit characters, and \<open>Array.from(new Set(xs))\<close>.\<close>

definition isBlank :: "char \<Rightarrow> bool" where
  "isBlank c = (c \<in> {CHR '' '', CHR 0x09, CHR 0x0A, CHR 0x0B, CHR 0x0C, CHR 0x0D, CHR 0xA0})"

definition trim :: "string \<Rightarrow> string" where
  "trim cs = rev (dropWhile isBlank (rev (dropWhile isBlank cs)))"

fun setOrder :: "'a list \<Rightarrow> 'a list" where
  "setOrder [] = []"
| "setOrder (x # xs) = x # filter (\<lambda>y. y \<noteq> x) (setOrder xs)"

lemma set_setOrder [simp]: "set (setOrder xs) = set xs"
  by (induction xs) auto

lemma distinct_setOrder [simp]: "distinct (setOrder xs)"
  by (induction xs) auto

text \<open>\<open>startsWith\<close>, \<open>includes\<close> and \<open>toLowerCase\<close> on the ASCII range.\<close>

definition startsWith :: "string \<Rightarrow> string \<Rightarrow> bool" where
  "startsWith p s = (take (length p) s = p)"

definition containsText :: "string \<Rightarrow> string \<Rightarrow> bool" where
  "containsText p s = list_ex (\<lambda>i. startsWith p (drop i s)) [0..<Suc (length s)]"

definition lowerCase :: "string \<Rightarrow> string" where
  "lowerCase s = map (\<lambda>c. if 65 \<le> (of_char c :: nat) \<and> (of_char c :: nat) \<le> 90
     then char_of ((of_char c :: nat) + 32) else c) s"

text \<open>\<open>split(',')\<close> and \<open>join(',')\<close>.\<close>

fun splitComma :: "string \<Rightarrow> string list" where
  "splitComma [] = [[]]"
| "splitComma (c # cs) =
     (if c = CHR '','' then [] # splitComma cs
      else case splitComma cs of [] \<Rightarrow> [[c]] | x # xs \<Rightarrow> (c # x) # xs)"

fun joinComma :: "string list \<Rightarrow> string" where
  "joinComma [] = []"
| "joinComma [x] = x"
| "joinComma (x # xs) = x @ CHR '','' # joinComma xs"

lemma splitComma_append:
  "CHR '','' \<notin> set x \<Longrightarrow> splitComma (x @ CHR '','' # ys) = x # splitComma ys"
  by (induction x) auto

lemma splitComma_plain: "CHR '','' \<notin> set x \<Longrightarrow> splitComma x = [x]"
  by (induction x) auto

lemma split_join: "xs \<noteq> [] \<Longrightarrow> \<forall>x\<in>set xs. CHR '','' \<notin> set x \<Longrightarrow> splitComma (joinComma xs) = xs"
  by (induction xs rule: joinComma.induct) (auto simp: splitComma_append splitComma_plain)

text \<open>
  \<open>String(n)\<close> of a natural number, and \<open>Number.parseInt(s, 10)\<close>, which reads the digits a
  string starts with and ignores the rest.  A sign is not read: identifiers have none.
\<close>

definition isDigit :: "char \<Rightarrow> bool" where
  "isDigit c = (48 \<le> (of_char c :: nat) \<and> (of_char c :: nat) \<le> 57)"

definition digitVal :: "char \<Rightarrow> nat" where
  "digitVal c = of_char c - 48"

definition parseInt :: "string \<Rightarrow> nat option" where
  "parseInt s =
     (let ds = takeWhile isDigit (dropWhile isBlank s)
      in if ds = [] then None else Some (foldl (\<lambda>n c. 10 * n + digitVal c) 0 ds))"

fun natText :: "nat \<Rightarrow> string" where
  "natText n = (if n < 10 then [char_of (48 + n)] else natText (n div 10) @ [char_of (48 + n mod 10)])"

declare natText.simps [simp del]

lemma digit_char [simp]: "d < 10 \<Longrightarrow> isDigit (char_of (48 + d))" "d < 10 \<Longrightarrow> digitVal (char_of (48 + d)) = d"
  by (simp_all add: isDigit_def digitVal_def)

lemma natText_digits: "list_all isDigit (natText n)"
  by (induction n rule: natText.induct) (subst natText.simps, simp)

lemma natText_value: "foldl (\<lambda>n c. 10 * n + digitVal c) 0 (natText n) = n"
  by (induction n rule: natText.induct) (subst natText.simps, simp)

lemma natText_nonempty [simp]: "natText n \<noteq> []"
  by (subst natText.simps) simp

lemma digit_not_blank: "isDigit c \<Longrightarrow> \<not> isBlank c"
  by (auto simp: isDigit_def isBlank_def)

lemma parseInt_natText [simp]: "parseInt (natText n) = Some n"
proof -
  have "takeWhile isDigit (natText n) = natText n"
    using natText_digits [of n] by (simp add: list_all_iff)
  moreover have "dropWhile isBlank (natText n) = natText n"
    using natText_digits [of n] by (cases "natText n") (auto simp: digit_not_blank)
  ultimately show ?thesis unfolding parseInt_def Let_def by (metis natText_nonempty natText_value)
qed

lemma natText_inject [simp]: "natText m = natText n \<longleftrightarrow> m = n"
  using parseInt_natText by (metis option.inject)

text \<open>An identifier the database has not given out yet.\<close>

definition unusedId :: "nat list \<Rightarrow> nat" where
  "unusedId used = Suc (fold max used 0)"

lemma fold_max_start: "n \<le> fold max xs (n :: nat)"
  by (induction xs arbitrary: n) (auto intro: order_trans [OF max.cobounded2])

lemma fold_max_member: "x \<in> set xs \<Longrightarrow> x \<le> fold max xs (n :: nat)"
  by (induction xs arbitrary: n) (auto intro: order_trans [OF max.cobounded1 fold_max_start])

lemma unusedId_fresh: "unusedId used \<notin> set used"
  using fold_max_member [of "Suc (fold max used 0)" used 0] by (auto simp: unusedId_def)

section \<open>Exceptions\<close>

datatype exn =
    NotFoundException string
  | BadRequestException string
  | ForbiddenException string
  | ConflictException string
  | UnauthorizedException string
  | BlockchainException string
  | JsError string

type_synonym 'a result = "exn + 'a"

text \<open>Sequencing: the first exception ends the computation.\<close>

fun rbind :: "'a result \<Rightarrow> ('a \<Rightarrow> 'b result) \<Rightarrow> 'b result" where
  "rbind (Inl e) f = Inl e"
| "rbind (Inr x) f = f x"

definition throw_unless :: "bool \<Rightarrow> exn \<Rightarrow> unit result" where
  "throw_unless b e = (if b then Inr () else Inl e)"

lemma rbind_Inr_iff [simp]: "rbind r f = Inr y \<longleftrightarrow> (\<exists>x. r = Inr x \<and> f x = Inr y)"
  by (cases r) simp_all

lemma map_sum_id_Inr_iff [simp]: "map_sum id f r = Inr y \<longleftrightarrow> (\<exists>x. r = Inr x \<and> f x = y)"
  by (cases r) auto

lemma throw_unless_Inr_iff [simp]: "throw_unless b e = Inr u \<longleftrightarrow> b"
  by (simp add: throw_unless_def)

lemma throw_unless_simps [simp]:
  "b \<Longrightarrow> throw_unless b e = Inr ()" "\<not> b \<Longrightarrow> throw_unless b e = Inl e"
  by (simp_all add: throw_unless_def)

section \<open>Tables\<close>

definition row_of :: "('r \<Rightarrow> 'k) \<Rightarrow> 'k \<Rightarrow> 'r list \<Rightarrow> 'r option" where
  "row_of key k t = find (\<lambda>r. key r = k) t"

definition save_row :: "('r \<Rightarrow> 'k) \<Rightarrow> 'r \<Rightarrow> 'r list \<Rightarrow> 'r list" where
  "save_row key r t =
     (if list_ex (\<lambda>x. key x = key r) t
      then map (\<lambda>x. if key x = key r then r else x) t
      else t @ [r])"

definition keyed :: "('r \<Rightarrow> 'k) \<Rightarrow> 'r list \<Rightarrow> bool" where
  "keyed key t \<longleftrightarrow> distinct (map key t)"

lemma row_of_Nil [simp]: "row_of key k [] = None"
  by (simp add: row_of_def)

lemma row_of_Cons [simp]:
  "row_of key k (r # t) = (if key r = k then Some r else row_of key k t)"
  by (simp add: row_of_def)

lemma row_of_append:
  "row_of key k (t @ u) = (case row_of key k t of None \<Rightarrow> row_of key k u | Some r \<Rightarrow> Some r)"
  by (induction t) auto

lemma row_of_Some_in: "row_of key k t = Some r \<Longrightarrow> r \<in> set t \<and> key r = k"
  by (induction t) (auto split: if_splits)

lemma row_of_None_iff: "row_of key k t = None \<longleftrightarrow> k \<notin> key ` set t"
  by (induction t) auto

lemma row_of_keyed: "keyed key t \<Longrightarrow> r \<in> set t \<Longrightarrow> row_of key (key r) t = Some r"
  by (induction t) (auto simp: keyed_def)

lemma row_of_map_update:
  "row_of key k (map (\<lambda>x. if key x = key r then r else x) t) =
     (if k = key r then (if key r \<in> key ` set t then Some r else None) else row_of key k t)"
  by (induction t) auto

lemma row_of_save [table_simps]:
  "row_of key k (save_row key r t) = (if k = key r then Some r else row_of key k t)"
proof (cases "list_ex (\<lambda>x. key x = key r) t")
  case True
  then obtain x where "x \<in> set t" "key x = key r"
    by (auto simp: list_ex_iff)
  then have "key r \<in> key ` set t"
    by (auto intro: rev_image_eqI)
  with True show ?thesis
    by (simp add: save_row_def row_of_map_update)
next
  case False
  then have "row_of key (key r) t = None"
    by (force simp: row_of_None_iff list_ex_iff)
  with False show ?thesis
    by (auto simp: save_row_def row_of_append split: option.splits)
qed

lemma set_save_row: "set (save_row key r t) = insert r {x \<in> set t. key x \<noteq> key r}"
  by (auto simp: save_row_def list_ex_iff)

lemma set_save_row_subset: "set (save_row key r t) \<subseteq> insert r (set t)"
  by (auto simp: set_save_row)

lemma keys_save_row: "key ` set (save_row key r t) = insert (key r) (key ` set t)"
  by (auto simp: set_save_row image_iff)

lemma in_save_rowD: "x \<in> set (save_row key r t) \<Longrightarrow> x = r \<or> x \<in> set t \<and> key x \<noteq> key r"
  by (simp add: set_save_row)

lemma save_row_twice: "save_row key r (save_row key r t) = save_row key r t"
proof (cases "list_ex (\<lambda>x. key x = key r) t")
  case True
  then have "list_ex (\<lambda>x. key x = key r) (map (\<lambda>x. if key x = key r then r else x) t)"
    by (auto simp: list_ex_iff)
  with True show ?thesis by (simp add: save_row_def del: list_ex_iff)
next
  case False
  then have "map (\<lambda>x. if key x = key r then r else x) t = t"
    by (intro map_idI) (auto simp: list_ex_iff)
  with False show ?thesis by (simp add: save_row_def)
qed

lemma keys_map_update: "map key (map (\<lambda>x. if key x = key r then r else x) t) = map key t"
  by simp

lemma keyed_save_row: "keyed key t \<Longrightarrow> keyed key (save_row key r t)"
  by (auto simp: keyed_def save_row_def keys_map_update list_ex_iff
      simp del: map_map)

lemma list_ex_key_iff: "list_ex (\<lambda>x. key x = k) t \<longleftrightarrow> row_of key k t \<noteq> None"
  by (induction t) auto

lemma sum_list_map_update:
  fixes f :: "'r \<Rightarrow> 'a :: ab_group_add"
  assumes "keyed key t" and "row_of key (key r) t = Some old"
  shows "sum_list (map f (map (\<lambda>x. if key x = key r then r else x) t)) =
    sum_list (map f t) - f old + f r"
  using assms
proof (induction t)
  case Nil
  then show ?case by simp
next
  case (Cons x t)
  show ?case
  proof (cases "key x = key r")
    case True
    with Cons.prems(1) have "key r \<notin> key ` set t"
      by (simp add: keyed_def)
    then have "\<forall>y\<in>set t. key y \<noteq> key r"
      by (auto intro: rev_image_eqI)
    then have "map (\<lambda>x. if key x = key r then r else x) t = t"
      by (induction t) auto
    with True Cons.prems show ?thesis by simp
  next
    case False
    with Cons have "sum_list (map f (map (\<lambda>x. if key x = key r then r else x) t)) =
      sum_list (map f t) - f old + f r"
      by (simp add: keyed_def)
    with False show ?thesis by simp
  qed
qed

text \<open>How a save changes a column total: the old row's contribution is replaced.\<close>

lemma sum_list_save_row:
  fixes f :: "'r \<Rightarrow> 'a :: ab_group_add"
  assumes "keyed key t"
  shows "sum_list (map f (save_row key r t)) =
    sum_list (map f t) + f r - (case row_of key (key r) t of None \<Rightarrow> 0 | Some old \<Rightarrow> f old)"
proof (cases "row_of key (key r) t")
  case None
  then show ?thesis by (simp add: save_row_def list_ex_key_iff)
next
  case (Some old)
  with assms show ?thesis
    by (simp add: save_row_def list_ex_key_iff sum_list_map_update del: map_map)
qed

text \<open>A save that takes a row out of a selection makes the selection shorter.\<close>

lemma length_filter_save_row_less:
  assumes "x \<in> set t" and "P x" and "key x = key r" and "\<not> P r"
  shows "length (filter P (save_row key r t)) < length (filter P t)"
proof -
  let ?f = "\<lambda>y. if key y = key r then r else y"
  have le: "length (filter P (map ?f u)) \<le> length (filter P u)" for u
    using assms(4) by (induction u) auto
  have "length (filter P (map ?f t)) < length (filter P t)"
    using assms
  proof (induction t)
    case Nil
    then show ?case by simp
  next
    case (Cons y t)
    then show ?case using le [of t] by (auto simp: less_Suc_eq_le)
  qed
  moreover have "list_ex (\<lambda>y. key y = key r) t"
    using assms(1,3) by (auto simp: list_ex_iff)
  ultimately show ?thesis by (simp add: save_row_def)
qed

text \<open>A loop that saves every selected row after changing it is a map over the table.\<close>

lemma save_row_map:
  assumes "keyed key t" and "x \<in> set t" and "\<And>y. key (g y) = key y" and "key r = key x"
  shows "save_row key r (map g t) = map (\<lambda>y. if y = x then r else g y) t"
proof -
  have "key y = key x \<longleftrightarrow> y = x" if "y \<in> set t" for y
    using assms(1,2) that by (auto simp: keyed_def distinct_map dest: inj_onD)
  with assms show ?thesis
    by (auto simp: save_row_def list_ex_iff)
qed

lemma fold_save_rows:
  assumes "keyed key t" and "\<And>x. key (f x) = key x" and "distinct xs" and "set xs \<subseteq> set t"
  shows "fold (\<lambda>x. save_row key (f x)) xs t = map (\<lambda>x. if x \<in> set xs then f x else x) t"
  using assms(3,4)
proof (induction xs rule: rev_induct)
  case Nil
  then show ?case by simp
next
  case (snoc x xs)
  then show ?case
    by (auto simp: save_row_map [OF assms(1)] assms(2) intro!: map_cong)
qed

lemma keyed_distinct: "keyed key t \<Longrightarrow> distinct t"
  by (auto simp: keyed_def distinct_map)

lemma fold_save_filter:
  assumes "keyed key t" and "\<And>x. key (f x) = key x"
  shows "fold (\<lambda>x. save_row key (f x)) (filter P t) t = map (\<lambda>x. if P x then f x else x) t"
  by (subst fold_save_rows [OF assms]) (auto simp: keyed_distinct [OF assms(1)])

text \<open>A bulk update that leaves a column alone.\<close>

lemma column_map: "(\<And>x. key (g x) = key x) \<Longrightarrow> key ` set (map g t) = key ` set t"
  by (simp add: image_image)

lemma keyed_map: "(\<And>x. key (g x) = key x) \<Longrightarrow> keyed key (map g t) = keyed key t"
  by (simp add: keyed_def o_def)

lemma row_of_map: "(\<And>x. key (g x) = key x) \<Longrightarrow> row_of key k (map g t) = map_option g (row_of key k t)"
  by (induction t) auto

text \<open>A save keeps a column unique when the new value is not taken by another row.\<close>

lemma distinct_save_row:
  assumes "distinct (map f t)" and "keyed key t"
    and "\<forall>x\<in>set t. f x = f v \<longrightarrow> key x = key v"
  shows "distinct (map f (save_row key v t))"
proof (cases "list_ex (\<lambda>x. key x = key v) t")
  case True
  let ?g = "\<lambda>x. if key x = key v then v else x"
  have "inj_on (f \<circ> ?g) (set t)"
  proof (rule inj_onI)
    fix x y
    assume xy: "x \<in> set t" "y \<in> set t" and eq: "(f \<circ> ?g) x = (f \<circ> ?g) y"
    show "x = y"
    proof (cases "key x = key v \<or> key y = key v")
      case True
      with xy eq assms(3) have "key x = key y" by (auto split: if_splits)
      with xy assms(2) show ?thesis by (auto simp: keyed_def distinct_map dest: inj_onD)
    next
      case False
      with xy eq assms(1) show ?thesis by (auto simp: distinct_map dest: inj_onD)
    qed
  qed
  moreover have "distinct t" using assms(2) by (rule keyed_distinct)
  ultimately show ?thesis using True by (simp add: save_row_def distinct_map o_def)
next
  case False
  with assms show ?thesis by (auto simp: save_row_def list_ex_iff)
qed

lemma find_Some_in: "find P t = Some x \<Longrightarrow> x \<in> set t \<and> P x"
  by (auto simp: find_Some_iff)

text \<open>A query by other columns still finds its first row after that row is saved.\<close>

lemma find_save_row:
  assumes "keyed key t" and "find P t = Some x" and "key r = key x" and "P r"
  shows "find P (save_row key r t) = Some r"
proof -
  have "find P (map (\<lambda>y. if key y = key r then r else y) t) = Some r"
    using assms
  proof (induction t)
    case (Cons a t)
    then show ?case
      by (auto simp: keyed_def split: if_splits dest!: find_Some_in)
  qed simp
  moreover have "list_ex (\<lambda>y. key y = key r) t"
    using find_Some_in [OF assms(2)] assms(3) by (auto simp: list_ex_iff)
  ultimately show ?thesis by (simp add: save_row_def)
qed

lemma find_save_row_new:
  "find P t = None \<Longrightarrow> row_of key (key r) t = None \<Longrightarrow> P r \<Longrightarrow>
     find P (save_row key r t) = Some r"
proof -
  assume "find P t = None" "row_of key (key r) t = None" "P r"
  moreover have "find P t = None \<Longrightarrow> P r \<Longrightarrow> find P (t @ [r]) = Some r"
    by (induction t) auto
  ultimately show ?thesis by (simp add: save_row_def list_ex_key_iff)
qed

lemma member_le_sum_list_nonneg:
  fixes f :: "'r \<Rightarrow> real"
  assumes "x \<in> set t" and "\<And>y. y \<in> set t \<Longrightarrow> 0 \<le> f y"
  shows "f x \<le> sum_list (map f t)"
  using assms
proof (induction t)
  case Nil
  then show ?case by simp
next
  case (Cons a t)
  then have "0 \<le> sum_list (map f t)" by (intro sum_list_nonneg) auto
  with Cons show ?case by fastforce
qed

lemma sum_list_filter_if:
  fixes f :: "'r \<Rightarrow> 'a :: monoid_add"
  shows "sum_list (map f (filter P t)) = sum_list (map (\<lambda>x. if P x then f x else 0) t)"
  by (induction t) auto

text \<open>
  The laws a repository promises its services: a saved row is what the next lookup of its
  key returns, and no other row changes.
\<close>

locale repository =
  fixes key :: "'r \<Rightarrow> 'k"
    and find_one :: "'k \<Rightarrow> 's \<Rightarrow> 'r option"
    and save :: "'r \<Rightarrow> 's \<Rightarrow> 's"
  assumes find_save_same: "find_one (key r) (save r s) = Some r"
    and find_save_other: "k \<noteq> key r \<Longrightarrow> find_one k (save r s) = find_one k s"
begin

lemma find_save: "find_one k (save r s) = (if k = key r then Some r else find_one k s)"
  by (simp add: find_save_same find_save_other)

text \<open>Saves of different rows commute as far as any lookup can tell.\<close>

lemma save_commute:
  "key r \<noteq> key q \<Longrightarrow> find_one k (save r (save q s)) = find_one k (save q (save r s))"
  by (simp add: find_save)

text \<open>The last save of a row wins.\<close>

lemma save_overwrite:
  "key r = key q \<Longrightarrow> find_one k (save r (save q s)) = find_one k (save r s)"
  by (simp add: find_save)

end

section \<open>Ordered queries\<close>

fun first_by :: "('r \<Rightarrow> 'r \<Rightarrow> bool) \<Rightarrow> 'r list \<Rightarrow> 'r option" where
  "first_by lt [] = None"
| "first_by lt (x # xs) =
     (case first_by lt xs of None \<Rightarrow> Some x | Some y \<Rightarrow> if lt y x then Some y else Some x)"

lemma first_by_None_iff [simp]: "first_by lt xs = None \<longleftrightarrow> xs = []"
  by (cases xs) (auto split: option.splits)

lemma first_by_Some_in: "first_by lt xs = Some m \<Longrightarrow> m \<in> set xs"
  by (induction xs arbitrary: m) (auto split: option.splits if_splits)

text \<open>
  A sort order: asymmetric, and "not before" is transitive, which is what several ORDER BY
  columns compared one after the other give.
\<close>

locale query_order =
  fixes before :: "'r \<Rightarrow> 'r \<Rightarrow> bool"
  assumes before_asym: "before x y \<Longrightarrow> \<not> before y x"
    and not_before_trans: "\<not> before y x \<Longrightarrow> \<not> before z y \<Longrightarrow> \<not> before z x"
begin

lemma before_irrefl: "\<not> before x x"
  using before_asym by blast

text \<open>The row a query with this order returns has no row before it.\<close>

lemma first_by_minimal: "first_by before xs = Some m \<Longrightarrow> x \<in> set xs \<Longrightarrow> \<not> before x m"
proof (induction xs arbitrary: m)
  case Nil
  then show ?case by simp
next
  case (Cons a xs)
  show ?case
  proof (cases "first_by before xs")
    case None
    with Cons.prems show ?thesis by (auto simp: before_irrefl)
  next
    case (Some y)
    note IH = Cons.IH [OF Some]
    show ?thesis
    proof (cases "before y a")
      case True
      with Some Cons.prems(1) have "m = y" by simp
      with True IH Cons.prems(2) show ?thesis by (auto dest: before_asym)
    next
      case False
      with Some Cons.prems(1) have "m = a" by simp
      with False IH Cons.prems(2) show ?thesis
        using not_before_trans before_irrefl by (metis set_ConsD)
    qed
  qed
qed

end

section \<open>Runs of handlers\<close>

text \<open>
  A service handles one request after the other; \<open>fails\<close> says a handler threw, in which case
  its transaction is rolled back and the state stays as it was.
\<close>

definition commit :: "('s \<Rightarrow> 's result) \<Rightarrow> 's \<Rightarrow> 's" where
  "commit h s = (case h s of Inl e \<Rightarrow> s | Inr s' \<Rightarrow> s')"

lemma commit_keeps:
  "(\<And>s'. h s = Inr s' \<Longrightarrow> P s') \<Longrightarrow> P s \<Longrightarrow> P (commit h s)"
  by (simp add: commit_def split: sum.split)

lemma commit_map_snd:
  assumes "\<And>x s'. h s = Inr (x, s') \<Longrightarrow> P s'" and "P s"
  shows "P (commit (\<lambda>s. map_sum id snd (h s)) s)"
  using assms by (cases "h s") (auto simp: commit_def)

text \<open>Handlers that keep an invariant for the requests of some class only.\<close>

locale guarded_loop =
  fixes handle :: "'e \<Rightarrow> 's \<Rightarrow> 's"
    and inv :: "'s \<Rightarrow> bool"
    and ok :: "'e \<Rightarrow> bool"
  assumes handle_guarded: "ok e \<Longrightarrow> inv s \<Longrightarrow> inv (handle e s)"
begin

lemma run_guarded: "inv s \<Longrightarrow> list_all ok es \<Longrightarrow> inv (fold handle es s)"
  by (induction es arbitrary: s) (auto intro: handle_guarded)

end

text \<open>Handlers that keep it for every request: the class is everything.\<close>

locale event_loop =
  fixes handle :: "'e \<Rightarrow> 's \<Rightarrow> 's"
    and inv :: "'s \<Rightarrow> bool"
  assumes handle_inv: "inv s \<Longrightarrow> inv (handle e s)"

sublocale event_loop \<subseteq> unguarded: guarded_loop handle inv "\<lambda>_. True"
  by unfold_locales (rule handle_inv)

context event_loop
begin

lemma run_inv: "inv s \<Longrightarrow> inv (fold handle es s)"
  by (rule unguarded.run_guarded) (simp_all add: list_all_iff)

end

section \<open>The first match\<close>

text \<open>\<open>findIndex\<close> followed by \<open>splice\<close> or by an update of the element found.\<close>

fun removeFirst :: "('a \<Rightarrow> bool) \<Rightarrow> 'a list \<Rightarrow> 'a list" where
  "removeFirst P [] = []"
| "removeFirst P (x # xs) = (if P x then xs else x # removeFirst P xs)"

fun updateFirst :: "('a \<Rightarrow> bool) \<Rightarrow> ('a \<Rightarrow> 'a) \<Rightarrow> 'a list \<Rightarrow> 'a list" where
  "updateFirst P f [] = []"
| "updateFirst P f (x # xs) = (if P x then f x # xs else x # updateFirst P f xs)"

lemma set_removeFirst: "set (removeFirst P xs) \<subseteq> set xs"
  by (induction xs) auto

lemma sorted_removeFirst: "sorted (map f xs) \<Longrightarrow> sorted (map f (removeFirst P xs))"
proof (induction xs)
  case (Cons x xs)
  then show ?case using set_removeFirst [of P xs] by auto
qed simp

lemma map_removeFirst: "map f (removeFirst (\<lambda>x. f x = i) xs) = remove1 i (map f xs)"
  by (induction xs) auto

lemma updateFirst_distinct:
  "distinct (map f xs) \<Longrightarrow> updateFirst (\<lambda>x. f x = i) g xs = map (\<lambda>x. if f x = i then g x else x) xs"
  by (induction xs) (auto intro!: map_idI [symmetric] simp: image_iff)

lemma map_updateFirst: "(\<And>x. f (g x) = f x) \<Longrightarrow> map f (updateFirst P g xs) = map f xs"
  by (induction xs) auto

section \<open>Sweeps over a table\<close>

text \<open>
  A scheduled job reads rows once and then works through them one by one. When the step for a
  row changes no other row, each row is still the stored one when its turn comes.
\<close>

locale row_sweep =
  fixes step :: "'r \<Rightarrow> 's \<Rightarrow> 's"
    and key :: "'r \<Rightarrow> 'k"
    and rows :: "'s \<Rightarrow> 'r list"
    and sel :: "'r \<Rightarrow> bool"
    and inv :: "'s \<Rightarrow> bool"
  assumes step_inv: "inv s \<Longrightarrow> sel r \<Longrightarrow> row_of key (key r) (rows s) = Some r \<Longrightarrow> inv (step r s)"
    and step_other: "k \<noteq> key r \<Longrightarrow> row_of key k (rows (step r s)) = row_of key k (rows s)"
begin

lemma sweep_other:
  "k \<notin> key ` set xs \<Longrightarrow> row_of key k (rows (fold step xs s)) = row_of key k (rows s)"
  by (induction xs arbitrary: s) (auto simp: step_other)

lemma sweep_rows_inv:
  assumes "inv s" and "distinct (map key xs)"
    and "\<forall>x\<in>set xs. sel x \<and> row_of key (key x) (rows s) = Some x"
  shows "inv (fold step xs s)"
  using assms
proof (induction xs arbitrary: s)
  case Nil
  then show ?case by simp
next
  case (Cons x xs)
  have "\<forall>y\<in>set xs. key y \<noteq> key x"
    using Cons.prems(2) by (auto simp: rev_image_eqI)
  then have "\<forall>y\<in>set xs. sel y \<and> row_of key (key y) (rows (step x s)) = Some y"
    using Cons.prems(3) step_other by simp
  then show ?case using Cons step_inv by simp
qed

text \<open>In particular for the selected rows of a keyed table.\<close>

lemma sweep_filter_inv:
  assumes "inv s" and "keyed key (rows s)"
  shows "inv (fold step (filter sel (rows s)) s)"
  using assms
  by (intro sweep_rows_inv) (auto simp: keyed_def distinct_map_filter row_of_keyed)

end

end
