(* ===== verification/OrderBook.thy ===== *)
theory OrderBook
  imports Prelude
begin

text \<open>
  The matching engine: \<open>src/orders/entities/order.entity.ts\<close> and
  \<open>src/orders/services/order-book.service.ts\<close>. The state is the orders table, the trades
  table and the events emitted; \<open>matchTakerOrder\<close> is the loop over the best resting maker, and
  \<open>getOrderBookSnapshot\<close> the aggregated view. The lemmas show that the loop stops, that it
  fills at the maker's price in price-time order inside the taker's limit, that it stops only
  when the taker is filled or nothing crosses, that no order is over-filled, and that bought
  and sold quantities stay equal.
\<close>

section \<open>Data\<close>

datatype OrderSide = BUY | SELL

datatype OrderType = MARKET | LIMIT | STOP_LOSS | TAKE_PROFIT | TRAILING_STOP

datatype OrderStatus = PENDING | PARTIAL | FILLED | CANCELLED | TRIGGERED | REJECTED

record Order =
  o_id :: uuid
  o_userId :: uid
  o_assetId :: asset_id
  o_side :: OrderSide
  o_type :: OrderType
  o_status :: OrderStatus
  o_amount :: real
  o_filledAmount :: real
  o_averageFillPrice :: "jsnum option"
  o_price :: "real option"
  o_stopPrice :: "real option"
  o_trailingDelta :: "real option"
  o_trailingReferencePrice :: "real option"
  o_triggeredAt :: "timestamp option"
  o_filledAt :: "timestamp option"
  o_cancelledAt :: "timestamp option"
  o_expiresAt :: "timestamp option"
  o_createdAt :: timestamp

definition remainingAmount :: "Order \<Rightarrow> real" where
  "remainingAmount ord = o_amount ord - o_filledAmount ord"

record Trade =
  t_userId :: uid
  t_asset :: asset_id
  t_type :: OrderSide
  t_amount :: real
  t_price :: real
  t_totalValue :: real
  t_status :: string

record TradeExecutedEvent =
  te_masterUserId :: uid
  te_assetId :: asset_id
  te_side :: OrderSide
  te_amount :: real
  te_price :: real
  te_totalValue :: real
  te_orderType :: OrderType
  te_filledAt :: timestamp

record FillResult =
  f_takerOrder :: Order
  f_makerOrder :: Order
  f_fillAmount :: real
  f_fillPrice :: real

record book =
  bk_orders :: "Order list"
  bk_trades :: "Trade list"
  bk_events :: "TradeExecutedEvent list"

section \<open>The query for the best maker\<close>

fun oppositeSide :: "OrderSide \<Rightarrow> OrderSide" where
  "oppositeSide BUY = SELL"
| "oppositeSide SELL = BUY"

text \<open>The price clause: only LIMIT takers with a price have one; a NULL never satisfies it.\<close>

definition priceAccepts :: "Order \<Rightarrow> Order \<Rightarrow> bool" where
  "priceAccepts taker maker =
     (if o_type taker = LIMIT then
        (case o_price taker of
           None \<Rightarrow> True
         | Some limit \<Rightarrow>
             (case o_price maker of
                None \<Rightarrow> False
              | Some p \<Rightarrow> (case o_side taker of BUY \<Rightarrow> p \<le> limit | SELL \<Rightarrow> limit \<le> p)))
      else True)"

definition isResting :: "Order \<Rightarrow> bool" where
  "isResting ord = (o_type ord = LIMIT \<and> (o_status ord = PENDING \<or> o_status ord = PARTIAL))"

definition crossable :: "Order \<Rightarrow> Order \<Rightarrow> bool" where
  "crossable taker maker =
     (o_assetId maker = o_assetId taker \<and> o_side maker = oppositeSide (o_side taker) \<and>
      isResting maker \<and> priceAccepts taker maker)"

text \<open>ORDER BY price ASC (for a BUY taker) or DESC, NULL prices where PostgreSQL puts them.\<close>

fun priceBefore :: "OrderSide \<Rightarrow> real option \<Rightarrow> real option \<Rightarrow> bool" where
  "priceBefore BUY (Some a) (Some b) = (a < b)"
| "priceBefore BUY (Some a) None = True"
| "priceBefore BUY None y = False"
| "priceBefore SELL (Some a) (Some b) = (b < a)"
| "priceBefore SELL None (Some b) = True"
| "priceBefore SELL x None = False"

definition makerBefore :: "OrderSide \<Rightarrow> Order \<Rightarrow> Order \<Rightarrow> bool" where
  "makerBefore side a b =
     (priceBefore side (o_price a) (o_price b) \<or>
      \<not> priceBefore side (o_price b) (o_price a) \<and> o_createdAt a < o_createdAt b)"

definition bestMaker :: "Order \<Rightarrow> Order list \<Rightarrow> Order option" where
  "bestMaker taker t = first_by (makerBefore (o_side taker)) (filter (crossable taker) t)"

section \<open>Fills and the matching loop\<close>

text \<open>\<open>Number(order.averageFillPrice ?? 0)\<close> and \<open>Number(order.price)\<close>.\<close>

definition avgNumber :: "Order \<Rightarrow> jsnum" where
  "avgNumber ord = (case o_averageFillPrice ord of None \<Rightarrow> Fin 0 | Some x \<Rightarrow> x)"

definition priceNumber :: "Order \<Rightarrow> real" where
  "priceNumber ord = (case o_price ord of None \<Rightarrow> 0 | Some p \<Rightarrow> p)"

definition applyFill :: "timestamp \<Rightarrow> Order \<Rightarrow> real \<Rightarrow> real \<Rightarrow> Order" where
  "applyFill now ord fillAmount fillPrice =
     (let prevFilled = o_filledAmount ord;
          newFilled = prevFilled + fillAmount;
          prevNotional = js_mult (Fin prevFilled) (avgNumber ord);
          ord' = ord\<lparr>o_averageFillPrice :=
                       Some (js_div (js_add prevNotional (Fin (fillAmount * fillPrice))) newFilled),
                     o_filledAmount := newFilled\<rparr>
      in if newFilled \<ge> o_amount ord
         then ord'\<lparr>o_status := FILLED, o_filledAt := Some now\<rparr>
         else ord'\<lparr>o_status := PARTIAL\<rparr>)"

definition fillAmountOf :: "Order \<Rightarrow> Order \<Rightarrow> real" where
  "fillAmountOf taker maker = min (remainingAmount taker) (remainingAmount maker)"

text \<open>One iteration: both orders filled, the maker, the trade and the event stored.\<close>

definition fillTaker :: "timestamp \<Rightarrow> Order \<Rightarrow> Order \<Rightarrow> Order" where
  "fillTaker now taker maker =
     applyFill now taker (fillAmountOf taker maker) (priceNumber maker)"

definition fillMaker :: "timestamp \<Rightarrow> Order \<Rightarrow> Order \<Rightarrow> Order" where
  "fillMaker now taker maker =
     applyFill now maker (fillAmountOf taker maker) (priceNumber maker)"

definition fillBook :: "timestamp \<Rightarrow> Order \<Rightarrow> Order \<Rightarrow> 'a book_scheme \<Rightarrow> 'a book_scheme" where
  "fillBook now taker maker bk =
     (let fillAmount = fillAmountOf taker maker; fillPrice = priceNumber maker
      in bk\<lparr>bk_orders := save_row o_id (fillMaker now taker maker) (bk_orders bk),
            bk_trades := bk_trades bk @
              [\<lparr>t_userId = o_userId taker, t_asset = o_assetId taker, t_type = o_side taker,
                t_amount = fillAmount, t_price = fillPrice,
                t_totalValue = fillAmount * fillPrice, t_status = ''FILLED''\<rparr>],
            bk_events := bk_events bk @
              [\<lparr>te_masterUserId = o_userId taker, te_assetId = o_assetId taker,
                te_side = o_side taker, te_amount = fillAmount, te_price = fillPrice,
                te_totalValue = fillAmount * fillPrice, te_orderType = o_type taker,
                te_filledAt = now\<rparr>]\<rparr>)"

definition fillResult :: "timestamp \<Rightarrow> Order \<Rightarrow> Order \<Rightarrow> FillResult" where
  "fillResult now taker maker =
     \<lparr>f_takerOrder = fillTaker now taker maker, f_makerOrder = fillMaker now taker maker,
      f_fillAmount = fillAmountOf taker maker, f_fillPrice = priceNumber maker\<rparr>"

lemma applyFill_fields [simp]:
  "o_id (applyFill now ord a p) = o_id ord"
  "o_userId (applyFill now ord a p) = o_userId ord"
  "o_assetId (applyFill now ord a p) = o_assetId ord"
  "o_side (applyFill now ord a p) = o_side ord"
  "o_type (applyFill now ord a p) = o_type ord"
  "o_price (applyFill now ord a p) = o_price ord"
  "o_amount (applyFill now ord a p) = o_amount ord"
  "o_filledAmount (applyFill now ord a p) = o_filledAmount ord + a"
  "o_createdAt (applyFill now ord a p) = o_createdAt ord"
  by (simp_all add: applyFill_def Let_def)

lemma applyFill_status:
  "o_status (applyFill now ord a p) =
     (if o_filledAmount ord + a \<ge> o_amount ord then FILLED else PARTIAL)"
  by (simp add: applyFill_def Let_def)

lemma applyFill_average:
  "o_averageFillPrice (applyFill now ord a p) =
     Some (js_div (js_add (js_mult (Fin (o_filledAmount ord)) (avgNumber ord)) (Fin (a * p)))
       (o_filledAmount ord + a))"
  by (simp add: applyFill_def Let_def)

lemma fillTaker_fields [simp]:
  "o_id (fillTaker now taker maker) = o_id taker"
  "o_userId (fillTaker now taker maker) = o_userId taker"
  "o_assetId (fillTaker now taker maker) = o_assetId taker"
  "o_side (fillTaker now taker maker) = o_side taker"
  "o_type (fillTaker now taker maker) = o_type taker"
  "o_price (fillTaker now taker maker) = o_price taker"
  "o_amount (fillTaker now taker maker) = o_amount taker"
  "o_filledAmount (fillTaker now taker maker) = o_filledAmount taker + fillAmountOf taker maker"
  "o_createdAt (fillTaker now taker maker) = o_createdAt taker"
  by (simp_all add: fillTaker_def)

lemma fillMaker_fields [simp]:
  "o_id (fillMaker now taker maker) = o_id maker"
  "o_userId (fillMaker now taker maker) = o_userId maker"
  "o_assetId (fillMaker now taker maker) = o_assetId maker"
  "o_side (fillMaker now taker maker) = o_side maker"
  "o_type (fillMaker now taker maker) = o_type maker"
  "o_price (fillMaker now taker maker) = o_price maker"
  "o_amount (fillMaker now taker maker) = o_amount maker"
  "o_filledAmount (fillMaker now taker maker) = o_filledAmount maker + fillAmountOf taker maker"
  "o_createdAt (fillMaker now taker maker) = o_createdAt maker"
  by (simp_all add: fillMaker_def)

lemma crossable_fillTaker [simp]: "crossable (fillTaker now taker maker) = crossable taker"
  by (simp add: crossable_def priceAccepts_def fun_eq_iff split: option.split)

lemma bestMaker_Some:
  "bestMaker taker t = Some maker \<Longrightarrow> maker \<in> set t \<and> crossable taker maker"
  by (auto simp: bestMaker_def dest: first_by_Some_in)

lemma bestMaker_None_iff: "bestMaker taker t = None \<longleftrightarrow> (\<forall>m\<in>set t. \<not> crossable taker m)"
  by (simp add: bestMaker_def filter_empty_conv)

lemma fillMaker_exhausted:
  "remainingAmount maker \<le> remainingAmount taker \<Longrightarrow>
     o_status (fillMaker now taker maker) = FILLED"
  by (simp add: fillMaker_def applyFill_status fillAmountOf_def remainingAmount_def)

lemma fillTaker_exhausted:
  "remainingAmount taker \<le> remainingAmount maker \<Longrightarrow>
     remainingAmount (fillTaker now taker maker) = 0"
  by (simp add: fillAmountOf_def remainingAmount_def)

text \<open>
  The loop. Either the maker is exhausted and one crossable row fewer remains, or the taker is
  filled and the loop condition fails; this bounds the number of iterations.
\<close>

function matchLoop ::
  "timestamp \<Rightarrow> Order \<Rightarrow> 'a book_scheme \<Rightarrow> Order \<times> 'a book_scheme \<times> FillResult list" where
  "matchLoop now taker bk =
     (if remainingAmount taker > 0 then
        (case bestMaker taker (bk_orders bk) of
           None \<Rightarrow> (taker, bk, [])
         | Some maker \<Rightarrow>
             (let (tk, bk', fills) =
                matchLoop now (fillTaker now taker maker) (fillBook now taker maker bk)
              in (tk, bk', fillResult now taker maker # fills)))
      else (taker, bk, []))"
  by pat_completeness auto
termination
proof (relation "measure (\<lambda>(now, taker, bk).
    if remainingAmount taker > 0
    then Suc (length (filter (crossable taker) (bk_orders bk))) else 0)")
  show "wf (measure (\<lambda>(now :: timestamp, taker, bk :: 'a book_scheme).
    if remainingAmount taker > 0
    then Suc (length (filter (crossable taker) (bk_orders bk))) else 0))"
    by simp
next
  fix now :: timestamp and taker maker and bk :: "'a book_scheme"
  assume pos: "remainingAmount taker > 0"
    and best: "bestMaker taker (bk_orders bk) = Some maker"
  let ?n = "\<lambda>t. length (filter (crossable taker) t)"
  have "?n (bk_orders (fillBook now taker maker bk)) < ?n (bk_orders bk)"
    if "remainingAmount maker \<le> remainingAmount taker"
    using bestMaker_Some [OF best] fillMaker_exhausted [OF that]
    by (simp add: fillBook_def Let_def)
      (rule length_filter_save_row_less [where x = maker], auto simp: crossable_def isResting_def)
  moreover have "remainingAmount (fillTaker now taker maker) = 0"
    if "\<not> remainingAmount maker \<le> remainingAmount taker"
    using that by (simp add: fillTaker_exhausted)
  ultimately show "((now, fillTaker now taker maker, fillBook now taker maker bk), now, taker, bk)
      \<in> measure (\<lambda>(now, taker, bk). if remainingAmount taker > 0
          then Suc (length (filter (crossable taker) (bk_orders bk))) else 0)"
    using pos by (cases "remainingAmount maker \<le> remainingAmount taker") simp_all
qed

declare matchLoop.simps [simp del]

text \<open>
  The whole operation: the loop, then the taker is saved. All \<open>fills\<close> hold the same taker
  object, so on return each of them shows its final state.
\<close>

definition matchTakerOrder ::
  "timestamp \<Rightarrow> Order \<Rightarrow> 'a book_scheme \<Rightarrow> Order \<times> 'a book_scheme \<times> FillResult list" where
  "matchTakerOrder now takerOrder bk =
     (let (tk, bk', fills) = matchLoop now takerOrder bk
      in (tk, bk'\<lparr>bk_orders := save_row o_id tk (bk_orders bk')\<rparr>,
          map (\<lambda>f. f\<lparr>f_takerOrder := tk\<rparr>) fills))"


section \<open>Reasoning about the loop\<close>

lemma matchLoop_stop:
  "\<not> 0 < remainingAmount taker \<or> bestMaker taker (bk_orders bk) = None \<Longrightarrow>
     matchLoop now taker bk = (taker, bk, [])"
  by (subst matchLoop.simps) auto

lemma matchLoop_step:
  "0 < remainingAmount taker \<Longrightarrow> bestMaker taker (bk_orders bk) = Some maker \<Longrightarrow>
     matchLoop now (fillTaker now taker maker) (fillBook now taker maker bk) = (tk, bk', fs) \<Longrightarrow>
     matchLoop now taker bk = (tk, bk', fillResult now taker maker # fs)"
  by (subst matchLoop.simps) simp

text \<open>Induction over a run of the loop: it stops, or it fills the best maker and goes on.\<close>

lemma matchLoop_induct [consumes 1, case_names stop step]:
  fixes bk :: "'a book_scheme"
  assumes run: "matchLoop now taker bk = (tk, bk', fs)"
    and stop: "\<And>taker (bk :: 'a book_scheme).
      \<not> 0 < remainingAmount taker \<or> bestMaker taker (bk_orders bk) = None \<Longrightarrow>
      P taker bk taker bk []"
    and step: "\<And>taker (bk :: 'a book_scheme) maker tk bk' fs.
      0 < remainingAmount taker \<Longrightarrow> bestMaker taker (bk_orders bk) = Some maker \<Longrightarrow>
      maker \<in> set (bk_orders bk) \<Longrightarrow> crossable taker maker \<Longrightarrow>
      matchLoop now (fillTaker now taker maker) (fillBook now taker maker bk) = (tk, bk', fs) \<Longrightarrow>
      P (fillTaker now taker maker) (fillBook now taker maker bk) tk bk' fs \<Longrightarrow>
      P taker bk tk bk' (fillResult now taker maker # fs)"
  shows "P taker bk tk bk' fs"
  using run step
proof (induction now taker bk arbitrary: tk bk' fs rule: matchLoop.induct)
  case (1 now taker bk)
  note steps = "1.prems"(2)
  consider "\<not> 0 < remainingAmount taker \<or> bestMaker taker (bk_orders bk) = None"
    | maker where "0 < remainingAmount taker" "bestMaker taker (bk_orders bk) = Some maker"
    by fastforce
  then show ?case
  proof cases
    case 1
    then show ?thesis using stop "1.prems"(1) by (auto simp: matchLoop_stop)
  next
    case (2 maker)
    obtain tk0 bk0 fs0 where rec: "matchLoop now (fillTaker now taker maker)
        (fillBook now taker maker bk) = (tk0, bk0, fs0)"
      by (metis prod_cases3)
    have res: "tk = tk0" "bk' = bk0" "fs = fillResult now taker maker # fs0"
      using "1.prems"(1) by (simp_all add: matchLoop_step [OF 2 rec])
    have "P (fillTaker now taker maker) (fillBook now taker maker bk) tk0 bk0 fs0"
      by (rule "1.IH" [OF 2 rec]) (rule steps)
    with bestMaker_Some [OF 2(2)] show ?thesis
      unfolding res by (blast intro: steps 2 rec)
  qed
qed

section \<open>Well-formed books\<close>

text \<open>
  What always holds of a stored order, whatever a modification put into it: a fill between nothing and
  the amount, and FILLED only when the whole amount is.
\<close>

definition sane_order :: "Order \<Rightarrow> bool" where
  "sane_order ord =
     (0 \<le> o_filledAmount ord \<and> o_filledAmount ord \<le> o_amount ord \<and>
      (o_status ord = FILLED \<longrightarrow> o_filledAmount ord = o_amount ord))"

definition sane_book :: "'a book_scheme \<Rightarrow> bool" where
  "sane_book bk = (keyed o_id (bk_orders bk) \<and> list_all sane_order (bk_orders bk))"

text \<open>
  What the DTO validation of a new order promises in addition: a positive amount, and a positive price on
  LIMIT orders.
\<close>

definition priced_order :: "Order \<Rightarrow> bool" where
  "priced_order ord =
     (0 < o_amount ord \<and> (o_type ord = LIMIT \<longrightarrow> (case o_price ord of None \<Rightarrow> False | Some p \<Rightarrow> 0 < p)))"

definition wf_order :: "Order \<Rightarrow> bool" where
  "wf_order ord =
     (0 < o_amount ord \<and> 0 \<le> o_filledAmount ord \<and> o_filledAmount ord \<le> o_amount ord \<and>
      (o_type ord = LIMIT \<longrightarrow> (case o_price ord of None \<Rightarrow> False | Some p \<Rightarrow> 0 < p)) \<and>
      (o_status ord = FILLED \<longrightarrow> o_filledAmount ord = o_amount ord))"

definition wf_book :: "'a book_scheme \<Rightarrow> bool" where
  "wf_book bk = (keyed o_id (bk_orders bk) \<and> list_all wf_order (bk_orders bk))"

lemma wf_order_parts: "wf_order ord \<longleftrightarrow> sane_order ord \<and> priced_order ord"
  by (auto simp: wf_order_def sane_order_def priced_order_def)

lemma wf_book_sane: "wf_book bk \<Longrightarrow> sane_book bk"
  by (auto simp: wf_book_def sane_book_def wf_order_parts list_all_iff)

lemma wf_book_priced: "wf_book bk \<Longrightarrow> list_all priced_order (bk_orders bk)"
  by (auto simp: wf_book_def wf_order_parts list_all_iff)

lemma bk_orders_fillBook [simp]:
  "bk_orders (fillBook now taker maker bk) =
     save_row o_id (fillMaker now taker maker) (bk_orders bk)"
  by (simp add: fillBook_def Let_def)

lemma fillResult_fields [simp]:
  "f_fillAmount (fillResult now taker maker) = fillAmountOf taker maker"
  "f_fillPrice (fillResult now taker maker) = priceNumber maker"
  "f_makerOrder (fillResult now taker maker) = fillMaker now taker maker"
  by (simp_all add: fillResult_def)

lemma fillAmountOf_bounds:
  assumes "0 < remainingAmount taker" and "sane_order maker"
  shows "0 \<le> fillAmountOf taker maker" "fillAmountOf taker maker \<le> remainingAmount taker"
    "fillAmountOf taker maker \<le> remainingAmount maker"
  using assms by (auto simp: fillAmountOf_def sane_order_def remainingAmount_def)

lemma sane_order_applyFill:
  assumes "sane_order ord" and "0 \<le> a" and "a \<le> remainingAmount ord"
  shows "sane_order (applyFill now ord a p)"
  using assms by (auto simp: sane_order_def remainingAmount_def applyFill_status split: option.splits)

lemma wf_fill:
  assumes "0 < remainingAmount taker" and "sane_order taker" and "sane_order maker"
  shows "sane_order (fillTaker now taker maker)" and "sane_order (fillMaker now taker maker)"
  using assms fillAmountOf_bounds [OF assms(1,3)]
  by (auto simp: fillTaker_def fillMaker_def intro: sane_order_applyFill)

lemma sane_book_save:
  "sane_book bk \<Longrightarrow> sane_order ord \<Longrightarrow> sane_book (bk\<lparr>bk_orders := save_row o_id ord (bk_orders bk)\<rparr>)"
  by (auto simp: sane_book_def keyed_save_row list_all_iff set_save_row)

lemma sane_book_fillBook:
  assumes "0 < remainingAmount taker" and "sane_order taker" and "sane_book bk"
    and "maker \<in> set (bk_orders bk)"
  shows "sane_book (fillBook now taker maker bk)"
  using assms wf_fill(2) [OF assms(1,2)]
  by (auto simp: sane_book_def keyed_save_row list_all_iff set_save_row)

lemma matchLoop_wf:
  assumes "matchLoop now taker bk = (tk, bk', fs)" and "sane_book bk" and "sane_order taker"
  shows "sane_book bk' \<and> sane_order tk"
  using assms
proof (induction rule: matchLoop_induct)
  case (stop taker bk)
  then show ?case by simp
next
  case (step taker bk maker tk bk' fs)
  then have "sane_order maker" by (auto simp: sane_book_def list_all_iff)
  with step show ?case by (auto intro: sane_book_fillBook wf_fill)
qed

lemma matchLoop_taker:
  assumes "matchLoop now taker bk = (tk, bk', fs)"
  shows "o_id tk = o_id taker \<and> o_userId tk = o_userId taker \<and> o_assetId tk = o_assetId taker \<and>
    o_side tk = o_side taker \<and> o_type tk = o_type taker \<and> o_price tk = o_price taker \<and>
    o_amount tk = o_amount taker \<and>
    o_filledAmount tk = o_filledAmount taker + sum_list (map f_fillAmount fs)"
  using assms by (induction rule: matchLoop_induct) auto

lemma matchLoop_complete:
  assumes "matchLoop now taker bk = (tk, bk', fs)"
  shows "remainingAmount tk \<le> 0 \<or> (\<forall>m\<in>set (bk_orders bk'). \<not> crossable tk m)"
  using assms by (induction rule: matchLoop_induct) (auto simp: bestMaker_None_iff)

section \<open>Quantities: what is bought is sold\<close>

text \<open>Total filled quantity of one side of one asset.\<close>

definition filledOn :: "asset_id \<Rightarrow> OrderSide \<Rightarrow> Order list \<Rightarrow> real" where
  "filledOn a s t =
     sum_list (map o_filledAmount (filter (\<lambda>x. o_assetId x = a \<and> o_side x = s) t))"

lemma filledOn_save_row:
  assumes "keyed o_id t"
  shows "filledOn a s (save_row o_id ord t) = filledOn a s t
    + (if o_assetId ord = a \<and> o_side ord = s then o_filledAmount ord else 0)
    - (case row_of o_id (o_id ord) t of None \<Rightarrow> 0
       | Some old \<Rightarrow> if o_assetId old = a \<and> o_side old = s then o_filledAmount old else 0)"
  by (simp add: filledOn_def sum_list_filter_if sum_list_save_row [OF assms] split: option.split)

lemma side_neq_oppositeSide [simp]: "oppositeSide s \<noteq> s" "s \<noteq> oppositeSide s"
  by (cases s; simp)+

lemma filledOn_fillBook:
  assumes "keyed o_id (bk_orders bk)" and "maker \<in> set (bk_orders bk)"
    and "crossable taker maker"
  shows "filledOn a s (bk_orders (fillBook now taker maker bk)) = filledOn a s (bk_orders bk)
    + (if a = o_assetId taker \<and> s = oppositeSide (o_side taker)
       then fillAmountOf taker maker else 0)"
  using assms(3) row_of_keyed [OF assms(1,2)]
  by (auto simp: filledOn_save_row [OF assms(1)] crossable_def)

lemma matchLoop_filledOn:
  assumes "matchLoop now taker bk = (tk, bk', fs)" and "keyed o_id (bk_orders bk)"
  shows "keyed o_id (bk_orders bk') \<and> filledOn a s (bk_orders bk') = filledOn a s (bk_orders bk)
    + (if a = o_assetId taker \<and> s = oppositeSide (o_side taker)
       then sum_list (map f_fillAmount fs) else 0)"
  using assms
proof (induction rule: matchLoop_induct)
  case (stop taker bk)
  then show ?case by simp
next
  case (step taker bk maker tk bk' fs)
  then have "keyed o_id (bk_orders (fillBook now taker maker bk))"
    by (simp add: keyed_save_row)
  with step show ?case by (simp add: filledOn_fillBook del: bk_orders_fillBook)
qed

text \<open>The loop writes rows that cross the taker only; the taker's own row waits for the end.\<close>

lemma matchLoop_other_rows:
  assumes "matchLoop now taker bk = (tk, bk', fs)" and "keyed o_id (bk_orders bk)"
    and "row_of o_id k (bk_orders bk) = Some st" and "\<not> crossable taker st"
  shows "row_of o_id k (bk_orders bk') = Some st"
  using assms
proof (induction rule: matchLoop_induct)
  case (stop taker bk)
  then show ?case by simp
next
  case (step taker bk maker tk bk' fs)
  have "o_id maker \<noteq> k"
    using row_of_keyed [OF step.prems(1) step.hyps(3)] step.hyps(4) step.prems(2,3) by auto
  with step show ?case by (simp add: keyed_save_row row_of_save)
qed

text \<open>
  The stored row of the taker is open and has the owner and the quantities of the object in
  memory (the callers save the order before they match it).
\<close>

definition isOpen :: "Order \<Rightarrow> bool" where
  "isOpen ord = (o_status ord \<noteq> FILLED \<and> o_status ord \<noteq> CANCELLED)"

definition stored :: "Order \<Rightarrow> 'a book_scheme \<Rightarrow> bool" where
  "stored taker bk =
     (case row_of o_id (o_id taker) (bk_orders bk) of None \<Rightarrow> False
      | Some st \<Rightarrow> o_side st = o_side taker \<and> o_assetId st = o_assetId taker \<and>
                  o_userId st = o_userId taker \<and> o_amount st = o_amount taker \<and>
                  o_filledAmount st = o_filledAmount taker \<and> isOpen st)"

lemma matchTakerOrder_eq:
  "matchTakerOrder now taker bk = (tk, bk2, fs2) \<longleftrightarrow>
     (\<exists>bk1 fs1. matchLoop now taker bk = (tk, bk1, fs1) \<and>
        bk2 = bk1\<lparr>bk_orders := save_row o_id tk (bk_orders bk1)\<rparr> \<and>
        fs2 = map (\<lambda>f. f\<lparr>f_takerOrder := tk\<rparr>) fs1)"
  by (auto simp: matchTakerOrder_def split: prod.splits)

lemma matchTakerOrder_wf:
  assumes "matchTakerOrder now taker bk = (tk, bk', fs)" and "sane_book bk" and "sane_order taker"
  shows "sane_book bk' \<and> sane_order tk"
  using assms matchLoop_wf sane_book_save by (fastforce simp: matchTakerOrder_eq)

lemma fill_fields_of_map [simp]:
  "map f_fillAmount (map (\<lambda>f. f\<lparr>f_takerOrder := tk\<rparr>) fs) = map f_fillAmount fs"
  "map f_fillPrice (map (\<lambda>f. f\<lparr>f_takerOrder := tk\<rparr>) fs) = map f_fillPrice fs"
  "map f_makerOrder (map (\<lambda>f. f\<lparr>f_takerOrder := tk\<rparr>) fs) = map f_makerOrder fs"
  by simp_all

text \<open>What a match is, seen from the row the taker had before it.\<close>

lemma matchTakerOrder_cases:
  assumes "matchTakerOrder now taker bk = (tk, bk', fs)" and "keyed o_id (bk_orders bk)"
    and "stored taker bk"
  obtains bk1 fs1 st where "matchLoop now taker bk = (tk, bk1, fs1)"
    and "bk_orders bk' = save_row o_id tk (bk_orders bk1)"
    and "map f_fillAmount fs = map f_fillAmount fs1"
    and "row_of o_id (o_id tk) (bk_orders bk1) = Some st"
    and "o_side st = o_side taker" and "o_assetId st = o_assetId taker"
    and "o_userId st = o_userId taker" and "o_amount st = o_amount taker"
    and "o_filledAmount st = o_filledAmount taker" and "isOpen st"
proof -
  obtain bk1 fs1 where loop: "matchLoop now taker bk = (tk, bk1, fs1)"
    and bk': "bk' = bk1\<lparr>bk_orders := save_row o_id tk (bk_orders bk1)\<rparr>"
    and fs: "fs = map (\<lambda>f. f\<lparr>f_takerOrder := tk\<rparr>) fs1"
    using assms(1) by (auto simp: matchTakerOrder_eq)
  obtain st where st: "row_of o_id (o_id taker) (bk_orders bk) = Some st"
      "o_side st = o_side taker" "o_assetId st = o_assetId taker" "o_userId st = o_userId taker"
      "o_amount st = o_amount taker" "o_filledAmount st = o_filledAmount taker" "isOpen st"
    using assms(3) by (auto simp: stored_def split: option.splits)
  have "\<not> crossable taker st"
    using st(2) by (simp add: crossable_def)
  then have "row_of o_id (o_id tk) (bk_orders bk1) = Some st"
    using matchLoop_other_rows [OF loop assms(2) st(1)] matchLoop_taker [OF loop] by simp
  with loop bk' fs st show thesis by (intro that [of bk1 fs1 st]) auto
qed

lemma matchTakerOrder_filledOn:
  assumes "matchTakerOrder now taker bk = (tk, bk', fs)"
    and "keyed o_id (bk_orders bk)" and "stored taker bk"
  shows "filledOn a s (bk_orders bk') = filledOn a s (bk_orders bk)
    + (if a = o_assetId taker then sum_list (map f_fillAmount fs) else 0)"
  using assms
proof (rule matchTakerOrder_cases)
  fix bk1 fs1 st
  assume loop: "matchLoop now taker bk = (tk, bk1, fs1)"
    and upd: "bk_orders bk' = save_row o_id tk (bk_orders bk1)"
      "map f_fillAmount fs = map f_fillAmount fs1"
    and st: "row_of o_id (o_id tk) (bk_orders bk1) = Some st" "o_side st = o_side taker"
      "o_assetId st = o_assetId taker" "o_filledAmount st = o_filledAmount taker"
  note taker = matchLoop_taker [OF loop] and qty = matchLoop_filledOn [OF loop assms(2)]
  have "filledOn a s (bk_orders bk') = filledOn a s (bk_orders bk1)
    + (if a = o_assetId taker \<and> s = o_side taker then sum_list (map f_fillAmount fs) else 0)"
    using qty taker st by (auto simp: upd filledOn_save_row)
  then show ?thesis
    using qty [of a s] by (cases s; cases "o_side taker") (auto simp: upd)
qed

lemma matchTakerOrder_other_rows:
  assumes "matchTakerOrder now taker bk = (tk, bk', fs)" and "keyed o_id (bk_orders bk)"
    and "row_of o_id k (bk_orders bk) = Some st" and "\<not> crossable taker st" and "k \<noteq> o_id taker"
  shows "row_of o_id k (bk_orders bk') = Some st"
  using assms matchLoop_other_rows matchLoop_taker
  by (fastforce simp: matchTakerOrder_eq row_of_save)

text \<open>A property of rows that fills respect holds of every row after a match.\<close>

lemma matchTakerOrder_all:
  assumes "matchTakerOrder now taker bk = (tk, bk', fs)"
    and "list_all P (bk_orders bk)" and "P taker"
    and fill: "\<And>ord a p. P ord \<Longrightarrow> P (applyFill now ord a p)"
  shows "list_all P (bk_orders bk')" "P tk"
proof -
  have "list_all P (bk_orders bk1) \<and> P tk1"
    if "matchLoop now taker bk = (tk1, bk1, fs1)" for tk1 bk1 fs1
    using that assms(2,3)
  proof (induction rule: matchLoop_induct)
    case (stop taker bk)
    then show ?case by simp
  next
    case (step taker bk maker tk bk' fs)
    then have "P (fillTaker now taker maker)" "P (fillMaker now taker maker)"
      by (auto simp: fillTaker_def fillMaker_def list_all_iff intro: fill)
    with step show ?case by (auto simp: list_all_iff set_save_row)
  qed
  with assms(1) show "list_all P (bk_orders bk')" "P tk"
    by (auto simp: matchTakerOrder_eq list_all_iff set_save_row)
qed

section \<open>Reserves of open SELL orders\<close>

text \<open>The part of a user's holding of an asset that an order may still deliver.\<close>

definition reserveOf :: "uid \<Rightarrow> asset_id \<Rightarrow> Order \<Rightarrow> real" where
  "reserveOf u a ord =
     (if o_userId ord = u \<and> o_assetId ord = a \<and> o_side ord = SELL \<and> isOpen ord
      then remainingAmount ord else 0)"

definition reserved :: "uid \<Rightarrow> asset_id \<Rightarrow> Order list \<Rightarrow> real" where
  "reserved u a t = sum_list (map (reserveOf u a) t)"

lemma reserved_save_row:
  "keyed o_id t \<Longrightarrow> reserved u a (save_row o_id ord t) = reserved u a t + reserveOf u a ord
     - (case row_of o_id (o_id ord) t of None \<Rightarrow> 0 | Some old \<Rightarrow> reserveOf u a old)"
  by (simp add: reserved_def sum_list_save_row)

lemma reserveOf_nonneg: "sane_order ord \<Longrightarrow> 0 \<le> reserveOf u a ord"
  by (simp add: reserveOf_def sane_order_def remainingAmount_def)

lemma reserved_nonneg: "list_all sane_order t \<Longrightarrow> 0 \<le> reserved u a t"
  by (auto simp: reserved_def list_all_iff intro!: sum_list_nonneg reserveOf_nonneg)

lemma reserved_ge_member:
  assumes "list_all sane_order t" and "x \<in> set t"
  shows "reserveOf u a x \<le> reserved u a t"
  unfolding reserved_def
  using assms by (intro member_le_sum_list) (auto simp: list_all_iff intro: reserveOf_nonneg)

lemma reserveOf_fillMaker:
  assumes "0 < remainingAmount taker" and "sane_order maker" and "crossable taker maker"
  shows "reserveOf u a (fillMaker now taker maker) \<le> reserveOf u a maker"
  using assms fillAmountOf_bounds [OF assms(1,2)]
  by (auto simp: reserveOf_def crossable_def isResting_def isOpen_def remainingAmount_def)

lemma matchLoop_reserved:
  assumes "matchLoop now taker bk = (tk, bk', fs)" and "sane_book bk" and "sane_order taker"
  shows "reserved u a (bk_orders bk') \<le> reserved u a (bk_orders bk) \<and>
    0 \<le> sum_list (map f_fillAmount fs)"
  using assms
proof (induction rule: matchLoop_induct)
  case (stop taker bk)
  then show ?case by simp
next
  case (step taker bk maker tk bk' fs)
  have maker: "sane_order maker" "keyed o_id (bk_orders bk)"
    using step by (auto simp: sane_book_def list_all_iff)
  have "reserved u a (bk_orders (fillBook now taker maker bk)) \<le> reserved u a (bk_orders bk)"
    using reserveOf_fillMaker [OF step.hyps(1) maker(1) step.hyps(4), of u a now]
      row_of_keyed [OF maker(2) step.hyps(3)]
    by (simp add: reserved_save_row maker(2))
  moreover have "0 \<le> fillAmountOf taker maker"
    using fillAmountOf_bounds [OF step.hyps(1) maker(1)] by simp
  moreover have "sane_book (fillBook now taker maker bk)" "sane_order (fillTaker now taker maker)"
    using step maker by (auto intro: sane_book_fillBook wf_fill)
  ultimately show ?case using step.IH by simp
qed

lemma matchLoop_amounts_nonneg:
  assumes "matchLoop now taker bk = (tk, bk', fs)" and "sane_book bk" and "sane_order taker"
  shows "\<forall>f\<in>set fs. 0 \<le> f_fillAmount f"
  using assms
proof (induction rule: matchLoop_induct)
  case (stop taker bk)
  then show ?case by simp
next
  case (step taker bk maker tk bk' fs)
  then have maker: "sane_order maker" by (auto simp: sane_book_def list_all_iff)
  with step fillAmountOf_bounds [OF step.hyps(1) maker] show ?case
    by (auto intro: sane_book_fillBook wf_fill)
qed

lemma matchTakerOrder_reserved:
  assumes "matchTakerOrder now taker bk = (tk, bk', fs)" and "sane_book bk" and "sane_order taker"
    and "stored taker bk"
  shows "reserved u a (bk_orders bk') \<le> reserved u a (bk_orders bk)"
proof -
  have keyed: "keyed o_id (bk_orders bk)"
    using assms(2) by (simp add: sane_book_def)
  show ?thesis
    using assms(1) keyed assms(4)
  proof (rule matchTakerOrder_cases)
    fix bk1 fs1 st
    assume loop: "matchLoop now taker bk = (tk, bk1, fs1)"
      and upd: "bk_orders bk' = save_row o_id tk (bk_orders bk1)"
      and st: "row_of o_id (o_id tk) (bk_orders bk1) = Some st" "o_side st = o_side taker"
        "o_assetId st = o_assetId taker" "o_userId st = o_userId taker"
        "o_amount st = o_amount taker" "o_filledAmount st = o_filledAmount taker" "isOpen st"
    have wf: "sane_book bk1" "sane_order tk"
      using matchLoop_wf [OF loop assms(2,3)] by simp_all
    have le: "reserved u a (bk_orders bk1) \<le> reserved u a (bk_orders bk)"
      "0 \<le> sum_list (map f_fillAmount fs1)"
      using matchLoop_reserved [OF loop assms(2,3)] by simp_all
    have "reserveOf u a tk \<le> reserveOf u a st"
      using matchLoop_taker [OF loop] st le(2) wf(2)
      by (auto simp: reserveOf_def remainingAmount_def sane_order_def)
    with le(1) wf(1) st(1) show ?thesis
      by (simp add: upd reserved_save_row sane_book_def)
  qed
qed

section \<open>Price-time priority and limits\<close>

interpretation buy_queue: query_order "makerBefore BUY"
proof
  fix x y z :: Order
  show "\<not> makerBefore BUY y x" if "makerBefore BUY x y"
    using that by (cases "o_price x"; cases "o_price y") (auto simp: makerBefore_def)
  show "\<not> makerBefore BUY z x" if "\<not> makerBefore BUY y x" "\<not> makerBefore BUY z y"
    using that by (cases "o_price x"; cases "o_price y"; cases "o_price z")
      (auto simp: makerBefore_def)
qed

interpretation sell_queue: query_order "makerBefore SELL"
proof
  fix x y z :: Order
  show "\<not> makerBefore SELL y x" if "makerBefore SELL x y"
    using that by (cases "o_price x"; cases "o_price y") (auto simp: makerBefore_def)
  show "\<not> makerBefore SELL z x" if "\<not> makerBefore SELL y x" "\<not> makerBefore SELL z y"
    using that by (cases "o_price x"; cases "o_price y"; cases "o_price z")
      (auto simp: makerBefore_def)
qed

lemma bestMaker_minimal:
  assumes "bestMaker taker t = Some m" and "x \<in> set t" and "crossable taker x"
  shows "\<not> makerBefore (o_side taker) x m"
  using assms buy_queue.first_by_minimal sell_queue.first_by_minimal
  by (cases "o_side taker") (auto simp: bestMaker_def)

lemma makerBefore_cong:
  "o_price a = o_price a' \<Longrightarrow> o_createdAt a = o_createdAt a' \<Longrightarrow>
   o_price b = o_price b' \<Longrightarrow> o_createdAt b = o_createdAt b' \<Longrightarrow>
     makerBefore s a b = makerBefore s a' b'"
  by (simp add: makerBefore_def)

text \<open>Every maker filled was a crossable row of the book the loop started from.\<close>

lemma matchLoop_makers:
  assumes "matchLoop now taker bk = (tk, bk', fs)"
  shows "\<forall>f\<in>set fs. \<exists>m\<in>set (bk_orders bk). crossable taker m \<and>
    o_id (f_makerOrder f) = o_id m \<and> o_price (f_makerOrder f) = o_price m \<and>
    o_createdAt (f_makerOrder f) = o_createdAt m \<and> f_fillPrice f = priceNumber m"
  using assms
proof (induction rule: matchLoop_induct)
  case (stop taker bk)
  then show ?case by simp
next
  case (step taker bk maker tk bk' fs)
  have "\<exists>m'\<in>set (bk_orders bk). crossable taker m' \<and> o_id m = o_id m' \<and>
      o_price m = o_price m' \<and> o_createdAt m = o_createdAt m' \<and> priceNumber m = priceNumber m'"
    if "m \<in> set (bk_orders (fillBook now taker maker bk))" "crossable taker m" for m
  proof (cases "m = fillMaker now taker maker")
    case True
    then show ?thesis using step.hyps
      by (intro bexI [where x = maker]) (simp_all add: priceNumber_def)
  next
    case False
    with that show ?thesis by (auto simp: set_save_row)
  qed
  with step show ?case by (fastforce simp: priceNumber_def)
qed

lemma matchLoop_priority:
  assumes "matchLoop now taker bk = (tk, bk', fs)"
  shows "sorted_wrt (\<lambda>f g. \<not> makerBefore (o_side taker) (f_makerOrder g) (f_makerOrder f)) fs"
  using assms
proof (induction rule: matchLoop_induct)
  case (stop taker bk)
  then show ?case by simp
next
  case (step taker bk maker tk bk' fs)
  have "\<not> makerBefore (o_side taker) (f_makerOrder g) (fillMaker now taker maker)"
    if g: "g \<in> set fs" for g
  proof -
    obtain m where m: "m \<in> set (bk_orders (fillBook now taker maker bk))" "crossable taker m"
      "o_price (f_makerOrder g) = o_price m" "o_createdAt (f_makerOrder g) = o_createdAt m"
      using bspec [OF matchLoop_makers [OF step.hyps(5)] g] by auto
    have "\<not> makerBefore (o_side taker) m maker"
    proof (cases "m = fillMaker now taker maker")
      case True
      then show ?thesis
        using bestMaker_minimal [OF step.hyps(2,3,4)] by (simp add: makerBefore_def)
    next
      case False
      with m show ?thesis
        using bestMaker_minimal [OF step.hyps(2)] by (auto simp: set_save_row)
    qed
    with m show ?thesis by (simp add: makerBefore_def)
  qed
  with step.IH show ?case by simp
qed

section \<open>Average fill price\<close>

text \<open>
  An order whose average is a number (or still null with nothing filled); \<open>notional\<close> is the
  value its fills add up to.
\<close>

definition avg_ok :: "Order \<Rightarrow> bool" where
  "avg_ok ord = (case o_averageFillPrice ord of None \<Rightarrow> o_filledAmount ord = 0
                 | Some (Fin v) \<Rightarrow> True | Some x \<Rightarrow> False)"

definition notional :: "Order \<Rightarrow> real" where
  "notional ord = (case avgNumber ord of Fin v \<Rightarrow> o_filledAmount ord * v | _ \<Rightarrow> 0)"

lemma applyFill_vwap:
  assumes "avg_ok ord" and "0 \<le> o_filledAmount ord" and "0 < a"
  shows "avg_ok (applyFill now ord a p)" "notional (applyFill now ord a p) = notional ord + a * p"
proof -
  obtain v where v: "avgNumber ord = Fin v"
    using assms(1) by (auto simp: avg_ok_def avgNumber_def split: option.splits jsnum.splits)
  have avg: "o_averageFillPrice (applyFill now ord a p) =
      Some (Fin ((o_filledAmount ord * v + a * p) / (o_filledAmount ord + a)))"
    using assms v by (simp add: applyFill_average)
  then show "avg_ok (applyFill now ord a p)" by (simp add: avg_ok_def)
  have "o_filledAmount ord + a \<noteq> 0" using assms by linarith
  then show "notional (applyFill now ord a p) = notional ord + a * p"
    using avg v assms by (simp add: notional_def avgNumber_def [of "applyFill now ord a p"])
qed

text \<open>No resting order that the taker can reach is already exhausted.\<close>

definition liveMakers :: "Order \<Rightarrow> 'a book_scheme \<Rightarrow> bool" where
  "liveMakers taker bk = list_all (\<lambda>m. crossable taker m \<longrightarrow> 0 < remainingAmount m) (bk_orders bk)"

lemma liveMakers_fillBook:
  assumes "liveMakers taker bk"
  shows "liveMakers (fillTaker now taker maker) (fillBook now taker maker bk)"
proof -
  have "0 < remainingAmount (fillMaker now taker maker)"
    if "crossable taker (fillMaker now taker maker)"
    using that
    by (auto simp: crossable_def isResting_def fillMaker_def applyFill_status remainingAmount_def
        split: if_splits)
  with assms show ?thesis
    by (auto simp: liveMakers_def list_all_iff set_save_row)
qed

lemma matchLoop_vwap:
  assumes "matchLoop now taker bk = (tk, bk', fs)"
    and "liveMakers taker bk" and "avg_ok taker" and "0 \<le> o_filledAmount taker"
  shows "avg_ok tk \<and>
    notional tk = notional taker + sum_list (map (\<lambda>f. f_fillAmount f * f_fillPrice f) fs)"
  using assms
proof (induction rule: matchLoop_induct)
  case (stop taker bk)
  then show ?case by simp
next
  case (step taker bk maker tk bk' fs)
  have pos: "0 < fillAmountOf taker maker"
    using step by (auto simp: liveMakers_def list_all_iff fillAmountOf_def)
  have "avg_ok (fillTaker now taker maker)"
    "notional (fillTaker now taker maker) =
       notional taker + fillAmountOf taker maker * priceNumber maker"
    using applyFill_vwap [OF step.prems(2,3) pos] by (simp_all add: fillTaker_def)
  moreover have "0 \<le> o_filledAmount (fillTaker now taker maker)"
    using step.prems(3) pos by simp
  ultimately show ?case
    using step.IH liveMakers_fillBook [OF step.prems(1)] by simp
qed

text \<open>Once the average is \<open>NaN\<close> no later fill repairs it.\<close>

lemma applyFill_NaN:
  "o_averageFillPrice ord = Some NaN \<Longrightarrow> o_averageFillPrice (applyFill now ord a p) = Some NaN"
  by (simp add: applyFill_average avgNumber_def)

lemma matchLoop_NaN:
  assumes "matchLoop now taker bk = (tk, bk', fs)" and "o_averageFillPrice taker = Some NaN"
  shows "o_averageFillPrice tk = Some NaN"
  using assms by (induction rule: matchLoop_induct) (auto simp: fillTaker_def applyFill_NaN)

section \<open>The order-book snapshot\<close>

record OrderBookLevelSnapshot =
  lv_price :: real
  lv_amount :: real
  lv_count :: nat

text \<open>
  The loop that fills the \<open>Map\<close> of levels. A \<open>Map\<close> keeps its keys in the order of their first
  insertion, so it is the table of its values.
\<close>

definition addToLevel :: "OrderBookLevelSnapshot list \<Rightarrow> Order \<Rightarrow> OrderBookLevelSnapshot list" where
  "addToLevel byPrice ord =
     (let price = priceNumber ord;
          level = (case row_of lv_price price byPrice of
                     None \<Rightarrow> \<lparr>lv_price = price, lv_amount = 0, lv_count = 0\<rparr> | Some l \<Rightarrow> l)
      in save_row lv_price
           (level\<lparr>lv_amount := lv_amount level + remainingAmount ord,
                  lv_count := lv_count level + 1\<rparr>) byPrice)"

definition aggregate :: "OrderSide \<Rightarrow> Order list \<Rightarrow> OrderBookLevelSnapshot list" where
  "aggregate side resting = foldl addToLevel [] (filter (\<lambda>x. o_side x = side) resting)"

record OrderBookSnapshot =
  sn_assetId :: asset_id
  sn_bids :: "OrderBookLevelSnapshot list"
  sn_asks :: "OrderBookLevelSnapshot list"

definition getOrderBookSnapshot :: "asset_id \<Rightarrow> 'a book_scheme \<Rightarrow> OrderBookSnapshot" where
  "getOrderBookSnapshot assetId bk =
     (let resting = filter (\<lambda>x. o_assetId x = assetId \<and> isResting x) (bk_orders bk)
      in \<lparr>sn_assetId = assetId,
          sn_bids = sort_key (\<lambda>l. - lv_price l) (aggregate BUY resting),
          sn_asks = sort_key lv_price (aggregate SELL resting)\<rparr>)"

lemma addToLevel_keyed: "keyed lv_price ls \<Longrightarrow> keyed lv_price (addToLevel ls ord)"
  by (simp add: addToLevel_def Let_def keyed_save_row)

lemma addToLevel_amount:
  assumes "keyed lv_price ls"
  shows "sum_list (map lv_amount (addToLevel ls ord)) =
    sum_list (map lv_amount ls) + remainingAmount ord"
  using row_of_Some_in [of lv_price "priceNumber ord" ls]
  by (auto simp: addToLevel_def Let_def sum_list_save_row [OF assms] split: option.splits)

lemma foldl_addToLevel:
  "keyed lv_price ls \<Longrightarrow> keyed lv_price (foldl addToLevel ls os) \<and>
     sum_list (map lv_amount (foldl addToLevel ls os)) =
       sum_list (map lv_amount ls) + sum_list (map remainingAmount os)"
  by (induction os arbitrary: ls) (auto simp: addToLevel_keyed addToLevel_amount)

lemma aggregate_spec:
  "keyed lv_price (aggregate side resting)"
  "sum_list (map lv_amount (aggregate side resting)) =
     sum_list (map remainingAmount (filter (\<lambda>x. o_side x = side) resting))"
  using foldl_addToLevel [of "[]"] by (simp_all add: aggregate_def keyed_def)

lemma sum_list_sort_key: "sum_list (map f (sort_key k xs)) = sum_list (map f xs)"
  for f :: "'r \<Rightarrow> 'a :: comm_monoid_add"
  by (metis mset_map mset_sort sum_mset_sum_list)

lemma sort_key_strict:
  "distinct (map k xs) \<Longrightarrow> sorted_wrt (<) (map k (sort_key k xs))"
  by (metis mset_eq_imp_distinct_iff mset_map mset_sort sorted_sort_key strict_sorted_iff)

lemma distinct_map_negated: "distinct (map (\<lambda>l. - k l) xs) = distinct (map k xs)"
  for k :: "'r \<Rightarrow> real"
  by (induction xs) auto

section \<open>Properties of the matching engine\<close>

definition ex_order ::
  "uuid \<Rightarrow> uid \<Rightarrow> OrderSide \<Rightarrow> OrderType \<Rightarrow> real \<Rightarrow> real option \<Rightarrow> Order" where
  "ex_order i u s t amt p =
     \<lparr>o_id = i, o_userId = u, o_assetId = 1, o_side = s, o_type = t, o_status = PENDING,
      o_amount = amt, o_filledAmount = 0, o_averageFillPrice = None, o_price = p,
      o_stopPrice = None, o_trailingDelta = None, o_trailingReferencePrice = None,
      o_triggeredAt = None, o_filledAt = None, o_cancelledAt = None, o_expiresAt = None,
      o_createdAt = int i\<rparr>"

definition ex_taker :: Order where
  "ex_taker = ex_order 3 9 BUY LIMIT 4 (Some 10)"

definition ex_book :: book where
  "ex_book =
     \<lparr>bk_orders = [ex_order 1 7 SELL LIMIT 2 (Some 10), ex_order 2 8 SELL LIMIT 3 (Some 9), ex_taker],
      bk_trades = [], bk_events = []\<rparr>"

definition ex_match :: "Order \<times> book \<times> FillResult list" where
  "ex_match = matchTakerOrder 100 ex_taker ex_book"

lemma ex_match_run: "matchTakerOrder 100 ex_taker ex_book =
    (fst ex_match, fst (snd ex_match), snd (snd ex_match))"
  by (simp add: ex_match_def)

lemma ex_wf: "wf_book ex_book" "wf_order ex_taker" "stored ex_taker ex_book"
  by (simp_all add: wf_book_def keyed_def ex_book_def ex_taker_def ex_order_def wf_order_def
      stored_def isOpen_def)

lemma priceAccepts_limit:
  "priceAccepts taker m \<Longrightarrow> o_type taker = LIMIT \<Longrightarrow> o_price taker = Some limit \<Longrightarrow>
     (case o_side taker of BUY \<Rightarrow> priceNumber m \<le> limit | SELL \<Rightarrow> limit \<le> priceNumber m)"
  by (simp add: priceAccepts_def priceNumber_def split: option.splits OrderSide.splits)

text \<open>
  C3. Price-time priority inside the limit. Every fill of a match is against an order that was
  resting on the opposite side of the same asset, at that maker's own price, which the limit of a
  LIMIT taker accepts; and the makers are taken in price-time order: no later maker was before an
  earlier one in the book.
\<close>

theorem fills_follow_price_time_priority:
  assumes "matchTakerOrder now taker bk = (tk, bk', fs)"
  shows "sorted_wrt (\<lambda>f g. \<not> makerBefore (o_side taker) (f_makerOrder g) (f_makerOrder f)) fs \<and>
    (\<forall>f\<in>set fs. \<exists>m\<in>set (bk_orders bk).
       o_id (f_makerOrder f) = o_id m \<and> isResting m \<and> o_assetId m = o_assetId taker \<and>
       o_side m = oppositeSide (o_side taker) \<and> f_fillPrice f = priceNumber m \<and>
       (\<forall>limit. o_type taker = LIMIT \<and> o_price taker = Some limit \<longrightarrow>
          (case o_side taker of BUY \<Rightarrow> f_fillPrice f \<le> limit | SELL \<Rightarrow> limit \<le> f_fillPrice f)))"
proof -
  obtain bk1 fs1 where loop: "matchLoop now taker bk = (tk, bk1, fs1)"
    and fs: "fs = map (\<lambda>f. f\<lparr>f_takerOrder := tk\<rparr>) fs1"
    using assms by (auto simp: matchTakerOrder_eq)
  have "sorted_wrt (\<lambda>f g. \<not> makerBefore (o_side taker) (f_makerOrder g) (f_makerOrder f)) fs"
    using matchLoop_priority [OF loop] by (simp add: fs sorted_wrt_map)
  moreover have "\<exists>m\<in>set (bk_orders bk).
       o_id (f_makerOrder f) = o_id m \<and> isResting m \<and> o_assetId m = o_assetId taker \<and>
       o_side m = oppositeSide (o_side taker) \<and> f_fillPrice f = priceNumber m \<and>
       (\<forall>limit. o_type taker = LIMIT \<and> o_price taker = Some limit \<longrightarrow>
          (case o_side taker of BUY \<Rightarrow> f_fillPrice f \<le> limit | SELL \<Rightarrow> limit \<le> f_fillPrice f))"
    if f: "f \<in> set fs" for f
  proof -
    obtain g where g: "g \<in> set fs1" "f = g\<lparr>f_takerOrder := tk\<rparr>"
      using f unfolding fs by auto
    obtain m where m: "m \<in> set (bk_orders bk)" "crossable taker m"
      "o_id (f_makerOrder g) = o_id m" "f_fillPrice g = priceNumber m"
      using bspec [OF matchLoop_makers [OF loop] g(1)] by auto
    have "\<forall>limit. o_type taker = LIMIT \<and> o_price taker = Some limit \<longrightarrow>
        (case o_side taker of BUY \<Rightarrow> priceNumber m \<le> limit | SELL \<Rightarrow> limit \<le> priceNumber m)"
      using m(2) priceAccepts_limit by (simp add: crossable_def)
    moreover have "f_fillPrice f = priceNumber m" "o_id (f_makerOrder f) = o_id m"
      using m(3,4) by (simp_all add: g(2))
    ultimately show ?thesis
      using m(1,2) by (intro bexI [where x = m]) (simp_all add: crossable_def split: OrderSide.splits)
  qed
  ultimately show ?thesis by blast
qed

theorem fills_follow_price_time_priority_witness:
  "map f_fillPrice (snd (snd ex_match)) = [9, 10] \<and>
   sorted_wrt (\<lambda>f g. \<not> makerBefore (o_side ex_taker) (f_makerOrder g) (f_makerOrder f))
     (snd (snd ex_match)) \<and>
   list_all (\<lambda>f. \<exists>m\<in>set (bk_orders ex_book). isResting m \<and> f_fillPrice f = priceNumber m)
     (snd (snd ex_match))"
proof -
  have "map f_fillPrice (snd (snd ex_match)) = [9, 10]" by code_simp
  with fills_follow_price_time_priority [OF ex_match_run] show ?thesis
    unfolding list_all_iff by blast
qed

text \<open>
  C4. No over-fill, and the quantities add up. Matching a stored, well-formed order against a
  well-formed book fills only non-negative amounts; the taker's filled amount grows by exactly
  their sum and stays within its amount; every stored order is still well formed (filled between
  0 and its amount, FILLED only when all of it is), so in particular no maker is over-filled.
\<close>

theorem match_never_overfills:
  assumes "matchTakerOrder now taker bk = (tk, bk', fs)" and "wf_book bk" and "wf_order taker"
  shows "(\<forall>f\<in>set fs. 0 \<le> f_fillAmount f) \<and>
    o_filledAmount tk = o_filledAmount taker + sum_list (map f_fillAmount fs) \<and>
    o_filledAmount tk \<le> o_amount taker \<and> wf_order tk \<and> (\<forall>x\<in>set (bk_orders bk'). wf_order x)"
proof -
  obtain bk1 fs1 where loop: "matchLoop now taker bk = (tk, bk1, fs1)"
    and fs: "fs = map (\<lambda>f. f\<lparr>f_takerOrder := tk\<rparr>) fs1"
    using assms(1) by (auto simp: matchTakerOrder_eq)
  have "\<forall>f\<in>set fs1. 0 \<le> f_fillAmount f"
    using matchLoop_amounts_nonneg [OF loop] assms(2,3) by (simp add: wf_book_sane wf_order_parts)
  moreover have "sane_book bk'" "sane_order tk"
    using matchTakerOrder_wf [OF assms(1)] assms(2,3) by (simp_all add: wf_book_sane wf_order_parts)
  moreover have "list_all priced_order (bk_orders bk')" "priced_order tk"
    using matchTakerOrder_all [where P = priced_order, OF assms(1)] assms(2,3)
    by (simp_all add: wf_book_priced wf_order_parts priced_order_def)
  ultimately show ?thesis
    using matchLoop_taker [OF loop]
    by (auto simp: fs wf_order_parts sane_order_def sane_book_def list_all_iff comp_def)
qed

theorem match_never_overfills_witness:
  "map f_fillAmount (snd (snd ex_match)) = [3, 1] \<and> o_filledAmount (fst ex_match) = 4 \<and>
   wf_order (fst ex_match)"
proof -
  have "map f_fillAmount (snd (snd ex_match)) = [3, 1]" "o_filledAmount (fst ex_match) = 4"
    by code_simp+
  with match_never_overfills [OF ex_match_run ex_wf(1,2)] show ?thesis by simp
qed

text \<open>
  C5. Matching goes on until nothing crosses. The loop always ends, and when it does a
  well-formed taker is completely filled or the resulting book holds no resting order it could
  still trade with.
\<close>

theorem match_leaves_nothing_to_cross:
  assumes "matchTakerOrder now taker bk = (tk, bk', fs)" and "wf_book bk" and "wf_order taker"
  shows "remainingAmount tk = 0 \<or> (\<forall>m\<in>set (bk_orders bk'). \<not> crossable tk m)"
proof -
  obtain bk1 fs1 where loop: "matchLoop now taker bk = (tk, bk1, fs1)"
    and bk': "bk_orders bk' = save_row o_id tk (bk_orders bk1)"
    using assms(1) by (auto simp: matchTakerOrder_eq)
  have "0 \<le> remainingAmount tk"
    using matchLoop_wf [OF loop] assms(2,3)
    by (simp add: wf_book_sane wf_order_parts sane_order_def remainingAmount_def)
  moreover have "\<not> crossable tk tk" by (simp add: crossable_def)
  ultimately show ?thesis
    using matchLoop_complete [OF loop] by (auto simp: bk' set_save_row)
qed

theorem match_leaves_nothing_to_cross_witness:
  "remainingAmount (fst ex_match) = 0 \<or>
   (\<forall>m\<in>set (bk_orders (fst (snd ex_match))). \<not> crossable (fst ex_match) m)"
  by (rule match_leaves_nothing_to_cross [OF ex_match_run ex_wf(1,2)])

text \<open>
  The average fill price is the volume-weighted average. When no reachable maker is already
  exhausted and the taker's average is a number, it is one afterwards, and average times filled
  amount grew by exactly the value of the fills.
\<close>

theorem average_fill_price_is_vwap:
  assumes "matchTakerOrder now taker bk = (tk, bk', fs)"
    and "liveMakers taker bk" and "avg_ok taker" and "0 \<le> o_filledAmount taker"
  shows "avg_ok tk \<and>
    notional tk = notional taker + sum_list (map (\<lambda>f. f_fillAmount f * f_fillPrice f) fs)"
  using assms matchLoop_vwap [OF _ assms(2-4)] by (fastforce simp: matchTakerOrder_eq comp_def)

theorem average_fill_price_is_vwap_witness:
  "o_averageFillPrice (fst ex_match) = Some (Fin (37 / 4)) \<and> notional (fst ex_match) = 37"
proof -
  have "sum_list (map (\<lambda>f. f_fillAmount f * f_fillPrice f) (snd (snd ex_match))) = 37"
    "o_averageFillPrice (fst ex_match) = Some (Fin (37 / 4))"
    by code_simp+
  moreover have "liveMakers ex_taker ex_book" "avg_ok ex_taker" "notional ex_taker = 0"
    by (simp_all add: liveMakers_def ex_book_def ex_taker_def ex_order_def avg_ok_def
        remainingAmount_def notional_def avgNumber_def)
  moreover have "0 \<le> o_filledAmount ex_taker" by (simp add: ex_taker_def ex_order_def)
  ultimately show ?thesis using average_fill_price_is_vwap [OF ex_match_run] by simp
qed

text \<open>
  The order-book snapshot. Bids come in falling and asks in rising price order, each price at
  most once, and the amounts of all levels of a side add up to the remaining amounts of that
  side's resting orders of the asset.
\<close>

theorem snapshot_aggregates_the_book:
  "(let snap = getOrderBookSnapshot assetId bk;
        resting = filter (\<lambda>x. o_assetId x = assetId \<and> isResting x) (bk_orders bk);
        total = (\<lambda>side. sum_list (map remainingAmount (filter (\<lambda>x. o_side x = side) resting)))
    in sorted_wrt (>) (map lv_price (sn_bids snap)) \<and> sorted_wrt (<) (map lv_price (sn_asks snap)) \<and>
       sum_list (map lv_amount (sn_bids snap)) = total BUY \<and>
       sum_list (map lv_amount (sn_asks snap)) = total SELL)"
  using sort_key_strict [of "lv_price :: OrderBookLevelSnapshot \<Rightarrow> real"] aggregate_spec
    sort_key_strict [of "\<lambda>l :: OrderBookLevelSnapshot. - lv_price l", unfolded distinct_map_negated]
  by (simp add: Let_def getOrderBookSnapshot_def sum_list_sort_key keyed_def sorted_wrt_map)

end
