(* ===== verification/Balances.thy ===== *)
theory Balances
  imports Prelude
begin

text \<open>
  The \<open>user_balances\<close> table of \<open>src/database/entities/user-balance.entity.ts\<close>, one row per
  (user, asset). The order service and the margin service both reserve funds in its
  \<open>lockedBalance\<close> column. With it the \<open>virtual_assets\<close> table of
  \<open>src/database/entities/virtual-asset.entity.ts\<close>, which several services read.
\<close>

record VirtualAsset =
  va_id :: asset_id
  va_symbol :: string
  va_name :: string
  va_price :: real

record UserBalance =
  b_id :: nat
  b_userId :: uid
  b_assetId :: asset_id
  b_balance :: real
  b_lockedBalance :: real
  b_totalTrades :: nat
  b_cumulativePnL :: real
  b_totalTradeVolume :: real
  b_lastTradeDate :: "timestamp option"
  b_totalInvested :: real
  b_averageBuyPrice :: real

definition availableBalance :: "UserBalance \<Rightarrow> real" where
  "availableBalance b = b_balance b - b_lockedBalance b"

definition balanceKey :: "UserBalance \<Rightarrow> uid \<times> asset_id" where
  "balanceKey b = (b_userId b, b_assetId b)"

abbreviation findBalance :: "uid \<Rightarrow> asset_id \<Rightarrow> UserBalance list \<Rightarrow> UserBalance option" where
  "findBalance u a t \<equiv> row_of balanceKey (u, a) t"

abbreviation saveBalance :: "UserBalance \<Rightarrow> UserBalance list \<Rightarrow> UserBalance list" where
  "saveBalance b t \<equiv> save_row balanceKey b t"

interpretation balances: repository balanceKey "row_of balanceKey" "save_row balanceKey"
  by unfold_locales (simp_all add: row_of_save)

text \<open>What is locked and what is available, read through the table; no row means nothing.\<close>

definition lockedOf :: "uid \<Rightarrow> asset_id \<Rightarrow> UserBalance list \<Rightarrow> real" where
  "lockedOf u a t = (case findBalance u a t of None \<Rightarrow> 0 | Some b \<Rightarrow> b_lockedBalance b)"

definition availableOf :: "uid \<Rightarrow> asset_id \<Rightarrow> UserBalance list \<Rightarrow> real" where
  "availableOf u a t = (case findBalance u a t of None \<Rightarrow> 0 | Some b \<Rightarrow> availableBalance b)"

definition solvent :: "UserBalance \<Rightarrow> bool" where
  "solvent b = (0 \<le> b_lockedBalance b \<and> b_lockedBalance b \<le> b_balance b)"

definition wf_balances :: "UserBalance list \<Rightarrow> bool" where
  "wf_balances t = (keyed balanceKey t \<and> list_all solvent t)"

lemma findBalance_key: "findBalance u a t = Some b \<Longrightarrow> b_userId b = u \<and> b_assetId b = a"
  using row_of_Some_in [of balanceKey "(u, a)" t b] by (simp add: balanceKey_def)

lemma findBalance_solvent: "wf_balances t \<Longrightarrow> findBalance u a t = Some b \<Longrightarrow> solvent b"
  using row_of_Some_in [of balanceKey "(u, a)" t b] by (auto simp: wf_balances_def list_all_iff)

lemma wf_balances_save: "wf_balances t \<Longrightarrow> solvent b \<Longrightarrow> wf_balances (saveBalance b t)"
  by (auto simp: wf_balances_def keyed_save_row list_all_iff set_save_row)

lemma balanceKey_update [simp]:
  "balanceKey (b\<lparr>b_lockedBalance := x\<rparr>) = balanceKey b"
  "balanceKey (b\<lparr>b_balance := y\<rparr>) = balanceKey b"
  "balanceKey (b\<lparr>b_lockedBalance := x, b_balance := y\<rparr>) = balanceKey b"
  by (simp_all add: balanceKey_def)

lemma lockedOf_find: "findBalance u a t = Some b \<Longrightarrow> lockedOf u a t = b_lockedBalance b"
  by (simp add: lockedOf_def)

lemma lockedOf_save:
  assumes "findBalance u a t = Some b" and "balanceKey b' = balanceKey b"
  shows "lockedOf v c (saveBalance b' t) =
    (if v = u \<and> c = a then b_lockedBalance b' else lockedOf v c t)"
  using assms findBalance_key [OF assms(1)]
  by (auto simp: lockedOf_def balances.find_save balanceKey_def)

lemma lockedOf_nonneg: "wf_balances t \<Longrightarrow> 0 \<le> lockedOf u a t"
  by (auto simp: lockedOf_def solvent_def dest: findBalance_solvent split: option.split)

end
