(* ===== verification/OrdersService.thy ===== *)
theory OrdersService
  imports OrderBook Balances
begin

text \<open>
  The order service, \<open>src/orders/orders.service.ts\<close> with its DTOs: placing, cancelling,
  modifying and reading orders. A request runs in one database transaction: an exception
  leaves the state as it was, so an operation returns the exception or the new state.
  The lemmas show that every operation keeps the invariant \<open>orders_inv\<close>: stored orders are
  well formed, no balance is over-locked, the locked funds of a user cover all of that user's
  open SELL orders, and for every asset the quantity bought is the quantity sold.
\<close>

section \<open>Data\<close>

record CreateOrderDto =
  c_assetId :: asset_id
  c_side :: OrderSide
  c_type :: OrderType
  c_amount :: real
  c_price :: "real option"
  c_stopPrice :: "real option"
  c_trailingDelta :: "real option"
  c_expiresInSeconds :: "real option"

record ModifyOrderDto =
  m_orderId :: uuid
  m_price :: "real option"
  m_amount :: "real option"
  m_stopPrice :: "real option"
  m_trailingDelta :: "real option"

text \<open>
  The class-validator decorators; @ValidateIf makes the price fields required by type. Those of
  \<open>ModifyOrderDto\<close> are never evaluated: the route declares its body as \<open>Omit<ModifyOrderDto, 'orderId'>\<close>,
  which is no class at run time, so any numbers reach \<open>modifyOrder\<close>.
\<close>

definition validCreateOrderDto :: "CreateOrderDto \<Rightarrow> bool" where
  "validCreateOrderDto dto =
     (0 < c_amount dto \<and>
      (c_type dto = LIMIT \<longrightarrow> (case c_price dto of None \<Rightarrow> False | Some p \<Rightarrow> 0 < p)) \<and>
      (c_type dto = STOP_LOSS \<or> c_type dto = TAKE_PROFIT \<longrightarrow>
         (case c_stopPrice dto of None \<Rightarrow> False | Some p \<Rightarrow> 0 < p)) \<and>
      (c_type dto = TRAILING_STOP \<longrightarrow>
         (case c_trailingDelta dto of None \<Rightarrow> False | Some d \<Rightarrow> 1 / 100 \<le> d)))"

record OrderUpdate =
  u_id :: uuid
  u_userId :: uid
  u_asset :: asset_id
  u_type :: string
  u_amount :: real
  u_price :: jsnum
  u_filled :: real
  u_remaining :: real
  u_status :: string
  u_timestamp :: timestamp

record order_db = book +
  od_balances :: "UserBalance list"
  od_broadcasts :: "OrderUpdate list"

section \<open>Operations\<close>

fun statusMap :: "OrderStatus \<Rightarrow> string" where
  "statusMap PENDING = ''pending''"
| "statusMap PARTIAL = ''partially_filled''"
| "statusMap FILLED = ''filled''"
| "statusMap CANCELLED = ''cancelled''"
| "statusMap TRIGGERED = ''pending''"
| "statusMap REJECTED = ''cancelled''"

definition orderUpdate :: "timestamp \<Rightarrow> Order \<Rightarrow> OrderUpdate" where
  "orderUpdate now ord =
     \<lparr>u_id = o_id ord, u_userId = o_userId ord, u_asset = o_assetId ord,
      u_type = (if o_side ord = BUY then ''buy'' else ''sell''),
      u_amount = o_amount ord,
      u_price = (case o_price ord of Some p \<Rightarrow> Fin p | None \<Rightarrow> avgNumber ord),
      u_filled = o_filledAmount ord, u_remaining = remainingAmount ord,
      u_status = statusMap (o_status ord), u_timestamp = now\<rparr>"

definition broadcastOrder ::
  "timestamp \<Rightarrow> Order \<Rightarrow> 'a order_db_scheme \<Rightarrow> 'a order_db_scheme" where
  "broadcastOrder now ord db = db\<lparr>od_broadcasts := od_broadcasts db @ [orderUpdate now ord]\<rparr>"

definition validateOrderShape :: "CreateOrderDto \<Rightarrow> unit result" where
  "validateOrderShape dto =
     (if c_type dto = LIMIT \<and> c_price dto = None
      then Inl (BadRequestException ''price is required for LIMIT orders'')
      else if (c_type dto = STOP_LOSS \<or> c_type dto = TAKE_PROFIT) \<and> c_stopPrice dto = None
      then Inl (BadRequestException ''stopPrice is required for STOP_LOSS / TAKE_PROFIT orders'')
      else if c_type dto = TRAILING_STOP \<and> c_trailingDelta dto = None
      then Inl (BadRequestException ''trailingDelta is required for TRAILING_STOP orders'')
      else Inr ())"

text \<open>A SELL order locks its amount; a BUY order locks nothing.\<close>

definition reserveFunds ::
  "uid \<Rightarrow> CreateOrderDto \<Rightarrow> 'a order_db_scheme \<Rightarrow> 'a order_db_scheme result" where
  "reserveFunds userId dto db =
     (if c_side dto = SELL then
        (case findBalance userId (c_assetId dto) (od_balances db) of
           None \<Rightarrow> Inl (BadRequestException ''Insufficient available balance to place sell order'')
         | Some b \<Rightarrow>
             if availableBalance b < c_amount dto
             then Inl (BadRequestException ''Insufficient available balance to place sell order'')
             else Inr (db\<lparr>od_balances := saveBalance
                    (b\<lparr>b_lockedBalance := b_lockedBalance b + c_amount dto\<rparr>) (od_balances db)\<rparr>))
      else Inr db)"

text \<open>\<open>new Date(Date.now() + s * 1000)\<close> drops the fraction; 0 seconds mean no expiry.\<close>

definition expiryDate :: "timestamp \<Rightarrow> real option \<Rightarrow> timestamp option" where
  "expiryDate now secs =
     (case secs of None \<Rightarrow> None
      | Some s \<Rightarrow> if s = 0 then None
          else (let ms = real_of_int now + s * 1000
                in Some (if 0 \<le> ms then \<lfloor>ms\<rfloor> else \<lceil>ms\<rceil>)))"

definition newOrder :: "timestamp \<Rightarrow> uuid \<Rightarrow> uid \<Rightarrow> CreateOrderDto \<Rightarrow> Order" where
  "newOrder now newId userId dto =
     \<lparr>o_id = newId, o_userId = userId, o_assetId = c_assetId dto, o_side = c_side dto,
      o_type = c_type dto, o_status = PENDING, o_amount = c_amount dto, o_filledAmount = 0,
      o_averageFillPrice = None,
      o_price = (if c_type dto = LIMIT then c_price dto else None),
      o_stopPrice = (if c_type dto = STOP_LOSS \<or> c_type dto = TAKE_PROFIT
                     then c_stopPrice dto else None),
      o_trailingDelta = (if c_type dto = TRAILING_STOP then c_trailingDelta dto else None),
      o_trailingReferencePrice = None, o_triggeredAt = None, o_filledAt = None,
      o_cancelledAt = None, o_expiresAt = expiryDate now (c_expiresInSeconds dto),
      o_createdAt = now\<rparr>"

definition saveOrder :: "Order \<Rightarrow> 'a book_scheme \<Rightarrow> 'a book_scheme" where
  "saveOrder ord db = db\<lparr>bk_orders := save_row o_id ord (bk_orders db)\<rparr>"

text \<open>Match an order that is an active taker and drop the list of fills.\<close>

definition matchWhen :: "bool \<Rightarrow> timestamp \<Rightarrow> Order \<Rightarrow> 'a book_scheme \<Rightarrow> Order \<times> 'a book_scheme" where
  "matchWhen active now ord db =
     (if active then (let (tk, db', fills) = matchTakerOrder now ord db in (tk, db'))
      else (ord, db))"

definition placeOrder ::
  "timestamp \<Rightarrow> uuid \<Rightarrow> uid \<Rightarrow> CreateOrderDto \<Rightarrow> 'a order_db_scheme \<Rightarrow>
     (Order \<times> 'a order_db_scheme) result" where
  "placeOrder now newId userId dto db =
     rbind (validateOrderShape dto) (\<lambda>_.
     rbind (reserveFunds userId dto db) (\<lambda>db1.
       let order0 = newOrder now newId userId dto;
           (order, db2) =
             matchWhen (c_type dto = MARKET \<or> c_type dto = LIMIT) now order0 (saveOrder order0 db1)
       in Inr (order, broadcastOrder now order db2)))"

definition releaseFunds :: "uid \<Rightarrow> Order \<Rightarrow> 'a order_db_scheme \<Rightarrow> 'a order_db_scheme" where
  "releaseFunds userId existing db =
     (if o_side existing = SELL then
        (case findBalance userId (o_assetId existing) (od_balances db) of
           None \<Rightarrow> db
         | Some b \<Rightarrow> db\<lparr>od_balances := saveBalance
             (b\<lparr>b_lockedBalance := max 0 (b_lockedBalance b - remainingAmount existing)\<rparr>)
             (od_balances db)\<rparr>)
      else db)"

definition findOwned :: "string \<Rightarrow> uid \<Rightarrow> uuid \<Rightarrow> 'a book_scheme \<Rightarrow> Order result" where
  "findOwned forbidden userId orderId db =
     (case row_of o_id orderId (bk_orders db) of
        None \<Rightarrow> Inl (NotFoundException ''Order not found'')
      | Some existing \<Rightarrow>
          if o_userId existing \<noteq> userId then Inl (ForbiddenException forbidden) else Inr existing)"

definition cancelOrder ::
  "timestamp \<Rightarrow> uid \<Rightarrow> uuid \<Rightarrow> 'a order_db_scheme \<Rightarrow> (Order \<times> 'a order_db_scheme) result" where
  "cancelOrder now userId orderId db =
     rbind (findOwned ''Cannot cancel another user's order'' userId orderId db) (\<lambda>existing.
     if o_status existing = FILLED \<or> o_status existing = CANCELLED
     then Inl (BadRequestException ''Cannot cancel order in status '')
     else
       let db1 = releaseFunds userId existing db;
           cancelled = existing\<lparr>o_status := CANCELLED, o_cancelledAt := Some now\<rparr>;
           db2 = saveOrder cancelled db1
       in Inr (cancelled, broadcastOrder now cancelled db2))"

definition modifyAmount ::
  "uid \<Rightarrow> real option \<Rightarrow> Order \<Rightarrow> 'a order_db_scheme \<Rightarrow> (Order \<times> 'a order_db_scheme) result" where
  "modifyAmount userId newAmount existing db =
     (case newAmount of
        None \<Rightarrow> Inr (existing, db)
      | Some amount \<Rightarrow>
          if amount < o_filledAmount existing
          then Inl (BadRequestException ''New amount cannot be less than already-filled amount'')
          else if o_side existing = SELL then
            (case findBalance userId (o_assetId existing) (od_balances db) of
               None \<Rightarrow> Inl (BadRequestException ''No balance found for asset'')
             | Some b \<Rightarrow>
                 let oldRemaining = remainingAmount existing;
                     newRemaining = amount - o_filledAmount existing;
                     delta = newRemaining - oldRemaining
                 in if delta > 0 \<and> availableBalance b < delta
                    then Inl (BadRequestException
                      ''Insufficient available balance to increase order amount'')
                    else Inr (existing\<lparr>o_amount := amount\<rparr>,
                      db\<lparr>od_balances := saveBalance
                        (b\<lparr>b_lockedBalance := b_lockedBalance b + delta\<rparr>) (od_balances db)\<rparr>))
          else Inr (existing\<lparr>o_amount := amount\<rparr>, db))"

definition modifyPrice :: "real option \<Rightarrow> Order \<Rightarrow> Order result" where
  "modifyPrice newPrice existing =
     (case newPrice of None \<Rightarrow> Inr existing
      | Some p \<Rightarrow> if o_type existing \<noteq> LIMIT
          then Inl (BadRequestException ''Price can only be modified on LIMIT orders'')
          else Inr (existing\<lparr>o_price := Some p\<rparr>))"

definition modifyStopPrice :: "real option \<Rightarrow> Order \<Rightarrow> Order result" where
  "modifyStopPrice newStop existing =
     (case newStop of None \<Rightarrow> Inr existing
      | Some p \<Rightarrow> if o_type existing \<noteq> STOP_LOSS \<and> o_type existing \<noteq> TAKE_PROFIT
          then Inl (BadRequestException
            ''stopPrice can only be modified on STOP_LOSS / TAKE_PROFIT orders'')
          else Inr (existing\<lparr>o_stopPrice := Some p\<rparr>))"

definition modifyTrailingDelta :: "real option \<Rightarrow> Order \<Rightarrow> Order result" where
  "modifyTrailingDelta newDelta existing =
     (case newDelta of None \<Rightarrow> Inr existing
      | Some d \<Rightarrow> if o_type existing \<noteq> TRAILING_STOP
          then Inl (BadRequestException
            ''trailingDelta can only be modified on TRAILING_STOP orders'')
          else Inr (existing\<lparr>o_trailingDelta := Some d\<rparr>))"

definition modifyPrices :: "ModifyOrderDto \<Rightarrow> Order \<Rightarrow> Order result" where
  "modifyPrices dto existing =
     rbind (modifyPrice (m_price dto) existing) (\<lambda>e1.
     rbind (modifyStopPrice (m_stopPrice dto) e1) (\<lambda>e2.
     modifyTrailingDelta (m_trailingDelta dto) e2))"

definition modifyOrder ::
  "timestamp \<Rightarrow> uid \<Rightarrow> ModifyOrderDto \<Rightarrow> 'a order_db_scheme \<Rightarrow>
     (Order \<times> 'a order_db_scheme) result" where
  "modifyOrder now userId dto db =
     rbind (findOwned ''Cannot modify another user's order'' userId (m_orderId dto) db) (\<lambda>found.
     if o_status found \<noteq> PENDING \<and> o_status found \<noteq> PARTIAL
     then Inl (BadRequestException ''Cannot modify order in status '')
     else
       rbind (modifyAmount userId (m_amount dto) found db) (\<lambda>(resized, db1).
       rbind (modifyPrices dto resized) (\<lambda>existing.
         let (order, db2) =
           matchWhen (o_type existing = LIMIT) now existing (saveOrder existing db1)
         in Inr (order, broadcastOrder now order db2))))"

definition getOrder :: "uid \<Rightarrow> uuid \<Rightarrow> 'a book_scheme \<Rightarrow> Order result" where
  "getOrder userId orderId db = findOwned ''Cannot view another user's order'' userId orderId db"

definition getUserOrders :: "uid \<Rightarrow> OrderStatus option \<Rightarrow> 'a book_scheme \<Rightarrow> Order list" where
  "getUserOrders userId status db =
     sort_key (\<lambda>x. - o_createdAt x)
       (filter (\<lambda>x. o_userId x = userId \<and>
                    (case status of None \<Rightarrow> True | Some s \<Rightarrow> o_status x = s)) (bk_orders db))"

section \<open>The invariant\<close>

definition balanced :: "'a book_scheme \<Rightarrow> bool" where
  "balanced bk = (\<forall>a. filledOn a BUY (bk_orders bk) = filledOn a SELL (bk_orders bk))"

definition covered :: "'a order_db_scheme \<Rightarrow> bool" where
  "covered db = (\<forall>u a. reserved u a (bk_orders db) \<le> lockedOf u a (od_balances db))"

definition orders_inv :: "'a order_db_scheme \<Rightarrow> bool" where
  "orders_inv db = (sane_book db \<and> balanced db \<and> wf_balances (od_balances db) \<and> covered db)"

text \<open>
  What the order service relies on in the matching engine: it keeps books well formed, moves
  the same quantity on both sides, never raises a reserve and leaves the balances alone.
\<close>

locale matching_engine =
  fixes match :: "Order \<Rightarrow> 'a order_db_scheme \<Rightarrow> Order \<times> 'a order_db_scheme \<times> FillResult list"
  assumes match_wf: "match ord db = (tk, db', fs) \<Longrightarrow> sane_book db \<Longrightarrow> sane_order ord \<Longrightarrow>
      sane_book db' \<and> sane_order tk"
    and match_filled: "match ord db = (tk, db', fs) \<Longrightarrow> sane_book db \<Longrightarrow> stored ord db \<Longrightarrow>
      filledOn a BUY (bk_orders db') - filledOn a SELL (bk_orders db') =
      filledOn a BUY (bk_orders db) - filledOn a SELL (bk_orders db)"
    and match_reserved: "match ord db = (tk, db', fs) \<Longrightarrow> sane_book db \<Longrightarrow> sane_order ord \<Longrightarrow>
      stored ord db \<Longrightarrow> reserved u a (bk_orders db') \<le> reserved u a (bk_orders db)"
    and match_balances: "match ord db = (tk, db', fs) \<Longrightarrow> od_balances db' = od_balances db"
begin

lemma match_orders_inv:
  assumes "match ord db = (tk, db', fs)" and "orders_inv db" and "sane_order ord" and "stored ord db"
  shows "orders_inv db'"
proof -
  have wf: "sane_book db" using assms(2) by (simp add: orders_inv_def)
  have "balanced db'"
    using assms(2) match_filled [OF assms(1) wf assms(4)]
    by (simp add: orders_inv_def balanced_def)
  moreover have "covered db'"
    unfolding covered_def
  proof (intro allI)
    fix u a
    show "reserved u a (bk_orders db') \<le> lockedOf u a (od_balances db')"
      using assms(2) match_reserved [OF assms(1) wf assms(3,4), of u a] match_balances [OF assms(1)]
      by (simp add: orders_inv_def covered_def) (meson order_trans)
  qed
  ultimately show ?thesis
    using assms match_wf [OF assms(1) wf assms(3)] match_balances [OF assms(1)]
    by (simp add: orders_inv_def)
qed

end

lemma matchLoop_balances:
  fixes db :: "'a order_db_scheme"
  shows "matchLoop now taker db = (tk, db', fs) \<Longrightarrow> od_balances db' = od_balances db"
  by (induction rule: matchLoop_induct) (simp_all add: fillBook_def Let_def)

interpretation engine: matching_engine "matchTakerOrder now" for now
proof
  fix ord tk :: Order and db db' :: "'a order_db_scheme" and fs u a
  assume run: "matchTakerOrder now ord db = (tk, db', fs)"
  show "sane_book db' \<and> sane_order tk" if "sane_book db" "sane_order ord"
    using matchTakerOrder_wf [OF run that] .
  show "filledOn a BUY (bk_orders db') - filledOn a SELL (bk_orders db') =
      filledOn a BUY (bk_orders db) - filledOn a SELL (bk_orders db)"
    if "sane_book db" "stored ord db"
    using that by (simp add: matchTakerOrder_filledOn [OF run] sane_book_def)
  show "reserved u a (bk_orders db') \<le> reserved u a (bk_orders db)"
    if "sane_book db" "sane_order ord" "stored ord db"
    using matchTakerOrder_reserved [OF run that] .
  show "od_balances db' = od_balances db"
    using run matchLoop_balances by (fastforce simp: matchTakerOrder_eq)
qed

section \<open>The operations keep the invariant\<close>

lemma saveOrder_simps [simp]:
  "bk_orders (saveOrder ord db) = save_row o_id ord (bk_orders db)"
  "od_balances (saveOrder ord db2) = od_balances (db2 :: 'b order_db_scheme)"
  by (simp_all add: saveOrder_def)

lemma orders_inv_broadcast [simp]: "orders_inv (broadcastOrder now ord db) = orders_inv db"
  by (simp add: orders_inv_def broadcastOrder_def sane_book_def balanced_def covered_def)

lemma sane_book_saveOrder: "sane_book db \<Longrightarrow> sane_order ord \<Longrightarrow> sane_book (saveOrder ord db)"
  unfolding saveOrder_def by (rule sane_book_save)

lemma stored_saveOrder: "isOpen ord \<Longrightarrow> stored ord (saveOrder ord db)"
  by (simp add: stored_def row_of_save)

text \<open>
  Saving an order keeps the invariant when its fills stay and the balance table moved by as
  much as the reserve of the order.
\<close>

lemma orders_inv_saveOrder:
  fixes db db1 :: "'a order_db_scheme"
  assumes inv: "orders_inv db" and orders: "bk_orders db1 = bk_orders db"
    and bal: "wf_balances (od_balances db1)" and ord: "sane_order ord"
    and fill: "\<And>a s. (case row_of o_id (o_id ord) (bk_orders db) of None \<Rightarrow> 0
        | Some old \<Rightarrow> if o_assetId old = a \<and> o_side old = s then o_filledAmount old else 0) =
        (if o_assetId ord = a \<and> o_side ord = s then o_filledAmount ord else 0)"
    and lock: "\<And>u a. reserved u a (bk_orders db) \<le> lockedOf u a (od_balances db) \<Longrightarrow>
        reserved u a (bk_orders db) + reserveOf u a ord
        - (case row_of o_id (o_id ord) (bk_orders db) of None \<Rightarrow> 0
           | Some old \<Rightarrow> reserveOf u a old) \<le> lockedOf u a (od_balances db1)"
  shows "orders_inv (saveOrder ord db1)"
proof -
  have keyed: "keyed o_id (bk_orders db)" and "sane_book db1"
    using inv orders by (simp_all add: orders_inv_def sane_book_def)
  then have "sane_book (saveOrder ord db1)"
    using ord by (simp add: sane_book_saveOrder)
  moreover have "balanced (saveOrder ord db1)"
    using inv fill by (simp add: balanced_def orders_inv_def orders filledOn_save_row [OF keyed])
  moreover have "covered (saveOrder ord db1)"
    using inv lock by (simp add: covered_def orders_inv_def orders reserved_save_row [OF keyed])
  ultimately show ?thesis using bal by (simp add: orders_inv_def)
qed

lemma matchWhen_orders_inv:
  fixes db :: "'a order_db_scheme"
  assumes "orders_inv db" and "sane_order ord" and "stored ord db"
    and "matchWhen active now ord db = (tk, db')"
  shows "orders_inv db'"
  using assms engine.match_orders_inv [where now = now and ord = ord and db = db]
  by (auto simp: matchWhen_def split: if_splits prod.splits)

text \<open>Placing.\<close>

lemma reserveFunds_spec:
  assumes "reserveFunds userId dto db = Inr db1" and "wf_balances (od_balances db)"
    and "0 < c_amount dto"
  shows "bk_orders db1 = bk_orders db \<and> wf_balances (od_balances db1) \<and>
    lockedOf u a (od_balances db1) = lockedOf u a (od_balances db) +
      (if c_side dto = SELL \<and> u = userId \<and> a = c_assetId dto then c_amount dto else 0)"
proof (cases "c_side dto = SELL")
  case False
  with assms show ?thesis by (simp add: reserveFunds_def)
next
  case True
  with assms(1) obtain b where b: "findBalance userId (c_assetId dto) (od_balances db) = Some b"
    and avail: "c_amount dto \<le> availableBalance b"
    and db1: "db1 = db\<lparr>od_balances := saveBalance
      (b\<lparr>b_lockedBalance := b_lockedBalance b + c_amount dto\<rparr>) (od_balances db)\<rparr>"
    by (auto simp: reserveFunds_def split: option.splits if_splits)
  have "solvent (b\<lparr>b_lockedBalance := b_lockedBalance b + c_amount dto\<rparr>)"
    using findBalance_solvent [OF assms(2) b] avail assms(3)
    by (simp add: solvent_def availableBalance_def)
  then show ?thesis
    using True b assms(2) by (auto simp: db1 wf_balances_save lockedOf_save [OF b] lockedOf_find)
qed

lemma newOrder_simps [simp]:
  "o_id (newOrder now i u dto) = i" "o_userId (newOrder now i u dto) = u"
  "o_assetId (newOrder now i u dto) = c_assetId dto" "o_side (newOrder now i u dto) = c_side dto"
  "o_type (newOrder now i u dto) = c_type dto" "o_amount (newOrder now i u dto) = c_amount dto"
  "o_filledAmount (newOrder now i u dto) = 0" "o_status (newOrder now i u dto) = PENDING"
  "isOpen (newOrder now i u dto)" "remainingAmount (newOrder now i u dto) = c_amount dto"
  "o_averageFillPrice (newOrder now i u dto) = None"
  by (simp_all add: newOrder_def isOpen_def remainingAmount_def)

lemma wf_newOrder: "validCreateOrderDto dto \<Longrightarrow> sane_order (newOrder now i u dto)"
  by (auto simp: sane_order_def validCreateOrderDto_def newOrder_def split: option.splits)

lemma placeOrder_Inr:
  fixes db :: "'a order_db_scheme"
  assumes "placeOrder now newId userId dto db = Inr (ord, db')"
  obtains db1 db2 where "reserveFunds userId dto db = Inr db1"
    and "matchWhen (c_type dto = MARKET \<or> c_type dto = LIMIT) now (newOrder now newId userId dto)
       (saveOrder (newOrder now newId userId dto) db1) = (ord, db2)"
    and "db' = broadcastOrder now ord db2"
proof -
  from assms obtain db1 where "reserveFunds userId dto db = Inr db1"
    and "(let (order, db2) = matchWhen (c_type dto = MARKET \<or> c_type dto = LIMIT) now
            (newOrder now newId userId dto) (saveOrder (newOrder now newId userId dto) db1)
          in Inr (order, broadcastOrder now order db2)) = (Inr (ord, db') :: (Order \<times> 'a order_db_scheme) result)"
    by (auto simp: placeOrder_def Let_def)
  then show thesis by (auto split: prod.splits intro: that)
qed

lemma placeOrder_inv:
  assumes "placeOrder now newId userId dto db = Inr (ord, db')" and inv: "orders_inv db"
    and dto: "validCreateOrderDto dto" and fresh: "row_of o_id newId (bk_orders db) = None"
  shows "orders_inv db'"
  using assms(1)
proof (rule placeOrder_Inr)
  fix db1 db2
  let ?new = "newOrder now newId userId dto"
  assume res: "reserveFunds userId dto db = Inr db1"
    and mat: "matchWhen (c_type dto = MARKET \<or> c_type dto = LIMIT) now ?new (saveOrder ?new db1)
      = (ord, db2)"
    and db': "db' = broadcastOrder now ord db2"
  have bal: "wf_balances (od_balances db)" and pos: "0 < c_amount dto"
    using inv dto by (simp_all add: orders_inv_def validCreateOrderDto_def)
  note spec = reserveFunds_spec [OF res bal pos]
  have "orders_inv (saveOrder ?new db1)"
  proof (rule orders_inv_saveOrder [OF inv])
    show "sane_order ?new" by (rule wf_newOrder [OF dto])
    show "reserved u a (bk_orders db) + reserveOf u a ?new -
        (case row_of o_id (o_id ?new) (bk_orders db) of None \<Rightarrow> 0 | Some old \<Rightarrow> reserveOf u a old)
        \<le> lockedOf u a (od_balances db1)"
      if "reserved u a (bk_orders db) \<le> lockedOf u a (od_balances db)" for u a
      using that spec [of u a] fresh by (auto simp: reserveOf_def)
  qed (use spec fresh in simp_all)
  from matchWhen_orders_inv [OF this wf_newOrder [OF dto] stored_saveOrder mat]
  show ?thesis by (simp add: db')
qed

text \<open>Cancelling.\<close>

lemma findOwned_Inr:
  "findOwned msg userId orderId db = Inr ord \<longleftrightarrow>
     row_of o_id orderId (bk_orders db) = Some ord \<and> o_userId ord = userId"
  by (auto simp: findOwned_def split: option.splits)

lemma stored_row:
  assumes "sane_book db" and "row_of o_id k (bk_orders db) = Some ord"
  shows "sane_order ord" "o_id ord = k" "reserveOf u a ord \<le> reserved u a (bk_orders db)"
  using row_of_Some_in [OF assms(2)] assms(1) reserved_ge_member [of "bk_orders db" ord]
  by (auto simp: sane_book_def list_all_iff)

lemma releaseFunds_orders [simp]: "bk_orders (releaseFunds userId ord db) = bk_orders db"
  by (simp add: releaseFunds_def split: option.split)

lemma releaseFunds_spec:
  assumes "wf_balances (od_balances db)" and "0 \<le> remainingAmount ord"
  shows "wf_balances (od_balances (releaseFunds userId ord db))"
    and "lockedOf u a (od_balances db) -
      (if o_side ord = SELL \<and> u = userId \<and> a = o_assetId ord then remainingAmount ord else 0)
      \<le> lockedOf u a (od_balances (releaseFunds userId ord db))"
proof -
  have "wf_balances (od_balances (releaseFunds userId ord db)) \<and>
    lockedOf u a (od_balances db) -
      (if o_side ord = SELL \<and> u = userId \<and> a = o_assetId ord then remainingAmount ord else 0)
      \<le> lockedOf u a (od_balances (releaseFunds userId ord db))"
  proof (cases "findBalance userId (o_assetId ord) (od_balances db)")
    case None
    with assms show ?thesis by (simp add: releaseFunds_def)
  next
    case (Some b)
    have "solvent (b\<lparr>b_lockedBalance := max 0 (b_lockedBalance b - remainingAmount ord)\<rparr>)"
      using findBalance_solvent [OF assms(1) Some] assms(2) by (simp add: solvent_def)
    with Some assms show ?thesis
      by (auto simp: releaseFunds_def wf_balances_save lockedOf_save [OF Some] lockedOf_find)
  qed
  then show "wf_balances (od_balances (releaseFunds userId ord db))"
    and "lockedOf u a (od_balances db) -
      (if o_side ord = SELL \<and> u = userId \<and> a = o_assetId ord then remainingAmount ord else 0)
      \<le> lockedOf u a (od_balances (releaseFunds userId ord db))"
    by simp_all
qed

lemma cancelOrder_Inr:
  assumes "cancelOrder now userId orderId db = Inr (ord, db')"
  obtains found where "row_of o_id orderId (bk_orders db) = Some found" "o_userId found = userId"
    "isOpen found" "ord = found\<lparr>o_status := CANCELLED, o_cancelledAt := Some now\<rparr>"
    "db' = broadcastOrder now ord (saveOrder ord (releaseFunds userId found db))"
  using assms
  by (auto simp: cancelOrder_def findOwned_Inr isOpen_def Let_def split: if_splits)

lemma cancelOrder_inv:
  assumes "cancelOrder now userId orderId db = Inr (ord, db')" and inv: "orders_inv db"
  shows "orders_inv db'"
  using assms(1)
proof (rule cancelOrder_Inr)
  fix found
  assume row: "row_of o_id orderId (bk_orders db) = Some found"
    and own: "o_userId found = userId" and opn: "isOpen found"
    and ord: "ord = found\<lparr>o_status := CANCELLED, o_cancelledAt := Some now\<rparr>"
    and db': "db' = broadcastOrder now ord (saveOrder ord (releaseFunds userId found db))"
  have wf: "sane_book db" "wf_balances (od_balances db)"
    using inv by (simp_all add: orders_inv_def)
  note found = stored_row [OF wf(1) row]
  have rem: "0 \<le> remainingAmount found"
    using found(1) by (simp add: sane_order_def remainingAmount_def)
  note rel = releaseFunds_spec [OF wf(2) rem, where userId = userId]
  have "orders_inv (saveOrder ord (releaseFunds userId found db))"
  proof (rule orders_inv_saveOrder [OF inv])
    show "sane_order ord" using found(1) by (simp add: ord sane_order_def split: option.splits)
    show "reserved u a (bk_orders db) + reserveOf u a ord -
        (case row_of o_id (o_id ord) (bk_orders db) of None \<Rightarrow> 0 | Some old \<Rightarrow> reserveOf u a old)
        \<le> lockedOf u a (od_balances (releaseFunds userId found db))"
      if "reserved u a (bk_orders db) \<le> lockedOf u a (od_balances db)" for u a
      using that rel(2) [where u = u and a = a] row found(2) own opn
      by (cases "o_side found = SELL \<and> u = userId \<and> a = o_assetId found")
        (auto simp: ord reserveOf_def isOpen_def)
  qed (use rel row found in \<open>simp_all add: ord\<close>)
  then show ?thesis by (simp add: db')
qed

text \<open>Modifying.\<close>

definition samePosition :: "Order \<Rightarrow> Order \<Rightarrow> bool" where
  "samePosition x y =
     (o_id x = o_id y \<and> o_userId x = o_userId y \<and> o_assetId x = o_assetId y \<and>
      o_side x = o_side y \<and> o_type x = o_type y \<and> o_status x = o_status y \<and>
      o_amount x = o_amount y \<and> o_filledAmount x = o_filledAmount y)"

lemma modifyPrice_Inr:
  "modifyPrice v e = Inr e' \<Longrightarrow> samePosition e' e \<and> (sane_order e \<longrightarrow> sane_order e')"
  by (auto simp: modifyPrice_def samePosition_def sane_order_def split: option.splits if_splits)

lemma modifyStopPrice_Inr:
  "modifyStopPrice v e = Inr e' \<Longrightarrow> samePosition e' e \<and> (sane_order e \<longrightarrow> sane_order e')"
  by (auto simp: modifyStopPrice_def samePosition_def sane_order_def split: option.splits if_splits)

lemma modifyTrailingDelta_Inr:
  "modifyTrailingDelta v e = Inr e' \<Longrightarrow> samePosition e' e \<and> (sane_order e \<longrightarrow> sane_order e')"
  by (auto simp: modifyTrailingDelta_def samePosition_def sane_order_def
      split: option.splits if_splits)

lemma modifyPrices_Inr:
  assumes "modifyPrices dto existing = Inr ord"
  shows "samePosition ord existing" and "sane_order existing \<Longrightarrow> sane_order ord"
proof -
  obtain e1 e2 where "modifyPrice (m_price dto) existing = Inr e1"
    "modifyStopPrice (m_stopPrice dto) e1 = Inr e2"
    "modifyTrailingDelta (m_trailingDelta dto) e2 = Inr ord"
    using assms by (auto simp: modifyPrices_def)
  then show "samePosition ord existing" and "sane_order existing \<Longrightarrow> sane_order ord"
    using modifyPrice_Inr modifyStopPrice_Inr modifyTrailingDelta_Inr by (fastforce simp: samePosition_def)+
qed

lemma modifyAmount_spec:
  assumes run: "modifyAmount userId amt existing db = Inr (ord, db1)"
    and wf: "sane_order existing" "wf_balances (od_balances db)" and own: "o_userId existing = userId"
    and opn: "isOpen existing"
    and cov: "reserveOf userId (o_assetId existing) existing
      \<le> lockedOf userId (o_assetId existing) (od_balances db)"
  shows "\<exists>n. ord = existing\<lparr>o_amount := n\<rparr> \<and> sane_order ord \<and> bk_orders db1 = bk_orders db \<and>
    wf_balances (od_balances db1) \<and>
    (\<forall>u a. lockedOf u a (od_balances db1) =
       lockedOf u a (od_balances db) + reserveOf u a ord - reserveOf u a existing)"
proof (cases amt)
  case None
  with run wf show ?thesis
    by (intro exI [of _ "o_amount existing"]) (simp add: modifyAmount_def)
next
  case (Some n)
  have n: "o_filledAmount existing \<le> n"
    using run Some by (auto simp: modifyAmount_def split: if_splits)
  have ord: "ord = existing\<lparr>o_amount := n\<rparr>"
    using run Some by (auto simp: modifyAmount_def Let_def split: if_splits option.splits)
  have wf': "sane_order ord"
    using wf(1) n opn by (simp add: ord sane_order_def isOpen_def)
  show ?thesis
  proof (cases "o_side existing = SELL")
    case False
    with run Some ord wf wf' show ?thesis
      by (intro exI [of _ n]) (auto simp: modifyAmount_def reserveOf_def split: if_splits)
  next
    case True
    define delta where "delta = (n - o_filledAmount existing) - remainingAmount existing"
    obtain b where b: "findBalance userId (o_assetId existing) (od_balances db) = Some b"
      and avail: "delta > 0 \<longrightarrow> delta \<le> availableBalance b"
      and db1: "db1 = db\<lparr>od_balances :=
        saveBalance (b\<lparr>b_lockedBalance := b_lockedBalance b + delta\<rparr>) (od_balances db)\<rparr>"
      using run Some True n
      by (auto simp: modifyAmount_def Let_def delta_def split: option.splits if_splits)
    have "remainingAmount existing \<le> b_lockedBalance b"
      using cov True own opn by (simp add: reserveOf_def lockedOf_find [OF b])
    then have "solvent (b\<lparr>b_lockedBalance := b_lockedBalance b + delta\<rparr>)"
      using findBalance_solvent [OF wf(2) b] avail n
      by (auto simp: solvent_def availableBalance_def delta_def)
    moreover have "reserveOf u a ord - reserveOf u a existing =
        (if u = userId \<and> a = o_assetId existing then delta else 0)" for u a
      using True own opn by (auto simp: ord reserveOf_def isOpen_def remainingAmount_def delta_def)
    ultimately show ?thesis
      using wf(2) wf' ord
      by (intro exI [of _ n])
        (auto simp: db1 wf_balances_save lockedOf_save [OF b] lockedOf_find [OF b] algebra_simps)
  qed
qed

lemma modifyOrder_Inr:
  fixes db :: "'a order_db_scheme"
  assumes "modifyOrder now userId dto db = Inr (ord, db')"
  obtains found resized db1 existing db2
  where "row_of o_id (m_orderId dto) (bk_orders db) = Some found" "o_userId found = userId"
    "o_status found = PENDING \<or> o_status found = PARTIAL"
    "modifyAmount userId (m_amount dto) found db = Inr (resized, db1)"
    "modifyPrices dto resized = Inr existing"
    "matchWhen (o_type existing = LIMIT) now existing (saveOrder existing db1) = (ord, db2)"
    "db' = broadcastOrder now ord db2"
proof -
  from assms obtain found where found: "row_of o_id (m_orderId dto) (bk_orders db) = Some found"
      "o_userId found = userId" "o_status found = PENDING \<or> o_status found = PARTIAL"
    and rest: "rbind (modifyAmount userId (m_amount dto) found db) (\<lambda>(resized, db1).
       rbind (modifyPrices dto resized) (\<lambda>existing.
         let (order, db2) =
           matchWhen (o_type existing = LIMIT) now existing (saveOrder existing db1)
         in Inr (order, broadcastOrder now order db2))) = Inr (ord, db')"
    by (auto simp: modifyOrder_def findOwned_Inr split: if_splits)
  from rest obtain resized db1 existing
    where "modifyAmount userId (m_amount dto) found db = Inr (resized, db1)"
      "modifyPrices dto resized = Inr existing"
      "(let (order, db2) =
          matchWhen (o_type existing = LIMIT) now existing (saveOrder existing db1)
        in Inr (order, broadcastOrder now order db2)) =
       (Inr (ord, db') :: (Order \<times> 'a order_db_scheme) result)"
    by auto
  with found show thesis by (auto split: prod.splits intro: that)
qed

lemma modifyOrder_inv:
  assumes "modifyOrder now userId dto db = Inr (ord, db')" and inv: "orders_inv db"
  shows "orders_inv db'"
  using assms(1)
proof (rule modifyOrder_Inr)
  fix found resized db1 existing db2
  assume row: "row_of o_id (m_orderId dto) (bk_orders db) = Some found"
    and own: "o_userId found = userId"
    and stat: "o_status found = PENDING \<or> o_status found = PARTIAL"
    and amt: "modifyAmount userId (m_amount dto) found db = Inr (resized, db1)"
    and prices: "modifyPrices dto resized = Inr existing"
    and mat: "matchWhen (o_type existing = LIMIT) now existing (saveOrder existing db1) = (ord, db2)"
    and db': "db' = broadcastOrder now ord db2"
  have wf: "sane_book db" "wf_balances (od_balances db)" "covered db"
    using inv by (simp_all add: orders_inv_def)
  note found = stored_row [OF wf(1) row]
  have opn: "isOpen found" using stat by (auto simp: isOpen_def)
  have "reserveOf userId (o_assetId found) found
      \<le> lockedOf userId (o_assetId found) (od_balances db)"
    using found(3) wf(3) order_trans by (fastforce simp: covered_def)
  then obtain n where resized: "resized = found\<lparr>o_amount := n\<rparr>" "sane_order resized"
      "bk_orders db1 = bk_orders db" "wf_balances (od_balances db1)"
      "\<And>u a. lockedOf u a (od_balances db1) =
         lockedOf u a (od_balances db) + reserveOf u a resized - reserveOf u a found"
    using modifyAmount_spec [OF amt found(1) wf(2) own opn] by auto
  note kept = modifyPrices_Inr [OF prices]
  have same: "reserveOf u a existing = reserveOf u a resized" for u a
    using kept(1) by (simp add: samePosition_def reserveOf_def isOpen_def remainingAmount_def)
  have pos: "o_id existing = m_orderId dto" "o_assetId existing = o_assetId found"
      "o_side existing = o_side found" "o_filledAmount existing = o_filledAmount found"
      "isOpen existing"
    using kept(1) opn found(2) by (simp_all add: samePosition_def resized(1) isOpen_def)
  have "orders_inv (saveOrder existing db1)"
  proof (rule orders_inv_saveOrder [OF inv resized(3,4) kept(2) [OF resized(2)]])
    show "reserved u a (bk_orders db) + reserveOf u a existing -
        (case row_of o_id (o_id existing) (bk_orders db) of None \<Rightarrow> 0
         | Some old \<Rightarrow> reserveOf u a old) \<le> lockedOf u a (od_balances db1)"
      if "reserved u a (bk_orders db) \<le> lockedOf u a (od_balances db)" for u a
      using that row by (simp add: pos(1) same resized(5))
  qed (use row pos in simp)
  from matchWhen_orders_inv [OF this kept(2) [OF resized(2)] stored_saveOrder [OF pos(5)] mat]
  show ?thesis by (simp add: db')
qed

end
