(* ===== verification/StopOrderMonitor.thy ===== *)
theory StopOrderMonitor
  imports OrdersService
begin

text \<open>
  The periodic sweep over dormant stop orders,
  \<open>src/orders/services/stop-order-monitor.service.ts\<close>: fixed stops, trailing stops, and the
  trigger that turns an order into a taker. Then the requests the order module serves as one
  run: whatever requests and sweeps arrive, in whatever order, the invariant of the order
  service holds.
\<close>

section \<open>Trigger conditions\<close>

definition isFixedStopTriggered :: "Order \<Rightarrow> real \<Rightarrow> real \<Rightarrow> bool" where
  "isFixedStopTriggered ord currentPrice stopPrice =
     (if o_type ord = STOP_LOSS
      then (if o_side ord = SELL then currentPrice \<le> stopPrice else currentPrice \<ge> stopPrice)
      else (if o_side ord = SELL then currentPrice \<ge> stopPrice else currentPrice \<le> stopPrice))"

text \<open>\<open>Number(null)\<close> is 0.\<close>

definition numberOr0 :: "real option \<Rightarrow> real" where
  "numberOr0 v = (case v of None \<Rightarrow> 0 | Some x \<Rightarrow> x)"

text \<open>The trailing reference after the ratchet, whether it moved, and whether the stop is hit.\<close>

definition trailingReference :: "Order \<Rightarrow> real \<Rightarrow> real" where
  "trailingReference ord currentPrice =
     (let reference = (case o_trailingReferencePrice ord of None \<Rightarrow> currentPrice | Some r \<Rightarrow> r)
      in if o_side ord = SELL
         then (if currentPrice > reference then currentPrice else reference)
         else (if currentPrice < reference then currentPrice else reference))"

definition referenceMoved :: "Order \<Rightarrow> real \<Rightarrow> bool" where
  "referenceMoved ord currentPrice =
     (let reference = (case o_trailingReferencePrice ord of None \<Rightarrow> currentPrice | Some r \<Rightarrow> r)
      in if o_side ord = SELL then currentPrice > reference else currentPrice < reference)"

definition isTrailingStopTriggered :: "Order \<Rightarrow> real \<Rightarrow> bool" where
  "isTrailingStopTriggered ord currentPrice =
     (let delta = numberOr0 (o_trailingDelta ord);
          reference = trailingReference ord currentPrice
      in if o_side ord = SELL
         then currentPrice \<le> reference * (1 - delta / 100)
         else currentPrice \<ge> reference * (1 + delta / 100))"

section \<open>Processing one order\<close>

text \<open>
  The trigger: the row is read again; it is matched only if it is still PENDING. It is stored
  as TRIGGERED, set back to PENDING in memory and handed to the matching engine.
\<close>

definition trigger :: "timestamp \<Rightarrow> Order \<Rightarrow> 'a order_db_scheme \<Rightarrow> 'a order_db_scheme" where
  "trigger now ord db =
     (case row_of o_id (o_id ord) (bk_orders db) of
        None \<Rightarrow> db
      | Some fresh \<Rightarrow>
          if o_status fresh \<noteq> PENDING then db
          else
            let triggered = fresh\<lparr>o_status := TRIGGERED, o_triggeredAt := Some now\<rparr>;
                db1 = saveOrder triggered db;
                (result, db2, fills) = matchTakerOrder now (triggered\<lparr>o_status := PENDING\<rparr>) db1
            in broadcastOrder now result db2)"

definition processFixedStop ::
  "timestamp \<Rightarrow> Order \<Rightarrow> real \<Rightarrow> 'a order_db_scheme \<Rightarrow> 'a order_db_scheme" where
  "processFixedStop now ord currentPrice db =
     (if isFixedStopTriggered ord currentPrice (numberOr0 (o_stopPrice ord))
      then trigger now ord db else db)"

definition processTrailingStop ::
  "timestamp \<Rightarrow> Order \<Rightarrow> real \<Rightarrow> 'a order_db_scheme \<Rightarrow> 'a order_db_scheme" where
  "processTrailingStop now ord currentPrice db =
     (if isTrailingStopTriggered ord currentPrice then trigger now ord db
      else if referenceMoved ord currentPrice
      then saveOrder
        (ord\<lparr>o_trailingReferencePrice := Some (trailingReference ord currentPrice)\<rparr>) db
      else db)"

definition isDormant :: "Order \<Rightarrow> bool" where
  "isDormant ord =
     ((o_type ord = STOP_LOSS \<or> o_type ord = TAKE_PROFIT \<or> o_type ord = TRAILING_STOP) \<and>
      o_status ord = PENDING)"

definition sweepOne ::
  "timestamp \<Rightarrow> VirtualAsset list \<Rightarrow> Order \<Rightarrow> 'a order_db_scheme \<Rightarrow> 'a order_db_scheme" where
  "sweepOne now assets ord db =
     (case row_of va_id (o_assetId ord) assets of
        None \<Rightarrow> db
      | Some asset \<Rightarrow>
          if o_type ord = TRAILING_STOP then processTrailingStop now ord (va_price asset) db
          else processFixedStop now ord (va_price asset) db)"

text \<open>The dormant orders are read once, then processed one after the other.\<close>

definition sweep ::
  "timestamp \<Rightarrow> VirtualAsset list \<Rightarrow> 'a order_db_scheme \<Rightarrow> 'a order_db_scheme" where
  "sweep now assets db =
     fold (sweepOne now assets) (filter isDormant (bk_orders db)) db"

section \<open>Sweeps keep the invariant\<close>

definition activated :: "timestamp \<Rightarrow> Order \<Rightarrow> Order" where
  "activated now fresh = fresh\<lparr>o_triggeredAt := Some now, o_status := PENDING\<rparr>"

lemma trigger_cases:
  assumes "row_of o_id (o_id ord) (bk_orders db) = Some fresh" and "o_status fresh = PENDING"
  obtains result db2 fills
  where "matchTakerOrder now (activated now fresh)
      (saveOrder (fresh\<lparr>o_status := TRIGGERED, o_triggeredAt := Some now\<rparr>) db) = (result, db2, fills)"
    and "trigger now ord db = broadcastOrder now result db2"
proof (cases "matchTakerOrder now (activated now fresh)
    (saveOrder (fresh\<lparr>o_status := TRIGGERED, o_triggeredAt := Some now\<rparr>) db)")
  case (fields result db2 fills)
  then show thesis
    using assms by (intro that [of result db2 fills]) (simp_all add: trigger_def activated_def)
qed

lemma trigger_idle:
  assumes "\<not> (\<exists>fresh. row_of o_id (o_id ord) (bk_orders db) = Some fresh \<and> o_status fresh = PENDING)"
  shows "trigger now ord db = db"
  using assms by (auto simp: trigger_def split: option.splits)

lemma trigger_inv:
  assumes inv: "orders_inv db"
  shows "orders_inv (trigger now ord db)"
proof (cases "\<exists>fresh. row_of o_id (o_id ord) (bk_orders db) = Some fresh \<and> o_status fresh = PENDING")
  case False
  with inv show ?thesis by (simp add: trigger_idle)
next
  case True
  then obtain fresh where row: "row_of o_id (o_id ord) (bk_orders db) = Some fresh"
    and pend: "o_status fresh = PENDING" by blast
  let ?stored = "fresh\<lparr>o_status := TRIGGERED, o_triggeredAt := Some now\<rparr>"
  let ?taker = "activated now fresh"
  have wf: "sane_book db" "wf_balances (od_balances db)" using inv by (simp_all add: orders_inv_def)
  note fresh = stored_row [OF wf(1) row]
  have "orders_inv (saveOrder ?stored db)"
  proof (rule orders_inv_saveOrder [OF inv refl wf(2)])
    show "sane_order ?stored" using fresh(1) by (simp add: sane_order_def)
  qed (use row fresh(2) pend in
      \<open>simp_all add: reserveOf_def isOpen_def remainingAmount_def\<close>)
  moreover have "sane_order ?taker" using fresh(1) by (simp add: sane_order_def activated_def)
  moreover have "stored ?taker (saveOrder ?stored db)"
    by (simp add: stored_def row_of_save isOpen_def activated_def)
  moreover obtain result db2 fills
    where "matchTakerOrder now ?taker (saveOrder ?stored db) = (result, db2, fills)"
      and "trigger now ord db = broadcastOrder now result db2"
    using row pend by (rule trigger_cases)
  ultimately show ?thesis by (auto intro: engine.match_orders_inv)
qed

text \<open>A dormant order that is not the one triggered is not touched by a trigger.\<close>

lemma trigger_keeps_dormant:
  assumes "sane_book db" and row: "row_of o_id k (bk_orders db) = Some st" and "isDormant st"
    and "k \<noteq> o_id ord"
  shows "row_of o_id k (bk_orders (trigger now ord db)) = Some st"
proof (cases "\<exists>fresh. row_of o_id (o_id ord) (bk_orders db) = Some fresh \<and> o_status fresh = PENDING")
  case False
  with row show ?thesis by (simp add: trigger_idle)
next
  case True
  then obtain fresh where fresh: "row_of o_id (o_id ord) (bk_orders db) = Some fresh"
      "o_status fresh = PENDING" by blast
  then have id: "o_id fresh = o_id ord" using row_of_Some_in by fastforce
  have "\<not> crossable taker st" for taker
    using assms(3) by (auto simp: crossable_def isResting_def isDormant_def)
  moreover obtain result db2 fills where m: "matchTakerOrder now (activated now fresh)
      (saveOrder (fresh\<lparr>o_status := TRIGGERED, o_triggeredAt := Some now\<rparr>) db) = (result, db2, fills)"
      and "trigger now ord db = broadcastOrder now result db2"
    using fresh by (rule trigger_cases)
  ultimately show ?thesis
    using assms id matchTakerOrder_other_rows [OF m, of k st]
    by (simp add: broadcastOrder_def sane_book_def row_of_save keyed_save_row activated_def)
qed

lemma processTrailingStop_keeps_dormant:
  assumes "sane_book db" and "row_of o_id k (bk_orders db) = Some st" and "isDormant st"
    and "k \<noteq> o_id ord"
  shows "row_of o_id k (bk_orders (processTrailingStop now ord p db)) = Some st"
  using assms by (simp add: processTrailingStop_def trigger_keeps_dormant row_of_save)

lemma processTrailingStop_inv:
  assumes inv: "orders_inv db" and row: "row_of o_id (o_id ord) (bk_orders db) = Some ord"
  shows "orders_inv (processTrailingStop now ord p db)"
proof -
  have wf: "sane_book db" "wf_balances (od_balances db)" using inv by (simp_all add: orders_inv_def)
  have "orders_inv (saveOrder (ord\<lparr>o_trailingReferencePrice := Some r\<rparr>) db)" for r
  proof (rule orders_inv_saveOrder [OF inv refl wf(2)])
    show "sane_order (ord\<lparr>o_trailingReferencePrice := Some r\<rparr>)"
      using stored_row(1) [OF wf(1) row] by (simp add: sane_order_def)
  qed (use row in \<open>simp_all add: reserveOf_def isOpen_def remainingAmount_def\<close>)
  with inv show ?thesis by (simp add: processTrailingStop_def trigger_inv)
qed

lemma sweepOne_inv:
  assumes "orders_inv db" and "row_of o_id (o_id ord) (bk_orders db) = Some ord"
  shows "orders_inv (sweepOne now assets ord db)"
  using assms
  by (auto simp: sweepOne_def processFixedStop_def intro: trigger_inv processTrailingStop_inv
      split: option.split)

lemma sweepOne_keeps_dormant:
  assumes "orders_inv db" and "row_of o_id k (bk_orders db) = Some st" and "isDormant st"
    and "k \<noteq> o_id ord"
  shows "row_of o_id k (bk_orders (sweepOne now assets ord db)) = Some st"
  using assms
  by (auto simp: sweepOne_def processFixedStop_def orders_inv_def trigger_keeps_dormant
      processTrailingStop_keeps_dormant split: option.split)

lemma fold_sweepOne_inv:
  assumes "orders_inv db" and "distinct (map o_id os)"
    and "\<forall>x\<in>set os. isDormant x \<and> row_of o_id (o_id x) (bk_orders db) = Some x"
  shows "orders_inv (fold (sweepOne now assets) os db)"
  using assms
proof (induction os arbitrary: db)
  case Nil
  then show ?case by simp
next
  case (Cons x os)
  have "orders_inv (sweepOne now assets x db)"
    using Cons.prems by (simp add: sweepOne_inv)
  moreover have "row_of o_id (o_id y) (bk_orders (sweepOne now assets x db)) = Some y"
    if "y \<in> set os" for y
  proof (rule sweepOne_keeps_dormant)
    show "o_id y \<noteq> o_id x" using Cons.prems(2) that by (simp add: image_iff) metis
  qed (use Cons.prems that in auto)
  ultimately show ?case using Cons by simp
qed

lemma sweep_inv:
  assumes "orders_inv db"
  shows "orders_inv (sweep now assets db)"
  unfolding sweep_def
proof (rule fold_sweepOne_inv [OF assms])
  have "keyed o_id (bk_orders db)" using assms by (simp add: orders_inv_def sane_book_def)
  then show "distinct (map o_id (filter isDormant (bk_orders db)))"
    and "\<forall>x\<in>set (filter isDormant (bk_orders db)).
      isDormant x \<and> row_of o_id (o_id x) (bk_orders db) = Some x"
    by (auto simp: keyed_def distinct_map_filter row_of_keyed [unfolded keyed_def])
qed

section \<open>Requests to the order module\<close>

text \<open>
  The validation pipe refuses invalid DTOs of new orders and does not look at the body of a
  modification, the database generates unused ids, and a request whose transaction throws leaves
  the state as it was.
\<close>

datatype OrderRequest =
    PlaceOrder timestamp uuid uid CreateOrderDto
  | CancelOrder timestamp uid uuid
  | ModifyOrder timestamp uid ModifyOrderDto
  | Sweep timestamp "VirtualAsset list"

fun handleOrderRequest :: "OrderRequest \<Rightarrow> order_db \<Rightarrow> order_db" where
  "handleOrderRequest (PlaceOrder now newId userId dto) db =
     (if validCreateOrderDto dto \<and> row_of o_id newId (bk_orders db) = None
      then commit (\<lambda>s. map_sum id snd (placeOrder now newId userId dto s)) db else db)"
| "handleOrderRequest (CancelOrder now userId orderId) db =
     commit (\<lambda>s. map_sum id snd (cancelOrder now userId orderId s)) db"
| "handleOrderRequest (ModifyOrder now userId dto) db =
     commit (\<lambda>s. map_sum id snd (modifyOrder now userId dto s)) db"
| "handleOrderRequest (Sweep now assets) db = sweep now assets db"

interpretation order_requests: event_loop handleOrderRequest orders_inv
proof
  fix req and db :: order_db
  assume "orders_inv db"
  then show "orders_inv (handleOrderRequest req db)"
  proof (cases req)
    case (PlaceOrder now newId userId dto)
    have "orders_inv (commit (\<lambda>s. map_sum id snd (placeOrder now newId userId dto s)) db)"
      if "validCreateOrderDto dto" "row_of o_id newId (bk_orders db) = None"
      by (rule commit_map_snd) (use \<open>orders_inv db\<close> that placeOrder_inv in blast)+
    with PlaceOrder \<open>orders_inv db\<close> show ?thesis by simp
  next
    case (CancelOrder now userId orderId)
    have "orders_inv (commit (\<lambda>s. map_sum id snd (cancelOrder now userId orderId s)) db)"
      by (rule commit_map_snd) (use \<open>orders_inv db\<close> cancelOrder_inv in blast)+
    with CancelOrder show ?thesis by simp
  next
    case (ModifyOrder now userId dto)
    have "orders_inv (commit (\<lambda>s. map_sum id snd (modifyOrder now userId dto s)) db)"
      by (rule commit_map_snd) (use \<open>orders_inv db\<close> modifyOrder_inv in blast)+
    with ModifyOrder show ?thesis by simp
  next
    case (Sweep now assets)
    with \<open>orders_inv db\<close> show ?thesis by (simp add: sweep_inv)
  qed
qed

section \<open>Trailing stops and their reference price\<close>

text \<open>
  A trailing stop without a reference price: the sweep takes the current price as the
  reference, finds that it did not move and stores nothing.
\<close>

definition unarmed :: "Order \<Rightarrow> bool" where
  "unarmed ord =
     (o_type ord = TRAILING_STOP \<longrightarrow> o_trailingReferencePrice ord = None \<and>
      (case o_trailingDelta ord of None \<Rightarrow> False | Some d \<Rightarrow> 0 < d))"

lemma unarmed_cong:
  "o_type x = o_type y \<Longrightarrow> o_trailingReferencePrice x = o_trailingReferencePrice y \<Longrightarrow>
   o_trailingDelta x = o_trailingDelta y \<Longrightarrow> unarmed x = unarmed y"
  by (simp add: unarmed_def)

lemma unarmed_not_moved:
  "unarmed ord \<Longrightarrow> o_type ord = TRAILING_STOP \<Longrightarrow> \<not> referenceMoved ord p"
  by (simp add: unarmed_def referenceMoved_def)

lemma unarmed_not_triggered:
  assumes "unarmed ord" and "o_type ord = TRAILING_STOP" and "0 < p"
  shows "\<not> isTrailingStopTriggered ord p"
proof -
  obtain d where d: "o_trailingDelta ord = Some d" "0 < d"
    using assms by (auto simp: unarmed_def split: option.splits)
  have ref: "trailingReference ord p = p"
    using assms by (simp add: unarmed_def trailingReference_def)
  have "p * (1 - d / 100) < p" "p < p * (1 + d / 100)"
    using assms(3) d(2) by (simp_all add: algebra_simps)
  then show ?thesis
    using d by (simp add: isTrailingStopTriggered_def ref numberOr0_def)
qed

abbreviation allUnarmed :: "'a book_scheme \<Rightarrow> bool" where
  "allUnarmed db \<equiv> list_all unarmed (bk_orders db)"

lemma unarmed_applyFill: "unarmed ord \<Longrightarrow> unarmed (applyFill now ord a p)"
  by (simp add: unarmed_def applyFill_def Let_def)

lemma allUnarmed_saveOrder: "allUnarmed db \<Longrightarrow> unarmed ord \<Longrightarrow> allUnarmed (saveOrder ord db)"
  by (auto simp: list_all_iff set_save_row)

lemma allUnarmed_row: "allUnarmed db \<Longrightarrow> row_of o_id k (bk_orders db) = Some ord \<Longrightarrow> unarmed ord"
  using row_of_Some_in by (fastforce simp: list_all_iff)

lemma bk_orders_broadcast [simp]: "bk_orders (broadcastOrder now ord db) = bk_orders db"
  by (simp add: broadcastOrder_def)

lemma allUnarmed_matchWhen:
  assumes "matchWhen active now ord db = (tk, db')" and "allUnarmed db" and "unarmed ord"
  shows "allUnarmed db'"
  using assms matchTakerOrder_all(1) [where P = unarmed, OF _ _ _ unarmed_applyFill]
  by (auto simp: matchWhen_def split: if_splits prod.splits)

lemma placeOrder_unarmed:
  assumes "placeOrder now newId userId dto db = Inr (ord, db')" and "validCreateOrderDto dto"
    and "allUnarmed db"
  shows "allUnarmed db'"
  using assms(1)
proof (rule placeOrder_Inr)
  fix db1 db2
  assume res: "reserveFunds userId dto db = Inr db1"
    and mat: "matchWhen (c_type dto = MARKET \<or> c_type dto = LIMIT) now
      (newOrder now newId userId dto) (saveOrder (newOrder now newId userId dto) db1) = (ord, db2)"
    and db': "db' = broadcastOrder now ord db2"
  have "bk_orders db1 = bk_orders db"
    using res by (auto simp: reserveFunds_def split: if_splits option.splits)
  moreover have "unarmed (newOrder now newId userId dto)"
    using assms(2) by (auto simp: unarmed_def newOrder_def validCreateOrderDto_def
        split: option.splits)
  ultimately show ?thesis
    using assms(3) allUnarmed_matchWhen [OF mat] by (simp add: db' allUnarmed_saveOrder
        del: saveOrder_simps)
qed

lemma cancelOrder_unarmed:
  assumes "cancelOrder now userId orderId db = Inr (ord, db')" and "allUnarmed db"
  shows "allUnarmed db'"
  using assms(1)
proof (rule cancelOrder_Inr)
  fix found
  assume row: "row_of o_id orderId (bk_orders db) = Some found"
    and ord: "ord = found\<lparr>o_status := CANCELLED, o_cancelledAt := Some now\<rparr>"
    and db': "db' = broadcastOrder now ord (saveOrder ord (releaseFunds userId found db))"
  have "unarmed ord" using allUnarmed_row [OF assms(2) row] by (simp add: ord unarmed_def)
  with assms(2) show ?thesis by (auto simp: db' list_all_iff set_save_row)
qed

text \<open>A modification may put any number into \<open>trailingDelta\<close>: the requests that keep it positive.\<close>

fun keepsDeltaPositive :: "OrderRequest \<Rightarrow> bool" where
  "keepsDeltaPositive (ModifyOrder now userId dto) = (case m_trailingDelta dto of None \<Rightarrow> True | Some d \<Rightarrow> 0 < d)"
| "keepsDeltaPositive _ = True"

lemma modifyOrder_unarmed:
  assumes "modifyOrder now userId dto db = Inr (ord, db')" and "keepsDeltaPositive (ModifyOrder now userId dto)"
    and "allUnarmed db"
  shows "allUnarmed db'"
  using assms(1)
proof (rule modifyOrder_Inr)
  fix found resized db1 existing db2
  assume row: "row_of o_id (m_orderId dto) (bk_orders db) = Some found"
    and amt: "modifyAmount userId (m_amount dto) found db = Inr (resized, db1)"
    and prices: "modifyPrices dto resized = Inr existing"
    and mat: "matchWhen (o_type existing = LIMIT) now existing (saveOrder existing db1) = (ord, db2)"
    and db': "db' = broadcastOrder now ord db2"
  have db1: "bk_orders db1 = bk_orders db" and "unarmed resized"
    using amt allUnarmed_row [OF assms(3) row]
    by (auto simp: modifyAmount_def Let_def unarmed_def split: option.splits if_splits)
  then have "unarmed existing"
    using prices assms(2)
    by (auto simp: modifyPrices_def modifyPrice_def modifyStopPrice_def modifyTrailingDelta_def
        unarmed_def split: option.splits if_splits)
  with db1 assms(3) allUnarmed_matchWhen [OF mat] show ?thesis
    by (auto simp: db' list_all_iff set_save_row)
qed

lemma trigger_unarmed: "allUnarmed db \<Longrightarrow> allUnarmed (trigger now ord db)"
proof (cases "\<exists>fresh. row_of o_id (o_id ord) (bk_orders db) = Some fresh \<and> o_status fresh = PENDING")
  case True
  assume db: "allUnarmed db"
  from True obtain fresh where fresh: "row_of o_id (o_id ord) (bk_orders db) = Some fresh"
      "o_status fresh = PENDING" by blast
  have un: "unarmed fresh" using allUnarmed_row [OF db fresh(1)] .
  obtain result db2 fills where m: "matchTakerOrder now (activated now fresh)
      (saveOrder (fresh\<lparr>o_status := TRIGGERED, o_triggeredAt := Some now\<rparr>) db) = (result, db2, fills)"
      and t: "trigger now ord db = broadcastOrder now result db2"
    using fresh by (rule trigger_cases)
  have "allUnarmed db2"
  proof (rule matchTakerOrder_all(1) [OF m])
    show "list_all unarmed
        (bk_orders (saveOrder (fresh\<lparr>o_status := TRIGGERED, o_triggeredAt := Some now\<rparr>) db))"
      using db un by (intro allUnarmed_saveOrder) (simp_all add: unarmed_def)
  qed (use un in \<open>simp_all add: activated_def unarmed_def applyFill_def Let_def\<close>)
  then show ?thesis by (simp add: t)
qed (simp add: trigger_idle)

lemma sweep_unarmed:
  fixes db :: "'a order_db_scheme"
  assumes "allUnarmed db"
  shows "allUnarmed (sweep now assets db)"
proof -
  have one: "allUnarmed (sweepOne now assets x s)" if "unarmed x" "allUnarmed s" for x and s :: "'a order_db_scheme"
    using that by (auto simp: sweepOne_def processFixedStop_def processTrailingStop_def
        trigger_unarmed unarmed_not_moved split: option.split)
  have many: "allUnarmed (fold (sweepOne now assets) os s)"
    if "list_all unarmed os" "allUnarmed s" for os and s :: "'a order_db_scheme"
    using that by (induction os arbitrary: s) (auto intro: one)
  show ?thesis
    unfolding sweep_def by (rule many) (use assms in \<open>auto simp: list_all_iff\<close>)
qed

interpretation trailing_stops: guarded_loop handleOrderRequest allUnarmed keepsDeltaPositive
proof
  fix req and db :: order_db
  assume db: "allUnarmed db" and req: "keepsDeltaPositive req"
  show "allUnarmed (handleOrderRequest req db)"
  proof (cases req)
    case (PlaceOrder now newId userId dto)
    have "allUnarmed (commit (\<lambda>s. map_sum id snd (placeOrder now newId userId dto s)) db)"
      if "validCreateOrderDto dto"
      by (rule commit_map_snd) (use db that placeOrder_unarmed in blast)+
    with PlaceOrder db show ?thesis by simp
  next
    case (CancelOrder now userId orderId)
    have "allUnarmed (commit (\<lambda>s. map_sum id snd (cancelOrder now userId orderId s)) db)"
      by (rule commit_map_snd) (use db cancelOrder_unarmed in blast)+
    with CancelOrder show ?thesis by simp
  next
    case (ModifyOrder now userId dto)
    have "allUnarmed (commit (\<lambda>s. map_sum id snd (modifyOrder now userId dto s)) db)"
      by (rule commit_map_snd) (use db req ModifyOrder modifyOrder_unarmed in blast)+
    with ModifyOrder show ?thesis by simp
  next
    case (Sweep now assets)
    with db show ?thesis by (simp add: sweep_unarmed)
  qed
qed

section \<open>Properties of the order module\<close>

text \<open>An empty exchange: no orders, and the given balances.\<close>

definition freshExchange :: "UserBalance list \<Rightarrow> order_db" where
  "freshExchange bals =
     \<lparr>bk_orders = [], bk_trades = [], bk_events = [], od_balances = bals, od_broadcasts = []\<rparr>"

lemma freshExchange_inv: "wf_balances bals \<Longrightarrow> orders_inv (freshExchange bals)"
  by (simp add: orders_inv_def freshExchange_def sane_book_def keyed_def balanced_def filledOn_def
      covered_def reserved_def lockedOf_nonneg)

definition ex_balance :: "uid \<Rightarrow> asset_id \<Rightarrow> real \<Rightarrow> UserBalance" where
  "ex_balance u a x =
     \<lparr>b_id = u, b_userId = u, b_assetId = a, b_balance = x, b_lockedBalance = 0,
      b_totalTrades = 0, b_cumulativePnL = 0, b_totalTradeVolume = 0, b_lastTradeDate = None,
      b_totalInvested = 0, b_averageBuyPrice = 0\<rparr>"

definition ex_create :: "OrderSide \<Rightarrow> OrderType \<Rightarrow> real \<Rightarrow> real option \<Rightarrow> CreateOrderDto" where
  "ex_create s t x p =
     \<lparr>c_assetId = 1, c_side = s, c_type = t, c_amount = x,
      c_price = (if t = LIMIT then p else None),
      c_stopPrice = (if t = STOP_LOSS then p else None),
      c_trailingDelta = (if t = TRAILING_STOP then p else None), c_expiresInSeconds = None\<rparr>"

definition ex_requests :: "OrderRequest list" where
  "ex_requests =
     [PlaceOrder 1 1 7 (ex_create SELL LIMIT 2 (Some 10)),
      PlaceOrder 2 2 8 (ex_create BUY LIMIT 1 (Some 11)),
      PlaceOrder 3 3 7 (ex_create SELL TRAILING_STOP 1 (Some 5)),
      CancelOrder 4 7 1]"

text \<open>
  C1. Sell orders stay backed. Start an exchange with balances none of which is over-locked and
  serve any sequence of place, cancel and modify requests and stop-order sweeps, the modifications with
  any numbers, also zero and negative ones, since their body is not validated: afterwards,
  for every user and asset, the quantity that user's open SELL orders may still deliver is
  covered by the locked balance, and no balance row has more locked than it holds.
  (A text in the place of a number, such as 'NaN', is outside the model.)
\<close>

theorem sell_orders_stay_backed:
  assumes "wf_balances bals" and "db = fold handleOrderRequest requests (freshExchange bals)"
  shows "reserved u a (bk_orders db) \<le> lockedOf u a (od_balances db) \<and>
    (\<forall>b\<in>set (od_balances db). 0 \<le> b_lockedBalance b \<and> 0 \<le> availableBalance b)"
proof -
  have "orders_inv db"
    using order_requests.run_inv [OF freshExchange_inv [OF assms(1)]] by (simp add: assms(2))
  then show ?thesis
    by (auto simp: orders_inv_def covered_def wf_balances_def list_all_iff solvent_def
        availableBalance_def)
qed

theorem sell_orders_stay_backed_witness:
  "reserved 7 1 (bk_orders (fold handleOrderRequest ex_requests (freshExchange [ex_balance 7 1 5])))
   \<le> lockedOf 7 1 (od_balances (fold handleOrderRequest ex_requests
       (freshExchange [ex_balance 7 1 5])))"
  by (rule sell_orders_stay_backed [OF _ refl, THEN conjunct1])
    (simp add: wf_balances_def keyed_def ex_balance_def solvent_def)

text \<open>
  C2. What is bought is sold. After any sequence of requests and sweeps, with any numbers in the
  modifications, for every asset, the
  total filled quantity of the BUY orders equals the total filled quantity of the SELL orders.
\<close>

theorem bought_equals_sold:
  assumes "wf_balances bals" and "db = fold handleOrderRequest requests (freshExchange bals)"
  shows "filledOn a BUY (bk_orders db) = filledOn a SELL (bk_orders db)"
  using order_requests.run_inv [OF freshExchange_inv [OF assms(1)], of requests]
  by (simp add: assms(2) orders_inv_def balanced_def)

theorem bought_equals_sold_witness:
  "filledOn 1 BUY (bk_orders (fold handleOrderRequest ex_requests (freshExchange [ex_balance 7 1 5])))
   = filledOn 1 SELL (bk_orders (fold handleOrderRequest ex_requests
       (freshExchange [ex_balance 7 1 5])))"
  by (rule bought_equals_sold [OF _ refl])
    (simp add: wf_balances_def keyed_def ex_balance_def solvent_def)

text \<open>
  What the missing validation lets through: a resting SELL order modified to a negative price is the
  best offer, and the next BUY order is filled at that price.
\<close>

definition ex_negative_price :: "OrderRequest list" where
  "ex_negative_price =
     [PlaceOrder 1 1 7 (ex_create SELL LIMIT 2 (Some 10)),
      ModifyOrder 2 7 \<lparr>m_orderId = 1, m_price = Some (-3), m_amount = None, m_stopPrice = None,
        m_trailingDelta = None\<rparr>,
      PlaceOrder 3 2 8 (ex_create BUY LIMIT 1 (Some 11))]"

lemma negative_price_is_traded:
  "map o_averageFillPrice (bk_orders (fold handleOrderRequest ex_negative_price
     (freshExchange [ex_balance 7 1 5]))) = [Some (Fin (-3)), Some (Fin (-3))]"
  by code_simp

lemma negative_delta_triggers_at_once:
  assumes "o_side ord = SELL" and "o_trailingDelta ord = Some d" and "d \<le> 0"
    and "o_trailingReferencePrice ord = None" and "0 \<le> currentPrice"
  shows "isTrailingStopTriggered ord currentPrice"
proof -
  have "currentPrice * (d / 100) \<le> 0"
    using assms(3,5) by (simp add: mult_nonneg_nonpos)
  then show ?thesis
    using assms by (simp add: isTrailingStopTriggered_def trailingReference_def numberOr0_def
        right_diff_distrib)
qed

text \<open>
  Trailing stops never fire. After any sequence of requests and sweeps on a fresh exchange in which no
  modification sets a trailing delta that is not positive,
  a sweep that looks at a TRAILING_STOP order at a positive price of its asset changes nothing:
  the reference price starts as null, a null reference is read as the current price and is never
  stored, so the order never follows the market and never triggers.
\<close>

theorem trailing_stop_never_fires:
  assumes "db = fold handleOrderRequest requests (freshExchange bals)" and "list_all keepsDeltaPositive requests"
    and "ord \<in> set (bk_orders db)" and "o_type ord = TRAILING_STOP"
    and "row_of va_id (o_assetId ord) assets = Some asset" and "0 < va_price asset"
  shows "sweepOne now assets ord db = db"
proof -
  have "allUnarmed db"
    using trailing_stops.run_guarded [of "freshExchange bals" requests] assms(2)
    by (simp add: assms(1) freshExchange_def)
  then have "unarmed ord" using assms(3) by (simp add: list_all_iff)
  with assms(4-6) show ?thesis
    by (simp add: sweepOne_def processTrailingStop_def unarmed_not_moved unarmed_not_triggered)
qed

definition ex_asset :: "real \<Rightarrow> VirtualAsset" where
  "ex_asset p = \<lparr>va_id = 1, va_symbol = ''BTC'', va_name = ''Bitcoin'', va_price = p\<rparr>"

theorem trailing_stop_never_fires_witness:
  "let db = fold handleOrderRequest
       [PlaceOrder 3 3 7 (ex_create SELL TRAILING_STOP 1 (Some 5)), Sweep 4 [ex_asset 100]]
       (freshExchange [ex_balance 7 1 5]);
     ord = hd (bk_orders db)
   in o_type ord = TRAILING_STOP \<and> o_trailingDelta ord = Some 5 \<and>
      sweepOne 9 [ex_asset 50] ord db = db"
proof -
  let ?db = "fold handleOrderRequest
       [PlaceOrder 3 3 7 (ex_create SELL TRAILING_STOP 1 (Some 5)), Sweep 4 [ex_asset 100]]
       (freshExchange [ex_balance 7 1 5])"
  have ord: "bk_orders ?db \<noteq> []" "o_type (hd (bk_orders ?db)) = TRAILING_STOP"
    "o_trailingDelta (hd (bk_orders ?db)) = Some 5" "o_assetId (hd (bk_orders ?db)) = 1"
    by code_simp+
  have "sweepOne 9 [ex_asset 50] (hd (bk_orders ?db)) ?db = ?db"
    using ord by (intro trailing_stop_never_fires [OF refl, where asset = "ex_asset 50"])
      (simp_all add: ex_asset_def)
  with ord show ?thesis by (simp add: Let_def)
qed

definition ex_shrink :: "OrderRequest list" where
  "ex_shrink =
     [PlaceOrder 1 1 7 (ex_create SELL LIMIT 2 (Some 10)),
      PlaceOrder 2 2 8 (ex_create BUY LIMIT 1 (Some 10)),
      ModifyOrder 3 7 \<lparr>m_orderId = 1, m_price = None, m_amount = Some 1, m_stopPrice = None,
                       m_trailingDelta = None\<rparr>,
      PlaceOrder 4 3 7 (ex_create SELL LIMIT 1 (Some 12)),
      PlaceOrder 5 4 8 (ex_create BUY MARKET 1 None)]"

text \<open>
  A shrunken order poisons the average price. A SELL order that is half filled and then
  modified down to its filled amount stays PARTIAL with nothing left; the next market BUY is
  "filled" by it with quantity 0, its average price becomes 0/0, and the real fill that follows
  does not repair it: the BUY order ends FILLED with the average fill price \<open>NaN\<close>.
\<close>

theorem shrunken_order_poisons_average:
  "map_option (\<lambda>x. (o_status x, o_filledAmount x, o_averageFillPrice x))
     (row_of o_id 4 (bk_orders
       (fold handleOrderRequest ex_shrink (freshExchange [ex_balance 7 1 5])))) =
   Some (FILLED, 1, Some NaN)"
  by code_simp

text \<open>
  Placing and cancelling a dormant order is neutral: a valid SELL stop order that the
  service accepts locks its amount, and cancelling it at once gives back every balance column it
  touched, for every user and asset.
\<close>

theorem place_then_cancel_restores_locks:
  assumes "placeOrder now newId userId dto db = Inr (ord, db1)" and "orders_inv db"
    and "validCreateOrderDto dto" and "row_of o_id newId (bk_orders db) = None"
    and "c_side dto = SELL" and "c_type dto \<noteq> MARKET" and "c_type dto \<noteq> LIMIT"
  shows "\<exists>ord' db2. cancelOrder later userId newId db1 = Inr (ord', db2) \<and>
    lockedOf userId (c_assetId dto) (od_balances db1) =
      lockedOf userId (c_assetId dto) (od_balances db) + c_amount dto \<and>
    (\<forall>u a. lockedOf u a (od_balances db2) = lockedOf u a (od_balances db) \<and>
           availableOf u a (od_balances db2) = availableOf u a (od_balances db))"
proof -
  let ?new = "newOrder now newId userId dto"
  have pos: "0 < c_amount dto" and bal: "wf_balances (od_balances db)"
    using assms(2,3) by (simp_all add: validCreateOrderDto_def orders_inv_def)
  obtain b where b: "findBalance userId (c_assetId dto) (od_balances db) = Some b"
    and ord: "ord = ?new"
    and db1: "db1 = broadcastOrder now ?new (saveOrder ?new (db\<lparr>od_balances := saveBalance
      (b\<lparr>b_lockedBalance := b_lockedBalance b + c_amount dto\<rparr>) (od_balances db)\<rparr>))"
    using assms(1,5,6,7)
    by (auto simp: placeOrder_def reserveFunds_def matchWhen_def Let_def
        split: option.splits if_splits)
  let ?b1 = "b\<lparr>b_lockedBalance := b_lockedBalance b + c_amount dto\<rparr>"
  have key: "balanceKey b = (userId, c_assetId dto)"
    using findBalance_key [OF b] by (simp add: balanceKey_def)
  have b1: "findBalance userId (c_assetId dto) (od_balances db1) = Some ?b1"
    by (simp add: db1 broadcastOrder_def balances.find_save key)
  have lock0: "0 \<le> b_lockedBalance b"
    using findBalance_solvent [OF bal b] by (simp add: solvent_def)
  have row: "row_of o_id newId (bk_orders db1) = Some ?new"
    by (simp add: db1 row_of_save)
  define db2 where "db2 = broadcastOrder later (?new\<lparr>o_status := CANCELLED, o_cancelledAt := Some later\<rparr>)
    (saveOrder (?new\<lparr>o_status := CANCELLED, o_cancelledAt := Some later\<rparr>) (releaseFunds userId ?new db1))"
  have "cancelOrder later userId newId db1 =
      Inr (?new\<lparr>o_status := CANCELLED, o_cancelledAt := Some later\<rparr>, db2)"
    using row by (simp add: cancelOrder_def findOwned_def Let_def db2_def)
  moreover have "od_balances db2 = saveBalance b (od_balances db1)"
    using assms(5) b1 lock0 by (simp add: db2_def broadcastOrder_def releaseFunds_def)
  then have "findBalance u a (od_balances db2) = findBalance u a (od_balances db)" for u a
    using b by (auto simp: db1 broadcastOrder_def balances.find_save key)
  ultimately show ?thesis
    using lockedOf_find [OF b1] lockedOf_find [OF b]
    by (auto simp: lockedOf_def availableOf_def)
qed

theorem place_then_cancel_restores_locks_witness:
  "\<exists>ord' db2. cancelOrder 9 7 1 (snd (projr (placeOrder 1 1 7 (ex_create SELL STOP_LOSS 2 (Some 10))
      (freshExchange [ex_balance 7 1 5])))) = Inr (ord', db2) \<and>
    lockedOf 7 1 (od_balances db2) = lockedOf 7 1 (od_balances (freshExchange [ex_balance 7 1 5]))"
proof -
  let ?p = "placeOrder 1 1 7 (ex_create SELL STOP_LOSS 2 (Some 10)) (freshExchange [ex_balance 7 1 5])"
  have ok: "isl ?p = False" by code_simp
  then have run: "?p = Inr (fst (projr ?p), snd (projr ?p))"
    by (metis prod.collapse sum.collapse(2))
  have inv: "orders_inv (freshExchange [ex_balance 7 1 5])"
    by (rule freshExchange_inv) (simp add: wf_balances_def keyed_def ex_balance_def solvent_def)
  show ?thesis
    using place_then_cancel_restores_locks [OF run inv, of 9]
    by (simp add: ex_create_def validCreateOrderDto_def freshExchange_def) blast
qed

end
