(* ===== verification/Amm.thy ===== *)
theory Amm
  imports Prelude
begin

text \<open>
  The constant-product formulas of \<open>src/exchange/services/amm.service.ts\<close>: quotes for swaps,
  deposits and withdrawals, impermanent loss and the share of a fee. The swap quote is a
  \<open>jsnum\<close> where the code divides by \<open>reserveIn + amountInWithFee\<close>, which a fee above 100% can
  make zero. The locale \<open>swap_curve\<close> states what a pool needs from a pricing formula; it is
  interpreted on the formula of the code.
\<close>

section \<open>Quotes\<close>

record SwapQuote =
  sq_amountOut :: jsnum
  sq_feeAmount :: real
  sq_priceImpact :: jsnum

record LiquidityQuote =
  lq_lpTokensMinted :: real
  lq_amountA :: real
  lq_amountB :: real

record WithdrawQuote =
  wq_amountA :: real
  wq_amountB :: real

record ImpermanentLossResult =
  il_currentValue :: real
  il_holdValue :: real
  il_impermanentLoss :: real
  il_impermanentLossPercent :: real

text \<open>Evaluation leaves square roots as they are.\<close>

declare root_def [code del]

definition getAmountOut :: "real \<Rightarrow> real \<Rightarrow> real \<Rightarrow> real \<Rightarrow> SwapQuote result" where
  "getAmountOut amountIn reserveIn reserveOut feeBps =
     (if amountIn \<le> 0 then Inl (JsError ''Amount in must be positive'')
      else if reserveIn \<le> 0 \<or> reserveOut \<le> 0 then Inl (JsError ''Insufficient liquidity'')
      else
        let feeMultiplier = 1 - feeBps / 10000;
            amountInWithFee = amountIn * feeMultiplier;
            feeAmount = amountIn - amountInWithFee;
            amountOut = js_div (Fin (amountInWithFee * reserveOut)) (reserveIn + amountInWithFee);
            priceBefore = reserveOut / reserveIn;
            newReserveIn = reserveIn + amountIn;
            newReserveOut = js_sub (Fin reserveOut) amountOut;
            priceAfter = js_div newReserveOut newReserveIn;
            priceImpact =
              js_mult (js_abs (js_div (js_sub priceAfter (Fin priceBefore)) priceBefore)) (Fin 100)
        in Inr \<lparr>sq_amountOut = amountOut, sq_feeAmount = feeAmount, sq_priceImpact = priceImpact\<rparr>)"

definition getSpotPrice :: "real \<Rightarrow> real \<Rightarrow> real" where
  "getSpotPrice reserveA reserveB = (if reserveA \<le> 0 then 0 else reserveB / reserveA)"

definition calculateLpTokensToMint ::
  "real \<Rightarrow> real \<Rightarrow> real \<Rightarrow> real \<Rightarrow> real \<Rightarrow> LiquidityQuote result" where
  "calculateLpTokensToMint amountA amountB reserveA reserveB totalLpSupply =
     (if amountA \<le> 0 \<or> amountB \<le> 0 then Inl (JsError ''Deposit amounts must be positive'')
      else if totalLpSupply = 0 then
        Inr \<lparr>lq_lpTokensMinted = sqrt (amountA * amountB), lq_amountA = amountA, lq_amountB = amountB\<rparr>
      else if reserveA \<le> 0 \<or> reserveB \<le> 0 then Inl (JsError ''Pool reserves must be positive'')
      else
        let lpFromA = amountA * totalLpSupply / reserveA;
            lpFromB = amountB * totalLpSupply / reserveB;
            lpTokensMinted = min lpFromA lpFromB;
            actualAmountA = lpTokensMinted * reserveA / totalLpSupply;
            actualAmountB = lpTokensMinted * reserveB / totalLpSupply
        in Inr \<lparr>lq_lpTokensMinted = lpTokensMinted, lq_amountA = actualAmountA,
                lq_amountB = actualAmountB\<rparr>)"

definition calculateWithdrawAmounts ::
  "real \<Rightarrow> real \<Rightarrow> real \<Rightarrow> real \<Rightarrow> WithdrawQuote result" where
  "calculateWithdrawAmounts lpAmount totalLpSupply reserveA reserveB =
     (if lpAmount \<le> 0 then Inl (JsError ''LP amount must be positive'')
      else if totalLpSupply \<le> 0 then Inl (JsError ''No LP supply in pool'')
      else if lpAmount > totalLpSupply then Inl (JsError ''LP amount exceeds total supply'')
      else
        let share = lpAmount / totalLpSupply
        in Inr \<lparr>wq_amountA = reserveA * share, wq_amountB = reserveB * share\<rparr>)"

text \<open>The first two assignments to \<open>holdValue\<close> are overwritten by the third.\<close>

definition calculateImpermanentLoss ::
  "real \<Rightarrow> real \<Rightarrow> real \<Rightarrow> real \<Rightarrow> real \<Rightarrow> real \<Rightarrow> ImpermanentLossResult" where
  "calculateImpermanentLoss depositedAmountA depositedAmountB currentReserveA currentReserveB
      totalLpSupply lpAmount =
     (if lpAmount \<le> 0 \<or> totalLpSupply \<le> 0 then
        \<lparr>il_currentValue = 0, il_holdValue = 0, il_impermanentLoss = 0,
         il_impermanentLossPercent = 0\<rparr>
      else
        let share = lpAmount / totalLpSupply;
            currentA = currentReserveA * share;
            currentB = currentReserveB * share;
            initialPrice =
              (if depositedAmountB > 0 then depositedAmountA / depositedAmountB else 0);
            currentPrice = (if currentB > 0 then currentA / currentB else 0);
            currentValue = currentA + currentB;
            holdValue =
              (if initialPrice > 0 \<and> currentPrice > 0
               then depositedAmountA * (currentPrice / initialPrice) + depositedAmountB
               else depositedAmountA + depositedAmountB);
            impermanentLoss = holdValue - currentValue;
            impermanentLossPercent =
              (if holdValue > 0 then impermanentLoss / holdValue * 100 else 0)
        in \<lparr>il_currentValue = currentValue, il_holdValue = holdValue,
            il_impermanentLoss = impermanentLoss,
            il_impermanentLossPercent = impermanentLossPercent\<rparr>)"

definition distributeFees :: "real \<Rightarrow> real \<Rightarrow> real \<Rightarrow> real" where
  "distributeFees feeAmount lpAmount totalLpSupply =
     (if totalLpSupply \<le> 0 \<or> lpAmount \<le> 0 then 0 else feeAmount * lpAmount / totalLpSupply)"

section \<open>The pricing curve\<close>

text \<open>What a swap takes out of the pool, for a fee in basis points.\<close>

definition curveOut :: "int \<Rightarrow> real \<Rightarrow> real \<Rightarrow> real \<Rightarrow> real" where
  "curveOut feeBps amountIn reserveIn reserveOut =
     (let aw = amountIn * (1 - real_of_int feeBps / 10000) in aw * reserveOut / (reserveIn + aw))"

definition saneFee :: "int \<Rightarrow> bool" where
  "saneFee feeBps = (0 \<le> feeBps \<and> feeBps \<le> 10000)"

text \<open>
  The interface between a pool and its pricing formula: with an acceptable fee the formula never
  pays out the whole reserve, never pays a negative amount, and never lets the product fall.
\<close>

locale swap_curve =
  fixes out :: "'fee \<Rightarrow> real \<Rightarrow> real \<Rightarrow> real \<Rightarrow> real"
    and fee_ok :: "'fee \<Rightarrow> bool"
  assumes out_nonneg: "fee_ok f \<Longrightarrow> 0 < a \<Longrightarrow> 0 < x \<Longrightarrow> 0 < y \<Longrightarrow> 0 \<le> out f a x y"
    and out_less: "fee_ok f \<Longrightarrow> 0 < a \<Longrightarrow> 0 < x \<Longrightarrow> 0 < y \<Longrightarrow> out f a x y < y"
    and product: "fee_ok f \<Longrightarrow> 0 < a \<Longrightarrow> 0 < x \<Longrightarrow> 0 < y \<Longrightarrow>
      x * y \<le> (x + a) * (y - out f a x y)"
begin

text \<open>A there-and-back trade never gains: what comes back is at most what went in.\<close>

lemma round_trip_no_gain:
  assumes f: "fee_ok f" "fee_ok g" and pos: "0 < a" "0 < x" "0 < y" and b: "0 < out f a x y"
  shows "out g (out f a x y) (y - out f a x y) (x + a) \<le> a"
proof -
  let ?b = "out f a x y"
  let ?c = "out g ?b (y - ?b) (x + a)"
  have y': "0 < y - ?b" using out_less [OF f(1) pos] by simp
  have "x * y \<le> (x + a) * (y - ?b)" using product [OF f(1) pos] .
  also have "\<dots> = (y - ?b) * (x + a)" by simp
  also have "\<dots> \<le> (y - ?b + ?b) * (x + a - ?c)"
    using product [OF f(2) b y', of "x + a"] pos by simp
  finally have "x * y \<le> y * (x + a - ?c)" by simp
  then have "y * x \<le> y * (x + a - ?c)" by (simp add: mult.commute)
  then show ?thesis using pos(3) by simp
qed

end

lemma amountInWithFee_bounds:
  assumes "saneFee f" and "0 < a"
  shows "0 \<le> a * (1 - real_of_int f / 10000)" and "a * (1 - real_of_int f / 10000) \<le> a"
proof -
  have "0 \<le> 1 - real_of_int f / 10000" "1 - real_of_int f / 10000 \<le> 1"
    using assms(1) by (simp_all add: saneFee_def)
  then show "0 \<le> a * (1 - real_of_int f / 10000)" and "a * (1 - real_of_int f / 10000) \<le> a"
    using assms(2) by (simp_all add: mult_left_le)
qed

lemma ratio_out:
  fixes w x y :: real
  assumes "0 \<le> w" "0 < x" "0 < y"
  shows "0 \<le> w * y / (x + w)" and "w * y / (x + w) < y" and "y - w * y / (x + w) = x * y / (x + w)"
  using assms by (simp_all add: field_simps)

interpretation curve: swap_curve curveOut saneFee
proof
  fix f :: int and a x y :: real
  assume h: "saneFee f" "0 < a" "0 < x" "0 < y"
  let ?w = "a * (1 - real_of_int f / 10000)"
  note w = amountInWithFee_bounds [OF h(1,2)] and r = ratio_out [OF amountInWithFee_bounds(1) [OF h(1,2)] h(3,4)]
  show "0 \<le> curveOut f a x y" "curveOut f a x y < y"
    using r(1,2) by (simp_all add: curveOut_def Let_def)
  have "x * y * (x + ?w) \<le> (x + a) * (x * y)"
    using w h(3,4) by (simp add: mult.commute mult_left_mono)
  then have "x * y \<le> (x + a) * (x * y / (x + ?w))"
    using w h(3) by (simp add: field_simps)
  then show "x * y \<le> (x + a) * (y - curveOut f a x y)"
    using r(3) by (simp add: curveOut_def Let_def)
qed

text \<open>With an acceptable fee the quote is a number, the one of the curve.\<close>

lemma getAmountOut_curve:
  assumes "saneFee f" "0 < a" "0 < x" "0 < y"
  shows "\<exists>q. getAmountOut a x y (real_of_int f) = Inr q \<and> sq_amountOut q = Fin (curveOut f a x y) \<and>
    sq_feeAmount q = a * real_of_int f / 10000 \<and> 0 \<le> sq_feeAmount q"
proof -
  have "x + a * (1 - real_of_int f / 10000) \<noteq> 0"
    using amountInWithFee_bounds [OF assms(1,2)] assms(3) by linarith
  moreover have "0 \<le> a * real_of_int f" using assms(1,2) by (simp add: saneFee_def)
  ultimately show ?thesis using assms
    by (simp add: getAmountOut_def curveOut_def Let_def field_simps)
qed

lemma getAmountOut_Inr:
  "getAmountOut a x y f = Inr q \<Longrightarrow> 0 < a \<and> 0 < x \<and> 0 < y"
  by (simp add: getAmountOut_def split: if_splits)

section \<open>Deposits and withdrawals\<close>

lemma mint_Inr:
  assumes "calculateLpTokensToMint a b x y s = Inr q"
  shows "0 < a" and "0 < b" and "s = 0 \<or> 0 < x \<and> 0 < y"
  using assms by (simp_all add: calculateLpTokensToMint_def split: if_splits)

text \<open>The deposit taken is proportional to the reserves and within what was offered.\<close>

lemma mint_first:
  assumes "calculateLpTokensToMint a b x y 0 = Inr q"
  shows "lq_amountA q = a \<and> lq_amountB q = b \<and> lq_lpTokensMinted q = sqrt (a * b) \<and>
    0 < lq_lpTokensMinted q"
  using assms by (auto simp: calculateLpTokensToMint_def split: if_splits)

lemma mint_later:
  assumes "calculateLpTokensToMint a b x y s = Inr q" and s: "0 < s"
  shows "lq_amountA q = lq_lpTokensMinted q * x / s" "lq_amountB q = lq_lpTokensMinted q * y / s"
    and "0 < lq_lpTokensMinted q" "lq_amountA q \<le> a" "lq_amountB q \<le> b"
    and "lq_amountA q = a \<or> lq_amountB q = b"
proof -
  have pos: "0 < a" "0 < b" "0 < x" "0 < y" using mint_Inr [OF assms(1)] s by auto
  let ?m = "min (a * s / x) (b * s / y)"
  have q: "lq_lpTokensMinted q = ?m" "lq_amountA q = ?m * x / s" "lq_amountB q = ?m * y / s"
    using assms pos by (auto simp: calculateLpTokensToMint_def Let_def)
  then show "lq_amountA q = lq_lpTokensMinted q * x / s" "lq_amountB q = lq_lpTokensMinted q * y / s"
    by simp_all
  show "0 < lq_lpTokensMinted q" using q(1) pos s by simp
  have "?m * x \<le> a * s" "?m * y \<le> b * s"
    using pos by (simp_all add: min_def field_simps)
  then show "lq_amountA q \<le> a" "lq_amountB q \<le> b"
    using s by (simp_all add: q(2,3) pos_divide_le_eq)
  have "?m * x / s = a \<or> ?m * y / s = b"
    using pos s by (simp add: min_def)
  then show "lq_amountA q = a \<or> lq_amountB q = b"
    using q(2,3) by simp
qed

lemma withdraw_Inr:
  assumes "calculateWithdrawAmounts l s x y = Inr w"
  shows "0 < l" "0 < s" "l \<le> s" "wq_amountA w = x * (l / s)" "wq_amountB w = y * (l / s)"
  using assms by (auto simp: calculateWithdrawAmounts_def Let_def split: if_splits)

end
