(* ===== verification/LiquidityPools.thy ===== *)
theory LiquidityPools
  imports Amm Balances
begin

text \<open>
  Liquidity pools: \<open>src/exchange/services/liquidity-pool.service.ts\<close> with its entities and
  DTOs, and the read side \<open>src/exchange/services/pool-analytics.service.ts\<close>. The state is the
  assets, pools, positions, swaps and emergency-withdrawal tables with the sequences that number
  their rows. The lemmas show that positions always add up to the LP supply, that a pool is
  either empty or has positive reserves, that the product of the reserves per LP token never
  falls, and that a deposit can be withdrawn again.
\<close>

section \<open>Data\<close>

datatype PoolStatus = ACTIVE | PAUSED | EMERGENCY

datatype EmergencyWithdrawalStatus = EW_PENDING | EW_APPROVED | EW_COMPLETED | EW_REJECTED

record LiquidityPool =
  pl_id :: nat
  pl_tokenAId :: asset_id
  pl_tokenBId :: asset_id
  pl_chainId :: string
  pl_reserveA :: real
  pl_reserveB :: real
  pl_totalLpSupply :: real
  pl_feeBps :: int
  pl_status :: PoolStatus
  pl_accumulatedFeesA :: real
  pl_accumulatedFeesB :: real
  pl_totalVolume :: real
  pl_totalSwaps :: nat
  pl_createdAt :: timestamp

record PoolPosition =
  pp_id :: nat
  pp_poolId :: nat
  pp_userId :: uid
  pp_lpAmount :: real
  pp_depositedAmountA :: real
  pp_depositedAmountB :: real
  pp_feesEarnedA :: real
  pp_feesEarnedB :: real
  pp_depositedAt :: "timestamp option"

record PoolSwap =
  ps_poolId :: nat
  ps_userId :: uid
  ps_tokenIn :: string
  ps_tokenOut :: string
  ps_amountIn :: real
  ps_amountOut :: real
  ps_feePaid :: real
  ps_priceImpact :: jsnum
  ps_status :: string
  ps_createdAt :: timestamp

record EmergencyWithdrawal =
  ew_poolId :: nat
  ew_userId :: uid
  ew_lpAmountBurned :: real
  ew_amountA :: real
  ew_amountB :: real
  ew_reason :: string
  ew_status :: EmergencyWithdrawalStatus
  ew_adminApprovedBy :: "uid option"

record CreatePoolDto =
  cp_tokenAId :: asset_id
  cp_tokenBId :: asset_id
  cp_chainId :: string
  cp_feeBps :: "int option"

record AddLiquidityDto =
  al_userId :: uid
  al_amountA :: real
  al_amountB :: real

record RemoveLiquidityDto =
  rl_userId :: uid
  rl_lpAmount :: real

record SwapDto =
  sd_userId :: uid
  sd_tokenIn :: string
  sd_amountIn :: real
  sd_minAmountOut :: "real option"

record EmergencyWithdrawDto =
  ed_userId :: uid
  ed_lpAmount :: real
  ed_reason :: string
  ed_adminApprovedBy :: "uid option"

text \<open>The tables; a sequence holds the id the next inserted row gets.\<close>

record pool_db =
  pd_assets :: "VirtualAsset list"
  pd_pools :: "LiquidityPool list"
  pd_positions :: "PoolPosition list"
  pd_swaps :: "PoolSwap list"
  pd_withdrawals :: "EmergencyWithdrawal list"
  pd_poolSeq :: nat
  pd_positionSeq :: nat

section \<open>Operations\<close>

definition findAsset :: "asset_id \<Rightarrow> pool_db \<Rightarrow> VirtualAsset option" where
  "findAsset i db = row_of va_id i (pd_assets db)"

definition newPool :: "timestamp \<Rightarrow> CreatePoolDto \<Rightarrow> nat \<Rightarrow> LiquidityPool" where
  "newPool now dto i =
     \<lparr>pl_id = i, pl_tokenAId = cp_tokenAId dto, pl_tokenBId = cp_tokenBId dto,
      pl_chainId = cp_chainId dto, pl_reserveA = 0, pl_reserveB = 0, pl_totalLpSupply = 0,
      pl_feeBps = (case cp_feeBps dto of None \<Rightarrow> 30 | Some f \<Rightarrow> f), pl_status = ACTIVE,
      pl_accumulatedFeesA = 0, pl_accumulatedFeesB = 0, pl_totalVolume = 0, pl_totalSwaps = 0,
      pl_createdAt = now\<rparr>"

definition createPool :: "timestamp \<Rightarrow> CreatePoolDto \<Rightarrow> pool_db \<Rightarrow> (LiquidityPool \<times> pool_db) result" where
  "createPool now dto db =
     (if cp_tokenAId dto = cp_tokenBId dto
      then Inl (BadRequestException ''Token A and Token B must be different'')
      else if findAsset (cp_tokenAId dto) db = None \<or> findAsset (cp_tokenBId dto) db = None
      then Inl (NotFoundException ''One or both assets not found'')
      else if find (\<lambda>p. pl_tokenAId p = cp_tokenAId dto \<and> pl_tokenBId p = cp_tokenBId dto \<and>
                        pl_chainId p = cp_chainId dto) (pd_pools db) \<noteq> None
      then Inl (BadRequestException ''Pool already exists for this pair on this chain'')
      else
        let pool = newPool now dto (pd_poolSeq db)
        in Inr (pool, db\<lparr>pd_pools := save_row pl_id pool (pd_pools db),
                         pd_poolSeq := Suc (pd_poolSeq db)\<rparr>))"

definition getPool :: "nat \<Rightarrow> pool_db \<Rightarrow> LiquidityPool result" where
  "getPool poolId db =
     (case row_of pl_id poolId (pd_pools db) of
        None \<Rightarrow> Inl (NotFoundException ''Pool not found'')
      | Some pool \<Rightarrow> Inr pool)"

text \<open>A missing and an empty \<open>chainId\<close> are both falsy: no restriction.\<close>

definition onChain :: "string option \<Rightarrow> LiquidityPool \<Rightarrow> bool" where
  "onChain chainId p =
     (case chainId of None \<Rightarrow> True | Some c \<Rightarrow> c = [] \<or> pl_chainId p = c)"

definition listPools :: "string option \<Rightarrow> pool_db \<Rightarrow> LiquidityPool list" where
  "listPools chainId db =
     sort_key (\<lambda>p. - pl_createdAt p) (filter (onChain chainId) (pd_pools db))"

definition findPoolForPair ::
  "asset_id \<Rightarrow> asset_id \<Rightarrow> string option \<Rightarrow> pool_db \<Rightarrow> LiquidityPool option" where
  "findPoolForPair tokenAId tokenBId chainId db =
     (let query = (\<lambda>a b. find (\<lambda>p. pl_tokenAId p = a \<and> pl_tokenBId p = b \<and>
                                    pl_status p = ACTIVE \<and> onChain chainId p) (pd_pools db))
      in case query tokenAId tokenBId of
           None \<Rightarrow> query tokenBId tokenAId
         | Some pool \<Rightarrow> Some pool)"

definition findPosition :: "nat \<Rightarrow> uid \<Rightarrow> pool_db \<Rightarrow> PoolPosition option" where
  "findPosition poolId userId db =
     find (\<lambda>p. pp_poolId p = poolId \<and> pp_userId p = userId) (pd_positions db)"

definition savePool :: "LiquidityPool \<Rightarrow> pool_db \<Rightarrow> pool_db" where
  "savePool pool db = db\<lparr>pd_pools := save_row pl_id pool (pd_pools db)\<rparr>"

definition savePosition :: "PoolPosition \<Rightarrow> pool_db \<Rightarrow> pool_db" where
  "savePosition position db = db\<lparr>pd_positions := save_row pp_id position (pd_positions db)\<rparr>"

text \<open>The pool with a deposit added, and the position of the user: raised, or a new row.\<close>

definition mintIntoPool :: "LiquidityQuote \<Rightarrow> LiquidityPool \<Rightarrow> LiquidityPool" where
  "mintIntoPool quote pool =
     pool\<lparr>pl_reserveA := pl_reserveA pool + lq_amountA quote,
          pl_reserveB := pl_reserveB pool + lq_amountB quote,
          pl_totalLpSupply := pl_totalLpSupply pool + lq_lpTokensMinted quote\<rparr>"

definition depositPosition ::
  "timestamp \<Rightarrow> nat \<Rightarrow> uid \<Rightarrow> LiquidityQuote \<Rightarrow> nat \<Rightarrow> PoolPosition option \<Rightarrow> PoolPosition" where
  "depositPosition now poolId userId quote newId found =
     (case found of
        Some position \<Rightarrow>
          position\<lparr>pp_lpAmount := pp_lpAmount position + lq_lpTokensMinted quote,
                   pp_depositedAmountA := pp_depositedAmountA position + lq_amountA quote,
                   pp_depositedAmountB := pp_depositedAmountB position + lq_amountB quote\<rparr>
      | None \<Rightarrow>
          \<lparr>pp_id = newId, pp_poolId = poolId, pp_userId = userId,
           pp_lpAmount = lq_lpTokensMinted quote, pp_depositedAmountA = lq_amountA quote,
           pp_depositedAmountB = lq_amountB quote, pp_feesEarnedA = 0, pp_feesEarnedB = 0,
           pp_depositedAt = Some now\<rparr>)"

definition addLiquidity ::
  "timestamp \<Rightarrow> nat \<Rightarrow> AddLiquidityDto \<Rightarrow> pool_db \<Rightarrow>
     ((LiquidityPool \<times> PoolPosition \<times> real) \<times> pool_db) result" where
  "addLiquidity now poolId dto db =
     rbind (getPool poolId db) (\<lambda>pool.
     if pl_status pool \<noteq> ACTIVE then Inl (BadRequestException ''Pool is not active'')
     else rbind (calculateLpTokensToMint (al_amountA dto) (al_amountB dto)
                   (pl_reserveA pool) (pl_reserveB pool) (pl_totalLpSupply pool)) (\<lambda>quote.
       let pool' = mintIntoPool quote pool;
           found = findPosition poolId (al_userId dto) db;
           position = depositPosition now poolId (al_userId dto) quote (pd_positionSeq db) found;
           seq = (if found = None then Suc (pd_positionSeq db) else pd_positionSeq db)
       in Inr ((pool', position, lq_lpTokensMinted quote),
               (savePosition position (savePool pool' db))\<lparr>pd_positionSeq := seq\<rparr>)))"

text \<open>The reserves and the supply after \<open>lpAmount\<close> tokens are burnt for the quoted amounts.\<close>

definition burnFromPool :: "WithdrawQuote \<Rightarrow> real \<Rightarrow> LiquidityPool \<Rightarrow> LiquidityPool" where
  "burnFromPool amounts lpAmount pool =
     pool\<lparr>pl_reserveA := pl_reserveA pool - wq_amountA amounts,
          pl_reserveB := pl_reserveB pool - wq_amountB amounts,
          pl_totalLpSupply := pl_totalLpSupply pool - lpAmount\<rparr>"

definition removeLiquidity ::
  "nat \<Rightarrow> RemoveLiquidityDto \<Rightarrow> pool_db \<Rightarrow>
     ((LiquidityPool \<times> PoolPosition \<times> WithdrawQuote) \<times> pool_db) result" where
  "removeLiquidity poolId dto db =
     rbind (getPool poolId db) (\<lambda>pool.
     if pl_status pool = EMERGENCY
     then Inl (BadRequestException ''Use emergency withdrawal for pools in emergency status'')
     else (case findPosition poolId (rl_userId dto) db of
         None \<Rightarrow> Inl (BadRequestException ''Insufficient LP tokens'')
       | Some position \<Rightarrow>
           if pp_lpAmount position < rl_lpAmount dto
           then Inl (BadRequestException ''Insufficient LP tokens'')
           else rbind (calculateWithdrawAmounts (rl_lpAmount dto) (pl_totalLpSupply pool)
                         (pl_reserveA pool) (pl_reserveB pool)) (\<lambda>amounts.
             let pool' = burnFromPool amounts (rl_lpAmount dto) pool;
                 lpAmount' = pp_lpAmount position - rl_lpAmount dto;
                 depositShare = rl_lpAmount dto / (lpAmount' + rl_lpAmount dto);
                 position' = position\<lparr>
                   pp_lpAmount := lpAmount',
                   pp_depositedAmountA := pp_depositedAmountA position * (1 - depositShare),
                   pp_depositedAmountB := pp_depositedAmountB position * (1 - depositShare)\<rparr>
             in Inr ((pool', position', amounts), savePosition position' (savePool pool' db)))))"

text \<open>The loop over the positions of the pool, each saved with its share of the fee.\<close>

definition creditFee :: "real \<Rightarrow> real \<Rightarrow> bool \<Rightarrow> PoolPosition \<Rightarrow> PoolPosition" where
  "creditFee feeAmount totalLpSupply isTokenA position =
     (let share = distributeFees feeAmount (pp_lpAmount position) totalLpSupply
      in if isTokenA
         then position\<lparr>pp_feesEarnedA := pp_feesEarnedA position + share\<rparr>
         else position\<lparr>pp_feesEarnedB := pp_feesEarnedB position + share\<rparr>)"

definition distributeFeesToLps :: "LiquidityPool \<Rightarrow> real \<Rightarrow> bool \<Rightarrow> pool_db \<Rightarrow> pool_db" where
  "distributeFeesToLps pool feeAmount isTokenA db =
     fold (\<lambda>position. savePosition (creditFee feeAmount (pl_totalLpSupply pool) isTokenA position))
       (filter (\<lambda>p. pp_poolId p = pl_id pool) (pd_positions db)) db"

text \<open>
  The reserves of the side that pays in and of the side that pays out. The \<open>decimal\<close> columns
  hold no infinity: saving a swap whose \<open>amountOut\<close> is not a number fails.
\<close>

definition applySwap :: "real \<Rightarrow> real \<Rightarrow> real \<Rightarrow> bool \<Rightarrow> LiquidityPool \<Rightarrow> LiquidityPool" where
  "applySwap amountIn amountOut feeAmount isTokenA pool =
     (let pool' =
        (if isTokenA
         then pool\<lparr>pl_reserveA := pl_reserveA pool + amountIn,
                   pl_reserveB := pl_reserveB pool - amountOut,
                   pl_accumulatedFeesA := pl_accumulatedFeesA pool + feeAmount\<rparr>
         else pool\<lparr>pl_reserveB := pl_reserveB pool + amountIn,
                   pl_reserveA := pl_reserveA pool - amountOut,
                   pl_accumulatedFeesB := pl_accumulatedFeesB pool + feeAmount\<rparr>)
      in pool'\<lparr>pl_totalVolume := pl_totalVolume pool' + amountIn,
               pl_totalSwaps := pl_totalSwaps pool' + 1\<rparr>)"

text \<open>\<open>dto.minAmountOut && quote.amountOut < dto.minAmountOut\<close>.\<close>

definition belowMinimum :: "real option \<Rightarrow> jsnum \<Rightarrow> bool" where
  "belowMinimum minAmountOut amountOut =
     (case minAmountOut of None \<Rightarrow> False | Some m \<Rightarrow> m \<noteq> 0 \<and> js_lt amountOut (Fin m))"

text \<open>Which side comes in, or that the token is not one of the pool.\<close>

definition swapSide ::
  "string \<Rightarrow> LiquidityPool \<Rightarrow> VirtualAsset \<Rightarrow> VirtualAsset \<Rightarrow> (bool \<times> real \<times> real \<times> string) result" where
  "swapSide tokenIn pool tokenA tokenB =
     (if tokenIn = va_symbol tokenA
      then Inr (True, pl_reserveA pool, pl_reserveB pool, va_symbol tokenB)
      else if tokenIn = va_symbol tokenB
      then Inr (False, pl_reserveB pool, pl_reserveA pool, va_symbol tokenA)
      else Inl (BadRequestException ''Token is not part of this pool''))"

definition poolTokens :: "LiquidityPool \<Rightarrow> pool_db \<Rightarrow> (VirtualAsset \<times> VirtualAsset) result" where
  "poolTokens pool db =
     (case (findAsset (pl_tokenAId pool) db, findAsset (pl_tokenBId pool) db) of
        (Some tokenA, Some tokenB) \<Rightarrow> Inr (tokenA, tokenB)
      | _ \<Rightarrow> Inl (NotFoundException ''Pool assets not found''))"

text \<open>
  The fees are stored before the swap row is; the state is returned with the error because
  that last save can fail.
\<close>

definition executeSwap ::
  "timestamp \<Rightarrow> nat \<Rightarrow> SwapDto \<Rightarrow> LiquidityPool \<Rightarrow> bool \<Rightarrow> string \<Rightarrow> SwapQuote \<Rightarrow> pool_db \<Rightarrow>
     (PoolSwap \<times> LiquidityPool) result \<times> pool_db" where
  "executeSwap now poolId dto pool isTokenA tokenOut quote db =
     (let db' = distributeFeesToLps pool (sq_feeAmount quote) isTokenA db
      in case sq_amountOut quote of
           Fin amountOut \<Rightarrow>
             let pool' = applySwap (sd_amountIn dto) amountOut (sq_feeAmount quote) isTokenA pool;
                 swp = \<lparr>ps_poolId = poolId, ps_userId = sd_userId dto, ps_tokenIn = sd_tokenIn dto,
                        ps_tokenOut = tokenOut, ps_amountIn = sd_amountIn dto,
                        ps_amountOut = amountOut, ps_feePaid = sq_feeAmount quote,
                        ps_priceImpact = sq_priceImpact quote, ps_status = ''COMPLETED'',
                        ps_createdAt = now\<rparr>
             in (Inr (swp, pool'), savePool pool' (db'\<lparr>pd_swaps := pd_swaps db' @ [swp]\<rparr>))
         | _ \<Rightarrow> (Inl (JsError ''numeric field overflow''), db'))"

text \<open>The checks of a swap: its tokens, the quote and the minimum output.\<close>

definition checkSwap :: "SwapDto \<Rightarrow> LiquidityPool \<Rightarrow> pool_db \<Rightarrow> (bool \<times> string \<times> SwapQuote) result" where
  "checkSwap dto pool db =
     rbind (poolTokens pool db) (\<lambda>(tokenA, tokenB).
     rbind (swapSide (sd_tokenIn dto) pool tokenA tokenB)
       (\<lambda>(isTokenA, reserveIn, reserveOut, tokenOut).
     rbind (getAmountOut (sd_amountIn dto) reserveIn reserveOut (real_of_int (pl_feeBps pool))) (\<lambda>quote.
     if belowMinimum (sd_minAmountOut dto) (sq_amountOut quote)
     then Inl (BadRequestException ''Output is below minimum'')
     else Inr (isTokenA, tokenOut, quote))))"

definition swap ::
  "timestamp \<Rightarrow> nat \<Rightarrow> SwapDto \<Rightarrow> pool_db \<Rightarrow> (PoolSwap \<times> LiquidityPool) result \<times> pool_db" where
  "swap now poolId dto db =
     (case getPool poolId db of
        Inl e \<Rightarrow> (Inl e, db)
      | Inr pool \<Rightarrow>
          if pl_status pool \<noteq> ACTIVE
          then (Inl (BadRequestException ''Pool is not active for trading''), db)
          else
            (case checkSwap dto pool db of
               Inl e \<Rightarrow> (Inl e, db)
             | Inr (isTokenA, tokenOut, quote) \<Rightarrow>
                 executeSwap now poolId dto pool isTokenA tokenOut quote db))"

definition emergencyWithdraw ::
  "nat \<Rightarrow> EmergencyWithdrawDto \<Rightarrow> pool_db \<Rightarrow> (EmergencyWithdrawal \<times> pool_db) result" where
  "emergencyWithdraw poolId dto db =
     rbind (getPool poolId db) (\<lambda>pool.
       case findPosition poolId (ed_userId dto) db of
         None \<Rightarrow> Inl (BadRequestException ''Insufficient LP tokens for emergency withdrawal'')
       | Some position \<Rightarrow>
           if pp_lpAmount position < ed_lpAmount dto
           then Inl (BadRequestException ''Insufficient LP tokens for emergency withdrawal'')
           else rbind (calculateWithdrawAmounts (ed_lpAmount dto) (pl_totalLpSupply pool)
                         (pl_reserveA pool) (pl_reserveB pool)) (\<lambda>amounts.
             let withdrawal = \<lparr>
                   ew_poolId = poolId, ew_userId = ed_userId dto,
                   ew_lpAmountBurned = ed_lpAmount dto, ew_amountA = wq_amountA amounts,
                   ew_amountB = wq_amountB amounts, ew_reason = ed_reason dto,
                   ew_status = (case ed_adminApprovedBy dto of
                                  Some a \<Rightarrow> if a \<noteq> 0 then EW_COMPLETED else EW_PENDING
                                | None \<Rightarrow> EW_PENDING),
                   ew_adminApprovedBy = ed_adminApprovedBy dto\<rparr>;
                 pool' = burnFromPool amounts (ed_lpAmount dto) pool;
                 position' = position\<lparr>pp_lpAmount := pp_lpAmount position - ed_lpAmount dto\<rparr>;
                 db' = savePosition position' (savePool pool' db)
             in Inr (withdrawal, db'\<lparr>pd_withdrawals := pd_withdrawals db' @ [withdrawal]\<rparr>)))"

definition getUserPositions :: "uid \<Rightarrow> pool_db \<Rightarrow> PoolPosition list" where
  "getUserPositions userId db = filter (\<lambda>p. pp_userId p = userId) (pd_positions db)"

definition getPosition :: "nat \<Rightarrow> pool_db \<Rightarrow> PoolPosition result" where
  "getPosition positionId db =
     (case row_of pp_id positionId (pd_positions db) of
        None \<Rightarrow> Inl (NotFoundException ''Position not found'')
      | Some position \<Rightarrow> Inr position)"

definition quoteSwap :: "nat \<Rightarrow> string \<Rightarrow> real \<Rightarrow> pool_db \<Rightarrow> SwapQuote result" where
  "quoteSwap poolId tokenIn amountIn db =
     rbind (getPool poolId db) (\<lambda>pool.
     rbind (poolTokens pool db) (\<lambda>(tokenA, tokenB).
     rbind (swapSide tokenIn pool tokenA tokenB) (\<lambda>(isTokenA, reserveIn, reserveOut, tokenOut).
     getAmountOut amountIn reserveIn reserveOut (real_of_int (pl_feeBps pool)))))"


section \<open>Requests\<close>

datatype PoolRequest =
    CreatePool timestamp CreatePoolDto
  | AddLiquidity timestamp nat AddLiquidityDto
  | RemoveLiquidity nat RemoveLiquidityDto
  | Swap timestamp nat SwapDto
  | EmergencyWithdraw nat EmergencyWithdrawDto

text \<open>The number constraints of the DTO classes.\<close>

definition validCreatePoolDto :: "CreatePoolDto \<Rightarrow> bool" where
  "validCreatePoolDto dto = (case cp_feeBps dto of None \<Rightarrow> True | Some f \<Rightarrow> 0 \<le> f)"

definition validAddLiquidityDto :: "AddLiquidityDto \<Rightarrow> bool" where
  "validAddLiquidityDto dto = (0 \<le> al_amountA dto \<and> 0 \<le> al_amountB dto)"

definition validRemoveLiquidityDto :: "RemoveLiquidityDto \<Rightarrow> bool" where
  "validRemoveLiquidityDto dto = (0 \<le> rl_lpAmount dto)"

definition validSwapDto :: "SwapDto \<Rightarrow> bool" where
  "validSwapDto dto =
     (0 \<le> sd_amountIn dto \<and> (case sd_minAmountOut dto of None \<Rightarrow> True | Some m \<Rightarrow> 0 \<le> m))"

definition validEmergencyWithdrawDto :: "EmergencyWithdrawDto \<Rightarrow> bool" where
  "validEmergencyWithdrawDto dto = (0 \<le> ed_lpAmount dto)"

fun handlePoolRequest :: "PoolRequest \<Rightarrow> pool_db \<Rightarrow> pool_db" where
  "handlePoolRequest (CreatePool now dto) db =
     (if validCreatePoolDto dto
      then commit (\<lambda>s. map_sum id snd (createPool now dto s)) db else db)"
| "handlePoolRequest (AddLiquidity now i dto) db =
     (if validAddLiquidityDto dto
      then commit (\<lambda>s. map_sum id snd (addLiquidity now i dto s)) db else db)"
| "handlePoolRequest (RemoveLiquidity i dto) db =
     (if validRemoveLiquidityDto dto
      then commit (\<lambda>s. map_sum id snd (removeLiquidity i dto s)) db else db)"
| "handlePoolRequest (Swap now i dto) db =
     (if validSwapDto dto then snd (swap now i dto db) else db)"
| "handlePoolRequest (EmergencyWithdraw i dto) db =
     (if validEmergencyWithdrawDto dto
      then commit (\<lambda>s. map_sum id snd (emergencyWithdraw i dto s)) db else db)"

section \<open>The invariant\<close>

definition lpOf :: "nat \<Rightarrow> PoolPosition list \<Rightarrow> real" where
  "lpOf i ps = sum_list (map (\<lambda>p. if pp_poolId p = i then pp_lpAmount p else 0) ps)"

text \<open>Either there are LP tokens and both reserves are positive, or there is nothing at all.\<close>

definition liveOrEmpty :: "LiquidityPool \<Rightarrow> bool" where
  "liveOrEmpty pool =
     (0 < pl_totalLpSupply pool \<and> 0 < pl_reserveA pool \<and> 0 < pl_reserveB pool \<or>
      pl_totalLpSupply pool = 0 \<and> pl_reserveA pool = 0 \<and> pl_reserveB pool = 0)"

definition poolOk :: "PoolPosition list \<Rightarrow> nat \<Rightarrow> LiquidityPool \<Rightarrow> bool" where
  "poolOk ps n pool =
     (pl_id pool < n \<and> lpOf (pl_id pool) ps = pl_totalLpSupply pool \<and>
      (saneFee (pl_feeBps pool) \<longrightarrow> liveOrEmpty pool))"

definition positionOk :: "nat \<Rightarrow> nat \<Rightarrow> PoolPosition \<Rightarrow> bool" where
  "positionOk m n p = (pp_id p < m \<and> pp_poolId p < n \<and> 0 \<le> pp_lpAmount p)"

definition pools_inv :: "pool_db \<Rightarrow> bool" where
  "pools_inv db =
     (keyed pl_id (pd_pools db) \<and> keyed pp_id (pd_positions db) \<and>
      list_all (poolOk (pd_positions db) (pd_poolSeq db)) (pd_pools db) \<and>
      list_all (positionOk (pd_positionSeq db) (pd_poolSeq db)) (pd_positions db))"

lemma lpOf_save:
  assumes "keyed pp_id ps" and "\<And>old. row_of pp_id (pp_id p) ps = Some old \<Longrightarrow> pp_poolId old = pp_poolId p"
  shows "lpOf i (save_row pp_id p ps) =
    lpOf i ps + (if pp_poolId p = i
      then pp_lpAmount p - (case row_of pp_id (pp_id p) ps of None \<Rightarrow> 0 | Some old \<Rightarrow> pp_lpAmount old)
      else 0)"
  using assms(2) by (auto simp: lpOf_def sum_list_save_row [OF assms(1)] split: option.splits)

lemma lpOf_nonneg: "\<forall>p\<in>set ps. 0 \<le> pp_lpAmount p \<Longrightarrow> 0 \<le> lpOf i ps"
  by (auto simp: lpOf_def intro!: sum_list_nonneg)

lemma lp_le_lpOf:
  assumes "p \<in> set ps" and "\<forall>p\<in>set ps. 0 \<le> pp_lpAmount p"
  shows "pp_lpAmount p \<le> lpOf (pp_poolId p) ps"
  unfolding lpOf_def
  using member_le_sum_list_nonneg [OF assms(1), of "\<lambda>q. if pp_poolId q = pp_poolId p then pp_lpAmount q else 0"]
    assms(2) by simp

lemma getPool_Inr: "getPool i db = Inr pool \<longleftrightarrow> row_of pl_id i (pd_pools db) = Some pool"
  by (simp add: getPool_def split: option.splits)

lemma pools_inv_pool:
  assumes "pools_inv db" and "row_of pl_id i (pd_pools db) = Some pool"
  shows "pl_id pool = i \<and> pool \<in> set (pd_pools db) \<and> poolOk (pd_positions db) (pd_poolSeq db) pool \<and>
    0 \<le> pl_totalLpSupply pool"
proof -
  have pool: "pl_id pool = i" "pool \<in> set (pd_pools db)" using row_of_Some_in [OF assms(2)] by auto
  have "0 \<le> lpOf i (pd_positions db)"
    using assms(1) by (intro lpOf_nonneg) (simp add: pools_inv_def positionOk_def list_all_iff)
  with pool assms(1) show ?thesis by (auto simp: pools_inv_def poolOk_def list_all_iff)
qed

lemma pools_inv_position:
  assumes "pools_inv db" and "findPosition i u db = Some p"
  shows "pp_poolId p = i \<and> pp_userId p = u \<and> row_of pp_id (pp_id p) (pd_positions db) = Some p \<and>
    pp_id p < pd_positionSeq db \<and> 0 \<le> pp_lpAmount p \<and> pp_lpAmount p \<le> lpOf i (pd_positions db)"
proof -
  have p: "p \<in> set (pd_positions db)" "pp_poolId p = i" "pp_userId p = u"
    using assms(2) by (auto simp: findPosition_def dest: find_Some_in)
  moreover have "row_of pp_id (pp_id p) (pd_positions db) = Some p"
    using assms(1) p(1) by (simp add: pools_inv_def row_of_keyed)
  moreover have "pp_lpAmount p \<le> lpOf (pp_poolId p) (pd_positions db)"
    using assms(1) p(1) by (intro lp_le_lpOf) (simp_all add: pools_inv_def positionOk_def list_all_iff)
  ultimately show ?thesis
    using assms(1) by (auto simp: pools_inv_def positionOk_def list_all_iff)
qed

text \<open>Saving a pool together with one of its positions.\<close>

lemma pools_inv_save:
  assumes inv: "pools_inv db" and pool: "row_of pl_id i (pd_pools db) = Some pool"
    and ids: "pl_id pool' = i" "pp_poolId p' = i" "pp_id p' < n" "pd_positionSeq db \<le> n"
    and old: "\<And>old. row_of pp_id (pp_id p') (pd_positions db) = Some old \<Longrightarrow> pp_poolId old = i"
    and lp: "0 \<le> pp_lpAmount p'"
    and total: "pl_totalLpSupply pool' = pl_totalLpSupply pool + pp_lpAmount p' -
      (case row_of pp_id (pp_id p') (pd_positions db) of None \<Rightarrow> 0 | Some old \<Rightarrow> pp_lpAmount old)"
    and live: "saneFee (pl_feeBps pool') \<Longrightarrow> liveOrEmpty pool'"
  shows "pools_inv ((savePosition p' (savePool pool' db))\<lparr>pd_positionSeq := n\<rparr>)"
proof -
  note P = pools_inv_pool [OF inv pool]
  have lpOf': "lpOf j (save_row pp_id p' (pd_positions db)) = lpOf j (pd_positions db) +
      (if i = j then pl_totalLpSupply pool' - pl_totalLpSupply pool else 0)" for j
    using inv old ids total by (subst lpOf_save) (auto simp: pools_inv_def)
  have "poolOk (save_row pp_id p' (pd_positions db)) (pd_poolSeq db) q"
    if "q \<in> set (save_row pl_id pool' (pd_pools db))" for q
    using that inv P ids(1) live
    by (auto simp: set_save_row poolOk_def lpOf' pools_inv_def list_all_iff)
  moreover have "positionOk n (pd_poolSeq db) q"
    if "q \<in> set (save_row pp_id p' (pd_positions db))" for q
    using that inv P ids lp
    by (auto simp: set_save_row positionOk_def poolOk_def pools_inv_def list_all_iff)
  ultimately show ?thesis
    using inv by (auto simp: pools_inv_def savePosition_def savePool_def keyed_save_row list_all_iff)
qed


lemma pools_inv_save_old:
  assumes inv: "pools_inv db" and pool: "row_of pl_id i (pd_pools db) = Some pool"
    and pos: "findPosition i u db = Some p"
    and ids: "pl_id pool' = i" "pp_poolId p' = i" "pp_id p' = pp_id p"
    and lp: "0 \<le> pp_lpAmount p'"
    and total: "pl_totalLpSupply pool' = pl_totalLpSupply pool + pp_lpAmount p' - pp_lpAmount p"
    and live: "saneFee (pl_feeBps pool') \<Longrightarrow> liveOrEmpty pool'"
  shows "pools_inv (savePosition p' (savePool pool' db))"
proof -
  note P = pools_inv_position [OF inv pos]
  have "pools_inv ((savePosition p' (savePool pool' db))\<lparr>pd_positionSeq := pd_positionSeq db\<rparr>)"
    by (rule pools_inv_save [OF inv pool]) (use P ids lp total live in auto)
  then show ?thesis by (simp add: savePosition_def savePool_def)
qed

section \<open>Every operation keeps the invariant\<close>

lemma lpOf_unused:
  assumes "\<forall>p\<in>set ps. pp_poolId p \<noteq> k"
  shows "lpOf k ps = 0"
  using assms unfolding lpOf_def by (induction ps) simp_all

lemma createPool_inv:
  assumes "pools_inv db" and "createPool now dto db = Inr (pool, db')"
  shows "pools_inv db'"
proof -
  have db': "db' = db\<lparr>pd_pools := save_row pl_id pool (pd_pools db), pd_poolSeq := Suc (pd_poolSeq db)\<rparr>"
    and pool: "pool = newPool now dto (pd_poolSeq db)"
    using assms(2) by (auto simp: createPool_def Let_def split: if_splits)
  have "lpOf (pd_poolSeq db) (pd_positions db) = 0"
    using assms(1) by (intro lpOf_unused) (auto simp: pools_inv_def positionOk_def list_all_iff)
  then have "poolOk (pd_positions db) (Suc (pd_poolSeq db)) pool"
    by (simp add: poolOk_def pool newPool_def liveOrEmpty_def)
  with assms(1) show ?thesis
    by (auto simp: pools_inv_def db' keyed_save_row list_all_iff set_save_row poolOk_def
        positionOk_def less_Suc_eq)
qed

lemma addLiquidity_Inr:
  assumes "addLiquidity now i dto db = Inr ((pool', p', minted), db')"
  obtains (minted) pool q where "row_of pl_id i (pd_pools db) = Some pool" "pl_status pool = ACTIVE"
    "calculateLpTokensToMint (al_amountA dto) (al_amountB dto) (pl_reserveA pool) (pl_reserveB pool)
       (pl_totalLpSupply pool) = Inr q"
    "minted = lq_lpTokensMinted q" "pool' = mintIntoPool q pool"
    "p' = depositPosition now i (al_userId dto) q (pd_positionSeq db)
       (findPosition i (al_userId dto) db)"
    "db' = (savePosition p' (savePool pool' db))\<lparr>pd_positionSeq :=
       (if findPosition i (al_userId dto) db = None then Suc (pd_positionSeq db)
        else pd_positionSeq db)\<rparr>"
  using assms by (auto simp: addLiquidity_def getPool_Inr Let_def split: if_splits)

lemma mintIntoPool_fields [simp]:
  "pl_id (mintIntoPool q pool) = pl_id pool" "pl_feeBps (mintIntoPool q pool) = pl_feeBps pool"
  "pl_status (mintIntoPool q pool) = pl_status pool"
  "pl_reserveA (mintIntoPool q pool) = pl_reserveA pool + lq_amountA q"
  "pl_reserveB (mintIntoPool q pool) = pl_reserveB pool + lq_amountB q"
  "pl_totalLpSupply (mintIntoPool q pool) = pl_totalLpSupply pool + lq_lpTokensMinted q"
  by (simp_all add: mintIntoPool_def)

lemma liveOrEmpty_mint:
  assumes "calculateLpTokensToMint a b (pl_reserveA pool) (pl_reserveB pool) (pl_totalLpSupply pool) = Inr q"
    and "liveOrEmpty pool"
  shows "liveOrEmpty (mintIntoPool q pool)"
proof (cases "pl_totalLpSupply pool = 0")
  case True
  with assms mint_first [of a b "pl_reserveA pool" "pl_reserveB pool" q] mint_Inr [OF assms(1)]
  show ?thesis by (auto simp: liveOrEmpty_def)
next
  case False
  with assms(2) have s: "0 < pl_totalLpSupply pool" and r: "0 < pl_reserveA pool" "0 < pl_reserveB pool"
    by (auto simp: liveOrEmpty_def)
  then show ?thesis
    using mint_later(1-3) [OF assms(1) s] by (simp add: liveOrEmpty_def add_pos_pos)
qed

lemma mint_positive:
  assumes "calculateLpTokensToMint a b x y s = Inr q" and "0 \<le> s"
  shows "0 < lq_lpTokensMinted q"
  using assms mint_first [of a b x y q] mint_later(3) [of a b x y s q] by (cases "s = 0") auto

lemma addLiquidity_inv:
  assumes inv: "pools_inv db" and run: "addLiquidity now i dto db = Inr ((pool', p', minted), db')"
  shows "pools_inv db'"
  using run
proof (cases rule: addLiquidity_Inr)
  case (minted pool q)
  note pool = pools_inv_pool [OF inv minted(1)]
  have m: "0 < lq_lpTokensMinted q" using mint_positive [OF minted(3)] pool by simp
  have live: "liveOrEmpty pool'" if "saneFee (pl_feeBps pool')"
    using liveOrEmpty_mint [OF minted(3)] pool that by (simp add: minted(5) poolOk_def)
  have fresh: "row_of pp_id (pd_positionSeq db) (pd_positions db) = None"
    using inv by (auto simp: row_of_None_iff pools_inv_def positionOk_def list_all_iff)
  show ?thesis
    unfolding minted(7)
    by (rule pools_inv_save [OF inv minted(1)])
      (use pool fresh m live pools_inv_position [OF inv] in
        \<open>auto simp: minted(5,6) depositPosition_def split: option.splits\<close>)
qed

lemma burnFromPool_fields [simp]:
  "pl_id (burnFromPool w l pool) = pl_id pool" "pl_feeBps (burnFromPool w l pool) = pl_feeBps pool"
  "pl_status (burnFromPool w l pool) = pl_status pool"
  "pl_reserveA (burnFromPool w l pool) = pl_reserveA pool - wq_amountA w"
  "pl_reserveB (burnFromPool w l pool) = pl_reserveB pool - wq_amountB w"
  "pl_totalLpSupply (burnFromPool w l pool) = pl_totalLpSupply pool - l"
  by (simp_all add: burnFromPool_def)

lemma burn_reserves:
  assumes "calculateWithdrawAmounts l (pl_totalLpSupply pool) (pl_reserveA pool) (pl_reserveB pool) = Inr w"
  shows "pl_reserveA (burnFromPool w l pool) =
      pl_reserveA pool * (pl_totalLpSupply pool - l) / pl_totalLpSupply pool"
    and "pl_reserveB (burnFromPool w l pool) =
      pl_reserveB pool * (pl_totalLpSupply pool - l) / pl_totalLpSupply pool"
  using withdraw_Inr [OF assms] by (simp_all add: field_simps)

lemma liveOrEmpty_burn:
  assumes "calculateWithdrawAmounts l (pl_totalLpSupply pool) (pl_reserveA pool) (pl_reserveB pool) = Inr w"
    and "liveOrEmpty pool"
  shows "liveOrEmpty (burnFromPool w l pool)"
proof (cases "pl_totalLpSupply pool = l")
  case True
  then show ?thesis
    by (simp add: liveOrEmpty_def burn_reserves [OF assms(1)] del: burnFromPool_fields(4,5))
next
  case False
  with withdraw_Inr(1-3) [OF assms(1)] have "0 < pl_totalLpSupply pool - l" "0 < pl_totalLpSupply pool"
    by simp_all
  with assms(2) show ?thesis
    by (simp add: liveOrEmpty_def burn_reserves [OF assms(1)] del: burnFromPool_fields(4,5))
qed

lemma removeLiquidity_Inr:
  assumes "removeLiquidity i dto db = Inr ((pool', p', w), db')"
  obtains (burnt) pool p where "row_of pl_id i (pd_pools db) = Some pool" "pl_status pool \<noteq> EMERGENCY"
    "findPosition i (rl_userId dto) db = Some p" "rl_lpAmount dto \<le> pp_lpAmount p"
    "calculateWithdrawAmounts (rl_lpAmount dto) (pl_totalLpSupply pool) (pl_reserveA pool)
       (pl_reserveB pool) = Inr w"
    "pool' = burnFromPool w (rl_lpAmount dto) pool"
    "pp_id p' = pp_id p" "pp_poolId p' = pp_poolId p" "pp_userId p' = pp_userId p"
    "pp_lpAmount p' = pp_lpAmount p - rl_lpAmount dto"
    "db' = savePosition p' (savePool pool' db)"
  using assms by (auto simp: removeLiquidity_def getPool_Inr Let_def split: if_splits option.splits)

lemma removeLiquidity_inv:
  assumes inv: "pools_inv db" and run: "removeLiquidity i dto db = Inr ((pool', p', w), db')"
  shows "pools_inv db'"
  using run
proof (cases rule: removeLiquidity_Inr)
  case (burnt pool p)
  note pool = pools_inv_pool [OF inv burnt(1)] and pos = pools_inv_position [OF inv burnt(3)]
  have "liveOrEmpty pool'" if "saneFee (pl_feeBps pool')"
    using liveOrEmpty_burn [OF burnt(5)] pool that by (simp add: burnt(6) poolOk_def)
  then show ?thesis
    unfolding burnt(11)
    by (intro pools_inv_save_old [OF inv burnt(1,3)]) (use pool pos burnt in auto)
qed

lemma emergencyWithdraw_Inr:
  assumes "emergencyWithdraw i dto db = Inr (wd, db')"
  obtains (burnt) pool p w where "row_of pl_id i (pd_pools db) = Some pool"
    "findPosition i (ed_userId dto) db = Some p" "ed_lpAmount dto \<le> pp_lpAmount p"
    "calculateWithdrawAmounts (ed_lpAmount dto) (pl_totalLpSupply pool) (pl_reserveA pool)
       (pl_reserveB pool) = Inr w"
    "ew_amountA wd = wq_amountA w" "ew_amountB wd = wq_amountB w"
    "ew_status wd = (case ed_adminApprovedBy dto of
        Some a \<Rightarrow> if a \<noteq> 0 then EW_COMPLETED else EW_PENDING | None \<Rightarrow> EW_PENDING)"
    "db' = (savePosition (p\<lparr>pp_lpAmount := pp_lpAmount p - ed_lpAmount dto\<rparr>)
       (savePool (burnFromPool w (ed_lpAmount dto) pool) db))\<lparr>pd_withdrawals := pd_withdrawals db @ [wd]\<rparr>"
  using assms
  by (auto simp: emergencyWithdraw_def getPool_Inr Let_def savePosition_def savePool_def
      split: if_splits option.splits)

lemma pools_inv_withdrawals [simp]: "pools_inv (db\<lparr>pd_withdrawals := ws\<rparr>) = pools_inv db"
  by (simp add: pools_inv_def)

lemma emergencyWithdraw_inv:
  assumes inv: "pools_inv db" and run: "emergencyWithdraw i dto db = Inr (wd, db')"
  shows "pools_inv db'"
  using run
proof (cases rule: emergencyWithdraw_Inr)
  case (burnt pool p w)
  note pool = pools_inv_pool [OF inv burnt(1)] and pos = pools_inv_position [OF inv burnt(2)]
  have "liveOrEmpty (burnFromPool w (ed_lpAmount dto) pool)" if "saneFee (pl_feeBps pool)"
    using liveOrEmpty_burn [OF burnt(4)] pool that by (simp add: poolOk_def)
  then show ?thesis
    unfolding burnt(8) pools_inv_withdrawals
    by (intro pools_inv_save_old [OF inv burnt(1,2)]) (use pool pos burnt(3) in auto)
qed

section \<open>Swaps\<close>

lemma creditFee_fields [simp]:
  "pp_id (creditFee f s a p) = pp_id p" "pp_poolId (creditFee f s a p) = pp_poolId p"
  "pp_userId (creditFee f s a p) = pp_userId p" "pp_lpAmount (creditFee f s a p) = pp_lpAmount p"
  by (simp_all add: creditFee_def Let_def)

definition creditAll :: "LiquidityPool \<Rightarrow> real \<Rightarrow> bool \<Rightarrow> PoolPosition list \<Rightarrow> PoolPosition list" where
  "creditAll pool fee isTokenA ps =
     map (\<lambda>p. if pp_poolId p = pl_id pool
       then creditFee fee (pl_totalLpSupply pool) isTokenA p else p) ps"

lemma fold_savePosition:
  "fold (\<lambda>p. savePosition (f p)) xs db =
     db\<lparr>pd_positions := fold (\<lambda>p. save_row pp_id (f p)) xs (pd_positions db)\<rparr>"
  by (induction xs arbitrary: db) (simp_all add: savePosition_def)

lemma distributeFeesToLps_eq:
  "keyed pp_id (pd_positions db) \<Longrightarrow>
     distributeFeesToLps pool fee a db =
       db\<lparr>pd_positions := creditAll pool fee a (pd_positions db)\<rparr>"
  by (simp add: distributeFeesToLps_def fold_savePosition fold_save_filter creditAll_def)

lemma creditAll_keeps:
  "map pp_id (creditAll pool fee a ps) = map pp_id ps"
  "lpOf i (creditAll pool fee a ps) = lpOf i ps"
  "list_all (positionOk m n) (creditAll pool fee a ps) = list_all (positionOk m n) ps"
  by (induction ps) (simp_all add: creditAll_def lpOf_def positionOk_def)

lemma distributeFeesToLps_inv: "pools_inv db \<Longrightarrow> pools_inv (distributeFeesToLps pool fee a db)"
  by (simp add: distributeFeesToLps_eq pools_inv_def keyed_def creditAll_keeps poolOk_def [abs_def])

lemma applySwap_fields [simp]:
  "pl_id (applySwap x y f a pool) = pl_id pool" "pl_feeBps (applySwap x y f a pool) = pl_feeBps pool"
  "pl_totalLpSupply (applySwap x y f a pool) = pl_totalLpSupply pool"
  "pl_status (applySwap x y f a pool) = pl_status pool"
  "pl_reserveA (applySwap x y f a pool) = pl_reserveA pool + (if a then x else - y)"
  "pl_reserveB (applySwap x y f a pool) = pl_reserveB pool + (if a then - y else x)"
  by (simp_all add: applySwap_def Let_def)

text \<open>A swap that gets past its checks, with the two reserves it works on.\<close>

lemma checkSwap_Inr:
  assumes "checkSwap dto pool db = Inr (a, tokenOut, q)"
  shows "getAmountOut (sd_amountIn dto) (if a then pl_reserveA pool else pl_reserveB pool)
      (if a then pl_reserveB pool else pl_reserveA pool) (real_of_int (pl_feeBps pool)) = Inr q"
    and "\<not> belowMinimum (sd_minAmountOut dto) (sq_amountOut q)"
  using assms by (auto simp: checkSwap_def swapSide_def split: prod.splits if_splits)

lemma swap_cases:
  obtains (rejected) e where "swap now i dto db = (Inl e, db)"
  | (run) pool a out q where "row_of pl_id i (pd_pools db) = Some pool" "pl_status pool = ACTIVE"
    "checkSwap dto pool db = Inr (a, out, q)"
    "swap now i dto db = executeSwap now i dto pool a out q db"
proof (cases "getPool i db")
  case (Inl e)
  then show ?thesis using rejected by (simp add: swap_def)
next
  case (Inr pool)
  show ?thesis
  proof (cases "pl_status pool = ACTIVE \<and> (\<exists>r. checkSwap dto pool db = Inr r)")
    case True
    then obtain a out q where q: "checkSwap dto pool db = Inr (a, out, q)" by auto
    have "row_of pl_id i (pd_pools db) = Some pool" using Inr by (simp add: getPool_Inr)
    moreover have "swap now i dto db = executeSwap now i dto pool a out q db"
      using True Inr q by (simp add: swap_def)
    ultimately show ?thesis using run True q by blast
  next
    case False
    then have "\<exists>e. swap now i dto db = (Inl e, db)"
      using Inr by (cases "checkSwap dto pool db") (auto simp: swap_def)
    then show ?thesis using rejected by blast
  qed
qed

text \<open>With an acceptable fee the reserves move along the curve.\<close>

lemma executeSwap_sane:
  assumes "checkSwap dto pool db = Inr (a, out, q)" and "saneFee (pl_feeBps pool)"
    and "x = (if a then pl_reserveA pool else pl_reserveB pool)"
    and "y = (if a then pl_reserveB pool else pl_reserveA pool)"
  shows "0 < sd_amountIn dto" "0 < x" "0 < y"
    "sq_amountOut q = Fin (curveOut (pl_feeBps pool) (sd_amountIn dto) x y)"
    "sq_feeAmount q = sd_amountIn dto * real_of_int (pl_feeBps pool) / 10000"
proof -
  have q: "getAmountOut (sd_amountIn dto) x y (real_of_int (pl_feeBps pool)) = Inr q"
    using checkSwap_Inr(1) [OF assms(1)] assms(3,4) by simp
  then show pos: "0 < sd_amountIn dto" "0 < x" "0 < y"
    using getAmountOut_Inr by blast+
  show "sq_amountOut q = Fin (curveOut (pl_feeBps pool) (sd_amountIn dto) x y)"
    "sq_feeAmount q = sd_amountIn dto * real_of_int (pl_feeBps pool) / 10000"
    using getAmountOut_curve [OF assms(2) pos] q by auto
qed

lemma applySwap_live:
  assumes "checkSwap dto pool db = Inr (a, out, q)" and "saneFee (pl_feeBps pool)"
    and "sq_amountOut q = Fin b" and "0 < pl_totalLpSupply pool"
  shows "liveOrEmpty (applySwap (sd_amountIn dto) b f a pool)"
  using executeSwap_sane [OF assms(1,2) refl refl] assms(3,4)
    curve.out_less [OF assms(2) executeSwap_sane(1-3) [OF assms(1,2) refl refl]]
  by (cases a) (simp_all add: liveOrEmpty_def)

lemma pools_inv_savePool:
  assumes "pools_inv db" and "row_of pl_id i (pd_pools db) = Some pool"
    and "pl_id pool' = i" "pl_totalLpSupply pool' = pl_totalLpSupply pool"
    and "saneFee (pl_feeBps pool') \<Longrightarrow> liveOrEmpty pool'"
  shows "pools_inv (savePool pool' db)"
  using assms pools_inv_pool [OF assms(1,2)]
  by (auto simp: pools_inv_def savePool_def keyed_save_row list_all_iff set_save_row poolOk_def)

lemma pools_inv_swaps [simp]: "pools_inv (db\<lparr>pd_swaps := ws\<rparr>) = pools_inv db"
  by (simp add: pools_inv_def)

lemma swap_inv:
  assumes inv: "pools_inv db"
  shows "pools_inv (snd (swap now i dto db))"
proof (cases rule: swap_cases [of now i dto db])
  case (rejected e)
  with inv show ?thesis by simp
next
  case (run pool a out q)
  let ?db = "distributeFeesToLps pool (sq_feeAmount q) a db"
  note P = pools_inv_pool [OF inv run(1)]
  have inv': "pools_inv ?db" using distributeFeesToLps_inv [OF inv] .
  have pools: "pd_pools ?db = pd_pools db"
    using inv by (simp add: distributeFeesToLps_eq pools_inv_def)
  have live: "liveOrEmpty (applySwap (sd_amountIn dto) b f a pool)"
    if "saneFee (pl_feeBps pool)" "sq_amountOut q = Fin b" for b f
  proof -
    have "0 < pl_totalLpSupply pool"
      using executeSwap_sane(2,3) [OF run(3) that(1) refl refl] P that(1)
      by (cases a) (auto simp: poolOk_def liveOrEmpty_def)
    then show ?thesis by (rule applySwap_live [OF run(3) that])
  qed
  show ?thesis
  proof (cases "sq_amountOut q")
    case (Fin b)
    have "pools_inv (savePool (applySwap (sd_amountIn dto) b (sq_feeAmount q) a pool)
      (?db\<lparr>pd_swaps := ws\<rparr>))" for ws
      using inv' pools run(1) P live [OF _ Fin]
      by (intro pools_inv_savePool [where i = i and pool = pool]) simp_all
    then show ?thesis by (simp add: run(4) executeSwap_def Let_def Fin)
  qed (simp_all add: run(4) executeSwap_def Let_def inv')
qed

interpretation pool_requests: event_loop handlePoolRequest pools_inv
proof
  fix req and db :: pool_db
  assume inv: "pools_inv db"
  show "pools_inv (handlePoolRequest req db)"
  proof (cases req)
    case (CreatePool now dto)
    have "pools_inv (commit (\<lambda>s. map_sum id snd (createPool now dto s)) db)"
      by (rule commit_map_snd) (use inv createPool_inv in fast)+
    with CreatePool inv show ?thesis by simp
  next
    case (AddLiquidity now i dto)
    have "pools_inv (commit (\<lambda>s. map_sum id snd (addLiquidity now i dto s)) db)"
      by (rule commit_map_snd) (use inv addLiquidity_inv in fast)+
    with AddLiquidity inv show ?thesis by simp
  next
    case (RemoveLiquidity i dto)
    have "pools_inv (commit (\<lambda>s. map_sum id snd (removeLiquidity i dto s)) db)"
      by (rule commit_map_snd) (use inv removeLiquidity_inv in fast)+
    with RemoveLiquidity inv show ?thesis by simp
  next
    case (Swap now i dto)
    then show ?thesis using inv swap_inv [OF inv] by simp
  next
    case (EmergencyWithdraw i dto)
    have "pools_inv (commit (\<lambda>s. map_sum id snd (emergencyWithdraw i dto s)) db)"
      by (rule commit_map_snd) (use inv emergencyWithdraw_inv in fast)+
    with EmergencyWithdraw inv show ?thesis by simp
  qed
qed

section \<open>Analytics\<close>

record PoolMetrics =
  pm_poolId :: nat
  pm_chainId :: string
  pm_tokenA :: string
  pm_tokenB :: string
  pm_reserveA :: real
  pm_reserveB :: real
  pm_totalLpSupply :: real
  pm_tvl :: real
  pm_spotPrice :: real
  pm_feeBps :: int
  pm_status :: PoolStatus
  pm_totalVolume :: real
  pm_totalSwaps :: nat
  pm_accumulatedFeesA :: real
  pm_accumulatedFeesB :: real
  pm_healthRatio :: real

record PoolAnalyticsDashboard =
  da_totalPools :: nat
  da_activePools :: nat
  da_totalTvl :: real
  da_totalVolume24h :: real
  da_totalSwaps24h :: nat
  da_pools :: "PoolMetrics list"

definition calculateHealthRatio :: "real \<Rightarrow> real \<Rightarrow> real" where
  "calculateHealthRatio reserveA reserveB =
     (if reserveA \<le> 0 \<or> reserveB \<le> 0 then 0
      else let ratio = reserveA / reserveB in min ratio (1 / ratio))"

text \<open>\<open>pool.tokenA?.symbol ?? ''\<close>.\<close>

definition symbolOf :: "asset_id \<Rightarrow> pool_db \<Rightarrow> string" where
  "symbolOf i db = (case findAsset i db of None \<Rightarrow> [] | Some t \<Rightarrow> va_symbol t)"

definition poolMetrics :: "pool_db \<Rightarrow> LiquidityPool \<Rightarrow> PoolMetrics" where
  "poolMetrics db pool =
     \<lparr>pm_poolId = pl_id pool, pm_chainId = pl_chainId pool,
      pm_tokenA = symbolOf (pl_tokenAId pool) db, pm_tokenB = symbolOf (pl_tokenBId pool) db,
      pm_reserveA = pl_reserveA pool, pm_reserveB = pl_reserveB pool,
      pm_totalLpSupply = pl_totalLpSupply pool, pm_tvl = pl_reserveA pool + pl_reserveB pool,
      pm_spotPrice = getSpotPrice (pl_reserveA pool) (pl_reserveB pool),
      pm_feeBps = pl_feeBps pool, pm_status = pl_status pool,
      pm_totalVolume = pl_totalVolume pool, pm_totalSwaps = pl_totalSwaps pool,
      pm_accumulatedFeesA = pl_accumulatedFeesA pool,
      pm_accumulatedFeesB = pl_accumulatedFeesB pool,
      pm_healthRatio = calculateHealthRatio (pl_reserveA pool) (pl_reserveB pool)\<rparr>"

definition getPoolMetrics :: "nat \<Rightarrow> pool_db \<Rightarrow> PoolMetrics result" where
  "getPoolMetrics poolId db = map_sum id (poolMetrics db) (getPool poolId db)"

definition getAnalyticsDashboard :: "timestamp \<Rightarrow> pool_db \<Rightarrow> PoolAnalyticsDashboard" where
  "getAnalyticsDashboard now db =
     (let since24h = now - 24 * 60 * 60 * 1000;
          recentSwaps = filter (\<lambda>s. ps_createdAt s \<ge> since24h) (pd_swaps db);
          metrics = map (poolMetrics db) (pd_pools db)
      in \<lparr>da_totalPools = length (pd_pools db),
          da_activePools = length (filter (\<lambda>p. pl_status p = ACTIVE) (pd_pools db)),
          da_totalTvl = foldl (\<lambda>acc p. acc + pm_tvl p) 0 metrics,
          da_totalVolume24h = foldl (\<lambda>acc s. acc + ps_amountIn s) 0 recentSwaps,
          da_totalSwaps24h = length recentSwaps,
          da_pools = metrics\<rparr>)"

text \<open>The position is loaded with its pool; without one the property access throws.\<close>

definition getImpermanentLoss :: "nat \<Rightarrow> pool_db \<Rightarrow> ImpermanentLossResult result" where
  "getImpermanentLoss positionId db =
     rbind (getPosition positionId db) (\<lambda>position.
       case row_of pl_id (pp_poolId position) (pd_pools db) of
         None \<Rightarrow> Inl (JsError ''Cannot read properties of null'')
       | Some pool \<Rightarrow>
           Inr (calculateImpermanentLoss (pp_depositedAmountA position) (pp_depositedAmountB position)
                  (pl_reserveA pool) (pl_reserveB pool) (pl_totalLpSupply pool) (pp_lpAmount position)))"

section \<open>Value per LP token\<close>

definition backing :: "LiquidityPool \<Rightarrow> real" where
  "backing pool = pl_reserveA pool * pl_reserveB pool / (pl_totalLpSupply pool)\<^sup>2"

lemma backing_scale:
  fixes k :: real
  assumes "k \<noteq> 0" "pl_reserveA pool' = pl_reserveA pool * k" "pl_reserveB pool' = pl_reserveB pool * k"
    "pl_totalLpSupply pool' = pl_totalLpSupply pool * k"
  shows "backing pool' = backing pool"
  using assms by (simp add: backing_def power2_eq_square)

lemma backing_mint:
  assumes "calculateLpTokensToMint a b (pl_reserveA pool) (pl_reserveB pool) (pl_totalLpSupply pool) = Inr q"
    and s: "0 < pl_totalLpSupply pool"
  shows "backing (mintIntoPool q pool) = backing pool"
proof (rule backing_scale [where k = "1 + lq_lpTokensMinted q / pl_totalLpSupply pool"])
  show "1 + lq_lpTokensMinted q / pl_totalLpSupply pool \<noteq> 0"
    using mint_later(3) [OF assms] s by (simp add: add_pos_pos pos_add_strict less_imp_neq [THEN not_sym])
qed (use s in \<open>simp_all add: mint_later(1,2) [OF assms] field_simps\<close>)

lemma backing_burn:
  assumes "calculateWithdrawAmounts l (pl_totalLpSupply pool) (pl_reserveA pool) (pl_reserveB pool) = Inr w"
    and "0 < pl_totalLpSupply (burnFromPool w l pool)"
  shows "backing (burnFromPool w l pool) = backing pool"
proof (rule backing_scale [where k = "1 - l / pl_totalLpSupply pool"])
  show "1 - l / pl_totalLpSupply pool \<noteq> 0" using assms(2) withdraw_Inr(2) [OF assms(1)] by simp
qed (use withdraw_Inr [OF assms(1)] in \<open>simp_all add: field_simps\<close>)

lemma product_applySwap:
  assumes "checkSwap dto pool db = Inr (a, out, q)" and "saneFee (pl_feeBps pool)"
    and "sq_amountOut q = Fin b"
  shows "pl_reserveA pool * pl_reserveB pool \<le>
    pl_reserveA (applySwap (sd_amountIn dto) b f a pool) *
    pl_reserveB (applySwap (sd_amountIn dto) b f a pool)"
  using executeSwap_sane(4) [OF assms(1,2) refl refl] assms(3)
    curve.product [OF assms(2) executeSwap_sane(1-3) [OF assms(1,2) refl refl]]
  by (cases a) (simp_all add: mult.commute)

lemma backing_applySwap:
  assumes "checkSwap dto pool db = Inr (a, out, q)" and "saneFee (pl_feeBps pool)"
    and "sq_amountOut q = Fin b"
  shows "backing pool \<le> backing (applySwap (sd_amountIn dto) b f a pool)"
  using product_applySwap [OF assms] by (simp add: backing_def divide_right_mono)

lemma row_of_savePool:
  "row_of pl_id j (pd_pools (savePool pool db)) = (if j = pl_id pool then Some pool else row_of pl_id j (pd_pools db))"
  by (simp add: savePool_def row_of_save)

lemma pools_savePosition [simp]: "pd_pools (savePosition p db) = pd_pools db"
  by (simp add: savePosition_def)

lemma pools_distributeFeesToLps [simp]: "pd_pools (distributeFeesToLps pool f a db) = pd_pools db"
  by (simp add: distributeFeesToLps_def fold_savePosition)

text \<open>A swap leaves all other pools alone.\<close>

lemma executeSwap_pools:
  "pd_pools (snd (executeSwap now i dto p a out q db)) =
     (case sq_amountOut q of
        Fin b \<Rightarrow> save_row pl_id (applySwap (sd_amountIn dto) b (sq_feeAmount q) a p) (pd_pools db)
      | _ \<Rightarrow> pd_pools db)"
  by (simp add: executeSwap_def Let_def savePool_def split: jsnum.split)

lemma swap_pools:
  assumes "pools_inv db" and "row_of pl_id j (pd_pools db) = Some pool"
    and "row_of pl_id j (pd_pools (snd (swap now i dto db))) = Some pool'"
  obtains (same) "pool' = pool"
  | (swapped) a out q b f where "checkSwap dto pool db = Inr (a, out, q)" "sq_amountOut q = Fin b"
      "pool' = applySwap (sd_amountIn dto) b f a pool"
proof (cases rule: swap_cases [of now i dto db])
  case (rejected e)
  with assms same show ?thesis by simp
next
  case (run p a out q)
  have "pl_id p = i" using pools_inv_pool [OF assms(1) run(1)] by simp
  show ?thesis
  proof (cases "\<exists>b. sq_amountOut q = Fin b \<and> j = i")
    case True
    then obtain b where b: "sq_amountOut q = Fin b" "j = i" by blast
    then have "pool = p" using run(1) assms(2) by simp
    moreover have "pool' = applySwap (sd_amountIn dto) b (sq_feeAmount q) a p"
      using assms(3) b \<open>pl_id p = i\<close> by (simp add: run(4) executeSwap_pools row_of_save)
    ultimately show ?thesis using swapped run(3) b(1) by blast
  next
    case False
    then have "pool' = pool"
      using assms(2,3) \<open>pl_id p = i\<close>
      by (simp add: run(4) executeSwap_pools row_of_save split: jsnum.splits)
    then show ?thesis by (rule same)
  qed
qed

text \<open>What a request can do to a stored pool.\<close>

lemma pool_after_request:
  assumes inv: "pools_inv db" and before: "row_of pl_id j (pd_pools db) = Some pool"
    and after: "row_of pl_id j (pd_pools (handlePoolRequest req db)) = Some pool'"
  obtains (same) "pool' = pool"
  | (mint) a b q where "calculateLpTokensToMint a b (pl_reserveA pool) (pl_reserveB pool)
        (pl_totalLpSupply pool) = Inr q" "pool' = mintIntoPool q pool"
  | (burn) l w where "calculateWithdrawAmounts l (pl_totalLpSupply pool) (pl_reserveA pool)
        (pl_reserveB pool) = Inr w" "pool' = burnFromPool w l pool"
  | (swapped) dto a out q b f where "checkSwap dto pool db = Inr (a, out, q)"
      "sq_amountOut q = Fin b" "pool' = applySwap (sd_amountIn dto) b f a pool"
proof (cases req)
  case (CreatePool now dto)
  have "j \<noteq> pd_poolSeq db" using pools_inv_pool [OF inv before] by (auto simp: poolOk_def)
  with CreatePool before after same show ?thesis
    by (auto simp: commit_def createPool_def Let_def row_of_save newPool_def split: if_splits)
next
  case (AddLiquidity now i dto)
  show ?thesis
  proof (cases "addLiquidity now i dto db")
    case (Inr r)
    then obtain p1 p2 m db' where r: "addLiquidity now i dto db = Inr ((p1, p2, m), db')"
      by (cases r) auto
    then show ?thesis
    proof (cases rule: addLiquidity_Inr)
      case (minted p q)
      have "pl_id p = i" using pools_inv_pool [OF inv minted(1)] by simp
      with minted r AddLiquidity before after same mint show ?thesis
        by (auto simp: commit_def row_of_savePool split: if_splits)
    qed
  qed (use AddLiquidity before after same in \<open>simp add: commit_def split: if_splits\<close>)
next
  case (RemoveLiquidity i dto)
  show ?thesis
  proof (cases "removeLiquidity i dto db")
    case (Inr r)
    then obtain p1 p2 w db' where r: "removeLiquidity i dto db = Inr ((p1, p2, w), db')"
      by (cases r) auto
    then show ?thesis
    proof (cases rule: removeLiquidity_Inr)
      case (burnt p q)
      have "pl_id p = i" using pools_inv_pool [OF inv burnt(1)] by simp
      with burnt r RemoveLiquidity before after same burn show ?thesis
        by (auto simp: commit_def row_of_savePool split: if_splits)
    qed
  qed (use RemoveLiquidity before after same in \<open>simp add: commit_def split: if_splits\<close>)
next
  case (Swap now i dto)
  show ?thesis
  proof (cases "validSwapDto dto")
    case True
    with Swap after have "row_of pl_id j (pd_pools (snd (swap now i dto db))) = Some pool'" by simp
    with inv before show ?thesis
      by (cases rule: swap_pools) (use same swapped in blast)+
  qed (use Swap before after same in simp)
next
  case (EmergencyWithdraw i dto)
  show ?thesis
  proof (cases "emergencyWithdraw i dto db")
    case (Inr r)
    then obtain wd db' where r: "emergencyWithdraw i dto db = Inr (wd, db')"
      by (cases r) auto
    then show ?thesis
    proof (cases rule: emergencyWithdraw_Inr)
      case (burnt p q w)
      have "pl_id p = i" using pools_inv_pool [OF inv burnt(1)] by simp
      with burnt r EmergencyWithdraw before after same burn show ?thesis
        by (auto simp: commit_def row_of_savePool split: if_splits)
    qed
  qed (use EmergencyWithdraw before after same in \<open>simp add: commit_def split: if_splits\<close>)
qed

section \<open>Fees credited to positions\<close>

definition earned :: "nat \<Rightarrow> PoolPosition list \<Rightarrow> real" where
  "earned i ps =
     sum_list (map (\<lambda>p. if pp_poolId p = i then pp_feesEarnedA p + pp_feesEarnedB p else 0) ps)"

lemma earned_creditAll:
  assumes "0 < s" and "\<forall>p\<in>set ps. 0 \<le> pp_lpAmount p" and "pl_totalLpSupply pool = s"
  shows "earned (pl_id pool) (creditAll pool f a ps) =
    earned (pl_id pool) ps + f * lpOf (pl_id pool) ps / s"
  using assms(2)
proof (induction ps)
  case Nil
  then show ?case by (simp add: earned_def creditAll_def lpOf_def)
next
  case (Cons p ps)
  have "pp_feesEarnedA (creditFee f s a p) + pp_feesEarnedB (creditFee f s a p) =
      pp_feesEarnedA p + pp_feesEarnedB p + f * pp_lpAmount p / s"
    using Cons.prems assms(1) by (auto simp: creditFee_def distributeFees_def Let_def)
  with Cons assms(3) show ?case
    by (simp add: earned_def creditAll_def lpOf_def add_divide_distrib distrib_left)
qed

section \<open>A deposit and its withdrawal\<close>

lemma addLiquidity_rows:
  assumes inv: "pools_inv db" and add: "addLiquidity now i dto db = Inr ((pool1, p1, minted), db1)"
  shows "row_of pl_id i (pd_pools db1) = Some pool1 \<and>
    findPosition i (al_userId dto) db1 = Some p1"
  using add
proof (cases rule: addLiquidity_Inr)
  case (minted pool q)
  let ?P = "\<lambda>p. pp_poolId p = i \<and> pp_userId p = al_userId dto"
  have "row_of pl_id i (pd_pools db1) = Some pool1"
    using pools_inv_pool [OF inv minted(1)] by (simp add: minted(5,7) row_of_savePool)
  moreover have "find ?P (save_row pp_id p1 (pd_positions db)) = Some p1"
  proof (cases "findPosition i (al_userId dto) db")
    case None
    have "row_of pp_id (pd_positionSeq db) (pd_positions db) = None"
      using inv by (auto simp: row_of_None_iff pools_inv_def positionOk_def list_all_iff)
    with None show ?thesis
      by (intro find_save_row_new) (simp_all add: minted(6) findPosition_def depositPosition_def)
  next
    case (Some p)
    with pools_inv_position [OF inv Some] inv show ?thesis
      by (intro find_save_row [where x = p])
        (simp_all add: minted(6) findPosition_def depositPosition_def pools_inv_def)
  qed
  ultimately show ?thesis
    by (simp add: minted(7) findPosition_def savePosition_def savePool_def)
qed

lemma addLiquidity_position:
  assumes inv: "pools_inv db" and add: "addLiquidity now i dto db = Inr ((pool1, p1, minted), db1)"
  shows "minted \<le> pp_lpAmount p1"
  using add
proof (cases rule: addLiquidity_Inr)
  case (minted pool q)
  then show ?thesis
    using pools_inv_position [OF inv, of i "al_userId dto"]
    by (auto simp: depositPosition_def split: option.split)
qed

lemma withdraw_minted:
  assumes "calculateLpTokensToMint a b (pl_reserveA pool) (pl_reserveB pool) (pl_totalLpSupply pool) = Inr q"
    and "liveOrEmpty pool"
  shows "\<exists>w. calculateWithdrawAmounts (lq_lpTokensMinted q) (pl_totalLpSupply (mintIntoPool q pool))
      (pl_reserveA (mintIntoPool q pool)) (pl_reserveB (mintIntoPool q pool)) = Inr w \<and>
    wq_amountA w = lq_amountA q \<and> wq_amountB w = lq_amountB q"
proof -
  let ?m = "lq_lpTokensMinted q" and ?s = "pl_totalLpSupply pool"
  have s: "0 \<le> ?s" and m: "0 < ?m"
    using assms(2) mint_positive [OF assms(1)] by (auto simp: liveOrEmpty_def)
  have "(r + ?m * r / ?s) * (?m / (?s + ?m)) = ?m * r / ?s" if "0 < ?s" for r
    using that m by (simp add: divide_simps) (simp add: algebra_simps)
  then have "(pl_reserveA pool + lq_amountA q) * (?m / (?s + ?m)) = lq_amountA q"
    "(pl_reserveB pool + lq_amountB q) * (?m / (?s + ?m)) = lq_amountB q"
    using assms(2) mint_later(1,2) [OF assms(1)] m by (auto simp: liveOrEmpty_def)
  with s m show ?thesis by (simp add: calculateWithdrawAmounts_def Let_def)
qed

section \<open>Properties of the pools\<close>

definition ex_pool_assets :: "VirtualAsset list" where
  "ex_pool_assets =
     [\<lparr>va_id = 1, va_symbol = ''XLM'', va_name = ''Lumen'', va_price = 1\<rparr>,
      \<lparr>va_id = 2, va_symbol = ''USD'', va_name = ''Dollar'', va_price = 1\<rparr>]"

definition ex_pool :: LiquidityPool where
  "ex_pool =
     \<lparr>pl_id = 4, pl_tokenAId = 1, pl_tokenBId = 2, pl_chainId = ''stellar'', pl_reserveA = 100,
      pl_reserveB = 400, pl_totalLpSupply = 200, pl_feeBps = 2000, pl_status = ACTIVE,
      pl_accumulatedFeesA = 0, pl_accumulatedFeesB = 0, pl_totalVolume = 0, pl_totalSwaps = 0,
      pl_createdAt = 0\<rparr>"

definition ex_position :: "nat \<Rightarrow> uid \<Rightarrow> real \<Rightarrow> PoolPosition" where
  "ex_position i u l =
     \<lparr>pp_id = i, pp_poolId = 4, pp_userId = u, pp_lpAmount = l, pp_depositedAmountA = l / 2,
      pp_depositedAmountB = l * 2, pp_feesEarnedA = 0, pp_feesEarnedB = 0, pp_depositedAt = Some 0\<rparr>"

definition ex_pool_db :: pool_db where
  "ex_pool_db =
     \<lparr>pd_assets = ex_pool_assets, pd_pools = [ex_pool],
      pd_positions = [ex_position 1 7 150, ex_position 2 8 50], pd_swaps = [],
      pd_withdrawals = [], pd_poolSeq = 5, pd_positionSeq = 3\<rparr>"

definition ex_swap :: SwapDto where
  "ex_swap = \<lparr>sd_userId = 9, sd_tokenIn = ''XLM'', sd_amountIn = 125, sd_minAmountOut = Some 190\<rparr>"

definition ex_add :: AddLiquidityDto where
  "ex_add = \<lparr>al_userId = 9, al_amountA = 10, al_amountB = 50\<rparr>"

definition ex_remove :: "real \<Rightarrow> RemoveLiquidityDto" where
  "ex_remove l = \<lparr>rl_userId = 7, rl_lpAmount = l\<rparr>"

definition ex_emergency :: EmergencyWithdrawDto where
  "ex_emergency =
     \<lparr>ed_userId = 8, ed_lpAmount = 50, ed_reason = ''exit'', ed_adminApprovedBy = None\<rparr>"

lemma ex_pool_inv: "pools_inv ex_pool_db"
  by (simp add: pools_inv_def ex_pool_db_def keyed_def poolOk_def positionOk_def ex_pool_def
      ex_position_def lpOf_def liveOrEmpty_def)

lemma ex_pool_row: "row_of pl_id 4 (pd_pools ex_pool_db) = Some ex_pool"
  by (simp add: ex_pool_db_def ex_pool_def)

lemma ex_pool_fee: "saneFee (pl_feeBps ex_pool)"
  by (simp add: ex_pool_def saneFee_def)

text \<open>
  C6. Pools stay backed. From a consistent exchange, whatever sequence of create, deposit,
  withdrawal, swap and emergency requests arrives: the LP amounts of a pool's positions add up to
  its LP supply, no position is negative, and a pool whose fee is at most 100% has positive
  reserves on both sides as long as LP tokens exist and nothing left when none do.
\<close>

theorem pools_stay_backed:
  assumes "pools_inv db" and "pool \<in> set (pd_pools (fold handlePoolRequest reqs db))"
  shows "lpOf (pl_id pool) (pd_positions (fold handlePoolRequest reqs db)) = pl_totalLpSupply pool \<and>
    (\<forall>p\<in>set (pd_positions (fold handlePoolRequest reqs db)). 0 \<le> pp_lpAmount p) \<and>
    (saneFee (pl_feeBps pool) \<longrightarrow> liveOrEmpty pool)"
  using pool_requests.run_inv [OF assms(1), of reqs] assms(2)
  by (auto simp: pools_inv_def poolOk_def positionOk_def list_all_iff)

definition ex_pool_requests :: "PoolRequest list" where
  "ex_pool_requests =
     [Swap 5 4 ex_swap, AddLiquidity 6 4 ex_add, RemoveLiquidity 4 (ex_remove 150),
      EmergencyWithdraw 4 ex_emergency]"

theorem pools_stay_backed_witness:
  "\<exists>pool. pd_pools (fold handlePoolRequest ex_pool_requests ex_pool_db) = [pool] \<and>
     liveOrEmpty pool \<and>
     lpOf 4 (pd_positions (fold handlePoolRequest ex_pool_requests ex_pool_db)) = pl_totalLpSupply pool"
proof -
  let ?db = "fold handlePoolRequest ex_pool_requests ex_pool_db"
  have "map pl_id (pd_pools ?db) = [4]" "map pl_feeBps (pd_pools ?db) = [2000]" by code_simp+
  then obtain pool where "pd_pools ?db = [pool]" "pl_id pool = 4" "saneFee (pl_feeBps pool)"
    by (auto simp: saneFee_def)
  then show ?thesis using pools_stay_backed [OF ex_pool_inv, of pool ex_pool_requests] by simp
qed

text \<open>
  C7. A swap follows the constant-product rule. With a fee of at most 100%, a swap that goes
  through pays a non-negative amount below the reserve it comes from and not below the caller's
  minimum, and the product of the two reserves does not fall.
\<close>

theorem swap_keeps_product:
  assumes "row_of pl_id i (pd_pools db) = Some pool" and "saneFee (pl_feeBps pool)"
    and "swap now i dto db = (Inr (swp, pool'), db')"
  shows "pl_reserveA pool * pl_reserveB pool \<le> pl_reserveA pool' * pl_reserveB pool' \<and>
    0 < pl_reserveA pool' \<and> 0 < pl_reserveB pool' \<and> 0 \<le> ps_amountOut swp \<and>
    (\<forall>m. sd_minAmountOut dto = Some m \<longrightarrow> 0 < m \<longrightarrow> m \<le> ps_amountOut swp)"
proof (cases rule: swap_cases [of now i dto db])
  case (rejected e)
  with assms(3) show ?thesis by simp
next
  case (run p a out q)
  then have p: "p = pool" using assms(1) by simp
  note E = executeSwap_sane [OF run(3) [unfolded p] assms(2) refl refl]
  define b where "b = curveOut (pl_feeBps pool) (sd_amountIn dto)
    (if a then pl_reserveA pool else pl_reserveB pool)
    (if a then pl_reserveB pool else pl_reserveA pool)"
  have b: "sq_amountOut q = Fin b" using E(4) by (simp add: b_def)
  have out: "0 \<le> b" "b < (if a then pl_reserveB pool else pl_reserveA pool)"
    using curve.out_nonneg [OF assms(2) E(1-3)] curve.out_less [OF assms(2) E(1-3)]
    by (simp_all add: b_def)
  have pool': "pool' = applySwap (sd_amountIn dto) b (sq_feeAmount q) a pool" "ps_amountOut swp = b"
    using assms(3) run(4) b by (auto simp: executeSwap_def Let_def p)
  have "\<forall>m. sd_minAmountOut dto = Some m \<longrightarrow> 0 < m \<longrightarrow> m \<le> b"
    using checkSwap_Inr(2) [OF run(3)] b by (auto simp: belowMinimum_def)
  with product_applySwap [OF run(3) [unfolded p] assms(2) b] pool' out E(1-3) show ?thesis
    by (cases a) simp_all
qed

theorem swap_keeps_product_witness:
  "\<exists>swp pool' db'. swap 5 4 ex_swap ex_pool_db = (Inr (swp, pool'), db') \<and>
     ps_amountOut swp = 200 \<and> 100 * 400 \<le> pl_reserveA pool' * pl_reserveB pool'"
proof -
  obtain r db' where r: "swap 5 4 ex_swap ex_pool_db = (r, db')" by fastforce
  have "\<not> isl (fst (swap 5 4 ex_swap ex_pool_db))"
    "ps_amountOut (fst (projr (fst (swap 5 4 ex_swap ex_pool_db)))) = 200" by code_simp+
  with r obtain swp pool' where run: "swap 5 4 ex_swap ex_pool_db = (Inr (swp, pool'), db')"
    and "ps_amountOut swp = 200" by (cases r) auto
  with swap_keeps_product [OF ex_pool_row ex_pool_fee run] show ?thesis
    by (auto simp: ex_pool_def)
qed

text \<open>
  C8. No request dilutes liquidity providers. For a pool with a fee of at most 100% that has LP
  tokens before and after a request, the product of its reserves per squared LP token (the square
  of the geometric mean of the reserves behind one token) does not fall, whoever sent the request.
\<close>

theorem lp_backing_never_falls:
  assumes "pools_inv db" and "row_of pl_id i (pd_pools db) = Some pool"
    and "row_of pl_id i (pd_pools (handlePoolRequest req db)) = Some pool'"
    and "saneFee (pl_feeBps pool)" and "0 < pl_totalLpSupply pool" and "0 < pl_totalLpSupply pool'"
  shows "backing pool \<le> backing pool'"
  using assms(1-3)
proof (cases rule: pool_after_request)
  case same
  then show ?thesis by simp
next
  case (mint a b q)
  then show ?thesis using backing_mint assms(5) by simp
next
  case (burn l w)
  then show ?thesis using backing_burn assms(6) by simp
next
  case (swapped dto a out q b f)
  then show ?thesis using backing_applySwap assms(4) by blast
qed

theorem lp_backing_never_falls_witness:
  "\<exists>pool'. row_of pl_id 4 (pd_pools (handlePoolRequest (Swap 5 4 ex_swap) ex_pool_db)) = Some pool' \<and>
     1 \<le> backing pool'"
proof -
  let ?db = "handlePoolRequest (Swap 5 4 ex_swap) ex_pool_db"
  have "map pl_id (pd_pools ?db) = [4]" "map pl_totalLpSupply (pd_pools ?db) = [200]" by code_simp+
  then obtain pool' where pool': "row_of pl_id 4 (pd_pools ?db) = Some pool'" "pl_totalLpSupply pool' = 200"
    by auto
  moreover have "backing ex_pool = 1" "0 < pl_totalLpSupply ex_pool"
    by (simp_all add: backing_def ex_pool_def)
  ultimately show ?thesis
    using lp_backing_never_falls [OF ex_pool_inv ex_pool_row pool'(1) ex_pool_fee] by simp
qed

text \<open>
  C9. Deposits can be taken out again. Burning exactly the LP tokens a deposit minted, with
  nothing in between, succeeds, returns exactly the amounts the deposit took, and restores the
  reserves and the supply of the pool.
\<close>

theorem add_then_remove_restores:
  assumes inv: "pools_inv db" and add: "addLiquidity now i dto db = Inr ((pool1, p1, minted), db1)"
    and fee: "saneFee (pl_feeBps pool1)"
  shows "\<exists>pool q pool2 p2 w db2.
    row_of pl_id i (pd_pools db) = Some pool \<and>
    calculateLpTokensToMint (al_amountA dto) (al_amountB dto) (pl_reserveA pool) (pl_reserveB pool)
      (pl_totalLpSupply pool) = Inr q \<and>
    removeLiquidity i \<lparr>rl_userId = al_userId dto, rl_lpAmount = minted\<rparr> db1 =
      Inr ((pool2, p2, w), db2) \<and>
    wq_amountA w = lq_amountA q \<and> wq_amountB w = lq_amountB q \<and>
    pl_reserveA pool2 = pl_reserveA pool \<and> pl_reserveB pool2 = pl_reserveB pool \<and>
    pl_totalLpSupply pool2 = pl_totalLpSupply pool"
  using add
proof (cases rule: addLiquidity_Inr)
  case (minted pool q)
  note P = pools_inv_pool [OF inv minted(1)]
  have db1: "row_of pl_id i (pd_pools db1) = Some pool1" "findPosition i (al_userId dto) db1 = Some p1"
    using addLiquidity_rows [OF inv add] by simp_all
  have lp: "minted \<le> pp_lpAmount p1" using addLiquidity_position [OF inv add] by simp
  have m: "0 < minted" using mint_positive [OF minted(3)] P minted(4) by simp
  have "liveOrEmpty pool" using P fee by (simp add: minted(5) poolOk_def)
  then obtain w where w: "calculateWithdrawAmounts minted (pl_totalLpSupply pool1) (pl_reserveA pool1)
      (pl_reserveB pool1) = Inr w" "wq_amountA w = lq_amountA q" "wq_amountB w = lq_amountB q"
    using withdraw_minted [OF minted(3)] by (auto simp: minted(4,5))
  moreover have "pl_status pool1 \<noteq> EMERGENCY" by (simp add: minted(2,5))
  ultimately show ?thesis
    using minted(1,3,4,5) db1 lp by (simp add: removeLiquidity_def getPool_def Let_def)
qed

theorem add_then_remove_restores_witness:
  "\<exists>pool2 p2 w db2. removeLiquidity 4 \<lparr>rl_userId = 9, rl_lpAmount = 20\<rparr>
       (snd (projr (addLiquidity 6 4 ex_add ex_pool_db))) = Inr ((pool2, p2, w), db2) \<and>
     pl_reserveA pool2 = 100 \<and> pl_reserveB pool2 = 400 \<and> pl_totalLpSupply pool2 = 200"
proof -
  let ?r = "addLiquidity 6 4 ex_add ex_pool_db"
  have "\<not> isl ?r" "snd (snd (fst (projr ?r))) = 20" "pl_feeBps (fst (fst (projr ?r))) = 2000"
    by code_simp+
  then obtain pool1 p1 db1 where r: "?r = Inr ((pool1, p1, 20), db1)" "saneFee (pl_feeBps pool1)"
    by (cases ?r) (auto simp: saneFee_def)
  then show ?thesis
    using add_then_remove_restores [OF ex_pool_inv r] by (auto simp: ex_pool_row ex_add_def)
      (auto simp: ex_pool_def)
qed

text \<open>
  Swap fees go to the liquidity providers in full. After a swap the fees credited to the
  pool's positions have grown by exactly the fee the swap paid, and so have the pool's own fee
  counters.
\<close>

theorem swap_fee_is_fully_distributed:
  assumes inv: "pools_inv db" and pool: "row_of pl_id i (pd_pools db) = Some pool"
    and fee: "saneFee (pl_feeBps pool)" and run: "swap now i dto db = (Inr (swp, pool'), db')"
  shows "earned i (pd_positions db') = earned i (pd_positions db) + ps_feePaid swp \<and>
    pl_accumulatedFeesA pool' + pl_accumulatedFeesB pool' =
      pl_accumulatedFeesA pool + pl_accumulatedFeesB pool + ps_feePaid swp"
proof (cases rule: swap_cases [of now i dto db])
  case (rejected e)
  with run show ?thesis by simp
next
  case (run p a out q)
  have p: "p = pool" using run(1) pool by simp
  note P = pools_inv_pool [OF inv pool] and E = executeSwap_sane [OF run(3) [unfolded p] fee refl refl]
  have s: "0 < pl_totalLpSupply pool" "lpOf i (pd_positions db) = pl_totalLpSupply pool"
    using P E(2,3) fee by (cases a; auto simp: poolOk_def liveOrEmpty_def)+
  have "\<forall>p\<in>set (pd_positions db). 0 \<le> pp_lpAmount p" "keyed pp_id (pd_positions db)"
    using inv by (auto simp: pools_inv_def positionOk_def list_all_iff)
  moreover have "pd_positions db' = pd_positions (distributeFeesToLps pool (sq_feeAmount q) a db)"
    "ps_feePaid swp = sq_feeAmount q"
    "\<exists>b. pool' = applySwap (sd_amountIn dto) b (sq_feeAmount q) a pool"
    using assms(4) run(4) E(4) by (auto simp: executeSwap_def Let_def p savePool_def)
  ultimately show ?thesis
    using s P earned_creditAll [of "pl_totalLpSupply pool" "pd_positions db" pool]
    by (auto simp: distributeFeesToLps_eq applySwap_def Let_def)
qed

theorem swap_fee_is_fully_distributed_witness:
  "\<exists>swp pool' db'. swap 5 4 ex_swap ex_pool_db = (Inr (swp, pool'), db') \<and>
     ps_feePaid swp = 25 \<and> earned 4 (pd_positions db') = 25"
proof -
  obtain r db' where r: "swap 5 4 ex_swap ex_pool_db = (r, db')" by fastforce
  have "\<not> isl (fst (swap 5 4 ex_swap ex_pool_db))"
    "ps_feePaid (fst (projr (fst (swap 5 4 ex_swap ex_pool_db)))) = 25"
    "earned 4 (pd_positions ex_pool_db) = 0" by code_simp+
  with r obtain swp pool' where run: "swap 5 4 ex_swap ex_pool_db = (Inr (swp, pool'), db')"
    and "ps_feePaid swp = 25" "earned 4 (pd_positions ex_pool_db) = 0" by (cases r) auto
  with swap_fee_is_fully_distributed [OF ex_pool_inv ex_pool_row ex_pool_fee run] show ?thesis
    by auto
qed

text \<open>
  Liquidity providers can always leave. In a consistent exchange, in a pool that is not in
  emergency and whose fee is at most 100%, a user who holds LP tokens can burn any positive part
  of them: the request succeeds and pays that part's share of both reserves, neither of which it
  overdraws.
\<close>

theorem lp_can_always_withdraw:
  assumes "pools_inv db" and "row_of pl_id i (pd_pools db) = Some pool" and "saneFee (pl_feeBps pool)"
    and "pl_status pool \<noteq> EMERGENCY" and "findPosition i (rl_userId dto) db = Some p"
    and "0 < rl_lpAmount dto" and "rl_lpAmount dto \<le> pp_lpAmount p"
  shows "\<exists>pool' p' w db'. removeLiquidity i dto db = Inr ((pool', p', w), db') \<and>
    wq_amountA w = pl_reserveA pool * (rl_lpAmount dto / pl_totalLpSupply pool) \<and>
    wq_amountB w = pl_reserveB pool * (rl_lpAmount dto / pl_totalLpSupply pool) \<and>
    0 < wq_amountA w \<and> wq_amountA w \<le> pl_reserveA pool \<and>
    0 < wq_amountB w \<and> wq_amountB w \<le> pl_reserveB pool"
proof -
  have "rl_lpAmount dto \<le> pl_totalLpSupply pool"
    using pools_inv_position [OF assms(1,5)] pools_inv_pool [OF assms(1,2)] assms(7)
    by (auto simp: poolOk_def)
  moreover from this have "0 < pl_reserveA pool" "0 < pl_reserveB pool" "0 < pl_totalLpSupply pool"
    using pools_inv_pool [OF assms(1,2)] assms(3,6) by (auto simp: poolOk_def liveOrEmpty_def)
  ultimately show ?thesis
    using assms(2,4-7)
    by (simp add: removeLiquidity_def getPool_def calculateWithdrawAmounts_def Let_def
        pos_divide_le_eq)
qed

theorem lp_can_always_withdraw_witness:
  "\<exists>pool' p' w db'. removeLiquidity 4 (ex_remove 150) ex_pool_db = Inr ((pool', p', w), db') \<and>
     wq_amountA w = 75 \<and> wq_amountB w = 300"
proof -
  have "findPosition 4 (rl_userId (ex_remove 150)) ex_pool_db = Some (ex_position 1 7 150)"
    by (simp add: findPosition_def ex_remove_def ex_pool_db_def ex_position_def)
  moreover have "pl_status ex_pool \<noteq> EMERGENCY" "0 < rl_lpAmount (ex_remove 150)"
    "rl_lpAmount (ex_remove 150) \<le> pp_lpAmount (ex_position 1 7 150)"
    by (simp_all add: ex_pool_def ex_remove_def ex_position_def)
  ultimately show ?thesis
    using lp_can_always_withdraw [OF ex_pool_inv ex_pool_row ex_pool_fee]
    by (fastforce simp: ex_pool_def ex_remove_def)
qed

text \<open>
  An unbounded fee breaks the curve. \<open>CreatePoolDto\<close> accepts any non-negative \<open>feeBps\<close>; with
  a fee above 100% there is an input amount for which the swap quote of a live pool pays out twice
  its reserve.
\<close>

theorem fee_above_100_percent_overdraws:
  assumes "10000 < f" and "0 < x" and "0 < y"
  shows "\<exists>amountIn q. 0 < amountIn \<and> getAmountOut amountIn x y (real_of_int f) = Inr q \<and>
    sq_amountOut q = Fin (2 * y)"
proof -
  define k where "k = 1 - real_of_int f / 10000"
  let ?a = "- (2 * x) / k"
  have k: "k < 0" using assms(1) by (simp add: k_def)
  then have a: "0 < ?a" and ak: "?a * k = - (2 * x)"
    using assms(2) by (simp_all add: divide_pos_neg)
  have "getAmountOut ?a x y (real_of_int f) = Inr q \<Longrightarrow> sq_amountOut q = Fin (2 * y)" for q
    using a ak assms(2,3) unfolding getAmountOut_def k_def [symmetric] by (auto simp: Let_def)
  moreover have "\<exists>q. getAmountOut ?a x y (real_of_int f) = Inr q"
    using a assms(2,3) by (simp add: getAmountOut_def Let_def)
  ultimately show ?thesis using a by blast
qed

theorem fee_above_100_percent_overdraws_witness:
  "\<exists>amountIn q. 0 < amountIn \<and> getAmountOut amountIn 100 400 (real_of_int 30000) = Inr q \<and>
     sq_amountOut q = Fin 800"
  using fee_above_100_percent_overdraws [of 30000 100 400] by simp

text \<open>
  Emergency withdrawals pay out before any approval. A request without an approving admin,
  in a pool of any status, is stored as PENDING, yet it burns the LP tokens and takes both amounts
  out of the reserves at once.
\<close>

theorem emergency_withdrawal_pays_unapproved:
  assumes "pools_inv db" and "emergencyWithdraw i dto db = Inr (wd, db')"
    and "ed_adminApprovedBy dto = None" and "row_of pl_id i (pd_pools db) = Some pool"
  shows "ew_status wd = EW_PENDING \<and>
    (\<exists>pool'. row_of pl_id i (pd_pools db') = Some pool' \<and>
       pl_totalLpSupply pool' = pl_totalLpSupply pool - ed_lpAmount dto \<and>
       pl_reserveA pool' = pl_reserveA pool - ew_amountA wd \<and>
       pl_reserveB pool' = pl_reserveB pool - ew_amountB wd)"
  using assms(2)
proof (cases rule: emergencyWithdraw_Inr)
  case (burnt p pos w)
  with assms(3,4) pools_inv_pool [OF assms(1,4)] show ?thesis
    by (simp add: row_of_savePool)
qed

theorem emergency_withdrawal_pays_unapproved_witness:
  "\<exists>wd db'. emergencyWithdraw 4 ex_emergency ex_pool_db = Inr (wd, db') \<and> ew_status wd = EW_PENDING \<and>
     (\<exists>pool'. row_of pl_id 4 (pd_pools db') = Some pool' \<and> pl_totalLpSupply pool' = 150)"
proof -
  let ?r = "emergencyWithdraw 4 ex_emergency ex_pool_db"
  have "\<not> isl ?r" by code_simp
  then obtain wd db' where r: "?r = Inr (wd, db')" by (cases ?r) auto
  have "ed_adminApprovedBy ex_emergency = None" "pl_totalLpSupply ex_pool - ed_lpAmount ex_emergency = 150"
    by (simp_all add: ex_emergency_def ex_pool_def)
  with emergency_withdrawal_pays_unapproved [OF ex_pool_inv r _ ex_pool_row] r show ?thesis by auto
qed

text \<open>
  Impermanent loss can be reported as a gain. For a position deposited at equal amounts
  whose share has moved along the curve towards more of token B, the reported loss is negative
  although the position is worth less than the deposit held: the amounts of the two tokens are
  added without converting them to one unit.
\<close>

theorem impermanent_loss_reported_as_gain:
  assumes "0 < d" and "0 < x" and "x < y" and "x * y = d * d" and "0 < s"
  shows "il_impermanentLoss (calculateImpermanentLoss d d x y s s) < 0 \<and>
    x + y * (x / y) < d + d * (x / y)"
proof -
  have y: "0 < y" using assms(2,3) by simp
  have xd: "x < d"
  proof (rule ccontr)
    assume "\<not> x < d"
    then have "d * d < x * y" using assms by (intro mult_le_less_imp_less) simp_all
    then show False using assms(4) by simp
  qed
  have dy: "d < y"
  proof (rule ccontr)
    assume "\<not> d < y"
    then have "x * y < d * d" using assms xd by (intro mult_less_le_imp_less) simp_all
    then show False using assms(4) by simp
  qed
  have "d * (x / y) + d < x + y"
  proof -
    have "d * x / y < x" using dy y assms(2) by (simp add: pos_divide_less_eq mult.commute)
    then show ?thesis using dy by simp
  qed
  moreover have "x + y * (x / y) < d + d * (x / y)"
  proof -
    have "0 < (d - x) * (d - x)" using xd by simp
    then have "2 * x * d < d * d + x * x" by (simp add: algebra_simps)
    then have "2 * x * d < x * (y + x)" using assms(4) by (simp add: algebra_simps)
    then have "2 * d < y + x" using assms(2) by (simp add: mult.assoc mult.left_commute)
    then have "2 * x * y < d * y + d * x"
    proof -
      have "2 * x * y = 2 * d * d" using assms(4) by simp
      also have "\<dots> < d * (y + x)" using \<open>2 * d < y + x\<close> assms(1) by (simp add: mult.commute)
      finally show ?thesis by (simp add: algebra_simps)
    qed
    then show ?thesis using y by (simp add: field_simps)
  qed
  ultimately show ?thesis
    using assms y by (simp add: calculateImpermanentLoss_def Let_def)
qed

theorem impermanent_loss_reported_as_gain_witness:
  "il_impermanentLoss (calculateImpermanentLoss 100 100 50 200 10 10) < 0"
  using impermanent_loss_reported_as_gain [of 100 50 200 10] by simp

end
