(* ===== verification/MarginCalculator.thy ===== *)
theory MarginCalculator
  imports Prelude
begin

text \<open>
  The formulas of \<open>src/margin/services/margin-calculator.service.ts\<close> and the pair configuration
  they read. The lemmas relate the liquidation price to the liquidation test, and bound the
  leverage the volatility cap allows.
\<close>

datatype PositionSide = LONG | SHORT

record MarginPairConfig =
  pc_id :: nat
  pc_baseAssetId :: asset_id
  pc_quoteAssetId :: asset_id
  pc_maxLeverage :: real
  pc_initialMarginRate :: real
  pc_maintenanceMarginRate :: real
  pc_dailyInterestRateBps :: int
  pc_volatilityPct :: real
  pc_volatilityLeverageFactor :: real
  pc_marginCallThresholdRatio :: real
  pc_isEnabled :: bool

record MarginMetrics =
  mm_notional :: real
  mm_equity :: real
  mm_maintenanceRequirement :: real
  mm_marginRatio :: jsnum
  mm_unrealizedPnl :: real

definition calculateNotional :: "real \<Rightarrow> real \<Rightarrow> real" where
  "calculateNotional sz price = sz * price"

definition calculateUnrealizedPnl :: "PositionSide \<Rightarrow> real \<Rightarrow> real \<Rightarrow> real \<Rightarrow> real" where
  "calculateUnrealizedPnl side sz entryPrice currentPrice =
     (if side = LONG then (currentPrice - entryPrice) * sz else (entryPrice - currentPrice) * sz)"

definition calculateEquity :: "real \<Rightarrow> real \<Rightarrow> real \<Rightarrow> real" where
  "calculateEquity collateral unrealizedPnl accruedInterest =
     collateral + unrealizedPnl - accruedInterest"

definition calculateMaintenanceRequirement :: "real \<Rightarrow> real \<Rightarrow> real" where
  "calculateMaintenanceRequirement notional maintenanceMarginRate = notional * maintenanceMarginRate"

definition calculateMarginRatio :: "real \<Rightarrow> real \<Rightarrow> jsnum" where
  "calculateMarginRatio equity maintenanceRequirement =
     (if maintenanceRequirement \<le> 0 then PosInf else Fin (equity / maintenanceRequirement))"

text \<open>A maintenance rate is never negative (\<open>@Min(0)\<close>), so the SHORT denominator is positive.\<close>

definition calculateLiquidationPrice ::
  "PositionSide \<Rightarrow> real \<Rightarrow> real \<Rightarrow> real \<Rightarrow> real \<Rightarrow> real \<Rightarrow> real" where
  "calculateLiquidationPrice side sz entryPrice collateral maintenanceMarginRate accruedInterest =
     (if sz \<le> 0 then 0
      else
        let mmr = maintenanceMarginRate
        in if side = LONG then
             let numerator = collateral - entryPrice * sz - accruedInterest;
                 denominator = sz * (mmr - 1)
             in if denominator = 0 then 0 else max 0 (numerator / denominator)
           else
             let numerator = collateral + entryPrice * sz - accruedInterest;
                 denominator = sz * (1 + mmr)
             in max 0 (numerator / denominator))"

definition calculateEffectiveMaxLeverage :: "MarginPairConfig \<Rightarrow> real" where
  "calculateEffectiveMaxLeverage config =
     (let volatility = pc_volatilityPct config;
          factor = pc_volatilityLeverageFactor config;
          configuredMax = pc_maxLeverage config
      in if volatility \<le> 0 \<or> factor \<le> 0 then configuredMax
         else
           let volatilityCap = real_of_int \<lfloor>1 / ((volatility / 100) * factor)\<rfloor>
           in min configuredMax (max 1 volatilityCap))"

definition calculateRequiredCollateral :: "real \<Rightarrow> real \<Rightarrow> jsnum" where
  "calculateRequiredCollateral notional leverage = js_div (Fin notional) leverage"

definition calculateBorrowedAmount :: "real \<Rightarrow> real \<Rightarrow> real" where
  "calculateBorrowedAmount notional collateral = max 0 (notional - collateral)"

definition calculatePositionSize :: "real \<Rightarrow> real \<Rightarrow> real" where
  "calculatePositionSize notional entryPrice = (if entryPrice \<le> 0 then 0 else notional / entryPrice)"

definition computeMetrics ::
  "PositionSide \<Rightarrow> real \<Rightarrow> real \<Rightarrow> real \<Rightarrow> real \<Rightarrow> real \<Rightarrow> real \<Rightarrow> MarginMetrics" where
  "computeMetrics side sz entryPrice currentPrice collateral accruedInterest maintenanceMarginRate =
     (let notional = calculateNotional sz currentPrice;
          unrealizedPnl = calculateUnrealizedPnl side sz entryPrice currentPrice;
          equity = calculateEquity collateral unrealizedPnl accruedInterest;
          maintenanceRequirement = calculateMaintenanceRequirement notional maintenanceMarginRate;
          marginRatio = calculateMarginRatio equity maintenanceRequirement
      in \<lparr>mm_notional = notional, mm_equity = equity,
          mm_maintenanceRequirement = maintenanceRequirement, mm_marginRatio = marginRatio,
          mm_unrealizedPnl = unrealizedPnl\<rparr>)"

definition shouldLiquidate :: "real \<Rightarrow> real \<Rightarrow> bool" where
  "shouldLiquidate equity maintenanceRequirement = (equity \<le> maintenanceRequirement)"

definition shouldMarginCall :: "jsnum \<Rightarrow> real \<Rightarrow> bool" where
  "shouldMarginCall marginRatio marginCallThresholdRatio =
     (js_le marginRatio (Fin marginCallThresholdRatio) \<and> js_lt (Fin 1) marginRatio)"

definition calculateDailyInterest :: "real \<Rightarrow> real \<Rightarrow> real" where
  "calculateDailyInterest borrowedAmount dailyInterestRateBps =
     borrowedAmount * (dailyInterestRateBps / 10000)"

section \<open>Lemmas\<close>

lemma computeMetrics_fields:
  "mm_unrealizedPnl (computeMetrics side sz e p c i m) = calculateUnrealizedPnl side sz e p"
  "mm_equity (computeMetrics side sz e p c i m) =
     calculateEquity c (calculateUnrealizedPnl side sz e p) i"
  "mm_maintenanceRequirement (computeMetrics side sz e p c i m) = sz * p * m"
  by (simp_all add: computeMetrics_def Let_def calculateMaintenanceRequirement_def calculateNotional_def)

text \<open>A liquidation and a margin call exclude each other when there is a requirement.\<close>

lemma margin_call_not_liquidation:
  "0 < r \<Longrightarrow> shouldMarginCall (calculateMarginRatio e r) t \<Longrightarrow> \<not> shouldLiquidate e r"
  by (simp add: shouldMarginCall_def calculateMarginRatio_def shouldLiquidate_def)

lemma effective_leverage_bounds:
  assumes "1 \<le> pc_maxLeverage config"
  shows "1 \<le> calculateEffectiveMaxLeverage config"
    and "calculateEffectiveMaxLeverage config \<le> pc_maxLeverage config"
  using assms by (auto simp: calculateEffectiveMaxLeverage_def Let_def)

lemma long_equity_iff:
  fixes e p c i m sz :: real
  assumes "0 < sz" and "m < 1"
  shows "c + (p - e) * sz - i \<le> sz * p * m \<longleftrightarrow> p \<le> (c - e * sz - i) / (sz * (m - 1))"
proof -
  have den: "sz * (m - 1) < 0" using assms by (simp add: mult_pos_neg)
  have "p \<le> (c - e * sz - i) / (sz * (m - 1)) \<longleftrightarrow> c - e * sz - i \<le> p * (sz * (m - 1))"
    using den by (simp add: neg_le_divide_eq)
  also have "\<dots> \<longleftrightarrow> c + (p - e) * sz - i \<le> sz * p * m" by (simp add: algebra_simps)
  finally show ?thesis by simp
qed

lemma short_equity_iff:
  fixes e p c i m sz :: real
  assumes "0 < sz" and "0 \<le> m"
  shows "c + (e - p) * sz - i \<le> sz * p * m \<longleftrightarrow> (c + e * sz - i) / (sz * (1 + m)) \<le> p"
proof -
  have den: "0 < sz * (1 + m)" using assms by simp
  have "(c + e * sz - i) / (sz * (1 + m)) \<le> p \<longleftrightarrow> c + e * sz - i \<le> p * (sz * (1 + m))"
    using den by (simp add: pos_divide_le_eq)
  also have "\<dots> \<longleftrightarrow> c + (e - p) * sz - i \<le> sz * p * m" by (simp add: algebra_simps)
  finally show ?thesis by simp
qed

section \<open>Properties of the calculator\<close>

text \<open>
  C12. The liquidation price is exact. For a position of positive size and a maintenance rate in
  [0, 1), at any positive market price, the liquidation test (equity at most the maintenance
  requirement) holds for a LONG just when the price is at or below the liquidation price computed
  from the same collateral and interest, and for a SHORT just when it is at or above it.
\<close>

theorem liquidation_price_is_exact:
  assumes "0 < sz" and "0 \<le> mmr" and "mmr < 1" and "0 < price"
  shows "shouldLiquidate
      (mm_equity (computeMetrics side sz entry price collateral interest mmr))
      (mm_maintenanceRequirement (computeMetrics side sz entry price collateral interest mmr)) \<longleftrightarrow>
    (case side of
       LONG \<Rightarrow> price \<le> calculateLiquidationPrice side sz entry collateral mmr interest
     | SHORT \<Rightarrow> calculateLiquidationPrice side sz entry collateral mmr interest \<le> price)"
proof (cases side)
  case LONG
  then show ?thesis
    using assms long_equity_iff [OF assms(1,3), of collateral price entry interest]
    by (auto simp: shouldLiquidate_def computeMetrics_fields calculateEquity_def
        calculateUnrealizedPnl_def calculateLiquidationPrice_def Let_def)
next
  case SHORT
  then show ?thesis
    using assms short_equity_iff [OF assms(1,2), of collateral entry price interest]
    by (auto simp: shouldLiquidate_def computeMetrics_fields calculateEquity_def
        calculateUnrealizedPnl_def calculateLiquidationPrice_def Let_def)
qed

theorem liquidation_price_is_exact_witness:
  "shouldLiquidate
      (mm_equity (computeMetrics LONG 100 10 9 100 0 (1 / 10)))
      (mm_maintenanceRequirement (computeMetrics LONG 100 10 9 100 0 (1 / 10)))"
proof -
  have "calculateLiquidationPrice LONG 100 10 100 (1 / 10) 0 = 10" by code_simp
  then show ?thesis using liquidation_price_is_exact [of 100 "1 / 10" 9 LONG 10 100 0] by simp
qed

end
