(* ===== verification/Insurance.thy ===== *)
theory Insurance
  imports Prelude
begin

text \<open>
  The insurance funds: \<open>src/protection/services/insurance-fund.service.ts\<close>,
  \<open>fund-health.service.ts\<close> and \<open>insurance-fee-contribution.service.ts\<close> with their entities. The
  state is the tiers, funds, transactions and liquidation-events tables, the sequences of the
  first two, and the domain events emitted. The free-text columns (description, metadata, notes)
  are left out. The lemmas show that a balance only changes together with the transaction row
  that explains it, that payouts never overdraw a fund, and that the health columns follow the
  balance.
\<close>

section \<open>Data\<close>

datatype FundTier = LOW | MEDIUM | HIGH | CRITICAL

datatype FundHealthStatus = HEALTHY | WARNING | HEALTH_CRITICAL | DEPLETED

datatype InsuranceTxType = DEPOSIT | PAYOUT | FEE_CONTRIBUTION | REPLENISHMENT

record InsuranceFundTier =
  it_id :: nat
  it_tier :: FundTier
  it_name :: string
  it_minReserve :: real
  it_maxExposure :: real
  it_feeContributionPct :: real
  it_isActive :: bool

record InsuranceFund =
  fd_id :: nat
  fd_tierId :: nat
  fd_asset :: string
  fd_balance :: real
  fd_targetReserve :: real
  fd_healthStatus :: FundHealthStatus
  fd_healthPercent :: real
  fd_isActive :: bool

record InsuranceTransaction =
  tx_fundId :: nat
  tx_type :: InsuranceTxType
  tx_amount :: real
  tx_balanceBefore :: real
  tx_balanceAfter :: real
  tx_referenceId :: "uuid option"
  tx_userId :: "uid option"
  tx_createdAt :: timestamp

record LiquidationEvent =
  le_id :: nat
  le_userId :: uid
  le_positionId :: "uuid option"
  le_shortfallAmount :: real
  le_coveredAmount :: real
  le_fundId :: "nat option"
  le_cascadePrevented :: bool
  le_status :: string

datatype InsuranceEvent =
    FundHealthAlertEvent nat "FundTier option" real real real
  | LiquidationShortfallEvent nat uid real real bool
  | InsurancePayoutEvent nat uid real "(nat \<times> real \<times> FundTier) list"

record insurance_db =
  in_tiers :: "InsuranceFundTier list"
  in_funds :: "InsuranceFund list"
  in_transactions :: "InsuranceTransaction list"
  in_liquidations :: "LiquidationEvent list"
  in_events :: "InsuranceEvent list"
  in_tierSeq :: nat
  in_fundSeq :: nat

text \<open>\<open>DEFAULT_TIERS\<close>: tier, name, minimum reserve, maximum exposure, fee share, target reserve.\<close>

definition DEFAULT_TIERS :: "(FundTier \<times> string \<times> real \<times> real \<times> real \<times> real) list" where
  "DEFAULT_TIERS =
     [(LOW, ''Low Risk Fund'', 10000, 50000, 5, 100000),
      (MEDIUM, ''Medium Risk Fund'', 25000, 150000, 10, 250000),
      (HIGH, ''High Risk Fund'', 50000, 500000, 15, 500000),
      (CRITICAL, ''Critical Risk Fund'', 100000, 1000000, 20, 1000000)]"

section \<open>Fund health\<close>

definition HEALTH_WARNING_THRESHOLD :: real where
  "HEALTH_WARNING_THRESHOLD = 20"

definition calculateHealthPercent :: "real \<Rightarrow> real \<Rightarrow> real" where
  "calculateHealthPercent bal targetReserve =
     (if targetReserve \<le> 0 then 100 else min 100 (bal / targetReserve * 100))"

definition resolveHealthStatus :: "real \<Rightarrow> FundHealthStatus" where
  "resolveHealthStatus healthPercent =
     (if healthPercent \<le> 0 then DEPLETED
      else if healthPercent < HEALTH_WARNING_THRESHOLD then HEALTH_CRITICAL
      else if healthPercent < 50 then WARNING
      else HEALTHY)"

definition tierOf :: "InsuranceFund \<Rightarrow> insurance_db \<Rightarrow> InsuranceFundTier option" where
  "tierOf fund db = row_of it_id (fd_tierId fund) (in_tiers db)"

definition refreshedFund :: "InsuranceFund \<Rightarrow> InsuranceFund" where
  "refreshedFund fund =
     (let healthPercent = calculateHealthPercent (fd_balance fund) (fd_targetReserve fund)
      in fund\<lparr>fd_healthPercent := healthPercent,
              fd_healthStatus := resolveHealthStatus healthPercent\<rparr>)"

text \<open>
  The second half of \<open>updateFundHealth\<close>: the fund row that was read goes back to the table with
  its health columns recomputed, and an alert is emitted when it crossed the threshold. The row
  is a parameter of its own because the read and the save are two statements.
\<close>

definition saveFundHealth :: "InsuranceFund \<Rightarrow> insurance_db \<Rightarrow> insurance_db" where
  "saveFundHealth fund db =
     (let saved = refreshedFund fund;
          alert = FundHealthAlertEvent (fd_id fund) (map_option it_tier (tierOf fund db))
                    (fd_healthPercent saved) (fd_balance fund) (fd_targetReserve fund)
      in db\<lparr>in_funds := save_row fd_id saved (in_funds db),
            in_events := in_events db @
              (if fd_healthPercent saved < HEALTH_WARNING_THRESHOLD \<and>
                  fd_healthPercent fund \<ge> HEALTH_WARNING_THRESHOLD
               then [alert] else [])\<rparr>)"

definition updateFundHealth :: "nat \<Rightarrow> insurance_db \<Rightarrow> insurance_db result" where
  "updateFundHealth fundId db =
     (case row_of fd_id fundId (in_funds db) of
        None \<Rightarrow> Inl (JsError ''Fund not found'')
      | Some fund \<Rightarrow> Inr (saveFundHealth fund db))"

record FundHealthMetrics =
  fm_fundId :: nat
  fm_tier :: "FundTier option"
  fm_asset :: string
  fm_balance :: real
  fm_targetReserve :: real
  fm_healthPercent :: real
  fm_healthStatus :: FundHealthStatus
  fm_isBelowThreshold :: bool

record FundHealthDashboard =
  hd_overallHealthPercent :: real
  hd_overallStatus :: FundHealthStatus
  hd_activeAlerts :: nat
  hd_funds :: "FundHealthMetrics list"
  hd_alerts :: "FundHealthMetrics list"

definition toMetrics :: "insurance_db \<Rightarrow> InsuranceFund \<Rightarrow> FundHealthMetrics" where
  "toMetrics db fund =
     \<lparr>fm_fundId = fd_id fund, fm_tier = map_option it_tier (tierOf fund db),
      fm_asset = fd_asset fund, fm_balance = fd_balance fund,
      fm_targetReserve = fd_targetReserve fund, fm_healthPercent = fd_healthPercent fund,
      fm_healthStatus = fd_healthStatus fund,
      fm_isBelowThreshold = (fd_healthPercent fund < HEALTH_WARNING_THRESHOLD)\<rparr>"

definition getFundMetrics :: "nat \<Rightarrow> insurance_db \<Rightarrow> FundHealthMetrics result" where
  "getFundMetrics fundId db =
     (case row_of fd_id fundId (in_funds db) of
        None \<Rightarrow> Inl (JsError ''Fund not found'')
      | Some fund \<Rightarrow> Inr (toMetrics db fund))"

definition getDashboard :: "insurance_db \<Rightarrow> FundHealthDashboard" where
  "getDashboard db =
     (let metrics = map (toMetrics db) (in_funds db);
          alerts = filter fm_isBelowThreshold metrics;
          totalBalance = foldl (\<lambda>s m. s + fm_balance m) 0 metrics;
          totalTarget = foldl (\<lambda>s m. s + fm_targetReserve m) 0 metrics;
          overall = calculateHealthPercent totalBalance totalTarget
      in \<lparr>hd_overallHealthPercent = overall, hd_overallStatus = resolveHealthStatus overall,
          hd_activeAlerts = length alerts, hd_funds = metrics, hd_alerts = alerts\<rparr>)"

definition getActiveAlerts :: "insurance_db \<Rightarrow> FundHealthMetrics list" where
  "getActiveAlerts db = hd_alerts (getDashboard db)"

section \<open>Funds and transactions\<close>

definition ensureTier ::
  "FundTier \<times> string \<times> real \<times> real \<times> real \<times> real \<Rightarrow> insurance_db \<Rightarrow> InsuranceFundTier \<times> insurance_db" where
  "ensureTier config db =
     (case config of (tier, name, minReserve, maxExposure, feePct, targetReserve) \<Rightarrow>
        (case row_of it_tier tier (in_tiers db) of
           Some t \<Rightarrow> (t, db)
         | None \<Rightarrow>
             let t = \<lparr>it_id = in_tierSeq db, it_tier = tier, it_name = name,
                      it_minReserve = minReserve, it_maxExposure = maxExposure,
                      it_feeContributionPct = feePct, it_isActive = True\<rparr>
             in (t, db\<lparr>in_tiers := save_row it_id t (in_tiers db),
                       in_tierSeq := Suc (in_tierSeq db)\<rparr>)))"

definition findFund :: "nat \<Rightarrow> string \<Rightarrow> insurance_db \<Rightarrow> InsuranceFund option" where
  "findFund tierId asset db =
     find (\<lambda>f. fd_tierId f = tierId \<and> fd_asset f = asset) (in_funds db)"

definition ensureFund :: "string \<Rightarrow> real \<Rightarrow> InsuranceFundTier \<Rightarrow> insurance_db \<Rightarrow> InsuranceFund \<times> insurance_db" where
  "ensureFund asset targetReserve tier db =
     (case findFund (it_id tier) asset db of
        Some fund \<Rightarrow> (fund, db)
      | None \<Rightarrow>
          let fund = \<lparr>fd_id = in_fundSeq db, fd_tierId = it_id tier, fd_asset = asset,
                      fd_balance = targetReserve * (1 / 2), fd_targetReserve = targetReserve,
                      fd_healthStatus = HEALTHY, fd_healthPercent = 50, fd_isActive = True\<rparr>
          in (fund, db\<lparr>in_funds := save_row fd_id fund (in_funds db),
                       in_fundSeq := Suc (in_fundSeq db)\<rparr>))"

definition initializeFund ::
  "string \<Rightarrow> FundTier \<times> string \<times> real \<times> real \<times> real \<times> real \<Rightarrow> insurance_db \<Rightarrow> (InsuranceFund \<times> insurance_db) result" where
  "initializeFund asset config db =
     (let (tier, db1) = ensureTier config db;
          (fund, db2) = ensureFund asset (snd (snd (snd (snd (snd config))))) tier db1
      in map_sum id (\<lambda>db3. (fund, db3)) (updateFundHealth (fd_id fund) db2))"

fun initializeAll ::
  "string \<Rightarrow> (FundTier \<times> string \<times> real \<times> real \<times> real \<times> real) list \<Rightarrow> insurance_db \<Rightarrow>
     (InsuranceFund list \<times> insurance_db) result" where
  "initializeAll asset [] db = Inr ([], db)"
| "initializeAll asset (config # rest) db =
     rbind (initializeFund asset config db) (\<lambda>(fund, db').
     rbind (initializeAll asset rest db') (\<lambda>(funds, db'').
     Inr (fund # funds, db'')))"

definition initializeFunds :: "string \<Rightarrow> insurance_db \<Rightarrow> (InsuranceFund list \<times> insurance_db) result" where
  "initializeFunds asset db = initializeAll asset DEFAULT_TIERS db"

definition getFund :: "nat \<Rightarrow> insurance_db \<Rightarrow> InsuranceFund result" where
  "getFund fundId db =
     (case row_of fd_id fundId (in_funds db) of
        None \<Rightarrow> Inl (NotFoundException ''Insurance fund not found'')
      | Some fund \<Rightarrow> Inr fund)"

definition getFundsByTier :: "FundTier \<Rightarrow> string \<Rightarrow> insurance_db \<Rightarrow> InsuranceFund result" where
  "getFundsByTier tier asset db =
     (case row_of it_tier tier (in_tiers db) of
        None \<Rightarrow> Inl (NotFoundException ''Fund tier not found'')
      | Some tierEntity \<Rightarrow>
          (case findFund (it_id tierEntity) asset db of
             None \<Rightarrow> Inl (NotFoundException ''Fund for tier and asset not found'')
           | Some fund \<Rightarrow> Inr fund))"

definition listFunds :: "insurance_db \<Rightarrow> InsuranceFund list" where
  "listFunds db = sort_key fd_tierId (in_funds db)"

definition listTiers :: "insurance_db \<Rightarrow> InsuranceFundTier list" where
  "listTiers db = sort_key it_id (in_tiers db)"

text \<open>\<open>UPDATE ... SET balance = balance - :amount WHERE id = :id AND balance >= :amount\<close>.\<close>

definition debitBalance :: "nat \<Rightarrow> real \<Rightarrow> insurance_db \<Rightarrow> bool \<times> insurance_db" where
  "debitBalance fundId amount db =
     (let hit = (\<lambda>f. fd_id f = fundId \<and> fd_balance f \<ge> amount)
      in (list_ex hit (in_funds db),
          db\<lparr>in_funds := map (\<lambda>f. if hit f then f\<lparr>fd_balance := fd_balance f - amount\<rparr> else f)
               (in_funds db)\<rparr>))"

definition creditBalance :: "nat \<Rightarrow> real \<Rightarrow> insurance_db \<Rightarrow> insurance_db" where
  "creditBalance fundId amount db =
     db\<lparr>in_funds := map (\<lambda>f. if fd_id f = fundId then f\<lparr>fd_balance := fd_balance f + amount\<rparr> else f)
          (in_funds db)\<rparr>"

definition executeRecordTransaction ::
  "timestamp \<Rightarrow> nat \<Rightarrow> InsuranceTxType \<Rightarrow> real \<Rightarrow> uuid option \<Rightarrow> uid option \<Rightarrow> insurance_db \<Rightarrow>
     ((InsuranceFund \<times> InsuranceTransaction) \<times> insurance_db) result" where
  "executeRecordTransaction now fundId type amount referenceId userId db =
     rbind (if type = PAYOUT
            then (let (debited, db1) = debitBalance fundId amount db
                  in if debited then Inr db1
                     else Inl (BadRequestException ''Insufficient fund balance for payout''))
            else Inr (creditBalance fundId amount db)) (\<lambda>db1.
     rbind (getFund fundId db1) (\<lambda>fund.
       let balanceAfter = fd_balance fund;
           balanceBefore = (if type = PAYOUT then balanceAfter + amount else balanceAfter - amount);
           transaction = \<lparr>tx_fundId = fundId, tx_type = type, tx_amount = amount,
                          tx_balanceBefore = balanceBefore, tx_balanceAfter = balanceAfter,
                          tx_referenceId = referenceId, tx_userId = userId, tx_createdAt = now\<rparr>
       in Inr ((fund, transaction),
               db1\<lparr>in_transactions := in_transactions db1 @ [transaction]\<rparr>)))"

text \<open>Without a transaction of the caller: a transaction of its own, then the health refresh.\<close>

definition recordTransaction ::
  "timestamp \<Rightarrow> nat \<Rightarrow> InsuranceTxType \<Rightarrow> real \<Rightarrow> uuid option \<Rightarrow> uid option \<Rightarrow> insurance_db \<Rightarrow>
     ((InsuranceFund \<times> InsuranceTransaction) \<times> insurance_db) result" where
  "recordTransaction now fundId type amount referenceId userId db =
     rbind (executeRecordTransaction now fundId type amount referenceId userId db) (\<lambda>(res, db1).
     map_sum id (\<lambda>db2. (res, db2)) (updateFundHealth fundId db1))"

definition replenishFund ::
  "timestamp \<Rightarrow> nat \<Rightarrow> real \<Rightarrow> uuid option \<Rightarrow> insurance_db \<Rightarrow>
     ((InsuranceFund \<times> InsuranceTransaction) \<times> insurance_db) result" where
  "replenishFund now fundId amount referenceId db =
     recordTransaction now fundId REPLENISHMENT amount referenceId None db"

definition contributeFromFees ::
  "timestamp \<Rightarrow> nat \<Rightarrow> real \<Rightarrow> uuid \<Rightarrow> insurance_db \<Rightarrow>
     ((InsuranceFund \<times> InsuranceTransaction) \<times> insurance_db) result" where
  "contributeFromFees now fundId amount tradeId db =
     recordTransaction now fundId FEE_CONTRIBUTION amount (Some tradeId) None db"

definition contributeFromTradeFee ::
  "timestamp \<Rightarrow> uuid \<Rightarrow> real \<Rightarrow> string \<Rightarrow> FundTier \<Rightarrow> insurance_db \<Rightarrow> (real \<times> insurance_db) result" where
  "contributeFromTradeFee now tradeId feeAmount asset tier db =
     rbind (getFundsByTier tier asset db) (\<lambda>fund.
       let contributionPct = (case tierOf fund db of None \<Rightarrow> 10 | Some t \<Rightarrow> it_feeContributionPct t);
           contribution = feeAmount * contributionPct / 100
       in if contribution \<le> 0 then Inr (0, db)
          else map_sum id (\<lambda>r. (contribution, snd r))
                 (contributeFromFees now (fd_id fund) contribution tradeId db))"

text \<open>\<open>fundId ? \{ fundId \} : \{\}\<close>, newest first, at most \<open>limit\<close> rows.\<close>

definition getTransactionHistory :: "nat option \<Rightarrow> nat \<Rightarrow> insurance_db \<Rightarrow> InsuranceTransaction list" where
  "getTransactionHistory fundId limit db =
     take limit (sort_key (\<lambda>t. - tx_createdAt t)
       (filter (\<lambda>t. case fundId of None \<Rightarrow> True | Some i \<Rightarrow> i = 0 \<or> tx_fundId t = i)
         (in_transactions db)))"

section \<open>The ledger behind the balances\<close>

definition txDelta :: "InsuranceTransaction \<Rightarrow> real" where
  "txDelta t = (if tx_type t = PAYOUT then - tx_amount t else tx_amount t)"

definition ledgerOf :: "nat \<Rightarrow> InsuranceTransaction list \<Rightarrow> real" where
  "ledgerOf i ts = sum_list (map (\<lambda>t. if tx_fundId t = i then txDelta t else 0) ts)"

definition healthAgrees :: "InsuranceFund \<Rightarrow> bool" where
  "healthAgrees f =
     (fd_healthPercent f = calculateHealthPercent (fd_balance f) (fd_targetReserve f) \<and>
      fd_healthStatus f = resolveHealthStatus (fd_healthPercent f))"

text \<open>
  A fund starts with half of its target reserve; from then on its balance is that amount plus
  what the transaction rows say.
\<close>

definition fundOk :: "InsuranceTransaction list \<Rightarrow> nat \<Rightarrow> InsuranceFund \<Rightarrow> bool" where
  "fundOk ts n f =
     (fd_id f < n \<and> 0 \<le> fd_balance f \<and> fd_balance f = fd_targetReserve f * (1 / 2) + ledgerOf (fd_id f) ts)"

definition ledger_inv :: "insurance_db \<Rightarrow> bool" where
  "ledger_inv db =
     (keyed it_id (in_tiers db) \<and> keyed fd_id (in_funds db) \<and>
      list_all (fundOk (in_transactions db) (in_fundSeq db)) (in_funds db) \<and>
      list_all (\<lambda>t. tx_fundId t < in_fundSeq db) (in_transactions db))"

definition healthExcept :: "nat set \<Rightarrow> insurance_db \<Rightarrow> bool" where
  "healthExcept S db = (\<forall>f\<in>set (in_funds db). fd_id f \<in> S \<or> healthAgrees f)"

definition insurance_inv :: "insurance_db \<Rightarrow> bool" where
  "insurance_inv db = (ledger_inv db \<and> healthExcept {} db)"

definition adjust :: "nat \<Rightarrow> real \<Rightarrow> InsuranceFund list \<Rightarrow> InsuranceFund list" where
  "adjust i d fs = map (\<lambda>f. if fd_id f = i then f\<lparr>fd_balance := fd_balance f + d\<rparr> else f) fs"

lemma map_adjust [simp]: "map fd_id (adjust i d fs) = map fd_id fs"
  by (simp add: adjust_def)

lemma row_of_adjust:
  "row_of fd_id j (adjust i d fs) =
     (if j = i then map_option (\<lambda>f. f\<lparr>fd_balance := fd_balance f + d\<rparr>) (row_of fd_id i fs)
      else row_of fd_id j fs)"
  by (induction fs) (auto simp: adjust_def)

lemma debitBalance_eq:
  assumes "keyed fd_id (in_funds db)"
  shows "debitBalance i a db =
    (case row_of fd_id i (in_funds db) of
       None \<Rightarrow> (False, db)
     | Some f \<Rightarrow> if a \<le> fd_balance f then (True, db\<lparr>in_funds := adjust i (- a) (in_funds db)\<rparr>)
                else (False, db))"
proof -
  have uniq: "f = g" if "f \<in> set (in_funds db)" "g \<in> set (in_funds db)" "fd_id f = fd_id g" for f g
    using assms that by (auto simp: keyed_def distinct_map dest: inj_onD)
  show ?thesis
  proof (cases "row_of fd_id i (in_funds db)")
    case None
    then have "\<forall>f\<in>set (in_funds db). fd_id f \<noteq> i" by (auto simp: row_of_None_iff)
    then have "map (\<lambda>f. if fd_id f = i \<and> a \<le> fd_balance f then f\<lparr>fd_balance := fd_balance f - a\<rparr> else f)
        (in_funds db) = in_funds db" "\<not> list_ex (\<lambda>f. fd_id f = i \<and> a \<le> fd_balance f) (in_funds db)"
      by (auto simp: list_ex_iff intro!: map_idI)
    then show ?thesis using None by (simp add: debitBalance_def Let_def)
  next
    case (Some g)
    have g: "g \<in> set (in_funds db)" "fd_id g = i" using row_of_Some_in [OF Some] by simp_all
    show ?thesis
    proof (cases "a \<le> fd_balance g")
      case True
      have "map (\<lambda>f. if fd_id f = i \<and> a \<le> fd_balance f then f\<lparr>fd_balance := fd_balance f - a\<rparr> else f)
          (in_funds db) = adjust i (- a) (in_funds db)"
        unfolding adjust_def using uniq g True by (intro map_cong) auto
      moreover have "list_ex (\<lambda>f. fd_id f = i \<and> a \<le> fd_balance f) (in_funds db)"
        using g True by (auto simp: list_ex_iff)
      ultimately show ?thesis using Some True by (simp add: debitBalance_def Let_def)
    next
      case False
      have no: "\<not> (fd_id f = i \<and> a \<le> fd_balance f)" if "f \<in> set (in_funds db)" for f
        using uniq [OF that g(1)] g(2) False by auto
      then have "map (\<lambda>f. if fd_id f = i \<and> a \<le> fd_balance f then f\<lparr>fd_balance := fd_balance f - a\<rparr> else f)
          (in_funds db) = in_funds db" by (auto intro!: map_idI)
      moreover have "\<not> list_ex (\<lambda>f. fd_id f = i \<and> a \<le> fd_balance f) (in_funds db)"
        using no by (auto simp: list_ex_iff)
      ultimately show ?thesis using Some False by (simp add: debitBalance_def Let_def)
    qed
  qed
qed

lemma creditBalance_eq: "creditBalance i a db = db\<lparr>in_funds := adjust i a (in_funds db)\<rparr>"
  by (simp add: creditBalance_def adjust_def)

text \<open>The outcome of a transaction, in terms of the fund it is on.\<close>

lemma executeRecordTransaction_eq:
  assumes "keyed fd_id (in_funds db)"
  shows "executeRecordTransaction now i type a ref u db =
    (case row_of fd_id i (in_funds db) of
       None \<Rightarrow> if type = PAYOUT then Inl (BadRequestException ''Insufficient fund balance for payout'')
               else Inl (NotFoundException ''Insurance fund not found'')
     | Some f \<Rightarrow>
         if type = PAYOUT \<and> fd_balance f < a
         then Inl (BadRequestException ''Insufficient fund balance for payout'')
         else
           let d = (if type = PAYOUT then - a else a);
               f' = f\<lparr>fd_balance := fd_balance f + d\<rparr>;
               t = \<lparr>tx_fundId = i, tx_type = type, tx_amount = a, tx_balanceBefore = fd_balance f,
                    tx_balanceAfter = fd_balance f + d, tx_referenceId = ref, tx_userId = u,
                    tx_createdAt = now\<rparr>
           in Inr ((f', t), db\<lparr>in_funds := adjust i d (in_funds db),
                              in_transactions := in_transactions db @ [t]\<rparr>))"
  using assms
  by (simp add: executeRecordTransaction_def debitBalance_eq creditBalance_eq getFund_def
      row_of_adjust Let_def split: option.split)

lemma ledgerOf_snoc: "ledgerOf i (ts @ [t]) = ledgerOf i ts + (if tx_fundId t = i then txDelta t else 0)"
  by (simp add: ledgerOf_def)

lemma executeRecordTransaction_inv:
  assumes inv: "ledger_inv db" and run: "executeRecordTransaction now i type a ref u db = Inr (r, db')"
    and a: "0 \<le> a"
  shows "ledger_inv db'" and "healthExcept S db \<Longrightarrow> healthExcept (insert i S) db'"
proof -
  have key: "keyed fd_id (in_funds db)" using inv by (simp add: ledger_inv_def)
  obtain f where f: "row_of fd_id i (in_funds db) = Some f" "type = PAYOUT \<Longrightarrow> a \<le> fd_balance f"
    using run by (auto simp: executeRecordTransaction_eq [OF key] split: option.splits if_splits)
  define d where "d = (if type = PAYOUT then - a else a)"
  obtain t where db': "db' = db\<lparr>in_funds := adjust i d (in_funds db),
      in_transactions := in_transactions db @ [t]\<rparr>" and t: "tx_fundId t = i" "txDelta t = d"
    using run f by (auto simp: executeRecordTransaction_eq [OF key] d_def Let_def txDelta_def split: if_splits)
  have fin: "f \<in> set (in_funds db)" "fd_id f = i" using row_of_Some_in [OF f(1)] by simp_all
  have only: "g = f" if "g \<in> set (in_funds db)" "fd_id g = i" for g
    using row_of_keyed [OF key that(1)] f(1) that(2) by simp
  have "0 \<le> fd_balance f" using inv fin by (auto simp: ledger_inv_def fundOk_def list_all_iff)
  then have d: "0 \<le> fd_balance f + d" using f(2) a by (auto simp: d_def)
  have "fundOk (in_transactions db @ [t]) (in_fundSeq db) g"
    if "g \<in> set (adjust i d (in_funds db))" for g
    using that inv d only by (auto simp: adjust_def fundOk_def ledgerOf_snoc t ledger_inv_def list_all_iff)
  moreover have "i < in_fundSeq db"
    using inv fin by (auto simp: ledger_inv_def fundOk_def list_all_iff)
  ultimately show "ledger_inv db'"
    using inv t by (auto simp: ledger_inv_def db' keyed_def list_all_iff)
  show "healthExcept (insert i S) db'" if "healthExcept S db"
    using that by (auto simp: healthExcept_def db' adjust_def)
qed

lemma refreshedFund_fields [simp]:
  "fd_id (refreshedFund f) = fd_id f" "fd_balance (refreshedFund f) = fd_balance f"
  "fd_targetReserve (refreshedFund f) = fd_targetReserve f" "fd_tierId (refreshedFund f) = fd_tierId f"
  "fd_asset (refreshedFund f) = fd_asset f"
  by (simp_all add: refreshedFund_def Let_def)

lemma healthAgrees_refreshedFund [simp]: "healthAgrees (refreshedFund f)"
  by (simp add: healthAgrees_def refreshedFund_def Let_def)

lemma updateFundHealth_inv:
  assumes inv: "ledger_inv db" and run: "updateFundHealth i db = Inr db'"
  shows "ledger_inv db'" and "healthExcept S db \<Longrightarrow> healthExcept (S - {i}) db'"
proof -
  obtain f where f: "row_of fd_id i (in_funds db) = Some f" and db': "db' = saveFundHealth f db"
    using run by (auto simp: updateFundHealth_def split: option.splits)
  have fin: "f \<in> set (in_funds db)" "fd_id f = i" using row_of_Some_in [OF f] by simp_all
  show "ledger_inv db'"
    using inv fin
    by (auto simp: ledger_inv_def db' saveFundHealth_def Let_def keyed_save_row list_all_iff
        set_save_row fundOk_def)
  show "healthExcept (S - {i}) db'" if "healthExcept S db"
    using that fin by (auto simp: healthExcept_def db' saveFundHealth_def Let_def set_save_row)
qed

lemma updateFundHealth_funds:
  assumes "updateFundHealth i db = Inr db'"
  shows "in_tiers db' = in_tiers db" "in_transactions db' = in_transactions db"
    "in_fundSeq db' = in_fundSeq db"
    "row_of fd_id j (in_funds db') = (if j = i then map_option refreshedFund (row_of fd_id j (in_funds db))
       else row_of fd_id j (in_funds db))"
proof -
  obtain f where f: "row_of fd_id i (in_funds db) = Some f" and db': "db' = saveFundHealth f db"
    using assms by (auto simp: updateFundHealth_def split: option.splits)
  have "fd_id f = i" using row_of_Some_in [OF f] by simp
  then show "in_tiers db' = in_tiers db" "in_transactions db' = in_transactions db"
    "in_fundSeq db' = in_fundSeq db"
    "row_of fd_id j (in_funds db') = (if j = i then map_option refreshedFund (row_of fd_id j (in_funds db))
       else row_of fd_id j (in_funds db))"
    using f by (simp_all add: db' saveFundHealth_def Let_def row_of_save)
qed

lemma recordTransaction_inv:
  assumes "insurance_inv db" and "recordTransaction now i type a ref u db = Inr (r, db')" and "0 \<le> a"
  shows "insurance_inv db'"
proof -
  obtain db1 where run: "executeRecordTransaction now i type a ref u db = Inr (r, db1)"
    and upd: "updateFundHealth i db1 = Inr db'"
    using assms(2) by (auto simp: recordTransaction_def split: prod.splits)
  have "ledger_inv db1" "healthExcept {i} db1"
    using executeRecordTransaction_inv [OF _ run assms(3)] assms(1) by (auto simp: insurance_inv_def)
  then show ?thesis
    using updateFundHealth_inv(1) [OF _ upd] updateFundHealth_inv(2) [OF _ upd, of "{i}"] by (simp add: insurance_inv_def)
qed

lemma ensureTier_inv:
  assumes "ledger_inv db" and "ensureTier config db = (t, db')"
  shows "ledger_inv db'" and "healthExcept S db \<Longrightarrow> healthExcept S db'"
proof -
  obtain tier name a b c d where config: "config = (tier, name, a, b, c, d)" by (cases config) auto
  have db': "db' = db \<or> (\<exists>n. db' = db\<lparr>in_tiers := save_row it_id t (in_tiers db), in_tierSeq := n\<rparr>)"
    using assms(2)
    by (cases "row_of it_tier tier (in_tiers db)") (auto simp: ensureTier_def config Let_def)
  then show "ledger_inv db'" using assms(1) by (auto simp: ledger_inv_def keyed_save_row)
  show "healthExcept S db'" if "healthExcept S db" using db' that by (auto simp: healthExcept_def)
qed

lemma ledgerOf_unused:
  assumes "\<forall>t\<in>set ts. tx_fundId t \<noteq> k"
  shows "ledgerOf k ts = 0"
  using assms unfolding ledgerOf_def by (induction ts) simp_all

lemma ensureFund_inv:
  assumes inv: "ledger_inv db" and run: "ensureFund asset target tier db = (f, db')" and "0 \<le> target"
  shows "ledger_inv db'" and "healthExcept {} db \<Longrightarrow> healthExcept {fd_id f} db'"
proof -
  have "ledgerOf (in_fundSeq db) (in_transactions db) = 0"
    using inv by (intro ledgerOf_unused) (auto simp: ledger_inv_def list_all_iff)
  then show "ledger_inv db'" "healthExcept {} db \<Longrightarrow> healthExcept {fd_id f} db'"
    using assms
    by (auto simp: ensureFund_def Let_def ledger_inv_def healthExcept_def keyed_save_row list_all_iff
        set_save_row fundOk_def less_Suc_eq split: option.splits)
qed

lemma initializeFund_inv:
  assumes "insurance_inv db" and "initializeFund asset config db = Inr (f, db')"
    and "0 \<le> snd (snd (snd (snd (snd config))))"
  shows "insurance_inv db'"
proof -
  let ?target = "snd (snd (snd (snd (snd config))))"
  obtain tier db1 db2 where t: "ensureTier config db = (tier, db1)"
    and e: "ensureFund asset ?target tier db1 = (f, db2)" and u: "updateFundHealth (fd_id f) db2 = Inr db'"
    using assms(2) by (auto simp: initializeFund_def Let_def split: prod.splits)
  have "ledger_inv db1" "healthExcept {} db1"
    using ensureTier_inv [OF _ t] assms(1) by (simp_all add: insurance_inv_def)
  then have "ledger_inv db2" "healthExcept {fd_id f} db2" using ensureFund_inv [OF _ e assms(3)] by simp_all
  then show ?thesis
    using updateFundHealth_inv(1) [OF _ u] updateFundHealth_inv(2) [OF _ u, of "{fd_id f}"] by (simp add: insurance_inv_def)
qed

lemma initializeAll_inv:
  assumes "insurance_inv db" and "initializeAll asset configs db = Inr (fs, db')"
    and "\<forall>c\<in>set configs. 0 \<le> snd (snd (snd (snd (snd c))))"
  shows "insurance_inv db'"
  using assms
proof (induction configs arbitrary: db fs)
  case Nil
  then show ?case by simp
next
  case (Cons c configs)
  obtain f db1 fs1 where "initializeFund asset c db = Inr (f, db1)"
    and rest: "initializeAll asset configs db1 = Inr (fs1, db')"
    using Cons.prems(2) by auto
  then have "insurance_inv db1" using initializeFund_inv Cons.prems(1,3) by simp
  then show ?case using Cons.IH [OF _ rest] Cons.prems(3) by simp
qed

lemma initializeFunds_inv:
  "insurance_inv db \<Longrightarrow> initializeFunds asset db = Inr (fs, db') \<Longrightarrow> insurance_inv db'"
  using initializeAll_inv [where configs = DEFAULT_TIERS]
  by (simp add: initializeFunds_def DEFAULT_TIERS_def del: initializeAll.simps)

lemma contributeFromTradeFee_inv:
  assumes "insurance_inv db" and "contributeFromTradeFee now tradeId fee asset tier db = Inr (c, db')"
  shows "insurance_inv db'"
  using assms recordTransaction_inv [OF assms(1)]
  by (auto simp: contributeFromTradeFee_def contributeFromFees_def Let_def split: if_splits)

end
