(* ===== verification/LiquidationProtection.thy ===== *)
theory LiquidationProtection
  imports Insurance
begin

text \<open>
  Shortfall coverage: \<open>src/protection/services/liquidation-protection.service.ts\<close>. The walk over
  the tiers takes the two calls it makes to the fund service as arguments, the way the service is
  injected; the locale \<open>payout_source\<close> states what it relies on, and its lemmas show that the walk
  pays out exactly what it reports and, on a current snapshot, as much as the funds allow. The
  balances read before the transaction are an argument of the transaction, so that they may be
  out of date.
\<close>

section \<open>The walk over the tiers\<close>

record CoverShortfallResult =
  cr_liquidationEvent :: LiquidationEvent
  cr_coveredAmount :: real
  cr_remainingShortfall :: real
  cr_cascadePrevented :: bool
  cr_fundsUsed :: "(nat \<times> real \<times> FundTier) list"

definition TIER_PRIORITY :: "FundTier list" where
  "TIER_PRIORITY = [LOW, MEDIUM, HIGH, CRITICAL]"

definition MAX_DEBIT_ATTEMPTS_PER_TIER :: nat where
  "MAX_DEBIT_ATTEMPTS_PER_TIER = 2"

definition tiersToTry :: "FundTier option \<Rightarrow> FundTier list" where
  "tiersToTry preferredTier =
     (case preferredTier of
        None \<Rightarrow> TIER_PRIORITY
      | Some p \<Rightarrow> p # filter (\<lambda>t. t \<noteq> p) TIER_PRIORITY)"

fun isBadRequest :: "exn \<Rightarrow> bool" where
  "isBadRequest (BadRequestException _) = True"
| "isBadRequest _ = False"

text \<open>
  The attempts on one fund; the first argument counts those that are left. \<open>pay\<close> is the payout
  transaction and \<open>fresh\<close> the re-read of the balance.
\<close>

fun payoutAttempts ::
  "nat \<Rightarrow> (nat \<Rightarrow> real \<Rightarrow> 's \<Rightarrow> 's result) \<Rightarrow> (nat \<Rightarrow> 's \<Rightarrow> real result) \<Rightarrow>
     nat \<Rightarrow> nat \<Rightarrow> real \<Rightarrow> real \<Rightarrow> 's \<Rightarrow> (real option \<times> 's) result" where
  "payoutAttempts 0 pay fresh attempt fundId coverAmount remaining s = Inr (None, s)"
| "payoutAttempts (Suc n) pay fresh attempt fundId coverAmount remaining s =
     (case pay fundId coverAmount s of
        Inr s' \<Rightarrow> Inr (Some coverAmount, s')
      | Inl e \<Rightarrow>
          if \<not> isBadRequest e then Inl e
          else if attempt > 0 then Inr (None, s)
          else rbind (fresh fundId s) (\<lambda>available.
            if available \<le> 0 then Inr (None, s)
            else payoutAttempts n pay fresh (Suc attempt) fundId (min available remaining) remaining s))"

fun coverTiers ::
  "(nat \<Rightarrow> real \<Rightarrow> 's \<Rightarrow> 's result) \<Rightarrow> (nat \<Rightarrow> 's \<Rightarrow> real result) \<Rightarrow> (FundTier \<Rightarrow> InsuranceFund option) \<Rightarrow>
     FundTier list \<Rightarrow> real \<Rightarrow> (nat \<times> real \<times> FundTier) list \<Rightarrow> 's \<Rightarrow>
     ((real \<times> (nat \<times> real \<times> FundTier) list) \<times> 's) result" where
  "coverTiers pay fresh fundsByTier [] remaining fundsUsed s = Inr ((remaining, fundsUsed), s)"
| "coverTiers pay fresh fundsByTier (tier # rest) remaining fundsUsed s =
     (if remaining \<le> 0 then Inr ((remaining, fundsUsed), s)
      else case fundsByTier tier of
        None \<Rightarrow> coverTiers pay fresh fundsByTier rest remaining fundsUsed s
      | Some fund \<Rightarrow>
          if fd_balance fund \<le> 0 then coverTiers pay fresh fundsByTier rest remaining fundsUsed s
          else rbind (payoutAttempts MAX_DEBIT_ATTEMPTS_PER_TIER pay fresh 0 (fd_id fund)
                        (min (fd_balance fund) remaining) remaining s) (\<lambda>(paid, s').
            case paid of
              None \<Rightarrow> coverTiers pay fresh fundsByTier rest remaining fundsUsed s'
            | Some coverAmount \<Rightarrow>
                coverTiers pay fresh fundsByTier rest (remaining - coverAmount)
                  (fundsUsed @ [(fd_id fund, coverAmount, tier)]) s'))"

text \<open>\<open>if (!primaryFundId) primaryFundId = fund.id\<close>: an id of 0 counts as unset.\<close>

definition primaryFundId :: "(nat \<times> real \<times> FundTier) list \<Rightarrow> nat option" where
  "primaryFundId used =
     foldl (\<lambda>p u. case p of None \<Rightarrow> Some (fst u) | Some q \<Rightarrow> if q = 0 then Some (fst u) else p) None used"

section \<open>The service\<close>

definition advisoryFunds :: "FundTier list \<Rightarrow> string \<Rightarrow> insurance_db \<Rightarrow> FundTier \<Rightarrow> InsuranceFund option" where
  "advisoryFunds tiers asset db tier =
     (if tier \<in> set tiers
      then (case getFundsByTier tier asset db of Inl e \<Rightarrow> None | Inr fund \<Rightarrow> Some fund)
      else None)"

definition payFund :: "timestamp \<Rightarrow> uid \<Rightarrow> uuid option \<Rightarrow> nat \<Rightarrow> real \<Rightarrow> insurance_db \<Rightarrow> insurance_db result" where
  "payFund now userId positionId fundId amount db =
     map_sum id snd (executeRecordTransaction now fundId PAYOUT amount positionId (Some userId) db)"

definition freshBalance :: "nat \<Rightarrow> insurance_db \<Rightarrow> real result" where
  "freshBalance fundId db = map_sum id fd_balance (getFund fundId db)"

definition coverTransaction ::
  "timestamp \<Rightarrow> uid \<Rightarrow> real \<Rightarrow> uuid option \<Rightarrow> FundTier list \<Rightarrow> (FundTier \<Rightarrow> InsuranceFund option) \<Rightarrow>
     insurance_db \<Rightarrow> (CoverShortfallResult \<times> insurance_db) result" where
  "coverTransaction now userId shortfallAmount positionId tiers fundsByTier db =
     rbind (coverTiers (payFund now userId positionId) freshBalance fundsByTier tiers shortfallAmount [] db)
       (\<lambda>((remaining, fundsUsed), db1).
       let coveredAmount = shortfallAmount - remaining;
           cascadePrevented = (remaining \<le> 0);
           event = \<lparr>le_id = length (in_liquidations db1), le_userId = userId, le_positionId = positionId,
                    le_shortfallAmount = shortfallAmount, le_coveredAmount = coveredAmount,
                    le_fundId = primaryFundId fundsUsed, le_cascadePrevented = cascadePrevented,
                    le_status = (if cascadePrevented then ''COVERED'' else ''PARTIAL'')\<rparr>
       in Inr (\<lparr>cr_liquidationEvent = event, cr_coveredAmount = coveredAmount,
                cr_remainingShortfall = remaining, cr_cascadePrevented = cascadePrevented,
                cr_fundsUsed = fundsUsed\<rparr>,
               db1\<lparr>in_liquidations := in_liquidations db1 @ [event]\<rparr>))"

fun refreshAll :: "(nat \<times> real \<times> FundTier) list \<Rightarrow> insurance_db \<Rightarrow> insurance_db result" where
  "refreshAll [] db = Inr db"
| "refreshAll (used # rest) db = rbind (updateFundHealth (fst used) db) (refreshAll rest)"

definition emitCoverage :: "uid \<Rightarrow> real \<Rightarrow> CoverShortfallResult \<Rightarrow> insurance_db \<Rightarrow> insurance_db" where
  "emitCoverage userId shortfallAmount outcome db =
     (let i = le_id (cr_liquidationEvent outcome)
      in db\<lparr>in_events := in_events db @
              [LiquidationShortfallEvent i userId shortfallAmount (cr_coveredAmount outcome)
                 (cr_cascadePrevented outcome)] @
              (if cr_coveredAmount outcome > 0
               then [InsurancePayoutEvent i userId (cr_coveredAmount outcome) (cr_fundsUsed outcome)]
               else [])\<rparr>)"

text \<open>Everything after the advisory reads, whose result \<open>fundsByTier\<close> is.\<close>

definition coverFrom ::
  "timestamp \<Rightarrow> uid \<Rightarrow> real \<Rightarrow> uuid option \<Rightarrow> FundTier list \<Rightarrow> (FundTier \<Rightarrow> InsuranceFund option) \<Rightarrow>
     insurance_db \<Rightarrow> (CoverShortfallResult \<times> insurance_db) result" where
  "coverFrom now userId shortfallAmount positionId tiers fundsByTier db =
     rbind (coverTransaction now userId shortfallAmount positionId tiers fundsByTier db) (\<lambda>(outcome, db1).
     rbind (refreshAll (cr_fundsUsed outcome) db1) (\<lambda>db2.
     Inr (outcome, emitCoverage userId shortfallAmount outcome db2)))"

definition coverShortfall ::
  "timestamp \<Rightarrow> uid \<Rightarrow> real \<Rightarrow> uuid option \<Rightarrow> string \<Rightarrow> FundTier option \<Rightarrow> insurance_db \<Rightarrow>
     (CoverShortfallResult \<times> insurance_db) result" where
  "coverShortfall now userId shortfallAmount positionId asset preferredTier db =
     (if shortfallAmount \<le> 0 then Inl (JsError ''Shortfall amount must be positive'')
      else
        let tiers = tiersToTry preferredTier
        in coverFrom now userId shortfallAmount positionId tiers (advisoryFunds tiers asset db) db)"

section \<open>What the walk relies on\<close>

definition paidOut :: "(nat \<times> real \<times> FundTier) list \<Rightarrow> real" where
  "paidOut used = sum_list (map (\<lambda>u. fst (snd u)) used)"

text \<open>A snapshot that agrees with the state, and what its funds hold together.\<close>

definition current ::
  "(nat \<Rightarrow> 's \<Rightarrow> real) \<Rightarrow> (FundTier \<Rightarrow> InsuranceFund option) \<Rightarrow> FundTier list \<Rightarrow> 's \<Rightarrow> bool" where
  "current bal snap tiers s =
     ((\<forall>t\<in>set tiers. \<forall>f. snap t = Some f \<longrightarrow> bal (fd_id f) s = fd_balance f \<and> 0 \<le> fd_balance f) \<and>
      distinct tiers \<and>
      (\<forall>t\<in>set tiers. \<forall>u\<in>set tiers. \<forall>f g. snap t = Some f \<longrightarrow> snap u = Some g \<longrightarrow>
         fd_id f = fd_id g \<longrightarrow> t = u))"

definition offered :: "(FundTier \<Rightarrow> InsuranceFund option) \<Rightarrow> FundTier list \<Rightarrow> real" where
  "offered snap tiers =
     sum_list (map (\<lambda>t. case snap t of None \<Rightarrow> 0 | Some f \<Rightarrow> fd_balance f) tiers)"

lemma offered_nonneg: "current bal snap tiers s \<Longrightarrow> 0 \<le> offered snap tiers"
proof -
  assume cur: "current bal snap tiers s"
  have "0 \<le> (case snap t of None \<Rightarrow> 0 | Some f \<Rightarrow> fd_balance f)" if "t \<in> set tiers" for t
    using cur that unfolding current_def by (cases "snap t") simp_all
  then show ?thesis unfolding offered_def by (intro sum_list_nonneg) auto
qed

text \<open>
  The contract of the fund service: a payout takes exactly its amount from the fund it names and
  from no other, a refusal means the balance was too small, and a re-read gives the balance.
\<close>

locale payout_source =
  fixes pay :: "nat \<Rightarrow> real \<Rightarrow> 's \<Rightarrow> 's result"
    and fresh :: "nat \<Rightarrow> 's \<Rightarrow> real result"
    and bal :: "nat \<Rightarrow> 's \<Rightarrow> real"
    and total :: "'s \<Rightarrow> real"
    and known :: "nat \<Rightarrow> 's \<Rightarrow> bool"
    and inv :: "'s \<Rightarrow> bool"
  assumes pay_inv: "inv s \<Longrightarrow> 0 < a \<Longrightarrow> pay i a s = Inr s' \<Longrightarrow> inv s'"
    and pay_total: "inv s \<Longrightarrow> 0 < a \<Longrightarrow> pay i a s = Inr s' \<Longrightarrow> total s' = total s - a"
    and pay_bal: "inv s \<Longrightarrow> 0 < a \<Longrightarrow> pay i a s = Inr s' \<Longrightarrow>
      bal j s' = (if j = i then bal i s - a else bal j s)"
    and pay_within: "inv s \<Longrightarrow> 0 < a \<Longrightarrow> a \<le> bal i s \<Longrightarrow> \<exists>s'. pay i a s = Inr s'"
    and pay_refused: "inv s \<Longrightarrow> 0 < a \<Longrightarrow> pay i a s = Inl e \<Longrightarrow> isBadRequest e \<and> bal i s < a"
    and fresh_bal: "inv s \<Longrightarrow> fresh i s = Inr b \<Longrightarrow> b = bal i s"
    and fresh_known: "inv s \<Longrightarrow> known i s \<Longrightarrow> \<exists>b. fresh i s = Inr b"
    and pay_known: "inv s \<Longrightarrow> 0 < a \<Longrightarrow> pay i a s = Inr s' \<Longrightarrow> known j s' = known j s"
begin

text \<open>The attempts on one fund end without an exception, with one payout or with none.\<close>

lemma attempts_cases:
  assumes "inv s" and "0 < c" "c \<le> r" and "known i s \<or> payoutAttempts n pay fresh att i c r s = Inr y"
  obtains (none) "payoutAttempts n pay fresh att i c r s = Inr (None, s)"
  | (paid) a s' where "payoutAttempts n pay fresh att i c r s = Inr (Some a, s')" "0 < a" "a \<le> r"
      "pay i a s = Inr s'"
  using assms
proof (induction n arbitrary: att c thesis)
  case 0
  then show ?case by simp
next
  case (Suc n)
  show ?case
  proof (cases "pay i c s")
    case (Inr s1)
    with Suc.prems show ?thesis by simp
  next
    case (Inl e)
    have e: "isBadRequest e" using pay_refused Suc.prems(3,4) Inl by blast
    show ?thesis
    proof (cases "att > 0")
      case True
      with Inl e Suc.prems(1) show ?thesis by simp
    next
      case False
      then obtain b where b: "fresh i s = Inr b"
        using Suc.prems(6) Inl e fresh_known [OF Suc.prems(3)] by auto
      show ?thesis
      proof (cases "b \<le> 0")
        case True
        with Inl e False b Suc.prems(1) show ?thesis by simp
      next
        case pos: False
        have step: "payoutAttempts (Suc n) pay fresh att i c r s =
            payoutAttempts n pay fresh (Suc att) i (min b r) r s"
          using Inl e False b pos by simp
        show ?thesis
          by (rule Suc.IH [of "Suc att" "min b r"])
            (use Suc.prems step pos in \<open>auto simp del: payoutAttempts.simps\<close>)
      qed
    qed
  qed
qed

text \<open>An invariant of the payouts made so far is kept by the walk.\<close>

lemma coverTiers_keeps:
  assumes "inv s" and "coverTiers pay fresh snap tiers r used s = Inr ((rem, used'), s')" and "0 \<le> r"
    and "P r used s"
    and step: "\<And>i a t r u s s'. inv s \<Longrightarrow> 0 < a \<Longrightarrow> a \<le> r \<Longrightarrow> pay i a s = Inr s' \<Longrightarrow> P r u s \<Longrightarrow>
      P (r - a) (u @ [(i, a, t)]) s'"
  shows "inv s' \<and> 0 \<le> rem \<and> P rem used' s'"
  using assms(1-4)
proof (induction tiers arbitrary: r used s)
  case Nil
  then show ?case by simp
next
  case (Cons tier tiers)
  show ?case
  proof (cases "r \<le> 0 \<or> snap tier = None \<or> (\<exists>f. snap tier = Some f \<and> fd_balance f \<le> 0)")
    case True
    then have "r \<le> 0 \<and> Inr ((r, used), s) = (Inr ((rem, used'), s') :: _ result) \<or>
        coverTiers pay fresh snap tiers r used s = Inr ((rem, used'), s')"
      using Cons.prems(2) by (auto split: if_splits)
    then show ?thesis using Cons.IH [of s r used] Cons.prems by auto
  next
    case False
    then obtain f where f: "snap tier = Some f" "0 < fd_balance f" and r: "0 < r" by auto
    let ?att = "payoutAttempts MAX_DEBIT_ATTEMPTS_PER_TIER pay fresh 0 (fd_id f) (min (fd_balance f) r) r s"
    obtain y where y: "?att = Inr y" using Cons.prems(2) f r by auto
    have c: "0 < min (fd_balance f) r" "min (fd_balance f) r \<le> r" using f r by simp_all
    from Cons.prems(1) c disjI2 [OF y] show ?thesis
    proof (cases rule: attempts_cases)
      case none
      then have "coverTiers pay fresh snap tiers r used s = Inr ((rem, used'), s')"
        using Cons.prems(2) f r by simp
      then show ?thesis using Cons.IH Cons.prems by blast
    next
      case (paid a s1)
      then have "coverTiers pay fresh snap tiers (r - a) (used @ [(fd_id f, a, tier)]) s1 =
          Inr ((rem, used'), s')"
        using Cons.prems(2) f r by simp
      moreover have "P (r - a) (used @ [(fd_id f, a, tier)]) s1"
        using step [OF Cons.prems(1) paid(2,3,4)] Cons.prems(4) by blast
      moreover have "inv s1" using pay_inv [OF Cons.prems(1) paid(2,4)] .
      ultimately show ?thesis using Cons.IH paid(3) by simp
    qed
  qed
qed

text \<open>Whatever the snapshot says, the walk accounts for every unit it takes.\<close>

lemma coverTiers_spec:
  assumes "inv s" and "coverTiers pay fresh snap tiers r [] s = Inr ((rem, used'), s')" and "0 \<le> r"
  shows "inv s' \<and> 0 \<le> rem \<and> rem \<le> r \<and> total s' = total s - (r - rem) \<and> paidOut used' = r - rem"
proof -
  let ?P = "\<lambda>q u t. q \<le> r \<and> total t = total s - (r - q) \<and> paidOut u = r - q"
  have "inv s' \<and> 0 \<le> rem \<and> ?P rem used' s'"
    by (rule coverTiers_keeps [OF assms]) (auto simp: paidOut_def pay_total)
  then show ?thesis by simp
qed

text \<open>The walk never throws when every fund of the snapshot exists.\<close>

lemma coverTiers_succeeds:
  assumes "inv s" and "\<forall>t f. snap t = Some f \<longrightarrow> known (fd_id f) s"
  shows "\<exists>x. coverTiers pay fresh snap tiers r used s = Inr x"
  using assms
proof (induction tiers arbitrary: r used s)
  case Nil
  then show ?case by simp
next
  case (Cons tier tiers)
  show ?case
  proof (cases "r \<le> 0 \<or> snap tier = None \<or> (\<exists>f. snap tier = Some f \<and> fd_balance f \<le> 0)")
    case True
    then show ?thesis using Cons.IH [OF Cons.prems] by auto
  next
    case False
    then obtain f where f: "snap tier = Some f" "0 < fd_balance f" and r: "0 < r" by auto
    have c: "0 < min (fd_balance f) r" "min (fd_balance f) r \<le> r" using f r by simp_all
    have k: "known (fd_id f) s" using Cons.prems(2) f(1) by blast
    from Cons.prems(1) c disjI1 [OF k] show ?thesis
    proof (cases rule: attempts_cases [where n = MAX_DEBIT_ATTEMPTS_PER_TIER and att = 0])
      case none
      then show ?thesis using f r Cons.IH [OF Cons.prems] by simp
    next
      case (paid a s1)
      have "inv s1" "\<forall>t f. snap t = Some f \<longrightarrow> known (fd_id f) s1"
        using pay_inv [OF Cons.prems(1) paid(2,4)] pay_known [OF Cons.prems(1) paid(2,4)] Cons.prems(2)
        by simp_all
      then show ?thesis using f r paid(1) Cons.IH by simp
    qed
  qed
qed

text \<open>On a snapshot that is current, the walk always succeeds and takes all it can.\<close>

lemma coverTiers_current:
  assumes "inv s" and "current bal snap tiers s" and "0 \<le> r"
  shows "\<exists>used' s'. coverTiers pay fresh snap tiers r used s =
    Inr ((max 0 (r - offered snap tiers), used'), s')"
  using assms
proof (induction tiers arbitrary: r used s)
  case Nil
  then show ?case by (simp add: offered_def)
next
  case (Cons tier tiers)
  have cur: "current bal snap tiers s" using Cons.prems(2) by (auto simp: current_def)
  have off: "0 \<le> offered snap tiers" using offered_nonneg [OF cur] .
  show ?case
  proof (cases "snap tier")
    case None
    have "\<exists>used' s'. coverTiers pay fresh snap tiers r used s =
        Inr ((max 0 (r - offered snap tiers), used'), s')"
      using Cons.IH [OF Cons.prems(1) cur Cons.prems(3)] .
    then show ?thesis
      using None off Cons.prems(3) by (cases "r \<le> 0") (simp_all add: offered_def)
  next
    case (Some f)
    have f: "fd_balance f = bal (fd_id f) s" "0 \<le> fd_balance f"
      using Cons.prems(2) Some by (auto simp: current_def)
    have offT: "offered snap (tier # tiers) = fd_balance f + offered snap tiers"
      using Some by (simp add: offered_def)
    consider "r = 0" | "0 < r" "fd_balance f = 0" | "0 < r" "0 < fd_balance f"
      using Cons.prems(3) f(2) by fastforce
    then show ?thesis
    proof cases
      case 1
      then show ?thesis using off f(2) by (simp add: offT)
    next
      case 2
      then show ?thesis
        using Some Cons.IH [OF Cons.prems(1) cur Cons.prems(3)] by (simp add: offT)
    next
      case 3
      let ?a = "min (fd_balance f) r"
      have a: "0 < ?a" "?a \<le> bal (fd_id f) s" using 3 f(1) by simp_all
      obtain s1 where s1: "pay (fd_id f) ?a s = Inr s1"
        using pay_within [OF Cons.prems(1) a] by blast
      have att: "payoutAttempts MAX_DEBIT_ATTEMPTS_PER_TIER pay fresh 0 (fd_id f) ?a r s = Inr (Some ?a, s1)"
        using s1 by (simp add: MAX_DEBIT_ATTEMPTS_PER_TIER_def numeral_2_eq_2)
      have "bal (fd_id g) s1 = bal (fd_id g) s" if "u \<in> set tiers" "snap u = Some g" for u g
      proof -
        have "fd_id g \<noteq> fd_id f" using Cons.prems(2) Some that by (auto simp: current_def)
        then show ?thesis using pay_bal [OF Cons.prems(1) a(1) s1] by simp
      qed
      then have cur1: "current bal snap tiers s1" using cur by (auto simp: current_def)
      have "\<exists>used' s'. coverTiers pay fresh snap tiers (r - ?a) (used @ [(fd_id f, ?a, tier)]) s1 =
          Inr ((max 0 (r - ?a - offered snap tiers), used'), s')"
        by (rule Cons.IH [OF pay_inv [OF Cons.prems(1) a(1) s1] cur1]) simp
      moreover have "max 0 (r - ?a - offered snap tiers) = max 0 (r - offered snap (tier # tiers))"
        using off by (auto simp: offT min_def)
      ultimately show ?thesis using Some 3 att by simp
    qed
  qed
qed

end

section \<open>The fund service provides it\<close>

definition balanceOf :: "nat \<Rightarrow> insurance_db \<Rightarrow> real" where
  "balanceOf i db = (case row_of fd_id i (in_funds db) of None \<Rightarrow> 0 | Some f \<Rightarrow> fd_balance f)"

definition totalBalance :: "insurance_db \<Rightarrow> real" where
  "totalBalance db = sum_list (map fd_balance (in_funds db))"

definition fundExists :: "nat \<Rightarrow> insurance_db \<Rightarrow> bool" where
  "fundExists i db = (row_of fd_id i (in_funds db) \<noteq> None)"

lemma sum_adjust:
  assumes "keyed fd_id fs"
  shows "sum_list (map fd_balance (adjust i d fs)) =
    sum_list (map fd_balance fs) + (if row_of fd_id i fs = None then 0 else d)"
  using assms
proof (induction fs)
  case Nil
  then show ?case by (simp add: adjust_def)
next
  case (Cons f fs)
  show ?case
  proof (cases "fd_id f = i")
    case True
    with Cons.prems have "row_of fd_id i fs = None" by (auto simp: keyed_def row_of_None_iff)
    with True Cons show ?thesis by (simp add: adjust_def keyed_def)
  next
    case False
    with Cons show ?thesis by (simp add: adjust_def keyed_def)
  qed
qed

lemma payFund_ok:
  assumes "ledger_inv db" and "a \<le> balanceOf i db" and "fundExists i db"
  shows "\<exists>t. payFund now u p i a db = Inr (db\<lparr>in_funds := adjust i (- a) (in_funds db),
    in_transactions := in_transactions db @ [t]\<rparr>)"
proof -
  have "keyed fd_id (in_funds db)" using assms(1) by (simp add: ledger_inv_def)
  then show ?thesis using assms(2,3)
    by (auto simp: payFund_def executeRecordTransaction_eq balanceOf_def fundExists_def Let_def)
qed

lemma payFund_refused:
  assumes "ledger_inv db" and "\<not> (a \<le> balanceOf i db \<and> fundExists i db)"
  shows "payFund now u p i a db = Inl (BadRequestException ''Insufficient fund balance for payout'')"
proof -
  have "keyed fd_id (in_funds db)" using assms(1) by (simp add: ledger_inv_def)
  then show ?thesis using assms(2)
    by (auto simp: payFund_def executeRecordTransaction_eq balanceOf_def fundExists_def Let_def
        split: option.splits)
qed

lemma payFund_Inr:
  assumes "ledger_inv db" and "payFund now u p i a db = Inr db'"
  shows "a \<le> balanceOf i db" "fundExists i db" "in_funds db' = adjust i (- a) (in_funds db)"
    "in_tiers db' = in_tiers db"
proof -
  show ok: "a \<le> balanceOf i db" "fundExists i db"
    using payFund_refused [OF assms(1), of a i now u p] assms(2) by auto
  show "in_funds db' = adjust i (- a) (in_funds db)" "in_tiers db' = in_tiers db"
    using payFund_ok [OF assms(1) ok, of now u p] assms(2) by auto
qed

lemma payFund_inv:
  assumes "ledger_inv db" and "payFund now u p i a db = Inr db'" and "0 < a"
  shows "ledger_inv db'" and "healthExcept S db \<Longrightarrow> healthExcept (insert i S) db'"
  using assms executeRecordTransaction_inv [OF assms(1), of now i PAYOUT a p "Some u"]
  by (auto simp: payFund_def)

interpretation funds: payout_source "payFund now u p" freshBalance balanceOf totalBalance fundExists ledger_inv
  for now u p
proof
  fix s s' :: insurance_db and a :: real and i j :: nat
  assume inv: "ledger_inv s" and a: "0 < a" and run: "payFund now u p i a s = Inr s'"
  note R = payFund_Inr [OF inv run]
  show "ledger_inv s'" using payFund_inv(1) [OF inv run a] .
  show "totalBalance s' = totalBalance s - a"
    using inv R by (auto simp: totalBalance_def sum_adjust ledger_inv_def fundExists_def)
  show "balanceOf j s' = (if j = i then balanceOf i s - a else balanceOf j s)"
    using R by (auto simp: balanceOf_def row_of_adjust fundExists_def)
  show "fundExists j s' = fundExists j s"
    using R by (auto simp: fundExists_def row_of_adjust)
next
  fix s :: insurance_db and a :: real and i :: nat
  assume "ledger_inv s" "0 < a" "a \<le> balanceOf i s"
  moreover from this have "fundExists i s"
    by (auto simp: balanceOf_def fundExists_def split: option.splits)
  ultimately show "\<exists>s'. payFund now u p i a s = Inr s'"
    using payFund_ok by blast
next
  fix s :: insurance_db and a :: real and i :: nat and e
  assume "ledger_inv s" "0 < a" "payFund now u p i a s = Inl e"
  then show "isBadRequest e \<and> balanceOf i s < a"
    using payFund_ok [of s a i now u p] payFund_refused [of s a i now u p]
    by (cases "a \<le> balanceOf i s"; cases "fundExists i s") (auto simp: fundExists_def balanceOf_def)
next
  fix s :: insurance_db and i :: nat and b
  assume "freshBalance i s = Inr b"
  then show "b = balanceOf i s"
    by (auto simp: freshBalance_def getFund_def balanceOf_def split: option.splits)
next
  fix s :: insurance_db and i :: nat
  assume "fundExists i s"
  then show "\<exists>b. freshBalance i s = Inr b"
    by (auto simp: freshBalance_def getFund_def fundExists_def split: option.splits)
qed

section \<open>Coverage as a whole\<close>

lemma coverTiers_health:
  assumes "ledger_inv db" and "healthExcept {} db"
    and "coverTiers (payFund now u p) freshBalance snap tiers r [] db = Inr ((rem, used), db')" "0 \<le> r"
  shows "healthExcept (fst ` set used) db' \<and> (\<forall>i\<in>fst ` set used. fundExists i db')"
proof -
  let ?P = "\<lambda>(q :: real) (w :: (nat \<times> real \<times> FundTier) list) s. healthExcept (fst ` set w) s \<and> (\<forall>i\<in>fst ` set w. fundExists i s)"
  have "ledger_inv db' \<and> 0 \<le> rem \<and> ?P rem used db'"
  proof (rule funds.coverTiers_keeps [OF assms(1,3,4)])
    show "?P r [] db" using assms(2) by simp
  next
    fix i a t q w s s'
    assume h: "ledger_inv s" "0 < a" "payFund now u p i a s = Inr s'" and P: "?P q w s"
    have "\<forall>j. fundExists j s' = fundExists j s" "fundExists i s"
      using funds.pay_known [OF h] payFund_Inr(2) [OF h(1,3)] by simp_all
    then show "?P (q - a) (w @ [(i, a, t)]) s'"
      using P payFund_inv(2) [OF h(1,3,2), of "fst ` set w"] by auto
  qed
  then show ?thesis by simp
qed

lemma refreshAll_spec:
  assumes "ledger_inv db" and "healthExcept S db" and "S \<subseteq> fst ` set used"
    and "\<forall>i\<in>fst ` set used. fundExists i db"
  shows "\<exists>db'. refreshAll used db = Inr db' \<and> insurance_inv db' \<and> totalBalance db' = totalBalance db \<and>
    (\<forall>j. balanceOf j db' = balanceOf j db)"
  using assms
proof (induction used arbitrary: db S)
  case Nil
  then show ?case by (auto simp: insurance_inv_def)
next
  case (Cons w used)
  obtain f where f: "row_of fd_id (fst w) (in_funds db) = Some f"
    using Cons.prems(4) by (auto simp: fundExists_def)
  let ?db1 = "saveFundHealth f db"
  have u: "updateFundHealth (fst w) db = Inr ?db1" using f by (simp add: updateFundHealth_def)
  have inv: "ledger_inv ?db1" "healthExcept (S - {fst w}) ?db1"
    using updateFundHealth_inv [OF Cons.prems(1) u] Cons.prems(2) by simp_all
  have row: "row_of fd_id j (in_funds ?db1) =
      (if j = fst w then Some (refreshedFund f) else row_of fd_id j (in_funds db))" for j
    using updateFundHealth_funds(4) [OF u, of j] f by simp
  have bal: "\<forall>j. balanceOf j ?db1 = balanceOf j db" "\<forall>j. fundExists j ?db1 = fundExists j db"
    using f by (auto simp: balanceOf_def fundExists_def row)
  have tot: "totalBalance ?db1 = totalBalance db"
    using Cons.prems(1) f row_of_Some_in [OF f]
    by (simp add: totalBalance_def saveFundHealth_def Let_def sum_list_save_row ledger_inv_def)
  have "\<exists>db'. refreshAll used ?db1 = Inr db' \<and> insurance_inv db' \<and> totalBalance db' = totalBalance ?db1 \<and>
      (\<forall>j. balanceOf j db' = balanceOf j ?db1)"
    by (rule Cons.IH [OF inv]) (use Cons.prems(3,4) bal in auto)
  then show ?case using u bal tot by simp
qed

lemma refreshAll_liquidations:
  "refreshAll used db = Inr db' \<Longrightarrow> in_liquidations db' = in_liquidations db"
proof (induction used arbitrary: db)
  case Nil
  then show ?case by simp
next
  case (Cons w used)
  obtain f where "refreshAll used (saveFundHealth f db) = Inr db'"
    using Cons.prems by (auto simp: updateFundHealth_def split: option.splits)
  then show ?case using Cons.IH by (simp add: saveFundHealth_def Let_def)
qed

lemma insurance_inv_liquidations [simp]:
  "ledger_inv (db\<lparr>in_liquidations := ls\<rparr>) = ledger_inv db"
  "healthExcept S (db\<lparr>in_liquidations := ls\<rparr>) = healthExcept S db"
  "fundExists i (db\<lparr>in_liquidations := ls\<rparr>) = fundExists i db"
  "totalBalance (db\<lparr>in_liquidations := ls\<rparr>) = totalBalance db"
  by (simp_all add: ledger_inv_def healthExcept_def fundExists_def totalBalance_def)

lemma insurance_inv_events [simp]:
  "insurance_inv (db\<lparr>in_events := es\<rparr>) = insurance_inv db"
  "totalBalance (db\<lparr>in_events := es\<rparr>) = totalBalance db"
  by (simp_all add: insurance_inv_def ledger_inv_def healthExcept_def totalBalance_def)

text \<open>Coverage from any snapshot of existing funds: it succeeds and its report is exact.\<close>

lemma coverFrom_spec:
  assumes inv: "insurance_inv db" and r: "0 < r"
    and known: "\<forall>t f. snap t = Some f \<longrightarrow> fundExists (fd_id f) db"
  shows "\<exists>res db'. coverFrom now u r p tiers snap db = Inr (res, db') \<and> insurance_inv db' \<and>
    (\<exists>used rem db1. coverTiers (payFund now u p) freshBalance snap tiers r [] db = Inr ((rem, used), db1) \<and>
       cr_remainingShortfall res = rem \<and> cr_fundsUsed res = used) \<and>
    cr_coveredAmount res = r - cr_remainingShortfall res \<and> 0 \<le> cr_remainingShortfall res \<and>
    cr_remainingShortfall res \<le> r \<and> cr_cascadePrevented res = (cr_remainingShortfall res = 0) \<and>
    paidOut (cr_fundsUsed res) = cr_coveredAmount res \<and>
    totalBalance db' = totalBalance db - cr_coveredAmount res \<and>
    last (in_liquidations db') = cr_liquidationEvent res \<and>
    le_coveredAmount (cr_liquidationEvent res) = cr_coveredAmount res"
proof -
  have inv': "ledger_inv db" "healthExcept {} db" using inv by (simp_all add: insurance_inv_def)
  obtain rem used db1 where run:
    "coverTiers (payFund now u p) freshBalance snap tiers r [] db = Inr ((rem, used), db1)"
    using funds.coverTiers_succeeds [OF inv'(1) known] by fastforce
  note S = funds.coverTiers_spec [OF inv'(1) run] and H = coverTiers_health [OF inv' run]
  obtain res db2 where tx: "coverTransaction now u r p tiers snap db = Inr (res, db2)"
    and res: "cr_remainingShortfall res = rem" "cr_fundsUsed res = used" "cr_coveredAmount res = r - rem"
      "cr_cascadePrevented res = (rem \<le> 0)" "le_coveredAmount (cr_liquidationEvent res) = r - rem"
    and db2: "db2 = db1\<lparr>in_liquidations := in_liquidations db1 @ [cr_liquidationEvent res]\<rparr>"
    using run by (simp add: coverTransaction_def Let_def)
  obtain db3 where ref: "refreshAll used db2 = Inr db3" "insurance_inv db3" "totalBalance db3 = totalBalance db2"
    using refreshAll_spec [of db2 "fst ` set used" used] S H r by (auto simp: db2)
  have liq: "in_liquidations db3 = in_liquidations db2" using refreshAll_liquidations [OF ref(1)] .
  have cf: "coverFrom now u r p tiers snap db = Inr (res, emitCoverage u r res db3)"
    using tx ref(1) res(2) by (simp add: coverFrom_def)
  show ?thesis
    using cf S r run res ref(2,3) liq
    by (intro exI [where x = res] exI [where x = "emitCoverage u r res db3"])
      (auto simp: emitCoverage_def Let_def db2)
qed

section \<open>Requests\<close>

datatype InsuranceRequest =
    InitializeFunds string
  | ReplenishFund timestamp nat real "uuid option"
  | ContributeFees timestamp uuid real string FundTier
  | CoverShortfall timestamp uid real "uuid option" string "FundTier option"

fun handleInsuranceRequest :: "InsuranceRequest \<Rightarrow> insurance_db \<Rightarrow> insurance_db" where
  "handleInsuranceRequest (InitializeFunds asset) db =
     commit (\<lambda>s. map_sum id snd (initializeFunds asset s)) db"
| "handleInsuranceRequest (ReplenishFund now fundId amount ref) db =
     (if 0 \<le> amount then commit (\<lambda>s. map_sum id snd (replenishFund now fundId amount ref s)) db else db)"
| "handleInsuranceRequest (ContributeFees now tradeId fee asset tier) db =
     (if 0 \<le> fee
      then commit (\<lambda>s. map_sum id snd (contributeFromTradeFee now tradeId fee asset tier s)) db else db)"
| "handleInsuranceRequest (CoverShortfall now userId amount positionId asset tier) db =
     (if 0 \<le> amount
      then commit (\<lambda>s. map_sum id snd (coverShortfall now userId amount positionId asset tier s)) db
      else db)"

lemma advisoryFunds_row:
  assumes "ledger_inv db" and "advisoryFunds tiers asset db t = Some f"
  shows "row_of fd_id (fd_id f) (in_funds db) = Some f" and "fd_asset f = asset"
    and "\<exists>te. row_of it_tier t (in_tiers db) = Some te \<and> fd_tierId f = it_id te"
proof -
  obtain te where te: "row_of it_tier t (in_tiers db) = Some te" "findFund (it_id te) asset db = Some f"
    using assms(2) by (auto simp: advisoryFunds_def getFundsByTier_def split: if_splits option.splits sum.splits)
  have f: "f \<in> set (in_funds db)" "fd_tierId f = it_id te" "fd_asset f = asset"
    using te(2) by (auto simp: findFund_def dest: find_Some_in)
  show "row_of fd_id (fd_id f) (in_funds db) = Some f"
    using row_of_keyed f(1) assms(1) by (auto simp: ledger_inv_def)
  show "fd_asset f = asset" "\<exists>te. row_of it_tier t (in_tiers db) = Some te \<and> fd_tierId f = it_id te"
    using f te by auto
qed

lemma tiersToTry_distinct: "distinct (tiersToTry pref)"
  by (cases pref) (simp_all add: tiersToTry_def TIER_PRIORITY_def)

lemma tiersToTry_all: "t \<in> set (tiersToTry pref)"
  by (cases t; cases pref) (auto simp: tiersToTry_def TIER_PRIORITY_def)

lemma advisoryFunds_current:
  assumes "ledger_inv db"
  shows "current balanceOf (advisoryFunds (tiersToTry pref) asset db) (tiersToTry pref) db"
proof -
  let ?snap = "advisoryFunds (tiersToTry pref) asset db"
  have "balanceOf (fd_id f) db = fd_balance f \<and> 0 \<le> fd_balance f" if "?snap t = Some f" for t f
    using advisoryFunds_row(1) [OF assms that] assms row_of_Some_in [of fd_id "fd_id f" "in_funds db" f]
    by (auto simp: balanceOf_def ledger_inv_def fundOk_def list_all_iff)
  moreover have "t = w" if f: "?snap t = Some f" "?snap w = Some g" "fd_id f = fd_id g" for t w f g
  proof -
    have "row_of fd_id (fd_id g) (in_funds db) = Some f" "row_of fd_id (fd_id g) (in_funds db) = Some g"
      using advisoryFunds_row(1) [OF assms f(1)] advisoryFunds_row(1) [OF assms f(2)] f(3) by metis+
    then have "f = g" by simp
    then obtain a b where ab: "row_of it_tier t (in_tiers db) = Some a" "row_of it_tier w (in_tiers db) = Some b"
      "it_id a = it_id b"
      using advisoryFunds_row(3) [OF assms f(1)] advisoryFunds_row(3) [OF assms f(2)] by auto
    then have "a \<in> set (in_tiers db)" "b \<in> set (in_tiers db)" "it_tier a = t" "it_tier b = w"
      using row_of_Some_in by fast+
    moreover have "keyed it_id (in_tiers db)" using assms by (simp add: ledger_inv_def)
    ultimately show ?thesis using ab(3) by (auto simp: keyed_def distinct_map dest: inj_onD)
  qed
  ultimately show ?thesis by (auto simp: current_def tiersToTry_distinct)
qed

lemma coverShortfall_inv:
  assumes "insurance_inv db" and "coverShortfall now u r p asset pref db = Inr (res, db')"
  shows "insurance_inv db'"
proof -
  let ?tiers = "tiersToTry pref"
  have r: "0 < r" and run: "coverFrom now u r p ?tiers (advisoryFunds ?tiers asset db) db = Inr (res, db')"
    using assms(2) by (auto simp: coverShortfall_def Let_def split: if_splits)
  have led: "ledger_inv db" using assms(1) by (simp add: insurance_inv_def)
  have known: "\<forall>t f. advisoryFunds ?tiers asset db t = Some f \<longrightarrow> fundExists (fd_id f) db"
    using advisoryFunds_row(1) [OF led] by (auto simp: fundExists_def)
  show ?thesis using coverFrom_spec [OF assms(1) r known, of now u p ?tiers] run by auto
qed

interpretation insurance_requests: event_loop handleInsuranceRequest insurance_inv
proof
  fix req and db :: insurance_db
  assume inv: "insurance_inv db"
  show "insurance_inv (handleInsuranceRequest req db)"
  proof (cases req)
    case (InitializeFunds asset)
    have "insurance_inv (commit (\<lambda>s. map_sum id snd (initializeFunds asset s)) db)"
      by (rule commit_map_snd) (use inv initializeFunds_inv in fast)+
    with InitializeFunds show ?thesis by simp
  next
    case (ReplenishFund now i a ref)
    have "insurance_inv (commit (\<lambda>s. map_sum id snd (replenishFund now i a ref s)) db)" if "0 \<le> a"
      unfolding replenishFund_def
      by (rule commit_map_snd) (use inv that recordTransaction_inv in blast)+
    with ReplenishFund inv show ?thesis by simp
  next
    case (ContributeFees now tradeId fee asset tier)
    have "insurance_inv (commit (\<lambda>s. map_sum id snd (contributeFromTradeFee now tradeId fee asset tier s)) db)"
      by (rule commit_map_snd) (use inv contributeFromTradeFee_inv in fast)+
    with ContributeFees inv show ?thesis by simp
  next
    case (CoverShortfall now u a p asset tier)
    have "insurance_inv (commit (\<lambda>s. map_sum id snd (coverShortfall now u a p asset tier s)) db)"
      by (rule commit_map_snd) (use inv coverShortfall_inv in fast)+
    with CoverShortfall inv show ?thesis by simp
  qed
qed

section \<open>Properties of the insurance funds\<close>

definition freshInsurance :: insurance_db where
  "freshInsurance =
     \<lparr>in_tiers = [], in_funds = [], in_transactions = [], in_liquidations = [], in_events = [],
      in_tierSeq = 1, in_fundSeq = 1\<rparr>"

lemma freshInsurance_inv: "insurance_inv freshInsurance"
  by (simp add: freshInsurance_def insurance_inv_def ledger_inv_def healthExcept_def keyed_def)

definition ex_insurance :: insurance_db where
  "ex_insurance = handleInsuranceRequest (InitializeFunds ''USDT'') freshInsurance"

lemma ex_insurance_inv: "insurance_inv ex_insurance"
  unfolding ex_insurance_def using insurance_requests.run_inv [OF freshInsurance_inv, of "[InitializeFunds ''USDT'']"]
  by simp

text \<open>
  C10. Insurance balances are explained and never negative. From an empty database, after any
  sequence of initialisation, replenishment, fee contribution and shortfall coverage requests,
  every fund has a non-negative balance equal to its initial half reserve plus the recorded
  credits minus the recorded payouts, and its health columns are those of that balance.
\<close>

theorem insurance_balances_explained:
  assumes "f \<in> set (in_funds (fold handleInsuranceRequest reqs freshInsurance))"
  shows "0 \<le> fd_balance f \<and>
    fd_balance f = fd_targetReserve f / 2 +
      ledgerOf (fd_id f) (in_transactions (fold handleInsuranceRequest reqs freshInsurance)) \<and>
    fd_healthPercent f = calculateHealthPercent (fd_balance f) (fd_targetReserve f) \<and>
    fd_healthStatus f = resolveHealthStatus (fd_healthPercent f)"
proof -
  let ?db = "fold handleInsuranceRequest reqs freshInsurance"
  have "ledger_inv ?db" "healthExcept {} ?db"
    using insurance_requests.run_inv [OF freshInsurance_inv, of reqs] by (simp_all add: insurance_inv_def)
  then have "fundOk (in_transactions ?db) (in_fundSeq ?db) f" "healthAgrees f"
    using assms by (auto simp: ledger_inv_def healthExcept_def list_all_iff)
  then show ?thesis by (simp add: fundOk_def healthAgrees_def)
qed

definition ex_insurance_requests :: "InsuranceRequest list" where
  "ex_insurance_requests =
     [InitializeFunds ''USDT'', CoverShortfall 5 7 60000 (Some 3) ''USDT'' None,
      ReplenishFund 6 1 1000 None]"

theorem insurance_balances_explained_witness:
  "\<exists>f\<in>set (in_funds (fold handleInsuranceRequest ex_insurance_requests freshInsurance)).
     fd_id f = 1 \<and> fd_balance f = 1000 \<and> fd_healthPercent f = 1 \<and> fd_healthStatus f = HEALTH_CRITICAL"
proof -
  let ?db = "fold handleInsuranceRequest ex_insurance_requests freshInsurance"
  have "map (\<lambda>f. (fd_id f, fd_balance f, fd_targetReserve f)) (in_funds ?db) =
      [(1, 1000, 100000), (2, 115000, 250000), (3, 250000, 500000), (4, 500000, 1000000)]"
    by code_simp
  then obtain f fs where f': "in_funds ?db = f # fs" and f: "fd_id f = 1" "fd_balance f = 1000"
    "fd_targetReserve f = 100000" by (auto simp: map_eq_Cons_conv)
  have fin: "f \<in> set (in_funds ?db)" by (simp add: f')
  have "fd_healthPercent f = 1" "fd_healthStatus f = HEALTH_CRITICAL"
    using insurance_balances_explained [OF fin] f
    by (simp_all add: calculateHealthPercent_def resolveHealthStatus_def HEALTH_WARNING_THRESHOLD_def)
  with f fin show ?thesis by blast
qed

text \<open>
  C11. Coverage accounts for the whole shortfall, whatever the advisory snapshot says. With any
  snapshot of existing funds, however out of date, the coverage transaction succeeds, keeps the
  invariant, and what it reports is exact: covered plus remaining is the shortfall, the amounts
  per fund add up to the covered amount, the funds together lose exactly that amount, and the
  cascade counts as prevented just when nothing remains.
\<close>

theorem coverage_accounts_for_shortfall:
  assumes "insurance_inv db" and "0 < shortfall"
    and "\<forall>t f. snap t = Some f \<longrightarrow> fundExists (fd_id f) db"
  shows "\<exists>res db'. coverFrom now userId shortfall positionId tiers snap db = Inr (res, db') \<and>
    insurance_inv db' \<and> 0 \<le> cr_remainingShortfall res \<and>
    cr_coveredAmount res + cr_remainingShortfall res = shortfall \<and>
    paidOut (cr_fundsUsed res) = cr_coveredAmount res \<and>
    totalBalance db' = totalBalance db - cr_coveredAmount res \<and>
    cr_cascadePrevented res = (cr_remainingShortfall res = 0)"
  using coverFrom_spec [OF assms, of now userId positionId tiers] by auto

definition ex_stale :: "FundTier \<Rightarrow> InsuranceFund option" where
  "ex_stale t = (if t = LOW then map_option (\<lambda>f. f\<lparr>fd_balance := 90000\<rparr>)
     (row_of fd_id 1 (in_funds ex_insurance)) else None)"

theorem coverage_accounts_for_shortfall_witness:
  "\<exists>res db'. coverFrom 5 7 60000 (Some 3) [LOW] ex_stale ex_insurance = Inr (res, db') \<and>
     cr_coveredAmount res + cr_remainingShortfall res = 60000 \<and> cr_fundsUsed res = [(1, 50000, LOW)]"
proof -
  have "\<forall>t f. ex_stale t = Some f \<longrightarrow> fundExists (fd_id f) ex_insurance"
  proof (intro allI impI)
    fix t f
    assume "ex_stale t = Some f"
    then obtain g where g: "row_of fd_id 1 (in_funds ex_insurance) = Some g" "fd_id f = fd_id g"
      by (auto simp: ex_stale_def split: if_splits)
    moreover have "fd_id g = 1" using row_of_Some_in [OF g(1)] by simp
    ultimately show "fundExists (fd_id f) ex_insurance" by (simp add: fundExists_def)
  qed
  from coverage_accounts_for_shortfall [OF ex_insurance_inv _ this, of 60000 5 7 "Some 3" "[LOW]"]
  obtain res db' where run: "coverFrom 5 7 60000 (Some 3) [LOW] ex_stale ex_insurance = Inr (res, db')"
    and "cr_coveredAmount res + cr_remainingShortfall res = 60000" by auto
  moreover have "cr_fundsUsed (fst (projr (coverFrom 5 7 60000 (Some 3) [LOW] ex_stale ex_insurance))) =
      [(1, 50000, LOW)]" by code_simp
  ultimately show ?thesis by simp
qed

text \<open>
  Coverage pays as much as the funds hold. A coverage request on the current balances leaves
  exactly the part of the shortfall that all tiers' funds of the asset together cannot pay: it is
  fully covered whenever they hold enough, and otherwise everything they hold is used.
\<close>

theorem coverage_is_maximal:
  assumes "insurance_inv db" and "0 < shortfall"
  shows "\<exists>res db'. coverShortfall now userId shortfall positionId asset preferred db = Inr (res, db') \<and>
    cr_remainingShortfall res =
      max 0 (shortfall - offered (advisoryFunds (tiersToTry preferred) asset db) (tiersToTry preferred))"
proof -
  let ?tiers = "tiersToTry preferred"
  let ?snap = "advisoryFunds ?tiers asset db"
  have led: "ledger_inv db" using assms(1) by (simp add: insurance_inv_def)
  have known: "\<forall>t f. ?snap t = Some f \<longrightarrow> fundExists (fd_id f) db"
    using advisoryFunds_row(1) [OF led] by (auto simp: fundExists_def)
  obtain used s' where "coverTiers (payFund now userId positionId) freshBalance ?snap ?tiers shortfall [] db =
      Inr ((max 0 (shortfall - offered ?snap ?tiers), used), s')"
    using funds.coverTiers_current [OF led advisoryFunds_current [OF led], of shortfall] assms(2) by fastforce
  then show ?thesis
    using coverFrom_spec [OF assms known, of now userId positionId ?tiers] assms(2)
    by (auto simp: coverShortfall_def Let_def)
qed

theorem coverage_is_maximal_witness:
  "\<exists>res db'. coverShortfall 5 7 1000000 (Some 3) ''USDT'' None ex_insurance = Inr (res, db') \<and>
     cr_remainingShortfall res = 75000"
proof -
  have "offered (advisoryFunds (tiersToTry None) ''USDT'' ex_insurance) (tiersToTry None) = 925000"
    by code_simp
  then show ?thesis
    using coverage_is_maximal [OF ex_insurance_inv, of 1000000 5 7 "Some 3" "''USDT''" None] by auto
qed

text \<open>
  A health refresh can undo a payout. \<open>updateFundHealth\<close> reads a fund and saves the whole row
  later; when a payout commits in between, the save puts the old balance back, so the money that
  was paid out can be spent again and the balance no longer agrees with the transaction rows.
\<close>

theorem stale_health_refresh_undoes_payout:
  assumes "ledger_inv db" and "row_of fd_id i (in_funds db) = Some f" and "0 < a"
    and "payFund now userId positionId i a db = Inr db1"
  shows "balanceOf i db1 = fd_balance f - a \<and> balanceOf i (saveFundHealth f db1) = fd_balance f \<and>
    \<not> ledger_inv (saveFundHealth f db1)"
proof -
  have id: "fd_id f = i" using row_of_Some_in [OF assms(2)] by simp
  have b: "balanceOf i db1 = fd_balance f - a"
    using funds.pay_bal [OF assms(1,3,4), of i] assms(2) by (simp add: balanceOf_def)
  have row: "row_of fd_id i (in_funds (saveFundHealth f db1)) = Some (refreshedFund f)"
    by (simp add: saveFundHealth_def Let_def row_of_save id)
  obtain g where g: "row_of fd_id i (in_funds db1) = Some g"
    using payFund_Inr(3) [OF assms(1,4)] assms(2) by (simp add: row_of_adjust)
  have "ledger_inv db1" using payFund_inv(1) [OF assms(1,4,3)] .
  then have "fd_balance g = fd_targetReserve g / 2 + ledgerOf i (in_transactions db1)"
    using row_of_Some_in [OF g] by (auto simp: ledger_inv_def fundOk_def list_all_iff)
  moreover have "fd_targetReserve g = fd_targetReserve f"
    using payFund_Inr(3) [OF assms(1,4)] assms(2) g by (auto simp: row_of_adjust)
  moreover have "in_transactions (saveFundHealth f db1) = in_transactions db1"
    by (simp add: saveFundHealth_def Let_def)
  ultimately have "\<not> fundOk (in_transactions (saveFundHealth f db1)) n (refreshedFund f)" for n
    using b g assms(3) by (simp add: fundOk_def balanceOf_def id)
  then have "\<not> ledger_inv (saveFundHealth f db1)"
    using row_of_Some_in [OF row] by (auto simp: ledger_inv_def list_all_iff)
  with b row show ?thesis by (simp add: balanceOf_def)
qed

theorem stale_health_refresh_undoes_payout_witness:
  "\<exists>f db1. payFund 5 7 (Some 3) 1 40000 ex_insurance = Inr db1 \<and> balanceOf 1 db1 = 10000 \<and>
     balanceOf 1 (saveFundHealth f db1) = 50000"
proof -
  have "map (\<lambda>f. (fd_id f, fd_balance f)) (in_funds ex_insurance) =
      [(1, 50000), (2, 125000), (3, 250000), (4, 500000)]" by code_simp
  then obtain f where f: "row_of fd_id 1 (in_funds ex_insurance) = Some f" "fd_balance f = 50000"
    by (auto simp: map_eq_Cons_conv)
  have led: "ledger_inv ex_insurance" using ex_insurance_inv by (simp add: insurance_inv_def)
  obtain db1 where run: "payFund 5 7 (Some 3) 1 40000 ex_insurance = Inr db1"
    using payFund_ok [OF led, of 40000 1 5 7 "Some 3"] f by (auto simp: balanceOf_def fundExists_def)
  with stale_health_refresh_undoes_payout [OF led f(1) _ run] f(2) show ?thesis by auto
qed

end
