(* ===== verification/MarginTrading.thy ===== *)
theory MarginTrading
  imports MarginCalculator Balances LiquidationProtection
begin

text \<open>
  Margin positions: \<open>margin-position.service.ts\<close>, \<open>liquidation-engine.service.ts\<close>,
  \<open>margin-interest.service.ts\<close> and \<open>margin-pair-config.service.ts\<close> under \<open>src/margin/services/\<close>,
  with their entities and DTOs. The state is the pair configurations, positions, interest
  accruals, balances and assets tables, the events, and the insurance funds a liquidation calls
  on. The lemmas show that open collateral stays covered by locked balance, how a liquidation
  settles, and that interest is charged once a day.
\<close>

section \<open>Data\<close>

datatype PositionStatus = OPEN | MARGIN_CALL | LIQUIDATED | CLOSED

record MarginPosition =
  mp_id :: uuid
  mp_userId :: uid
  mp_pairConfigId :: nat
  mp_side :: PositionSide
  mp_size :: real
  mp_entryPrice :: real
  mp_leverage :: real
  mp_collateral :: real
  mp_borrowedAmount :: real
  mp_liquidationPrice :: real
  mp_unrealizedPnl :: real
  mp_accruedInterest :: real
  mp_status :: PositionStatus
  mp_marginCallNotifiedAt :: "timestamp option"
  mp_lastInterestAccrualAt :: "timestamp option"
  mp_openedAt :: timestamp
  mp_closedAt :: "timestamp option"
  mp_liquidatedAt :: "timestamp option"

text \<open>An accrual date is the number of the UTC day.\<close>

record MarginInterestAccrual =
  ia_positionId :: uuid
  ia_userId :: uid
  ia_borrowedAmount :: real
  ia_interestAmount :: real
  ia_dailyInterestRateBps :: int
  ia_accruedTotalAfter :: real
  ia_accrualDate :: int

datatype MarginEvent =
    PositionOpenedEvent uuid uid nat PositionSide real real
  | MarginCallEvent uuid uid nat real jsnum real
  | PositionLiquidatedEvent uuid uid real real real

record CreateMarginPairConfigDto =
  cc_baseAssetId :: asset_id
  cc_quoteAssetId :: asset_id
  cc_maxLeverage :: "real option"
  cc_initialMarginRate :: "real option"
  cc_maintenanceMarginRate :: "real option"
  cc_dailyInterestRateBps :: "int option"
  cc_volatilityPct :: "real option"
  cc_volatilityLeverageFactor :: "real option"
  cc_marginCallThresholdRatio :: "real option"
  cc_isEnabled :: "bool option"

record UpdateMarginPairConfigDto =
  uc_baseAssetId :: "asset_id option"
  uc_quoteAssetId :: "asset_id option"
  uc_maxLeverage :: "real option"
  uc_initialMarginRate :: "real option"
  uc_maintenanceMarginRate :: "real option"
  uc_dailyInterestRateBps :: "int option"
  uc_volatilityPct :: "real option"
  uc_volatilityLeverageFactor :: "real option"
  uc_marginCallThresholdRatio :: "real option"
  uc_isEnabled :: "bool option"

record OpenMarginPositionDto =
  od_userId :: uid
  od_pairConfigId :: nat
  od_side :: PositionSide
  od_collateral :: real
  od_leverage :: real
  od_entryPrice :: "real option"

record margin_db =
  mg_configs :: "MarginPairConfig list"
  mg_positions :: "MarginPosition list"
  mg_accruals :: "MarginInterestAccrual list"
  mg_balances :: "UserBalance list"
  mg_assets :: "VirtualAsset list"
  mg_events :: "MarginEvent list"
  mg_insurance :: insurance_db
  mg_configSeq :: nat

definition given :: "'a option \<Rightarrow> 'a \<Rightarrow> 'a" where
  "given x d = (case x of None \<Rightarrow> d | Some v \<Rightarrow> v)"

definition atLeast :: "real \<Rightarrow> real option \<Rightarrow> bool" where
  "atLeast b x = (case x of None \<Rightarrow> True | Some v \<Rightarrow> b \<le> v)"

definition validCreateMarginPairConfigDto :: "CreateMarginPairConfigDto \<Rightarrow> bool" where
  "validCreateMarginPairConfigDto dto =
     (atLeast 1 (cc_maxLeverage dto) \<and> atLeast 0 (cc_initialMarginRate dto) \<and>
      atLeast 0 (cc_maintenanceMarginRate dto) \<and>
      (case cc_dailyInterestRateBps dto of None \<Rightarrow> True | Some v \<Rightarrow> 0 \<le> v) \<and>
      atLeast 0 (cc_volatilityPct dto) \<and> atLeast 0 (cc_volatilityLeverageFactor dto) \<and>
      atLeast 1 (cc_marginCallThresholdRatio dto))"

definition validUpdateMarginPairConfigDto :: "UpdateMarginPairConfigDto \<Rightarrow> bool" where
  "validUpdateMarginPairConfigDto dto =
     (atLeast 1 (uc_maxLeverage dto) \<and> atLeast 0 (uc_initialMarginRate dto) \<and>
      atLeast 0 (uc_maintenanceMarginRate dto) \<and>
      (case uc_dailyInterestRateBps dto of None \<Rightarrow> True | Some v \<Rightarrow> 0 \<le> v) \<and>
      atLeast 0 (uc_volatilityPct dto) \<and> atLeast 0 (uc_volatilityLeverageFactor dto) \<and>
      atLeast 1 (uc_marginCallThresholdRatio dto))"

definition validOpenMarginPositionDto :: "OpenMarginPositionDto \<Rightarrow> bool" where
  "validOpenMarginPositionDto dto =
     (1 / 100000000 \<le> od_collateral dto \<and> 1 \<le> od_leverage dto \<and> atLeast 0 (od_entryPrice dto))"

section \<open>Pair configurations\<close>

text \<open>The pair of assets is a unique index: saving a second row for it fails.\<close>

definition pairTaken :: "MarginPairConfig \<Rightarrow> margin_db \<Rightarrow> bool" where
  "pairTaken config db =
     list_ex (\<lambda>c. pc_id c \<noteq> pc_id config \<and> pc_baseAssetId c = pc_baseAssetId config \<and>
                  pc_quoteAssetId c = pc_quoteAssetId config) (mg_configs db)"

definition saveConfig :: "MarginPairConfig \<Rightarrow> margin_db \<Rightarrow> margin_db result" where
  "saveConfig config db =
     (if pairTaken config db then Inl (JsError ''duplicate key value violates unique constraint'')
      else Inr (db\<lparr>mg_configs := save_row pc_id config (mg_configs db)\<rparr>))"

definition createConfig :: "CreateMarginPairConfigDto \<Rightarrow> margin_db \<Rightarrow> (MarginPairConfig \<times> margin_db) result" where
  "createConfig dto db =
     (let config = \<lparr>pc_id = mg_configSeq db, pc_baseAssetId = cc_baseAssetId dto,
           pc_quoteAssetId = cc_quoteAssetId dto, pc_maxLeverage = given (cc_maxLeverage dto) 10,
           pc_initialMarginRate = given (cc_initialMarginRate dto) (1 / 10),
           pc_maintenanceMarginRate = given (cc_maintenanceMarginRate dto) (5 / 100),
           pc_dailyInterestRateBps = given (cc_dailyInterestRateBps dto) 10,
           pc_volatilityPct = given (cc_volatilityPct dto) 50,
           pc_volatilityLeverageFactor = given (cc_volatilityLeverageFactor dto) 2,
           pc_marginCallThresholdRatio = given (cc_marginCallThresholdRatio dto) (115 / 100),
           pc_isEnabled = given (cc_isEnabled dto) True\<rparr>
      in map_sum id (\<lambda>s. (config, s\<lparr>mg_configSeq := Suc (mg_configSeq db)\<rparr>)) (saveConfig config db))"

definition getById :: "nat \<Rightarrow> margin_db \<Rightarrow> MarginPairConfig result" where
  "getById i db =
     (case row_of pc_id i (mg_configs db) of
        None \<Rightarrow> Inl (NotFoundException ''Margin pair config not found'')
      | Some config \<Rightarrow> Inr config)"

text \<open>\<open>Object.assign(config, dto)\<close>: the fields that are given replace those of the row.\<close>

definition assignConfig :: "UpdateMarginPairConfigDto \<Rightarrow> MarginPairConfig \<Rightarrow> MarginPairConfig" where
  "assignConfig dto c =
     c\<lparr>pc_baseAssetId := given (uc_baseAssetId dto) (pc_baseAssetId c),
       pc_quoteAssetId := given (uc_quoteAssetId dto) (pc_quoteAssetId c),
       pc_maxLeverage := given (uc_maxLeverage dto) (pc_maxLeverage c),
       pc_initialMarginRate := given (uc_initialMarginRate dto) (pc_initialMarginRate c),
       pc_maintenanceMarginRate := given (uc_maintenanceMarginRate dto) (pc_maintenanceMarginRate c),
       pc_dailyInterestRateBps := given (uc_dailyInterestRateBps dto) (pc_dailyInterestRateBps c),
       pc_volatilityPct := given (uc_volatilityPct dto) (pc_volatilityPct c),
       pc_volatilityLeverageFactor := given (uc_volatilityLeverageFactor dto) (pc_volatilityLeverageFactor c),
       pc_marginCallThresholdRatio := given (uc_marginCallThresholdRatio dto) (pc_marginCallThresholdRatio c),
       pc_isEnabled := given (uc_isEnabled dto) (pc_isEnabled c)\<rparr>"

definition updateConfig ::
  "nat \<Rightarrow> UpdateMarginPairConfigDto \<Rightarrow> margin_db \<Rightarrow> (MarginPairConfig \<times> margin_db) result" where
  "updateConfig i dto db =
     rbind (getById i db) (\<lambda>config.
       let config' = assignConfig dto config
       in map_sum id (\<lambda>s. (config', s)) (saveConfig config' db))"

definition getByPair :: "asset_id \<Rightarrow> asset_id \<Rightarrow> margin_db \<Rightarrow> MarginPairConfig option" where
  "getByPair baseAssetId quoteAssetId db =
     find (\<lambda>c. pc_baseAssetId c = baseAssetId \<and> pc_quoteAssetId c = quoteAssetId \<and> pc_isEnabled c)
       (mg_configs db)"

definition listAll :: "margin_db \<Rightarrow> MarginPairConfig list" where
  "listAll db = sort_key pc_id (mg_configs db)"

section \<open>Positions\<close>

text \<open>The checks before the transaction, and the entry price.\<close>

definition checkOpen :: "OpenMarginPositionDto \<Rightarrow> margin_db \<Rightarrow> (MarginPairConfig \<times> real) result" where
  "checkOpen dto db =
     rbind (getById (od_pairConfigId dto) db) (\<lambda>pairConfig.
       if \<not> pc_isEnabled pairConfig
       then Inl (BadRequestException ''Margin trading is disabled for this pair'')
       else if od_leverage dto > calculateEffectiveMaxLeverage pairConfig
       then Inl (BadRequestException ''Leverage exceeds maximum for this pair'')
       else if pc_initialMarginRate pairConfig > 1 / od_leverage dto + 1 / 100000000
       then Inl (BadRequestException ''Leverage requires a lower initial margin rate'')
       else (case row_of va_id (pc_baseAssetId pairConfig) (mg_assets db) of
           None \<Rightarrow> Inl (NotFoundException ''Base asset not found'')
         | Some baseAsset \<Rightarrow>
             let entryPrice = given (od_entryPrice dto) (va_price baseAsset)
             in if entryPrice \<le> 0 then Inl (BadRequestException ''Invalid entry price'')
                else Inr (pairConfig, entryPrice)))"

definition newPosition ::
  "timestamp \<Rightarrow> uuid \<Rightarrow> OpenMarginPositionDto \<Rightarrow> MarginPairConfig \<Rightarrow> real \<Rightarrow> MarginPosition" where
  "newPosition now newId dto pairConfig entryPrice =
     (let notional = od_collateral dto * od_leverage dto;
          sz = calculatePositionSize notional entryPrice;
          borrowedAmount = calculateBorrowedAmount notional (od_collateral dto);
          liquidationPrice = calculateLiquidationPrice (od_side dto) sz entryPrice (od_collateral dto)
            (pc_maintenanceMarginRate pairConfig) 0
      in \<lparr>mp_id = newId, mp_userId = od_userId dto, mp_pairConfigId = pc_id pairConfig,
          mp_side = od_side dto, mp_size = sz, mp_entryPrice = entryPrice,
          mp_leverage = od_leverage dto, mp_collateral = od_collateral dto,
          mp_borrowedAmount = borrowedAmount, mp_liquidationPrice = liquidationPrice,
          mp_unrealizedPnl = 0, mp_accruedInterest = 0, mp_status = OPEN,
          mp_marginCallNotifiedAt = None, mp_lastInterestAccrualAt = None, mp_openedAt = now,
          mp_closedAt = None, mp_liquidatedAt = None\<rparr>)"

definition savePos :: "MarginPosition \<Rightarrow> margin_db \<Rightarrow> margin_db" where
  "savePos position db = db\<lparr>mg_positions := save_row mp_id position (mg_positions db)\<rparr>"

definition openPosition ::
  "timestamp \<Rightarrow> uuid \<Rightarrow> OpenMarginPositionDto \<Rightarrow> margin_db \<Rightarrow> (MarginPosition \<times> margin_db) result" where
  "openPosition now newId dto db =
     rbind (checkOpen dto db) (\<lambda>(pairConfig, entryPrice).
       case findBalance (od_userId dto) (pc_quoteAssetId pairConfig) (mg_balances db) of
         None \<Rightarrow> Inl (BadRequestException ''Insufficient margin: no quote asset balance found'')
       | Some balance \<Rightarrow>
           if b_balance balance - b_lockedBalance balance < od_collateral dto
           then Inl (BadRequestException ''Insufficient available margin'')
           else
             let balance' = balance\<lparr>b_lockedBalance := b_lockedBalance balance + od_collateral dto\<rparr>;
                 position = newPosition now newId dto pairConfig entryPrice;
                 db1 = savePos position (db\<lparr>mg_balances := saveBalance balance' (mg_balances db)\<rparr>)
             in Inr (position, db1\<lparr>mg_events := mg_events db1 @
                  [PositionOpenedEvent newId (od_userId dto) (pc_id pairConfig) (od_side dto)
                     (od_leverage dto) (od_collateral dto)]\<rparr>))"

definition settlePositionBalance :: "MarginPosition \<Rightarrow> asset_id \<Rightarrow> real \<Rightarrow> margin_db \<Rightarrow> margin_db" where
  "settlePositionBalance position quoteAssetId equity db =
     (case findBalance (mp_userId position) quoteAssetId (mg_balances db) of
        None \<Rightarrow> db
      | Some balance \<Rightarrow>
          let collateral = mp_collateral position;
              balance' = balance\<lparr>b_lockedBalance := max 0 (b_lockedBalance balance - collateral),
                                 b_balance := b_balance balance + (equity - collateral)\<rparr>
          in db\<lparr>mg_balances := saveBalance balance' (mg_balances db)\<rparr>)"

definition isLive :: "MarginPosition \<Rightarrow> bool" where
  "isLive p = (mp_status p = OPEN \<or> mp_status p = MARGIN_CALL)"

definition positionPnl :: "MarginPosition \<Rightarrow> real \<Rightarrow> real" where
  "positionPnl p currentPrice =
     calculateUnrealizedPnl (mp_side p) (mp_size p) (mp_entryPrice p) currentPrice"

definition positionEquity :: "MarginPosition \<Rightarrow> real \<Rightarrow> real" where
  "positionEquity p currentPrice =
     calculateEquity (mp_collateral p) (positionPnl p currentPrice) (mp_accruedInterest p)"

definition closePosition ::
  "timestamp \<Rightarrow> uuid \<Rightarrow> real \<Rightarrow> margin_db \<Rightarrow> (MarginPosition \<times> margin_db) result" where
  "closePosition now positionId currentPrice db =
     (case row_of mp_id positionId (mg_positions db) of
        None \<Rightarrow> Inl (NotFoundException ''Position not found'')
      | Some position \<Rightarrow>
          if \<not> isLive position then Inl (BadRequestException ''Position is not open'')
          else (case row_of pc_id (mp_pairConfigId position) (mg_configs db) of
              None \<Rightarrow> Inl (NotFoundException ''Pair config not found'')
            | Some pairConfig \<Rightarrow>
                let db1 = settlePositionBalance position (pc_quoteAssetId pairConfig)
                            (positionEquity position currentPrice) db;
                    position' = position\<lparr>mp_unrealizedPnl := positionPnl position currentPrice,
                                         mp_status := CLOSED, mp_closedAt := Some now\<rparr>
                in Inr (position', savePos position' db1)))"

definition liquidatePosition ::
  "timestamp \<Rightarrow> MarginPosition \<Rightarrow> MarginPairConfig \<Rightarrow> real \<Rightarrow> margin_db \<Rightarrow> (MarginPosition \<times> real) \<times> margin_db" where
  "liquidatePosition now position pairConfig currentPrice db =
     (case row_of mp_id (mp_id position) (mg_positions db) of
        None \<Rightarrow> ((position, 0), db)
      | Some locked \<Rightarrow>
          if \<not> isLive locked then ((locked, 0), db)
          else
            let equity = positionEquity locked currentPrice;
                shortfall = (if equity < 0 then \<bar>equity\<bar> else 0);
                db1 = settlePositionBalance locked (pc_quoteAssetId pairConfig) (max 0 equity) db;
                locked' = locked\<lparr>mp_unrealizedPnl := positionPnl locked currentPrice,
                                 mp_status := LIQUIDATED, mp_liquidatedAt := Some now\<rparr>
            in ((locked', shortfall), savePos locked' db1))"

definition getOpenPositions :: "margin_db \<Rightarrow> MarginPosition list" where
  "getOpenPositions db = filter isLive (mg_positions db)"

definition getUserMarginPositions :: "uid \<Rightarrow> margin_db \<Rightarrow> MarginPosition list" where
  "getUserMarginPositions userId db =
     sort_key (\<lambda>p. - mp_openedAt p) (filter (\<lambda>p. mp_userId p = userId) (mg_positions db))"

definition getMarginPosition :: "uuid \<Rightarrow> margin_db \<Rightarrow> MarginPosition result" where
  "getMarginPosition i db =
     (case row_of mp_id i (mg_positions db) of
        None \<Rightarrow> Inl (NotFoundException ''Position not found'')
      | Some position \<Rightarrow> Inr position)"

section \<open>The liquidation engine\<close>

definition emitMargin :: "MarginEvent \<Rightarrow> margin_db \<Rightarrow> margin_db" where
  "emitMargin e db = db\<lparr>mg_events := mg_events db @ [e]\<rparr>"

text \<open>A failure of the coverage is caught and logged.\<close>

definition coverWithInsurance :: "timestamp \<Rightarrow> MarginPosition \<Rightarrow> real \<Rightarrow> margin_db \<Rightarrow> margin_db" where
  "coverWithInsurance now position shortfall db =
     (if shortfall > 0
      then db\<lparr>mg_insurance := commit (\<lambda>s. map_sum id snd
             (coverShortfall now (mp_userId position) shortfall (Some (mp_id position)) ''USDT'' None s))
             (mg_insurance db)\<rparr>
      else db)"

definition liquidate ::
  "timestamp \<Rightarrow> MarginPosition \<Rightarrow> MarginPairConfig \<Rightarrow> real \<Rightarrow> real \<Rightarrow> margin_db \<Rightarrow> margin_db" where
  "liquidate now position pairConfig currentPrice equity db =
     (let ((liquidated, shortfall), db1) = liquidatePosition now position pairConfig currentPrice db;
          db2 = coverWithInsurance now position shortfall db1
      in emitMargin (PositionLiquidatedEvent (mp_id liquidated) (mp_userId liquidated) currentPrice
           equity shortfall) db2)"

definition triggerMarginCall ::
  "timestamp \<Rightarrow> MarginPosition \<Rightarrow> MarginPairConfig \<Rightarrow> real \<Rightarrow> MarginMetrics \<Rightarrow> margin_db \<Rightarrow> margin_db" where
  "triggerMarginCall now position pairConfig currentPrice metrics db =
     (let recentlyNotified = (case mp_marginCallNotifiedAt position of
            None \<Rightarrow> False | Some t \<Rightarrow> now - t < 3600000);
          called = position\<lparr>mp_status := MARGIN_CALL\<rparr>
      in if recentlyNotified then savePos called db
         else
           let notified = called\<lparr>mp_marginCallNotifiedAt := Some now\<rparr>
           in emitMargin (MarginCallEvent (mp_id position) (mp_userId position) (pc_id pairConfig)
                currentPrice (mm_marginRatio metrics) (mp_liquidationPrice position))
                (savePos notified db))"

text \<open>The position is the object the sweep read, which it saves back with the new profit.\<close>

definition evaluatePosition ::
  "timestamp \<Rightarrow> MarginPosition \<Rightarrow> MarginPairConfig \<Rightarrow> real \<Rightarrow> margin_db \<Rightarrow> margin_db" where
  "evaluatePosition now position pairConfig currentPrice db =
     (let metrics = computeMetrics (mp_side position) (mp_size position) (mp_entryPrice position)
            currentPrice (mp_collateral position) (mp_accruedInterest position)
            (pc_maintenanceMarginRate pairConfig);
          position1 = position\<lparr>mp_unrealizedPnl := mm_unrealizedPnl metrics\<rparr>;
          db1 = savePos position1 db
      in if shouldLiquidate (mm_equity metrics) (mm_maintenanceRequirement metrics)
         then liquidate now position1 pairConfig currentPrice (mm_equity metrics) db1
         else if shouldMarginCall (mm_marginRatio metrics) (pc_marginCallThresholdRatio pairConfig)
         then triggerMarginCall now position1 pairConfig currentPrice metrics db1
         else if mp_status position1 = MARGIN_CALL then savePos (position1\<lparr>mp_status := OPEN\<rparr>) db1
         else db1)"

definition monitorOne :: "timestamp \<Rightarrow> margin_db \<Rightarrow> MarginPosition \<Rightarrow> margin_db \<Rightarrow> margin_db" where
  "monitorOne now db0 position db =
     (case row_of pc_id (mp_pairConfigId position) (mg_configs db0) of
        None \<Rightarrow> db
      | Some pairConfig \<Rightarrow>
          (case row_of va_id (pc_baseAssetId pairConfig) (mg_assets db0) of
             None \<Rightarrow> db
           | Some asset \<Rightarrow>
               if va_price asset \<le> 0 then db
               else evaluatePosition now position pairConfig (va_price asset) db))"

definition monitorPositions :: "timestamp \<Rightarrow> margin_db \<Rightarrow> margin_db" where
  "monitorPositions now db = fold (monitorOne now db) (getOpenPositions db) db"

section \<open>Interest\<close>

definition accrueForPosition ::
  "timestamp \<Rightarrow> MarginPosition \<Rightarrow> MarginPairConfig \<Rightarrow> int \<Rightarrow> margin_db \<Rightarrow> margin_db" where
  "accrueForPosition now position pairConfig accrualDate db =
     (let borrowed = mp_borrowedAmount position;
          bps = pc_dailyInterestRateBps pairConfig;
          interest = calculateDailyInterest borrowed (real_of_int bps);
          position' = position\<lparr>mp_accruedInterest := mp_accruedInterest position + interest,
                               mp_lastInterestAccrualAt := Some now\<rparr>;
          accrual = \<lparr>ia_positionId = mp_id position, ia_userId = mp_userId position,
                     ia_borrowedAmount = borrowed, ia_interestAmount = interest,
                     ia_dailyInterestRateBps = bps,
                     ia_accruedTotalAfter = mp_accruedInterest position', ia_accrualDate = accrualDate\<rparr>;
          db1 = savePos position' db
      in db1\<lparr>mg_accruals := mg_accruals db1 @ [accrual]\<rparr>)"

definition hasAccrued :: "uuid \<Rightarrow> int \<Rightarrow> margin_db \<Rightarrow> bool" where
  "hasAccrued positionId day db =
     list_ex (\<lambda>a. ia_positionId a = positionId \<and> ia_accrualDate a = day) (mg_accruals db)"

definition accrueOne :: "timestamp \<Rightarrow> int \<Rightarrow> MarginPosition \<Rightarrow> margin_db \<Rightarrow> margin_db" where
  "accrueOne now today position db =
     (if mp_borrowedAmount position \<le> 0 then db
      else case row_of pc_id (mp_pairConfigId position) (mg_configs db) of
        None \<Rightarrow> db
      | Some pairConfig \<Rightarrow>
          if hasAccrued (mp_id position) today db then db
          else accrueForPosition now position pairConfig today db)"

text \<open>\<open>new Date().toISOString().slice(0, 10)\<close> as a day number.\<close>

definition utcDay :: "timestamp \<Rightarrow> int" where
  "utcDay now = now div 86400000"

definition accrueDailyInterest :: "timestamp \<Rightarrow> margin_db \<Rightarrow> margin_db" where
  "accrueDailyInterest now db = fold (accrueOne now (utcDay now)) (filter isLive (mg_positions db)) db"

definition getAccrualHistory :: "uuid \<Rightarrow> margin_db \<Rightarrow> MarginInterestAccrual list" where
  "getAccrualHistory positionId db =
     sort_key (\<lambda>a. - ia_accrualDate a) (filter (\<lambda>a. ia_positionId a = positionId) (mg_accruals db))"

section \<open>Requests\<close>

datatype MarginRequest =
    CreatePair CreateMarginPairConfigDto
  | UpdatePair nat UpdateMarginPairConfigDto
  | OpenPosition timestamp uuid OpenMarginPositionDto
  | ClosePosition timestamp uuid real
  | MonitorPositions timestamp
  | AccrueInterest timestamp
  | PriceTick "VirtualAsset list"

fun handleMarginRequest :: "MarginRequest \<Rightarrow> margin_db \<Rightarrow> margin_db" where
  "handleMarginRequest (CreatePair dto) db =
     (if validCreateMarginPairConfigDto dto
      then commit (\<lambda>s. map_sum id snd (createConfig dto s)) db else db)"
| "handleMarginRequest (UpdatePair i dto) db =
     (if validUpdateMarginPairConfigDto dto
      then commit (\<lambda>s. map_sum id snd (updateConfig i dto s)) db else db)"
| "handleMarginRequest (OpenPosition now newId dto) db =
     (if validOpenMarginPositionDto dto \<and> row_of mp_id newId (mg_positions db) = None
      then commit (\<lambda>s. map_sum id snd (openPosition now newId dto s)) db else db)"
| "handleMarginRequest (ClosePosition now i price) db =
     commit (\<lambda>s. map_sum id snd (closePosition now i price s)) db"
| "handleMarginRequest (MonitorPositions now) db = monitorPositions now db"
| "handleMarginRequest (AccrueInterest now) db = accrueDailyInterest now db"
| "handleMarginRequest (PriceTick assets) db = db\<lparr>mg_assets := assets\<rparr>"

section \<open>Locked collateral\<close>

definition quoteOf :: "MarginPairConfig list \<Rightarrow> MarginPosition \<Rightarrow> asset_id option" where
  "quoteOf cs p = map_option pc_quoteAssetId (row_of pc_id (mp_pairConfigId p) cs)"

definition lockFor :: "MarginPairConfig list \<Rightarrow> uid \<Rightarrow> asset_id \<Rightarrow> MarginPosition \<Rightarrow> real" where
  "lockFor cs u a p =
     (if isLive p \<and> mp_userId p = u \<and> quoteOf cs p = Some a then mp_collateral p else 0)"

definition collateralIn :: "uid \<Rightarrow> asset_id \<Rightarrow> margin_db \<Rightarrow> real" where
  "collateralIn u a db = sum_list (map (lockFor (mg_configs db) u a) (mg_positions db))"

definition positionSane :: "nat \<Rightarrow> MarginPosition \<Rightarrow> bool" where
  "positionSane n p = (0 \<le> mp_collateral p \<and> mp_pairConfigId p < n)"

definition margin_inv :: "margin_db \<Rightarrow> bool" where
  "margin_inv db =
     (keyed mp_id (mg_positions db) \<and> keyed balanceKey (mg_balances db) \<and>
      list_all (positionSane (mg_configSeq db)) (mg_positions db) \<and>
      list_all (\<lambda>c. pc_id c < mg_configSeq db) (mg_configs db) \<and>
      (\<forall>u a. collateralIn u a db \<le> lockedOf u a (mg_balances db)))"

lemma savePos_fields [simp]:
  "mg_configs (savePos p db) = mg_configs db" "mg_balances (savePos p db) = mg_balances db"
  "mg_assets (savePos p db) = mg_assets db" "mg_accruals (savePos p db) = mg_accruals db"
  "mg_insurance (savePos p db) = mg_insurance db" "mg_configSeq (savePos p db) = mg_configSeq db"
  "mg_positions (savePos p db) = save_row mp_id p (mg_positions db)"
  by (simp_all add: savePos_def)

lemma collateralIn_savePos:
  assumes "keyed mp_id (mg_positions db)"
  shows "collateralIn u a (savePos p db) = collateralIn u a db + lockFor (mg_configs db) u a p -
    (case row_of mp_id (mp_id p) (mg_positions db) of None \<Rightarrow> 0 | Some old \<Rightarrow> lockFor (mg_configs db) u a old)"
  by (simp add: collateralIn_def sum_list_save_row [OF assms])

lemma margin_inv_savePos:
  assumes inv: "margin_inv db" and row: "row_of mp_id (mp_id p) (mg_positions db) = Some old"
    and same: "mp_userId p = mp_userId old" "mp_pairConfigId p = mp_pairConfigId old"
      "mp_collateral p = mp_collateral old"
    and live: "isLive p \<Longrightarrow> isLive old"
  shows "margin_inv (savePos p db)"
proof -
  have old: "old \<in> set (mg_positions db)" using row_of_Some_in [OF row] by simp
  then have sane: "positionSane (mg_configSeq db) old" using inv by (simp add: margin_inv_def list_all_iff)
  have "collateralIn u a (savePos p db) \<le> collateralIn u a db" for u a
    using inv sane same live
    by (auto simp: collateralIn_savePos margin_inv_def row lockFor_def quoteOf_def positionSane_def)
  moreover have "positionSane (mg_configSeq db) p" using sane same by (simp add: positionSane_def)
  moreover have "collateralIn u a db \<le> lockedOf u a (mg_balances db)" for u a
    using inv by (simp add: margin_inv_def)
  ultimately have "collateralIn u a (savePos p db) \<le> lockedOf u a (mg_balances db)" for u a
    using order_trans by blast
  with inv \<open>positionSane (mg_configSeq db) p\<close> show ?thesis
    by (auto simp: margin_inv_def keyed_save_row list_all_iff set_save_row)
qed

lemma margin_inv_events [simp]:
  "margin_inv (emitMargin e db) = margin_inv db"
  "margin_inv (db\<lparr>mg_events := es\<rparr>) = margin_inv db"
  "margin_inv (db\<lparr>mg_insurance := i\<rparr>) = margin_inv db"
  "margin_inv (db\<lparr>mg_accruals := as\<rparr>) = margin_inv db"
  "margin_inv (db\<lparr>mg_assets := vs\<rparr>) = margin_inv db"
  by (simp_all add: margin_inv_def collateralIn_def emitMargin_def)

lemma collateral_le_locked:
  assumes inv: "margin_inv db" and p: "p \<in> set (mg_positions db)" "isLive p"
    and quote: "quoteOf (mg_configs db) p = Some a"
  shows "mp_collateral p \<le> lockedOf (mp_userId p) a (mg_balances db)"
proof -
  let ?f = "lockFor (mg_configs db) (mp_userId p) a"
  have "?f p \<le> sum_list (map ?f (mg_positions db))"
    by (rule member_le_sum_list_nonneg [OF p(1)])
      (use inv in \<open>auto simp: lockFor_def margin_inv_def positionSane_def list_all_iff\<close>)
  also have "\<dots> \<le> lockedOf (mp_userId p) a (mg_balances db)"
    using inv by (simp add: margin_inv_def collateralIn_def)
  finally show ?thesis using p(2) quote by (simp add: lockFor_def)
qed

lemma settle_fields [simp]:
  "mg_configs (settlePositionBalance p q e db) = mg_configs db"
  "mg_positions (settlePositionBalance p q e db) = mg_positions db"
  "mg_configSeq (settlePositionBalance p q e db) = mg_configSeq db"
  "mg_insurance (settlePositionBalance p q e db) = mg_insurance db"
  "mg_assets (settlePositionBalance p q e db) = mg_assets db"
  by (simp_all add: settlePositionBalance_def Let_def split: option.split)

lemma lockedOf_settle:
  "lockedOf u a (mg_balances (settlePositionBalance p q e db)) =
     (if u = mp_userId p \<and> a = q \<and> findBalance u a (mg_balances db) \<noteq> None
      then max 0 (lockedOf u a (mg_balances db) - mp_collateral p) else lockedOf u a (mg_balances db))"
proof (cases "findBalance (mp_userId p) q (mg_balances db)")
  case None
  then show ?thesis by (auto simp: settlePositionBalance_def)
next
  case (Some b)
  then show ?thesis
    using findBalance_key [OF Some]
    by (auto simp: settlePositionBalance_def Let_def lockedOf_def balances.find_save balanceKey_def)
qed

text \<open>Settling a live position and storing it as finished, as closing and liquidating do.\<close>

lemma margin_inv_finish:
  assumes inv: "margin_inv db" and row: "row_of mp_id (mp_id p) (mg_positions db) = Some p" and live: "isLive p"
    and cfg: "row_of pc_id (mp_pairConfigId p) (mg_configs db) = Some cfg"
    and p': "mp_id p' = mp_id p" "mp_userId p' = mp_userId p" "mp_pairConfigId p' = mp_pairConfigId p"
      "mp_collateral p' = mp_collateral p" "\<not> isLive p'"
  shows "margin_inv (savePos p' (settlePositionBalance p (pc_quoteAssetId cfg) e db))"
proof -
  let ?q = "pc_quoteAssetId cfg" and ?db = "settlePositionBalance p (pc_quoteAssetId cfg) e db"
  have pin: "p \<in> set (mg_positions db)" using row_of_Some_in [OF row] by simp
  then have sane: "positionSane (mg_configSeq db) p" using inv by (simp add: margin_inv_def list_all_iff)
  have quote: "quoteOf (mg_configs db) p = Some ?q" by (simp add: quoteOf_def cfg)
  have key: "keyed mp_id (mg_positions db)" using inv by (simp add: margin_inv_def)
  have coll: "collateralIn u a (savePos p' ?db) = collateralIn u a db - lockFor (mg_configs db) u a p" for u a
    using key row p' by (simp add: collateralIn_def sum_list_save_row lockFor_def)
  have "collateralIn u a (savePos p' ?db) \<le> lockedOf u a (mg_balances ?db)" for u a
  proof -
    have "collateralIn u a db \<le> lockedOf u a (mg_balances db)" using inv by (simp add: margin_inv_def)
    then show ?thesis
      using live quote sane by (auto simp: coll lockedOf_settle lockFor_def positionSane_def)
  qed
  moreover have "keyed balanceKey (mg_balances ?db)"
    using inv by (simp add: margin_inv_def settlePositionBalance_def Let_def keyed_save_row split: option.split)
  ultimately show ?thesis
    using inv sane p' by (auto simp: margin_inv_def keyed_save_row list_all_iff set_save_row positionSane_def)
qed

section \<open>Every request keeps the collateral covered\<close>

lemma openPosition_Inr:
  assumes "openPosition now newId dto db = Inr (p, db')"
  obtains cfg e b where "checkOpen dto db = Inr (cfg, e)"
    "row_of pc_id (od_pairConfigId dto) (mg_configs db) = Some cfg"
    "findBalance (od_userId dto) (pc_quoteAssetId cfg) (mg_balances db) = Some b"
    "od_collateral dto \<le> availableBalance b" "p = newPosition now newId dto cfg e"
    "db' = (savePos p (db\<lparr>mg_balances := saveBalance
       (b\<lparr>b_lockedBalance := b_lockedBalance b + od_collateral dto\<rparr>) (mg_balances db)\<rparr>))\<lparr>mg_events :=
         mg_events db @ [PositionOpenedEvent newId (od_userId dto) (pc_id cfg) (od_side dto)
           (od_leverage dto) (od_collateral dto)]\<rparr>"
proof -
  obtain cfg e where c: "checkOpen dto db = Inr (cfg, e)"
    using assms by (auto simp: openPosition_def)
  moreover have "row_of pc_id (od_pairConfigId dto) (mg_configs db) = Some cfg"
    using c by (auto simp: checkOpen_def getById_def Let_def split: option.splits if_splits)
  moreover obtain b where "findBalance (od_userId dto) (pc_quoteAssetId cfg) (mg_balances db) = Some b"
    "od_collateral dto \<le> availableBalance b" "p = newPosition now newId dto cfg e"
    "db' = (savePos p (db\<lparr>mg_balances := saveBalance
       (b\<lparr>b_lockedBalance := b_lockedBalance b + od_collateral dto\<rparr>) (mg_balances db)\<rparr>))\<lparr>mg_events :=
         mg_events db @ [PositionOpenedEvent newId (od_userId dto) (pc_id cfg) (od_side dto)
           (od_leverage dto) (od_collateral dto)]\<rparr>"
    using assms c
    by (auto simp: openPosition_def Let_def availableBalance_def savePos_def split: option.splits if_splits)
  ultimately show ?thesis using that by blast
qed

lemma newPosition_fields [simp]:
  "mp_id (newPosition now i dto cfg e) = i" "mp_userId (newPosition now i dto cfg e) = od_userId dto"
  "mp_pairConfigId (newPosition now i dto cfg e) = pc_id cfg"
  "mp_collateral (newPosition now i dto cfg e) = od_collateral dto"
  "mp_status (newPosition now i dto cfg e) = OPEN"
  by (simp_all add: newPosition_def Let_def)

lemma openPosition_inv:
  assumes inv: "margin_inv db" and run: "openPosition now newId dto db = Inr (p, db')"
    and new: "row_of mp_id newId (mg_positions db) = None" and coll: "0 \<le> od_collateral dto"
  shows "margin_inv db'"
  using run
proof (cases rule: openPosition_Inr)
  case (1 cfg e b)
  let ?b = "b\<lparr>b_lockedBalance := b_lockedBalance b + od_collateral dto\<rparr>"
  let ?u = "od_userId dto" and ?q = "pc_quoteAssetId cfg"
  have cfg: "pc_id cfg = od_pairConfigId dto" "cfg \<in> set (mg_configs db)" using row_of_Some_in [OF 1(2)] by simp_all
  have "quoteOf (mg_configs db) p = Some ?q" by (simp add: quoteOf_def 1(2,5) cfg(1))
  then have coll': "collateralIn u a (savePos p db) =
      collateralIn u a db + (if u = ?u \<and> a = ?q then od_collateral dto else 0)" for u a
    using inv new by (auto simp: collateralIn_savePos margin_inv_def 1(5) lockFor_def isLive_def)
  have lock': "lockedOf u a (saveBalance ?b (mg_balances db)) =
      lockedOf u a (mg_balances db) + (if u = ?u \<and> a = ?q then od_collateral dto else 0)" for u a
    using lockedOf_save [OF 1(3), of ?b] 1(3) by (auto simp: lockedOf_find)
  have "collateralIn u a (savePos p db) \<le> lockedOf u a (saveBalance ?b (mg_balances db))" for u a
    using inv by (simp add: coll' lock' margin_inv_def)
  moreover have "positionSane (mg_configSeq db) p"
    using inv cfg coll by (auto simp: positionSane_def 1(5) margin_inv_def list_all_iff)
  ultimately show ?thesis
    using inv by (auto simp: 1(6) margin_inv_def keyed_save_row list_all_iff set_save_row collateralIn_def)
qed

lemma closePosition_Inr:
  assumes "closePosition now i price db = Inr (p', db')"
  obtains p cfg where "row_of mp_id i (mg_positions db) = Some p" "mp_id p = i" "isLive p"
    "row_of pc_id (mp_pairConfigId p) (mg_configs db) = Some cfg"
    "p' = p\<lparr>mp_unrealizedPnl := positionPnl p price, mp_status := CLOSED, mp_closedAt := Some now\<rparr>"
    "db' = savePos p' (settlePositionBalance p (pc_quoteAssetId cfg) (positionEquity p price) db)"
proof -
  obtain p where p: "row_of mp_id i (mg_positions db) = Some p"
    using assms by (auto simp: closePosition_def split: option.splits)
  moreover have live: "isLive p" using assms p by (auto simp: closePosition_def split: if_splits)
  moreover obtain cfg where "row_of pc_id (mp_pairConfigId p) (mg_configs db) = Some cfg"
    using assms p live by (auto simp: closePosition_def split: option.splits)
  ultimately show ?thesis
    using assms row_of_Some_in [OF p]
    by (intro that [of p cfg]) (auto simp: closePosition_def Let_def)
qed

lemma closePosition_inv:
  assumes inv: "margin_inv db" and run: "closePosition now i price db = Inr (p', db')"
  shows "margin_inv db'"
  using run
proof (cases rule: closePosition_Inr)
  case (1 p cfg)
  then show ?thesis
    unfolding 1(6) by (intro margin_inv_finish [OF inv _ 1(3,4)]) (simp_all add: isLive_def)
qed

lemma liquidatePosition_live:
  assumes "row_of mp_id (mp_id p) (mg_positions db) = Some p" and "isLive p"
  shows "liquidatePosition now p cfg price db =
    (let p' = p\<lparr>mp_unrealizedPnl := positionPnl p price, mp_status := LIQUIDATED, mp_liquidatedAt := Some now\<rparr>
     in ((p', if positionEquity p price < 0 then \<bar>positionEquity p price\<bar> else 0),
         savePos p' (settlePositionBalance p (pc_quoteAssetId cfg) (max 0 (positionEquity p price)) db)))"
  using assms by (simp add: liquidatePosition_def Let_def)

lemma coverWithInsurance_fields [simp]:
  "mg_configs (coverWithInsurance now p s db) = mg_configs db"
  "mg_positions (coverWithInsurance now p s db) = mg_positions db"
  "mg_balances (coverWithInsurance now p s db) = mg_balances db"
  "mg_assets (coverWithInsurance now p s db) = mg_assets db"
  "margin_inv (coverWithInsurance now p s db) = margin_inv db"
  by (simp_all add: coverWithInsurance_def)

lemma emitMargin_fields [simp]:
  "mg_configs (emitMargin e db) = mg_configs db" "mg_positions (emitMargin e db) = mg_positions db"
  "mg_balances (emitMargin e db) = mg_balances db" "mg_insurance (emitMargin e db) = mg_insurance db"
  "mg_assets (emitMargin e db) = mg_assets db"
  by (simp_all add: emitMargin_def)

text \<open>Storing the profit leaves a position what it was in every other respect.\<close>

definition marked :: "MarginPosition \<Rightarrow> real \<Rightarrow> MarginPosition" where
  "marked p price = p\<lparr>mp_unrealizedPnl := positionPnl p price\<rparr>"

lemma marked_fields [simp]:
  "mp_id (marked p x) = mp_id p" "mp_userId (marked p x) = mp_userId p"
  "mp_pairConfigId (marked p x) = mp_pairConfigId p" "mp_collateral (marked p x) = mp_collateral p"
  "mp_status (marked p x) = mp_status p" "isLive (marked p x) = isLive p"
  "positionPnl (marked p x) y = positionPnl p y" "positionEquity (marked p x) y = positionEquity p y"
  by (simp_all add: marked_def isLive_def positionPnl_def positionEquity_def)

definition metricsOf :: "MarginPosition \<Rightarrow> MarginPairConfig \<Rightarrow> real \<Rightarrow> MarginMetrics" where
  "metricsOf p cfg price =
     computeMetrics (mp_side p) (mp_size p) (mp_entryPrice p) price (mp_collateral p)
       (mp_accruedInterest p) (pc_maintenanceMarginRate cfg)"

lemma metricsOf_fields:
  "mm_equity (metricsOf p cfg price) = positionEquity p price"
  "mm_unrealizedPnl (metricsOf p cfg price) = positionPnl p price"
  by (simp_all add: metricsOf_def computeMetrics_fields positionEquity_def positionPnl_def)

lemma evaluatePosition_eq:
  "evaluatePosition now p cfg price db =
     (let m = metricsOf p cfg price; p1 = marked p price; db1 = savePos p1 db
      in if shouldLiquidate (mm_equity m) (mm_maintenanceRequirement m)
         then liquidate now p1 cfg price (mm_equity m) db1
         else if shouldMarginCall (mm_marginRatio m) (pc_marginCallThresholdRatio cfg)
         then triggerMarginCall now p1 cfg price m db1
         else if mp_status p = MARGIN_CALL then savePos (p1\<lparr>mp_status := OPEN\<rparr>) db1
         else db1)"
  by (simp add: evaluatePosition_def Let_def metricsOf_fields(2) marked_def
      flip: metricsOf_def)

lemma liquidate_eq:
  assumes "row_of mp_id (mp_id p) (mg_positions db) = Some p" and "isLive p"
  shows "liquidate now p cfg price e db =
    (let p' = p\<lparr>mp_unrealizedPnl := positionPnl p price, mp_status := LIQUIDATED, mp_liquidatedAt := Some now\<rparr>;
         short = (if positionEquity p price < 0 then \<bar>positionEquity p price\<bar> else 0)
     in emitMargin (PositionLiquidatedEvent (mp_id p) (mp_userId p) price e short)
          (coverWithInsurance now p short
            (savePos p' (settlePositionBalance p (pc_quoteAssetId cfg) (max 0 (positionEquity p price)) db))))"
  by (simp add: liquidate_def liquidatePosition_live [OF assms] Let_def)

lemma evaluatePosition_inv:
  assumes inv: "margin_inv db" and row: "row_of mp_id (mp_id p) (mg_positions db) = Some p" and live: "isLive p"
    and cfg: "row_of pc_id (mp_pairConfigId p) (mg_configs db) = Some cfg"
  shows "margin_inv (evaluatePosition now p cfg price db)"
proof -
  let ?p1 = "marked p price" and ?db1 = "savePos (marked p price) db"
  have inv1: "margin_inv ?db1"
    by (rule margin_inv_savePos [OF inv]) (use row live in simp_all)
  have row1: "row_of mp_id (mp_id ?p1) (mg_positions ?db1) = Some ?p1" by (simp add: row_of_save)
  have live1: "isLive ?p1" using live by simp
  have "margin_inv (liquidate now ?p1 cfg price e ?db1)" for e
    unfolding liquidate_eq [OF row1 live1] Let_def margin_inv_events(1) coverWithInsurance_fields(5)
    by (rule margin_inv_finish [OF inv1 row1 live1]) (use cfg in \<open>simp_all add: isLive_def\<close>)
  moreover have upd: "margin_inv (savePos q ?db1)"
    if "mp_id q = mp_id p" "mp_userId q = mp_userId p" "mp_pairConfigId q = mp_pairConfigId p"
      "mp_collateral q = mp_collateral p" for q
    by (rule margin_inv_savePos [OF inv1, where old = ?p1]) (use that row1 live1 in simp_all)
  have "margin_inv (triggerMarginCall now ?p1 cfg price m ?db1)" for m
    by (simp add: triggerMarginCall_def Let_def upd)
  moreover have "margin_inv (savePos (?p1\<lparr>mp_status := OPEN\<rparr>) ?db1)" by (rule upd) simp_all
  ultimately show ?thesis using inv1 by (simp add: evaluatePosition_eq Let_def)
qed

lemma liquidatePosition_other:
  assumes "k \<noteq> mp_id q"
  shows "row_of mp_id k (mg_positions (snd (liquidatePosition now q cfg price s))) = row_of mp_id k (mg_positions s)"
proof (cases "row_of mp_id (mp_id q) (mg_positions s)")
  case None
  then show ?thesis by (simp add: liquidatePosition_def)
next
  case (Some l)
  then show ?thesis
    using assms row_of_Some_in [OF Some] by (simp add: liquidatePosition_def Let_def row_of_save)
qed

lemma evaluatePosition_other:
  assumes "k \<noteq> mp_id p"
  shows "row_of mp_id k (mg_positions (evaluatePosition now p cfg price db)) = row_of mp_id k (mg_positions db)"
proof -
  have "row_of mp_id k (mg_positions (liquidate now q cfg price e s)) = row_of mp_id k (mg_positions s)"
    if "mp_id q = mp_id p" for q e s
    using liquidatePosition_other [of k q now cfg price s] assms that
    by (auto simp: liquidate_def Let_def split: prod.split)
  moreover have "row_of mp_id k (mg_positions (triggerMarginCall now q cfg price m s)) = row_of mp_id k (mg_positions s)"
    if "mp_id q = mp_id p" for q m s
    using assms that by (simp add: triggerMarginCall_def Let_def row_of_save)
  ultimately show ?thesis using assms by (simp add: evaluatePosition_eq Let_def row_of_save)
qed

lemma evaluatePosition_configs:
  "mg_configs (evaluatePosition now p cfg price db) = mg_configs db"
proof -
  have "mg_configs (liquidate now q cfg price e s) = mg_configs s" for q e s
    by (simp add: liquidate_def liquidatePosition_def Let_def split: option.split)
  then show ?thesis by (simp add: evaluatePosition_eq Let_def triggerMarginCall_def)
qed

interpretation monitor: row_sweep "monitorOne now db0" mp_id mg_positions isLive
  "\<lambda>s. margin_inv s \<and> mg_configs s = mg_configs db0" for now db0
proof
  fix s r
  assume "margin_inv s \<and> mg_configs s = mg_configs db0" "isLive r"
    "row_of mp_id (mp_id r) (mg_positions s) = Some r"
  then show "margin_inv (monitorOne now db0 r s) \<and> mg_configs (monitorOne now db0 r s) = mg_configs db0"
    using evaluatePosition_inv [of s r]
    by (simp add: monitorOne_def evaluatePosition_configs split: option.split)
next
  fix k s and r :: MarginPosition
  assume "k \<noteq> mp_id r"
  then show "row_of mp_id k (mg_positions (monitorOne now db0 r s)) = row_of mp_id k (mg_positions s)"
    by (simp add: monitorOne_def evaluatePosition_other split: option.split)
qed

lemma monitorPositions_inv: "margin_inv db \<Longrightarrow> margin_inv (monitorPositions now db)"
  unfolding monitorPositions_def getOpenPositions_def
  using monitor.sweep_filter_inv [of db db now] by (simp add: margin_inv_def [of db])

lemma accrueForPosition_row:
  "row_of mp_id k (mg_positions (accrueForPosition now p cfg day db)) =
     (if k = mp_id p then Some (p\<lparr>mp_accruedInterest := mp_accruedInterest p +
          calculateDailyInterest (mp_borrowedAmount p) (real_of_int (pc_dailyInterestRateBps cfg)),
        mp_lastInterestAccrualAt := Some now\<rparr>)
      else row_of mp_id k (mg_positions db))"
  by (simp add: accrueForPosition_def Let_def row_of_save)

lemma accrueForPosition_inv:
  assumes "margin_inv db" and "row_of mp_id (mp_id p) (mg_positions db) = Some p"
  shows "margin_inv (accrueForPosition now p cfg day db)"
  unfolding accrueForPosition_def Let_def margin_inv_events
  by (rule margin_inv_savePos [OF assms(1), where old = p]) (use assms(2) in \<open>simp_all add: isLive_def\<close>)

interpretation accrual: row_sweep "accrueOne now day" mp_id mg_positions isLive margin_inv for now day
proof
  fix s r
  assume "margin_inv s" "isLive r" "row_of mp_id (mp_id r) (mg_positions s) = Some r"
  then show "margin_inv (accrueOne now day r s)"
    using accrueForPosition_inv by (simp add: accrueOne_def split: option.split)
next
  fix k s and r :: MarginPosition
  assume "k \<noteq> mp_id r"
  then show "row_of mp_id k (mg_positions (accrueOne now day r s)) = row_of mp_id k (mg_positions s)"
    by (simp add: accrueOne_def accrueForPosition_row split: option.split)
qed

lemma accrueDailyInterest_inv: "margin_inv db \<Longrightarrow> margin_inv (accrueDailyInterest now db)"
  unfolding accrueDailyInterest_def
  by (rule accrual.sweep_filter_inv) (simp_all add: margin_inv_def)

text \<open>Changing a configuration without changing the quote asset.\<close>

lemma saveConfig_inv:
  assumes inv: "margin_inv db" and run: "saveConfig c db = Inr db'"
    and c: "pc_id c < n" "mg_configSeq db \<le> n"
    and quote: "\<And>old. row_of pc_id (pc_id c) (mg_configs db) = Some old \<Longrightarrow>
      pc_quoteAssetId c = pc_quoteAssetId old"
    and fresh: "row_of pc_id (pc_id c) (mg_configs db) = None \<Longrightarrow> mg_configSeq db \<le> pc_id c"
  shows "margin_inv (db'\<lparr>mg_configSeq := n\<rparr>)"
proof -
  have db': "db' = db\<lparr>mg_configs := save_row pc_id c (mg_configs db)\<rparr>"
    using run by (simp add: saveConfig_def split: if_splits)
  have q: "quoteOf (save_row pc_id c (mg_configs db)) p = quoteOf (mg_configs db) p"
    if "p \<in> set (mg_positions db)" for p
  proof -
    have "mp_pairConfigId p < mg_configSeq db"
      using inv that by (simp add: margin_inv_def positionSane_def list_all_iff)
    then show ?thesis
      using quote fresh
      by (cases "row_of pc_id (pc_id c) (mg_configs db)") (auto simp: quoteOf_def row_of_save)
  qed
  have "collateralIn u a (db'\<lparr>mg_configSeq := n\<rparr>) = collateralIn u a db" for u a
    unfolding collateralIn_def db' using q
    by (auto simp: lockFor_def intro!: arg_cong [where f = sum_list] map_cong)
  with inv c show ?thesis
    by (auto simp: margin_inv_def db' list_all_iff set_save_row positionSane_def)
qed

definition keepsQuote :: "MarginRequest \<Rightarrow> bool" where
  "keepsQuote req = (case req of UpdatePair i dto \<Rightarrow> uc_quoteAssetId dto = None | _ \<Rightarrow> True)"

lemma createConfig_inv:
  assumes inv: "margin_inv db" and run: "createConfig dto db = Inr (c, db')"
  shows "margin_inv db'"
proof -
  obtain s where s: "saveConfig c db = Inr s" "db' = s\<lparr>mg_configSeq := Suc (mg_configSeq db)\<rparr>"
    and c: "pc_id c = mg_configSeq db"
    using run by (auto simp: createConfig_def Let_def)
  have "row_of pc_id (pc_id c) (mg_configs db) = None"
    using inv c by (auto simp: row_of_None_iff margin_inv_def list_all_iff)
  then show ?thesis
    unfolding s(2) by (intro saveConfig_inv [OF inv s(1)]) (simp_all add: c)
qed

lemma updateConfig_inv:
  assumes inv: "margin_inv db" and run: "updateConfig i dto db = Inr (c, db')" and dto: "uc_quoteAssetId dto = None"
  shows "margin_inv db'"
proof -
  obtain old where old: "row_of pc_id i (mg_configs db) = Some old" "c = assignConfig dto old"
    and s: "saveConfig c db = Inr db'"
    using run by (auto simp: updateConfig_def getById_def Let_def split: option.splits)
  have i: "pc_id old = i" "old \<in> set (mg_configs db)" using row_of_Some_in [OF old(1)] by simp_all
  have c: "pc_id c = i" "pc_quoteAssetId c = pc_quoteAssetId old"
    using i dto by (simp_all add: old(2) assignConfig_def given_def)
  have "margin_inv (db'\<lparr>mg_configSeq := mg_configSeq db\<rparr>)"
    by (rule saveConfig_inv [OF inv s])
      (use inv i old(1) c in \<open>auto simp: margin_inv_def list_all_iff\<close>)
  moreover have "mg_configSeq db = mg_configSeq db'" using s by (auto simp: saveConfig_def split: if_splits)
  ultimately show ?thesis by simp
qed

interpretation margin_requests: guarded_loop handleMarginRequest margin_inv keepsQuote
proof
  fix req and db :: margin_db
  assume ok: "keepsQuote req" and inv: "margin_inv db"
  show "margin_inv (handleMarginRequest req db)"
  proof (cases req)
    case (CreatePair dto)
    have "margin_inv (commit (\<lambda>s. map_sum id snd (createConfig dto s)) db)"
      by (rule commit_map_snd) (use inv createConfig_inv in fast)+
    with CreatePair inv show ?thesis by simp
  next
    case (UpdatePair i dto)
    then have "uc_quoteAssetId dto = None" using ok by (simp add: keepsQuote_def)
    then have upd: "updateConfig i dto db = Inr (c, s') \<Longrightarrow> margin_inv s'" for c s'
      using inv updateConfig_inv by blast
    have "margin_inv (commit (\<lambda>s. map_sum id snd (updateConfig i dto s)) db)"
      by (rule commit_map_snd) (use inv upd in fast)+
    with UpdatePair inv show ?thesis by simp
  next
    case (OpenPosition now newId dto)
    have "margin_inv (commit (\<lambda>s. map_sum id snd (openPosition now newId dto s)) db)"
      if "validOpenMarginPositionDto dto" "row_of mp_id newId (mg_positions db) = None"
    proof (rule commit_map_snd)
      fix p s'
      assume "openPosition now newId dto db = Inr (p, s')"
      then show "margin_inv s'"
        by (rule openPosition_inv [OF inv]) (use that in \<open>simp_all add: validOpenMarginPositionDto_def\<close>)
    qed (rule inv)
    with OpenPosition inv show ?thesis by simp
  next
    case (ClosePosition now i price)
    have "margin_inv (commit (\<lambda>s. map_sum id snd (closePosition now i price s)) db)"
      by (rule commit_map_snd) (use inv closePosition_inv in fast)+
    with ClosePosition inv show ?thesis by simp
  next
    case (MonitorPositions now)
    with inv show ?thesis by (simp add: monitorPositions_inv)
  next
    case (AccrueInterest now)
    with inv show ?thesis by (simp add: accrueDailyInterest_inv)
  next
    case (PriceTick assets)
    with inv show ?thesis by simp
  qed
qed

section \<open>Finished positions\<close>

lemma live_ids:
  assumes "keyed mp_id (mg_positions db)" and "row_of mp_id k (mg_positions db) = Some p" and "\<not> isLive p"
  shows "k \<notin> mp_id ` set (filter isLive (mg_positions db))"
proof
  assume "k \<in> mp_id ` set (filter isLive (mg_positions db))"
  then obtain q where "q \<in> set (mg_positions db)" "isLive q" "mp_id q = k" by auto
  then show False using row_of_keyed [OF assms(1)] assms(2,3) by fastforce
qed

interpretation finished: guarded_loop handleMarginRequest
  "\<lambda>s. margin_inv s \<and> row_of mp_id k (mg_positions s) = Some p \<and> \<not> isLive p" keepsQuote for k p
proof
  fix req and db :: margin_db
  assume ok: "keepsQuote req" and h: "margin_inv db \<and> row_of mp_id k (mg_positions db) = Some p \<and> \<not> isLive p"
  then have inv: "margin_inv db" and row: "row_of mp_id k (mg_positions db) = Some p" and dead: "\<not> isLive p"
    by simp_all
  have ids: "k \<notin> mp_id ` set (filter isLive (mg_positions db))"
    using live_ids [OF _ row dead] inv by (simp add: margin_inv_def)
  have "row_of mp_id k (mg_positions (handleMarginRequest req db)) = Some p"
  proof (cases req)
    case (OpenPosition now newId dto)
    show ?thesis
    proof (cases "openPosition now newId dto db")
      case (Inr r)
      then obtain p' db' where r: "openPosition now newId dto db = Inr (p', db')" by (cases r) auto
      then have "row_of mp_id j (mg_positions db') =
          (if j = newId then Some p' else row_of mp_id j (mg_positions db))" for j
        by (rule openPosition_Inr) (simp add: row_of_save)
      with r row OpenPosition show ?thesis by (auto simp: commit_def)
    qed (use OpenPosition row in \<open>simp add: commit_def\<close>)
  next
    case (ClosePosition now i price)
    then show ?thesis
    proof (cases "closePosition now i price db")
      case (Inr r)
      then obtain p' db' where r: "closePosition now i price db = Inr (p', db')" by (cases r) auto
      then have "i \<noteq> k" using row dead by (auto elim!: closePosition_Inr)
      with r row ClosePosition show ?thesis
        by (auto simp: commit_def row_of_save elim!: closePosition_Inr)
    qed (use ClosePosition row in \<open>simp add: commit_def\<close>)
  next
    case (MonitorPositions now)
    then show ?thesis
      using monitor.sweep_other [OF ids] row by (simp add: monitorPositions_def getOpenPositions_def)
  next
    case (AccrueInterest now)
    then show ?thesis using accrual.sweep_other [OF ids] row by (simp add: accrueDailyInterest_def)
  qed (use row in \<open>auto simp: commit_def createConfig_def updateConfig_def saveConfig_def Let_def
        split: sum.splits if_splits\<close>)
  then show "margin_inv (handleMarginRequest req db) \<and>
      row_of mp_id k (mg_positions (handleMarginRequest req db)) = Some p \<and> \<not> isLive p"
    using margin_requests.handle_guarded [OF ok inv] dead by simp
qed

section \<open>Interest once a day\<close>

definition accrualSkips :: "int \<Rightarrow> MarginPosition \<Rightarrow> margin_db \<Rightarrow> bool" where
  "accrualSkips day p db =
     (mp_borrowedAmount p \<le> 0 \<or> row_of pc_id (mp_pairConfigId p) (mg_configs db) = None \<or>
      hasAccrued (mp_id p) day db)"

lemma accrueOne_skips: "accrualSkips day p db \<Longrightarrow> accrueOne now day p db = db"
  by (auto simp: accrualSkips_def accrueOne_def split: option.split)

lemma accrueOne_step:
  "mg_configs (accrueOne now day p db) = mg_configs db"
  "hasAccrued i d db \<Longrightarrow> hasAccrued i d (accrueOne now day p db)"
  "accrualSkips day p (accrueOne now day p db)"
  by (auto simp: accrueOne_def accrueForPosition_def Let_def hasAccrued_def accrualSkips_def split: option.splits)

lemma accrualSkips_step: "accrualSkips day p db \<Longrightarrow> accrualSkips day p (accrueOne now day q db)"
  by (auto simp: accrualSkips_def accrueOne_step)

lemma accrualSkips_fold:
  "accrualSkips day p db \<Longrightarrow> accrualSkips day p (fold (accrueOne now day) xs db)"
  by (induction xs arbitrary: db) (simp_all add: accrualSkips_step)

lemma accrual_done:
  "x \<in> set xs \<Longrightarrow> accrualSkips day x (fold (accrueOne now day) xs db)"
proof (induction xs arbitrary: db)
  case Nil
  then show ?case by simp
next
  case (Cons y xs)
  then show ?case
    by (cases "x = y") (simp_all add: accrualSkips_fold accrueOne_step(3))
qed

text \<open>What an accrual never changes in a position.\<close>

definition sameLoan :: "MarginPosition \<Rightarrow> MarginPosition \<Rightarrow> bool" where
  "sameLoan p q = (mp_id p = mp_id q \<and> mp_borrowedAmount p = mp_borrowedAmount q \<and>
     mp_pairConfigId p = mp_pairConfigId q \<and> mp_status p = mp_status q)"

lemma accrueOne_rows:
  assumes "q \<in> set (mg_positions (accrueOne now day p db))" and "p \<in> S" and "set (mg_positions db) \<subseteq> T"
    and "\<forall>q\<in>T. \<exists>p\<in>S. sameLoan q p"
  shows "\<exists>p\<in>S. sameLoan q p"
  using assms
  by (auto simp: accrueOne_def accrueForPosition_def Let_def set_save_row sameLoan_def
      split: if_splits option.splits)

lemma accrual_fold_rows:
  assumes "set xs \<subseteq> S" and "\<forall>q\<in>set (mg_positions db). \<exists>p\<in>S. sameLoan q p"
  shows "\<forall>q\<in>set (mg_positions (fold (accrueOne now day) xs db)). \<exists>p\<in>S. sameLoan q p"
  using assms
proof (induction xs arbitrary: db)
  case Nil
  then show ?case by simp
next
  case (Cons x xs)
  have "\<forall>q\<in>set (mg_positions (accrueOne now day x db)). \<exists>p\<in>S. sameLoan q p"
    using accrueOne_rows [of _ now day x db S "set (mg_positions db)"] Cons.prems by auto
  then show ?case using Cons.IH Cons.prems(1) by simp
qed

lemma fold_id: "(\<And>x. x \<in> set xs \<Longrightarrow> f x s = s) \<Longrightarrow> fold f xs s = s"
  by (induction xs) auto

lemma accrual_idempotent:
  assumes "utcDay t2 = utcDay t1"
  shows "accrueDailyInterest t2 (accrueDailyInterest t1 db) = accrueDailyInterest t1 db"
proof -
  let ?day = "utcDay t1" and ?xs = "filter isLive (mg_positions db)"
  let ?db1 = "accrueDailyInterest t1 db"
  have skip: "accrualSkips ?day p ?db1" if "p \<in> set ?xs" for p
    unfolding accrueDailyInterest_def by (rule accrual_done [OF that])
  have rows: "\<forall>q\<in>set (mg_positions ?db1). \<exists>p\<in>set (mg_positions db). sameLoan q p"
    unfolding accrueDailyInterest_def by (rule accrual_fold_rows) (auto simp: sameLoan_def)
  have "accrueOne t2 ?day q ?db1 = ?db1" if "q \<in> set (filter isLive (mg_positions ?db1))" for q
  proof -
    obtain p where p: "p \<in> set (mg_positions db)" "sameLoan q p" using rows \<open>q \<in> _\<close> by auto
    then have "p \<in> set ?xs" using that by (auto simp: sameLoan_def isLive_def)
    then have "accrualSkips ?day q ?db1" using skip p(2) by (simp add: accrualSkips_def sameLoan_def)
    then show ?thesis by (rule accrueOne_skips)
  qed
  then show ?thesis using assms unfolding accrueDailyInterest_def [of t2] by (intro fold_id) simp
qed

section \<open>Properties of margin trading\<close>

definition ex_margin_balance :: UserBalance where
  "ex_margin_balance =
     \<lparr>b_id = 1, b_userId = 7, b_assetId = 2, b_balance = 1000, b_lockedBalance = 0,
      b_totalTrades = 0, b_cumulativePnL = 0, b_totalTradeVolume = 0, b_lastTradeDate = None,
      b_totalInvested = 0, b_averageBuyPrice = 0\<rparr>"

definition ex_margin_assets :: "real \<Rightarrow> VirtualAsset list" where
  "ex_margin_assets price =
     [\<lparr>va_id = 1, va_symbol = ''XLM'', va_name = ''Lumen'', va_price = price\<rparr>]"

definition ex_margin_db :: margin_db where
  "ex_margin_db =
     \<lparr>mg_configs = [], mg_positions = [], mg_accruals = [], mg_balances = [ex_margin_balance],
      mg_assets = ex_margin_assets 10, mg_events = [], mg_insurance = ex_insurance, mg_configSeq = 3\<rparr>"

definition ex_pair :: CreateMarginPairConfigDto where
  "ex_pair =
     \<lparr>cc_baseAssetId = 1, cc_quoteAssetId = 2, cc_maxLeverage = None, cc_initialMarginRate = None,
      cc_maintenanceMarginRate = None, cc_dailyInterestRateBps = None, cc_volatilityPct = Some 5,
      cc_volatilityLeverageFactor = None, cc_marginCallThresholdRatio = None, cc_isEnabled = None\<rparr>"

definition ex_open :: OpenMarginPositionDto where
  "ex_open =
     \<lparr>od_userId = 7, od_pairConfigId = 3, od_side = LONG, od_collateral = 100, od_leverage = 5,
      od_entryPrice = None\<rparr>"

definition ex_margin_requests :: "MarginRequest list" where
  "ex_margin_requests = [CreatePair ex_pair, OpenPosition 0 9 ex_open]"

definition ex_margin :: margin_db where
  "ex_margin = fold handleMarginRequest ex_margin_requests ex_margin_db"

lemma ex_margin_db_inv: "margin_inv ex_margin_db"
  by (simp add: margin_inv_def ex_margin_db_def keyed_def collateralIn_def lockedOf_def
      ex_margin_balance_def balanceKey_def)

lemma ex_margin_inv: "margin_inv ex_margin"
  unfolding ex_margin_def
  by (rule margin_requests.run_guarded [OF ex_margin_db_inv])
    (simp add: ex_margin_requests_def keepsQuote_def)

text \<open>
  C13. Open collateral stays locked. From a consistent database, after any sequence of pair
  configurations, openings, closings, liquidation sweeps, interest runs and price changes that
  does not move a configured pair to another quote asset, the collateral of all live positions of
  a user in a quote asset is at most that balance's locked amount.
\<close>

theorem collateral_stays_locked:
  assumes "margin_inv db" and "list_all keepsQuote reqs"
  shows "collateralIn u a (fold handleMarginRequest reqs db) \<le>
    lockedOf u a (mg_balances (fold handleMarginRequest reqs db))"
  using margin_requests.run_guarded [OF assms] by (simp add: margin_inv_def)

theorem collateral_stays_locked_witness:
  "collateralIn 7 2 ex_margin = 100 \<and> 100 \<le> lockedOf 7 2 (mg_balances ex_margin)"
proof -
  have "collateralIn 7 2 ex_margin = 100" by code_simp
  moreover have "list_all keepsQuote ex_margin_requests" by (simp add: ex_margin_requests_def keepsQuote_def)
  ultimately show ?thesis
    using collateral_stays_locked [OF ex_margin_db_inv, of ex_margin_requests 7 2] by (simp add: ex_margin_def)
qed

text \<open>
  C14. A liquidation settles exactly. Liquidating a live position whose collateral is covered by
  its owner's locked balance releases the collateral, leaves the owner with the positive part of
  the position's equity, and reports the negative part as the shortfall, so that the change of the
  balance is profit minus interest plus shortfall.
\<close>

theorem liquidation_settles_exactly:
  assumes "row_of mp_id (mp_id p) (mg_positions db) = Some p" and "isLive p"
    and "findBalance (mp_userId p) (pc_quoteAssetId cfg) (mg_balances db) = Some b"
    and "mp_collateral p \<le> b_lockedBalance b"
    and "liquidatePosition now p cfg price db = ((p', shortfall), db')"
  shows "\<exists>b'. findBalance (mp_userId p) (pc_quoteAssetId cfg) (mg_balances db') = Some b' \<and>
    availableBalance b' = availableBalance b + max 0 (positionEquity p price) \<and>
    b_lockedBalance b' = b_lockedBalance b - mp_collateral p \<and>
    b_balance b' = b_balance b + positionPnl p price - mp_accruedInterest p + shortfall \<and>
    shortfall = max 0 (- positionEquity p price) \<and>
    mp_status p' = LIQUIDATED \<and> row_of mp_id (mp_id p) (mg_positions db') = Some p'"
  using assms findBalance_key [OF assms(3)]
  by (auto simp: liquidatePosition_live settlePositionBalance_def Let_def balances.find_save
      balanceKey_def availableBalance_def positionEquity_def calculateEquity_def row_of_save
      max_def split: if_splits)

theorem liquidation_settles_exactly_witness:
  "\<exists>p cfg p' db' b'. liquidatePosition 50 p cfg 7 ex_margin = ((p', 50), db') \<and>
     findBalance 7 2 (mg_balances db') = Some b' \<and> availableBalance b' = 900 \<and> b_balance b' = 900"
proof -
  have "map mp_id (mg_positions ex_margin) = [9]" "map pc_id (mg_configs ex_margin) = [3]"
    "map balanceKey (mg_balances ex_margin) = [(7, 2)]"
    "map mp_status (mg_positions ex_margin) = [OPEN]" "map mp_collateral (mg_positions ex_margin) = [100]"
    "map mp_userId (mg_positions ex_margin) = [7]" "map mp_accruedInterest (mg_positions ex_margin) = [0]"
    "map (\<lambda>p. positionPnl p 7) (mg_positions ex_margin) = [- 150]"
    "map pc_quoteAssetId (mg_configs ex_margin) = [2]"
    "map b_balance (mg_balances ex_margin) = [1000]" "map b_lockedBalance (mg_balances ex_margin) = [100]"
    by code_simp+
  then obtain p cfg b where ex: "mg_positions ex_margin = [p]" "mg_configs ex_margin = [cfg]"
    "mg_balances ex_margin = [b]" "mp_id p = 9" "mp_status p = OPEN" "mp_collateral p = 100"
    "mp_userId p = 7" "mp_accruedInterest p = 0" "positionPnl p 7 = - 150" "pc_quoteAssetId cfg = 2"
    "b_balance b = 1000" "b_lockedBalance b = 100" "balanceKey b = (7, 2)"
    by (auto simp: map_eq_Cons_conv)
  obtain p' s db' where run: "liquidatePosition 50 p cfg 7 ex_margin = ((p', s), db')" by (metis prod.exhaust)
  have eq: "positionEquity p 7 = - 50" using ex by (simp add: positionEquity_def calculateEquity_def)
  have "\<exists>b'. findBalance 7 2 (mg_balances db') = Some b' \<and> availableBalance b' = 900 \<and>
      b_balance b' = 900 \<and> s = 50"
    using liquidation_settles_exactly [of p ex_margin cfg b 50 7 p' s db'] ex run eq
    by (auto simp: isLive_def availableBalance_def)
  with run show ?thesis by blast
qed

text \<open>
  The engine's decision. Evaluating a stored live position at a price leaves it LIQUIDATED
  when its equity is at most the maintenance requirement, in MARGIN_CALL when the margin ratio is
  above 1 and at most the configured threshold, and OPEN otherwise, whichever of the two live
  states it was in before.
\<close>

theorem evaluation_decides_status:
  assumes "row_of mp_id (mp_id p) (mg_positions db) = Some p" and "isLive p"
  shows "\<exists>p'. row_of mp_id (mp_id p) (mg_positions (evaluatePosition now p cfg price db)) = Some p' \<and>
    mp_status p' =
      (if mm_equity (metricsOf p cfg price) \<le> mm_maintenanceRequirement (metricsOf p cfg price)
       then LIQUIDATED
       else if shouldMarginCall (mm_marginRatio (metricsOf p cfg price)) (pc_marginCallThresholdRatio cfg)
       then MARGIN_CALL else OPEN)"
proof -
  let ?p1 = "marked p price" and ?db1 = "savePos (marked p price) db"
  have row1: "row_of mp_id (mp_id ?p1) (mg_positions ?db1) = Some ?p1" by (simp add: row_of_save)
  have live1: "isLive ?p1" using assms(2) by simp
  have st: "mp_status p = OPEN \<or> mp_status p = MARGIN_CALL" using assms(2) by (simp add: isLive_def)
  show ?thesis
    using st
    by (auto simp: evaluatePosition_eq shouldLiquidate_def liquidate_eq [OF row1 live1] Let_def
        triggerMarginCall_def row_of_save split: option.split)
qed

theorem evaluation_decides_status_witness:
  "\<exists>p cfg p'. row_of mp_id 9 (mg_positions (evaluatePosition 50 p cfg 7 ex_margin)) = Some p' \<and>
     mp_status p' = LIQUIDATED"
proof -
  have "map mp_id (mg_positions ex_margin) = [9]" "map mp_status (mg_positions ex_margin) = [OPEN]"
    "map (\<lambda>p. map (\<lambda>c. mm_equity (metricsOf p c 7) \<le> mm_maintenanceRequirement (metricsOf p c 7))
       (mg_configs ex_margin)) (mg_positions ex_margin) = [[True]]"
    by code_simp+
  then obtain p cfg where ex: "mg_positions ex_margin = [p]" "mp_id p = 9" "mp_status p = OPEN"
    "mm_equity (metricsOf p cfg 7) \<le> mm_maintenanceRequirement (metricsOf p cfg 7)"
    by (auto simp: map_eq_Cons_conv)
  then show ?thesis
    using evaluation_decides_status [of p ex_margin 50 cfg 7] by (auto simp: isLive_def)
qed

text \<open>
  Finished positions stay finished. A stored position that is CLOSED or LIQUIDATED is not
  changed in any column by any later sequence of requests (handled one after the other, no pair
  moved to another quote asset).
\<close>

theorem finished_positions_stay_finished:
  assumes "margin_inv db" and "list_all keepsQuote reqs"
    and "row_of mp_id k (mg_positions db) = Some p" and "\<not> isLive p"
  shows "row_of mp_id k (mg_positions (fold handleMarginRequest reqs db)) = Some p"
  using finished.run_guarded [of db k p reqs] assms by simp

definition ex_closed :: margin_db where
  "ex_closed = handleMarginRequest (ClosePosition 10 9 11) ex_margin"

lemma ex_closed_inv: "margin_inv ex_closed"
  unfolding ex_closed_def
  using margin_requests.handle_guarded [OF _ ex_margin_inv, of "ClosePosition 10 9 11"]
  by (simp add: keepsQuote_def)

theorem finished_positions_stay_finished_witness:
  "\<exists>p. row_of mp_id 9 (mg_positions (fold handleMarginRequest
        [PriceTick (ex_margin_assets 1), MonitorPositions 20, ClosePosition 30 9 50] ex_closed)) = Some p \<and>
     mp_status p = CLOSED"
proof -
  have "map mp_id (mg_positions ex_closed) = [9]" "map mp_status (mg_positions ex_closed) = [CLOSED]"
    by code_simp+
  then obtain p where p: "row_of mp_id 9 (mg_positions ex_closed) = Some p" "mp_status p = CLOSED" by auto
  then show ?thesis
    using finished_positions_stay_finished [OF ex_closed_inv _ p(1),
        of "[PriceTick (ex_margin_assets 1), MonitorPositions 20, ClosePosition 30 9 50]"]
    by (simp add: keepsQuote_def isLive_def)
qed

text \<open>
  A sweep can reopen a closed position. The sweep works on the rows it read at its start and
  saves them back whole. When a position is closed in between and the evaluation of its stale row
  does not liquidate it, the row ends up live again with its full collateral, and closing it a
  second time succeeds and settles the same position again.
\<close>

theorem stale_sweep_reopens_closed_position:
  assumes "row_of mp_id (mp_id p) (mg_positions db) = Some p" and "isLive p"
    and "closePosition t1 (mp_id p) closePrice db = Inr (closedRow, db1)"
    and "row_of pc_id (mp_pairConfigId p) (mg_configs db) = Some cfg"
    and "\<not> shouldLiquidate (mm_equity (metricsOf p cfg price)) (mm_maintenanceRequirement (metricsOf p cfg price))"
  shows "\<exists>q. row_of mp_id (mp_id p) (mg_positions (evaluatePosition t2 p cfg price db1)) = Some q \<and>
    isLive q \<and> mp_collateral q = mp_collateral p \<and>
    (\<exists>r. closePosition t3 (mp_id p) closePrice (evaluatePosition t2 p cfg price db1) = Inr r)"
proof -
  let ?db2 = "evaluatePosition t2 p cfg price db1"
  have st: "mp_status p = OPEN \<or> mp_status p = MARGIN_CALL" using assms(2) by (simp add: isLive_def)
  have "\<exists>q. row_of mp_id (mp_id p) (mg_positions ?db2) = Some q \<and> isLive q \<and>
      mp_collateral q = mp_collateral p \<and> mp_pairConfigId q = mp_pairConfigId p"
    using assms(5) st
    by (auto simp: evaluatePosition_eq Let_def triggerMarginCall_def row_of_save isLive_def split: option.split)
  then obtain q where q: "row_of mp_id (mp_id p) (mg_positions ?db2) = Some q" "isLive q"
    "mp_collateral q = mp_collateral p" "mp_pairConfigId q = mp_pairConfigId p" by blast
  have "mg_configs db1 = mg_configs db" using assms(3) by (auto elim!: closePosition_Inr)
  then have "row_of pc_id (mp_pairConfigId q) (mg_configs ?db2) = Some cfg"
    using assms(4) q(4) by (simp add: evaluatePosition_configs)
  then show ?thesis using q by (simp add: closePosition_def Let_def)
qed

theorem stale_sweep_reopens_closed_position_witness:
  "\<exists>p cfg q. row_of mp_id 9 (mg_positions ex_margin) = Some p \<and>
     row_of mp_id 9 (mg_positions (evaluatePosition 20 p cfg 11 ex_closed)) = Some q \<and> isLive q"
proof -
  have "map mp_id (mg_positions ex_margin) = [9]" "map mp_status (mg_positions ex_margin) = [OPEN]"
    "map mp_pairConfigId (mg_positions ex_margin) = [3]" "map pc_id (mg_configs ex_margin) = [3]"
    "map (\<lambda>p. map (\<lambda>c. shouldLiquidate (mm_equity (metricsOf p c 11))
       (mm_maintenanceRequirement (metricsOf p c 11))) (mg_configs ex_margin)) (mg_positions ex_margin) = [[False]]"
    by code_simp+
  then obtain p cfg where ex: "mg_positions ex_margin = [p]" "mp_id p = 9" "mp_status p = OPEN"
    "mg_configs ex_margin = [cfg]" "pc_id cfg = 3" "mp_pairConfigId p = 3"
    "\<not> shouldLiquidate (mm_equity (metricsOf p cfg 11)) (mm_maintenanceRequirement (metricsOf p cfg 11))"
    by (auto simp: map_eq_Cons_conv)
  have "\<not> isl (closePosition 10 9 11 ex_margin)" by code_simp
  then obtain c db1 where run: "closePosition 10 9 11 ex_margin = Inr (c, db1)"
    by (cases "closePosition 10 9 11 ex_margin") auto
  then have "db1 = ex_closed" by (simp add: ex_closed_def commit_def)
  moreover have "\<exists>q. row_of mp_id 9 (mg_positions (evaluatePosition 20 p cfg 11 db1)) = Some q \<and> isLive q"
    using stale_sweep_reopens_closed_position [of p ex_margin 10 11 c db1 cfg 11 20 30] ex run
    by (auto simp: isLive_def)
  ultimately show ?thesis using ex(1,2) by auto
qed

text \<open>
  The closing price is the caller's choice. \<open>closePosition\<close> settles at the price in the
  request body: for a live position of positive size there is, for every amount, a price at which
  closing succeeds and changes the owner's balance by exactly that amount.
\<close>

theorem close_price_is_callers_choice:
  assumes "row_of mp_id i (mg_positions db) = Some p" and "isLive p" and "0 < mp_size p"
    and "row_of pc_id (mp_pairConfigId p) (mg_configs db) = Some cfg"
    and "findBalance (mp_userId p) (pc_quoteAssetId cfg) (mg_balances db) = Some b"
  shows "\<exists>price p' db' b'. closePosition now i price db = Inr (p', db') \<and>
    findBalance (mp_userId p) (pc_quoteAssetId cfg) (mg_balances db') = Some b' \<and>
    b_balance b' = b_balance b + gain"
proof -
  define price where "price = (if mp_side p = LONG then mp_entryPrice p + (gain + mp_accruedInterest p) / mp_size p
    else mp_entryPrice p - (gain + mp_accruedInterest p) / mp_size p)"
  have "positionEquity p price - mp_collateral p = gain"
    using assms(3) by (cases "mp_side p")
      (simp_all add: price_def positionEquity_def positionPnl_def calculateEquity_def calculateUnrealizedPnl_def)
  then show ?thesis
    using assms findBalance_key [OF assms(5)]
    by (intro exI [where x = price])
      (auto simp: closePosition_def Let_def settlePositionBalance_def balances.find_save balanceKey_def)
qed

theorem close_price_is_callers_choice_witness:
  "\<exists>price p' db' b'. closePosition 10 9 price ex_margin = Inr (p', db') \<and>
     findBalance 7 2 (mg_balances db') = Some b' \<and> b_balance b' = 1001000"
proof -
  have "map mp_id (mg_positions ex_margin) = [9]" "map pc_id (mg_configs ex_margin) = [3]"
    "map balanceKey (mg_balances ex_margin) = [(7, 2)]" "map mp_pairConfigId (mg_positions ex_margin) = [3]"
    "map mp_status (mg_positions ex_margin) = [OPEN]" "map mp_size (mg_positions ex_margin) = [50]"
    "map mp_userId (mg_positions ex_margin) = [7]" "map pc_quoteAssetId (mg_configs ex_margin) = [2]"
    "map b_balance (mg_balances ex_margin) = [1000]"
    by code_simp+
  then obtain p cfg b where ex: "mg_positions ex_margin = [p]" "mg_configs ex_margin = [cfg]"
    "mg_balances ex_margin = [b]" "mp_id p = 9" "mp_status p = OPEN" "mp_size p = 50" "mp_userId p = 7"
    "mp_pairConfigId p = 3" "pc_id cfg = 3" "pc_quoteAssetId cfg = 2" "b_balance b = 1000" "balanceKey b = (7, 2)"
    by (auto simp: map_eq_Cons_conv)
  then show ?thesis
    using close_price_is_callers_choice [of 9 ex_margin p cfg b 10 1000000] by (auto simp: isLive_def)
qed

text \<open>
  Interest is charged once a day. Running the daily accrual again on the same UTC day, at
  whatever time and however often it is triggered, changes nothing: no position is charged twice
  and no accrual row is added.
\<close>

theorem interest_is_charged_once_a_day:
  assumes "utcDay t2 = utcDay t1"
  shows "accrueDailyInterest t2 (accrueDailyInterest t1 db) = accrueDailyInterest t1 db"
  by (rule accrual_idempotent [OF assms])

theorem interest_is_charged_once_a_day_witness:
  "accrueDailyInterest 5000 (accrueDailyInterest 1 ex_margin) = accrueDailyInterest 1 ex_margin \<and>
   map mp_accruedInterest (mg_positions (accrueDailyInterest 1 ex_margin)) = [4 / 10]"
proof -
  have "map mp_accruedInterest (mg_positions (accrueDailyInterest 1 ex_margin)) = [4 / 10]" by code_simp
  with interest_is_charged_once_a_day [of 5000 1 ex_margin] show ?thesis by (simp add: utcDay_def)
qed

end
