(* ===== verification/Resilience.thy ===== *)
theory Resilience
  imports Prelude "HOL-Library.AList"
begin

text \<open>
  The two guards every call to an outside service goes through:
  \<open>common/services/circuit-breaker.service.ts\<close> and \<open>common/services/bulkhead.service.ts\<close>.

  An asynchronous function is a function of its arguments and of the world it acts on, which
  returns a result or an exception and the world it leaves.  The breaker object itself comes from
  the package \<open>opossum\<close>, the limiter inside a bulkhead from \<open>p-limit\<close>; both are parameters.
  \<open>opossum_ok\<close> states what the first documents: a breaker runs the action it was constructed
  with, or rejects, before or after the action ran (a time-out does not stop the action).
  \<open>limiter_ok\<close> states what the second does: a task starts only while fewer than
  \<open>concurrency\<close> tasks are active.

  JavaScript \<open>Map\<close> objects keep insertion order and are association lists.
\<close>

section \<open>Circuit breakers\<close>

datatype CircuitState = CLOSED | OPEN | HALF_OPEN

record CircuitBreakerMetrics =
  cm_name :: string
  cm_state :: CircuitState
  cm_successCount :: nat
  cm_failureCount :: nat
  cm_failurePercentage :: real
  cm_totalRequests :: nat
  cm_consecutiveFailures :: nat
  cm_consecutiveSuccesses :: nat
  cm_lastFailureTime :: "timestamp option"
  cm_lastSuccessTime :: "timestamp option"
  cm_openedAt :: "timestamp option"

text \<open>The fallback is a function of the caller; no code ever calls it, so its type is free.\<close>

record 'f CircuitBreakerOptions =
  co_name :: string
  co_timeout :: "nat option"
  co_errorThresholdPercentage :: "nat option"
  co_volumeThreshold :: "nat option"
  co_rollingCountTimeout :: "nat option"
  co_rollingCountBuckets :: "nat option"
  co_fallback :: "'f option"
  co_healthCheckInterval :: "nat option"

record OpossumOptions =
  oo_timeout :: nat
  oo_errorThresholdPercentage :: nat
  oo_volumeThreshold :: nat
  oo_rollingCountTimeout :: nat
  oo_rollingCountBuckets :: nat
  oo_name :: string

type_synonym ('x, 'w, 'v) asyncFn = "'x list \<Rightarrow> 'w \<Rightarrow> 'v result \<times> 'w"

datatype BreakerEvent = OpenEvent | HalfOpenEvent | CloseEvent

text \<open>The interface of the package, over its own breaker objects \<open>'b\<close>.\<close>

record ('b, 'x, 'w, 'v) opossum =
  op_new :: "('x, 'w, 'v) asyncFn \<Rightarrow> OpossumOptions \<Rightarrow> 'b"
  op_fire :: "'b \<Rightarrow> 'x list \<Rightarrow> 'w \<Rightarrow> ('v result \<times> 'w) \<times> 'b \<times> BreakerEvent list"
  op_close :: "'b \<Rightarrow> 'b \<times> BreakerEvent list"
  op_opened :: "'b \<Rightarrow> bool"
  op_halfOpen :: "'b \<Rightarrow> bool"

definition fires :: "('x, 'w, 'v) asyncFn \<Rightarrow> 'x list \<Rightarrow> 'w \<Rightarrow> 'v result \<times> 'w \<Rightarrow> bool" where
  "fires act args w out \<longleftrightarrow>
     out = act args w \<or> (\<exists>e. out = (Inl e, w)) \<or> (\<exists>e. out = (Inl e, snd (act args w)))"

definition opossum_ok ::
  "('b, 'x, 'w, 'v) opossum \<Rightarrow> ('b \<Rightarrow> ('x, 'w, 'v) asyncFn) \<Rightarrow> bool" where
  "opossum_ok lib actionOf \<longleftrightarrow>
     (\<forall>f opts. actionOf (op_new lib f opts) = f) \<and>
     (\<forall>b. actionOf (fst (op_close lib b)) = actionOf b) \<and>
     (\<forall>b args w. fires (actionOf b) args w (fst (op_fire lib b args w)) \<and>
        actionOf (fst (snd (op_fire lib b args w))) = actionOf b)"

record 'b CircuitBreakerService =
  cs_breakers :: "(string \<times> 'b) list"
  cs_metrics :: "(string \<times> CircuitBreakerMetrics) list"

definition createEmptyMetrics :: "string \<Rightarrow> CircuitBreakerMetrics" where
  "createEmptyMetrics name =
     \<lparr>cm_name = name, cm_state = CLOSED, cm_successCount = 0, cm_failureCount = 0,
      cm_failurePercentage = 0, cm_totalRequests = 0, cm_consecutiveFailures = 0,
      cm_consecutiveSuccesses = 0, cm_lastFailureTime = None, cm_lastSuccessTime = None,
      cm_openedAt = None\<rparr>"

definition initializeMetrics ::
  "string \<Rightarrow> (string \<times> CircuitBreakerMetrics) list \<Rightarrow> (string \<times> CircuitBreakerMetrics) list" where
  "initializeMetrics name ms =
     (case map_of ms name of
        Some m \<Rightarrow> AList.update name
          (m\<lparr>cm_successCount := 0, cm_failureCount := 0, cm_consecutiveFailures := 0,
             cm_consecutiveSuccesses := 0, cm_openedAt := None\<rparr>) ms
      | None \<Rightarrow> AList.update name (createEmptyMetrics name) ms)"

fun orElse :: "'a option \<Rightarrow> 'a \<Rightarrow> 'a" where
  "orElse (Some x) d = x"
| "orElse None d = d"

definition opossumOptions :: "'f CircuitBreakerOptions \<Rightarrow> OpossumOptions" where
  "opossumOptions options =
     \<lparr>oo_timeout = orElse (co_timeout options) 30000,
      oo_errorThresholdPercentage = orElse (co_errorThresholdPercentage options) 50,
      oo_volumeThreshold = orElse (co_volumeThreshold options) 10,
      oo_rollingCountTimeout = orElse (co_rollingCountTimeout options) 60000,
      oo_rollingCountBuckets = orElse (co_rollingCountBuckets options) 10,
      oo_name = co_name options\<rparr>"

text \<open>\<open>register\<close>; it returns its argument, so only its effect is kept.\<close>

definition registerBreaker ::
  "('b, 'x, 'w, 'v) opossum \<Rightarrow> ('x, 'w, 'v) asyncFn \<Rightarrow> 'f CircuitBreakerOptions \<Rightarrow>
     'b CircuitBreakerService \<Rightarrow> 'b CircuitBreakerService" where
  "registerBreaker lib fn options svc =
     (let name = co_name options
      in if map_of (cs_breakers svc) name \<noteq> None then svc
         else svc\<lparr>cs_metrics := initializeMetrics name (cs_metrics svc),
                  cs_breakers := AList.update name (op_new lib fn (opossumOptions options))
                    (cs_breakers svc)\<rparr>)"

text \<open>The handlers of \<open>setupBreakersEventHandlers\<close>.\<close>

fun onBreakerEvent ::
  "timestamp \<Rightarrow> string \<Rightarrow> BreakerEvent \<Rightarrow> (string \<times> CircuitBreakerMetrics) list \<Rightarrow>
     (string \<times> CircuitBreakerMetrics) list" where
  "onBreakerEvent now name OpenEvent ms =
     (case map_of ms name of
        Some m \<Rightarrow> AList.update name (m\<lparr>cm_openedAt := Some now\<rparr>) ms | None \<Rightarrow> ms)"
| "onBreakerEvent now name HalfOpenEvent ms = ms"
| "onBreakerEvent now name CloseEvent ms =
     (case map_of ms name of
        Some m \<Rightarrow> AList.update name (m\<lparr>cm_openedAt := None\<rparr>) ms | None \<Rightarrow> ms)"

definition updateBreaker ::
  "timestamp \<Rightarrow> string \<Rightarrow> 'b \<times> BreakerEvent list \<Rightarrow> 'b CircuitBreakerService \<Rightarrow>
     'b CircuitBreakerService" where
  "updateBreaker now name out svc =
     svc\<lparr>cs_breakers := AList.update name (fst out) (cs_breakers svc),
         cs_metrics := fold (onBreakerEvent now name) (snd out) (cs_metrics svc)\<rparr>"

definition execute ::
  "('b, 'x, 'w, 'v) opossum \<Rightarrow> timestamp \<Rightarrow> string \<Rightarrow> ('x, 'w, 'v) asyncFn \<Rightarrow> 'x list \<Rightarrow>
     'b CircuitBreakerService \<Rightarrow> 'w \<Rightarrow> ('v result \<times> 'w) \<times> 'b CircuitBreakerService" where
  "execute lib now name fn args svc w =
     (case map_of (cs_breakers svc) name of
        None \<Rightarrow> (fn args w, svc)
      | Some breaker \<Rightarrow>
          (case op_fire lib breaker args w of
             (out, rest) \<Rightarrow> (out, updateBreaker now name rest svc)))"

definition getState :: "('b, 'x, 'w, 'v) opossum \<Rightarrow> string \<Rightarrow> 'b CircuitBreakerService \<Rightarrow> CircuitState" where
  "getState lib name svc =
     (case map_of (cs_breakers svc) name of
        None \<Rightarrow> CLOSED
      | Some breaker \<Rightarrow>
          if op_opened lib breaker then OPEN
          else if op_halfOpen lib breaker then HALF_OPEN else CLOSED)"

definition getBreakerMetrics :: "string \<Rightarrow> 'b CircuitBreakerService \<Rightarrow> CircuitBreakerMetrics" where
  "getBreakerMetrics name svc = orElse (map_of (cs_metrics svc) name) (createEmptyMetrics name)"

definition getAllBreakerMetrics :: "'b CircuitBreakerService \<Rightarrow> CircuitBreakerMetrics list" where
  "getAllBreakerMetrics svc = map snd (cs_metrics svc)"

definition resetBreaker ::
  "('b, 'x, 'w, 'v) opossum \<Rightarrow> timestamp \<Rightarrow> string \<Rightarrow> 'b CircuitBreakerService \<Rightarrow> 'b CircuitBreakerService" where
  "resetBreaker lib now name svc =
     (case map_of (cs_breakers svc) name of
        None \<Rightarrow> svc
      | Some breaker \<Rightarrow>
          let svc' = updateBreaker now name (op_close lib breaker) svc
          in svc'\<lparr>cs_metrics := initializeMetrics name (cs_metrics svc')\<rparr>)"

definition resetAll ::
  "('b, 'x, 'w, 'v) opossum \<Rightarrow> timestamp \<Rightarrow> 'b CircuitBreakerService \<Rightarrow> 'b CircuitBreakerService" where
  "resetAll lib now svc = fold (resetBreaker lib now) (map fst (cs_breakers svc)) svc"

text \<open>
  The service under any sequence of calls; the executed functions and their world are the
  same for all calls of a run.
\<close>

datatype ('x, 'w, 'v, 'f) breaker_request =
    Register "('x, 'w, 'v) asyncFn" "'f CircuitBreakerOptions"
  | Execute timestamp string "('x, 'w, 'v) asyncFn" "'x list"
  | Reset timestamp string
  | ResetAll timestamp

fun breakerRequest ::
  "('b, 'x, 'w, 'v) opossum \<Rightarrow> ('x, 'w, 'v, 'f) breaker_request \<Rightarrow>
     'b CircuitBreakerService \<times> 'w \<Rightarrow> 'b CircuitBreakerService \<times> 'w" where
  "breakerRequest lib (Register fn options) (svc, w) = (registerBreaker lib fn options svc, w)"
| "breakerRequest lib (Execute now name fn args) (svc, w) =
     (case execute lib now name fn args svc w of ((r, w'), svc') \<Rightarrow> (svc', w'))"
| "breakerRequest lib (Reset now name) (svc, w) = (resetBreaker lib now name svc, w)"
| "breakerRequest lib (ResetAll now) (svc, w) = (resetAll lib now svc, w)"

definition freshBreakers :: "'b CircuitBreakerService" where
  "freshBreakers = \<lparr>cs_breakers = [], cs_metrics = []\<rparr>"

section \<open>Bulkheads\<close>

record BulkheadConfig =
  bc_name :: string
  bc_maxConcurrent :: nat
  bc_maxQueueSize :: "nat option"
  bc_timeout :: "nat option"

text \<open>The counters are integers: a reset below running tasks takes them under zero.\<close>

record BulkheadMetrics =
  bm_name :: string
  bm_maxConcurrent :: nat
  bm_currentConcurrent :: int
  bm_queuedRequests :: int
  bm_totalRequests :: int
  bm_totalRejected :: int
  bm_totalSuccessful :: int
  bm_totalFailed :: int

record BulkheadService =
  bs_bulkheads :: "(string \<times> BulkheadConfig) list"
  bs_metrics :: "(string \<times> BulkheadMetrics) list"

definition emptyBulkheadMetrics :: "BulkheadConfig \<Rightarrow> BulkheadMetrics" where
  "emptyBulkheadMetrics config =
     \<lparr>bm_name = bc_name config, bm_maxConcurrent = bc_maxConcurrent config,
      bm_currentConcurrent = 0, bm_queuedRequests = 0, bm_totalRequests = 0,
      bm_totalRejected = 0, bm_totalSuccessful = 0, bm_totalFailed = 0\<rparr>"

definition createBulkhead :: "BulkheadConfig \<Rightarrow> BulkheadService \<Rightarrow> BulkheadService" where
  "createBulkhead config svc =
     (if map_of (bs_bulkheads svc) (bc_name config) \<noteq> None then svc
      else svc\<lparr>bs_bulkheads := AList.update (bc_name config) config (bs_bulkheads svc),
               bs_metrics := AList.update (bc_name config) (emptyBulkheadMetrics config)
                 (bs_metrics svc)\<rparr>)"

text \<open>What the phases of \<open>execute\<close> do to the counters.\<close>

definition enqueueTask :: "BulkheadMetrics \<Rightarrow> BulkheadMetrics" where
  "enqueueTask m = m\<lparr>bm_totalRequests := bm_totalRequests m + 1,
                     bm_queuedRequests := bm_queuedRequests m + 1\<rparr>"

definition startTask :: "BulkheadMetrics \<Rightarrow> BulkheadMetrics" where
  "startTask m = m\<lparr>bm_queuedRequests := bm_queuedRequests m - 1,
                   bm_currentConcurrent := bm_currentConcurrent m + 1\<rparr>"

definition succeedTask :: "BulkheadMetrics \<Rightarrow> BulkheadMetrics" where
  "succeedTask m = m\<lparr>bm_totalSuccessful := bm_totalSuccessful m + 1,
                     bm_currentConcurrent := bm_currentConcurrent m - 1\<rparr>"

definition failTask :: "BulkheadMetrics \<Rightarrow> BulkheadMetrics" where
  "failTask m = m\<lparr>bm_totalFailed := bm_totalFailed m + 1,
                  bm_currentConcurrent := bm_currentConcurrent m - 1,
                  bm_totalRejected := bm_totalRejected m + 1\<rparr>"

text \<open>\<open>createTimeoutPromise\<close>: whether the promise can ever reject.\<close>

definition canTimeOut :: "BulkheadConfig \<Rightarrow> bool" where
  "canTimeOut config = (case bc_timeout config of None \<Rightarrow> False | Some ms \<Rightarrow> ms \<noteq> 0)"

text \<open>
  One whole \<open>execute\<close>, seen by its caller.  \<open>timedOut\<close> says which promise won the race: the
  function still ran, but its result is replaced by the time-out.
\<close>

definition raceTimeout :: "bool \<Rightarrow> BulkheadConfig \<Rightarrow> 'v result \<Rightarrow> 'v result" where
  "raceTimeout timedOut config r =
     (if timedOut \<and> canTimeOut config then Inl (JsError ''Bulkhead operation timed out'') else r)"

definition settleTask :: "'v result \<Rightarrow> BulkheadMetrics \<Rightarrow> BulkheadMetrics" where
  "settleTask r m = (case r of Inl e \<Rightarrow> failTask m | Inr v \<Rightarrow> succeedTask m)"

definition executeIn ::
  "string \<Rightarrow> bool \<Rightarrow> ('w \<Rightarrow> 'v result \<times> 'w) \<Rightarrow> BulkheadService \<Rightarrow> 'w \<Rightarrow>
     ('v result \<times> 'w) \<times> BulkheadService" where
  "executeIn bulkheadName timedOut fn svc w =
     (case (map_of (bs_bulkheads svc) bulkheadName, map_of (bs_metrics svc) bulkheadName) of
        (Some config, Some metrics) \<Rightarrow>
          (case fn w of (r, w') \<Rightarrow>
             let r' = raceTimeout timedOut config r
             in ((r', w'), svc\<lparr>bs_metrics := AList.update bulkheadName
                   (settleTask r' (startTask (enqueueTask metrics))) (bs_metrics svc)\<rparr>))
      | (Some config, None) \<Rightarrow> ((Inl (JsError ''metrics is undefined''), w), svc)
      | (None, _) \<Rightarrow> (fn w, svc))"

definition getBulkheadMetrics :: "string \<Rightarrow> BulkheadService \<Rightarrow> BulkheadMetrics option" where
  "getBulkheadMetrics bulkheadName svc = map_of (bs_metrics svc) bulkheadName"

definition getAllBulkheadMetrics :: "BulkheadService \<Rightarrow> BulkheadMetrics list" where
  "getAllBulkheadMetrics svc = map snd (bs_metrics svc)"

definition getBulkheadNames :: "BulkheadService \<Rightarrow> string list" where
  "getBulkheadNames svc = map fst (bs_bulkheads svc)"

definition zeroMetrics :: "BulkheadMetrics \<Rightarrow> BulkheadMetrics" where
  "zeroMetrics m = m\<lparr>bm_currentConcurrent := 0, bm_queuedRequests := 0, bm_totalRequests := 0,
     bm_totalRejected := 0, bm_totalSuccessful := 0, bm_totalFailed := 0\<rparr>"

definition resetMetrics :: "string \<Rightarrow> BulkheadService \<Rightarrow> BulkheadService" where
  "resetMetrics bulkheadName svc =
     (case map_of (bs_metrics svc) bulkheadName of
        None \<Rightarrow> svc
      | Some m \<Rightarrow> svc\<lparr>bs_metrics := AList.update bulkheadName (zeroMetrics m) (bs_metrics svc)\<rparr>)"

definition removeBulkhead :: "string \<Rightarrow> BulkheadService \<Rightarrow> BulkheadService" where
  "removeBulkhead bulkheadName svc =
     svc\<lparr>bs_bulkheads := AList.delete bulkheadName (bs_bulkheads svc),
         bs_metrics := AList.delete bulkheadName (bs_metrics svc)\<rparr>"

text \<open>
  One bulkhead with many callers.  A task waits for the limiter, then occupies a slot until the
  race between its function and the time-out is decided.  A function that lost the race goes on
  without a slot: it is abandoned, not stopped.
\<close>

record bulkhead_run =
  br_config :: BulkheadConfig
  br_metrics :: BulkheadMetrics
  br_waiting :: nat
  br_slots :: nat
  br_abandoned :: nat

definition limiter_ok :: "(nat \<Rightarrow> nat \<Rightarrow> bool) \<Rightarrow> bool" where
  "limiter_ok admits \<longleftrightarrow> (\<forall>active concurrency. admits active concurrency \<longrightarrow> active < concurrency)"

inductive bulkhead_step :: "(nat \<Rightarrow> nat \<Rightarrow> bool) \<Rightarrow> bulkhead_run \<Rightarrow> bulkhead_run \<Rightarrow> bool"
  for admits :: "nat \<Rightarrow> nat \<Rightarrow> bool"
where
  submit: "bulkhead_step admits s
     (s\<lparr>br_metrics := enqueueTask (br_metrics s), br_waiting := br_waiting s + 1\<rparr>)"
| start: "0 < br_waiting s \<Longrightarrow> admits (br_slots s) (bc_maxConcurrent (br_config s)) \<Longrightarrow>
     bulkhead_step admits s
       (s\<lparr>br_metrics := startTask (br_metrics s), br_waiting := br_waiting s - 1,
          br_slots := br_slots s + 1\<rparr>)"
| succeed: "0 < br_slots s \<Longrightarrow>
     bulkhead_step admits s
       (s\<lparr>br_metrics := succeedTask (br_metrics s), br_slots := br_slots s - 1\<rparr>)"
| fail: "0 < br_slots s \<Longrightarrow>
     bulkhead_step admits s
       (s\<lparr>br_metrics := failTask (br_metrics s), br_slots := br_slots s - 1\<rparr>)"
| timeout: "0 < br_slots s \<Longrightarrow> canTimeOut (br_config s) \<Longrightarrow>
     bulkhead_step admits s
       (s\<lparr>br_metrics := failTask (br_metrics s), br_slots := br_slots s - 1,
          br_abandoned := br_abandoned s + 1\<rparr>)"
| abandoned_ends: "0 < br_abandoned s \<Longrightarrow>
     bulkhead_step admits s (s\<lparr>br_abandoned := br_abandoned s - 1\<rparr>)"

definition idleBulkhead :: "BulkheadConfig \<Rightarrow> bulkhead_run" where
  "idleBulkhead config =
     \<lparr>br_config = config, br_metrics = emptyBulkheadMetrics config, br_waiting = 0,
      br_slots = 0, br_abandoned = 0\<rparr>"

text \<open>The functions at work: in a slot or abandoned.\<close>

definition working :: "bulkhead_run \<Rightarrow> nat" where
  "working s = br_slots s + br_abandoned s"

lemmas task_defs = enqueueTask_def startTask_def succeedTask_def failTask_def

section \<open>What the breaker guarantees\<close>

text \<open>Every stored counter is the initial one; only the time of opening changes.\<close>

definition uncounted :: "string \<times> CircuitBreakerMetrics \<Rightarrow> bool" where
  "uncounted entry \<longleftrightarrow> (snd entry)\<lparr>cm_openedAt := None\<rparr> = createEmptyMetrics (fst entry)"

definition breakers_inv :: "'b CircuitBreakerService \<Rightarrow> bool" where
  "breakers_inv svc \<longleftrightarrow> list_all uncounted (cs_metrics svc)"

lemma list_all_alist_update:
  "list_all P xs \<Longrightarrow> P (k, v) \<Longrightarrow> list_all P (AList.update k v xs)"
  by (induction xs) auto

lemma uncounted_lookup: "list_all uncounted ms \<Longrightarrow> map_of ms n = Some m \<Longrightarrow> uncounted (n, m)"
  by (auto simp: list_all_iff dest: map_of_SomeD)

lemma initializeMetrics_uncounted:
  assumes "list_all uncounted ms"
  shows "list_all uncounted (initializeMetrics name ms)"
proof (cases "map_of ms name")
  case None
  then show ?thesis
    using assms by (simp add: initializeMetrics_def list_all_alist_update uncounted_def
        createEmptyMetrics_def)
next
  case (Some m)
  with assms have "uncounted (name, m)" by (rule uncounted_lookup)
  with Some assms show ?thesis
    by (cases m) (auto simp: initializeMetrics_def uncounted_def createEmptyMetrics_def
        intro!: list_all_alist_update)
qed

lemma onBreakerEvent_uncounted:
  assumes "list_all uncounted ms"
  shows "list_all uncounted (onBreakerEvent now name ev ms)"
  using assms uncounted_lookup [OF assms, of name]
  by (cases ev) (auto simp: uncounted_def createEmptyMetrics_def intro!: list_all_alist_update
      split: option.splits)

lemma fold_onBreakerEvent_uncounted:
  "list_all uncounted ms \<Longrightarrow> list_all uncounted (fold (onBreakerEvent now name) evs ms)"
  by (induction evs arbitrary: ms) (simp_all add: onBreakerEvent_uncounted)

lemma updateBreaker_inv: "breakers_inv svc \<Longrightarrow> breakers_inv (updateBreaker now name out svc)"
  by (simp add: breakers_inv_def updateBreaker_def fold_onBreakerEvent_uncounted)

lemma resetBreaker_inv: "breakers_inv svc \<Longrightarrow> breakers_inv (resetBreaker lib now name svc)"
  using updateBreaker_inv [of svc now name]
  by (auto simp: resetBreaker_def Let_def breakers_inv_def initializeMetrics_uncounted
      split: option.splits)

lemma fold_resetBreaker_inv:
  "breakers_inv svc \<Longrightarrow> breakers_inv (fold (resetBreaker lib now) names svc)"
  by (induction names arbitrary: svc) (simp_all add: resetBreaker_inv)

lemma execute_inv:
  "breakers_inv svc \<Longrightarrow> breakers_inv (snd (execute lib now name fn args svc w))"
  by (auto simp: execute_def updateBreaker_inv split: option.splits prod.splits)

lemma breakerRequest_inv:
  assumes inv: "breakers_inv (fst s)"
  shows "breakers_inv (fst (breakerRequest lib e s))"
proof (cases e)
  case (Register fn options)
  with inv show ?thesis
    by (cases s) (simp add: registerBreaker_def Let_def breakers_inv_def initializeMetrics_uncounted)
next
  case (Execute now name fn args)
  with inv execute_inv [of "fst s" lib now name fn args "snd s"] show ?thesis
    by (cases s) (auto split: prod.splits)
next
  case (Reset now name)
  with inv show ?thesis by (cases s) (simp add: resetBreaker_inv)
next
  case (ResetAll now)
  with inv show ?thesis by (cases s) (simp add: resetAll_def fold_resetBreaker_inv)
qed

interpretation breaker_requests:
  event_loop "breakerRequest lib" "\<lambda>s. breakers_inv (fst s)" for lib
  by unfold_locales (rule breakerRequest_inv)

text \<open>Whatever function a caller passes, a registered breaker runs the registered one or rejects.\<close>

definition actionUnder :: "('b \<Rightarrow> ('x, 'w, 'v) asyncFn) \<Rightarrow> string \<Rightarrow> 'b CircuitBreakerService \<Rightarrow>
    ('x, 'w, 'v) asyncFn option" where
  "actionUnder actionOf name svc = map_option actionOf (map_of (cs_breakers svc) name)"

lemma actionUnder_updateBreaker:
  assumes "map_of (cs_breakers svc) n = Some b" and "actionOf (fst out) = actionOf b"
  shows "actionUnder actionOf name (updateBreaker now n out svc) = actionUnder actionOf name svc"
  using assms by (simp add: actionUnder_def updateBreaker_def update_conv')

lemma execute_fires:
  assumes "opossum_ok lib actionOf" and "actionUnder actionOf name svc = Some act"
  shows "fires act args w (fst (execute lib now name fn args svc w))"
    and "actionUnder actionOf n (snd (execute lib now name fn args svc w)) = actionUnder actionOf n svc"
proof -
  obtain b where b: "map_of (cs_breakers svc) name = Some b" and act: "act = actionOf b"
    using assms(2) by (auto simp: actionUnder_def)
  have laws: "fires (actionOf b) args w (fst (op_fire lib b args w))"
    "actionOf (fst (snd (op_fire lib b args w))) = actionOf b"
    using assms(1) by (simp_all add: opossum_ok_def)
  show "fires act args w (fst (execute lib now name fn args svc w))"
    using laws(1) b act by (auto simp: execute_def split: prod.splits)
  show "actionUnder actionOf n (snd (execute lib now name fn args svc w)) = actionUnder actionOf n svc"
    using actionUnder_updateBreaker [OF b, of actionOf "snd (op_fire lib b args w)" n now] laws(2) b
    by (auto simp: execute_def split: prod.splits)
qed

lemma registerBreaker_action:
  assumes "opossum_ok lib actionOf"
  shows "actionUnder actionOf n (registerBreaker lib fn options svc) =
    (if n = co_name options \<and> map_of (cs_breakers svc) n = None then Some fn
     else actionUnder actionOf n svc)"
  using assms by (auto simp: registerBreaker_def Let_def actionUnder_def opossum_ok_def update_conv')

section \<open>What the bulkhead guarantees\<close>

definition bulkhead_inv :: "bulkhead_run \<Rightarrow> bool" where
  "bulkhead_inv s \<longleftrightarrow>
     br_slots s \<le> bc_maxConcurrent (br_config s) \<and>
     bm_queuedRequests (br_metrics s) = int (br_waiting s) \<and>
     bm_currentConcurrent (br_metrics s) = int (br_slots s) \<and>
     bm_totalRequests (br_metrics s) =
       int (br_waiting s) + int (br_slots s) + bm_totalSuccessful (br_metrics s) +
       bm_totalFailed (br_metrics s) \<and>
     bm_totalRejected (br_metrics s) = bm_totalFailed (br_metrics s)"

lemma bulkhead_step_inv:
  assumes "bulkhead_step admits s t" and "limiter_ok admits" and "bulkhead_inv s"
  shows "bulkhead_inv t"
  using assms
  by (cases rule: bulkhead_step.cases)
    (auto simp: bulkhead_inv_def task_defs limiter_ok_def of_nat_diff Suc_le_eq)

lemma bulkhead_step_config: "bulkhead_step admits s t \<Longrightarrow> br_config t = br_config s"
  by (erule bulkhead_step.cases) simp_all

lemma bulkhead_run_inv:
  assumes "(bulkhead_step admits)\<^sup>*\<^sup>* s t" and "limiter_ok admits" and "bulkhead_inv s"
  shows "bulkhead_inv t \<and> br_config t = br_config s"
  using assms(1)
proof (induction rule: rtranclp_induct)
  case base
  then show ?case by (simp add: assms(3))
next
  case (step t u)
  then show ?case using bulkhead_step_inv [OF step(2) assms(2)] bulkhead_step_config [OF step(2)] by simp
qed

lemma idleBulkhead_inv: "bulkhead_inv (idleBulkhead config)"
  by (simp add: bulkhead_inv_def idleBulkhead_def emptyBulkheadMetrics_def)

text \<open>One task that is submitted, started and timed out.\<close>

lemma timed_out_task:
  assumes "br_slots s = 0" and "canTimeOut (br_config s)"
    and "admits 0 (bc_maxConcurrent (br_config s))"
  shows "\<exists>t. (bulkhead_step admits)\<^sup>*\<^sup>* s t \<and> br_slots t = 0 \<and> br_config t = br_config s \<and>
    br_abandoned t = Suc (br_abandoned s)"
proof -
  define s1 where "s1 = s\<lparr>br_metrics := enqueueTask (br_metrics s), br_waiting := br_waiting s + 1\<rparr>"
  define s2 where "s2 = s1\<lparr>br_metrics := startTask (br_metrics s1), br_waiting := br_waiting s1 - 1,
    br_slots := br_slots s1 + 1\<rparr>"
  define s3 where "s3 = s2\<lparr>br_metrics := failTask (br_metrics s2), br_slots := br_slots s2 - 1,
    br_abandoned := br_abandoned s2 + 1\<rparr>"
  have "bulkhead_step admits s s1" unfolding s1_def by (rule submit)
  moreover have "bulkhead_step admits s1 s2"
    unfolding s2_def by (rule start) (simp_all add: s1_def assms)
  moreover have "bulkhead_step admits s2 s3"
    unfolding s3_def by (rule timeout) (simp_all add: s2_def s1_def assms)
  ultimately have "(bulkhead_step admits)\<^sup>*\<^sup>* s s3" by (meson r_into_rtranclp rtranclp_trans)
  then show ?thesis
    by (intro exI [where x = s3]) (simp add: s3_def s2_def s1_def assms)
qed

lemma abandoned_pile_up:
  assumes "br_slots s = 0" and "canTimeOut (br_config s)"
    and "admits 0 (bc_maxConcurrent (br_config s))"
  shows "\<exists>t. (bulkhead_step admits)\<^sup>*\<^sup>* s t \<and> br_slots t = 0 \<and> br_config t = br_config s \<and>
    br_abandoned t = br_abandoned s + n"
proof (induction n)
  case 0
  then show ?case using assms by (intro exI [where x = s]) simp
next
  case (Suc n)
  then obtain t where t: "(bulkhead_step admits)\<^sup>*\<^sup>* s t" "br_slots t = 0" "br_config t = br_config s"
    "br_abandoned t = br_abandoned s + n" by blast
  with timed_out_task [of t admits] assms
  obtain u where "(bulkhead_step admits)\<^sup>*\<^sup>* t u" "br_slots u = 0" "br_config u = br_config t"
    "br_abandoned u = Suc (br_abandoned t)" by auto
  with t show ?case by (intro exI [where x = u]) (auto intro: rtranclp_trans)
qed

lemma queue_grows:
  "\<exists>t. (bulkhead_step admits)\<^sup>*\<^sup>* s t \<and> br_config t = br_config s \<and>
     br_waiting t = br_waiting s + n"
proof (induction n)
  case 0
  then show ?case by (intro exI [where x = s]) simp
next
  case (Suc n)
  then obtain t where "(bulkhead_step admits)\<^sup>*\<^sup>* s t" "br_config t = br_config s"
    "br_waiting t = br_waiting s + n" by blast
  with submit [of admits t] show ?case
    by (intro exI [where x = "t\<lparr>br_metrics := enqueueTask (br_metrics t), br_waiting := br_waiting t + 1\<rparr>"])
      (auto intro: rtranclp.rtrancl_into_rtrancl)
qed

section \<open>Properties\<close>

definition ex_config :: BulkheadConfig where
  "ex_config = \<lparr>bc_name = ''stellar-bulkhead'', bc_maxConcurrent = 5, bc_maxQueueSize = Some 20,
     bc_timeout = Some 60000\<rparr>"

definition ex_busy :: bulkhead_run where
  "ex_busy =
     (let s1 = (idleBulkhead ex_config)\<lparr>br_metrics := enqueueTask (emptyBulkheadMetrics ex_config),
            br_waiting := 1\<rparr>
      in s1\<lparr>br_metrics := startTask (br_metrics s1), br_waiting := 0, br_slots := 1\<rparr>)"

lemma ex_busy_reachable: "(bulkhead_step (<))\<^sup>*\<^sup>* (idleBulkhead ex_config) ex_busy"
proof -
  have "bulkhead_step (<) (idleBulkhead ex_config)
      ((idleBulkhead ex_config)\<lparr>br_metrics := enqueueTask (emptyBulkheadMetrics ex_config),
         br_waiting := 1\<rparr>)" (is "bulkhead_step _ _ ?s1")
    using submit [of "(<)" "idleBulkhead ex_config"] by (simp add: idleBulkhead_def)
  moreover have "bulkhead_step (<) ?s1 ex_busy"
    using start [of ?s1 "(<)"] by (simp add: ex_busy_def idleBulkhead_def ex_config_def Let_def)
  ultimately show ?thesis by (meson r_into_rtranclp rtranclp_trans)
qed

text \<open>
  The bulkhead accounts for every task.  However callers, completions, failures and time-outs
  interleave, no more than \<open>maxConcurrent\<close> tasks hold a slot, the published counters are the real
  numbers of waiting and running tasks, every request is waiting, running, successful or failed,
  and exactly the failed ones were rejected.
\<close>

theorem bulkhead_accounts_for_every_task:
  assumes "limiter_ok admits" and "(bulkhead_step admits)\<^sup>*\<^sup>* (idleBulkhead config) s"
  shows "br_slots s \<le> bc_maxConcurrent config \<and>
    bm_queuedRequests (br_metrics s) = int (br_waiting s) \<and>
    bm_currentConcurrent (br_metrics s) = int (br_slots s) \<and>
    bm_totalRequests (br_metrics s) =
      int (br_waiting s) + int (br_slots s) + bm_totalSuccessful (br_metrics s) +
      bm_totalFailed (br_metrics s) \<and>
    bm_totalRejected (br_metrics s) = bm_totalFailed (br_metrics s)"
  using bulkhead_run_inv [OF assms(2,1) idleBulkhead_inv]
  by (auto simp: bulkhead_inv_def idleBulkhead_def)

theorem bulkhead_accounts_for_every_task_witness:
  "br_slots ex_busy = 1 \<and> bm_totalRequests (br_metrics ex_busy) = 1 \<and>
   bm_currentConcurrent (br_metrics ex_busy) = 1"
proof -
  have "br_slots ex_busy = 1" "br_waiting ex_busy = 0" "bm_totalSuccessful (br_metrics ex_busy) = 0"
    "bm_totalFailed (br_metrics ex_busy) = 0"
    by (simp_all add: ex_busy_def Let_def task_defs emptyBulkheadMetrics_def)
  with bulkhead_accounts_for_every_task [OF _ ex_busy_reachable] show ?thesis
    by (simp add: limiter_ok_def)
qed

text \<open>
  The bulkhead does not isolate slow calls.  A time-out frees the slot but not the call, and
  \<open>maxQueueSize\<close> is never read: with any limit on concurrency and on the queue, any number of
  calls can be at work at once, and any number of requests can be queued.
\<close>

theorem bulkhead_does_not_bound_work:
  assumes "canTimeOut config" and "admits 0 (bc_maxConcurrent config)"
  shows "\<exists>s t. (bulkhead_step admits)\<^sup>*\<^sup>* (idleBulkhead config) s \<and> working s = n \<and>
    (bulkhead_step admits)\<^sup>*\<^sup>* (idleBulkhead config) t \<and> br_waiting t = n"
proof -
  obtain s where "(bulkhead_step admits)\<^sup>*\<^sup>* (idleBulkhead config) s" "br_slots s = 0" "br_abandoned s = n"
    using abandoned_pile_up [of "idleBulkhead config" admits n] assms by (auto simp: idleBulkhead_def)
  moreover obtain t where "(bulkhead_step admits)\<^sup>*\<^sup>* (idleBulkhead config) t" "br_waiting t = n"
    using queue_grows [of admits "idleBulkhead config" n] by (auto simp: idleBulkhead_def)
  ultimately show ?thesis unfolding working_def by fastforce
qed

theorem bulkhead_does_not_bound_work_witness:
  "bc_maxConcurrent ex_config = 5 \<and> bc_maxQueueSize ex_config = Some 20 \<and>
   (\<exists>s t. (bulkhead_step (<))\<^sup>*\<^sup>* (idleBulkhead ex_config) s \<and> working s = 1000 \<and>
      (bulkhead_step (<))\<^sup>*\<^sup>* (idleBulkhead ex_config) t \<and> br_waiting t = 1000)"
  using bulkhead_does_not_bound_work [of ex_config "(<)" 1000]
  by (simp add: ex_config_def canTimeOut_def)

text \<open>
  The breaker's metrics never count.  After any sequence of registrations, executions and
  resets, with any behaviour of the breaker package, the metrics reported for a name are the
  initial ones, all counts zero and the state CLOSED, up to the time the breaker opened.
\<close>

theorem breaker_metrics_never_count:
  assumes "fold (breakerRequest lib) requests (freshBreakers, w) = (svc, w')"
  shows "(getBreakerMetrics name svc)\<lparr>cm_openedAt := None\<rparr> = createEmptyMetrics name"
proof -
  have "breakers_inv (fst (fold (breakerRequest lib) requests (freshBreakers, w)))"
    by (rule breaker_requests.run_inv) (simp add: freshBreakers_def breakers_inv_def)
  then have inv: "list_all uncounted (cs_metrics svc)" by (simp add: assms breakers_inv_def)
  show ?thesis
  proof (cases "map_of (cs_metrics svc) name")
    case None
    then show ?thesis by (simp add: getBreakerMetrics_def createEmptyMetrics_def)
  next
    case (Some m)
    then show ?thesis
      using uncounted_lookup [OF inv Some] by (simp add: getBreakerMetrics_def uncounted_def)
  qed
qed

text \<open>
  A breaker package for the examples: its objects are the action and whether the circuit is
  open, and the circuit opens at the first failure.
\<close>

definition tinyOpossum :: "(('x, 'w, 'v) asyncFn \<times> bool, 'x, 'w, 'v) opossum" where
  "tinyOpossum = \<lparr>op_new = (\<lambda>f opts. (f, False)),
     op_fire = (\<lambda>b args w.
       if snd b then ((Inl (JsError ''Breaker is open''), w), b, [])
       else case fst b args w of
           (Inl e, w') \<Rightarrow> ((Inl e, w'), (fst b, True), [OpenEvent])
         | (Inr v, w') \<Rightarrow> ((Inr v, w'), b, [])),
     op_close = (\<lambda>b. ((fst b, False), [CloseEvent])),
     op_opened = snd, op_halfOpen = (\<lambda>_. False)\<rparr>"

lemma tinyOpossum_ok: "opossum_ok tinyOpossum fst"
  by (auto simp: opossum_ok_def tinyOpossum_def fires_def split: sum.splits prod.splits)

definition ex_options :: "unit CircuitBreakerOptions" where
  "ex_options = \<lparr>co_name = ''api'', co_timeout = None, co_errorThresholdPercentage = None,
     co_volumeThreshold = None, co_rollingCountTimeout = None, co_rollingCountBuckets = None,
     co_fallback = None, co_healthCheckInterval = None\<rparr>"

definition ex_breaker_run :: "((nat, nat, nat) asyncFn \<times> bool) CircuitBreakerService \<times> nat" where
  "ex_breaker_run = fold (breakerRequest tinyOpossum)
     [Register (\<lambda>args w. (Inl (JsError ''down''), w + 1)) ex_options,
      Execute 7 ''api'' (\<lambda>args w. (Inr 3, w)) [], Execute 8 ''api'' (\<lambda>args w. (Inr 3, w)) []]
     (freshBreakers, 0)"

theorem breaker_metrics_never_count_witness:
  "snd ex_breaker_run = 1 \<and> getState tinyOpossum ''api'' (fst ex_breaker_run) = OPEN \<and>
   cm_openedAt (getBreakerMetrics ''api'' (fst ex_breaker_run)) = Some 7 \<and>
   (getBreakerMetrics ''api'' (fst ex_breaker_run))\<lparr>cm_openedAt := None\<rparr> = createEmptyMetrics ''api''"
proof -
  have "snd ex_breaker_run = 1" "getState tinyOpossum ''api'' (fst ex_breaker_run) = OPEN"
    "cm_openedAt (getBreakerMetrics ''api'' (fst ex_breaker_run)) = Some 7"
    by (simp_all add: ex_breaker_run_def freshBreakers_def registerBreaker_def ex_options_def Let_def
        execute_def tinyOpossum_def updateBreaker_def initializeMetrics_def getState_def
        getBreakerMetrics_def createEmptyMetrics_def opossumOptions_def)
  moreover have "(getBreakerMetrics ''api'' (fst ex_breaker_run))\<lparr>cm_openedAt := None\<rparr> =
      createEmptyMetrics ''api''"
    by (rule breaker_metrics_never_count [where lib = tinyOpossum and w = 0 and w' = "snd ex_breaker_run"])
      (simp only: ex_breaker_run_def prod.collapse)
  ultimately show ?thesis by blast
qed

end
