(* ===== verification/Bridge.thy ===== *)
theory Bridge
  imports Resilience
begin

text \<open>
  The cross-chain bridge: \<open>blockchain/services/cross-chain-bridge.service.ts\<close> and the Stellar
  gateway it pays through, \<open>blockchain/services/stellar.service.ts\<close>.

  The state holds the tables of both services, the payments handed to the Stellar network and the
  breaker and bulkhead services the gateway is wrapped in.  The Stellar SDK is a parameter: whether
  an account loads, which memos it accepts and what the network answers.  Amounts are the numbers
  the decimal strings denote.

  \<open>addApproval\<close> is the handler as one caller sees it.  Under load, approvals overlap: each
  transaction checks the bridge first and changes it later, and the execution that follows runs
  outside of any transaction.  \<open>bridge_step\<close> interleaves those pieces freely; the handler is one
  of its runs.
\<close>

section \<open>Tables\<close>

datatype BlockchainNetwork = STELLAR | ETHEREUM

datatype TransactionType = DEPOSIT | WITHDRAWAL | BRIDGE | SETTLEMENT

datatype TransactionStatus = TX_PENDING | TX_CONFIRMED | TX_FAILED | TX_REFUNDED

datatype BridgeStatus =
  INITIATED | SOURCE_CONFIRMED | BRIDGE_PROCESSING | DESTINATION_PENDING | COMPLETED | FAILED | REFUNDED

record BlockchainTransaction =
  bt_id :: string
  bt_userId :: string
  bt_network :: BlockchainNetwork
  bt_type :: TransactionType
  bt_status :: TransactionStatus
  bt_txHash :: "string option"
  bt_fromAddress :: string
  bt_toAddress :: string
  bt_amount :: real
  bt_asset :: string
  bt_memo :: "string option"
  bt_confirmations :: nat
  bt_errorMessage :: "string option"
  bt_createdAt :: timestamp

record WalletAddress =
  wa_id :: string
  wa_userId :: string
  wa_network :: BlockchainNetwork
  wa_address :: string
  wa_encryptedPrivateKey :: string
  wa_isActive :: bool

record CrossChainBridge =
  cb_id :: string
  cb_userId :: string
  cb_sourceNetwork :: BlockchainNetwork
  cb_destinationNetwork :: BlockchainNetwork
  cb_sourceAddress :: string
  cb_destinationAddress :: string
  cb_amount :: real
  cb_asset :: string
  cb_status :: BridgeStatus
  cb_sourceTxHash :: "string option"
  cb_destinationTxHash :: "string option"
  cb_multisigApprovals :: nat
  cb_multisigThreshold :: nat
  cb_errorMessage :: "string option"
  cb_createdAt :: timestamp

record BridgeApproval =
  ba_id :: string
  ba_bridgeId :: string
  ba_signerId :: string
  ba_createdAt :: timestamp

record Payment =
  py_destination :: string
  py_amount :: real
  py_memo :: "string option"

record chain_db =
  ch_bridges :: "CrossChainBridge list"
  ch_approvals :: "BridgeApproval list"
  ch_txs :: "BlockchainTransaction list"
  ch_wallets :: "WalletAddress list"
  ch_payments :: "Payment list"

section \<open>The Stellar gateway\<close>

text \<open>The SDK: what it was configured with and how it answers.\<close>

record stellar_sdk =
  sd_publicKey :: string
  sd_loadAccount :: "string \<Rightarrow> unit result"
  sd_memoText :: "string \<Rightarrow> unit result"
  sd_submit :: "Payment \<Rightarrow> Payment list \<Rightarrow> string result"

datatype withdraw_value = TxRecord BlockchainTransaction | SuccessStub

text \<open>\<open>tx.txHash\<close>; the property of any other object is undefined.\<close>

fun txHashOf :: "withdraw_value \<Rightarrow> string option" where
  "txHashOf (TxRecord tx) = bt_txHash tx"
| "txHashOf SuccessStub = None"

definition findWallet :: "string \<Rightarrow> BlockchainNetwork \<Rightarrow> chain_db \<Rightarrow> WalletAddress option" where
  "findWallet userId network db =
     find (\<lambda>w. wa_userId w = userId \<and> wa_network w = network \<and> wa_isActive w) (ch_wallets db)"

text \<open>\<open>getOrCreateWallet\<close>; the key pair is drawn by the SDK.\<close>

definition getOrCreateWallet ::
  "string \<Rightarrow> string \<times> string \<Rightarrow> string \<Rightarrow> chain_db \<Rightarrow> WalletAddress \<times> chain_db" where
  "getOrCreateWallet newId keypair userId db =
     (case findWallet userId STELLAR db of
        Some existing \<Rightarrow> (existing, db)
      | None \<Rightarrow>
          let wallet = \<lparr>wa_id = newId, wa_userId = userId, wa_network = STELLAR,
                wa_address = fst keypair, wa_encryptedPrivateKey = snd keypair, wa_isActive = True\<rparr>
          in (wallet, db\<lparr>ch_wallets := save_row wa_id wallet (ch_wallets db)\<rparr>))"

definition saveTx :: "BlockchainTransaction \<Rightarrow> chain_db \<Rightarrow> chain_db" where
  "saveTx tx db = db\<lparr>ch_txs := save_row bt_id tx (ch_txs db)\<rparr>"

definition newWithdrawal ::
  "stellar_sdk \<Rightarrow> timestamp \<Rightarrow> string \<Rightarrow> string \<Rightarrow> string \<Rightarrow> real \<Rightarrow> string option \<Rightarrow> BlockchainTransaction" where
  "newWithdrawal sdk now newId userId toAddress amount memo =
     \<lparr>bt_id = newId, bt_userId = userId, bt_network = STELLAR, bt_type = WITHDRAWAL,
      bt_status = TX_PENDING, bt_txHash = None, bt_fromAddress = sd_publicKey sdk,
      bt_toAddress = toAddress, bt_amount = amount, bt_asset = ''USDC'', bt_memo = memo,
      bt_confirmations = 0, bt_errorMessage = None, bt_createdAt = now\<rparr>"

definition checkMemo :: "stellar_sdk \<Rightarrow> string option \<Rightarrow> unit result" where
  "checkMemo sdk memo =
     (case memo of None \<Rightarrow> Inr () | Some m \<Rightarrow> if m = [] then Inr () else sd_memoText sdk m)"

text \<open>The body of the \<open>try\<close>: the payment is on its way once it was submitted.\<close>

definition submitPayment ::
  "stellar_sdk \<Rightarrow> string \<Rightarrow> real \<Rightarrow> string option \<Rightarrow> chain_db \<Rightarrow> string result \<times> chain_db" where
  "submitPayment sdk toAddress amount memo db =
     (case rbind (sd_loadAccount sdk (sd_publicKey sdk)) (\<lambda>_. checkMemo sdk memo) of
        Inl e \<Rightarrow> (Inl e, db)
      | Inr _ \<Rightarrow>
          let payment = \<lparr>py_destination = toAddress, py_amount = amount, py_memo = memo\<rparr>
          in (sd_submit sdk payment (ch_payments db),
              db\<lparr>ch_payments := ch_payments db @ [payment]\<rparr>))"

fun exnMessage :: "exn \<Rightarrow> string" where
  "exnMessage (NotFoundException m) = m"
| "exnMessage (BadRequestException m) = m"
| "exnMessage (ForbiddenException m) = m"
| "exnMessage (BlockchainException m) = m"
| "exnMessage (JsError m) = m"

definition withdrawInternal ::
  "stellar_sdk \<Rightarrow> timestamp \<Rightarrow> string \<Rightarrow> string \<Rightarrow> string \<Rightarrow> real \<Rightarrow> string option \<Rightarrow> chain_db \<Rightarrow>
     withdraw_value result \<times> chain_db" where
  "withdrawInternal sdk now newId userId toAddress amount memo db =
     (case findWallet userId STELLAR db of
        None \<Rightarrow> (Inl (BlockchainException ''No Stellar wallet for user''), db)
      | Some wallet \<Rightarrow>
          let txRecord = newWithdrawal sdk now newId userId toAddress amount memo
          in (case submitPayment sdk toAddress amount memo (saveTx txRecord db) of
               (Inl e, db') \<Rightarrow>
                 (Inl (BlockchainException (exnMessage e)),
                  saveTx (txRecord\<lparr>bt_status := TX_FAILED,
                                   bt_errorMessage := Some (exnMessage e)\<rparr>) db')
             | (Inr hash, db') \<Rightarrow>
                 let confirmed = txRecord\<lparr>bt_txHash := Some hash, bt_status := TX_CONFIRMED,
                       bt_confirmations := 1\<rparr>
                 in (Inr (TxRecord confirmed), saveTx confirmed db')))"

text \<open>The gateway with the services around it.\<close>

record 'b gateway =
  gw_db :: chain_db
  gw_breakers :: "'b CircuitBreakerService"
  gw_bulkheads :: BulkheadService

type_synonym 'b breaker_lib = "('b, unit, chain_db, withdraw_value) opossum"

definition circuitBreakerName :: string where
  "circuitBreakerName = ''stellar-horizon''"

definition bulkheadName :: string where
  "bulkheadName = ''stellar-bulkhead''"

definition circuitBreakerOptions :: "unit CircuitBreakerOptions" where
  "circuitBreakerOptions =
     \<lparr>co_name = circuitBreakerName, co_timeout = Some 30000, co_errorThresholdPercentage = Some 50,
      co_volumeThreshold = Some 10, co_rollingCountTimeout = Some 60000,
      co_rollingCountBuckets = Some 10, co_fallback = Some (), co_healthCheckInterval = None\<rparr>"

definition bulkheadConfig :: BulkheadConfig where
  "bulkheadConfig = \<lparr>bc_name = bulkheadName, bc_maxConcurrent = 5, bc_maxQueueSize = Some 20,
     bc_timeout = Some 60000\<rparr>"

text \<open>The function registered for the breaker.\<close>

definition registeredStub :: "(unit, chain_db, withdraw_value) asyncFn" where
  "registeredStub args db = (Inr SuccessStub, db)"

definition onModuleInit :: "'b breaker_lib \<Rightarrow> 'b gateway \<Rightarrow> 'b gateway" where
  "onModuleInit lib g =
     g\<lparr>gw_breakers := registerBreaker lib registeredStub circuitBreakerOptions (gw_breakers g),
       gw_bulkheads := createBulkhead bulkheadConfig (gw_bulkheads g)\<rparr>"

text \<open>
  What a call meets from outside: the clock, the id of the row it inserts and whether the
  bulkhead's time-out wins.
\<close>

record call_env =
  ce_now :: timestamp
  ce_newId :: string
  ce_timedOut :: bool

definition withdrawThroughBreaker ::
  "'b breaker_lib \<Rightarrow> stellar_sdk \<Rightarrow> call_env \<Rightarrow> string \<Rightarrow> string \<Rightarrow> real \<Rightarrow> string option \<Rightarrow>
     chain_db \<times> 'b CircuitBreakerService \<Rightarrow>
     withdraw_value result \<times> chain_db \<times> 'b CircuitBreakerService" where
  "withdrawThroughBreaker lib sdk env userId toAddress amount memo w =
     (case execute lib (ce_now env) circuitBreakerName
         (\<lambda>args. withdrawInternal sdk (ce_now env) (ce_newId env) userId toAddress amount memo)
         [] (snd w) (fst w) of
        ((r, db), brk) \<Rightarrow> (r, db, brk))"

definition withdraw ::
  "'b breaker_lib \<Rightarrow> stellar_sdk \<Rightarrow> call_env \<Rightarrow> string \<Rightarrow> string \<Rightarrow> real \<Rightarrow> string option \<Rightarrow>
     'b gateway \<Rightarrow> withdraw_value result \<times> 'b gateway" where
  "withdraw lib sdk env userId toAddress amount memo g =
     (case executeIn bulkheadName (ce_timedOut env)
         (withdrawThroughBreaker lib sdk env userId toAddress amount memo)
         (gw_bulkheads g) (gw_db g, gw_breakers g) of
        ((r, db, brk), bh) \<Rightarrow> (r, g\<lparr>gw_db := db, gw_breakers := brk, gw_bulkheads := bh\<rparr>))"

section \<open>The bridge service\<close>

definition BRIDGE_RESERVE_THRESHOLD :: real where
  "BRIDGE_RESERVE_THRESHOLD = 10000"

text \<open>\<open>BRIDGE_SIGNER_IDS\<close>: split at commas, trim, drop what is empty.\<close>

definition authorizedSigners :: "string \<Rightarrow> string set" where
  "authorizedSigners raw = set (filter (\<lambda>s. s \<noteq> []) (map trim (splitComma raw)))"

record bridge_config =
  bg_multisigThreshold :: nat
  bg_signers :: "string set"

definition saveBridge :: "CrossChainBridge \<Rightarrow> chain_db \<Rightarrow> chain_db" where
  "saveBridge b db = db\<lparr>ch_bridges := save_row cb_id b (ch_bridges db)\<rparr>"

definition initiateBridge ::
  "bridge_config \<Rightarrow> timestamp \<Rightarrow> string \<Rightarrow> string \<Rightarrow> BlockchainNetwork \<Rightarrow> BlockchainNetwork \<Rightarrow>
     string \<Rightarrow> string \<Rightarrow> real \<Rightarrow> chain_db \<Rightarrow> CrossChainBridge \<times> chain_db" where
  "initiateBridge cfg now newId userId sourceNetwork destinationNetwork sourceAddress
       destinationAddress amount db =
     (let bridge = \<lparr>cb_id = newId, cb_userId = userId, cb_sourceNetwork = sourceNetwork,
            cb_destinationNetwork = destinationNetwork, cb_sourceAddress = sourceAddress,
            cb_destinationAddress = destinationAddress, cb_amount = amount, cb_asset = ''USDC'',
            cb_status = INITIATED, cb_sourceTxHash = None, cb_destinationTxHash = None,
            cb_multisigApprovals = 0, cb_multisigThreshold = bg_multisigThreshold cfg,
            cb_errorMessage = None, cb_createdAt = now\<rparr>
      in (bridge, saveBridge bridge db))"

definition awaiting :: "CrossChainBridge \<Rightarrow> bool" where
  "awaiting b = (cb_status b = INITIATED \<or> cb_status b = SOURCE_CONFIRMED)"

definition checkSigner :: "bridge_config \<Rightarrow> string \<Rightarrow> unit result" where
  "checkSigner cfg signerId = throw_unless (signerId \<in> bg_signers cfg)
     (BlockchainException ''Signer is not authorized to approve this bridge'')"

text \<open>The read at the start of the transaction.\<close>

definition checkAwaiting :: "string \<Rightarrow> chain_db \<Rightarrow> unit result" where
  "checkAwaiting bridgeId db =
     (case row_of cb_id bridgeId (ch_bridges db) of
        None \<Rightarrow> Inl (BlockchainException ''Bridge record not found'')
      | Some bridge \<Rightarrow>
          throw_unless (awaiting bridge) (BlockchainException ''Bridge is not awaiting approvals''))"

definition incrementApprovals :: "string \<Rightarrow> chain_db \<Rightarrow> chain_db" where
  "incrementApprovals bridgeId db =
     db\<lparr>ch_bridges := map (\<lambda>b. if cb_id b = bridgeId
          then b\<lparr>cb_multisigApprovals := cb_multisigApprovals b + 1\<rparr> else b) (ch_bridges db)\<rparr>"

text \<open>The conditional update and the number of rows it affected, as a test.\<close>

definition flipStatus :: "string \<Rightarrow> chain_db \<Rightarrow> bool \<times> chain_db" where
  "flipStatus bridgeId db =
     (let hit = (\<lambda>b. cb_id b = bridgeId \<and> awaiting b)
      in (list_ex hit (ch_bridges db),
          db\<lparr>ch_bridges := map (\<lambda>b. if hit b then b\<lparr>cb_status := BRIDGE_PROCESSING\<rparr> else b)
               (ch_bridges db)\<rparr>))"

definition recordApproval :: "timestamp \<Rightarrow> string \<Rightarrow> string \<Rightarrow> string \<Rightarrow> chain_db \<Rightarrow> chain_db" where
  "recordApproval now newId bridgeId signerId db =
     incrementApprovals bridgeId (db\<lparr>ch_approvals := ch_approvals db @
       [\<lparr>ba_id = newId, ba_bridgeId = bridgeId, ba_signerId = signerId, ba_createdAt = now\<rparr>]\<rparr>)"

text \<open>
  The writes of the transaction: the approval row with its unique constraint, the increment, the
  second read and the conditional change of status.
\<close>

definition commitApproval ::
  "timestamp \<Rightarrow> string \<Rightarrow> string \<Rightarrow> string \<Rightarrow> chain_db \<Rightarrow> ((CrossChainBridge \<times> bool) \<times> chain_db) result" where
  "commitApproval now newId bridgeId signerId db =
     (if list_ex (\<lambda>a. ba_bridgeId a = bridgeId \<and> ba_signerId a = signerId) (ch_approvals db)
      then Inl (BlockchainException ''Signer has already approved this bridge'')
      else
        let db1 = recordApproval now newId bridgeId signerId db
        in (case row_of cb_id bridgeId (ch_bridges db1) of
              None \<Rightarrow> Inl (BlockchainException ''Bridge record not found'')
            | Some updated \<Rightarrow>
                if cb_multisigApprovals updated < cb_multisigThreshold updated
                then Inr ((updated, False), db1)
                else (case flipStatus bridgeId db1 of
                        (affected, db2) \<Rightarrow>
                          Inr ((updated\<lparr>cb_status := BRIDGE_PROCESSING\<rparr>, affected), db2))))"

text \<open>The pieces of \<open>executeBridge\<close>.\<close>

definition gwSaveBridge :: "CrossChainBridge \<Rightarrow> 'b gateway \<Rightarrow> 'b gateway" where
  "gwSaveBridge b g = g\<lparr>gw_db := saveBridge b (gw_db g)\<rparr>"

definition destinationPending :: "CrossChainBridge \<Rightarrow> CrossChainBridge" where
  "destinationPending b = b\<lparr>cb_status := DESTINATION_PENDING\<rparr>"

definition payDestination ::
  "'b breaker_lib \<Rightarrow> stellar_sdk \<Rightarrow> call_env \<Rightarrow> CrossChainBridge \<Rightarrow> 'b gateway \<Rightarrow>
     CrossChainBridge result \<times> 'b gateway" where
  "payDestination lib sdk env b g =
     (if cb_destinationNetwork b = STELLAR
      then (case withdraw lib sdk env (cb_userId b) (cb_destinationAddress b) (cb_amount b)
                (Some (''bridge:'' @ cb_id b)) g of
              (Inl e, g') \<Rightarrow> (Inl e, g')
            | (Inr tx, g') \<Rightarrow> (Inr (b\<lparr>cb_destinationTxHash := txHashOf tx\<rparr>), g'))
      else (Inr b, g))"

definition completed :: "CrossChainBridge \<Rightarrow> CrossChainBridge" where
  "completed b = b\<lparr>cb_status := COMPLETED\<rparr>"

definition failedWith :: "exn \<Rightarrow> CrossChainBridge \<Rightarrow> CrossChainBridge" where
  "failedWith e b = b\<lparr>cb_status := FAILED, cb_errorMessage := Some (exnMessage e)\<rparr>"

definition refundBridge ::
  "'b breaker_lib \<Rightarrow> stellar_sdk \<Rightarrow> call_env \<Rightarrow> CrossChainBridge \<Rightarrow> 'b gateway \<Rightarrow> 'b gateway" where
  "refundBridge lib sdk env b g =
     (let paid = (if cb_sourceNetwork b = STELLAR
            then withdraw lib sdk env (cb_userId b) (cb_sourceAddress b) (cb_amount b)
                   (Some (''refund:'' @ cb_id b)) g
            else (Inr SuccessStub, g))
      in (case fst paid of
            Inl e \<Rightarrow> snd paid
          | Inr _ \<Rightarrow> gwSaveBridge (b\<lparr>cb_status := REFUNDED\<rparr>) (snd paid)))"

text \<open>The second environment is the one the refund meets.\<close>

definition executeBridge ::
  "'b breaker_lib \<Rightarrow> stellar_sdk \<Rightarrow> call_env \<Rightarrow> call_env \<Rightarrow> CrossChainBridge \<Rightarrow> 'b gateway \<Rightarrow>
     CrossChainBridge result \<times> 'b gateway" where
  "executeBridge lib sdk env env' bridge g =
     (let b = destinationPending bridge
      in (case payDestination lib sdk env b (gwSaveBridge b g) of
            (Inr b', g') \<Rightarrow> (Inr (completed b'), gwSaveBridge (completed b') g')
          | (Inl e, g') \<Rightarrow>
              (Inl (BlockchainException (exnMessage e)),
               refundBridge lib sdk env' (failedWith e b) (gwSaveBridge (failedWith e b) g'))))"

definition addApproval ::
  "'b breaker_lib \<Rightarrow> stellar_sdk \<Rightarrow> bridge_config \<Rightarrow> timestamp \<Rightarrow> string \<Rightarrow> call_env \<Rightarrow> call_env \<Rightarrow>
     string \<Rightarrow> string \<Rightarrow> 'b gateway \<Rightarrow> CrossChainBridge result \<times> 'b gateway" where
  "addApproval lib sdk cfg now newId env env' bridgeId signerId g =
     (case rbind (checkSigner cfg signerId) (\<lambda>_.
         rbind (checkAwaiting bridgeId (gw_db g)) (\<lambda>_.
           commitApproval now newId bridgeId signerId (gw_db g))) of
        Inl e \<Rightarrow> (Inl e, g)
      | Inr ((bridge, shouldExecute), db) \<Rightarrow>
          let g' = g\<lparr>gw_db := db\<rparr>
          in if shouldExecute then executeBridge lib sdk env env' bridge g' else (Inr bridge, g'))"

definition isLocked :: "CrossChainBridge \<Rightarrow> bool" where
  "isLocked b = (cb_status b \<in> {INITIATED, SOURCE_CONFIRMED, BRIDGE_PROCESSING})"

text \<open>The health report; the alert is a flag here.\<close>

definition getBridgeHealth :: "chain_db \<Rightarrow> bool \<times> bool" where
  "getBridgeHealth db =
     (let totalLocked = sum_list (map cb_amount (filter isLocked (ch_bridges db)));
          healthy = totalLocked < BRIDGE_RESERVE_THRESHOLD
      in (healthy, \<not> healthy))"

definition getBridgeById :: "string \<Rightarrow> chain_db \<Rightarrow> CrossChainBridge option" where
  "getBridgeById bridgeId db = row_of cb_id bridgeId (ch_bridges db)"

definition getBridgeHistory :: "string \<Rightarrow> chain_db \<Rightarrow> CrossChainBridge list" where
  "getBridgeHistory userId db =
     sort_key (\<lambda>b. - cb_createdAt b) (filter (\<lambda>b. cb_userId b = userId) (ch_bridges db))"

section \<open>Overlapping requests\<close>

text \<open>
  What a request still has to do.  A task that carries a bridge carries the row as that request
  read it, which may be stale by now.  \<open>sy_executed\<close> lists the bridges whose execution was begun.
\<close>

datatype bridge_task =
    Approving string string
  | Starting CrossChainBridge
  | Paying CrossChainBridge
  | Completing CrossChainBridge
  | Failing exn CrossChainBridge
  | Refunding CrossChainBridge

fun taskBridge :: "bridge_task \<Rightarrow> CrossChainBridge option" where
  "taskBridge (Approving bridgeId signerId) = None"
| "taskBridge (Starting b) = Some b"
| "taskBridge (Paying b) = Some b"
| "taskBridge (Completing b) = Some b"
| "taskBridge (Failing e b) = Some b"
| "taskBridge (Refunding b) = Some b"

record 'b bridge_sys =
  sy_gateway :: "'b gateway"
  sy_tasks :: "bridge_task multiset"
  sy_executed :: "string list"

abbreviation sy_db :: "'b bridge_sys \<Rightarrow> chain_db" where
  "sy_db s \<equiv> gw_db (sy_gateway s)"

inductive bridge_step ::
  "'b breaker_lib \<Rightarrow> stellar_sdk \<Rightarrow> bridge_config \<Rightarrow> 'b bridge_sys \<Rightarrow> 'b bridge_sys \<Rightarrow> bool"
  for lib :: "'b breaker_lib" and sdk :: stellar_sdk and cfg :: bridge_config
where
  initiating: "row_of cb_id newId (ch_bridges (sy_db s)) = None \<Longrightarrow>
     initiateBridge cfg now newId userId src dst srcAddr dstAddr amount (sy_db s) = (b, db) \<Longrightarrow>
     bridge_step lib sdk cfg s (s\<lparr>sy_gateway := (sy_gateway s)\<lparr>gw_db := db\<rparr>\<rparr>)"
| admitting: "checkSigner cfg signerId = Inr () \<Longrightarrow> checkAwaiting bridgeId (sy_db s) = Inr () \<Longrightarrow>
     bridge_step lib sdk cfg s (s\<lparr>sy_tasks := add_mset (Approving bridgeId signerId) (sy_tasks s)\<rparr>)"
| committing: "sy_tasks s = add_mset (Approving bridgeId signerId) rest \<Longrightarrow>
     commitApproval now newId bridgeId signerId (sy_db s) = Inr ((b, shouldExecute), db) \<Longrightarrow>
     bridge_step lib sdk cfg s
       (s\<lparr>sy_gateway := (sy_gateway s)\<lparr>gw_db := db\<rparr>,
          sy_tasks := (if shouldExecute then add_mset (Starting b) rest else rest),
          sy_executed := (if shouldExecute then bridgeId # sy_executed s else sy_executed s)\<rparr>)"
| refusing: "sy_tasks s = add_mset (Approving bridgeId signerId) rest \<Longrightarrow>
     commitApproval now newId bridgeId signerId (sy_db s) = Inl e \<Longrightarrow>
     bridge_step lib sdk cfg s (s\<lparr>sy_tasks := rest\<rparr>)"
| starting: "sy_tasks s = add_mset (Starting b) rest \<Longrightarrow>
     bridge_step lib sdk cfg s
       (s\<lparr>sy_gateway := gwSaveBridge (destinationPending b) (sy_gateway s),
          sy_tasks := add_mset (Paying (destinationPending b)) rest\<rparr>)"
| paying: "sy_tasks s = add_mset (Paying b) rest \<Longrightarrow>
     payDestination lib sdk env b (sy_gateway s) = (Inr b', g) \<Longrightarrow>
     bridge_step lib sdk cfg s (s\<lparr>sy_gateway := g, sy_tasks := add_mset (Completing b') rest\<rparr>)"
| paying_fails: "sy_tasks s = add_mset (Paying b) rest \<Longrightarrow>
     payDestination lib sdk env b (sy_gateway s) = (Inl e, g) \<Longrightarrow>
     bridge_step lib sdk cfg s (s\<lparr>sy_gateway := g, sy_tasks := add_mset (Failing e b) rest\<rparr>)"
| completing: "sy_tasks s = add_mset (Completing b) rest \<Longrightarrow>
     bridge_step lib sdk cfg s
       (s\<lparr>sy_gateway := gwSaveBridge (completed b) (sy_gateway s), sy_tasks := rest\<rparr>)"
| failing: "sy_tasks s = add_mset (Failing e b) rest \<Longrightarrow>
     bridge_step lib sdk cfg s
       (s\<lparr>sy_gateway := gwSaveBridge (failedWith e b) (sy_gateway s),
          sy_tasks := add_mset (Refunding (failedWith e b)) rest\<rparr>)"
| refunding: "sy_tasks s = add_mset (Refunding b) rest \<Longrightarrow>
     bridge_step lib sdk cfg s
       (s\<lparr>sy_gateway := refundBridge lib sdk env b (sy_gateway s), sy_tasks := rest\<rparr>)"

section \<open>The gateway leaves the bridge tables alone\<close>

definition sameBridges :: "chain_db \<Rightarrow> chain_db \<Rightarrow> bool" where
  "sameBridges db db' \<longleftrightarrow> ch_bridges db' = ch_bridges db \<and> ch_approvals db' = ch_approvals db"

text \<open>The action behind the gateway's breaker, if there is one, keeps a relation of the tables.\<close>

definition actionKeeps ::
  "(chain_db \<Rightarrow> chain_db \<Rightarrow> bool) \<Rightarrow> ('b \<Rightarrow> (unit, chain_db, withdraw_value) asyncFn) \<Rightarrow> 'b gateway \<Rightarrow> bool" where
  "actionKeeps R actionOf g \<longleftrightarrow>
     (case actionUnder actionOf circuitBreakerName (gw_breakers g) of
        None \<Rightarrow> \<forall>sdk now newId userId to amount memo db.
          R db (snd (withdrawInternal sdk now newId userId to amount memo db))
      | Some act \<Rightarrow> \<forall>args db. R db (snd (act args db)))"

lemma withdrawInternal_same: "sameBridges db (snd (withdrawInternal sdk now newId userId to amount memo db))"
  by (auto simp: withdrawInternal_def submitPayment_def saveTx_def sameBridges_def Let_def
      split: option.splits sum.splits)

lemma executeIn_cases:
  assumes "executeIn name timedOut fn svc w = (out, svc')"
  shows "snd out = w \<or> snd out = snd (fn w)"
  using assms by (auto simp: executeIn_def Let_def split: option.splits prod.splits)

lemma actionKeeps_breakers:
  assumes "actionUnder actionOf circuitBreakerName (gw_breakers g') =
    actionUnder actionOf circuitBreakerName (gw_breakers g)"
  shows "actionKeeps R actionOf g' = actionKeeps R actionOf g"
  unfolding actionKeeps_def assms ..

lemma withdrawThroughBreaker_keeps:
  assumes lib: "opossum_ok lib actionOf" and keeps: "actionKeeps R actionOf g"
    and refl: "\<And>db. R db db"
    and run: "withdrawThroughBreaker lib sdk env userId to amount memo (db, gw_breakers g) = (r, db', brk)"
  shows "R db db'"
    and "actionUnder actionOf circuitBreakerName brk = actionUnder actionOf circuitBreakerName (gw_breakers g)"
proof -
  let ?fn = "\<lambda>args :: unit list. withdrawInternal sdk (ce_now env) (ce_newId env) userId to amount memo"
  obtain out where ex: "execute lib (ce_now env) circuitBreakerName ?fn [] (gw_breakers g) db = (out, brk)"
    and out: "out = (r, db')"
    using run by (auto simp: withdrawThroughBreaker_def split: prod.splits)
  have "R db (snd out) \<and>
    actionUnder actionOf circuitBreakerName brk = actionUnder actionOf circuitBreakerName (gw_breakers g)"
  proof (cases "actionUnder actionOf circuitBreakerName (gw_breakers g)")
    case None
    then have "out = ?fn [] db" "brk = gw_breakers g"
      using ex by (auto simp: execute_def actionUnder_def)
    with None keeps show ?thesis by (simp add: actionKeeps_def)
  next
    case (Some act)
    have "fires act [] db out"
      using execute_fires(1) [OF lib Some, of "[]" db "ce_now env" ?fn] by (simp add: ex)
    moreover have "\<forall>args db. R db (snd (act args db))" using keeps Some by (simp add: actionKeeps_def)
    moreover have "actionUnder actionOf circuitBreakerName brk =
        actionUnder actionOf circuitBreakerName (gw_breakers g)"
      using execute_fires(2) [OF lib Some, of circuitBreakerName "ce_now env" ?fn "[]" db] by (simp add: ex)
    ultimately show ?thesis using refl by (auto simp: fires_def)
  qed
  then show "R db db'"
    and "actionUnder actionOf circuitBreakerName brk = actionUnder actionOf circuitBreakerName (gw_breakers g)"
    by (simp_all add: out)
qed

lemma withdraw_keeps:
  assumes lib: "opossum_ok lib actionOf" and keeps: "actionKeeps R actionOf g"
    and refl: "\<And>db. R db db"
    and run: "withdraw lib sdk env userId to amount memo g = (r, g')"
  shows "R (gw_db g) (gw_db g') \<and> actionKeeps R actionOf g'"
proof -
  obtain db brk bh where ex: "executeIn bulkheadName (ce_timedOut env)
      (withdrawThroughBreaker lib sdk env userId to amount memo) (gw_bulkheads g)
      (gw_db g, gw_breakers g) = ((r, db, brk), bh)"
    and g': "g' = g\<lparr>gw_db := db, gw_breakers := brk, gw_bulkheads := bh\<rparr>"
    using run by (auto simp: withdraw_def split: prod.splits)
  from executeIn_cases [OF ex] consider
      "db = gw_db g" "brk = gw_breakers g"
    | r' where "withdrawThroughBreaker lib sdk env userId to amount memo (gw_db g, gw_breakers g) = (r', db, brk)"
    by (cases "withdrawThroughBreaker lib sdk env userId to amount memo (gw_db g, gw_breakers g)") auto
  then show ?thesis
  proof cases
    case 1
    with keeps refl show ?thesis by (simp add: g' actionKeeps_def)
  next
    case 2
    note kept = withdrawThroughBreaker_keeps [OF lib keeps refl 2]
    have "actionKeeps R actionOf g' = actionKeeps R actionOf g"
      by (rule actionKeeps_breakers) (simp add: g' kept(2))
    with kept(1) keeps show ?thesis by (simp add: g')
  qed
qed

section \<open>Quorum: the invariant\<close>

definition approvalsOf :: "string \<Rightarrow> chain_db \<Rightarrow> BridgeApproval list" where
  "approvalsOf bridgeId db = filter (\<lambda>a. ba_bridgeId a = bridgeId) (ch_approvals db)"

text \<open>A row, current or stale, never claims more approvals than there are.\<close>

definition snapshot_ok :: "bridge_config \<Rightarrow> chain_db \<Rightarrow> CrossChainBridge \<Rightarrow> bool" where
  "snapshot_ok cfg db b \<longleftrightarrow> cb_multisigThreshold b = bg_multisigThreshold cfg \<and>
     cb_multisigApprovals b \<le> length (approvalsOf (cb_id b) db)"

definition row_ok :: "bridge_config \<Rightarrow> string list \<Rightarrow> chain_db \<Rightarrow> CrossChainBridge \<Rightarrow> bool" where
  "row_ok cfg executed db b \<longleftrightarrow> snapshot_ok cfg db b \<and> (cb_id b \<in> set executed \<longleftrightarrow> \<not> awaiting b)"

definition executed_ok :: "bridge_config \<Rightarrow> chain_db \<Rightarrow> string \<Rightarrow> bool" where
  "executed_ok cfg db k \<longleftrightarrow> k \<in> cb_id ` set (ch_bridges db) \<and>
     bg_multisigThreshold cfg \<le> length (approvalsOf k db)"

definition tables_ok :: "bridge_config \<Rightarrow> string list \<Rightarrow> chain_db \<Rightarrow> bool" where
  "tables_ok cfg executed db \<longleftrightarrow>
     keyed cb_id (ch_bridges db) \<and> (\<forall>b\<in>set (ch_bridges db). row_ok cfg executed db b) \<and>
     distinct (map (\<lambda>a. (ba_bridgeId a, ba_signerId a)) (ch_approvals db)) \<and>
     ba_signerId ` set (ch_approvals db) \<subseteq> bg_signers cfg \<and>
     distinct executed \<and> (\<forall>k\<in>set executed. executed_ok cfg db k)"

fun task_ok :: "bridge_config \<Rightarrow> string list \<Rightarrow> chain_db \<Rightarrow> bridge_task \<Rightarrow> bool" where
  "task_ok cfg executed db (Approving bridgeId signerId) = (signerId \<in> bg_signers cfg)"
| "task_ok cfg executed db (Starting b) = (snapshot_ok cfg db b \<and> cb_id b \<in> set executed)"
| "task_ok cfg executed db (Paying b) = (snapshot_ok cfg db b \<and> cb_id b \<in> set executed)"
| "task_ok cfg executed db (Completing b) = (snapshot_ok cfg db b \<and> cb_id b \<in> set executed)"
| "task_ok cfg executed db (Failing e b) = (snapshot_ok cfg db b \<and> cb_id b \<in> set executed)"
| "task_ok cfg executed db (Refunding b) = (snapshot_ok cfg db b \<and> cb_id b \<in> set executed)"

lemma snapshot_ok_mono:
  assumes "snapshot_ok cfg db b" and "length (approvalsOf (cb_id b) db) \<le> length (approvalsOf (cb_id b) db')"
  shows "snapshot_ok cfg db' b"
  using assms by (simp add: snapshot_ok_def)

lemma task_ok_mono:
  assumes "task_ok cfg executed db t" and "set executed \<subseteq> set executed'"
    and "\<And>k. length (approvalsOf k db) \<le> length (approvalsOf k db')"
  shows "task_ok cfg executed' db' t"
  using assms by (cases t) (auto intro: snapshot_ok_mono)

lemma approvalsOf_saveBridge [simp]: "approvalsOf k (saveBridge b db) = approvalsOf k db"
  by (simp add: approvalsOf_def saveBridge_def)

lemma saveBridge_fields [simp]:
  "ch_approvals (saveBridge b db) = ch_approvals db"
  "ch_bridges (saveBridge b db) = save_row cb_id b (ch_bridges db)"
  by (simp_all add: saveBridge_def)

lemma snapshot_ok_save [simp]: "snapshot_ok cfg (saveBridge b db) c = snapshot_ok cfg db c"
  by (simp add: snapshot_ok_def)

lemma tables_ok_save:
  assumes "tables_ok cfg executed db" and "row_ok cfg executed db b"
  shows "tables_ok cfg executed (saveBridge b db)"
  using assms
  by (auto simp: tables_ok_def row_ok_def executed_ok_def keyed_save_row set_save_row image_iff)

lemma tables_ok_same:
  assumes "sameBridges db db'"
  shows "approvalsOf k db' = approvalsOf k db" "snapshot_ok cfg db' b = snapshot_ok cfg db b"
    "tables_ok cfg executed db' = tables_ok cfg executed db"
  using assms
  by (simp_all add: sameBridges_def approvalsOf_def snapshot_ok_def tables_ok_def row_ok_def
      executed_ok_def)

text \<open>The committed transaction.\<close>

lemma length_approvalsOf_record:
  "length (approvalsOf j (recordApproval now newId k signerId db)) =
    length (approvalsOf j db) + (if k = j then 1 else 0)"
  by (simp add: approvalsOf_def recordApproval_def incrementApprovals_def)

lemma flipStatus_fields:
  "flipStatus k db = (affected, db') \<Longrightarrow> ch_approvals db' = ch_approvals db \<and>
     ch_bridges db' = map (\<lambda>b. if cb_id b = k \<and> awaiting b then b\<lparr>cb_status := BRIDGE_PROCESSING\<rparr> else b)
       (ch_bridges db) \<and> affected = (\<exists>b\<in>set (ch_bridges db). cb_id b = k \<and> awaiting b)"
  by (auto simp: flipStatus_def Let_def list_ex_iff)

lemma tables_ok_flip:
  assumes "tables_ok cfg executed db" and "flipStatus k db = (affected, db')"
    and "affected \<Longrightarrow> bg_multisigThreshold cfg \<le> length (approvalsOf k db)"
  shows "tables_ok cfg (if affected then k # executed else executed) db'"
proof -
  have db': "ch_approvals db' = ch_approvals db"
    "ch_bridges db' = map (\<lambda>b. if cb_id b = k \<and> awaiting b then b\<lparr>cb_status := BRIDGE_PROCESSING\<rparr> else b)
       (ch_bridges db)"
    and affected: "affected = (\<exists>b\<in>set (ch_bridges db). cb_id b = k \<and> awaiting b)"
    using flipStatus_fields [OF assms(2)] by simp_all
  have same: "approvalsOf j db' = approvalsOf j db" for j by (simp add: approvalsOf_def db')
  have ids: "map cb_id (ch_bridges db') = map cb_id (ch_bridges db)" by (simp add: db')
  then have image: "cb_id ` set (ch_bridges db') = cb_id ` set (ch_bridges db)"
    by (metis list.set_map)
  have "keyed cb_id (ch_bridges db')" using assms(1) ids by (simp add: tables_ok_def keyed_def)
  moreover have "row_ok cfg (if affected then k # executed else executed) db' b"
    if "b \<in> set (ch_bridges db')" for b
    using that assms(1) affected
    by (auto simp: tables_ok_def row_ok_def snapshot_ok_def same db' awaiting_def split: if_splits)
  moreover have "k \<notin> set executed" if affected
    using that assms(1) affected by (auto simp: tables_ok_def row_ok_def)
  moreover have "executed_ok cfg db' k" if affected
    using that assms(3) affected by (auto simp: executed_ok_def same image)
  moreover have "executed_ok cfg db' j" if "j \<in> set executed" for j
    using that assms(1) by (simp add: tables_ok_def executed_ok_def same image)
  ultimately show ?thesis
    using assms(1) by (auto simp: tables_ok_def db'(1))
qed

lemma commitApproval_Inr:
  assumes "commitApproval now newId k signerId db = Inr ((b, shouldExecute), db')"
  shows "\<exists>updated. row_of cb_id k (ch_bridges (recordApproval now newId k signerId db)) = Some updated \<and>
    (k, signerId) \<notin> (\<lambda>a. (ba_bridgeId a, ba_signerId a)) ` set (ch_approvals db) \<and>
    (\<not> shouldExecute \<and> db' = recordApproval now newId k signerId db \<and> b = updated \<or>
     cb_multisigThreshold updated \<le> cb_multisigApprovals updated \<and>
       flipStatus k (recordApproval now newId k signerId db) = (shouldExecute, db') \<and>
       b = updated\<lparr>cb_status := BRIDGE_PROCESSING\<rparr>)"
  using assms
  by (auto simp: commitApproval_def Let_def list_ex_iff split: if_splits option.splits prod.splits)

lemma tables_ok_record:
  assumes ok: "tables_ok cfg executed db" and signer: "signerId \<in> bg_signers cfg"
    and new: "(k, signerId) \<notin> (\<lambda>a. (ba_bridgeId a, ba_signerId a)) ` set (ch_approvals db)"
  shows "tables_ok cfg executed (recordApproval now newId k signerId db)"
    (is "tables_ok cfg executed ?db")
proof -
  note len = length_approvalsOf_record
  note defs = recordApproval_def incrementApprovals_def
  have ids: "map cb_id (ch_bridges ?db) = map cb_id (ch_bridges db)"
    by (simp add: defs)
  then have image: "cb_id ` set (ch_bridges ?db) = cb_id ` set (ch_bridges db)"
    by (metis list.set_map)
  have "keyed cb_id (ch_bridges ?db)" using ok ids by (simp add: tables_ok_def keyed_def)
  moreover have "row_ok cfg executed ?db b" if "b \<in> set (ch_bridges ?db)" for b
  proof -
    obtain c where c: "c \<in> set (ch_bridges db)"
      "b = (if cb_id c = k then c\<lparr>cb_multisigApprovals := cb_multisigApprovals c + 1\<rparr> else c)"
      using \<open>b \<in> set (ch_bridges ?db)\<close> by (auto simp: defs)
    with ok have "row_ok cfg executed db c" by (simp add: tables_ok_def)
    with c(2) show ?thesis by (auto simp: row_ok_def snapshot_ok_def len awaiting_def)
  qed
  moreover have "executed_ok cfg ?db j" if "j \<in> set executed" for j
    using that ok by (fastforce simp: tables_ok_def executed_ok_def image len)
  moreover have "distinct (map (\<lambda>a. (ba_bridgeId a, ba_signerId a)) (ch_approvals ?db))"
    using ok new by (auto simp: defs tables_ok_def)
  moreover have "ba_signerId ` set (ch_approvals ?db) \<subseteq> bg_signers cfg"
    using ok signer by (auto simp: defs tables_ok_def)
  ultimately show ?thesis using ok by (simp add: tables_ok_def)
qed

lemma commitApproval_ok:
  assumes ok: "tables_ok cfg executed db" and signer: "signerId \<in> bg_signers cfg"
    and run: "commitApproval now newId k signerId db = Inr ((b, shouldExecute), db')"
  shows "tables_ok cfg (if shouldExecute then k # executed else executed) db'"
    and "length (approvalsOf j db) \<le> length (approvalsOf j db')"
    and "shouldExecute \<Longrightarrow> snapshot_ok cfg db' b \<and> cb_id b = k"
proof -
  define db1 where "db1 = recordApproval now newId k signerId db"
  obtain updated where row: "row_of cb_id k (ch_bridges db1) = Some updated"
    and new: "(k, signerId) \<notin> (\<lambda>a. (ba_bridgeId a, ba_signerId a)) ` set (ch_approvals db)"
    and out: "\<not> shouldExecute \<and> db' = db1 \<and> b = updated \<or>
      cb_multisigThreshold updated \<le> cb_multisigApprovals updated \<and>
       flipStatus k db1 = (shouldExecute, db') \<and> b = updated\<lparr>cb_status := BRIDGE_PROCESSING\<rparr>"
    using commitApproval_Inr [OF run] unfolding db1_def by blast
  have ok1: "tables_ok cfg executed db1"
    unfolding db1_def by (rule tables_ok_record [OF ok signer new])
  have upd: "snapshot_ok cfg db1 updated" "cb_id updated = k"
    using row_of_Some_in [OF row] ok1 by (simp_all add: tables_ok_def row_ok_def)
  have grown: "length (approvalsOf j db) \<le> length (approvalsOf j db1)" for j
    by (simp add: db1_def length_approvalsOf_record)
  have same: "approvalsOf j db' = approvalsOf j db1" for j
    using out flipStatus_fields by (auto simp: approvalsOf_def)
  show "length (approvalsOf j db) \<le> length (approvalsOf j db')" by (simp add: same grown)
  show "snapshot_ok cfg db' b \<and> cb_id b = k" if shouldExecute
    using out upd that by (auto simp: snapshot_ok_def same)
  from out show "tables_ok cfg (if shouldExecute then k # executed else executed) db'"
  proof
    assume "\<not> shouldExecute \<and> db' = db1 \<and> b = updated"
    with ok1 show ?thesis by simp
  next
    assume flip: "cb_multisigThreshold updated \<le> cb_multisigApprovals updated \<and>
      flipStatus k db1 = (shouldExecute, db') \<and> b = updated\<lparr>cb_status := BRIDGE_PROCESSING\<rparr>"
    then have "bg_multisigThreshold cfg \<le> length (approvalsOf k db1)"
      using upd by (simp add: snapshot_ok_def)
    with flip show ?thesis by (intro tables_ok_flip [OF ok1]) simp_all
  qed
qed

lemma actionKeeps_db [simp]: "actionKeeps R actionOf (g\<lparr>gw_db := db\<rparr>) = actionKeeps R actionOf g"
  by (simp add: actionKeeps_def)

lemma gwSaveBridge_simps [simp]:
  "gw_db (gwSaveBridge b g) = saveBridge b (gw_db g)"
  "actionKeeps R actionOf (gwSaveBridge b g) = actionKeeps R actionOf g"
  by (simp_all add: gwSaveBridge_def)

lemma payDestination_keeps:
  assumes "opossum_ok lib actionOf" and "actionKeeps R actionOf g" and "\<And>db. R db db"
    and "payDestination lib sdk env b g = (r, g')"
  shows "R (gw_db g) (gw_db g') \<and> actionKeeps R actionOf g'"
    and "r = Inr b' \<Longrightarrow> \<exists>h. b' = b\<lparr>cb_destinationTxHash := h\<rparr>"
  using assms withdraw_keeps [OF assms(1-3)]
  by (auto simp: payDestination_def split: if_splits prod.splits sum.splits intro: exI [where x = "cb_destinationTxHash b"])

lemma refundBridge_keeps:
  assumes "opossum_ok lib actionOf" and "actionKeeps R actionOf g" and "\<And>db. R db db"
  shows "\<exists>db. R (gw_db g) db \<and> actionKeeps R actionOf (refundBridge lib sdk env b g) \<and>
    (gw_db (refundBridge lib sdk env b g) = db \<or>
     gw_db (refundBridge lib sdk env b g) = saveBridge (b\<lparr>cb_status := REFUNDED\<rparr>) db)"
proof -
  define paid where "paid = (if cb_sourceNetwork b = STELLAR
    then withdraw lib sdk env (cb_userId b) (cb_sourceAddress b) (cb_amount b)
           (Some (''refund:'' @ cb_id b)) g
    else (Inr SuccessStub, g))"
  have paid: "R (gw_db g) (gw_db (snd paid)) \<and> actionKeeps R actionOf (snd paid)"
    using assms withdraw_keeps [OF assms, of sdk env "cb_userId b" "cb_sourceAddress b" "cb_amount b"
        "Some (''refund:'' @ cb_id b)" "fst paid" "snd paid"]
    by (auto simp: paid_def)
  moreover have "refundBridge lib sdk env b g = (case fst paid of Inl e \<Rightarrow> snd paid
      | Inr _ \<Rightarrow> gwSaveBridge (b\<lparr>cb_status := REFUNDED\<rparr>) (snd paid))"
    unfolding refundBridge_def paid_def Let_def ..
  ultimately show ?thesis by (cases "fst paid") auto
qed

definition bridge_inv ::
  "bridge_config \<Rightarrow> ('b \<Rightarrow> (unit, chain_db, withdraw_value) asyncFn) \<Rightarrow> 'b bridge_sys \<Rightarrow> bool" where
  "bridge_inv cfg actionOf s \<longleftrightarrow>
     tables_ok cfg (sy_executed s) (sy_db s) \<and>
     (\<forall>t\<in>#sy_tasks s. task_ok cfg (sy_executed s) (sy_db s) t) \<and>
     actionKeeps sameBridges actionOf (sy_gateway s)"

text \<open>A step that keeps what was executed and loses no approval keeps every waiting task.\<close>

lemma bridge_invI:
  assumes "bridge_inv cfg actionOf s" and "sy_tasks s = add_mset t rest"
    and "\<And>k. length (approvalsOf k (sy_db s)) \<le> length (approvalsOf k (sy_db s'))"
    and "set (sy_executed s) \<subseteq> set (sy_executed s')"
    and "tables_ok cfg (sy_executed s') (sy_db s')"
    and "actionKeeps sameBridges actionOf (sy_gateway s')"
    and "sy_tasks s' = rest \<or> (\<exists>t'. sy_tasks s' = add_mset t' rest \<and>
          task_ok cfg (sy_executed s') (sy_db s') t')"
  shows "bridge_inv cfg actionOf s'"
proof -
  have "task_ok cfg (sy_executed s') (sy_db s') u" if "u \<in># rest" for u
    using assms(1-4) that by (auto simp: bridge_inv_def intro: task_ok_mono)
  with assms(5-7) show ?thesis by (auto simp: bridge_inv_def)
qed

lemma bridge_inv_task: "bridge_inv cfg actionOf s \<Longrightarrow> sy_tasks s = add_mset t rest \<Longrightarrow>
    task_ok cfg (sy_executed s) (sy_db s) t"
  by (simp add: bridge_inv_def)

lemma initiateBridge_ok:
  assumes "tables_ok cfg executed db" and "row_of cb_id newId (ch_bridges db) = None"
    and "initiateBridge cfg now newId userId src dst srcAddr dstAddr amount db = (b, db')"
  shows "tables_ok cfg executed db' \<and> approvalsOf k db' = approvalsOf k db"
proof -
  have b: "db' = saveBridge b db" "cb_id b = newId" "cb_multisigApprovals b = 0"
    "cb_multisigThreshold b = bg_multisigThreshold cfg" "awaiting b"
    using assms(3) by (auto simp: initiateBridge_def Let_def awaiting_def)
  have "newId \<notin> set executed"
    using assms(1,2) by (auto simp: tables_ok_def executed_ok_def row_of_None_iff)
  then have "row_ok cfg executed db b" by (simp add: row_ok_def snapshot_ok_def b)
  with assms(1) show ?thesis by (simp add: b(1) tables_ok_save)
qed

lemma task_ok_iff: "taskBridge t = Some b \<Longrightarrow>
    task_ok cfg executed db t \<longleftrightarrow> snapshot_ok cfg db b \<and> cb_id b \<in> set executed"
  by (cases t) auto

definition later_row :: "CrossChainBridge \<Rightarrow> CrossChainBridge \<Rightarrow> bool" where
  "later_row b b' \<longleftrightarrow> cb_id b' = cb_id b \<and> cb_multisigApprovals b' = cb_multisigApprovals b \<and>
     cb_multisigThreshold b' = cb_multisigThreshold b \<and> \<not> awaiting b'"

lemma later_rows:
  "later_row b (destinationPending b)" "later_row b (completed b)" "later_row b (failedWith e b)"
  "later_row b (b\<lparr>cb_status := REFUNDED\<rparr>)"
  by (simp_all add: later_row_def destinationPending_def completed_def failedWith_def awaiting_def)

lemma later_row_ok:
  assumes "task_ok cfg executed db t" and "taskBridge t = Some b" and "later_row b b'"
  shows "row_ok cfg executed db b' \<and> snapshot_ok cfg db b' \<and> cb_id b' \<in> set executed"
  using assms(1,3)
  by (simp add: task_ok_iff [OF assms(2)] later_row_def row_ok_def snapshot_ok_def)

text \<open>The steps of an execution that only save the row they carry, in a later state.\<close>

lemma bridge_inv_save:
  assumes inv: "bridge_inv cfg actionOf s" and tasks: "sy_tasks s = add_mset t rest"
    and t: "taskBridge t = Some b" "later_row b b'"
    and next_tasks: "tasks' = rest \<or> (\<exists>t'. tasks' = add_mset t' rest \<and> taskBridge t' = Some b')"
  shows "bridge_inv cfg actionOf
    (s\<lparr>sy_gateway := gwSaveBridge b' (sy_gateway s), sy_tasks := tasks'\<rparr>)" (is "bridge_inv _ _ ?s")
proof -
  have row: "row_ok cfg (sy_executed s) (sy_db s) b'" "snapshot_ok cfg (sy_db s) b'"
    "cb_id b' \<in> set (sy_executed s)"
    using later_row_ok [OF bridge_inv_task [OF inv tasks] t] by simp_all
  show ?thesis
  proof (rule bridge_invI [OF inv tasks])
    show "tables_ok cfg (sy_executed ?s) (sy_db ?s)"
      using inv row(1) by (simp add: bridge_inv_def tables_ok_save)
    show "actionKeeps sameBridges actionOf (sy_gateway ?s)" using inv by (simp add: bridge_inv_def)
    show "sy_tasks ?s = rest \<or> (\<exists>t'. sy_tasks ?s = add_mset t' rest \<and>
        task_ok cfg (sy_executed ?s) (sy_db ?s) t')"
      using next_tasks row(2,3) by (auto simp: task_ok_iff)
  qed simp_all
qed

lemma bridge_step_inv:
  assumes "bridge_step lib sdk cfg s s'" and "opossum_ok lib actionOf" and inv: "bridge_inv cfg actionOf s"
  shows "bridge_inv cfg actionOf s'"
  using assms(1)
proof cases
  case (initiating newId now userId src dst srcAddr dstAddr amount b db)
  have "tables_ok cfg (sy_executed s) (sy_db s)" using inv by (simp add: bridge_inv_def)
  note ok = initiateBridge_ok [OF this initiating(2,3)]
  have "task_ok cfg (sy_executed s) db t" if "t \<in># sy_tasks s" for t
  proof (rule task_ok_mono)
    show "task_ok cfg (sy_executed s) (sy_db s) t" using inv that by (simp add: bridge_inv_def)
  qed (simp_all add: ok)
  then show ?thesis using inv ok by (simp add: initiating(1) bridge_inv_def)
next
  case (admitting signerId bridgeId)
  with inv show ?thesis by (simp add: bridge_inv_def checkSigner_def)
next
  case (committing bridgeId signerId rest now newId b shouldExecute db)
  have "tables_ok cfg (sy_executed s) (sy_db s)" "signerId \<in> bg_signers cfg"
    using inv bridge_inv_task [OF inv committing(2)] by (simp_all add: bridge_inv_def)
  note ok = commitApproval_ok [OF this committing(3)]
  show ?thesis
  proof (rule bridge_invI [OF inv committing(2)])
    show "actionKeeps sameBridges actionOf (sy_gateway s')"
      using inv by (simp add: committing(1) bridge_inv_def)
  qed (use ok in \<open>auto simp: committing(1)\<close>)
next
  case (refusing bridgeId signerId rest now newId e)
  with inv show ?thesis by (intro bridge_invI [OF inv refusing(2)]) (auto simp: bridge_inv_def)
next
  case (starting b rest)
  show ?thesis unfolding starting(1)
    by (rule bridge_inv_save [OF inv starting(2) _ later_rows(1)]) simp_all
next
  case (paying b rest env b' g)
  have keeps: "actionKeeps sameBridges actionOf (sy_gateway s)" using inv by (simp add: bridge_inv_def)
  note same = tables_ok_same [of "sy_db s" "gw_db g"]
  have g: "sameBridges (sy_db s) (gw_db g)" "actionKeeps sameBridges actionOf g"
    using payDestination_keeps(1) [OF assms(2) keeps _ paying(3)] by (simp_all add: sameBridges_def)
  obtain h where "b' = b\<lparr>cb_destinationTxHash := h\<rparr>"
    using payDestination_keeps(2) [OF assms(2) keeps _ paying(3)] by (auto simp: sameBridges_def)
  then have "task_ok cfg (sy_executed s) (sy_db s) (Completing b')"
    using bridge_inv_task [OF inv paying(2)] by (simp add: snapshot_ok_def)
  then show ?thesis
    using inv g by (intro bridge_invI [OF inv paying(2)])
      (simp_all add: paying(1) same [OF g(1)] bridge_inv_def)
next
  case (paying_fails b rest env e g)
  have keeps: "actionKeeps sameBridges actionOf (sy_gateway s)" using inv by (simp add: bridge_inv_def)
  have g: "sameBridges (sy_db s) (gw_db g)" "actionKeeps sameBridges actionOf g"
    using payDestination_keeps(1) [OF assms(2) keeps _ paying_fails(3)] by (simp_all add: sameBridges_def)
  show ?thesis
    using inv g bridge_inv_task [OF inv paying_fails(2)]
    by (intro bridge_invI [OF inv paying_fails(2)])
      (simp_all add: paying_fails(1) tables_ok_same [OF g(1)] bridge_inv_def)
next
  case (completing b rest)
  show ?thesis unfolding completing(1)
    by (rule bridge_inv_save [OF inv completing(2) _ later_rows(2)]) simp_all
next
  case (failing e b rest)
  show ?thesis unfolding failing(1)
    by (rule bridge_inv_save [OF inv failing(2) _ later_rows(3)]) simp_all
next
  case (refunding b rest env)
  let ?g = "refundBridge lib sdk env b (sy_gateway s)"
  have keeps: "actionKeeps sameBridges actionOf (sy_gateway s)" using inv by (simp add: bridge_inv_def)
  obtain db where same: "sameBridges (sy_db s) db" and g: "actionKeeps sameBridges actionOf ?g"
    and cases: "gw_db ?g = db \<or> gw_db ?g = saveBridge (b\<lparr>cb_status := REFUNDED\<rparr>) db"
    using refundBridge_keeps [OF assms(2) keeps, of sdk env b] by (auto simp: sameBridges_def)
  have "row_ok cfg (sy_executed s) db (b\<lparr>cb_status := REFUNDED\<rparr>)"
    using later_row_ok [OF bridge_inv_task [OF inv refunding(2)] _ later_rows(4)]
    by (simp add: row_ok_def tables_ok_same(2) [OF same])
  moreover have "tables_ok cfg (sy_executed s) db"
    using inv by (simp add: bridge_inv_def tables_ok_same(3) [OF same])
  ultimately have "tables_ok cfg (sy_executed s) (gw_db ?g)"
    using cases by (auto intro: tables_ok_save)
  moreover have "approvalsOf k (gw_db ?g) = approvalsOf k (sy_db s)" for k
    using cases tables_ok_same(1) [OF same] by auto
  ultimately show ?thesis
    using g by (intro bridge_invI [OF inv refunding(2)]) (simp_all add: refunding(1))
qed

lemma bridge_run_inv:
  assumes "(bridge_step lib sdk cfg)\<^sup>*\<^sup>* s s'" and "opossum_ok lib actionOf" and "bridge_inv cfg actionOf s"
  shows "bridge_inv cfg actionOf s'"
  using assms(1,3) by (induction rule: rtranclp_induct) (auto intro: bridge_step_inv [OF _ assms(2)])

text \<open>The system as it starts: no bridge, no request under way.\<close>

definition emptyChain :: "WalletAddress list \<Rightarrow> chain_db" where
  "emptyChain wallets = \<lparr>ch_bridges = [], ch_approvals = [], ch_txs = [], ch_wallets = wallets, ch_payments = []\<rparr>"

definition startGateway :: "'b breaker_lib \<Rightarrow> WalletAddress list \<Rightarrow> 'b gateway" where
  "startGateway lib wallets =
     onModuleInit lib \<lparr>gw_db = emptyChain wallets, gw_breakers = freshBreakers,
       gw_bulkheads = \<lparr>bs_bulkheads = [], bs_metrics = []\<rparr>\<rparr>"

definition startSystem :: "'b gateway \<Rightarrow> 'b bridge_sys" where
  "startSystem g = \<lparr>sy_gateway = g, sy_tasks = {#}, sy_executed = []\<rparr>"

lemma startSystem_inv:
  assumes "actionKeeps sameBridges actionOf g" and "ch_bridges (gw_db g) = []" "ch_approvals (gw_db g) = []"
  shows "bridge_inv cfg actionOf (startSystem g)"
  using assms by (simp add: bridge_inv_def startSystem_def tables_ok_def keyed_def)

section \<open>The handler is a run\<close>

lemma executeBridge_run:
  assumes "executeBridge lib sdk env env' b (sy_gateway s) = (r, g)"
    and "sy_tasks s = add_mset (Starting b) rest"
  shows "(bridge_step lib sdk cfg)\<^sup>*\<^sup>* s (s\<lparr>sy_gateway := g, sy_tasks := rest\<rparr>)"
proof -
  let ?b = "destinationPending b"
  let ?s1 = "s\<lparr>sy_gateway := gwSaveBridge ?b (sy_gateway s), sy_tasks := add_mset (Paying ?b) rest\<rparr>"
  obtain r' g' where pay: "payDestination lib sdk env ?b (sy_gateway ?s1) = (r', g')"
    by (cases "payDestination lib sdk env ?b (sy_gateway ?s1)") auto
  have first: "bridge_step lib sdk cfg s ?s1" by (rule starting [OF assms(2)])
  show ?thesis
  proof (cases r')
    case (Inr b')
    let ?s2 = "?s1\<lparr>sy_gateway := g', sy_tasks := add_mset (Completing b') rest\<rparr>"
    have "bridge_step lib sdk cfg ?s1 ?s2" using pay Inr by (intro paying) simp_all
    moreover have "bridge_step lib sdk cfg ?s2
        (?s2\<lparr>sy_gateway := gwSaveBridge (completed b') (sy_gateway ?s2), sy_tasks := rest\<rparr>)"
      by (rule completing) simp
    moreover have "g = gwSaveBridge (completed b') g'"
      using assms(1) pay Inr by (simp add: executeBridge_def Let_def)
    ultimately show ?thesis using first by (auto intro: converse_rtranclp_into_rtranclp)
  next
    case (Inl e)
    let ?s2 = "?s1\<lparr>sy_gateway := g', sy_tasks := add_mset (Failing e ?b) rest\<rparr>"
    let ?s3 = "?s2\<lparr>sy_gateway := gwSaveBridge (failedWith e ?b) (sy_gateway ?s2),
      sy_tasks := add_mset (Refunding (failedWith e ?b)) rest\<rparr>"
    have "bridge_step lib sdk cfg ?s1 ?s2" using pay Inl by (intro paying_fails) simp_all
    moreover have "bridge_step lib sdk cfg ?s2 ?s3" by (rule failing) simp
    moreover have "bridge_step lib sdk cfg ?s3
        (?s3\<lparr>sy_gateway := refundBridge lib sdk env' (failedWith e ?b) (sy_gateway ?s3), sy_tasks := rest\<rparr>)"
      by (rule refunding) simp
    moreover have "g = refundBridge lib sdk env' (failedWith e ?b) (gwSaveBridge (failedWith e ?b) g')"
      using assms(1) pay Inl by (simp add: executeBridge_def Let_def)
    ultimately show ?thesis using first by (auto intro: converse_rtranclp_into_rtranclp)
  qed
qed

lemma addApproval_run:
  assumes "addApproval lib sdk cfg now newId env env' k signerId (sy_gateway s) = (r, g)"
  shows "\<exists>executed. (bridge_step lib sdk cfg)\<^sup>*\<^sup>* s (s\<lparr>sy_gateway := g, sy_executed := executed\<rparr>)"
proof (cases "rbind (checkSigner cfg signerId) (\<lambda>_. checkAwaiting k (sy_db s))")
  case (Inl e)
  then have "g = sy_gateway s"
    using assms by (cases "checkSigner cfg signerId"; cases "checkAwaiting k (sy_db s)")
      (auto simp: addApproval_def)
  then show ?thesis by (intro exI [where x = "sy_executed s"]) simp
next
  case (Inr u)
  then have checks: "checkSigner cfg signerId = Inr ()" "checkAwaiting k (sy_db s) = Inr ()" by auto
  let ?s1 = "s\<lparr>sy_tasks := add_mset (Approving k signerId) (sy_tasks s)\<rparr>"
  have first: "bridge_step lib sdk cfg s ?s1" by (rule admitting [OF checks])
  show ?thesis
  proof (cases "commitApproval now newId k signerId (sy_db s)")
    case (Inl e)
    then have "bridge_step lib sdk cfg ?s1 (?s1\<lparr>sy_tasks := sy_tasks s\<rparr>)"
      by (intro refusing) simp_all
    moreover have "g = sy_gateway s" using assms checks Inl by (simp add: addApproval_def)
    ultimately show ?thesis using first by (intro exI [where x = "sy_executed s"]) auto
  next
    case (Inr out)
    obtain b shouldExecute db where out: "out = ((b, shouldExecute), db)" by (cases out) auto
    let ?s2 = "?s1\<lparr>sy_gateway := (sy_gateway ?s1)\<lparr>gw_db := db\<rparr>,
      sy_tasks := (if shouldExecute then add_mset (Starting b) (sy_tasks s) else sy_tasks s),
      sy_executed := (if shouldExecute then k # sy_executed ?s1 else sy_executed ?s1)\<rparr>"
    have "bridge_step lib sdk cfg ?s1 ?s2"
      using Inr out by (intro committing) simp_all
    with first have two: "(bridge_step lib sdk cfg)\<^sup>*\<^sup>* s ?s2"
      by (auto intro: converse_rtranclp_into_rtranclp)
    show ?thesis
    proof (cases shouldExecute)
      case True
      then have "executeBridge lib sdk env env' b (sy_gateway ?s2) = (r, g)"
        using assms checks Inr out by (simp add: addApproval_def)
      moreover have "sy_tasks ?s2 = add_mset (Starting b) (sy_tasks s)" using True by simp
      ultimately have "(bridge_step lib sdk cfg)\<^sup>*\<^sup>* ?s2 (?s2\<lparr>sy_gateway := g, sy_tasks := sy_tasks s\<rparr>)"
        by (rule executeBridge_run)
      with two have "(bridge_step lib sdk cfg)\<^sup>*\<^sup>* s (?s2\<lparr>sy_gateway := g, sy_tasks := sy_tasks s\<rparr>)"
        by (rule rtranclp_trans)
      moreover have "?s2\<lparr>sy_gateway := g, sy_tasks := sy_tasks s\<rparr> =
          s\<lparr>sy_gateway := g, sy_executed := k # sy_executed s\<rparr>"
        using True by (cases s) simp
      ultimately show ?thesis by metis
    next
      case False
      then have "g = (sy_gateway s)\<lparr>gw_db := db\<rparr>"
        using assms checks Inr out by (simp add: addApproval_def)
      then have "?s2 = s\<lparr>sy_gateway := g, sy_executed := sy_executed s\<rparr>"
        using False by (cases s) simp
      with two show ?thesis by metis
    qed
  qed
qed

section \<open>The registered stub pays nobody\<close>

definition stubbed :: "('b \<Rightarrow> (unit, chain_db, withdraw_value) asyncFn) \<Rightarrow> 'b gateway \<Rightarrow> bool" where
  "stubbed actionOf g \<longleftrightarrow>
     actionUnder actionOf circuitBreakerName (gw_breakers g) = Some registeredStub"

text \<open>What leaves the payments and the transaction records as they are.\<close>

definition samePayments :: "chain_db \<Rightarrow> chain_db \<Rightarrow> bool" where
  "samePayments db db' \<longleftrightarrow> ch_payments db' = ch_payments db \<and> ch_txs db' = ch_txs db"

lemma onModuleInit_stubbed:
  assumes "opossum_ok lib actionOf" and "map_of (cs_breakers (gw_breakers g)) circuitBreakerName = None"
  shows "stubbed actionOf (onModuleInit lib g)"
  using assms by (simp add: stubbed_def onModuleInit_def registerBreaker_action circuitBreakerOptions_def)

lemma stubbed_keeps: "stubbed actionOf g \<Longrightarrow> (\<And>db. R db db) \<Longrightarrow> actionKeeps R actionOf g"
  by (simp add: stubbed_def actionKeeps_def registeredStub_def)

lemma startGateway_stubbed: "opossum_ok lib actionOf \<Longrightarrow> stubbed actionOf (startGateway lib wallets)"
  unfolding startGateway_def by (rule onModuleInit_stubbed) (simp_all add: freshBreakers_def)

lemma startGateway_fields [simp]: "gw_db (startGateway lib wallets) = emptyChain wallets"
  by (simp add: startGateway_def onModuleInit_def)

lemma samePayments_refl [simp]: "samePayments db db"
  by (simp add: samePayments_def)

lemma samePayments_trans: "samePayments a b \<Longrightarrow> samePayments b c \<Longrightarrow> samePayments a c"
  by (simp add: samePayments_def)

lemma samePayments_save [simp]: "samePayments a (saveBridge b db) = samePayments a db"
  by (simp add: samePayments_def saveBridge_def)

lemma commitApproval_payments:
  assumes "commitApproval now newId k signerId db = Inr (out, db')"
  shows "samePayments db db'"
  using assms
  by (auto simp: commitApproval_def Let_def flipStatus_def recordApproval_def incrementApprovals_def
      samePayments_def split: if_splits option.splits)

lemma bridge_step_payments:
  assumes "bridge_step lib sdk cfg s s'" and lib: "opossum_ok lib actionOf"
    and keeps: "actionKeeps samePayments actionOf (sy_gateway s)"
  shows "samePayments (sy_db s) (sy_db s') \<and> actionKeeps samePayments actionOf (sy_gateway s')"
  using assms(1)
proof cases
  case (initiating newId now userId src dst srcAddr dstAddr amount b db)
  then show ?thesis using keeps by (auto simp: initiateBridge_def Let_def)
next
  case (committing bridgeId signerId rest now newId b shouldExecute db)
  then show ?thesis using keeps commitApproval_payments [OF committing(3)] by simp
next
  case (paying b rest env b' g)
  then show ?thesis
    using payDestination_keeps(1) [OF lib keeps _ paying(3)] by simp
next
  case (paying_fails b rest env e g)
  then show ?thesis
    using payDestination_keeps(1) [OF lib keeps _ paying_fails(3)] by simp
next
  case (refunding b rest env)
  then show ?thesis
    using refundBridge_keeps [OF lib keeps, of sdk env b] by auto
qed (use keeps in \<open>simp_all\<close>)

lemma bridge_run_payments:
  assumes "(bridge_step lib sdk cfg)\<^sup>*\<^sup>* s s'" and "opossum_ok lib actionOf"
    and "actionKeeps samePayments actionOf (sy_gateway s)"
  shows "samePayments (sy_db s) (sy_db s') \<and> actionKeeps samePayments actionOf (sy_gateway s')"
  using assms(1)
proof (induction rule: rtranclp_induct)
  case base
  then show ?case using assms(3) by simp
next
  case (step t u)
  then show ?case using bridge_step_payments [OF step(2) assms(2)] samePayments_trans by blast
qed

section \<open>Properties\<close>

definition ex_sdk :: stellar_sdk where
  "ex_sdk = \<lparr>sd_publicKey = ''GPLATFORM'', sd_loadAccount = (\<lambda>_. Inr ()), sd_memoText = (\<lambda>_. Inr ()),
     sd_submit = (\<lambda>p ps. Inr ''hash'')\<rparr>"

definition ex_bridge_config :: bridge_config where
  "ex_bridge_config = \<lparr>bg_multisigThreshold = 2, bg_signers = authorizedSigners ''ann, bob''\<rparr>"

definition ex_wallet :: WalletAddress where
  "ex_wallet = \<lparr>wa_id = ''w'', wa_userId = ''u'', wa_network = STELLAR, wa_address = ''GUSER'',
     wa_encryptedPrivateKey = ''S'', wa_isActive = True\<rparr>"

definition ex_env :: call_env where
  "ex_env = \<lparr>ce_now = 5, ce_newId = ''tx'', ce_timedOut = False\<rparr>"

type_synonym tiny_gateway = "((unit, chain_db, withdraw_value) asyncFn \<times> bool) gateway"

definition ex_gateway0 :: tiny_gateway where
  "ex_gateway0 = startGateway tinyOpossum [ex_wallet]"

definition ex_gateway1 :: tiny_gateway where
  "ex_gateway1 = ex_gateway0\<lparr>gw_db := snd (initiateBridge ex_bridge_config 1 ''b1'' ''u'' ETHEREUM STELLAR
     ''0xA'' ''GUSER'' 100 (gw_db ex_gateway0))\<rparr>"

definition ex_gateway2 :: tiny_gateway where
  "ex_gateway2 = snd (addApproval tinyOpossum ex_sdk ex_bridge_config 2 ''a1'' ex_env ex_env ''b1'' ''ann'' ex_gateway1)"

definition ex_gateway3 :: tiny_gateway where
  "ex_gateway3 = snd (addApproval tinyOpossum ex_sdk ex_bridge_config 3 ''a2'' ex_env ex_env ''b1'' ''bob'' ex_gateway2)"

lemma ex_bridge_reachable:
  "\<exists>executed. (bridge_step tinyOpossum ex_sdk ex_bridge_config)\<^sup>*\<^sup>* (startSystem ex_gateway0)
     \<lparr>sy_gateway = ex_gateway3, sy_tasks = {#}, sy_executed = executed\<rparr>"
proof -
  let ?step = "bridge_step tinyOpossum ex_sdk ex_bridge_config"
  have "row_of cb_id ''b1'' (ch_bridges (sy_db (startSystem ex_gateway0))) = None"
    by (simp add: startSystem_def ex_gateway0_def emptyChain_def)
  then have "?step (startSystem ex_gateway0)
      ((startSystem ex_gateway0)\<lparr>sy_gateway := (sy_gateway (startSystem ex_gateway0))\<lparr>gw_db :=
         gw_db ex_gateway1\<rparr>\<rparr>)"
    by (rule initiating) (simp add: startSystem_def ex_gateway1_def prod_eq_iff)
  then have one: "?step (startSystem ex_gateway0)
      \<lparr>sy_gateway = ex_gateway1, sy_tasks = {#}, sy_executed = []\<rparr>"
    by (simp add: startSystem_def ex_gateway1_def)
  have approve: "\<exists>executed'. ?step\<^sup>*\<^sup>* \<lparr>sy_gateway = g, sy_tasks = {#}, sy_executed = executed\<rparr>
      \<lparr>sy_gateway = snd (addApproval tinyOpossum ex_sdk ex_bridge_config now newId ex_env ex_env k signerId g),
       sy_tasks = {#}, sy_executed = executed'\<rparr>" for g executed now newId k signerId
    using addApproval_run [where s = "\<lparr>sy_gateway = g, sy_tasks = {#}, sy_executed = executed\<rparr>"]
    by (fastforce simp: prod_eq_iff)
  show ?thesis
    using one approve unfolding ex_gateway2_def ex_gateway3_def
    by (meson converse_rtranclp_into_rtranclp rtranclp_trans)
qed

lemma ex_signers: "bg_signers ex_bridge_config = {''ann'', ''bob''}"
  by (simp add: ex_bridge_config_def authorizedSigners_def trim_def isBlank_def)

lemmas gateway_run = addApproval_def checkSigner_def checkAwaiting_def throw_unless_def commitApproval_def
  recordApproval_def incrementApprovals_def flipStatus_def awaiting_def Let_def row_of_def
  executeBridge_def payDestination_def destinationPending_def completed_def gwSaveBridge_def
  saveBridge_def save_row_def withdraw_def executeIn_def withdrawThroughBreaker_def execute_def
  raceTimeout_def canTimeOut_def ex_env_def settleTask_def task_defs updateBreaker_def

lemma ex_gateway0_eq:
  "ex_gateway0 = \<lparr>gw_db = emptyChain [ex_wallet],
     gw_breakers = \<lparr>cs_breakers = [(''stellar-horizon'', (registeredStub, False))],
       cs_metrics = [(''stellar-horizon'', createEmptyMetrics ''stellar-horizon'')]\<rparr>,
     gw_bulkheads = \<lparr>bs_bulkheads = [(''stellar-bulkhead'', bulkheadConfig)],
       bs_metrics = [(''stellar-bulkhead'', emptyBulkheadMetrics bulkheadConfig)]\<rparr>\<rparr>"
  by (simp add: ex_gateway0_def startGateway_def onModuleInit_def freshBreakers_def registerBreaker_def
      circuitBreakerOptions_def circuitBreakerName_def bulkheadName_def bulkheadConfig_def
      createBulkhead_def Let_def initializeMetrics_def tinyOpossum_def)

lemma ex_gateway3_bridges:
  "ch_bridges (gw_db ex_gateway3) =
    [\<lparr>cb_id = ''b1'', cb_userId = ''u'', cb_sourceNetwork = ETHEREUM, cb_destinationNetwork = STELLAR,
      cb_sourceAddress = ''0xA'', cb_destinationAddress = ''GUSER'', cb_amount = 100, cb_asset = ''USDC'',
      cb_status = COMPLETED, cb_sourceTxHash = None, cb_destinationTxHash = None,
      cb_multisigApprovals = 2, cb_multisigThreshold = 2, cb_errorMessage = None, cb_createdAt = 1\<rparr>]"
  by (simp add: ex_gateway3_def ex_gateway2_def ex_gateway1_def ex_gateway0_eq ex_signers
      ex_bridge_config_def [THEN arg_cong, of bg_multisigThreshold] initiateBridge_def emptyChain_def
      gateway_run tinyOpossum_def registeredStub_def circuitBreakerName_def bulkheadName_def
      bulkheadConfig_def)

text \<open>
  C15. No transfer without a quorum, and none twice.  However the requests of many signers and the
  executions they trigger interleave, a bridge is executed at most once, and every bridge that has
  left the waiting states was approved by at least the threshold of distinct, authorized signers.
  The action behind the payment gateway may be anything that leaves the bridge tables alone.
\<close>

theorem bridge_executes_once_with_quorum:
  assumes "opossum_ok lib actionOf" and "actionKeeps sameBridges actionOf g"
    and "ch_bridges (gw_db g) = []" and "ch_approvals (gw_db g) = []"
    and "(bridge_step lib sdk cfg)\<^sup>*\<^sup>* (startSystem g) s"
  shows "distinct (sy_executed s) \<and>
    (\<forall>b\<in>set (ch_bridges (sy_db s)). \<not> awaiting b \<longrightarrow>
       (let signers = map ba_signerId (approvalsOf (cb_id b) (sy_db s))
        in distinct signers \<and> set signers \<subseteq> bg_signers cfg \<and>
           bg_multisigThreshold cfg \<le> length signers))"
proof -
  have "bridge_inv cfg actionOf s"
    by (rule bridge_run_inv [OF assms(5,1)]) (rule startSystem_inv [OF assms(2-4)])
  then have ok: "tables_ok cfg (sy_executed s) (sy_db s)" by (simp add: bridge_inv_def)
  have "distinct (map ba_signerId (approvalsOf k (sy_db s)))" for k
    using ok by (auto simp: tables_ok_def approvalsOf_def distinct_map inj_on_def)
  moreover have "set (map ba_signerId (approvalsOf k (sy_db s))) \<subseteq> bg_signers cfg" for k
    using ok by (auto simp: tables_ok_def approvalsOf_def)
  moreover have "bg_multisigThreshold cfg \<le> length (approvalsOf (cb_id b) (sy_db s))"
    if "b \<in> set (ch_bridges (sy_db s))" "\<not> awaiting b" for b
    using ok that by (simp add: tables_ok_def row_ok_def executed_ok_def)
  ultimately show ?thesis using ok by (simp add: tables_ok_def Let_def)
qed

theorem bridge_executes_once_with_quorum_witness:
  "map cb_status (ch_bridges (gw_db ex_gateway3)) = [COMPLETED] \<and>
   (let signers = map ba_signerId (approvalsOf ''b1'' (gw_db ex_gateway3))
    in distinct signers \<and> set signers \<subseteq> {''ann'', ''bob''} \<and> 2 \<le> length signers)"
proof -
  obtain executed where run: "(bridge_step tinyOpossum ex_sdk ex_bridge_config)\<^sup>*\<^sup>* (startSystem ex_gateway0)
     \<lparr>sy_gateway = ex_gateway3, sy_tasks = {#}, sy_executed = executed\<rparr>"
    using ex_bridge_reachable by blast
  have "stubbed fst ex_gateway0"
    unfolding ex_gateway0_def by (rule startGateway_stubbed [OF tinyOpossum_ok])
  then have "actionKeeps sameBridges fst ex_gateway0"
    by (rule stubbed_keeps) (simp add: sameBridges_def)
  moreover have "ch_bridges (gw_db ex_gateway0) = []" "ch_approvals (gw_db ex_gateway0) = []"
    by (simp_all add: ex_gateway0_def emptyChain_def)
  ultimately show ?thesis
    using bridge_executes_once_with_quorum [OF tinyOpossum_ok _ _ _ run]
    by (simp add: ex_gateway3_bridges awaiting_def ex_signers ex_bridge_config_def [THEN arg_cong, of bg_multisigThreshold])
qed

text \<open>
  A transfer to Stellar completes without a payment.  The gateway registers a stub for its
  breaker, and the breaker runs the function it was constructed with, not the one it is handed.
  So in every state the bridge can reach, with any behaviour of the Stellar network and of the
  breaker package, no payment was ever submitted and no transaction recorded, for completed
  bridges as for refunded ones.
\<close>

theorem bridge_completes_without_payment:
  assumes "opossum_ok lib actionOf"
    and "(bridge_step lib sdk cfg)\<^sup>*\<^sup>* (startSystem (startGateway lib wallets)) s"
  shows "ch_payments (sy_db s) = [] \<and> ch_txs (sy_db s) = []"
proof -
  have "actionKeeps samePayments actionOf (startGateway lib wallets)"
    by (rule stubbed_keeps [OF startGateway_stubbed [OF assms(1)]]) simp
  with bridge_run_payments [OF assms(2,1)] show ?thesis
    by (simp add: startSystem_def samePayments_def emptyChain_def)
qed

theorem bridge_completes_without_payment_witness:
  "map cb_status (ch_bridges (gw_db ex_gateway3)) = [COMPLETED] \<and>
   map cb_amount (ch_bridges (gw_db ex_gateway3)) = [100] \<and>
   ch_payments (gw_db ex_gateway3) = [] \<and> ch_txs (gw_db ex_gateway3) = []"
proof -
  obtain executed where "(bridge_step tinyOpossum ex_sdk ex_bridge_config)\<^sup>*\<^sup>*
      (startSystem (startGateway tinyOpossum [ex_wallet]))
      \<lparr>sy_gateway = ex_gateway3, sy_tasks = {#}, sy_executed = executed\<rparr>"
    using ex_bridge_reachable unfolding ex_gateway0_def by blast
  from bridge_completes_without_payment [OF tinyOpossum_ok this] show ?thesis
    by (simp add: ex_gateway3_bridges)
qed

text \<open>
  C17. The handler refines the interleaved machine.  One call of \<open>addApproval\<close>, whatever it
  returns, is a run of the step relation that ends with no new task under way, so everything shown
  of the relation holds of handlers called one after another.
\<close>

theorem approval_handler_is_a_run:
  "\<exists>executed. (bridge_step lib sdk cfg)\<^sup>*\<^sup>* s
     (s\<lparr>sy_gateway := snd (addApproval lib sdk cfg now newId env env' k signerId (sy_gateway s)),
        sy_executed := executed\<rparr>)"
  by (rule addApproval_run) (rule prod.collapse [symmetric])

end
