(* ===== verification/Governance.thy ===== *)
theory Governance
  imports Prelude
begin

text \<open>
  Token governance: \<open>governance/services/governance.service.ts\<close> and the proposal, voting,
  delegation, execution and discussion services of \<open>governance/services/index.ts\<close>.

  The services compute with the decimal columns as the database driver hands them over, without
  converting them.  The driver is a parameter: SQLite returns numbers, PostgreSQL, the default,
  returns the decimal text, and JavaScript's \<open>+\<close> then concatenates.  So a value in the program is
  a \<open>jsval\<close>, a number or a text, a column is a real, \<open>dr_read\<close> leads from the column to the value
  and \<open>writeDecimal\<close> back; a text that is no number fails the query.

  Days are added as multiples of 24 hours.  Nothing here runs in a transaction: what was saved
  before an exception stays saved.
\<close>

section \<open>Values of decimal columns\<close>

datatype jsval = Num real | Text string

record driver =
  dr_read :: "real \<Rightarrow> jsval"
  dr_numberText :: "real \<Rightarrow> string"

definition isDigit :: "char \<Rightarrow> bool" where
  "isDigit c = (c \<in> set ''0123456789'')"

definition digitValue :: "char \<Rightarrow> real" where
  "digitValue c = real (of_char c - 48)"

fun wholeValue :: "real \<Rightarrow> string \<Rightarrow> real" where
  "wholeValue acc [] = acc"
| "wholeValue acc (c # cs) = wholeValue (acc * 10 + digitValue c) cs"

text \<open>The number a decimal text denotes: digits with at most one point.\<close>

definition parseDecimal :: "string \<Rightarrow> real option" where
  "parseDecimal s =
     (let whole = takeWhile (\<lambda>c. c \<noteq> CHR ''.'') s; frac = drop (length whole + 1) s
      in if whole \<noteq> [] \<and> list_all isDigit whole \<and> list_all isDigit frac
         then Some (wholeValue 0 whole + wholeValue 0 frac / 10 ^ length frac) else None)"

fun toText :: "driver \<Rightarrow> jsval \<Rightarrow> string" where
  "toText dr (Num x) = dr_numberText dr x"
| "toText dr (Text s) = s"

fun toNumber :: "jsval \<Rightarrow> jsnum" where
  "toNumber (Num x) = Fin x"
| "toNumber (Text s) = (case parseDecimal s of Some x \<Rightarrow> Fin x | None \<Rightarrow> NaN)"

fun js_plus :: "driver \<Rightarrow> jsval \<Rightarrow> jsval \<Rightarrow> jsval" where
  "js_plus dr (Num x) (Num y) = Num (x + y)"
| "js_plus dr v w = Text (toText dr v @ toText dr w)"

fun writeDecimal :: "jsval \<Rightarrow> real option" where
  "writeDecimal (Num x) = Some x"
| "writeDecimal (Text s) = parseDecimal s"

fun isFalsy :: "jsval \<Rightarrow> bool" where
  "isFalsy (Num x) = (x = 0)"
| "isFalsy (Text s) = (s = [])"

abbreviation queryFailed :: exn where
  "queryFailed \<equiv> JsError ''QueryFailedError''"

lemma js_le_NaN_right: "\<not> js_le x NaN"
  by (cases x) simp_all

section \<open>Tables\<close>

datatype ProposalType = PARAMETER_CHANGE | FEE_STRUCTURE | NEW_FEATURE | TREASURY | EMERGENCY | UPGRADE

datatype ProposalStatus = PENDING | ACTIVE | PASSED | EXECUTED | DEFEATED | CANCELLED

datatype VoteType = FOR | AGAINST | ABSTAIN

datatype DiscussionMessageType = COMMENT | AMENDMENT | INFORMATIONAL

datatype ExecutionStatus = EXEC_PENDING | EXEC_SUCCESS | EXEC_FAILED

record 'j GovernanceProposal =
  gp_id :: uuid
  gp_proposerId :: string
  gp_proposerAddress :: string
  gp_type :: ProposalType
  gp_title :: string
  gp_description :: string
  gp_parameters :: 'j
  gp_executionPayload :: "'j option"
  gp_status :: ProposalStatus
  gp_forVotes :: real
  gp_againstVotes :: real
  gp_abstainVotes :: real
  gp_quorumVotes :: real
  gp_totalSupply :: real
  gp_votingPeriodDays :: int
  gp_startTime :: timestamp
  gp_endTime :: timestamp
  gp_executedAt :: "timestamp option"
  gp_cancellationReason :: "string option"
  gp_createdAt :: timestamp
  gp_passThresholdVotes :: real
  gp_executionReason :: "string option"

record GovernanceVote =
  gv_id :: uuid
  gv_proposalId :: uuid
  gv_voterId :: string
  gv_voterAddress :: string
  gv_voteType :: VoteType
  gv_weight :: real
  gv_balanceAtVote :: real
  gv_delegateTo :: "string option"
  gv_timestamp :: timestamp
  gv_reason :: "string option"

record VoteDelegation =
  vd_id :: uuid
  vd_delegatorId :: string
  vd_delegatorAddress :: string
  vd_delegateeId :: string
  vd_delegateeAddress :: string
  vd_proposalId :: "uuid option"
  vd_delegatedBalance :: real
  vd_isActive :: bool
  vd_startTime :: timestamp
  vd_endTime :: "timestamp option"
  vd_createdAt :: timestamp

record TokenHolding =
  th_id :: nat
  th_userId :: string
  th_assetId :: nat
  th_balance :: real
  th_lockedBalance :: real

record GovernanceDiscussion =
  gd_id :: uuid
  gd_proposalId :: uuid
  gd_authorId :: string
  gd_authorAddress :: string
  gd_messageType :: DiscussionMessageType
  gd_content :: string
  gd_createdAt :: timestamp

record GovernanceExecution =
  gx_id :: uuid
  gx_proposalId :: uuid
  gx_executionStatus :: ExecutionStatus
  gx_executedBy :: string
  gx_transactionHash :: "string option"
  gx_errorMessage :: "string option"
  gx_executedAt :: "timestamp option"

datatype 'j gov_event = ProposalCreated "'j GovernanceProposal" | VoteCast uuid GovernanceVote

record 'j gov_db =
  g_proposals :: "'j GovernanceProposal list"
  g_votes :: "GovernanceVote list"
  g_delegations :: "VoteDelegation list"
  g_holdings :: "TokenHolding list"
  g_discussions :: "GovernanceDiscussion list"
  g_executions :: "GovernanceExecution list"
  g_events :: "'j gov_event list"
  g_seq :: nat

section \<open>Parameters\<close>

definition VOTING_PERIOD_DAYS :: int where "VOTING_PERIOD_DAYS = 7"
definition EMERGENCY_VOTING_PERIOD_DAYS :: int where "EMERGENCY_VOTING_PERIOD_DAYS = 1"
definition MIN_TOKEN_THRESHOLD :: real where "MIN_TOKEN_THRESHOLD = 10000"
definition QUORUM_PERCENTAGE :: real where "QUORUM_PERCENTAGE = 40"
definition PASS_THRESHOLD_PERCENTAGE :: real where "PASS_THRESHOLD_PERCENTAGE = 50"
definition MAX_PROPOSAL_TITLE_LENGTH :: nat where "MAX_PROPOSAL_TITLE_LENGTH = 200"

text \<open>The default of the column; no code sets it.\<close>

definition defaultPassThreshold :: real where "defaultPassThreshold = 51"

lemmas gov_params = VOTING_PERIOD_DAYS_def EMERGENCY_VOTING_PERIOD_DAYS_def MIN_TOKEN_THRESHOLD_def
  QUORUM_PERCENTAGE_def defaultPassThreshold_def

definition addDays :: "timestamp \<Rightarrow> int \<Rightarrow> timestamp" where
  "addDays t n = t + n * 86400000"

section \<open>Governance service\<close>

definition getTokenBalance :: "driver \<Rightarrow> string \<Rightarrow> nat \<Rightarrow> 'j gov_db \<Rightarrow> jsval" where
  "getTokenBalance dr userId assetId db =
     (case find (\<lambda>h. th_userId h = userId \<and> th_assetId h = assetId) (g_holdings db) of
        None \<Rightarrow> Num 0
      | Some holding \<Rightarrow> dr_read dr (th_balance holding))"

definition counts :: "timestamp \<Rightarrow> uuid \<Rightarrow> VoteDelegation \<Rightarrow> bool" where
  "counts now proposalId d =
     ((case vd_proposalId d of None \<Rightarrow> True | Some p \<Rightarrow> p = proposalId) \<and>
      (case vd_endTime d of None \<Rightarrow> True | Some e \<Rightarrow> \<not> e < now))"

definition getEffectiveVotingPower ::
  "driver \<Rightarrow> timestamp \<Rightarrow> string \<Rightarrow> uuid \<Rightarrow> 'j gov_db \<Rightarrow> jsval" where
  "getEffectiveVotingPower dr now userId proposalId db =
     (let delegations = filter (\<lambda>d. vd_delegateeId d = userId \<and> vd_isActive d) (g_delegations db)
      in foldl (\<lambda>power d. if counts now proposalId d
                  then js_plus dr power (dr_read dr (vd_delegatedBalance d)) else power)
           (getTokenBalance dr userId 0 db) delegations)"

definition isVotingActive :: "timestamp \<Rightarrow> 'j GovernanceProposal \<Rightarrow> bool" where
  "isVotingActive now p = (gp_status p = ACTIVE \<and> gp_startTime p \<le> now \<and> now \<le> gp_endTime p)"

text \<open>\<open>None\<close> is \<open>allowed\<close>, \<open>Some\<close> the reason of a refusal.\<close>

definition canUserVote :: "timestamp \<Rightarrow> string \<Rightarrow> uuid \<Rightarrow> 'j gov_db \<Rightarrow> string option" where
  "canUserVote now userId proposalId db =
     (case row_of gp_id proposalId (g_proposals db) of
        None \<Rightarrow> Some ''Proposal not found''
      | Some p \<Rightarrow>
          if gp_status p \<noteq> ACTIVE then Some ''Proposal is not active for voting''
          else if now < gp_startTime p then Some ''Voting period has not started''
          else if now > gp_endTime p then Some ''Voting period has ended''
          else if gp_proposerId p = userId then Some ''Cannot vote on your own proposal''
          else if list_ex (\<lambda>v. gv_proposalId v = proposalId \<and> gv_voterId v = userId) (g_votes db)
          then Some ''User has already voted on this proposal''
          else None)"

text \<open>\<open>forVotes + againstVotes + abstainVotes\<close>, left to right.\<close>

definition totalVotes :: "driver \<Rightarrow> 'j GovernanceProposal \<Rightarrow> jsval" where
  "totalVotes dr p = js_plus dr (js_plus dr (dr_read dr (gp_forVotes p)) (dr_read dr (gp_againstVotes p)))
     (dr_read dr (gp_abstainVotes p))"

definition quorumRequired :: "driver \<Rightarrow> 'j GovernanceProposal \<Rightarrow> jsnum" where
  "quorumRequired dr p =
     js_div (js_mult (toNumber (dr_read dr (gp_totalSupply p))) (toNumber (dr_read dr (gp_quorumVotes p)))) 100"

definition checkQuorumMet :: "driver \<Rightarrow> uuid \<Rightarrow> 'j gov_db \<Rightarrow> bool" where
  "checkQuorumMet dr proposalId db =
     (case row_of gp_id proposalId (g_proposals db) of
        None \<Rightarrow> False
      | Some p \<Rightarrow> js_le (quorumRequired dr p) (toNumber (totalVotes dr p)))"

text \<open>A JavaScript quotient whose divisor may not be a number.\<close>

fun js_quot :: "jsnum \<Rightarrow> jsnum \<Rightarrow> jsnum" where
  "js_quot x (Fin b) = js_div x b"
| "js_quot x NaN = NaN"
| "js_quot (Fin a) y = Fin 0"
| "js_quot x y = NaN"

definition proposalHasPassed :: "driver \<Rightarrow> uuid \<Rightarrow> 'j gov_db \<Rightarrow> bool" where
  "proposalHasPassed dr proposalId db =
     (case row_of gp_id proposalId (g_proposals db) of
        None \<Rightarrow> False
      | Some p \<Rightarrow>
          if \<not> checkQuorumMet dr proposalId db then False
          else if totalVotes dr p = Num 0 then False
          else
            let forPercentage = js_mult (js_quot (toNumber (dr_read dr (gp_forVotes p)))
                  (toNumber (totalVotes dr p))) (Fin 100)
            in js_le (toNumber (dr_read dr (gp_passThresholdVotes p))) forPercentage)"

definition getProposalHistory :: "string option \<Rightarrow> nat \<Rightarrow> 'j gov_db \<Rightarrow> 'j GovernanceProposal list" where
  "getProposalHistory userId limit db =
     take limit (sort_key (\<lambda>p. - gp_createdAt p)
       (filter (\<lambda>p. case userId of None \<Rightarrow> True | Some u \<Rightarrow> u = [] \<or> gp_proposerId p = u) (g_proposals db)))"

definition getVotingHistory :: "string \<Rightarrow> nat \<Rightarrow> 'j gov_db \<Rightarrow> GovernanceVote list" where
  "getVotingHistory userId limit db =
     take limit (sort_key (\<lambda>v. - gv_timestamp v) (filter (\<lambda>v. gv_voterId v = userId) (g_votes db)))"

section \<open>Proposals\<close>

definition saveProposal :: "'j GovernanceProposal \<Rightarrow> 'j gov_db \<Rightarrow> 'j gov_db" where
  "saveProposal p db = db\<lparr>g_proposals := save_row gp_id p (g_proposals db)\<rparr>"

definition votingPeriod :: "ProposalType \<Rightarrow> int" where
  "votingPeriod ty = (if ty = EMERGENCY then EMERGENCY_VOTING_PERIOD_DAYS else VOTING_PERIOD_DAYS)"

definition newProposal ::
  "timestamp \<Rightarrow> uuid \<Rightarrow> string \<Rightarrow> string \<Rightarrow> ProposalType \<Rightarrow> string \<Rightarrow> string \<Rightarrow> 'j \<Rightarrow> 'j option \<Rightarrow> real \<Rightarrow>
     'j GovernanceProposal" where
  "newProposal now newId proposerId proposerAddress ty title description parameters executionPayload tsupply =
     \<lparr>gp_id = newId, gp_proposerId = proposerId, gp_proposerAddress = proposerAddress, gp_type = ty,
      gp_title = title, gp_description = description, gp_parameters = parameters,
      gp_executionPayload = executionPayload, gp_status = PENDING, gp_forVotes = 0,
      gp_againstVotes = 0, gp_abstainVotes = 0, gp_quorumVotes = QUORUM_PERCENTAGE,
      gp_totalSupply = tsupply, gp_votingPeriodDays = votingPeriod ty, gp_startTime = now,
      gp_endTime = addDays now (votingPeriod ty), gp_executedAt = None,
      gp_cancellationReason = None, gp_createdAt = now,
      gp_passThresholdVotes = defaultPassThreshold, gp_executionReason = None\<rparr>"

definition createProposal ::
  "driver \<Rightarrow> timestamp \<Rightarrow> uuid \<Rightarrow> string \<Rightarrow> string \<Rightarrow> ProposalType \<Rightarrow> string \<Rightarrow> string \<Rightarrow> 'j \<Rightarrow> 'j option \<Rightarrow>
     'j gov_db \<Rightarrow> 'j GovernanceProposal result \<times> 'j gov_db" where
  "createProposal dr now newId proposerId proposerAddress ty title description parameters
       executionPayload db =
     (let balance = getTokenBalance dr proposerId 0 db
      in if js_lt (toNumber balance) (Fin MIN_TOKEN_THRESHOLD)
         then (Inl (ForbiddenException ''Minimum token threshold not met''), db)
         else (case writeDecimal balance of
                 None \<Rightarrow> (Inl queryFailed, db)
               | Some tsupply \<Rightarrow>
                   let p = newProposal now newId proposerId proposerAddress ty title description
                         parameters executionPayload tsupply;
                       db' = saveProposal p db
                   in (Inr p, db'\<lparr>g_events := g_events db' @ [ProposalCreated p]\<rparr>)))"

definition approveProposal :: "timestamp \<Rightarrow> uuid \<Rightarrow> 'j gov_db \<Rightarrow> 'j GovernanceProposal result \<times> 'j gov_db" where
  "approveProposal now proposalId db =
     (case row_of gp_id proposalId (g_proposals db) of
        None \<Rightarrow> (Inl (NotFoundException ''Proposal not found''), db)
      | Some p \<Rightarrow>
          let p' = p\<lparr>gp_status := ACTIVE, gp_startTime := now,
                gp_endTime := addDays now (votingPeriod (gp_type p)),
                gp_votingPeriodDays := votingPeriod (gp_type p)\<rparr>
          in (Inr p', saveProposal p' db))"

definition cancelProposal :: "uuid \<Rightarrow> string \<Rightarrow> 'j gov_db \<Rightarrow> 'j GovernanceProposal result \<times> 'j gov_db" where
  "cancelProposal proposalId reason db =
     (case row_of gp_id proposalId (g_proposals db) of
        None \<Rightarrow> (Inl (NotFoundException ''Proposal not found''), db)
      | Some p \<Rightarrow>
          if gp_status p = ACTIVE \<or> gp_status p = EXECUTED
          then (Inl (BadRequestException ''Cannot cancel proposal''), db)
          else
            let p' = p\<lparr>gp_status := CANCELLED, gp_cancellationReason := Some reason\<rparr>
            in (Inr p', saveProposal p' db))"

definition finalizeProposal ::
  "driver \<Rightarrow> timestamp \<Rightarrow> uuid \<Rightarrow> 'j gov_db \<Rightarrow> 'j GovernanceProposal result \<times> 'j gov_db" where
  "finalizeProposal dr now proposalId db =
     (case row_of gp_id proposalId (g_proposals db) of
        None \<Rightarrow> (Inl (NotFoundException ''Proposal not found''), db)
      | Some p \<Rightarrow>
          if gp_status p \<noteq> ACTIVE
          then (Inl (BadRequestException ''Only active proposals can be finalized''), db)
          else if now < gp_endTime p
          then (Inl (BadRequestException ''Voting period has not ended yet''), db)
          else
            let supplyVal = (if isFalsy (dr_read dr (gp_totalSupply p)) then totalVotes dr p
                  else dr_read dr (gp_totalSupply p));
                hasPassed = proposalHasPassed dr proposalId db
            in (case writeDecimal supplyVal of
                  None \<Rightarrow> (Inl queryFailed, db)
                | Some tsupply \<Rightarrow>
                    let p' = p\<lparr>gp_totalSupply := tsupply,
                          gp_status := (if hasPassed then PASSED else DEFEATED)\<rparr>
                    in (Inr p', saveProposal p' db)))"

text \<open>
  The execution record: \<open>executedAt\<close> is a column without default that may not be null, and the
  service never sets it.
\<close>

definition saveExecution :: "GovernanceExecution \<Rightarrow> 'j gov_db \<Rightarrow> GovernanceExecution result \<times> 'j gov_db" where
  "saveExecution x db =
     (case gx_executedAt x of
        None \<Rightarrow> (Inl queryFailed, db)
      | Some t \<Rightarrow> (Inr x, db\<lparr>g_executions := save_row gx_id x (g_executions db)\<rparr>))"

definition executeProposal ::
  "timestamp \<Rightarrow> uuid \<Rightarrow> string \<Rightarrow> uuid \<Rightarrow> string \<Rightarrow> 'j gov_db \<Rightarrow> GovernanceExecution result \<times> 'j gov_db" where
  "executeProposal now newId hash proposalId actorId db =
     (case row_of gp_id proposalId (g_proposals db) of
        None \<Rightarrow> (Inl (NotFoundException ''Proposal not found''), db)
      | Some p \<Rightarrow>
          if gp_status p \<noteq> PASSED
          then (Inl (BadRequestException ''Only passed proposals can be executed''), db)
          else
            let execution = \<lparr>gx_id = newId, gx_proposalId = proposalId,
                  gx_executionStatus = EXEC_SUCCESS, gx_executedBy = actorId,
                  gx_transactionHash = Some hash, gx_errorMessage = None, gx_executedAt = None\<rparr>
            in saveExecution execution
                 (saveProposal (p\<lparr>gp_status := EXECUTED, gp_executedAt := Some now\<rparr>) db))"

section \<open>Voting\<close>

definition newVote ::
  "timestamp \<Rightarrow> uuid \<Rightarrow> uuid \<Rightarrow> string \<Rightarrow> string \<Rightarrow> VoteType \<Rightarrow> real \<Rightarrow> real \<Rightarrow> string option \<Rightarrow> GovernanceVote" where
  "newVote now newId proposalId voterId voterAddress voteType weight balanceAtVote reason =
     \<lparr>gv_id = newId, gv_proposalId = proposalId, gv_voterId = voterId, gv_voterAddress = voterAddress,
      gv_voteType = voteType, gv_weight = weight, gv_balanceAtVote = balanceAtVote,
      gv_delegateTo = None, gv_timestamp = now, gv_reason = reason\<rparr>"

text \<open>The column a vote is added to, and the addition.\<close>

fun tallyOf :: "VoteType \<Rightarrow> 'j GovernanceProposal \<Rightarrow> real" where
  "tallyOf FOR p = gp_forVotes p"
| "tallyOf AGAINST p = gp_againstVotes p"
| "tallyOf ABSTAIN p = gp_abstainVotes p"

fun setTally :: "VoteType \<Rightarrow> real \<Rightarrow> 'j GovernanceProposal \<Rightarrow> 'j GovernanceProposal" where
  "setTally FOR x p = p\<lparr>gp_forVotes := x\<rparr>"
| "setTally AGAINST x p = p\<lparr>gp_againstVotes := x\<rparr>"
| "setTally ABSTAIN x p = p\<lparr>gp_abstainVotes := x\<rparr>"

definition addToTally ::
  "driver \<Rightarrow> VoteType \<Rightarrow> jsval \<Rightarrow> 'j GovernanceProposal \<Rightarrow> 'j gov_db \<Rightarrow> unit result \<times> 'j gov_db" where
  "addToTally dr voteType votingPower p db =
     (case writeDecimal (js_plus dr (dr_read dr (tallyOf voteType p)) votingPower) of
        None \<Rightarrow> (Inl queryFailed, db)
      | Some x \<Rightarrow> (Inr (), saveProposal (setTally voteType x p) db))"

text \<open>Everything the handler reads before it writes: the proposal row and the voter's power.\<close>

definition prepareVote ::
  "driver \<Rightarrow> timestamp \<Rightarrow> uuid \<Rightarrow> string \<Rightarrow> 'j gov_db \<Rightarrow> ('j GovernanceProposal \<times> jsval) result" where
  "prepareVote dr now proposalId voterId db =
     (case canUserVote now voterId proposalId db of
        Some reason \<Rightarrow> Inl (ForbiddenException reason)
      | None \<Rightarrow>
          (case row_of gp_id proposalId (g_proposals db) of
             None \<Rightarrow> Inl (NotFoundException ''Proposal not found'')
           | Some p \<Rightarrow>
               let votingPower = getEffectiveVotingPower dr now voterId proposalId db
               in if js_le (toNumber votingPower) (Fin 0)
                  then Inl (BadRequestException ''No voting power available'')
                  else Inr (p, votingPower)))"

text \<open>What it writes: first the vote, then the tally of the row it read.\<close>

definition storeVote ::
  "driver \<Rightarrow> timestamp \<Rightarrow> uuid \<Rightarrow> uuid \<Rightarrow> string \<Rightarrow> string \<Rightarrow> VoteType \<Rightarrow> string option \<Rightarrow>
     'j GovernanceProposal \<times> jsval \<Rightarrow> 'j gov_db \<Rightarrow> GovernanceVote result \<times> 'j gov_db" where
  "storeVote dr now newId proposalId voterId voterAddress voteType reason read db =
     (case (writeDecimal (snd read), writeDecimal (getTokenBalance dr voterId 0 db)) of
        (Some weight, Some balanceAtVote) \<Rightarrow>
          let vote = newVote now newId proposalId voterId voterAddress voteType weight balanceAtVote reason;
              db1 = db\<lparr>g_votes := save_row gv_id vote (g_votes db)\<rparr>
          in (case addToTally dr voteType (snd read) (fst read) db1 of
                (Inl e, db2) \<Rightarrow> (Inl e, db2)
              | (Inr _, db2) \<Rightarrow> (Inr vote, db2\<lparr>g_events := g_events db2 @ [VoteCast proposalId vote]\<rparr>))
      | _ \<Rightarrow> (Inl queryFailed, db))"

definition castVote ::
  "driver \<Rightarrow> timestamp \<Rightarrow> uuid \<Rightarrow> uuid \<Rightarrow> string \<Rightarrow> string \<Rightarrow> VoteType \<Rightarrow> string option \<Rightarrow>
     'j gov_db \<Rightarrow> GovernanceVote result \<times> 'j gov_db" where
  "castVote dr now newId proposalId voterId voterAddress voteType reason db =
     (case prepareVote dr now proposalId voterId db of
        Inl e \<Rightarrow> (Inl e, db)
      | Inr read \<Rightarrow> storeVote dr now newId proposalId voterId voterAddress voteType reason read db)"

section \<open>Delegation and discussion\<close>

definition saveDelegation :: "VoteDelegation \<Rightarrow> 'j gov_db \<Rightarrow> 'j gov_db" where
  "saveDelegation d db = db\<lparr>g_delegations := save_row vd_id d (g_delegations db)\<rparr>"

definition delegateVotes ::
  "driver \<Rightarrow> timestamp \<Rightarrow> uuid \<Rightarrow> string \<Rightarrow> string \<Rightarrow> int \<Rightarrow> 'j gov_db \<Rightarrow> VoteDelegation result \<times> 'j gov_db" where
  "delegateVotes dr now newId delegatorId delegateeId delegationDays db =
     (if delegatorId = delegateeId then (Inl (BadRequestException ''Cannot delegate to yourself''), db)
      else if list_ex (\<lambda>d. vd_delegatorId d = delegatorId \<and> vd_delegateeId d = delegateeId \<and> vd_isActive d)
          (g_delegations db)
      then (Inl (BadRequestException ''Active delegation already exists for this delegatee''), db)
      else
        let balance = getTokenBalance dr delegatorId 0 db
        in if js_le (toNumber balance) (Fin 0)
           then (Inl (BadRequestException ''Cannot delegate without token holdings''), db)
           else (case writeDecimal balance of
                   None \<Rightarrow> (Inl queryFailed, db)
                 | Some amount \<Rightarrow>
                     let d = \<lparr>vd_id = newId, vd_delegatorId = delegatorId,
                           vd_delegatorAddress = ''0x'' @ delegatorId, vd_delegateeId = delegateeId,
                           vd_delegateeAddress = ''0x'' @ delegateeId, vd_proposalId = None,
                           vd_delegatedBalance = amount, vd_isActive = True, vd_startTime = now,
                           vd_endTime = Some (addDays now delegationDays), vd_createdAt = now\<rparr>
                     in (Inr d, saveDelegation d db)))"

definition revokeDelegation :: "timestamp \<Rightarrow> uuid \<Rightarrow> 'j gov_db \<Rightarrow> VoteDelegation result \<times> 'j gov_db" where
  "revokeDelegation now delegationId db =
     (case row_of vd_id delegationId (g_delegations db) of
        None \<Rightarrow> (Inl (BadRequestException ''Delegation not found''), db)
      | Some d \<Rightarrow>
          if \<not> vd_isActive d then (Inl (BadRequestException ''Delegation is already inactive''), db)
          else
            let d' = d\<lparr>vd_isActive := False, vd_endTime := Some now\<rparr>
            in (Inr d', saveDelegation d' db))"

definition getActiveDelegations :: "string \<Rightarrow> 'j gov_db \<Rightarrow> VoteDelegation list" where
  "getActiveDelegations delegatorId db = sort_key (\<lambda>d. - vd_createdAt d)
     (filter (\<lambda>d. vd_delegatorId d = delegatorId \<and> vd_isActive d) (g_delegations db))"

definition getDelegatorsForUser :: "string \<Rightarrow> 'j gov_db \<Rightarrow> VoteDelegation list" where
  "getDelegatorsForUser delegateeId db = sort_key (\<lambda>d. - vd_createdAt d)
     (filter (\<lambda>d. vd_delegateeId d = delegateeId \<and> vd_isActive d) (g_delegations db))"

definition addMessage ::
  "timestamp \<Rightarrow> uuid \<Rightarrow> uuid \<Rightarrow> string \<Rightarrow> string \<Rightarrow> DiscussionMessageType \<Rightarrow> string \<Rightarrow> 'j gov_db \<Rightarrow>
     GovernanceDiscussion \<times> 'j gov_db" where
  "addMessage now newId proposalId authorId authorAddress messageType content db =
     (let m = \<lparr>gd_id = newId, gd_proposalId = proposalId, gd_authorId = authorId,
            gd_authorAddress = authorAddress, gd_messageType = messageType, gd_content = content,
            gd_createdAt = now\<rparr>
      in (m, db\<lparr>g_discussions := save_row gd_id m (g_discussions db)\<rparr>))"

definition getDiscussionThread :: "uuid \<Rightarrow> 'j gov_db \<Rightarrow> GovernanceDiscussion list" where
  "getDiscussionThread proposalId db =
     sort_key gd_createdAt (filter (\<lambda>m. gd_proposalId m = proposalId) (g_discussions db))"

section \<open>The service under a sequence of requests\<close>

text \<open>
  Generated ids come from \<open>g_seq\<close>.  The token holdings are kept by other systems: they may
  change in any way between two requests.
\<close>

datatype 'j gov_request =
    CreateProposal timestamp string string ProposalType string string 'j "'j option"
  | ApproveProposal timestamp uuid
  | CancelProposal uuid string
  | FinalizeProposal timestamp uuid
  | ExecuteProposal timestamp string uuid string
  | CastVote timestamp uuid string string VoteType "string option"
  | DelegateVotes timestamp string string int
  | RevokeDelegation timestamp uuid
  | AddMessage timestamp uuid string string DiscussionMessageType string
  | HoldingsChange "TokenHolding list"

fun govHandle :: "driver \<Rightarrow> 'j gov_request \<Rightarrow> 'j gov_db \<Rightarrow> 'j gov_db" where
  "govHandle dr (CreateProposal now u a ty ti de pa ex) db =
     snd (createProposal dr now (g_seq db) u a ty ti de pa ex db)"
| "govHandle dr (ApproveProposal now k) db = snd (approveProposal now k db)"
| "govHandle dr (CancelProposal k reason) db = snd (cancelProposal k reason db)"
| "govHandle dr (FinalizeProposal now k) db = snd (finalizeProposal dr now k db)"
| "govHandle dr (ExecuteProposal now hash k actor) db = snd (executeProposal now (g_seq db) hash k actor db)"
| "govHandle dr (CastVote now k u a ty reason) db = snd (castVote dr now (g_seq db) k u a ty reason db)"
| "govHandle dr (DelegateVotes now u v days) db = snd (delegateVotes dr now (g_seq db) u v days db)"
| "govHandle dr (RevokeDelegation now k) db = snd (revokeDelegation now k db)"
| "govHandle dr (AddMessage now k u a ty content) db = snd (addMessage now (g_seq db) k u a ty content db)"
| "govHandle dr (HoldingsChange hs) db = db\<lparr>g_holdings := hs\<rparr>"

definition govRequest :: "driver \<Rightarrow> 'j gov_request \<Rightarrow> 'j gov_db \<Rightarrow> 'j gov_db" where
  "govRequest dr r db = (govHandle dr r db)\<lparr>g_seq := Suc (g_seq db)\<rparr>"

definition freshGov :: "'j gov_db" where
  "freshGov = \<lparr>g_proposals = [], g_votes = [], g_delegations = [], g_holdings = [],
     g_discussions = [], g_executions = [], g_events = [], g_seq = 0\<rparr>"

section \<open>Tallies, on a driver that returns numbers\<close>

definition numericDriver :: "(real \<Rightarrow> string) \<Rightarrow> driver" where
  "numericDriver t = \<lparr>dr_read = Num, dr_numberText = t\<rparr>"

definition weightOf :: "VoteType \<Rightarrow> uuid \<Rightarrow> GovernanceVote list \<Rightarrow> real" where
  "weightOf ty k vs = sum_list (map gv_weight (filter (\<lambda>v. gv_proposalId v = k \<and> gv_voteType v = ty) vs))"

definition total :: "'j GovernanceProposal \<Rightarrow> real" where
  "total p = gp_forVotes p + gp_againstVotes p + gp_abstainVotes p"

text \<open>The rule a proposal passes by.\<close>

definition passes :: "'j GovernanceProposal \<Rightarrow> bool" where
  "passes p \<longleftrightarrow> gp_totalSupply p * gp_quorumVotes p / 100 \<le> total p \<and> total p \<noteq> 0 \<and>
     gp_passThresholdVotes p \<le> gp_forVotes p / total p * 100"

definition proposal_ok :: "GovernanceVote list \<Rightarrow> 'j GovernanceProposal \<Rightarrow> bool" where
  "proposal_ok vs p \<longleftrightarrow> (\<forall>ty. tallyOf ty p = weightOf ty (gp_id p) vs) \<and> 0 < gp_totalSupply p \<and>
     (gp_status p \<in> {PASSED, EXECUTED} \<longrightarrow> passes p)"

definition gov_inv :: "'j gov_db \<Rightarrow> bool" where
  "gov_inv db \<longleftrightarrow>
     keyed gp_id (g_proposals db) \<and> keyed gv_id (g_votes db) \<and>
     (\<forall>p\<in>set (g_proposals db). proposal_ok (g_votes db) p \<and> gp_id p < g_seq db) \<and>
     (\<forall>v\<in>set (g_votes db). 0 < gv_weight v \<and> gv_id v < g_seq db \<and>
        gv_proposalId v \<in> gp_id ` set (g_proposals db)) \<and>
     distinct (map (\<lambda>v. (gv_proposalId v, gv_voterId v)) (g_votes db))"

lemma numericDriver_simps [simp]: "dr_read (numericDriver t) = Num"
  by (simp add: numericDriver_def)

lemma totalVotes_numeric: "totalVotes (numericDriver t) p = Num (total p)"
  by (simp add: totalVotes_def total_def)

lemma proposalHasPassed_numeric:
  "proposalHasPassed (numericDriver t) k db =
    (case row_of gp_id k (g_proposals db) of None \<Rightarrow> False | Some p \<Rightarrow> passes p)"
  by (auto simp: proposalHasPassed_def checkQuorumMet_def quorumRequired_def totalVotes_numeric
      passes_def Let_def split: option.splits)

lemma getTokenBalance_numeric: "\<exists>x. getTokenBalance (numericDriver t) u a db = Num x"
  by (auto simp: getTokenBalance_def split: option.splits)

lemma power_numeric: "\<exists>x. getEffectiveVotingPower (numericDriver t) now u k db = Num x"
proof -
  have "\<exists>x. foldl (\<lambda>power d. if counts now k d
      then js_plus (numericDriver t) power (dr_read (numericDriver t) (vd_delegatedBalance d)) else power)
      (Num y) ds = Num x" for y ds
    by (induction ds arbitrary: y) auto
  then show ?thesis
    using getTokenBalance_numeric [of t u 0 db] unfolding getEffectiveVotingPower_def Let_def by metis
qed

text \<open>Saving a row that keeps its id and its tallies.\<close>

lemma gov_inv_save:
  assumes inv: "gov_inv db" and row: "row_of gp_id k (g_proposals db) = Some p"
    and same: "gp_id p' = gp_id p" "\<And>ty. tallyOf ty p' = tallyOf ty p" "0 < gp_totalSupply p'"
    and status: "gp_status p' \<in> {PASSED, EXECUTED} \<Longrightarrow> passes p'"
  shows "gov_inv (saveProposal p' db)"
proof -
  have p: "p \<in> set (g_proposals db)" "gp_id p = k" using row_of_Some_in [OF row] by auto
  have ok: "proposal_ok (g_votes db) p'"
    using inv p same status by (auto simp: gov_inv_def proposal_ok_def)
  have ids: "gp_id ` set (save_row gp_id p' (g_proposals db)) = gp_id ` set (g_proposals db)"
    using p same(1) by (auto simp: set_save_row image_iff)
  show ?thesis
    using inv ok ids p same(1)
    by (auto simp: gov_inv_def saveProposal_def keyed_save_row set_save_row)
qed

lemma gov_inv_row: "gov_inv db \<Longrightarrow> row_of gp_id k (g_proposals db) = Some p \<Longrightarrow>
    proposal_ok (g_votes db) p \<and> gp_id p = k"
  using row_of_Some_in by (fastforce simp: gov_inv_def)

lemma gov_inv_cong:
  assumes "gov_inv db" and "g_proposals db' = g_proposals db" and "g_votes db' = g_votes db"
    and "g_seq db \<le> g_seq db'"
  shows "gov_inv db'"
  using assms by (auto simp: gov_inv_def)

lemma saveProposal_fields [simp]:
  "g_votes (saveProposal p db) = g_votes db" "g_seq (saveProposal p db) = g_seq db"
  "g_proposals (saveProposal p db) = save_row gp_id p (g_proposals db)"
  by (simp_all add: saveProposal_def)

lemma tallyOf_update:
  "tallyOf ty (p\<lparr>gp_status := st\<rparr>) = tallyOf ty p"
  "tallyOf ty (p\<lparr>gp_startTime := a\<rparr>) = tallyOf ty p"
  "tallyOf ty (p\<lparr>gp_endTime := a\<rparr>) = tallyOf ty p"
  "tallyOf ty (p\<lparr>gp_votingPeriodDays := n\<rparr>) = tallyOf ty p"
  "tallyOf ty (p\<lparr>gp_cancellationReason := r\<rparr>) = tallyOf ty p"
  "tallyOf ty (p\<lparr>gp_executedAt := e\<rparr>) = tallyOf ty p"
  "tallyOf ty (p\<lparr>gp_totalSupply := x\<rparr>) = tallyOf ty p"
  by (cases ty; simp)+

lemma approveProposal_inv:
  assumes "gov_inv db"
  shows "gov_inv (snd (approveProposal now k db))"
proof (cases "row_of gp_id k (g_proposals db)")
  case None
  with assms show ?thesis by (simp add: approveProposal_def)
next
  case (Some p)
  with gov_inv_row [OF assms Some] show ?thesis
    by (auto simp: approveProposal_def Let_def tallyOf_update proposal_ok_def
        intro!: gov_inv_save [OF assms Some])
qed

lemma cancelProposal_inv:
  assumes "gov_inv db"
  shows "gov_inv (snd (cancelProposal k reason db))"
proof (cases "row_of gp_id k (g_proposals db)")
  case None
  with assms show ?thesis by (simp add: cancelProposal_def)
next
  case (Some p)
  with assms gov_inv_row [OF assms Some] show ?thesis
    by (auto simp: cancelProposal_def Let_def tallyOf_update proposal_ok_def
        intro!: gov_inv_save [OF assms Some])
qed

lemma passes_update:
  "passes (p\<lparr>gp_status := st\<rparr>) = passes p" "passes (p\<lparr>gp_executedAt := e\<rparr>) = passes p"
  by (simp_all add: passes_def total_def)

lemma finalizeProposal_inv:
  assumes "gov_inv db"
  shows "gov_inv (snd (finalizeProposal (numericDriver t) now k db))"
proof (cases "row_of gp_id k (g_proposals db)")
  case None
  with assms show ?thesis by (simp add: finalizeProposal_def)
next
  case (Some p)
  have p: "0 < gp_totalSupply p" using gov_inv_row [OF assms Some] by (simp add: proposal_ok_def)
  have "gov_inv (saveProposal (p\<lparr>gp_totalSupply := gp_totalSupply p,
      gp_status := (if passes p then PASSED else DEFEATED)\<rparr>) db)"
    by (rule gov_inv_save [OF assms Some]) (use p in \<open>auto simp: tallyOf_update passes_update split: if_splits\<close>)
  then show ?thesis
    using assms Some p by (simp add: finalizeProposal_def Let_def proposalHasPassed_numeric)
qed

lemma executeProposal_inv:
  assumes "gov_inv db"
  shows "gov_inv (snd (executeProposal now newId hash k actor db))"
proof (cases "row_of gp_id k (g_proposals db)")
  case None
  with assms show ?thesis by (simp add: executeProposal_def)
next
  case (Some p)
  have p: "proposal_ok (g_votes db) p" using gov_inv_row [OF assms Some] by simp
  show ?thesis
  proof (cases "gp_status p = PASSED")
    case True
    with p have "gov_inv (saveProposal (p\<lparr>gp_status := EXECUTED, gp_executedAt := Some now\<rparr>) db)"
      by (intro gov_inv_save [OF assms Some]) (simp_all add: tallyOf_update passes_update proposal_ok_def)
    with True Some show ?thesis by (simp add: executeProposal_def saveExecution_def Let_def)
  next
    case False
    with Some assms show ?thesis by (simp add: executeProposal_def)
  qed
qed

lemma createProposal_inv:
  assumes "gov_inv db"
  shows "gov_inv ((snd (createProposal (numericDriver t) now (g_seq db) u a ty ti de pa ex db))\<lparr>g_seq := Suc (g_seq db)\<rparr>)"
proof -
  obtain x where x: "getTokenBalance (numericDriver t) u 0 db = Num x"
    using getTokenBalance_numeric by blast
  let ?p = "newProposal now (g_seq db) u a ty ti de pa ex x"
  have votes: "filter (\<lambda>v. gv_proposalId v = g_seq db \<and> gv_voteType v = vt) (g_votes db) = []" for vt
    using assms by (fastforce simp: gov_inv_def filter_empty_conv)
  have "tallyOf vt ?p = weightOf vt (gp_id ?p) (g_votes db)" for vt
    by (cases vt) (simp_all add: newProposal_def weightOf_def votes)
  then have ok: "proposal_ok (g_votes db) ?p" if "10000 \<le> x"
    using that by (simp add: proposal_ok_def newProposal_def)
  have "gov_inv ((saveProposal ?p db)\<lparr>g_seq := Suc (g_seq db)\<rparr>)" if "10000 \<le> x"
    using assms ok [OF that]
    by (auto simp: gov_inv_def keyed_save_row keys_save_row newProposal_def less_Suc_eq
        dest!: in_save_rowD)
  from gov_inv_cong [OF this]
  have saved: "gov_inv ((saveProposal ?p db)\<lparr>g_events := ev, g_seq := Suc (g_seq db)\<rparr>)" if "10000 \<le> x" for ev
    using that by simp
  show ?thesis
  proof (cases "x < 10000")
    case True
    then show ?thesis
      using assms by (auto simp: createProposal_def x MIN_TOKEN_THRESHOLD_def Let_def intro: gov_inv_cong)
  next
    case False
    with saved show ?thesis by (simp add: createProposal_def x MIN_TOKEN_THRESHOLD_def Let_def)
  qed
qed

lemma canUserVote_None:
  assumes "canUserVote now u k db = None"
  shows "(k, u) \<notin> (\<lambda>v. (gv_proposalId v, gv_voterId v)) ` set (g_votes db)"
    and "\<exists>p. row_of gp_id k (g_proposals db) = Some p \<and> gp_status p = ACTIVE"
  using assms by (auto simp: canUserVote_def list_ex_iff split: option.splits if_splits)

lemma prepareVote_numeric:
  assumes "prepareVote (numericDriver t) now k u db = Inr (p, pow)"
  shows "canUserVote now u k db = None \<and> row_of gp_id k (g_proposals db) = Some p \<and>
    (\<exists>x. pow = Num x \<and> 0 < x)"
proof -
  obtain x where x: "getEffectiveVotingPower (numericDriver t) now u k db = Num x"
    using power_numeric by blast
  show ?thesis using assms by (auto simp: prepareVote_def Let_def x split: option.splits if_splits)
qed

lemma setTally_fields [simp]:
  "gp_id (setTally ty x p) = gp_id p" "gp_status (setTally ty x p) = gp_status p"
  "gp_totalSupply (setTally ty x p) = gp_totalSupply p"
  "tallyOf ty' (setTally ty x p) = (if ty' = ty then x else tallyOf ty' p)"
  by (cases ty; cases ty'; simp)+

lemma storeVote_numeric:
  assumes "row_of gp_id k (g_proposals db) = Some p"
  shows "\<exists>y ev. snd (storeVote (numericDriver t) now newId k u a ty reason (p, Num x) db) =
    (saveProposal (setTally ty (tallyOf ty p + x) p)
       (db\<lparr>g_votes := save_row gv_id (newVote now newId k u a ty x y reason) (g_votes db)\<rparr>))\<lparr>g_events := ev\<rparr>"
proof -
  obtain y where "getTokenBalance (numericDriver t) u 0 db = Num y" using getTokenBalance_numeric by blast
  then show ?thesis by (simp add: storeVote_def Let_def addToTally_def) blast
qed

lemma castVote_inv:
  assumes inv: "gov_inv db"
  shows "gov_inv ((snd (castVote (numericDriver t) now (g_seq db) k u a ty reason db))\<lparr>g_seq := Suc (g_seq db)\<rparr>)"
proof (cases "prepareVote (numericDriver t) now k u db")
  case (Inl e)
  then show ?thesis using inv by (auto simp: castVote_def intro: gov_inv_cong)
next
  case (Inr read)
  obtain p pow where read: "read = (p, pow)" by (cases read)
  obtain x where can: "canUserVote now u k db = None" and row: "row_of gp_id k (g_proposals db) = Some p"
    and x: "pow = Num x" "0 < x"
    using prepareVote_numeric Inr read by blast
  have p: "proposal_ok (g_votes db) p" "gp_id p = k" using gov_inv_row [OF inv row] by simp_all
  have active: "gp_status p = ACTIVE" using canUserVote_None(2) [OF can] row by auto
  obtain y ev where after: "snd (castVote (numericDriver t) now (g_seq db) k u a ty reason db) =
    (saveProposal (setTally ty (tallyOf ty p + x) p)
       (db\<lparr>g_votes := save_row gv_id (newVote now (g_seq db) k u a ty x y reason) (g_votes db)\<rparr>))\<lparr>g_events := ev\<rparr>"
    using storeVote_numeric [OF row] Inr read x by (simp add: castVote_def) blast
  let ?v = "newVote now (g_seq db) k u a ty x y reason"
  let ?p = "setTally ty (tallyOf ty p + x) p"
  have votes: "save_row gv_id ?v (g_votes db) = g_votes db @ [?v]"
    using inv by (auto simp: gov_inv_def save_row_def list_ex_iff newVote_def)
  have weight: "weightOf vt j (g_votes db @ [?v]) = weightOf vt j (g_votes db) +
      (if j = k \<and> vt = ty then x else 0)" for vt j
    by (simp add: weightOf_def newVote_def)
  have "proposal_ok (g_votes db @ [?v]) ?p"
    using p active by (auto simp: proposal_ok_def weight)
  moreover have "proposal_ok (g_votes db @ [?v]) q" if "q \<in> set (g_proposals db)" "gp_id q \<noteq> k" for q
    using that inv by (auto simp: gov_inv_def proposal_ok_def weight)
  moreover have "distinct (map (\<lambda>v. (gv_proposalId v, gv_voterId v)) (g_votes db @ [?v]))"
    using inv canUserVote_None(1) [OF can] by (auto simp: gov_inv_def newVote_def)
  moreover have "keyed gv_id (g_votes db @ [?v])"
    using inv by (auto simp: gov_inv_def keyed_def newVote_def)
  moreover have "k \<in> gp_id ` set (g_proposals db)" "k < g_seq db"
    using row_of_Some_in [OF row] inv by (auto simp: gov_inv_def)
  ultimately show ?thesis
    using inv p(2) x(2) unfolding after votes
    by (auto simp: gov_inv_def keyed_save_row keys_save_row newVote_def less_Suc_eq
        dest!: in_save_rowD)
qed

lemma govRequest_inv:
  assumes inv: "gov_inv db"
  shows "gov_inv (govRequest (numericDriver t) r db)"
proof -
  have keep: "gov_inv (db'\<lparr>g_seq := Suc (g_seq db)\<rparr>)" if "gov_inv db'" "g_seq db' = g_seq db" for db'
    using that by (auto intro: gov_inv_cong)
  have other: "gov_inv (db'\<lparr>g_seq := Suc (g_seq db)\<rparr>)"
    if "g_proposals db' = g_proposals db" "g_votes db' = g_votes db" for db'
    using that inv by (auto intro: gov_inv_cong)
  show ?thesis
  proof (cases r)
    case (CreateProposal now u a ty ti de pa ex)
    then show ?thesis using createProposal_inv [OF inv] by (simp add: govRequest_def)
  next
    case (ApproveProposal now k)
    then show ?thesis using approveProposal_inv [OF inv]
      by (simp add: govRequest_def) (rule keep, simp_all add: approveProposal_def Let_def split: option.splits)
  next
    case (CancelProposal k reason)
    then show ?thesis using cancelProposal_inv [OF inv]
      by (simp add: govRequest_def) (rule keep, simp_all add: cancelProposal_def Let_def split: option.splits)
  next
    case (FinalizeProposal now k)
    then show ?thesis using finalizeProposal_inv [OF inv]
      by (simp add: govRequest_def) (rule keep, simp_all add: finalizeProposal_def Let_def split: option.splits)
  next
    case (ExecuteProposal now hash k actor)
    then show ?thesis using executeProposal_inv [OF inv]
      by (simp add: govRequest_def)
        (rule keep, simp_all add: executeProposal_def saveExecution_def Let_def split: option.splits)
  next
    case (CastVote now k u a ty reason)
    then show ?thesis using castVote_inv [OF inv] by (simp add: govRequest_def)
  next
    case (DelegateVotes now u v days)
    show ?thesis unfolding govRequest_def DelegateVotes
      by (rule other) (simp_all add: delegateVotes_def saveDelegation_def Let_def split: option.splits)
  next
    case (RevokeDelegation now k)
    show ?thesis unfolding govRequest_def RevokeDelegation
      by (rule other) (simp_all add: revokeDelegation_def saveDelegation_def Let_def split: option.splits)
  next
    case (AddMessage now k u a ty content)
    show ?thesis unfolding govRequest_def AddMessage
      by (rule other) (simp_all add: addMessage_def Let_def)
  next
    case (HoldingsChange hs)
    show ?thesis unfolding govRequest_def HoldingsChange by (rule other) simp_all
  qed
qed

interpretation gov_requests: event_loop "govRequest (numericDriver t)" gov_inv for t
  by unfold_locales (rule govRequest_inv)

section \<open>Texts, on a driver that returns them\<close>

definition textDriver :: "(real \<Rightarrow> string) \<Rightarrow> (real \<Rightarrow> string) \<Rightarrow> driver" where
  "textDriver render t = \<lparr>dr_read = (\<lambda>x. Text (render x)), dr_numberText = t\<rparr>"

text \<open>A text with two points is no number.\<close>

lemma parse_two_points:
  assumes "CHR ''.'' \<in> set a" and "CHR ''.'' \<in> set b"
  shows "parseDecimal (a @ b) = None"
proof -
  obtain w rest where a: "a = w @ CHR ''.'' # rest" "CHR ''.'' \<notin> set w"
    using split_list_first [OF assms(1)] by blast
  have first: "takeWhile (\<lambda>c. c \<noteq> CHR ''.'') (a @ b) = w"
    unfolding a(1) append.assoc using a(2) by (subst takeWhile_append2) auto
  have rest: "drop (length w + 1) (a @ b) = rest @ b" unfolding a(1) by simp
  have "\<not> isDigit (CHR ''.'')" by (simp add: isDigit_def)
  with assms(2) have "\<not> list_all isDigit (rest @ b)"
    unfolding list_all_iff by auto
  then show ?thesis unfolding parseDecimal_def Let_def first rest by simp
qed

definition pointed :: "jsval \<Rightarrow> bool" where
  "pointed v \<longleftrightarrow> (\<exists>s. v = Text s \<and> CHR ''.'' \<in> set s)"

lemma power_text:
  assumes points: "\<And>x. CHR ''.'' \<in> set (render x)"
  shows "getEffectiveVotingPower (textDriver render t) now u k db = Num 0 \<or>
    pointed (getEffectiveVotingPower (textDriver render t) now u k db)"
proof -
  let ?dr = "textDriver render t"
  have step: "pointed (js_plus ?dr v (dr_read ?dr x))" for v x
    using points by (cases v) (auto simp: pointed_def textDriver_def)
  have fold: "v = Num 0 \<or> pointed v \<Longrightarrow> foldl (\<lambda>power d. if counts now k d
      then js_plus ?dr power (dr_read ?dr (vd_delegatedBalance d)) else power) v ds = Num 0 \<or>
    pointed (foldl (\<lambda>power d. if counts now k d
      then js_plus ?dr power (dr_read ?dr (vd_delegatedBalance d)) else power) v ds)" for v ds
    by (induction ds arbitrary: v) (simp_all add: step)
  have "getTokenBalance ?dr u 0 db = Num 0 \<or> pointed (getTokenBalance ?dr u 0 db)"
    using points by (auto simp: getTokenBalance_def pointed_def textDriver_def split: option.splits)
  then show ?thesis unfolding getEffectiveVotingPower_def Let_def by (rule fold)
qed

lemma addToTally_text:
  assumes "\<And>x. CHR ''.'' \<in> set (render x)" and "pointed v"
  shows "addToTally (textDriver render t) ty v p db = (Inl queryFailed, db)"
  using assms by (auto simp: addToTally_def pointed_def textDriver_def parse_two_points)

lemma storeVote_text:
  assumes "\<And>x. CHR ''.'' \<in> set (render x)" and "pointed (snd read)"
  shows "fst (storeVote (textDriver render t) now newId k u a ty reason read db) = Inl queryFailed \<and>
    g_proposals (snd (storeVote (textDriver render t) now newId k u a ty reason read db)) = g_proposals db"
  by (auto simp: storeVote_def Let_def addToTally_text [OF assms] split: option.splits)

lemma castVote_text:
  assumes points: "\<And>x. CHR ''.'' \<in> set (render x)"
  shows "(\<exists>e. fst (castVote (textDriver render t) now newId k u a ty reason db) = Inl e) \<and>
    g_proposals (snd (castVote (textDriver render t) now newId k u a ty reason db)) = g_proposals db"
proof (cases "prepareVote (textDriver render t) now k u db")
  case (Inl e)
  then show ?thesis by (simp add: castVote_def)
next
  case (Inr read)
  then have "snd read = getEffectiveVotingPower (textDriver render t) now u k db" "snd read \<noteq> Num 0"
    by (auto simp: prepareVote_def Let_def split: option.splits if_splits)
  with power_text [where render = render and t = t and now = now and u = u and k = k and db = db, OF points] have "pointed (snd read)" by auto
  from storeVote_text [OF points this] show ?thesis by (simp add: castVote_def Inr)
qed

lemma proposalHasPassed_text:
  assumes "\<And>x. CHR ''.'' \<in> set (render x)"
  shows "\<not> proposalHasPassed (textDriver render t) k db"
proof -
  have "parseDecimal (render x @ render y @ render z) = None" for x y z
    using assms by (intro parse_two_points) auto
  then have "toNumber (totalVotes (textDriver render t) p) = NaN" for p :: "'a GovernanceProposal"
    by (simp add: totalVotes_def textDriver_def)
  then show ?thesis
    by (auto simp: proposalHasPassed_def checkQuorumMet_def js_le_NaN_right split: option.splits)
qed

section \<open>Properties\<close>

definition ex_requests :: "unit gov_request list" where
  "ex_requests =
     [HoldingsChange [\<lparr>th_id = 1, th_userId = ''ann'', th_assetId = 0, th_balance = 20000, th_lockedBalance = 0\<rparr>,
        \<lparr>th_id = 2, th_userId = ''bob'', th_assetId = 0, th_balance = 500, th_lockedBalance = 0\<rparr>,
        \<lparr>th_id = 3, th_userId = ''cid'', th_assetId = 0, th_balance = 9000, th_lockedBalance = 0\<rparr>],
      CreateProposal 0 ''ann'' ''0xann'' TREASURY ''title'' ''text'' () None,
      ApproveProposal 10 1, CastVote 20 1 ''bob'' ''0xbob'' AGAINST None,
      CastVote 30 1 ''cid'' ''0xcid'' FOR None, CastVote 40 1 ''cid'' ''0xcid'' FOR None,
      FinalizeProposal 700000000 1]"

definition ex_gov :: "unit gov_db" where
  "ex_gov = fold (govRequest (numericDriver (\<lambda>_. []))) ex_requests freshGov"

text \<open>
  C18. Votes are counted once, and only what passes is executed.  After any sequence of governance
  requests and changes of the token holdings, on a driver that returns decimals as numbers, no user
  has two votes on a proposal, the three tallies of a proposal are the sums of the weights of its
  votes, and a proposal that is PASSED or EXECUTED has its quorum and its majority.
\<close>

theorem votes_are_tallied_once:
  assumes "db = fold (govRequest (numericDriver t)) requests freshGov"
  shows "distinct (map (\<lambda>v. (gv_proposalId v, gv_voterId v)) (g_votes db)) \<and>
    (\<forall>p\<in>set (g_proposals db).
       gp_forVotes p = weightOf FOR (gp_id p) (g_votes db) \<and>
       gp_againstVotes p = weightOf AGAINST (gp_id p) (g_votes db) \<and>
       gp_abstainVotes p = weightOf ABSTAIN (gp_id p) (g_votes db) \<and>
       (gp_status p \<in> {PASSED, EXECUTED} \<longrightarrow>
          gp_totalSupply p * gp_quorumVotes p / 100 \<le> total p \<and> total p \<noteq> 0 \<and>
          gp_passThresholdVotes p \<le> gp_forVotes p / total p * 100))"
proof -
  have "gov_inv db"
    unfolding assms by (rule gov_requests.run_inv) (simp add: gov_inv_def freshGov_def keyed_def)
  moreover have "gp_forVotes p = weightOf FOR (gp_id p) vs \<and> gp_againstVotes p = weightOf AGAINST (gp_id p) vs \<and>
      gp_abstainVotes p = weightOf ABSTAIN (gp_id p) vs" if "proposal_ok vs p" for vs and p :: "'a GovernanceProposal"
    using that unfolding proposal_ok_def by (metis tallyOf.simps)
  ultimately show ?thesis by (auto simp: gov_inv_def proposal_ok_def passes_def)
qed

theorem votes_are_tallied_once_witness:
  "map gp_status (g_proposals ex_gov) = [PASSED] \<and> map gp_forVotes (g_proposals ex_gov) = [9000] \<and>
   distinct (map (\<lambda>v. (gv_proposalId v, gv_voterId v)) (g_votes ex_gov)) \<and>
   weightOf FOR 1 (g_votes ex_gov) = 9000"
proof -
  have "map gp_status (g_proposals ex_gov) = [PASSED]" "map gp_forVotes (g_proposals ex_gov) = [9000]"
    "map gp_id (g_proposals ex_gov) = [1]"
    by code_simp+
  with votes_are_tallied_once [OF ex_gov_def] show ?thesis by fastforce
qed

text \<open>
  On PostgreSQL no vote ever counts.  When the driver returns decimals as text, with a point,
  the tally is concatenated instead of added and the update fails: every call of \<open>castVote\<close> ends in an
  exception and leaves every proposal as it was, whoever votes with whatever power, and no proposal
  ever passes.
\<close>

theorem text_driver_loses_every_vote:
  assumes "\<forall>x. CHR ''.'' \<in> set (render x)"
  shows "(\<exists>e. fst (castVote (textDriver render t) now newId k u a ty reason db) = Inl e) \<and>
    g_proposals (snd (castVote (textDriver render t) now newId k u a ty reason db)) = g_proposals db \<and>
    \<not> proposalHasPassed (textDriver render t) k db"
  using castVote_text [of render t now newId k u a ty reason db] proposalHasPassed_text [of render t k db]
    assms by blast

definition ex_render :: "real \<Rightarrow> string" where
  "ex_render x = (if x = 500 then ''500.00000000'' else ''0.00000000'')"

definition ex_active :: "unit gov_db" where
  "ex_active = fold (govRequest (numericDriver (\<lambda>_. []))) (take 3 ex_requests) freshGov"

definition ex_lost :: "GovernanceVote result \<times> unit gov_db" where
  "ex_lost = castVote (textDriver ex_render (\<lambda>_. [])) 20 7 1 ''bob'' ''0xbob'' FOR None ex_active"

text \<open>The vote is stored all the same, so it cannot be repeated.\<close>

theorem text_driver_loses_every_vote_witness:
  "fst ex_lost = Inl queryFailed \<and> map gv_voterId (g_votes (snd ex_lost)) = [''bob''] \<and>
   g_proposals (snd ex_lost) = g_proposals ex_active \<and>
   canUserVote 30 ''bob'' 1 (snd ex_lost) = Some ''User has already voted on this proposal''"
proof -
  have "fst ex_lost = Inl queryFailed" "map gv_voterId (g_votes (snd ex_lost)) = [''bob'']"
    "canUserVote 30 ''bob'' 1 (snd ex_lost) = Some ''User has already voted on this proposal''"
    by code_simp+
  moreover have "\<forall>x. CHR ''.'' \<in> set (ex_render x)" by (simp add: ex_render_def)
  from text_driver_loses_every_vote [OF this] have "g_proposals (snd ex_lost) = g_proposals ex_active"
    unfolding ex_lost_def by blast
  ultimately show ?thesis by blast
qed

end
