(* ===== verification/Kyc.thy ===== *)
theory Kyc
  imports Prelude
begin

text \<open>
  Identity verification: \<open>kyc/kyc.service.ts\<close>, its state machine, its guards and document limits,
  and the separation of governance and KYC duties in \<open>common/security/role-separation.ts\<close>.

  Roles arrive untyped from the request: an array, a single value or nothing, and only strings
  count.  \<open>normalizeRoleValues\<close> turns them into the list the checks use.
\<close>

section \<open>Role separation\<close>

datatype role_value = RoleText string | NotText

datatype role_input = RoleArray "role_value list" | RoleValue role_value | NoRoles

fun roleText :: "role_value \<Rightarrow> string option" where
  "roleText (RoleText s) = Some s"
| "roleText NotText = None"

text \<open>A single value counts unless it is falsy; a value that is no string is dropped later anyway.\<close>

fun roleList :: "role_input \<Rightarrow> role_value list" where
  "roleList (RoleArray rs) = rs"
| "roleList (RoleValue (RoleText s)) = (if s = [] then [] else [RoleText s])"
| "roleList (RoleValue NotText) = [NotText]"
| "roleList NoRoles = []"

definition normalizeRoleValues :: "role_input \<Rightarrow> string list" where
  "normalizeRoleValues roles =
     setOrder (filter (\<lambda>r. r \<noteq> []) (map trim (List.map_filter roleText (roleList roles))))"

definition stringRoles :: "string list \<Rightarrow> role_input" where
  "stringRoles rs = RoleArray (map RoleText rs)"

definition GOVERNANCE_ROLE_VALUES :: "string list" where
  "GOVERNANCE_ROLE_VALUES = [''GOVERNANCE_OPERATOR'']"

definition KYC_ROLE_VALUES :: "string list" where
  "KYC_ROLE_VALUES = [''KYC_OPERATOR'', ''KYC_GOVERNANCE'']"

definition hasAnyRole :: "role_input \<Rightarrow> string list \<Rightarrow> bool" where
  "hasAnyRole roles allowedRoles =
     (let normalizedRoles = normalizeRoleValues roles
      in list_ex (\<lambda>role. role \<in> set normalizedRoles) allowedRoles)"

abbreviation roleSeparationViolation :: exn where
  "roleSeparationViolation \<equiv> JsError ''Governance and KYC roles are mutually exclusive.''"

definition assertNoGovernanceKycRoleConflict :: "role_input \<Rightarrow> unit result" where
  "assertNoGovernanceKycRoleConflict roles =
     (let normalizedRoles = stringRoles (normalizeRoleValues roles);
          hasGovernanceRole = hasAnyRole normalizedRoles GOVERNANCE_ROLE_VALUES;
          hasKycRole = hasAnyRole normalizedRoles KYC_ROLE_VALUES
      in throw_unless (\<not> (hasGovernanceRole \<and> hasKycRole)) roleSeparationViolation)"

text \<open>Absent parts of the actor are \<open>None\<close>.\<close>

record AuthenticatedOperator =
  ao_id :: "int option"
  ao_roles :: "role_input option"

definition assertGovernanceActor :: "AuthenticatedOperator \<Rightarrow> unit result" where
  "assertGovernanceActor actor =
     (case (ao_id actor, ao_roles actor) of
        (Some i, Some roles) \<Rightarrow>
          rbind (assertNoGovernanceKycRoleConflict roles) (\<lambda>_.
            throw_unless (hasAnyRole roles GOVERNANCE_ROLE_VALUES) (JsError ''Governance role is required.''))
      | _ \<Rightarrow> Inl (JsError ''Authenticated governance actor is required.''))"

section \<open>The state machine\<close>

datatype KycStatus = PENDING | IN_REVIEW | VERIFIED | REJECTED

definition TERMINAL_STATES :: "KycStatus list" where
  "TERMINAL_STATES = [VERIFIED, REJECTED]"

fun ALLOWED_TRANSITIONS :: "KycStatus \<Rightarrow> KycStatus list" where
  "ALLOWED_TRANSITIONS PENDING = [IN_REVIEW]"
| "ALLOWED_TRANSITIONS IN_REVIEW = [VERIFIED, REJECTED]"
| "ALLOWED_TRANSITIONS VERIFIED = []"
| "ALLOWED_TRANSITIONS REJECTED = []"

definition isTerminal :: "KycStatus \<Rightarrow> bool" where
  "isTerminal status = (status \<in> set TERMINAL_STATES)"

definition validateTransition :: "KycStatus \<Rightarrow> KycStatus \<Rightarrow> unit result" where
  "validateTransition current nxt =
     (if isTerminal current then Inl (ForbiddenException ''terminal state'')
      else throw_unless (nxt \<in> set (ALLOWED_TRANSITIONS current))
        (ForbiddenException ''Invalid KYC state transition''))"

definition getAllowedTransitions :: "KycStatus \<Rightarrow> KycStatus list" where
  "getAllowedTransitions status = ALLOWED_TRANSITIONS status"

section \<open>Document limits\<close>

definition MAX_DOCUMENT_SIZE_BYTES :: nat where
  "MAX_DOCUMENT_SIZE_BYTES = 5 * 1024 * 1024"

definition MAX_DOCUMENTS_PER_USER :: nat where
  "MAX_DOCUMENTS_PER_USER = 10"

definition ALLOWED_MIME_TYPES :: "string list" where
  "ALLOWED_MIME_TYPES = [''image/jpeg'', ''image/png'', ''application/pdf'']"

record KycDocumentMeta =
  kd_mimeType :: string
  kd_sizeBytes :: nat

definition validateDocument :: "KycDocumentMeta \<Rightarrow> unit result" where
  "validateDocument doc =
     (if kd_mimeType doc \<notin> set ALLOWED_MIME_TYPES
      then Inl (BadRequestException ''Unsupported file type'')
      else throw_unless (\<not> kd_sizeBytes doc > MAX_DOCUMENT_SIZE_BYTES)
        (BadRequestException ''File size exceeds the limit''))"

definition assertDocumentQuota :: "nat \<Rightarrow> unit result" where
  "assertDocumentQuota existingCount =
     throw_unless (\<not> existingCount \<ge> MAX_DOCUMENTS_PER_USER)
       (BadRequestException ''KYC document quota reached'')"

section \<open>The service\<close>

record KycRecord =
  kr_id :: uuid
  kr_userId :: int
  kr_status :: KycStatus
  kr_reviewedBy :: "int option"
  kr_notes :: "string option"

type_synonym kyc_db = "KycRecord list"

definition enforceKycEndpointAccess :: "AuthenticatedOperator \<Rightarrow> string list result" where
  "enforceKycEndpointAccess operator =
     (case (ao_id operator, ao_roles operator) of
        (Some i, Some rs) \<Rightarrow>
          let roles = normalizeRoleValues rs
          in (case assertNoGovernanceKycRoleConflict (stringRoles roles) of
                Inl e \<Rightarrow> Inl (ForbiddenException ''Governance and KYC roles are mutually exclusive.'')
              | Inr _ \<Rightarrow>
                  if hasAnyRole (stringRoles roles) GOVERNANCE_ROLE_VALUES
                  then Inl (ForbiddenException ''Governance roles cannot perform KYC operations.'')
                  else Inr roles)
      | _ \<Rightarrow> Inl (ForbiddenException ''Authenticated KYC actor is required.''))"

definition enforceOperatorRole :: "AuthenticatedOperator \<Rightarrow> unit result" where
  "enforceOperatorRole operator =
     rbind (enforceKycEndpointAccess operator) (\<lambda>roles.
       throw_unless (''KYC_OPERATOR'' \<in> set roles)
         (ForbiddenException ''Only KYC_OPERATOR role can update KYC status.''))"

definition enforceKycGovernanceRole :: "AuthenticatedOperator \<Rightarrow> unit result" where
  "enforceKycGovernanceRole operator =
     rbind (enforceKycEndpointAccess operator) (\<lambda>roles.
       throw_unless (''KYC_GOVERNANCE'' \<in> set roles)
         (ForbiddenException ''Only KYC_GOVERNANCE role can override terminal states.''))"

definition preventSelfAssignment :: "int option \<Rightarrow> int \<Rightarrow> unit result" where
  "preventSelfAssignment operatorId targetUserId =
     throw_unless (operatorId \<noteq> Some targetUserId)
       (ForbiddenException ''Self-assignment of KYC status is not permitted.'')"

definition findRecordForMutation :: "int \<Rightarrow> kyc_db \<Rightarrow> KycRecord result" where
  "findRecordForMutation targetUserId db =
     (case row_of kr_userId targetUserId db of
        None \<Rightarrow> Inl (NotFoundException ''KYC record not found'') | Some r \<Rightarrow> Inr r)"

definition updateStatus ::
  "int \<Rightarrow> KycStatus \<Rightarrow> AuthenticatedOperator \<Rightarrow> string option \<Rightarrow> kyc_db \<Rightarrow> (KycRecord \<times> kyc_db) result" where
  "updateStatus targetUserId nextStatus operator notes db =
     rbind (enforceOperatorRole operator) (\<lambda>_.
     rbind (preventSelfAssignment (ao_id operator) targetUserId) (\<lambda>_.
     rbind (findRecordForMutation targetUserId db) (\<lambda>record0.
     rbind (validateTransition (kr_status record0) nextStatus) (\<lambda>_.
       let r = record0\<lparr>kr_status := nextStatus, kr_reviewedBy := ao_id operator,
             kr_notes := (if notes = None then kr_notes record0 else notes)\<rparr>
       in Inr (r, save_row kr_userId r db)))))"

definition governanceOverride ::
  "int \<Rightarrow> KycStatus \<Rightarrow> AuthenticatedOperator \<Rightarrow> string option \<Rightarrow> kyc_db \<Rightarrow> (KycRecord \<times> kyc_db) result" where
  "governanceOverride targetUserId nextStatus governance notes db =
     rbind (enforceKycGovernanceRole governance) (\<lambda>_.
     rbind (findRecordForMutation targetUserId db) (\<lambda>record0.
       let r = record0\<lparr>kr_status := nextStatus, kr_reviewedBy := ao_id governance, kr_notes := notes\<rparr>
       in Inr (r, save_row kr_userId r db)))"

definition getRecord :: "int \<Rightarrow> AuthenticatedOperator \<Rightarrow> kyc_db \<Rightarrow> KycRecord result" where
  "getRecord userId requester db =
     rbind (enforceKycEndpointAccess requester) (\<lambda>requesterRoles.
       if ao_id requester \<noteq> Some userId \<and> \<not> hasAnyRole (stringRoles requesterRoles) KYC_ROLE_VALUES
       then Inl (ForbiddenException ''Only the subject user or KYC staff can read a KYC record.'')
       else findRecordForMutation userId db)"

section \<open>Guards\<close>

text \<open>\<open>KycGuard\<close>: a user id of 0 is falsy.\<close>

definition kycGuard :: "bool \<Rightarrow> int option \<Rightarrow> kyc_db \<Rightarrow> unit result" where
  "kycGuard skip userId db =
     (if skip then Inr ()
      else (case userId of
              None \<Rightarrow> Inl (ForbiddenException ''Unauthenticated request.'')
            | Some u \<Rightarrow>
                if u = 0 then Inl (ForbiddenException ''Unauthenticated request.'')
                else (case row_of kr_userId u db of
                        None \<Rightarrow> Inl (ForbiddenException ''KYC verification required to access this resource.'')
                      | Some r \<Rightarrow> throw_unless (kr_status r = VERIFIED)
                          (ForbiddenException ''KYC verification required to access this resource.''))))"

definition kycRolesGuard :: "string list \<Rightarrow> role_input option \<Rightarrow> unit result" where
  "kycRolesGuard requiredRoles userRoles =
     (if requiredRoles = [] then Inr ()
      else (case userRoles of
              None \<Rightarrow> Inl (ForbiddenException ''No authenticated user or missing roles.'')
            | Some rs \<Rightarrow>
                let roles = normalizeRoleValues rs
                in (case assertNoGovernanceKycRoleConflict (stringRoles roles) of
                      Inl e \<Rightarrow> Inl (ForbiddenException ''Governance and KYC roles are mutually exclusive.'')
                    | Inr _ \<Rightarrow>
                        throw_unless (list_ex (\<lambda>role. role \<in> set roles) requiredRoles)
                          (ForbiddenException ''Access denied.''))))"

section \<open>Endpoints\<close>

text \<open>The routes of \<open>kyc.controller.ts\<close>: the guard of the route, then the service.\<close>

datatype kyc_request =
    UpdateStatus int KycStatus AuthenticatedOperator "string option"
  | GovernanceOverride int KycStatus AuthenticatedOperator "string option"
  | GetProfile int AuthenticatedOperator

definition updateStatusRoute ::
  "int \<Rightarrow> KycStatus \<Rightarrow> AuthenticatedOperator \<Rightarrow> string option \<Rightarrow> kyc_db \<Rightarrow> (KycRecord \<times> kyc_db) result" where
  "updateStatusRoute userId nextStatus user notes db =
     rbind (kycRolesGuard [''KYC_OPERATOR''] (ao_roles user)) (\<lambda>_.
       updateStatus userId nextStatus user notes db)"

definition governanceOverrideRoute ::
  "int \<Rightarrow> KycStatus \<Rightarrow> AuthenticatedOperator \<Rightarrow> string option \<Rightarrow> kyc_db \<Rightarrow> (KycRecord \<times> kyc_db) result" where
  "governanceOverrideRoute userId nextStatus user notes db =
     rbind (kycRolesGuard [''KYC_GOVERNANCE''] (ao_roles user)) (\<lambda>_.
       governanceOverride userId nextStatus user notes db)"

definition getProfileRoute :: "int \<Rightarrow> AuthenticatedOperator \<Rightarrow> kyc_db \<Rightarrow> KycRecord result" where
  "getProfileRoute userId user db =
     rbind (kycGuard False (ao_id user) db) (\<lambda>_. getRecord userId user db)"

fun kycRequest :: "kyc_request \<Rightarrow> kyc_db \<Rightarrow> kyc_db" where
  "kycRequest (UpdateStatus u st user notes) db =
     (case updateStatusRoute u st user notes db of Inl e \<Rightarrow> db | Inr (r, db') \<Rightarrow> db')"
| "kycRequest (GovernanceOverride u st user notes) db =
     (case governanceOverrideRoute u st user notes db of Inl e \<Rightarrow> db | Inr (r, db') \<Rightarrow> db')"
| "kycRequest (GetProfile u user) db = db"

section \<open>What the checks establish\<close>

lemma trim_trim [simp]: "trim (trim xs) = trim xs"
proof -
  define z where "z = dropWhile isBlank xs"
  define y where "y = trim xs"
  have y: "rev y = dropWhile isBlank (rev z)" by (simp add: y_def trim_def z_def)
  have tail: "dropWhile isBlank (rev y) = rev y" by (simp add: y dropWhile_idem)
  have start: "dropWhile isBlank y = y"
  proof (cases "y = []")
    case False
    have "z = y @ rev (takeWhile isBlank (rev z))"
      using takeWhile_dropWhile_id [of isBlank "rev z"] y by (metis rev_append rev_rev_ident)
    with False have "hd z = hd y" "z \<noteq> []" by (metis hd_append2, auto)
    then have "\<not> isBlank (hd y)" unfolding z_def using hd_dropWhile [of isBlank xs] by metis
    with False show ?thesis by (cases y) simp_all
  qed simp
  show ?thesis unfolding y_def [symmetric] by (simp add: trim_def start tail)
qed

lemma normalize_normalized:
  "set (normalizeRoleValues (stringRoles (normalizeRoleValues rs))) = set (normalizeRoleValues rs)"
proof -
  have strings: "List.map_filter roleText (map RoleText xs) = xs" for xs
    by (induction xs) simp_all
  have "trim r \<in> trim ` {x \<in> trim ` A. x \<noteq> []}" if "r \<in> A" "trim r \<noteq> []" for r A
    using that by (intro image_eqI [where x = "trim r"]) auto
  then show ?thesis by (auto simp: normalizeRoleValues_def stringRoles_def strings)
qed

lemma hasAnyRole_normalized:
  "hasAnyRole (stringRoles (normalizeRoleValues rs)) allowed \<longleftrightarrow> set allowed \<inter> set (normalizeRoleValues rs) \<noteq> {}"
  by (auto simp: hasAnyRole_def normalize_normalized list_ex_iff)

text \<open>Whoever gets past the endpoint check holds no governance role.\<close>

lemma endpointAccess_Inr:
  assumes "enforceKycEndpointAccess user = Inr roles"
  shows "\<exists>i rs. ao_id user = Some i \<and> ao_roles user = Some rs \<and> roles = normalizeRoleValues rs \<and>
    ''GOVERNANCE_OPERATOR'' \<notin> set roles"
  using assms
  by (auto simp: enforceKycEndpointAccess_def Let_def hasAnyRole_normalized GOVERNANCE_ROLE_VALUES_def
      split: option.splits sum.splits if_splits)

lemma updateStatus_Inr:
  assumes "updateStatus u st user notes db = Inr (r', db')"
  shows "\<exists>i rs r. ao_id user = Some i \<and> ao_roles user = Some rs \<and> i \<noteq> u \<and>
    ''KYC_OPERATOR'' \<in> set (normalizeRoleValues rs) \<and> ''GOVERNANCE_OPERATOR'' \<notin> set (normalizeRoleValues rs) \<and>
    row_of kr_userId u db = Some r \<and> \<not> isTerminal (kr_status r) \<and> st \<in> set (ALLOWED_TRANSITIONS (kr_status r)) \<and>
    r' = r\<lparr>kr_status := st, kr_reviewedBy := Some i, kr_notes := (if notes = None then kr_notes r else notes)\<rparr> \<and>
    db' = save_row kr_userId r' db"
proof -
  obtain roles where roles: "enforceKycEndpointAccess user = Inr roles" "''KYC_OPERATOR'' \<in> set roles"
    using assms by (auto simp: updateStatus_def enforceOperatorRole_def)
  from endpointAccess_Inr [OF roles(1)] roles(2) assms show ?thesis
    by (auto simp: updateStatus_def preventSelfAssignment_def findRecordForMutation_def
        validateTransition_def Let_def split: option.splits if_splits)
qed

lemma governanceOverride_Inr:
  assumes "governanceOverride u st user notes db = Inr (r', db')"
  shows "\<exists>i rs r. ao_id user = Some i \<and> ao_roles user = Some rs \<and>
    ''KYC_GOVERNANCE'' \<in> set (normalizeRoleValues rs) \<and> ''GOVERNANCE_OPERATOR'' \<notin> set (normalizeRoleValues rs) \<and>
    row_of kr_userId u db = Some r \<and>
    r' = r\<lparr>kr_status := st, kr_reviewedBy := Some i, kr_notes := notes\<rparr> \<and> db' = save_row kr_userId r' db"
proof -
  obtain roles where roles: "enforceKycEndpointAccess user = Inr roles" "''KYC_GOVERNANCE'' \<in> set roles"
    using assms by (auto simp: governanceOverride_def enforceKycGovernanceRole_def)
  from endpointAccess_Inr [OF roles(1)] roles(2) assms show ?thesis
    by (auto simp: governanceOverride_def findRecordForMutation_def Let_def split: option.splits)
qed

text \<open>The rows after a request, by cases.\<close>

lemma kycRequest_cases:
  "kycRequest req db = db \<or>
   (\<exists>u st user notes r'. req = UpdateStatus u st user notes \<and>
      updateStatus u st user notes db = Inr (r', kycRequest req db)) \<or>
   (\<exists>u st user notes r'. req = GovernanceOverride u st user notes \<and>
      governanceOverride u st user notes db = Inr (r', kycRequest req db))"
  by (cases req) (auto simp: updateStatusRoute_def governanceOverrideRoute_def split: sum.splits)

fun overrides :: "int \<Rightarrow> kyc_request \<Rightarrow> bool" where
  "overrides u (GovernanceOverride v st user notes) = (u = v)"
| "overrides u req = False"

lemma terminal_kept:
  assumes "row_of kr_userId u db = Some r" and "isTerminal (kr_status r)" and "\<not> overrides u req"
  shows "row_of kr_userId u (kycRequest req db) = Some r"
  using kycRequest_cases [of req db]
proof (elim disjE exE conjE)
  fix v st user nt r'
  assume req: "req = UpdateStatus v st user nt"
    and run: "updateStatus v st user nt db = Inr (r', kycRequest req db)"
  obtain q where q: "row_of kr_userId v db = Some q" "\<not> isTerminal (kr_status q)" "kr_userId r' = v"
    "kycRequest req db = save_row kr_userId r' db"
    using updateStatus_Inr [OF run] row_of_Some_in [of kr_userId v db] by fastforce
  with assms show ?thesis by (auto simp: row_of_save simp del: kycRequest.simps)
next
  fix v st user nt r'
  assume req: "req = GovernanceOverride v st user nt"
    and run: "governanceOverride v st user nt db = Inr (r', kycRequest req db)"
  have "kr_userId r' = v" "kycRequest req db = save_row kr_userId r' db"
    using governanceOverride_Inr [OF run] row_of_Some_in [of kr_userId v db] by auto
  with assms req show ?thesis by (auto simp: row_of_save simp del: kycRequest.simps)
qed (simp add: assms(1))

interpretation decided: guarded_loop kycRequest
  "\<lambda>db. row_of kr_userId u db = Some r \<and> isTerminal (kr_status r)" "\<lambda>req. \<not> overrides u req" for u r
  by unfold_locales (auto intro: terminal_kept)

section \<open>Properties\<close>

definition ex_operator :: AuthenticatedOperator where
  "ex_operator = \<lparr>ao_id = Some 7, ao_roles = Some (stringRoles ['' KYC_OPERATOR''])\<rparr>"

definition ex_record :: KycRecord where
  "ex_record = \<lparr>kr_id = 3, kr_userId = 42, kr_status = IN_REVIEW, kr_reviewedBy = None, kr_notes = None\<rparr>"

text \<open>
  C16. Only the right people change a verification status.  When a request to the KYC routes changes
  the status of a user, it was sent by an identified actor without governance role, who is recorded
  as the reviewer; and either that actor is a KYC operator, not the user, and the change is a
  transition of the state machine, or the actor holds the KYC governance role and used the override.
\<close>

theorem kyc_changes_are_authorized:
  assumes "row_of kr_userId u db = Some r" and "row_of kr_userId u (kycRequest req db) = Some r'"
    and "kr_status r' \<noteq> kr_status r"
  shows "\<exists>user i rs nt. ao_id user = Some i \<and> ao_roles user = Some rs \<and> kr_reviewedBy r' = Some i \<and>
    ''GOVERNANCE_OPERATOR'' \<notin> set (normalizeRoleValues rs) \<and>
    (req = UpdateStatus u (kr_status r') user nt \<and> i \<noteq> u \<and>
       ''KYC_OPERATOR'' \<in> set (normalizeRoleValues rs) \<and>
       kr_status r' \<in> set (ALLOWED_TRANSITIONS (kr_status r)) \<or>
     req = GovernanceOverride u (kr_status r') user nt \<and>
       ''KYC_GOVERNANCE'' \<in> set (normalizeRoleValues rs))"
  using kycRequest_cases [of req db]
proof (elim disjE exE conjE)
  assume "kycRequest req db = db"
  with assms show ?thesis by simp
next
  fix v st user nt q'
  assume req: "req = UpdateStatus v st user nt"
    and run: "updateStatus v st user nt db = Inr (q', kycRequest req db)"
  obtain i rs q where q: "ao_id user = Some i" "ao_roles user = Some rs" "i \<noteq> v"
    "''KYC_OPERATOR'' \<in> set (normalizeRoleValues rs)" "''GOVERNANCE_OPERATOR'' \<notin> set (normalizeRoleValues rs)"
    "row_of kr_userId v db = Some q" "st \<in> set (ALLOWED_TRANSITIONS (kr_status q))"
    "kr_status q' = st" "kr_reviewedBy q' = Some i" "kr_userId q' = kr_userId q"
    "kycRequest req db = save_row kr_userId q' db"
    using updateStatus_Inr [OF run] by auto
  have "v = u" using assms q row_of_Some_in [OF q(6)] by (auto simp: row_of_save split: if_splits)
  with assms q row_of_Some_in [OF q(6)] req show ?thesis by (auto simp: row_of_save)
next
  fix v st user nt q'
  assume req: "req = GovernanceOverride v st user nt"
    and run: "governanceOverride v st user nt db = Inr (q', kycRequest req db)"
  obtain i rs q where q: "ao_id user = Some i" "ao_roles user = Some rs"
    "''KYC_GOVERNANCE'' \<in> set (normalizeRoleValues rs)" "''GOVERNANCE_OPERATOR'' \<notin> set (normalizeRoleValues rs)"
    "row_of kr_userId v db = Some q" "kr_status q' = st" "kr_reviewedBy q' = Some i" "kr_userId q' = kr_userId q"
    "kycRequest req db = save_row kr_userId q' db"
    using governanceOverride_Inr [OF run] by auto
  have "v = u" using assms q row_of_Some_in [OF q(5)] by (auto simp: row_of_save split: if_splits)
  with assms q row_of_Some_in [OF q(5)] req show ?thesis by (auto simp: row_of_save)
qed

theorem kyc_changes_are_authorized_witness:
  "kycRequest (UpdateStatus 42 VERIFIED ex_operator None) [ex_record] =
     [ex_record\<lparr>kr_status := VERIFIED, kr_reviewedBy := Some 7\<rparr>] \<and>
   (\<exists>user i rs nt. ao_id user = Some i \<and> ao_roles user = Some rs \<and> i \<noteq> 42 \<and>
      UpdateStatus 42 VERIFIED ex_operator None = UpdateStatus 42 VERIFIED user nt \<and>
      ''KYC_OPERATOR'' \<in> set (normalizeRoleValues rs))"
proof -
  have run: "kycRequest (UpdateStatus 42 VERIFIED ex_operator None) [ex_record] =
     [ex_record\<lparr>kr_status := VERIFIED, kr_reviewedBy := Some 7\<rparr>]" by code_simp
  have "row_of kr_userId 42 [ex_record] = Some ex_record"
    "row_of kr_userId 42 (kycRequest (UpdateStatus 42 VERIFIED ex_operator None) [ex_record]) =
       Some (ex_record\<lparr>kr_status := VERIFIED, kr_reviewedBy := Some 7\<rparr>)"
    unfolding run by (simp_all add: ex_record_def)
  from kyc_changes_are_authorized [OF this] run show ?thesis by (auto simp: ex_record_def)
qed

text \<open>
  Decisions are final.  Once a user is VERIFIED or REJECTED, no sequence of requests changes
  anything in the record, short of an override that names that user.
\<close>

theorem kyc_decisions_are_final:
  assumes "row_of kr_userId u db = Some r" and "kr_status r \<in> {VERIFIED, REJECTED}"
    and "list_all (\<lambda>req. \<not> overrides u req) requests"
  shows "row_of kr_userId u (fold kycRequest requests db) = Some r"
  using decided.run_guarded [of u db r requests] assms by (auto simp: isTerminal_def TERMINAL_STATES_def)

theorem kyc_decisions_are_final_witness:
  "row_of kr_userId 42 (fold kycRequest [UpdateStatus 42 IN_REVIEW ex_operator None,
       UpdateStatus 42 REJECTED ex_operator None] [ex_record\<lparr>kr_status := VERIFIED\<rparr>]) =
     Some (ex_record\<lparr>kr_status := VERIFIED\<rparr>)"
  by (rule kyc_decisions_are_final) (simp_all add: ex_record_def)

end
