(* ===== verification/RateLimit.thy ===== *)
theory RateLimit
  imports Prelude "HOL-Library.AList"
begin

text \<open>
  Rate limiting, \<open>ratelimit/\<close>: the in-memory token bucket of
  \<open>deterministic-rate-limit.service.ts\<close>, the fixed windows of \<open>ratelimit.service.ts\<close> with their
  middleware, and the Redis token bucket of \<open>rate-limit.service.ts\<close> with its guard.

  Redis is outside the source: the Lua script is a function of the bucket the store returns for a
  key, which may be absent, to the bucket it writes back; how long the store keeps a key and its
  sorted sets are parameters.  Token counts are reals, times are milliseconds.

  The laws of a limiter are a locale (\<open>metered\<close>, a potential argument) that the in-memory bucket
  satisfies for all rates; \<open>same_decisions\<close> relates two limiters and is satisfied by the Redis
  bucket against the in-memory one.
\<close>

section \<open>Strings\<close>

definition upcase :: "char \<Rightarrow> char" where
  "upcase c = (if (of_char c :: nat) \<in> {97..122} then char_of ((of_char c :: nat) - 32) else c)"

section \<open>The in-memory token bucket\<close>

record BucketState =
  bk_tokens :: real
  bk_lastRefillMs :: int

definition bucketKey :: "string \<Rightarrow> string \<Rightarrow> string" where
  "bucketKey endpoint key = endpoint @ ''::'' @ key"

text \<open>Refill for the time since the last call.\<close>

definition refill :: "int \<Rightarrow> real \<Rightarrow> real \<Rightarrow> BucketState \<Rightarrow> BucketState" where
  "refill now capacity refillRatePerMs bucket =
     \<lparr>bk_tokens = min capacity (bk_tokens bucket + of_int (now - bk_lastRefillMs bucket) * refillRatePerMs),
      bk_lastRefillMs = now\<rparr>"

definition takeToken :: "BucketState \<Rightarrow> bool \<times> BucketState" where
  "takeToken bucket =
     (if bk_tokens bucket < 1 then (False, bucket)
      else (True, bucket\<lparr>bk_tokens := bk_tokens bucket - 1\<rparr>))"

definition isAllowed ::
  "int \<Rightarrow> string \<Rightarrow> string \<Rightarrow> real \<Rightarrow> real \<Rightarrow> (string \<times> BucketState) list \<Rightarrow>
     bool \<times> (string \<times> BucketState) list" where
  "isAllowed now key endpoint capacity refillRatePerMs buckets =
     (let k = bucketKey endpoint key;
          bucket = (case map_of buckets k of
             None \<Rightarrow> \<lparr>bk_tokens = capacity, bk_lastRefillMs = now\<rparr> | Some b \<Rightarrow> b);
          out = takeToken (refill now capacity refillRatePerMs bucket)
      in (fst out, AList.update k (snd out) buckets))"

definition clearKey :: "string \<Rightarrow> (string \<times> BucketState) list \<Rightarrow> (string \<times> BucketState) list" where
  "clearKey key buckets = filter (\<lambda>e. \<not> containsText (''::'' @ key) (fst e)) buckets"

text \<open>
  A sequence of calls of a limiter: the decisions it takes, and how many of the calls that count
  it lets through.
\<close>

fun decisions :: "('c \<Rightarrow> 's \<Rightarrow> bool \<times> 's) \<Rightarrow> 'c list \<Rightarrow> 's \<Rightarrow> bool list" where
  "decisions f [] s = []"
| "decisions f (c # cs) s = fst (f c s) # decisions f cs (snd (f c s))"

fun admissions :: "('c \<Rightarrow> 's \<Rightarrow> bool \<times> 's) \<Rightarrow> ('c \<Rightarrow> bool) \<Rightarrow> 'c list \<Rightarrow> 's \<Rightarrow> nat" where
  "admissions f counted [] s = 0"
| "admissions f counted (c # cs) s =
     (if fst (f c s) \<and> counted c then 1 else 0) + admissions f counted cs (snd (f c s))"

record rl_call =
  cl_now :: int
  cl_key :: string
  cl_endpoint :: string
  cl_capacity :: real
  cl_rate :: real

definition callKey :: "rl_call \<Rightarrow> string" where
  "callKey c = bucketKey (cl_endpoint c) (cl_key c)"

definition serve :: "rl_call \<Rightarrow> (string \<times> BucketState) list \<Rightarrow> bool \<times> (string \<times> BucketState) list" where
  "serve c buckets = isAllowed (cl_now c) (cl_key c) (cl_endpoint c) (cl_capacity c) (cl_rate c) buckets"

section \<open>Fixed windows\<close>

record RateLimitConfig =
  rc_limit :: nat
  rc_windowMs :: int
  rc_name :: string

definition RATE_LIMIT_GLOBAL :: RateLimitConfig where
  "RATE_LIMIT_GLOBAL = \<lparr>rc_limit = 100, rc_windowMs = 15 * 60 * 1000, rc_name = ''global''\<rparr>"

definition RATE_LIMIT_TRADING :: RateLimitConfig where
  "RATE_LIMIT_TRADING = \<lparr>rc_limit = 10, rc_windowMs = 60 * 1000, rc_name = ''trading''\<rparr>"

definition RATE_LIMIT_BIDDING :: RateLimitConfig where
  "RATE_LIMIT_BIDDING = \<lparr>rc_limit = 20, rc_windowMs = 60 * 1000, rc_name = ''bidding''\<rparr>"

definition RATE_LIMIT_BALANCE :: RateLimitConfig where
  "RATE_LIMIT_BALANCE = \<lparr>rc_limit = 50, rc_windowMs = 60 * 1000, rc_name = ''balance''\<rparr>"

definition USER_ROLE_MULTIPLIERS :: "(string \<times> nat) list" where
  "USER_ROLE_MULTIPLIERS = [(''ADMIN'', 5), (''STAFF'', 3), (''PREMIUM'', 2),
     (''INSTITUTIONAL_CLIENT'', 10), (''USER'', 1)]"

definition BYPASS_PATHS :: "string list" where
  "BYPASS_PATHS = [''/health'', ''/metrics'', ''/api/docs'', ''/favicon.ico'']"

definition getEndpointLimit :: "string \<Rightarrow> RateLimitConfig" where
  "getEndpointLimit endpoint =
     (if containsText ''/trading'' endpoint \<or> containsText ''/trade'' endpoint then RATE_LIMIT_TRADING
      else if containsText ''/bidding'' endpoint \<or> containsText ''/bid'' endpoint then RATE_LIMIT_BIDDING
      else if containsText ''/balance'' endpoint \<or> containsText ''/wallet'' endpoint then RATE_LIMIT_BALANCE
      else RATE_LIMIT_GLOBAL)"

definition getUserMultiplier :: "string option \<Rightarrow> nat" where
  "getUserMultiplier role =
     (case role of
        None \<Rightarrow> 1
      | Some r \<Rightarrow> (case map_of USER_ROLE_MULTIPLIERS r of None \<Rightarrow> 1 | Some n \<Rightarrow> n))"

definition shouldBypass :: "string \<Rightarrow> bool" where
  "shouldBypass endpoint = list_ex (\<lambda>path. startsWith path endpoint) BYPASS_PATHS"

record RateLimitRecord =
  rr_count :: nat
  rr_resetTime :: int

type_synonym window_store = "(string \<times> RateLimitRecord) list"

definition cleanupExpiredRecords :: "int \<Rightarrow> window_store \<Rightarrow> window_store" where
  "cleanupExpiredRecords now store = filter (\<lambda>e. \<not> rr_resetTime (snd e) \<le> now) store"

definition trackerKey :: "string option \<Rightarrow> string \<Rightarrow> string \<Rightarrow> string" where
  "trackerKey userId ip endpoint =
     rc_name (getEndpointLimit endpoint) @ '':'' @
       (case userId of Some u \<Rightarrow> if u = [] then ''ip:'' @ ip else ''user:'' @ u | None \<Rightarrow> ''ip:'' @ ip)"

definition actualLimit :: "string \<Rightarrow> string option \<Rightarrow> nat" where
  "actualLimit endpoint userRole = rc_limit (getEndpointLimit endpoint) * getUserMultiplier userRole"

record limit_headers =
  lh_limit :: nat
  lh_remaining :: nat
  lh_reset :: int
  lh_retryAfter :: int

text \<open>\<open>Math.ceil\<close> of milliseconds as seconds.\<close>

definition ceilSeconds :: "int \<Rightarrow> int" where
  "ceilSeconds ms = - ((- ms) div 1000)"

definition checkRateLimit ::
  "int \<Rightarrow> string option \<Rightarrow> string \<Rightarrow> string \<Rightarrow> string option \<Rightarrow> window_store \<Rightarrow>
     (bool \<times> limit_headers option) \<times> window_store" where
  "checkRateLimit now userId ip endpoint userRole store =
     (if shouldBypass endpoint then ((True, None), store)
      else
        let limitConfig = getEndpointLimit endpoint;
            key = trackerKey userId ip endpoint;
            limit = actualLimit endpoint userRole;
            store1 = cleanupExpiredRecords now store;
            fresh = \<lparr>rr_count = 0, rr_resetTime = now + rc_windowMs limitConfig\<rparr>;
            record0 = (case map_of store1 key of
               None \<Rightarrow> fresh | Some r \<Rightarrow> if rr_resetTime r \<le> now then fresh else r);
            record1 = record0\<lparr>rr_count := rr_count record0 + 1\<rparr>;
            headers = \<lparr>lh_limit = limit, lh_remaining = limit - rr_count record1,
              lh_reset = rr_resetTime record1, lh_retryAfter = ceilSeconds (rr_resetTime record1 - now)\<rparr>
        in ((rr_count record1 \<le> limit, Some headers), AList.update key record1 store1))"

definition resetRateLimit :: "string \<Rightarrow> window_store \<Rightarrow> window_store" where
  "resetRateLimit key store = AList.delete key store"

definition getStats :: "int \<Rightarrow> window_store \<Rightarrow> nat \<times> nat" where
  "getStats now store =
     (length store, length (filter (\<lambda>e. now < rr_resetTime (snd e)) store))"

text \<open>The middleware in front of a handler: the request goes on, or is answered with status 429.\<close>

record http_request =
  rq_ip :: "string option"
  rq_remoteAddress :: "string option"
  rq_userId :: "string option"
  rq_role :: "string option"
  rq_path :: string

definition truthy :: "string option \<Rightarrow> string option" where
  "truthy s = (case s of Some [] \<Rightarrow> None | _ \<Rightarrow> s)"

definition clientIp :: "http_request \<Rightarrow> string" where
  "clientIp req =
     (case truthy (rq_ip req) of Some ip \<Rightarrow> ip
      | None \<Rightarrow> (case truthy (rq_remoteAddress req) of Some ip \<Rightarrow> ip | None \<Rightarrow> ''unknown''))"

datatype middleware_outcome = Next | TooManyRequests int

definition middlewareUse ::
  "int \<Rightarrow> http_request \<Rightarrow> window_store \<Rightarrow> (middleware_outcome \<times> limit_headers option) \<times> window_store" where
  "middlewareUse now req store =
     (case checkRateLimit now (truthy (rq_userId req)) (clientIp req) (rq_path req) (rq_role req) store of
        ((allowed, headers), store') \<Rightarrow>
          ((if allowed then Next
            else TooManyRequests (case headers of None \<Rightarrow> 0 | Some h \<Rightarrow> lh_retryAfter h), headers), store'))"

section \<open>The Redis token bucket\<close>

record CheckResult =
  ck_allowed :: bool
  ck_remaining :: real
  ck_reset :: int

text \<open>
  The Lua script on the two fields the store holds for a key.  It writes both fields back and then
  sets the life time of the key, in milliseconds; without a refill rate that life time is not a
  number, so the last call fails after the fields were written and the script has no result.
\<close>

record redis_bucket =
  rb_tokens :: real
  rb_last :: int
  rb_life :: "int option"

definition tokenBucketLua ::
  "real \<Rightarrow> real \<Rightarrow> int \<Rightarrow> real \<Rightarrow> redis_bucket option \<Rightarrow> CheckResult option \<times> redis_bucket" where
  "tokenBucketLua capacity refill_per_ms now requested data =
     (let tokens = (case data of None \<Rightarrow> capacity | Some d \<Rightarrow> rb_tokens d);
          last = (case data of None \<Rightarrow> now | Some d \<Rightarrow> rb_last d);
          delta = max 0 (now - last);
          tokens1 = min capacity (tokens + of_int delta * refill_per_ms);
          life = (if refill_per_ms = 0 then None else Some \<lceil>(capacity / refill_per_ms) * 2\<rceil>);
          out = (if tokens1 \<ge> requested
            then (\<lparr>ck_allowed = True, ck_remaining = tokens1 - requested, ck_reset = 0\<rparr>,
                  \<lparr>rb_tokens = tokens1 - requested, rb_last = now, rb_life = life\<rparr>)
            else (\<lparr>ck_allowed = False, ck_remaining = tokens1,
                   ck_reset = (if refill_per_ms > 0 then \<lceil>(requested - tokens1) / refill_per_ms / 1000\<rceil> else 1)\<rparr>,
                  \<lparr>rb_tokens = tokens1, rb_last = now, rb_life = life\<rparr>))
      in (if life = None then None else Some (fst out), snd out))"

text \<open>
  The fallback on the sorted set the store holds for a key, through the commands it sends: entries
  before the window are removed, the request is added whether it is allowed or not, and the ones
  in the window are counted.
\<close>

record 'z zset_ops =
  zremrangebyscore :: "int \<Rightarrow> int \<Rightarrow> 'z \<Rightarrow> 'z"
  zadd :: "int \<Rightarrow> 'z \<Rightarrow> 'z"
  zcount :: "int \<Rightarrow> int \<Rightarrow> 'z \<Rightarrow> nat"

definition runSlidingWindowFallback ::
  "'z zset_ops \<Rightarrow> int \<Rightarrow> nat \<Rightarrow> int \<Rightarrow> 'z \<Rightarrow> CheckResult \<times> 'z" where
  "runSlidingWindowFallback zs now maxRequests windowMs z =
     (let windowStart = now - windowMs;
          z' = zadd zs now (zremrangebyscore zs 0 windowStart z);
          count = zcount zs windowStart now z'
      in (\<lparr>ck_allowed = (count \<le> maxRequests), ck_remaining = real (maxRequests - count),
           ck_reset = ceilSeconds windowMs\<rparr>, z'))"

record rate_config =
  cf_maxRequests :: nat
  cf_windowMs :: nat

record check_options =
  op_points :: "nat option"
  op_refillPerSecond :: "real option"
  op_burst :: "nat option"

definition defaultRefill :: "nat \<Rightarrow> rate_config option \<Rightarrow> real" where
  "defaultRefill points cfg =
     (let windowMs = (case cfg of None \<Rightarrow> 60000 | Some c \<Rightarrow> cf_windowMs c)
      in max 1 (of_int \<lfloor>real points / (real windowMs / 1000)\<rfloor>))"

text \<open>What \<open>check\<close> passes to the bucket: its capacity and the refill per second.\<close>

definition bucketParameters :: "rate_config option \<Rightarrow> check_options \<Rightarrow> nat \<times> real" where
  "bucketParameters cfg opts =
     (let points = (case op_points opts of Some p \<Rightarrow> p
            | None \<Rightarrow> (case cfg of Some c \<Rightarrow> cf_maxRequests c | None \<Rightarrow> 100));
          refillPerSecond = (case op_refillPerSecond opts of Some r \<Rightarrow> r | None \<Rightarrow> defaultRefill points cfg);
          burst = (case op_burst opts of Some b \<Rightarrow> b | None \<Rightarrow> max points 1)
      in (burst, refillPerSecond))"

text \<open>
  What the store holds for one key: the bucket, and the sorted set of the fallback.  The
  parameter \<open>alive\<close> tells whether a key with a life time is still there some milliseconds
  after it was written, and \<open>up\<close> whether the script could be sent at all.
\<close>

record 'z redis_entry =
  re_bucket :: "redis_bucket option"
  re_stamps :: 'z

definition presentBucket :: "(int \<Rightarrow> int \<Rightarrow> bool) \<Rightarrow> int \<Rightarrow> redis_bucket option \<Rightarrow> redis_bucket option" where
  "presentBucket alive now data =
     (case data of
        None \<Rightarrow> None
      | Some d \<Rightarrow> (case rb_life d of
           None \<Rightarrow> Some d
         | Some life \<Rightarrow> if alive life (now - rb_last d) then Some d else None))"

definition runTokenBucket ::
  "'z zset_ops \<Rightarrow> (int \<Rightarrow> int \<Rightarrow> bool) \<Rightarrow> bool \<Rightarrow> rate_config option \<Rightarrow> nat \<Rightarrow> real \<Rightarrow> int \<Rightarrow> 'z redis_entry \<Rightarrow>
     CheckResult \<times> 'z redis_entry" where
  "runTokenBucket zs alive up cfg capacity refillPerSecond now e =
     (let ran = tokenBucketLua (real capacity) (refillPerSecond / 1000) now 1 (presentBucket alive now (re_bucket e));
          e' = (if up then e\<lparr>re_bucket := Some (snd ran)\<rparr> else e);
          windowMs = (case cfg of None \<Rightarrow> 60000 | Some c \<Rightarrow> int (cf_windowMs c));
          fallback = runSlidingWindowFallback zs now capacity windowMs (re_stamps e')
      in (case (up, fst ran) of
            (True, Some result) \<Rightarrow> (result, e')
          | _ \<Rightarrow> (fst fallback, e'\<lparr>re_stamps := snd fallback\<rparr>)))"

definition checkLimit ::
  "'z zset_ops \<Rightarrow> (int \<Rightarrow> int \<Rightarrow> bool) \<Rightarrow> bool \<Rightarrow> rate_config option \<Rightarrow> check_options \<Rightarrow> int \<Rightarrow> 'z redis_entry \<Rightarrow>
     CheckResult \<times> 'z redis_entry" where
  "checkLimit zs alive up cfg opts now e =
     (case bucketParameters cfg opts of
        (burst, refillPerSecond) \<Rightarrow> runTokenBucket zs alive up cfg burst refillPerSecond now e)"

definition redisKey :: "string \<Rightarrow> string \<Rightarrow> string" where
  "redisKey endpoint identifier = ''ratelimit:'' @ endpoint @ '':'' @ identifier"

text \<open>The guard: limits of the route scaled by the tier of the user.\<close>

datatype KeyGenerator = ByIp | ByUser

record route_limits =
  rt_keyGenerator :: "KeyGenerator option"
  rt_points :: "nat option"
  rt_refillPerSecond :: "real option"
  rt_burst :: "nat option"

definition getTierMultiplier :: "bool \<Rightarrow> string option \<Rightarrow> string option \<Rightarrow> nat" where
  "getTierMultiplier hasUser role tier =
     (if \<not> hasUser then 1
      else
        let name = map upcase (case role of Some r \<Rightarrow> r | None \<Rightarrow> (case tier of Some t \<Rightarrow> t | None \<Rightarrow> []))
        in (case map_of USER_ROLE_MULTIPLIERS name of Some n \<Rightarrow> n | None \<Rightarrow> 1))"

definition guardOptions :: "rate_config option \<Rightarrow> route_limits \<Rightarrow> nat \<Rightarrow> check_options" where
  "guardOptions cfg route multiplier =
     (let basePoints = (case rt_points route of Some p \<Rightarrow> p
            | None \<Rightarrow> (case cfg of Some c \<Rightarrow> cf_maxRequests c | None \<Rightarrow> 100));
          points = basePoints * multiplier;
          refillPerSecond = (case rt_refillPerSecond route of Some r \<Rightarrow> r | None \<Rightarrow> defaultRefill points cfg);
          burst = (case rt_burst route of Some b \<Rightarrow> if b = 0 then points else b * multiplier | None \<Rightarrow> points)
      in \<lparr>op_points = Some points, op_refillPerSecond = Some refillPerSecond, op_burst = Some burst\<rparr>)"

definition keyForRequest :: "KeyGenerator \<Rightarrow> http_request \<Rightarrow> string" where
  "keyForRequest keyGenerator req =
     (case (keyGenerator, truthy (rq_userId req)) of
        (ByUser, Some u) \<Rightarrow> ''user:'' @ u
      | _ \<Rightarrow> ''ip:'' @ clientIp req)"

definition guardKey :: "route_limits \<Rightarrow> string \<Rightarrow> http_request \<Rightarrow> string" where
  "guardKey route endpoint req =
     (let keyGen = (case rt_keyGenerator route of
            Some g \<Rightarrow> g | None \<Rightarrow> if truthy (rq_userId req) = None then ByIp else ByUser)
      in redisKey endpoint (keyForRequest keyGen req))"

text \<open>The whole guard on what the store holds for the key of the request.\<close>

definition canActivate ::
  "'z zset_ops \<Rightarrow> (int \<Rightarrow> int \<Rightarrow> bool) \<Rightarrow> bool \<Rightarrow> rate_config option \<Rightarrow> route_limits \<Rightarrow> bool \<Rightarrow> string option \<Rightarrow> string option \<Rightarrow>
     int \<Rightarrow> 'z redis_entry \<Rightarrow> (bool \<times> nat \<times> CheckResult) \<times> 'z redis_entry" where
  "canActivate zs alive up cfg route hasUser role tier now e =
     (let opts = guardOptions cfg route (getTierMultiplier hasUser role tier);
          out = checkLimit zs alive up cfg opts now e
      in ((ck_allowed (fst out), fst (bucketParameters cfg opts), fst out), snd out))"

section \<open>Limiters as meters\<close>

text \<open>
  What the token buckets promise, as a potential: the state has a budget at every time, the budget
  grows no faster than the rate, and letting a call through costs one unit of it.
\<close>

locale metered =
  fixes decide :: "'c \<Rightarrow> 's \<Rightarrow> bool \<times> 's"
    and time :: "'c \<Rightarrow> int"
    and meets :: "'c \<Rightarrow> bool"
    and counted :: "'c \<Rightarrow> bool"
    and sane :: "int \<Rightarrow> 's \<Rightarrow> bool"
    and budget :: "int \<Rightarrow> 's \<Rightarrow> real"
    and rate :: real
  assumes budget_nonneg: "sane t s \<Longrightarrow> 0 \<le> budget t s"
    and sane_later: "sane t s \<Longrightarrow> t \<le> t' \<Longrightarrow> sane t' s"
    and budget_later: "sane t s \<Longrightarrow> t \<le> t' \<Longrightarrow> budget t' s \<le> budget t s + rate * of_int (t' - t)"
    and decide_sane: "sane (time c) s \<Longrightarrow> meets c \<Longrightarrow> sane (time c) (snd (decide c s))"
    and decide_pays: "sane (time c) s \<Longrightarrow> meets c \<Longrightarrow>
      budget (time c) (snd (decide c s)) + (if fst (decide c s) \<and> counted c then 1 else 0) \<le> budget (time c) s"
begin

lemma admissions_within_budget:
  assumes "sane t s" and "sorted (t # map time cs @ [t'])" and "list_all meets cs"
  shows "real (admissions decide counted cs s) \<le> budget t s + rate * of_int (t' - t)"
  using assms
proof (induction cs arbitrary: t s)
  case Nil
  then show ?case using budget_later [of t s t'] budget_nonneg [OF sane_later [of t s t']] by simp
next
  case (Cons c cs)
  let ?s = "snd (decide c s)"
  from Cons.prems have "t \<le> time c" and meets: "meets c" by simp_all
  with Cons.prems have sane: "sane (time c) s" by (blast intro: sane_later)
  have "real (admissions decide counted cs ?s) \<le> budget (time c) ?s + rate * of_int (t' - time c)"
    using Cons.prems decide_sane [OF sane meets] by (intro Cons.IH) simp_all
  moreover have "budget (time c) s \<le> budget t s + rate * of_int (time c - t)"
    using Cons.prems(1) \<open>t \<le> time c\<close> by (rule budget_later)
  ultimately show ?case using decide_pays [OF sane meets]
    by (cases "fst (decide c s) \<and> counted c") (auto simp: algebra_simps)
qed

end

text \<open>Two limiters that take the same decisions, by a relation between their states.\<close>

locale same_decisions =
  fixes f :: "'c \<Rightarrow> 's \<Rightarrow> bool \<times> 's"
    and g :: "'c \<Rightarrow> 't \<Rightarrow> bool \<times> 't"
    and time :: "'c \<Rightarrow> int"
    and related :: "int \<Rightarrow> 's \<Rightarrow> 't \<Rightarrow> bool"
  assumes same_answer: "related t s s' \<Longrightarrow> t \<le> time c \<Longrightarrow> fst (f c s) = fst (g c s')"
    and stay_related: "related t s s' \<Longrightarrow> t \<le> time c \<Longrightarrow> related (time c) (snd (f c s)) (snd (g c s'))"
begin

lemma decisions_agree:
  "related t s s' \<Longrightarrow> sorted (t # map time cs) \<Longrightarrow> decisions f cs s = decisions g cs s'"
proof (induction cs arbitrary: t s s')
  case (Cons c cs)
  then have "t \<le> time c" by simp
  then show ?case
    using Cons.prems same_answer [OF Cons.prems(1), of c] Cons.IH [OF stay_related [OF Cons.prems(1), of c]]
    by simp
qed simp

end

section \<open>The buckets keep their promise\<close>

text \<open>What one bucket can still pay at a time.\<close>

definition bucketBudget :: "real \<Rightarrow> real \<Rightarrow> int \<Rightarrow> BucketState option \<Rightarrow> real" where
  "bucketBudget C R t b =
     (case b of None \<Rightarrow> C | Some b \<Rightarrow> min C (bk_tokens b + of_int (t - bk_lastRefillMs b) * R))"

definition bucketSane :: "real \<Rightarrow> int \<Rightarrow> BucketState option \<Rightarrow> bool" where
  "bucketSane C t b = (case b of None \<Rightarrow> True | Some b \<Rightarrow> 0 \<le> bk_tokens b \<and> bk_tokens b \<le> C \<and> bk_lastRefillMs b \<le> t)"

definition bucketStep :: "real \<Rightarrow> real \<Rightarrow> int \<Rightarrow> BucketState option \<Rightarrow> bool \<times> BucketState" where
  "bucketStep C R now b =
     takeToken (refill now C R (case b of None \<Rightarrow> \<lparr>bk_tokens = C, bk_lastRefillMs = now\<rparr> | Some b \<Rightarrow> b))"

lemma serve_eq:
  "serve c s =
     (fst (bucketStep (cl_capacity c) (cl_rate c) (cl_now c) (map_of s (callKey c))),
      AList.update (callKey c) (snd (bucketStep (cl_capacity c) (cl_rate c) (cl_now c) (map_of s (callKey c)))) s)"
  by (simp add: serve_def isAllowed_def bucketStep_def callKey_def Let_def)

locale bucket_rates =
  fixes capacity rate :: real
  assumes capacity_nonneg: "0 \<le> capacity"
    and rate_nonneg: "0 \<le> rate"
begin

lemma budget_bounds: "bucketSane capacity t b \<Longrightarrow> 0 \<le> bucketBudget capacity rate t b"
  using capacity_nonneg rate_nonneg
  by (auto simp: bucketBudget_def bucketSane_def split: option.splits)

lemma budget_grows:
  "bucketSane capacity t b \<Longrightarrow> t \<le> t' \<Longrightarrow>
     bucketBudget capacity rate t' b \<le> bucketBudget capacity rate t b + rate * of_int (t' - t)"
  using rate_nonneg mult_nonneg_nonneg [OF rate_nonneg, of "of_int (t' - t)"]
  by (auto simp: bucketBudget_def bucketSane_def min_def algebra_simps split: option.splits)

lemma step_sane:
  "bucketSane capacity t b \<Longrightarrow> bucketSane capacity t (Some (snd (bucketStep capacity rate t b)))"
  using capacity_nonneg rate_nonneg
  by (auto simp: bucketStep_def bucketSane_def takeToken_def refill_def split: option.splits)

lemma step_pays:
  "bucketSane capacity t b \<Longrightarrow>
     bucketBudget capacity rate t (Some (snd (bucketStep capacity rate t b)))
       + (if fst (bucketStep capacity rate t b) then 1 else 0) \<le> bucketBudget capacity rate t b"
  using capacity_nonneg
  by (auto simp: bucketStep_def bucketBudget_def takeToken_def refill_def split: option.splits)

lemma step_admits: "fst (bucketStep capacity rate t b) = (1 \<le> bucketBudget capacity rate t b)"
  by (auto simp: bucketStep_def bucketBudget_def takeToken_def refill_def not_less split: option.splits)

end

sublocale bucket_rates < mem: metered serve cl_now
    "\<lambda>c. callKey c = k \<longrightarrow> cl_capacity c = capacity \<and> cl_rate c = rate"
    "\<lambda>c. callKey c = k"
    "\<lambda>t s. bucketSane capacity t (map_of s k)"
    "\<lambda>t s. bucketBudget capacity rate t (map_of s k)" rate for k
proof unfold_locales
  fix t t' :: int and s :: "(string \<times> BucketState) list" and c
  show "bucketSane capacity t (map_of s k) \<Longrightarrow> 0 \<le> bucketBudget capacity rate t (map_of s k)"
    by (rule budget_bounds)
  show "bucketSane capacity t (map_of s k) \<Longrightarrow> t \<le> t' \<Longrightarrow> bucketSane capacity t' (map_of s k)"
    by (auto simp: bucketSane_def split: option.splits)
  show "bucketSane capacity t (map_of s k) \<Longrightarrow> t \<le> t' \<Longrightarrow>
      bucketBudget capacity rate t' (map_of s k) \<le> bucketBudget capacity rate t (map_of s k) + rate * of_int (t' - t)"
    by (rule budget_grows)
  assume sane: "bucketSane capacity (cl_now c) (map_of s k)"
    and meets: "callKey c = k \<longrightarrow> cl_capacity c = capacity \<and> cl_rate c = rate"
  show "bucketSane capacity (cl_now c) (map_of (snd (serve c s)) k)"
    using sane meets step_sane [OF sane] by (cases "callKey c = k") (simp_all add: serve_eq update_conv')
  show "bucketBudget capacity rate (cl_now c) (map_of (snd (serve c s)) k)
      + (if fst (serve c s) \<and> callKey c = k then 1 else 0) \<le> bucketBudget capacity rate (cl_now c) (map_of s k)"
    using sane meets step_pays [OF sane] by (cases "callKey c = k") (simp_all add: serve_eq update_conv')
qed

context bucket_rates
begin

lemma memory_admissions:
  assumes "sorted (t # map cl_now cs @ [t'])"
    and "\<forall>c\<in>set cs. callKey c = k \<longrightarrow> cl_capacity c = capacity \<and> cl_rate c = rate"
  shows "real (admissions serve (\<lambda>c. callKey c = k) cs []) \<le> capacity + rate * of_int (t' - t)"
  using mem.admissions_within_budget [where k = k and t = t and s = "[]" and cs = cs and t' = t'] assms
  by (simp add: bucketSane_def bucketBudget_def list_all_iff)

end

text \<open>
  The Redis bucket.  A key is there for its life time at least; the life time the script sets is
  so long that a bucket that is gone would have been full.
\<close>

definition redisOf :: "real \<Rightarrow> real \<Rightarrow> BucketState \<Rightarrow> redis_bucket" where
  "redisOf C R b = \<lparr>rb_tokens = bk_tokens b, rb_last = bk_lastRefillMs b, rb_life = Some \<lceil>(C / R) * 2\<rceil>\<rparr>"

locale redis_rates = bucket_rates +
  fixes alive :: "int \<Rightarrow> int \<Rightarrow> bool"
  assumes rate_pos: "0 < rate"
    and alive_in_time: "elapsed < life \<Longrightarrow> alive life elapsed"
begin

lemma gone_means_full:
  assumes "\<not> alive \<lceil>(capacity / rate) * 2\<rceil> (now - written)"
  shows "capacity \<le> of_int (now - written) * rate"
proof -
  have "\<lceil>(capacity / rate) * 2\<rceil> \<le> now - written" using assms alive_in_time leI by blast
  then have "(capacity / rate) * 2 \<le> of_int (now - written)" by linarith
  moreover have "capacity / rate \<le> (capacity / rate) * 2"
    using capacity_nonneg rate_pos by (simp add: divide_right_mono)
  ultimately have "capacity / rate \<le> of_int (now - written)" by (rule order_trans [rotated])
  then show ?thesis using rate_pos by (simp add: pos_divide_le_eq)
qed

lemma lua_is_bucketStep:
  assumes sane: "bucketSane capacity now b"
  defines "out \<equiv> tokenBucketLua capacity rate now 1 (presentBucket alive now (map_option (redisOf capacity rate) b))"
  shows "snd out = redisOf capacity rate (snd (bucketStep capacity rate now b))"
    and "map_option ck_allowed (fst out) = Some (fst (bucketStep capacity rate now b))"
proof -
  have full: "min capacity (bk_tokens bk + of_int (now - bk_lastRefillMs bk) * rate) = capacity"
    if "b = Some bk" "\<not> alive \<lceil>(capacity / rate) * 2\<rceil> (now - bk_lastRefillMs bk)" for bk
    using gone_means_full [OF that(2)] sane that(1) by (simp add: bucketSane_def min_def)
  show "snd out = redisOf capacity rate (snd (bucketStep capacity rate now b))"
    using sane rate_pos full
    by (auto simp: out_def tokenBucketLua_def presentBucket_def redisOf_def bucketStep_def takeToken_def
        refill_def bucketSane_def Let_def split: option.splits)
  show "map_option ck_allowed (fst out) = Some (fst (bucketStep capacity rate now b))"
    using sane rate_pos full
    by (auto simp: out_def tokenBucketLua_def presentBucket_def redisOf_def bucketStep_def takeToken_def
        refill_def bucketSane_def Let_def split: option.splits)
qed

end

definition answer :: "CheckResult \<times> 'z redis_entry \<Rightarrow> bool \<times> 'z redis_entry" where
  "answer out = (ck_allowed (fst out), snd out)"

lemma isAllowed_eq:
  "isAllowed now key endpoint C R s =
     (fst (bucketStep C R now (map_of s (bucketKey endpoint key))),
      AList.update (bucketKey endpoint key) (snd (bucketStep C R now (map_of s (bucketKey endpoint key)))) s)"
  by (simp add: isAllowed_def bucketStep_def Let_def)

locale redis_limit = redis_rates "real burst" "refillPerSecond / 1000" alive
  for burst :: nat and refillPerSecond :: real and alive
begin

lemma run_is_bucketStep:
  assumes "re_bucket e = map_option (redisOf (real burst) (refillPerSecond / 1000)) b"
    and "bucketSane (real burst) now b"
  shows "answer (runTokenBucket zs alive True cfg burst refillPerSecond now e) =
    (fst (bucketStep (real burst) (refillPerSecond / 1000) now b),
     e\<lparr>re_bucket := Some (redisOf (real burst) (refillPerSecond / 1000)
        (snd (bucketStep (real burst) (refillPerSecond / 1000) now b)))\<rparr>)"
proof -
  let ?out = "tokenBucketLua (real burst) (refillPerSecond / 1000) now 1
    (presentBucket alive now (map_option (redisOf (real burst) (refillPerSecond / 1000)) b))"
  obtain r where "fst ?out = Some r" and "ck_allowed r = fst (bucketStep (real burst) (refillPerSecond / 1000) now b)"
    using lua_is_bucketStep(2) [OF assms(2)] by (auto simp: map_option_case split: option.splits)
  then show ?thesis
    using lua_is_bucketStep(1) [OF assms(2)] assms(1) by (simp add: answer_def runTokenBucket_def Let_def)
qed

end

sublocale redis_limit < both: same_decisions
    "\<lambda>now e. answer (runTokenBucket zs alive True cfg burst refillPerSecond now e)"
    "\<lambda>now s. isAllowed now key endpoint (real burst) (refillPerSecond / 1000) s"
    "\<lambda>now. now"
    "\<lambda>t e s. re_bucket e = map_option (redisOf (real burst) (refillPerSecond / 1000)) (map_of s (bucketKey endpoint key))
       \<and> bucketSane (real burst) t (map_of s (bucketKey endpoint key))" for zs :: "'z zset_ops" and cfg key endpoint
proof unfold_locales
  fix t now :: int and e :: "'z redis_entry" and s :: "(string \<times> BucketState) list"
  assume rel: "re_bucket e = map_option (redisOf (real burst) (refillPerSecond / 1000)) (map_of s (bucketKey endpoint key))
    \<and> bucketSane (real burst) t (map_of s (bucketKey endpoint key))" and later: "t \<le> now"
  then have sane: "bucketSane (real burst) now (map_of s (bucketKey endpoint key))"
    by (auto simp: bucketSane_def split: option.splits)
  show "fst (answer (runTokenBucket zs alive True cfg burst refillPerSecond now e)) =
      fst (isAllowed now key endpoint (real burst) (refillPerSecond / 1000) s)"
    using run_is_bucketStep [OF conjunct1 [OF rel] sane] by (simp add: isAllowed_eq)
  show "re_bucket (snd (answer (runTokenBucket zs alive True cfg burst refillPerSecond now e))) =
      map_option (redisOf (real burst) (refillPerSecond / 1000))
        (map_of (snd (isAllowed now key endpoint (real burst) (refillPerSecond / 1000) s)) (bucketKey endpoint key))
    \<and> bucketSane (real burst) now
        (map_of (snd (isAllowed now key endpoint (real burst) (refillPerSecond / 1000) s)) (bucketKey endpoint key))"
    using run_is_bucketStep [OF conjunct1 [OF rel] sane] step_sane [OF sane]
    by (simp add: isAllowed_eq update_conv')
qed

context redis_limit
begin

lemma redis_decides_like_memory:
  assumes "re_bucket e = None" and "sorted ts"
  shows "decisions (\<lambda>now e. answer (runTokenBucket zs alive True cfg burst refillPerSecond now e)) ts e =
    decisions (\<lambda>now s. isAllowed now key endpoint (real burst) (refillPerSecond / 1000) s) ts []"
proof (cases ts)
  case (Cons t ts')
  show ?thesis
    using both.decisions_agree [where t = t and s = e and s' = "[]" and cs = ts] assms Cons
    by (simp add: bucketSane_def)
qed simp

end

text \<open>The parameters of \<open>check\<close> without configuration and options: 100 tokens, one per second.\<close>

interpretation default_rates: redis_limit 100 1 "\<lambda>life elapsed. elapsed < life"
  by unfold_locales simp_all

section \<open>The fixed window counts exactly\<close>

definition passes :: "int \<times> http_request \<Rightarrow> window_store \<Rightarrow> bool \<times> window_store" where
  "passes c store =
     (case middlewareUse (fst c) (snd c) store of ((out, headers), store') \<Rightarrow> (out = Next, store'))"

definition requestKey :: "http_request \<Rightarrow> string" where
  "requestKey req = trackerKey (truthy (rq_userId req)) (clientIp req) (rq_path req)"

definition metersOn :: "string \<Rightarrow> int \<times> http_request \<Rightarrow> bool" where
  "metersOn k c = (requestKey (snd c) = k \<and> \<not> shouldBypass (rq_path (snd c)))"

text \<open>The record of a key in a window that lasts until \<open>T\<close>: none that is live, or one with a count.\<close>

definition windowCount :: "string \<Rightarrow> int \<Rightarrow> int \<Rightarrow> nat \<Rightarrow> window_store \<Rightarrow> bool" where
  "windowCount k t T n store =
     (n = 0 \<and> (\<forall>e\<in>set store. fst e = k \<longrightarrow> rr_resetTime (snd e) \<le> t)
      \<or> (\<exists>r. map_of store k = Some r \<and> rr_count r = n \<and> T \<le> rr_resetTime r))"

lemma map_of_filter_SomeI: "map_of xs k = Some v \<Longrightarrow> P (k, v) \<Longrightarrow> map_of (filter P xs) k = Some v"
  by (induction xs) (auto split: if_splits)

lemma map_of_filter_None: "(\<And>e. e \<in> set xs \<Longrightarrow> fst e = k \<Longrightarrow> \<not> P e) \<Longrightarrow> map_of (filter P xs) k = None"
  by (induction xs) auto

lemma in_set_update: "e \<in> set (AList.update k v xs) \<Longrightarrow> e = (k, v) \<or> e \<in> set xs"
  by (induction xs) (auto split: if_splits)

lemma passes_bypass: "shouldBypass (rq_path (snd c)) \<Longrightarrow> passes c store = (True, store)"
  by (simp add: passes_def middlewareUse_def checkRateLimit_def)

lemma live_record:
  assumes "windowCount k t T n store" and "t \<le> now" and "now < T"
  shows "map_of (cleanupExpiredRecords now store) k = None \<and> n = 0
    \<or> (\<exists>r. map_of (cleanupExpiredRecords now store) k = Some r \<and> rr_count r = n \<and> T \<le> rr_resetTime r)"
  using assms unfolding windowCount_def cleanupExpiredRecords_def
  by (fastforce intro!: map_of_filter_None map_of_filter_SomeI)

lemma passes_own:
  assumes "metersOn k c" and "windowCount k t T n store" and "t \<le> fst c" and "fst c < T"
    and "T \<le> t + rc_windowMs (getEndpointLimit (rq_path (snd c)))"
  shows "fst (passes c store) = (n < actualLimit (rq_path (snd c)) (rq_role (snd c)))"
    and "windowCount k t T (Suc n) (snd (passes c store))"
proof -
  note defs = passes_def middlewareUse_def checkRateLimit_def requestKey_def [symmetric] Let_def
  have key: "requestKey (snd c) = k" and on: "\<not> shouldBypass (rq_path (snd c))"
    using assms(1) by (simp_all add: metersOn_def)
  from live_record [OF assms(2,3,4)] show "fst (passes c store) = (n < actualLimit (rq_path (snd c)) (rq_role (snd c)))"
    using key on assms(4) by (auto simp: defs Suc_le_eq)
  from live_record [OF assms(2,3,4)] show "windowCount k t T (Suc n) (snd (passes c store))"
    using key on assms by (auto simp: defs windowCount_def update_conv')
qed

lemma passes_other:
  assumes "\<not> metersOn k c" and "windowCount k t T n store" and "t \<le> fst c" and "fst c < T"
  shows "windowCount k t T n (snd (passes c store))"
proof (cases "shouldBypass (rq_path (snd c))")
  case True
  then show ?thesis using assms(2) by (simp add: passes_bypass)
next
  case False
  then obtain v where store': "snd (passes c store) = AList.update (requestKey (snd c)) v (cleanupExpiredRecords (fst c) store)"
    by (simp add: passes_def middlewareUse_def checkRateLimit_def requestKey_def Let_def)
  have other: "requestKey (snd c) \<noteq> k" using assms(1) False by (simp add: metersOn_def)
  from assms(2) consider "n = 0" "\<forall>e\<in>set store. fst e = k \<longrightarrow> rr_resetTime (snd e) \<le> t"
    | r where "map_of store k = Some r" "rr_count r = n" "T \<le> rr_resetTime r"
    unfolding windowCount_def by blast
  then show ?thesis
  proof cases
    case 1
    then show ?thesis
      using other by (auto simp: windowCount_def store' cleanupExpiredRecords_def dest!: in_set_update)
  next
    case 2
    then show ?thesis
      using other assms(4)
      by (auto simp: windowCount_def store' cleanupExpiredRecords_def update_conv' map_of_filter_SomeI)
  qed
qed

lemma window_admits:
  assumes "windowCount k t T n store"
    and "\<forall>c\<in>set cs. t \<le> fst c \<and> fst c < T"
    and "\<forall>c\<in>set cs. metersOn k c \<longrightarrow> actualLimit (rq_path (snd c)) (rq_role (snd c)) = L
           \<and> T \<le> t + rc_windowMs (getEndpointLimit (rq_path (snd c)))"
  shows "admissions passes (metersOn k) cs store = min (L - n) (length (filter (metersOn k) cs))"
  using assms
proof (induction cs arbitrary: n store)
  case (Cons c cs)
  then have c: "t \<le> fst c" "fst c < T" by simp_all
  show ?case
  proof (cases "metersOn k c")
    case True
    then have "windowCount k t T (Suc n) (snd (passes c store))"
      and "fst (passes c store) = (n < L)"
      using passes_own [OF True Cons.prems(1) c] Cons.prems(3) by auto
    then show ?thesis using Cons.IH [of "Suc n" "snd (passes c store)"] Cons.prems True by auto
  next
    case False
    then show ?thesis
      using Cons.IH [OF passes_other [OF False Cons.prems(1) c]] Cons.prems by auto
  qed
qed simp

section \<open>Properties\<close>

lemma checkLimit_eq:
  "bucketParameters cfg opts = (burst, rps) \<Longrightarrow> checkLimit zs alive up cfg opts now e = runTokenBucket zs alive up cfg burst rps now e"
  by (simp add: checkLimit_def)

lemma runTokenBucket_up:
  "rps \<noteq> 0 \<Longrightarrow> runTokenBucket zs alive True cfg burst rps now e =
     (the (fst (tokenBucketLua (real burst) (rps / 1000) now 1 (presentBucket alive now (re_bucket e)))),
      e\<lparr>re_bucket := Some (snd (tokenBucketLua (real burst) (rps / 1000) now 1 (presentBucket alive now (re_bucket e))))\<rparr>)"
  by (simp add: runTokenBucket_def tokenBucketLua_def Let_def)

lemma lua_admits:
  "0 < R \<Longrightarrow> ck_allowed (the (fst (tokenBucketLua C R now 1 data))) =
     (1 \<le> C \<and> (case data of None \<Rightarrow> True | Some d \<Rightarrow> 1 \<le> rb_tokens d + of_int (max 0 (now - rb_last d)) * R))"
  by (auto simp: tokenBucketLua_def Let_def split: option.splits)

lemma lua_refuses:
  assumes "0 < R" and "\<not> ck_allowed (the (fst (tokenBucketLua C R now 1 data)))"
  obtains l where "snd (tokenBucketLua C R now 1 data) =
      \<lparr>rb_tokens = ck_remaining (the (fst (tokenBucketLua C R now 1 data))), rb_last = now, rb_life = l\<rparr>"
    and "ck_reset (the (fst (tokenBucketLua C R now 1 data))) =
      \<lceil>(1 - ck_remaining (the (fst (tokenBucketLua C R now 1 data)))) / R / 1000\<rceil>"
    and "ck_remaining (the (fst (tokenBucketLua C R now 1 data))) < 1"
  using assms that by (fastforce simp: tokenBucketLua_def Let_def split: if_splits)

lemma waiting_refills:
  fixes R :: real
  assumes "0 < R" and "\<lceil>(1 - x) / R / 1000\<rceil> * 1000 \<le> d"
  shows "1 \<le> x + of_int d * R"
proof -
  define y where "y = (1 - x) / R"
  have "y \<le> of_int (\<lceil>y / 1000\<rceil> * 1000)"
    using le_of_int_ceiling [of "y / 1000"] unfolding of_int_mult of_int_numeral by linarith
  also have "\<dots> \<le> of_int d" using assms(2) by (simp only: of_int_le_iff y_def)
  finally show ?thesis using assms(1) by (simp add: y_def pos_divide_le_eq algebra_simps)
qed

text \<open>
  Clearing a key on logout also drops the buckets of every other caller whose identifier starts
  with that key.
\<close>

lemma startsWith_append [simp]: "startsWith p (p @ s)"
  by (simp add: startsWith_def)

lemma containsText_infix: "containsText p (xs @ p @ ys)"
  unfolding containsText_def list_ex_iff by (rule bexI [where x = "length xs"]) simp_all

theorem clearKey_drops_longer_keys: "(bucketKey endpoint (key @ suffix), b) \<notin> set (clearKey key buckets)"
  using containsText_infix [of "''::'' @ key" endpoint suffix] by (simp add: clearKey_def bucketKey_def)

text \<open>
  \<open>ENDPOINT_RATE_LIMIT_MAP\<close> is not consulted: the bulk trade route it lists with 1000 requests per
  second gets the limit of ten per minute, and the bot routes the limit of manual trading.
\<close>

theorem route_map_is_ignored:
  "getEndpointLimit ''/institutional/trades/bulk'' = RATE_LIMIT_TRADING"
  "getEndpointLimit ''/bot/trading'' = RATE_LIMIT_TRADING"
  "getEndpointLimit ''/institutional/bulk-trade'' = RATE_LIMIT_GLOBAL"
  by (simp_all add: getEndpointLimit_def containsText_def startsWith_def upt_rec)

text \<open>
  C19. The in-memory bucket bounds what a caller gets through.  Start the service with no buckets and
  make any sequence of calls in the order of time, for any callers and routes, between
  \<open>t\<close> and \<open>t'\<close>.  If all calls that share one bucket use the same capacity and rate, at most
  \<open>capacity + rate * (t' - t)\<close> of them are allowed, whatever the others do.
\<close>

theorem token_bucket_bounds_admissions:
  assumes "0 \<le> capacity" and "0 \<le> rate" and "sorted (t # map cl_now cs @ [t'])"
    and "\<forall>c\<in>set cs. callKey c = k \<longrightarrow> cl_capacity c = capacity \<and> cl_rate c = rate"
  shows "real (admissions serve (\<lambda>c. callKey c = k) cs []) \<le> capacity + rate * of_int (t' - t)"
  using bucket_rates.memory_admissions [OF bucket_rates.intro] assms by blast

theorem token_bucket_bounds_admissions_witness:
  "real (admissions serve (\<lambda>c. callKey c = bucketKey ''login'' ''u1'')
     [\<lparr>cl_now = 0, cl_key = ''u1'', cl_endpoint = ''login'', cl_capacity = 1, cl_rate = 1 / 1000\<rparr>,
      \<lparr>cl_now = 5, cl_key = ''u2'', cl_endpoint = ''login'', cl_capacity = 7, cl_rate = 0\<rparr>,
      \<lparr>cl_now = 500, cl_key = ''u1'', cl_endpoint = ''login'', cl_capacity = 1, cl_rate = 1 / 1000\<rparr>,
      \<lparr>cl_now = 1000, cl_key = ''u1'', cl_endpoint = ''login'', cl_capacity = 1, cl_rate = 1 / 1000\<rparr>] [])
     \<le> 1 + (1 / 1000) * of_int (1000 - 0)"
  by (rule token_bucket_bounds_admissions) (simp_all add: callKey_def bucketKey_def)

text \<open>
  C20. The Redis limiter decides like the in-memory one.  As long as the script can be sent, on an
  absent key and for requests in the order of time, \<open>check\<close> allows exactly the requests that the
  in-memory bucket with the same capacity and refill rate allows.  The life time the script gives
  its keys makes no difference: the store is only assumed to keep a key for its life time, and may
  drop it at any moment afterwards.
\<close>

theorem redis_limiter_decides_like_memory:
  assumes "bucketParameters cfg opts = (burst, refillPerSecond)" and "0 < refillPerSecond"
    and "\<And>life elapsed. elapsed < life \<Longrightarrow> alive life elapsed"
    and "re_bucket e = None" and "sorted ts"
  shows "decisions (\<lambda>now e. answer (checkLimit zs alive True cfg opts now e)) ts e =
    decisions (\<lambda>now s. isAllowed now key endpoint (real burst) (refillPerSecond / 1000) s) ts []"
proof -
  have "redis_limit burst refillPerSecond alive"
    using assms(2,3) by unfold_locales simp_all
  from redis_limit.redis_decides_like_memory [OF this assms(4,5)] show ?thesis
    using assms(1) by (simp add: checkLimit_eq)
qed

definition ex_zset :: "int list zset_ops" where
  "ex_zset = \<lparr>zremrangebyscore = (\<lambda>lo hi. filter (\<lambda>t. \<not> (lo \<le> t \<and> t \<le> hi))),
     zadd = (\<lambda>t z. z @ [t]), zcount = (\<lambda>lo hi z. length (filter (\<lambda>t. lo \<le> t \<and> t \<le> hi) z))\<rparr>"

theorem redis_limiter_decides_like_memory_witness:
  "decisions (\<lambda>now e. answer (checkLimit ex_zset (\<lambda>life elapsed. elapsed < life) True None
       \<lparr>op_points = Some 2, op_refillPerSecond = None, op_burst = None\<rparr> now e)) [0, 10, 20, 1020, 90000]
     \<lparr>re_bucket = None, re_stamps = []\<rparr> =
   decisions (\<lambda>now s. isAllowed now ''u1'' ''/login'' (real 2) (1 / 1000) s) [0, 10, 20, 1020, 90000] []"
  by (rule redis_limiter_decides_like_memory) (simp_all add: bucketParameters_def defaultRefill_def Let_def)

text \<open>
  The retry time of the Redis limiter is enough.  If \<open>check\<close> refuses a request of a route whose
  bucket holds at least one token and reports \<open>reset\<close> seconds, the next request for that key is
  allowed when it comes at least \<open>reset\<close> seconds later, whether the store still has the key or not.
\<close>

theorem retry_after_reset_is_allowed:
  assumes "bucketParameters cfg opts = (burst, refillPerSecond)" and "0 < refillPerSecond" and "1 \<le> burst"
    and "checkLimit zs alive True cfg opts now e = (r, e')" and "\<not> ck_allowed r"
    and "now + ck_reset r * 1000 \<le> later"
  shows "ck_allowed (fst (checkLimit zs alive' True cfg opts later e'))"
proof -
  let ?out = "tokenBucketLua (real burst) (refillPerSecond / 1000) now 1 (presentBucket alive now (re_bucket e))"
  have R: "0 < refillPerSecond / 1000" using assms(2) by simp
  have r: "r = the (fst ?out)" and e': "re_bucket e' = Some (snd ?out)"
    using assms(1,2,4) by (auto simp: checkLimit_eq runTokenBucket_up)
  obtain l where bk: "snd ?out = \<lparr>rb_tokens = ck_remaining r, rb_last = now, rb_life = l\<rparr>"
    and reset: "ck_reset r = \<lceil>(1 - ck_remaining r) / (refillPerSecond / 1000) / 1000\<rceil>" and low: "ck_remaining r < 1"
    using lua_refuses [OF R, of "real burst" now "presentBucket alive now (re_bucket e)"] assms(5) r by blast
  have "0 \<le> (1 - ck_remaining r) / (refillPerSecond / 1000) / 1000" using low R by simp
  then have "0 \<le> ck_reset r" unfolding reset by linarith
  then have "now \<le> later" using assms(6) by linarith
  then have "1 \<le> ck_remaining r + of_int (max 0 (later - now)) * (refillPerSecond / 1000)"
    using waiting_refills [OF R, of "ck_remaining r" "later - now"] assms(6) unfolding reset by (simp add: max_def)
  then show ?thesis
    using assms(1-3) R e' bk
    by (auto simp: checkLimit_eq runTokenBucket_up lua_admits presentBucket_def split: option.splits)
qed

theorem retry_after_reset_is_allowed_witness:
  "ck_allowed (fst (checkLimit ex_zset (\<lambda>life elapsed. elapsed < life) True None
     \<lparr>op_points = Some 1, op_refillPerSecond = None, op_burst = None\<rparr> 1000
     \<lparr>re_bucket = Some \<lparr>rb_tokens = 0, rb_last = 0, rb_life = Some 2000\<rparr>, re_stamps = []\<rparr>))"
  by (rule retry_after_reset_is_allowed
      [where zs = ex_zset and now = 0 and alive = "\<lambda>life elapsed. elapsed < life"
         and e = "\<lparr>re_bucket = Some \<lparr>rb_tokens = 0, rb_last = 0, rb_life = Some 2000\<rparr>, re_stamps = []\<rparr>"
         and r = "\<lparr>ck_allowed = False, ck_remaining = 0, ck_reset = 1\<rparr>" and burst = 1 and refillPerSecond = 1])
    (simp_all add: bucketParameters_def defaultRefill_def checkLimit_def runTokenBucket_def presentBucket_def
      tokenBucketLua_def Let_def)

text \<open>
  The fixed window counts exactly.  Take any requests that reach the middleware at times in
  \<open>[t, T)\<close>, from any clients and for any paths, when no record of the key \<open>k\<close> is live at
  \<open>t\<close> and \<open>T\<close> is not later than one window after \<open>t\<close>.  Of the requests that are metered
  under \<open>k\<close> with limit \<open>L\<close>, exactly the first \<open>L\<close> go through (all of them when there are
  fewer), and requests under other keys or on bypassed paths make no difference.
\<close>

theorem fixed_window_admits_exactly_the_limit:
  assumes "\<forall>e\<in>set store. fst e = k \<longrightarrow> rr_resetTime (snd e) \<le> t"
    and "\<forall>c\<in>set cs. t \<le> fst c \<and> fst c < T"
    and "\<forall>c\<in>set cs. metersOn k c \<longrightarrow> actualLimit (rq_path (snd c)) (rq_role (snd c)) = L
           \<and> T \<le> t + rc_windowMs (getEndpointLimit (rq_path (snd c)))"
  shows "admissions passes (metersOn k) cs store = min L (length (filter (metersOn k) cs))"
proof -
  have "windowCount k t T 0 store" using assms(1) by (simp add: windowCount_def)
  from window_admits [OF this assms(2,3)] show ?thesis by simp
qed

definition ex_visit :: "string \<Rightarrow> string \<Rightarrow> http_request" where
  "ex_visit ip path = \<lparr>rq_ip = Some ip, rq_remoteAddress = None, rq_userId = None, rq_role = None, rq_path = path\<rparr>"

theorem fixed_window_admits_exactly_the_limit_witness:
  "admissions passes (metersOn ''trading:ip:a'')
     [(0, ex_visit ''a'' ''/trade''), (5, ex_visit ''a'' ''/health''), (7, ex_visit ''b'' ''/trade'')] [] =
   min 10 (length (filter (metersOn ''trading:ip:a'')
     [(0, ex_visit ''a'' ''/trade''), (5, ex_visit ''a'' ''/health''), (7, ex_visit ''b'' ''/trade'')]))"
  by (rule fixed_window_admits_exactly_the_limit [where t = 0 and T = 60000])
    (simp_all add: ex_visit_def metersOn_def requestKey_def trackerKey_def truthy_def clientIp_def actualLimit_def
      getEndpointLimit_def getUserMultiplier_def containsText_def startsWith_def upt_rec
      RATE_LIMIT_TRADING_def RATE_LIMIT_GLOBAL_def shouldBypass_def BYPASS_PATHS_def)

end
