(* ===== verification/SocialTrading.thy ===== *)
theory SocialTrading
  imports OrdersService
begin

text \<open>
  Social trading, \<open>social-trading/\<close>: profiles and subscriptions
  (\<open>services/social-trading.service.ts\<close>), the risk control of a copy
  (\<open>services/risk-control.service.ts\<close>), its daily reset (\<open>cron/risk-reset.cron.ts\<close>) and the
  listener that mirrors the fills of the matching engine into the accounts of the followers
  (\<open>listeners/copy-trading.listener.ts\<close>).

  The state extends the one of the orders module by the two tables of this module.  Its user
  identifiers are strings, those of orders and balances are numbers; the code converts with
  \<open>String\<close> and \<open>parseInt\<close>, and so does the model.
\<close>

section \<open>Data\<close>

datatype StrategyVisibility = PUBLIC | PRIVATE | ANONYMOUS

datatype SubscriptionStatus = ACTIVE | PAUSED | PAUSED_DAILY_LOSS | UNSUBSCRIBED

datatype CopyOrderTypeFilter = COPY_MARKET | COPY_LIMIT

record TraderProfile =
  tp_id :: uuid
  tp_userId :: string
  tp_displayName :: string
  tp_bio :: "string option"
  tp_visibility :: StrategyVisibility
  tp_performanceFeePct :: real
  tp_isAcceptingCopiers :: bool
  tp_totalSubscribers :: int
  tp_totalCopiedVolume :: real
  tp_realizedFollowerPnL :: real

record CopySubscription =
  cs_id :: uuid
  cs_followerUserId :: string
  cs_masterUserId :: string
  cs_status :: SubscriptionStatus
  cs_copyMultiplier :: real
  cs_maxDailyLoss :: real
  cs_maxOrderSizePct :: real
  cs_orderTypeFilter :: string
  cs_pendingFees :: real
  cs_realizedPnL :: real
  cs_intradayPnLBaseline :: real
  cs_createdAt :: timestamp

record CreateTraderProfileDto =
  cp_displayName :: string
  cp_bio :: "string option"
  cp_visibility :: StrategyVisibility
  cp_performanceFeePct :: real

record UpdateTraderProfileDto =
  up_displayName :: "string option"
  up_bio :: "string option"
  up_visibility :: "StrategyVisibility option"
  up_performanceFeePct :: "real option"
  up_isAcceptingCopiers :: "bool option"

record CreateCopySubscriptionDto =
  sd_masterUserId :: string
  sd_copyMultiplier :: "real option"
  sd_maxDailyLoss :: "real option"
  sd_maxOrderSizePct :: "real option"
  sd_orderTypeFilter :: "CopyOrderTypeFilter list option"

record UpdateCopySubscriptionDto =
  ud_copyMultiplier :: "real option"
  ud_maxDailyLoss :: "real option"
  ud_maxOrderSizePct :: "real option"
  ud_orderTypeFilter :: "CopyOrderTypeFilter list option"
  ud_isActive :: "bool option"

record social_db = order_db +
  so_profiles :: "TraderProfile list"
  so_subscriptions :: "CopySubscription list"

text \<open>What the validation pipe lets through.\<close>

definition inRange :: "real \<Rightarrow> real \<Rightarrow> real option \<Rightarrow> bool" where
  "inRange lo hi x = (case x of None \<Rightarrow> True | Some v \<Rightarrow> lo \<le> v \<and> v \<le> hi)"

definition atLeastZero :: "real option \<Rightarrow> bool" where
  "atLeastZero x = (case x of None \<Rightarrow> True | Some v \<Rightarrow> 0 \<le> v)"

definition lengthWithin :: "nat \<Rightarrow> nat \<Rightarrow> string option \<Rightarrow> bool" where
  "lengthWithin lo hi x = (case x of None \<Rightarrow> True | Some s \<Rightarrow> lo \<le> length s \<and> length s \<le> hi)"

definition validCreateProfile :: "CreateTraderProfileDto \<Rightarrow> bool" where
  "validCreateProfile dto =
     (lengthWithin 2 64 (Some (cp_displayName dto)) \<and> lengthWithin 0 2000 (cp_bio dto) \<and>
      0 \<le> cp_performanceFeePct dto \<and> cp_performanceFeePct dto \<le> 100)"

definition validUpdateProfile :: "UpdateTraderProfileDto \<Rightarrow> bool" where
  "validUpdateProfile dto =
     (lengthWithin 2 64 (up_displayName dto) \<and> lengthWithin 0 2000 (up_bio dto) \<and>
      inRange 0 100 (up_performanceFeePct dto))"

definition validCreateSubscription :: "CreateCopySubscriptionDto \<Rightarrow> bool" where
  "validCreateSubscription dto =
     (atLeastZero (sd_copyMultiplier dto) \<and> atLeastZero (sd_maxDailyLoss dto) \<and>
      inRange 0 1 (sd_maxOrderSizePct dto))"

definition validUpdateSubscription :: "UpdateCopySubscriptionDto \<Rightarrow> bool" where
  "validUpdateSubscription dto =
     (atLeastZero (ud_copyMultiplier dto) \<and> atLeastZero (ud_maxDailyLoss dto) \<and>
      inRange 0 1 (ud_maxOrderSizePct dto))"

section \<open>Profiles\<close>

definition saveProfile :: "TraderProfile \<Rightarrow> 'a social_db_scheme \<Rightarrow> 'a social_db_scheme" where
  "saveProfile p db = db\<lparr>so_profiles := save_row tp_id p (so_profiles db)\<rparr>"

definition findProfile :: "string \<Rightarrow> 'a social_db_scheme \<Rightarrow> TraderProfile option" where
  "findProfile userId db = find (\<lambda>p. tp_userId p = userId) (so_profiles db)"

definition createProfile ::
  "uuid \<Rightarrow> string \<Rightarrow> CreateTraderProfileDto \<Rightarrow> 'a social_db_scheme \<Rightarrow> (TraderProfile \<times> 'a social_db_scheme) result" where
  "createProfile newId userId dto db =
     (case findProfile userId db of
        Some existing \<Rightarrow> Inl (ConflictException ''Profile already exists for user'')
      | None \<Rightarrow>
          let profile = \<lparr>tp_id = newId, tp_userId = userId, tp_displayName = cp_displayName dto,
                tp_bio = cp_bio dto, tp_visibility = cp_visibility dto,
                tp_performanceFeePct = cp_performanceFeePct dto, tp_isAcceptingCopiers = True,
                tp_totalSubscribers = 0, tp_totalCopiedVolume = 0, tp_realizedFollowerPnL = 0\<rparr>
          in Inr (profile, saveProfile profile db))"

definition orKeep :: "'v option \<Rightarrow> 'v \<Rightarrow> 'v" where
  "orKeep x old = (case x of None \<Rightarrow> old | Some v \<Rightarrow> v)"

definition updateProfile ::
  "string \<Rightarrow> UpdateTraderProfileDto \<Rightarrow> 'a social_db_scheme \<Rightarrow> (TraderProfile \<times> 'a social_db_scheme) result" where
  "updateProfile userId dto db =
     (case findProfile userId db of
        None \<Rightarrow> Inl (NotFoundException ''No profile for user'')
      | Some profile \<Rightarrow>
          let saved = profile\<lparr>tp_displayName := orKeep (up_displayName dto) (tp_displayName profile),
                tp_bio := (case up_bio dto of None \<Rightarrow> tp_bio profile | Some b \<Rightarrow> Some b),
                tp_visibility := orKeep (up_visibility dto) (tp_visibility profile),
                tp_performanceFeePct := orKeep (up_performanceFeePct dto) (tp_performanceFeePct profile),
                tp_isAcceptingCopiers := orKeep (up_isAcceptingCopiers dto) (tp_isAcceptingCopiers profile)\<rparr>
          in Inr (saved, saveProfile saved db))"

definition listPublicProfiles :: "nat \<Rightarrow> 'a social_db_scheme \<Rightarrow> TraderProfile list" where
  "listPublicProfiles limit db =
     take limit (sort_key (\<lambda>p. - tp_totalSubscribers p)
       (filter (\<lambda>p. tp_visibility p = PUBLIC \<and> tp_isAcceptingCopiers p) (so_profiles db)))"

section \<open>Subscriptions\<close>

fun filterText :: "CopyOrderTypeFilter \<Rightarrow> string" where
  "filterText COPY_MARKET = ''MARKET''"
| "filterText COPY_LIMIT = ''LIMIT''"

fun orderTypeText :: "OrderType \<Rightarrow> string" where
  "orderTypeText MARKET = ''MARKET''"
| "orderTypeText LIMIT = ''LIMIT''"
| "orderTypeText STOP_LOSS = ''STOP_LOSS''"
| "orderTypeText TAKE_PROFIT = ''TAKE_PROFIT''"
| "orderTypeText TRAILING_STOP = ''TRAILING_STOP''"

definition getOrderTypeFilterSet :: "CopySubscription \<Rightarrow> string list" where
  "getOrderTypeFilterSet sub =
     (if cs_orderTypeFilter sub = [] then []
      else setOrder (filter (\<lambda>s. s \<noteq> []) (map trim (splitComma (cs_orderTypeFilter sub)))))"

definition saveSubscription :: "CopySubscription \<Rightarrow> 'a social_db_scheme \<Rightarrow> 'a social_db_scheme" where
  "saveSubscription sub db = db\<lparr>so_subscriptions := save_row cs_id sub (so_subscriptions db)\<rparr>"

definition findActive :: "string \<Rightarrow> string \<Rightarrow> 'a social_db_scheme \<Rightarrow> CopySubscription option" where
  "findActive follower master db =
     find (\<lambda>s. cs_followerUserId s = follower \<and> cs_masterUserId s = master \<and> cs_status s = ACTIVE)
       (so_subscriptions db)"

definition newSubscription :: "timestamp \<Rightarrow> uuid \<Rightarrow> string \<Rightarrow> CreateCopySubscriptionDto \<Rightarrow> CopySubscription" where
  "newSubscription now newId follower dto =
     \<lparr>cs_id = newId, cs_followerUserId = follower, cs_masterUserId = sd_masterUserId dto, cs_status = ACTIVE,
      cs_copyMultiplier = orKeep (sd_copyMultiplier dto) 1, cs_maxDailyLoss = orKeep (sd_maxDailyLoss dto) 0,
      cs_maxOrderSizePct = orKeep (sd_maxOrderSizePct dto) 0,
      cs_orderTypeFilter = joinComma (map filterText (orKeep (sd_orderTypeFilter dto) [])),
      cs_pendingFees = 0, cs_realizedPnL = 0, cs_intradayPnLBaseline = 0, cs_createdAt = now\<rparr>"

definition subscribe ::
  "timestamp \<Rightarrow> uuid \<Rightarrow> string \<Rightarrow> CreateCopySubscriptionDto \<Rightarrow> 'a social_db_scheme \<Rightarrow>
     (CopySubscription \<times> 'a social_db_scheme) result" where
  "subscribe now newId follower dto db =
     (if follower = sd_masterUserId dto
      then Inl (BadRequestException ''Cannot subscribe to your own profile'')
      else case findProfile (sd_masterUserId dto) db of
        None \<Rightarrow> Inl (NotFoundException ''Master profile not found for user'')
      | Some master \<Rightarrow>
          if \<not> tp_isAcceptingCopiers master then Inl (BadRequestException ''Master is not accepting copiers'')
          else if tp_visibility master = PRIVATE then Inl (BadRequestException ''Master has a PRIVATE profile'')
          else case findActive follower (sd_masterUserId dto) db of
            Some existing \<Rightarrow> Inl (ConflictException ''Already subscribed to master'')
          | None \<Rightarrow>
              let sub = newSubscription now newId follower dto;
                  master' = master\<lparr>tp_totalSubscribers := tp_totalSubscribers master + 1\<rparr>
              in Inr (sub, saveProfile master' (saveSubscription sub db)))"

text \<open>Another user's subscription is reported as not found.\<close>

definition findMine :: "string \<Rightarrow> uuid \<Rightarrow> 'a social_db_scheme \<Rightarrow> CopySubscription result" where
  "findMine follower subscriptionId db =
     (case row_of cs_id subscriptionId (so_subscriptions db) of
        None \<Rightarrow> Inl (NotFoundException ''Subscription not found'')
      | Some sub \<Rightarrow>
          if cs_followerUserId sub \<noteq> follower then Inl (NotFoundException ''Subscription not found'')
          else Inr sub)"

definition changedSubscription :: "UpdateCopySubscriptionDto \<Rightarrow> CopySubscription \<Rightarrow> CopySubscription" where
  "changedSubscription dto sub =
     (let sub1 = sub\<lparr>cs_copyMultiplier := orKeep (ud_copyMultiplier dto) (cs_copyMultiplier sub),
            cs_maxDailyLoss := orKeep (ud_maxDailyLoss dto) (cs_maxDailyLoss sub),
            cs_maxOrderSizePct := orKeep (ud_maxOrderSizePct dto) (cs_maxOrderSizePct sub),
            cs_orderTypeFilter := (case ud_orderTypeFilter dto of
               None \<Rightarrow> cs_orderTypeFilter sub | Some fs \<Rightarrow> joinComma (map filterText fs))\<rparr>
      in (case ud_isActive dto of
            None \<Rightarrow> sub1
          | Some active \<Rightarrow>
              (if cs_status sub1 = PAUSED_DAILY_LOSS
               then sub1\<lparr>cs_intradayPnLBaseline := cs_realizedPnL sub1\<rparr> else sub1)
              \<lparr>cs_status := (if active then ACTIVE else PAUSED)\<rparr>))"

definition updateSubscription ::
  "string \<Rightarrow> uuid \<Rightarrow> UpdateCopySubscriptionDto \<Rightarrow> 'a social_db_scheme \<Rightarrow>
     (CopySubscription \<times> 'a social_db_scheme) result" where
  "updateSubscription follower subscriptionId dto db =
     rbind (findMine follower subscriptionId db) (\<lambda>sub.
       Inr (changedSubscription dto sub, saveSubscription (changedSubscription dto sub) db))"

definition unsubscribe ::
  "string \<Rightarrow> uuid \<Rightarrow> 'a social_db_scheme \<Rightarrow> (CopySubscription \<times> 'a social_db_scheme) result" where
  "unsubscribe follower subscriptionId db =
     rbind (findMine follower subscriptionId db) (\<lambda>sub.
       let saved = sub\<lparr>cs_status := UNSUBSCRIBED\<rparr>;
           db1 = saveSubscription saved db
       in (case findProfile (cs_masterUserId sub) db1 of
             None \<Rightarrow> Inr (saved, db1)
           | Some master \<Rightarrow>
               if tp_totalSubscribers master > 0
               then Inr (saved, saveProfile (master\<lparr>tp_totalSubscribers := tp_totalSubscribers master - 1\<rparr>) db1)
               else Inr (saved, db1)))"

definition isLiveSubscription :: "CopySubscription \<Rightarrow> bool" where
  "isLiveSubscription sub = (cs_status sub = ACTIVE \<or> cs_status sub = PAUSED \<or> cs_status sub = PAUSED_DAILY_LOSS)"

definition listMySubscriptions :: "string \<Rightarrow> bool \<Rightarrow> 'a social_db_scheme \<Rightarrow> CopySubscription list" where
  "listMySubscriptions follower activeOnly db =
     sort_key (\<lambda>s. - cs_createdAt s)
       (filter (\<lambda>s. cs_followerUserId s = follower \<and> (activeOnly \<longrightarrow> isLiveSubscription s)) (so_subscriptions db))"

definition listMasterSubscribers :: "string \<Rightarrow> 'a social_db_scheme \<Rightarrow> CopySubscription list" where
  "listMasterSubscribers master db =
     sort_key (\<lambda>s. - cs_createdAt s)
       (filter (\<lambda>s. cs_masterUserId s = master \<and> isLiveSubscription s) (so_subscriptions db))"

section \<open>Risk control\<close>

record CopyDecision =
  cd_amount :: real
  cd_feeAccrued :: bool
  cd_fee :: real

definition cappedAmount :: "CopySubscription \<Rightarrow> TradeExecutedEvent \<Rightarrow> real \<Rightarrow> real" where
  "cappedAmount sub event followerAvailableBalance =
     (let rawAmount = te_amount event * cs_copyMultiplier sub
      in if cs_maxOrderSizePct sub > 0 \<and> followerAvailableBalance > 0
         then min rawAmount (followerAvailableBalance * cs_maxOrderSizePct sub) else rawAmount)"

definition intradayLoss :: "CopySubscription \<Rightarrow> real" where
  "intradayLoss sub = max 0 (- (cs_realizedPnL sub - cs_intradayPnLBaseline sub))"

definition resolveCopyAmount ::
  "CopySubscription \<Rightarrow> TradeExecutedEvent \<Rightarrow> real \<Rightarrow> real \<Rightarrow> 'a social_db_scheme \<Rightarrow>
     CopyDecision option \<times> 'a social_db_scheme" where
  "resolveCopyAmount sub event followerAvailableBalance performanceFeePct db =
     (if cs_status sub \<noteq> ACTIVE then (None, db)
      else if getOrderTypeFilterSet sub \<noteq> [] \<and> orderTypeText (te_orderType event) \<notin> set (getOrderTypeFilterSet sub)
      then (None, db)
      else if cappedAmount sub event followerAvailableBalance \<le> 0 then (None, db)
      else if cs_maxDailyLoss sub > 0 \<and> intradayLoss sub \<ge> cs_maxDailyLoss sub
      then (None, saveSubscription (sub\<lparr>cs_status := PAUSED_DAILY_LOSS\<rparr>) db)
      else
        let fee = te_totalValue event * (performanceFeePct / 100);
            amount = cappedAmount sub event followerAvailableBalance
        in if fee > 0
           then (Some \<lparr>cd_amount = amount, cd_feeAccrued = True, cd_fee = fee\<rparr>,
                 saveSubscription (sub\<lparr>cs_pendingFees := cs_pendingFees sub + fee,
                   cs_realizedPnL := cs_realizedPnL sub + (te_totalValue event - fee)\<rparr>) db)
           else (Some \<lparr>cd_amount = amount, cd_feeAccrued = False, cd_fee = 0\<rparr>, db))"

definition rebaselined :: "CopySubscription \<Rightarrow> CopySubscription" where
  "rebaselined sub = sub\<lparr>cs_intradayPnLBaseline := cs_realizedPnL sub\<rparr>"

definition rollbackDailyReset :: "'a social_db_scheme \<Rightarrow> nat \<times> 'a social_db_scheme" where
  "rollbackDailyReset db =
     (let paused = filter (\<lambda>s. cs_status s = PAUSED_DAILY_LOSS) (so_subscriptions db)
      in (length paused,
          fold (\<lambda>sub. saveSubscription (rebaselined (sub\<lparr>cs_status := ACTIVE\<rparr>))) paused db))"

definition dailyReset :: "'a social_db_scheme \<Rightarrow> 'a social_db_scheme" where
  "dailyReset db =
     (let actives = filter (\<lambda>s. cs_status s = ACTIVE \<or> cs_status s = PAUSED) (so_subscriptions db)
      in snd (rollbackDailyReset (fold (\<lambda>sub. saveSubscription (rebaselined sub)) actives db)))"

section \<open>The copy-trading listener\<close>

definition followerOrder :: "timestamp \<Rightarrow> uuid \<Rightarrow> uid \<Rightarrow> TradeExecutedEvent \<Rightarrow> real \<Rightarrow> Order" where
  "followerOrder now newId follower event amount =
     \<lparr>o_id = newId, o_userId = follower, o_assetId = te_assetId event, o_side = te_side event,
      o_type = MARKET, o_status = PENDING, o_amount = amount, o_filledAmount = 0,
      o_averageFillPrice = None, o_price = None, o_stopPrice = None, o_trailingDelta = None,
      o_trailingReferencePrice = None, o_triggeredAt = None, o_filledAt = None,
      o_cancelledAt = None, o_expiresAt = None, o_createdAt = now\<rparr>"

text \<open>
  The copy for one follower: its deltas, or an exception.  The risk control has stored its
  accrual before the order is written, so an exception does not undo it.  A follower whose
  identifier does not start with a digit gives \<open>NaN\<close>, which the column refuses.
\<close>

definition copyTradeForFollower ::
  "timestamp \<Rightarrow> CopySubscription \<Rightarrow> TraderProfile \<Rightarrow> TradeExecutedEvent \<Rightarrow> 'a social_db_scheme \<Rightarrow>
     ((real \<times> real) option) result \<times> 'a social_db_scheme" where
  "copyTradeForFollower now sub master event db =
     (let numericFollowerId = parseInt (cs_followerUserId sub);
          followerAvailable = (case numericFollowerId of
             None \<Rightarrow> 0 | Some n \<Rightarrow> availableOf n (te_assetId event) (od_balances db))
      in case resolveCopyAmount sub event followerAvailable (tp_performanceFeePct master) db of
           (None, db1) \<Rightarrow> (Inr None, db1)
         | (Some decision, db1) \<Rightarrow>
             (case numericFollowerId of
                None \<Rightarrow> (Inl (JsError ''invalid input syntax for type integer''), db1)
              | Some n \<Rightarrow>
                  let order0 = followerOrder now (unusedId (map o_id (bk_orders db1))) n event (cd_amount decision);
                      db2 = snd (matchWhen True now order0 (saveOrder order0 db1))
                  in (Inr (Some (cd_amount decision,
                        if cd_feeAccrued decision then cd_amount decision * te_price event else 0)), db2)))"

text \<open>One round of the loop over the followers; a failure is logged and the next one follows.\<close>

definition copyOne ::
  "timestamp \<Rightarrow> TraderProfile \<Rightarrow> TradeExecutedEvent \<Rightarrow> CopySubscription \<Rightarrow>
     real \<times> real \<times> 'a social_db_scheme \<Rightarrow> real \<times> real \<times> 'a social_db_scheme" where
  "copyOne now master event sub acc =
     (case acc of (vol, pnl, db) \<Rightarrow>
        (case copyTradeForFollower now sub master event db of
           (Inr (Some (v, p)), db') \<Rightarrow> (vol + v, pnl + p, db')
         | (_, db') \<Rightarrow> (vol, pnl, db')))"

definition isCopied :: "TradeExecutedEvent \<Rightarrow> CopySubscription \<Rightarrow> bool" where
  "isCopied event sub =
     (cs_masterUserId sub = natText (te_masterUserId event) \<and>
      (cs_status sub = ACTIVE \<or> cs_status sub = PAUSED_DAILY_LOSS))"

definition handleTradeExecuted ::
  "timestamp \<Rightarrow> TradeExecutedEvent \<Rightarrow> 'a social_db_scheme \<Rightarrow> 'a social_db_scheme" where
  "handleTradeExecuted now event db =
     (let subs = filter (isCopied event) (so_subscriptions db)
      in if subs = [] then db
         else case findProfile (natText (te_masterUserId event)) db of
           None \<Rightarrow> db
         | Some master \<Rightarrow>
             if \<not> tp_isAcceptingCopiers master then db
             else
               (case fold (copyOne now master event) subs (0, 0, db) of
                  (vol, pnl, db') \<Rightarrow>
                    if vol > 0 \<or> pnl > 0
                    then saveProfile (master\<lparr>tp_totalCopiedVolume := tp_totalCopiedVolume master + vol,
                           tp_realizedFollowerPnL := tp_realizedFollowerPnL master + pnl\<rparr>) db'
                    else db'))"

section \<open>Requests to the module\<close>

datatype SocialRequest =
    CreateProfile uuid string CreateTraderProfileDto
  | UpdateProfile string UpdateTraderProfileDto
  | Subscribe timestamp uuid string CreateCopySubscriptionDto
  | UpdateSubscription string uuid UpdateCopySubscriptionDto
  | Unsubscribe string uuid
  | DailyReset
  | TradeExecuted timestamp TradeExecutedEvent

fun handleSocialRequest :: "SocialRequest \<Rightarrow> 'a social_db_scheme \<Rightarrow> 'a social_db_scheme" where
  "handleSocialRequest (CreateProfile newId userId dto) db =
     (if validCreateProfile dto \<and> row_of tp_id newId (so_profiles db) = None
      then commit (\<lambda>s. map_sum id snd (createProfile newId userId dto s)) db else db)"
| "handleSocialRequest (UpdateProfile userId dto) db =
     (if validUpdateProfile dto then commit (\<lambda>s. map_sum id snd (updateProfile userId dto s)) db else db)"
| "handleSocialRequest (Subscribe now newId follower dto) db =
     (if validCreateSubscription dto \<and> row_of cs_id newId (so_subscriptions db) = None
      then commit (\<lambda>s. map_sum id snd (subscribe now newId follower dto s)) db else db)"
| "handleSocialRequest (UpdateSubscription follower subscriptionId dto) db =
     (if validUpdateSubscription dto
      then commit (\<lambda>s. map_sum id snd (updateSubscription follower subscriptionId dto s)) db else db)"
| "handleSocialRequest (Unsubscribe follower subscriptionId) db =
     commit (\<lambda>s. map_sum id snd (unsubscribe follower subscriptionId s)) db"
| "handleSocialRequest DailyReset db = dailyReset db"
| "handleSocialRequest (TradeExecuted now event) db = handleTradeExecuted now event db"

section \<open>Frames\<close>

lemma save_simps [simp]:
  "so_subscriptions (saveProfile p db) = so_subscriptions db"
  "so_profiles (saveSubscription sub db) = so_profiles db"
  "so_profiles (saveProfile p db) = save_row tp_id p (so_profiles db)"
  "so_subscriptions (saveSubscription sub db) = save_row cs_id sub (so_subscriptions db)"
  "bk_orders (saveProfile p db) = bk_orders db"
  "bk_orders (saveSubscription sub db) = bk_orders db"
  "od_balances (saveProfile p db) = od_balances db"
  "od_balances (saveSubscription sub db) = od_balances db"
  by (simp_all add: saveProfile_def saveSubscription_def)

lemma matchLoop_social:
  fixes db :: "'a social_db_scheme"
  shows "matchLoop now taker db = (tk, db', fs) \<Longrightarrow>
    so_subscriptions db' = so_subscriptions db \<and> so_profiles db' = so_profiles db"
  by (induction rule: matchLoop_induct) (simp_all add: fillBook_def Let_def)

lemma matchWhen_social [simp]:
  fixes db :: "'a social_db_scheme"
  shows "so_subscriptions (snd (matchWhen b now ord db)) = so_subscriptions db"
    and "so_profiles (snd (matchWhen b now ord db)) = so_profiles db"
  using matchLoop_social [of now ord db]
  by (auto simp: matchWhen_def matchTakerOrder_def split: prod.splits)

lemma saveOrder_social [simp]:
  "so_subscriptions (saveOrder ord db) = so_subscriptions db"
  "so_profiles (saveOrder ord db) = so_profiles db"
  by (simp_all add: saveOrder_def)

lemma copyTrade_profiles [simp]: "so_profiles (snd (copyTradeForFollower now sub master event db)) = so_profiles db"
  by (auto simp: copyTradeForFollower_def resolveCopyAmount_def Let_def split: prod.splits option.splits if_splits)

text \<open>What the listener stores of a subscription: nothing, a pause, or an accrual.\<close>

lemma copyTrade_subscriptions:
  "so_subscriptions (snd (copyTradeForFollower now sub master event db)) \<in>
     {so_subscriptions db,
      save_row cs_id (sub\<lparr>cs_status := PAUSED_DAILY_LOSS\<rparr>) (so_subscriptions db),
      save_row cs_id (sub\<lparr>cs_pendingFees := cs_pendingFees sub + te_totalValue event * (tp_performanceFeePct master / 100),
        cs_realizedPnL := cs_realizedPnL sub
          + (te_totalValue event - te_totalValue event * (tp_performanceFeePct master / 100))\<rparr>) (so_subscriptions db)}"
  by (auto simp: copyTradeForFollower_def resolveCopyAmount_def Let_def split: prod.splits option.splits if_splits)

section \<open>The daily loss limit\<close>

definition neverLost :: "CopySubscription \<Rightarrow> bool" where
  "neverLost sub = (cs_intradayPnLBaseline sub \<le> cs_realizedPnL sub \<and> cs_status sub \<noteq> PAUSED_DAILY_LOSS)"

definition feeInRange :: "TraderProfile \<Rightarrow> bool" where
  "feeInRange p = (0 \<le> tp_performanceFeePct p \<and> tp_performanceFeePct p \<le> 100)"

definition noLossSeen :: "'a social_db_scheme \<Rightarrow> bool" where
  "noLossSeen db = ((\<forall>sub\<in>set (so_subscriptions db). neverLost sub) \<and> (\<forall>p\<in>set (so_profiles db). feeInRange p))"

lemma noLossSeen_saveSubscription: "noLossSeen db \<Longrightarrow> neverLost sub \<Longrightarrow> noLossSeen (saveSubscription sub db)"
  by (auto simp: noLossSeen_def dest!: in_save_rowD)

lemma noLossSeen_saveProfile: "noLossSeen db \<Longrightarrow> feeInRange p \<Longrightarrow> noLossSeen (saveProfile p db)"
  by (auto simp: noLossSeen_def dest!: in_save_rowD)

lemma findProfile_in: "findProfile u db = Some p \<Longrightarrow> p \<in> set (so_profiles db) \<and> tp_userId p = u"
  by (auto simp: findProfile_def dest: find_Some_in)

lemma findMine_in: "findMine u i db = Inr sub \<Longrightarrow> sub \<in> set (so_subscriptions db) \<and> cs_id sub = i \<and> cs_followerUserId sub = u"
  by (auto simp: findMine_def split: option.splits if_splits dest: row_of_Some_in)

lemma fee_within_value:
  assumes "feeInRange p" and "0 \<le> v"
  shows "v * (tp_performanceFeePct p / 100) \<le> v"
  using assms mult_left_mono [of "tp_performanceFeePct p / 100" 1 v] by (simp add: feeInRange_def)

lemma copyTrade_noLoss:
  assumes "noLossSeen db" and "neverLost sub" and "feeInRange master" and "0 \<le> te_totalValue event"
  shows "noLossSeen (snd (copyTradeForFollower now sub master event db))"
proof -
  have loss: "\<not> (cs_maxDailyLoss sub > 0 \<and> intradayLoss sub \<ge> cs_maxDailyLoss sub)"
    using assms(2) by (simp add: intradayLoss_def neverLost_def)
  then have "so_subscriptions (snd (copyTradeForFollower now sub master event db)) \<in>
     {so_subscriptions db,
      save_row cs_id (sub\<lparr>cs_pendingFees := cs_pendingFees sub + te_totalValue event * (tp_performanceFeePct master / 100),
        cs_realizedPnL := cs_realizedPnL sub
          + (te_totalValue event - te_totalValue event * (tp_performanceFeePct master / 100))\<rparr>) (so_subscriptions db)}"
    by (auto simp: copyTradeForFollower_def resolveCopyAmount_def Let_def split: prod.splits option.splits if_splits)
  then show ?thesis
    using assms fee_within_value [OF assms(3,4)]
    by (auto simp: noLossSeen_def neverLost_def dest!: in_save_rowD)
qed

lemma copyOne_noLoss:
  assumes "noLossSeen (snd (snd acc))" and "neverLost sub" and "feeInRange master" and "0 \<le> te_totalValue event"
  shows "noLossSeen (snd (snd (copyOne now master event sub acc)))"
  using copyTrade_noLoss [OF assms, of now]
  by (auto simp: copyOne_def split: prod.splits sum.splits option.splits)

lemma copyAll_noLoss:
  assumes "noLossSeen (snd (snd acc))" and "\<forall>sub\<in>set subs. neverLost sub" and "feeInRange master"
    and "0 \<le> te_totalValue event"
  shows "noLossSeen (snd (snd (fold (copyOne now master event) subs acc)))"
  using assms by (induction subs arbitrary: acc) (simp_all add: copyOne_noLoss)

lemma handleTrade_noLoss:
  assumes "noLossSeen db" and "0 \<le> te_totalValue event"
  shows "noLossSeen (handleTradeExecuted now event db)"
proof (cases "findProfile (natText (te_masterUserId event)) db")
  case None
  then show ?thesis using assms(1) by (simp add: handleTradeExecuted_def Let_def)
next
  case (Some master)
  then have fee: "feeInRange master" using assms(1) findProfile_in [OF Some] by (simp add: noLossSeen_def)
  have "noLossSeen (snd (snd (fold (copyOne now master event) (filter (isCopied event) (so_subscriptions db)) (0, 0, db))))"
    using assms fee by (intro copyAll_noLoss) (auto simp: noLossSeen_def)
  then show ?thesis
    using assms(1) fee Some
    by (auto simp: handleTradeExecuted_def feeInRange_def Let_def intro!: noLossSeen_saveProfile split: prod.splits)
qed

lemma fold_save_noLoss:
  "noLossSeen db \<Longrightarrow> \<forall>sub\<in>set subs. neverLost (f sub) \<Longrightarrow> noLossSeen (fold (\<lambda>sub. saveSubscription (f sub)) subs db)"
  by (induction subs arbitrary: db) (auto intro: noLossSeen_saveSubscription)

lemma dailyReset_noLoss: "noLossSeen db \<Longrightarrow> noLossSeen (dailyReset db)"
  unfolding dailyReset_def rollbackDailyReset_def Let_def snd_conv
  by (intro fold_save_noLoss) (auto simp: neverLost_def rebaselined_def)

lemma subscribe_noLoss: "noLossSeen db \<Longrightarrow> subscribe now i u dto db = Inr (sub, db') \<Longrightarrow> noLossSeen db'"
  by (auto simp: subscribe_def Let_def noLossSeen_def neverLost_def newSubscription_def feeInRange_def
      dest!: in_save_rowD findProfile_in split: if_splits option.splits)

lemma updateSubscription_noLoss:
  assumes "noLossSeen db" and "updateSubscription u i dto db = Inr (sub, db')"
  shows "noLossSeen db'"
proof -
  obtain old where "findMine u i db = Inr old" and db': "db' = saveSubscription (changedSubscription dto old) db"
    using assms(2) by (auto simp: updateSubscription_def)
  then have "neverLost old" using assms(1) findMine_in [of u i db old] by (simp add: noLossSeen_def)
  then have "neverLost (changedSubscription dto old)"
    by (simp add: neverLost_def changedSubscription_def Let_def split: option.split)
  then show ?thesis using assms(1) by (simp add: db' noLossSeen_saveSubscription)
qed

lemma unsubscribe_noLoss:
  assumes "noLossSeen db" and "unsubscribe u i db = Inr (sub, db')"
  shows "noLossSeen db'"
proof -
  obtain old where mine: "findMine u i db = Inr old" using assms(2) by (auto simp: unsubscribe_def)
  then have "noLossSeen (saveSubscription (old\<lparr>cs_status := UNSUBSCRIBED\<rparr>) db)"
    using assms(1) findMine_in [OF mine] by (intro noLossSeen_saveSubscription) (auto simp: noLossSeen_def neverLost_def)
  then show ?thesis
    using assms(2) mine
    by (auto simp: unsubscribe_def Let_def noLossSeen_def feeInRange_def
        dest!: in_save_rowD findProfile_in split: if_splits option.splits)
qed

lemma profile_noLoss:
  "noLossSeen db \<Longrightarrow> validCreateProfile pdto \<Longrightarrow> createProfile i u pdto db = Inr (p, db') \<Longrightarrow> noLossSeen db'"
  "noLossSeen db \<Longrightarrow> validUpdateProfile udto \<Longrightarrow> updateProfile u udto db = Inr (p, db') \<Longrightarrow> noLossSeen db'"
  by (auto simp: createProfile_def updateProfile_def validCreateProfile_def validUpdateProfile_def noLossSeen_def
      feeInRange_def orKeep_def inRange_def Let_def dest!: in_save_rowD findProfile_in split: option.splits)

text \<open>Fills have a value that is not negative.\<close>

fun valued :: "SocialRequest \<Rightarrow> bool" where
  "valued (TradeExecuted now event) = (0 \<le> te_totalValue event)"
| "valued req = True"

interpretation daily_loss: guarded_loop handleSocialRequest noLossSeen valued
proof
  fix req and db :: "'a social_db_scheme"
  assume ok: "valued req" and inv: "noLossSeen db"
  show "noLossSeen (handleSocialRequest req db)"
  proof (cases req)
    case (CreateProfile i u dto)
    have "noLossSeen (commit (\<lambda>s. map_sum id snd (createProfile i u dto s)) db)" if "validCreateProfile dto"
      by (rule commit_map_snd) (use inv that profile_noLoss(1) in blast)+
    with CreateProfile inv show ?thesis by simp
  next
    case (UpdateProfile u dto)
    have "noLossSeen (commit (\<lambda>s. map_sum id snd (updateProfile u dto s)) db)" if "validUpdateProfile dto"
      by (rule commit_map_snd) (use inv that profile_noLoss(2) in blast)+
    with UpdateProfile inv show ?thesis by simp
  next
    case (Subscribe now i u dto)
    have "noLossSeen (commit (\<lambda>s. map_sum id snd (subscribe now i u dto s)) db)"
      by (rule commit_map_snd) (use inv subscribe_noLoss in blast)+
    with Subscribe inv show ?thesis by simp
  next
    case (UpdateSubscription u i dto)
    have "noLossSeen (commit (\<lambda>s. map_sum id snd (updateSubscription u i dto s)) db)"
      by (rule commit_map_snd) (use inv updateSubscription_noLoss in blast)+
    with UpdateSubscription inv show ?thesis by simp
  next
    case (Unsubscribe u i)
    have "noLossSeen (commit (\<lambda>s. map_sum id snd (unsubscribe u i s)) db)"
      by (rule commit_map_snd) (use inv unsubscribe_noLoss in blast)+
    with Unsubscribe inv show ?thesis by simp
  next
    case DailyReset
    then show ?thesis using inv by (simp add: dailyReset_noLoss)
  next
    case (TradeExecuted now event)
    then show ?thesis using inv ok by (simp add: handleTrade_noLoss)
  qed
qed

section \<open>Copies and the book\<close>

definition sound_book :: "'a social_db_scheme \<Rightarrow> bool" where
  "sound_book db = (sane_book db \<and> balanced db)"

lemma sound_book_same_orders: "sound_book db \<Longrightarrow> bk_orders db' = bk_orders db \<Longrightarrow> sound_book db'"
  by (simp add: sound_book_def sane_book_def balanced_def)

lemma unusedId_row: "row_of key (unusedId (map key t)) t = None"
  using unusedId_fresh [of "map key t"] by (simp add: row_of_None_iff)

lemma followerOrder_wf: "0 < amount \<Longrightarrow> sane_order (followerOrder now i n event amount)"
  by (simp add: sane_order_def followerOrder_def)

lemma followerOrder_fields [simp]:
  "o_id (followerOrder now i n event amount) = i" "o_filledAmount (followerOrder now i n event amount) = 0"
  "o_amount (followerOrder now i n event amount) = amount" "o_userId (followerOrder now i n event amount) = n"
  "o_assetId (followerOrder now i n event amount) = te_assetId event"
  "o_side (followerOrder now i n event amount) = te_side event" "isOpen (followerOrder now i n event amount)"
  by (simp_all add: followerOrder_def isOpen_def)

lemma sound_book_new_order:
  assumes "sound_book db" and "sane_order ord" and "o_filledAmount ord = 0" and "row_of o_id (o_id ord) (bk_orders db) = None"
  shows "sound_book (saveOrder ord db)"
proof -
  have "sane_book (saveOrder ord db)" and "keyed o_id (bk_orders db)"
    using assms(1,2) by (simp_all add: sound_book_def sane_book_saveOrder) (simp add: sane_book_def)
  then show ?thesis using assms by (simp add: sound_book_def balanced_def filledOn_save_row)
qed

lemma sound_book_match:
  assumes "sound_book db" and "sane_order ord" and "stored ord db"
  shows "sound_book (snd (matchWhen True now ord db))"
proof (cases "matchTakerOrder now ord db")
  case (fields tk db' fs)
  then show ?thesis
    using assms engine.match_wf [OF fields] engine.match_filled [OF fields]
    by (simp add: matchWhen_def sound_book_def balanced_def)
qed

lemma resolve_orders: "bk_orders (snd (resolveCopyAmount sub event b pct db)) = bk_orders db"
  by (simp add: resolveCopyAmount_def Let_def)

lemma resolve_positive: "fst (resolveCopyAmount sub event b pct db) = Some d \<Longrightarrow> 0 < cd_amount d"
  by (auto simp: resolveCopyAmount_def Let_def split: if_splits)

lemma copyTrade_sound:
  assumes "sound_book db"
  shows "sound_book (snd (copyTradeForFollower now sub master event db))"
proof -
  let ?n = "parseInt (cs_followerUserId sub)"
  let ?b = "case ?n of None \<Rightarrow> 0 | Some n \<Rightarrow> availableOf n (te_assetId event) (od_balances db)"
  obtain d db1 where res: "resolveCopyAmount sub event ?b (tp_performanceFeePct master) db = (d, db1)"
    by (cases "resolveCopyAmount sub event ?b (tp_performanceFeePct master) db")
  have db1: "sound_book db1"
    using assms resolve_orders [of sub event ?b "tp_performanceFeePct master" db] res
    by (auto intro: sound_book_same_orders)
  have "sound_book (snd (matchWhen True now ord (saveOrder ord db1)))"
    if "d = Some dec" and "ord = followerOrder now (unusedId (map o_id (bk_orders db1))) n event (cd_amount dec)" for dec n ord
    using that resolve_positive [of sub event ?b "tp_performanceFeePct master" db dec] res db1
    by (intro sound_book_match sound_book_new_order stored_saveOrder)
      (auto intro: followerOrder_wf simp: unusedId_row)
  then show ?thesis
    using db1 unfolding copyTradeForFollower_def Let_def res by (auto split: option.splits)
qed

lemma copyAll_sound:
  "sound_book (snd (snd acc)) \<Longrightarrow> sound_book (snd (snd (fold (copyOne now master event) subs acc)))"
proof (induction subs arbitrary: acc)
  case (Cons sub subs)
  then have "sound_book (snd (snd (copyOne now master event sub acc)))"
    using copyTrade_sound [of "snd (snd acc)" now sub master event]
    by (auto simp: copyOne_def split: prod.splits sum.splits option.splits)
  then show ?case using Cons.IH by simp
qed simp

lemma handleTrade_sound:
  assumes "sound_book db"
  shows "sound_book (handleTradeExecuted now event db)"
proof (cases "findProfile (natText (te_masterUserId event)) db")
  case (Some master)
  obtain vol pnl db' where run: "fold (copyOne now master event) (filter (isCopied event) (so_subscriptions db)) (0, 0, db) = (vol, pnl, db')"
    by (rule prod_cases3)
  then have "sound_book db'"
    using copyAll_sound [of "(0, 0, db)" now master event "filter (isCopied event) (so_subscriptions db)"] assms by simp
  then show ?thesis
    using assms Some run by (auto simp: handleTradeExecuted_def Let_def intro: sound_book_same_orders)
qed (simp add: handleTradeExecuted_def Let_def assms)

lemma fold_save_orders: "bk_orders (fold (\<lambda>sub. saveSubscription (f sub)) subs db) = bk_orders db"
  by (induction subs arbitrary: db) simp_all

lemma account_requests_keep_orders:
  "createProfile i u pdto db = Inr (p, db') \<Longrightarrow> bk_orders db' = bk_orders db"
  "updateProfile u qdto db = Inr (p, db') \<Longrightarrow> bk_orders db' = bk_orders db"
  "subscribe now i u sdto db = Inr (sub, db') \<Longrightarrow> bk_orders db' = bk_orders db"
  "updateSubscription u i udto db = Inr (sub, db') \<Longrightarrow> bk_orders db' = bk_orders db"
  "unsubscribe u i db = Inr (sub, db') \<Longrightarrow> bk_orders db' = bk_orders db"
  "bk_orders (dailyReset db) = bk_orders db"
  by (auto simp: createProfile_def updateProfile_def subscribe_def updateSubscription_def unsubscribe_def
      dailyReset_def rollbackDailyReset_def fold_save_orders Let_def split: option.splits if_splits)

lemma commit_keeps_orders:
  assumes "\<And>x db'. h db = Inr (x, db') \<Longrightarrow> bk_orders db' = bk_orders db"
  shows "bk_orders (commit (\<lambda>s. map_sum id snd (h s)) db) = bk_orders db"
  using assms by (cases "h db") (auto simp: commit_def)

interpretation copied_book: event_loop handleSocialRequest sound_book
proof
  fix req and db :: "'a social_db_scheme"
  assume inv: "sound_book db"
  show "sound_book (handleSocialRequest req db)"
  proof (cases req)
    case (TradeExecuted now event)
    with inv show ?thesis by (simp add: handleTrade_sound)
  qed (use inv in \<open>auto intro!: sound_book_same_orders [OF inv] commit_keeps_orders
      dest: account_requests_keep_orders(1-5) simp: account_requests_keep_orders(6)\<close>)
qed

section \<open>Properties\<close>

lemma no_bids_no_match:
  assumes "\<forall>ord\<in>set (bk_orders db). o_assetId ord = o_assetId taker \<longrightarrow> o_side ord = SELL" and "o_side taker = SELL"
  shows "snd (matchWhen True now taker db) = saveOrder taker db"
proof -
  have "bestMaker taker (bk_orders db) = None"
    using assms by (auto simp: bestMaker_None_iff crossable_def)
  then show ?thesis by (simp add: matchWhen_def matchTakerOrder_def matchLoop_stop saveOrder_def)
qed

lemma empty_account_decision:
  assumes "cs_status sub = ACTIVE" and "cs_orderTypeFilter sub = []" and "intradayLoss sub = 0"
    and "0 < te_amount event * cs_copyMultiplier sub" and "b \<le> 0"
  obtains d db1 where "resolveCopyAmount sub event b pct db = (Some d, db1)"
    and "cd_amount d = te_amount event * cs_copyMultiplier sub"
    and "bk_orders db1 = bk_orders db" and "od_balances db1 = od_balances db"
  using assms that by (fastforce simp: resolveCopyAmount_def getOrderTypeFilterSet_def cappedAmount_def Let_def split: if_splits)

lemma copyOrder_open:
  assumes "sub_ok = (cs_status sub = ACTIVE \<and> cs_orderTypeFilter sub = [] \<and> intradayLoss sub = 0)" and sub_ok
    and "cs_followerUserId sub = natText f" and "0 < te_amount event * cs_copyMultiplier sub"
    and "findBalance f (te_assetId event) (od_balances db) = None" and "te_side event = SELL"
    and "\<forall>ord\<in>set (bk_orders db). o_assetId ord = te_assetId event \<longrightarrow> o_side ord = SELL"
  obtains i where "bk_orders (snd (copyTradeForFollower now sub master event db)) =
      save_row o_id (followerOrder now i f event (te_amount event * cs_copyMultiplier sub)) (bk_orders db)"
    and "od_balances (snd (copyTradeForFollower now sub master event db)) = od_balances db"
proof -
  obtain d db1 where res: "resolveCopyAmount sub event 0 (tp_performanceFeePct master) db = (Some d, db1)"
    and d: "cd_amount d = te_amount event * cs_copyMultiplier sub"
    and db1: "bk_orders db1 = bk_orders db" "od_balances db1 = od_balances db"
    using assms empty_account_decision [of sub event 0 "tp_performanceFeePct master" db] by auto
  let ?ord = "followerOrder now (unusedId (map o_id (bk_orders db1))) f event (cd_amount d)"
  have avail: "availableOf f (te_assetId event) (od_balances db) = 0" using assms(5) by (simp add: availableOf_def)
  have "\<forall>ord\<in>set (bk_orders (saveOrder ?ord db1)). o_assetId ord = o_assetId ?ord \<longrightarrow> o_side ord = SELL"
    using assms(6,7) db1 by (auto dest!: in_save_rowD)
  then have "snd (copyTradeForFollower now sub master event db) = saveOrder ?ord (saveOrder ?ord db1)"
    using assms(3,6) avail res no_bids_no_match [of "saveOrder ?ord db1" ?ord now]
    by (simp add: copyTradeForFollower_def Let_def)
  then show ?thesis using that db1 d by (simp add: save_row_twice)
qed

definition ex_social :: "TraderProfile list \<Rightarrow> CopySubscription list \<Rightarrow> social_db" where
  "ex_social ps subs = \<lparr>bk_orders = [], bk_trades = [], bk_events = [], od_balances = [], od_broadcasts = [],
     so_profiles = ps, so_subscriptions = subs\<rparr>"

definition ex_sale :: "real \<Rightarrow> TradeExecutedEvent" where
  "ex_sale amount = \<lparr>te_masterUserId = 1, te_assetId = 9, te_side = SELL, te_amount = amount, te_price = 5,
     te_totalValue = amount * 5, te_orderType = MARKET, te_filledAt = 0\<rparr>"

definition ex_subscribe :: CreateCopySubscriptionDto where
  "ex_subscribe = \<lparr>sd_masterUserId = natText 1, sd_copyMultiplier = None, sd_maxDailyLoss = Some 10,
     sd_maxOrderSizePct = Some (1 / 10), sd_orderTypeFilter = None\<rparr>"

definition ex_social_requests :: "SocialRequest list" where
  "ex_social_requests =
     [CreateProfile 3 (natText 1) \<lparr>cp_displayName = ''master'', cp_bio = None, cp_visibility = PUBLIC, cp_performanceFeePct = 20\<rparr>,
      Subscribe 0 4 (natText 2) ex_subscribe, TradeExecuted 5 (ex_sale 3), DailyReset]"

text \<open>
  The daily loss limit of a subscription never takes effect.  Whatever profiles, subscriptions,
  changes, daily resets and fills come, in any order and starting with no social data, every
  subscription has an intraday loss of zero and none is ever \<open>PAUSED_DAILY_LOSS\<close>: the only
  change of \<open>realizedPnL\<close> adds the value of the fill less the fee.  The events are those of
  fills, whose value is not negative.
\<close>

theorem daily_loss_limit_never_pauses:
  assumes "list_all valued reqs" and "so_profiles db = []" and "so_subscriptions db = []"
  shows "list_all (\<lambda>sub. intradayLoss sub = 0 \<and> cs_status sub \<noteq> PAUSED_DAILY_LOSS)
    (so_subscriptions (fold handleSocialRequest reqs db))"
proof -
  have "noLossSeen db" using assms(2,3) by (simp add: noLossSeen_def)
  from daily_loss.run_guarded [OF this assms(1)] show ?thesis
    by (auto simp: noLossSeen_def neverLost_def intradayLoss_def list_all_iff)
qed

theorem daily_loss_limit_never_pauses_witness:
  "list_all (\<lambda>sub. intradayLoss sub = 0 \<and> cs_status sub \<noteq> PAUSED_DAILY_LOSS)
    (so_subscriptions (fold handleSocialRequest ex_social_requests (ex_social [] [])))"
  by (rule daily_loss_limit_never_pauses) (simp_all add: ex_social_requests_def ex_sale_def ex_social_def)

text \<open>
  Mirrored trades keep the book sound.  Through any sequence of requests of the social-trading
  module, fills of masters included, the orders table keeps well-formed rows with unique ids, no
  order is filled beyond its amount, and for every asset the filled BUY amount stays equal to the
  filled SELL amount.
\<close>

theorem copies_keep_the_book_sound:
  assumes "sane_book db" and "\<forall>a. filledOn a BUY (bk_orders db) = filledOn a SELL (bk_orders db)"
  shows "sane_book (fold handleSocialRequest reqs db) \<and>
    (\<forall>a. filledOn a BUY (bk_orders (fold handleSocialRequest reqs db)) =
         filledOn a SELL (bk_orders (fold handleSocialRequest reqs db)))"
  using copied_book.run_inv [of db reqs] assms by (simp add: sound_book_def balanced_def)

theorem copies_keep_the_book_sound_witness:
  "sane_book (fold handleSocialRequest ex_social_requests (ex_social [] [])) \<and>
    (\<forall>a. filledOn a BUY (bk_orders (fold handleSocialRequest ex_social_requests (ex_social [] []))) =
         filledOn a SELL (bk_orders (fold handleSocialRequest ex_social_requests (ex_social [] []))))"
  by (rule copies_keep_the_book_sound) (simp_all add: ex_social_def sane_book_def keyed_def filledOn_def)

text \<open>
  A mirrored SELL order is not backed.  A follower with an active subscription without a type
  filter and without any holding of the asset copies the sale of a master in full, whatever per-order
  cap is set, and when there is no bid the order stays open with nothing locked behind it.  The
  invariant the order service keeps for its own orders is broken.
\<close>

theorem copied_sell_is_not_backed:
  assumes "sane_book db" and "so_subscriptions db = [sub]"
    and "cs_status sub = ACTIVE" "cs_orderTypeFilter sub = []" "intradayLoss sub = 0"
    and "cs_followerUserId sub = natText f" and "cs_masterUserId sub = natText (te_masterUserId event)"
    and "findProfile (natText (te_masterUserId event)) db = Some master" and "tp_isAcceptingCopiers master"
    and "te_side event = SELL" and "0 < te_amount event" and "0 < cs_copyMultiplier sub"
    and "findBalance f (te_assetId event) (od_balances db) = None"
    and "\<forall>ord\<in>set (bk_orders db). o_assetId ord = te_assetId event \<longrightarrow> o_side ord = SELL"
  shows "lockedOf f (te_assetId event) (od_balances (handleTradeExecuted now event db)) = 0
    \<and> te_amount event * cs_copyMultiplier sub \<le> reserved f (te_assetId event) (bk_orders (handleTradeExecuted now event db))
    \<and> \<not> covered (handleTradeExecuted now event db)"
proof -
  have pos: "0 < te_amount event * cs_copyMultiplier sub" using assms(11,12) by simp
  obtain i where orders: "bk_orders (snd (copyTradeForFollower now sub master event db)) =
      save_row o_id (followerOrder now i f event (te_amount event * cs_copyMultiplier sub)) (bk_orders db)"
    and balances: "od_balances (snd (copyTradeForFollower now sub master event db)) = od_balances db"
    using copyOrder_open [OF refl _ assms(6) pos assms(13,10,14)] assms(3-5) by blast
  let ?db = "handleTradeExecuted now event db" and ?ord = "followerOrder now i f event (te_amount event * cs_copyMultiplier sub)"
  have fld: "filter (isCopied event) (so_subscriptions db) = [sub]"
    using assms(2,3,7) by (simp add: isCopied_def)
  have "bk_orders ?db = save_row o_id ?ord (bk_orders db)" and bal: "od_balances ?db = od_balances db"
    using assms(8,9) orders balances fld
    by (auto simp: handleTradeExecuted_def copyOne_def split: prod.splits sum.splits option.splits)
  moreover have "list_all sane_order (save_row o_id ?ord (bk_orders db))"
    using assms(1) followerOrder_wf [OF pos] by (auto simp: sane_book_def list_all_iff dest!: in_save_rowD)
  ultimately have "reserveOf f (te_assetId event) ?ord \<le> reserved f (te_assetId event) (bk_orders ?db)"
    by (auto intro!: reserved_ge_member simp: set_save_row)
  then have low: "te_amount event * cs_copyMultiplier sub \<le> reserved f (te_assetId event) (bk_orders ?db)"
    using assms(10) by (simp add: reserveOf_def remainingAmount_def)
  have locked: "lockedOf f (te_assetId event) (od_balances ?db) = 0" using assms(13) bal by (simp add: lockedOf_def)
  have "\<not> covered ?db"
  proof
    assume "covered ?db"
    then have "reserved f (te_assetId event) (bk_orders ?db) \<le> 0" using locked unfolding covered_def by metis
    then show False using low pos by linarith
  qed
  then show ?thesis using low locked by simp
qed

definition ex_master :: TraderProfile where
  "ex_master = \<lparr>tp_id = 3, tp_userId = natText 1, tp_displayName = ''master'', tp_bio = None, tp_visibility = PUBLIC,
     tp_performanceFeePct = 20, tp_isAcceptingCopiers = True, tp_totalSubscribers = 1, tp_totalCopiedVolume = 0,
     tp_realizedFollowerPnL = 0\<rparr>"

theorem copied_sell_is_not_backed_witness:
  "\<not> covered (handleTradeExecuted 5 (ex_sale 3) (ex_social [ex_master] [newSubscription 0 4 (natText 2) ex_subscribe]))"
  using copied_sell_is_not_backed [of "ex_social [ex_master] [newSubscription 0 4 (natText 2) ex_subscribe]"
      "newSubscription 0 4 (natText 2) ex_subscribe" 2 "ex_sale 3" ex_master 5]
  by (simp add: ex_social_def newSubscription_def ex_subscribe_def ex_sale_def ex_master_def orKeep_def sane_book_def
      keyed_def intradayLoss_def findProfile_def)

section \<open>Further behaviour of the module\<close>

text \<open>
  Ending a subscription twice counts twice: the second call finds the ended row, reports success
  and takes another subscriber off the counter of the master.
\<close>

lemma findProfile_saveProfile:
  assumes "keyed tp_id (so_profiles db)" and "findProfile u db = Some p" and "tp_id q = tp_id p" and "tp_userId q = u"
  shows "findProfile u (saveProfile q db) = Some q"
  using assms unfolding findProfile_def save_simps by (intro find_save_row) auto

definition endedState :: "CopySubscription \<Rightarrow> TraderProfile \<Rightarrow> social_db \<Rightarrow> social_db" where
  "endedState sub master db =
     saveProfile (master\<lparr>tp_totalSubscribers := tp_totalSubscribers master - 1\<rparr>)
       (saveSubscription (sub\<lparr>cs_status := UNSUBSCRIBED\<rparr>) db)"

lemma unsubscribe_counts_down:
  assumes "keyed tp_id (so_profiles db)" and "row_of cs_id i (so_subscriptions db) = Some sub"
    and "findProfile (cs_masterUserId sub) db = Some master" and "0 < tp_totalSubscribers master"
  shows "unsubscribe (cs_followerUserId sub) i db = Inr (sub\<lparr>cs_status := UNSUBSCRIBED\<rparr>, endedState sub master db)"
    and "keyed tp_id (so_profiles (endedState sub master db))"
    and "row_of cs_id i (so_subscriptions (endedState sub master db)) = Some (sub\<lparr>cs_status := UNSUBSCRIBED\<rparr>)"
    and "findProfile (cs_masterUserId sub) (endedState sub master db) =
      Some (master\<lparr>tp_totalSubscribers := tp_totalSubscribers master - 1\<rparr>)"
proof -
  have id: "cs_id sub = i" using row_of_Some_in [OF assms(2)] by simp
  have prof: "findProfile (cs_masterUserId sub) (saveSubscription (sub\<lparr>cs_status := UNSUBSCRIBED\<rparr>) db) = Some master"
    using assms(3) by (simp add: findProfile_def)
  show "unsubscribe (cs_followerUserId sub) i db = Inr (sub\<lparr>cs_status := UNSUBSCRIBED\<rparr>, endedState sub master db)"
    using assms(2,4) prof by (simp add: unsubscribe_def findMine_def Let_def endedState_def)
  show "keyed tp_id (so_profiles (endedState sub master db))"
    using assms(1) by (simp add: endedState_def keyed_save_row)
  show "row_of cs_id i (so_subscriptions (endedState sub master db)) = Some (sub\<lparr>cs_status := UNSUBSCRIBED\<rparr>)"
    using id by (simp add: endedState_def row_of_save)
  show "findProfile (cs_masterUserId sub) (endedState sub master db) =
      Some (master\<lparr>tp_totalSubscribers := tp_totalSubscribers master - 1\<rparr>)"
    unfolding endedState_def
    using assms(1) findProfile_in [OF assms(3)] by (intro findProfile_saveProfile [OF _ prof]) simp_all
qed

theorem unsubscribing_twice_counts_twice:
  fixes db :: social_db
  assumes "keyed tp_id (so_profiles db)" and "row_of cs_id i (so_subscriptions db) = Some sub"
    and "findProfile (cs_masterUserId sub) db = Some master" and "2 \<le> tp_totalSubscribers master"
  shows "\<exists>s1 db1 s2 db2 m. unsubscribe (cs_followerUserId sub) i db = Inr (s1, db1)
    \<and> unsubscribe (cs_followerUserId sub) i db1 = Inr (s2, db2)
    \<and> findProfile (cs_masterUserId sub) db2 = Some m \<and> tp_totalSubscribers m = tp_totalSubscribers master - 2"
proof -
  let ?sub = "sub\<lparr>cs_status := UNSUBSCRIBED\<rparr>" and ?m = "master\<lparr>tp_totalSubscribers := tp_totalSubscribers master - 1\<rparr>"
  have "0 < tp_totalSubscribers master" using assms(4) by simp
  note one = unsubscribe_counts_down [OF assms(1-3) this]
  have "findProfile (cs_masterUserId ?sub) (endedState sub master db) = Some ?m" and "0 < tp_totalSubscribers ?m"
    using one(4) assms(4) by simp_all
  note two = unsubscribe_counts_down [OF one(2,3) this]
  have "unsubscribe (cs_followerUserId sub) i (endedState sub master db) =
      Inr (?sub\<lparr>cs_status := UNSUBSCRIBED\<rparr>, endedState ?sub ?m (endedState sub master db))"
    and "findProfile (cs_masterUserId sub) (endedState ?sub ?m (endedState sub master db)) =
      Some (?m\<lparr>tp_totalSubscribers := tp_totalSubscribers ?m - 1\<rparr>)"
    and "tp_totalSubscribers (?m\<lparr>tp_totalSubscribers := tp_totalSubscribers ?m - 1\<rparr>) = tp_totalSubscribers master - 2"
    using two(1,4) by simp_all
  with one(1) show ?thesis by blast
qed

text \<open>
  A numeric prefix decides whose account is used: the identifier \<open>2-a\<close> of a follower is read as
  the number 2, so its copies are orders of user 2.
\<close>

theorem identifier_prefix_selects_account:
  "\<not> isDigit c \<Longrightarrow> parseInt (natText n @ c # cs) = Some n"
proof -
  assume "\<not> isDigit c"
  then have "takeWhile isDigit (natText n @ c # cs) = natText n"
    using natText_digits [of n] by (simp add: list_all_iff)
  moreover have "dropWhile isBlank (natText n @ c # cs) = natText n @ c # cs"
    using natText_digits [of n] by (cases "natText n") (auto simp: digit_not_blank)
  ultimately show ?thesis unfolding parseInt_def Let_def by (metis natText_nonempty natText_value)
qed

text \<open>The choice of order types survives the text column.\<close>

lemma joinComma_nonempty: "x \<noteq> [] \<Longrightarrow> joinComma (x # xs) \<noteq> []"
  by (cases xs) auto

theorem order_type_filter_roundtrip:
  assumes "cs_orderTypeFilter sub = joinComma (map filterText fs)"
  shows "set (getOrderTypeFilterSet sub) = set (map filterText fs)"
proof (cases "fs = []")
  case False
  have plain: "CHR '','' \<notin> set (filterText f)" "trim (filterText f) = filterText f" "filterText f \<noteq> []" for f
    by (cases f; simp add: trim_def isBlank_def)+
  have "joinComma (map filterText fs) \<noteq> []" using False plain(3) by (cases fs) (auto dest: joinComma_nonempty)
  moreover have "splitComma (joinComma (map filterText fs)) = map filterText fs"
    using False plain(1) by (intro split_join) auto
  ultimately show ?thesis
    using assms plain(2,3) by (auto simp: getOrderTypeFilterSet_def)
qed (use assms in \<open>simp add: getOrderTypeFilterSet_def\<close>)

end
