(* ===== verification/Leaderboard.thy ===== *)
theory Leaderboard
  imports SocialTrading "HOL-Library.AList"
begin

text \<open>
  The ranking of traders: \<open>social-trading/services/sortino.util.ts\<close> pairs the trades of a user
  into round trips, first in first out, and computes the Sortino ratio of their returns;
  \<open>leaderboard.service.ts\<close> ranks the public profiles by it.

  Prices of trades are positive, as the order DTO demands, so no return divides by zero.  The
  trades table is in the order of insertion, which is the order of its time stamps.
\<close>

section \<open>Round trips\<close>

record RoundTripReturn =
  rt_entrySide :: string
  rt_asset :: asset_id
  rt_entryPrice :: real
  rt_exitPrice :: real
  rt_returnPct :: real

record OpenLot =
  ol_side :: string
  ol_price :: real
  ol_remaining :: real

record trade_row =
  tr_asset :: asset_id
  tr_type :: string
  tr_price :: real
  tr_amount :: real

definition roundTrip :: "asset_id \<Rightarrow> real \<Rightarrow> OpenLot \<Rightarrow> RoundTripReturn" where
  "roundTrip asset exitPrice lot =
     \<lparr>rt_entrySide = ol_side lot, rt_asset = asset, rt_entryPrice = ol_price lot, rt_exitPrice = exitPrice,
      rt_returnPct = (if ol_side lot = ''BUY'' then (exitPrice - ol_price lot) / ol_price lot
        else (ol_price lot - exitPrice) / ol_price lot)\<rparr>"

text \<open>The loop over the lots of the opposite side: what stays open, the trips, what is left of the trade.\<close>

fun closeLots :: "asset_id \<Rightarrow> real \<Rightarrow> real \<Rightarrow> OpenLot list \<Rightarrow> OpenLot list \<times> RoundTripReturn list \<times> real" where
  "closeLots asset exitPrice remaining [] = ([], [], remaining)"
| "closeLots asset exitPrice remaining (lot # lots) =
     (if remaining \<le> 0 then
        (case closeLots asset exitPrice remaining lots of (kept, trips, r) \<Rightarrow> (lot # kept, trips, r))
      else
        let closeAmount = min (ol_remaining lot) remaining;
            lot' = lot\<lparr>ol_remaining := ol_remaining lot - closeAmount\<rparr>
        in (case closeLots asset exitPrice (remaining - closeAmount) lots of
              (kept, trips, r) \<Rightarrow>
                (if ol_remaining lot' > 0 then lot' # kept else kept, roundTrip asset exitPrice lot # trips, r)))"

definition otherSide :: "string \<Rightarrow> string" where
  "otherSide side = (if side = ''BUY'' then ''SELL'' else ''BUY'')"

definition pairTrade ::
  "trade_row \<Rightarrow> (asset_id \<rightharpoonup> OpenLot list) \<times> RoundTripReturn list \<Rightarrow>
     (asset_id \<rightharpoonup> OpenLot list) \<times> RoundTripReturn list" where
  "pairTrade t st =
     (case st of (lotsOf, trips) \<Rightarrow>
        if tr_type t \<noteq> ''BUY'' \<and> tr_type t \<noteq> ''SELL'' then (lotsOf, trips)
        else
          let oppList = (case lotsOf (tr_asset t) of None \<Rightarrow> [] | Some l \<Rightarrow> l);
              oppositeLots = filter (\<lambda>lot. ol_side lot = otherSide (tr_type t)) oppList;
              sameLots = filter (\<lambda>lot. ol_side lot \<noteq> otherSide (tr_type t)) oppList
          in (case closeLots (tr_asset t) (tr_price t) (tr_amount t) oppositeLots of
                (kept, new, remaining) \<Rightarrow>
                  (lotsOf(tr_asset t \<mapsto> sameLots @ kept @
                     (if remaining > 0
                      then [\<lparr>ol_side = tr_type t, ol_price = tr_price t, ol_remaining = remaining\<rparr>] else [])),
                   trips @ new)))"

definition pairRoundTrips :: "trade_row list \<Rightarrow> RoundTripReturn list" where
  "pairRoundTrips trades = snd (fold pairTrade trades (Map.empty, []))"

section \<open>The Sortino ratio\<close>

record SortinoResult =
  sr_sortinoRatio :: real
  sr_meanReturn :: real
  sr_downsideDeviation :: real
  sr_sampleSize :: nat

definition downsideVariance :: "real list \<Rightarrow> real" where
  "downsideVariance returns =
     (let negatives = filter (\<lambda>r. r < 0) returns
      in if negatives = [] then 0 else sum_list (map (\<lambda>r. r * r) negatives) / real (length negatives))"

definition computeSortino :: "RoundTripReturn list \<Rightarrow> real \<Rightarrow> SortinoResult" where
  "computeSortino trips riskFreeReturn =
     (if trips = [] then \<lparr>sr_sortinoRatio = 0, sr_meanReturn = 0, sr_downsideDeviation = 0, sr_sampleSize = 0\<rparr>
      else
        let returns = map rt_returnPct trips;
            mean = sum_list returns / real (length returns);
            downsideDeviation = sqrt (downsideVariance returns)
        in \<lparr>sr_sortinoRatio = (if downsideDeviation = 0 then 0 else (mean - riskFreeReturn) / downsideDeviation),
            sr_meanReturn = mean, sr_downsideDeviation = downsideDeviation, sr_sampleSize = length trips\<rparr>)"

section \<open>The leaderboard\<close>

record LeaderboardEntryDto =
  lb_rank :: nat
  lb_masterUserId :: string
  lb_displayName :: string
  lb_visibility :: StrategyVisibility
  lb_sortinoRatio :: real
  lb_totalTrades :: nat
  lb_meanReturn :: real
  lb_downsideDeviation :: real
  lb_realizedFollowerPnL :: real
  lb_totalSubscribers :: int

definition clamp :: "real \<Rightarrow> real \<Rightarrow> real \<Rightarrow> real" where
  "clamp v lo hi = max lo (min hi v)"

definition sideText :: "OrderSide \<Rightarrow> string" where
  "sideText side = (case side of BUY \<Rightarrow> ''BUY'' | SELL \<Rightarrow> ''SELL'')"

definition tradeRow :: "Trade \<Rightarrow> trade_row" where
  "tradeRow t = \<lparr>tr_asset = t_asset t, tr_type = sideText (t_type t), tr_price = t_price t, tr_amount = t_amount t\<rparr>"

text \<open>\<open>Map.set\<close> replaces the value of a key that is there and keeps its place.\<close>

definition profileByNumber :: "TraderProfile list \<Rightarrow> (nat \<times> TraderProfile) list" where
  "profileByNumber profiles =
     fold (\<lambda>p m. case parseInt (tp_userId p) of None \<Rightarrow> m | Some n \<Rightarrow> AList.update n p m) profiles []"

definition leaderboardEntry :: "TraderProfile \<Rightarrow> SortinoResult \<Rightarrow> LeaderboardEntryDto" where
  "leaderboardEntry profile sortino =
     \<lparr>lb_rank = 0, lb_masterUserId = tp_userId profile, lb_displayName = tp_displayName profile,
      lb_visibility = tp_visibility profile, lb_sortinoRatio = clamp (sr_sortinoRatio sortino) (- 100) 100,
      lb_totalTrades = sr_sampleSize sortino, lb_meanReturn = sr_meanReturn sortino,
      lb_downsideDeviation = sr_downsideDeviation sortino, lb_realizedFollowerPnL = tp_realizedFollowerPnL profile,
      lb_totalSubscribers = tp_totalSubscribers profile\<rparr>"

definition fetchedTrades :: "nat list \<Rightarrow> 'a book_scheme \<Rightarrow> Trade list" where
  "fetchedTrades ids db = take 5000 (sort_key t_userId (filter (\<lambda>t. t_userId t \<in> set ids) (bk_trades db)))"

definition getLeaderboard :: "nat \<Rightarrow> nat \<Rightarrow> 'a social_db_scheme \<Rightarrow> LeaderboardEntryDto list" where
  "getLeaderboard limit minRoundTrips db =
     (let profiles = take (limit * 4) (filter (\<lambda>p. tp_visibility p = PUBLIC \<and> tp_isAcceptingCopiers p) (so_profiles db));
          numbered = profileByNumber profiles;
          trades = fetchedTrades (map fst numbered) db;
          scored = map (\<lambda>(n, p). (p, computeSortino (pairRoundTrips (map tradeRow (filter (\<lambda>t. t_userId t = n) trades))) 0)) numbered;
          rankings = sort_key (\<lambda>e. - sr_sortinoRatio (snd e)) (filter (\<lambda>e. \<not> sr_sampleSize (snd e) < minRoundTrips) scored)
      in map (\<lambda>(i, p, s). (leaderboardEntry p s)\<lparr>lb_rank := i + 1\<rparr>) (enumerate 0 (take limit rankings)))"

section \<open>First in, first out\<close>

definition openAmount :: "string \<Rightarrow> OpenLot list \<Rightarrow> real" where
  "openAmount side lots = sum_list (map ol_remaining (filter (\<lambda>l. ol_side l = side) lots))"

definition tradedAmount :: "string \<Rightarrow> asset_id \<Rightarrow> trade_row list \<Rightarrow> real" where
  "tradedAmount side a ts = sum_list (map tr_amount (filter (\<lambda>t. tr_type t = side \<and> tr_asset t = a) ts))"

text \<open>The lots of an asset are positive and all on one side; their signed sum is the position.\<close>

definition lotsAgree :: "real \<Rightarrow> OpenLot list \<Rightarrow> bool" where
  "lotsAgree position lots =
     ((\<forall>l\<in>set lots. 0 < ol_remaining l \<and> (ol_side l = ''BUY'' \<or> ol_side l = ''SELL''))
      \<and> ((\<forall>l\<in>set lots. ol_side l = ''BUY'') \<or> (\<forall>l\<in>set lots. ol_side l = ''SELL''))
      \<and> openAmount ''BUY'' lots - openAmount ''SELL'' lots = position)"

lemma closeLots_spec:
  assumes "closeLots a p r lots = (kept, trips, r')" and "0 \<le> r" and "\<forall>l\<in>set lots. 0 < ol_remaining l \<and> ol_side l = s"
  shows "(\<forall>l\<in>set kept. 0 < ol_remaining l \<and> ol_side l = s) \<and> 0 \<le> r' \<and> r' \<le> r \<and> (0 < r' \<longrightarrow> kept = [])
    \<and> sum_list (map ol_remaining lots) - sum_list (map ol_remaining kept) = r - r'"
  using assms
proof (induction lots arbitrary: r kept trips)
  case (Cons lot lots)
  show ?case
  proof (cases "r \<le> 0")
    case True
    obtain kept1 where rec: "closeLots a p r lots = (kept1, trips, r')" and kept: "kept = lot # kept1"
      using True Cons.prems(1) by (auto split: prod.splits)
    show ?thesis using Cons.IH [OF rec] Cons.prems(2,3) True kept by simp
  next
    case False
    let ?c = "min (ol_remaining lot) r"
    obtain kept1 trips1 where rec: "closeLots a p (r - ?c) lots = (kept1, trips1, r')"
      and kept: "kept = (if ol_remaining lot - ?c > 0 then lot\<lparr>ol_remaining := ol_remaining lot - ?c\<rparr> # kept1 else kept1)"
      using False Cons.prems(1) by (auto simp: Let_def split: prod.splits)
    have lot: "0 < ol_remaining lot" "ol_side lot = s" using Cons.prems(3) by simp_all
    have "(\<forall>l\<in>set kept1. 0 < ol_remaining l \<and> ol_side l = s) \<and> 0 \<le> r' \<and> r' \<le> r - ?c \<and> (0 < r' \<longrightarrow> kept1 = [])
      \<and> sum_list (map ol_remaining lots) - sum_list (map ol_remaining kept1) = r - ?c - r'"
      using Cons.prems(3) by (intro Cons.IH [OF rec]) auto
    then show ?thesis using lot False unfolding kept by (cases "ol_remaining lot \<le> r") auto
  qed
qed simp

text \<open>One trade moves the position of its asset by its amount and leaves the other assets alone.\<close>

definition signedAmount :: "trade_row \<Rightarrow> real" where
  "signedAmount t = (if tr_type t = ''BUY'' then tr_amount t else - tr_amount t)"

lemma openAmount_append: "openAmount s (xs @ ys) = openAmount s xs + openAmount s ys"
  by (simp add: openAmount_def)

lemma openAmount_side:
  "\<forall>l\<in>set lots. ol_side l = s' \<Longrightarrow> openAmount s lots = (if s = s' then sum_list (map ol_remaining lots) else 0)"
  by (induction lots) (auto simp: openAmount_def)

lemma lotsAgree_cases:
  assumes "lotsAgree position lots" and "s = ''BUY'' \<or> s = ''SELL''"
  shows "(\<forall>l\<in>set lots. ol_side l = s) \<or> (\<forall>l\<in>set lots. ol_side l = otherSide s)"
  using assms by (auto simp: lotsAgree_def otherSide_def)

lemma pairTrade_lots:
  assumes "lotsAgree position lots" and "s = ''BUY'' \<or> s = ''SELL''" and "0 < amount"
    and "closeLots a p amount (filter (\<lambda>l. ol_side l = otherSide s) lots) = (kept, new, r)"
  shows "lotsAgree (position + (if s = ''BUY'' then amount else - amount))
    (filter (\<lambda>l. ol_side l \<noteq> otherSide s) lots @ kept @
      (if r > 0 then [\<lparr>ol_side = s, ol_price = p, ol_remaining = r\<rparr>] else []))"
proof -
  have pos: "\<forall>l\<in>set lots. 0 < ol_remaining l" using assms(1) by (simp add: lotsAgree_def)
  have spec: "(\<forall>l\<in>set kept. 0 < ol_remaining l \<and> ol_side l = otherSide s) \<and> 0 \<le> r \<and> r \<le> amount \<and> (0 < r \<longrightarrow> kept = [])
    \<and> sum_list (map ol_remaining (filter (\<lambda>l. ol_side l = otherSide s) lots)) - sum_list (map ol_remaining kept) = amount - r"
    using pos assms(3) by (intro closeLots_spec [OF assms(4)]) auto
  have position: "openAmount ''BUY'' lots - openAmount ''SELL'' lots = position" using assms(1) by (simp add: lotsAgree_def)
  from lotsAgree_cases [OF assms(1,2)] show ?thesis
  proof
    assume same: "\<forall>l\<in>set lots. ol_side l = s"
    then have "filter (\<lambda>l. ol_side l = otherSide s) lots = []" "filter (\<lambda>l. ol_side l \<noteq> otherSide s) lots = lots"
      using assms(2) by (auto simp: otherSide_def filter_empty_conv filter_id_conv)
    then show ?thesis
      using assms(2-4) pos same position
      by (auto simp: lotsAgree_def openAmount_append openAmount_side [OF same]) (auto simp: openAmount_def)
  next
    assume other: "\<forall>l\<in>set lots. ol_side l = otherSide s"
    then have all: "filter (\<lambda>l. ol_side l = otherSide s) lots = lots" "filter (\<lambda>l. ol_side l \<noteq> otherSide s) lots = []"
      by (simp_all add: filter_id_conv filter_empty_conv)
    show ?thesis
    proof (cases "0 < r")
      case True
      then show ?thesis
        using spec all assms(2) position openAmount_side [OF other]
        by (auto simp: lotsAgree_def openAmount_def otherSide_def)
    next
      case False
      have "\<forall>l\<in>set kept. ol_side l = otherSide s" using spec by blast
      then show ?thesis
        using False spec all assms(2) position openAmount_side [OF other] openAmount_side [of kept "otherSide s"]
        by (auto simp: lotsAgree_def otherSide_def)
    qed
  qed
qed

definition lotsIn :: "(asset_id \<rightharpoonup> OpenLot list) \<Rightarrow> asset_id \<Rightarrow> OpenLot list" where
  "lotsIn m a = (case m a of None \<Rightarrow> [] | Some l \<Rightarrow> l)"

definition positionOf :: "asset_id \<Rightarrow> trade_row list \<Rightarrow> real" where
  "positionOf a ts = tradedAmount ''BUY'' a ts - tradedAmount ''SELL'' a ts"

lemma positionOf_snoc:
  "positionOf a (ts @ [t]) = positionOf a ts +
     (if tr_asset t = a \<and> (tr_type t = ''BUY'' \<or> tr_type t = ''SELL'') then signedAmount t else 0)"
  by (auto simp: positionOf_def tradedAmount_def signedAmount_def)

lemma pairTrade_agrees:
  assumes "\<forall>a. lotsAgree (pos a) (lotsIn (fst st) a)" and "0 < tr_amount t"
  shows "\<forall>a. lotsAgree (pos a + (if tr_asset t = a \<and> (tr_type t = ''BUY'' \<or> tr_type t = ''SELL'') then signedAmount t else 0))
    (lotsIn (fst (pairTrade t st)) a)"
proof (cases "tr_type t = ''BUY'' \<or> tr_type t = ''SELL''")
  case True
  obtain m trips where st: "st = (m, trips)" by (cases st)
  obtain kept new r where close: "closeLots (tr_asset t) (tr_price t) (tr_amount t)
      (filter (\<lambda>l. ol_side l = otherSide (tr_type t)) (lotsIn m (tr_asset t))) = (kept, new, r)"
    by (rule prod_cases3)
  have "lotsAgree (pos (tr_asset t) + (if tr_type t = ''BUY'' then tr_amount t else - tr_amount t))
    (filter (\<lambda>l. ol_side l \<noteq> otherSide (tr_type t)) (lotsIn m (tr_asset t)) @ kept @
      (if r > 0 then [\<lparr>ol_side = tr_type t, ol_price = tr_price t, ol_remaining = r\<rparr>] else []))"
    using assms st True close by (intro pairTrade_lots) auto
  then show ?thesis
    using assms(1) st True close by (auto simp: pairTrade_def signedAmount_def lotsIn_def Let_def)
next
  case False
  then show ?thesis using assms(1) by (auto simp: pairTrade_def split: prod.splits)
qed

section \<open>Ranking\<close>

lemma clamp_mono: "u \<le> v \<Longrightarrow> clamp u lo hi \<le> clamp v lo hi"
  by (auto simp: clamp_def)

lemma numbered_members: "(n, p) \<in> set (profileByNumber ps) \<Longrightarrow> p \<in> set ps \<and> parseInt (tp_userId p) = Some n"
proof -
  have upd: "(n, p) \<in> set (AList.update k v xs) \<Longrightarrow> (n, p) = (k, v) \<or> (n, p) \<in> set xs" for n p k and v :: TraderProfile and xs
    by (induction xs) (auto split: if_splits)
  have "(n, p) \<in> set (fold (\<lambda>p m. case parseInt (tp_userId p) of None \<Rightarrow> m | Some n \<Rightarrow> AList.update n p m) ps acc) \<Longrightarrow>
      (n, p) \<in> set acc \<or> p \<in> set ps \<and> parseInt (tp_userId p) = Some n" for acc
    by (induction ps arbitrary: acc) (fastforce dest!: upd split: option.splits)+
  from this [of "[]"] show "(n, p) \<in> set (profileByNumber ps) \<Longrightarrow> p \<in> set ps \<and> parseInt (tp_userId p) = Some n"
    by (simp add: profileByNumber_def)
qed

section \<open>Properties\<close>

text \<open>
  The pairing of trades loses nothing.  After any trades with positive amounts, the open lots
  of every asset are positive and all on one side, and bought less sold of the asset is exactly
  what the open BUY lots hold less what the open SELL lots hold.  So what has been closed into round
  trips is the same amount on both sides.
\<close>

theorem fifo_pairing_tracks_position:
  assumes "\<forall>t\<in>set trades. 0 < tr_amount t"
  shows "lotsAgree (tradedAmount ''BUY'' a trades - tradedAmount ''SELL'' a trades)
    (lotsIn (fst (fold pairTrade trades (Map.empty, []))) a)"
proof -
  have "\<forall>a. lotsAgree (positionOf a trades) (lotsIn (fst (fold pairTrade trades (Map.empty, []))) a)"
    using assms
  proof (induction trades rule: rev_induct)
    case Nil
    then show ?case by (simp add: positionOf_def tradedAmount_def lotsIn_def lotsAgree_def openAmount_def)
  next
    case (snoc t ts)
    then show ?case
      using pairTrade_agrees [of "\<lambda>a. positionOf a ts" "fold pairTrade ts (Map.empty, [])" t]
      by (simp add: positionOf_snoc cong: if_cong)
  qed
  then show ?thesis by (simp add: positionOf_def)
qed

theorem fifo_pairing_tracks_position_witness:
  "lotsAgree (tradedAmount ''BUY'' 1 [\<lparr>tr_asset = 1, tr_type = ''BUY'', tr_price = 10, tr_amount = 3\<rparr>,
       \<lparr>tr_asset = 1, tr_type = ''SELL'', tr_price = 12, tr_amount = 5\<rparr>]
     - tradedAmount ''SELL'' 1 [\<lparr>tr_asset = 1, tr_type = ''BUY'', tr_price = 10, tr_amount = 3\<rparr>,
       \<lparr>tr_asset = 1, tr_type = ''SELL'', tr_price = 12, tr_amount = 5\<rparr>])
    (lotsIn (fst (fold pairTrade [\<lparr>tr_asset = 1, tr_type = ''BUY'', tr_price = 10, tr_amount = 3\<rparr>,
       \<lparr>tr_asset = 1, tr_type = ''SELL'', tr_price = 12, tr_amount = 5\<rparr>] (Map.empty, []))) 1)"
  by (rule fifo_pairing_tracks_position) simp

text \<open>
  The leaderboard is a ranking.  It has at most \<open>limit\<close> entries with ranks 1, 2, 3 and so on,
  the ratios do not increase from one entry to the next, and every entry is a profile of the table
  that is public, accepts copiers and has at least the required number of round trips.
\<close>

theorem leaderboard_is_ranked:
  "let board = getLeaderboard limit minRoundTrips db in
    length board \<le> limit \<and> map lb_rank board = [1..<Suc (length board)]
    \<and> sorted (map (\<lambda>e. - lb_sortinoRatio e) board)
    \<and> list_all (\<lambda>e. minRoundTrips \<le> lb_totalTrades e \<and>
        list_ex (\<lambda>p. tp_userId p = lb_masterUserId e \<and> tp_visibility p = PUBLIC \<and> tp_isAcceptingCopiers p) (so_profiles db)) board"
proof -
  define board where "board = getLeaderboard limit minRoundTrips db"
  define profiles where "profiles = take (limit * 4) (filter (\<lambda>p. tp_visibility p = PUBLIC \<and> tp_isAcceptingCopiers p) (so_profiles db))"
  define score where "score = (\<lambda>n. computeSortino (pairRoundTrips (map tradeRow (filter (\<lambda>t. t_userId t = n)
    (fetchedTrades (map fst (profileByNumber profiles)) db)))) 0)"
  define rankings where "rankings = take limit (sort_key (\<lambda>e. - sr_sortinoRatio (snd e))
    (filter (\<lambda>e. \<not> sr_sampleSize (snd e) < minRoundTrips) (map (\<lambda>(n, p). (p, score n)) (profileByNumber profiles))))"
  have board: "board = map (\<lambda>(i, p, s). (leaderboardEntry p s)\<lparr>lb_rank := i + 1\<rparr>) (enumerate 0 rankings)"
    by (simp add: board_def getLeaderboard_def Let_def rankings_def score_def profiles_def)
  have nth: "board ! i = (leaderboardEntry (fst (rankings ! i)) (snd (rankings ! i)))\<lparr>lb_rank := i + 1\<rparr>"
    if "i < length rankings" for i
    using that by (simp add: board nth_enumerate_eq case_prod_beta)
  have len: "length board = length rankings" by (simp add: board)
  have "sorted (map (\<lambda>e. - sr_sortinoRatio (snd e)) rankings)"
    by (simp add: rankings_def take_map [symmetric] sorted_wrt_take)
  then have sorted: "sorted (map (\<lambda>e. - lb_sortinoRatio e) board)"
    by (auto simp: sorted_iff_nth_mono_less len nth leaderboardEntry_def intro!: clamp_mono)
  have ranks: "map lb_rank board = [1..<Suc (length board)]"
    by (rule nth_equalityI) (simp_all add: len nth del: upt_Suc)
  have "p \<in> set (so_profiles db) \<and> tp_visibility p = PUBLIC \<and> tp_isAcceptingCopiers p \<and> minRoundTrips \<le> sr_sampleSize sc"
    if "(p, sc) \<in> set rankings" for p sc
    using that by (auto simp: rankings_def profiles_def dest!: in_set_takeD numbered_members)
  then have mem: "fst (rankings ! i) \<in> set (so_profiles db) \<and> tp_visibility (fst (rankings ! i)) = PUBLIC
      \<and> tp_isAcceptingCopiers (fst (rankings ! i)) \<and> minRoundTrips \<le> sr_sampleSize (snd (rankings ! i))"
    if "i < length rankings" for i
    using nth_mem [OF that] by (cases "rankings ! i") auto
  have members: "list_all (\<lambda>e. minRoundTrips \<le> lb_totalTrades e \<and>
        list_ex (\<lambda>p. tp_userId p = lb_masterUserId e \<and> tp_visibility p = PUBLIC \<and> tp_isAcceptingCopiers p) (so_profiles db)) board"
    unfolding list_all_length len list_ex_iff using mem nth by (auto simp: leaderboardEntry_def)
  have "length board \<le> limit" by (simp add: len rankings_def)
  with ranks sorted members show ?thesis unfolding Let_def board_def [symmetric] by (intro conjI)
qed

end
