(* ===== verification/Saga.thy ===== *)
theory Saga
  imports Prelude
begin

text \<open>
  Sagas, \<open>common/services/saga.service.ts\<close>: a list of steps, each with an action and perhaps a
  compensation, run one after the other or in parallel, and rolled back when one fails.

  Actions and compensations are functions the caller supplies; they act on a world, and fail or
  return.  A time-out is a failure (\<open>executeWithTimeout\<close>); what the action still does is part of
  the world it leaves.  The duration in the result is not modelled.
\<close>

section \<open>Steps and results\<close>

record ('w, 'v) SagaStep =
  sg_name :: string
  sg_action :: "'w \<Rightarrow> (exn + 'v) \<times> 'w"
  sg_compensation :: "('v option \<Rightarrow> 'w \<Rightarrow> (exn + unit) \<times> 'w) option"

record SagaResult =
  sa_success :: bool
  sa_completedSteps :: "string list"
  sa_failedStep :: "string option"
  sa_error :: "exn option"
  sa_compensatedSteps :: "string list"
  sa_totalSteps :: nat

section \<open>Operations\<close>

text \<open>One round of the compensation loop; without a compensation the step is skipped, a failure is logged.\<close>

definition compensateOne ::
  "(string \<rightharpoonup> 'v) \<Rightarrow> ('w, 'v) SagaStep \<Rightarrow> string list \<times> 'w \<Rightarrow> string list \<times> 'w" where
  "compensateOne stepResults step st =
     (case st of (compensatedSteps, w) \<Rightarrow>
        (case sg_compensation step of
           None \<Rightarrow> (compensatedSteps, w)
         | Some compensation \<Rightarrow>
             (case compensation (stepResults (sg_name step)) w of
                (Inr _, w') \<Rightarrow> (compensatedSteps @ [sg_name step], w')
              | (Inl _, w') \<Rightarrow> (compensatedSteps, w'))))"

definition compensate ::
  "('w, 'v) SagaStep list \<Rightarrow> (string \<rightharpoonup> 'v) \<Rightarrow> 'w \<Rightarrow> string list \<times> 'w" where
  "compensate completedSteps stepResults w = fold (compensateOne stepResults) (rev completedSteps) ([], w)"

text \<open>The loop of \<open>executeSaga\<close>: the steps already done, their results, and the steps to do.\<close>

fun runSaga ::
  "nat \<Rightarrow> ('w, 'v) SagaStep list \<Rightarrow> (string \<rightharpoonup> 'v) \<Rightarrow> ('w, 'v) SagaStep list \<Rightarrow> 'w \<Rightarrow> SagaResult \<times> 'w" where
  "runSaga n past stepResults [] w =
     (\<lparr>sa_success = True, sa_completedSteps = map sg_name past, sa_failedStep = None, sa_error = None,
       sa_compensatedSteps = [], sa_totalSteps = n\<rparr>, w)"
| "runSaga n past stepResults (step # steps) w =
     (case sg_action step w of
        (Inr v, w') \<Rightarrow> runSaga n (past @ [step]) (stepResults(sg_name step \<mapsto> v)) steps w'
      | (Inl e, w') \<Rightarrow>
          (case compensate past stepResults w' of
             (compensatedSteps, w'') \<Rightarrow>
               (\<lparr>sa_success = False, sa_completedSteps = map sg_name past, sa_failedStep = Some (sg_name step),
                 sa_error = Some e, sa_compensatedSteps = compensatedSteps, sa_totalSteps = n\<rparr>, w'')))"

definition executeSaga :: "('w, 'v) SagaStep list \<Rightarrow> 'w \<Rightarrow> SagaResult \<times> 'w" where
  "executeSaga steps w = runSaga (length steps) [] Map.empty steps w"

text \<open>
  Parallel steps.  The actions act on the world in an order the scheduler chooses, given as the
  list of their positions; the outcomes are collected by position.
\<close>

definition runParallel ::
  "('w, 'v) SagaStep list \<Rightarrow> nat \<Rightarrow> (nat \<rightharpoonup> exn) \<times> (string \<rightharpoonup> 'v) \<times> 'w \<Rightarrow> (nat \<rightharpoonup> exn) \<times> (string \<rightharpoonup> 'v) \<times> 'w" where
  "runParallel steps i st =
     (case st of (failures, stepResults, w) \<Rightarrow>
        (case sg_action (steps ! i) w of
           (Inr v, w') \<Rightarrow> (failures, stepResults(sg_name (steps ! i) \<mapsto> v), w')
         | (Inl e, w') \<Rightarrow> (failures(i \<mapsto> e), stepResults, w')))"

definition executeParallelSteps ::
  "nat list \<Rightarrow> ('w, 'v) SagaStep list \<Rightarrow> 'w \<Rightarrow> SagaResult \<times> 'w" where
  "executeParallelSteps schedule steps w =
     (case fold (runParallel steps) schedule (Map.empty, Map.empty, w) of
        (failures, stepResults, w1) \<Rightarrow>
          (case find (\<lambda>i. failures i \<noteq> None) [0..<length steps] of
             None \<Rightarrow>
               (\<lparr>sa_success = True, sa_completedSteps = map sg_name steps, sa_failedStep = None, sa_error = None,
                 sa_compensatedSteps = [], sa_totalSteps = length steps\<rparr>, w1)
           | Some k \<Rightarrow>
               (case compensate steps stepResults w1 of
                  (compensatedSteps, w2) \<Rightarrow>
                    (\<lparr>sa_success = False,
                      sa_completedSteps = map (\<lambda>i. sg_name (steps ! i)) (filter (\<lambda>i. failures i = None) [0..<length steps]),
                      sa_failedStep = Some (sg_name (steps ! k)), sa_error = failures k,
                      sa_compensatedSteps = compensatedSteps, sa_totalSteps = length steps\<rparr>, w2))))"

section \<open>Rolling back\<close>

text \<open>Steps that ran one after the other without a failure, with their results.\<close>

inductive completes :: "'w \<Rightarrow> ('w, 'v) SagaStep list \<Rightarrow> (string \<rightharpoonup> 'v) \<Rightarrow> 'w \<Rightarrow> bool" where
  completes_none: "completes w [] Map.empty w"
| completes_more: "completes w ss res w1 \<Longrightarrow> sg_action s w1 = (Inr v, w2) \<Longrightarrow> completes w (ss @ [s]) (res(sg_name s \<mapsto> v)) w2"

inductive_simps completes_Nil: "completes w [] res w'"

text \<open>A step whose compensation takes back what its action did, and whose failure does nothing.\<close>

definition reversible :: "('w, 'v) SagaStep \<Rightarrow> bool" where
  "reversible s =
     ((\<forall>w v w'. sg_action s w = (Inr v, w') \<longrightarrow>
        (case sg_compensation s of None \<Rightarrow> False | Some c \<Rightarrow> c (Some v) w' = (Inr (), w)))
      \<and> (\<forall>w e w'. sg_action s w = (Inl e, w') \<longrightarrow> w' = w))"

lemma compensateOne_undo:
  assumes "reversible s" and "sg_action s w1 = (Inr v, w2)" and "res (sg_name s) = Some v"
  shows "compensateOne res s (names, w2) = (names @ [sg_name s], w1)"
  using assms by (auto simp: reversible_def compensateOne_def split: option.splits)

lemma compensate_undoes:
  assumes "completes w ss res w'" and "list_all reversible ss" and "distinct (map sg_name ss)"
    and "\<forall>s\<in>set ss. results (sg_name s) = res (sg_name s)"
  shows "fold (compensateOne results) (rev ss) (names, w') = (names @ rev (map sg_name ss), w)"
  using assms
proof (induction arbitrary: names rule: completes.induct)
  case (completes_none w)
  then show ?case by simp
next
  case (completes_more w ss res w1 s v w2)
  have "compensateOne results s (names, w2) = (names @ [sg_name s], w1)"
    using completes_more.prems completes_more.hyps(2) by (intro compensateOne_undo) auto
  moreover have "\<forall>x\<in>set ss. results (sg_name x) = res (sg_name x)"
    using completes_more.prems by (auto simp: rev_image_eqI split: if_splits)
  ultimately show ?case using completes_more by simp
qed

definition sagaOutcome :: "'w \<Rightarrow> ('w, 'v) SagaStep list \<Rightarrow> SagaResult \<Rightarrow> 'w \<Rightarrow> bool" where
  "sagaOutcome w steps r w' =
     (if sa_success r then sa_completedSteps r = map sg_name steps \<and> (\<exists>res. completes w steps res w')
      else w' = w \<and> sa_compensatedSteps r = rev (sa_completedSteps r) \<and>
        (\<exists>i<length steps. sa_completedSteps r = map sg_name (take i steps) \<and> sa_failedStep r = Some (sg_name (steps ! i))))"

lemma runSaga_all_or_nothing:
  assumes "completes w0 past res w" and "list_all reversible (past @ steps)" and "distinct (map sg_name (past @ steps))"
    and "runSaga n past res steps w = (r, w')"
  shows "sagaOutcome w0 (past @ steps) r w'"
  using assms
proof (induction steps arbitrary: past res w)
  case Nil
  then show ?case by (auto simp: sagaOutcome_def)
next
  case (Cons s steps)
  obtain out w1 where act: "sg_action s w = (out, w1)" by (cases "sg_action s w")
  show ?case
  proof (cases out)
    case (Inr v)
    have past: "completes w0 (past @ [s]) (res(sg_name s \<mapsto> v)) w1"
      using Cons.prems(1) act Inr by (auto intro: completes_more)
    have rest: "list_all reversible ((past @ [s]) @ steps)" "distinct (map sg_name ((past @ [s]) @ steps))"
      "runSaga n (past @ [s]) (res(sg_name s \<mapsto> v)) steps w1 = (r, w')"
      using Cons.prems(2-4) act Inr by simp_all
    from Cons.IH [OF past rest] show ?thesis by simp
  next
    case (Inl e)
    have "w1 = w" using Cons.prems(2) act Inl by (auto simp: reversible_def)
    moreover have "compensate past res w = (rev (map sg_name past), w0)"
      using compensate_undoes [OF Cons.prems(1), of res "[]"] Cons.prems(2,3) by (simp add: compensate_def)
    ultimately have r: "r = \<lparr>sa_success = False, sa_completedSteps = map sg_name past, sa_failedStep = Some (sg_name s),
        sa_error = Some e, sa_compensatedSteps = rev (map sg_name past), sa_totalSteps = n\<rparr>" and "w' = w0"
      using Cons.prems(4) act Inl by auto
    then show ?thesis by (auto simp: sagaOutcome_def intro!: exI [of _ "length past"])
  qed
qed

text \<open>Compensations that never fail are all recorded, last step first.\<close>

lemma compensate_records:
  assumes "\<forall>s\<in>set ss. \<forall>c. sg_compensation s = Some c \<longrightarrow> (\<forall>v w. isl (fst (c v w)) = False)"
  shows "fst (fold (compensateOne res) ss (names, w)) =
    names @ map sg_name (filter (\<lambda>s. sg_compensation s \<noteq> None) ss)"
  using assms
proof (induction ss arbitrary: names w)
  case (Cons s ss)
  obtain w1 where "compensateOne res s (names, w) =
      (if sg_compensation s = None then names else names @ [sg_name s], w1)"
  proof (cases "sg_compensation s")
    case (Some c)
    obtain out w1 where "c (res (sg_name s)) w = (out, w1)" by (cases "c (res (sg_name s)) w")
    moreover from this have "\<not> isl out" using Cons.prems Some by (metis fst_conv list.set_intros(1))
    ultimately show ?thesis using that Some by (cases out) (auto simp: compensateOne_def)
  qed (use that in \<open>simp add: compensateOne_def\<close>)
  with Cons show ?case by simp
qed simp

section \<open>Properties\<close>

text \<open>
  C21. A sequential saga is all or nothing.  If the steps have different names, every compensation
  takes back what its action did, and a failing action changes nothing, then a saga either completes
  all steps in order, or it stops at the first failing step, compensates the steps before it in
  reverse order and leaves the world exactly as it was.
\<close>

theorem saga_is_all_or_nothing:
  assumes "list_all reversible steps" and "distinct (map sg_name steps)" and "executeSaga steps w = (r, w')"
  shows "if sa_success r then sa_completedSteps r = map sg_name steps \<and> (\<exists>res. completes w steps res w')
    else w' = w \<and> sa_compensatedSteps r = rev (sa_completedSteps r) \<and>
      (\<exists>i<length steps. sa_completedSteps r = map sg_name (take i steps) \<and> sa_failedStep r = Some (sg_name (steps ! i)))"
  using runSaga_all_or_nothing [OF completes_none, of steps "length steps" w r w'] assms
  unfolding sagaOutcome_def [symmetric] by (simp add: executeSaga_def)

definition ex_step :: "string \<Rightarrow> int \<Rightarrow> (int, int) SagaStep" where
  "ex_step name d = \<lparr>sg_name = name, sg_action = (\<lambda>w. (Inr d, w + d)),
     sg_compensation = Some (\<lambda>v w. (Inr (), w - (case v of None \<Rightarrow> 0 | Some x \<Rightarrow> x)))\<rparr>"

definition ex_failing :: "string \<Rightarrow> (int, int) SagaStep" where
  "ex_failing name = \<lparr>sg_name = name, sg_action = (\<lambda>w. (Inl (JsError ''down''), w)),
     sg_compensation = Some (\<lambda>v w. (Inr (), w - (case v of None \<Rightarrow> 1 | Some x \<Rightarrow> x)))\<rparr>"

theorem saga_is_all_or_nothing_witness:
  "snd (executeSaga [ex_step ''debit'' 5, ex_step ''credit'' 7, ex_failing ''notify''] 100) = 100"
proof -
  let ?steps = "[ex_step ''debit'' 5, ex_step ''credit'' 7, ex_failing ''notify'']"
  have "list_all reversible ?steps" and "distinct (map sg_name ?steps)"
    by (simp_all add: reversible_def ex_step_def ex_failing_def)
  then show ?thesis
    using saga_is_all_or_nothing [of ?steps 100 "fst (executeSaga ?steps 100)" "snd (executeSaga ?steps 100)"]
    by (simp add: executeSaga_def compensate_def compensateOne_def ex_step_def ex_failing_def)
qed

text \<open>
  The results are kept by step name: two steps with one name are both compensated with the
  result of the later one, and the world is not what it was.
\<close>

lemma same_name_compensates_wrong_result:
  "snd (executeSaga [ex_step ''debit'' 5, ex_step ''debit'' 7, ex_failing ''notify''] 100) = 98"
  by (simp add: executeSaga_def compensate_def compensateOne_def ex_step_def ex_failing_def)

text \<open>
  A parallel saga compensates steps that never succeeded.  Whatever the schedule, when some
  step fails and compensations do not fail themselves, the result lists every step that has a
  compensation as compensated, the failed ones included; their compensation is called without a
  result.
\<close>

theorem parallel_saga_compensates_failed_steps:
  assumes "executeParallelSteps schedule steps w = (r, w')" and "\<not> sa_success r"
    and "\<forall>s\<in>set steps. \<forall>c. sg_compensation s = Some c \<longrightarrow> (\<forall>v w. isl (fst (c v w)) = False)"
  shows "sa_compensatedSteps r = rev (map sg_name (filter (\<lambda>s. sg_compensation s \<noteq> None) steps))"
proof -
  obtain failures res w1 where run: "fold (runParallel steps) schedule (Map.empty, Map.empty, w) = (failures, res, w1)"
    by (rule prod_cases3)
  have "sa_compensatedSteps r = fst (compensate steps res w1)"
    using assms(1,2) run by (auto simp: executeParallelSteps_def split: prod.splits option.splits)
  moreover have "fst (compensate steps res w1) = map sg_name (filter (\<lambda>s. sg_compensation s \<noteq> None) (rev steps))"
    using compensate_records [of "rev steps" res "[]" w1] assms(3) by (simp add: compensate_def)
  ultimately show ?thesis by (simp add: rev_filter rev_map)
qed

theorem parallel_saga_compensates_failed_steps_witness:
  "sa_compensatedSteps (fst (executeParallelSteps [1, 0] [ex_step ''debit'' 5, ex_failing ''notify''] 100)) =
     [''notify'', ''debit'']"
  using parallel_saga_compensates_failed_steps [of "[1, 0]" "[ex_step ''debit'' 5, ex_failing ''notify'']" 100
      "fst (executeParallelSteps [1, 0] [ex_step ''debit'' 5, ex_failing ''notify''] 100)"
      "snd (executeParallelSteps [1, 0] [ex_step ''debit'' 5, ex_failing ''notify''] 100)"]
  by (simp add: executeParallelSteps_def runParallel_def compensate_def compensateOne_def ex_step_def ex_failing_def upt_rec)

end
