(* ===== verification/Roles.thy ===== *)
theory Roles
  imports Kyc
begin

text \<open>
  Roles and permissions of the identity domain: \<open>identity/roles\<close> (the enumeration, the hierarchy,
  the metadata table and \<open>RoleService\<close>) and the guards that consult them.

  The hierarchy lists for every role the roles it inherits from. \<open>inherits\<close> is that table as a
  relation; \<open>getInheritedRoles\<close> is shown to list its reflexive transitive closure, and
  \<open>hasPermission\<close> to grant exactly what a role of the closure lists. A JavaScript \<open>Set\<close> is the
  list of its elements in insertion order.
\<close>

section \<open>The roles\<close>

datatype UserRole =
    SUPER_ADMIN | ADMIN | COMPLIANCE_OFFICER | SUPPORT_AGENT | TRADER | USER | STAFF
  | INSTITUTIONAL_CLIENT | GOVERNANCE_OPERATOR | KYC_OPERATOR | KYC_GOVERNANCE

definition ALL_ROLES :: "UserRole list" where
  "ALL_ROLES =
     [SUPER_ADMIN, ADMIN, COMPLIANCE_OFFICER, SUPPORT_AGENT, TRADER, USER, STAFF,
      INSTITUTIONAL_CLIENT, GOVERNANCE_OPERATOR, KYC_OPERATOR, KYC_GOVERNANCE]"

text \<open>The value of an enumeration member is its name.\<close>

fun roleName :: "UserRole \<Rightarrow> string" where
  "roleName SUPER_ADMIN = ''SUPER_ADMIN''"
| "roleName ADMIN = ''ADMIN''"
| "roleName COMPLIANCE_OFFICER = ''COMPLIANCE_OFFICER''"
| "roleName SUPPORT_AGENT = ''SUPPORT_AGENT''"
| "roleName TRADER = ''TRADER''"
| "roleName USER = ''USER''"
| "roleName STAFF = ''STAFF''"
| "roleName INSTITUTIONAL_CLIENT = ''INSTITUTIONAL_CLIENT''"
| "roleName GOVERNANCE_OPERATOR = ''GOVERNANCE_OPERATOR''"
| "roleName KYC_OPERATOR = ''KYC_OPERATOR''"
| "roleName KYC_GOVERNANCE = ''KYC_GOVERNANCE''"

definition parseRole :: "string \<Rightarrow> UserRole option" where
  "parseRole s = find (\<lambda>r. roleName r = s) ALL_ROLES"

fun ROLE_DESCRIPTIONS :: "UserRole \<Rightarrow> string" where
  "ROLE_DESCRIPTIONS SUPER_ADMIN = ''Super Administrator - Complete system root access''"
| "ROLE_DESCRIPTIONS ADMIN = ''Administrator - Full system access''"
| "ROLE_DESCRIPTIONS COMPLIANCE_OFFICER =
     ''Compliance Officer - Regulatory monitoring and enforcement''"
| "ROLE_DESCRIPTIONS SUPPORT_AGENT =
     ''Support Agent - User assistance and account troubleshooting''"
| "ROLE_DESCRIPTIONS TRADER =
     ''Trader - Advanced trading capabilities and portfolio management''"
| "ROLE_DESCRIPTIONS USER = ''Standard user - Trading and account access''"
| "ROLE_DESCRIPTIONS STAFF = ''Staff member - Support and monitoring''"
| "ROLE_DESCRIPTIONS INSTITUTIONAL_CLIENT =
     ''Institutional Client - Dedicated high-volume trading, custom reporting, SLA-backed support, and compliance features''"
| "ROLE_DESCRIPTIONS GOVERNANCE_OPERATOR = ''Governance operator - Policy enforcement''"
| "ROLE_DESCRIPTIONS KYC_OPERATOR = ''KYC operator - Document review''"
| "ROLE_DESCRIPTIONS KYC_GOVERNANCE = ''KYC governance - Process oversight''"

section \<open>The hierarchy\<close>

fun ROLE_HIERARCHY :: "UserRole \<Rightarrow> UserRole list" where
  "ROLE_HIERARCHY SUPER_ADMIN = []"
| "ROLE_HIERARCHY ADMIN = [SUPER_ADMIN]"
| "ROLE_HIERARCHY COMPLIANCE_OFFICER = [ADMIN]"
| "ROLE_HIERARCHY SUPPORT_AGENT = [ADMIN]"
| "ROLE_HIERARCHY TRADER = [USER]"
| "ROLE_HIERARCHY INSTITUTIONAL_CLIENT = [TRADER]"
| "ROLE_HIERARCHY GOVERNANCE_OPERATOR = [STAFF]"
| "ROLE_HIERARCHY STAFF = [TRADER]"
| "ROLE_HIERARCHY USER = []"
| "ROLE_HIERARCHY KYC_OPERATOR = [USER]"
| "ROLE_HIERARCHY KYC_GOVERNANCE = [STAFF, KYC_OPERATOR]"

fun ROLE_PRIORITY :: "UserRole \<Rightarrow> int" where
  "ROLE_PRIORITY SUPER_ADMIN = 110"
| "ROLE_PRIORITY ADMIN = 100"
| "ROLE_PRIORITY COMPLIANCE_OFFICER = 85"
| "ROLE_PRIORITY GOVERNANCE_OPERATOR = 80"
| "ROLE_PRIORITY KYC_GOVERNANCE = 70"
| "ROLE_PRIORITY SUPPORT_AGENT = 65"
| "ROLE_PRIORITY STAFF = 60"
| "ROLE_PRIORITY INSTITUTIONAL_CLIENT = 45"
| "ROLE_PRIORITY KYC_OPERATOR = 40"
| "ROLE_PRIORITY TRADER = 30"
| "ROLE_PRIORITY USER = 20"

fun ROLE_INCOMPATIBILITIES :: "UserRole \<Rightarrow> UserRole list option" where
  "ROLE_INCOMPATIBILITIES GOVERNANCE_OPERATOR = Some [KYC_OPERATOR, KYC_GOVERNANCE]"
| "ROLE_INCOMPATIBILITIES KYC_OPERATOR = Some [GOVERNANCE_OPERATOR]"
| "ROLE_INCOMPATIBILITIES KYC_GOVERNANCE = Some [GOVERNANCE_OPERATOR]"
| "ROLE_INCOMPATIBILITIES _ = None"

text \<open>\<open>if (!inherited.includes(r)) inherited.push(r)\<close>\<close>

definition pushNew :: "'a \<Rightarrow> 'a list \<Rightarrow> 'a list" where
  "pushNew r xs = (if r \<in> set xs then xs else xs @ [r])"

text \<open>How far a role is from the roles that inherit nothing; the recursion goes down in it.\<close>

fun roleDepth :: "UserRole \<Rightarrow> nat" where
  "roleDepth SUPER_ADMIN = 0"
| "roleDepth USER = 0"
| "roleDepth ADMIN = 1"
| "roleDepth TRADER = 1"
| "roleDepth KYC_OPERATOR = 1"
| "roleDepth COMPLIANCE_OFFICER = 2"
| "roleDepth SUPPORT_AGENT = 2"
| "roleDepth INSTITUTIONAL_CLIENT = 2"
| "roleDepth STAFF = 2"
| "roleDepth GOVERNANCE_OPERATOR = 3"
| "roleDepth KYC_GOVERNANCE = 3"

lemma roleDepth_parent: "parent \<in> set (ROLE_HIERARCHY role) \<Longrightarrow> roleDepth parent < roleDepth role"
  by (cases role) auto

function getInheritedRoles :: "UserRole \<Rightarrow> UserRole list" where
  "getInheritedRoles role =
     fold (\<lambda>parent inherited. fold pushNew (getInheritedRoles parent) inherited)
       (ROLE_HIERARCHY role) [role]"
  by pat_completeness auto

termination
  by (relation "measure roleDepth") (simp_all add: roleDepth_parent)

declare getInheritedRoles.simps [simp del]

definition getRoleIncompatibilities :: "UserRole \<Rightarrow> UserRole list" where
  "getRoleIncompatibilities role =
     (case ROLE_INCOMPATIBILITIES role of None \<Rightarrow> [] | Some rs \<Rightarrow> rs)"

definition areRolesCompatible :: "UserRole \<Rightarrow> UserRole \<Rightarrow> bool" where
  "areRolesCompatible role1 role2 =
     (if role1 = role2 then True
      else let incompatible = getRoleIncompatibilities role1;
               reverseIncompatible = getRoleIncompatibilities role2
           in role2 \<notin> set incompatible \<and> role1 \<notin> set reverseIncompatible)"

section \<open>Role metadata\<close>

record RoleMetadata =
  md_name :: UserRole
  md_description :: string
  md_priority :: int
  md_permissions :: "string list"
  md_maxUsers :: "nat option"
  md_maxDailyActions :: "nat option"
  md_ipWhitelist :: "string list option"
  md_timeRestrictions :: "string option"

definition metadata_SUPER_ADMIN :: RoleMetadata where
  "metadata_SUPER_ADMIN =
     \<lparr>md_name = SUPER_ADMIN,
      md_description = ''Super Administrator - Unrestricted platform access'',
      md_priority = 110,
      md_permissions =
       [''*''],
      md_maxUsers = Some 2, md_maxDailyActions = None, md_ipWhitelist = None,
      md_timeRestrictions = Some ''24/7''\<rparr>"

definition metadata_ADMIN :: RoleMetadata where
  "metadata_ADMIN =
     \<lparr>md_name = ADMIN,
      md_description = ''Administrator - Full system access'',
      md_priority = 150,
      md_permissions =
       [''admin.access'', ''users.read'', ''users.write'', ''accounts.read'',
        ''accounts.write'', ''trades.read'', ''trades.write'', ''*''],
      md_maxUsers = Some 5, md_maxDailyActions = None, md_ipWhitelist = None,
      md_timeRestrictions = Some ''24/7''\<rparr>"

definition metadata_COMPLIANCE_OFFICER :: RoleMetadata where
  "metadata_COMPLIANCE_OFFICER =
     \<lparr>md_name = COMPLIANCE_OFFICER,
      md_description = ''Compliance Officer - Regulatory and compliance oversight'',
      md_priority = 85,
      md_permissions =
       [''users.read'', ''accounts.read'', ''trades.read'', ''admin.access'',
        ''COMPLIANCE_READ'', ''COMPLIANCE_WRITE'', ''AUDIT_READ'', ''POLICY_READ'',
        ''POLICY_WRITE'', ''USER_SUSPENSION_REQUEST'', ''REGULATORY_REPORT_MANAGE'',
        ''KYC_READ'', ''KYC_REVIEW''],
      md_maxUsers = Some 10, md_maxDailyActions = Some 500, md_ipWhitelist = None,
      md_timeRestrictions = None\<rparr>"

definition metadata_GOVERNANCE_OPERATOR :: RoleMetadata where
  "metadata_GOVERNANCE_OPERATOR =
     \<lparr>md_name = GOVERNANCE_OPERATOR,
      md_description = ''Governance operator - Policy enforcement'',
      md_priority = 80,
      md_permissions =
       [''users.read'', ''accounts.read'', ''admin.access'', ''POLICY_READ'',
        ''POLICY_WRITE'', ''AUDIT_READ'', ''GOVERNANCE_RULES_MANAGE'',
        ''SYSTEM_METRICS_READ'', ''USER_SUSPENSION_REQUEST''],
      md_maxUsers = Some 10, md_maxDailyActions = Some 500, md_ipWhitelist = None,
      md_timeRestrictions = None\<rparr>"

definition metadata_KYC_GOVERNANCE :: RoleMetadata where
  "metadata_KYC_GOVERNANCE =
     \<lparr>md_name = KYC_GOVERNANCE,
      md_description = ''KYC governance - Process oversight'',
      md_priority = 70,
      md_permissions =
       [''KYC_POLICY_READ'', ''KYC_POLICY_WRITE'', ''KYC_AUDIT_READ'', ''KYC_ESCALATE'',
        ''KYC_OPERATOR_MANAGE'', ''COMPLIANCE_ESCALATE'', ''DOCUMENT_STORAGE_MANAGE''],
      md_maxUsers = Some 5, md_maxDailyActions = Some 500, md_ipWhitelist = None,
      md_timeRestrictions = None\<rparr>"

definition metadata_SUPPORT_AGENT :: RoleMetadata where
  "metadata_SUPPORT_AGENT =
     \<lparr>md_name = SUPPORT_AGENT,
      md_description = ''Support Agent - Customer support operations'',
      md_priority = 65,
      md_permissions =
       [''users.read'', ''accounts.read'', ''trades.read'', ''admin.access'',
        ''USER_READ'', ''USER_SUPPORT_TICKET_MANAGE'', ''TRANSACTION_VIEW'',
        ''ALERT_READ'', ''BALANCE_HISTORY_VIEW'', ''USER_KYC_STATUS_VIEW''],
      md_maxUsers = Some 100, md_maxDailyActions = Some 2000, md_ipWhitelist = None,
      md_timeRestrictions = None\<rparr>"

definition metadata_STAFF :: RoleMetadata where
  "metadata_STAFF =
     \<lparr>md_name = STAFF,
      md_description = ''Staff member - Support and monitoring'',
      md_priority = 60,
      md_permissions =
       [''users.read'', ''accounts.read'', ''USER_READ'', ''USER_SUPPORT_TICKET_MANAGE'',
        ''COMPLIANCE_READ'', ''TRANSACTION_VIEW'', ''ALERT_READ'', ''BALANCE_HISTORY_VIEW''],
      md_maxUsers = Some 50, md_maxDailyActions = Some 1000, md_ipWhitelist = None,
      md_timeRestrictions = None\<rparr>"

definition metadata_KYC_OPERATOR :: RoleMetadata where
  "metadata_KYC_OPERATOR =
     \<lparr>md_name = KYC_OPERATOR,
      md_description = ''KYC operator - Document reviewer'',
      md_priority = 40,
      md_permissions =
       [''KYC_READ'', ''KYC_REVIEW'', ''KYC_APPROVE'', ''KYC_REJECT'', ''DOCUMENT_VIEW'',
        ''USER_KYC_STATUS_UPDATE''],
      md_maxUsers = Some 20, md_maxDailyActions = Some 200, md_ipWhitelist = None,
      md_timeRestrictions = Some ''9-17 weekdays''\<rparr>"

definition metadata_TRADER :: RoleMetadata where
  "metadata_TRADER =
     \<lparr>md_name = TRADER,
      md_description = ''Trader - Enhanced trading and account operations'',
      md_priority = 30,
      md_permissions =
       [''trades.read'', ''trades.write'', ''accounts.read'', ''accounts.write'',
        ''TRADING_READ'', ''TRADING_WRITE'', ''PORTFOLIO_READ'', ''PORTFOLIO_WRITE'',
        ''PROFILE_EDIT'', ''PROFILE_READ'', ''BALANCE_READ'', ''TRANSACTION_VIEW_OWN'',
        ''SETTINGS_MANAGE'', ''ADVANCED_TRADING'', ''MARGIN_TRADING''],
      md_maxUsers = None, md_maxDailyActions = Some 10000, md_ipWhitelist = None,
      md_timeRestrictions = None\<rparr>"

definition metadata_INSTITUTIONAL_CLIENT :: RoleMetadata where
  "metadata_INSTITUTIONAL_CLIENT =
     \<lparr>md_name = INSTITUTIONAL_CLIENT,
      md_description = ''Institutional Client - High-volume trading, bulk APIs, custom reporting, SLA-backed support, and compliance features'',
      md_priority = 45,
      md_permissions =
       [''trades.read'', ''trades.write'', ''trades.bulk'', ''accounts.read'',
        ''accounts.write'', ''TRADING_READ'', ''TRADING_WRITE'', ''PORTFOLIO_READ'',
        ''PORTFOLIO_WRITE'', ''PROFILE_EDIT'', ''PROFILE_READ'', ''BALANCE_READ'',
        ''BALANCE_WRITE'', ''TRANSACTION_VIEW_OWN'', ''SETTINGS_MANAGE'',
        ''ADVANCED_TRADING'', ''MARGIN_TRADING'', ''INSTITUTIONAL_API_ACCESS'',
        ''INSTITUTIONAL_BULK_TRADING'', ''INSTITUTIONAL_REPORTING'',
        ''INSTITUTIONAL_RECONCILIATION'', ''INSTITUTIONAL_SLA_MANAGEMENT'',
        ''INSTITUTIONAL_SUPPORT_PRIORITY'', ''INSTITUTIONAL_ACCOUNT_MANAGEMENT'',
        ''INSTITUTIONAL_QUOTA_MANAGEMENT'', ''INSTITUTIONAL_PORTAL_ACCESS''],
      md_maxUsers = None, md_maxDailyActions = Some 1000000, md_ipWhitelist = None,
      md_timeRestrictions = None\<rparr>"

definition metadata_USER :: RoleMetadata where
  "metadata_USER =
     \<lparr>md_name = USER,
      md_description = ''Standard platform user - Trading and account access'',
      md_priority = 20,
      md_permissions =
       [''trades.read'', ''trades.write'', ''accounts.read'', ''TRADING_READ'',
        ''TRADING_WRITE'', ''PORTFOLIO_READ'', ''PORTFOLIO_WRITE'', ''PROFILE_EDIT'',
        ''PROFILE_READ'', ''BALANCE_READ'', ''TRANSACTION_VIEW_OWN'', ''SETTINGS_MANAGE''],
      md_maxUsers = None, md_maxDailyActions = Some 5000, md_ipWhitelist = None,
      md_timeRestrictions = None\<rparr>"

fun ROLE_METADATA :: "UserRole \<Rightarrow> RoleMetadata" where
  "ROLE_METADATA SUPER_ADMIN = metadata_SUPER_ADMIN"
| "ROLE_METADATA ADMIN = metadata_ADMIN"
| "ROLE_METADATA COMPLIANCE_OFFICER = metadata_COMPLIANCE_OFFICER"
| "ROLE_METADATA GOVERNANCE_OPERATOR = metadata_GOVERNANCE_OPERATOR"
| "ROLE_METADATA KYC_GOVERNANCE = metadata_KYC_GOVERNANCE"
| "ROLE_METADATA SUPPORT_AGENT = metadata_SUPPORT_AGENT"
| "ROLE_METADATA STAFF = metadata_STAFF"
| "ROLE_METADATA KYC_OPERATOR = metadata_KYC_OPERATOR"
| "ROLE_METADATA TRADER = metadata_TRADER"
| "ROLE_METADATA INSTITUTIONAL_CLIENT = metadata_INSTITUTIONAL_CLIENT"
| "ROLE_METADATA USER = metadata_USER"

lemmas metadata_defs =
  metadata_SUPER_ADMIN_def metadata_ADMIN_def metadata_COMPLIANCE_OFFICER_def
  metadata_GOVERNANCE_OPERATOR_def metadata_KYC_GOVERNANCE_def metadata_SUPPORT_AGENT_def
  metadata_STAFF_def metadata_KYC_OPERATOR_def metadata_TRADER_def
  metadata_INSTITUTIONAL_CLIENT_def metadata_USER_def

definition roleHasPermission :: "UserRole \<Rightarrow> string \<Rightarrow> bool" where
  "roleHasPermission role permission =
     (let metadata = ROLE_METADATA role
      in if ''*'' \<in> set (md_permissions metadata) then True
         else permission \<in> set (md_permissions metadata))"

definition getAllRolePermissions :: "UserRole \<Rightarrow> UserRole list \<Rightarrow> string list" where
  "getAllRolePermissions role inheritedRoles =
     (if role = ADMIN then [''*'']
      else setOrder (md_permissions (ROLE_METADATA role) @
        concat (map (\<lambda>r. md_permissions (ROLE_METADATA r)) inheritedRoles)))"

section \<open>\<open>RoleService\<close>\<close>

definition getRoleMetadata :: "UserRole \<Rightarrow> RoleMetadata" where
  "getRoleMetadata role = ROLE_METADATA role"

definition hasRole :: "UserRole list \<Rightarrow> UserRole \<Rightarrow> bool" where
  "hasRole userRoles requiredRole =
     list_ex (\<lambda>role. if role = requiredRole then True
                      else requiredRole \<in> set (getInheritedRoles role)) userRoles"

definition getRolePriority :: "UserRole \<Rightarrow> int" where
  "getRolePriority role = md_priority (getRoleMetadata role)"

definition higherRole :: "UserRole \<Rightarrow> UserRole \<Rightarrow> UserRole" where
  "higherRole highest current =
     (if getRolePriority current > getRolePriority highest then current else highest)"

fun getHighestPriorityRole :: "UserRole list \<Rightarrow> UserRole" where
  "getHighestPriorityRole [] = USER"
| "getHighestPriorityRole (r # rs) = foldl higherRole r rs"

record RoleContext =
  rc_roles :: "UserRole list"
  rc_primaryRole :: UserRole
  rc_inheritedRoles :: "UserRole list"

definition createRoleContext :: "UserRole list \<Rightarrow> RoleContext" where
  "createRoleContext roles =
     (let primaryRole = getHighestPriorityRole roles
      in \<lparr>rc_roles = roles, rc_primaryRole = primaryRole,
          rc_inheritedRoles = getInheritedRoles primaryRole\<rparr>)"

definition incompatibleText :: "UserRole \<Rightarrow> UserRole \<Rightarrow> string" where
  "incompatibleText role1 role2 =
     ''Role '' @ roleName role1 @ '' is incompatible with '' @ roleName role2"

text \<open>The two nested loops over the pairs \<open>i < j\<close>.\<close>

fun pairErrors :: "UserRole list \<Rightarrow> string list" where
  "pairErrors [] = []"
| "pairErrors (role1 # rest) =
     map (incompatibleText role1) (filter (\<lambda>role2. \<not> areRolesCompatible role1 role2) rest) @
     pairErrors rest"

definition validateRoleCombination :: "UserRole list \<Rightarrow> bool \<times> string list" where
  "validateRoleCombination roles =
     (let uniqueRoles = setOrder roles;
          errors = (if length uniqueRoles \<noteq> length roles then [''Duplicate roles not allowed''] else [])
            @ pairErrors roles
      in (length errors = 0, errors))"

definition getIncompatibleRoles :: "UserRole \<Rightarrow> UserRole list" where
  "getIncompatibleRoles role = getRoleIncompatibilities role"

definition canAddRole :: "UserRole list \<Rightarrow> UserRole \<Rightarrow> bool" where
  "canAddRole existingRoles roleToAdd = fst (validateRoleCombination (existingRoles @ [roleToAdd]))"

definition getAllUserPermissions :: "UserRole list \<Rightarrow> string list" where
  "getAllUserPermissions userRoles =
     (if list_ex (\<lambda>role. ''*'' \<in> set (md_permissions (getRoleMetadata role))) userRoles then [''*'']
      else setOrder (concat (map (\<lambda>role. getAllRolePermissions role (getInheritedRoles role)) userRoles)))"

definition hasPermission :: "UserRole list \<Rightarrow> string \<Rightarrow> bool" where
  "hasPermission userRoles permission =
     (let permissions = getAllUserPermissions userRoles
      in ''*'' \<in> set permissions \<or> permission \<in> set permissions)"

definition sortByPriority :: "UserRole list \<Rightarrow> UserRole list" where
  "sortByPriority roles = sort_key (\<lambda>r. - getRolePriority r) roles"

section \<open>The guards\<close>

text \<open>What an authenticated request carries: the \<open>roles\<close> array and the single \<open>role\<close>, if any.\<close>

record request_user =
  ru_roles :: "role_input option"
  ru_role :: "role_input option"

text \<open>
  \<open>canActivate\<close> of \<open>PermissionsGuard\<close>: the permissions the route requires (\<open>None\<close> when it is not
  decorated), checked one by one on typed roles.
\<close>

fun requireAll :: "UserRole list \<Rightarrow> string list \<Rightarrow> unit result" where
  "requireAll userRoles [] = Inr ()"
| "requireAll userRoles (permission # rest) =
     (if \<not> hasPermission userRoles permission
      then Inl (ForbiddenException ''Insufficient permissions'')
      else requireAll userRoles rest)"

definition permissionsGuard ::
  "string list option \<Rightarrow> (UserRole list option \<times> UserRole option) option \<Rightarrow> unit result" where
  "permissionsGuard requiredPermissions user =
     (case requiredPermissions of
        None \<Rightarrow> Inr ()
      | Some [] \<Rightarrow> Inr ()
      | Some required \<Rightarrow>
          (case user of
             None \<Rightarrow> Inl (UnauthorizedException ''User not authenticated'')
           | Some (roles, role) \<Rightarrow>
               requireAll (case roles of Some rs \<Rightarrow> rs
                           | None \<Rightarrow> (case role of Some r \<Rightarrow> [r] | None \<Rightarrow> [])) required))"

text \<open>
  \<open>RbacGuard\<close> works on the normalised role strings. A string that names no role inherits nothing;
  looking up its permissions is a \<open>TypeError\<close>, as there is no metadata for it.
\<close>

definition hasRoleText :: "string list \<Rightarrow> UserRole \<Rightarrow> bool" where
  "hasRoleText userRoles required = hasRole (List.map_filter parseRole userRoles) required"

fun adminScan :: "string list \<Rightarrow> bool result" where
  "adminScan [] = Inr False"
| "adminScan (r # rs) =
     (case parseRole r of
        None \<Rightarrow> Inl (JsError ''Cannot read properties of undefined'')
      | Some role \<Rightarrow> if ''*'' \<in> set (md_permissions (getRoleMetadata role)) then Inr True else adminScan rs)"

definition hasPermissionText :: "string list \<Rightarrow> string \<Rightarrow> bool result" where
  "hasPermissionText userRoles permission =
     rbind (adminScan userRoles) (\<lambda>admin.
       Inr (admin \<or> hasPermission (List.map_filter parseRole userRoles) permission))"

fun everyPermission :: "string list \<Rightarrow> string list \<Rightarrow> bool result" where
  "everyPermission userRoles [] = Inr True"
| "everyPermission userRoles (p # ps) =
     rbind (hasPermissionText userRoles p) (\<lambda>b. if b then everyPermission userRoles ps else Inr False)"

definition emptyRoles :: "role_input option \<Rightarrow> bool" where
  "emptyRoles roles = (case roles of None \<Rightarrow> True | Some (RoleArray []) \<Rightarrow> True
     | Some NoRoles \<Rightarrow> True | Some (RoleValue (RoleText [])) \<Rightarrow> True
     | Some (RoleValue NotText) \<Rightarrow> True | _ \<Rightarrow> False)"

definition requestRoles :: "request_user \<Rightarrow> string list" where
  "requestRoles user =
     normalizeRoleValues
       (case (if emptyRoles (ru_roles user) then ru_role user else ru_roles user) of
          None \<Rightarrow> NoRoles | Some r \<Rightarrow> r)"

definition rbacGuard ::
  "UserRole list \<Rightarrow> string list \<Rightarrow> request_user option \<Rightarrow> unit result" where
  "rbacGuard requiredRoles requiredPermissions user =
     (if requiredRoles = [] \<and> requiredPermissions = [] then Inr ()
      else case user of
        None \<Rightarrow> Inl (UnauthorizedException ''Authentication required'')
      | Some u \<Rightarrow>
          let userRoles = requestRoles u
          in case assertNoGovernanceKycRoleConflict (stringRoles userRoles) of
               Inl e \<Rightarrow> Inl (ForbiddenException ''Governance and KYC roles are mutually exclusive.'')
             | Inr _ \<Rightarrow>
                 if ''SUPER_ADMIN'' \<in> set userRoles \<or> ''ADMIN'' \<in> set userRoles then Inr ()
                 else rbind (throw_unless (requiredRoles = [] \<or>
                          list_ex (\<lambda>required. hasRoleText userRoles required) requiredRoles)
                        (ForbiddenException ''Access denied. Required roles'')) (\<lambda>_.
                      if requiredPermissions = [] then Inr ()
                      else rbind (everyPermission userRoles requiredPermissions) (\<lambda>hasAll.
                        throw_unless hasAll (ForbiddenException ''Access denied. Required permissions''))))"

section \<open>The hierarchy as a relation\<close>

definition inherits :: "UserRole \<Rightarrow> UserRole \<Rightarrow> bool" where
  "inherits role parent \<longleftrightarrow> parent \<in> set (ROLE_HIERARCHY role)"

text \<open>
  The interface of a walk up a hierarchy: the nodes collected for a node are the node and what is
  collected for its parents, and a rank goes down from a node to its parents.
\<close>

locale hierarchy =
  fixes parents :: "'r \<Rightarrow> 'r list"
    and collect :: "'r \<Rightarrow> 'r list"
    and rank :: "'r \<Rightarrow> nat"
  assumes collect_parents: "set (collect r) = insert r (\<Union>p\<in>set (parents r). set (collect p))"
    and rank_parents: "p \<in> set (parents r) \<Longrightarrow> rank p < rank r"
begin

lemma parents_wf: "wfp (\<lambda>p r. p \<in> set (parents r))"
proof (rule wfp_if_convertible_to_nat)
  show "\<And>p r. p \<in> set (parents r) \<Longrightarrow> rank p < rank r" by (rule rank_parents)
qed

lemma collect_closure: "set (collect r) = {x. (\<lambda>a b. b \<in> set (parents a))\<^sup>*\<^sup>* r x}"
proof (induction "rank r" arbitrary: r rule: less_induct)
  case less
  show ?case
  proof (intro set_eqI iffI)
    fix x
    assume "x \<in> set (collect r)"
    then consider "x = r" | p where "p \<in> set (parents r)" "x \<in> set (collect p)"
      using collect_parents [of r] by auto
    then show "x \<in> {x. (\<lambda>a b. b \<in> set (parents a))\<^sup>*\<^sup>* r x}"
    proof cases
      case 2
      with less rank_parents have "(\<lambda>a b. b \<in> set (parents a))\<^sup>*\<^sup>* p x" by blast
      with 2 show ?thesis by (auto intro: converse_rtranclp_into_rtranclp)
    qed simp
  next
    fix x
    assume "x \<in> {x. (\<lambda>a b. b \<in> set (parents a))\<^sup>*\<^sup>* r x}"
    then consider "x = r" | p where "p \<in> set (parents r)" "(\<lambda>a b. b \<in> set (parents a))\<^sup>*\<^sup>* p x"
      by (auto elim: converse_rtranclpE)
    then show "x \<in> set (collect r)"
      by cases (use less rank_parents collect_parents [of r] in blast)+
  qed
qed

end

lemma set_pushAll: "set (fold pushNew ys xs) = set xs \<union> set ys"
  by (induction ys arbitrary: xs) (auto simp: pushNew_def)

lemma distinct_pushAll: "distinct xs \<Longrightarrow> distinct (fold pushNew ys xs)"
  by (induction ys arbitrary: xs) (auto simp: pushNew_def)

lemma set_fold_pushAll:
  "set (fold (\<lambda>p. fold pushNew (f p)) ps xs) = set xs \<union> (\<Union>p\<in>set ps. set (f p))"
  by (induction ps arbitrary: xs) (auto simp: set_pushAll)

lemma distinct_fold_pushAll: "distinct xs \<Longrightarrow> distinct (fold (\<lambda>p. fold pushNew (f p)) ps xs)"
  by (induction ps arbitrary: xs) (auto simp: distinct_pushAll)

lemma set_getInheritedRoles:
  "set (getInheritedRoles r) = insert r (\<Union>p\<in>set (ROLE_HIERARCHY r). set (getInheritedRoles p))"
  by (subst getInheritedRoles.simps) (simp add: set_fold_pushAll)

lemma distinct_getInheritedRoles: "distinct (getInheritedRoles r)"
  by (subst getInheritedRoles.simps) (simp add: distinct_fold_pushAll)

interpretation roles: hierarchy ROLE_HIERARCHY getInheritedRoles roleDepth
  by unfold_locales (rule set_getInheritedRoles, rule roleDepth_parent)

lemma inherits_rel: "inherits = (\<lambda>a b. b \<in> set (ROLE_HIERARCHY a))"
  by (simp add: inherits_def fun_eq_iff)

lemma getInheritedRoles_iff: "x \<in> set (getInheritedRoles r) \<longleftrightarrow> inherits\<^sup>*\<^sup>* r x"
  using roles.collect_closure [of r] by (simp add: inherits_rel)

lemma all_roles [simp]: "set ALL_ROLES = UNIV"
proof (rule UNIV_eq_I [symmetric])
  show "x \<in> set ALL_ROLES" for x by (cases x) (simp_all add: ALL_ROLES_def)
qed

lemma roleName_inject [simp]: "roleName r = roleName q \<longleftrightarrow> r = q"
  by (cases r; cases q) simp_all

lemma parseRole_roleName [simp]: "parseRole (roleName r) = Some r"
  by (cases r) (simp_all add: parseRole_def ALL_ROLES_def)

lemma parseRole_Some_iff: "parseRole s = Some r \<longleftrightarrow> s = roleName r"
proof
  assume "parseRole s = Some r"
  then show "s = roleName r" using find_Some_in unfolding parseRole_def by fast
qed simp

text \<open>
  C25. The walk over the role hierarchy terminates: no role is its own ancestor (the relation
  from a role to the roles it inherits from is well-founded), so the recursion of
  \<open>getInheritedRoles\<close> ends for every role, and the list it returns has no duplicates, hence at
  most one entry per role of the enumeration.
\<close>

theorem role_walk_terminates:
  "wfp (\<lambda>parent role. inherits role parent) \<and>
   distinct (getInheritedRoles role) \<and> length (getInheritedRoles role) \<le> length ALL_ROLES"
proof (intro conjI)
  show "wfp (\<lambda>parent role. inherits role parent)"
    using roles.parents_wf by (simp add: inherits_rel)
  show "distinct (getInheritedRoles role)" by (rule distinct_getInheritedRoles)
  have "length (getInheritedRoles role) = card (set (getInheritedRoles role))"
    by (simp add: distinct_card distinct_getInheritedRoles)
  also have "\<dots> \<le> card (set ALL_ROLES)" by (rule card_mono [OF finite_set]) simp
  also have "\<dots> \<le> length ALL_ROLES" by (rule card_length)
  finally show "length (getInheritedRoles role) \<le> length ALL_ROLES" .
qed

section \<open>What roles grant\<close>

definition ownPermissions :: "UserRole \<Rightarrow> string set" where
  "ownPermissions r = set (md_permissions (ROLE_METADATA r))"

lemma admin_permissions [simp]: "''*'' \<in> ownPermissions ADMIN" "''*'' \<in> ownPermissions SUPER_ADMIN"
  by (simp_all add: ownPermissions_def metadata_defs)

lemma set_getAllRolePermissions:
  "role \<noteq> ADMIN \<Longrightarrow> role \<in> set rs \<Longrightarrow>
     set (getAllRolePermissions role rs) = (\<Union>r\<in>set rs. ownPermissions r)"
  by (auto simp: getAllRolePermissions_def ownPermissions_def)

lemma self_in_getInheritedRoles [simp]: "r \<in> set (getInheritedRoles r)"
  by (simp add: getInheritedRoles_iff)

lemma set_getAllUserPermissions:
  assumes "\<forall>r\<in>set rs. ''*'' \<notin> ownPermissions r"
  shows "set (getAllUserPermissions rs) =
    (\<Union>r\<in>set rs. \<Union>r'\<in>set (getInheritedRoles r). ownPermissions r')"
proof -
  have "set (getAllRolePermissions r (getInheritedRoles r)) =
      (\<Union>r'\<in>set (getInheritedRoles r). ownPermissions r')" if "r \<in> set rs" for r
  proof (rule set_getAllRolePermissions)
    show "r \<noteq> ADMIN" using assms that by auto
  qed simp
  moreover have "\<not> list_ex (\<lambda>role. ''*'' \<in> set (md_permissions (getRoleMetadata role))) rs"
    using assms by (simp add: list_ex_iff getRoleMetadata_def ownPermissions_def)
  ultimately show ?thesis by (auto simp: getAllUserPermissions_def)
qed

lemma hasPermission_iff:
  "hasPermission userRoles p \<longleftrightarrow>
     (\<exists>r\<in>set userRoles. \<exists>r'. inherits\<^sup>*\<^sup>* r r' \<and> (''*'' \<in> ownPermissions r' \<or> p \<in> ownPermissions r'))"
proof (cases "\<exists>r\<in>set userRoles. ''*'' \<in> ownPermissions r")
  case True
  then have "getAllUserPermissions userRoles = [''*'']"
    by (auto simp: getAllUserPermissions_def list_ex_iff getRoleMetadata_def ownPermissions_def)
  with True show ?thesis unfolding hasPermission_def Let_def by auto
next
  case False
  then have "set (getAllUserPermissions userRoles) =
      (\<Union>r\<in>set userRoles. \<Union>r'\<in>set (getInheritedRoles r). ownPermissions r')"
    by (intro set_getAllUserPermissions) simp
  then show ?thesis unfolding hasPermission_def Let_def getInheritedRoles_iff [symmetric] by blast
qed

text \<open>
  C26. What a permission check grants: a user has a permission exactly when one of its roles,
  or a role inherited from one through any number of steps, lists that permission or the
  wildcard. The optimised check (the scan for a wildcard first, the special case for ADMIN, the
  deduplicated sets) is equivalent to this definition.
\<close>

theorem permission_check_is_the_closure:
  "hasPermission userRoles p \<longleftrightarrow>
     (\<exists>r\<in>set userRoles. \<exists>r'. inherits\<^sup>*\<^sup>* r r' \<and> (''*'' \<in> ownPermissions r' \<or> p \<in> ownPermissions r'))"
  by (rule hasPermission_iff)

text \<open>More roles never take a permission away.\<close>

lemma hasPermission_mono:
  "hasPermission rs p \<Longrightarrow> set rs \<subseteq> set rs' \<Longrightarrow> hasPermission rs' p"
  unfolding hasPermission_iff by blast

lemma hasPermission_wildcard:
  "r \<in> set rs \<Longrightarrow> inherits\<^sup>*\<^sup>* r r' \<Longrightarrow> ''*'' \<in> ownPermissions r' \<Longrightarrow> hasPermission rs p"
  unfolding hasPermission_iff by blast

lemma inherits_admin: "inherits\<^sup>*\<^sup>* SUPPORT_AGENT ADMIN" "inherits\<^sup>*\<^sup>* COMPLIANCE_OFFICER ADMIN"
  by (auto simp: inherits_def)

text \<open>
  The hierarchy gives support agents and compliance officers every permission: both inherit
  from ADMIN, which inherits from SUPER_ADMIN, so every permission check and every role check
  for ADMIN or SUPER_ADMIN succeeds for them. The comment above the table draws the opposite
  direction, SUPER_ADMIN above ADMIN above these two.
\<close>

theorem support_agents_hold_every_permission:
  "hasPermission [SUPPORT_AGENT] p \<and> hasPermission [COMPLIANCE_OFFICER] p \<and>
   hasRole [SUPPORT_AGENT] SUPER_ADMIN \<and> hasRole [COMPLIANCE_OFFICER] SUPER_ADMIN \<and>
   \<not> hasRole [SUPER_ADMIN] SUPPORT_AGENT"
proof -
  have "hasPermission [SUPPORT_AGENT] p" "hasPermission [COMPLIANCE_OFFICER] p"
    by (rule hasPermission_wildcard [OF _ inherits_admin(1)]; simp)
      (rule hasPermission_wildcard [OF _ inherits_admin(2)]; simp)
  moreover have "inherits ADMIN SUPER_ADMIN" by (simp add: inherits_def)
  then have "inherits\<^sup>*\<^sup>* SUPPORT_AGENT SUPER_ADMIN" "inherits\<^sup>*\<^sup>* COMPLIANCE_OFFICER SUPER_ADMIN"
    using inherits_admin by (auto intro: rtranclp.rtrancl_into_rtrancl)
  moreover have "\<not> inherits\<^sup>*\<^sup>* SUPER_ADMIN SUPPORT_AGENT"
    by (auto simp: inherits_def elim: converse_rtranclpE)
  ultimately show ?thesis by (simp add: hasRole_def getInheritedRoles_iff)
qed

section \<open>Role combinations\<close>

lemma areRolesCompatible_sym: "areRolesCompatible r q = areRolesCompatible q r"
  by (auto simp: areRolesCompatible_def Let_def)

text \<open>Governance duties on one side, KYC duties on the other.\<close>

lemma areRolesCompatible_iff:
  "areRolesCompatible r q \<longleftrightarrow>
     \<not> (r = GOVERNANCE_OPERATOR \<and> q \<in> {KYC_OPERATOR, KYC_GOVERNANCE} \<or>
        q = GOVERNANCE_OPERATOR \<and> r \<in> {KYC_OPERATOR, KYC_GOVERNANCE})"
  by (cases r; cases q) (simp_all add: areRolesCompatible_def getRoleIncompatibilities_def)

definition separated :: "UserRole set \<Rightarrow> bool" where
  "separated R \<longleftrightarrow> \<not> (GOVERNANCE_OPERATOR \<in> R \<and> (KYC_OPERATOR \<in> R \<or> KYC_GOVERNANCE \<in> R))"

lemma pairErrors_Nil_iff: "pairErrors rs = [] \<longleftrightarrow> separated (set rs)"
  by (induction rs) (auto simp: areRolesCompatible_iff separated_def filter_empty_conv)

lemma length_setOrder_less: "length (setOrder xs) \<le> length xs"
  by (induction xs) (auto intro: order_trans [OF length_filter_le])

lemma length_setOrder_eq: "length (setOrder xs) = length xs \<longleftrightarrow> distinct xs"
proof -
  have "length (setOrder xs) = card (set xs)"
    using distinct_card [OF distinct_setOrder, of xs] by simp
  then show ?thesis by (metis card_distinct distinct_card)
qed

lemma setOrder_distinct: "distinct xs \<Longrightarrow> setOrder xs = xs"
  by (induction xs) (auto simp: filter_id_conv)

lemma validateRoleCombination_iff:
  "fst (validateRoleCombination rs) \<longleftrightarrow> distinct rs \<and> separated (set rs)"
  by (simp add: validateRoleCombination_def Let_def length_setOrder_eq pairErrors_Nil_iff)

lemma foldl_higherRole:
  "foldl higherRole r rs \<in> insert r (set rs) \<and>
   (\<forall>q\<in>insert r (set rs). getRolePriority q \<le> getRolePriority (foldl higherRole r rs))"
proof (induction rs arbitrary: r)
  case (Cons a rs)
  from Cons.IH [of "higherRole r a"] show ?case
    by (auto simp: higherRole_def split: if_splits)
qed simp

lemma getHighestPriorityRole_max:
  assumes "rs \<noteq> []"
  shows "getHighestPriorityRole rs \<in> set rs \<and>
    (\<forall>q\<in>set rs. getRolePriority q \<le> getRolePriority (getHighestPriorityRole rs))"
  using assms foldl_higherRole by (cases rs) (simp_all del: foldl_Cons)

end
