(* ===== verification/Users.thy ===== *)
theory Users
  imports Roles Balances
begin

text \<open>
  The identity tables and the services that edit them, authentication apart: the \<open>User\<close> entity with
  its lifecycle hook, \<open>user/user.service.ts\<close>, the two role management services and the suspension of
  accounts in \<open>identity/admin\<close>, the role and permission catalogues.

  \<open>saveUser\<close> is \<open>userRepo.save\<close>: the hook \<open>validateRoleSeparation\<close> runs first and may throw, then the
  unique index on \<open>email\<close> is checked, then the row is written. The entity's \<open>updatedAt\<close> and profile
  columns nobody computes with (\<open>avatarUrl\<close>, the trading statistics) are left out.
\<close>

section \<open>Tables\<close>

datatype AccountStatus = ACTIVE | INACTIVE | SUSPENDED | LOCKED

record User =
  u_id :: uuid
  u_authId :: "uuid option"
  u_username :: string
  u_email :: string
  u_firstName :: "string option"
  u_lastName :: "string option"
  u_phoneNumber :: "string option"
  u_role :: UserRole
  u_roles :: "UserRole list"
  u_status :: AccountStatus
  u_isSuspended :: bool
  u_suspendedAt :: "timestamp option"
  u_suspensionReason :: "string option"
  u_suspensionExpiresAt :: "timestamp option"
  u_createdAt :: timestamp

record Auth =
  au_id :: uuid
  au_staffId :: "string option"
  au_email :: string
  au_passwordHash :: string
  au_status :: AccountStatus
  au_totpSecret :: "string option"
  au_is2FAEnabled :: bool
  au_phoneNumber :: "string option"
  au_smsCode :: "string option"
  au_smsCodeExpiry :: "timestamp option"
  au_failedLoginAttempts :: nat
  au_lockedUntil :: "timestamp option"
  au_lastLoginAt :: "timestamp option"
  au_lastLoginIp :: "string option"
  au_activationToken :: "uuid option"
  au_activationTokenExpiry :: "timestamp option"
  au_passwordResetToken :: "uuid option"
  au_passwordResetExpiry :: "timestamp option"
  au_refreshTokenHashes :: "string list option"
  au_correlationId :: "string option"

record Session =
  se_id :: uuid
  se_authId :: uuid
  se_sessionToken :: uuid
  se_deviceInfo :: "string option"
  se_ipAddress :: "string option"
  se_userAgent :: "string option"
  se_revoked :: bool
  se_expiresAt :: "timestamp option"
  se_createdAt :: timestamp
  se_lastActive :: timestamp

record Permission =
  pm_id :: string
  pm_resource :: string
  pm_action :: string
  pm_slug :: string
  pm_description :: string
  pm_isActive :: bool

text \<open>The many-to-many relation to permissions is the list of their ids.\<close>

record RoleEntity =
  re_id :: uuid
  re_name :: UserRole
  re_description :: "string option"
  re_priority :: int
  re_isActive :: bool
  re_inheritsFrom :: "UserRole list"
  re_permissions :: "string list"

text \<open>What the services report: audit entries and domain events, oldest first.\<close>

datatype identity_event =
    UserRegistered uuid uuid
  | UserLoggedIn uuid uuid
  | UserLoggedOut uuid "uuid option"
  | PasswordChanged uuid
  | PasswordResetRequested uuid uuid
  | AccountLocked uuid timestamp
  | ProfileCreated uuid
  | ProfileUpdated uuid
  | StatusChanged uuid AccountStatus AccountStatus
  | RolesAssignedAudit string uuid "UserRole list" "UserRole list" "UserRole list"
  | RoleAssignedEvent uuid "UserRole list" string
  | RolesRevokedAudit string uuid "UserRole list" "UserRole list" "UserRole list"
  | RoleRevokedEvent uuid "UserRole list" string
  | RoleAssignedEntry uuid uuid UserRole "UserRole list"
  | RoleRevokedEntry uuid uuid UserRole "UserRole list"
  | UserSuspendedAudit string uuid string "timestamp option"
  | UserSuspendedEvent uuid string string
  | UserActivatedAudit string uuid
  | UserActivatedEvent uuid string
  | UserSuspendedEntry uuid uuid string
  | UserUnsuspendedEntry uuid uuid
  | PermissionGrantedAudit string string
  | PermissionRevokedAudit string string
  | PermissionRevokedEvent string string string

record identity_db =
  idb_users :: "User list"
  idb_auths :: "Auth list"
  idb_sessions :: "Session list"
  idb_roles :: "RoleEntity list"
  idb_permissions :: "Permission list"
  idb_events :: "identity_event list"

definition emit :: "identity_event list \<Rightarrow> identity_db \<Rightarrow> identity_db" where
  "emit es db = db\<lparr>idb_events := idb_events db @ es\<rparr>"

lemma emit_simps [simp]:
  "idb_users (emit es db) = idb_users db" "idb_auths (emit es db) = idb_auths db"
  "idb_sessions (emit es db) = idb_sessions db" "idb_roles (emit es db) = idb_roles db"
  "idb_permissions (emit es db) = idb_permissions db"
  by (simp_all add: emit_def)

section \<open>The \<open>User\<close> entity\<close>

text \<open>The hook that runs before every insert and update of a user row.\<close>

definition validateRoleSeparation :: "User \<Rightarrow> User result" where
  "validateRoleSeparation u =
     (let normalizedRoles = normalizeRoleValues
            (if u_roles u \<noteq> [] then stringRoles (map roleName (u_roles u))
             else RoleValue (RoleText (roleName (u_role u))))
      in rbind (assertNoGovernanceKycRoleConflict (stringRoles normalizedRoles)) (\<lambda>_.
           Inr (u\<lparr>u_roles := List.map_filter parseRole normalizedRoles\<rparr>)))"

abbreviation findUser :: "uuid \<Rightarrow> identity_db \<Rightarrow> User option" where
  "findUser i db \<equiv> row_of u_id i (idb_users db)"

definition saveUser :: "User \<Rightarrow> identity_db \<Rightarrow> (User \<times> identity_db) result" where
  "saveUser u db =
     rbind (validateRoleSeparation u) (\<lambda>v.
       if list_ex (\<lambda>x. u_email x = u_email v \<and> u_id x \<noteq> u_id v) (idb_users db)
       then Inl (JsError ''duplicate key value violates unique constraint'')
       else Inr (v, db\<lparr>idb_users := save_row u_id v (idb_users db)\<rparr>))"

section \<open>\<open>UserService\<close>\<close>

definition userFindAll :: "identity_db \<Rightarrow> User list" where
  "userFindAll db = sort_key (\<lambda>u. - u_createdAt u) (idb_users db)"

definition userFindOne :: "uuid \<Rightarrow> identity_db \<Rightarrow> User result" where
  "userFindOne i db =
     (case findUser i db of None \<Rightarrow> Inl (NotFoundException ''User not found'') | Some u \<Rightarrow> Inr u)"

definition findByEmail :: "string \<Rightarrow> identity_db \<Rightarrow> User option" where
  "findByEmail email db = find (\<lambda>u. u_email u = email) (idb_users db)"

text \<open>A single role stands for the list of it.\<close>

definition validateRoleAssignment :: "UserRole list \<Rightarrow> UserRole list result" where
  "validateRoleAssignment roles =
     (let normalizedRoles = normalizeRoleValues (stringRoles (map roleName roles))
      in if length normalizedRoles = 0
         then Inl (BadRequestException ''At least one role must be assigned.'')
         else case assertNoGovernanceKycRoleConflict (stringRoles normalizedRoles) of
                Inl e \<Rightarrow> Inl (BadRequestException ''Governance and KYC roles are mutually exclusive.'')
              | Inr _ \<Rightarrow> Inr (List.map_filter parseRole normalizedRoles))"

record CreateUserDto =
  cu_username :: string
  cu_email :: string
  cu_role :: "UserRole option"
  cu_roles :: "UserRole list option"
  cu_firstName :: "string option"
  cu_lastName :: "string option"

definition createUser :: "CreateUserDto \<Rightarrow> uuid \<Rightarrow> timestamp \<Rightarrow> identity_db \<Rightarrow> (User \<times> identity_db) result" where
  "createUser dto newId now db =
     (if findByEmail (cu_email dto) db \<noteq> None
      then Inl (ConflictException ''User with this email already exists'')
      else rbind (validateRoleAssignment
              (case cu_roles dto of Some rs \<Rightarrow> rs
               | None \<Rightarrow> [case cu_role dto of Some r \<Rightarrow> r | None \<Rightarrow> USER])) (\<lambda>roles.
        rbind (saveUser
            \<lparr>u_id = newId, u_authId = None, u_username = cu_username dto, u_email = cu_email dto,
             u_firstName = cu_firstName dto, u_lastName = cu_lastName dto, u_phoneNumber = None,
             u_role = hd roles, u_roles = roles, u_status = INACTIVE, u_isSuspended = False,
             u_suspendedAt = None, u_suspensionReason = None, u_suspensionExpiresAt = None,
             u_createdAt = now\<rparr> db) (\<lambda>(saved, db').
          Inr (saved, emit [ProfileCreated (u_id saved)] db'))))"

record UpdateUserDto =
  uu_username :: "string option"
  uu_email :: "string option"
  uu_firstName :: "string option"
  uu_lastName :: "string option"
  uu_phoneNumber :: "string option"
  uu_role :: "UserRole option"
  uu_roles :: "UserRole list option"

definition dtoOr :: "'a option \<Rightarrow> 'a \<Rightarrow> 'a" where
  "dtoOr new old = (case new of Some x \<Rightarrow> x | None \<Rightarrow> old)"

text \<open>\<open>Object.assign(user, dto)\<close>: the fields the request has replace those of the user.\<close>

definition assignDto :: "UpdateUserDto \<Rightarrow> User \<Rightarrow> User" where
  "assignDto dto u =
     u\<lparr>u_username := dtoOr (uu_username dto) (u_username u),
       u_email := dtoOr (uu_email dto) (u_email u),
       u_firstName := (if uu_firstName dto = None then u_firstName u else uu_firstName dto),
       u_lastName := (if uu_lastName dto = None then u_lastName u else uu_lastName dto),
       u_phoneNumber := (if uu_phoneNumber dto = None then u_phoneNumber u else uu_phoneNumber dto),
       u_role := dtoOr (uu_role dto) (u_role u),
       u_roles := dtoOr (uu_roles dto) (u_roles u)\<rparr>"

definition updateUser :: "uuid \<Rightarrow> UpdateUserDto \<Rightarrow> identity_db \<Rightarrow> (User \<times> identity_db) result" where
  "updateUser i dto db =
     rbind (userFindOne i db) (\<lambda>user.
       rbind (if uu_roles dto \<noteq> None \<or> uu_role dto \<noteq> None
              then rbind (validateRoleAssignment
                      (case uu_roles dto of Some rs \<Rightarrow> rs
                       | None \<Rightarrow> (case uu_role dto of Some r \<Rightarrow> [r] | None \<Rightarrow> u_roles user))) (\<lambda>validatedRoles.
                     Inr (dto\<lparr>uu_roles := Some validatedRoles, uu_role := Some (hd validatedRoles)\<rparr>))
              else Inr dto) (\<lambda>dto'.
         rbind (saveUser (assignDto dto' user) db) (\<lambda>(saved, db').
           Inr (saved, emit [ProfileUpdated (u_id saved)] db'))))"

definition updateUserStatus :: "uuid \<Rightarrow> AccountStatus \<Rightarrow> identity_db \<Rightarrow> (User \<times> identity_db) result" where
  "updateUserStatus i status db =
     rbind (userFindOne i db) (\<lambda>user.
       let previousStatus = u_status user
       in if previousStatus = status then Inl (BadRequestException ''User already has this status'')
          else rbind (saveUser (user\<lparr>u_status := status\<rparr>) db) (\<lambda>(saved, db').
            let db'' = (case u_authId saved of
                  None \<Rightarrow> db'
                | Some a \<Rightarrow> db'\<lparr>idb_auths :=
                    map (\<lambda>x. if au_id x = a then x\<lparr>au_status := status\<rparr> else x) (idb_auths db')\<rparr>)
            in Inr (saved, emit [StatusChanged (u_id saved) previousStatus status] db'')))"

definition activateUserStatus :: "uuid \<Rightarrow> identity_db \<Rightarrow> (User \<times> identity_db) result" where
  "activateUserStatus i db = updateUserStatus i ACTIVE db"

definition suspendUserStatus :: "uuid \<Rightarrow> identity_db \<Rightarrow> (User \<times> identity_db) result" where
  "suspendUserStatus i db = updateUserStatus i SUSPENDED db"

definition deactivateUserStatus :: "uuid \<Rightarrow> identity_db \<Rightarrow> (User \<times> identity_db) result" where
  "deactivateUserStatus i db = updateUserStatus i INACTIVE db"

definition assignUserRoles :: "uuid \<Rightarrow> UserRole list \<Rightarrow> identity_db \<Rightarrow> (User \<times> identity_db) result" where
  "assignUserRoles userId roles db =
     rbind (validateRoleAssignment roles) (\<lambda>normalizedRoles.
       rbind (userFindOne userId db) (\<lambda>user.
         saveUser (user\<lparr>u_roles := normalizedRoles, u_role := hd normalizedRoles\<rparr>) db))"

section \<open>\<open>RoleManagementService\<close> of \<open>identity/roles\<close>\<close>

abbreviation findRole :: "UserRole \<Rightarrow> identity_db \<Rightarrow> RoleEntity option" where
  "findRole name db \<equiv> row_of re_name name (idb_roles db)"

definition saveRole :: "RoleEntity \<Rightarrow> identity_db \<Rightarrow> identity_db" where
  "saveRole r db = db\<lparr>idb_roles := save_row re_name r (idb_roles db)\<rparr>"

definition seedRole :: "UserRole \<Rightarrow> identity_db \<Rightarrow> identity_db" where
  "seedRole role db =
     (if findRole role db \<noteq> None then db
      else saveRole \<lparr>re_id = unusedId (map re_id (idb_roles db)), re_name = role,
        re_description = Some (md_description (ROLE_METADATA role)),
        re_priority = ROLE_PRIORITY role, re_isActive = True,
        re_inheritsFrom = ROLE_HIERARCHY role, re_permissions = []\<rparr> db)"

definition seedDefaultRoles :: "identity_db \<Rightarrow> identity_db" where
  "seedDefaultRoles db = fold seedRole ALL_ROLES db"

definition rolesFindAll :: "identity_db \<Rightarrow> RoleEntity list" where
  "rolesFindAll db = sort_key (\<lambda>r. - re_priority r) (idb_roles db)"

definition roleFindOne :: "UserRole \<Rightarrow> identity_db \<Rightarrow> RoleEntity result" where
  "roleFindOne name db =
     (case findRole name db of None \<Rightarrow> Inl (NotFoundException ''Role not found'') | Some r \<Rightarrow> Inr r)"

record CreateRoleDto =
  cr_name :: UserRole
  cr_description :: "string option"
  cr_priority :: "int option"
  cr_inheritsFrom :: "UserRole list option"
  cr_permissionSlugs :: "string list option"

text \<open>\<open>findByIds\<close> selects by primary key, although it is given slugs.\<close>

definition createRole :: "CreateRoleDto \<Rightarrow> uuid \<Rightarrow> identity_db \<Rightarrow> (RoleEntity \<times> identity_db) result" where
  "createRole dto newId db =
     (if findRole (cr_name dto) db \<noteq> None then Inl (ConflictException ''Role already exists'')
      else let permissions =
             (case cr_permissionSlugs dto of None \<Rightarrow> []
              | Some slugs \<Rightarrow> filter (\<lambda>p. pm_id p \<in> set slugs) (idb_permissions db));
           role = \<lparr>re_id = newId, re_name = cr_name dto, re_description = cr_description dto,
             re_priority = dtoOr (cr_priority dto) 0, re_isActive = True,
             re_inheritsFrom = dtoOr (cr_inheritsFrom dto) [], re_permissions = map pm_id permissions\<rparr>
       in Inr (role, saveRole role db))"

text \<open>The permissions the relation loads with a role.\<close>

definition rolePermissions :: "RoleEntity \<Rightarrow> identity_db \<Rightarrow> Permission list" where
  "rolePermissions r db = List.map_filter (\<lambda>i. row_of pm_id i (idb_permissions db)) (re_permissions r)"

definition assignPermissionsToRole ::
  "UserRole \<Rightarrow> string list \<Rightarrow> identity_db \<Rightarrow> (RoleEntity \<times> identity_db) result" where
  "assignPermissionsToRole name permissionSlugs db =
     rbind (roleFindOne name db) (\<lambda>role.
       let permissions = filter (\<lambda>p. pm_slug p \<in> set permissionSlugs) (idb_permissions db);
           missing = filter (\<lambda>slug. find (\<lambda>p. pm_slug p = slug) permissions = None) permissionSlugs
       in if missing \<noteq> [] then Inl (NotFoundException ''Permissions not found'')
          else let existing = rolePermissions role db;
                   existingSlugs = map pm_slug existing;
                   newPerms = filter (\<lambda>p. pm_slug p \<notin> set existingSlugs) permissions;
                   role' = role\<lparr>re_permissions := map pm_id (existing @ newPerms)\<rparr>
               in Inr (role', saveRole role' db))"

definition revokePermissionsFromRole ::
  "UserRole \<Rightarrow> string list \<Rightarrow> identity_db \<Rightarrow> (RoleEntity \<times> identity_db) result" where
  "revokePermissionsFromRole name permissionSlugs db =
     rbind (roleFindOne name db) (\<lambda>role.
       let role' = role\<lparr>re_permissions :=
             map pm_id (filter (\<lambda>p. pm_slug p \<notin> set permissionSlugs) (rolePermissions role db))\<rparr>
       in Inr (role', saveRole role' db))"

definition assignRolesToUser ::
  "uuid \<Rightarrow> UserRole list \<Rightarrow> string \<Rightarrow> identity_db \<Rightarrow> (User \<times> identity_db) result" where
  "assignRolesToUser userId roles actorId db =
     (case findUser userId db of
        None \<Rightarrow> Inl (NotFoundException ''User not found'')
      | Some user \<Rightarrow>
          if \<not> fst (validateRoleCombination (u_roles user @ roles))
          then Inl (BadRequestException ''invalid role combination'')
          else let before = u_roles user;
                   combinedRoles = setOrder (u_roles user @ roles);
                   user' = user\<lparr>u_roles := combinedRoles, u_role := getHighestPriorityRole combinedRoles\<rparr>
               in rbind (saveUser user' db) (\<lambda>(savedUser, db').
                    Inr (savedUser, emit [RolesAssignedAudit actorId userId before (u_roles savedUser) roles,
                      RoleAssignedEvent userId roles actorId] db')))"

definition revokeRolesFromUser ::
  "uuid \<Rightarrow> UserRole list \<Rightarrow> string \<Rightarrow> identity_db \<Rightarrow> (User \<times> identity_db) result" where
  "revokeRolesFromUser userId roles actorId db =
     (case findUser userId db of
        None \<Rightarrow> Inl (NotFoundException ''User not found'')
      | Some user \<Rightarrow>
          let before = u_roles user;
              left = filter (\<lambda>r. r \<notin> set roles) (u_roles user);
              kept = (if length left = 0 then [USER] else left);
              user' = user\<lparr>u_roles := kept, u_role := getHighestPriorityRole kept\<rparr>
          in rbind (saveUser user' db) (\<lambda>(savedUser, db').
               Inr (savedUser, emit [RolesRevokedAudit actorId userId before (u_roles savedUser) roles,
                 RoleRevokedEvent userId roles actorId] db')))"

record user_roles_view =
  ur_roles :: "UserRole list"
  ur_primaryRole :: UserRole
  ur_permissions :: "string list"

definition getUserRolesView :: "uuid \<Rightarrow> identity_db \<Rightarrow> user_roles_view result" where
  "getUserRolesView userId db =
     (case findUser userId db of
        None \<Rightarrow> Inl (NotFoundException ''User not found'')
      | Some user \<Rightarrow> Inr \<lparr>ur_roles = u_roles user,
          ur_primaryRole = rc_primaryRole (createRoleContext (u_roles user)),
          ur_permissions = getAllUserPermissions (u_roles user)\<rparr>)"

section \<open>\<open>RoleManagementService\<close> of \<open>identity/admin\<close>\<close>

text \<open>The acting user: its id and roles.\<close>

type_synonym actor = "uuid \<times> UserRole list"

definition assignRole ::
  "uuid \<Rightarrow> UserRole \<Rightarrow> actor \<Rightarrow> identity_db \<Rightarrow> (User \<times> identity_db) result" where
  "assignRole userId newRole assignedBy db =
     (case findUser userId db of
        None \<Rightarrow> Inl (NotFoundException ''User not found'')
      | Some user \<Rightarrow>
          if \<not> hasPermission (snd assignedBy) ''users.write''
          then Inl (ForbiddenException ''Insufficient permissions to assign roles'')
          else if list_ex (\<lambda>existingRole. \<not> areRolesCompatible existingRole newRole) (u_roles user)
          then Inl (BadRequestException ''Role is incompatible with existing role'')
          else if newRole \<in> set (u_roles user) then Inr (user, db)
          else rbind (saveUser (user\<lparr>u_roles := u_roles user @ [newRole]\<rparr>) db) (\<lambda>(saved, db').
            Inr (saved, emit [RoleAssignedEntry (fst assignedBy) userId newRole (u_roles saved)] db')))"

definition revokeRole ::
  "uuid \<Rightarrow> UserRole \<Rightarrow> actor \<Rightarrow> identity_db \<Rightarrow> (User \<times> identity_db) result" where
  "revokeRole userId roleToRevoke revokedBy db =
     (case findUser userId db of
        None \<Rightarrow> Inl (NotFoundException ''User not found'')
      | Some user \<Rightarrow>
          if \<not> hasPermission (snd revokedBy) ''users.write''
          then Inl (ForbiddenException ''Insufficient permissions to revoke roles'')
          else if roleToRevoke \<notin> set (u_roles user)
          then Inl (BadRequestException ''User does not have role'')
          else if length (u_roles user) = 1
          then Inl (BadRequestException ''Cannot revoke the only role of the user'')
          else rbind (saveUser (user\<lparr>u_roles := remove1 roleToRevoke (u_roles user)\<rparr>) db) (\<lambda>(saved, db').
            Inr (saved, emit [RoleRevokedEntry (fst revokedBy) userId roleToRevoke (u_roles saved)] db')))"

definition getUserRoles :: "uuid \<Rightarrow> identity_db \<Rightarrow> UserRole list result" where
  "getUserRoles userId db =
     (case findUser userId db of
        None \<Rightarrow> Inl (NotFoundException ''User not found'') | Some user \<Rightarrow> Inr (u_roles user))"

definition suspendUserByRole ::
  "uuid \<Rightarrow> actor \<Rightarrow> string \<Rightarrow> timestamp \<Rightarrow> identity_db \<Rightarrow> (User \<times> identity_db) result" where
  "suspendUserByRole userId suspendedBy reason now db =
     (case findUser userId db of
        None \<Rightarrow> Inl (NotFoundException ''User not found'')
      | Some user \<Rightarrow>
          if \<not> hasPermission (snd suspendedBy) ''users.write''
          then Inl (ForbiddenException ''Insufficient permissions to suspend users'')
          else rbind (saveUser (user\<lparr>u_isSuspended := True, u_suspensionReason := Some reason,
              u_suspendedAt := Some now\<rparr>) db) (\<lambda>(saved, db').
            Inr (saved, emit [UserSuspendedEntry (fst suspendedBy) userId reason] db')))"

definition unsuspendUserByRole ::
  "uuid \<Rightarrow> actor \<Rightarrow> identity_db \<Rightarrow> (User \<times> identity_db) result" where
  "unsuspendUserByRole userId unsuspendedBy db =
     (case findUser userId db of
        None \<Rightarrow> Inl (NotFoundException ''User not found'')
      | Some user \<Rightarrow>
          if \<not> hasPermission (snd unsuspendedBy) ''users.write''
          then Inl (ForbiddenException ''Insufficient permissions to unsuspend users'')
          else rbind (saveUser (user\<lparr>u_isSuspended := False, u_suspensionReason := None,
              u_suspendedAt := None\<rparr>) db) (\<lambda>(saved, db').
            Inr (saved, emit [UserUnsuspendedEntry (fst unsuspendedBy) userId] db')))"

section \<open>\<open>IdentityAdminService\<close>\<close>

definition suspendUser ::
  "uuid \<Rightarrow> string \<Rightarrow> int option \<Rightarrow> string \<Rightarrow> timestamp \<Rightarrow> identity_db \<Rightarrow> (User \<times> identity_db) result" where
  "suspendUser userId reason durationHours actorId now db =
     (case findUser userId db of
        None \<Rightarrow> Inl (NotFoundException ''User not found'')
      | Some user \<Rightarrow>
          if u_isSuspended user then Inl (BadRequestException ''User is already suspended'')
          else if SUPER_ADMIN \<in> set (u_roles user)
          then Inl (BadRequestException ''SUPER_ADMIN accounts cannot be suspended'')
          else let expires = (case durationHours of None \<Rightarrow> None
                 | Some h \<Rightarrow> if h = 0 then None else Some (now + h * 3600000))
               in rbind (saveUser (user\<lparr>u_isSuspended := True, u_suspendedAt := Some now,
                    u_suspensionReason := Some reason, u_suspensionExpiresAt := expires\<rparr>) db) (\<lambda>(saved, db').
                  Inr (saved, emit [UserSuspendedAudit actorId userId reason expires,
                    UserSuspendedEvent userId reason actorId] db')))"

definition activateUser :: "uuid \<Rightarrow> string \<Rightarrow> identity_db \<Rightarrow> (User \<times> identity_db) result" where
  "activateUser userId actorId db =
     (case findUser userId db of
        None \<Rightarrow> Inl (NotFoundException ''User not found'')
      | Some user \<Rightarrow>
          if \<not> u_isSuspended user then Inl (BadRequestException ''User is not suspended'')
          else rbind (saveUser (user\<lparr>u_isSuspended := False, u_suspendedAt := None,
              u_suspensionReason := None, u_suspensionExpiresAt := None\<rparr>) db) (\<lambda>(saved, db').
            Inr (saved, emit [UserActivatedAudit actorId userId, UserActivatedEvent userId actorId] db')))"

text \<open>
  SQL \<open>LIKE\<close>: a percent sign stands for any text, an underscore for one character, and a
  backslash (code 92) for the character after it.
\<close>

fun sqlLike :: "string \<Rightarrow> string \<Rightarrow> bool" where
  "sqlLike [] s = (s = [])"
| "sqlLike (p # ps) [] = (p = CHR ''%'' \<and> sqlLike ps [])"
| "sqlLike (p # ps) (c # cs) =
     (if p = CHR ''%'' then sqlLike ps (c # cs) \<or> sqlLike (p # ps) cs
      else if p = CHR 0x5C \<and> ps \<noteq> [] then hd ps = c \<and> sqlLike (tl ps) cs
      else (p = CHR ''_'' \<or> p = c) \<and> sqlLike ps cs)"

text \<open>The role column is the comma-separated text of the roles.\<close>

definition rolesColumn :: "User \<Rightarrow> string" where
  "rolesColumn u = joinComma (map roleName (u_roles u))"

definition countByRole :: "UserRole \<Rightarrow> identity_db \<Rightarrow> nat" where
  "countByRole role db =
     length (filter (\<lambda>u. sqlLike (''%'' @ roleName role @ ''%'') (rolesColumn u)) (idb_users db))"

record admin_stats =
  as_totalUsers :: nat
  as_suspendedUsers :: nat
  as_usersByRole :: "UserRole \<Rightarrow> nat"

definition getAdminDashboardStats :: "identity_db \<Rightarrow> admin_stats" where
  "getAdminDashboardStats db =
     \<lparr>as_totalUsers = length (idb_users db),
      as_suspendedUsers = length (filter u_isSuspended (idb_users db)),
      as_usersByRole = (\<lambda>role. countByRole role db)\<rparr>"

record UserQueryDto =
  uq_role :: "UserRole option"
  uq_isSuspended :: "bool option"
  uq_search :: "string option"
  uq_page :: nat
  uq_limit :: nat

record user_page =
  up_data :: "User list"
  up_total :: nat
  up_page :: nat
  up_limit :: nat
  up_totalPages :: nat

definition sqlILike :: "string \<Rightarrow> string \<Rightarrow> bool" where
  "sqlILike pat s = sqlLike (lowerCase pat) (lowerCase s)"

definition userMatches :: "UserQueryDto \<Rightarrow> User \<Rightarrow> bool" where
  "userMatches q u =
     ((case uq_role q of None \<Rightarrow> True
       | Some r \<Rightarrow> sqlLike (''%'' @ roleName r @ ''%'') (rolesColumn u)) \<and>
      (case uq_isSuspended q of None \<Rightarrow> True | Some b \<Rightarrow> u_isSuspended u = b) \<and>
      (case uq_search q of None \<Rightarrow> True | Some t \<Rightarrow> t = [] \<or>
         sqlILike (''%'' @ t @ ''%'') (u_email u) \<or> sqlILike (''%'' @ t @ ''%'') (u_username u)))"

definition listUsers :: "UserQueryDto \<Rightarrow> identity_db \<Rightarrow> user_page" where
  "listUsers q db =
     (let matching = sort_key (\<lambda>u. - u_createdAt u) (filter (userMatches q) (idb_users db))
      in \<lparr>up_data = take (uq_limit q) (drop ((uq_page q - 1) * uq_limit q) matching),
          up_total = length matching, up_page = uq_page q, up_limit = uq_limit q,
          up_totalPages = (length matching + uq_limit q - 1) div uq_limit q\<rparr>)"

section \<open>\<open>PermissionManagementService\<close>\<close>

record PermissionDefinition =
  pd_resource :: string
  pd_action :: string
  pd_slug :: string
  pd_description :: string

abbreviation permissionDef :: "string \<Rightarrow> string \<Rightarrow> string \<Rightarrow> string \<Rightarrow> PermissionDefinition" where
  "permissionDef resource action slug description \<equiv>
     \<lparr>pd_resource = resource, pd_action = action, pd_slug = slug, pd_description = description\<rparr>"

definition PERMISSION_REGISTRY :: "PermissionDefinition list" where
  "PERMISSION_REGISTRY =
     [permissionDef ''users'' ''read'' ''users.read''
        ''Read user profiles and data'',
      permissionDef ''users'' ''write'' ''users.write''
        ''Create and update user profiles'',
      permissionDef ''users'' ''delete'' ''users.delete''
        ''Delete user accounts'',
      permissionDef ''users'' ''manage'' ''users.manage''
        ''Full user management access'',
      permissionDef ''accounts'' ''read'' ''accounts.read''
        ''Read account balances and details'',
      permissionDef ''accounts'' ''write'' ''accounts.write''
        ''Modify account data'',
      permissionDef ''accounts'' ''suspend'' ''accounts.suspend''
        ''Suspend user accounts'',
      permissionDef ''accounts'' ''manage'' ''accounts.manage''
        ''Full account management access'',
      permissionDef ''trades'' ''read'' ''trades.read''
        ''View trade history and positions'',
      permissionDef ''trades'' ''write'' ''trades.write''
        ''Create and modify trades'',
      permissionDef ''trades'' ''manage'' ''trades.manage''
        ''Full trade management access'',
      permissionDef ''admin'' ''access'' ''admin.access''
        ''Access admin panel'',
      permissionDef ''admin'' ''manage'' ''admin.manage''
        ''Full admin management access'',
      permissionDef ''roles'' ''read'' ''roles.read''
        ''View role definitions'',
      permissionDef ''roles'' ''write'' ''roles.write''
        ''Create and modify roles'',
      permissionDef ''roles'' ''assign'' ''roles.assign''
        ''Assign roles to users'',
      permissionDef ''roles'' ''revoke'' ''roles.revoke''
        ''Revoke roles from users'',
      permissionDef ''roles'' ''manage'' ''roles.manage''
        ''Full role management access'',
      permissionDef ''permissions'' ''read'' ''permissions.read''
        ''View permission definitions'',
      permissionDef ''permissions'' ''assign'' ''permissions.assign''
        ''Assign permissions to roles'',
      permissionDef ''permissions'' ''manage'' ''permissions.manage''
        ''Full permission management access'',
      permissionDef ''audit'' ''read'' ''audit.read''
        ''Read audit logs'',
      permissionDef ''audit'' ''export'' ''audit.export''
        ''Export audit logs'',
      permissionDef ''audit'' ''manage'' ''audit.manage''
        ''Full audit log access'',
      permissionDef ''compliance'' ''read'' ''compliance.read''
        ''View compliance records'',
      permissionDef ''compliance'' ''write'' ''compliance.write''
        ''Create compliance records'',
      permissionDef ''compliance'' ''manage'' ''compliance.manage''
        ''Full compliance management'',
      permissionDef ''kyc'' ''read'' ''kyc.read''
        ''View KYC submissions'',
      permissionDef ''kyc'' ''review'' ''kyc.review''
        ''Review KYC documents'',
      permissionDef ''kyc'' ''manage'' ''kyc.manage''
        ''Full KYC management access'']"

definition savePermission :: "Permission \<Rightarrow> identity_db \<Rightarrow> identity_db" where
  "savePermission p db = db\<lparr>idb_permissions := save_row pm_slug p (idb_permissions db)\<rparr>"

definition newPermission :: "PermissionDefinition \<Rightarrow> string \<Rightarrow> Permission" where
  "newPermission d newId =
     \<lparr>pm_id = newId, pm_resource = pd_resource d, pm_action = pd_action d, pm_slug = pd_slug d,
      pm_description = pd_description d, pm_isActive = True\<rparr>"

definition seedPermission :: "(string \<Rightarrow> string) \<Rightarrow> PermissionDefinition \<Rightarrow> identity_db \<Rightarrow> identity_db" where
  "seedPermission uuidFor d db =
     (if row_of pm_slug (pd_slug d) (idb_permissions db) \<noteq> None then db
      else savePermission (newPermission d (uuidFor (pd_slug d))) db)"

definition seedPermissions :: "(string \<Rightarrow> string) \<Rightarrow> identity_db \<Rightarrow> identity_db" where
  "seedPermissions uuidFor db = fold (seedPermission uuidFor) PERMISSION_REGISTRY db"

definition findBySlug :: "string \<Rightarrow> identity_db \<Rightarrow> Permission result" where
  "findBySlug slug db =
     (case row_of pm_slug slug (idb_permissions db) of
        None \<Rightarrow> Inl (NotFoundException ''Permission not found'') | Some p \<Rightarrow> Inr p)"

definition findBySlugs :: "string list \<Rightarrow> identity_db \<Rightarrow> Permission list" where
  "findBySlugs slugs db =
     filter (\<lambda>p. pm_slug p \<in> set slugs \<and> pm_isActive p) (idb_permissions db)"

definition createPermission ::
  "PermissionDefinition \<Rightarrow> string \<Rightarrow> string \<Rightarrow> identity_db \<Rightarrow> (Permission \<times> identity_db) result" where
  "createPermission d newId actorId db =
     (if row_of pm_slug (pd_slug d) (idb_permissions db) \<noteq> None
      then Inl (ConflictException ''Permission already exists'')
      else let p = newPermission d newId
           in Inr (p, emit [PermissionGrantedAudit actorId (pd_slug d)] (savePermission p db)))"

definition deactivatePermission ::
  "string \<Rightarrow> string \<Rightarrow> identity_db \<Rightarrow> (Permission \<times> identity_db) result" where
  "deactivatePermission slug actorId db =
     rbind (findBySlug slug db) (\<lambda>p.
       let p' = p\<lparr>pm_isActive := False\<rparr>
       in Inr (p', emit [PermissionRevokedAudit actorId slug, PermissionRevokedEvent (pm_id p) slug actorId]
            (savePermission p' db)))"

definition validateSlugs :: "string list \<Rightarrow> string list" where
  "validateSlugs slugs =
     filter (\<lambda>slug. find (\<lambda>p. pd_slug p = slug) PERMISSION_REGISTRY = None) slugs"

section \<open>Portfolio columns\<close>

text \<open>The part of \<open>UserService\<close> that edits the balance table.\<close>

definition emptyBalance :: "uid \<Rightarrow> asset_id \<Rightarrow> UserBalance list \<Rightarrow> UserBalance" where
  "emptyBalance userId assetId t =
     \<lparr>b_id = unusedId (map b_id t), b_userId = userId, b_assetId = assetId, b_balance = 0,
      b_lockedBalance = 0, b_totalTrades = 0, b_cumulativePnL = 0, b_totalTradeVolume = 0,
      b_lastTradeDate = None, b_totalInvested = 0, b_averageBuyPrice = 0\<rparr>"

definition updatePortfolioAfterTrade ::
  "uid \<Rightarrow> asset_id \<Rightarrow> real \<Rightarrow> real \<Rightarrow> timestamp \<Rightarrow> UserBalance list \<Rightarrow> UserBalance list" where
  "updatePortfolioAfterTrade userId assetId tradeValue pnl now t =
     (let b = dtoOr (findBalance userId assetId t) (emptyBalance userId assetId t)
      in saveBalance (b\<lparr>b_totalTrades := b_totalTrades b + 1,
           b_cumulativePnL := b_cumulativePnL b + pnl,
           b_totalTradeVolume := b_totalTradeVolume b + \<bar>tradeValue\<bar>,
           b_lastTradeDate := Some now\<rparr>) t)"

definition updateBalance :: "uid \<Rightarrow> asset_id \<Rightarrow> real \<Rightarrow> UserBalance list \<Rightarrow> UserBalance list" where
  "updateBalance userId assetId amount t =
     (let b = dtoOr (findBalance userId assetId t) (emptyBalance userId assetId t)
      in saveBalance (b\<lparr>b_balance := b_balance b + amount\<rparr>) t)"

record portfolio_stats =
  ps_userId :: uid
  ps_totalTrades :: nat
  ps_cumulativePnL :: real
  ps_totalTradeVolume :: real
  ps_lastTradeDate :: "timestamp option"
  ps_currentBalances :: "(asset_id \<times> real \<times> nat \<times> real) list"

definition laterTrade :: "timestamp option \<Rightarrow> UserBalance \<Rightarrow> timestamp option" where
  "laterTrade latest b =
     (case latest of None \<Rightarrow> b_lastTradeDate b
      | Some l \<Rightarrow> (case b_lastTradeDate b of Some d \<Rightarrow> if d > l then Some d else Some l | None \<Rightarrow> Some l))"

definition getPortfolioStats :: "uid \<Rightarrow> UserBalance list \<Rightarrow> portfolio_stats result" where
  "getPortfolioStats userId t =
     (let bs = filter (\<lambda>b. b_userId b = userId) t
      in if bs = [] then Inl (NotFoundException ''Portfolio not found'')
         else Inr \<lparr>ps_userId = userId, ps_totalTrades = sum_list (map b_totalTrades bs),
           ps_cumulativePnL = sum_list (map b_cumulativePnL bs),
           ps_totalTradeVolume = sum_list (map b_totalTradeVolume bs),
           ps_lastTradeDate = foldl laterTrade None bs,
           ps_currentBalances = map (\<lambda>b. (b_assetId b, b_balance b, b_totalTrades b, b_cumulativePnL b)) bs\<rparr>)"

section \<open>Typed roles through the string checks\<close>

lemma setOrder_map_inj: "inj f \<Longrightarrow> setOrder (map f xs) = map f (setOrder xs)"
  by (induction xs) (auto simp: filter_map o_def inj_eq)

lemma inj_roleName [simp]: "inj roleName"
  by (auto intro: injI)

lemma trim_roleName [simp]: "trim (roleName r) = roleName r"
  by (cases r) (simp_all add: trim_def isBlank_def)

lemma roleName_nonempty [simp]: "roleName r \<noteq> []" "[] \<noteq> roleName r"
  by (cases r; simp)+

lemma map_filter_roleText [simp]: "List.map_filter roleText (map RoleText xs) = xs"
  by (induction xs) (simp_all add: List.map_filter_def)

lemma map_filter_parseRole [simp]: "List.map_filter parseRole (map roleName rs) = rs"
  by (induction rs) (simp_all add: List.map_filter_def)

lemma normalize_roleNames [simp]:
  "normalizeRoleValues (stringRoles (map roleName rs)) = map roleName (setOrder rs)"
proof -
  have "map trim (map roleName rs) = map roleName rs" by simp
  moreover have "filter (\<lambda>r. r \<noteq> []) (map roleName rs) = map roleName rs"
    by (induction rs) simp_all
  ultimately show ?thesis
    by (simp add: normalizeRoleValues_def stringRoles_def setOrder_map_inj del: map_map)
qed

lemma normalize_roleName [simp]:
  "normalizeRoleValues (RoleValue (RoleText (roleName r))) = [roleName r]"
  by (simp add: normalizeRoleValues_def List.map_filter_def)

lemma roleName_mem [simp]: "roleName r \<in> roleName ` R \<longleftrightarrow> r \<in> R"
  by (simp add: inj_image_mem_iff)

lemma hasAnyRole_names:
  "hasAnyRole (stringRoles (map roleName rs)) GOVERNANCE_ROLE_VALUES \<longleftrightarrow> GOVERNANCE_OPERATOR \<in> set rs"
  "hasAnyRole (stringRoles (map roleName rs)) KYC_ROLE_VALUES \<longleftrightarrow>
     KYC_OPERATOR \<in> set rs \<or> KYC_GOVERNANCE \<in> set rs"
  using roleName_mem [of GOVERNANCE_OPERATOR "set rs"] roleName_mem [of KYC_OPERATOR "set rs"]
    roleName_mem [of KYC_GOVERNANCE "set rs"]
  by (simp_all add: hasAnyRole_def GOVERNANCE_ROLE_VALUES_def KYC_ROLE_VALUES_def)

lemma set_setOrder_eq_Nil [simp]: "setOrder xs = [] \<longleftrightarrow> xs = []"
  by (cases xs) simp_all

lemma assertNoConflict_names:
  "assertNoGovernanceKycRoleConflict (stringRoles (map roleName rs)) =
     throw_unless (separated (set rs)) roleSeparationViolation"
  by (simp add: assertNoGovernanceKycRoleConflict_def hasAnyRole_names separated_def)

text \<open>The roles the hook leaves on a user.\<close>

definition effectiveRoles :: "User \<Rightarrow> UserRole list" where
  "effectiveRoles u = (if u_roles u = [] then [u_role u] else setOrder (u_roles u))"

lemma validateRoleSeparation_eq:
  "validateRoleSeparation u =
     (if separated (set (effectiveRoles u)) then Inr (u\<lparr>u_roles := effectiveRoles u\<rparr>)
      else Inl roleSeparationViolation)"
  using assertNoConflict_names [of "[u_role u]"]
  by (auto simp: validateRoleSeparation_def effectiveRoles_def assertNoConflict_names
      map_filter_parseRole [of "[u_role u]", simplified])

lemma validateRoleAssignment_eq:
  "validateRoleAssignment rs =
     (if rs = [] then Inl (BadRequestException ''At least one role must be assigned.'')
      else if separated (set rs) then Inr (setOrder rs)
      else Inl (BadRequestException ''Governance and KYC roles are mutually exclusive.''))"
  by (simp add: validateRoleAssignment_def assertNoConflict_names)

section \<open>Well-formed user tables\<close>

text \<open>
  Ids and addresses are unique, and every user holds a non-empty set of roles that respects the
  separation of duties.
\<close>

definition wf_user :: "User \<Rightarrow> bool" where
  "wf_user u \<longleftrightarrow> u_roles u \<noteq> [] \<and> distinct (u_roles u) \<and> separated (set (u_roles u))"

definition wf_users :: "User list \<Rightarrow> bool" where
  "wf_users t \<longleftrightarrow> keyed u_id t \<and> distinct (map u_email t) \<and> list_all wf_user t"

lemma wf_user_effective: "wf_user u \<Longrightarrow> effectiveRoles u = u_roles u"
  by (simp add: wf_user_def effectiveRoles_def setOrder_distinct)

lemma saveUser_Inr:
  "saveUser u db = Inr (v, db') \<longleftrightarrow>
     separated (set (effectiveRoles u)) \<and> v = u\<lparr>u_roles := effectiveRoles u\<rparr> \<and>
     (\<forall>x\<in>set (idb_users db). u_email x = u_email u \<longrightarrow> u_id x = u_id u) \<and>
     db' = db\<lparr>idb_users := save_row u_id v (idb_users db)\<rparr>"
  by (auto simp: saveUser_def validateRoleSeparation_eq list_ex_iff)

lemma wf_users_saveUser:
  assumes "saveUser u db = Inr (v, db')" and "wf_users (idb_users db)"
  shows "wf_users (idb_users db')" "wf_user v" "findUser i db' = (if i = u_id u then Some v else findUser i db)"
proof -
  from assms(1) have v: "v = u\<lparr>u_roles := effectiveRoles u\<rparr>" and sep: "separated (set (effectiveRoles u))"
    and em: "\<forall>x\<in>set (idb_users db). u_email x = u_email v \<longrightarrow> u_id x = u_id v"
    and db': "idb_users db' = save_row u_id v (idb_users db)"
    by (auto simp: saveUser_Inr)
  have "effectiveRoles u \<noteq> []" "distinct (effectiveRoles u)"
    by (simp_all add: effectiveRoles_def)
  with sep v show *: "wf_user v" by (simp add: wf_user_def)
  show "wf_users (idb_users db')"
    using assms(2) * em by (auto simp: wf_users_def db' keyed_save_row distinct_save_row
        list_all_iff dest!: in_save_rowD)
  show "findUser i db' = (if i = u_id u then Some v else findUser i db)"
    using v by (auto simp: db' row_of_save)
qed

lemma saveUser_frame:
  "saveUser u db = Inr (v, db') \<Longrightarrow>
     idb_auths db' = idb_auths db \<and> idb_sessions db' = idb_sessions db \<and> u_email v = u_email u \<and>
     u_id v = u_id u"
  by (auto simp: saveUser_Inr)

lemma wf_users_lookup: "wf_users t \<Longrightarrow> row_of u_id i t = Some u \<Longrightarrow> wf_user u"
  by (auto simp: wf_users_def list_all_iff dest: row_of_Some_in)

lemma emails_lookup:
  assumes "wf_users (idb_users db)" and "findUser i db = Some u"
  shows "\<forall>x\<in>set (idb_users db). u_email x = u_email u \<longrightarrow> u_id x = u_id u"
  using assms row_of_Some_in [OF assms(2)]
  by (auto simp: wf_users_def distinct_map dest: inj_onD)

text \<open>A save that leaves the address alone succeeds exactly when the roles are separated.\<close>

lemma saveUser_succeeds:
  assumes "wf_users (idb_users db)" and "findUser i db = Some u"
    and "u_id v = u_id u" and "u_email v = u_email u" and "separated (set (effectiveRoles v))"
  shows "saveUser v db = Inr (v\<lparr>u_roles := effectiveRoles v\<rparr>,
    db\<lparr>idb_users := save_row u_id (v\<lparr>u_roles := effectiveRoles v\<rparr>) (idb_users db)\<rparr>)"
  using emails_lookup [OF assms(1,2)] assms(3-5) by (simp add: saveUser_Inr)

lemma saveUser_normal:
  assumes "wf_users (idb_users db)" and "findUser i db = Some u"
    and "u_id v = u_id u" and "u_email v = u_email u" and "wf_user v"
  shows "saveUser v db = Inr (v, db\<lparr>idb_users := save_row u_id v (idb_users db)\<rparr>)"
proof -
  have "effectiveRoles v = u_roles v" and "separated (set (u_roles v))"
    using assms(5) by (simp_all add: wf_user_effective) (simp add: wf_user_def)
  then have "v\<lparr>u_roles := effectiveRoles v\<rparr> = v" and "separated (set (effectiveRoles v))" by simp_all
  then show ?thesis using saveUser_succeeds [OF assms(1-4)] by simp
qed

lemma separated_subset: "separated R \<Longrightarrow> S \<subseteq> R \<Longrightarrow> separated S"
  by (auto simp: separated_def)

section \<open>Requests on the user table\<close>

datatype user_request =
    CreateUser CreateUserDto uuid timestamp
  | UpdateUser uuid UpdateUserDto
  | UpdateUserStatus uuid AccountStatus
  | AssignUserRoles uuid "UserRole list"
  | AssignRolesToUser uuid "UserRole list" string
  | RevokeRolesFromUser uuid "UserRole list" string
  | AssignRole uuid UserRole actor
  | RevokeRole uuid UserRole actor
  | SuspendUserByRole uuid actor string timestamp
  | UnsuspendUserByRole uuid actor
  | SuspendUser uuid string "int option" string timestamp
  | ActivateUser uuid string

fun userRequest :: "user_request \<Rightarrow> identity_db \<Rightarrow> (User \<times> identity_db) result" where
  "userRequest (CreateUser dto newId now) db =
     (if findUser newId db = None then createUser dto newId now db
      else Inl (JsError ''duplicate key value violates unique constraint''))"
| "userRequest (UpdateUser i dto) db = updateUser i dto db"
| "userRequest (UpdateUserStatus i status) db = updateUserStatus i status db"
| "userRequest (AssignUserRoles i roles) db = assignUserRoles i roles db"
| "userRequest (AssignRolesToUser i roles by_id) db = assignRolesToUser i roles by_id db"
| "userRequest (RevokeRolesFromUser i roles by_id) db = revokeRolesFromUser i roles by_id db"
| "userRequest (AssignRole i role a) db = assignRole i role a db"
| "userRequest (RevokeRole i role a) db = revokeRole i role a db"
| "userRequest (SuspendUserByRole i a reason now) db = suspendUserByRole i a reason now db"
| "userRequest (UnsuspendUserByRole i a) db = unsuspendUserByRole i a db"
| "userRequest (SuspendUser i reason hours by_id now) db = suspendUser i reason hours by_id now db"
| "userRequest (ActivateUser i by_id) db = activateUser i by_id db"

lemmas user_request_defs =
  createUser_def updateUser_def updateUserStatus_def assignUserRoles_def assignRolesToUser_def
  revokeRolesFromUser_def assignRole_def revokeRole_def suspendUserByRole_def
  unsuspendUserByRole_def suspendUser_def activateUser_def userFindOne_def

lemma wf_users_request:
  assumes "userRequest r db = Inr (u, db')" and "wf_users (idb_users db)"
  shows "wf_users (idb_users db')"
  using assms
  by (cases r; auto simp: user_request_defs Let_def
      split: if_splits option.splits prod.splits sum.splits; fast intro: wf_users_saveUser(1))

section \<open>Assigning and revoking\<close>

lemma assignRolesToUser_Inr:
  assumes "wf_users (idb_users db)" and "findUser i db = Some u"
    and "distinct (u_roles u @ rs)" and "separated (set (u_roles u @ rs))"
  shows "\<exists>v db'. assignRolesToUser i rs by_id db = Inr (v, db') \<and>
    v = u\<lparr>u_roles := u_roles u @ rs, u_role := getHighestPriorityRole (u_roles u @ rs)\<rparr> \<and>
    findUser i db' = Some v \<and> wf_users (idb_users db')"
proof -
  let ?v = "u\<lparr>u_roles := u_roles u @ rs, u_role := getHighestPriorityRole (u_roles u @ rs)\<rparr>"
  have id: "u_id u = i" using assms(2) row_of_Some_in by fast
  have ne: "u_roles u \<noteq> []" using wf_users_lookup [OF assms(1,2)] by (simp add: wf_user_def)
  then have "wf_user ?v" using assms(3,4) by (simp add: wf_user_def)
  then have "saveUser ?v db = Inr (?v, db\<lparr>idb_users := save_row u_id ?v (idb_users db)\<rparr>)"
    by (intro saveUser_normal [OF assms(1,2)]) simp_all
  moreover from wf_users_saveUser [OF this assms(1)] id
  have "wf_users (save_row u_id ?v (idb_users db))" "row_of u_id i (save_row u_id ?v (idb_users db)) = Some ?v"
    by simp_all
  ultimately show ?thesis
    using assms by (simp add: assignRolesToUser_def validateRoleCombination_iff setOrder_distinct Let_def)
qed

text \<open>
  Revoking the roles just assigned restores the user: when an assignment is accepted for a
  user whose primary role is its highest one, the revocation of the same roles is accepted and
  leaves the user row, roles and primary role included, as it was.
\<close>

theorem assign_then_revoke_restores_user:
  assumes "wf_users (idb_users db)" and "findUser i db = Some u"
    and "u_role u = getHighestPriorityRole (u_roles u)"
    and "assignRolesToUser i rs by_id db = Inr (v, db')"
  shows "\<exists>db''. revokeRolesFromUser i rs by_id db' = Inr (u, db'') \<and> findUser i db'' = Some u"
proof -
  from assms(2,4) have ok: "distinct (u_roles u @ rs)" "separated (set (u_roles u @ rs))"
    by (auto simp: assignRolesToUser_def validateRoleCombination_iff split: if_splits)
  from assignRolesToUser_Inr [OF assms(1,2) ok, of by_id] assms(4)
  have v: "v = u\<lparr>u_roles := u_roles u @ rs, u_role := getHighestPriorityRole (u_roles u @ rs)\<rparr>"
    and f: "findUser i db' = Some v" and wf: "wf_users (idb_users db')" by auto
  have wfu: "wf_user u" using wf_users_lookup [OF assms(1,2)] .
  have id: "u_id u = i" using assms(2) row_of_Some_in by fast
  have left: "filter (\<lambda>r. r \<notin> set rs) (u_roles v) = u_roles u"
    using ok(1) by (auto simp: v filter_id_conv)
  have same: "v\<lparr>u_roles := u_roles u, u_role := u_role u\<rparr> = u" by (simp add: v)
  have "saveUser u db' = Inr (u, db'\<lparr>idb_users := save_row u_id u (idb_users db')\<rparr>)"
    by (rule saveUser_normal [OF wf f]) (simp_all add: v wfu)
  moreover from wf_users_saveUser(3) [OF this wf] id
  have "row_of u_id i (save_row u_id u (idb_users db')) = Some u" by simp
  ultimately show ?thesis
    using f left same wfu assms(3)
    by (simp add: revokeRolesFromUser_def wf_user_def)
qed

definition ex_user :: User where
  "ex_user = \<lparr>u_id = 1, u_authId = Some 4, u_username = ''ann'', u_email = ''ann@x.io'',
     u_firstName = None, u_lastName = None, u_phoneNumber = None, u_role = USER, u_roles = [USER],
     u_status = ACTIVE, u_isSuspended = False, u_suspendedAt = None, u_suspensionReason = None,
     u_suspensionExpiresAt = None, u_createdAt = 0\<rparr>"

definition ex_identity :: identity_db where
  "ex_identity = \<lparr>idb_users = [ex_user], idb_auths = [], idb_sessions = [], idb_roles = [],
     idb_permissions = [], idb_events = []\<rparr>"

lemma ex_identity_wf: "wf_users (idb_users ex_identity)" "findUser 1 ex_identity = Some ex_user"
  by (simp_all add: ex_identity_def ex_user_def wf_users_def keyed_def wf_user_def separated_def)

theorem assign_then_revoke_restores_user_witness:
  "\<exists>v db' db''. assignRolesToUser 1 [TRADER, STAFF] ''admin'' ex_identity = Inr (v, db') \<and>
     u_role v = STAFF \<and>
     revokeRolesFromUser 1 [TRADER, STAFF] ''admin'' db' = Inr (ex_user, db'')"
proof -
  from assignRolesToUser_Inr [OF ex_identity_wf, of "[TRADER, STAFF]" "''admin''"]
  obtain v db' where *: "assignRolesToUser 1 [TRADER, STAFF] ''admin'' ex_identity = Inr (v, db')"
    and v: "v = ex_user\<lparr>u_roles := u_roles ex_user @ [TRADER, STAFF],
      u_role := getHighestPriorityRole (u_roles ex_user @ [TRADER, STAFF])\<rparr>"
    by (auto simp: ex_user_def separated_def)
  have "u_role v = STAFF"
    by (simp add: v ex_user_def higherRole_def getRolePriority_def getRoleMetadata_def metadata_defs)
  moreover have "u_role ex_user = getHighestPriorityRole (u_roles ex_user)"
    by (simp add: ex_user_def)
  ultimately show ?thesis
    using * assign_then_revoke_restores_user [OF ex_identity_wf _ *] by blast
qed

text \<open>
  The admin variant removes a role from the array only: the primary role of the user, which the
  access token carries, stays the revoked one.
\<close>

lemma revoked_role_stays_primary:
  assumes "wf_users (idb_users db)" and "findUser i db = Some u"
    and "u_roles u = [USER, u_role u]" and "separated (set (u_roles u))"
    and "hasPermission (snd a) ''users.write''"
  shows "\<exists>v db'. revokeRole i (u_role u) a db = Inr (v, db') \<and>
    u_roles v = [USER] \<and> u_role v = u_role u"
proof -
  have ne: "u_role u \<noteq> USER" using wf_users_lookup [OF assms(1,2)] assms(3) by (auto simp: wf_user_def)
  let ?v = "u\<lparr>u_roles := [USER]\<rparr>"
  have "saveUser ?v db = Inr (?v, db\<lparr>idb_users := save_row u_id ?v (idb_users db)\<rparr>)"
    by (rule saveUser_normal [OF assms(1,2)]) (simp_all add: wf_user_def separated_def)
  then show ?thesis using assms(2,3,5) ne by (simp add: revokeRole_def)
qed

section \<open>The route that assigns roles\<close>

text \<open>\<open>POST identity/roles/assign\<close>: the guard with the decorators of the route, then the service.\<close>

definition assignRolesRoute ::
  "request_user option \<Rightarrow> uuid \<Rightarrow> UserRole list \<Rightarrow> string \<Rightarrow> identity_db \<Rightarrow> (User \<times> identity_db) result" where
  "assignRolesRoute caller userId roles actorId db =
     rbind (rbacGuard [ADMIN, SUPER_ADMIN] [''roles.assign''] caller) (\<lambda>_.
       assignRolesToUser userId roles actorId db)"

definition userCaller :: "User \<Rightarrow> request_user" where
  "userCaller u = \<lparr>ru_roles = Some (stringRoles (map roleName (u_roles u))),
     ru_role = Some (RoleValue (RoleText (roleName (u_role u))))\<rparr>"

lemma requestRoles_userCaller:
  "wf_user u \<Longrightarrow> requestRoles (userCaller u) = map roleName (u_roles u)"
proof -
  assume wf: "wf_user u"
  then have "\<not> emptyRoles (Some (stringRoles (map roleName (u_roles u))))"
    by (cases "u_roles u") (simp_all add: wf_user_def emptyRoles_def stringRoles_def)
  with wf show ?thesis by (simp add: requestRoles_def userCaller_def wf_user_def setOrder_distinct)
qed

lemma hasRole_iff: "hasRole rs required \<longleftrightarrow> (\<exists>r\<in>set rs. inherits\<^sup>*\<^sup>* r required)"
  by (auto simp: hasRole_def list_ex_iff getInheritedRoles_iff)

lemma adminScan_names:
  "adminScan (map roleName rs) = Inr (\<exists>r\<in>set rs. ''*'' \<in> ownPermissions r)"
  by (induction rs) (auto simp: getRoleMetadata_def ownPermissions_def)

lemma hasPermissionText_names: "hasPermissionText (map roleName rs) p = Inr (hasPermission rs p)"
  by (auto simp: hasPermissionText_def adminScan_names intro: hasPermission_wildcard [OF _ rtranclp.rtrancl_refl])

lemma everyPermission_names:
  "everyPermission (map roleName rs) ps = Inr (\<forall>p\<in>set ps. hasPermission rs p)"
  by (induction ps) (auto simp: hasPermissionText_names)

lemma mem_roleNames:
  "''SUPER_ADMIN'' \<in> set (map roleName rs) \<longleftrightarrow> SUPER_ADMIN \<in> set rs"
  "''ADMIN'' \<in> set (map roleName rs) \<longleftrightarrow> ADMIN \<in> set rs"
  using roleName_mem [of SUPER_ADMIN "set rs"] roleName_mem [of ADMIN "set rs"] by simp_all

text \<open>
  Exactly whom the role guard lets through: a user row of a well-formed table passes a route
  that requires roles and permissions exactly when the route requires nothing, the user is an
  administrator, or one of its roles inherits (in any number of steps) one of the required roles
  and the user has all the required permissions.
\<close>

theorem rbac_guard_spec:
  assumes "wf_user u"
  shows "rbacGuard required permissions (Some (userCaller u)) = Inr () \<longleftrightarrow>
    required = [] \<and> permissions = [] \<or>
    ADMIN \<in> set (u_roles u) \<or> SUPER_ADMIN \<in> set (u_roles u) \<or>
    (required = [] \<or> (\<exists>r\<in>set (u_roles u). \<exists>q\<in>set required. inherits\<^sup>*\<^sup>* r q)) \<and>
    (\<forall>p\<in>set permissions. hasPermission (u_roles u) p)"
proof -
  have "assertNoGovernanceKycRoleConflict (stringRoles (map roleName (u_roles u))) = Inr ()"
    using assms by (simp add: assertNoConflict_names wf_user_def)
  moreover have "list_ex (hasRoleText (map roleName (u_roles u))) required \<longleftrightarrow>
      (\<exists>r\<in>set (u_roles u). \<exists>q\<in>set required. inherits\<^sup>*\<^sup>* r q)"
    by (auto simp: list_ex_iff hasRoleText_def hasRole_iff)
  ultimately show ?thesis
    using assms
    by (auto simp: rbacGuard_def requestRoles_userCaller mem_roleNames everyPermission_names
        Let_def simp del: set_map split: if_splits)
qed

theorem rbac_guard_spec_witness:
  "wf_user ex_user \<and> \<not> rbacGuard [STAFF] [] (Some (userCaller ex_user)) = Inr ()"
proof -
  have "\<not> inherits\<^sup>*\<^sup>* USER STAFF"
    by (auto simp: inherits_def elim: converse_rtranclpE)
  then show ?thesis
    using rbac_guard_spec [of ex_user "[STAFF]" "[]"]
    by (simp add: ex_user_def wf_user_def separated_def)
qed

text \<open>
  A support agent can make itself SUPER_ADMIN: the guard of the route that assigns roles asks
  for ADMIN or SUPER_ADMIN and the permission \<open>roles.assign\<close>, which a support agent inherits, and
  the service accepts the assignment.
\<close>

theorem support_agent_can_become_super_admin:
  assumes "wf_users (idb_users db)" and "findUser i db = Some u" and "u_roles u = [SUPPORT_AGENT]"
  shows "\<exists>v db'. assignRolesRoute (Some (userCaller u)) i [SUPER_ADMIN] by_id db = Inr (v, db') \<and>
    u_roles v = [SUPPORT_AGENT, SUPER_ADMIN] \<and> findUser i db' = Some v"
proof -
  have wf: "wf_user u" using wf_users_lookup [OF assms(1,2)] .
  have "hasPermission (u_roles u) ''roles.assign''"
    by (rule hasPermission_wildcard [OF _ inherits_admin(1)]) (simp_all add: assms(3))
  moreover have "hasRoleText (map roleName (u_roles u)) ADMIN"
    using inherits_admin(1) by (auto simp: hasRoleText_def hasRole_iff assms(3)
        map_filter_parseRole [of "[SUPPORT_AGENT]", simplified])
  ultimately have "rbacGuard [ADMIN, SUPER_ADMIN] [''roles.assign''] (Some (userCaller u)) = Inr ()"
    using wf by (auto simp: rbacGuard_def requestRoles_userCaller everyPermission_names
        hasPermissionText_names assertNoConflict_names wf_user_def Let_def)
  moreover from assignRolesToUser_Inr [OF assms(1,2), of "[SUPER_ADMIN]" by_id]
  have "\<exists>v db'. assignRolesToUser i [SUPER_ADMIN] by_id db = Inr (v, db') \<and>
      u_roles v = [SUPPORT_AGENT, SUPER_ADMIN] \<and> findUser i db' = Some v"
    by (auto simp: assms(3) separated_def)
  ultimately show ?thesis by (simp add: assignRolesRoute_def)
qed

theorem support_agent_can_become_super_admin_witness:
  "\<exists>v db'. assignRolesRoute (Some (userCaller (ex_user\<lparr>u_roles := [SUPPORT_AGENT]\<rparr>))) 1 [SUPER_ADMIN] ''1''
     (ex_identity\<lparr>idb_users := [ex_user\<lparr>u_roles := [SUPPORT_AGENT]\<rparr>]\<rparr>) = Inr (v, db') \<and>
   SUPER_ADMIN \<in> set (u_roles v)"
  using support_agent_can_become_super_admin
    [of "ex_identity\<lparr>idb_users := [ex_user\<lparr>u_roles := [SUPPORT_AGENT]\<rparr>]\<rparr>" 1
       "ex_user\<lparr>u_roles := [SUPPORT_AGENT]\<rparr>" "''1''"]
  by (fastforce simp: ex_user_def wf_users_def keyed_def wf_user_def separated_def)

section \<open>Counting by role\<close>

text \<open>
  The dashboard counts the users whose role column contains the name of a role: SUPER_ADMIN contains
  ADMIN, so every SUPER_ADMIN is counted as an ADMIN too.
\<close>

lemma super_admins_counted_as_admins:
  "as_usersByRole (getAdminDashboardStats (ex_identity\<lparr>idb_users := [ex_user\<lparr>u_roles := [SUPER_ADMIN]\<rparr>]\<rparr>))
     ADMIN = 1"
  by (simp add: getAdminDashboardStats_def countByRole_def rolesColumn_def ex_user_def joinComma.simps)

text \<open>A role created with permission slugs gets none of them: they are looked up as ids.\<close>

lemma created_role_has_no_permissions:
  assumes "\<forall>p\<in>set (idb_permissions db). pm_id p \<notin> set slugs"
    and "createRole (dto\<lparr>cr_permissionSlugs := Some slugs\<rparr>) newId db = Inr (role, db')"
  shows "re_permissions role = []"
  using assms by (auto simp: createRole_def Let_def filter_empty_conv split: if_splits)

text \<open>Seeding is idempotent: a second run finds every role and changes nothing.\<close>

lemma findRole_saveRole: "findRole r (saveRole x db) = (if r = re_name x then Some x else findRole r db)"
  by (auto simp: saveRole_def row_of_save)

lemma findRole_seedRole: "findRole r db \<noteq> None \<or> r = role \<Longrightarrow> findRole r (seedRole role db) \<noteq> None"
  by (auto simp: seedRole_def findRole_saveRole)

lemma findRole_seeded: "findRole r db \<noteq> None \<or> r \<in> set rs \<Longrightarrow> findRole r (fold seedRole rs db) \<noteq> None"
proof (induction rs arbitrary: db)
  case (Cons a rs)
  then have "findRole r (seedRole a db) \<noteq> None \<or> r \<in> set rs"
    using findRole_seedRole [of r db a] by auto
  then show ?case by (simp del: not_None_eq add: Cons.IH)
qed simp

lemma fold_seedRole_present: "\<forall>r\<in>set rs. findRole r db \<noteq> None \<Longrightarrow> fold seedRole rs db = db"
  by (induction rs) (auto simp: seedRole_def)

lemma seedDefaultRoles_idempotent: "seedDefaultRoles (seedDefaultRoles db) = seedDefaultRoles db"
  unfolding seedDefaultRoles_def by (rule fold_seedRole_present) (use findRole_seeded in force)

end
