(* ===== verification/Auth.thy ===== *)
theory Auth
  imports Users
begin

text \<open>
  Authentication: \<open>auth/auth.service.ts\<close>, \<open>auth/mfa.service.ts\<close>, the access-token guard and the
  attempt limiter of \<open>auth/rate-limiter.ts\<close>.

  Cryptography, the clock and the random numbers of one request are the fields of \<open>auth_env\<close>:
  \<open>bcrypt\<close>, SHA-256, the signing and verifying of tokens, time-based codes, fresh UUIDs and the
  configuration. Handlers return their outcome and the database, since several of them write
  before they throw.

  An entity loaded through the repository lacks the columns marked \<open>select: false\<close> unless the query
  adds them, and \<open>save\<close> skips every property that is \<open>undefined\<close>: \<open>hiddenColumns\<close> and \<open>mergeAuth\<close>. A
  column that is assigned \<open>undefined\<close> therefore keeps its stored value.
\<close>

section \<open>The environment of a request\<close>

datatype token_type = AccessToken | RefreshToken

record JwtPayload =
  jp_sub :: uuid
  jp_userId :: uuid
  jp_email :: string
  jp_role :: UserRole
  jp_roles :: "UserRole list"
  jp_sessionId :: uuid
  jp_type :: token_type

text \<open>
  \<open>arrayRemove\<close> is the SQL function of that name on the hash column, \<open>None\<close> when the database
  rejects the expression for the type of the column.
\<close>

record auth_env =
  bcryptHash :: "string \<Rightarrow> string"
  bcryptCompare :: "string \<Rightarrow> string \<Rightarrow> bool"
  sha256 :: "string \<Rightarrow> string"
  jwtSign :: "JwtPayload \<Rightarrow> string \<Rightarrow> int \<Rightarrow> string"
  jwtVerify :: "string \<Rightarrow> string \<Rightarrow> JwtPayload option"
  totpVerify :: "string \<Rightarrow> string \<Rightarrow> nat \<Rightarrow> bool"
  totpSecret :: string
  smsRandom :: real
  arrayRemove :: "(string \<Rightarrow> string list option \<Rightarrow> string list option) option"
  uuidv4 :: "nat \<Rightarrow> uuid"
  recoveryCode :: "nat \<Rightarrow> string"
  nowMs :: timestamp
  AUTH_MAX_LOGIN_ATTEMPTS :: nat
  AUTH_LOCKOUT_DURATION :: int
  JWT_EXPIRES_IN :: int
  JWT_REFRESH_EXPIRES_IN :: int
  JWT_SECRET :: string
  JWT_REFRESH_SECRET :: string

type_synonym 'a outcome = "'a result \<times> identity_db"

section \<open>Loading and saving credentials\<close>

definition hiddenColumns :: "Auth \<Rightarrow> Auth" where
  "hiddenColumns a = a\<lparr>au_totpSecret := None, au_smsCode := None, au_activationToken := None,
     au_passwordResetToken := None, au_refreshTokenHashes := None\<rparr>"

text \<open>The stored row after \<open>save\<close> of an entity: a missing property leaves the column alone.\<close>

definition keepOr :: "'a option \<Rightarrow> 'a option \<Rightarrow> 'a option" where
  "keepOr new old = (case new of None \<Rightarrow> old | Some x \<Rightarrow> Some x)"

lemma keepOr_simps [simp]:
  "keepOr None x = x" "keepOr (Some a) x = Some a" "keepOr x x = x" "keepOr x None = x"
  by (simp_all add: keepOr_def split: option.split)

definition mergeAuth :: "Auth \<Rightarrow> Auth \<Rightarrow> Auth" where
  "mergeAuth old a =
     \<lparr>au_id = au_id a, au_staffId = keepOr (au_staffId a) (au_staffId old), au_email = au_email a,
      au_passwordHash = au_passwordHash a, au_status = au_status a,
      au_totpSecret = keepOr (au_totpSecret a) (au_totpSecret old),
      au_is2FAEnabled = au_is2FAEnabled a,
      au_phoneNumber = keepOr (au_phoneNumber a) (au_phoneNumber old),
      au_smsCode = keepOr (au_smsCode a) (au_smsCode old),
      au_smsCodeExpiry = keepOr (au_smsCodeExpiry a) (au_smsCodeExpiry old),
      au_failedLoginAttempts = au_failedLoginAttempts a,
      au_lockedUntil = keepOr (au_lockedUntil a) (au_lockedUntil old),
      au_lastLoginAt = keepOr (au_lastLoginAt a) (au_lastLoginAt old),
      au_lastLoginIp = keepOr (au_lastLoginIp a) (au_lastLoginIp old),
      au_activationToken = keepOr (au_activationToken a) (au_activationToken old),
      au_activationTokenExpiry = keepOr (au_activationTokenExpiry a) (au_activationTokenExpiry old),
      au_passwordResetToken = keepOr (au_passwordResetToken a) (au_passwordResetToken old),
      au_passwordResetExpiry = keepOr (au_passwordResetExpiry a) (au_passwordResetExpiry old),
      au_refreshTokenHashes = keepOr (au_refreshTokenHashes a) (au_refreshTokenHashes old),
      au_correlationId = keepOr (au_correlationId a) (au_correlationId old)\<rparr>"

abbreviation findAuth :: "uuid \<Rightarrow> identity_db \<Rightarrow> Auth option" where
  "findAuth i db \<equiv> row_of au_id i (idb_auths db)"

abbreviation findAuthByEmail :: "string \<Rightarrow> identity_db \<Rightarrow> Auth option" where
  "findAuthByEmail e db \<equiv> row_of au_email e (idb_auths db)"

definition saveAuth :: "Auth \<Rightarrow> identity_db \<Rightarrow> identity_db" where
  "saveAuth a db =
     db\<lparr>idb_auths := save_row au_id
          (case findAuth (au_id a) db of None \<Rightarrow> a | Some old \<Rightarrow> mergeAuth old a) (idb_auths db)\<rparr>"

text \<open>\<open>authRepo.update({ id }, ...)\<close> and \<open>sessionRepo.update({ authId, ... }, { revoked: true })\<close>.\<close>

definition updateAuth :: "uuid \<Rightarrow> (Auth \<Rightarrow> Auth) \<Rightarrow> identity_db \<Rightarrow> identity_db" where
  "updateAuth i f db = db\<lparr>idb_auths := map (\<lambda>a. if au_id a = i then f a else a) (idb_auths db)\<rparr>"

definition revokeSessionsOf :: "uuid \<Rightarrow> identity_db \<Rightarrow> identity_db" where
  "revokeSessionsOf i db = db\<lparr>idb_sessions :=
     map (\<lambda>x. if se_authId x = i then x\<lparr>se_revoked := True\<rparr> else x) (idb_sessions db)\<rparr>"

definition userOfAuth :: "uuid \<Rightarrow> identity_db \<Rightarrow> User option" where
  "userOfAuth i db = find (\<lambda>u. u_authId u = Some i) (idb_users db)"

section \<open>Registration and activation\<close>

record RegisterDto =
  rg_email :: string
  rg_password :: string
  rg_username :: string
  rg_firstName :: "string option"
  rg_lastName :: "string option"




definition activateAccount :: "auth_env \<Rightarrow> uuid \<Rightarrow> identity_db \<Rightarrow> unit outcome" where
  "activateAccount env token db =
     (case find (\<lambda>a. au_activationToken a = Some token) (idb_auths db) of
        None \<Rightarrow> (Inl (BadRequestException ''Invalid or expired activation token''), db)
      | Some auth \<Rightarrow>
          if (case au_activationTokenExpiry auth of None \<Rightarrow> False | Some t \<Rightarrow> t < nowMs env)
          then (Inl (BadRequestException ''Activation token has expired''), db)
          else let auth' = auth\<lparr>au_status := ACTIVE, au_activationToken := None,
                     au_activationTokenExpiry := None\<rparr>;
                   db1 = saveAuth auth' db
               in (Inr (), db1\<lparr>idb_users := map (\<lambda>u. if u_authId u = Some (au_id auth)
                     then u\<lparr>u_status := ACTIVE\<rparr> else u) (idb_users db1)\<rparr>))"

section \<open>Helpers\<close>

definition hashToken :: "auth_env \<Rightarrow> string \<Rightarrow> string" where
  "hashToken env token = sha256 env token"

definition handleFailedLogin :: "auth_env \<Rightarrow> Auth \<Rightarrow> identity_db \<Rightarrow> identity_db" where
  "handleFailedLogin env auth db =
     (let auth1 = auth\<lparr>au_failedLoginAttempts := au_failedLoginAttempts auth + 1\<rparr>
      in if au_failedLoginAttempts auth1 \<ge> AUTH_MAX_LOGIN_ATTEMPTS env
         then let until = nowMs env + AUTH_LOCKOUT_DURATION env
              in saveAuth (auth1\<lparr>au_status := LOCKED, au_lockedUntil := Some until\<rparr>)
                   (emit [AccountLocked (au_id auth) until] db)
         else saveAuth auth1 db)"

definition verify2FACode :: "auth_env \<Rightarrow> Auth \<Rightarrow> string \<Rightarrow> bool" where
  "verify2FACode env auth code =
     (case au_totpSecret auth of
        Some secret \<Rightarrow>
          if secret \<noteq> [] then totpVerify env secret code 1
          else (case (au_smsCode auth, au_smsCodeExpiry auth) of
                  (Some c, Some t) \<Rightarrow> c \<noteq> [] \<and> t > nowMs env \<and> code = c | _ \<Rightarrow> False)
      | None \<Rightarrow>
          (case (au_smsCode auth, au_smsCodeExpiry auth) of
             (Some c, Some t) \<Rightarrow> c \<noteq> [] \<and> t > nowMs env \<and> code = c | _ \<Rightarrow> False))"

definition tokenPayload :: "Auth \<Rightarrow> User \<Rightarrow> uuid \<Rightarrow> token_type \<Rightarrow> JwtPayload" where
  "tokenPayload auth user sessionId ty =
     \<lparr>jp_sub = au_id auth, jp_userId = u_id user, jp_email = au_email auth, jp_role = u_role user,
      jp_roles = u_roles user, jp_sessionId = sessionId, jp_type = ty\<rparr>"

definition generateTokenPair :: "auth_env \<Rightarrow> Auth \<Rightarrow> User \<Rightarrow> string \<times> string" where
  "generateTokenPair env auth user =
     (let sessionId = uuidv4 env 0
      in (jwtSign env (tokenPayload auth user sessionId AccessToken) (JWT_SECRET env) (JWT_EXPIRES_IN env),
          jwtSign env (tokenPayload auth user sessionId RefreshToken) (JWT_REFRESH_SECRET env)
            (JWT_REFRESH_EXPIRES_IN env)))"

record user_view =
  uv_id :: uuid
  uv_username :: string
  uv_email :: string
  uv_firstName :: "string option"
  uv_lastName :: "string option"
  uv_role :: UserRole
  uv_roles :: "UserRole list"
  uv_status :: AccountStatus
  uv_createdAt :: timestamp

definition sanitizeUser :: "User \<Rightarrow> user_view" where
  "sanitizeUser u = \<lparr>uv_id = u_id u, uv_username = u_username u, uv_email = u_email u,
     uv_firstName = u_firstName u, uv_lastName = u_lastName u, uv_role = u_role u,
     uv_roles = u_roles u, uv_status = u_status u, uv_createdAt = u_createdAt u\<rparr>"

text \<open>\<open>slice(-10)\<close>\<close>

definition lastTen :: "'a list \<Rightarrow> 'a list" where
  "lastTen xs = drop (length xs - 10) xs"

record token_response =
  tr_accessToken :: string
  tr_refreshToken :: string
  tr_expiresIn :: int
  tr_user :: "user_view option"

section \<open>Login and logout\<close>

record LoginDto =
  lg_email :: string
  lg_password :: string
  lg_code :: "string option"
  lg_deviceInfo :: "string option"

definition loginView :: "Auth \<Rightarrow> Auth" where
  "loginView a = (hiddenColumns a)\<lparr>au_totpSecret := au_totpSecret a, au_smsCode := au_smsCode a\<rparr>"

text \<open>The status checks, and the reset of a lock that has expired.\<close>

definition checkStatus :: "auth_env \<Rightarrow> Auth \<Rightarrow> Auth result" where
  "checkStatus env auth =
     (case au_status auth of
        INACTIVE \<Rightarrow> Inl (UnauthorizedException ''Account not yet activated. Please check your email.'')
      | SUSPENDED \<Rightarrow> Inl (ForbiddenException ''Account has been suspended. Please contact support.'')
      | LOCKED \<Rightarrow>
          (if (case au_lockedUntil auth of None \<Rightarrow> False | Some t \<Rightarrow> t > nowMs env)
           then Inl (ForbiddenException ''Account is temporarily locked.'')
           else Inr (auth\<lparr>au_status := ACTIVE, au_failedLoginAttempts := 0, au_lockedUntil := None\<rparr>))
      | ACTIVE \<Rightarrow> Inr auth)"

text \<open>Password and second factor, in the order of the code.\<close>

definition checkFactors :: "auth_env \<Rightarrow> LoginDto \<Rightarrow> Auth \<Rightarrow> (exn \<times> bool) option" where
  "checkFactors env dto auth =
     (if \<not> bcryptCompare env (lg_password dto) (au_passwordHash auth)
      then Some (UnauthorizedException ''Invalid credentials'', True)
      else if au_is2FAEnabled auth
      then (case lg_code dto of
              None \<Rightarrow> Some (UnauthorizedException ''2FA code required'', False)
            | Some code \<Rightarrow>
                if code = [] then Some (UnauthorizedException ''2FA code required'', False)
                else if verify2FACode env auth code then None
                else Some (UnauthorizedException ''Invalid 2FA code'', True))
      else None)"

text \<open>What follows a successful check: the row is saved, tokens and a session are issued.\<close>

definition openSession ::
  "auth_env \<Rightarrow> LoginDto \<Rightarrow> string option \<Rightarrow> string option \<Rightarrow> Auth \<Rightarrow> identity_db \<Rightarrow> token_response outcome" where
  "openSession env dto ipAddress userAgent auth db =
     (let auth1 = auth\<lparr>au_failedLoginAttempts := 0, au_lastLoginAt := Some (nowMs env),
            au_lastLoginIp := ipAddress\<rparr>;
          db1 = saveAuth auth1 db
      in case userOfAuth (au_id auth) db1 of
           None \<Rightarrow> (Inl (NotFoundException ''User profile not found''), db1)
         | Some user \<Rightarrow>
             let (accessToken, refreshToken) = generateTokenPair env auth1 user;
                 refreshTokenHash = hashToken env refreshToken;
                 session = \<lparr>se_id = unusedId (map se_id (idb_sessions db1)), se_authId = au_id auth,
                   se_sessionToken = uuidv4 env 1, se_deviceInfo = lg_deviceInfo dto,
                   se_ipAddress = ipAddress, se_userAgent = userAgent, se_revoked = False,
                   se_expiresAt = Some (nowMs env + JWT_REFRESH_EXPIRES_IN env * 1000),
                   se_createdAt = nowMs env, se_lastActive = nowMs env\<rparr>;
                 db2 = db1\<lparr>idb_sessions := idb_sessions db1 @ [session]\<rparr>;
                 existingHashes = filter (\<lambda>h. h \<noteq> []) (dtoOr (au_refreshTokenHashes auth1) []);
                 db3 = updateAuth (au_id auth)
                   (\<lambda>a. a\<lparr>au_refreshTokenHashes := Some (lastTen (existingHashes @ [refreshTokenHash]))\<rparr>) db2
             in (Inr \<lparr>tr_accessToken = accessToken, tr_refreshToken = refreshToken,
                      tr_expiresIn = JWT_EXPIRES_IN env, tr_user = Some (sanitizeUser user)\<rparr>,
                 emit [UserLoggedIn (au_id auth) (u_id user)] db3))"

definition login ::
  "auth_env \<Rightarrow> LoginDto \<Rightarrow> string option \<Rightarrow> string option \<Rightarrow> identity_db \<Rightarrow> token_response outcome" where
  "login env dto ipAddress userAgent db =
     (case findAuthByEmail (lg_email dto) db of
        None \<Rightarrow> (Inl (UnauthorizedException ''Invalid credentials''), db)
      | Some row \<Rightarrow>
          (case checkStatus env (loginView row) of
             Inl e \<Rightarrow> (Inl e, db)
           | Inr auth \<Rightarrow>
               (case checkFactors env dto auth of
                  Some (e, counts) \<Rightarrow> (Inl e, if counts then handleFailedLogin env auth db else db)
                | None \<Rightarrow> openSession env dto ipAddress userAgent auth db)))"


definition refreshTokens :: "auth_env \<Rightarrow> string \<Rightarrow> identity_db \<Rightarrow> token_response outcome" where
  "refreshTokens env token db =
     (case jwtVerify env token (JWT_REFRESH_SECRET env) of
        None \<Rightarrow> (Inl (UnauthorizedException ''Invalid or expired refresh token''), db)
      | Some payload \<Rightarrow>
          if jp_type payload \<noteq> RefreshToken
          then (Inl (UnauthorizedException ''Invalid token type''), db)
          else (case findAuth (jp_sub payload) db of
             None \<Rightarrow> (Inl (UnauthorizedException ''Auth record not found''), db)
           | Some auth \<Rightarrow>
               let hash = hashToken env token;
                   storedHashes = dtoOr (au_refreshTokenHashes auth) []
               in if hash \<notin> set storedHashes
                  then (Inl (UnauthorizedException ''Refresh token reuse detected. All sessions invalidated.''),
                        updateAuth (au_id auth) (\<lambda>a. a\<lparr>au_refreshTokenHashes := Some []\<rparr>)
                          (revokeSessionsOf (au_id auth) db))
                  else (case userOfAuth (au_id auth) db of
                     None \<Rightarrow> (Inl (NotFoundException ''User not found''), db)
                   | Some user \<Rightarrow>
                       let (accessToken, refreshToken) = generateTokenPair env auth user;
                           newHash = hashToken env refreshToken;
                           updatedHashes = filter (\<lambda>h. h \<noteq> hash) storedHashes @ [newHash]
                       in (Inr \<lparr>tr_accessToken = accessToken, tr_refreshToken = refreshToken,
                                tr_expiresIn = JWT_EXPIRES_IN env, tr_user = None\<rparr>,
                           updateAuth (au_id auth)
                             (\<lambda>a. a\<lparr>au_refreshTokenHashes := Some (lastTen updatedHashes)\<rparr>) db))))"

section \<open>Passwords\<close>



definition changePassword :: "auth_env \<Rightarrow> uuid \<Rightarrow> string \<Rightarrow> string \<Rightarrow> identity_db \<Rightarrow> unit outcome" where
  "changePassword env authId currentPassword newPassword db =
     (case findAuth authId db of
        None \<Rightarrow> (Inl (NotFoundException ''Auth record not found''), db)
      | Some row \<Rightarrow>
          if \<not> bcryptCompare env currentPassword (au_passwordHash row)
          then (Inl (UnauthorizedException ''Current password is incorrect''), db)
          else let auth = (hiddenColumns row)\<lparr>au_passwordHash := bcryptHash env newPassword,
                     au_refreshTokenHashes := Some []\<rparr>
               in (Inr (), emit [PasswordChanged (au_id auth)]
                     (revokeSessionsOf (au_id auth) (saveAuth auth db))))"

section \<open>Sessions\<close>

definition listSessions :: "uuid \<Rightarrow> identity_db \<Rightarrow> Session list" where
  "listSessions authId db =
     sort_key (\<lambda>x. - se_lastActive x)
       (filter (\<lambda>x. se_authId x = authId \<and> \<not> se_revoked x) (idb_sessions db))"



section \<open>Second factors\<close>

datatype two_factor_method = Totp | Sms | OtherMethod

datatype two_factor_setup = TotpSetup string | SmsSetup string

definition setup2FA ::
  "auth_env \<Rightarrow> uuid \<Rightarrow> two_factor_method \<Rightarrow> string option \<Rightarrow> identity_db \<Rightarrow> two_factor_setup outcome" where
  "setup2FA env authId kind phoneNumber db =
     (case findAuth authId db of
        None \<Rightarrow> (Inl (UnauthorizedException ''Auth record not found''), db)
      | Some row \<Rightarrow>
          (case kind of
             Totp \<Rightarrow> (Inr (TotpSetup (totpSecret env)),
               saveAuth ((hiddenColumns row)\<lparr>au_totpSecret := Some (totpSecret env)\<rparr>) db)
           | Sms \<Rightarrow>
               (case phoneNumber of
                  None \<Rightarrow> (Inl (BadRequestException ''Phone number is required for SMS 2FA''), db)
                | Some number \<Rightarrow>
                    if number = [] then (Inl (BadRequestException ''Phone number is required for SMS 2FA''), db)
                    else let code = natText (nat \<lfloor>100000 + smsRandom env * 900000\<rfloor>)
                         in (Inr (SmsSetup number),
                             saveAuth ((hiddenColumns row)\<lparr>au_smsCode := Some code,
                               au_smsCodeExpiry := Some (nowMs env + 5 * 60 * 1000),
                               au_phoneNumber := Some number\<rparr>) db))
           | OtherMethod \<Rightarrow> (Inl (BadRequestException ''Unsupported 2FA method''), db)))"





definition mfaActive :: "Auth \<Rightarrow> string option" where
  "mfaActive a = (if \<not> au_is2FAEnabled a then None
     else case au_totpSecret a of None \<Rightarrow> None | Some secret \<Rightarrow> if secret = [] then None else Some secret)"

definition verifyToken :: "auth_env \<Rightarrow> uuid \<Rightarrow> string \<Rightarrow> identity_db \<Rightarrow> bool" where
  "verifyToken env authId token db =
     (case findAuth authId db of
        None \<Rightarrow> True
      | Some row \<Rightarrow> (case mfaActive row of None \<Rightarrow> True | Some secret \<Rightarrow> totpVerify env secret token 1))"


section \<open>The access-token guard\<close>

fun splitSpace :: "string \<Rightarrow> string list" where
  "splitSpace [] = [[]]"
| "splitSpace (c # cs) =
     (if c = CHR '' '' then [] # splitSpace cs
      else case splitSpace cs of [] \<Rightarrow> [[c]] | x # xs \<Rightarrow> (c # x) # xs)"

definition extractTokenFromHeader :: "string option \<Rightarrow> string option" where
  "extractTokenFromHeader authorization =
     (case authorization of
        None \<Rightarrow> None
      | Some h \<Rightarrow> (case splitSpace h of
            ty # token # _ \<Rightarrow> if ty = ''Bearer'' then Some token else None
          | _ \<Rightarrow> None))"

text \<open>The verified payload is what the guard attaches to the request.\<close>

definition jwtAuthGuard :: "auth_env \<Rightarrow> bool \<Rightarrow> string option \<Rightarrow> JwtPayload option result" where
  "jwtAuthGuard env isPublic authorization =
     (if isPublic then Inr None
      else case extractTokenFromHeader authorization of
        None \<Rightarrow> Inl (UnauthorizedException ''No access token provided'')
      | Some token \<Rightarrow>
          if token = [] then Inl (UnauthorizedException ''No access token provided'')
          else (case jwtVerify env token (JWT_SECRET env) of
             None \<Rightarrow> Inl (UnauthorizedException ''Invalid or expired access token'')
           | Some payload \<Rightarrow>
               if jp_type payload \<noteq> AccessToken then Inl (UnauthorizedException ''Invalid token type'')
               else Inr (Some payload)))"

section \<open>The attempt limiter\<close>

definition MAX_ATTEMPTS :: nat where "MAX_ATTEMPTS = 5"

definition WINDOW_MS :: int where "WINDOW_MS = 15 * 60 * 1000"

type_synonym attempts = "string \<rightharpoonup> (nat \<times> timestamp)"

definition authRateLimit :: "string \<Rightarrow> timestamp \<Rightarrow> attempts \<Rightarrow> bool \<times> attempts" where
  "authRateLimit key now m =
     (case m key of
        None \<Rightarrow> (True, m(key \<mapsto> (1, now)))
      | Some (attempts, lastAttempt) \<Rightarrow>
          if now - lastAttempt > WINDOW_MS then (True, m(key \<mapsto> (1, now)))
          else if attempts \<ge> MAX_ATTEMPTS then (False, m)
          else (True, m(key \<mapsto> (attempts + 1, now))))"

section \<open>Well-formed credentials\<close>

text \<open>At most ten refresh-token hashes per account.\<close>

definition auth_ok :: "Auth \<Rightarrow> bool" where
  "auth_ok a \<longleftrightarrow> length (dtoOr (au_refreshTokenHashes a) []) \<le> 10"

definition wf_auths :: "Auth list \<Rightarrow> bool" where
  "wf_auths t \<longleftrightarrow> keyed au_id t \<and> distinct (map au_email t) \<and> list_all auth_ok t"

definition identity_inv :: "identity_db \<Rightarrow> bool" where
  "identity_inv db \<longleftrightarrow> wf_users (idb_users db) \<and> wf_auths (idb_auths db) \<and>
     keyed se_id (idb_sessions db) \<and> se_authId ` set (idb_sessions db) \<subseteq> au_id ` set (idb_auths db)"

lemma mergeAuth_simps [simp]:
  "au_id (mergeAuth old a) = au_id a" "au_email (mergeAuth old a) = au_email a"
  "au_status (mergeAuth old a) = au_status a" "au_passwordHash (mergeAuth old a) = au_passwordHash a"
  "au_is2FAEnabled (mergeAuth old a) = au_is2FAEnabled a"
  "au_failedLoginAttempts (mergeAuth old a) = au_failedLoginAttempts a"
  "au_lockedUntil (mergeAuth old a) = keepOr (au_lockedUntil a) (au_lockedUntil old)"
  "au_totpSecret (mergeAuth old a) = keepOr (au_totpSecret a) (au_totpSecret old)"
  "au_refreshTokenHashes (mergeAuth old a) = keepOr (au_refreshTokenHashes a) (au_refreshTokenHashes old)"
  "au_activationToken (mergeAuth old a) = keepOr (au_activationToken a) (au_activationToken old)"
  "au_activationTokenExpiry (mergeAuth old a) =
     keepOr (au_activationTokenExpiry a) (au_activationTokenExpiry old)"
  "au_passwordResetToken (mergeAuth old a) = keepOr (au_passwordResetToken a) (au_passwordResetToken old)"
  "au_passwordResetExpiry (mergeAuth old a) = keepOr (au_passwordResetExpiry a) (au_passwordResetExpiry old)"
  by (simp_all add: mergeAuth_def)

lemma hiddenColumns_simps [simp]:
  "au_id (hiddenColumns a) = au_id a" "au_email (hiddenColumns a) = au_email a"
  "au_status (hiddenColumns a) = au_status a" "au_passwordHash (hiddenColumns a) = au_passwordHash a"
  "au_is2FAEnabled (hiddenColumns a) = au_is2FAEnabled a"
  "au_failedLoginAttempts (hiddenColumns a) = au_failedLoginAttempts a"
  "au_lockedUntil (hiddenColumns a) = au_lockedUntil a"
  "au_refreshTokenHashes (hiddenColumns a) = None" "au_activationToken (hiddenColumns a) = None"
  "au_passwordResetToken (hiddenColumns a) = None" "au_totpSecret (hiddenColumns a) = None"
  by (simp_all add: hiddenColumns_def)

lemma loginView_simps [simp]:
  "au_id (loginView a) = au_id a" "au_email (loginView a) = au_email a"
  "au_status (loginView a) = au_status a" "au_passwordHash (loginView a) = au_passwordHash a"
  "au_is2FAEnabled (loginView a) = au_is2FAEnabled a"
  "au_failedLoginAttempts (loginView a) = au_failedLoginAttempts a"
  "au_lockedUntil (loginView a) = au_lockedUntil a"
  "au_refreshTokenHashes (loginView a) = None" "au_activationToken (loginView a) = None"
  by (simp_all add: loginView_def)

lemma auth_ok_no_hashes [simp]: "au_refreshTokenHashes a = None \<Longrightarrow> auth_ok a"
  by (simp add: auth_ok_def dtoOr_def)

lemma auth_ok_cleared [simp]: "au_refreshTokenHashes a = Some [] \<Longrightarrow> auth_ok a"
  by (simp add: auth_ok_def dtoOr_def)

lemma auth_ok_merge: "auth_ok old \<Longrightarrow> auth_ok a \<Longrightarrow> auth_ok (mergeAuth old a)"
  by (auto simp: auth_ok_def dtoOr_def keepOr_def split: option.splits)

lemma length_lastTen: "length (lastTen xs) \<le> 10"
  by (simp add: lastTen_def)

lemma findAuth_saveAuth:
  "findAuth i (saveAuth a db) =
     (if i = au_id a then Some (case findAuth i db of None \<Rightarrow> a | Some old \<Rightarrow> mergeAuth old a)
      else findAuth i db)"
  by (auto simp: saveAuth_def row_of_save split: option.splits)

lemma saveAuth_frame [simp]:
  "idb_users (saveAuth a db) = idb_users db" "idb_sessions (saveAuth a db) = idb_sessions db"
  by (simp_all add: saveAuth_def)

lemma updateAuth_frame [simp]:
  "idb_users (updateAuth i f db) = idb_users db" "idb_sessions (updateAuth i f db) = idb_sessions db"
  by (simp_all add: updateAuth_def)

lemma revokeSessionsOf_frame [simp]:
  "idb_users (revokeSessionsOf i db) = idb_users db" "idb_auths (revokeSessionsOf i db) = idb_auths db"
  by (simp_all add: revokeSessionsOf_def)

lemma findAuth_updateAuth:
  assumes "\<And>a. au_id (f a) = au_id a"
  shows "findAuth k (updateAuth i f db) = map_option (\<lambda>a. if au_id a = i then f a else a) (findAuth k db)"
  using assms by (simp add: updateAuth_def row_of_map)

lemma wf_auths_saveAuth:
  assumes "wf_auths (idb_auths db)" and "findAuth i db = Some old"
    and "au_id a = i" and "au_email a = au_email old" and "auth_ok a"
  shows "wf_auths (idb_auths (saveAuth a db))"
proof -
  have old: "old \<in> set (idb_auths db)" "au_id old = i" using row_of_Some_in [OF assms(2)] by auto
  have "\<forall>x\<in>set (idb_auths db). au_email x = au_email (mergeAuth old a) \<longrightarrow> au_id x = au_id (mergeAuth old a)"
    using assms old by (auto simp: wf_auths_def distinct_map dest: inj_onD)
  moreover have "auth_ok (mergeAuth old a)"
    using assms old by (auto simp: wf_auths_def list_all_iff intro: auth_ok_merge)
  ultimately show ?thesis
    using assms by (auto simp: saveAuth_def wf_auths_def keyed_save_row distinct_save_row list_all_iff
        dest!: in_save_rowD)
qed

lemma au_ids_saveAuth: "au_id ` set (idb_auths (saveAuth a db)) = insert (au_id a) (au_id ` set (idb_auths db))"
  by (simp add: saveAuth_def keys_save_row split: option.splits)

lemma wf_auths_map:
  assumes "wf_auths t" and "\<And>a. au_id (g a) = au_id a" and "\<And>a. au_email (g a) = au_email a"
    and "\<And>a. auth_ok a \<Longrightarrow> auth_ok (g a)"
  shows "wf_auths (map g t)"
  using assms by (simp add: wf_auths_def keyed_def list_all_iff o_def)

text \<open>What the invariant needs of a change: unchanged users and sessions, well-formed credentials.\<close>

lemma identity_inv_auths:
  assumes "identity_inv db" and "wf_auths (idb_auths db')"
    and "idb_users db' = idb_users db" and "idb_sessions db' = idb_sessions db"
    and "au_id ` set (idb_auths db) \<subseteq> au_id ` set (idb_auths db')"
  shows "identity_inv db'"
  using assms order_trans [OF _ assms(5)] by (simp add: identity_inv_def)

lemma identity_inv_saveAuth:
  assumes "identity_inv db" and "findAuth i db = Some old"
    and "au_id a = i" and "au_email a = au_email old" and "auth_ok a"
  shows "identity_inv (saveAuth a db)"
  using assms wf_auths_saveAuth [OF _ assms(2-5)]
  by (intro identity_inv_auths [OF assms(1)]) (auto simp: identity_inv_def au_ids_saveAuth)

lemma identity_inv_updateAuth:
  assumes "identity_inv db" and "\<And>a. au_id (f a) = au_id a" and "\<And>a. au_email (f a) = au_email a"
    and "\<And>a. auth_ok a \<Longrightarrow> auth_ok (f a)"
  shows "identity_inv (updateAuth i f db)"
proof (rule identity_inv_auths [OF assms(1)])
  let ?g = "\<lambda>a. if au_id a = i then f a else a"
  show "wf_auths (idb_auths (updateAuth i f db))"
    using assms by (auto simp: identity_inv_def updateAuth_def intro!: wf_auths_map)
  show "au_id ` set (idb_auths db) \<subseteq> au_id ` set (idb_auths (updateAuth i f db))"
    using column_map [of au_id ?g "idb_auths db"] assms(2) by (simp add: updateAuth_def)
qed simp_all

lemma identity_inv_emit [simp]: "identity_inv (emit es db) \<longleftrightarrow> identity_inv db"
  by (simp add: identity_inv_def)


lemma identity_inv_users:
  assumes "identity_inv db" and "wf_users us"
  shows "identity_inv (db\<lparr>idb_users := us\<rparr>)"
  using assms by (simp add: identity_inv_def)

section \<open>Every request keeps the tables well-formed\<close>

lemma auth_ok_column [simp]:
  "auth_ok (a\<lparr>au_status := x\<rparr>) = auth_ok a" "auth_ok (a\<lparr>au_totpSecret := y\<rparr>) = auth_ok a"
  "auth_ok (a\<lparr>au_is2FAEnabled := b\<rparr>) = auth_ok a"
  by (simp_all add: auth_ok_def)

lemma auth_ok_hashes [simp]: "auth_ok (a\<lparr>au_refreshTokenHashes := Some (lastTen hs)\<rparr>)"
  "auth_ok (a\<lparr>au_refreshTokenHashes := Some []\<rparr>)"
  using length_lastTen [of hs] by (simp_all add: auth_ok_def dtoOr_def)

lemma find_row:
  assumes "wf_auths t" and "find P t = Some a"
  shows "row_of au_id (au_id a) t = Some a"
  using assms find_Some_in [OF assms(2)] by (auto simp: wf_auths_def intro: row_of_keyed)

lemma row_of_email_id:
  assumes "wf_auths t" and "row_of au_email e t = Some a"
  shows "row_of au_id (au_id a) t = Some a"
  using assms row_of_Some_in [OF assms(2)] by (auto simp: wf_auths_def intro: row_of_keyed)

lemma wf_identity: "identity_inv db \<Longrightarrow> wf_auths (idb_auths db)"
  by (simp add: identity_inv_def)

lemma checkStatus_cases:
  "checkStatus env a = Inr b \<Longrightarrow> au_id b = au_id a \<and> au_email b = au_email a \<and>
     au_refreshTokenHashes b = au_refreshTokenHashes a"
  by (auto simp: checkStatus_def split: AccountStatus.splits if_splits)


lemma inv_activate:
  assumes "identity_inv db"
  shows "identity_inv (snd (activateAccount env token db))"
proof (cases "find (\<lambda>a. au_activationToken a = Some token) (idb_auths db)")
  case (Some a)
  let ?a = "a\<lparr>au_status := ACTIVE, au_activationToken := None, au_activationTokenExpiry := None\<rparr>"
  have ok: "auth_ok a" using find_Some_in [OF Some] wf_identity [OF assms]
    by (auto simp: wf_auths_def list_all_iff)
  have "identity_inv (saveAuth ?a db)"
    using ok by (intro identity_inv_saveAuth [OF assms find_row [OF wf_identity [OF assms] Some]])
      (simp_all add: auth_ok_def)
  moreover have "wf_users (map (\<lambda>u. if u_authId u = Some i then u\<lparr>u_status := ACTIVE\<rparr> else u) us)"
    if "wf_users us" for us i
    using that by (auto simp: wf_users_def keyed_def list_all_iff o_def wf_user_def if_distrib cong: if_cong)
  ultimately show ?thesis
    using Some assms identity_inv_users [of "saveAuth ?a db"]
    by (simp add: activateAccount_def Let_def) (simp add: identity_inv_def)
qed (simp add: activateAccount_def assms)

lemma inv_handleFailedLogin:
  assumes "identity_inv db" and "findAuth i db = Some old"
    and "au_id a = i" and "au_email a = au_email old" and "auth_ok a"
  shows "identity_inv (handleFailedLogin env a db)"
proof -
  have "identity_inv (saveAuth b db')"
    if "identity_inv db'" "idb_auths db' = idb_auths db" "au_id b = i" "au_email b = au_email old" "auth_ok b"
    for b db'
    using identity_inv_saveAuth [OF that(1), of i old b] that assms(2) by simp
  from this [of "emit _ db"] this [of db] show ?thesis
    using assms by (simp add: handleFailedLogin_def Let_def auth_ok_def)
qed

lemma inv_openSession:
  assumes "identity_inv db" and "findAuth i db = Some old"
    and "au_id a = i" and "au_email a = au_email old" and "auth_ok a"
  shows "identity_inv (snd (openSession env dto ip agent a db))"
proof -
  let ?a = "a\<lparr>au_failedLoginAttempts := 0, au_lastLoginAt := Some (nowMs env), au_lastLoginIp := ip\<rparr>"
  have inv: "identity_inv (saveAuth ?a db)"
    using assms by (intro identity_inv_saveAuth) (simp_all add: auth_ok_def)
  have add: "identity_inv (saveAuth ?a db\<lparr>idb_sessions := idb_sessions db @ [x]\<rparr>)"
    if "se_id x = unusedId (map se_id (idb_sessions db))" "se_authId x = i" for x
    using inv that unusedId_fresh [of "map se_id (idb_sessions db)"] assms(3)
    by (auto simp: identity_inv_def keyed_def au_ids_saveAuth)
  show ?thesis
    using inv assms(3)
    by (auto simp: openSession_def Let_def generateTokenPair_def split: option.split
        intro!: identity_inv_updateAuth add)
qed

lemma inv_login:
  assumes "identity_inv db"
  shows "identity_inv (snd (login env dto ip agent db))"
proof (cases "findAuthByEmail (lg_email dto) db")
  case (Some row)
  note find = row_of_email_id [OF wf_identity [OF assms] Some]
  show ?thesis
  proof (cases "checkStatus env (loginView row)")
    case (Inr a)
    have a: "au_id a = au_id row" "au_email a = au_email row" "auth_ok a"
      using checkStatus_cases [OF Inr] by simp_all
    show ?thesis
      using assms Some Inr inv_handleFailedLogin [OF assms find a] inv_openSession [OF assms find a]
      by (simp add: login_def split: option.split prod.split)
  qed (simp add: login_def Some assms)
qed (simp add: login_def assms)

datatype identity_request =
    UserAdmin user_request
  | Register auth_env RegisterDto "string option"
  | Activate auth_env uuid
  | Login auth_env LoginDto "string option" "string option"
  | Logout auth_env uuid "string option"
  | Refresh auth_env string
  | ForgotPassword auth_env string
  | ResetPassword auth_env uuid string
  | ChangePassword auth_env uuid string string
  | RevokeSession uuid uuid
  | RevokeAllSessions uuid
  | Setup2FA auth_env uuid two_factor_method "string option"
  | Verify2FASetup auth_env uuid string string
  | Disable2FA auth_env uuid string
  | GenerateSecret auth_env uuid
  | VerifyAndEnable auth_env uuid string string
  | DisableMfa auth_env uuid string




lemma inv_userRequest:
  assumes "identity_inv db"
  shows "identity_inv (commit (\<lambda>s. map_sum id snd (userRequest r s)) db)"
proof (rule commit_map_snd)
  show "identity_inv db" by (rule assms)
next
  fix u db'
  assume r: "userRequest r db = Inr (u, db')"
  have users: "wf_users (idb_users db')"
    using wf_users_request [OF r] assms by (simp add: identity_inv_def)
  have frame: "idb_sessions db' = idb_sessions db \<and>
      (\<exists>g. idb_auths db' = map g (idb_auths db) \<and> (\<forall>a. au_id (g a) = au_id a \<and>
         au_email (g a) = au_email a \<and> auth_ok (g a) = auth_ok a))"
  proof (cases r)
    case (UpdateUserStatus i status)
    with r show ?thesis
      by (auto simp: user_request_defs Let_def saveUser_Inr split: if_splits option.splits
          intro!: exI [of _ "\<lambda>x. if u_authId u = Some (au_id x) then x\<lparr>au_status := status\<rparr> else x"])
  qed (use r in \<open>auto simp: user_request_defs Let_def saveUser_Inr split: if_splits option.splits prod.splits
        intro!: exI [of _ id]\<close>)
  then obtain g where g: "idb_sessions db' = idb_sessions db" "idb_auths db' = map g (idb_auths db)"
    "\<And>a. au_id (g a) = au_id a" "\<And>a. au_email (g a) = au_email a" "\<And>a. auth_ok (g a) = auth_ok a"
    by blast
  have "wf_auths (idb_auths db')" using g wf_identity [OF assms] by (simp add: wf_auths_map)
  moreover have "au_id ` set (idb_auths db') = au_id ` set (idb_auths db)"
    unfolding g(2) by (rule column_map) (rule g(3))
  ultimately show "identity_inv db'" using assms users g(1) by (simp add: identity_inv_def)
qed








section \<open>Lockout\<close>

lemma keyed_emails: "wf_auths t \<Longrightarrow> keyed au_email t"
  by (simp add: wf_auths_def keyed_def)

lemma findAuthByEmail_saveAuth:
  assumes "identity_inv db" and "findAuthByEmail e db = Some a"
    and "au_id b = au_id a" and "au_email b = e" and "auth_ok b"
  shows "findAuthByEmail e (saveAuth b db) = Some (mergeAuth a b)"
proof -
  note wf = wf_identity [OF assms(1)]
  have e: "au_email a = e" using row_of_Some_in [OF assms(2)] by simp
  have find: "findAuth (au_id b) db = Some a"
    using row_of_email_id [OF wf assms(2)] assms(3) by simp
  have "mergeAuth a b \<in> set (idb_auths (saveAuth b db))"
    using find by (simp add: saveAuth_def set_save_row)
  moreover have "wf_auths (idb_auths (saveAuth b db))"
    using wf_auths_saveAuth [OF wf find] assms(4,5) e by simp
  ultimately show ?thesis
    using row_of_keyed [OF keyed_emails] assms(4) by fastforce
qed

text \<open>One attempt with a wrong password on an active account.\<close>

lemma wrong_password:
  assumes "identity_inv db" and "findAuthByEmail (lg_email dto) db = Some a"
    and "au_status a = ACTIVE" and "\<not> bcryptCompare env (lg_password dto) (au_passwordHash a)"
  shows "\<exists>b. findAuthByEmail (lg_email dto) (snd (login env dto ip agent db)) = Some b \<and>
    au_passwordHash b = au_passwordHash a \<and>
    au_failedLoginAttempts b = au_failedLoginAttempts a + 1 \<and>
    (if au_failedLoginAttempts a + 1 \<ge> AUTH_MAX_LOGIN_ATTEMPTS env
     then au_status b = LOCKED \<and> au_lockedUntil b = Some (nowMs env + AUTH_LOCKOUT_DURATION env)
     else au_status b = ACTIVE)"
proof -
  have e: "au_email a = lg_email dto" using row_of_Some_in [OF assms(2)] by simp
  have *: "snd (login env dto ip agent db) = handleFailedLogin env (loginView a) db"
    using assms by (simp add: login_def checkStatus_def checkFactors_def)
  show ?thesis
  proof (cases "au_failedLoginAttempts a + 1 \<ge> AUTH_MAX_LOGIN_ATTEMPTS env")
    case True
    let ?b = "(loginView a)\<lparr>au_failedLoginAttempts := au_failedLoginAttempts a + 1, au_status := LOCKED,
      au_lockedUntil := Some (nowMs env + AUTH_LOCKOUT_DURATION env)\<rparr>"
    have "identity_inv (emit es db)" for es using assms(1) by simp
    from findAuthByEmail_saveAuth [OF this, of "lg_email dto" _ a ?b] assms(2)
    have "findAuthByEmail (lg_email dto) (saveAuth ?b (emit es db)) = Some (mergeAuth a ?b)" for es
      by (simp add: e)
    with True show ?thesis by (auto simp: * handleFailedLogin_def Let_def intro!: exI [of _ "mergeAuth a ?b"])
  next
    case False
    let ?b = "(loginView a)\<lparr>au_failedLoginAttempts := au_failedLoginAttempts a + 1\<rparr>"
    from findAuthByEmail_saveAuth [OF assms(1,2), of ?b]
    have "findAuthByEmail (lg_email dto) (saveAuth ?b db) = Some (mergeAuth a ?b)"
      by (simp add: e)
    with False assms(3) show ?thesis
      by (auto simp: * handleFailedLogin_def Let_def intro!: exI [of _ "mergeAuth a ?b"])
  qed
qed

text \<open>A sequence of login attempts, each with its own clock and credentials.\<close>

definition attemptLogins :: "(auth_env \<times> LoginDto) list \<Rightarrow> identity_db \<Rightarrow> identity_db" where
  "attemptLogins tries db = fold (\<lambda>(env, dto) s. snd (login env dto None None s)) tries db"

definition wrongFor :: "string \<Rightarrow> string \<Rightarrow> nat \<Rightarrow> auth_env \<times> LoginDto \<Rightarrow> bool" where
  "wrongFor email hash maxAttempts t \<longleftrightarrow> lg_email (snd t) = email \<and>
     \<not> bcryptCompare (fst t) (lg_password (snd t)) hash \<and> AUTH_MAX_LOGIN_ATTEMPTS (fst t) = maxAttempts"

lemma locked_after_failures:
  assumes "identity_inv db" and "findAuthByEmail email db = Some a" and "au_status a = ACTIVE"
    and "tries \<noteq> []" and "au_failedLoginAttempts a + length tries = n"
    and "list_all (wrongFor email (au_passwordHash a) n) tries"
  shows "\<exists>b. findAuthByEmail email (attemptLogins tries db) = Some b \<and> au_status b = LOCKED \<and>
    au_lockedUntil b = Some (nowMs (fst (last tries)) + AUTH_LOCKOUT_DURATION (fst (last tries)))"
  using assms
proof (induction tries arbitrary: db a)
  case (Cons t tries)
  obtain env dto where t: "t = (env, dto)" by (cases t)
  let ?db = "snd (login env dto None None db)"
  have dto: "lg_email dto = email" "\<not> bcryptCompare env (lg_password dto) (au_passwordHash a)"
    "AUTH_MAX_LOGIN_ATTEMPTS env = n"
    using Cons.prems(6) by (simp_all add: wrongFor_def t)
  from wrong_password [OF Cons.prems(1), of dto a env None None] Cons.prems(2,3) dto
  obtain b where b: "findAuthByEmail email ?db = Some b" "au_passwordHash b = au_passwordHash a"
    "au_failedLoginAttempts b = au_failedLoginAttempts a + 1"
    "if au_failedLoginAttempts a + 1 \<ge> n then au_status b = LOCKED \<and>
       au_lockedUntil b = Some (nowMs env + AUTH_LOCKOUT_DURATION env) else au_status b = ACTIVE"
    by auto
  have inv: "identity_inv ?db" by (rule inv_login [OF Cons.prems(1)])
  show ?case
  proof (cases "tries = []")
    case True
    with Cons.prems(5) b show ?thesis by (simp add: attemptLogins_def t)
  next
    case False
    then have "\<not> au_failedLoginAttempts a + 1 \<ge> n" using Cons.prems(5) by (cases tries) simp_all
    with b have "au_status b = ACTIVE" by simp
    from Cons.IH [OF inv b(1) this False] Cons.prems(5,6) b(2,3) False
    show ?thesis by (simp add: attemptLogins_def t)
  qed
qed simp

text \<open>
  C23. Brute force is stopped by the lockout: after as many wrong passwords in a row as the
  configuration allows, the account is locked, and until the lock expires every login for it is
  refused with the lock message, whatever the credentials, and changes nothing.
\<close>

theorem lockout_after_max_failures:
  assumes "identity_inv db" and "findAuthByEmail email db = Some a" and "au_status a = ACTIVE"
    and "tries \<noteq> []" and "au_failedLoginAttempts a + length tries = n"
    and "list_all (wrongFor email (au_passwordHash a) n) tries"
    and "lg_email dto = email"
    and "nowMs env < nowMs (fst (last tries)) + AUTH_LOCKOUT_DURATION (fst (last tries))"
  shows "login env dto ip agent (attemptLogins tries db) =
    (Inl (ForbiddenException ''Account is temporarily locked.''), attemptLogins tries db)"
proof -
  from locked_after_failures [OF assms(1-6)] obtain b where
    "findAuthByEmail email (attemptLogins tries db) = Some b" "au_status b = LOCKED"
    "au_lockedUntil b = Some (nowMs (fst (last tries)) + AUTH_LOCKOUT_DURATION (fst (last tries)))"
    by blast
  then show ?thesis using assms(7,8) by (simp add: login_def checkStatus_def)
qed

section \<open>Concrete accounts\<close>

definition ex_env :: auth_env where
  "ex_env = \<lparr>bcryptHash = (\<lambda>p. CHR ''h'' # p), bcryptCompare = (\<lambda>p h. h = CHR ''h'' # p),
     sha256 = (\<lambda>t. CHR ''#'' # t),
     jwtSign = (\<lambda>p s e. (if jp_type p = RefreshToken then CHR ''R'' else CHR ''A'') # natText (jp_sessionId p)),
     jwtVerify = (\<lambda>t s. case t of [] \<Rightarrow> None
       | c # cs \<Rightarrow> Some \<lparr>jp_sub = 4, jp_userId = 1, jp_email = ''ann@x.io'', jp_role = USER,
           jp_roles = [USER], jp_sessionId = 0,
           jp_type = (if c = CHR ''R'' then RefreshToken else AccessToken)\<rparr>),
     totpVerify = (\<lambda>s t w. s = t), totpSecret = ''s'', smsRandom = 0,
     arrayRemove = Some (\<lambda>h hs. map_option (filter (\<lambda>x. x \<noteq> h)) hs),
     uuidv4 = (\<lambda>i. 7 + i), recoveryCode = natText, nowMs = 1000, AUTH_MAX_LOGIN_ATTEMPTS = 2,
     AUTH_LOCKOUT_DURATION = 900000, JWT_EXPIRES_IN = 3600, JWT_REFRESH_EXPIRES_IN = 604800,
     JWT_SECRET = ''a'', JWT_REFRESH_SECRET = ''b''\<rparr>"

definition ex_auth :: Auth where
  "ex_auth = \<lparr>au_id = 4, au_staffId = Some ''ann@x.io'', au_email = ''ann@x.io'',
     au_passwordHash = ''hpw'', au_status = ACTIVE, au_totpSecret = None, au_is2FAEnabled = False,
     au_phoneNumber = None, au_smsCode = None, au_smsCodeExpiry = None, au_failedLoginAttempts = 0,
     au_lockedUntil = None, au_lastLoginAt = None, au_lastLoginIp = None,
     au_activationToken = Some 5, au_activationTokenExpiry = Some 86400000,
     au_passwordResetToken = None, au_passwordResetExpiry = None,
     au_refreshTokenHashes = Some [''#R3''], au_correlationId = None\<rparr>"

definition ex_accounts :: identity_db where
  "ex_accounts = ex_identity\<lparr>idb_auths := [ex_auth]\<rparr>"

definition ex_login :: "string \<Rightarrow> LoginDto" where
  "ex_login pw = \<lparr>lg_email = ''ann@x.io'', lg_password = pw, lg_code = None, lg_deviceInfo = None\<rparr>"

lemma ex_accounts_inv: "identity_inv ex_accounts"
  using ex_identity_wf(1)
  by (simp add: identity_inv_def ex_accounts_def wf_auths_def keyed_def auth_ok_def dtoOr_def ex_auth_def
      ex_identity_def)


theorem lockout_after_max_failures_witness:
  "fst (login ex_env (ex_login ''pw'') None None
     (attemptLogins [(ex_env, ex_login ''x''), (ex_env, ex_login ''y'')] ex_accounts)) =
   Inl (ForbiddenException ''Account is temporarily locked.'')"
proof -
  have "findAuthByEmail ''ann@x.io'' ex_accounts = Some ex_auth"
    by (simp add: ex_accounts_def ex_auth_def)
  from lockout_after_max_failures [OF ex_accounts_inv this, where n = 2 and env = ex_env
      and dto = "ex_login ''pw''" and tries = "[(ex_env, ex_login ''x''), (ex_env, ex_login ''y'')]"]
  show ?thesis by (simp add: ex_auth_def wrongFor_def ex_login_def ex_env_def)
qed

section \<open>Refresh tokens\<close>

definition allRevoked :: "uuid \<Rightarrow> identity_db \<Rightarrow> bool" where
  "allRevoked i db \<longleftrightarrow> (\<forall>x\<in>set (idb_sessions db). se_authId x = i \<longrightarrow> se_revoked x)"

lemma allRevoked_revoke [simp]: "allRevoked i (revokeSessionsOf i db)"
proof -
  let ?g = "\<lambda>x :: Session. if se_authId x = i then x\<lparr>se_revoked := True\<rparr> else x"
  have "se_authId (?g x) = i \<longrightarrow> se_revoked (?g x)" for x
    by (cases "se_authId x = i") simp_all
  then have "\<forall>x\<in>set (map ?g t). se_authId x = i \<longrightarrow> se_revoked x" for t
    unfolding set_map by (metis (no_types, lifting) imageE)
  moreover have "idb_sessions (revokeSessionsOf i db) = map ?g (idb_sessions db)"
    by (simp add: revokeSessionsOf_def)
  ultimately show ?thesis by (simp only: allRevoked_def)
qed

lemma allRevoked_frame: "idb_sessions db' = idb_sessions db \<Longrightarrow> allRevoked i db' = allRevoked i db"
  by (simp add: allRevoked_def)

abbreviation reuseDetected :: exn where
  "reuseDetected \<equiv> UnauthorizedException ''Refresh token reuse detected. All sessions invalidated.''"

text \<open>A token that verifies as a refresh token of an account.\<close>

definition refreshFor :: "auth_env \<Rightarrow> string \<Rightarrow> uuid \<Rightarrow> bool" where
  "refreshFor env token i \<longleftrightarrow> (\<exists>p. jwtVerify env token (JWT_REFRESH_SECRET env) = Some p \<and>
     jp_type p = RefreshToken \<and> jp_sub p = i)"

lemma findAuth_id: "findAuth i db = Some a \<Longrightarrow> au_id a = i"
  by (auto dest: row_of_Some_in)

text \<open>A token whose hash is not stored is treated as reuse: everything of the account is revoked.\<close>

lemma refresh_refused:
  assumes "refreshFor env token i" and "findAuth i db = Some a"
    and "sha256 env token \<notin> set (dtoOr (au_refreshTokenHashes a) [])"
  shows "\<exists>db'. refreshTokens env token db = (Inl reuseDetected, db') \<and> allRevoked i db' \<and>
    (\<exists>b. findAuth i db' = Some b \<and> au_refreshTokenHashes b = Some [])"
proof -
  from assms(1) obtain p where p: "jwtVerify env token (JWT_REFRESH_SECRET env) = Some p"
    "jp_type p = RefreshToken" "jp_sub p = i" by (auto simp: refreshFor_def)
  let ?db = "updateAuth i (\<lambda>a. a\<lparr>au_refreshTokenHashes := Some []\<rparr>) (revokeSessionsOf i db)"
  have "refreshTokens env token db = (Inl reuseDetected, ?db)"
    using p assms(2,3) findAuth_id [OF assms(2)] by (simp add: refreshTokens_def hashToken_def Let_def)
  moreover have "allRevoked i ?db" by (subst allRevoked_frame [of _ "revokeSessionsOf i db"]) simp_all
  moreover have "\<exists>b. findAuth i ?db = Some b \<and> au_refreshTokenHashes b = Some []"
    using assms(2) findAuth_id [OF assms(2)] by (simp add: findAuth_updateAuth)
  ultimately show ?thesis by blast
qed

lemma refresh_success:
  assumes "refreshTokens env token db = (Inr resp, db1)" and "refreshFor env token i"
  shows "\<exists>a. findAuth i db1 = Some a \<and>
    set (dtoOr (au_refreshTokenHashes a) []) \<subseteq>
      insert (sha256 env (tr_refreshToken resp)) (- {sha256 env token})"
proof -
  from assms(2) obtain p where p: "jwtVerify env token (JWT_REFRESH_SECRET env) = Some p"
    "jp_type p = RefreshToken" "jp_sub p = i" by (auto simp: refreshFor_def)
  from assms(1) p obtain a hs where a: "findAuth i db = Some a"
    and db1: "db1 = updateAuth (au_id a) (\<lambda>a. a\<lparr>au_refreshTokenHashes := Some (lastTen
      (filter (\<lambda>h. h \<noteq> sha256 env token) hs @ [sha256 env (tr_refreshToken resp)]))\<rparr>) db"
    by (auto simp: refreshTokens_def hashToken_def Let_def split: option.splits if_splits prod.splits)
  have "set (lastTen (filter (\<lambda>h. h \<noteq> x) hs @ [y])) \<subseteq> insert y (- {x})" for x y
    using set_drop_subset by (fastforce simp: lastTen_def)
  then show ?thesis
    using a findAuth_id [OF a] by (simp add: db1 findAuth_updateAuth dtoOr_def)
qed

text \<open>
  C24. Refresh tokens are single-use: after a refresh succeeded, presenting the same token again
  (still unexpired) is refused as reuse, all sessions of the account are revoked, and from then on
  every refresh token of the account, the one issued by the rotation included, is refused too.
  Assumed of the environment: the new token's SHA-256 differs from the old one's, and later
  requests hash and verify the old token alike.
\<close>

theorem refresh_token_is_single_use:
  assumes "refreshTokens env token db = (Inr resp, db1)" and "refreshFor env token i"
    and "sha256 env (tr_refreshToken resp) \<noteq> sha256 env token"
    and "refreshFor env2 token i" and "sha256 env2 token = sha256 env token"
    and "refreshFor env3 token3 i"
  shows "\<exists>db2. refreshTokens env2 token db1 = (Inl reuseDetected, db2) \<and> allRevoked i db2 \<and>
    fst (refreshTokens env3 token3 db2) = Inl reuseDetected"
proof -
  from refresh_success [OF assms(1,2)] obtain a where a: "findAuth i db1 = Some a"
    and sub: "set (dtoOr (au_refreshTokenHashes a) []) \<subseteq>
      insert (sha256 env (tr_refreshToken resp)) (- {sha256 env token})" by blast
  have notin: "sha256 env2 token \<notin> set (dtoOr (au_refreshTokenHashes a) [])"
    using sub assms(3,5) by auto
  from refresh_refused [OF assms(4) a notin] obtain db2 b where
    1: "refreshTokens env2 token db1 = (Inl reuseDetected, db2)" "allRevoked i db2"
    and 2: "findAuth i db2 = Some b" "au_refreshTokenHashes b = Some []" by blast
  from refresh_refused [OF assms(6) 2(1)] 2(2) have "fst (refreshTokens env3 token3 db2) = Inl reuseDetected"
    by (auto simp: dtoOr_def)
  with 1 show ?thesis by blast
qed

lemma openSession_hashes:
  assumes "openSession env dto ip agent a db = (Inr resp, db')" and "findAuth (au_id a) db = Some old"
    and "au_refreshTokenHashes a = None"
  shows "\<exists>b. findAuth (au_id a) db' = Some b \<and>
    au_refreshTokenHashes b = Some [sha256 env (tr_refreshToken resp)]"
  using assms
  by (auto simp: openSession_def Let_def hashToken_def dtoOr_def lastTen_def findAuth_updateAuth
      findAuth_saveAuth updateAuth_def row_of_map split: option.splits prod.splits)

lemma login_success:
  assumes "login env dto ip agent db = (Inr resp, db')" and "identity_inv db"
    and "findAuthByEmail (lg_email dto) db = Some a"
  shows "\<exists>b. findAuth (au_id a) db' = Some b \<and>
    au_refreshTokenHashes b = Some [sha256 env (tr_refreshToken resp)]"
proof -
  from assms(1,3) obtain c where c: "checkStatus env (loginView a) = Inr c"
    and os: "openSession env dto ip agent c db = (Inr resp, db')"
    by (auto simp: login_def split: sum.splits option.splits prod.splits)
  have "au_id c = au_id a" "au_refreshTokenHashes c = None" using checkStatus_cases [OF c] by simp_all
  with openSession_hashes [OF os] row_of_email_id [OF wf_identity [OF assms(2)] assms(3)]
  show ?thesis by auto
qed

text \<open>
  A login ends the sessions of all other devices: the handler reads the account without its
  hash column, so the list it stores holds the new token only. The refresh token of an earlier
  login, unexpired and never used, is then treated as reuse, and its refusal revokes every
  session of the account, the new one included. The code means to keep the last ten tokens.
\<close>

theorem login_invalidates_other_devices:
  assumes "identity_inv db" and "findAuthByEmail (lg_email dto) db = Some a"
    and "sha256 env1 oldToken \<in> set (dtoOr (au_refreshTokenHashes a) [])"
    and "login env dto ip agent db = (Inr resp, db1)"
    and "refreshFor env1 oldToken (au_id a)"
    and "sha256 env1 oldToken \<noteq> sha256 env (tr_refreshToken resp)"
  shows "\<exists>db2. refreshTokens env1 oldToken db1 = (Inl reuseDetected, db2) \<and> allRevoked (au_id a) db2"
proof -
  from login_success [OF assms(4,1,2)] obtain b where "findAuth (au_id a) db1 = Some b"
    "au_refreshTokenHashes b = Some [sha256 env (tr_refreshToken resp)]" by blast
  with refresh_refused [OF assms(5)] assms(6) show ?thesis by (fastforce simp: dtoOr_def)
qed

text \<open>
  Changing the password logs the account out everywhere: the new hash is stored, all its
  sessions are revoked and every refresh token of the account is refused afterwards.
\<close>

theorem password_change_revokes_everything:
  assumes "changePassword env i old new db = (Inr (), db1)" and "refreshFor env2 token i"
  shows "allRevoked i db1 \<and> fst (refreshTokens env2 token db1) = Inl reuseDetected \<and>
    (\<exists>a. findAuth i db1 = Some a \<and> au_passwordHash a = bcryptHash env new)"
proof -
  from assms(1) obtain row where row: "findAuth i db = Some row"
    and db1: "db1 = emit [PasswordChanged (au_id row)] (revokeSessionsOf (au_id row)
      (saveAuth ((hiddenColumns row)\<lparr>au_passwordHash := bcryptHash env new, au_refreshTokenHashes := Some []\<rparr>) db))"
    by (auto simp: changePassword_def Let_def split: option.splits if_splits)
  have id: "au_id row = i" by (rule findAuth_id [OF row])
  then have a: "\<exists>a. findAuth i db1 = Some a \<and> au_passwordHash a = bcryptHash env new \<and>
      au_refreshTokenHashes a = Some []"
    using row by (simp add: db1 findAuth_saveAuth)
  moreover have "allRevoked i db1"
    unfolding db1 id by (subst allRevoked_frame [OF emit_simps(3)]) simp
  ultimately show ?thesis
    using refresh_refused [OF assms(2)] by (fastforce simp: dtoOr_def)
qed

lemma ex_env_simps [simp]:
  "bcryptCompare ex_env p h = (h = CHR ''h'' # p)" "bcryptHash ex_env p = CHR ''h'' # p"
  "sha256 ex_env t = CHR ''#'' # t" "uuidv4 ex_env 0 = 7" "nowMs ex_env = 1000"
  "jwtVerify ex_env (c # cs) s = Some \<lparr>jp_sub = 4, jp_userId = 1, jp_email = ''ann@x.io'', jp_role = USER,
     jp_roles = [USER], jp_sessionId = 0, jp_type = (if c = CHR ''R'' then RefreshToken else AccessToken)\<rparr>"
  "jwtSign ex_env pl s e = (if jp_type pl = RefreshToken then CHR ''R'' else CHR ''A'') # natText (jp_sessionId pl)"
  by (simp_all add: ex_env_def)

lemma ex_tokens_differ: "natText 7 \<noteq> ''3''"
proof
  assume "natText 7 = ''3''"
  then have "parseInt ''3'' = Some 7" using parseInt_natText [of 7] by simp
  then show False by (simp add: parseInt_def isDigit_def isBlank_def digitVal_def)
qed

lemma ex_accounts_lookup:
  "findAuth 4 ex_accounts = Some ex_auth" "findAuthByEmail ''ann@x.io'' ex_accounts = Some ex_auth"
  "userOfAuth 4 ex_accounts = Some ex_user"
  by (simp_all add: ex_accounts_def ex_auth_def userOfAuth_def ex_identity_def ex_user_def)

lemma ex_refreshFor: "refreshFor ex_env (CHR ''R'' # cs) 4"
  by (simp add: refreshFor_def)

theorem refresh_token_is_single_use_witness:
  "\<exists>resp db1 db2. refreshTokens ex_env ''R3'' ex_accounts = (Inr resp, db1) \<and>
     refreshTokens ex_env ''R3'' db1 = (Inl reuseDetected, db2) \<and>
     fst (refreshTokens ex_env ''R7'' db2) = Inl reuseDetected"
proof -
  have "au_id ex_auth = 4" "au_refreshTokenHashes ex_auth = Some [''#R3'']" by (simp_all add: ex_auth_def)
  then obtain resp db1 where 1: "refreshTokens ex_env ''R3'' ex_accounts = (Inr resp, db1)"
    and "tr_refreshToken resp = CHR ''R'' # natText 7"
    by (auto simp: refreshTokens_def ex_accounts_lookup hashToken_def generateTokenPair_def tokenPayload_def
        dtoOr_def)
  moreover have "natText 7 \<noteq> ''3''" by (rule ex_tokens_differ)
  ultimately have "sha256 ex_env (tr_refreshToken resp) \<noteq> sha256 ex_env ''R3''"
    by simp
  from refresh_token_is_single_use [OF 1 ex_refreshFor this ex_refreshFor refl ex_refreshFor [of "''7''"]] 1
  show ?thesis by blast
qed

theorem login_invalidates_other_devices_witness:
  "\<exists>resp db1 db2. login ex_env (ex_login ''pw'') None None ex_accounts = (Inr resp, db1) \<and>
     refreshTokens ex_env ''R3'' db1 = (Inl reuseDetected, db2) \<and> allRevoked 4 db2"
proof -
  have dto: "lg_email (ex_login ''pw'') = ''ann@x.io''" by (simp add: ex_login_def)
  have a: "au_id ex_auth = 4" "au_refreshTokenHashes ex_auth = Some [''#R3'']" "au_status ex_auth = ACTIVE"
    "au_passwordHash ex_auth = ''hpw''" "\<not> au_is2FAEnabled ex_auth" by (simp_all add: ex_auth_def)
  have u: "userOfAuth 4 (saveAuth b ex_accounts) = Some ex_user" for b
    using ex_accounts_lookup(3) by (simp add: userOfAuth_def)
  obtain resp db1 where 1: "login ex_env (ex_login ''pw'') None None ex_accounts = (Inr resp, db1)"
    and "tr_refreshToken resp = CHR ''R'' # natText 7"
    using a u by (auto simp: login_def dto ex_accounts_lookup checkStatus_def checkFactors_def openSession_def
        generateTokenPair_def tokenPayload_def Let_def ex_login_def)
  moreover have "natText 7 \<noteq> ''3''" by (rule ex_tokens_differ)
  ultimately have "sha256 ex_env ''R3'' \<noteq> sha256 ex_env (tr_refreshToken resp)"
    by simp
  moreover have "sha256 ex_env ''R3'' \<in> set (dtoOr (au_refreshTokenHashes ex_auth) [])"
    by (simp add: a dtoOr_def)
  ultimately show ?thesis
    using login_invalidates_other_devices [OF ex_accounts_inv _ _ 1, of ex_auth ex_env "''R3''"] 1
    by (simp add: dto ex_accounts_lookup a ex_refreshFor)
qed

theorem password_change_revokes_everything_witness:
  "\<exists>db1. changePassword ex_env 4 ''pw'' ''new'' ex_accounts = (Inr (), db1) \<and> allRevoked 4 db1 \<and>
     fst (refreshTokens ex_env ''R3'' db1) = Inl reuseDetected"
proof -
  have "au_passwordHash ex_auth = ''hpw''" by (simp add: ex_auth_def)
  then obtain db1 where 1: "changePassword ex_env 4 ''pw'' ''new'' ex_accounts = (Inr (), db1)"
    by (simp add: changePassword_def ex_accounts_lookup Let_def)
  with password_change_revokes_everything [OF 1 ex_refreshFor [of "''3''"]] show ?thesis by blast
qed

section \<open>Suspension\<close>

lemma find_map_same:
  assumes "\<And>x. x \<in> set t \<Longrightarrow> P (g x) = P x"
  shows "find P (map g t) = map_option g (find P t)"
  using assms by (induction t) auto

text \<open>The activation token is never cleared: assigning \<open>undefined\<close> leaves the column as it is.\<close>

lemma activateAccount_success:
  assumes "identity_inv db" and "find (\<lambda>x. au_activationToken x = Some token) (idb_auths db) = Some a"
    and "au_activationTokenExpiry a = Some expiry" and "nowMs env \<le> expiry"
  shows "\<exists>db'. activateAccount env token db = (Inr (), db') \<and>
    (\<exists>b. find (\<lambda>x. au_activationToken x = Some token) (idb_auths db') = Some b \<and> au_id b = au_id a \<and>
       au_status b = ACTIVE \<and> au_activationTokenExpiry b = Some expiry)"
proof -
  let ?a = "a\<lparr>au_status := ACTIVE, au_activationToken := None, au_activationTokenExpiry := None\<rparr>"
  let ?b = "mergeAuth a ?a"
  note wf = wf_identity [OF assms(1)]
  have a: "findAuth (au_id a) db = Some a" by (rule find_row [OF wf assms(2)])
  have tok: "au_activationToken a = Some token" using find_Some_in [OF assms(2)] by simp
  have "find (\<lambda>x. au_activationToken x = Some token) (save_row au_id ?b (idb_auths db)) = Some ?b"
    by (rule find_save_row [OF _ assms(2)]) (use wf tok in \<open>simp_all add: wf_auths_def\<close>)
  then have "find (\<lambda>x. au_activationToken x = Some token) (idb_auths (saveAuth ?a db)) = Some ?b"
    using a by (simp add: saveAuth_def)
  then show ?thesis
    using assms(2-4) by (simp add: activateAccount_def Let_def)
qed

text \<open>
  A suspended user can lift its own suspension: an activation token is not consumed by the
  activation, so within its 24 hours it can be used again, and using it after an administrator
  suspended the account sets the account back to ACTIVE.
\<close>

theorem activation_token_lifts_suspension:
  assumes "identity_inv db" and "find (\<lambda>x. au_activationToken x = Some token) (idb_auths db) = Some a"
    and "au_activationTokenExpiry a = Some expiry" and "nowMs env \<le> expiry" and "nowMs env2 \<le> expiry"
    and "activateAccount env token db = (r, db1)"
    and "suspendUserStatus i db1 = Inr (u, db2)" and "u_authId u = Some (au_id a)"
  shows "(\<exists>b. findAuth (au_id a) db2 = Some b \<and> au_status b = SUSPENDED) \<and>
    (\<exists>db3. activateAccount env2 token db2 = (Inr (), db3) \<and>
       (\<exists>c. find (\<lambda>x. au_activationToken x = Some token) (idb_auths db3) = Some c \<and>
          au_id c = au_id a \<and> au_status c = ACTIVE))"
proof -
  let ?P = "\<lambda>x. au_activationToken x = Some token"
  let ?g = "\<lambda>x. if au_id x = au_id a then x\<lparr>au_status := SUSPENDED\<rparr> else x"
  from activateAccount_success [OF assms(1-4)] assms(6) obtain b where
    b: "find ?P (idb_auths db1) = Some b" "au_id b = au_id a" "au_activationTokenExpiry b = Some expiry"
    by auto
  have inv1: "identity_inv db1" using inv_activate [OF assms(1), of env token] assms(6) by simp
  have auths: "idb_auths db2 = map ?g (idb_auths db1)"
    using assms(7,8) by (auto simp: suspendUserStatus_def updateUserStatus_def userFindOne_def Let_def
        saveUser_Inr split: option.splits if_splits)
  have inv2: "identity_inv db2"
    using inv_userRequest [OF inv1, of "UpdateUserStatus i SUSPENDED"] assms(7)
    by (simp add: suspendUserStatus_def commit_def)
  have "find ?P (idb_auths db2) = Some (?g b)"
    unfolding auths by (subst find_map_same) (simp_all add: b(1))
  then have find2: "find ?P (idb_auths db2) = Some (b\<lparr>au_status := SUSPENDED\<rparr>)" by (simp add: b(2))
  from activateAccount_success [OF inv2 find2 _ assms(5)] b(2,3) have
    "\<exists>db3. activateAccount env2 token db2 = (Inr (), db3) \<and>
       (\<exists>c. find ?P (idb_auths db3) = Some c \<and> au_id c = au_id a \<and> au_status c = ACTIVE)" by auto
  moreover from find_row [OF wf_identity [OF inv2] find2] b(2) have
    "\<exists>b. findAuth (au_id a) db2 = Some b \<and> au_status b = SUSPENDED" by simp
  ultimately show ?thesis by blast
qed

text \<open>The columns of the profile that the login and the tokens read, the roles apart.\<close>

definition sameProfile :: "User \<Rightarrow> User \<Rightarrow> bool" where
  "sameProfile u v \<longleftrightarrow> u_id u = u_id v \<and> u_authId u = u_authId v \<and> u_username u = u_username v \<and>
     u_email u = u_email v \<and> u_firstName u = u_firstName v \<and> u_lastName u = u_lastName v \<and>
     u_role u = u_role v \<and> u_status u = u_status v \<and> u_createdAt u = u_createdAt v"

lemma suspendUser_row:
  assumes "suspendUser i reason hours by_id now db = Inr (u, db')"
  shows "\<exists>v. findUser i db = Some v \<and> idb_users db' = save_row u_id u (idb_users db) \<and>
    idb_auths db' = idb_auths db \<and> u_roles u = effectiveRoles v \<and> sameProfile u v"
proof -
  from assms obtain v where v: "findUser i db = Some v" by (cases "findUser i db") (simp_all add: suspendUser_def)
  let ?w = "v\<lparr>u_isSuspended := True, u_suspendedAt := Some now, u_suspensionReason := Some reason,
    u_suspensionExpiresAt := (case hours of None \<Rightarrow> None | Some h \<Rightarrow> if h = 0 then None else Some (now + h * 3600000))\<rparr>"
  from assms v obtain db1 es where w: "saveUser ?w db = Inr (u, db1)" and db': "db' = emit es db1"
    by (auto simp: suspendUser_def Let_def split: if_splits)
  have eff: "effectiveRoles ?w = effectiveRoles v" by (simp add: effectiveRoles_def)
  from w have "u = ?w\<lparr>u_roles := effectiveRoles v\<rparr>" "db1 = db\<lparr>idb_users := save_row u_id u (idb_users db)\<rparr>"
    unfolding saveUser_Inr eff by blast+
  with v db' show ?thesis by (auto simp: sameProfile_def)
qed

text \<open>
  Suspending a user in the identity administration does not keep it from logging in: the
  suspension sets a flag of the profile that the login never reads, so every login has the same
  outcome, tokens included, as before the suspension.
\<close>

theorem admin_suspension_does_not_stop_login:
  assumes "identity_inv db" and "suspendUser i reason hours by_id now db = Inr (u, db')"
  shows "fst (login env dto ip agent db') = fst (login env dto ip agent db)"
proof -
  from suspendUser_row [OF assms(2)] obtain v where v: "findUser i db = Some v"
    and db': "idb_users db' = save_row u_id u (idb_users db)" "idb_auths db' = idb_auths db"
    and roles: "u_roles u = effectiveRoles v" and profile: "sameProfile u v"
    by blast
  have wfu: "wf_users (idb_users db)" using assms(1) by (simp add: identity_inv_def)
  have "u_roles u = u_roles v" using roles wf_user_effective [OF wf_users_lookup [OF wfu v]] by simp
  with profile have vu: "u_id u = u_id v" "u_authId u = u_authId v" "sanitizeUser u = sanitizeUser v"
    "u_role u = u_role v" "u_roles u = u_roles v"
    by (simp_all add: sameProfile_def sanitizeUser_def)
  let ?g = "\<lambda>x. if u_id x = u_id u then u else x"
  have same: "x = v" if "x \<in> set (idb_users db)" "u_id x = u_id u" for x
    using that row_of_Some_in [OF v] vu(1) wfu by (auto simp: wf_users_def keyed_def distinct_map dest: inj_onD)
  have users: "idb_users db' = map ?g (idb_users db)"
    using row_of_Some_in [OF v] vu(1) unfolding db' save_row_def by (auto simp: list_ex_iff)
  have find: "userOfAuth k db' = map_option ?g (userOfAuth k db)" for k
    unfolding userOfAuth_def users by (rule find_map_same) (use same vu(2) in auto)
  have view: "sanitizeUser (?g x) = sanitizeUser x \<and> u_id (?g x) = u_id x \<and> u_role (?g x) = u_role x \<and>
      u_roles (?g x) = u_roles x" if "userOfAuth k db = Some x" for k x
    using that same vu find_Some_in unfolding userOfAuth_def by fastforce
  have "fst (openSession env dto ip agent a db') = fst (openSession env dto ip agent a db)" for a
  proof (cases "userOfAuth (au_id a) db")
    case None
    then show ?thesis using find [of "au_id a"] by (simp add: openSession_def userOfAuth_def)
  next
    case (Some x)
    with find [of "au_id a"] have f: "userOfAuth (au_id a) db' = Some (?g x)" by simp
    have saved: "userOfAuth k (saveAuth b s) = userOfAuth k s" for k b s by (simp add: userOfAuth_def)
    show ?thesis
      using view [OF Some]
      by (simp add: openSession_def Let_def saved f Some generateTokenPair_def tokenPayload_def)
  qed
  then show ?thesis by (simp add: login_def db' split: option.split sum.split prod.split)
qed

lemma ex_suspend:
  "\<exists>u db'. suspendUser 1 ''fraud'' None ''2'' 5 ex_accounts = Inr (u, db')"
proof -
  have wf: "wf_users (idb_users ex_accounts)" using ex_accounts_inv by (simp add: identity_inv_def)
  have f: "findUser 1 ex_accounts = Some ex_user" using ex_identity_wf(2) by (simp add: ex_accounts_def)
  let ?w = "ex_user\<lparr>u_isSuspended := True, u_suspendedAt := Some 5, u_suspensionReason := Some ''fraud'',
    u_suspensionExpiresAt := None\<rparr>"
  have "saveUser ?w ex_accounts = Inr (?w, ex_accounts\<lparr>idb_users := save_row u_id ?w (idb_users ex_accounts)\<rparr>)"
    by (rule saveUser_normal [OF wf f]) (simp_all add: ex_user_def wf_user_def separated_def)
  moreover have "\<not> u_isSuspended ex_user" "SUPER_ADMIN \<notin> set (u_roles ex_user)"
    by (simp_all add: ex_user_def)
  ultimately show ?thesis unfolding suspendUser_def f by simp
qed

theorem admin_suspension_does_not_stop_login_witness:
  "\<exists>u db'. suspendUser 1 ''fraud'' None ''2'' 5 ex_accounts = Inr (u, db') \<and>
     fst (login ex_env (ex_login ''pw'') None None db') =
     fst (login ex_env (ex_login ''pw'') None None ex_accounts)"
  using ex_suspend admin_suspension_does_not_stop_login [OF ex_accounts_inv] by blast

theorem activation_token_lifts_suspension_witness:
  "\<exists>db1 u db2 db3. activateAccount ex_env 5 ex_accounts = (Inr (), db1) \<and>
     suspendUserStatus 1 db1 = Inr (u, db2) \<and> activateAccount ex_env 5 db2 = (Inr (), db3)"
proof -
  have row: "find (\<lambda>x. au_activationToken x = Some 5) (idb_auths ex_accounts) = Some ex_auth"
    and exp: "au_activationTokenExpiry ex_auth = Some 86400000" and now: "nowMs ex_env \<le> 86400000"
    by (simp_all add: ex_accounts_def ex_auth_def)
  from activateAccount_success [OF ex_accounts_inv row exp now] obtain db1
    where 1: "activateAccount ex_env 5 ex_accounts = (Inr (), db1)" by blast
  let ?u = "ex_user\<lparr>u_status := SUSPENDED\<rparr>"
  have db1: "idb_users db1 = [ex_user]"
    using 1 by (auto simp: activateAccount_def row exp Let_def ex_accounts_def ex_identity_def ex_auth_def ex_user_def
        split: if_splits)
  have wf: "wf_users (idb_users db1)" using db1 ex_identity_wf(1) by (simp add: ex_identity_def)
  have f: "findUser 1 db1 = Some ex_user" unfolding db1 by (simp add: ex_user_def)
  have "saveUser ?u db1 = Inr (?u, db1\<lparr>idb_users := save_row u_id ?u (idb_users db1)\<rparr>)"
    by (rule saveUser_normal [OF wf f]) (simp_all add: ex_user_def wf_user_def separated_def)
  moreover have "u_status ex_user \<noteq> SUSPENDED" "u_authId ?u = Some (au_id ex_auth)"
    by (simp_all add: ex_user_def ex_auth_def)
  ultimately obtain db2 where 2: "suspendUserStatus 1 db1 = Inr (?u, db2)"
    unfolding suspendUserStatus_def updateUserStatus_def userFindOne_def f by simp
  from activation_token_lifts_suspension [OF ex_accounts_inv row exp now now 1 2] 1 2
  show ?thesis by (auto simp: ex_user_def ex_auth_def)
qed

section \<open>Second factors and the attempt limiter\<close>

text \<open>
  Setting up a second factor again replaces the stored secret of an account whose second factor is
  already enabled, with no code asked for: the next login is checked against the new secret.
\<close>

lemma setup_replaces_active_secret:
  assumes "findAuth i db = Some a" and "au_is2FAEnabled a"
  shows "\<exists>db' b. setup2FA env i Totp phone db = (Inr (TotpSetup (totpSecret env)), db') \<and>
    findAuth i db' = Some b \<and> au_is2FAEnabled b \<and> au_totpSecret b = Some (totpSecret env)"
  using assms findAuth_id [OF assms(1)] by (simp add: setup2FA_def findAuth_saveAuth)

text \<open>The limiter refuses the sixth attempt as long as no 15 minutes pass after an accepted one.\<close>

lemma authRateLimit_refuses:
  "m key = Some (MAX_ATTEMPTS, t) \<Longrightarrow> now - t \<le> WINDOW_MS \<Longrightarrow> authRateLimit key now m = (False, m)"
  by (simp add: authRateLimit_def)

lemma authRateLimit_bound:
  assumes "\<forall>k c t. m k = Some (c, t) \<longrightarrow> c \<le> MAX_ATTEMPTS"
  shows "\<forall>k c t. snd (authRateLimit key now m) k = Some (c, t) \<longrightarrow> c \<le> MAX_ATTEMPTS"
  using assms by (auto simp: authRateLimit_def MAX_ATTEMPTS_def split: option.splits if_splits prod.splits)

end
