(* ===== verification/Institutional.thy ===== *)
theory Institutional
  imports OrdersService
begin

text \<open>
  The institutional portal, \<open>src/institutional\<close>: client profiles with their default service-level
  policies, bulk trades, reconciliation reports, the monitoring of service levels and the support
  tickets with their deadlines.

  The state extends the one of the order service, since bulk trades write its balances and
  orders. Batch ids and measured run times are left out of the responses. A ticket number is the
  pair of the clock and the counter its text is made of. A column that is NULL is \<open>null\<close> in a loaded
  entity and never \<open>undefined\<close>, which is what the ticket service compares with.
\<close>

section \<open>Data\<close>

datatype SlaTier = PLATINUM | GOLD | SILVER

datatype SlaMetricType =
  API_RESPONSE_TIME | TRADE_EXECUTION_TIME | SYSTEM_UPTIME | SUPPORT_RESPONSE_TIME | REPORTING_LATENCY

datatype SlaUnit = PERCENT | MILLISECONDS | SECONDS | MINUTES

datatype SlaViolationSeverity = WARNING_LEVEL | CRITICAL_LEVEL

datatype TicketStatus = OPEN | IN_PROGRESS | WAITING_ON_CLIENT | ESCALATED | RESOLVED | CLOSED

datatype TicketPriority = LOW | MEDIUM | HIGH | CRITICAL

datatype TicketCategory = GENERAL | TRADING | TECHNICAL | COMPLIANCE | BILLING | ONBOARDING

datatype ReconciliationReportStatus = REPORT_PENDING | GENERATING | COMPLETED | FAILED

datatype ReconciliationReportType = DAILY | WEEKLY | MONTHLY | CUSTOM

record InstitutionalClient =
  ic_id :: uuid
  ic_userId :: uid
  ic_companyName :: string
  ic_lei :: "string option"
  ic_taxId :: "string option"
  ic_jurisdiction :: "string option"
  ic_accountManagerId :: "uid option"
  ic_slaTier :: SlaTier
  ic_maxTradesPerSecond :: nat
  ic_maxApiRequestsPerSecond :: nat
  ic_dailyVolumeLimit :: real
  ic_isActive :: bool
  ic_ipWhitelist :: "string list option"
  ic_webhookUrl :: "string option"
  ic_metadata :: "string option"
  ic_createdAt :: timestamp

record SlaPolicy =
  sp_id :: uuid
  sp_clientId :: uuid
  sp_metricType :: SlaMetricType
  sp_targetValue :: real
  sp_unit :: SlaUnit
  sp_warningThreshold :: "real option"
  sp_criticalThreshold :: "real option"
  sp_isActive :: bool
  sp_currentValue :: "real option"
  sp_lastEvaluatedAt :: "timestamp option"
  sp_isViolated :: bool
  sp_lastViolatedAt :: "timestamp option"

record SlaViolation =
  sv_id :: uuid
  sv_policyId :: uuid
  sv_clientId :: uuid
  sv_measuredValue :: real
  sv_targetValue :: real
  sv_severity :: SlaViolationSeverity
  sv_isResolved :: bool
  sv_resolvedAt :: "timestamp option"
  sv_resolvedBy :: "string option"
  sv_notes :: "string option"
  sv_createdAt :: timestamp

record SupportTicket =
  tk_id :: uuid
  tk_ticketNumber :: "timestamp \<times> nat"
  tk_clientId :: uuid
  tk_createdById :: uid
  tk_subject :: string
  tk_description :: string
  tk_category :: TicketCategory
  tk_priority :: TicketPriority
  tk_status :: TicketStatus
  tk_assignedToId :: "uid option"
  tk_accountManagerId :: "uid option"
  tk_slaResponseDeadline :: "timestamp option"
  tk_slaResolutionDeadline :: "timestamp option"
  tk_slaResponseMet :: "bool option"
  tk_slaResolutionMet :: "bool option"
  tk_internalNotes :: "string option"
  tk_resolvedAt :: "timestamp option"
  tk_closedAt :: "timestamp option"
  tk_createdAt :: timestamp

record report_metadata =
  rm_totalOrders :: nat
  rm_filledOrders :: nat
  rm_cancelledOrders :: nat
  rm_partialOrders :: nat
  rm_assets :: "asset_id list"

record ReconciliationReport =
  rr_id :: uuid
  rr_clientId :: uuid
  rr_reportDate :: int
  rr_reportType :: ReconciliationReportType
  rr_totalTrades :: nat
  rr_totalBuyVolume :: real
  rr_totalSellVolume :: real
  rr_netPnl :: real
  rr_totalFees :: real
  rr_openingBalance :: real
  rr_closingBalance :: real
  rr_discrepancy :: real
  rr_isReconciled :: bool
  rr_status :: ReconciliationReportStatus
  rr_metadata :: "report_metadata option"

datatype inst_event =
    SlaViolationCreated uuid uuid SlaMetricType real
  | SlaWarning uuid SlaMetricType real
  | SlaViolationResolved uuid uuid
  | TicketCreated uuid TicketPriority timestamp
  | TicketUpdated uuid TicketStatus
  | TicketEscalated uuid TicketPriority string

record inst_db = order_db +
  in_clients :: "InstitutionalClient list"
  in_policies :: "SlaPolicy list"
  in_violations :: "SlaViolation list"
  in_tickets :: "SupportTicket list"
  in_ticketCounter :: nat
  in_reports :: "ReconciliationReport list"
  in_events :: "inst_event list"

section \<open>Tables of targets\<close>

record sla_target =
  st_target :: real
  st_unit :: SlaUnit
  st_warning :: real
  st_critical :: real

abbreviation slaTarget :: "real \<Rightarrow> SlaUnit \<Rightarrow> real \<Rightarrow> real \<Rightarrow> sla_target" where
  "slaTarget t u w c \<equiv> \<lparr>st_target = t, st_unit = u, st_warning = w, st_critical = c\<rparr>"

fun DEFAULT_SLA_TARGETS :: "SlaTier \<Rightarrow> (SlaMetricType \<times> sla_target) list" where
  "DEFAULT_SLA_TARGETS PLATINUM =
     [(API_RESPONSE_TIME, slaTarget 50 MILLISECONDS 80 150),
      (TRADE_EXECUTION_TIME, slaTarget 10 MILLISECONDS 25 50),
      (SYSTEM_UPTIME, slaTarget (9999 / 100) PERCENT (9995 / 100) (999 / 10)),
      (SUPPORT_RESPONSE_TIME, slaTarget 5 MINUTES 10 15),
      (REPORTING_LATENCY, slaTarget 30 SECONDS 60 120)]"
| "DEFAULT_SLA_TARGETS GOLD =
     [(API_RESPONSE_TIME, slaTarget 100 MILLISECONDS 200 500),
      (TRADE_EXECUTION_TIME, slaTarget 25 MILLISECONDS 50 100),
      (SYSTEM_UPTIME, slaTarget (9995 / 100) PERCENT (999 / 10) (995 / 10)),
      (SUPPORT_RESPONSE_TIME, slaTarget 15 MINUTES 30 60),
      (REPORTING_LATENCY, slaTarget 60 SECONDS 120 300)]"
| "DEFAULT_SLA_TARGETS SILVER =
     [(API_RESPONSE_TIME, slaTarget 200 MILLISECONDS 500 1000),
      (TRADE_EXECUTION_TIME, slaTarget 50 MILLISECONDS 100 250),
      (SYSTEM_UPTIME, slaTarget (999 / 10) PERCENT (995 / 10) 99),
      (SUPPORT_RESPONSE_TIME, slaTarget 30 MINUTES 60 120),
      (REPORTING_LATENCY, slaTarget 120 SECONDS 300 600)]"

fun TICKET_SLA_RESPONSE_MINUTES :: "TicketPriority \<Rightarrow> SlaTier \<Rightarrow> int" where
  "TICKET_SLA_RESPONSE_MINUTES CRITICAL PLATINUM = 5"
| "TICKET_SLA_RESPONSE_MINUTES CRITICAL GOLD = 15"
| "TICKET_SLA_RESPONSE_MINUTES CRITICAL SILVER = 30"
| "TICKET_SLA_RESPONSE_MINUTES HIGH PLATINUM = 15"
| "TICKET_SLA_RESPONSE_MINUTES HIGH GOLD = 30"
| "TICKET_SLA_RESPONSE_MINUTES HIGH SILVER = 60"
| "TICKET_SLA_RESPONSE_MINUTES MEDIUM PLATINUM = 30"
| "TICKET_SLA_RESPONSE_MINUTES MEDIUM GOLD = 60"
| "TICKET_SLA_RESPONSE_MINUTES MEDIUM SILVER = 240"
| "TICKET_SLA_RESPONSE_MINUTES LOW PLATINUM = 60"
| "TICKET_SLA_RESPONSE_MINUTES LOW GOLD = 240"
| "TICKET_SLA_RESPONSE_MINUTES LOW SILVER = 480"

fun TICKET_SLA_RESOLUTION_MINUTES :: "TicketPriority \<Rightarrow> SlaTier \<Rightarrow> int" where
  "TICKET_SLA_RESOLUTION_MINUTES CRITICAL PLATINUM = 60"
| "TICKET_SLA_RESOLUTION_MINUTES CRITICAL GOLD = 240"
| "TICKET_SLA_RESOLUTION_MINUTES CRITICAL SILVER = 480"
| "TICKET_SLA_RESOLUTION_MINUTES HIGH PLATINUM = 240"
| "TICKET_SLA_RESOLUTION_MINUTES HIGH GOLD = 480"
| "TICKET_SLA_RESOLUTION_MINUTES HIGH SILVER = 1440"
| "TICKET_SLA_RESOLUTION_MINUTES MEDIUM PLATINUM = 480"
| "TICKET_SLA_RESOLUTION_MINUTES MEDIUM GOLD = 1440"
| "TICKET_SLA_RESOLUTION_MINUTES MEDIUM SILVER = 2880"
| "TICKET_SLA_RESOLUTION_MINUTES LOW PLATINUM = 1440"
| "TICKET_SLA_RESOLUTION_MINUTES LOW GOLD = 2880"
| "TICKET_SLA_RESOLUTION_MINUTES LOW SILVER = 4320"

section \<open>Client profiles\<close>

record ClientDto =
  cd_userId :: uid
  cd_companyName :: "string option"
  cd_lei :: "string option"
  cd_taxId :: "string option"
  cd_jurisdiction :: "string option"
  cd_accountManagerId :: "uid option"
  cd_slaTier :: "SlaTier option"
  cd_maxTradesPerSecond :: "nat option"
  cd_maxApiRequestsPerSecond :: "nat option"
  cd_dailyVolumeLimit :: "real option"
  cd_ipWhitelist :: "string list option"
  cd_webhookUrl :: "string option"
  cd_metadata :: "string option"

definition givenOr :: "'a option \<Rightarrow> 'a \<Rightarrow> 'a" where
  "givenOr v d = (case v of None \<Rightarrow> d | Some x \<Rightarrow> x)"

definition givenElse :: "'a option \<Rightarrow> 'a option \<Rightarrow> 'a option" where
  "givenElse v d = (case v of None \<Rightarrow> d | Some x \<Rightarrow> Some x)"

definition saveClient :: "InstitutionalClient \<Rightarrow> inst_db \<Rightarrow> inst_db" where
  "saveClient c db = db\<lparr>in_clients := save_row ic_id c (in_clients db)\<rparr>"

definition findByUserId :: "uid \<Rightarrow> inst_db \<Rightarrow> InstitutionalClient result" where
  "findByUserId userId db =
     (case find (\<lambda>c. ic_userId c = userId) (in_clients db) of
        None \<Rightarrow> Inl (NotFoundException ''No institutional client profile found for user'')
      | Some c \<Rightarrow> Inr c)"

definition findClientById :: "uuid \<Rightarrow> inst_db \<Rightarrow> InstitutionalClient result" where
  "findClientById i db =
     (case row_of ic_id i (in_clients db) of
        None \<Rightarrow> Inl (NotFoundException ''Institutional client not found'') | Some c \<Rightarrow> Inr c)"

definition defaultPolicy :: "InstitutionalClient \<Rightarrow> SlaMetricType \<times> sla_target \<Rightarrow> SlaPolicy list \<Rightarrow> SlaPolicy list" where
  "defaultPolicy client entry ps =
     ps @ [\<lparr>sp_id = unusedId (map sp_id ps), sp_clientId = ic_id client, sp_metricType = fst entry,
       sp_targetValue = st_target (snd entry), sp_unit = st_unit (snd entry),
       sp_warningThreshold = Some (st_warning (snd entry)),
       sp_criticalThreshold = Some (st_critical (snd entry)), sp_isActive = True,
       sp_currentValue = None, sp_lastEvaluatedAt = None, sp_isViolated = False, sp_lastViolatedAt = None\<rparr>]"

definition createDefaultSlaPolicies :: "InstitutionalClient \<Rightarrow> inst_db \<Rightarrow> inst_db" where
  "createDefaultSlaPolicies client db =
     db\<lparr>in_policies := fold (defaultPolicy client) (DEFAULT_SLA_TARGETS (ic_slaTier client)) (in_policies db)\<rparr>"

definition createClient :: "ClientDto \<Rightarrow> timestamp \<Rightarrow> inst_db \<Rightarrow> (InstitutionalClient \<times> inst_db) result" where
  "createClient dto now db =
     (if find (\<lambda>c. ic_userId c = cd_userId dto) (in_clients db) \<noteq> None
      then Inl (ConflictException ''Institutional client profile already exists for user'')
      else let client = \<lparr>ic_id = unusedId (map ic_id (in_clients db)), ic_userId = cd_userId dto,
                 ic_companyName = givenOr (cd_companyName dto) [], ic_lei = cd_lei dto, ic_taxId = cd_taxId dto,
                 ic_jurisdiction = cd_jurisdiction dto, ic_accountManagerId = cd_accountManagerId dto,
                 ic_slaTier = givenOr (cd_slaTier dto) GOLD,
                 ic_maxTradesPerSecond = givenOr (cd_maxTradesPerSecond dto) 1000,
                 ic_maxApiRequestsPerSecond = givenOr (cd_maxApiRequestsPerSecond dto) 5000,
                 ic_dailyVolumeLimit = givenOr (cd_dailyVolumeLimit dto) 0, ic_isActive = True,
                 ic_ipWhitelist = cd_ipWhitelist dto, ic_webhookUrl = cd_webhookUrl dto,
                 ic_metadata = cd_metadata dto, ic_createdAt = now\<rparr>
           in Inr (client, createDefaultSlaPolicies client (saveClient client db)))"

record client_filters =
  cf_slaTier :: "SlaTier option"
  cf_isActive :: "bool option"
  cf_accountManagerId :: "uid option"

definition findAllClients :: "client_filters \<Rightarrow> inst_db \<Rightarrow> InstitutionalClient list" where
  "findAllClients f db =
     sort_key (\<lambda>c. - ic_createdAt c) (filter (\<lambda>c.
       (case cf_slaTier f of None \<Rightarrow> True | Some t \<Rightarrow> ic_slaTier c = t) \<and>
       (case cf_isActive f of None \<Rightarrow> True | Some b \<Rightarrow> ic_isActive c = b) \<and>
       (case cf_accountManagerId f of None \<Rightarrow> True
        | Some m \<Rightarrow> m = 0 \<or> ic_accountManagerId c = Some m)) (in_clients db))"

text \<open>Deleting policies deletes their violations with them.\<close>

definition deletePolicies :: "uuid \<Rightarrow> inst_db \<Rightarrow> inst_db" where
  "deletePolicies clientId db =
     (let gone = map sp_id (filter (\<lambda>p. sp_clientId p = clientId) (in_policies db))
      in db\<lparr>in_policies := filter (\<lambda>p. sp_clientId p \<noteq> clientId) (in_policies db),
            in_violations := filter (\<lambda>v. sv_policyId v \<notin> set gone) (in_violations db)\<rparr>)"

definition updateClient :: "uuid \<Rightarrow> ClientDto \<Rightarrow> inst_db \<Rightarrow> (InstitutionalClient \<times> inst_db) result" where
  "updateClient i up db =
     rbind (findClientById i db) (\<lambda>client.
       let client1 = client\<lparr>ic_companyName := givenOr (cd_companyName up) (ic_companyName client),
             ic_lei := givenElse (cd_lei up) (ic_lei client),
             ic_taxId := givenElse (cd_taxId up) (ic_taxId client),
             ic_jurisdiction := givenElse (cd_jurisdiction up) (ic_jurisdiction client),
             ic_accountManagerId := givenElse (cd_accountManagerId up) (ic_accountManagerId client),
             ic_maxTradesPerSecond := givenOr (cd_maxTradesPerSecond up) (ic_maxTradesPerSecond client),
             ic_maxApiRequestsPerSecond := givenOr (cd_maxApiRequestsPerSecond up) (ic_maxApiRequestsPerSecond client),
             ic_dailyVolumeLimit := givenOr (cd_dailyVolumeLimit up) (ic_dailyVolumeLimit client),
             ic_ipWhitelist := givenElse (cd_ipWhitelist up) (ic_ipWhitelist client),
             ic_webhookUrl := givenElse (cd_webhookUrl up) (ic_webhookUrl client),
             ic_metadata := givenElse (cd_metadata up) (ic_metadata client)\<rparr>
       in case cd_slaTier up of
            None \<Rightarrow> Inr (client1, saveClient client1 db)
          | Some tier \<Rightarrow>
              if tier \<noteq> ic_slaTier client1
              then let client2 = client1\<lparr>ic_slaTier := tier\<rparr>
                   in Inr (client2, saveClient client2 (createDefaultSlaPolicies client2 (deletePolicies i db)))
              else Inr (client1, saveClient client1 db))"

definition setClientActive :: "bool \<Rightarrow> uuid \<Rightarrow> inst_db \<Rightarrow> (InstitutionalClient \<times> inst_db) result" where
  "setClientActive b i db =
     rbind (findClientById i db) (\<lambda>client.
       let client' = client\<lparr>ic_isActive := b\<rparr> in Inr (client', saveClient client' db))"

definition deactivateClient :: "uuid \<Rightarrow> inst_db \<Rightarrow> (InstitutionalClient \<times> inst_db) result" where
  "deactivateClient i db = setClientActive False i db"

definition activateClient :: "uuid \<Rightarrow> inst_db \<Rightarrow> (InstitutionalClient \<times> inst_db) result" where
  "activateClient i db = setClientActive True i db"

section \<open>Bulk trades\<close>

record BulkTradeItemDto =
  bi_assetId :: asset_id
  bi_side :: OrderSide
  bi_type :: OrderType
  bi_amount :: real
  bi_price :: "real option"
  bi_stopPrice :: "real option"
  bi_clientOrderId :: "int option"

definition positiveWhenGiven :: "real option \<Rightarrow> bool" where
  "positiveWhenGiven v = (case v of None \<Rightarrow> True | Some x \<Rightarrow> 0 < x)"

definition validBulkItem :: "BulkTradeItemDto \<Rightarrow> bool" where
  "validBulkItem dto =
     (bi_type dto \<noteq> TRAILING_STOP \<and> 0 < bi_amount dto \<and>
      positiveWhenGiven (bi_price dto) \<and> positiveWhenGiven (bi_stopPrice dto))"

definition validBulkTradeDto :: "BulkTradeItemDto list \<Rightarrow> bool" where
  "validBulkTradeDto trades = (1 \<le> length trades \<and> length trades \<le> 500 \<and> list_all validBulkItem trades)"

record BulkTradeResult =
  br_index :: nat
  br_success :: bool
  br_orderId :: "uuid option"
  br_status :: "OrderStatus option"
  br_error :: "exn option"
  br_clientOrderId :: "int option"

record BulkTradeResponse =
  bt_totalRequested :: nat
  bt_successCount :: nat
  bt_failureCount :: nat
  bt_results :: "BulkTradeResult list"

definition validateBulkTradeItem :: "BulkTradeItemDto \<Rightarrow> unit result" where
  "validateBulkTradeItem dto =
     (if bi_type dto = LIMIT \<and> bi_price dto = None
      then Inl (JsError ''price is required for LIMIT orders'')
      else if (bi_type dto = STOP_LOSS \<or> bi_type dto = TAKE_PROFIT) \<and> bi_stopPrice dto = None
      then Inl (JsError ''stopPrice is required for STOP_LOSS / TAKE_PROFIT orders'')
      else throw_unless (\<not> bi_amount dto \<le> 0) (JsError ''amount must be positive''))"

definition bulkReserve :: "uid \<Rightarrow> BulkTradeItemDto \<Rightarrow> 'a order_db_scheme \<Rightarrow> 'a order_db_scheme result" where
  "bulkReserve userId dto db =
     (if bi_side dto = SELL then
        (case findBalance userId (bi_assetId dto) (od_balances db) of
           None \<Rightarrow> Inl (JsError ''Insufficient available balance'')
         | Some b \<Rightarrow>
             if availableBalance b < bi_amount dto then Inl (JsError ''Insufficient available balance'')
             else Inr (db\<lparr>od_balances := saveBalance
                    (b\<lparr>b_lockedBalance := b_lockedBalance b + bi_amount dto\<rparr>) (od_balances db)\<rparr>))
      else Inr db)"

definition bulkOrder :: "timestamp \<Rightarrow> uuid \<Rightarrow> uid \<Rightarrow> BulkTradeItemDto \<Rightarrow> Order" where
  "bulkOrder now newId userId dto =
     \<lparr>o_id = newId, o_userId = userId, o_assetId = bi_assetId dto, o_side = bi_side dto,
      o_type = bi_type dto, o_status = PENDING, o_amount = bi_amount dto, o_filledAmount = 0,
      o_averageFillPrice = None,
      o_price = (if bi_type dto = LIMIT then bi_price dto else None),
      o_stopPrice = (if bi_type dto = STOP_LOSS \<or> bi_type dto = TAKE_PROFIT then bi_stopPrice dto else None),
      o_trailingDelta = None, o_trailingReferencePrice = None, o_triggeredAt = None, o_filledAt = None,
      o_cancelledAt = None, o_expiresAt = None, o_createdAt = now\<rparr>"

definition createOrderFromBulk ::
  "timestamp \<Rightarrow> uid \<Rightarrow> BulkTradeItemDto \<Rightarrow> 'a order_db_scheme \<Rightarrow> (Order \<times> 'a order_db_scheme) result" where
  "createOrderFromBulk now userId dto db =
     rbind (validateBulkTradeItem dto) (\<lambda>_.
       rbind (bulkReserve userId dto db) (\<lambda>db1.
         let order = bulkOrder now (unusedId (map o_id (bk_orders db))) userId dto
         in Inr (order, saveOrder order db1)))"

definition bulkSuccess :: "nat \<Rightarrow> BulkTradeItemDto \<Rightarrow> Order \<Rightarrow> BulkTradeResult" where
  "bulkSuccess i dto order = \<lparr>br_index = i, br_success = True, br_orderId = Some (o_id order),
     br_status = Some (o_status order), br_error = None, br_clientOrderId = bi_clientOrderId dto\<rparr>"

definition bulkFailure :: "nat \<Rightarrow> BulkTradeItemDto \<Rightarrow> exn \<Rightarrow> BulkTradeResult" where
  "bulkFailure i dto e = \<lparr>br_index = i, br_success = False, br_orderId = None, br_status = None,
     br_error = Some e, br_clientOrderId = bi_clientOrderId dto\<rparr>"

definition bulkResponse :: "nat \<Rightarrow> BulkTradeResult list \<Rightarrow> BulkTradeResponse" where
  "bulkResponse n results = \<lparr>bt_totalRequested = n, bt_successCount = length (filter br_success results),
     bt_failureCount = length (filter (\<lambda>r. \<not> br_success r) results), bt_results = results\<rparr>"

fun atomicLoop ::
  "timestamp \<Rightarrow> uid \<Rightarrow> nat \<Rightarrow> BulkTradeItemDto list \<Rightarrow> 'a order_db_scheme \<Rightarrow>
     (BulkTradeResult list \<times> 'a order_db_scheme) result" where
  "atomicLoop now userId i [] db = Inr ([], db)"
| "atomicLoop now userId i (trade # trades) db =
     (case createOrderFromBulk now userId trade db of
        Inl e \<Rightarrow> Inl (BadRequestException ''Trade at index failed'')
      | Inr (order, db1) \<Rightarrow>
          rbind (atomicLoop now userId (Suc i) trades db1) (\<lambda>(results, db2).
            Inr (bulkSuccess i trade order # results, db2)))"

definition executeAtomic ::
  "timestamp \<Rightarrow> uid \<Rightarrow> BulkTradeItemDto list \<Rightarrow> 'a order_db_scheme \<Rightarrow> BulkTradeResponse \<times> 'a order_db_scheme" where
  "executeAtomic now userId trades db =
     (case atomicLoop now userId 0 trades db of
        Inl e \<Rightarrow> (\<lparr>bt_totalRequested = length trades, bt_successCount = 0, bt_failureCount = length trades,
                  bt_results = map (\<lambda>(i, t). bulkFailure i t e) (enumerate 0 trades)\<rparr>, db)
      | Inr (results, db') \<Rightarrow> (bulkResponse (length trades) results, db'))"

fun nonAtomicLoop ::
  "timestamp \<Rightarrow> uid \<Rightarrow> nat \<Rightarrow> BulkTradeItemDto list \<Rightarrow> 'a order_db_scheme \<Rightarrow>
     BulkTradeResult list \<times> 'a order_db_scheme" where
  "nonAtomicLoop now userId i [] db = ([], db)"
| "nonAtomicLoop now userId i (trade # trades) db =
     (let (result, db1) =
        (case createOrderFromBulk now userId trade db of
           Inl e \<Rightarrow> (bulkFailure i trade e, db)
         | Inr (order, db') \<Rightarrow> (bulkSuccess i trade order, db'));
        (results, db2) = nonAtomicLoop now userId (Suc i) trades db1
      in (result # results, db2))"

definition executeNonAtomic ::
  "timestamp \<Rightarrow> uid \<Rightarrow> BulkTradeItemDto list \<Rightarrow> 'a order_db_scheme \<Rightarrow> BulkTradeResponse \<times> 'a order_db_scheme" where
  "executeNonAtomic now userId trades db =
     (let (results, db') = nonAtomicLoop now userId 0 trades db
      in (bulkResponse (length trades) results, db'))"

definition executeBulkTrades ::
  "timestamp \<Rightarrow> uid \<Rightarrow> BulkTradeItemDto list \<Rightarrow> bool \<Rightarrow> inst_db \<Rightarrow> (BulkTradeResponse \<times> inst_db) result" where
  "executeBulkTrades now userId trades atomic db =
     rbind (findByUserId userId db) (\<lambda>client.
       if \<not> ic_isActive client
       then Inl (BadRequestException ''Institutional client account is not active'')
       else if length trades > ic_maxTradesPerSecond client
       then Inl (BadRequestException ''Batch size exceeds maximum trades per request'')
       else Inr (if atomic then executeAtomic now userId trades db else executeNonAtomic now userId trades db))"

section \<open>Reconciliation\<close>

text \<open>
  A report date is the number of the day since the epoch. \<open>setHours\<close> works in the time zone of the
  server, whose offset in milliseconds is \<open>tz\<close>. The trade rows come with their creation time. Failures of
  the database, which the code turns into a FAILED report, are not modelled.
\<close>

definition dayMs :: int where "dayMs = 86400000"

definition dayStart :: "int \<Rightarrow> int \<Rightarrow> timestamp" where
  "dayStart tz day = ((day * dayMs + tz) div dayMs) * dayMs - tz"

definition dayEnd :: "int \<Rightarrow> int \<Rightarrow> timestamp" where
  "dayEnd tz day = dayStart tz day + (dayMs - 1)"

definition tradeValue :: "Trade \<Rightarrow> real" where
  "tradeValue t = (if t_totalValue t \<noteq> 0 then t_totalValue t else t_amount t * t_price t)"

definition tradeVolume :: "bool \<Rightarrow> Trade list \<Rightarrow> real" where
  "tradeVolume buys ts = sum_list (map tradeValue (filter (\<lambda>t. (t_type t = BUY) = buys) ts))"

definition findReport ::
  "uuid \<Rightarrow> int \<Rightarrow> ReconciliationReportType \<Rightarrow> inst_db \<Rightarrow> ReconciliationReport option" where
  "findReport clientId day ty db =
     find (\<lambda>r. rr_clientId r = clientId \<and> rr_reportDate r = day \<and> rr_reportType r = ty) (in_reports db)"

definition saveReport :: "ReconciliationReport \<Rightarrow> inst_db \<Rightarrow> inst_db" where
  "saveReport r db = db\<lparr>in_reports := save_row rr_id r (in_reports db)\<rparr>"

definition startReport ::
  "uuid \<Rightarrow> int \<Rightarrow> ReconciliationReportType \<Rightarrow> inst_db \<Rightarrow> ReconciliationReport" where
  "startReport clientId day ty db =
     (case findReport clientId day ty db of
        Some r \<Rightarrow> r\<lparr>rr_status := GENERATING\<rparr>
      | None \<Rightarrow> \<lparr>rr_id = unusedId (map rr_id (in_reports db)), rr_clientId = clientId, rr_reportDate = day,
          rr_reportType = ty, rr_totalTrades = 0, rr_totalBuyVolume = 0, rr_totalSellVolume = 0, rr_netPnl = 0,
          rr_totalFees = 0, rr_openingBalance = 0, rr_closingBalance = 0, rr_discrepancy = 0,
          rr_isReconciled = False, rr_status = GENERATING, rr_metadata = None\<rparr>)"

definition completeReport :: "Trade list \<Rightarrow> Order list \<Rightarrow> ReconciliationReport \<Rightarrow> ReconciliationReport" where
  "completeReport trades orders report =
     (let totalBuyVolume = tradeVolume True trades;
          totalSellVolume = tradeVolume False trades;
          totalFees = (totalBuyVolume + totalSellVolume) * (1 / 1000);
          netPnl = totalSellVolume - totalBuyVolume - totalFees;
          openingBalance = 0;
          closingBalance = openingBalance + netPnl;
          discrepancy = closingBalance - (openingBalance + netPnl)
      in report\<lparr>rr_totalTrades := length trades, rr_totalBuyVolume := totalBuyVolume,
           rr_totalSellVolume := totalSellVolume, rr_netPnl := netPnl, rr_totalFees := totalFees,
           rr_openingBalance := openingBalance, rr_closingBalance := closingBalance,
           rr_discrepancy := discrepancy, rr_isReconciled := \<bar>discrepancy\<bar> < 1 / 10000,
           rr_status := COMPLETED,
           rr_metadata := Some \<lparr>rm_totalOrders = length orders,
             rm_filledOrders = length (filter (\<lambda>x. o_status x = FILLED) orders),
             rm_cancelledOrders = length (filter (\<lambda>x. o_status x = CANCELLED) orders),
             rm_partialOrders = length (filter (\<lambda>x. o_status x = PARTIAL) orders),
             rm_assets = setOrder (map t_asset trades)\<rparr>\<rparr>)"

definition runReport ::
  "int \<Rightarrow> (timestamp \<times> Trade) list \<Rightarrow> InstitutionalClient \<Rightarrow> int \<Rightarrow> ReconciliationReportType \<Rightarrow> inst_db \<Rightarrow>
     ReconciliationReport \<times> inst_db" where
  "runReport tz tradeRows client day ty db =
     (let inDay = (\<lambda>t. dayStart tz day \<le> t \<and> t \<le> dayEnd tz day);
          report = startReport (ic_id client) day ty db;
          db1 = saveReport report db;
          trades = map snd (filter (\<lambda>(t, tr). t_userId tr = ic_userId client \<and> inDay t) tradeRows);
          orders = filter (\<lambda>x. o_userId x = ic_userId client \<and> inDay (o_createdAt x)) (bk_orders db1);
          report' = completeReport trades orders report
      in (report', saveReport report' db1))"

definition generateReport ::
  "int \<Rightarrow> (timestamp \<times> Trade) list \<Rightarrow> uuid \<Rightarrow> int \<Rightarrow> ReconciliationReportType option \<Rightarrow> inst_db \<Rightarrow>
     (ReconciliationReport \<times> inst_db) result" where
  "generateReport tz tradeRows clientId day reportType db =
     rbind (findClientById clientId db) (\<lambda>client.
       let ty = givenOr reportType DAILY
       in case findReport clientId day ty db of
            Some existing \<Rightarrow>
              if rr_status existing = COMPLETED then Inr (existing, db)
              else Inr (runReport tz tradeRows client day ty db)
          | None \<Rightarrow> Inr (runReport tz tradeRows client day ty db))"

definition dailyReportFor ::
  "int \<Rightarrow> (timestamp \<times> Trade) list \<Rightarrow> int \<Rightarrow> InstitutionalClient \<Rightarrow>
     ReconciliationReport list \<times> inst_db \<Rightarrow> ReconciliationReport list \<times> inst_db" where
  "dailyReportFor tz tradeRows day client acc =
     (case generateReport tz tradeRows (ic_id client) day (Some DAILY) (snd acc) of
        Inl e \<Rightarrow> acc
      | Inr (report, db') \<Rightarrow> (fst acc @ [report], db'))"

text \<open>The scheduled run passes no date: it takes the UTC day of the clock.\<close>

definition generateDailyReportsForAllClients ::
  "int \<Rightarrow> (timestamp \<times> Trade) list \<Rightarrow> int option \<Rightarrow> timestamp \<Rightarrow> inst_db \<Rightarrow>
     ReconciliationReport list \<times> inst_db" where
  "generateDailyReportsForAllClients tz tradeRows reportDate now db =
     fold (dailyReportFor tz tradeRows (givenOr reportDate (now div dayMs)))
       (filter ic_isActive (in_clients db)) ([], db)"

record report_filters =
  rf_startDate :: "int option"
  rf_endDate :: "int option"
  rf_status :: "ReconciliationReportStatus option"
  rf_reportType :: "ReconciliationReportType option"

definition getReports :: "uuid \<Rightarrow> report_filters \<Rightarrow> inst_db \<Rightarrow> ReconciliationReport list" where
  "getReports clientId f db =
     sort_key (\<lambda>r. - rr_reportDate r) (filter (\<lambda>r. rr_clientId r = clientId \<and>
       (case rf_startDate f of None \<Rightarrow> True | Some d \<Rightarrow> d \<le> rr_reportDate r) \<and>
       (case rf_endDate f of None \<Rightarrow> True | Some d \<Rightarrow> rr_reportDate r \<le> d) \<and>
       (case rf_status f of None \<Rightarrow> True | Some x \<Rightarrow> rr_status r = x) \<and>
       (case rf_reportType f of None \<Rightarrow> True | Some x \<Rightarrow> rr_reportType r = x)) (in_reports db))"

definition getReportById :: "uuid \<Rightarrow> inst_db \<Rightarrow> ReconciliationReport result" where
  "getReportById i db =
     (case row_of rr_id i (in_reports db) of
        None \<Rightarrow> Inl (NotFoundException ''Reconciliation report not found'') | Some r \<Rightarrow> Inr r)"

section \<open>Monitoring of service levels\<close>

definition instEmit :: "inst_event list \<Rightarrow> inst_db \<Rightarrow> inst_db" where
  "instEmit es db = db\<lparr>in_events := in_events db @ es\<rparr>"

text \<open>\<open>Number(null)\<close> is 0, and a threshold of 0 is never violated.\<close>

definition isViolated :: "real \<Rightarrow> real \<Rightarrow> SlaUnit \<Rightarrow> bool" where
  "isViolated measured threshold u =
     (if threshold = 0 then False
      else if u = PERCENT then measured < threshold
      else measured > threshold)"

definition createViolation ::
  "SlaPolicy \<Rightarrow> real \<Rightarrow> SlaViolationSeverity \<Rightarrow> timestamp \<Rightarrow> inst_db \<Rightarrow> SlaViolation \<times> inst_db" where
  "createViolation policy measured severity now db =
     (let v = \<lparr>sv_id = unusedId (map sv_id (in_violations db)), sv_policyId = sp_id policy,
            sv_clientId = sp_clientId policy, sv_measuredValue = measured,
            sv_targetValue = givenOr (sp_criticalThreshold policy) 0, sv_severity = severity,
            sv_isResolved = False, sv_resolvedAt = None, sv_resolvedBy = None, sv_notes = None,
            sv_createdAt = now\<rparr>
      in (v, db\<lparr>in_violations := in_violations db @ [v]\<rparr>))"

definition savePolicy :: "SlaPolicy \<Rightarrow> inst_db \<Rightarrow> inst_db" where
  "savePolicy p db = db\<lparr>in_policies := save_row sp_id p (in_policies db)\<rparr>"

definition evaluatePolicy :: "real \<Rightarrow> timestamp \<Rightarrow> SlaPolicy \<Rightarrow> inst_db \<Rightarrow> inst_db" where
  "evaluatePolicy measured now policy db =
     (let p1 = policy\<lparr>sp_currentValue := Some measured, sp_lastEvaluatedAt := Some now\<rparr>
      in if isViolated measured (givenOr (sp_criticalThreshold policy) 0) (sp_unit policy)
         then let p2 = p1\<lparr>sp_isViolated := True, sp_lastViolatedAt := Some now\<rparr>;
                  (v, db1) = createViolation p2 measured CRITICAL_LEVEL now db
              in savePolicy p2 (instEmit [SlaViolationCreated (sv_id v) (sp_clientId policy) (sp_metricType policy) measured] db1)
         else if isViolated measured (givenOr (sp_warningThreshold policy) 0) (sp_unit policy)
         then savePolicy (p1\<lparr>sp_isViolated := False\<rparr>)
                (instEmit [SlaWarning (sp_clientId policy) (sp_metricType policy) measured] db)
         else savePolicy (p1\<lparr>sp_isViolated := False\<rparr>) db)"

definition recordMetric :: "uuid \<Rightarrow> SlaMetricType \<Rightarrow> real \<Rightarrow> timestamp \<Rightarrow> inst_db \<Rightarrow> inst_db" where
  "recordMetric clientId metric measured now db =
     fold (evaluatePolicy measured now)
       (filter (\<lambda>p. sp_clientId p = clientId \<and> sp_metricType p = metric \<and> sp_isActive p) (in_policies db)) db"

definition saveViolation :: "SlaViolation \<Rightarrow> inst_db \<Rightarrow> inst_db" where
  "saveViolation v db = db\<lparr>in_violations := save_row sv_id v (in_violations db)\<rparr>"

definition resolveViolation ::
  "uuid \<Rightarrow> string \<Rightarrow> string option \<Rightarrow> timestamp \<Rightarrow> inst_db \<Rightarrow> (SlaViolation \<times> inst_db) result" where
  "resolveViolation violationId resolvedBy comment now db =
     (case row_of sv_id violationId (in_violations db) of
        None \<Rightarrow> Inl (JsError ''SLA violation not found'')
      | Some v \<Rightarrow>
          let v' = v\<lparr>sv_isResolved := True, sv_resolvedAt := Some now, sv_resolvedBy := Some resolvedBy,
                sv_notes := (case comment of None \<Rightarrow> sv_notes v | Some t \<Rightarrow> if t = [] then sv_notes v else Some t)\<rparr>
          in Inr (v', instEmit [SlaViolationResolved (sv_id v') (sv_clientId v')] (saveViolation v' db)))"

definition getActiveViolations :: "uuid \<Rightarrow> inst_db \<Rightarrow> SlaViolation list" where
  "getActiveViolations clientId db =
     sort_key (\<lambda>v. - sv_createdAt v) (filter (\<lambda>v. sv_clientId v = clientId \<and> \<not> sv_isResolved v) (in_violations db))"

definition getAllViolations :: "uuid \<Rightarrow> nat \<Rightarrow> nat \<Rightarrow> inst_db \<Rightarrow> SlaViolation list" where
  "getAllViolations clientId n offset db =
     take n (drop offset (sort_key (\<lambda>v. - sv_createdAt v) (filter (\<lambda>v. sv_clientId v = clientId) (in_violations db))))"

definition metricRank :: "SlaMetricType \<Rightarrow> nat" where
  "metricRank m = (case m of API_RESPONSE_TIME \<Rightarrow> 0 | REPORTING_LATENCY \<Rightarrow> 1 | SUPPORT_RESPONSE_TIME \<Rightarrow> 2
     | SYSTEM_UPTIME \<Rightarrow> 3 | TRADE_EXECUTION_TIME \<Rightarrow> 4)"

definition getSlaPolicies :: "uuid \<Rightarrow> inst_db \<Rightarrow> SlaPolicy list" where
  "getSlaPolicies clientId db =
     sort_key (\<lambda>p. metricRank (sp_metricType p)) (filter (\<lambda>p. sp_clientId p = clientId \<and> sp_isActive p) (in_policies db))"

datatype policy_status = HEALTHY | POLICY_WARNING | VIOLATED

definition policyStatus :: "SlaPolicy \<Rightarrow> policy_status" where
  "policyStatus p =
     (if sp_isViolated p then VIOLATED
      else case (sp_currentValue p, sp_warningThreshold p) of
             (Some c, Some w) \<Rightarrow> if isViolated c w (sp_unit p) then POLICY_WARNING else HEALTHY
           | _ \<Rightarrow> HEALTHY)"

text \<open>\<open>Math.round(x * 100) / 100\<close>\<close>

definition roundCents :: "real \<Rightarrow> real" where
  "roundCents x = real_of_int \<lfloor>x * 100 + 1 / 2\<rfloor> / 100"

definition percentage :: "nat \<Rightarrow> nat \<Rightarrow> real" where
  "percentage part whole = (if whole > 0 then roundCents (real part / real whole * 100) else 100)"

record sla_summary =
  ss_totalPolicies :: nat
  ss_healthyPolicies :: nat
  ss_warningPolicies :: nat
  ss_violatedPolicies :: nat
  ss_activeViolations :: nat
  ss_compliancePercentage :: real
  ss_policies :: "(SlaMetricType \<times> real \<times> real \<times> SlaUnit \<times> policy_status \<times> bool) list"

definition getSlaComplianceSummary :: "uuid \<Rightarrow> inst_db \<Rightarrow> sla_summary" where
  "getSlaComplianceSummary clientId db =
     (let policies = getSlaPolicies clientId db;
          healthy = length (filter (\<lambda>p. policyStatus p = HEALTHY) policies)
      in \<lparr>ss_totalPolicies = length policies, ss_healthyPolicies = healthy,
          ss_warningPolicies = length (filter (\<lambda>p. policyStatus p = POLICY_WARNING) policies),
          ss_violatedPolicies = length (filter (\<lambda>p. policyStatus p = VIOLATED) policies),
          ss_activeViolations = length (getActiveViolations clientId db),
          ss_compliancePercentage = percentage healthy (length policies),
          ss_policies = map (\<lambda>p. (sp_metricType p, sp_targetValue p, givenOr (sp_currentValue p) 0, sp_unit p,
            policyStatus p, sp_isViolated p)) policies\<rparr>)"

definition staleOne :: "timestamp \<Rightarrow> SlaViolation \<Rightarrow> nat \<times> inst_db \<Rightarrow> nat \<times> inst_db" where
  "staleOne now v acc =
     (case row_of sp_id (sv_policyId v) (in_policies (snd acc)) of
        None \<Rightarrow> acc
      | Some policy \<Rightarrow>
          if sp_isViolated policy then acc
          else (fst acc + 1, saveViolation (v\<lparr>sv_isResolved := True, sv_resolvedAt := Some now,
            sv_resolvedBy := Some ''AUTO_RESOLVE'',
            sv_notes := Some ''Auto-resolved: SLA metric returned to acceptable range''\<rparr>) (snd acc)))"

definition sweepStaleViolations :: "timestamp \<Rightarrow> inst_db \<Rightarrow> nat \<times> inst_db" where
  "sweepStaleViolations now db =
     fold (staleOne now) (filter (\<lambda>v. \<not> sv_isResolved v \<and> sv_createdAt v \<le> now - 24 * 3600000)
       (in_violations db)) (0, db)"

section \<open>Support tickets\<close>

record CreateSupportTicketDto =
  ct_subject :: string
  ct_description :: string
  ct_category :: "TicketCategory option"
  ct_priority :: "TicketPriority option"
  ct_assignedToId :: "uid option"

definition saveTicket :: "SupportTicket \<Rightarrow> inst_db \<Rightarrow> inst_db" where
  "saveTicket t db = db\<lparr>in_tickets := save_row tk_id t (in_tickets db)\<rparr>"

definition findTicket :: "uuid \<Rightarrow> inst_db \<Rightarrow> SupportTicket result" where
  "findTicket i db =
     (case row_of tk_id i (in_tickets db) of
        None \<Rightarrow> Inl (NotFoundException ''Support ticket not found'') | Some t \<Rightarrow> Inr t)"

definition createTicket ::
  "uuid \<Rightarrow> uid \<Rightarrow> CreateSupportTicketDto \<Rightarrow> timestamp \<Rightarrow> inst_db \<Rightarrow> (SupportTicket \<times> inst_db) result" where
  "createTicket clientId createdById dto now db =
     rbind (findClientById clientId db) (\<lambda>client.
       let priority = givenOr (ct_priority dto) HIGH;
           tier = ic_slaTier client;
           responseDeadline = now + TICKET_SLA_RESPONSE_MINUTES priority tier * 60 * 1000;
           resolutionDeadline = now + TICKET_SLA_RESOLUTION_MINUTES priority tier * 60 * 1000;
           counter = in_ticketCounter db + 1;
           ticket = \<lparr>tk_id = unusedId (map tk_id (in_tickets db)), tk_ticketNumber = (now, counter),
             tk_clientId = clientId, tk_createdById = createdById, tk_subject = ct_subject dto,
             tk_description = ct_description dto, tk_category = givenOr (ct_category dto) GENERAL,
             tk_priority = priority, tk_status = OPEN, tk_assignedToId = ct_assignedToId dto,
             tk_accountManagerId = ic_accountManagerId client,
             tk_slaResponseDeadline = Some responseDeadline,
             tk_slaResolutionDeadline = Some resolutionDeadline, tk_slaResponseMet = None,
             tk_slaResolutionMet = None, tk_internalNotes = None, tk_resolvedAt = None, tk_closedAt = None,
             tk_createdAt = now\<rparr>
       in Inr (ticket, instEmit [TicketCreated (tk_id ticket) priority responseDeadline]
            (saveTicket ticket (db\<lparr>in_ticketCounter := counter\<rparr>))))"

text \<open>What a loaded entity holds for a nullable boolean column.\<close>

datatype js_flag = JsUndefined | JsNull | JsBool bool

definition loadedFlag :: "bool option \<Rightarrow> js_flag" where
  "loadedFlag v = (case v of None \<Rightarrow> JsNull | Some b \<Rightarrow> JsBool b)"

definition deadlineMet :: "timestamp \<Rightarrow> timestamp option \<Rightarrow> bool option" where
  "deadlineMet now deadline = Some (case deadline of None \<Rightarrow> True | Some d \<Rightarrow> now \<le> d)"

definition updateTicketStatus ::
  "uuid \<Rightarrow> TicketStatus \<Rightarrow> string option \<Rightarrow> timestamp \<Rightarrow> inst_db \<Rightarrow> (SupportTicket \<times> inst_db) result" where
  "updateTicketStatus ticketId status internalNotes now db =
     rbind (findTicket ticketId db) (\<lambda>ticket.
       let t1 = ticket\<lparr>tk_status := status\<rparr>;
           t2 = (if tk_status t1 \<noteq> OPEN \<and> loadedFlag (tk_slaResponseMet t1) = JsUndefined
                 then t1\<lparr>tk_slaResponseMet := deadlineMet now (tk_slaResponseDeadline t1)\<rparr> else t1);
           t3 = (if status = RESOLVED \<or> status = CLOSED
                 then let r = t2\<lparr>tk_resolvedAt := Some now\<rparr>
                      in (if loadedFlag (tk_slaResolutionMet r) = JsUndefined
                          then r\<lparr>tk_slaResolutionMet := deadlineMet now (tk_slaResolutionDeadline r)\<rparr> else r)
                 else t2);
           t4 = (if status = CLOSED then t3\<lparr>tk_closedAt := Some now\<rparr> else t3);
           t5 = (case internalNotes of None \<Rightarrow> t4
                 | Some n \<Rightarrow> if n = [] then t4 else t4\<lparr>tk_internalNotes := Some n\<rparr>)
       in Inr (t5, instEmit [TicketUpdated ticketId status] (saveTicket t5 db)))"

definition assignTicket :: "uuid \<Rightarrow> uid \<Rightarrow> inst_db \<Rightarrow> (SupportTicket \<times> inst_db) result" where
  "assignTicket ticketId assignedToId db =
     rbind (findTicket ticketId db) (\<lambda>ticket.
       let t1 = ticket\<lparr>tk_assignedToId := Some assignedToId\<rparr>;
           t2 = (if tk_status t1 = OPEN then t1\<lparr>tk_status := IN_PROGRESS\<rparr> else t1)
       in Inr (t2, saveTicket t2 db))"

fun escalatePriority :: "TicketPriority \<Rightarrow> TicketPriority" where
  "escalatePriority LOW = MEDIUM"
| "escalatePriority MEDIUM = HIGH"
| "escalatePriority HIGH = CRITICAL"
| "escalatePriority CRITICAL = CRITICAL"

definition escalateTicket :: "uuid \<Rightarrow> string \<Rightarrow> inst_db \<Rightarrow> (SupportTicket \<times> inst_db) result" where
  "escalateTicket ticketId reason db =
     rbind (findTicket ticketId db) (\<lambda>ticket.
       let t = ticket\<lparr>tk_status := ESCALATED, tk_priority := escalatePriority (tk_priority ticket),
             tk_internalNotes := Some (case tk_internalNotes ticket of
                 None \<Rightarrow> ''[ESCALATION] '' @ reason
               | Some n \<Rightarrow> if n = [] then ''[ESCALATION] '' @ reason
                          else n @ [CHR 0x0A, CHR 0x0A] @ ''[ESCALATION] '' @ reason)\<rparr>
       in Inr (t, instEmit [TicketEscalated ticketId (tk_priority t) reason] (saveTicket t db)))"

record ticket_filters =
  tf_status :: "TicketStatus option"
  tf_priority :: "TicketPriority option"
  tf_category :: "TicketCategory option"
  tf_assignedToId :: "uid option"
  tf_limit :: "nat option"
  tf_offset :: "nat option"

definition getTickets :: "uuid \<Rightarrow> ticket_filters \<Rightarrow> inst_db \<Rightarrow> SupportTicket list \<times> nat" where
  "getTickets clientId f db =
     (let found = sort_key (\<lambda>t. - tk_createdAt t) (filter (\<lambda>t. tk_clientId t = clientId \<and>
            (case tf_status f of None \<Rightarrow> True | Some x \<Rightarrow> tk_status t = x) \<and>
            (case tf_priority f of None \<Rightarrow> True | Some x \<Rightarrow> tk_priority t = x) \<and>
            (case tf_category f of None \<Rightarrow> True | Some x \<Rightarrow> tk_category t = x) \<and>
            (case tf_assignedToId f of None \<Rightarrow> True | Some x \<Rightarrow> x = 0 \<or> tk_assignedToId t = Some x)) (in_tickets db))
      in (take (givenOr (tf_limit f) 20) (drop (givenOr (tf_offset f) 0) found), length found))"

text \<open>The two passes of the breach check; \<open>mark\<close> sets the flag of a breached ticket.\<close>

definition breachOne ::
  "(SupportTicket \<Rightarrow> SupportTicket) \<Rightarrow> (SupportTicket \<Rightarrow> string) \<Rightarrow> SupportTicket \<Rightarrow> inst_db \<Rightarrow> inst_db" where
  "breachOne mark reason ticket db =
     (let t = mark ticket
      in case escalateTicket (tk_id t) (reason t) (saveTicket t db) of
           Inl e \<Rightarrow> saveTicket t db | Inr (_, db') \<Rightarrow> db')"

definition responseBreached :: "timestamp \<Rightarrow> SupportTicket \<Rightarrow> bool" where
  "responseBreached now t =
     ((case tk_slaResponseDeadline t of None \<Rightarrow> False | Some d \<Rightarrow> d < now) \<and> tk_slaResponseMet t = None \<and>
      tk_status t \<in> {OPEN, IN_PROGRESS})"

definition resolutionBreached :: "timestamp \<Rightarrow> SupportTicket \<Rightarrow> bool" where
  "resolutionBreached now t =
     ((case tk_slaResolutionDeadline t of None \<Rightarrow> False | Some d \<Rightarrow> d < now) \<and> tk_slaResolutionMet t = None \<and>
      tk_status t \<notin> {RESOLVED, CLOSED})"

definition checkSlaBreaches ::
  "(timestamp option \<Rightarrow> string) \<Rightarrow> timestamp \<Rightarrow> inst_db \<Rightarrow> SupportTicket list \<times> inst_db" where
  "checkSlaBreaches dateText now db =
     (let responseBreaches = filter (responseBreached now) (in_tickets db);
          db1 = fold (breachOne (\<lambda>t. t\<lparr>tk_slaResponseMet := Some False\<rparr>)
            (\<lambda>t. ''SLA response deadline breached. Deadline was '' @ dateText (tk_slaResponseDeadline t)))
            responseBreaches db;
          resolutionBreaches = filter (resolutionBreached now) (in_tickets db1);
          db2 = fold (breachOne (\<lambda>t. t\<lparr>tk_slaResolutionMet := Some False\<rparr>)
            (\<lambda>t. ''SLA resolution deadline breached. Deadline was '' @ dateText (tk_slaResolutionDeadline t)))
            resolutionBreaches db1
      in (map (\<lambda>t. t\<lparr>tk_slaResponseMet := Some False\<rparr>) responseBreaches @
          map (\<lambda>t. t\<lparr>tk_slaResolutionMet := Some False\<rparr>) resolutionBreaches, db2))"

record sla_stats =
  sl_totalTickets :: nat
  sl_slaResponseMetCount :: nat
  sl_slaResolutionMetCount :: nat
  sl_slaResponseCompliancePercent :: real
  sl_slaResolutionCompliancePercent :: real
  sl_averageResponseTimeMinutes :: real
  sl_averageResolutionTimeMinutes :: real
  sl_openTickets :: nat
  sl_escalatedTickets :: nat

definition getSlaComplianceStats :: "uuid option \<Rightarrow> inst_db \<Rightarrow> sla_stats" where
  "getSlaComplianceStats clientId db =
     (let tickets = filter (\<lambda>t. case clientId of None \<Rightarrow> True | Some i \<Rightarrow> tk_clientId t = i) (in_tickets db);
          closedTickets = filter (\<lambda>t. tk_slaResponseMet t \<noteq> None) tickets;
          responseMetCount = length (filter (\<lambda>t. tk_slaResponseMet t = Some True) closedTickets);
          resolutionMetCount = length (filter (\<lambda>t. tk_slaResolutionMet t = Some True) tickets);
          resolvedTickets = filter (\<lambda>t. tk_resolvedAt t \<noteq> None) tickets
      in \<lparr>sl_totalTickets = length tickets, sl_slaResponseMetCount = responseMetCount,
          sl_slaResolutionMetCount = resolutionMetCount,
          sl_slaResponseCompliancePercent = percentage responseMetCount (length closedTickets),
          sl_slaResolutionCompliancePercent = percentage resolutionMetCount (length resolvedTickets),
          sl_averageResponseTimeMinutes = 0, sl_averageResolutionTimeMinutes = 0,
          sl_openTickets = length (filter (\<lambda>t. tk_status t \<in> {OPEN, IN_PROGRESS, ESCALATED}) tickets),
          sl_escalatedTickets = length (filter (\<lambda>t. tk_status t = ESCALATED) tickets)\<rparr>)"

section \<open>Example\<close>

definition exClient :: InstitutionalClient where
  "exClient = \<lparr>ic_id = 3, ic_userId = 7, ic_companyName = ''Acme'', ic_lei = None, ic_taxId = None,
     ic_jurisdiction = None, ic_accountManagerId = None, ic_slaTier = GOLD, ic_maxTradesPerSecond = 1000,
     ic_maxApiRequestsPerSecond = 5000, ic_dailyVolumeLimit = 0, ic_isActive = True, ic_ipWhitelist = None,
     ic_webhookUrl = None, ic_metadata = None, ic_createdAt = 0\<rparr>"

definition exInst :: inst_db where
  "exInst = \<lparr>bk_orders = [], bk_trades = [], bk_events = [],
     od_balances = [\<lparr>b_id = 7, b_userId = 7, b_assetId = 2, b_balance = 5, b_lockedBalance = 0,
       b_totalTrades = 0, b_cumulativePnL = 0, b_totalTradeVolume = 0, b_lastTradeDate = None,
       b_totalInvested = 0, b_averageBuyPrice = 0\<rparr>], od_broadcasts = [], in_clients = [exClient],
     in_policies = [], in_violations = [], in_tickets = [], in_ticketCounter = 0, in_reports = [], in_events = []\<rparr>"

definition exItem :: "OrderSide \<Rightarrow> real \<Rightarrow> BulkTradeItemDto" where
  "exItem side x = \<lparr>bi_assetId = 2, bi_side = side, bi_type = LIMIT, bi_amount = x, bi_price = Some 10,
     bi_stopPrice = None, bi_clientOrderId = None\<rparr>"

lemma exInst_inv: "orders_inv exInst"
  by (simp add: orders_inv_def exInst_def sane_book_def keyed_def balanced_def filledOn_def
      covered_def reserved_def lockedOf_nonneg wf_balances_def solvent_def)

lemma exItem_valid: "0 < x \<Longrightarrow> validBulkItem (exItem side x)"
  by (simp add: validBulkItem_def exItem_def positiveWhenGiven_def)

section \<open>Bulk trades and the order invariant\<close>

text \<open>A bulk item as a request of the order service.\<close>

definition asCreateOrder :: "BulkTradeItemDto \<Rightarrow> CreateOrderDto" where
  "asCreateOrder dto = \<lparr>c_assetId = bi_assetId dto, c_side = bi_side dto, c_type = bi_type dto,
     c_amount = bi_amount dto, c_price = bi_price dto, c_stopPrice = bi_stopPrice dto,
     c_trailingDelta = None, c_expiresInSeconds = None\<rparr>"

lemma bulkOrder_eq: "bi_type dto \<noteq> TRAILING_STOP \<Longrightarrow> bulkOrder now i u dto = newOrder now i u (asCreateOrder dto)"
  by (simp add: bulkOrder_def newOrder_def asCreateOrder_def expiryDate_def)

lemma bulkReserve_eq:
  "bulkReserve userId dto db = Inr db1 \<longleftrightarrow> reserveFunds userId (asCreateOrder dto) db = Inr db1"
  by (auto simp: bulkReserve_def reserveFunds_def asCreateOrder_def split: option.splits)

lemma validBulk_asCreateOrder:
  "validBulkItem dto \<Longrightarrow> validateBulkTradeItem dto = Inr () \<Longrightarrow> validCreateOrderDto (asCreateOrder dto)"
  by (auto simp: validBulkItem_def validateBulkTradeItem_def validCreateOrderDto_def asCreateOrder_def
      positiveWhenGiven_def split: if_splits option.splits)

lemma createOrderFromBulk_inv:
  assumes "createOrderFromBulk now userId dto db = Inr (ord, db')" and inv: "orders_inv db"
    and dto: "validBulkItem dto"
  shows "orders_inv db'" and "length (bk_orders db') = Suc (length (bk_orders db))"
    and "ord = bulkOrder now (unusedId (map o_id (bk_orders db))) userId dto"
proof -
  let ?i = "unusedId (map o_id (bk_orders db))" and ?dto = "asCreateOrder dto"
  let ?new = "newOrder now ?i userId ?dto"
  from assms(1) obtain db1 where shape: "validateBulkTradeItem dto = Inr ()"
    and res: "reserveFunds userId ?dto db = Inr db1"
    and ord: "ord = bulkOrder now ?i userId dto" and db': "db' = saveOrder ?new db1"
    using dto by (auto simp: createOrderFromBulk_def Let_def bulkReserve_eq bulkOrder_eq validBulkItem_def)
  show "ord = bulkOrder now ?i userId dto" by (rule ord)
  have fresh: "row_of o_id ?i (bk_orders db) = None"
    using unusedId_fresh [of "map o_id (bk_orders db)"] by (simp add: row_of_None_iff)
  have bal: "wf_balances (od_balances db)" and pos: "0 < c_amount ?dto"
    using inv dto by (simp_all add: orders_inv_def validBulkItem_def asCreateOrder_def)
  note spec = reserveFunds_spec [OF res bal pos]
  show "orders_inv db'"
    unfolding db'
  proof (rule orders_inv_saveOrder [OF inv])
    show "sane_order ?new" by (rule wf_newOrder [OF validBulk_asCreateOrder [OF dto shape]])
    show "reserved u a (bk_orders db) + reserveOf u a ?new -
        (case row_of o_id (o_id ?new) (bk_orders db) of None \<Rightarrow> 0 | Some old \<Rightarrow> reserveOf u a old)
        \<le> lockedOf u a (od_balances db1)"
      if "reserved u a (bk_orders db) \<le> lockedOf u a (od_balances db)" for u a
      using that spec [of u a] fresh by (auto simp: reserveOf_def)
  qed (use spec fresh in simp_all)
  show "length (bk_orders db') = Suc (length (bk_orders db))"
    using spec [of 0 0] fresh by (simp add: db' saveOrder_def save_row_def list_ex_key_iff)
qed

lemma atomicLoop_inv:
  "atomicLoop now u i ts db = Inr (rs, db') \<Longrightarrow> orders_inv db \<Longrightarrow> list_all validBulkItem ts \<Longrightarrow>
     orders_inv db' \<and> length (bk_orders db') = length (bk_orders db) + length ts"
proof (induction ts arbitrary: i db rs)
  case (Cons t ts)
  then show ?case
    by (fastforce split: sum.splits prod.splits dest: createOrderFromBulk_inv(1,2))
qed simp

lemma nonAtomicLoop_inv:
  "orders_inv db \<Longrightarrow> list_all validBulkItem ts \<Longrightarrow> orders_inv (snd (nonAtomicLoop now u i ts db))"
proof (induction ts arbitrary: i db)
  case (Cons t ts)
  then show ?case
    using createOrderFromBulk_inv(1) [of now u t db]
    by (cases "createOrderFromBulk now u t db") (auto simp: Let_def case_prod_beta)
qed simp

text \<open>The two modes agree as long as nothing fails.\<close>

lemma nonAtomic_length: "length (fst (nonAtomicLoop now u i ts db)) = length ts"
  by (induction ts arbitrary: i db) (auto simp: Let_def case_prod_beta split: sum.splits)

lemma loops_agree:
  "atomicLoop now u i ts db =
     (if list_all br_success (fst (nonAtomicLoop now u i ts db)) then Inr (nonAtomicLoop now u i ts db)
      else Inl (BadRequestException ''Trade at index failed''))"
proof (induction ts arbitrary: i db)
  case (Cons t ts)
  then show ?case
    by (cases "createOrderFromBulk now u t db")
      (auto simp: Let_def bulkSuccess_def bulkFailure_def split: prod.splits)
qed simp

text \<open>
  Bulk trades keep the exchange sound: a batch of an institutional client, atomic or not,
  leaves every book and balance table as consistent as single orders do. Stored orders stay well
  formed, no balance is over-locked, the locked funds of every user still cover all open SELL
  orders, the new ones included, and the quantity bought equals the quantity sold.
\<close>

theorem bulk_trades_keep_orders_backed:
  assumes "orders_inv db" and "validBulkTradeDto trades"
    and "executeBulkTrades now userId trades atomic db = Inr (resp, db')"
  shows "orders_inv db'"
proof -
  have items: "list_all validBulkItem trades" using assms(2) by (simp add: validBulkTradeDto_def)
  from assms(3) consider "executeAtomic now userId trades db = (resp, db')"
    | "executeNonAtomic now userId trades db = (resp, db')"
    by (auto simp: executeBulkTrades_def split: if_splits)
  then show ?thesis
  proof cases
    case 1
    then show ?thesis
      using assms(1) atomicLoop_inv [OF _ assms(1) items, of now userId 0]
      by (auto simp: executeAtomic_def split: sum.splits prod.splits)
  next
    case 2
    then show ?thesis
      using nonAtomicLoop_inv [OF assms(1) items, of now userId 0]
      by (auto simp: executeNonAtomic_def split: prod.splits)
  qed
qed

theorem bulk_trades_keep_orders_backed_witness:
  "\<exists>resp db'. executeBulkTrades 5 7 [exItem SELL 4, exItem BUY 1] False exInst = Inr (resp, db') \<and> orders_inv db'"
proof -
  let ?r = "executeNonAtomic 5 7 [exItem SELL 4, exItem BUY 1] exInst"
  have run: "executeBulkTrades 5 7 [exItem SELL 4, exItem BUY 1] False exInst = Inr (fst ?r, snd ?r)"
    by (simp add: executeBulkTrades_def findByUserId_def exInst_def exClient_def)
  have "validBulkTradeDto [exItem SELL 4, exItem BUY 1]" by (simp add: validBulkTradeDto_def exItem_valid)
  from run bulk_trades_keep_orders_backed [OF exInst_inv this run] show ?thesis by blast
qed

text \<open>
  C27. An atomic batch is all or nothing, and agrees with the item-by-item mode: when every item
  of the batch would succeed on its own after the previous ones, the atomic run returns exactly
  the response and the state of the item-by-item run and stores one order per item; otherwise it
  changes nothing and reports every item as failed.
\<close>

theorem atomic_batch_is_all_or_nothing:
  assumes "orders_inv db" and "list_all validBulkItem trades"
  shows "if bt_failureCount (fst (executeNonAtomic now userId trades db)) = 0
    then executeAtomic now userId trades db = executeNonAtomic now userId trades db \<and>
      bt_successCount (fst (executeAtomic now userId trades db)) = length trades \<and>
      length (bk_orders (snd (executeAtomic now userId trades db))) = length (bk_orders db) + length trades
    else snd (executeAtomic now userId trades db) = db \<and>
      bt_successCount (fst (executeAtomic now userId trades db)) = 0 \<and>
      bt_failureCount (fst (executeAtomic now userId trades db)) = length trades"
proof -
  let ?n = "nonAtomicLoop now userId 0 trades db"
  have cnt: "bt_failureCount (fst (executeNonAtomic now userId trades db)) = 0 \<longleftrightarrow> list_all br_success (fst ?n)"
    by (auto simp: executeNonAtomic_def bulkResponse_def Let_def list_all_iff filter_empty_conv split: prod.splits)
  show ?thesis
  proof (cases "list_all br_success (fst ?n)")
    case True
    then have loop: "atomicLoop now userId 0 trades db = Inr ?n" by (simp add: loops_agree)
    then have eq: "executeAtomic now userId trades db = executeNonAtomic now userId trades db"
      by (simp add: executeAtomic_def executeNonAtomic_def split: prod.splits)
    have "filter br_success (fst ?n) = fst ?n" using True by (simp add: list_all_iff filter_id_conv)
    then have "bt_successCount (fst (executeNonAtomic now userId trades db)) = length trades"
      using nonAtomic_length [of now userId 0 trades db]
      by (simp add: executeNonAtomic_def bulkResponse_def case_prod_beta)
    moreover have "length (bk_orders (snd ?n)) = length (bk_orders db) + length trades"
      using atomicLoop_inv [of now userId 0 trades db "fst ?n" "snd ?n"] loop assms by simp
    then have "length (bk_orders (snd (executeNonAtomic now userId trades db))) = length (bk_orders db) + length trades"
      by (simp add: executeNonAtomic_def case_prod_beta)
    ultimately show ?thesis using True cnt eq by simp
  next
    case False
    then show ?thesis using cnt by (simp add: executeAtomic_def loops_agree)
  qed
qed

theorem atomic_batch_is_all_or_nothing_witness:
  "snd (executeAtomic 5 7 [exItem SELL 4, exItem SELL 2] exInst) = exInst"
proof -
  have "bt_failureCount (fst (executeNonAtomic 5 7 [exItem SELL 4, exItem SELL 2] exInst)) \<noteq> 0"
    by (simp add: executeNonAtomic_def createOrderFromBulk_def validateBulkTradeItem_def bulkReserve_def
        exInst_def exItem_def availableBalance_def bulkResponse_def bulkSuccess_def bulkFailure_def
        save_row_def balanceKey_def row_of_def saveOrder_def Let_def)
  then show ?thesis
    using atomic_batch_is_all_or_nothing [OF exInst_inv, of "[exItem SELL 4, exItem SELL 2]" 5 7] exItem_valid
    by (simp split: if_splits)
qed

section \<open>Reports and summaries\<close>

text \<open>The closing balance is computed from the value it is compared with: no report ever shows a discrepancy.\<close>

lemma reports_are_always_reconciled:
  "rr_discrepancy (completeReport trades orders report) = 0 \<and> rr_isReconciled (completeReport trades orders report)"
  by (simp add: completeReport_def Let_def)

text \<open>Every policy of a client has exactly one status, so the three counts of a summary add up.\<close>

lemma length_by_status:
  "length (filter (\<lambda>p. policyStatus p = HEALTHY) ps) + length (filter (\<lambda>p. policyStatus p = POLICY_WARNING) ps) +
     length (filter (\<lambda>p. policyStatus p = VIOLATED) ps) = length ps"
proof (induction ps)
  case (Cons p ps)
  then show ?case by (cases "policyStatus p") auto
qed simp

lemma summary_counts_add_up:
  "ss_healthyPolicies (getSlaComplianceSummary c db) + ss_warningPolicies (getSlaComplianceSummary c db) +
     ss_violatedPolicies (getSlaComplianceSummary c db) = ss_totalPolicies (getSlaComplianceSummary c db)"
  by (simp add: getSlaComplianceSummary_def Let_def length_by_status)

text \<open>A generated report is kept: asking again for the same client, day and type returns it unchanged.\<close>

lemma findReport_saved:
  assumes "keyed rr_id (in_reports db)" and "rr_clientId r = c" and "rr_reportDate r = d" and "rr_reportType r = ty"
    and "case findReport c d ty db of None \<Rightarrow> row_of rr_id (rr_id r) (in_reports db) = None | Some x \<Rightarrow> rr_id x = rr_id r"
  shows "findReport c d ty (saveReport r db) = Some r"
proof (cases "findReport c d ty db")
  case None
  then show ?thesis using assms(2-5) by (auto simp: findReport_def saveReport_def intro!: find_save_row_new)
next
  case (Some x)
  then show ?thesis using assms by (auto simp: findReport_def saveReport_def intro!: find_save_row)
qed

lemma startReport_fields:
  "rr_clientId (startReport c d ty db) = c \<and> rr_reportDate (startReport c d ty db) = d \<and>
     rr_reportType (startReport c d ty db) = ty"
  by (auto simp: startReport_def findReport_def find_Some_iff split: option.splits)

lemma findReport_started:
  assumes "keyed rr_id (in_reports db)"
  shows "findReport c d ty (saveReport (startReport c d ty db) db) = Some (startReport c d ty db)"
proof (rule findReport_saved [OF assms])
  show "case findReport c d ty db of None \<Rightarrow> row_of rr_id (rr_id (startReport c d ty db)) (in_reports db) = None
      | Some x \<Rightarrow> rr_id x = rr_id (startReport c d ty db)"
    using unusedId_fresh [of "map rr_id (in_reports db)"]
    by (auto simp: startReport_def row_of_None_iff split: option.split)
qed (simp_all add: startReport_fields)

lemma completeReport_fields [simp]:
  "rr_id (completeReport ts os r) = rr_id r" "rr_clientId (completeReport ts os r) = rr_clientId r"
  "rr_reportDate (completeReport ts os r) = rr_reportDate r"
  "rr_reportType (completeReport ts os r) = rr_reportType r" "rr_status (completeReport ts os r) = COMPLETED"
  by (simp_all add: completeReport_def Let_def)

lemma runReport_found:
  assumes "keyed rr_id (in_reports db)" and "runReport tz rows client d ty db = (r, db')"
  shows "findReport (ic_id client) d ty db' = Some r \<and> rr_status r = COMPLETED \<and> in_clients db' = in_clients db"
proof -
  let ?s = "startReport (ic_id client) d ty db" and ?db1 = "saveReport (startReport (ic_id client) d ty db) db"
  obtain ts os where r: "r = completeReport ts os ?s" and db': "db' = saveReport r ?db1"
    using assms(2) by (auto simp: runReport_def Let_def)
  have "keyed rr_id (in_reports ?db1)" using keyed_save_row [OF assms(1)] by (simp add: saveReport_def)
  then have "findReport (ic_id client) d ty (saveReport r ?db1) = Some r"
    by (rule findReport_saved) (simp_all add: r startReport_fields findReport_started [OF assms(1)])
  then show ?thesis by (simp add: db' r saveReport_def)
qed

lemma report_is_generated_once:
  assumes "keyed rr_id (in_reports db)" and "generateReport tz rows c d ty db = Inr (r, db')"
  shows "generateReport tz' rows' c d ty db' = Inr (r, db')"
proof -
  from assms(2) obtain client where found: "findClientById c db = Inr client" "ic_id client = c"
    by (auto simp: generateReport_def findClientById_def split: option.splits dest: row_of_Some_in)
  then consider "findReport c d (givenOr ty DAILY) db = Some r" "rr_status r = COMPLETED" "db' = db"
    | "runReport tz rows client d (givenOr ty DAILY) db = (r, db')"
    using assms(2) by (auto simp: generateReport_def Let_def split: option.splits if_splits)
  then show ?thesis
    using found runReport_found [OF assms(1), of tz rows client d "givenOr ty DAILY" r db']
    by cases (auto simp: generateReport_def Let_def findClientById_def)
qed

section \<open>Tickets and their deadlines\<close>

datatype ticket_request =
    CreateTicket uuid uid CreateSupportTicketDto timestamp
  | UpdateTicket uuid TicketStatus "string option" timestamp
  | AssignTicket uuid uid
  | EscalateTicket uuid string
  | CheckBreaches "timestamp option \<Rightarrow> string" timestamp

fun ticketRequest :: "ticket_request \<Rightarrow> inst_db \<Rightarrow> inst_db" where
  "ticketRequest (CreateTicket c u dto now) db = commit (\<lambda>s. map_sum id snd (createTicket c u dto now s)) db"
| "ticketRequest (UpdateTicket i st internal now) db =
     commit (\<lambda>s. map_sum id snd (updateTicketStatus i st internal now s)) db"
| "ticketRequest (AssignTicket i u) db = commit (\<lambda>s. map_sum id snd (assignTicket i u s)) db"
| "ticketRequest (EscalateTicket i why) db = commit (\<lambda>s. map_sum id snd (escalateTicket i why s)) db"
| "ticketRequest (CheckBreaches dateText now) db = snd (checkSlaBreaches dateText now db)"

text \<open>No flag of a ticket, and of the table, says that a deadline was met.\<close>

definition unmet :: "SupportTicket \<Rightarrow> bool" where
  "unmet t \<longleftrightarrow> tk_slaResponseMet t \<noteq> Some True \<and> tk_slaResolutionMet t \<noteq> Some True"

definition all_unmet :: "inst_db \<Rightarrow> bool" where
  "all_unmet db \<longleftrightarrow> (\<forall>t \<in> set (in_tickets db). unmet t)"

lemma loadedFlag_defined [simp]: "loadedFlag v \<noteq> JsUndefined"
  by (simp add: loadedFlag_def split: option.split)

lemma all_unmet_simps [simp]:
  "all_unmet (instEmit es db) = all_unmet db"
  "all_unmet (db\<lparr>in_ticketCounter := n\<rparr>) = all_unmet db"
  by (simp_all add: all_unmet_def instEmit_def)

lemma all_unmet_save: "all_unmet db \<Longrightarrow> unmet t \<Longrightarrow> all_unmet (saveTicket t db)"
  by (auto simp: all_unmet_def saveTicket_def dest: in_save_rowD)

lemma unmet_found: "all_unmet db \<Longrightarrow> findTicket i db = Inr t \<Longrightarrow> unmet t"
  by (auto simp: all_unmet_def findTicket_def split: option.splits dest: row_of_Some_in)

lemma unmet_same:
  assumes "all_unmet db" and "findTicket i db = Inr x"
    and "tk_slaResponseMet t = tk_slaResponseMet x" and "tk_slaResolutionMet t = tk_slaResolutionMet x"
  shows "all_unmet (saveTicket t db)"
  using all_unmet_save [OF assms(1)] unmet_found [OF assms(1,2)] assms(3,4) by (simp add: unmet_def)

lemma all_unmet_createTicket:
  assumes "all_unmet db" and "createTicket c u dto now db = Inr (t, db')"
  shows "all_unmet db'"
proof -
  from assms(2) obtain es n where "db' = instEmit es (saveTicket t (db\<lparr>in_ticketCounter := n\<rparr>))"
    and "unmet t"
    by (cases "findClientById c db") (auto simp: createTicket_def Let_def unmet_def)
  then show ?thesis using assms(1) by (simp add: all_unmet_save)
qed

lemma all_unmet_update:
  assumes "all_unmet db" and "updateTicketStatus i st internal now db = Inr (t, db')"
  shows "all_unmet db'"
proof (cases "findTicket i db")
  case (Inr x)
  with assms(2) have t: "tk_slaResponseMet t = tk_slaResponseMet x" "tk_slaResolutionMet t = tk_slaResolutionMet x"
    and db': "db' = instEmit [TicketUpdated i st] (saveTicket t db)"
    by (cases internal; force simp: updateTicketStatus_def Let_def)+
  show ?thesis unfolding db' using unmet_same [OF assms(1) Inr t] by simp
qed (use assms(2) in \<open>simp add: updateTicketStatus_def\<close>)

lemma all_unmet_assign:
  assumes "all_unmet db" and "assignTicket i u db = Inr (t, db')"
  shows "all_unmet db'"
proof (cases "findTicket i db")
  case (Inr x)
  with assms(2) have t: "tk_slaResponseMet t = tk_slaResponseMet x" "tk_slaResolutionMet t = tk_slaResolutionMet x"
    and db': "db' = saveTicket t db"
    by (force simp: assignTicket_def Let_def)+
  show ?thesis unfolding db' using unmet_same [OF assms(1) Inr t] by simp
qed (use assms(2) in \<open>simp add: assignTicket_def\<close>)

lemma all_unmet_escalate:
  assumes "all_unmet db" and "escalateTicket i why db = Inr (t, db')"
  shows "all_unmet db'"
proof (cases "findTicket i db")
  case (Inr x)
  with assms(2) obtain es where t: "tk_slaResponseMet t = tk_slaResponseMet x" "tk_slaResolutionMet t = tk_slaResolutionMet x"
    and db': "db' = instEmit es (saveTicket t db)"
    by (auto simp: escalateTicket_def Let_def)
  show ?thesis unfolding db' using unmet_same [OF assms(1) Inr t] by simp
qed (use assms(2) in \<open>simp add: escalateTicket_def\<close>)

lemma all_unmet_breach:
  "all_unmet db \<Longrightarrow> unmet (mark t) \<Longrightarrow> all_unmet (breachOne mark reason t db)"
  by (auto simp: breachOne_def Let_def split: sum.split dest: all_unmet_escalate [OF all_unmet_save] intro: all_unmet_save)

lemma all_unmet_breaches:
  "all_unmet db \<Longrightarrow> (\<forall>t \<in> set ts. unmet (mark t)) \<Longrightarrow> all_unmet (fold (breachOne mark reason) ts db)"
  by (induction ts arbitrary: db) (auto intro: all_unmet_breach)

lemma all_unmet_check: "all_unmet db \<Longrightarrow> all_unmet (snd (checkSlaBreaches dateText now db))"
proof -
  assume inv: "all_unmet db"
  let ?f = "\<lambda>t::SupportTicket. t\<lparr>tk_slaResponseMet := Some False\<rparr>"
    and ?g = "\<lambda>t::SupportTicket. t\<lparr>tk_slaResolutionMet := Some False\<rparr>"
  have f: "unmet (?f t)" and g: "unmet (?g t)" if "unmet t" for t using that by (simp_all add: unmet_def)
  define db1 where "db1 = fold (breachOne ?f
    (\<lambda>t. ''SLA response deadline breached. Deadline was '' @ dateText (tk_slaResponseDeadline t)))
    (filter (responseBreached now) (in_tickets db)) db"
  have one: "all_unmet db1"
    unfolding db1_def using inv by (intro all_unmet_breaches) (auto simp: all_unmet_def intro: f)
  then have "all_unmet (fold (breachOne ?g
    (\<lambda>t. ''SLA resolution deadline breached. Deadline was '' @ dateText (tk_slaResolutionDeadline t)))
    (filter (resolutionBreached now) (in_tickets db1)) db1)"
    by (intro all_unmet_breaches) (auto simp: all_unmet_def intro: g)
  then show ?thesis by (simp add: checkSlaBreaches_def Let_def db1_def)
qed

interpretation tickets: event_loop ticketRequest all_unmet
proof
  fix db r
  assume inv: "all_unmet db"
  show "all_unmet (ticketRequest r db)"
  proof (cases r)
    case (CreateTicket c u dto now)
    show ?thesis unfolding CreateTicket ticketRequest.simps
      by (rule commit_map_snd) (use inv all_unmet_createTicket in auto)
  next
    case (UpdateTicket i st internal now)
    show ?thesis unfolding UpdateTicket ticketRequest.simps
      by (rule commit_map_snd) (use inv all_unmet_update in auto)
  next
    case (AssignTicket i u)
    show ?thesis unfolding AssignTicket ticketRequest.simps
      by (rule commit_map_snd) (use inv all_unmet_assign in auto)
  next
    case (EscalateTicket i why)
    show ?thesis unfolding EscalateTicket ticketRequest.simps
      by (rule commit_map_snd) (use inv all_unmet_escalate in auto)
  qed (use inv all_unmet_check in simp)
qed

lemma percentage_zero: "percentage 0 n = (if n = 0 then 100 else 0)"
  by (simp add: percentage_def roundCents_def)

text \<open>
  The deadlines of support tickets can only be missed, never met: the flags of a loaded ticket
  are null, the handlers wait for undefined, and the only writer left is the breach check, which
  writes false. After any history of requests no ticket counts as answered or resolved in time,
  and the resolution compliance of a client is 0 percent as soon as one ticket was resolved,
  however quickly.
\<close>

theorem ticket_deadlines_never_met:
  assumes "all_unmet db"
  shows "let stats = getSlaComplianceStats c (fold ticketRequest rs db) in
    sl_slaResponseMetCount stats = 0 \<and> sl_slaResolutionMetCount stats = 0 \<and>
    ((\<exists>t \<in> set (in_tickets (fold ticketRequest rs db)). tk_resolvedAt t \<noteq> None \<and> (c = None \<or> c = Some (tk_clientId t))) \<longrightarrow>
       sl_slaResolutionCompliancePercent stats = 0)"
proof -
  let ?db = "fold ticketRequest rs db"
  have inv: "\<And>t. t \<in> set (in_tickets ?db) \<Longrightarrow> unmet t"
    using tickets.run_inv [OF assms, of rs] by (simp add: all_unmet_def)
  then have none: "filter (\<lambda>t. tk_slaResponseMet t = Some True) (filter P (filter Q (in_tickets ?db))) = []"
    "filter (\<lambda>t. tk_slaResolutionMet t = Some True) (filter Q (in_tickets ?db)) = []" for P Q
    by (auto simp: filter_empty_conv unmet_def)
  show ?thesis
    unfolding getSlaComplianceStats_def Let_def sla_stats.simps none
    by (auto simp: percentage_zero filter_empty_conv split: option.splits)
qed

theorem ticket_deadlines_never_met_witness:
  "sl_slaResolutionCompliancePercent (getSlaComplianceStats None (fold ticketRequest
     [CreateTicket 3 7 \<lparr>ct_subject = ''a'', ct_description = ''b'', ct_category = None, ct_priority = None,
        ct_assignedToId = None\<rparr> 1000, UpdateTicket (unusedId []) RESOLVED None 1001] exInst)) = 0"
proof -
  let ?rs = "[CreateTicket 3 7 \<lparr>ct_subject = ''a'', ct_description = ''b'', ct_category = None, ct_priority = None,
        ct_assignedToId = None\<rparr> 1000, UpdateTicket (unusedId []) RESOLVED None 1001]"
  have "all_unmet exInst" by (simp add: all_unmet_def exInst_def)
  moreover have "\<exists>t \<in> set (in_tickets (fold ticketRequest ?rs exInst)). tk_resolvedAt t \<noteq> None"
    by (simp add: commit_def createTicket_def findClientById_def exInst_def exClient_def row_of_def Let_def
        updateTicketStatus_def findTicket_def instEmit_def saveTicket_def save_row_def)
  ultimately show ?thesis
    using ticket_deadlines_never_met [of exInst None ?rs] by (simp only: Let_def simp_thms)
qed

end
