(* ===== verification/ZeroLoss.thy ===== *)
theory ZeroLoss
  imports Prelude "HOL-Library.List_Lexorder" "HOL-Library.Char_ord"
begin

text \<open>
  The durable message store, \<open>queue/zero-loss-message.service.ts\<close>: messages as Redis hashes, a
  lease per message with a time to live, the sweep that returns the messages of crashed
  workers, retries by hand and the removal of old completed messages.

  The store holds the hashes, the sets and the leases. A lease that has passed its expiry is gone
  for every command. A handler is first a function of the store and the time, all its commands run
  at one instant; then every command is a step of its own and the steps of any number of workers
  and sweeps interleave, workers crash and time passes. The payload is the JSON text the hash
  keeps. \<open>hset\<close> on a hash that does not exist would leave fields without a \<open>messageId\<close>, which
  every read takes for absent: it changes nothing here.
\<close>

section \<open>Data\<close>

datatype MessageStatus = Pending | Processing | Completed | Failed

record PersistedMessage =
  zm_messageId :: uuid
  zm_queueName :: string
  zm_data :: string
  zm_status :: MessageStatus
  zm_attempts :: nat
  zm_maxAttempts :: nat
  zm_createdAt :: timestamp
  zm_updatedAt :: timestamp
  zm_acknowledgedAt :: "timestamp option"
  zm_completedAt :: "timestamp option"
  zm_failedAt :: "timestamp option"
  zm_error :: "string option"
  zm_replicationNodes :: "string list"
  zm_leaseUntil :: "timestamp option"

datatype lease_owner = Worker uuid | Recovery uuid

record lease =
  le_messageId :: uuid
  le_owner :: lease_owner
  le_expiresAt :: timestamp

datatype message_event =
    MessagePersisted uuid string
  | MessageAcknowledged uuid
  | MessageCompleted uuid
  | MessageFailed uuid string
  | MessageRetried uuid
  | MessageRequeued uuid

record zls_store =
  zs_msgs :: "PersistedMessage list"
  zs_queues :: "(string \<times> uuid) list"
  zs_nodes :: "string list"
  zs_leases :: "lease list"
  zs_events :: "message_event list"

record ZeroLossConfig =
  zc_replicationFactor :: nat
  zc_acknowledgmentTimeoutMs :: int
  zc_maxRetryAttempts :: nat

definition DEFAULT_ZERO_LOSS :: ZeroLossConfig where
  "DEFAULT_ZERO_LOSS = \<lparr>zc_replicationFactor = 3, zc_acknowledgmentTimeoutMs = 5000, zc_maxRetryAttempts = 5\<rparr>"

section \<open>Redis commands\<close>

text \<open>\<open>Math.max(1, Math.ceil(timeout / 1000))\<close>\<close>

definition leaseTtlSeconds :: "ZeroLossConfig \<Rightarrow> int" where
  "leaseTtlSeconds cfg = max 1 (- ((- zc_acknowledgmentTimeoutMs cfg) div 1000))"

definition liveLease :: "uuid \<Rightarrow> timestamp \<Rightarrow> zls_store \<Rightarrow> lease option" where
  "liveLease i now s =
     (case row_of le_messageId i (zs_leases s) of
        None \<Rightarrow> None | Some l \<Rightarrow> if now < le_expiresAt l then Some l else None)"

text \<open>\<open>SET lease owner EX ttl NX\<close>\<close>

definition claimLease ::
  "ZeroLossConfig \<Rightarrow> lease_owner \<Rightarrow> uuid \<Rightarrow> timestamp \<Rightarrow> zls_store \<Rightarrow> bool \<times> zls_store" where
  "claimLease cfg owner i now s =
     (if liveLease i now s = None
      then (True, s\<lparr>zs_leases := save_row le_messageId
             \<lparr>le_messageId = i, le_owner = owner, le_expiresAt = now + leaseTtlSeconds cfg * 1000\<rparr> (zs_leases s)\<rparr>)
      else (False, s))"

definition delLease :: "uuid \<Rightarrow> zls_store \<Rightarrow> zls_store" where
  "delLease i s = s\<lparr>zs_leases := filter (\<lambda>l. le_messageId l \<noteq> i) (zs_leases s)\<rparr>"

definition getHashMessage :: "uuid \<Rightarrow> zls_store \<Rightarrow> PersistedMessage option" where
  "getHashMessage i s = row_of zm_messageId i (zs_msgs s)"

definition hsetMessage :: "uuid \<Rightarrow> (PersistedMessage \<Rightarrow> PersistedMessage) \<Rightarrow> zls_store \<Rightarrow> zls_store" where
  "hsetMessage i f s = s\<lparr>zs_msgs := map (\<lambda>m. if zm_messageId m = i then f m else m) (zs_msgs s)\<rparr>"

definition emitMessage :: "message_event \<Rightarrow> zls_store \<Rightarrow> zls_store" where
  "emitMessage e s = s\<lparr>zs_events := zs_events s @ [e]\<rparr>"

section \<open>Replication nodes\<close>

definition registerReplicationNode :: "string \<Rightarrow> zls_store \<Rightarrow> zls_store" where
  "registerReplicationNode n s = s\<lparr>zs_nodes := (if n \<in> set (zs_nodes s) then zs_nodes s else zs_nodes s @ [n])\<rparr>"

definition unregisterReplicationNode :: "string \<Rightarrow> zls_store \<Rightarrow> zls_store" where
  "unregisterReplicationNode n s = s\<lparr>zs_nodes := filter (\<lambda>x. x \<noteq> n) (zs_nodes s)\<rparr>"

definition getReplicationTargets :: "ZeroLossConfig \<Rightarrow> zls_store \<Rightarrow> string list" where
  "getReplicationTargets cfg s =
     (let nodes = sort (zs_nodes s) in take (min (zc_replicationFactor cfg) (length nodes)) nodes)"

section \<open>The life of a message\<close>

definition persistMessage ::
  "ZeroLossConfig \<Rightarrow> uuid \<Rightarrow> string \<Rightarrow> string \<Rightarrow> nat option \<Rightarrow> timestamp \<Rightarrow> zls_store \<Rightarrow>
     PersistedMessage \<times> zls_store" where
  "persistMessage cfg i queueName payload maxAttempts now s =
     (let message = \<lparr>zm_messageId = i, zm_queueName = queueName, zm_data = payload, zm_status = Pending,
            zm_attempts = 0,
            zm_maxAttempts = (case maxAttempts of None \<Rightarrow> zc_maxRetryAttempts cfg | Some n \<Rightarrow> n),
            zm_createdAt = now, zm_updatedAt = now, zm_acknowledgedAt = None, zm_completedAt = None,
            zm_failedAt = None, zm_error = None, zm_replicationNodes = getReplicationTargets cfg s,
            zm_leaseUntil = None\<rparr>
      in (message, emitMessage (MessagePersisted i queueName)
            (s\<lparr>zs_msgs := save_row zm_messageId message (zs_msgs s),
               zs_queues := (if (queueName, i) \<in> set (zs_queues s) then zs_queues s
                             else zs_queues s @ [(queueName, i)])\<rparr>)))"

text \<open>The commands of \<open>markProcessing\<close> after the claim: the count and the change of status.\<close>

definition countAttempt :: "uuid \<Rightarrow> zls_store \<Rightarrow> zls_store" where
  "countAttempt i s = hsetMessage i (\<lambda>m. m\<lparr>zm_attempts := zm_attempts m + 1\<rparr>) s"

definition startProcessing :: "ZeroLossConfig \<Rightarrow> uuid \<Rightarrow> timestamp \<Rightarrow> zls_store \<Rightarrow> zls_store" where
  "startProcessing cfg i now s =
     hsetMessage i (\<lambda>m. m\<lparr>zm_status := Processing, zm_updatedAt := now,
       zm_leaseUntil := Some (now + zc_acknowledgmentTimeoutMs cfg)\<rparr>) s"

definition isPending :: "uuid \<Rightarrow> zls_store \<Rightarrow> bool" where
  "isPending i s = (case getHashMessage i s of None \<Rightarrow> False | Some m \<Rightarrow> zm_status m = Pending)"

definition markProcessing ::
  "ZeroLossConfig \<Rightarrow> uuid \<Rightarrow> uuid \<Rightarrow> timestamp \<Rightarrow> zls_store \<Rightarrow> bool \<times> zls_store" where
  "markProcessing cfg inst i now s =
     (let (claimed, s1) = claimLease cfg (Worker inst) i now s
      in if \<not> claimed then (False, s1)
         else if \<not> isPending i s1 then (False, delLease i s1)
         else (True, startProcessing cfg i now (countAttempt i s1)))"

definition renewProcessingLease ::
  "ZeroLossConfig \<Rightarrow> uuid \<Rightarrow> uuid \<Rightarrow> timestamp \<Rightarrow> zls_store \<Rightarrow> bool \<times> zls_store" where
  "renewProcessingLease cfg inst i now s =
     (case liveLease i now s of
        None \<Rightarrow> (False, s)
      | Some l \<Rightarrow>
          if le_owner l \<noteq> Worker inst then (False, s)
          else (True, hsetMessage i (\<lambda>m. m\<lparr>zm_updatedAt := now,
                  zm_leaseUntil := Some (now + zc_acknowledgmentTimeoutMs cfg)\<rparr>)
                (s\<lparr>zs_leases := save_row le_messageId
                    (l\<lparr>le_expiresAt := now + leaseTtlSeconds cfg * 1000\<rparr>) (zs_leases s)\<rparr>)))"

text \<open>Acknowledging, completing and failing differ in the fields they write and their event.\<close>

definition acknowledged :: "timestamp \<Rightarrow> PersistedMessage \<Rightarrow> PersistedMessage" where
  "acknowledged now m = m\<lparr>zm_acknowledgedAt := Some now, zm_updatedAt := now, zm_leaseUntil := None\<rparr>"

definition completedMessage :: "timestamp \<Rightarrow> PersistedMessage \<Rightarrow> PersistedMessage" where
  "completedMessage now m =
     m\<lparr>zm_status := Completed, zm_completedAt := Some now, zm_updatedAt := now, zm_leaseUntil := None\<rparr>"

text \<open>The empty string reads back as no error.\<close>

definition errorField :: "string \<Rightarrow> string option" where
  "errorField e = (if e = [] then None else Some e)"

definition failedMessage :: "string \<Rightarrow> timestamp \<Rightarrow> PersistedMessage \<Rightarrow> PersistedMessage" where
  "failedMessage e now m =
     m\<lparr>zm_status := Failed, zm_error := errorField e, zm_failedAt := Some now, zm_updatedAt := now,
       zm_leaseUntil := None\<rparr>"

definition finishMessage ::
  "(PersistedMessage \<Rightarrow> PersistedMessage) \<Rightarrow> message_event \<Rightarrow> uuid \<Rightarrow> zls_store \<Rightarrow> bool \<times> zls_store" where
  "finishMessage f e i s =
     (case getHashMessage i s of
        None \<Rightarrow> (False, s)
      | Some m \<Rightarrow> (True, emitMessage e (delLease i (hsetMessage i f s))))"

definition acknowledgeMessage :: "uuid \<Rightarrow> timestamp \<Rightarrow> zls_store \<Rightarrow> bool \<times> zls_store" where
  "acknowledgeMessage i now s = finishMessage (acknowledged now) (MessageAcknowledged i) i s"

definition markCompleted :: "uuid \<Rightarrow> timestamp \<Rightarrow> zls_store \<Rightarrow> bool \<times> zls_store" where
  "markCompleted i now s = finishMessage (completedMessage now) (MessageCompleted i) i s"

definition markFailed :: "uuid \<Rightarrow> string \<Rightarrow> timestamp \<Rightarrow> zls_store \<Rightarrow> bool \<times> zls_store" where
  "markFailed i e now s = finishMessage (failedMessage e now) (MessageFailed i e) i s"

definition requeued :: "timestamp \<Rightarrow> PersistedMessage \<Rightarrow> PersistedMessage" where
  "requeued now m = m\<lparr>zm_status := Pending, zm_updatedAt := now, zm_leaseUntil := None\<rparr>"

text \<open>\<open>Number(null)\<close> is 0: a message with no attempts and none allowed counts as not found.\<close>

definition retryMessage :: "uuid \<Rightarrow> timestamp \<Rightarrow> zls_store \<Rightarrow> bool \<times> zls_store" where
  "retryMessage i now s =
     (case getHashMessage i s of
        None \<Rightarrow> (False, s)
      | Some m \<Rightarrow>
          if zm_attempts m = 0 \<and> zm_maxAttempts m = 0 then (False, s)
          else if zm_attempts m \<ge> zm_maxAttempts m then (False, s)
          else (True, emitMessage (MessageRetried i) (delLease i
                 (hsetMessage i (\<lambda>x. (requeued now x)\<lparr>zm_error := None\<rparr>) s))))"

section \<open>Recovery\<close>

definition isOrphan :: "PersistedMessage \<Rightarrow> bool" where
  "isOrphan m \<longleftrightarrow> zm_status m = Processing \<and> zm_acknowledgedAt m = None"

text \<open>The write of the sweep once the claim is confirmed: back to pending, or failed after the last attempt.\<close>

definition returnOrphan :: "uuid \<Rightarrow> nat \<Rightarrow> nat \<Rightarrow> timestamp \<Rightarrow> zls_store \<Rightarrow> zls_store" where
  "returnOrphan i attempts maxAttempts now s =
     (if attempts < maxAttempts
      then emitMessage (MessageRequeued i) (hsetMessage i (requeued now) s)
      else emitMessage (MessageFailed i ''max-attempts-exceeded'')
             (hsetMessage i (failedMessage ''Acknowledgment timeout'' now) s))"

definition recoverOne ::
  "ZeroLossConfig \<Rightarrow> uuid \<Rightarrow> uuid \<Rightarrow> timestamp \<Rightarrow> zls_store \<Rightarrow> bool \<times> zls_store" where
  "recoverOne cfg inst i now s =
     (case getHashMessage i s of
        None \<Rightarrow> (False, s)
      | Some message \<Rightarrow>
          if \<not> isOrphan message then (False, s)
          else if liveLease i now s \<noteq> None then (False, s)
          else let (claimed, s1) = claimLease cfg (Recovery inst) i now s
               in if \<not> claimed then (False, s1)
                  else case getHashMessage i s1 of
                         None \<Rightarrow> (False, delLease i s1)
                       | Some current \<Rightarrow>
                           if \<not> isOrphan current then (False, delLease i s1)
                           else (True, delLease i
                                  (returnOrphan i (zm_attempts current) (zm_maxAttempts current) now s1)))"

definition recoverStep ::
  "ZeroLossConfig \<Rightarrow> uuid \<Rightarrow> timestamp \<Rightarrow> uuid \<Rightarrow> nat \<times> zls_store \<Rightarrow> nat \<times> zls_store" where
  "recoverStep cfg inst now i acc =
     (let (r, s') = recoverOne cfg inst i now (snd acc) in (if r then fst acc + 1 else fst acc, s'))"

definition recoverOrphanedMessages :: "ZeroLossConfig \<Rightarrow> uuid \<Rightarrow> timestamp \<Rightarrow> zls_store \<Rightarrow> nat \<times> zls_store" where
  "recoverOrphanedMessages cfg inst now s =
     fold (recoverStep cfg inst now) (map zm_messageId (zs_msgs s)) (0, s)"

section \<open>Reads and cleaning\<close>

definition getQueueMessages :: "string \<Rightarrow> zls_store \<Rightarrow> PersistedMessage list" where
  "getQueueMessages queueName s =
     List.map_filter (\<lambda>i. getHashMessage i s) (map snd (filter (\<lambda>(q, _). q = queueName) (zs_queues s)))"

definition getMessagesByStatus :: "MessageStatus \<Rightarrow> zls_store \<Rightarrow> PersistedMessage list" where
  "getMessagesByStatus st s = filter (\<lambda>m. zm_status m = st) (zs_msgs s)"

definition isExpiredMessage :: "timestamp \<Rightarrow> PersistedMessage \<Rightarrow> bool" where
  "isExpiredMessage cutoff m \<longleftrightarrow> zm_status m = Completed \<and>
     (case zm_completedAt m of None \<Rightarrow> False | Some t \<Rightarrow> t < cutoff)"

definition cleanupCompletedMessages :: "int \<Rightarrow> timestamp \<Rightarrow> zls_store \<Rightarrow> nat \<times> zls_store" where
  "cleanupCompletedMessages maxAgeMs now s =
     (let old = filter (isExpiredMessage (now - maxAgeMs)) (zs_msgs s)
      in (length old,
          s\<lparr>zs_msgs := filter (\<lambda>m. \<not> isExpiredMessage (now - maxAgeMs) m) (zs_msgs s),
            zs_queues := filter (\<lambda>q. q \<notin> set (map (\<lambda>m. (zm_queueName m, zm_messageId m)) old)) (zs_queues s)\<rparr>))"

record message_stats =
  zt_total :: nat
  zt_pending :: nat
  zt_processing :: nat
  zt_completed :: nat
  zt_failed :: nat
  zt_replicationNodes :: nat
  zt_activeLeases :: nat

definition messageStats :: "timestamp \<Rightarrow> zls_store \<Rightarrow> message_stats" where
  "messageStats now s =
     \<lparr>zt_total = length (zs_msgs s), zt_pending = length (getMessagesByStatus Pending s),
      zt_processing = length (getMessagesByStatus Processing s),
      zt_completed = length (getMessagesByStatus Completed s),
      zt_failed = length (getMessagesByStatus Failed s), zt_replicationNodes = length (zs_nodes s),
      zt_activeLeases = length (filter (\<lambda>l. now < le_expiresAt l) (zs_leases s))\<rparr>"

definition verifyMessageIntegrity :: "ZeroLossConfig \<Rightarrow> uuid \<Rightarrow> timestamp \<Rightarrow> zls_store \<Rightarrow> bool \<times> string list" where
  "verifyMessageIntegrity cfg i now s =
     (case getHashMessage i s of
        None \<Rightarrow> (False, [''Message not found''])
      | Some m \<Rightarrow>
          let issues =
            (if isOrphan m \<and> liveLease i now s = None
             then [''Message stuck in processing state (lease expired)''] else []) @
            (if length (zm_replicationNodes m) < zc_replicationFactor cfg
             then [''Insufficient replication: '' @ natText (length (zm_replicationNodes m)) @ ''/'' @
                   natText (zc_replicationFactor cfg)] else []) @
            (if zm_attempts m > zm_maxAttempts m then [''Exceeded max retry attempts''] else [])
          in (issues = [], issues))"

section \<open>Interleaved workers and sweeps\<close>

text \<open>
  What a process of the deployment is doing. Every process has its own instance id. A worker claims
  the lease of a message, confirms that it is pending, counts the attempt, starts, and releases the
  lease in the end; a sweep reads the message, sees no lease, claims it, reads the message again,
  writes it back and releases. The clean-up reads a message, sees that it was completed long ago and
  deletes its key. A retry reads the attempts, writes the message back and deletes the lease.
\<close>

datatype activity =
    Idle
  | Claimed uuid
  | Confirmed uuid
  | Counted uuid
  | Working uuid
  | Suspecting uuid
  | Observed uuid
  | Reclaimed uuid
  | Returning uuid nat nat
  | Releasing uuid
  | Spotted uuid string
  | Retrying uuid

fun held :: "activity \<Rightarrow> uuid option" where
  "held Idle = None"
| "held (Suspecting i) = None"
| "held (Observed i) = None"
| "held (Claimed i) = Some i"
| "held (Confirmed i) = Some i"
| "held (Counted i) = Some i"
| "held (Working i) = Some i"
| "held (Reclaimed i) = Some i"
| "held (Returning i a mx) = Some i"
| "held (Releasing i) = Some i"
| "held (Spotted i q) = None"
| "held (Retrying i) = None"

record zl_sys =
  zy_clock :: timestamp
  zy_store :: zls_store
  zy_procs :: "uuid \<Rightarrow> activity"

abbreviation goto :: "uuid \<Rightarrow> activity \<Rightarrow> zl_sys \<Rightarrow> zl_sys" where
  "goto p a s \<equiv> s\<lparr>zy_procs := (zy_procs s)(p := a)\<rparr>"

text \<open>\<open>DEL\<close> of the key and \<open>SREM\<close> from the queue's set.\<close>

definition removeMessage :: "uuid \<Rightarrow> string \<Rightarrow> zls_store \<Rightarrow> zls_store" where
  "removeMessage i q s =
     s\<lparr>zs_msgs := filter (\<lambda>m. zm_messageId m \<noteq> i) (zs_msgs s),
       zs_queues := filter (\<lambda>x. x \<noteq> (q, i)) (zs_queues s)\<rparr>"

text \<open>
  One command of one process: producers that persist messages under new ids, workers, sweeps and
  clean-ups. A worker ends by acknowledging, completing or failing its message. A process may crash
  at any point; its lease stays behind. Time passes
  only as far as no process that is still running outlives its lease: a live worker renews in time
  and the few commands of a claim take less than the time-out. An id is new when no message has it and
  no clean-up is about to delete it. What else the service lets anybody do with a message, \<open>zl_any\<close>
  below adds: retries, persisting an id again, and writes of processes whose lease is gone.
\<close>

inductive zl_step :: "ZeroLossConfig \<Rightarrow> zl_sys \<Rightarrow> zl_sys \<Rightarrow> bool" for cfg :: ZeroLossConfig where
  persisting: "getHashMessage i (zy_store s) = None \<Longrightarrow> (\<And>p k. zy_procs s p \<noteq> Spotted i k) \<Longrightarrow>
     zl_step cfg s (s\<lparr>zy_store := snd (persistMessage cfg i q payload mx (zy_clock s) (zy_store s))\<rparr>)"
| claiming: "zy_procs s p = Idle \<Longrightarrow> claimLease cfg (Worker p) i (zy_clock s) (zy_store s) = (True, st) \<Longrightarrow>
     zl_step cfg s (goto p (Claimed i) (s\<lparr>zy_store := st\<rparr>))"
| confirming: "zy_procs s p = Claimed i \<Longrightarrow> isPending i (zy_store s) \<Longrightarrow> zl_step cfg s (goto p (Confirmed i) s)"
| declining: "zy_procs s p = Claimed i \<Longrightarrow> \<not> isPending i (zy_store s) \<Longrightarrow> zl_step cfg s (goto p (Releasing i) s)"
| counting: "zy_procs s p = Confirmed i \<Longrightarrow>
     zl_step cfg s (goto p (Counted i) (s\<lparr>zy_store := countAttempt i (zy_store s)\<rparr>))"
| starting: "zy_procs s p = Counted i \<Longrightarrow>
     zl_step cfg s (goto p (Working i) (s\<lparr>zy_store := startProcessing cfg i (zy_clock s) (zy_store s)\<rparr>))"
| renewing: "zy_procs s p = Working i \<Longrightarrow>
     zl_step cfg s (s\<lparr>zy_store := snd (renewProcessingLease cfg p i (zy_clock s) (zy_store s))\<rparr>)"
| acknowledging: "zy_procs s p = Working i \<Longrightarrow>
     zl_step cfg s (goto p (Releasing i) (s\<lparr>zy_store := emitMessage (MessageAcknowledged i)
       (hsetMessage i (acknowledged (zy_clock s)) (zy_store s))\<rparr>))"
| completing: "zy_procs s p = Working i \<Longrightarrow>
     zl_step cfg s (goto p (Releasing i) (s\<lparr>zy_store := emitMessage (MessageCompleted i)
       (hsetMessage i (completedMessage (zy_clock s)) (zy_store s))\<rparr>))"
| failing: "zy_procs s p = Working i \<Longrightarrow>
     zl_step cfg s (goto p (Releasing i) (s\<lparr>zy_store := emitMessage (MessageFailed i e)
       (hsetMessage i (failedMessage e (zy_clock s)) (zy_store s))\<rparr>))"
| suspecting: "zy_procs s p = Idle \<Longrightarrow> getHashMessage i (zy_store s) = Some m \<Longrightarrow> isOrphan m \<Longrightarrow>
     zl_step cfg s (goto p (Suspecting i) s)"
| observing: "zy_procs s p = Suspecting i \<Longrightarrow> liveLease i (zy_clock s) (zy_store s) = None \<Longrightarrow>
     zl_step cfg s (goto p (Observed i) s)"
| backing_off: "zy_procs s p = Suspecting i \<Longrightarrow> liveLease i (zy_clock s) (zy_store s) \<noteq> None \<Longrightarrow>
     zl_step cfg s (goto p Idle s)"
| reclaiming: "zy_procs s p = Observed i \<Longrightarrow> claimLease cfg (Recovery p) i (zy_clock s) (zy_store s) = (True, st) \<Longrightarrow>
     zl_step cfg s (goto p (Reclaimed i) (s\<lparr>zy_store := st\<rparr>))"
| outrun: "zy_procs s p = Observed i \<Longrightarrow> claimLease cfg (Recovery p) i (zy_clock s) (zy_store s) = (False, st) \<Longrightarrow>
     zl_step cfg s (goto p Idle s)"
| rechecking: "zy_procs s p = Reclaimed i \<Longrightarrow> getHashMessage i (zy_store s) = Some m \<Longrightarrow> isOrphan m \<Longrightarrow>
     zl_step cfg s (goto p (Returning i (zm_attempts m) (zm_maxAttempts m)) s)"
| withdrawing: "zy_procs s p = Reclaimed i \<Longrightarrow>
     \<not> (\<exists>m. getHashMessage i (zy_store s) = Some m \<and> isOrphan m) \<Longrightarrow> zl_step cfg s (goto p (Releasing i) s)"
| returning: "zy_procs s p = Returning i a mx \<Longrightarrow>
     zl_step cfg s (goto p (Releasing i) (s\<lparr>zy_store := returnOrphan i a mx (zy_clock s) (zy_store s)\<rparr>))"
| releasing: "zy_procs s p = Releasing i \<Longrightarrow>
     zl_step cfg s (goto p Idle (s\<lparr>zy_store := delLease i (zy_store s)\<rparr>))"
| spotting: "zy_procs s p = Idle \<Longrightarrow> getHashMessage i (zy_store s) = Some m \<Longrightarrow>
     isExpiredMessage (zy_clock s - maxAgeMs) m \<Longrightarrow> zl_step cfg s (goto p (Spotted i (zm_queueName m)) s)"
| removing: "zy_procs s p = Spotted i q \<Longrightarrow>
     zl_step cfg s (goto p Idle (s\<lparr>zy_store := removeMessage i q (zy_store s)\<rparr>))"
| crashing: "zl_step cfg s (goto p Idle s)"
| ticking: "zy_clock s \<le> t \<Longrightarrow>
     (\<And>p i. held (zy_procs s p) = Some i \<Longrightarrow> liveLease i t (zy_store s) \<noteq> None) \<Longrightarrow>
     zl_step cfg s (s\<lparr>zy_clock := t\<rparr>)"

section \<open>How the commands act\<close>

lemma getHashMessage_simps [simp]:
  "getHashMessage j (delLease i s) = getHashMessage j s"
  "getHashMessage j (emitMessage e s) = getHashMessage j s"
  "getHashMessage j (s\<lparr>zs_leases := ls\<rparr>) = getHashMessage j s"
  by (simp_all add: getHashMessage_def delLease_def emitMessage_def)

lemma getHashMessage_hset [simp]:
  "(\<And>m. zm_messageId (f m) = zm_messageId m) \<Longrightarrow>
     getHashMessage j (hsetMessage i f s) = (if j = i then map_option f (getHashMessage i s) else getHashMessage j s)"
proof (induction "zs_msgs s" arbitrary: s)
  case Nil
  then show ?case by (simp add: getHashMessage_def hsetMessage_def)
next
  case (Cons m ms)
  have "row_of zm_messageId j (map (\<lambda>m. if zm_messageId m = i then f m else m) t) =
      (if j = i then map_option f (row_of zm_messageId i t) else row_of zm_messageId j t)" for t
    using Cons.prems by (induction t) auto
  then show ?case by (simp add: getHashMessage_def hsetMessage_def)
qed

lemma fields_kept [simp]:
  "zm_messageId (requeued now m) = zm_messageId m" "zm_messageId (completedMessage now m) = zm_messageId m"
  "zm_messageId (failedMessage e now m) = zm_messageId m" "zm_messageId (acknowledged now m) = zm_messageId m"
  by (simp_all add: requeued_def completedMessage_def failedMessage_def acknowledged_def)

lemma liveLease_simps [simp]:
  "liveLease j t (hsetMessage i f s) = liveLease j t s"
  "liveLease j t (emitMessage e s) = liveLease j t s"
  "liveLease j t (countAttempt i s) = liveLease j t s"
  "liveLease j t (startProcessing cfg i now s) = liveLease j t s"
  "liveLease j t (returnOrphan i a mx now s) = liveLease j t s"
  "liveLease j t (s\<lparr>zs_msgs := ms, zs_queues := qs\<rparr>) = liveLease j t s"
  by (simp_all add: liveLease_def hsetMessage_def emitMessage_def countAttempt_def startProcessing_def returnOrphan_def)

lemma row_of_filter_other:
  "row_of key k (filter (\<lambda>x. key x \<noteq> j) t) = (if k = j then None else row_of key k t)"
  by (induction t) auto

lemma liveLease_del [simp]: "liveLease j t (delLease i s) = (if j = i then None else liveLease j t s)"
  by (simp add: liveLease_def delLease_def row_of_filter_other)

lemma claimLease_True:
  assumes "claimLease cfg owner i now s = (True, st)"
  shows "liveLease i now s = None" and "liveLease i now st \<noteq> None"
    and "j \<noteq> i \<Longrightarrow> liveLease j t st = liveLease j t s" and "getHashMessage j st = getHashMessage j s"
proof -
  have "0 < leaseTtlSeconds cfg" by (simp add: leaseTtlSeconds_def)
  then show "liveLease i now s = None" "liveLease i now st \<noteq> None"
    "j \<noteq> i \<Longrightarrow> liveLease j t st = liveLease j t s" "getHashMessage j st = getHashMessage j s"
    using assms by (auto simp: claimLease_def liveLease_def getHashMessage_def table_simps split: if_splits)
qed

lemma renew_spec:
  "liveLease i now s \<noteq> None \<Longrightarrow> liveLease i now (snd (renewProcessingLease cfg p i now s)) \<noteq> None"
  "j \<noteq> i \<Longrightarrow> liveLease j t (snd (renewProcessingLease cfg p i now s)) = liveLease j t s"
  "\<exists>f. getHashMessage j (snd (renewProcessingLease cfg p i now s)) = map_option f (getHashMessage j s) \<and>
     (\<forall>m. zm_status (f m) = zm_status m \<and> zm_data (f m) = zm_data m \<and> zm_queueName (f m) = zm_queueName m \<and>
       zm_attempts (f m) = zm_attempts m \<and> zm_maxAttempts (f m) = zm_maxAttempts m \<and>
       zm_acknowledgedAt (f m) = zm_acknowledgedAt m)"
proof -
  let ?f = "\<lambda>m. m\<lparr>zm_updatedAt := now, zm_leaseUntil := Some (now + zc_acknowledgmentTimeoutMs cfg)\<rparr>"
  have ttl: "0 < leaseTtlSeconds cfg" by (simp add: leaseTtlSeconds_def)
  have id: "le_messageId l = i" if "liveLease i now s = Some l" for l
    using that by (auto simp: liveLease_def split: option.splits if_splits dest: row_of_Some_in)
  show "liveLease i now (snd (renewProcessingLease cfg p i now s)) \<noteq> None" if "liveLease i now s \<noteq> None"
    using that ttl id by (auto simp: renewProcessingLease_def split: option.splits)
      (auto simp: liveLease_def table_simps)
  show "liveLease j t (snd (renewProcessingLease cfg p i now s)) = liveLease j t s" if "j \<noteq> i"
    using that id by (auto simp: renewProcessingLease_def split: option.splits)
      (auto simp: liveLease_def table_simps)
  have "getHashMessage j (snd (renewProcessingLease cfg p i now s)) \<in>
      {map_option id (getHashMessage j s), map_option ?f (getHashMessage j s)}"
    by (auto simp: renewProcessingLease_def option.map_id split: option.splits)
  then show "\<exists>f. getHashMessage j (snd (renewProcessingLease cfg p i now s)) = map_option f (getHashMessage j s) \<and>
     (\<forall>m. zm_status (f m) = zm_status m \<and> zm_data (f m) = zm_data m \<and> zm_queueName (f m) = zm_queueName m \<and>
       zm_attempts (f m) = zm_attempts m \<and> zm_maxAttempts (f m) = zm_maxAttempts m \<and>
       zm_acknowledgedAt (f m) = zm_acknowledgedAt m)"
    by (auto intro: exI [of _ id] exI [of _ ?f])
qed

section \<open>Exclusive processing\<close>

text \<open>What a process knows about the message it works on.\<close>

fun localOK :: "activity \<Rightarrow> zls_store \<Rightarrow> bool" where
  "localOK (Confirmed i) st = isPending i st"
| "localOK (Counted i) st = isPending i st"
| "localOK (Working i) st = (\<exists>m. getHashMessage i st = Some m \<and> zm_status m = Processing)"
| "localOK (Returning i a mx) st =
     (\<exists>m. getHashMessage i st = Some m \<and> isOrphan m \<and> zm_attempts m = a \<and> zm_maxAttempts m = mx)"
| "localOK (Spotted i q) st = (\<forall>m. getHashMessage i st = Some m \<longrightarrow> zm_status m = Completed)"
| "localOK _ st = True"

definition zl_inv :: "zl_sys \<Rightarrow> bool" where
  "zl_inv s \<longleftrightarrow>
     (\<forall>p q i. held (zy_procs s p) = Some i \<longrightarrow> held (zy_procs s q) = Some i \<longrightarrow> p = q) \<and>
     (\<forall>p i. held (zy_procs s p) = Some i \<longrightarrow> liveLease i (zy_clock s) (zy_store s) \<noteq> None) \<and>
     (\<forall>p. localOK (zy_procs s p) (zy_store s))"

lemma zl_invD:
  assumes "zl_inv s"
  shows "held (zy_procs s p) = Some i \<Longrightarrow> held (zy_procs s q) = Some i \<Longrightarrow> p = q"
    and "held (zy_procs s p) = Some i \<Longrightarrow> liveLease i (zy_clock s) (zy_store s) \<noteq> None"
    and "localOK (zy_procs s p) (zy_store s)"
  using assms unfolding zl_inv_def by blast+

text \<open>A completed message stays completed, and a message that is not there is not made.\<close>

definition keepsCompleted :: "uuid \<Rightarrow> zls_store \<Rightarrow> zls_store \<Rightarrow> bool" where
  "keepsCompleted i st st' \<longleftrightarrow> (\<forall>m'. getHashMessage i st' = Some m' \<longrightarrow>
     (\<exists>m. getHashMessage i st = Some m \<and> (zm_status m = Completed \<longrightarrow> zm_status m' = Completed)))"

lemma localOK_other:
  assumes "localOK a st" and "held a \<noteq> Some i" and "keepsCompleted i st st'"
    and "\<And>j. j \<noteq> i \<Longrightarrow> getHashMessage j st' = getHashMessage j st"
  shows "localOK a st'"
proof (cases a)
  case (Spotted k q)
  then show ?thesis using assms by (cases "k = i") (auto simp: keepsCompleted_def)
qed (use assms in \<open>auto simp: isPending_def\<close>)

text \<open>
  The steps of one process: it holds the message, or nobody does, and it changes nothing of other
  messages.
\<close>

lemma zl_inv_goto:
  assumes inv: "zl_inv s"
    and mine: "\<And>q. q \<noteq> p \<Longrightarrow> held (zy_procs s q) \<noteq> Some i"
    and a: "held a = None \<or> held a = Some i"
    and msgs: "\<And>j. j \<noteq> i \<Longrightarrow> getHashMessage j st = getHashMessage j (zy_store s)"
    and leases: "\<And>j. j \<noteq> i \<Longrightarrow> liveLease j (zy_clock s) st = liveLease j (zy_clock s) (zy_store s)"
    and live: "held a = Some i \<Longrightarrow> liveLease i (zy_clock s) st \<noteq> None"
    and keep: "keepsCompleted i (zy_store s) st"
    and ok: "localOK a st"
  shows "zl_inv (goto p a (s\<lparr>zy_store := st\<rparr>))"
proof -
  have other: "localOK (zy_procs s q) st" if "q \<noteq> p" for q
    by (rule localOK_other [OF zl_invD(3) [OF inv] mine [OF that] keep msgs])
  have lease: "liveLease j (zy_clock s) st \<noteq> None" if "held (zy_procs s q) = Some j" "q \<noteq> p" for q j
    using that mine [OF that(2)] leases [of j] zl_invD(2) [OF inv that(1)] by metis
  show ?thesis
    unfolding zl_inv_def
    using other lease a live ok mine zl_invD(1) [OF inv] by auto
qed

lemma holder_is_alone:
  "zl_inv s \<Longrightarrow> held (zy_procs s p) = Some i \<Longrightarrow> q \<noteq> p \<Longrightarrow> held (zy_procs s q) \<noteq> Some i"
  by (metis zl_invD(1))

lemma unleased_is_free:
  "zl_inv s \<Longrightarrow> liveLease i (zy_clock s) (zy_store s) = None \<Longrightarrow> held (zy_procs s q) \<noteq> Some i"
  by (metis zl_invD(2))

text \<open>A step of the holder that writes its message only, and one that claims a free lease.\<close>

lemma zl_inv_holder:
  assumes "zl_inv s" and "held (zy_procs s p) = Some i" and "held a = None \<or> held a = Some i"
    and "\<And>j. j \<noteq> i \<Longrightarrow> getHashMessage j st = getHashMessage j (zy_store s)"
    and "\<And>j t. liveLease j t st = liveLease j t (zy_store s)" and "keepsCompleted i (zy_store s) st"
    and "localOK a st"
  shows "zl_inv (goto p a (s\<lparr>zy_store := st\<rparr>))"
  using assms holder_is_alone [OF assms(1,2)] zl_invD(2) [OF assms(1,2)]
  by (intro zl_inv_goto [where i = i]) auto

lemma zl_inv_claim:
  assumes "zl_inv s" and "claimLease cfg owner i (zy_clock s) (zy_store s) = (True, st)"
    and "held a = Some i" and "localOK a st"
  shows "zl_inv (goto p a (s\<lparr>zy_store := st\<rparr>))"
  using assms claimLease_True [OF assms(2)] unleased_is_free [OF assms(1)]
  by (intro zl_inv_goto [where i = i]) (auto simp: keepsCompleted_def)

lemma zl_inv_quiet:
  assumes "zl_inv s" and "held (zy_procs s p) = Some i \<or> held a = None" and "held a = None \<or> held a = Some i"
    and "localOK a (zy_store s)"
  shows "zl_inv (goto p a s)"
proof -
  have live: "liveLease j (zy_clock s) (zy_store s) \<noteq> None" if "held (zy_procs s q) = Some j" for q j
    using zl_invD(2) [OF assms(1) that] .
  show ?thesis
    using assms live zl_invD(1) [OF assms(1)] zl_invD(3) [OF assms(1)] unfolding zl_inv_def by auto
qed

lemma getHash_count:
  "getHashMessage j (countAttempt i st) =
     (if j = i then map_option (\<lambda>m. m\<lparr>zm_attempts := zm_attempts m + 1\<rparr>) (getHashMessage i st) else getHashMessage j st)"
  by (simp add: countAttempt_def)

lemma isPending_count [simp]: "isPending i (countAttempt i st) = isPending i st"
  by (simp add: isPending_def getHash_count split: option.split)

lemma getHash_persist:
  "getHashMessage j (snd (persistMessage cfg i q payload mx now s)) =
     (if j = i then Some (fst (persistMessage cfg i q payload mx now s)) else getHashMessage j s)"
  by (simp add: persistMessage_def Let_def getHashMessage_def emitMessage_def table_simps)

lemma liveLease_persist [simp]: "liveLease j t (snd (persistMessage cfg i q payload mx now s)) = liveLease j t s"
  by (simp add: persistMessage_def Let_def)

lemma getHash_renew_other:
  "j \<noteq> i \<Longrightarrow> getHashMessage j (snd (renewProcessingLease cfg p i now s)) = getHashMessage j s"
  by (auto simp: renewProcessingLease_def split: option.splits)

lemma getHash_remove:
  "getHashMessage j (removeMessage i q st) = (if j = i then None else getHashMessage j st)"
  by (simp add: removeMessage_def getHashMessage_def row_of_filter_other)

lemma liveLease_remove [simp]: "liveLease j t (removeMessage i q st) = liveLease j t st"
  by (simp add: removeMessage_def liveLease_def)

lemma zl_inv_step:
  assumes "zl_step cfg s s'" and "zl_inv s"
  shows "zl_inv s'"
  using assms
proof cases
  case (persisting i q payload mx)
  have "localOK (zy_procs s p) (snd (persistMessage cfg i q payload mx (zy_clock s) (zy_store s)))" for p
    using zl_invD(3) [OF assms(2), of p] persisting(2,3)
    by (cases "zy_procs s p") (auto simp: isPending_def getHash_persist split: option.splits)
  then show ?thesis using assms(2) unfolding zl_inv_def persisting(1) by auto
next
  case (claiming p i st)
  show ?thesis unfolding claiming(1) by (rule zl_inv_claim [OF assms(2) claiming(3)]) simp_all
next
  case (confirming p i)
  then show ?thesis using assms(2) by (auto intro!: zl_inv_quiet [where i = i])
next
  case (declining p i)
  then show ?thesis using assms(2) by (auto intro!: zl_inv_quiet [where i = i])
next
  case (counting p i)
  then show ?thesis
    using assms(2) zl_invD(3) [OF assms(2), of p] unfolding counting(1)
    by (intro zl_inv_holder [where i = i]) (auto simp: getHash_count keepsCompleted_def)
next
  case (starting p i)
  then show ?thesis
    using assms(2) zl_invD(3) [OF assms(2), of p] unfolding starting(1)
    by (intro zl_inv_holder [where i = i])
      (auto simp: startProcessing_def isPending_def keepsCompleted_def split: option.splits)
next
  case (renewing p i)
  let ?st = "snd (renewProcessingLease cfg p i (zy_clock s) (zy_store s))"
  obtain f where f: "getHashMessage i ?st = map_option f (getHashMessage i (zy_store s))"
    "\<forall>m. zm_status (f m) = zm_status m"
    using renew_spec(3) [of i cfg p i "zy_clock s" "zy_store s"] by blast
  have "zl_inv (goto p (Working i) (s\<lparr>zy_store := ?st\<rparr>))"
    using assms(2) renewing(2) f zl_invD(3) [OF assms(2), of p] zl_invD(2) [OF assms(2), of p i]
      renew_spec(1) [of i "zy_clock s" "zy_store s" cfg p] renew_spec(2)
    by (intro zl_inv_goto [where i = i])
      (auto dest: holder_is_alone [where p = p and i = i] simp: getHash_renew_other keepsCompleted_def)
  then show ?thesis using renewing by (simp add: fun_upd_idem)
next
  case (acknowledging p i)
  then show ?thesis
    using assms(2) unfolding acknowledging(1)
    by (intro zl_inv_holder [where i = i]) (auto simp: keepsCompleted_def acknowledged_def)
next
  case (completing p i)
  then show ?thesis
    using assms(2) unfolding completing(1)
    by (intro zl_inv_holder [where i = i]) (auto simp: keepsCompleted_def completedMessage_def)
next
  case (failing p i e)
  then show ?thesis
    using assms(2) zl_invD(3) [OF assms(2), of p] unfolding failing(1)
    by (intro zl_inv_holder [where i = i]) (auto simp: keepsCompleted_def)
next
  case (suspecting p i m)
  then show ?thesis using assms(2) by (auto intro!: zl_inv_quiet)
next
  case (observing p i)
  then show ?thesis using assms(2) by (auto intro!: zl_inv_quiet)
next
  case (backing_off p i)
  then show ?thesis using assms(2) by (auto intro!: zl_inv_quiet)
next
  case (reclaiming p i st)
  show ?thesis unfolding reclaiming(1) by (rule zl_inv_claim [OF assms(2) reclaiming(3)]) simp_all
next
  case (outrun p i st)
  then show ?thesis using assms(2) by (auto intro!: zl_inv_quiet)
next
  case (rechecking p i m)
  then show ?thesis using assms(2) by (auto intro!: zl_inv_quiet [where i = i])
next
  case (withdrawing p i)
  then show ?thesis using assms(2) by (auto intro!: zl_inv_quiet [where i = i])
next
  case (returning p i a mx)
  then show ?thesis
    using assms(2) zl_invD(3) [OF assms(2), of p] unfolding returning(1)
    by (intro zl_inv_holder [where i = i]) (auto simp: returnOrphan_def keepsCompleted_def isOrphan_def)
next
  case (releasing p i)
  then show ?thesis
    using assms(2) holder_is_alone [OF assms(2), of p i] unfolding releasing(1)
    by (intro zl_inv_goto [where i = i]) (auto simp: keepsCompleted_def)
next
  case (spotting p i m maxAgeMs)
  then show ?thesis using assms(2) by (auto intro!: zl_inv_quiet simp: isExpiredMessage_def)
next
  case (removing p i q)
  have "localOK (zy_procs s x) (removeMessage i q (zy_store s))" for x
    using zl_invD(3) [OF assms(2), of x] zl_invD(3) [OF assms(2), of p] removing(2)
    by (cases "zy_procs s x") (auto simp: isPending_def isOrphan_def getHash_remove split: option.splits)
  then show ?thesis
    using zl_invD(1,2) [OF assms(2)] unfolding zl_inv_def removing(1) by (auto split: if_splits)
next
  case (crashing p)
  then show ?thesis using assms(2) by (auto intro!: zl_inv_quiet)
next
  case (ticking t)
  then show ?thesis using assms(2) unfolding zl_inv_def by auto
qed

lemma zl_inv_run: "(zl_step cfg)\<^sup>*\<^sup>* s s' \<Longrightarrow> zl_inv s \<Longrightarrow> zl_inv s'"
  by (induction rule: rtranclp_induct) (auto intro: zl_inv_step)

text \<open>The deployment before any message: nobody runs and no lease is held.\<close>

definition zl_start :: "timestamp \<Rightarrow> string list \<Rightarrow> zl_sys" where
  "zl_start t nodes = \<lparr>zy_clock = t,
     zy_store = \<lparr>zs_msgs = [], zs_queues = [], zs_nodes = nodes, zs_leases = [], zs_events = []\<rparr>,
     zy_procs = (\<lambda>_. Idle)\<rparr>"

lemma zl_start_inv: "zl_inv (zl_start t nodes)"
  by (simp add: zl_inv_def zl_start_def)

text \<open>What a message keeps from one step to the next.\<close>

definition carries :: "PersistedMessage \<Rightarrow> PersistedMessage \<Rightarrow> bool" where
  "carries m m' \<longleftrightarrow> zm_data m' = zm_data m \<and> zm_queueName m' = zm_queueName m \<and>
     zm_maxAttempts m' = zm_maxAttempts m \<and> zm_attempts m \<le> zm_attempts m'"

lemma carries_refl [simp]: "carries m m"
  by (simp add: carries_def)


lemma carries_writes [simp]:
  "carries m (requeued now m)" "carries m (completedMessage now m)" "carries m (failedMessage e now m)"
  "carries m (acknowledged now m)" "carries m ((requeued now m)\<lparr>zm_error := e'\<rparr>)"
  by (simp_all add: carries_def requeued_def completedMessage_def failedMessage_def acknowledged_def)


lemma getHash_returnOrphan:
  "getHashMessage j (returnOrphan i a mx now st) = (if j = i then map_option
     (if a < mx then requeued now else failedMessage ''Acknowledgment timeout'' now) (getHashMessage i st)
     else getHashMessage j st)"
  by (simp add: returnOrphan_def)


text \<open>Under the protocol a message that is completed or failed is left alone until it is removed.\<close>

lemma finished_messages_stay_finished:
  assumes "zl_step cfg s s'" and "zl_inv s" and m: "getHashMessage j (zy_store s) = Some m"
    and fin: "zm_status m \<in> {Completed, Failed}"
  shows "(\<exists>m'. getHashMessage j (zy_store s') = Some m' \<and> zm_status m' = zm_status m) \<or>
    (zm_status m = Completed \<and> getHashMessage j (zy_store s') = None)"
  using assms(1)
proof cases
  case (persisting i q payload mx)
  then show ?thesis using m by (auto simp: getHash_persist)
next
  case (claiming p i st)
  then show ?thesis using m claimLease_True(4) [OF claiming(3), of j] by simp
next
  case (reclaiming p i st)
  then show ?thesis using m claimLease_True(4) [OF reclaiming(3), of j] by simp
next
  case (counting p i)
  then show ?thesis using m by (auto simp: getHash_count)
next
  case (starting p i)
  then show ?thesis
    using m fin zl_invD(3) [OF assms(2), of p]
    by (auto simp: startProcessing_def isPending_def split: option.splits)
next
  case (renewing p i)
  then show ?thesis using renew_spec(3) [of j cfg p i "zy_clock s" "zy_store s"] m by auto
next
  case (acknowledging p i)
  then show ?thesis using m fin zl_invD(3) [OF assms(2), of p] by auto
next
  case (completing p i)
  then show ?thesis using m fin zl_invD(3) [OF assms(2), of p] by auto
next
  case (failing p i e)
  then show ?thesis using m fin zl_invD(3) [OF assms(2), of p] by auto
next
  case (returning p i a mx)
  then show ?thesis
    using m fin zl_invD(3) [OF assms(2), of p] by (auto simp: getHash_returnOrphan isOrphan_def)
next
  case (removing p i q)
  then show ?thesis
    using m zl_invD(3) [OF assms(2), of p] by (cases "j = i") (auto simp: getHash_remove)
qed (use m in auto)

section \<open>Everything the service allows\<close>

text \<open>
  Beside the steps of the protocol: time passes without regard to leases, so that a process goes on
  after its lease is over; any process acknowledges, completes or fails any message at any time, as the
  public operations let it, and deletes its lease; a message is retried, whatever its status; and the
  ids in \<open>R\<close> are persisted again, over the message that is there. Every step may run under a
  configuration of its own.
\<close>

inductive zl_any :: "uuid set \<Rightarrow> zl_sys \<Rightarrow> zl_sys \<Rightarrow> bool" for R :: "uuid set" where
  protocol: "zl_step cfg s s' \<Longrightarrow> zl_any R s s'"
| elapsing: "zy_clock s \<le> t \<Longrightarrow> zl_any R s (s\<lparr>zy_clock := t\<rparr>)"
| persisting_again: "i \<in> R \<Longrightarrow>
     zl_any R s (s\<lparr>zy_store := snd (persistMessage cfg i q payload mx (zy_clock s) (zy_store s))\<rparr>)"
| reporting: "zy_procs s p = Idle \<Longrightarrow>
     f \<in> {acknowledged (zy_clock s), completedMessage (zy_clock s), failedMessage e (zy_clock s)} \<Longrightarrow>
     zl_any R s (goto p (Releasing i) (s\<lparr>zy_store := emitMessage ev (hsetMessage i f (zy_store s))\<rparr>))"
| retrying: "zy_procs s p = Idle \<Longrightarrow> getHashMessage i (zy_store s) = Some m \<Longrightarrow>
     zm_attempts m < zm_maxAttempts m \<Longrightarrow> zl_any R s (goto p (Retrying i) s)"
| retried: "zy_procs s p = Retrying i \<Longrightarrow>
     zl_any R s (goto p (Releasing i) (s\<lparr>zy_store := emitMessage (MessageRetried i)
       (hsetMessage i (\<lambda>x. (requeued (zy_clock s) x)\<lparr>zm_error := None\<rparr>) (zy_store s))\<rparr>))"






text \<open>
  C28. A message is processed by one worker at a time. Under every interleaving of the Redis commands
  of any number of workers, recovery sweeps and clean-ups, with messages persisted under new ids and
  crashes at any point, two processes never work
  on the same message at once, no sweep returns a message somebody works on, and a message somebody
  works on is marked as processing. The assumption is the one in the time step: a process that
  runs does not outlive its lease. A retry by hand or a second message under the id of
  one that is being processed is not among the steps; what a retry does then, the lemma
  \<open>retry_takes_running_message\<close> shows.
\<close>

theorem lease_gives_exclusive_processing:
  assumes "(zl_step cfg)\<^sup>*\<^sup>* (zl_start t nodes) s" and "zy_procs s p = Working i"
  shows "(\<exists>m. getHashMessage i (zy_store s) = Some m \<and> zm_status m = Processing) \<and>
    (\<forall>q. q \<noteq> p \<longrightarrow> zy_procs s q \<noteq> Working i \<and> (\<forall>a mx. zy_procs s q \<noteq> Returning i a mx))"
proof -
  have inv: "zl_inv s" by (rule zl_inv_run [OF assms(1) zl_start_inv])
  then show ?thesis
    using zl_invD(3) [OF inv, of p] holder_is_alone [OF inv, of p i] assms(2) by fastforce
qed






section \<open>Handlers as runs\<close>

lemma goto_self: "zy_procs s p = a \<Longrightarrow> goto p a s = s"
  by (simp add: fun_upd_idem)

text \<open>A step in front of a run, with the state it leads to written as it simplifies.\<close>

lemma run_step: "zl_step cfg s s1 \<Longrightarrow> (zl_step cfg)\<^sup>*\<^sup>* s1 s' \<Longrightarrow> (zl_step cfg)\<^sup>*\<^sup>* s s'"
  by (rule converse_rtranclp_into_rtranclp)

lemma run_releasing:
  assumes "zy_procs s p = Releasing i" and "s' = goto p Idle (s\<lparr>zy_store := delLease i (zy_store s)\<rparr>)"
  shows "(zl_step cfg)\<^sup>*\<^sup>* s s'"
  using zl_step.releasing [OF assms(1), of cfg] assms(2) by blast

lemma markProcessing_run:
  assumes idle: "zy_procs s p = Idle" and run: "markProcessing cfg p i (zy_clock s) (zy_store s) = (r, st)"
  shows "(zl_step cfg)\<^sup>*\<^sup>* s (goto p (if r then Working i else Idle) (s\<lparr>zy_store := st\<rparr>))"
proof (cases "claimLease cfg (Worker p) i (zy_clock s) (zy_store s)")
  case (Pair claimed st1)
  let ?s1 = "goto p (Claimed i) (s\<lparr>zy_store := st1\<rparr>)"
  show ?thesis
  proof (cases claimed)
    case False
    then have "r = False" "st = zy_store s"
      using run Pair by (auto simp: markProcessing_def claimLease_def split: if_splits)
    then show ?thesis using idle by (simp add: fun_upd_idem)
  next
    case True
    have one: "zl_step cfg s ?s1" by (rule claiming [OF idle]) (simp add: Pair True)
    show ?thesis
    proof (cases "isPending i st1")
      case False
      then have r: "r = False" "st = delLease i st1" using run Pair True by (auto simp: markProcessing_def)
      have "zl_step cfg ?s1 (goto p (Releasing i) ?s1)" by (rule declining) (simp_all add: False)
      then show ?thesis
        by (rule run_step [OF one, OF run_step]) (rule run_releasing [where i = i and p = p], simp_all add: r)
    next
      case pend: True
      then have r: "r = True" "st = startProcessing cfg i (zy_clock s) (countAttempt i st1)"
        using run Pair True by (auto simp: markProcessing_def)
      let ?s2 = "goto p (Confirmed i) ?s1"
      let ?s3 = "goto p (Counted i) (?s2\<lparr>zy_store := countAttempt i (zy_store ?s2)\<rparr>)"
      have "zl_step cfg ?s1 ?s2" by (rule confirming) (simp_all add: pend)
      moreover have "zl_step cfg ?s2 ?s3" by (rule counting) simp
      moreover have "zl_step cfg ?s3 (goto p (Working i) (?s3\<lparr>zy_store := startProcessing cfg i (zy_clock ?s3) (zy_store ?s3)\<rparr>))"
        by (rule starting) simp
      ultimately show ?thesis using one r by (simp add: run_step)
    qed
  qed
qed

lemma recoverOne_run:
  assumes idle: "zy_procs s p = Idle" and run: "recoverOne cfg p i (zy_clock s) (zy_store s) = (r, st)"
  shows "(zl_step cfg)\<^sup>*\<^sup>* s (goto p Idle (s\<lparr>zy_store := st\<rparr>))"
proof (cases "\<exists>m. getHashMessage i (zy_store s) = Some m \<and> isOrphan m \<and> liveLease i (zy_clock s) (zy_store s) = None")
  case False
  then have "st = zy_store s" using run by (auto simp: recoverOne_def split: option.splits if_splits)
  then show ?thesis using idle by (simp add: fun_upd_idem)
next
  case True
  then obtain m where m: "getHashMessage i (zy_store s) = Some m" "isOrphan m"
    and free: "liveLease i (zy_clock s) (zy_store s) = None" by blast
  obtain st1 where claim: "claimLease cfg (Recovery p) i (zy_clock s) (zy_store s) = (True, st1)"
    using free by (simp add: claimLease_def)
  have m1: "getHashMessage i st1 = Some m" using claimLease_True(4) [OF claim] m by simp
  have st: "st = delLease i (returnOrphan i (zm_attempts m) (zm_maxAttempts m) (zy_clock s) st1)"
    using run m free claim m1 by (simp add: recoverOne_def)
  let ?s1 = "goto p (Suspecting i) s"
  let ?s2 = "goto p (Observed i) ?s1"
  let ?s3 = "goto p (Reclaimed i) (?s2\<lparr>zy_store := st1\<rparr>)"
  let ?s4 = "goto p (Returning i (zm_attempts m) (zm_maxAttempts m)) ?s3"
  let ?s5 = "goto p (Releasing i) (?s4\<lparr>zy_store := returnOrphan i (zm_attempts m) (zm_maxAttempts m) (zy_clock ?s4) (zy_store ?s4)\<rparr>)"
  have "zl_step cfg s ?s1" by (rule suspecting [OF idle m])
  moreover have "zl_step cfg ?s1 ?s2" by (rule observing) (simp_all add: free)
  moreover have "zl_step cfg ?s2 ?s3" by (rule reclaiming) (simp_all add: claim)
  moreover have "zl_step cfg ?s3 ?s4" by (rule rechecking) (simp_all add: m1 m)
  moreover have "zl_step cfg ?s4 ?s5" by (rule returning) simp
  moreover have "(zl_step cfg)\<^sup>*\<^sup>* ?s5 (goto p Idle (s\<lparr>zy_store := st\<rparr>))"
    by (rule run_releasing [where i = i and p = p]) (simp_all add: st)
  ultimately show ?thesis by (meson run_step)
qed

text \<open>
  The handlers implement the protocol: started by an idle process, \<open>markProcessing\<close> and
  \<open>recoverOne\<close> are runs of the interleaved commands, with the same store and the outcome they
  report. So what holds for every interleaving holds for the handlers.
\<close>

theorem lease_handlers_are_runs:
  assumes "zy_procs s p = Idle"
  shows "(case markProcessing cfg p i (zy_clock s) (zy_store s) of (r, st) \<Rightarrow>
      (zl_step cfg)\<^sup>*\<^sup>* s (goto p (if r then Working i else Idle) (s\<lparr>zy_store := st\<rparr>))) \<and>
    (case recoverOne cfg p i (zy_clock s) (zy_store s) of (r, st) \<Rightarrow>
      (zl_step cfg)\<^sup>*\<^sup>* s (goto p Idle (s\<lparr>zy_store := st\<rparr>)))"
  using markProcessing_run [OF assms] recoverOne_run [OF assms] by (auto split: prod.split)

text \<open>The retry route, and what it does to a message somebody works on.\<close>

lemma retryMessage_run:
  assumes idle: "zy_procs s p = Idle" and run: "retryMessage i (zy_clock s) (zy_store s) = (r, st)"
  shows "\<exists>s'. (zl_any R)\<^sup>*\<^sup>* s s' \<and> zy_procs s' = zy_procs s \<and> zs_msgs (zy_store s') = zs_msgs st \<and>
    zs_leases (zy_store s') = zs_leases st"
proof (cases "\<exists>m. getHashMessage i (zy_store s) = Some m \<and> zm_attempts m < zm_maxAttempts m")
  case False
  then have "st = zy_store s" using run by (auto simp: retryMessage_def split: option.splits if_splits)
  then show ?thesis by blast
next
  case True
  then obtain m where m: "getHashMessage i (zy_store s) = Some m" "zm_attempts m < zm_maxAttempts m" by blast
  let ?s1 = "goto p (Retrying i) s"
  let ?s2 = "goto p (Releasing i) (?s1\<lparr>zy_store := emitMessage (MessageRetried i)
    (hsetMessage i (\<lambda>x. (requeued (zy_clock ?s1) x)\<lparr>zm_error := None\<rparr>) (zy_store ?s1))\<rparr>)"
  let ?s3 = "goto p Idle (?s2\<lparr>zy_store := delLease i (zy_store ?s2)\<rparr>)"
  have "zl_any R s ?s1" by (rule retrying [OF idle m])
  moreover have "zl_any R ?s1 ?s2" by (rule retried) simp
  moreover have "zl_any R ?s2 ?s3" by (rule protocol [OF releasing]) simp
  ultimately have "(zl_any R)\<^sup>*\<^sup>* s ?s3"
    by (meson converse_rtranclp_into_rtranclp r_into_rtranclp)
  moreover have "zy_procs ?s3 = zy_procs s" using idle by (auto simp: fun_eq_iff)
  moreover have "zs_msgs (zy_store ?s3) = zs_msgs st" "zs_leases (zy_store ?s3) = zs_leases st"
    using run m by (auto simp: retryMessage_def emitMessage_def delLease_def hsetMessage_def)
  ultimately show ?thesis by blast
qed

section \<open>What recovery brings back\<close>

lemma recoverOne_orphan:
  assumes "getHashMessage i st = Some m" and "isOrphan m" and "liveLease i now st = None"
  shows "fst (recoverOne cfg inst i now st)"
    and "getHashMessage i (snd (recoverOne cfg inst i now st)) =
      Some ((if zm_attempts m < zm_maxAttempts m then requeued now else failedMessage ''Acknowledgment timeout'' now) m)"
    and "liveLease i t (snd (recoverOne cfg inst i now st)) = None"
proof -
  obtain st1 where claim: "claimLease cfg (Recovery inst) i now st = (True, st1)"
    using assms(3) by (simp add: claimLease_def)
  have m1: "getHashMessage i st1 = Some m" using claimLease_True(4) [OF claim] assms(1) by simp
  have eq: "recoverOne cfg inst i now st = (True, delLease i (returnOrphan i (zm_attempts m) (zm_maxAttempts m) now st1))"
    using assms claim m1 by (simp add: recoverOne_def)
  show "fst (recoverOne cfg inst i now st)" "liveLease i t (snd (recoverOne cfg inst i now st)) = None"
    "getHashMessage i (snd (recoverOne cfg inst i now st)) =
      Some ((if zm_attempts m < zm_maxAttempts m then requeued now else failedMessage ''Acknowledgment timeout'' now) m)"
    by (simp_all add: eq getHash_returnOrphan m1)
qed

lemma markProcessing_pending:
  assumes "getHashMessage i st = Some m" and "zm_status m = Pending" and "liveLease i now st = None"
  shows "fst (markProcessing cfg inst i now st)"
proof -
  obtain st1 where claim: "claimLease cfg (Worker inst) i now st = (True, st1)"
    using assms(3) by (simp add: claimLease_def)
  then have "isPending i st1" using claimLease_True(4) [OF claim] assms(1,2) by (simp add: isPending_def)
  then show ?thesis using claim by (simp add: markProcessing_def)
qed

lemma claimLease_hash [simp]: "getHashMessage j (snd (claimLease cfg owner i now st)) = getHashMessage j st"
  by (simp add: claimLease_def)

text \<open>The sweep over one message concerns no other.\<close>

lemma recoverOne_other:
  assumes "j \<noteq> i"
  shows "getHashMessage j (snd (recoverOne cfg inst i now st)) = getHashMessage j st"
    and "liveLease j t (snd (recoverOne cfg inst i now st)) = liveLease j t st"
proof -
  obtain b st1 where claim: "claimLease cfg (Recovery inst) i now st = (b, st1)" by fastforce
  have "getHashMessage j st1 = getHashMessage j st" "liveLease j t st1 = liveLease j t st"
    using claim assms by (auto simp: claimLease_def liveLease_def getHashMessage_def table_simps split: if_splits)
  then show "getHashMessage j (snd (recoverOne cfg inst i now st)) = getHashMessage j st"
    "liveLease j t (snd (recoverOne cfg inst i now st)) = liveLease j t st"
    using assms claim by (auto simp: recoverOne_def getHash_returnOrphan split: option.split)
qed

lemma recoverOne_not_orphan:
  "getHashMessage i st = Some m \<Longrightarrow> \<not> isOrphan m \<Longrightarrow> recoverOne cfg inst i now st = (False, st)"
  by (simp add: recoverOne_def)

text \<open>What the sweep makes of an orphan.\<close>

definition swept :: "timestamp \<Rightarrow> PersistedMessage \<Rightarrow> PersistedMessage" where
  "swept now m =
     (if zm_attempts m < zm_maxAttempts m then requeued now m else failedMessage ''Acknowledgment timeout'' now m)"

lemma swept_not_orphan [simp]: "\<not> isOrphan (swept now m)"
  by (simp add: swept_def isOrphan_def requeued_def failedMessage_def)

lemma sweep_leaves_swept:
  assumes "getHashMessage i (snd acc) = Some (swept now m)" and "\<And>t. liveLease i t (snd acc) = None"
  shows "getHashMessage i (snd (fold (recoverStep cfg inst now) is acc)) = Some (swept now m) \<and>
    (\<forall>t. liveLease i t (snd (fold (recoverStep cfg inst now) is acc)) = None)"
  using assms
proof (induction "is" arbitrary: acc)
  case (Cons j js)
  have "snd (recoverStep cfg inst now j acc) = snd (recoverOne cfg inst j now (snd acc))"
    by (simp add: recoverStep_def Let_def case_prod_beta)
  then have "getHashMessage i (snd (recoverStep cfg inst now j acc)) = Some (swept now m)"
    "liveLease i t (snd (recoverStep cfg inst now j acc)) = None" for t
    using Cons.prems recoverOne_other [of i j] recoverOne_not_orphan [OF Cons.prems(1)]
    by (cases "j = i"; simp)+
  then show ?case using Cons.IH [of "recoverStep cfg inst now j acc"] by simp
qed simp

lemma sweep_reaches_orphan:
  assumes "getHashMessage i (snd acc) = Some m" and "isOrphan m" and "liveLease i now (snd acc) = None"
    and "i \<in> set is"
  shows "getHashMessage i (snd (fold (recoverStep cfg inst now) is acc)) = Some (swept now m) \<and>
    (\<forall>t. liveLease i t (snd (fold (recoverStep cfg inst now) is acc)) = None)"
  using assms
proof (induction "is" arbitrary: acc)
  case (Cons j js)
  let ?acc = "recoverStep cfg inst now j acc"
  have acc: "snd ?acc = snd (recoverOne cfg inst j now (snd acc))"
    by (simp add: recoverStep_def Let_def case_prod_beta)
  show ?case
  proof (cases "j = i")
    case True
    have "getHashMessage i (snd ?acc) = Some (swept now m)" "liveLease i t (snd ?acc) = None" for t
      using recoverOne_orphan(2,3) [OF Cons.prems(1-3)] acc unfolding True by (simp_all add: swept_def)
    then show ?thesis using sweep_leaves_swept [of i ?acc now m cfg inst js] by simp
  next
    case False
    then have "getHashMessage i (snd ?acc) = Some m" "liveLease i now (snd ?acc) = None"
      using Cons.prems recoverOne_other [of i j] by (simp_all add: acc)
    then show ?thesis using Cons.IH [of ?acc] Cons.prems False by simp
  qed
qed simp

lemma in_messages: "getHashMessage i st = Some m \<Longrightarrow> i \<in> set (map zm_messageId (zs_msgs st))"
  by (auto simp: getHashMessage_def dest: row_of_Some_in)

lemma sweep_of_orphan:
  assumes "getHashMessage i st = Some m" and "isOrphan m" and "liveLease i now st = None"
  shows "getHashMessage i (snd (recoverOrphanedMessages cfg inst now st)) = Some (swept now m)"
    and "liveLease i t (snd (recoverOrphanedMessages cfg inst now st)) = None"
  using sweep_reaches_orphan [of i "(0, st)" m now "map zm_messageId (zs_msgs st)" cfg inst] assms in_messages [OF assms(1)]
  by (simp_all add: recoverOrphanedMessages_def)

text \<open>
  C30. The work of a crashed worker is taken up again. When the lease of a message that is being
  processed and was not acknowledged has expired, one recovery sweep over all messages makes it pending
  again, with its payload and its count of attempts, as long as it has attempts left, and
  otherwise fails it with the error 'Acknowledgment timeout'; afterwards the first worker that asks for it, at
  any time, gets it exactly when it had attempts left, and the message is then being processed with one
  more attempt counted.
\<close>

theorem orphans_are_taken_up_again:
  assumes "getHashMessage i st = Some m" and "zm_status m = Processing" and "zm_acknowledgedAt m = None"
    and "liveLease i now st = None" and "st' = snd (recoverOrphanedMessages cfg inst now st)"
  shows "getHashMessage i st' = Some (if zm_attempts m < zm_maxAttempts m
      then m\<lparr>zm_status := Pending, zm_updatedAt := now, zm_leaseUntil := None\<rparr>
      else m\<lparr>zm_status := Failed, zm_error := Some ''Acknowledgment timeout'', zm_failedAt := Some now,
        zm_updatedAt := now, zm_leaseUntil := None\<rparr>) \<and>
    fst (markProcessing cfg worker i later st') = (zm_attempts m < zm_maxAttempts m) \<and>
    (if zm_attempts m < zm_maxAttempts m
     then \<exists>m'. getHashMessage i (snd (markProcessing cfg worker i later st')) = Some m' \<and>
       zm_status m' = Processing \<and> zm_attempts m' = zm_attempts m + 1 \<and> zm_data m' = zm_data m
     else getHashMessage i (snd (markProcessing cfg worker i later st')) = getHashMessage i st')"
proof -
  have orphan: "isOrphan m" using assms(2,3) by (simp add: isOrphan_def)
  note sw = sweep_of_orphan [OF assms(1) orphan assms(4), where cfg = cfg and inst = inst, folded assms(5)]
  obtain st1 where claim: "claimLease cfg (Worker worker) i later st' = (True, st1)"
    using sw(2) [of later] by (simp add: claimLease_def)
  have m1: "getHashMessage i st1 = Some (swept now m)" using claimLease_True(4) [OF claim] sw(1) by simp
  show ?thesis
  proof (cases "zm_attempts m < zm_maxAttempts m")
    case True
    then have "isPending i st1" using m1 by (simp add: isPending_def swept_def requeued_def)
    then have "markProcessing cfg worker i later st' = (True, startProcessing cfg i later (countAttempt i st1))"
      by (simp add: markProcessing_def claim)
    then show ?thesis
      using True sw(1) m1 by (simp add: swept_def requeued_def startProcessing_def getHash_count)
  next
    case False
    then have "\<not> isPending i st1" using m1 by (simp add: isPending_def swept_def failedMessage_def)
    then have "markProcessing cfg worker i later st' = (False, delLease i st1)"
      by (simp add: markProcessing_def claim)
    then show ?thesis
      using False sw(1) m1 by (simp add: swept_def failedMessage_def errorField_def)
  qed
qed

section \<open>Acknowledged messages\<close>

text \<open>Everything that may bring a message back without an operator: sweeps and claims, by anybody, at any time.\<close>

datatype rescue = Sweep uuid timestamp | Claim uuid uuid timestamp

fun attemptRescue :: "ZeroLossConfig \<Rightarrow> rescue \<Rightarrow> zls_store \<Rightarrow> zls_store" where
  "attemptRescue cfg (Sweep inst now) st = snd (recoverOrphanedMessages cfg inst now st)"
| "attemptRescue cfg (Claim inst i now) st = snd (markProcessing cfg inst i now st)"

definition stranded :: "PersistedMessage \<Rightarrow> bool" where
  "stranded m \<longleftrightarrow> zm_status m = Processing \<and> zm_acknowledgedAt m \<noteq> None"

lemma recoverOne_stranded:
  assumes "getHashMessage j st = Some m" and "stranded m"
  shows "getHashMessage j (snd (recoverOne cfg inst i now st)) = Some m"
proof (cases "\<exists>x. getHashMessage i st = Some x \<and> isOrphan x \<and> liveLease i now st = None")
  case True
  then obtain x where x: "getHashMessage i st = Some x" "isOrphan x" "liveLease i now st = None" by blast
  obtain st1 where claim: "claimLease cfg (Recovery inst) i now st = (True, st1)"
    using x(3) by (simp add: claimLease_def)
  have h: "getHashMessage k st1 = getHashMessage k st" for k by (rule claimLease_True(4) [OF claim])
  have "j \<noteq> i" using assms x by (auto simp: stranded_def isOrphan_def)
  moreover have "recoverOne cfg inst i now st = (True, delLease i (returnOrphan i (zm_attempts x) (zm_maxAttempts x) now st1))"
    using x claim h by (simp add: recoverOne_def)
  ultimately show ?thesis using assms(1) h by (simp add: getHash_returnOrphan)
next
  case False
  then show ?thesis using assms(1) by (auto simp: recoverOne_def split: option.split)
qed

lemma sweep_stranded:
  assumes "getHashMessage j st = Some m" and "stranded m"
  shows "getHashMessage j (snd (recoverOrphanedMessages cfg inst now st)) = Some m"
proof -
  have "getHashMessage j (snd (fold (recoverStep cfg inst now) is acc)) = Some m"
    if "getHashMessage j (snd acc) = Some m" for "is" acc
    using that
  proof (induction "is" arbitrary: acc)
    case (Cons i "is")
    have "getHashMessage j (snd (recoverStep cfg inst now i acc)) = Some m"
      using recoverOne_stranded [OF Cons.prems assms(2)]
      by (simp add: recoverStep_def Let_def case_prod_beta)
    then show ?case by (simp add: Cons.IH)
  qed simp
  then show ?thesis using assms(1) by (simp add: recoverOrphanedMessages_def)
qed

lemma claim_stranded:
  assumes "getHashMessage j st = Some m" and "stranded m"
  shows "getHashMessage j (snd (markProcessing cfg inst i now st)) = Some m"
    and "\<not> fst (markProcessing cfg inst j now st)"
proof -
  obtain b st1 where claim: "claimLease cfg (Worker inst) i now st = (b, st1)" by fastforce
  have h: "getHashMessage k st1 = getHashMessage k st" for k
    using claimLease_hash [of k cfg "Worker inst" i now st] by (simp add: claim)
  have "isPending i st1 \<Longrightarrow> j \<noteq> i" using assms by (auto simp: isPending_def h stranded_def)
  then show "getHashMessage j (snd (markProcessing cfg inst i now st)) = Some m"
    using assms(1) by (simp add: markProcessing_def claim h getHash_count startProcessing_def)
  have "\<not> isPending j (snd (claimLease cfg (Worker inst) j now st))"
    using assms by (simp add: isPending_def stranded_def)
  then show "\<not> fst (markProcessing cfg inst j now st)"
    by (simp add: markProcessing_def case_prod_beta)
qed

lemma rescue_stranded:
  assumes "getHashMessage j st = Some m" and "stranded m"
  shows "getHashMessage j (fold (attemptRescue cfg) rs st) = Some m"
  using assms(1)
proof (induction rs arbitrary: st)
  case (Cons r rs)
  have "getHashMessage j (attemptRescue cfg r st) = Some m"
    using sweep_stranded [OF Cons.prems assms(2)] claim_stranded(1) [OF Cons.prems assms(2)] by (cases r) simp_all
  then show ?case by (simp add: Cons.IH)
qed simp

text \<open>
  Acknowledging before completing loses the message in a crash. Acknowledgment releases the
  lease but leaves the message processing, and the sweep skips acknowledged messages: if the worker
  crashes before it reports completion, no sequence of sweeps and claims ever changes the message
  again, and no worker ever gets it.
\<close>

theorem acknowledged_message_is_stranded:
  assumes "markProcessing cfg inst i now st = (True, st1)" and "acknowledgeMessage i later st1 = (True, st2)"
  shows "\<exists>m. getHashMessage i (fold (attemptRescue cfg) rs st2) = Some m \<and> zm_status m = Processing \<and>
    \<not> fst (markProcessing cfg other i t (fold (attemptRescue cfg) rs st2))"
proof -
  obtain st0 where st1: "st1 = startProcessing cfg i now (countAttempt i st0)" and pend: "isPending i st0"
    using assms(1) by (auto simp: markProcessing_def Let_def split: prod.splits if_splits)
  obtain m where "getHashMessage i st1 = Some m" "zm_status m = Processing"
    using pend by (auto simp: st1 startProcessing_def getHash_count isPending_def split: option.splits)
  then have "getHashMessage i st2 = Some (acknowledged later m)" "stranded (acknowledged later m)"
    using assms(2) by (auto simp: acknowledgeMessage_def finishMessage_def stranded_def acknowledged_def)
  note kept = rescue_stranded [OF this, of cfg rs]
  show ?thesis
    using kept claim_stranded(2) [OF kept] \<open>stranded (acknowledged later m)\<close> by (auto simp: stranded_def)
qed

text \<open>A retry does not ask whether the message has failed: it takes the message from a worker that is busy with it.\<close>

lemma retry_takes_running_message:
  assumes "markProcessing cfg inst i now st = (True, st1)" and "getHashMessage i st1 = Some m"
    and "zm_attempts m < zm_maxAttempts m"
  shows "\<exists>st2. retryMessage i now st1 = (True, st2) \<and> fst (markProcessing cfg other i now st2)"
  using assms(2,3)
  by (auto simp: retryMessage_def requeued_def intro!: markProcessing_pending)

section \<open>Example\<close>

definition ex_store :: zls_store where
  "ex_store = snd (persistMessage DEFAULT_ZERO_LOSS 7 ''swaps'' ''{}'' None 0 (zy_store (zl_start 0 [])))"

lemma ex_store_hash: "\<exists>m. getHashMessage 7 ex_store = Some m \<and> zm_status m = Pending \<and> zm_data m = ''{}''"
  by (simp add: ex_store_def getHash_persist) (simp add: persistMessage_def Let_def)

lemma ex_store_free: "liveLease 7 t ex_store = None"
  by (simp add: ex_store_def) (simp add: zl_start_def liveLease_def)

definition ex_sys :: zl_sys where
  "ex_sys = (zl_start 0 [])\<lparr>zy_store := ex_store\<rparr>"

lemma ex_sys_reached: "(zl_step DEFAULT_ZERO_LOSS)\<^sup>*\<^sup>* (zl_start 0 []) ex_sys"
proof -
  have "zl_step DEFAULT_ZERO_LOSS (zl_start 0 []) ((zl_start 0 [])\<lparr>zy_store := snd (persistMessage DEFAULT_ZERO_LOSS 7
      ''swaps'' ''{}'' None (zy_clock (zl_start 0 [])) (zy_store (zl_start 0 [])))\<rparr>)"
    by (rule persisting) (simp_all add: zl_start_def getHashMessage_def)
  then show ?thesis by (simp add: ex_sys_def ex_store_def zl_start_def r_into_rtranclp)
qed

text \<open>Worker 3 takes message 7.\<close>

definition ex_busy :: zl_sys where
  "ex_busy = goto 3 (Working 7) (ex_sys\<lparr>zy_store := snd (markProcessing DEFAULT_ZERO_LOSS 3 7 0 ex_store)\<rparr>)"

lemma ex_taken: "fst (markProcessing DEFAULT_ZERO_LOSS inst 7 t ex_store)"
  using ex_store_hash ex_store_free by (auto intro: markProcessing_pending)

lemma ex_busy_step: "(zl_step DEFAULT_ZERO_LOSS)\<^sup>*\<^sup>* ex_sys ex_busy"
proof -
  have "zy_procs ex_sys 3 = Idle" and [simp]: "zy_clock ex_sys = 0" "zy_store ex_sys = ex_store"
    by (simp_all add: ex_sys_def zl_start_def)
  from markProcessing_run [OF this(1), of DEFAULT_ZERO_LOSS 7 True "snd (markProcessing DEFAULT_ZERO_LOSS 3 7 0 ex_store)"]
  show ?thesis using ex_taken [of 3 0] by (simp add: ex_busy_def prod_eq_iff)
qed

lemma ex_busy_reached: "(zl_step DEFAULT_ZERO_LOSS)\<^sup>*\<^sup>* (zl_start 0 []) ex_busy"
  using ex_sys_reached ex_busy_step by (rule rtranclp_trans)

theorem lease_gives_exclusive_processing_witness:
  "zy_procs ex_busy 3 = Working 7 \<and> zy_procs ex_busy 4 \<noteq> Working 7 \<and>
     (\<exists>m. getHashMessage 7 (zy_store ex_busy) = Some m \<and> zm_status m = Processing)"
proof -
  have at: "zy_procs ex_busy 3 = Working 7" by (simp add: ex_busy_def)
  show ?thesis using lease_gives_exclusive_processing [OF ex_busy_reached at] at by simp
qed

lemma messages_carried_example: "\<exists>m. getHashMessage 7 (zy_store ex_busy) = Some m"
  using zl_invD(3) [OF zl_inv_run [OF ex_busy_reached zl_start_inv], of 3] by (auto simp: ex_busy_def)



theorem lease_handlers_are_runs_witness:
  "(zl_step DEFAULT_ZERO_LOSS)\<^sup>*\<^sup>* ex_sys (goto 4 (Working 7)
     (ex_sys\<lparr>zy_store := snd (markProcessing DEFAULT_ZERO_LOSS 4 7 0 ex_store)\<rparr>))"
proof -
  have "zy_procs ex_sys 4 = Idle" and [simp]: "zy_clock ex_sys = 0" "zy_store ex_sys = ex_store"
    by (simp_all add: ex_sys_def zl_start_def)
  from lease_handlers_are_runs [OF this(1), of DEFAULT_ZERO_LOSS 7] show ?thesis
    using ex_taken [of 4 0] by (simp add: case_prod_beta)
qed

lemma ex_claim:
  "zs_leases (snd (claimLease DEFAULT_ZERO_LOSS (Worker 3) 7 0 ex_store)) =
     [\<lparr>le_messageId = 7, le_owner = Worker 3, le_expiresAt = 5000\<rparr>]"
  using ex_store_free [of 0]
  by (simp add: claimLease_def leaseTtlSeconds_def DEFAULT_ZERO_LOSS_def ex_store_def persistMessage_def Let_def
      emitMessage_def zl_start_def save_row_def)

text \<open>The worker crashed and its lease of five seconds is over after six.\<close>

theorem orphans_are_taken_up_again_witness:
  "fst (markProcessing DEFAULT_ZERO_LOSS 9 7 7000 (snd (recoverOrphanedMessages DEFAULT_ZERO_LOSS 4 6000
     (snd (markProcessing DEFAULT_ZERO_LOSS 3 7 0 ex_store)))))"
proof -
  let ?st = "snd (markProcessing DEFAULT_ZERO_LOSS 3 7 0 ex_store)"
  have pend: "isPending 7 (snd (claimLease DEFAULT_ZERO_LOSS (Worker 3) 7 0 ex_store))"
    using ex_store_hash by (auto simp: isPending_def)
  have free: "fst (claimLease DEFAULT_ZERO_LOSS (Worker 3) 7 0 ex_store)"
    using ex_store_free [of 0] by (simp add: claimLease_def)
  have st: "?st = startProcessing DEFAULT_ZERO_LOSS 7 0
      (countAttempt 7 (snd (claimLease DEFAULT_ZERO_LOSS (Worker 3) 7 0 ex_store)))"
    using pend free by (simp add: markProcessing_def case_prod_beta)
  have "liveLease 7 6000 ?st = None" unfolding st by simp (simp add: liveLease_def ex_claim)
  moreover obtain m where "getHashMessage 7 ?st = Some m" "zm_status m = Processing" "zm_acknowledgedAt m = None"
    "zm_attempts m < zm_maxAttempts m"
    unfolding st
    by (simp add: startProcessing_def getHash_count ex_store_def getHash_persist)
      (simp add: persistMessage_def Let_def DEFAULT_ZERO_LOSS_def)
  ultimately show ?thesis
    using orphans_are_taken_up_again [of 7 ?st m 6000 _ DEFAULT_ZERO_LOSS 4 9 7000, OF _ _ _ _ refl] by blast
qed

theorem acknowledged_message_is_stranded_witness:
  "\<exists>m. getHashMessage 7 (fold (attemptRescue DEFAULT_ZERO_LOSS) [Sweep 4 9000, Claim 5 7 9500]
     (snd (acknowledgeMessage 7 1 (snd (markProcessing DEFAULT_ZERO_LOSS 3 7 0 ex_store))))) = Some m \<and>
     zm_status m = Processing"
proof -
  let ?st = "snd (markProcessing DEFAULT_ZERO_LOSS 3 7 0 ex_store)"
  have run: "markProcessing DEFAULT_ZERO_LOSS 3 7 0 ex_store = (True, ?st)"
    using ex_taken [of 3 0] by (simp add: prod_eq_iff)
  have "getHashMessage 7 (zy_store ex_busy) \<noteq> None"
    using messages_carried_example by auto
  then have "acknowledgeMessage 7 1 ?st = (True, snd (acknowledgeMessage 7 1 ?st))"
    by (auto simp: ex_busy_def acknowledgeMessage_def finishMessage_def)
  from acknowledged_message_is_stranded [OF run this] show ?thesis by blast
qed

end
