(* ===== verification/Messaging.thy ===== *)
theory Messaging
  imports Prelude "HOL-Library.List_Lexorder" "HOL-Library.Char_ord" "HOL-Library.AList"
begin

text \<open>
  The in-memory parts of the message queues under \<open>queue\<close>: retry policies with their back-off
  (\<open>queue.config.ts\<close>, \<open>exponential-backoff.service.ts\<close>), ordered partitions
  (\<open>message-ordering.service.ts\<close>) and deduplication (\<open>message-deduplication.service.ts\<close>).

  A JavaScript \<open>Map\<close> is an association list in insertion order, \<open>set\<close> and \<open>delete\<close> are the
  updates of the library theory AList. \<open>Math.random()\<close> is an argument between 0 and 1. The digest of a
  JSON value (SHA-256 of its text) is a parameter.
\<close>

section \<open>Retry policies\<close>

datatype RetryPolicy = CRITICAL | HIGH | NORMAL | LOW

record RetryPolicyConfig =
  rp_maxAttempts :: nat
  rp_baseDelay :: real
  rp_maxDelay :: real
  rp_backoffMultiplier :: real
  rp_jitterFactor :: real

fun RETRY_POLICIES :: "RetryPolicy \<Rightarrow> RetryPolicyConfig" where
  "RETRY_POLICIES CRITICAL = \<lparr>rp_maxAttempts = 5, rp_baseDelay = 1000, rp_maxDelay = 60000,
     rp_backoffMultiplier = 2, rp_jitterFactor = 1 / 10\<rparr>"
| "RETRY_POLICIES HIGH = \<lparr>rp_maxAttempts = 4, rp_baseDelay = 2000, rp_maxDelay = 45000,
     rp_backoffMultiplier = 18 / 10, rp_jitterFactor = 15 / 100\<rparr>"
| "RETRY_POLICIES NORMAL = \<lparr>rp_maxAttempts = 3, rp_baseDelay = 5000, rp_maxDelay = 30000,
     rp_backoffMultiplier = 15 / 10, rp_jitterFactor = 2 / 10\<rparr>"
| "RETRY_POLICIES LOW = \<lparr>rp_maxAttempts = 1, rp_baseDelay = 10000, rp_maxDelay = 10000,
     rp_backoffMultiplier = 1, rp_jitterFactor = 0\<rparr>"

definition calculateBackoffDelay :: "real \<Rightarrow> nat \<Rightarrow> RetryPolicyConfig \<Rightarrow> int" where
  "calculateBackoffDelay random attempt policy =
     (let exponentialDelay = rp_baseDelay policy * rp_backoffMultiplier policy ^ attempt;
          cappedDelay = min exponentialDelay (rp_maxDelay policy);
          jitter = cappedDelay * rp_jitterFactor policy * random
      in \<lfloor>cappedDelay + jitter\<rfloor>)"

record BackoffResult =
  bo_shouldRetry :: bool
  bo_nextRetryTime :: "timestamp option"
  bo_delay :: int
  bo_attempt :: nat
  bo_maxAttempts :: nat

definition calculateRetryDelay :: "real \<Rightarrow> timestamp \<Rightarrow> nat \<Rightarrow> RetryPolicy \<Rightarrow> BackoffResult" where
  "calculateRetryDelay random now attempt policy =
     (let policyConfig = RETRY_POLICIES policy
      in if \<not> attempt < rp_maxAttempts policyConfig
         then \<lparr>bo_shouldRetry = False, bo_nextRetryTime = None, bo_delay = 0, bo_attempt = attempt,
               bo_maxAttempts = rp_maxAttempts policyConfig\<rparr>
         else let delay = calculateBackoffDelay random attempt policyConfig
              in \<lparr>bo_shouldRetry = True, bo_nextRetryTime = Some (now + delay), bo_delay = delay,
                  bo_attempt = attempt, bo_maxAttempts = rp_maxAttempts policyConfig\<rparr>)"

definition trackRetryAttempt :: "uuid \<Rightarrow> timestamp \<Rightarrow> (uuid \<times> timestamp list) list \<Rightarrow> (uuid \<times> timestamp list) list" where
  "trackRetryAttempt jobId now h =
     AList.update jobId ((case map_of h jobId of None \<Rightarrow> [] | Some ts \<Rightarrow> ts) @ [now]) h"

definition getRetryHistory :: "uuid \<Rightarrow> (uuid \<times> timestamp list) list \<Rightarrow> timestamp list" where
  "getRetryHistory jobId h = (case map_of h jobId of None \<Rightarrow> [] | Some ts \<Rightarrow> ts)"

definition clearRetryHistory :: "uuid \<Rightarrow> (uuid \<times> timestamp list) list \<Rightarrow> (uuid \<times> timestamp list) list" where
  "clearRetryHistory jobId h = AList.delete jobId h"

definition nonRetryablePatterns :: "string list" where
  "nonRetryablePatterns = [''validation'', ''invalid'', ''not found'', ''404'', ''forbidden'', ''403'', ''unauthorized'', ''401'']"

definition isRetryableError :: "string \<Rightarrow> bool" where
  "isRetryableError e = (\<not> list_ex (\<lambda>pattern. containsText pattern (lowerCase e)) nonRetryablePatterns)"

definition getRecommendedPolicy :: "string \<Rightarrow> RetryPolicy" where
  "getRecommendedPolicy e =
     (let lowerError = lowerCase e
      in if containsText ''timeout'' lowerError \<or> containsText ''connection'' lowerError \<or> containsText ''network'' lowerError
         then CRITICAL
         else if containsText ''temporarily'' lowerError \<or> containsText ''throttle'' lowerError \<or> containsText ''rate limit'' lowerError
         then HIGH
         else NORMAL)"

section \<open>Ordered partitions\<close>

record ordered_message =
  om_messageId :: uuid
  om_data :: string
  om_timestamp :: timestamp
  om_sequenceNumber :: nat

record MessageOrderingPartition =
  pt_partitionKey :: string
  pt_queueName :: string
  pt_messages :: "ordered_message list"
  pt_isProcessing :: bool
  pt_lastProcessedAt :: "timestamp option"

record ordering_state =
  os_enabled :: bool
  os_partitions :: "(string \<times> MessageOrderingPartition) list"
  os_sequenceNumbers :: "(string \<times> nat) list"

text \<open>
  \<open>updateConfig\<close> with the \<open>ordering\<close> section of the new configuration, where it has one: the section
  replaces the old one, and of it only \<open>enabled\<close> is ever read.
\<close>

definition updateOrderingConfig :: "bool option \<Rightarrow> ordering_state \<Rightarrow> ordering_state" where
  "updateOrderingConfig section st =
     (case section of None \<Rightarrow> st | Some enabled \<Rightarrow> st\<lparr>os_enabled := enabled\<rparr>)"

definition getPartitionId :: "string \<Rightarrow> string \<Rightarrow> string" where
  "getPartitionId queueName partitionKey = queueName @ '':'' @ partitionKey"

definition incrementSequence :: "string \<Rightarrow> ordering_state \<Rightarrow> nat \<times> ordering_state" where
  "incrementSequence pid st =
     (let next = (case map_of (os_sequenceNumbers st) pid of None \<Rightarrow> 0 | Some n \<Rightarrow> n) + 1
      in (next, st\<lparr>os_sequenceNumbers := AList.update pid next (os_sequenceNumbers st)\<rparr>))"

definition setPartition :: "string \<Rightarrow> MessageOrderingPartition \<Rightarrow> ordering_state \<Rightarrow> ordering_state" where
  "setPartition pid p st = st\<lparr>os_partitions := AList.update pid p (os_partitions st)\<rparr>"

definition ensurePartition :: "string \<Rightarrow> string \<Rightarrow> string \<Rightarrow> ordering_state \<Rightarrow> ordering_state" where
  "ensurePartition pid queueName partitionKey st =
     (if map_of (os_partitions st) pid \<noteq> None then st
      else (setPartition pid \<lparr>pt_partitionKey = partitionKey, pt_queueName = queueName, pt_messages = [],
              pt_isProcessing = False, pt_lastProcessedAt = None\<rparr> st)
             \<lparr>os_sequenceNumbers := AList.update pid 0 (os_sequenceNumbers st)\<rparr>)"

definition addOrderedMessage ::
  "string \<Rightarrow> string \<Rightarrow> uuid \<Rightarrow> string \<Rightarrow> timestamp \<Rightarrow> ordering_state \<Rightarrow> (string \<times> nat) \<times> ordering_state" where
  "addOrderedMessage queueName partitionKey messageId payload now st =
     (if \<not> os_enabled st then ((partitionKey, 0), st)
      else let pid = getPartitionId queueName partitionKey;
               st1 = ensurePartition pid queueName partitionKey st;
               (sequenceNumber, st2) = incrementSequence pid st1
           in case map_of (os_partitions st2) pid of
                None \<Rightarrow> ((partitionKey, sequenceNumber), st2)
              | Some p \<Rightarrow>
                  let msg = \<lparr>om_messageId = messageId, om_data = payload, om_timestamp = now,
                        om_sequenceNumber = sequenceNumber\<rparr>
                  in ((partitionKey, sequenceNumber),
                      setPartition pid (p\<lparr>pt_messages := sort_key om_sequenceNumber (pt_messages p @ [msg])\<rparr>) st2))"

definition getNextMessage :: "string \<Rightarrow> string \<Rightarrow> ordering_state \<Rightarrow> ordered_message option" where
  "getNextMessage queueName partitionKey st =
     (if \<not> os_enabled st then None
      else case map_of (os_partitions st) (getPartitionId queueName partitionKey) of
             None \<Rightarrow> None
           | Some p \<Rightarrow> if pt_messages p = [] \<or> pt_isProcessing p then None else Some (hd (pt_messages p)))"

definition markPartitionProcessing ::
  "string \<Rightarrow> string \<Rightarrow> bool \<Rightarrow> timestamp \<Rightarrow> ordering_state \<Rightarrow> ordering_state" where
  "markPartitionProcessing queueName partitionKey busy now st =
     (let pid = getPartitionId queueName partitionKey
      in case map_of (os_partitions st) pid of
           None \<Rightarrow> st
         | Some p \<Rightarrow> setPartition pid (p\<lparr>pt_isProcessing := busy,
              pt_lastProcessedAt := (if busy then Some now else pt_lastProcessedAt p)\<rparr>) st)"

text \<open>\<open>findIndex\<close> and \<open>splice\<close>: the first message with the id is taken out.\<close>

definition removeOrderedMessage :: "string \<Rightarrow> string \<Rightarrow> uuid \<Rightarrow> ordering_state \<Rightarrow> bool \<times> ordering_state" where
  "removeOrderedMessage queueName partitionKey messageId st =
     (let pid = getPartitionId queueName partitionKey
      in case map_of (os_partitions st) pid of
           None \<Rightarrow> (False, st)
         | Some p \<Rightarrow>
             if \<not> list_ex (\<lambda>m. om_messageId m = messageId) (pt_messages p) then (False, st)
             else (True, setPartition pid
                     (p\<lparr>pt_messages := removeFirst (\<lambda>m. om_messageId m = messageId) (pt_messages p)\<rparr>) st))"

definition getQueuePartitions :: "string \<Rightarrow> ordering_state \<Rightarrow> MessageOrderingPartition list" where
  "getQueuePartitions queueName st = filter (\<lambda>p. pt_queueName p = queueName) (map snd (os_partitions st))"

definition getPartitionCount :: "string \<Rightarrow> ordering_state \<Rightarrow> nat" where
  "getPartitionCount queueName st = length (getQueuePartitions queueName st)"

definition getTotalMessageCount :: "ordering_state \<Rightarrow> nat" where
  "getTotalMessageCount st = sum_list (map (\<lambda>(_, p). length (pt_messages p)) (os_partitions st))"

definition getPartitionMessageCount :: "string \<Rightarrow> string \<Rightarrow> ordering_state \<Rightarrow> nat" where
  "getPartitionMessageCount queueName partitionKey st =
     (case map_of (os_partitions st) (getPartitionId queueName partitionKey) of
        None \<Rightarrow> 0 | Some p \<Rightarrow> length (pt_messages p))"

definition clearPartition :: "string \<Rightarrow> string \<Rightarrow> ordering_state \<Rightarrow> bool \<times> ordering_state" where
  "clearPartition queueName partitionKey st =
     (let pid = getPartitionId queueName partitionKey
      in case map_of (os_partitions st) pid of
           None \<Rightarrow> (False, st)
         | Some p \<Rightarrow> (True, (setPartition pid (p\<lparr>pt_messages := []\<rparr>) st)
                        \<lparr>os_sequenceNumbers := AList.update pid 0 (os_sequenceNumbers st)\<rparr>))"

definition isEmptyPartition :: "string \<times> MessageOrderingPartition \<Rightarrow> bool" where
  "isEmptyPartition e \<longleftrightarrow> pt_messages (snd e) = [] \<and> \<not> pt_isProcessing (snd e)"

definition cleanupEmptyPartitions :: "ordering_state \<Rightarrow> nat \<times> ordering_state" where
  "cleanupEmptyPartitions st =
     (let gone = filter isEmptyPartition (os_partitions st)
      in (length gone,
          st\<lparr>os_partitions := filter (\<lambda>e. \<not> isEmptyPartition e) (os_partitions st),
             os_sequenceNumbers := filter (\<lambda>(pid, _). pid \<notin> set (map fst gone)) (os_sequenceNumbers st)\<rparr>))"

definition isPartitionProcessing :: "string \<Rightarrow> string \<Rightarrow> ordering_state \<Rightarrow> bool" where
  "isPartitionProcessing queueName partitionKey st =
     (case map_of (os_partitions st) (getPartitionId queueName partitionKey) of
        None \<Rightarrow> False | Some p \<Rightarrow> pt_isProcessing p)"

record ordering_stats =
  ot_enabled :: bool
  ot_totalPartitions :: nat
  ot_totalMessages :: nat
  ot_processingPartitions :: nat
  ot_averageMessagesPerPartition :: real

definition orderingStats :: "ordering_state \<Rightarrow> ordering_stats" where
  "orderingStats st =
     (let partitions = map snd (os_partitions st);
          totalMessages = sum_list (map (\<lambda>p. length (pt_messages p)) partitions)
      in \<lparr>ot_enabled = os_enabled st, ot_totalPartitions = length partitions, ot_totalMessages = totalMessages,
          ot_processingPartitions = length (filter pt_isProcessing partitions),
          ot_averageMessagesPerPartition =
            (if length partitions > 0 then real totalMessages / real (length partitions) else 0)\<rparr>)"

section \<open>Deduplication\<close>

text \<open>
  A JSON value as the payload of a job can hold it. A \<open>Date\<close> has no enumerable keys. The keys of an
  object are distinct and come in insertion order.
\<close>

datatype json =
    JNull
  | JUndefined
  | JBool bool
  | JNum real
  | JStr string
  | JDate timestamp
  | JArr "json list"
  | JObj "(string \<times> json) list"

text \<open>The keys are sorted; the values are normalised in place, so the order of the two does not matter.\<close>

primrec normalizeData :: "json \<Rightarrow> json" where
  "normalizeData JNull = JNull"
| "normalizeData JUndefined = JNull"
| "normalizeData (JBool b) = JBool b"
| "normalizeData (JNum x) = JNum x"
| "normalizeData (JStr s) = JStr s"
| "normalizeData (JDate t) = JObj []"
| "normalizeData (JArr xs) = JArr (map normalizeData xs)"
| "normalizeData (JObj kvs) = JObj (sort_key fst (map (map_prod id normalizeData) kvs))"

definition generateFingerprint :: "(json \<Rightarrow> string) \<Rightarrow> json \<Rightarrow> string" where
  "generateFingerprint digest payload = digest (normalizeData payload)"

record DeduplicationEntry =
  de_messageId :: uuid
  de_fingerprint :: string
  de_timestamp :: timestamp
  de_expiresAt :: timestamp

record dedup_state =
  dd_enabled :: bool
  dd_windowMs :: int
  dd_maxEntries :: nat
  dd_cache :: "(uuid \<times> DeduplicationEntry) list"
  dd_fingerprints :: "(uuid \<times> string) list"

definition isDuplicate :: "(json \<Rightarrow> string) \<Rightarrow> uuid \<Rightarrow> json \<Rightarrow> dedup_state \<Rightarrow> bool" where
  "isDuplicate digest messageId payload st =
     (if \<not> dd_enabled st then False
      else let fingerprint = generateFingerprint digest payload
           in case map_of (dd_fingerprints st) messageId of
                Some existing \<Rightarrow>
                  if existing \<noteq> [] \<and> existing = fingerprint then True
                  else list_ex (\<lambda>(i, fp). fp = fingerprint \<and> i \<noteq> messageId) (dd_fingerprints st)
              | None \<Rightarrow> list_ex (\<lambda>(i, fp). fp = fingerprint \<and> i \<noteq> messageId) (dd_fingerprints st))"

definition dropEntry :: "uuid \<Rightarrow> dedup_state \<Rightarrow> dedup_state" where
  "dropEntry i st = st\<lparr>dd_cache := AList.delete i (dd_cache st), dd_fingerprints := AList.delete i (dd_fingerprints st)\<rparr>"

text \<open>\<open>Math.ceil(n * 0.1)\<close>\<close>

definition tenthUp :: "nat \<Rightarrow> nat" where
  "tenthUp n = (n + 9) div 10"

definition cleanupOldestEntries :: "dedup_state \<Rightarrow> dedup_state" where
  "cleanupOldestEntries st =
     (let entries = sort_key (\<lambda>(_, e). de_timestamp e) (dd_cache st)
      in fold dropEntry (map fst (take (tenthUp (length entries)) entries)) st)"

definition registerMessage :: "(json \<Rightarrow> string) \<Rightarrow> uuid \<Rightarrow> json \<Rightarrow> timestamp \<Rightarrow> dedup_state \<Rightarrow> dedup_state" where
  "registerMessage digest messageId payload now st =
     (if \<not> dd_enabled st then st
      else let fingerprint = generateFingerprint digest payload;
               entry = \<lparr>de_messageId = messageId, de_fingerprint = fingerprint, de_timestamp = now,
                 de_expiresAt = now + dd_windowMs st\<rparr>;
               st1 = st\<lparr>dd_cache := AList.update messageId entry (dd_cache st),
                 dd_fingerprints := AList.update messageId fingerprint (dd_fingerprints st)\<rparr>
           in if length (dd_cache st1) > dd_maxEntries st then cleanupOldestEntries st1 else st1)"

definition unregisterMessage :: "uuid \<Rightarrow> dedup_state \<Rightarrow> dedup_state" where
  "unregisterMessage messageId st = dropEntry messageId st"

definition hasMessage :: "uuid \<Rightarrow> dedup_state \<Rightarrow> bool" where
  "hasMessage messageId st = (map_of (dd_cache st) messageId \<noteq> None)"

definition cleanupExpiredEntries :: "timestamp \<Rightarrow> dedup_state \<Rightarrow> dedup_state" where
  "cleanupExpiredEntries now st =
     (if \<not> dd_enabled st then st
      else fold dropEntry (map fst (filter (\<lambda>(_, e). de_expiresAt e \<le> now) (dd_cache st))) st)"

definition clearAllEntries :: "dedup_state \<Rightarrow> dedup_state" where
  "clearAllEntries st = st\<lparr>dd_cache := [], dd_fingerprints := []\<rparr>"

record dedup_stats =
  dt_enabled :: bool
  dt_trackedMessages :: nat
  dt_maxEntries :: nat
  dt_windowMs :: int
  dt_cacheUtilizationPercent :: jsnum

definition dedupStats :: "dedup_state \<Rightarrow> dedup_stats" where
  "dedupStats st = \<lparr>dt_enabled = dd_enabled st, dt_trackedMessages = length (dd_cache st),
     dt_maxEntries = dd_maxEntries st, dt_windowMs = dd_windowMs st,
     dt_cacheUtilizationPercent = js_mult (js_div (Fin (length (dd_cache st))) (dd_maxEntries st)) (Fin 100)\<rparr>"

section \<open>Back-off delays\<close>

text \<open>
  Back-off is bounded. For every policy, every attempt and every random number, the delay is at
  least the base delay and at most the maximal delay plus the jitter share of it; a job is retried
  exactly while it has attempts left, at the time of now plus that delay.
\<close>

theorem backoff_is_bounded:
  assumes "0 \<le> random" and "random < 1"
  shows "let r = calculateRetryDelay random now attempt policy; cfg = RETRY_POLICIES policy in
    (bo_shouldRetry r \<longleftrightarrow> attempt < rp_maxAttempts cfg) \<and>
    (bo_shouldRetry r \<longrightarrow> rp_baseDelay cfg \<le> real_of_int (bo_delay r) \<and>
       real_of_int (bo_delay r) \<le> rp_maxDelay cfg * (1 + rp_jitterFactor cfg) \<and>
       bo_nextRetryTime r = Some (now + bo_delay r))"
proof -
  let ?cfg = "RETRY_POLICIES policy"
  let ?d = "min (rp_baseDelay ?cfg * rp_backoffMultiplier ?cfg ^ attempt) (rp_maxDelay ?cfg)"
  have b: "0 \<le> rp_baseDelay ?cfg" "rp_baseDelay ?cfg \<le> rp_maxDelay ?cfg" "1 \<le> rp_backoffMultiplier ?cfg"
    "0 \<le> rp_jitterFactor ?cfg"
    by (cases policy; simp)+
  have "\<exists>n::int. rp_baseDelay ?cfg = real_of_int n"
    by (cases policy) (auto intro: exI [of _ "1000"] exI [of _ "2000"] exI [of _ "5000"] exI [of _ "10000"])
  then obtain n :: int where n: "rp_baseDelay ?cfg = real_of_int n" by blast
  have "rp_baseDelay ?cfg * 1 \<le> rp_baseDelay ?cfg * rp_backoffMultiplier ?cfg ^ attempt"
    using b by (intro mult_left_mono) simp_all
  then have low: "rp_baseDelay ?cfg \<le> ?d" using b by simp
  have j: "0 \<le> ?d * rp_jitterFactor ?cfg * random" using b low assms by (intro mult_nonneg_nonneg) auto
  have "?d * rp_jitterFactor ?cfg * random \<le> rp_maxDelay ?cfg * rp_jitterFactor ?cfg * 1"
    using b low assms by (intro mult_mono) auto
  then have high: "?d + ?d * rp_jitterFactor ?cfg * random \<le> rp_maxDelay ?cfg * (1 + rp_jitterFactor ?cfg)"
    by (simp add: algebra_simps)
  have "n \<le> \<lfloor>?d + ?d * rp_jitterFactor ?cfg * random\<rfloor>" using low j n by linarith
  moreover have "real_of_int \<lfloor>?d + ?d * rp_jitterFactor ?cfg * random\<rfloor> \<le> rp_maxDelay ?cfg * (1 + rp_jitterFactor ?cfg)"
    using high by linarith
  ultimately show ?thesis
    using n by (simp add: calculateRetryDelay_def calculateBackoffDelay_def Let_def)
qed

theorem backoff_is_bounded_witness:
  "bo_shouldRetry (calculateRetryDelay (1 / 2) 0 2 HIGH) \<and> 2000 \<le> real_of_int (bo_delay (calculateRetryDelay (1 / 2) 0 2 HIGH))"
  using backoff_is_bounded [of "1 / 2" 0 2 HIGH] by (simp add: Let_def calculateRetryDelay_def)

section \<open>Partitions as queues\<close>

datatype ordering_request =
    AddMessage string string uuid string timestamp
  | RemoveMessage string string uuid
  | MarkProcessing string string bool timestamp
  | ClearPartition string string
  | CleanupPartitions
  | ConfigureOrdering "bool option"

fun orderingRequest :: "ordering_request \<Rightarrow> ordering_state \<Rightarrow> ordering_state" where
  "orderingRequest (AddMessage q k i payload now) st = snd (addOrderedMessage q k i payload now st)"
| "orderingRequest (RemoveMessage q k i) st = snd (removeOrderedMessage q k i st)"
| "orderingRequest (MarkProcessing q k b now) st = markPartitionProcessing q k b now st"
| "orderingRequest (ClearPartition q k) st = snd (clearPartition q k st)"
| "orderingRequest CleanupPartitions st = snd (cleanupEmptyPartitions st)"
| "orderingRequest (ConfigureOrdering section) st = updateOrderingConfig section st"

text \<open>
  The specification: a switch, and one first-in first-out queue per partition id of the messages, each
  with its id, its payload and the time it came. Switched off, nothing is taken in; what is there can
  still be removed.
\<close>

type_synonym queued = "uuid \<times> string \<times> timestamp"

fun fifoRequest ::
  "ordering_request \<Rightarrow> bool \<times> (string \<Rightarrow> queued list) \<Rightarrow> bool \<times> (string \<Rightarrow> queued list)" where
  "fifoRequest (AddMessage q k i payload now) (on, f) =
     (on, if on then f(getPartitionId q k := f (getPartitionId q k) @ [(i, payload, now)]) else f)"
| "fifoRequest (RemoveMessage q k i) (on, f) =
     (on, f(getPartitionId q k := removeFirst (\<lambda>x. fst x = i) (f (getPartitionId q k))))"
| "fifoRequest (ClearPartition q k) (on, f) = (on, f(getPartitionId q k := []))"
| "fifoRequest (ConfigureOrdering section) (on, f) = (case section of None \<Rightarrow> on | Some b \<Rightarrow> b, f)"
| "fifoRequest _ s = s"

definition queuedMessage :: "ordered_message \<Rightarrow> queued" where
  "queuedMessage m = (om_messageId m, om_data m, om_timestamp m)"

definition partitionContents :: "ordering_state \<Rightarrow> string \<Rightarrow> queued list" where
  "partitionContents st pid =
     (case map_of (os_partitions st) pid of None \<Rightarrow> [] | Some p \<Rightarrow> map queuedMessage (pt_messages p))"

definition seqOf :: "ordering_state \<Rightarrow> string \<Rightarrow> nat" where
  "seqOf st pid = (case map_of (os_sequenceNumbers st) pid of None \<Rightarrow> 0 | Some n \<Rightarrow> n)"

text \<open>Messages lie in the order of their sequence numbers, and the counter is not behind them.\<close>

definition ordering_inv :: "ordering_state \<Rightarrow> bool" where
  "ordering_inv st \<longleftrightarrow> distinct (map fst (os_partitions st)) \<and>
     (\<forall>pid p. map_of (os_partitions st) pid = Some p \<longrightarrow>
        sorted (map om_sequenceNumber (pt_messages p)) \<and> (\<forall>m \<in> set (pt_messages p). om_sequenceNumber m \<le> seqOf st pid))"

lemma map_setPartition [simp]: "map_of (os_partitions (setPartition pid p st)) = (map_of (os_partitions st))(pid \<mapsto> p)"
  by (simp add: setPartition_def update_conv')

lemma setPartition_fields [simp]:
  "os_enabled (setPartition pid p st) = os_enabled st" "seqOf (setPartition pid p st) = seqOf st"
  "os_sequenceNumbers (setPartition pid p st) = os_sequenceNumbers st"
  by (simp_all add: setPartition_def seqOf_def fun_eq_iff)

lemma distinct_setPartition [simp]:
  "distinct (map fst (os_partitions st)) \<Longrightarrow> distinct (map fst (os_partitions (setPartition pid p st)))"
  by (simp add: setPartition_def distinct_update)

lemma sort_key_append_max:
  "sorted (map f xs) \<Longrightarrow> (\<forall>x \<in> set xs. f x \<le> f y) \<Longrightarrow> sort_key f (xs @ [y]) = xs @ [y]"
  by (rule sort_key_id_if_sorted) (simp add: sorted_append)

lemma inv_partition:
  assumes "ordering_inv st" and "map_of (os_partitions st) pid = Some p"
  shows "sorted (map om_sequenceNumber (pt_messages p))" and "m \<in> set (pt_messages p) \<Longrightarrow> om_sequenceNumber m \<le> seqOf st pid"
  using assms unfolding ordering_inv_def by blast+

lemma ordering_inv_set:
  assumes "ordering_inv st" and "sorted (map om_sequenceNumber (pt_messages p))"
    and "\<forall>m \<in> set (pt_messages p). om_sequenceNumber m \<le> seqOf st pid"
  shows "ordering_inv (setPartition pid p st)"
  using assms unfolding ordering_inv_def by auto

lemma partitionContents_set:
  "partitionContents (setPartition pid p st) = (partitionContents st)(pid := map queuedMessage (pt_messages p))"
  by (auto simp: partitionContents_def fun_eq_iff)

text \<open>Writing the counter of one partition keeps the others.\<close>

lemma ordering_inv_seq:
  assumes "ordering_inv st" and "\<And>p m. map_of (os_partitions st) pid = Some p \<Longrightarrow> m \<in> set (pt_messages p) \<Longrightarrow> om_sequenceNumber m \<le> n"
  shows "ordering_inv (st\<lparr>os_sequenceNumbers := AList.update pid n (os_sequenceNumbers st)\<rparr>)"
  using assms unfolding ordering_inv_def seqOf_def by (auto simp: update_conv')

lemma seqOf_update [simp]:
  "seqOf (st\<lparr>os_sequenceNumbers := AList.update pid n xs\<rparr>) pid = n"
  by (simp add: seqOf_def update_conv')

lemma partitionContents_seq [simp]: "partitionContents (st\<lparr>os_sequenceNumbers := xs\<rparr>) = partitionContents st"
  by (simp add: partitionContents_def fun_eq_iff)

lemma ordering_inv_reset:
  assumes "ordering_inv st" and "pt_messages p = []"
  shows "ordering_inv ((setPartition pid p st)\<lparr>os_sequenceNumbers := AList.update pid 0 (os_sequenceNumbers st)\<rparr>)"
proof -
  have "ordering_inv (setPartition pid p st)" using assms by (intro ordering_inv_set) simp_all
  then have "ordering_inv ((setPartition pid p st)\<lparr>os_sequenceNumbers :=
      AList.update pid 0 (os_sequenceNumbers (setPartition pid p st))\<rparr>)"
    by (rule ordering_inv_seq) (use assms(2) in auto)
  then show ?thesis by simp
qed

lemma ensurePartition_spec:
  assumes "ordering_inv st"
  shows "ordering_inv (ensurePartition pid q k st)" and "partitionContents (ensurePartition pid q k st) = partitionContents st"
    and "map_of (os_partitions (ensurePartition pid q k st)) pid \<noteq> None"
proof -
  let ?p = "\<lparr>pt_partitionKey = k, pt_queueName = q, pt_messages = [], pt_isProcessing = False, pt_lastProcessedAt = None\<rparr>"
  show "ordering_inv (ensurePartition pid q k st)"
    using assms ordering_inv_reset [OF assms, of ?p pid] by (simp add: ensurePartition_def)
  show "partitionContents (ensurePartition pid q k st) = partitionContents st"
    by (auto simp: ensurePartition_def partitionContents_set fun_eq_iff) (simp add: partitionContents_def)
  show "map_of (os_partitions (ensurePartition pid q k st)) pid \<noteq> None"
    by (simp add: ensurePartition_def)
qed

lemma add_spec_enabled:
  assumes "ordering_inv st" and on: "os_enabled st"
  shows "ordering_inv (snd (addOrderedMessage q k i payload now st))"
    and "partitionContents (snd (addOrderedMessage q k i payload now st)) =
      (partitionContents st)(getPartitionId q k := partitionContents st (getPartitionId q k) @ [(i, payload, now)])"
proof -
  let ?pid = "getPartitionId q k"
  let ?st1 = "ensurePartition ?pid q k st"
  let ?n = "seqOf ?st1 ?pid + 1"
  let ?st2 = "?st1\<lparr>os_sequenceNumbers := AList.update ?pid ?n (os_sequenceNumbers ?st1)\<rparr>"
  note e = ensurePartition_spec [OF assms(1), of ?pid q k]
  obtain p where p: "map_of (os_partitions ?st1) ?pid = Some p" using e(3) by blast
  let ?msg = "\<lparr>om_messageId = i, om_data = payload, om_timestamp = now, om_sequenceNumber = ?n\<rparr>"
  have old: "om_sequenceNumber m \<le> seqOf ?st1 ?pid" if "m \<in> set (pt_messages p)" for m
    using inv_partition(2) [OF e(1) p that] .
  have sorted: "sort_key om_sequenceNumber (pt_messages p @ [?msg]) = pt_messages p @ [?msg]"
    using inv_partition(1) [OF e(1) p] old by (intro sort_key_append_max) (auto simp: le_SucI)
  have run: "snd (addOrderedMessage q k i payload now st) = setPartition ?pid (p\<lparr>pt_messages := pt_messages p @ [?msg]\<rparr>) ?st2"
    using on p sorted by (simp add: addOrderedMessage_def Let_def incrementSequence_def seqOf_def)
  have inv2: "ordering_inv ?st2" using old p by (intro ordering_inv_seq [OF e(1)]) (auto simp: le_SucI)
  show "ordering_inv (snd (addOrderedMessage q k i payload now st))"
    unfolding run using inv_partition(1) [OF e(1) p] old
    by (intro ordering_inv_set [OF inv2]) (auto simp: sorted_append le_SucI)
  have "partitionContents st ?pid = map queuedMessage (pt_messages p)"
    using p e(2) by (metis (no_types, lifting) option.simps(5) partitionContents_def)
  then show "partitionContents (snd (addOrderedMessage q k i payload now st)) =
      (partitionContents st)(?pid := partitionContents st ?pid @ [(i, payload, now)])"
    unfolding run partitionContents_set by (simp add: e(2) queuedMessage_def)
qed

lemma ensurePartition_enabled [simp]: "os_enabled (ensurePartition pid q k st) = os_enabled st"
  by (simp add: ensurePartition_def)

lemma add_spec:
  assumes "ordering_inv st"
  shows "ordering_inv (snd (addOrderedMessage q k i payload now st))"
    and "os_enabled (snd (addOrderedMessage q k i payload now st)) = os_enabled st"
    and "partitionContents (snd (addOrderedMessage q k i payload now st)) =
      (if os_enabled st
       then (partitionContents st)(getPartitionId q k := partitionContents st (getPartitionId q k) @ [(i, payload, now)])
       else partitionContents st)"
proof -
  have off: "snd (addOrderedMessage q k i payload now st) = st" if "\<not> os_enabled st"
    using that by (simp add: addOrderedMessage_def)
  show "ordering_inv (snd (addOrderedMessage q k i payload now st))"
    using assms off add_spec_enabled(1) [OF assms] by (cases "os_enabled st") auto
  show "partitionContents (snd (addOrderedMessage q k i payload now st)) =
      (if os_enabled st
       then (partitionContents st)(getPartitionId q k := partitionContents st (getPartitionId q k) @ [(i, payload, now)])
       else partitionContents st)"
    using off add_spec_enabled(2) [OF assms] by auto
  show "os_enabled (snd (addOrderedMessage q k i payload now st)) = os_enabled st"
    by (simp add: addOrderedMessage_def Let_def incrementSequence_def split: option.split)
qed

lemma map_queued_removeFirst:
  "map queuedMessage (removeFirst (\<lambda>m. om_messageId m = i) ms) = removeFirst (\<lambda>x. fst x = i) (map queuedMessage ms)"
  by (induction ms) (simp_all add: queuedMessage_def)

lemma removeFirst_idem: "\<forall>x \<in> set xs. \<not> P x \<Longrightarrow> removeFirst P xs = xs"
  by (induction xs) simp_all

lemma remove_spec:
  assumes "ordering_inv st"
  shows "ordering_inv (snd (removeOrderedMessage q k i st))"
    and "partitionContents (snd (removeOrderedMessage q k i st)) =
      (partitionContents st)(getPartitionId q k := removeFirst (\<lambda>x. fst x = i) (partitionContents st (getPartitionId q k)))"
proof -
  let ?pid = "getPartitionId q k"
  have "ordering_inv (snd (removeOrderedMessage q k i st)) \<and> partitionContents (snd (removeOrderedMessage q k i st)) =
      (partitionContents st)(?pid := removeFirst (\<lambda>x. fst x = i) (partitionContents st ?pid))"
  proof (cases "map_of (os_partitions st) ?pid")
    case None
    then show ?thesis using assms by (auto simp: removeOrderedMessage_def partitionContents_def fun_eq_iff)
  next
    case (Some p)
    have ids: "partitionContents st ?pid = map queuedMessage (pt_messages p)" using Some by (simp add: partitionContents_def)
    show ?thesis
    proof (cases "list_ex (\<lambda>m. om_messageId m = i) (pt_messages p)")
      case True
      let ?p = "p\<lparr>pt_messages := removeFirst (\<lambda>m. om_messageId m = i) (pt_messages p)\<rparr>"
      have run: "snd (removeOrderedMessage q k i st) = setPartition ?pid ?p st"
        using Some True by (simp add: removeOrderedMessage_def)
      have "ordering_inv (setPartition ?pid ?p st)"
        using inv_partition [OF assms Some] set_removeFirst [of "\<lambda>m. om_messageId m = i" "pt_messages p"]
        by (intro ordering_inv_set [OF assms]) (auto intro: sorted_removeFirst)
      then show ?thesis unfolding run partitionContents_set by (simp add: ids map_queued_removeFirst)
    next
      case False
      then have "removeFirst (\<lambda>x. fst x = i) (partitionContents st ?pid) = partitionContents st ?pid"
        by (intro removeFirst_idem) (auto simp: ids list_ex_iff queuedMessage_def)
      then have "(partitionContents st)(?pid := removeFirst (\<lambda>x. fst x = i) (partitionContents st ?pid)) = partitionContents st"
        by (simp add: fun_eq_iff)
      then show ?thesis using assms Some False by (simp add: removeOrderedMessage_def)
    qed
  qed
  then show "ordering_inv (snd (removeOrderedMessage q k i st))"
    "partitionContents (snd (removeOrderedMessage q k i st)) =
      (partitionContents st)(?pid := removeFirst (\<lambda>x. fst x = i) (partitionContents st ?pid))" by blast+
qed

lemma mark_spec:
  assumes "ordering_inv st"
  shows "ordering_inv (markPartitionProcessing q k b now st) \<and> partitionContents (markPartitionProcessing q k b now st) = partitionContents st"
proof (cases "map_of (os_partitions st) (getPartitionId q k)")
  case (Some p)
  then have "ordering_inv (markPartitionProcessing q k b now st)"
    using inv_partition [OF assms Some] by (auto simp: markPartitionProcessing_def intro!: ordering_inv_set [OF assms])
  moreover have "partitionContents (markPartitionProcessing q k b now st) = partitionContents st"
    using Some by (simp add: markPartitionProcessing_def partitionContents_set fun_eq_iff) (simp add: partitionContents_def)
  ultimately show ?thesis ..
qed (use assms in \<open>simp add: markPartitionProcessing_def\<close>)

lemma clear_spec:
  assumes "ordering_inv st"
  shows "ordering_inv (snd (clearPartition q k st)) \<and>
    partitionContents (snd (clearPartition q k st)) = (partitionContents st)(getPartitionId q k := [])"
proof (cases "map_of (os_partitions st) (getPartitionId q k)")
  case None
  then show ?thesis using assms by (auto simp: clearPartition_def partitionContents_def fun_eq_iff)
next
  case (Some p)
  let ?pid = "getPartitionId q k"
  from ordering_inv_reset [OF assms, of "p\<lparr>pt_messages := []\<rparr>" ?pid] show ?thesis
    using Some by (simp add: clearPartition_def Let_def partitionContents_set)
qed

lemma lookup_kept_entries:
  "distinct (map fst ps) \<Longrightarrow>
     map_of [e \<leftarrow> ps. keep e] pid = Option.bind (map_of ps pid) (\<lambda>p. if keep (pid, p) then Some p else None)"
proof (induction ps)
  case (Cons e ps)
  then show ?case
    by (cases e) (auto simp: map_of_eq_None_iff bind_eq_None_conv split: if_splits dest: map_of_SomeD intro: rev_image_eqI)
qed simp

lemma map_of_filter_keys: "k \<notin> K \<Longrightarrow> map_of (filter (\<lambda>(x, _). x \<notin> K) xs) k = map_of xs k"
  by (induction xs) auto

lemma cleanup_spec:
  assumes "ordering_inv st"
  shows "ordering_inv (snd (cleanupEmptyPartitions st)) \<and> partitionContents (snd (cleanupEmptyPartitions st)) = partitionContents st"
proof -
  let ?st = "snd (cleanupEmptyPartitions st)"
  have d: "distinct (map fst (os_partitions st))" using assms by (simp add: ordering_inv_def)
  have parts: "map_of (os_partitions ?st) pid =
      (case map_of (os_partitions st) pid of None \<Rightarrow> None | Some p \<Rightarrow> if isEmptyPartition (pid, p) then None else Some p)" for pid
    using lookup_kept_entries [OF d, of "\<lambda>e. \<not> isEmptyPartition e" pid]
    by (auto simp: cleanupEmptyPartitions_def Let_def split: option.splits)
  have seq: "seqOf ?st pid = seqOf st pid" if "map_of (os_partitions ?st) pid = Some p" for pid p
  proof -
    have "pid \<notin> set (map fst (filter isEmptyPartition (os_partitions st)))"
      using that d by (auto simp: parts split: option.splits if_splits dest: map_of_SomeD eq_key_imp_eq_value)
    then have "map_of (os_sequenceNumbers ?st) pid = map_of (os_sequenceNumbers st) pid"
      by (simp add: cleanupEmptyPartitions_def Let_def map_of_filter_keys)
    then show ?thesis by (simp add: seqOf_def)
  qed
  have "distinct (map fst (os_partitions ?st))"
    using d by (simp add: cleanupEmptyPartitions_def Let_def distinct_map_filter)
  then have "ordering_inv ?st"
    using assms seq unfolding ordering_inv_def
    by (auto simp: parts split: option.splits if_splits)
  moreover have "partitionContents ?st = partitionContents st"
    by (auto simp: partitionContents_def parts fun_eq_iff isEmptyPartition_def split: option.splits)
  ultimately show ?thesis ..
qed

lemma configure_spec:
  "ordering_inv (updateOrderingConfig section st) = ordering_inv st"
  "partitionContents (updateOrderingConfig section st) = partitionContents st"
  "os_enabled (updateOrderingConfig section st) = (case section of None \<Rightarrow> os_enabled st | Some b \<Rightarrow> b)"
  by (auto simp: updateOrderingConfig_def ordering_inv_def partitionContents_def seqOf_def fun_eq_iff
      split: option.split)

interpretation ordering: event_loop orderingRequest ordering_inv
proof
  fix st r
  assume "ordering_inv st"
  then show "ordering_inv (orderingRequest r st)"
    by (cases r) (simp_all add: add_spec remove_spec mark_spec clear_spec cleanup_spec configure_spec)
qed

lemma switch_kept:
  "os_enabled (snd (removeOrderedMessage q k i st)) = os_enabled st"
  "os_enabled (markPartitionProcessing q k b now st) = os_enabled st"
  "os_enabled (snd (clearPartition q k st)) = os_enabled st"
  "os_enabled (snd (cleanupEmptyPartitions st)) = os_enabled st"
  by (auto simp: removeOrderedMessage_def markPartitionProcessing_def clearPartition_def cleanupEmptyPartitions_def
      Let_def split: option.split)

text \<open>The queues a state stands for.\<close>

definition abstractOrdering :: "ordering_state \<Rightarrow> bool \<times> (string \<Rightarrow> queued list)" where
  "abstractOrdering st = (os_enabled st, partitionContents st)"

lemma orderingRequest_refines:
  "ordering_inv st \<Longrightarrow> abstractOrdering (orderingRequest r st) = fifoRequest r (abstractOrdering st)"
  by (cases r) (simp_all add: abstractOrdering_def add_spec remove_spec mark_spec clear_spec cleanup_spec
      configure_spec switch_kept)

lemma getNextMessage_head:
  assumes "\<not> isPartitionProcessing q k st"
  shows "map_option queuedMessage (getNextMessage q k st) =
    (if os_enabled st
     then case partitionContents st (getPartitionId q k) of [] \<Rightarrow> None | x # _ \<Rightarrow> Some x else None)"
proof (cases "map_of (os_partitions st) (getPartitionId q k)")
  case (Some p)
  then show ?thesis
    using assms by (cases "pt_messages p") (auto simp: getNextMessage_def isPartitionProcessing_def partitionContents_def)
qed (simp add: getNextMessage_def partitionContents_def)

definition freshOrdering :: ordering_state where
  "freshOrdering = \<lparr>os_enabled = True, os_partitions = [], os_sequenceNumbers = []\<rparr>"

lemma freshOrdering_inv: "ordering_inv freshOrdering"
  by (simp add: freshOrdering_def ordering_inv_def)

text \<open>
  C31. Partitions are queues. After any sequence of requests, switching ordering off and on included,
  every partition holds the messages, with their ids and payloads, that a
  first-in first-out queue would hold, in that order; the switch is as last set; and the next message a
  partition hands out, while it is not being processed, is the front of that queue, or none while ordering is
  switched off. The sequence numbers, the sorting and the cleaning of empty partitions change
  nothing of this. The configuration's ordering section is an object where a request gives one.
\<close>

theorem partitions_refine_fifo_queues:
  shows "(os_enabled (fold orderingRequest rs freshOrdering), partitionContents (fold orderingRequest rs freshOrdering)) =
      fold fifoRequest rs (True, \<lambda>_. []) \<and>
    (isPartitionProcessing q k (fold orderingRequest rs freshOrdering) \<or>
     map_option (\<lambda>m. (om_messageId m, om_data m, om_timestamp m))
       (getNextMessage q k (fold orderingRequest rs freshOrdering)) =
       (case fold fifoRequest rs (True, \<lambda>_. []) of (on, queues) \<Rightarrow>
          if on then case queues (getPartitionId q k) of [] \<Rightarrow> None | x # _ \<Rightarrow> Some x else None))"
proof -
  have "abstractOrdering (fold orderingRequest rs st) = fold fifoRequest rs (abstractOrdering st)"
    if "ordering_inv st" for st
    using that
  proof (induction rs arbitrary: st)
    case (Cons r rs)
    then show ?case by (simp add: orderingRequest_refines ordering.handle_inv)
  qed simp
  moreover have "abstractOrdering freshOrdering = (True, \<lambda>_. [])"
    by (simp add: abstractOrdering_def partitionContents_def freshOrdering_def fun_eq_iff)
  ultimately have run: "fold fifoRequest rs (True, \<lambda>_. []) =
      (os_enabled (fold orderingRequest rs freshOrdering), partitionContents (fold orderingRequest rs freshOrdering))"
    using freshOrdering_inv by (metis abstractOrdering_def)
  show ?thesis
    using getNextMessage_head [of q k "fold orderingRequest rs freshOrdering"]
    unfolding run queuedMessage_def [abs_def]
    by (cases "isPartitionProcessing q k (fold orderingRequest rs freshOrdering)") simp_all
qed

text \<open>The partition id joins queue and key with a colon that both may contain: two partitions can share an id.\<close>

lemma partition_ids_collide:
  "getPartitionId ''a'' ''b:c'' = getPartitionId ''a:b'' ''c''"
  by (simp add: getPartitionId_def)

section \<open>What counts as a duplicate\<close>

text \<open>The two maps have the same ids and fingerprints, in the same order.\<close>

definition dedup_inv :: "dedup_state \<Rightarrow> bool" where
  "dedup_inv st \<longleftrightarrow> dd_enabled st \<and> distinct (map fst (dd_cache st)) \<and>
     dd_fingerprints st = map (\<lambda>(i, e). (i, de_fingerprint e)) (dd_cache st) \<and> length (dd_cache st) \<le> dd_maxEntries st"

definition in_step :: "dedup_state \<Rightarrow> bool" where
  "in_step st \<longleftrightarrow> distinct (map fst (dd_cache st)) \<and>
     dd_fingerprints st = map (\<lambda>(i, e). (i, de_fingerprint e)) (dd_cache st)"

lemma delete_map: "AList.delete i (map (\<lambda>(i, e). (i, f e)) xs) = map (\<lambda>(i, e). (i, f e)) (AList.delete i xs)"
  by (induction xs) auto

lemma update_map: "AList.update i (f e) (map (\<lambda>(i, e). (i, f e)) xs) = map (\<lambda>(i, e). (i, f e)) (AList.update i e xs)"
  by (induction xs) auto

lemma dropEntry_fields [simp]:
  "dd_cache (dropEntry i st) = AList.delete i (dd_cache st)" "dd_enabled (dropEntry i st) = dd_enabled st"
  "dd_maxEntries (dropEntry i st) = dd_maxEntries st" "dd_windowMs (dropEntry i st) = dd_windowMs st"
  by (simp_all add: dropEntry_def)

lemma in_step_drop: "in_step st \<Longrightarrow> in_step (dropEntry i st)"
  by (simp add: in_step_def dropEntry_def delete_map distinct_delete)

lemma drops_spec:
  "in_step st \<Longrightarrow> in_step (fold dropEntry is st)"
  "dd_cache (fold dropEntry is st) = filter (\<lambda>(i, _). i \<notin> set is) (dd_cache st)"
  "dd_enabled (fold dropEntry is st) = dd_enabled st" "dd_maxEntries (fold dropEntry is st) = dd_maxEntries st"
proof (induction "is" arbitrary: st)
  case (Cons i "is")
  {
    case 2
    have "AList.delete i xs = filter (\<lambda>(j, _). j \<noteq> i) xs" for xs :: "(uuid \<times> DeduplicationEntry) list"
      by (induction xs) auto
    then show ?case using Cons.IH(2) by (auto intro: filter_cong)
  }
qed (auto simp: in_step_drop case_prod_beta)

datatype dedup_request =
    RegisterMessage uuid json timestamp
  | UnregisterMessage uuid
  | CleanupExpired timestamp
  | ClearAll

fun dedupRequest :: "(json \<Rightarrow> string) \<Rightarrow> dedup_request \<Rightarrow> dedup_state \<Rightarrow> dedup_state" where
  "dedupRequest digest (RegisterMessage i payload now) st = registerMessage digest i payload now st"
| "dedupRequest digest (UnregisterMessage i) st = unregisterMessage i st"
| "dedupRequest digest (CleanupExpired now) st = cleanupExpiredEntries now st"
| "dedupRequest digest ClearAll st = clearAllEntries st"

text \<open>The payload a message was last registered with.\<close>

fun payloadStep :: "dedup_request \<Rightarrow> (uuid \<rightharpoonup> json) \<Rightarrow> (uuid \<rightharpoonup> json)" where
  "payloadStep (RegisterMessage i payload now) f = f(i \<mapsto> payload)"
| "payloadStep _ f = f"

text \<open>Every tracked message has the fingerprint of its last payload.\<close>

definition tracks :: "(json \<Rightarrow> string) \<Rightarrow> (uuid \<rightharpoonup> json) \<Rightarrow> dedup_state \<Rightarrow> bool" where
  "tracks digest f st \<longleftrightarrow> (\<forall>(i, e) \<in> set (dd_cache st).
     \<exists>payload. f i = Some payload \<and> de_fingerprint e = generateFingerprint digest payload)"

lemma tracks_subset: "tracks digest f st \<Longrightarrow> set (dd_cache st') \<subseteq> set (dd_cache st) \<Longrightarrow> tracks digest f st'"
  unfolding tracks_def by blast

lemma set_update: "distinct (map fst xs) \<Longrightarrow> set (AList.update k v xs) \<subseteq> insert (k, v) {x \<in> set xs. fst x \<noteq> k}"
proof (induction xs)
  case (Cons x xs)
  show ?case
  proof (cases "fst x = k")
    case True
    then have "\<forall>y \<in> set xs. fst y \<noteq> k" using Cons.prems by (metis distinct.simps(2) image_eqI list.simps(9) set_map)
    then show ?thesis using True by (cases x) auto
  next
    case False
    then show ?thesis using Cons by (cases x) auto
  qed
qed simp

lemma length_update: "length (AList.update k v xs) \<le> Suc (length xs)"
  by (induction xs) auto

lemma oldest_shrinks:
  assumes "dd_cache st \<noteq> []"
  shows "length (dd_cache (cleanupOldestEntries st)) < length (dd_cache st)"
proof -
  let ?es = "sort_key (\<lambda>(_, e). de_timestamp e) (dd_cache st)"
  have "?es \<noteq> []" using assms by (metis length_0_conv length_sort)
  moreover have "0 < tenthUp (length ?es)" using assms by (cases "dd_cache st") (simp_all add: tenthUp_def)
  ultimately have "take (tenthUp (length ?es)) ?es \<noteq> []" by simp
  then obtain x where x: "x \<in> set (take (tenthUp (length ?es)) ?es)" by (metis list.set_intros(1) neq_Nil_conv)
  then have "x \<in> set (dd_cache st)" using in_set_takeD [OF x] by simp
  moreover have "fst x \<in> set (map fst (take (tenthUp (length ?es)) ?es))" using x by auto
  ultimately show ?thesis
    by (simp add: cleanupOldestEntries_def Let_def drops_spec(2) case_prod_beta length_filter_less)
qed

lemma oldest_spec:
  "in_step st \<Longrightarrow> in_step (cleanupOldestEntries st)" "dd_enabled (cleanupOldestEntries st) = dd_enabled st"
  "dd_maxEntries (cleanupOldestEntries st) = dd_maxEntries st"
  "set (dd_cache (cleanupOldestEntries st)) \<subseteq> set (dd_cache st)"
  by (auto simp: cleanupOldestEntries_def Let_def drops_spec)

lemma register_keeps:
  assumes "dedup_inv st" and "tracks digest f st"
  shows "dedup_inv (registerMessage digest i payload now st)"
    and "tracks digest (f(i \<mapsto> payload)) (registerMessage digest i payload now st)"
proof -
  let ?e = "\<lparr>de_messageId = i, de_fingerprint = generateFingerprint digest payload, de_timestamp = now,
      de_expiresAt = now + dd_windowMs st\<rparr>"
  let ?st1 = "st\<lparr>dd_cache := AList.update i ?e (dd_cache st),
      dd_fingerprints := AList.update i (generateFingerprint digest payload) (dd_fingerprints st)\<rparr>"
  have run: "registerMessage digest i payload now st =
      (if length (dd_cache ?st1) > dd_maxEntries st then cleanupOldestEntries ?st1 else ?st1)"
    using assms(1) by (simp add: registerMessage_def dedup_inv_def Let_def)
  have step: "in_step ?st1"
    using assms(1) update_map [of i de_fingerprint ?e "dd_cache st"]
    by (simp add: in_step_def dedup_inv_def distinct_update)
  have len: "length (dd_cache ?st1) \<le> Suc (dd_maxEntries st)"
    using assms(1) length_update [of i ?e "dd_cache st"] by (simp add: dedup_inv_def)
  have ne: "dd_cache ?st1 \<noteq> []" by (cases "dd_cache st") auto
  show "dedup_inv (registerMessage digest i payload now st)"
    unfolding run using step len oldest_shrinks [OF ne] oldest_spec [of ?st1] assms(1)
    by (auto simp: dedup_inv_def in_step_def)
  have t1: "tracks digest (f(i \<mapsto> payload)) ?st1"
    using assms set_update [of "dd_cache st" i ?e] unfolding tracks_def dedup_inv_def by fastforce
  show "tracks digest (f(i \<mapsto> payload)) (registerMessage digest i payload now st)"
    unfolding run using t1 tracks_subset [OF t1 oldest_spec(4)] by simp
qed

lemma drops_keep:
  assumes "dedup_inv st"
  shows "dedup_inv (fold dropEntry is st)"
proof -
  have "in_step st" using assms by (simp add: dedup_inv_def in_step_def)
  from drops_spec(1) [OF this, of "is"] show ?thesis
    using assms le_trans [OF length_filter_le] unfolding dedup_inv_def in_step_def drops_spec(2-4) by auto
qed

lemma dedupRequest_keeps:
  assumes "dedup_inv st" and "tracks digest f st"
  shows "dedup_inv (dedupRequest digest r st)" and "tracks digest (payloadStep r f) (dedupRequest digest r st)"
proof -
  have sub: "tracks digest f (fold dropEntry is st)" for "is"
    by (rule tracks_subset [OF assms(2)]) (auto simp: drops_spec(2))
  show "dedup_inv (dedupRequest digest r st)"
    using assms register_keeps(1) [OF assms] drops_keep [OF assms(1), of "[x]" for x] drops_keep [OF assms(1)]
    by (cases r) (simp_all add: unregisterMessage_def cleanupExpiredEntries_def clearAllEntries_def dedup_inv_def)
  show "tracks digest (payloadStep r f) (dedupRequest digest r st)"
    using register_keeps(2) [OF assms] sub sub [of "[x]" for x] assms(2)
    by (cases r) (simp_all add: unregisterMessage_def cleanupExpiredEntries_def clearAllEntries_def, simp add: tracks_def)
qed

lemma dedup_run:
  "dedup_inv st \<Longrightarrow> tracks digest f st \<Longrightarrow>
     dedup_inv (fold (dedupRequest digest) rs st) \<and> tracks digest (fold payloadStep rs f) (fold (dedupRequest digest) rs st)"
proof (induction rs arbitrary: st f)
  case (Cons r rs)
  from Cons.IH [OF dedupRequest_keeps [OF Cons.prems]] show ?case by simp
qed simp

lemma isDuplicate_iff:
  assumes "dedup_inv st" and "\<And>x. digest x \<noteq> []"
  shows "isDuplicate digest i payload st \<longleftrightarrow> generateFingerprint digest payload \<in> de_fingerprint ` snd ` set (dd_cache st)"
proof -
  have fps: "dd_fingerprints st = map (\<lambda>(i, e). (i, de_fingerprint e)) (dd_cache st)" and on: "dd_enabled st"
    using assms(1) by (auto simp: dedup_inv_def)
  have d: "distinct (map fst (dd_fingerprints st))" using assms(1) by (simp add: dedup_inv_def case_prod_beta comp_def)
  let ?fp = "generateFingerprint digest payload"
  have ne: "?fp \<noteq> []" by (simp add: generateFingerprint_def assms(2))
  have "isDuplicate digest i payload st \<longleftrightarrow>
      map_of (dd_fingerprints st) i = Some ?fp \<or> (\<exists>j. j \<noteq> i \<and> (j, ?fp) \<in> set (dd_fingerprints st))"
    using on ne by (auto simp: isDuplicate_def Let_def list_ex_iff split: option.split)
  also have "\<dots> \<longleftrightarrow> (\<exists>j. (j, ?fp) \<in> set (dd_fingerprints st))"
    using d by (metis map_of_eq_Some_iff)
  finally have "isDuplicate digest i payload st \<longleftrightarrow> ?fp \<in> snd ` set (dd_fingerprints st)" by force
  then show ?thesis by (simp add: fps image_image case_prod_beta)
qed

lemma tracked_payloads:
  assumes "distinct (map fst (dd_cache st))" and t: "tracks digest f st"
  shows "(\<exists>(j, e) \<in> set (dd_cache st). de_fingerprint e = fp) \<longleftrightarrow>
    (\<exists>j other. hasMessage j st \<and> f j = Some other \<and> generateFingerprint digest other = fp)"
proof
  assume "\<exists>(j, e) \<in> set (dd_cache st). de_fingerprint e = fp"
  then obtain j e where je: "(j, e) \<in> set (dd_cache st)" "de_fingerprint e = fp" by blast
  moreover obtain other where "f j = Some other" "de_fingerprint e = generateFingerprint digest other"
    using t je(1) unfolding tracks_def by blast
  moreover have "hasMessage j st" using je(1) assms(1) by (simp add: hasMessage_def map_of_is_SomeI)
  ultimately show "\<exists>j other. hasMessage j st \<and> f j = Some other \<and> generateFingerprint digest other = fp" by metis
next
  assume "\<exists>j other. hasMessage j st \<and> f j = Some other \<and> generateFingerprint digest other = fp"
  then obtain j other where jo: "hasMessage j st" "f j = Some other" "generateFingerprint digest other = fp" by blast
  then obtain e where e: "(j, e) \<in> set (dd_cache st)" by (auto simp: hasMessage_def dest: map_of_SomeD)
  then have "de_fingerprint e = fp" using t jo unfolding tracks_def by fastforce
  then show "\<exists>(j, e) \<in> set (dd_cache st). de_fingerprint e = fp" using e by blast
qed

definition freshDedup :: "int \<Rightarrow> nat \<Rightarrow> dedup_state" where
  "freshDedup window n = \<lparr>dd_enabled = True, dd_windowMs = window, dd_maxEntries = n, dd_cache = [], dd_fingerprints = []\<rparr>"

text \<open>
  What counts as a duplicate. After any sequence of registrations, removals and cleanings, the
  cache holds at most the configured number of entries, and a message is reported as a duplicate
  exactly when some message that is still tracked was last registered with a payload that normalises
  to the same value, whatever the ids are. The hash is assumed to be non-empty and to have no collision
  among the payloads in question.
\<close>

theorem duplicate_iff_payload_is_tracked:
  assumes "\<And>x. digest x \<noteq> []"
    and "inj_on digest (normalizeData ` insert payload (ran (fold payloadStep rs Map.empty)))"
    and "st = fold (dedupRequest digest) rs (freshDedup window n)"
  shows "length (dd_cache st) \<le> n \<and>
    (isDuplicate digest i payload st \<longleftrightarrow> (\<exists>j other. hasMessage j st \<and>
       fold payloadStep rs Map.empty j = Some other \<and> normalizeData other = normalizeData payload))"
proof -
  have inv0: "dedup_inv (freshDedup window n)" and t0: "tracks digest Map.empty (freshDedup window n)"
    by (simp_all add: dedup_inv_def freshDedup_def tracks_def)
  have n: "dd_maxEntries (fold (dedupRequest digest) rs st') = dd_maxEntries st'" for st'
  proof (induction rs arbitrary: st')
    case (Cons r rs)
    have "dd_maxEntries (dedupRequest digest r st') = dd_maxEntries st'"
      by (cases r) (simp_all add: registerMessage_def unregisterMessage_def cleanupExpiredEntries_def clearAllEntries_def
          Let_def oldest_spec(3) drops_spec(4))
    then show ?case by (simp add: Cons.IH)
  qed simp
  note run = dedup_run [OF inv0 t0, of rs, folded assms(3)]
  have inv: "dedup_inv st" and t: "tracks digest (fold payloadStep rs Map.empty) st" using run by blast+
  have d: "distinct (map fst (dd_cache st))" using inv by (simp add: dedup_inv_def)
  let ?f = "fold payloadStep rs Map.empty"
  have same: "generateFingerprint digest other = generateFingerprint digest payload \<longleftrightarrow>
      normalizeData other = normalizeData payload" if "?f j = Some other" for j other
    using inj_onD [OF assms(2), of "normalizeData other" "normalizeData payload"] ranI [of ?f, OF that]
    by (auto simp: generateFingerprint_def)
  have "length (dd_cache st) \<le> n" using inv n [of "freshDedup window n"] by (simp add: dedup_inv_def assms(3) freshDedup_def)
  moreover have "isDuplicate digest i payload st \<longleftrightarrow> (\<exists>(j, e) \<in> set (dd_cache st). de_fingerprint e = generateFingerprint digest payload)"
    unfolding isDuplicate_iff [OF inv assms(1)] by force
  moreover have "\<dots> \<longleftrightarrow> (\<exists>j other. hasMessage j st \<and> fold payloadStep rs Map.empty j = Some other \<and>
      normalizeData other = normalizeData payload)"
    unfolding tracked_payloads [OF d t] using same by blast
  ultimately show ?thesis by blast
qed

definition ex_payload :: "nat \<Rightarrow> json" where
  "ex_payload n = JObj [(''b'', JNum (real n)), (''a'', JNull)]"

text \<open>The same object with its keys in the other order.\<close>

definition ex_swapped :: json where
  "ex_swapped = JObj [(''a'', JUndefined), (''b'', JNum 5)]"

definition ex_digest :: "json \<Rightarrow> string" where
  "ex_digest x = (if x = normalizeData (ex_payload 5) then ''five'' else ''other'')"

definition ex_dedup :: dedup_state where
  "ex_dedup = fold (dedupRequest ex_digest) [RegisterMessage 3 (ex_payload 5) 0] (freshDedup 1000 2)"

theorem duplicate_iff_payload_is_tracked_witness:
  "isDuplicate ex_digest 9 ex_swapped ex_dedup"
proof -
  have "ex_digest x \<noteq> []" for x by (simp add: ex_digest_def)
  moreover have norm: "normalizeData ex_swapped = normalizeData (ex_payload 5)"
    by (simp add: ex_swapped_def ex_payload_def)
  then have "inj_on ex_digest (normalizeData ` insert ex_swapped
      (ran (fold payloadStep [RegisterMessage 3 (ex_payload 5) 0] Map.empty)))" by simp
  moreover have "hasMessage 3 ex_dedup"
    by (simp add: ex_dedup_def hasMessage_def registerMessage_def freshDedup_def Let_def)
  ultimately show ?thesis
    using duplicate_iff_payload_is_tracked [OF _ _ ex_dedup_def, of ex_swapped 9] norm by auto
qed

text \<open>The order of the keys of an object does not matter; a date in the payload does not matter either.\<close>

lemma normalizeData_key_order:
  assumes "mset kvs = mset kvs'" and "distinct (map fst kvs)"
  shows "normalizeData (JObj kvs) = normalizeData (JObj kvs')"
proof -
  let ?f = "map (map_prod id normalizeData)"
  have "mset (?f kvs) = mset (?f kvs')" using assms(1) by (metis mset_map)
  moreover have "inj_on fst (set (?f kvs))"
    using assms(2) by (auto simp: inj_on_def distinct_map)
  ultimately show ?thesis by (simp add: sort_key_inj_key_eq)
qed

lemma dates_are_not_compared: "normalizeData (JObj [(''at'', JDate t)]) = normalizeData (JObj [(''at'', JDate u)])"
  by simp

end
