(* ===== verification/FaultTolerance.thy ===== *)
theory FaultTolerance
  imports Prelude "HOL-Library.AList"
begin

text \<open>
  Failure handling of the queues: the circuit breakers, failover targets and retry counters of
  \<open>queue/queue-fault-tolerance.service.ts\<close> and the dead letter queue of
  \<open>queue/dead-letter-queue.service.ts\<close>.

  The maps are association lists in insertion order. The operation a failover runs, and the Bull
  queues a dead job is put back on, are arguments: an operation returns a result and the state of the
  world after it. Waiting between attempts is left out. A stored entry that is not JSON is \<open>None\<close>.
\<close>

section \<open>Circuit breakers\<close>

datatype CircuitBreakerState = CLOSED | OPEN | HALF_OPEN

record CircuitBreaker =
  br_state :: CircuitBreakerState
  br_failureCount :: nat
  br_successCount :: nat
  br_lastFailureTime :: "timestamp option"
  br_lastStateChange :: timestamp
  br_nextRetryTime :: "timestamp option"

record FailoverTarget =
  ft_targetId :: string
  ft_priority :: int
  ft_isAvailable :: bool
  ft_lastHealthCheck :: timestamp
  ft_consecutiveFailures :: nat

record fault_config =
  fc_enableFailover :: bool
  fc_maxFailoverAttempts :: nat
  fc_enableCircuitBreaker :: bool
  fc_circuitBreakerThreshold :: real
  fc_circuitBreakerResetTimeoutMs :: int

definition DEFAULT_FAULT_TOLERANCE :: fault_config where
  "DEFAULT_FAULT_TOLERANCE = \<lparr>fc_enableFailover = True, fc_maxFailoverAttempts = 3, fc_enableCircuitBreaker = True,
     fc_circuitBreakerThreshold = 5 / 10, fc_circuitBreakerResetTimeoutMs = 60000\<rparr>"

datatype breaker_note = BreakerClosed string | BreakerOpened string | BreakerHalfOpen string | BreakerReset string
  | TargetUnavailable string string | TargetAvailable string string

record fault_state =
  fs_breakers :: "(string \<times> CircuitBreaker) list"
  fs_targets :: "(string \<times> FailoverTarget list) list"
  fs_retries :: "(uuid \<times> nat) list"
  fs_notes :: "breaker_note list"

definition newBreaker :: "timestamp \<Rightarrow> CircuitBreaker" where
  "newBreaker now = \<lparr>br_state = CLOSED, br_failureCount = 0, br_successCount = 0, br_lastFailureTime = None,
     br_lastStateChange = now, br_nextRetryTime = None\<rparr>"

definition getCircuitBreaker :: "string \<Rightarrow> timestamp \<Rightarrow> fault_state \<Rightarrow> CircuitBreaker \<times> fault_state" where
  "getCircuitBreaker sid now st =
     (case map_of (fs_breakers st) sid of
        Some b \<Rightarrow> (b, st)
      | None \<Rightarrow> (newBreaker now, st\<lparr>fs_breakers := AList.update sid (newBreaker now) (fs_breakers st)\<rparr>))"

definition setBreaker :: "string \<Rightarrow> CircuitBreaker \<Rightarrow> breaker_note list \<Rightarrow> fault_state \<Rightarrow> fault_state" where
  "setBreaker sid b es st = st\<lparr>fs_breakers := AList.update sid b (fs_breakers st), fs_notes := fs_notes st @ es\<rparr>"

definition recordSuccess :: "string \<Rightarrow> timestamp \<Rightarrow> fault_state \<Rightarrow> fault_state" where
  "recordSuccess sid now st =
     (let (b, st1) = getCircuitBreaker sid now st;
          b1 = b\<lparr>br_successCount := br_successCount b + 1, br_failureCount := 0\<rparr>
      in if br_state b1 = HALF_OPEN
         then setBreaker sid (b1\<lparr>br_state := CLOSED, br_lastStateChange := now\<rparr>) [BreakerClosed sid] st1
         else setBreaker sid b1 [] st1)"

definition opened :: "fault_config \<Rightarrow> timestamp \<Rightarrow> CircuitBreaker \<Rightarrow> CircuitBreaker" where
  "opened cfg now b = b\<lparr>br_state := OPEN, br_lastStateChange := now,
     br_nextRetryTime := Some (now + fc_circuitBreakerResetTimeoutMs cfg)\<rparr>"

definition recordFailure :: "fault_config \<Rightarrow> string \<Rightarrow> timestamp \<Rightarrow> fault_state \<Rightarrow> fault_state" where
  "recordFailure cfg sid now st =
     (let (b, st1) = getCircuitBreaker sid now st;
          b1 = b\<lparr>br_failureCount := br_failureCount b + 1, br_successCount := 0, br_lastFailureTime := Some now\<rparr>
      in if br_state b1 = CLOSED
         then let failureRate = real (br_failureCount b1) / real (br_failureCount b1 + br_successCount b1)
              in if failureRate \<ge> fc_circuitBreakerThreshold cfg
                 then setBreaker sid (opened cfg now b1) [BreakerOpened sid] st1
                 else setBreaker sid b1 [] st1
         else if br_state b1 = HALF_OPEN then setBreaker sid (opened cfg now b1) [BreakerOpened sid] st1
         else setBreaker sid b1 [] st1)"

definition isRequestAllowed :: "fault_config \<Rightarrow> string \<Rightarrow> timestamp \<Rightarrow> fault_state \<Rightarrow> bool \<times> fault_state" where
  "isRequestAllowed cfg sid now st =
     (if \<not> fc_enableCircuitBreaker cfg then (True, st)
      else let (b, st1) = getCircuitBreaker sid now st
           in case br_state b of
                CLOSED \<Rightarrow> (True, st1)
              | OPEN \<Rightarrow>
                  (case br_nextRetryTime b of
                     None \<Rightarrow> (False, st1)
                   | Some t \<Rightarrow>
                       if t \<le> now
                       then (True, setBreaker sid (b\<lparr>br_state := HALF_OPEN, br_lastStateChange := now\<rparr>)
                              [BreakerHalfOpen sid] st1)
                       else (False, st1))
              | HALF_OPEN \<Rightarrow> (True, st1))"

definition getCircuitBreakerState :: "string \<Rightarrow> timestamp \<Rightarrow> fault_state \<Rightarrow> CircuitBreakerState" where
  "getCircuitBreakerState sid now st = br_state (fst (getCircuitBreaker sid now st))"

definition resetCircuitBreaker :: "string \<Rightarrow> timestamp \<Rightarrow> fault_state \<Rightarrow> fault_state" where
  "resetCircuitBreaker sid now st =
     (let (b, st1) = getCircuitBreaker sid now st
      in setBreaker sid (b\<lparr>br_state := CLOSED, br_failureCount := 0, br_successCount := 0,
           br_lastStateChange := now, br_nextRetryTime := None\<rparr>) [BreakerReset sid] st1)"

section \<open>Failover\<close>

definition targetsOf :: "string \<Rightarrow> fault_state \<Rightarrow> FailoverTarget list" where
  "targetsOf sid st = (case map_of (fs_targets st) sid of None \<Rightarrow> [] | Some ts \<Rightarrow> ts)"

definition setTargets :: "string \<Rightarrow> FailoverTarget list \<Rightarrow> fault_state \<Rightarrow> fault_state" where
  "setTargets sid ts st = st\<lparr>fs_targets := AList.update sid ts (fs_targets st)\<rparr>"

definition registerFailoverTarget :: "string \<Rightarrow> string \<Rightarrow> int \<Rightarrow> timestamp \<Rightarrow> fault_state \<Rightarrow> fault_state" where
  "registerFailoverTarget sid targetId priority now st =
     (let targets = targetsOf sid st;
          targets1 =
            (if list_ex (\<lambda>t. ft_targetId t = targetId) targets
             then updateFirst (\<lambda>t. ft_targetId t = targetId) (\<lambda>t. t\<lparr>ft_priority := priority, ft_isAvailable := True\<rparr>) targets
             else targets @ [\<lparr>ft_targetId = targetId, ft_priority = priority, ft_isAvailable = True,
                    ft_lastHealthCheck = now, ft_consecutiveFailures = 0\<rparr>])
      in setTargets sid (sort_key ft_priority targets1) st)"

definition unregisterFailoverTarget :: "string \<Rightarrow> string \<Rightarrow> fault_state \<Rightarrow> bool \<times> fault_state" where
  "unregisterFailoverTarget sid targetId st =
     (if \<not> list_ex (\<lambda>t. ft_targetId t = targetId) (targetsOf sid st) then (False, st)
      else (True, setTargets sid (removeFirst (\<lambda>t. ft_targetId t = targetId) (targetsOf sid st)) st))"

definition getNextFailoverTarget :: "string \<Rightarrow> fault_state \<Rightarrow> FailoverTarget option" where
  "getNextFailoverTarget sid st = find ft_isAvailable (targetsOf sid st)"

definition changeTarget ::
  "string \<Rightarrow> string \<Rightarrow> (FailoverTarget \<Rightarrow> FailoverTarget) \<Rightarrow> breaker_note \<Rightarrow> fault_state \<Rightarrow> fault_state" where
  "changeTarget sid targetId f ev st =
     (if list_ex (\<lambda>t. ft_targetId t = targetId) (targetsOf sid st)
      then (setTargets sid (updateFirst (\<lambda>t. ft_targetId t = targetId) f (targetsOf sid st)) st)\<lparr>fs_notes := fs_notes st @ [ev]\<rparr>
      else st)"

definition markTargetUnavailable :: "string \<Rightarrow> string \<Rightarrow> timestamp \<Rightarrow> fault_state \<Rightarrow> fault_state" where
  "markTargetUnavailable sid targetId now st =
     changeTarget sid targetId (\<lambda>t. t\<lparr>ft_isAvailable := False,
       ft_consecutiveFailures := ft_consecutiveFailures t + 1, ft_lastHealthCheck := now\<rparr>)
       (TargetUnavailable sid targetId) st"

definition markTargetAvailable :: "string \<Rightarrow> string \<Rightarrow> timestamp \<Rightarrow> fault_state \<Rightarrow> fault_state" where
  "markTargetAvailable sid targetId now st =
     changeTarget sid targetId (\<lambda>t. t\<lparr>ft_isAvailable := True, ft_consecutiveFailures := 0,
       ft_lastHealthCheck := now\<rparr>) (TargetAvailable sid targetId) st"

text \<open>The loop of \<open>executeWithFailover\<close>: the value of the operation, or the last error seen.\<close>

fun failoverLoop ::
  "nat \<Rightarrow> string \<Rightarrow> (string \<Rightarrow> 'w \<Rightarrow> 'v result \<times> 'w) \<Rightarrow> timestamp \<Rightarrow> exn option \<Rightarrow> fault_state \<Rightarrow> 'w \<Rightarrow>
     (exn option + 'v) \<times> fault_state \<times> 'w" where
  "failoverLoop 0 sid operation now lastError st w = (Inl lastError, st, w)"
| "failoverLoop (Suc n) sid operation now lastError st w =
     (case getNextFailoverTarget sid st of
        None \<Rightarrow> (Inl lastError, st, w)
      | Some target \<Rightarrow>
          (case operation (ft_targetId target) w of
             (Inr v, w') \<Rightarrow> (Inr v, markTargetAvailable sid (ft_targetId target) now st, w')
           | (Inl e, w') \<Rightarrow>
               failoverLoop n sid operation now (Some e) (markTargetUnavailable sid (ft_targetId target) now st) w'))"

definition executeWithFailover ::
  "fault_config \<Rightarrow> string \<Rightarrow> (string \<Rightarrow> 'w \<Rightarrow> 'v result \<times> 'w) \<Rightarrow> ('w \<Rightarrow> 'v result \<times> 'w) option \<Rightarrow> timestamp \<Rightarrow>
     fault_state \<Rightarrow> 'w \<Rightarrow> 'v result \<times> fault_state \<times> 'w" where
  "executeWithFailover cfg sid operation fallback now st w =
     (if \<not> fc_enableFailover cfg
      then (case operation sid w of (r, w') \<Rightarrow> (r, st, w'))
      else case failoverLoop (fc_maxFailoverAttempts cfg) sid operation now None st w of
             (Inr v, st', w') \<Rightarrow> (Inr v, st', w')
           | (Inl lastError, st', w') \<Rightarrow>
               (case fallback of
                  Some f \<Rightarrow> (case f w' of (r, w'') \<Rightarrow> (r, st', w''))
                | None \<Rightarrow> (case lastError of
                     Some e \<Rightarrow> (Inl e, st', w')
                   | None \<Rightarrow> (Inl (JsError (''All failover attempts failed for '' @ sid)), st', w'))))"

section \<open>Retry counters and health\<close>

definition getRetryCount :: "uuid \<Rightarrow> fault_state \<Rightarrow> nat" where
  "getRetryCount jobId st = (case map_of (fs_retries st) jobId of None \<Rightarrow> 0 | Some n \<Rightarrow> n)"

definition incrementRetryCount :: "uuid \<Rightarrow> fault_state \<Rightarrow> nat \<times> fault_state" where
  "incrementRetryCount jobId st =
     (let newCount = getRetryCount jobId st + 1
      in (newCount, st\<lparr>fs_retries := AList.update jobId newCount (fs_retries st)\<rparr>))"

definition resetRetryCount :: "uuid \<Rightarrow> fault_state \<Rightarrow> fault_state" where
  "resetRetryCount jobId st = st\<lparr>fs_retries := AList.delete jobId (fs_retries st)\<rparr>"

definition shouldRetry :: "uuid \<Rightarrow> nat \<Rightarrow> fault_state \<Rightarrow> bool" where
  "shouldRetry jobId maxAttempts st = (getRetryCount jobId st < maxAttempts)"

definition getAllCircuitBreakerStates :: "fault_state \<Rightarrow> (string \<times> CircuitBreakerState) list" where
  "getAllCircuitBreakerStates st = map (\<lambda>(sid, b). (sid, br_state b)) (fs_breakers st)"

definition getAllFailoverTargets :: "fault_state \<Rightarrow> (string \<times> FailoverTarget list) list" where
  "getAllFailoverTargets st = fs_targets st"

text \<open>The merge is shallow: a new \<open>faultTolerance\<close> section replaces the old one whole.\<close>

definition updateFaultConfig :: "fault_config option \<Rightarrow> fault_config \<Rightarrow> fault_config" where
  "updateFaultConfig section cfg = (case section of None \<Rightarrow> cfg | Some c \<Rightarrow> c)"

record breaker_health =
  bh_healthy :: bool
  bh_circuitBreakers :: "(string \<times> CircuitBreakerState \<times> nat) list"
  bh_issues :: "string list"

definition breakerHealthCheck :: "fault_state \<Rightarrow> breaker_health" where
  "breakerHealthCheck st =
     (let issues = map (\<lambda>(sid, _). ''Circuit breaker OPEN for '' @ sid) (filter (\<lambda>(_, b). br_state b = OPEN) (fs_breakers st))
      in \<lparr>bh_healthy = (issues = []),
          bh_circuitBreakers = map (\<lambda>(sid, b). (sid, br_state b, br_failureCount b)) (fs_breakers st),
          bh_issues = issues\<rparr>)"

section \<open>Dead letters\<close>

datatype QueueName = NOTIFICATIONS | EMAILS | REPORTS | CLEANUP | SWAPS | ALERTS

definition ALL_QUEUES :: "QueueName list" where
  "ALL_QUEUES = [NOTIFICATIONS, EMAILS, REPORTS, CLEANUP, SWAPS, ALERTS]"

datatype DLQReason = MAX_RETRIES_EXCEEDED | NON_RETRYABLE_ERROR | STALLED | TIMEOUT | MANUAL

record bull_job =
  bj_id :: uuid
  bj_data :: string
  bj_attemptsMade :: nat
  bj_attempts :: "nat option"
  bj_priority :: "nat option"

record DLQItem =
  dl_jobId :: uuid
  dl_queueName :: QueueName
  dl_jobData :: string
  dl_error :: string
  dl_failedAt :: timestamp
  dl_lastAttempt :: nat
  dl_maxAttempts :: nat
  dl_reason :: DLQReason
  dl_priority :: "nat option"

record DLQConfig =
  dc_enabled :: bool
  dc_maxAge :: int
  dc_notifyOnFailure :: bool
  dc_alertThreshold :: nat

definition DEFAULT_DLQ_CONFIG :: DLQConfig where
  "DEFAULT_DLQ_CONFIG = \<lparr>dc_enabled = True, dc_maxAge = 30 * 24 * 60 * 60 * 1000, dc_notifyOnFailure = True,
     dc_alertThreshold = 100\<rparr>"

datatype dlq_note = ListenerCalled nat DLQItem | AdministratorsAlerted DLQItem | ThresholdReached QueueName nat

text \<open>Listeners are identified by a number: the set of callbacks holds each once.\<close>

record dlq_state =
  dq_config :: DLQConfig
  dq_listeners :: "nat list"
  dq_notes :: "dlq_note list"
  dq_entries :: "((QueueName \<times> uuid) \<times> DLQItem option) list"
  dq_added :: "(QueueName \<times> string \<times> nat \<times> nat option) list"

definition isPermanentFailure :: "bull_job \<Rightarrow> bool" where
  "isPermanentFailure job \<longleftrightarrow> (case bj_attempts job of None \<Rightarrow> 3 | Some n \<Rightarrow> n) \<le> bj_attemptsMade job"

text \<open>\<open>job.opts.attempts || 3\<close>: no attempts count as three.\<close>

definition dlqItem :: "bull_job \<Rightarrow> string \<Rightarrow> DLQReason \<Rightarrow> QueueName \<Rightarrow> timestamp \<Rightarrow> DLQItem" where
  "dlqItem job e reason q now =
     \<lparr>dl_jobId = bj_id job, dl_queueName = q, dl_jobData = bj_data job, dl_error = e, dl_failedAt = now,
      dl_lastAttempt = bj_attemptsMade job,
      dl_maxAttempts = (case bj_attempts job of None \<Rightarrow> 3 | Some n \<Rightarrow> if n = 0 then 3 else n),
      dl_reason = reason, dl_priority = bj_priority job\<rparr>"

definition getDLQItems :: "QueueName \<Rightarrow> nat option \<Rightarrow> dlq_state \<Rightarrow> DLQItem list" where
  "getDLQItems q n st =
     (let items = sort_key dl_failedAt
            (List.map_filter snd (filter (\<lambda>((q', _), _). q' = q) (dq_entries st)))
      in case n of None \<Rightarrow> items | Some k \<Rightarrow> if k = 0 then items else drop (length items - k) items)"

definition notifyDLQListeners :: "DLQItem \<Rightarrow> dlq_state \<Rightarrow> dlq_state" where
  "notifyDLQListeners item st = st\<lparr>dq_notes := dq_notes st @ map (\<lambda>l. ListenerCalled l item) (dq_listeners st)\<rparr>"

definition alertAdministrators :: "DLQItem \<Rightarrow> dlq_state \<Rightarrow> dlq_state" where
  "alertAdministrators item st = st\<lparr>dq_notes := dq_notes st @ [AdministratorsAlerted item]\<rparr>"

definition onDLQItem :: "nat \<Rightarrow> dlq_state \<Rightarrow> dlq_state" where
  "onDLQItem l st = st\<lparr>dq_listeners := (if l \<in> set (dq_listeners st) then dq_listeners st else dq_listeners st @ [l])\<rparr>"

definition offDLQItem :: "nat \<Rightarrow> dlq_state \<Rightarrow> dlq_state" where
  "offDLQItem l st = st\<lparr>dq_listeners := filter (\<lambda>l'. l' \<noteq> l) (dq_listeners st)\<rparr>"

definition setDLQConfig :: "bool option \<Rightarrow> int option \<Rightarrow> bool option \<Rightarrow> nat option \<Rightarrow> dlq_state \<Rightarrow> dlq_state" where
  "setDLQConfig enabled maxAge notifyOnFailure alertThreshold st =
     (let c = dq_config st in st\<lparr>dq_config :=
        \<lparr>dc_enabled = case_option (dc_enabled c) id enabled, dc_maxAge = case_option (dc_maxAge c) id maxAge,
         dc_notifyOnFailure = case_option (dc_notifyOnFailure c) id notifyOnFailure,
         dc_alertThreshold = case_option (dc_alertThreshold c) id alertThreshold\<rparr>\<rparr>)"

definition addToDLQ ::
  "bull_job \<Rightarrow> string \<Rightarrow> DLQReason \<Rightarrow> QueueName \<Rightarrow> timestamp \<Rightarrow> dlq_state \<Rightarrow> DLQItem \<times> dlq_state" where
  "addToDLQ job e reason q now st =
     (let item = dlqItem job e reason q now;
          st1 = st\<lparr>dq_entries := AList.update (q, dl_jobId item) (Some item) (dq_entries st)\<rparr>;
          st2 = notifyDLQListeners item st1;
          st3 = (if dc_notifyOnFailure (dq_config st) then alertAdministrators item st2 else st2);
          n = length (getDLQItems q None st3)
      in (item, if dc_alertThreshold (dq_config st) < n \<and> n mod 10 = 0
                then st3\<lparr>dq_notes := dq_notes st3 @ [ThresholdReached q n]\<rparr> else st3))"

definition getDLQStats :: "dlq_state \<Rightarrow> (QueueName \<times> nat \<times> DLQItem option) list" where
  "getDLQStats st =
     map (\<lambda>q. let items = getDLQItems q None st
               in (q, length items, if items = [] then None else Some (hd items))) ALL_QUEUES"

fun getQueueByName :: "QueueName \<Rightarrow> QueueName option" where
  "getQueueByName NOTIFICATIONS = Some NOTIFICATIONS"
| "getQueueByName EMAILS = Some EMAILS"
| "getQueueByName REPORTS = Some REPORTS"
| "getQueueByName CLEANUP = Some CLEANUP"
| "getQueueByName SWAPS = Some SWAPS"
| "getQueueByName ALERTS = None"

text \<open>
  \<open>accepts\<close> says whether \<open>queue.add\<close> resolves or rejects, \<open>deletes\<close> whether the \<open>hdel\<close> after it
  does. A rejection of either is caught.
\<close>

definition recoverJob :: "bool \<Rightarrow> bool \<Rightarrow> QueueName \<Rightarrow> uuid \<Rightarrow> dlq_state \<Rightarrow> bool \<times> dlq_state" where
  "recoverJob accepts deletes q jobId st =
     (case map_of (dq_entries st) (q, jobId) of
        None \<Rightarrow> (False, st)
      | Some None \<Rightarrow> (False, st)
      | Some (Some item) \<Rightarrow>
          (case getQueueByName q of
             None \<Rightarrow> (False, st)
           | Some queue \<Rightarrow>
               if \<not> accepts then (False, st)
               else let st1 = st\<lparr>dq_added := dq_added st @ [(queue, dl_jobData item, dl_maxAttempts item, dl_priority item)]\<rparr>
                    in if \<not> deletes then (False, st1)
                       else (True, st1\<lparr>dq_entries := AList.delete (q, jobId) (dq_entries st1)\<rparr>)))"

definition removeDLQItem :: "QueueName \<Rightarrow> uuid \<Rightarrow> dlq_state \<Rightarrow> bool \<times> dlq_state" where
  "removeDLQItem q jobId st =
     (map_of (dq_entries st) (q, jobId) \<noteq> None, st\<lparr>dq_entries := AList.delete (q, jobId) (dq_entries st)\<rparr>)"

definition clearDLQ :: "QueueName \<Rightarrow> dlq_state \<Rightarrow> nat \<times> dlq_state" where
  "clearDLQ q st =
     (length (getDLQItems q None st), st\<lparr>dq_entries := filter (\<lambda>((q', _), _). q' \<noteq> q) (dq_entries st)\<rparr>)"

definition getDLQItem :: "QueueName \<Rightarrow> uuid \<Rightarrow> dlq_state \<Rightarrow> DLQItem option" where
  "getDLQItem q jobId st = (case map_of (dq_entries st) (q, jobId) of None \<Rightarrow> None | Some x \<Rightarrow> x)"

definition cleanupExpiredItems :: "timestamp \<Rightarrow> dlq_state \<Rightarrow> dlq_state" where
  "cleanupExpiredItems now st =
     st\<lparr>dq_entries := filter (\<lambda>(_, item). case item of None \<Rightarrow> True | Some x \<Rightarrow> \<not> dl_failedAt x \<le> now - dc_maxAge (dq_config st)) (dq_entries st)\<rparr>"

section \<open>Any sequence of calls\<close>

datatype fault_call =
    CallSuccess string timestamp
  | CallFailure string timestamp
  | CallAllowed string timestamp
  | CallReset string timestamp
  | CallRegister string string int timestamp
  | CallUnregister string string timestamp
  | CallAvailable string string timestamp
  | CallUnavailable string string timestamp

fun faultCall :: "fault_config \<Rightarrow> fault_call \<Rightarrow> fault_state \<Rightarrow> fault_state" where
  "faultCall cfg (CallSuccess sid now) st = recordSuccess sid now st"
| "faultCall cfg (CallFailure sid now) st = recordFailure cfg sid now st"
| "faultCall cfg (CallAllowed sid now) st = snd (isRequestAllowed cfg sid now st)"
| "faultCall cfg (CallReset sid now) st = resetCircuitBreaker sid now st"
| "faultCall cfg (CallRegister sid tid priority now) st = registerFailoverTarget sid tid priority now st"
| "faultCall cfg (CallUnregister sid tid now) st = snd (unregisterFailoverTarget sid tid st)"
| "faultCall cfg (CallAvailable sid tid now) st = markTargetAvailable sid tid now st"
| "faultCall cfg (CallUnavailable sid tid now) st = markTargetUnavailable sid tid now st"

fun callTime :: "fault_call \<Rightarrow> timestamp" where
  "callTime (CallSuccess sid now) = now"
| "callTime (CallFailure sid now) = now"
| "callTime (CallAllowed sid now) = now"
| "callTime (CallReset sid now) = now"
| "callTime (CallRegister sid tid priority now) = now"
| "callTime (CallUnregister sid tid now) = now"
| "callTime (CallAvailable sid tid now) = now"
| "callTime (CallUnavailable sid tid now) = now"

fun resets :: "string \<Rightarrow> fault_call \<Rightarrow> bool" where
  "resets sid (CallReset sid' now) = (sid' = sid)"
| "resets sid _ = False"

text \<open>The state the service is constructed with.\<close>

definition noFaults :: fault_state where
  "noFaults = \<lparr>fs_breakers = [], fs_targets = [], fs_retries = [], fs_notes = []\<rparr>"

abbreviation breakerOf :: "string \<Rightarrow> fault_state \<Rightarrow> CircuitBreaker option" where
  "breakerOf sid st \<equiv> map_of (fs_breakers st) sid"

text \<open>
  The targets of a service have different ids and stand in ascending priority; an open breaker
  has a time at which it is tried again.
\<close>

definition targets_ok :: "FailoverTarget list \<Rightarrow> bool" where
  "targets_ok ts \<longleftrightarrow> distinct (map ft_targetId ts) \<and> sorted (map ft_priority ts)"

definition fault_inv :: "fault_state \<Rightarrow> bool" where
  "fault_inv st \<longleftrightarrow>
     (\<forall>sid. targets_ok (targetsOf sid st)) \<and>
     (\<forall>sid b. breakerOf sid st = Some b \<longrightarrow> br_state b = OPEN \<longrightarrow> br_nextRetryTime b \<noteq> None)"

text \<open>What a failover does: each target in turn, up to the first that answers.\<close>

fun tryTargets ::
  "(string \<Rightarrow> 'w \<Rightarrow> 'v result \<times> 'w) \<Rightarrow> string list \<Rightarrow> exn option \<Rightarrow> 'w \<Rightarrow> (exn option + 'v) \<times> string list \<times> 'w" where
  "tryTargets operation [] lastError w = (Inl lastError, [], w)"
| "tryTargets operation (t # ts) lastError w =
     (case operation t w of
        (Inr v, w') \<Rightarrow> (Inr v, [], w')
      | (Inl e, w') \<Rightarrow> (case tryTargets operation ts (Some e) w' of (r, failed, w'') \<Rightarrow> (r, t # failed, w'')))"

definition availableTargets :: "string \<Rightarrow> fault_state \<Rightarrow> string list" where
  "availableTargets sid st = map ft_targetId (filter ft_isAvailable (targetsOf sid st))"

section \<open>Breakers and targets in the state\<close>

lemma breakerOf_setBreaker [simp]:
  "breakerOf s (setBreaker sid b es st) = (if s = sid then Some b else breakerOf s st)"
  by (simp add: setBreaker_def update_conv')

lemma targetsOf_setBreaker [simp]: "targetsOf s (setBreaker sid b es st) = targetsOf s st"
  by (simp add: setBreaker_def targetsOf_def)

lemma getCircuitBreaker_spec [simp]:
  "fst (getCircuitBreaker sid now st) = (case breakerOf sid st of None \<Rightarrow> newBreaker now | Some b \<Rightarrow> b)"
  "breakerOf s (snd (getCircuitBreaker sid now st)) =
     (if s = sid then Some (fst (getCircuitBreaker sid now st)) else breakerOf s st)"
  "targetsOf s (snd (getCircuitBreaker sid now st)) = targetsOf s st"
  by (auto simp: getCircuitBreaker_def targetsOf_def update_conv' split: option.splits)

lemma targetsOf_setTargets [simp]:
  "targetsOf s (setTargets sid ts st) = (if s = sid then ts else targetsOf s st)"
  by (simp add: setTargets_def targetsOf_def update_conv')

lemma breakerOf_setTargets [simp]: "breakerOf s (setTargets sid ts st) = breakerOf s st"
  by (simp add: setTargets_def)

lemma changeTarget_spec [simp]:
  "breakerOf s (changeTarget sid tid f ev st) = breakerOf s st"
  "targetsOf s (changeTarget sid tid f ev st) =
     (if s = sid then updateFirst (\<lambda>t. ft_targetId t = tid) f (targetsOf sid st) else targetsOf s st)"
proof -
  have none: "\<not> list_ex P ts \<Longrightarrow> updateFirst P f ts = ts" for P :: "FailoverTarget \<Rightarrow> bool" and ts
    by (induction ts) auto
  have keep: "targetsOf s (st\<lparr>fs_notes := n\<rparr>) = targetsOf s st" for s n st
    by (simp add: targetsOf_def)
  show "breakerOf s (changeTarget sid tid f ev st) = breakerOf s st"
    by (simp add: changeTarget_def)
  show "targetsOf s (changeTarget sid tid f ev st) =
      (if s = sid then updateFirst (\<lambda>t. ft_targetId t = tid) f (targetsOf sid st) else targetsOf s st)"
    by (simp add: changeTarget_def keep none)
qed

lemma recordSuccess_spec [simp]:
  "targetsOf s (recordSuccess sid now st) = targetsOf s st"
  "breakerOf s (recordSuccess sid now st) =
     (if s = sid
      then let b = case breakerOf sid st of None \<Rightarrow> newBreaker now | Some b \<Rightarrow> b;
               b1 = b\<lparr>br_successCount := br_successCount b + 1, br_failureCount := 0\<rparr>
           in Some (if br_state b = HALF_OPEN then b1\<lparr>br_state := CLOSED, br_lastStateChange := now\<rparr> else b1)
      else breakerOf s st)"
  by (simp_all add: recordSuccess_def case_prod_beta Let_def)

lemma recordFailure_spec [simp]:
  "targetsOf s (recordFailure cfg sid now st) = targetsOf s st"
  "breakerOf s (recordFailure cfg sid now st) =
     (if s = sid
      then let b = case breakerOf sid st of None \<Rightarrow> newBreaker now | Some b \<Rightarrow> b;
               b1 = b\<lparr>br_failureCount := br_failureCount b + 1, br_successCount := 0, br_lastFailureTime := Some now\<rparr>
           in Some (if br_state b = CLOSED \<and> fc_circuitBreakerThreshold cfg \<le> 1 \<or> br_state b = HALF_OPEN
                    then opened cfg now b1 else b1)
      else breakerOf s st)"
proof -
  have rate: "real (n + 1) / real (n + 1 + 0) = 1" for n :: nat by simp
  show "targetsOf s (recordFailure cfg sid now st) = targetsOf s st"
    by (simp add: recordFailure_def case_prod_beta Let_def)
  show "breakerOf s (recordFailure cfg sid now st) =
     (if s = sid
      then let b = case breakerOf sid st of None \<Rightarrow> newBreaker now | Some b \<Rightarrow> b;
               b1 = b\<lparr>br_failureCount := br_failureCount b + 1, br_successCount := 0, br_lastFailureTime := Some now\<rparr>
           in Some (if br_state b = CLOSED \<and> fc_circuitBreakerThreshold cfg \<le> 1 \<or> br_state b = HALF_OPEN
                    then opened cfg now b1 else b1)
      else breakerOf s st)"
    using rate by (simp add: recordFailure_def case_prod_beta Let_def)
qed

lemma isRequestAllowed_spec:
  assumes "fc_enableCircuitBreaker cfg"
  defines "b now sid st \<equiv> case breakerOf sid st of None \<Rightarrow> newBreaker now | Some b \<Rightarrow> b"
  shows "fst (isRequestAllowed cfg sid now st) \<longleftrightarrow>
      (br_state (b now sid st) = OPEN \<longrightarrow> (\<exists>t. br_nextRetryTime (b now sid st) = Some t \<and> t \<le> now))"
    and "breakerOf s (snd (isRequestAllowed cfg sid now st)) =
      (if s = sid
       then Some (if br_state (b now sid st) = OPEN \<and> (\<exists>t. br_nextRetryTime (b now sid st) = Some t \<and> t \<le> now)
                  then (b now sid st)\<lparr>br_state := HALF_OPEN, br_lastStateChange := now\<rparr> else b now sid st)
       else breakerOf s st)"
  using assms(1) unfolding b_def
  by (auto simp: isRequestAllowed_def case_prod_beta split: CircuitBreakerState.splits option.splits)

lemma isRequestAllowed_targets [simp]: "targetsOf s (snd (isRequestAllowed cfg sid now st)) = targetsOf s st"
  by (auto simp: isRequestAllowed_def case_prod_beta split: CircuitBreakerState.splits option.splits)

lemma isRequestAllowed_off: "\<not> fc_enableCircuitBreaker cfg \<Longrightarrow> isRequestAllowed cfg sid now st = (True, st)"
  by (simp add: isRequestAllowed_def)

lemma resetCircuitBreaker_spec [simp]:
  "targetsOf s (resetCircuitBreaker sid now st) = targetsOf s st"
  "breakerOf s (resetCircuitBreaker sid now st) =
     (if s = sid
      then Some ((case breakerOf sid st of None \<Rightarrow> newBreaker now | Some b \<Rightarrow> b)\<lparr>br_state := CLOSED,
             br_failureCount := 0, br_successCount := 0, br_lastStateChange := now, br_nextRetryTime := None\<rparr>)
      else breakerOf s st)"
  by (simp_all add: resetCircuitBreaker_def case_prod_beta Let_def)

lemma unregister_spec [simp]:
  "breakerOf s (snd (unregisterFailoverTarget sid tid st)) = breakerOf s st"
  "targetsOf s (snd (unregisterFailoverTarget sid tid st)) =
     (if s = sid then removeFirst (\<lambda>t. ft_targetId t = tid) (targetsOf sid st) else targetsOf s st)"
proof -
  have "\<not> list_ex P ts \<Longrightarrow> removeFirst P ts = ts" for P :: "FailoverTarget \<Rightarrow> bool" and ts
    by (induction ts) auto
  then show "targetsOf s (snd (unregisterFailoverTarget sid tid st)) =
      (if s = sid then removeFirst (\<lambda>t. ft_targetId t = tid) (targetsOf sid st) else targetsOf s st)"
    by (simp add: unregisterFailoverTarget_def)
qed (simp add: unregisterFailoverTarget_def)

lemma register_spec [simp]:
  "breakerOf s (registerFailoverTarget sid tid pr now st) = breakerOf s st"
  "s \<noteq> sid \<Longrightarrow> targetsOf s (registerFailoverTarget sid tid pr now st) = targetsOf s st"
  by (simp_all add: registerFailoverTarget_def Let_def)

lemma register_targets_ok:
  assumes "targets_ok (targetsOf sid st)"
  shows "targets_ok (targetsOf sid (registerFailoverTarget sid tid pr now st))"
proof -
  have dist: "distinct (map ft_targetId (sort_key ft_priority ts)) = distinct (map ft_targetId ts)" for ts
    by (metis distinct_map distinct_sort set_sort)
  show ?thesis
    using assms
    by (auto simp: registerFailoverTarget_def Let_def targets_ok_def dist map_updateFirst list_ex_iff)
qed

lemma updateFirst_targets_ok:
  assumes "targets_ok ts" and "\<And>t. ft_targetId (f t) = ft_targetId t" and "\<And>t. ft_priority (f t) = ft_priority t"
  shows "targets_ok (updateFirst P f ts)"
  using assms by (simp add: targets_ok_def map_updateFirst)

lemma removeFirst_targets_ok: "targets_ok ts \<Longrightarrow> targets_ok (removeFirst (\<lambda>t. ft_targetId t = tid) ts)"
  by (simp add: targets_ok_def map_removeFirst sorted_removeFirst)

lemma register_all_targets_ok:
  "(\<forall>s. targets_ok (targetsOf s st)) \<Longrightarrow> targets_ok (targetsOf s (registerFailoverTarget sid tid pr now st))"
  by (cases "s = sid") (simp_all add: register_targets_ok)

lemma faultCall_targets_ok:
  "(\<forall>sid. targets_ok (targetsOf sid st)) \<Longrightarrow> targets_ok (targetsOf sid (faultCall cfg c st))"
  by (cases c)
    (auto simp: removeFirst_targets_ok markTargetAvailable_def markTargetUnavailable_def register_all_targets_ok
      intro!: updateFirst_targets_ok)

section \<open>Breakers in a run\<close>

definition retryTimed :: "CircuitBreaker option \<Rightarrow> bool" where
  "retryTimed b \<longleftrightarrow> (\<forall>x. b = Some x \<longrightarrow> br_state x = OPEN \<longrightarrow> br_nextRetryTime x \<noteq> None)"

lemma newBreaker_closed [simp]: "br_state (newBreaker now) = CLOSED"
  by (simp add: newBreaker_def)

lemma opened_simps [simp]:
  "br_state (opened cfg now b) = OPEN"
  "br_nextRetryTime (opened cfg now b) = Some (now + fc_circuitBreakerResetTimeoutMs cfg)"
  by (simp_all add: opened_def)

lemma isRequestAllowed_retryTimed:
  "retryTimed (breakerOf s st) \<Longrightarrow> retryTimed (breakerOf s (snd (isRequestAllowed cfg sid now st)))"
  by (cases "fc_enableCircuitBreaker cfg")
    (auto simp: isRequestAllowed_spec isRequestAllowed_off retryTimed_def split: option.splits)

lemma faultCall_retryTimed:
  assumes "retryTimed (breakerOf s st)"
  shows "retryTimed (breakerOf s (faultCall cfg c st))"
proof (cases c)
  case (CallAllowed sid now)
  then show ?thesis using assms by (simp add: isRequestAllowed_retryTimed)
qed (use assms in \<open>auto simp: retryTimed_def Let_def markTargetAvailable_def markTargetUnavailable_def
      split: option.splits if_splits\<close>)

interpretation fault: event_loop "\<lambda>(cfg, c). faultCall cfg c" fault_inv
proof
  fix st and e :: "fault_config \<times> fault_call"
  assume inv: "fault_inv st"
  obtain cfg c where e: "e = (cfg, c)" by (cases e)
  have "retryTimed (breakerOf sid (faultCall cfg c st))" for sid
    using inv by (intro faultCall_retryTimed) (auto simp: fault_inv_def retryTimed_def)
  moreover have "targets_ok (targetsOf sid (faultCall cfg c st))" for sid
    using inv by (intro faultCall_targets_ok) (simp add: fault_inv_def)
  ultimately show "fault_inv ((case e of (cfg, c) \<Rightarrow> faultCall cfg c) st)"
    by (simp add: e fault_inv_def retryTimed_def)
qed

lemma noFaults_inv: "fault_inv noFaults"
  by (simp add: fault_inv_def noFaults_def targetsOf_def targets_ok_def)

definition shut :: "string \<Rightarrow> timestamp \<Rightarrow> fault_state \<Rightarrow> bool" where
  "shut sid t st \<longleftrightarrow> (\<exists>b. breakerOf sid st = Some b \<and> br_state b = OPEN \<and> br_nextRetryTime b = Some t)"

lemma faultCall_shut:
  assumes "shut sid t st" and "callTime c < t" and "\<not> resets sid c"
  shows "shut sid t (faultCall cfg c st)"
proof (cases c)
  case (CallAllowed s now)
  then show ?thesis
    using assms by (cases "fc_enableCircuitBreaker cfg") (auto simp: shut_def isRequestAllowed_spec isRequestAllowed_off)
qed (use assms in \<open>auto simp: shut_def Let_def markTargetAvailable_def markTargetUnavailable_def\<close>)

lemma run_shut:
  "shut sid t st \<Longrightarrow> \<forall>c\<in>set cs. callTime c < t \<and> \<not> resets sid c \<Longrightarrow> shut sid t (fold (faultCall cfg) cs st)"
  by (induction cs arbitrary: st) (simp_all add: faultCall_shut)

text \<open>
  Once a breaker is open it lets no request through before its retry time, whatever
  successes, failures, requests and target changes are reported on any service meanwhile, unless
  somebody resets that breaker.
\<close>

theorem open_breaker_refuses_until_retry_time:
  assumes "fc_enableCircuitBreaker cfg"
    and "map_of (fs_breakers st) sid = Some b" and "br_state b = OPEN" and "br_nextRetryTime b = Some t"
    and "\<forall>c\<in>set cs. callTime c < t \<and> \<not> resets sid c" and "now < t"
  shows "\<not> fst (isRequestAllowed cfg sid now (fold (faultCall cfg) cs st)) \<and>
    getCircuitBreakerState sid now (fold (faultCall cfg) cs st) = OPEN"
proof -
  have "shut sid t (fold (faultCall cfg) cs st)"
    using assms by (intro run_shut) (auto simp: shut_def)
  then show ?thesis
    using assms(1,6) by (auto simp: shut_def isRequestAllowed_spec getCircuitBreakerState_def)
qed

definition ex_failing :: fault_state where
  "ex_failing = recordFailure DEFAULT_FAULT_TOLERANCE ''emails'' 1000 noFaults"

lemma ex_failing_eq:
  "map_of (fs_breakers ex_failing) ''emails'' =
     Some \<lparr>br_state = OPEN, br_failureCount = Suc 0, br_successCount = 0, br_lastFailureTime = Some 1000,
           br_lastStateChange = 1000, br_nextRetryTime = Some 61000\<rparr>"
  by (simp add: ex_failing_def noFaults_def newBreaker_def opened_def DEFAULT_FAULT_TOLERANCE_def Let_def)

theorem open_breaker_refuses_until_retry_time_witness:
  "\<not> fst (isRequestAllowed DEFAULT_FAULT_TOLERANCE ''emails'' 60999
       (fold (faultCall DEFAULT_FAULT_TOLERANCE)
          [CallAllowed ''emails'' 2000, CallSuccess ''emails'' 3000, CallReset ''reports'' 4000] ex_failing))"
  using open_breaker_refuses_until_retry_time [OF _ ex_failing_eq, of DEFAULT_FAULT_TOLERANCE 61000
      "[CallAllowed ''emails'' 2000, CallSuccess ''emails'' 3000, CallReset ''reports'' 4000]" 60999]
  by (simp add: DEFAULT_FAULT_TOLERANCE_def)

text \<open>
  An open breaker is never stuck: in every state a run of calls reaches, a breaker that is open
  has a retry time, the first request at or after it is let through, and a success reported then
  closes the breaker.
\<close>

theorem open_breaker_recovers:
  assumes "fc_enableCircuitBreaker cfg"
    and "st = fold (faultCall cfg) cs noFaults" and "getCircuitBreakerState sid now st = OPEN"
  shows "\<exists>t. \<forall>now' \<ge> t. fst (isRequestAllowed cfg sid now' st) \<and>
    getCircuitBreakerState sid now' (recordSuccess sid now' (snd (isRequestAllowed cfg sid now' st))) = CLOSED"
proof -
  have "fold (faultCall cfg) cs noFaults = fold (\<lambda>(cfg, c). faultCall cfg c) (map (Pair cfg) cs) noFaults"
    by (simp add: fold_map comp_def)
  then have "fault_inv st"
    using fault.run_inv [OF noFaults_inv] assms(2) by simp
  moreover obtain b where b: "breakerOf sid st = Some b" "br_state b = OPEN"
    using assms(3) by (auto simp: getCircuitBreakerState_def split: option.splits)
  ultimately obtain t where "br_nextRetryTime b = Some t"
    by (fastforce simp: fault_inv_def)
  with b assms(1) show ?thesis
    by (auto simp: isRequestAllowed_spec getCircuitBreakerState_def Let_def intro!: exI [of _ t])
qed

theorem open_breaker_recovers_witness:
  "\<exists>t. \<forall>now' \<ge> t. fst (isRequestAllowed DEFAULT_FAULT_TOLERANCE ''emails'' now' ex_failing)"
proof -
  have "getCircuitBreakerState ''emails'' 2000 ex_failing = OPEN"
    by (simp add: getCircuitBreakerState_def ex_failing_eq)
  then have "\<exists>t. \<forall>now' \<ge> t. fst (isRequestAllowed DEFAULT_FAULT_TOLERANCE ''emails'' now' ex_failing) \<and>
      getCircuitBreakerState ''emails'' now' (recordSuccess ''emails'' now'
        (snd (isRequestAllowed DEFAULT_FAULT_TOLERANCE ''emails'' now' ex_failing))) = CLOSED"
    by (intro open_breaker_recovers [where cs = "[CallFailure ''emails'' 1000]" and now = 2000])
      (simp_all add: ex_failing_def DEFAULT_FAULT_TOLERANCE_def)
  then show ?thesis by blast
qed

text \<open>
  The failure rate compares the failures with the successes since the last failure, which
  \<open>recordFailure\<close> has just set to zero: with any threshold up to 100\% the first failure opens the
  breaker, however many successes came before it.
\<close>

lemma first_failure_opens_breaker:
  "fc_circuitBreakerThreshold cfg \<le> 1 \<Longrightarrow> getCircuitBreakerState sid now st = CLOSED \<Longrightarrow>
     getCircuitBreakerState sid now (recordFailure cfg sid now st) = OPEN"
  by (auto simp: getCircuitBreakerState_def Let_def)

text \<open>A half-open breaker lets every request through, not one.\<close>

lemma half_open_admits_all:
  "getCircuitBreakerState sid now st = HALF_OPEN \<Longrightarrow>
     fst (isRequestAllowed cfg sid now st) \<and>
     getCircuitBreakerState sid now' (snd (isRequestAllowed cfg sid now st)) = HALF_OPEN"
  by (cases "fc_enableCircuitBreaker cfg")
    (auto simp: getCircuitBreakerState_def isRequestAllowed_spec isRequestAllowed_off split: option.splits)

section \<open>Failover in priority order\<close>

lemma find_available:
  "map_option ft_targetId (find ft_isAvailable ts) =
     (case map ft_targetId (filter ft_isAvailable ts) of [] \<Rightarrow> None | t # _ \<Rightarrow> Some t)"
  by (induction ts) auto

lemma nextTarget_cases:
  "availableTargets sid st = [] \<Longrightarrow> getNextFailoverTarget sid st = None"
  "availableTargets sid st = t # ts \<Longrightarrow> \<exists>target. getNextFailoverTarget sid st = Some target \<and> ft_targetId target = t"
  using find_available [of "targetsOf sid st"]
  by (auto simp: availableTargets_def getNextFailoverTarget_def map_option_eq_Some)

lemma available_unavailable:
  assumes "targets_ok (targetsOf sid st)"
  shows "availableTargets sid (markTargetUnavailable sid t now st) = filter (\<lambda>x. x \<noteq> t) (availableTargets sid st)"
proof -
  have gone: "map ft_targetId (filter ft_isAvailable (map (\<lambda>x. if ft_targetId x = t then f x else x) ts)) =
      filter (\<lambda>x. x \<noteq> t) (map ft_targetId (filter ft_isAvailable ts))"
    if "\<And>x. \<not> ft_isAvailable (f x)" for f ts
    using that by (induction ts) auto
  show ?thesis
    using assms by (simp add: markTargetUnavailable_def availableTargets_def targets_ok_def updateFirst_distinct gone)
qed

lemma available_available:
  assumes "targets_ok (targetsOf sid st)" and "t \<in> set (availableTargets sid st)"
  shows "availableTargets sid (markTargetAvailable sid t now st) = availableTargets sid st"
proof -
  have keep: "map ft_targetId (filter ft_isAvailable (map (\<lambda>x. if ft_targetId x = t then f x else x) ts)) =
      map ft_targetId (filter ft_isAvailable ts)"
    if "\<And>x. ft_isAvailable (f x)" "\<And>x. ft_targetId (f x) = ft_targetId x"
      "\<forall>x\<in>set ts. ft_targetId x = t \<longrightarrow> ft_isAvailable x" for f ts
    using that by (induction ts) auto
  have "distinct (map ft_targetId (targetsOf sid st))" using assms(1) by (simp add: targets_ok_def)
  then have "\<forall>x\<in>set (targetsOf sid st). ft_targetId x = t \<longrightarrow> ft_isAvailable x"
    using assms(2) by (auto simp: availableTargets_def distinct_map inj_on_def)
  then show ?thesis
    using assms(1) keep [of "\<lambda>t. t\<lparr>ft_isAvailable := True, ft_consecutiveFailures := 0, ft_lastHealthCheck := now\<rparr>"]
    by (simp add: markTargetAvailable_def availableTargets_def targets_ok_def updateFirst_distinct)
qed

lemma markTargetUnavailable_ok:
  "targets_ok (targetsOf sid st) \<Longrightarrow> targets_ok (targetsOf sid (markTargetUnavailable sid t now st))"
  by (simp add: markTargetUnavailable_def updateFirst_targets_ok)

lemma distinct_available: "targets_ok (targetsOf sid st) \<Longrightarrow> distinct (availableTargets sid st)"
  by (simp add: availableTargets_def targets_ok_def distinct_map_filter)

lemma failoverLoop_refines:
  assumes "targets_ok (targetsOf sid st)"
    and "tryTargets operation (take n (availableTargets sid st)) e w = (r, failed, w')"
  shows "\<exists>st'. failoverLoop n sid operation now e st w = (r, st', w') \<and>
    availableTargets sid st' = drop (length failed) (availableTargets sid st)"
  using assms
proof (induction n arbitrary: st e w failed)
  case (Suc n)
  show ?case
  proof (cases "availableTargets sid st")
    case Nil
    then show ?thesis using Suc.prems(2) by (simp add: nextTarget_cases)
  next
    case (Cons t ts)
    then obtain target where target: "getNextFailoverTarget sid st = Some target" "ft_targetId target = t"
      using nextTarget_cases(2) by blast
    let ?st = "markTargetUnavailable sid t now st"
    have rest: "availableTargets sid ?st = ts"
    proof -
      have "t \<notin> set ts" using Cons distinct_available [OF Suc.prems(1)] by simp
      then have "filter (\<lambda>x. x \<noteq> t) ts = ts" by (intro filter_True) auto
      then show ?thesis using available_unavailable [OF Suc.prems(1)] Cons by simp
    qed
    show ?thesis
    proof (cases "operation t w")
      case (Pair a w1)
      then show ?thesis
      proof (cases a)
        case (Inl err)
        with Pair Suc.prems(2) Cons obtain failed' where
          "tryTargets operation (take n (availableTargets sid ?st)) (Some err) w1 = (r, failed', w')" "failed = t # failed'"
          by (auto simp: rest split: prod.splits)
        with Suc.IH [OF markTargetUnavailable_ok [OF Suc.prems(1)], of t now "Some err" w1 failed']
        obtain st' where "failoverLoop n sid operation now (Some err) ?st w1 = (r, st', w')"
          "availableTargets sid st' = drop (length failed') ts"
          by (auto simp: rest)
        then show ?thesis using Pair Inl target Cons \<open>failed = t # failed'\<close> by simp
      next
        case (Inr v)
        with Pair Suc.prems Cons target show ?thesis
          by (auto simp: available_available)
      qed
    qed
  qed
qed simp

lemma availableTargets_sorted:
  "targets_ok (targetsOf sid st) \<Longrightarrow> sorted (map ft_priority (filter ft_isAvailable (targetsOf sid st)))"
  by (simp add: targets_ok_def sorted_filter)

text \<open>
  C32. A failover implements its contract: in every state a run of calls reaches, the operation is
  run on the available targets of the service in ascending priority, at most the configured number
  of them, each in the world the one before left, up to the first that succeeds; those that failed
  and only those are unavailable afterwards; when none succeeds the last error is thrown.
\<close>

theorem failover_tries_targets_by_priority:
  assumes "st = fold (faultCall cfg) cs noFaults" and "fc_enableFailover cfg"
    and "tryTargets operation (take (fc_maxFailoverAttempts cfg) (availableTargets sid st)) None w = (r, failed, w')"
  shows "sorted (map ft_priority (filter ft_isAvailable (targetsOf sid st))) \<and>
    (\<exists>st'. executeWithFailover cfg sid operation None now st w =
       ((case r of Inr v \<Rightarrow> Inr v | Inl (Some e) \<Rightarrow> Inl e
         | Inl None \<Rightarrow> Inl (JsError (''All failover attempts failed for '' @ sid))), st', w') \<and>
       availableTargets sid st' = drop (length failed) (availableTargets sid st))"
proof -
  have "st = fold (\<lambda>(cfg, c). faultCall cfg c) (map (Pair cfg) cs) noFaults"
    using assms(1) by (simp add: fold_map comp_def)
  then have ok: "targets_ok (targetsOf sid st)"
    using fault.run_inv [OF noFaults_inv] by (metis fault_inv_def)
  obtain st' where "failoverLoop (fc_maxFailoverAttempts cfg) sid operation now None st w = (r, st', w')"
    "availableTargets sid st' = drop (length failed) (availableTargets sid st)"
    using failoverLoop_refines [OF ok assms(3)] by blast
  then show ?thesis
    using assms(2) ok by (auto simp: executeWithFailover_def availableTargets_sorted split: sum.splits option.splits)
qed

definition ex_send :: "string \<Rightarrow> nat \<Rightarrow> nat result \<times> nat" where
  "ex_send t w = (if t = ''backup'' then (Inr 7, w + 2) else (Inl (JsError ''down''), w + 2))"

theorem failover_tries_targets_by_priority_witness:
  "\<exists>st st'. availableTargets ''mail'' st = [''main'', ''backup''] \<and>
     executeWithFailover DEFAULT_FAULT_TOLERANCE ''mail'' ex_send None 30 st 0 = (Inr 7, st', 4) \<and>
     availableTargets ''mail'' st' = [''backup'']"
proof -
  let ?cs = "[CallRegister ''mail'' ''backup'' 2 10, CallRegister ''mail'' ''main'' 1 20]"
  let ?st = "fold (faultCall DEFAULT_FAULT_TOLERANCE) ?cs noFaults"
  have a: "availableTargets ''mail'' ?st = [''main'', ''backup'']"
    by (simp add: noFaults_def registerFailoverTarget_def setTargets_def targetsOf_def availableTargets_def)
  have t: "tryTargets ex_send (take (fc_maxFailoverAttempts DEFAULT_FAULT_TOLERANCE) (availableTargets ''mail'' ?st)) None 0 =
      (Inr 7, [''main''], 4)"
    unfolding a by (simp add: DEFAULT_FAULT_TOLERANCE_def ex_send_def)
  have "fc_enableFailover DEFAULT_FAULT_TOLERANCE" by (simp add: DEFAULT_FAULT_TOLERANCE_def)
  from failover_tries_targets_by_priority [OF refl this t, of 30]
  obtain st' where "executeWithFailover DEFAULT_FAULT_TOLERANCE ''mail'' ex_send None 30 ?st 0 = (Inr 7, st', 4)"
    "availableTargets ''mail'' st' = drop (length [''main'']) (availableTargets ''mail'' ?st)"
    by auto
  then show ?thesis
    unfolding a using a by (intro exI conjI) (assumption, assumption, simp)
qed

section \<open>Dead letters are kept\<close>

text \<open>
  C33. A dead letter is never lost by its recovery, wherever the recovery stops: it is deleted only
  after its job, with the data, attempts and priority of the dead letter, has been put back on the
  queue it came from; otherwise it stays, and so does every other dead letter.
\<close>

theorem recovery_never_loses_a_dead_letter:
  assumes "getDLQItem q jobId st = Some item" and "recoverJob accepts deletes q jobId st = (ok, st')"
  shows "(ok \<longrightarrow> getDLQItem q jobId st' = None) \<and> (\<not> ok \<longrightarrow> getDLQItem q jobId st' = Some item) \<and>
    dq_added st' = dq_added st @
      (if q \<noteq> ALERTS \<and> accepts then [(q, dl_jobData item, dl_maxAttempts item, dl_priority item)] else []) \<and>
    (ok \<longleftrightarrow> q \<noteq> ALERTS \<and> accepts \<and> deletes) \<and>
    (\<forall>k. k \<noteq> (q, jobId) \<longrightarrow> map_of (dq_entries st') k = map_of (dq_entries st) k)"
  using assms
  by (cases q) (auto simp: getDLQItem_def recoverJob_def Let_def delete_conv' split: option.splits if_splits)

definition ex_job :: bull_job where
  "ex_job = \<lparr>bj_id = 5, bj_data = ''{}'', bj_attemptsMade = 3, bj_attempts = None, bj_priority = Some 2\<rparr>"

definition ex_dlq :: dlq_state where
  "ex_dlq = snd (addToDLQ ex_job ''timeout'' MAX_RETRIES_EXCEEDED EMAILS 900
     \<lparr>dq_config = DEFAULT_DLQ_CONFIG, dq_listeners = [], dq_notes = [], dq_entries = [], dq_added = []\<rparr>)"

theorem recovery_never_loses_a_dead_letter_witness:
  "dq_added (snd (recoverJob True False EMAILS 5 ex_dlq)) = [(EMAILS, ''{}'', 3, Some 2)] \<and>
   getDLQItem EMAILS 5 (snd (recoverJob True False EMAILS 5 ex_dlq)) = getDLQItem EMAILS 5 ex_dlq"
proof -
  have entries: "dq_entries ex_dlq = [((EMAILS, 5), Some (dlqItem ex_job ''timeout'' MAX_RETRIES_EXCEEDED EMAILS 900))]"
    and added: "dq_added ex_dlq = []"
    by (simp_all add: ex_dlq_def addToDLQ_def Let_def notifyDLQListeners_def alertAdministrators_def dlqItem_def ex_job_def)
  then have item: "getDLQItem EMAILS 5 ex_dlq = Some (dlqItem ex_job ''timeout'' MAX_RETRIES_EXCEEDED EMAILS 900)"
    by (simp add: getDLQItem_def)
  then show ?thesis
    using recovery_never_loses_a_dead_letter [OF item, of True False] added
    by (cases "recoverJob True False EMAILS 5 ex_dlq") (auto simp: dlqItem_def ex_job_def)
qed

lemma dead_letter_roundtrip:
  assumes "addToDLQ job e reason q now st = (item, st')"
  shows "getDLQItem q (bj_id job) st' = Some item \<and> item = dlqItem job e reason q now"
  using assms
  by (auto simp: addToDLQ_def Let_def getDLQItem_def notifyDLQListeners_def alertAdministrators_def update_conv'
      dlqItem_def split: if_splits)

text \<open>A limit keeps the newest dead letters, although the list runs from the oldest.\<close>

lemma getDLQItems_newest:
  assumes "x \<in> set (getDLQItems q (Some n) st)" and "y \<in> set (getDLQItems q None st) - set (getDLQItems q (Some n) st)"
  shows "dl_failedAt y \<le> dl_failedAt x"
proof -
  let ?xs = "getDLQItems q None st"
  have n: "n \<noteq> 0" using assms by (auto simp: getDLQItems_def Let_def split: if_splits)
  then have drop: "getDLQItems q (Some n) st = drop (length ?xs - n) ?xs"
    by (simp add: getDLQItems_def Let_def)
  have "sorted (map dl_failedAt ?xs)" by (simp add: getDLQItems_def Let_def)
  then have "sorted (map dl_failedAt (take (length ?xs - n) ?xs @ drop (length ?xs - n) ?xs))" by simp
  then have "\<forall>a\<in>set (take (length ?xs - n) ?xs). \<forall>b\<in>set (drop (length ?xs - n) ?xs). dl_failedAt a \<le> dl_failedAt b"
    unfolding map_append sorted_append by simp
  moreover have "y \<in> set (take (length ?xs - n) ?xs)"
    using assms(2) unfolding drop by (metis Diff_iff Un_iff append_take_drop_id set_append)
  ultimately show ?thesis using assms(1) unfolding drop by blast
qed

end
