(* ===== verification/WorkerPool.thy ===== *)
theory WorkerPool
  imports FaultTolerance
begin

text \<open>
  The workers of the queues: the pool of \<open>queue/queue-worker-manager.service.ts\<close>, the load balancer of
  \<open>queue/queue-load-balancer.service.ts\<close>, the automatic scaling of
  \<open>queue/dynamic-scaling.service.ts\<close> and the retries of \<open>queue/scheduler-failover.service.ts\<close>.

  What Bull reports of a queue (job counts, completed and failed jobs, whether a retry is accepted) is
  an argument, and so is the random number of the weighted choice. Loads, capacities and metrics are
  reals. A capacity is never zero, the route that registers a worker puts 10 in its place, and the
  scale-up threshold of the configuration is positive. The reason texts of decisions and events are
  constructors that hold the values of the text.
\<close>

section \<open>Data\<close>

datatype worker_status = WActive | WIdle | WBusy | WUnhealthy | WOffline

record WorkerMetrics =
  wm_jobsProcessed :: real
  wm_jobsFailed :: real
  wm_averageProcessingTimeMs :: real
  wm_cpuUsagePercent :: real
  wm_memoryUsagePercent :: real
  wm_uptimeMs :: real

record WorkerNode =
  wn_workerId :: string
  wn_hostname :: string
  wn_pid :: nat
  wn_status :: worker_status
  wn_capacity :: real
  wn_currentLoad :: real
  wn_lastHeartbeat :: timestamp
  wn_metrics :: WorkerMetrics

datatype scaling_direction = Up | Down

datatype scaling_reason =
    AutoScaledUp int
  | AutoScaledDown int
  | UpCooldownActive
  | DownCooldownActive
  | DepthExceeds nat nat
  | DepthBelow nat nat
  | ProcessingTimeExceeds real real
  | FailureRateExceeds real
  | NoScalingNeeded

record ScalingEvent =
  se_timestamp :: timestamp
  se_type :: scaling_direction
  se_queueName :: string
  se_previousWorkers :: int
  se_newWorkers :: int
  se_reason :: scaling_reason
  se_queueDepth :: nat
  se_processingTimeMs :: real
  se_failureRate :: real

record pool_config =
  pc_minWorkers :: int
  pc_maxWorkers :: int
  pc_scaleUpThreshold :: nat
  pc_scaleDownThreshold :: nat
  pc_scaleUpStep :: int
  pc_scaleDownStep :: int
  pc_cooldownPeriodMs :: int
  pc_enabled :: bool
  pc_metricsWindowMs :: int
  pc_scaleUpCooldownMs :: int
  pc_scaleDownCooldownMs :: int
  pc_queueDepthThreshold :: nat
  pc_processingTimeThresholdMs :: real
  pc_failureRateWarning :: real
  pc_healthCheckIntervalMs :: int

definition DEFAULT_POOL_CONFIG :: pool_config where
  "DEFAULT_POOL_CONFIG = \<lparr>pc_minWorkers = 2, pc_maxWorkers = 100, pc_scaleUpThreshold = 1000,
     pc_scaleDownThreshold = 100, pc_scaleUpStep = 5, pc_scaleDownStep = 2, pc_cooldownPeriodMs = 30000,
     pc_enabled = True, pc_metricsWindowMs = 60000, pc_scaleUpCooldownMs = 60000, pc_scaleDownCooldownMs = 300000,
     pc_queueDepthThreshold = 5000, pc_processingTimeThresholdMs = 5000, pc_failureRateWarning = 5,
     pc_healthCheckIntervalMs = 5000\<rparr>"

datatype pool_note =
    WorkerRegistered WorkerNode
  | WorkerUnregistered WorkerNode
  | WorkerUnhealthy WorkerNode
  | AutoScaleCheck timestamp "WorkerNode list"
  | QueueScaled ScalingEvent
  | QueueRebalanced "(string \<times> int) list" nat

record worker_pool =
  wp_config :: pool_config
  wp_workers :: "WorkerNode list"
  wp_scalingHistory :: "ScalingEvent list"
  wp_lastScaleUpTime :: "(string \<times> timestamp) list"
  wp_lastScaleDownTime :: "(string \<times> timestamp) list"
  wp_workerIdCounter :: nat
  wp_notes :: "pool_note list"

section \<open>Workers\<close>

definition poolNote :: "pool_note \<Rightarrow> worker_pool \<Rightarrow> worker_pool" where
  "poolNote e p = p\<lparr>wp_notes := wp_notes p @ [e]\<rparr>"

definition newMetrics :: WorkerMetrics where
  "newMetrics = \<lparr>wm_jobsProcessed = 0, wm_jobsFailed = 0, wm_averageProcessingTimeMs = 0, wm_cpuUsagePercent = 0,
     wm_memoryUsagePercent = 0, wm_uptimeMs = 0\<rparr>"

definition workerIdText :: "string \<Rightarrow> nat \<Rightarrow> nat \<Rightarrow> string" where
  "workerIdText hostname pid n = ''worker-'' @ hostname @ ''-'' @ natText pid @ ''-'' @ natText n"

definition registerWorker ::
  "string \<Rightarrow> nat \<Rightarrow> real \<Rightarrow> timestamp \<Rightarrow> worker_pool \<Rightarrow> WorkerNode \<times> worker_pool" where
  "registerWorker hostname pid capacity now p =
     (let n = wp_workerIdCounter p + 1;
          worker = \<lparr>wn_workerId = workerIdText hostname pid n, wn_hostname = hostname, wn_pid = pid,
            wn_status = WActive, wn_capacity = capacity, wn_currentLoad = 0, wn_lastHeartbeat = now,
            wn_metrics = newMetrics\<rparr>
      in (worker, poolNote (WorkerRegistered worker)
            (p\<lparr>wp_workers := save_row wn_workerId worker (wp_workers p), wp_workerIdCounter := n\<rparr>)))"

definition getWorker :: "string \<Rightarrow> worker_pool \<Rightarrow> WorkerNode option" where
  "getWorker workerId p = row_of wn_workerId workerId (wp_workers p)"

definition unregisterWorker :: "string \<Rightarrow> worker_pool \<Rightarrow> bool \<times> worker_pool" where
  "unregisterWorker workerId p =
     (case getWorker workerId p of
        None \<Rightarrow> (False, p)
      | Some worker \<Rightarrow>
          (True, poolNote (WorkerUnregistered (worker\<lparr>wn_status := WOffline\<rparr>))
             (p\<lparr>wp_workers := filter (\<lambda>w. wn_workerId w \<noteq> workerId) (wp_workers p)\<rparr>)))"

definition saveWorker :: "WorkerNode \<Rightarrow> worker_pool \<Rightarrow> worker_pool" where
  "saveWorker w p = p\<lparr>wp_workers := save_row wn_workerId w (wp_workers p)\<rparr>"

text \<open>\<open>metrics\<close> overwrites the fields a partial metrics object has.\<close>

definition updateWorkerHeartbeat ::
  "string \<Rightarrow> (WorkerMetrics \<Rightarrow> WorkerMetrics) \<Rightarrow> timestamp \<Rightarrow> worker_pool \<Rightarrow> bool \<times> worker_pool" where
  "updateWorkerHeartbeat workerId metrics now p =
     (case getWorker workerId p of
        None \<Rightarrow> (False, p)
      | Some w \<Rightarrow> (True, saveWorker (w\<lparr>wn_lastHeartbeat := now, wn_metrics := metrics (wn_metrics w)\<rparr>) p))"

definition statusForLoad :: "real \<Rightarrow> real \<Rightarrow> worker_status" where
  "statusForLoad currentLoad capacity =
     (if currentLoad \<ge> capacity then WBusy else if currentLoad > 0 then WActive else WIdle)"

definition updateWorkerLoad :: "string \<Rightarrow> real \<Rightarrow> worker_pool \<Rightarrow> bool \<times> worker_pool" where
  "updateWorkerLoad workerId currentLoad p =
     (case getWorker workerId p of
        None \<Rightarrow> (False, p)
      | Some w \<Rightarrow> (True, saveWorker (w\<lparr>wn_currentLoad := currentLoad,
                      wn_status := statusForLoad currentLoad (wn_capacity w)\<rparr>) p))"

definition isAvailable :: "WorkerNode \<Rightarrow> bool" where
  "isAvailable w \<longleftrightarrow> wn_status w = WActive \<or> wn_status w = WIdle"

definition getAvailableWorker :: "worker_pool \<Rightarrow> WorkerNode option" where
  "getAvailableWorker p =
     (case sort_key wn_currentLoad (filter isAvailable (wp_workers p)) of [] \<Rightarrow> None | w # _ \<Rightarrow> Some w)"

definition countsAsActive :: "WorkerNode \<Rightarrow> bool" where
  "countsAsActive w \<longleftrightarrow> wn_status w = WActive \<or> wn_status w = WIdle \<or> wn_status w = WBusy"

definition getActiveWorkersCount :: "worker_pool \<Rightarrow> nat" where
  "getActiveWorkersCount p = length (filter countsAsActive (wp_workers p))"

definition checkWorkerHealth :: "timestamp \<Rightarrow> worker_pool \<Rightarrow> worker_pool" where
  "checkWorkerHealth now p =
     (let silent = (\<lambda>w. now - wn_lastHeartbeat w > 30000 \<and> wn_status w \<noteq> WOffline);
          mark = (\<lambda>w. w\<lparr>wn_status := WUnhealthy\<rparr>)
      in p\<lparr>wp_workers := map (\<lambda>w. if silent w then mark w else w) (wp_workers p),
           wp_notes := wp_notes p @ map (\<lambda>w. WorkerUnhealthy (mark w)) (filter silent (wp_workers p))\<rparr>)"

section \<open>Scaling\<close>

definition inCooldown :: "timestamp \<Rightarrow> (string \<times> timestamp) list \<Rightarrow> string \<Rightarrow> int \<Rightarrow> bool" where
  "inCooldown now stamps queueName ms =
     (case map_of stamps queueName of None \<Rightarrow> False | Some t \<Rightarrow> now - t < ms)"

definition checkScalingNeeded ::
  "nat \<Rightarrow> nat \<Rightarrow> string \<Rightarrow> timestamp \<Rightarrow> worker_pool \<Rightarrow> bool \<times> scaling_direction option \<times> scaling_reason" where
  "checkScalingNeeded waitingJobs activeJobs queueName now p =
     (let cfg = wp_config p; currentWorkers = int (getActiveWorkersCount p)
      in if inCooldown now (wp_lastScaleUpTime p) queueName (pc_cooldownPeriodMs cfg)
         then (False, None, UpCooldownActive)
         else if inCooldown now (wp_lastScaleDownTime p) queueName (pc_cooldownPeriodMs cfg)
         then (False, None, DownCooldownActive)
         else if waitingJobs > pc_scaleUpThreshold cfg \<and> currentWorkers < pc_maxWorkers cfg
         then (True, Some Up, DepthExceeds waitingJobs (pc_scaleUpThreshold cfg))
         else if waitingJobs < pc_scaleDownThreshold cfg \<and> activeJobs < pc_scaleDownThreshold cfg \<and>
                 currentWorkers > pc_minWorkers cfg
         then (True, Some Down, DepthBelow waitingJobs (pc_scaleDownThreshold cfg))
         else (False, None, NoScalingNeeded))"

fun registerMany :: "nat \<Rightarrow> string \<Rightarrow> nat \<Rightarrow> timestamp \<Rightarrow> worker_pool \<Rightarrow> worker_pool" where
  "registerMany 0 hostname pid now p = p"
| "registerMany (Suc n) hostname pid now p = registerMany n hostname pid now (snd (registerWorker hostname pid 10 now p))"

definition scalingEvent ::
  "timestamp \<Rightarrow> scaling_direction \<Rightarrow> string \<Rightarrow> int \<Rightarrow> int \<Rightarrow> scaling_reason \<Rightarrow> ScalingEvent" where
  "scalingEvent now d queueName previous new reason =
     \<lparr>se_timestamp = now, se_type = d, se_queueName = queueName, se_previousWorkers = previous,
      se_newWorkers = new, se_reason = reason, se_queueDepth = 0, se_processingTimeMs = 0, se_failureRate = 0\<rparr>"

definition scaleUp :: "string \<Rightarrow> int \<Rightarrow> nat \<Rightarrow> timestamp \<Rightarrow> worker_pool \<Rightarrow> ScalingEvent \<times> worker_pool" where
  "scaleUp queueName n pid now p =
     (let currentWorkers = int (getActiveWorkersCount p);
          newWorkers = min (currentWorkers + n) (pc_maxWorkers (wp_config p));
          actualAdded = newWorkers - currentWorkers;
          p1 = registerMany (nat actualAdded) (''auto-'' @ queueName) pid now p;
          event = scalingEvent now Up queueName currentWorkers newWorkers (AutoScaledUp actualAdded)
      in (event, poolNote (QueueScaled event)
            (p1\<lparr>wp_scalingHistory := wp_scalingHistory p1 @ [event],
                wp_lastScaleUpTime := AList.update queueName now (wp_lastScaleUpTime p1)\<rparr>)))"

definition scaleDown :: "string \<Rightarrow> int \<Rightarrow> timestamp \<Rightarrow> worker_pool \<Rightarrow> ScalingEvent \<times> worker_pool" where
  "scaleDown queueName n now p =
     (let currentWorkers = int (getActiveWorkersCount p);
          newWorkers = max (currentWorkers - n) (pc_minWorkers (wp_config p));
          actualRemoved = currentWorkers - newWorkers;
          idle = filter (\<lambda>w. wn_status w = WIdle) (wp_workers p);
          idleWorkers = (if 0 \<le> actualRemoved then take (nat actualRemoved) idle
                         else take (nat (int (length idle) + actualRemoved)) idle);
          p1 = fold (\<lambda>w p. snd (unregisterWorker (wn_workerId w) p)) idleWorkers p;
          event = scalingEvent now Down queueName currentWorkers newWorkers (AutoScaledDown actualRemoved)
      in (event, poolNote (QueueScaled event)
            (p1\<lparr>wp_scalingHistory := wp_scalingHistory p1 @ [event],
                wp_lastScaleDownTime := AList.update queueName now (wp_lastScaleDownTime p1)\<rparr>)))"

text \<open>
  \<open>slice(0, n)\<close> with a negative \<open>n\<close> counts from the end. That happens when the pool is below its
  minimum already.
\<close>

definition autoScale :: "timestamp \<Rightarrow> worker_pool \<Rightarrow> worker_pool" where
  "autoScale now p = (if pc_enabled (wp_config p) then poolNote (AutoScaleCheck now (wp_workers p)) p else p)"

definition lastN :: "nat \<Rightarrow> 'a list \<Rightarrow> 'a list" where
  "lastN n xs = (if n = 0 then xs else drop (length xs - n) xs)"

definition getScalingHistory :: "nat \<Rightarrow> worker_pool \<Rightarrow> ScalingEvent list" where
  "getScalingHistory n p = lastN n (wp_scalingHistory p)"

record worker_stats =
  ws_total :: nat
  ws_active :: nat
  ws_idle :: nat
  ws_busy :: nat
  ws_unhealthy :: nat
  ws_offline :: nat
  ws_totalCapacity :: real
  ws_totalLoad :: real
  ws_averageLoadPercent :: real

definition getWorkerStats :: "worker_pool \<Rightarrow> worker_stats" where
  "getWorkerStats p =
     (let workers = wp_workers p;
          having = (\<lambda>s. length (filter (\<lambda>w. wn_status w = s) workers));
          capacity = sum_list (map wn_capacity workers); load = sum_list (map wn_currentLoad workers)
      in \<lparr>ws_total = length workers, ws_active = having WActive, ws_idle = having WIdle, ws_busy = having WBusy,
          ws_unhealthy = having WUnhealthy, ws_offline = having WOffline, ws_totalCapacity = capacity,
          ws_totalLoad = load, ws_averageLoadPercent = (if capacity > 0 then load / capacity * 100 else 0)\<rparr>)"

text \<open>\<open>Math.round\<close> of a number that is not negative.\<close>

definition mathRound :: "real \<Rightarrow> int" where
  "mathRound x = \<lfloor>x + 1 / 2\<rfloor>"

definition rebalanceWorkers :: "(string \<times> nat) list \<Rightarrow> worker_pool \<Rightarrow> worker_pool" where
  "rebalanceWorkers queues p =
     (let totalWaiting = sum_list (map snd queues); totalWorkers = getActiveWorkersCount p
      in if totalWaiting = 0 then p
         else poolNote (QueueRebalanced
                (map (\<lambda>(q, waiting). (q, max 1 (mathRound (real totalWorkers * (real waiting / real totalWaiting))))) queues)
                totalWorkers) p)"

section \<open>Load balancing\<close>

datatype LoadBalancingStrategy = ROUND_ROBIN | LEAST_CONNECTIONS | WEIGHTED | ADAPTIVE

record balancer =
  lb_strategy :: LoadBalancingStrategy
  lb_roundRobinIndex :: nat
  lb_workerWeights :: "(string \<times> real) list"
  lb_workerConnections :: "(string \<times> nat) list"

text \<open>\<open>get(workerId) || 1\<close>: a weight of zero counts as one.\<close>

definition getWorkerWeight :: "string \<Rightarrow> balancer \<Rightarrow> real" where
  "getWorkerWeight workerId b =
     (case map_of (lb_workerWeights b) workerId of None \<Rightarrow> 1 | Some x \<Rightarrow> if x = 0 then 1 else x)"

definition getConnectionCount :: "string \<Rightarrow> balancer \<Rightarrow> nat" where
  "getConnectionCount workerId b = (case map_of (lb_workerConnections b) workerId of None \<Rightarrow> 0 | Some n \<Rightarrow> n)"

definition roundRobinSelect :: "WorkerNode list \<Rightarrow> balancer \<Rightarrow> WorkerNode \<times> balancer" where
  "roundRobinSelect workers b =
     (workers ! (lb_roundRobinIndex b mod length workers),
      b\<lparr>lb_roundRobinIndex := (lb_roundRobinIndex b + 1) mod length workers\<rparr>)"

definition leastConnectionsSelect :: "WorkerNode list \<Rightarrow> balancer \<Rightarrow> WorkerNode" where
  "leastConnectionsSelect workers b =
     fold (\<lambda>worker best. if getConnectionCount (wn_workerId worker) b < getConnectionCount (wn_workerId best) b
             then worker else best) (tl workers) (hd workers)"

fun weightedPick :: "(WorkerNode \<times> real) list \<Rightarrow> real \<Rightarrow> WorkerNode option" where
  "weightedPick [] random = None"
| "weightedPick ((worker, weight) # ws) random =
     (if random - weight \<le> 0 then Some worker else weightedPick ws (random - weight))"

definition weightedSelect :: "real \<Rightarrow> WorkerNode list \<Rightarrow> balancer \<Rightarrow> WorkerNode" where
  "weightedSelect random workers b =
     (let weightedWorkers = map (\<lambda>w. (w, (wn_capacity w - wn_currentLoad w) * getWorkerWeight (wn_workerId w) b)) workers;
          totalWeight = sum_list (map snd weightedWorkers)
      in case weightedPick weightedWorkers (random * totalWeight) of None \<Rightarrow> hd workers | Some w \<Rightarrow> w)"

definition adaptiveScore :: "WorkerNode \<Rightarrow> real" where
  "adaptiveScore w =
     (let m = wn_metrics w; totalJobs = wm_jobsProcessed m + wm_jobsFailed m;
          resourceUsage = (wm_cpuUsagePercent m + wm_memoryUsagePercent m) / 2
      in (wn_capacity w - wn_currentLoad w) / wn_capacity w * 40 +
         (if wm_averageProcessingTimeMs m > 0 then max 0 (20 - wm_averageProcessingTimeMs m / 1000) else 0) +
         (if totalJobs > 0 then wm_jobsProcessed m / totalJobs * 30 else 0) +
         max 0 (10 - resourceUsage / 10))"

definition adaptiveSelect :: "WorkerNode list \<Rightarrow> WorkerNode" where
  "adaptiveSelect workers = hd (sort_key (\<lambda>w. - adaptiveScore w) workers)"

definition selectWorker :: "real \<Rightarrow> WorkerNode list \<Rightarrow> balancer \<Rightarrow> WorkerNode option \<times> balancer" where
  "selectWorker random workers b =
     (let availableWorkers = filter isAvailable workers
      in if availableWorkers = [] then (None, b)
         else case lb_strategy b of
                ROUND_ROBIN \<Rightarrow> (case roundRobinSelect availableWorkers b of (w, b') \<Rightarrow> (Some w, b'))
              | LEAST_CONNECTIONS \<Rightarrow> (Some (leastConnectionsSelect availableWorkers b), b)
              | WEIGHTED \<Rightarrow> (Some (weightedSelect random availableWorkers b), b)
              | ADAPTIVE \<Rightarrow> (Some (adaptiveSelect availableWorkers), b))"

definition recordConnection :: "string \<Rightarrow> balancer \<Rightarrow> balancer" where
  "recordConnection workerId b =
     b\<lparr>lb_workerConnections := AList.update workerId (getConnectionCount workerId b + 1) (lb_workerConnections b)\<rparr>"

definition releaseConnection :: "string \<Rightarrow> balancer \<Rightarrow> balancer" where
  "releaseConnection workerId b =
     b\<lparr>lb_workerConnections := AList.update workerId (getConnectionCount workerId b - 1) (lb_workerConnections b)\<rparr>"

definition setWorkerWeight :: "string \<Rightarrow> real \<Rightarrow> balancer \<Rightarrow> balancer" where
  "setWorkerWeight workerId weight b = b\<lparr>lb_workerWeights := AList.update workerId weight (lb_workerWeights b)\<rparr>"

definition resetConnectionCounts :: "balancer \<Rightarrow> balancer" where
  "resetConnectionCounts b = b\<lparr>lb_workerConnections := []\<rparr>"

definition setStrategy :: "LoadBalancingStrategy \<Rightarrow> balancer \<Rightarrow> balancer" where
  "setStrategy strategy b = b\<lparr>lb_strategy := strategy\<rparr>"

definition balancerHealthCheck :: "pool_config \<Rightarrow> timestamp \<Rightarrow> WorkerNode list \<Rightarrow> (string \<times> bool) list" where
  "balancerHealthCheck cfg now workers =
     fold (\<lambda>w. AList.update (wn_workerId w) (now - wn_lastHeartbeat w < pc_healthCheckIntervalMs cfg * 2)) workers []"

definition totalConnections :: "balancer \<Rightarrow> nat" where
  "totalConnections b = sum_list (map snd (lb_workerConnections b))"

section \<open>Automatic scaling\<close>

record QueueMetrics =
  qm_queueName :: string
  qm_waitingJobs :: nat
  qm_activeJobs :: nat
  qm_completedJobs :: nat
  qm_failedJobs :: nat
  qm_averageProcessingTimeMs :: real
  qm_failureRate :: real
  qm_throughputPerMinute :: real
  qm_timestamp :: timestamp

record ScalingDecision =
  sd_shouldScale :: bool
  sd_direction :: "scaling_direction option"
  sd_reason :: "scaling_reason list"
  sd_currentMetrics :: QueueMetrics
  sd_targetWorkers :: int
  sd_confidence :: nat

text \<open>What Bull reports of a queue: the counts, and when the last completed jobs were finished and started.\<close>

record queue_report =
  qr_waiting :: nat
  qr_active :: nat
  qr_completed :: nat
  qr_failed :: nat
  qr_jobs :: "(timestamp option \<times> timestamp option) list"

record scaler =
  ds_config :: pool_config
  ds_metricsHistory :: "(string \<times> QueueMetrics list) list"
  ds_lastScalingDecision :: "(string \<times> ScalingDecision) list"
  ds_queues :: "string list"
  ds_pool :: worker_pool

definition registerQueue :: "string \<Rightarrow> scaler \<Rightarrow> scaler" where
  "registerQueue q s = s\<lparr>ds_queues := (if q \<in> set (ds_queues s) then ds_queues s else ds_queues s @ [q]),
     ds_metricsHistory := AList.update q [] (ds_metricsHistory s)\<rparr>"

definition unregisterQueue :: "string \<Rightarrow> scaler \<Rightarrow> scaler" where
  "unregisterQueue q s = s\<lparr>ds_queues := filter (\<lambda>x. x \<noteq> q) (ds_queues s),
     ds_metricsHistory := AList.delete q (ds_metricsHistory s),
     ds_lastScalingDecision := AList.delete q (ds_lastScalingDecision s)\<rparr>"

definition historyOf :: "string \<Rightarrow> scaler \<Rightarrow> QueueMetrics list" where
  "historyOf q s = (case map_of (ds_metricsHistory s) q of None \<Rightarrow> [] | Some h \<Rightarrow> h)"

text \<open>\<open>job.finishedOn && job.processedOn\<close>: the time 0 counts as missing.\<close>

definition processingTimes :: "(timestamp option \<times> timestamp option) list \<Rightarrow> real list" where
  "processingTimes jobs = List.map_filter (\<lambda>j. case j of
       (Some f, Some p) \<Rightarrow> if f \<noteq> 0 \<and> p \<noteq> 0 then Some (real_of_int (f - p)) else None
     | _ \<Rightarrow> None) (take 50 jobs)"

definition throughput :: "QueueMetrics list \<Rightarrow> real" where
  "throughput history =
     (if length history \<ge> 2
      then let oldest = hd history; newest = List.last history;
               timeDiffMinutes = real_of_int (qm_timestamp newest - qm_timestamp oldest) / 60000
           in if timeDiffMinutes > 0
              then (real (qm_completedJobs newest) - real (qm_completedJobs oldest)) / timeDiffMinutes else 0
      else 0)"

definition collectMetrics :: "string \<Rightarrow> queue_report option \<Rightarrow> timestamp \<Rightarrow> scaler \<Rightarrow> QueueMetrics option \<times> scaler" where
  "collectMetrics q report now s =
     (if q \<notin> set (ds_queues s) then (None, s)
      else case report of
        None \<Rightarrow> (None, s)
      | Some r \<Rightarrow>
          let times1 = processingTimes (qr_jobs r);
              totalProcessed = qr_completed r + qr_failed r;
              metrics = \<lparr>qm_queueName = q, qm_waitingJobs = qr_waiting r, qm_activeJobs = qr_active r,
                qm_completedJobs = qr_completed r, qm_failedJobs = qr_failed r,
                qm_averageProcessingTimeMs = (if times1 = [] then 0 else sum_list times1 / real (length times1)),
                qm_failureRate = (if totalProcessed > 0 then real (qr_failed r) / real totalProcessed * 100 else 0),
                qm_throughputPerMinute = throughput (historyOf q s), qm_timestamp = now\<rparr>;
              recent = filter (\<lambda>m. qm_timestamp m > now - pc_metricsWindowMs (ds_config s)) (historyOf q s @ [metrics])
          in (Some metrics, s\<lparr>ds_metricsHistory := AList.update q recent (ds_metricsHistory s)\<rparr>))"

definition upReasons :: "pool_config \<Rightarrow> QueueMetrics \<Rightarrow> (scaling_reason \<times> nat) list" where
  "upReasons cfg m =
     (if qm_waitingJobs m > pc_queueDepthThreshold cfg
      then [(DepthExceeds (qm_waitingJobs m) (pc_queueDepthThreshold cfg), 30)] else []) @
     (if qm_averageProcessingTimeMs m > pc_processingTimeThresholdMs cfg
      then [(ProcessingTimeExceeds (qm_averageProcessingTimeMs m) (pc_processingTimeThresholdMs cfg), 25)] else []) @
     (if qm_failureRate m > pc_failureRateWarning cfg then [(FailureRateExceeds (qm_failureRate m), 20)] else [])"

definition downReasons :: "pool_config \<Rightarrow> QueueMetrics \<Rightarrow> int \<Rightarrow> (scaling_reason \<times> nat) list" where
  "downReasons cfg m currentWorkers =
     (if qm_waitingJobs m < pc_scaleDownThreshold cfg \<and> qm_activeJobs m < pc_scaleDownThreshold cfg \<and>
         currentWorkers > pc_minWorkers cfg
      then [(DepthBelow (qm_waitingJobs m) (pc_scaleDownThreshold cfg), 40)] else [])"

definition makeScalingDecision :: "QueueMetrics \<Rightarrow> scaler \<Rightarrow> ScalingDecision" where
  "makeScalingDecision m s =
     (let cfg = ds_config s; currentWorkers = int (getActiveWorkersCount (ds_pool s));
          up = upReasons cfg m; down = downReasons cfg m currentWorkers; reasons = up @ down;
          direction = (if down \<noteq> [] then Some Down else if up \<noteq> [] then Some Up else None);
          targetWorkers =
            (case direction of
               None \<Rightarrow> currentWorkers
             | Some Up \<Rightarrow> min (currentWorkers +
                 \<lceil>real (qm_waitingJobs m) / real (pc_scaleUpThreshold cfg)\<rceil> * pc_scaleUpStep cfg) (pc_maxWorkers cfg)
             | Some Down \<Rightarrow> max (currentWorkers - pc_scaleDownStep cfg) (pc_minWorkers cfg))
      in \<lparr>sd_shouldScale = (reasons \<noteq> []), sd_direction = direction,
          sd_reason = (if reasons = [] then [NoScalingNeeded] else map fst reasons),
          sd_currentMetrics = m, sd_targetWorkers = targetWorkers,
          sd_confidence = min (sum_list (map snd reasons)) 100\<rparr>)"

text \<open>The metrics go into the event object that the history of the pool holds too.\<close>

definition amendLast :: "ScalingEvent \<Rightarrow> worker_pool \<Rightarrow> worker_pool" where
  "amendLast e p = p\<lparr>wp_scalingHistory := butlast (wp_scalingHistory p) @ [e]\<rparr>"

definition scalingCooldown :: "pool_config \<Rightarrow> scaling_direction \<Rightarrow> int" where
  "scalingCooldown cfg d = (case d of Up \<Rightarrow> pc_scaleUpCooldownMs cfg | Down \<Rightarrow> pc_scaleDownCooldownMs cfg)"

definition coolingDown :: "string \<Rightarrow> scaling_direction \<Rightarrow> timestamp \<Rightarrow> scaler \<Rightarrow> bool" where
  "coolingDown q d now s =
     (case map_of (ds_lastScalingDecision s) q of
        None \<Rightarrow> False
      | Some prev \<Rightarrow> sd_shouldScale prev \<and>
          now - qm_timestamp (sd_currentMetrics prev) < scalingCooldown (ds_config s) d)"

definition withMetrics :: "QueueMetrics \<Rightarrow> ScalingEvent \<Rightarrow> ScalingEvent" where
  "withMetrics m event = event\<lparr>se_queueDepth := qm_waitingJobs m,
     se_processingTimeMs := qm_averageProcessingTimeMs m, se_failureRate := qm_failureRate m\<rparr>"

definition performScaling :: "string \<Rightarrow> scaling_direction \<Rightarrow> int \<Rightarrow> nat \<Rightarrow> timestamp \<Rightarrow> worker_pool \<Rightarrow> ScalingEvent \<times> worker_pool" where
  "performScaling q d targetWorkers pid now p =
     (case d of Up \<Rightarrow> scaleUp q (targetWorkers - int (getActiveWorkersCount p)) pid now p
              | Down \<Rightarrow> scaleDown q (int (getActiveWorkersCount p) - targetWorkers) now p)"

definition executeScalingDecision ::
  "string \<Rightarrow> ScalingDecision \<Rightarrow> nat \<Rightarrow> timestamp \<Rightarrow> scaler \<Rightarrow> ScalingEvent option \<times> scaler" where
  "executeScalingDecision q decision pid now s =
     (case sd_direction decision of
        None \<Rightarrow> (None, s)
      | Some d \<Rightarrow>
          if \<not> sd_shouldScale decision \<or> coolingDown q d now s then (None, s)
          else let scaled = performScaling q d (sd_targetWorkers decision) pid now (ds_pool s);
                   event = withMetrics (sd_currentMetrics decision) (fst scaled)
               in (Some event, s\<lparr>ds_pool := amendLast event (snd scaled),
                     ds_lastScalingDecision := AList.update q decision (ds_lastScalingDecision s)\<rparr>))"

definition autoScaleOne :: "(string \<Rightarrow> queue_report option) \<Rightarrow> nat \<Rightarrow> timestamp \<Rightarrow> string \<Rightarrow> scaler \<Rightarrow> scaler" where
  "autoScaleOne reports pid now q s =
     (case collectMetrics q (reports q) now s of
        (None, s1) \<Rightarrow> s1
      | (Some metrics, s1) \<Rightarrow>
          let decision = makeScalingDecision metrics s1
          in if sd_shouldScale decision then snd (executeScalingDecision q decision pid now s1) else s1)"

definition autoScaleAll :: "(string \<Rightarrow> queue_report option) \<Rightarrow> nat \<Rightarrow> timestamp \<Rightarrow> scaler \<Rightarrow> scaler" where
  "autoScaleAll reports pid now s =
     (if \<not> pc_enabled (ds_config s) then s else fold (autoScaleOne reports pid now) (ds_queues s) s)"

definition getMetricsHistory :: "string \<Rightarrow> nat \<Rightarrow> scaler \<Rightarrow> QueueMetrics list" where
  "getMetricsHistory q n s = lastN n (historyOf q s)"

record scaling_stats =
  st_totalQueues :: nat
  st_queuesWithScaling :: nat
  st_totalScaleUpEvents :: nat
  st_totalScaleDownEvents :: nat
  st_averageConfidence :: real

definition getScalingStats :: "scaler \<Rightarrow> scaling_stats" where
  "getScalingStats s =
     (let decisions = map snd (ds_lastScalingDecision s)
      in \<lparr>st_totalQueues = length (ds_queues s), st_queuesWithScaling = length decisions,
          st_totalScaleUpEvents = length (filter (\<lambda>d. sd_direction d = Some Up) decisions),
          st_totalScaleDownEvents = length (filter (\<lambda>d. sd_direction d = Some Down) decisions),
          st_averageConfidence = (if decisions = [] then 0
            else real (sum_list (map sd_confidence decisions)) / real (length decisions))\<rparr>)"

section \<open>Retries of failed jobs\<close>

record failed_job =
  fj_job :: bull_job
  fj_failedReason :: "string option"
  fj_finishedOn :: "timestamp option"

record failover_run =
  fr_retried :: "(QueueName \<times> uuid) list"
  fr_removed :: "(QueueName \<times> uuid) list"
  fr_dlq :: dlq_state

text \<open>\<open>job.opts.attempts || 3\<close>, and an empty reason counts as none.\<close>

definition canRetryJob :: "failed_job \<Rightarrow> bool" where
  "canRetryJob j \<longleftrightarrow>
     bj_attemptsMade (fj_job j) < (case bj_attempts (fj_job j) of None \<Rightarrow> 3 | Some n \<Rightarrow> if n = 0 then 3 else n) \<and>
     (case fj_failedReason j of
        None \<Rightarrow> True
      | Some r \<Rightarrow> \<not> list_ex (\<lambda>e. containsText e r) [''ValidationError'', ''AuthenticationError'', ''PermissionDenied''])"

text \<open>
  \<open>retries\<close> gives the error with which Bull refuses to retry a job, if it does. A refused job goes to
  the dead letter queue; writing to that store is taken to succeed.
\<close>

definition autoRetryOne ::
  "(uuid \<Rightarrow> string option) \<Rightarrow> QueueName \<Rightarrow> timestamp \<Rightarrow> failed_job \<Rightarrow> nat \<times> failover_run \<Rightarrow> nat \<times> failover_run" where
  "autoRetryOne retries q now j acc =
     (if \<not> canRetryJob j then acc
      else case retries (bj_id (fj_job j)) of
             None \<Rightarrow> (fst acc + 1, (snd acc)\<lparr>fr_retried := fr_retried (snd acc) @ [(q, bj_id (fj_job j))]\<rparr>)
           | Some e \<Rightarrow> (fst acc, (snd acc)\<lparr>fr_dlq := snd (addToDLQ (fj_job j) e NON_RETRYABLE_ERROR q now (fr_dlq (snd acc)))\<rparr>))"

definition autoRetryFailedJobs ::
  "(uuid \<Rightarrow> string option) \<Rightarrow> QueueName \<Rightarrow> failed_job list \<Rightarrow> timestamp \<Rightarrow> failover_run \<Rightarrow> nat \<times> failover_run" where
  "autoRetryFailedJobs retries q jobs now st = fold (autoRetryOne retries q now) jobs (0, st)"

definition healthCheckQueue ::
  "(uuid \<Rightarrow> string option) \<Rightarrow> timestamp \<Rightarrow> QueueName \<times> nat \<times> failed_job list \<Rightarrow> failover_run \<Rightarrow> failover_run" where
  "healthCheckQueue retries now entry st =
     (case entry of (q, failed, jobs) \<Rightarrow>
        if failed > 100 then snd (autoRetryFailedJobs retries q jobs now st) else st)"

definition cleanupOldFailedJobs :: "QueueName \<Rightarrow> failed_job list \<Rightarrow> timestamp \<Rightarrow> failover_run \<Rightarrow> failover_run" where
  "cleanupOldFailedJobs q jobs now st =
     st\<lparr>fr_removed := fr_removed st @ map (\<lambda>j. (q, bj_id (fj_job j)))
        (filter (\<lambda>j. case fj_finishedOn j of None \<Rightarrow> False | Some t \<Rightarrow> t \<noteq> 0 \<and> now - t > 7 * 24 * 60 * 60 * 1000) jobs)\<rparr>"

definition handleStalledJob ::
  "(uuid \<Rightarrow> string option) \<Rightarrow> QueueName \<Rightarrow> (bull_job \<times> nat option) option \<Rightarrow> timestamp \<Rightarrow> failover_run \<Rightarrow> failover_run" where
  "handleStalledJob retries q found now st =
     (case found of
        None \<Rightarrow> st
      | Some (job, maxStalled) \<Rightarrow>
          let maxStalledCount = (case maxStalled of None \<Rightarrow> 1 | Some n \<Rightarrow> if n = 0 then 1 else n)
          in if bj_attemptsMade job \<ge> maxStalledCount
             then st\<lparr>fr_dlq := snd (addToDLQ job ''Max stalled count exceeded'' STALLED q now (fr_dlq st))\<rparr>
             else case retries (bj_id job) of
                    None \<Rightarrow> st\<lparr>fr_retried := fr_retried st @ [(q, bj_id job)]\<rparr>
                  | Some _ \<Rightarrow> st)"

definition recoveryQueue :: "QueueName \<Rightarrow> QueueName" where
  "recoveryQueue q = (if q = NOTIFICATIONS then NOTIFICATIONS else REPORTS)"

definition recoverFailedJobs ::
  "(uuid \<Rightarrow> string option) \<Rightarrow> QueueName \<Rightarrow> (QueueName \<Rightarrow> failed_job list) \<Rightarrow> timestamp \<Rightarrow> failover_run \<Rightarrow> nat \<times> failover_run" where
  "recoverFailedJobs retries q failedJobs now st =
     autoRetryFailedJobs retries (recoveryQueue q) (failedJobs (recoveryQueue q)) now st"

section \<open>Worker ids\<close>

lemma natText_no_dash: "CHR ''-'' \<notin> set (natText n)"
  using natText_digits [of n] by (auto simp: list_all_iff isDigit_def)

lemma workerIdText_inject:
  assumes "workerIdText h p n = workerIdText h' p' n'"
  shows "n = n'"
proof -
  have up_to: "x \<notin> set xs \<Longrightarrow> takeWhile (\<lambda>c. c \<noteq> x) (xs @ x # ys) = xs" for x :: char and xs ys
    by (induction xs) auto
  have tail: "takeWhile (\<lambda>c. c \<noteq> CHR ''-'') (rev (workerIdText h p n)) = rev (natText n)" for h p n
    using up_to [of "CHR ''-''" "rev (natText n)"] natText_no_dash [of n] by (simp add: workerIdText_def)
  have "rev (natText n) = rev (natText n')"
    using assms tail by metis
  then show ?thesis by simp
qed

text \<open>Ids are unique: they end in a counter that only grows.\<close>

definition pool_inv :: "worker_pool \<Rightarrow> bool" where
  "pool_inv p \<longleftrightarrow> keyed wn_workerId (wp_workers p) \<and>
     (\<forall>w\<in>set (wp_workers p). \<exists>h pid n. wn_workerId w = workerIdText h pid n \<and> n \<le> wp_workerIdCounter p)"

lemma poolNote_simps [simp]:
  "wp_workers (poolNote e p) = wp_workers p" "wp_workerIdCounter (poolNote e p) = wp_workerIdCounter p"
  "wp_config (poolNote e p) = wp_config p" "wp_scalingHistory (poolNote e p) = wp_scalingHistory p"
  by (simp_all add: poolNote_def)

lemma new_worker_is_appended:
  assumes "pool_inv p"
  shows "wp_workers (snd (registerWorker h pid c now p)) = wp_workers p @ [fst (registerWorker h pid c now p)]"
proof -
  have "workerIdText h pid (wp_workerIdCounter p + 1) \<notin> wn_workerId ` set (wp_workers p)"
    using assms by (fastforce simp: pool_inv_def dest: workerIdText_inject)
  then show ?thesis
    by (auto simp: registerWorker_def Let_def save_row_def list_ex_iff image_iff)
qed

lemma registerWorker_simps [simp]:
  "wp_workerIdCounter (snd (registerWorker h pid c now p)) = Suc (wp_workerIdCounter p)"
  "wn_workerId (fst (registerWorker h pid c now p)) = workerIdText h pid (Suc (wp_workerIdCounter p))"
  "wn_status (fst (registerWorker h pid c now p)) = WActive"
  "wp_config (snd (registerWorker h pid c now p)) = wp_config p"
  "wp_scalingHistory (snd (registerWorker h pid c now p)) = wp_scalingHistory p"
  by (simp_all add: registerWorker_def Let_def)

lemma registerWorker_inv:
  assumes "pool_inv p"
  shows "pool_inv (snd (registerWorker h pid c now p))"
proof -
  have "workerIdText h pid (Suc (wp_workerIdCounter p)) \<notin> wn_workerId ` set (wp_workers p)"
    using assms by (fastforce simp: pool_inv_def dest: workerIdText_inject)
  then show ?thesis
    using assms
    by (fastforce simp: pool_inv_def new_worker_is_appended keyed_def le_SucI)
qed

lemma registerMany_spec:
  "pool_inv p \<Longrightarrow> pool_inv (registerMany k h pid now p) \<and>
     getActiveWorkersCount (registerMany k h pid now p) = getActiveWorkersCount p + k \<and>
     wp_config (registerMany k h pid now p) = wp_config p \<and>
     wp_scalingHistory (registerMany k h pid now p) = wp_scalingHistory p"
proof (induction k arbitrary: p)
  case (Suc k)
  have "getActiveWorkersCount (snd (registerWorker h pid 10 now p)) = Suc (getActiveWorkersCount p)"
    using Suc.prems by (simp add: getActiveWorkersCount_def new_worker_is_appended countsAsActive_def)
  then show ?case using Suc.IH [OF registerWorker_inv [OF Suc.prems]] by simp
qed simp

lemma unregisterWorker_workers [simp]:
  "wp_workers (snd (unregisterWorker i p)) = filter (\<lambda>w. wn_workerId w \<noteq> i) (wp_workers p)"
proof (cases "getWorker i p")
  case None
  then have "\<forall>w\<in>set (wp_workers p). wn_workerId w \<noteq> i" by (auto simp: getWorker_def row_of_None_iff)
  then show ?thesis using None by (simp add: unregisterWorker_def)
qed (simp add: unregisterWorker_def)

lemma unregisterWorker_simps [simp]:
  "wp_config (snd (unregisterWorker i p)) = wp_config p"
  "wp_scalingHistory (snd (unregisterWorker i p)) = wp_scalingHistory p"
  "wp_workerIdCounter (snd (unregisterWorker i p)) = wp_workerIdCounter p"
  by (simp_all add: unregisterWorker_def split: option.split)

lemma unregister_fold:
  fixes ws :: "WorkerNode list"
  defines "rm \<equiv> fold (\<lambda>w p. snd (unregisterWorker (wn_workerId w) p)) ws"
  shows "wp_workers (rm p) = filter (\<lambda>w. wn_workerId w \<notin> wn_workerId ` set ws) (wp_workers p)"
    and "wp_config (rm p) = wp_config p" and "wp_scalingHistory (rm p) = wp_scalingHistory p"
    and "wp_workerIdCounter (rm p) = wp_workerIdCounter p"
  unfolding rm_def
  by (induction ws arbitrary: p) (auto intro!: filter_cong)

lemma pool_inv_filter:
  "pool_inv p \<Longrightarrow> wp_workers p' = filter P (wp_workers p) \<Longrightarrow> wp_workerIdCounter p' = wp_workerIdCounter p \<Longrightarrow> pool_inv p'"
  by (auto simp: pool_inv_def keyed_def distinct_map_filter)

text \<open>Taking distinct active workers out of the pool lowers the count by their number.\<close>

lemma count_without:
  assumes "keyed wn_workerId ws" and "set out \<subseteq> set ws" and "distinct out" and "list_all countsAsActive out"
  shows "length (filter countsAsActive (filter (\<lambda>w. wn_workerId w \<notin> wn_workerId ` set out) ws)) + length out =
    length (filter countsAsActive ws)"
proof -
  let ?gone = "\<lambda>w. wn_workerId w \<in> wn_workerId ` set out"
  have same: "?gone w \<longleftrightarrow> w \<in> set out" if "w \<in> set ws" for w
    using that assms(1,2) by (auto simp: keyed_def distinct_map inj_on_def subset_eq)
  have "distinct (filter ?gone (filter countsAsActive ws))"
    using assms(1) by (simp add: keyed_distinct)
  moreover have "set (filter ?gone (filter countsAsActive ws)) = set out"
    using same assms(2,4) by (auto simp: list_all_iff)
  ultimately have "length (filter ?gone (filter countsAsActive ws)) = length out"
    using assms(3) by (metis distinct_card)
  then show ?thesis
    using sum_length_filter_compl [of ?gone "filter countsAsActive ws"]
    by (simp add: filter_filter conj_commute)
qed

section \<open>The size of the pool\<close>

lemma scaleUp_spec:
  assumes "pool_inv p"
  shows "pool_inv (snd (scaleUp q n pid now p))"
    and "int (getActiveWorkersCount (snd (scaleUp q n pid now p))) =
      max (int (getActiveWorkersCount p)) (min (int (getActiveWorkersCount p) + n) (pc_maxWorkers (wp_config p)))"
    and "wp_config (snd (scaleUp q n pid now p)) = wp_config p"
    and "wp_scalingHistory (snd (scaleUp q n pid now p)) = wp_scalingHistory p @ [fst (scaleUp q n pid now p)]"
proof -
  let ?k = "nat (min (int (getActiveWorkersCount p) + n) (pc_maxWorkers (wp_config p)) - int (getActiveWorkersCount p))"
  note many = registerMany_spec [OF assms, of ?k "''auto-'' @ q" pid now]
  have keep: "pool_inv (p'\<lparr>wp_scalingHistory := h, wp_lastScaleUpTime := t\<rparr>) = pool_inv p'"
    "getActiveWorkersCount (p'\<lparr>wp_scalingHistory := h, wp_lastScaleUpTime := t\<rparr>) = getActiveWorkersCount p'"
    "pool_inv (poolNote e p') = pool_inv p'" "getActiveWorkersCount (poolNote e p') = getActiveWorkersCount p'" for p' h t e
    by (simp_all add: pool_inv_def getActiveWorkersCount_def)
  show "pool_inv (snd (scaleUp q n pid now p))"
    "int (getActiveWorkersCount (snd (scaleUp q n pid now p))) =
      max (int (getActiveWorkersCount p)) (min (int (getActiveWorkersCount p) + n) (pc_maxWorkers (wp_config p)))"
    "wp_config (snd (scaleUp q n pid now p)) = wp_config p"
    "wp_scalingHistory (snd (scaleUp q n pid now p)) = wp_scalingHistory p @ [fst (scaleUp q n pid now p)]"
    using many by (simp_all add: scaleUp_def Let_def keep max_def min_def)
qed

text \<open>The idle workers \<open>scaleDown\<close> takes out.\<close>

definition leaving :: "int \<Rightarrow> worker_pool \<Rightarrow> WorkerNode list" where
  "leaving actualRemoved p =
     (let idle = filter (\<lambda>w. wn_status w = WIdle) (wp_workers p)
      in if 0 \<le> actualRemoved then take (nat actualRemoved) idle
         else take (nat (int (length idle) + actualRemoved)) idle)"

lemma scaleDown_spec:
  fixes n :: int
  assumes "pool_inv p"
  defines "out \<equiv> leaving (int (getActiveWorkersCount p) -
      max (int (getActiveWorkersCount p) - n) (pc_minWorkers (wp_config p))) p"
  shows "pool_inv (snd (scaleDown q n now p))"
    and "getActiveWorkersCount (snd (scaleDown q n now p)) + length out = getActiveWorkersCount p"
    and "wp_config (snd (scaleDown q n now p)) = wp_config p"
    and "wp_scalingHistory (snd (scaleDown q n now p)) = wp_scalingHistory p @ [fst (scaleDown q n now p)]"
proof -
  have keyed: "keyed wn_workerId (wp_workers p)" using assms(1) by (simp add: pool_inv_def)
  have out: "set out \<subseteq> set (wp_workers p)" "distinct out" "list_all countsAsActive out"
    using keyed_distinct [OF keyed]
    by (auto simp: out_def leaving_def Let_def list_all_iff countsAsActive_def dest: in_set_takeD)
  have rm: "wp_workers (snd (scaleDown q n now p)) = filter (\<lambda>w. wn_workerId w \<notin> wn_workerId ` set out) (wp_workers p)"
    "wp_workerIdCounter (snd (scaleDown q n now p)) = wp_workerIdCounter p"
    by (simp_all add: scaleDown_def Let_def out_def leaving_def unregister_fold)
  show "pool_inv (snd (scaleDown q n now p))"
    by (rule pool_inv_filter [OF assms(1) rm])
  show "getActiveWorkersCount (snd (scaleDown q n now p)) + length out = getActiveWorkersCount p"
    using count_without [OF keyed out] by (simp add: getActiveWorkersCount_def rm(1))
  show "wp_config (snd (scaleDown q n now p)) = wp_config p"
    "wp_scalingHistory (snd (scaleDown q n now p)) = wp_scalingHistory p @ [fst (scaleDown q n now p)]"
    by (simp_all add: scaleDown_def Let_def unregister_fold)
qed

lemma scaleDown_not_below_minimum:
  assumes "pool_inv p" and "0 \<le> n" and "pc_minWorkers (wp_config p) \<le> int (getActiveWorkersCount p)"
  shows "pc_minWorkers (wp_config p) \<le> int (getActiveWorkersCount (snd (scaleDown q n now p)))"
proof -
  let ?cur = "int (getActiveWorkersCount p)"
  let ?r = "?cur - max (?cur - n) (pc_minWorkers (wp_config p))"
  have "0 \<le> ?r" using assms by simp
  then have "length (leaving ?r p) \<le> nat ?r" by (simp add: leaving_def)
  then show ?thesis using scaleDown_spec(2) [OF assms(1), of q n now] assms by linarith
qed

section \<open>Automatic scaling\<close>

lemma amendLast_simps [simp]:
  "wp_workers (amendLast e p) = wp_workers p" "wp_config (amendLast e p) = wp_config p"
  "pool_inv (amendLast e p) = pool_inv p" "getActiveWorkersCount (amendLast e p) = getActiveWorkersCount p"
  by (simp_all add: amendLast_def pool_inv_def getActiveWorkersCount_def)

lemma collectMetrics_keeps:
  assumes "collectMetrics q r now s = (m, s')"
  shows "ds_pool s' = ds_pool s" and "ds_config s' = ds_config s"
    and "ds_lastScalingDecision s' = ds_lastScalingDecision s" and "ds_queues s' = ds_queues s"
    and "m = Some x \<Longrightarrow> qm_timestamp x = now"
  using assms by (auto simp: collectMetrics_def Let_def split: if_splits option.splits)

lemma decision_fields [simp]:
  "sd_shouldScale (makeScalingDecision m s) \<longleftrightarrow> sd_direction (makeScalingDecision m s) \<noteq> None"
  "sd_currentMetrics (makeScalingDecision m s) = m"
  by (auto simp: makeScalingDecision_def Let_def)

lemma decision_Up:
  "sd_direction (makeScalingDecision m s) = Some Up \<Longrightarrow>
     sd_targetWorkers (makeScalingDecision m s) \<le> pc_maxWorkers (ds_config s)"
  by (auto simp: makeScalingDecision_def Let_def split: if_splits)

lemma decision_Down:
  assumes "sd_direction (makeScalingDecision m s) = Some Down"
  shows "pc_minWorkers (ds_config s) < int (getActiveWorkersCount (ds_pool s))"
    and "sd_targetWorkers (makeScalingDecision m s) =
      max (int (getActiveWorkersCount (ds_pool s)) - pc_scaleDownStep (ds_config s)) (pc_minWorkers (ds_config s))"
  using assms by (auto simp: makeScalingDecision_def Let_def downReasons_def split: if_splits)

definition scaler_ok :: "scaler \<Rightarrow> bool" where
  "scaler_ok s \<longleftrightarrow> pool_inv (ds_pool s) \<and> wp_config (ds_pool s) = ds_config s \<and> 0 \<le> pc_scaleDownStep (ds_config s)"

definition sizeWithin :: "int \<Rightarrow> scaler \<Rightarrow> bool" where
  "sizeWithin n s \<longleftrightarrow> min n (pc_minWorkers (ds_config s)) \<le> int (getActiveWorkersCount (ds_pool s)) \<and>
     int (getActiveWorkersCount (ds_pool s)) \<le> max n (pc_maxWorkers (ds_config s))"

lemma execute_size:
  assumes "scaler_ok s" and "sizeWithin n s"
  shows "scaler_ok (snd (executeScalingDecision q (makeScalingDecision m s) pid now s)) \<and>
    sizeWithin n (snd (executeScalingDecision q (makeScalingDecision m s) pid now s))"
proof -
  let ?d = "makeScalingDecision m s"
  let ?p = "ds_pool s"
  let ?cur = "int (getActiveWorkersCount ?p)"
  have ok: "pool_inv ?p" "wp_config ?p = ds_config s" using assms(1) by (simp_all add: scaler_ok_def)
  show ?thesis
  proof (cases "sd_direction ?d")
    case None
    then show ?thesis using assms by (simp add: executeScalingDecision_def)
  next
    case (Some dir)
    let ?p' = "snd (performScaling q dir (sd_targetWorkers ?d) pid now ?p)"
    have "pool_inv ?p' \<and> wp_config ?p' = ds_config s \<and>
        min n (pc_minWorkers (ds_config s)) \<le> int (getActiveWorkersCount ?p') \<and>
        int (getActiveWorkersCount ?p') \<le> max n (pc_maxWorkers (ds_config s))"
    proof (cases dir)
      case Up
      then show ?thesis
        using assms ok Some scaleUp_spec [OF ok(1), of q "sd_targetWorkers ?d - ?cur" pid now] decision_Up [of m s]
        by (auto simp: performScaling_def sizeWithin_def)
    next
      case Down
      then have dec: "sd_direction ?d = Some Down" using Some by simp
      then have step: "0 \<le> ?cur - sd_targetWorkers ?d"
        using decision_Down [OF dec] assms(1) by (simp add: scaler_ok_def)
      show ?thesis
        using Down assms ok scaleDown_spec [OF ok(1), of q "?cur - sd_targetWorkers ?d" now]
          scaleDown_not_below_minimum [OF ok(1) step, of q now] decision_Down(1) [OF dec]
        by (auto simp: performScaling_def sizeWithin_def)
    qed
    then show ?thesis
      using assms Some by (auto simp: executeScalingDecision_def Let_def scaler_ok_def sizeWithin_def)
  qed
qed

lemma autoScaleOne_size:
  assumes "scaler_ok s \<and> sizeWithin n s"
  shows "scaler_ok (autoScaleOne reports pid now q s) \<and> sizeWithin n (autoScaleOne reports pid now q s)"
proof (cases "collectMetrics q (reports q) now s")
  case (Pair m s1)
  have "scaler_ok s1 \<and> sizeWithin n s1"
    using assms collectMetrics_keeps [OF Pair] by (simp add: scaler_ok_def sizeWithin_def)
  then show ?thesis
    using Pair execute_size by (auto simp: autoScaleOne_def Let_def split: option.splits)
qed

text \<open>A sweep: what Bull reports, the process id and the time.\<close>

type_synonym scaling_sweep = "(string \<Rightarrow> queue_report option) \<times> nat \<times> timestamp"

definition sweepScaling :: "scaling_sweep \<Rightarrow> scaler \<Rightarrow> scaler" where
  "sweepScaling w s = (case w of (reports, pid, now) \<Rightarrow> autoScaleAll reports pid now s)"

lemma fold_autoScaleOne_size:
  "scaler_ok s \<and> sizeWithin n s \<Longrightarrow>
     scaler_ok (fold (autoScaleOne reports pid now) qs s) \<and> sizeWithin n (fold (autoScaleOne reports pid now) qs s)"
proof (induction qs arbitrary: s)
  case (Cons q qs)
  show ?case using Cons.IH [OF autoScaleOne_size [OF Cons.prems]] by simp
qed simp

interpretation scaling: event_loop sweepScaling "\<lambda>s. scaler_ok s \<and> sizeWithin n s" for n
  by unfold_locales (auto simp: sweepScaling_def autoScaleAll_def fold_autoScaleOne_size split: prod.splits)

text \<open>
  Automatic scaling keeps the pool within its limits. Through any sequence of sweeps over any
  number of queues, whatever Bull reports of them, the number of active workers never leaves the range
  from the configured minimum to the maximum, widened only by where it started; worker ids stay unique.
\<close>

theorem autoscaling_keeps_pool_in_range:
  assumes "pool_inv (ds_pool s)" and "wp_config (ds_pool s) = ds_config s" and "0 \<le> pc_scaleDownStep (ds_config s)"
  shows "let s' = fold sweepScaling ws s; n = int (getActiveWorkersCount (ds_pool s));
             n' = int (getActiveWorkersCount (ds_pool s'))
         in min n (pc_minWorkers (ds_config s')) \<le> n' \<and> n' \<le> max n (pc_maxWorkers (ds_config s')) \<and>
            distinct (map wn_workerId (wp_workers (ds_pool s')))"
proof -
  let ?n = "int (getActiveWorkersCount (ds_pool s))"
  have "scaler_ok s \<and> sizeWithin ?n s" using assms by (simp add: scaler_ok_def sizeWithin_def)
  from scaling.run_inv [OF this, of ws] show ?thesis
    by (simp add: scaler_ok_def sizeWithin_def pool_inv_def keyed_def)
qed

section \<open>Scaling steps are spaced\<close>

definition scalingTimes :: "string \<Rightarrow> scaler \<Rightarrow> timestamp list" where
  "scalingTimes q s = map se_timestamp (filter (\<lambda>e. se_queueName e = q) (wp_scalingHistory (ds_pool s)))"

definition shortestCooldown :: "pool_config \<Rightarrow> int" where
  "shortestCooldown cfg = min (pc_scaleUpCooldownMs cfg) (pc_scaleDownCooldownMs cfg)"

definition lastScalingKnown :: "string \<Rightarrow> scaler \<Rightarrow> bool" where
  "lastScalingKnown q s \<longleftrightarrow> (scalingTimes q s = [] \<or>
     (\<exists>d. map_of (ds_lastScalingDecision s) q = Some d \<and> sd_shouldScale d \<and>
        qm_timestamp (sd_currentMetrics d) = List.last (scalingTimes q s)))"

definition spaced :: "int \<Rightarrow> scaler \<Rightarrow> bool" where
  "spaced c s \<longleftrightarrow> shortestCooldown (ds_config s) = c \<and>
     (\<forall>q. lastScalingKnown q s \<and> successively (\<lambda>a b. a + c \<le> b) (scalingTimes q s))"

lemma performScaling_history:
  "wp_scalingHistory (snd (performScaling q d n pid now p)) = wp_scalingHistory p @ [fst (performScaling q d n pid now p)]"
  "se_timestamp (fst (performScaling q d n pid now p)) = now" "se_queueName (fst (performScaling q d n pid now p)) = q"
proof -
  have many: "wp_scalingHistory (registerMany k h pid now p') = wp_scalingHistory p'" for k h p'
    by (induction k arbitrary: p') simp_all
  show "wp_scalingHistory (snd (performScaling q d n pid now p)) = wp_scalingHistory p @ [fst (performScaling q d n pid now p)]"
    by (cases d) (simp_all add: performScaling_def scaleUp_def scaleDown_def Let_def many unregister_fold)
qed (cases d; simp add: performScaling_def scaleUp_def scaleDown_def Let_def scalingEvent_def)+

lemma execute_spaced:
  assumes "spaced c s" and "qm_timestamp (sd_currentMetrics dec) = now"
  shows "spaced c (snd (executeScalingDecision q dec pid now s))"
proof (cases "\<exists>d. sd_direction dec = Some d \<and> sd_shouldScale dec \<and> \<not> coolingDown q d now s")
  case False
  then have "snd (executeScalingDecision q dec pid now s) = s"
    by (auto simp: executeScalingDecision_def split: option.splits)
  then show ?thesis using assms by simp
next
  case True
  then obtain d where d: "sd_direction dec = Some d" "sd_shouldScale dec" "\<not> coolingDown q d now s" by blast
  let ?s' = "snd (executeScalingDecision q dec pid now s)"
  have new: "scalingTimes x ?s' = scalingTimes x s @ (if x = q then [now] else [])" for x
    using d by (simp add: executeScalingDecision_def Let_def scalingTimes_def amendLast_def performScaling_history withMetrics_def)
  have dec: "map_of (ds_lastScalingDecision ?s') x = (if x = q then Some dec else map_of (ds_lastScalingDecision s) x)"
    and cfg: "ds_config ?s' = ds_config s" for x
    using d by (simp_all add: executeScalingDecision_def Let_def update_conv')
  have gap: "List.last (scalingTimes q s) + c \<le> now" if "scalingTimes q s \<noteq> []"
    using that d(3) assms(1) by (cases d)
      (fastforce simp: spaced_def lastScalingKnown_def coolingDown_def scalingCooldown_def shortestCooldown_def)+
  show ?thesis
    using assms d(2) gap by (auto simp: spaced_def lastScalingKnown_def new dec cfg successively_append_iff)
qed

lemma autoScaleOne_spaced:
  assumes "spaced c s"
  shows "spaced c (autoScaleOne reports pid now q s)"
proof (cases "collectMetrics q (reports q) now s")
  case (Pair m s1)
  have "spaced c s1"
    using assms collectMetrics_keeps [OF Pair] by (simp add: spaced_def lastScalingKnown_def scalingTimes_def)
  then show ?thesis
    using Pair collectMetrics_keeps(5) [OF Pair] execute_spaced
    by (auto simp: autoScaleOne_def Let_def split: option.splits)
qed

lemma fold_autoScaleOne_spaced: "spaced c s \<Longrightarrow> spaced c (fold (autoScaleOne reports pid now) qs s)"
  by (induction qs arbitrary: s) (simp_all add: autoScaleOne_spaced)

interpretation spacing: event_loop sweepScaling "spaced c" for c
  by unfold_locales (auto simp: sweepScaling_def autoScaleAll_def fold_autoScaleOne_spaced split: prod.splits)

text \<open>
  A queue is not scaled again before its cooldown is over: after any sequence of sweeps, two
  consecutive scaling events of the same queue lie at least the shorter of the two cooldowns apart,
  however many queues are scaled and whatever their directions.
\<close>

theorem scalings_of_a_queue_are_spaced:
  assumes "wp_scalingHistory (ds_pool s) = []"
  shows "successively (\<lambda>a b. a + min (pc_scaleUpCooldownMs (ds_config s)) (pc_scaleDownCooldownMs (ds_config s)) \<le> b)
    (map se_timestamp (filter (\<lambda>e. se_queueName e = q) (wp_scalingHistory (ds_pool (fold sweepScaling ws s)))))"
proof -
  have "spaced (shortestCooldown (ds_config s)) s"
    using assms by (simp add: spaced_def lastScalingKnown_def scalingTimes_def)
  from spacing.run_inv [OF this, of ws] show ?thesis
    by (simp add: spaced_def scalingTimes_def shortestCooldown_def)
qed

section \<open>The choice of a worker\<close>

text \<open>A run of selections from one list of workers, one for each random number.\<close>

fun selectMany :: "real list \<Rightarrow> WorkerNode list \<Rightarrow> balancer \<Rightarrow> WorkerNode option list" where
  "selectMany [] workers b = []"
| "selectMany (r # rs) workers b =
     (case selectWorker r workers b of (w, b') \<Rightarrow> w # selectMany rs workers b')"

lemma round_robin_positions:
  assumes "lb_strategy b = ROUND_ROBIN" and "filter isAvailable workers = ws" and "ws \<noteq> []"
  shows "selectMany rs workers b = map (\<lambda>j. Some (ws ! ((lb_roundRobinIndex b + j) mod length ws))) [0..<length rs]"
  using assms(1)
proof (induction rs arbitrary: b)
  case (Cons r rs)
  let ?b = "b\<lparr>lb_roundRobinIndex := (lb_roundRobinIndex b + 1) mod length ws\<rparr>"
  have "selectWorker r workers b = (Some (ws ! (lb_roundRobinIndex b mod length ws)), ?b)"
    using assms Cons.prems by (simp add: selectWorker_def roundRobinSelect_def)
  then show ?case
    using Cons.IH [of ?b] Cons.prems
    by (simp add: upt_conv_Cons map_Suc_upt [symmetric] mod_add_left_eq del: upt_Suc)
qed simp

lemma one_round_is_a_rotation:
  "ws \<noteq> [] \<Longrightarrow> map (\<lambda>j. ws ! ((k + j) mod length ws)) [0..<length ws] = rotate k ws"
  by (rule nth_equalityI) (simp_all add: nth_rotate add.commute)

lemma count_rotate: "count_list (rotate k ws) w = count_list ws w"
  by (simp add: rotate_drop_take) (metis add.commute append_take_drop_id count_list_append)

lemma rounds_count:
  assumes "ws \<noteq> []"
  shows "count_list (map (\<lambda>j. ws ! ((k + j) mod length ws)) [0..<m * length ws]) w = m * count_list ws w"
proof (induction m)
  case (Suc m)
  have "map (\<lambda>j. ws ! ((k + j) mod length ws)) [m * length ws..<length ws + m * length ws] =
      map (\<lambda>j. ws ! ((k + m * length ws + j) mod length ws)) [0..<length ws]"
    by (rule nth_equalityI) (simp_all add: add_ac)
  also have "\<dots> = rotate (k + m * length ws) ws" by (rule one_round_is_a_rotation [OF assms])
  finally show ?case
    using Suc.IH upt_add_eq_append [of 0 "m * length ws" "length ws"]
    by (simp add: count_rotate add.commute)
qed simp

text \<open>
  Round robin is fair: over any number of full rounds with the same workers, wherever the index
  stands at the start, every available worker is chosen exactly once per round, and nobody else is.
\<close>

theorem round_robin_is_fair:
  assumes "lb_strategy b = ROUND_ROBIN" and "filter isAvailable workers \<noteq> []"
    and "length rs = m * length (filter isAvailable workers)"
  shows "count_list (selectMany rs workers b) (Some w) = m * count_list (filter isAvailable workers) w"
proof -
  let ?ws = "filter isAvailable workers"
  let ?picks = "map (\<lambda>j. ?ws ! ((lb_roundRobinIndex b + j) mod length ?ws)) [0..<m * length ?ws]"
  have "selectMany rs workers b = map Some ?picks"
    using round_robin_positions [OF assms(1) refl assms(2), of rs] assms(3) by simp
  moreover have "count_list (map Some xs) (Some w) = count_list xs w" for xs
    by (induction xs) simp_all
  ultimately show ?thesis using rounds_count [OF assms(2), of "lb_roundRobinIndex b" m w] by metis
qed

lemma least_connections_fold:
  fixes f :: "'a \<Rightarrow> nat"
  defines "best \<equiv> fold (\<lambda>x y. if f x < f y then x else y)"
  shows "best xs y \<in> insert y (set xs) \<and> (\<forall>z \<in> insert y (set xs). f (best xs y) \<le> f z)"
  unfolding best_def
proof (induction xs arbitrary: y)
  case (Cons x xs)
  let ?y = "if f x < f y then x else y"
  have "f ?y \<le> f x \<and> f ?y \<le> f y" by simp
  then show ?case using Cons.IH [of ?y] by (auto split: if_splits dest: order_trans)
qed simp

lemma hd_sort_key:
  assumes "xs \<noteq> []"
  shows "hd (sort_key f xs) \<in> set xs \<and> (\<forall>x\<in>set xs. f (hd (sort_key f xs)) \<le> f x)"
proof -
  obtain y ys where s: "sort_key f xs = y # ys"
    using assms by (metis length_0_conv length_sort neq_Nil_conv)
  have "set (y # ys) = set xs" using s by (metis set_sort)
  moreover have "sorted (map f (y # ys))" using s by (metis sorted_sort_key)
  ultimately show ?thesis by (auto simp: s)
qed

lemma weightedPick_in: "weightedPick ws r = Some w \<Longrightarrow> w \<in> fst ` set ws"
  by (induction ws r rule: weightedPick.induct) (auto split: if_splits)

lemma weightedSelect_in: "workers \<noteq> [] \<Longrightarrow> weightedSelect r workers b \<in> set workers"
  using weightedPick_in by (fastforce simp: weightedSelect_def Let_def split: option.splits)

text \<open>
  What each strategy chooses: nothing exactly when no worker is active or idle; otherwise an
  available worker of the list, under least connections one with the fewest connections, under the
  adaptive strategy one with the highest score. Only round robin changes the balancer.
\<close>

theorem selected_worker_is_best:
  "case selectWorker random workers b of
     (None, b') \<Rightarrow> \<not> list_ex isAvailable workers \<and> b' = b
   | (Some w, b') \<Rightarrow> w \<in> set workers \<and> isAvailable w \<and>
       (case lb_strategy b of
          ROUND_ROBIN \<Rightarrow> True
        | LEAST_CONNECTIONS \<Rightarrow> b' = b \<and> list_all (\<lambda>v. getConnectionCount (wn_workerId w) b \<le>
            getConnectionCount (wn_workerId v) b) (filter isAvailable workers)
        | WEIGHTED \<Rightarrow> b' = b
        | ADAPTIVE \<Rightarrow> b' = b \<and> list_all (\<lambda>v. adaptiveScore v \<le> adaptiveScore w) (filter isAvailable workers))"
proof (cases "filter isAvailable workers = []")
  case True
  then show ?thesis by (simp add: selectWorker_def filter_empty_conv list_ex_iff)
next
  case False
  let ?ws = "filter isAvailable workers"
  have avail: "v \<in> set ?ws \<longleftrightarrow> v \<in> set workers \<and> isAvailable v" for v by auto
  show ?thesis
  proof (cases "lb_strategy b")
    case ROUND_ROBIN
    have "?ws ! (lb_roundRobinIndex b mod length ?ws) \<in> set ?ws" using False by (intro nth_mem) simp
    then show ?thesis using False ROUND_ROBIN by (simp add: selectWorker_def roundRobinSelect_def Let_def)
  next
    case LEAST_CONNECTIONS
    have "insert (hd ?ws) (set (tl ?ws)) = set ?ws" using False by (metis list.collapse list.simps(15))
    then show ?thesis
      using False LEAST_CONNECTIONS
        least_connections_fold [of "\<lambda>w. getConnectionCount (wn_workerId w) b" "tl ?ws" "hd ?ws"]
      by (auto simp: selectWorker_def leastConnectionsSelect_def list_all_iff Let_def)
  next
    case WEIGHTED
    then show ?thesis using False weightedSelect_in [OF False, of random b] by (simp add: selectWorker_def Let_def)
  next
    case ADAPTIVE
    then show ?thesis
      using False hd_sort_key [OF False, of "\<lambda>w. - adaptiveScore w"]
      by (auto simp: selectWorker_def adaptiveSelect_def list_all_iff Let_def)
  qed
qed

section \<open>Where the pool and its reports differ\<close>

text \<open>
  Only idle workers are removed, and a new worker is active until its first report of an empty load:
  without idle workers nobody leaves, while the event still announces the smaller pool.
\<close>

lemma scale_down_without_idle_workers:
  assumes "pool_inv p" and "\<forall>w\<in>set (wp_workers p). wn_status w \<noteq> WIdle"
  shows "getActiveWorkersCount (snd (scaleDown q n now p)) = getActiveWorkersCount p \<and>
    se_newWorkers (fst (scaleDown q n now p)) =
      max (int (getActiveWorkersCount p) - n) (pc_minWorkers (wp_config p))"
proof -
  have "filter (\<lambda>w. wn_status w = WIdle) (wp_workers p) = []" using assms(2) by (simp add: filter_empty_conv)
  then have "leaving k p = []" for k by (simp add: leaving_def)
  then show ?thesis
    using scaleDown_spec(2) [OF assms(1), of q n now] by (simp add: scaleDown_def Let_def scalingEvent_def)
qed

text \<open>
  A pool below its minimum loses idle workers all the same, because the number to remove is negative
  and \<open>slice\<close> then counts from the end.
\<close>

definition ex_worker :: "nat \<Rightarrow> WorkerNode" where
  "ex_worker n = \<lparr>wn_workerId = workerIdText ''h'' 7 n, wn_hostname = ''h'', wn_pid = 7, wn_status = WIdle,
     wn_capacity = 10, wn_currentLoad = 0, wn_lastHeartbeat = 0, wn_metrics = newMetrics\<rparr>"

definition ex_pool :: "int \<Rightarrow> worker_pool" where
  "ex_pool least = \<lparr>wp_config = DEFAULT_POOL_CONFIG\<lparr>pc_minWorkers := least\<rparr>, wp_workers = [ex_worker 2, ex_worker 3],
     wp_scalingHistory = [], wp_lastScaleUpTime = [], wp_lastScaleDownTime = [], wp_workerIdCounter = 3, wp_notes = []\<rparr>"

lemma ex_worker_simps [simp]:
  "wn_status (ex_worker n) = WIdle" "isAvailable (ex_worker n)" "countsAsActive (ex_worker n)"
  "wn_workerId (ex_worker n) = workerIdText ''h'' 7 n"
  by (simp_all add: ex_worker_def isAvailable_def countsAsActive_def)

lemma ex_ids_differ: "m \<noteq> n \<Longrightarrow> workerIdText ''h'' 7 m \<noteq> workerIdText ''h'' 7 n"
  using workerIdText_inject by blast

lemma ex_worker_pool_inv: "pool_inv (ex_pool k)"
proof -
  have "keyed wn_workerId [ex_worker 2, ex_worker 3]" by (simp add: keyed_def ex_ids_differ)
  moreover have "\<exists>h pid i. wn_workerId (ex_worker n) = workerIdText h pid i \<and> i \<le> 3" if "n \<le> 3" for n
    using that by auto
  ultimately show ?thesis by (simp add: pool_inv_def ex_pool_def del: ex_worker_simps)
qed

lemma ex_pool_count: "getActiveWorkersCount (ex_pool k) = 2"
  by (simp add: getActiveWorkersCount_def ex_pool_def)

lemma scale_down_below_minimum:
  "getActiveWorkersCount (snd (scaleDown ''mail'' 1 0 (ex_pool 3))) < getActiveWorkersCount (ex_pool 3)"
proof -
  have "wp_config (ex_pool 3) = DEFAULT_POOL_CONFIG\<lparr>pc_minWorkers := 3\<rparr>" by (simp add: ex_pool_def)
  then have "length (leaving (int (getActiveWorkersCount (ex_pool 3)) -
      max (int (getActiveWorkersCount (ex_pool 3)) - 1) (pc_minWorkers (wp_config (ex_pool 3)))) (ex_pool 3)) = Suc 0"
    by (simp add: ex_pool_count leaving_def) (simp add: ex_pool_def)
  then show ?thesis using scaleDown_spec(2) [OF ex_worker_pool_inv, where k1 = 3 and n = 1 and q = "''mail''" and now = 0] by simp
qed

text \<open>A short queue wins over every sign of overload: the pool shrinks although most jobs fail.\<close>

lemma short_queue_overrides_overload:
  assumes "qm_failureRate m > pc_failureRateWarning (ds_config s)"
    and "qm_waitingJobs m < pc_scaleDownThreshold (ds_config s)" and "qm_activeJobs m < pc_scaleDownThreshold (ds_config s)"
    and "pc_minWorkers (ds_config s) < int (getActiveWorkersCount (ds_pool s))"
  shows "sd_direction (makeScalingDecision m s) = Some Down \<and>
    FailureRateExceeds (qm_failureRate m) \<in> set (sd_reason (makeScalingDecision m s))"
  using assms by (auto simp: makeScalingDecision_def Let_def downReasons_def upReasons_def)

text \<open>A worker cannot be taken out of rotation with the weight zero.\<close>

lemma weight_zero_counts_as_one: "getWorkerWeight i (setWorkerWeight i 0 b) = 1"
  by (simp add: getWorkerWeight_def setWorkerWeight_def update_conv')

text \<open>Recovery of any queue but the notifications retries the failed reports.\<close>

lemma recovery_ignores_other_queues:
  "q \<noteq> NOTIFICATIONS \<Longrightarrow> recoverFailedJobs retries q failed now st = recoverFailedJobs retries REPORTS failed now st"
  by (simp add: recoverFailedJobs_def recoveryQueue_def)

section \<open>Witnesses\<close>

definition ex_scaler :: scaler where
  "ex_scaler = \<lparr>ds_config = DEFAULT_POOL_CONFIG, ds_metricsHistory = [], ds_lastScalingDecision = [],
     ds_queues = [''mail''], ds_pool = (ex_pool 2)\<rparr>"

definition ex_sweeps :: "scaling_sweep list" where
  "ex_sweeps = [(\<lambda>_. Some \<lparr>qr_waiting = 9000, qr_active = 10, qr_completed = 0, qr_failed = 0, qr_jobs = []\<rparr>, 5, 1000),
                (\<lambda>_. None, 5, 2000)]"

theorem autoscaling_keeps_pool_in_range_witness:
  "int (getActiveWorkersCount (ds_pool (fold sweepScaling ex_sweeps ex_scaler))) \<le>
     max 2 (pc_maxWorkers (ds_config (fold sweepScaling ex_sweeps ex_scaler)))"
  using autoscaling_keeps_pool_in_range [of ex_scaler ex_sweeps] ex_worker_pool_inv [of 2] ex_pool_count [of 2]
  by (simp add: ex_scaler_def Let_def) (simp add: ex_pool_def DEFAULT_POOL_CONFIG_def)

theorem scalings_of_a_queue_are_spaced_witness:
  "successively (\<lambda>a b. a + 60000 \<le> b) (map se_timestamp (filter (\<lambda>e. se_queueName e = ''mail'')
     (wp_scalingHistory (ds_pool (fold sweepScaling ex_sweeps ex_scaler)))))"
  using scalings_of_a_queue_are_spaced [of ex_scaler "''mail''" ex_sweeps]
  by (simp add: ex_scaler_def ex_pool_def DEFAULT_POOL_CONFIG_def)

definition ex_balancer :: balancer where
  "ex_balancer = \<lparr>lb_strategy = ROUND_ROBIN, lb_roundRobinIndex = 5, lb_workerWeights = [], lb_workerConnections = []\<rparr>"

theorem round_robin_is_fair_witness:
  "count_list (selectMany [0, 0, 0, 0] [ex_worker 2, ex_worker 3] ex_balancer) (Some (ex_worker 3)) = 2"
proof -
  have "ex_worker 2 \<noteq> ex_worker 3" by (metis ex_ids_differ ex_worker_simps(4) numeral_eq_iff semiring_norm(88))
  then show ?thesis
    using round_robin_is_fair [of ex_balancer "[ex_worker 2, ex_worker 3]" "[0, 0, 0, 0]" 2 "ex_worker 3"]
    by (simp add: ex_balancer_def)
qed

end
