(* ===== verification/AuditChain.thy ===== *)
theory AuditChain
  imports Prelude
begin

text \<open>
  The audit log, \<open>audit-log/audit-log.service.ts\<close> with the rows of
  \<open>common/security/audit-log.entity.ts\<close>: entries that carry the checksum of the entry before them,
  the check of that chain, forensic queries, pages and the export.

  The hash is an argument, a function of the fields it is computed from. The states before and after
  are objects whose properties are primitive values or objects, given by their JSON text. The two
  clocks of an entry, the one the checksum uses and the one of the database column, are arguments.
  Ids are numbers, texts that the database may lack are options.
\<close>

section \<open>Data\<close>

datatype AuditEventType =
    BALANCE_CREDIT | BALANCE_DEBIT
  | TRADE_OPENED | TRADE_CLOSED | TRADE_CANCELLED | WITHDRAWAL | DEPOSIT
  | LOGIN | LOGOUT | REGISTER | PASSWORD_CHANGED | PASSWORD_RESET_REQUESTED | ACCOUNT_LOCKED | ACCOUNT_ACTIVATED
  | ACCOUNT_SUSPENDED | ACCOUNT_DEACTIVATED | TWO_FA_ENABLED | TWO_FA_DISABLED | TOKEN_REFRESHED | SESSION_REVOKED
  | SUSPICIOUS_ACTIVITY
  | REFERRAL_CONFIG_UPDATED | REFERRAL_REWARD_ADJUSTED | REFERRAL_BULK_ADJUSTED | REFERRAL_STATUS_CHANGED
  | REFERRAL_FLAGGED | REFERRAL_DISPUTE_RESOLVED
  | ROLE_ASSIGNED | ROLE_REVOKED | PERMISSION_GRANTED | PERMISSION_REVOKED
  | USER_SUSPENDED | USER_ACTIVATED | ADMIN_ACTION

datatype AuditSeverity = INFO | WARNING | CRITICAL

datatype state_value = Primitive string | Compound string

type_synonym entity_state = "(string \<times> state_value) list"

record CreateAuditLogDto =
  ca_userId :: "uuid option"
  ca_eventType :: AuditEventType
  ca_severity :: "AuditSeverity option"
  ca_entityType :: "string option"
  ca_entityId :: "string option"
  ca_beforeState :: "entity_state option"
  ca_afterState :: "entity_state option"
  ca_metadata :: "entity_state option"
  ca_ipAddress :: "string option"
  ca_userAgent :: "string option"
  ca_requestId :: "string option"

record AuditLog =
  al_id :: uuid
  al_userId :: "uuid option"
  al_eventType :: AuditEventType
  al_severity :: AuditSeverity
  al_entityType :: "string option"
  al_entityId :: "string option"
  al_beforeState :: "entity_state option"
  al_afterState :: "entity_state option"
  al_metadata :: "entity_state option"
  al_ipAddress :: "string option"
  al_userAgent :: "string option"
  al_requestId :: "string option"
  al_checksum :: string
  al_previousChecksum :: string
  al_createdAt :: timestamp

text \<open>What the checksum is computed from: \<open>rawData\<close>.\<close>

record checksum_data =
  cd_userId :: "uuid option"
  cd_eventType :: AuditEventType
  cd_entityType :: "string option"
  cd_entityId :: "string option"
  cd_beforeState :: "entity_state option"
  cd_afterState :: "entity_state option"
  cd_timestamp :: timestamp
  cd_previousChecksum :: string

section \<open>Writing\<close>

text \<open>
  The entry with the greatest creation time. Of entries created in the same instant the later row is
  taken; the theorems below assume different times.
\<close>

definition lastEntry :: "AuditLog list \<Rightarrow> AuditLog option" where
  "lastEntry logs = (if logs = [] then None else Some (List.last (sort_key al_createdAt logs)))"

definition previousOf :: "AuditLog list \<Rightarrow> string" where
  "previousOf logs = (case lastEntry logs of None \<Rightarrow> ''GENESIS'' | Some e \<Rightarrow> al_checksum e)"

definition rawData :: "CreateAuditLogDto \<Rightarrow> timestamp \<Rightarrow> string \<Rightarrow> checksum_data" where
  "rawData dto now previousChecksum =
     \<lparr>cd_userId = ca_userId dto, cd_eventType = ca_eventType dto, cd_entityType = ca_entityType dto,
      cd_entityId = ca_entityId dto, cd_beforeState = ca_beforeState dto, cd_afterState = ca_afterState dto,
      cd_timestamp = now, cd_previousChecksum = previousChecksum\<rparr>"

definition newEntry ::
  "(checksum_data \<Rightarrow> string) \<Rightarrow> uuid \<Rightarrow> timestamp \<Rightarrow> timestamp \<Rightarrow> CreateAuditLogDto \<Rightarrow> string \<Rightarrow> AuditLog" where
  "newEntry sha256 newId now createdAt dto previousChecksum =
     \<lparr>al_id = newId, al_userId = ca_userId dto, al_eventType = ca_eventType dto,
      al_severity = (case ca_severity dto of None \<Rightarrow> INFO | Some s \<Rightarrow> s),
      al_entityType = ca_entityType dto, al_entityId = ca_entityId dto, al_beforeState = ca_beforeState dto,
      al_afterState = ca_afterState dto, al_metadata = ca_metadata dto, al_ipAddress = ca_ipAddress dto,
      al_userAgent = ca_userAgent dto, al_requestId = ca_requestId dto,
      al_checksum = sha256 (rawData dto now previousChecksum), al_previousChecksum = previousChecksum,
      al_createdAt = createdAt\<rparr>"

text \<open>The column of the checksum is unique: a second entry with the same one is refused.\<close>

definition saveEntry :: "AuditLog \<Rightarrow> AuditLog list \<Rightarrow> AuditLog list result" where
  "saveEntry e logs =
     (if list_ex (\<lambda>x. al_checksum x = al_checksum e) logs
      then Inl (JsError ''duplicate key value violates unique constraint'') else Inr (logs @ [e]))"

definition auditLogOf ::
  "(checksum_data \<Rightarrow> string) \<Rightarrow> uuid \<Rightarrow> timestamp \<Rightarrow> timestamp \<Rightarrow> CreateAuditLogDto \<Rightarrow> AuditLog list \<Rightarrow> AuditLog list result" where
  "auditLogOf sha256 newId now createdAt dto logs =
     saveEntry (newEntry sha256 newId now createdAt dto (previousOf logs)) logs"

section \<open>Queries\<close>

definition getByUser :: "uuid \<Rightarrow> (timestamp \<times> timestamp) option \<Rightarrow> AuditLog list \<Rightarrow> AuditLog list" where
  "getByUser userId period logs = sort_key al_createdAt (filter (\<lambda>e. al_userId e = Some userId \<and>
     (case period of None \<Rightarrow> True | Some (from1, to1) \<Rightarrow> from1 \<le> al_createdAt e \<and> al_createdAt e \<le> to1)) logs)"

definition getByEntity :: "string \<Rightarrow> string \<Rightarrow> AuditLog list \<Rightarrow> AuditLog list" where
  "getByEntity entityType entityId logs = sort_key al_createdAt
     (filter (\<lambda>e. al_entityType e = Some entityType \<and> al_entityId e = Some entityId) logs)"

text \<open>\<open>ORDER BY createdAt DESC\<close>.\<close>

definition newestFirst :: "AuditLog list \<Rightarrow> AuditLog list" where
  "newestFirst logs = sort_key (\<lambda>e. - al_createdAt e) logs"

definition getSuspiciousActivity :: "timestamp \<Rightarrow> timestamp \<Rightarrow> AuditLog list \<Rightarrow> AuditLog list" where
  "getSuspiciousActivity from1 to1 logs = newestFirst (filter (\<lambda>e. al_eventType e = SUSPICIOUS_ACTIVITY \<and>
     from1 \<le> al_createdAt e \<and> al_createdAt e \<le> to1) logs)"

fun brokenLinks :: "AuditLog list \<Rightarrow> AuditLog list" where
  "brokenLinks (x # y # zs) =
     (if al_previousChecksum y \<noteq> al_checksum x then [y] else []) @ brokenLinks (y # zs)"
| "brokenLinks _ = []"

definition verifyChainIntegrity :: "AuditLog list \<Rightarrow> AuditLog list \<times> bool" where
  "verifyChainIntegrity logs = (let broken = brokenLinks (sort_key al_createdAt logs) in (broken, broken = []))"

text \<open>\<open>!==\<close>: objects are read from different rows and are never the same.\<close>

fun strictlyEqual :: "state_value option \<Rightarrow> state_value option \<Rightarrow> bool" where
  "strictlyEqual None None = True"
| "strictlyEqual (Some (Primitive a)) (Some (Primitive b)) = (a = b)"
| "strictlyEqual _ _ = False"

definition computeDelta ::
  "entity_state option \<Rightarrow> entity_state option \<Rightarrow> (string \<times> state_value option \<times> state_value option) list" where
  "computeDelta before after =
     (case (before, after) of
        (Some b, Some a) \<Rightarrow>
          map (\<lambda>k. (k, map_of b k, map_of a k))
            (filter (\<lambda>k. \<not> strictlyEqual (map_of b k) (map_of a k)) (setOrder (map fst b @ map fst a)))
      | _ \<Rightarrow> [])"

record timeline_entry =
  te_timestamp :: timestamp
  te_event :: AuditEventType
  te_entity :: "string option \<times> string option"
  te_severity :: AuditSeverity
  te_delta :: "(string \<times> state_value option \<times> state_value option) list"

definition getUserTimeline :: "uuid \<Rightarrow> AuditLog list \<Rightarrow> timeline_entry list" where
  "getUserTimeline userId logs =
     map (\<lambda>e. \<lparr>te_timestamp = al_createdAt e, te_event = al_eventType e,
       te_entity = (al_entityType e, al_entityId e), te_severity = al_severity e,
       te_delta = computeDelta (al_beforeState e) (al_afterState e)\<rparr>) (getByUser userId None logs)"

section \<open>Pages\<close>

text \<open>The filter without its dates. A missing or empty criterion does not restrict.\<close>

record AuditFilterDto =
  af_userId :: "uuid option"
  af_eventType :: "AuditEventType option"
  af_severity :: "AuditSeverity option"
  af_entityType :: "string option"
  af_entityId :: "string option"
  af_ipAddress :: "string option"
  af_requestId :: "string option"
  af_page :: nat
  af_limit :: nat

definition textMatches :: "string option \<Rightarrow> string option \<Rightarrow> bool" where
  "textMatches criterion column =
     (case criterion of None \<Rightarrow> True | Some c \<Rightarrow> c = [] \<or> column = Some c)"

definition filterMatches :: "AuditFilterDto \<Rightarrow> AuditLog \<Rightarrow> bool" where
  "filterMatches f e \<longleftrightarrow>
     (case af_userId f of None \<Rightarrow> True | Some u \<Rightarrow> al_userId e = Some u) \<and>
     (case af_eventType f of None \<Rightarrow> True | Some t \<Rightarrow> al_eventType e = t) \<and>
     (case af_severity f of None \<Rightarrow> True | Some s \<Rightarrow> al_severity e = s) \<and>
     textMatches (af_entityType f) (al_entityType e) \<and> textMatches (af_entityId f) (al_entityId e) \<and>
     textMatches (af_ipAddress f) (al_ipAddress e) \<and> textMatches (af_requestId f) (al_requestId e)"

record audit_page =
  ap_data :: "AuditLog list"
  ap_total :: nat
  ap_page :: nat
  ap_limit :: nat
  ap_totalPages :: nat

definition orDefault :: "nat \<Rightarrow> nat \<Rightarrow> nat" where
  "orDefault d n = (if n = 0 then d else n)"

definition getAuditTrail :: "AuditFilterDto \<Rightarrow> AuditLog list \<Rightarrow> audit_page" where
  "getAuditTrail f logs =
     (let found = newestFirst (filter (filterMatches f) logs); n = orDefault 50 (af_limit f); p = orDefault 1 (af_page f)
      in \<lparr>ap_data = take n (drop ((p - 1) * n) found), ap_total = length found, ap_page = p, ap_limit = n,
          ap_totalPages = (length found + n - 1) div n\<rparr>)"

section \<open>Export\<close>

text \<open>\<open>replace(/"/g, '""')\<close>, and a field in quotes.\<close>

fun escapeCSV :: "string \<Rightarrow> string" where
  "escapeCSV [] = []"
| "escapeCSV (c # cs) = (if c = CHR 0x22 then [c, c] else [c]) @ escapeCSV cs"

definition quoted :: "string \<Rightarrow> string" where
  "quoted field = CHR 0x22 # field @ [CHR 0x22]"

definition orEmpty :: "string option \<Rightarrow> string" where
  "orEmpty x = (case x of None \<Rightarrow> [] | Some s \<Rightarrow> s)"

text \<open>
  The fields of a row; how states, event types, severities and dates are written is an argument.
  A missing state is written as an empty object.
\<close>

record csv_text =
  ct_state :: "entity_state \<Rightarrow> string"
  ct_event :: "AuditEventType \<Rightarrow> string"
  ct_severity :: "AuditSeverity \<Rightarrow> string"
  ct_date :: "timestamp \<Rightarrow> string"

definition csvFields :: "csv_text \<Rightarrow> AuditLog \<Rightarrow> string list" where
  "csvFields t e =
     (let state = (\<lambda>s. escapeCSV (ct_state t (case s of None \<Rightarrow> [] | Some x \<Rightarrow> x)))
      in [natText (al_id e), (case al_userId e of None \<Rightarrow> [] | Some u \<Rightarrow> natText u), ct_event t (al_eventType e),
          ct_severity t (al_severity e), orEmpty (al_entityType e), orEmpty (al_entityId e),
          state (al_beforeState e), state (al_afterState e), state (al_metadata e), orEmpty (al_ipAddress e),
          escapeCSV (orEmpty (al_userAgent e)), orEmpty (al_requestId e), al_checksum e, al_previousChecksum e,
          ct_date t (al_createdAt e)])"

definition csvHeader :: "string list" where
  "csvHeader = [''ID'', ''User ID'', ''Event Type'', ''Severity'', ''Entity Type'', ''Entity ID'', ''Before State'',
     ''After State'', ''Metadata'', ''IP Address'', ''User Agent'', ''Request ID'', ''Checksum'', ''Previous Checksum'',
     ''Created At'']"

definition exportAuditLog :: "csv_text \<Rightarrow> timestamp \<Rightarrow> timestamp \<Rightarrow> AuditLog list \<Rightarrow> string list" where
  "exportAuditLog t from1 to1 logs =
     joinComma csvHeader #
     map (\<lambda>e. joinComma (map quoted (csvFields t e)))
       (sort_key al_createdAt (filter (\<lambda>e. from1 \<le> al_createdAt e \<and> al_createdAt e \<le> to1) logs))"

section \<open>Runs of requests\<close>

record audit_request =
  rq_id :: uuid
  rq_now :: timestamp
  rq_createdAt :: timestamp
  rq_dto :: CreateAuditLogDto

definition logRequest :: "(checksum_data \<Rightarrow> string) \<Rightarrow> audit_request \<Rightarrow> AuditLog list \<Rightarrow> AuditLog list" where
  "logRequest sha256 r logs =
     (case auditLogOf sha256 (rq_id r) (rq_now r) (rq_createdAt r) (rq_dto r) logs of Inl _ \<Rightarrow> logs | Inr logs' \<Rightarrow> logs')"

definition chain_inv :: "AuditLog list \<Rightarrow> bool" where
  "chain_inv logs \<longleftrightarrow> sorted_wrt (<) (map al_createdAt logs) \<and> brokenLinks logs = [] \<and> distinct (map al_checksum logs)"

lemma chain_sorted: "sorted_wrt (<) (map al_createdAt logs) \<Longrightarrow> sort_key al_createdAt logs = logs"
  by (simp add: sort_key_id_if_sorted strict_sorted_imp_sorted)

lemma brokenLinks_append:
  "xs \<noteq> [] \<Longrightarrow> ys \<noteq> [] \<Longrightarrow> brokenLinks (xs @ ys) =
     brokenLinks xs @ (if al_previousChecksum (hd ys) \<noteq> al_checksum (List.last xs) then [hd ys] else []) @ brokenLinks ys"
proof (induction xs)
  case (Cons x xs)
  then show ?case by (cases xs; cases ys) simp_all
qed simp

lemma previousOf_chain:
  "chain_inv logs \<Longrightarrow> previousOf logs = (if logs = [] then ''GENESIS'' else al_checksum (List.last logs))"
  by (simp add: previousOf_def lastEntry_def chain_inv_def chain_sorted)

lemma newEntry_simps [simp]:
  "al_createdAt (newEntry sha256 i now c dto prev) = c" "al_previousChecksum (newEntry sha256 i now c dto prev) = prev"
  "al_checksum (newEntry sha256 i now c dto prev) = sha256 (rawData dto now prev)"
  by (simp_all add: newEntry_def)

lemma logRequest_keeps:
  assumes "chain_inv logs" and "\<forall>e\<in>set logs. al_createdAt e < rq_createdAt r"
  shows "chain_inv (logRequest sha256 r logs)"
    and "\<forall>e\<in>set (logRequest sha256 r logs). al_createdAt e \<le> rq_createdAt r"
proof -
  let ?e = "newEntry sha256 (rq_id r) (rq_now r) (rq_createdAt r) (rq_dto r) (previousOf logs)"
  have cases: "logRequest sha256 r logs = logs \<or>
      logRequest sha256 r logs = logs @ [?e] \<and> al_checksum ?e \<notin> al_checksum ` set logs"
    by (auto simp: logRequest_def auditLogOf_def saveEntry_def list_ex_iff)
  have "chain_inv (logs @ [?e])" if "al_checksum ?e \<notin> al_checksum ` set logs"
    using assms that previousOf_chain [OF assms(1)]
    by (cases "logs = []") (auto simp: chain_inv_def sorted_wrt_append brokenLinks_append)
  then show "chain_inv (logRequest sha256 r logs)" using cases assms(1) by auto
  show "\<forall>e\<in>set (logRequest sha256 r logs). al_createdAt e \<le> rq_createdAt r"
    using cases assms(2) by (auto intro: less_imp_le)
qed

lemma run_keeps_chain:
  assumes "chain_inv logs" and "sorted_wrt (<) (map rq_createdAt rs)"
    and "\<forall>e\<in>set logs. \<forall>r\<in>set rs. al_createdAt e < rq_createdAt r"
  shows "chain_inv (fold (logRequest sha256) rs logs)"
  using assms
proof (induction rs arbitrary: logs)
  case (Cons r rs)
  have later: "\<forall>r'\<in>set rs. rq_createdAt r < rq_createdAt r'" using Cons.prems(2) by simp
  have kept: "chain_inv (logRequest sha256 r logs)" "\<forall>e\<in>set (logRequest sha256 r logs). al_createdAt e \<le> rq_createdAt r"
    using logRequest_keeps [of logs r sha256] Cons.prems by auto
  have "\<forall>e\<in>set (logRequest sha256 r logs). \<forall>r'\<in>set rs. al_createdAt e < rq_createdAt r'"
    using kept(2) later by (meson le_less_trans)
  then show ?case using Cons.IH [OF kept(1)] Cons.prems(2) by simp
qed simp

lemma empty_chain: "chain_inv []"
  by (simp add: chain_inv_def)

lemma verify_chain: "chain_inv logs \<Longrightarrow> verifyChainIntegrity logs = ([], True)"
  by (simp add: verifyChainIntegrity_def chain_inv_def chain_sorted)

text \<open>
  C34. Entries written one after another form a chain that the check accepts, with different
  checksums, whatever is logged and whatever the hash does: an entry whose checksum is taken already
  is refused and leaves the chain as it was.
\<close>

theorem sequential_log_is_a_valid_chain:
  assumes "sorted_wrt (<) (map rq_createdAt rs)"
  shows "let logs = fold (logRequest sha256) rs [] in
    verifyChainIntegrity logs = ([], True) \<and> distinct (map al_checksum logs)"
  using run_keeps_chain [OF empty_chain assms, of sha256] by (simp add: Let_def verify_chain chain_inv_def)

text \<open>
  C35. Whoever takes entries out of the middle of the log is found out. When the log was written one entry
  after another at strictly increasing times and a part with entries before and after it is removed, the
  check fails and names the first entry after the gap. Entries written at once share their previous
  checksum, and the check then is no such guard.
\<close>

theorem deletion_inside_the_log_is_detected:
  assumes "sorted_wrt (<) (map rq_createdAt rs)" and "fold (logRequest sha256) rs [] = kept @ removed @ rest"
    and "kept \<noteq> []" and "removed \<noteq> []" and "rest \<noteq> []"
  shows "verifyChainIntegrity (kept @ rest) = ([hd rest], False)"
proof -
  have inv: "chain_inv (kept @ removed @ rest)"
    using run_keeps_chain [OF empty_chain assms(1), of sha256] assms(2) by simp
  have linked: "brokenLinks kept = []" "brokenLinks rest = []" "al_previousChecksum (hd rest) = al_checksum (List.last removed)"
    using inv assms(3-5) by (auto simp: chain_inv_def brokenLinks_append split: if_splits)
  have "al_checksum (List.last removed) \<noteq> al_checksum (List.last kept)"
  proof -
    have "al_checksum ` set kept \<inter> al_checksum ` set removed = {}" using inv by (auto simp: chain_inv_def)
    then show ?thesis using last_in_set [OF assms(3)] last_in_set [OF assms(4)] by (metis IntI empty_iff imageI)
  qed
  moreover have "sort_key al_createdAt (kept @ rest) = kept @ rest"
    using inv by (intro chain_sorted) (auto simp: chain_inv_def sorted_wrt_append)
  ultimately show ?thesis
    using linked assms(3,5) by (simp add: verifyChainIntegrity_def brokenLinks_append)
qed

text \<open>The check compares neighbours only: it never computes a checksum, and looks at nothing before the first entry.\<close>

lemma sort_key_map: "sort_key k (map f xs) = map f (sort_key (\<lambda>x. k (f x)) xs)"
proof -
  have "insort_key k (f x) (map f ys) = map f (insort_key (\<lambda>x. k (f x)) x ys)" for x ys
    by (induction ys) simp_all
  then show ?thesis by (induction xs) simp_all
qed

lemma brokenLinks_map:
  assumes "\<And>e. al_checksum (f e) = al_checksum e" and "\<And>e. al_previousChecksum (f e) = al_previousChecksum e"
  shows "brokenLinks (map f xs) = map f (brokenLinks xs)"
  by (induction xs rule: brokenLinks.induct) (simp_all add: assms)

text \<open>
  Altered contents pass the check: whatever is changed in any number of entries, users, events,
  states, metadata, as long as the two checksums and the creation time stay, the check reports exactly
  what it reported before. The checksum is stored and never computed again; the clock value it was
  computed from is not stored at all.
\<close>

theorem altered_contents_pass_the_check:
  assumes "\<And>e. al_checksum (f e) = al_checksum e" and "\<And>e. al_previousChecksum (f e) = al_previousChecksum e"
    and "\<And>e. al_createdAt (f e) = al_createdAt e"
  shows "snd (verifyChainIntegrity (map f logs)) = snd (verifyChainIntegrity logs)"
  by (simp add: verifyChainIntegrity_def Let_def sort_key_map assms brokenLinks_map)

lemma oldest_and_newest_can_be_removed:
  assumes "chain_inv (older @ kept @ newer)"
  shows "verifyChainIntegrity kept = ([], True)"
proof (cases "older = [] \<or> kept = []")
  case True
  then show ?thesis
    using assms brokenLinks_append [of kept newer]
    by (intro verify_chain) (cases "kept = []"; cases "newer = []"; auto simp: chain_inv_def sorted_wrt_append)
next
  case False
  then have "brokenLinks (kept @ newer) = []"
    using assms by (auto simp: chain_inv_def brokenLinks_append)
  then show ?thesis
    using assms False brokenLinks_append [of kept newer]
    by (intro verify_chain) (cases "newer = []"; auto simp: chain_inv_def sorted_wrt_append)
qed

text \<open>
  Two requests that both read the last entry before either writes: the check reports the second one,
  although nobody touched the log.
\<close>

lemma concurrent_entries_break_the_chain:
  assumes "chain_inv logs" and "\<forall>e\<in>set logs. al_createdAt e < c1" and "c1 < c2"
    and "e1 = newEntry sha256 i1 now1 c1 dto1 (previousOf logs)"
    and "e2 = newEntry sha256 i2 now2 c2 dto2 (previousOf logs)"
    and "al_checksum e1 \<noteq> previousOf logs"
  shows "verifyChainIntegrity (logs @ [e1, e2]) = ([e2], False)"
proof -
  have "sort_key al_createdAt (logs @ [e1, e2]) = logs @ [e1, e2]"
    using assms by (intro chain_sorted) (auto simp: chain_inv_def sorted_wrt_append dest: less_trans)
  then show ?thesis
    using assms previousOf_chain [OF assms(1)]
    by (cases "logs = []") (auto simp: verifyChainIntegrity_def brokenLinks_append chain_inv_def)
qed

section \<open>Pages and export\<close>

lemma chunks: "concat (map (\<lambda>i. take n (drop (i * n) xs)) [0..<k]) = take (k * n) xs"
  by (induction k) (simp_all add: take_add [symmetric] add.commute)

text \<open>
  The pages of a query hold every entry that matches exactly once: put together, the pages from
  the first to the last are the matching entries, newest first, and every page has at most the
  requested length.
\<close>

theorem audit_pages_cover_the_trail:
  shows "concat (map (\<lambda>p. ap_data (getAuditTrail (f\<lparr>af_page := p\<rparr>) logs)) [1..<Suc (ap_totalPages (getAuditTrail f logs))]) =
      newestFirst (filter (filterMatches f) logs) \<and>
    length (ap_data (getAuditTrail f logs)) \<le> ap_limit (getAuditTrail f logs)"
proof -
  let ?n = "orDefault 50 (af_limit f)"
  let ?found = "newestFirst (filter (filterMatches f) logs)"
  have n: "0 < ?n" by (simp add: orDefault_def)
  have same: "filterMatches (f\<lparr>af_page := p\<rparr>) = filterMatches f" for p
    by (simp add: filterMatches_def fun_eq_iff)
  let ?k = "(length ?found + ?n - 1) div ?n"
  have page: "ap_data (getAuditTrail (f\<lparr>af_page := Suc i\<rparr>) logs) = take ?n (drop (i * ?n) ?found)" for i
    by (simp add: getAuditTrail_def Let_def same) (simp add: orDefault_def)
  have "length ?found \<le> ?k * ?n"
    using n div_mult_mod_eq [of "length ?found + ?n - 1" ?n] mod_less_divisor [OF n, of "length ?found + ?n - 1"] by linarith
  then have "concat (map (\<lambda>i. ap_data (getAuditTrail (f\<lparr>af_page := Suc i\<rparr>) logs)) [0..<?k]) = ?found"
    unfolding page chunks by simp
  then show ?thesis
    by (simp add: getAuditTrail_def Let_def map_Suc_upt [symmetric] comp_def del: upt_Suc)
qed

text \<open>A reader of quoted fields: two quotes stand for one, a single one ends the field.\<close>

fun readQuoted :: "string \<Rightarrow> string \<times> string" where
  "readQuoted [] = ([], [])"
| "readQuoted [c] = (if c = CHR 0x22 then ([], []) else ([c], []))"
| "readQuoted (c # d # cs) =
     (if c = CHR 0x22 then (if d = CHR 0x22 then (case readQuoted cs of (s, r) \<Rightarrow> (d # s, r)) else ([], d # cs))
      else (case readQuoted (d # cs) of (s, r) \<Rightarrow> (c # s, r)))"

lemma readQuoted_plain: "c \<noteq> CHR 0x22 \<Longrightarrow> readQuoted (c # cs) = (case readQuoted cs of (s, r) \<Rightarrow> (c # s, r))"
  by (cases cs) simp_all

text \<open>Escaped fields can be read back, wherever they stand in a row.\<close>

lemma csv_field_roundtrip:
  "rest = [] \<or> hd rest \<noteq> CHR 0x22 \<Longrightarrow> readQuoted (escapeCSV s @ CHR 0x22 # rest) = (s, rest)"
proof (induction s)
  case Nil
  then show ?case by (cases rest) auto
next
  case (Cons c s)
  then show ?case by (cases "c = CHR 0x22") (simp_all add: readQuoted_plain)
qed

text \<open>An entity id is written without escaping: with a quote in it the row has another field than the log.\<close>

lemma unescaped_field_is_cut: "fst (readQuoted ([CHR ''a'', CHR 0x22, CHR ''b''] @ [CHR 0x22])) = ''a''"
  by simp

text \<open>A property that is an object counts as changed in every entry that has it.\<close>

lemma compound_values_always_differ:
  assumes "map_of b k = Some (Compound t)"
  shows "(k, Some (Compound t), map_of a k) \<in> set (computeDelta (Some b) (Some a))"
proof -
  have "k \<in> fst ` set b" using assms by (force dest: map_of_SomeD)
  moreover have "\<not> strictlyEqual (Some (Compound t)) v" for v by (cases v) simp_all
  ultimately show ?thesis using assms by (auto simp: computeDelta_def image_iff)
qed

section \<open>Witnesses\<close>

definition ex_dto :: "uuid \<Rightarrow> CreateAuditLogDto" where
  "ex_dto u = \<lparr>ca_userId = Some u, ca_eventType = LOGIN, ca_severity = None, ca_entityType = None, ca_entityId = None,
     ca_beforeState = None, ca_afterState = None, ca_metadata = None, ca_ipAddress = None, ca_userAgent = None,
     ca_requestId = None\<rparr>"

definition ex_request :: "nat \<Rightarrow> audit_request" where
  "ex_request n = \<lparr>rq_id = n, rq_now = int n, rq_createdAt = int n, rq_dto = ex_dto n\<rparr>"

definition ex_sha :: "checksum_data \<Rightarrow> string" where
  "ex_sha d = replicate (nat (cd_timestamp d)) CHR ''x''"

theorem sequential_log_is_a_valid_chain_witness:
  "verifyChainIntegrity (fold (logRequest ex_sha) [ex_request 2, ex_request 3] []) = ([], True)"
  using sequential_log_is_a_valid_chain [of "[ex_request 2, ex_request 3]" ex_sha]
  by (simp add: ex_request_def Let_def)

definition ex_entry :: "nat \<Rightarrow> string \<Rightarrow> AuditLog" where
  "ex_entry n prev = newEntry ex_sha n (int n) (int n) (ex_dto n) prev"

lemma ex_log:
  "fold (logRequest ex_sha) [ex_request 2, ex_request 3, ex_request 4] [] =
     [ex_entry 2 ''GENESIS''] @ [ex_entry 3 ''xx''] @ [ex_entry 4 ''xxx'']"
  by (simp add: logRequest_def auditLogOf_def saveEntry_def ex_request_def previousOf_def lastEntry_def
      ex_entry_def ex_sha_def rawData_def eval_nat_numeral)

theorem deletion_inside_the_log_is_detected_witness:
  "verifyChainIntegrity ([ex_entry 2 ''GENESIS''] @ [ex_entry 4 ''xxx'']) = ([ex_entry 4 ''xxx''], False)"
proof -
  have "sorted_wrt (<) (map rq_createdAt [ex_request 2, ex_request 3, ex_request 4])" by (simp add: ex_request_def)
  from deletion_inside_the_log_is_detected [OF this ex_log] show ?thesis by simp
qed

theorem altered_contents_pass_the_check_witness:
  "snd (verifyChainIntegrity (map (\<lambda>e. e\<lparr>al_userId := Some 99\<rparr>) [ex_entry 2 ''GENESIS'', ex_entry 3 ''xx'']))"
proof -
  have "snd (verifyChainIntegrity [ex_entry 2 ''GENESIS'', ex_entry 3 ''xx''])"
    by (simp add: verifyChainIntegrity_def ex_entry_def ex_sha_def rawData_def eval_nat_numeral)
  then show ?thesis
    using altered_contents_pass_the_check [of "\<lambda>e. e\<lparr>al_userId := Some 99\<rparr>" "[ex_entry 2 ''GENESIS'', ex_entry 3 ''xx'']"]
    by simp
qed

end
