(* ===== verification/Compliance.thy ===== *)
theory Compliance
  imports AuditChain
begin

text \<open>
  Compliance: the screening of transactions by rules in \<open>compliance/services/compliance-monitoring.service.ts\<close>,
  the reports of \<open>regulatory-reporting.service.ts\<close>, and their tables.

  Where the code draws a random number in place of a query (the volume and the number of transactions
  of a user), the number is an argument; so are the local hour of a time, generated ids and the
  reference the authority returns. What is only logged is left out, but the action a rule asks for is
  kept as a note. Reading a text as a number is an argument of the validation of report fields.

  The body of the route that screens a transaction is not validated: JSON has no dates, so the time is
  a text there, and the counterparties may be missing. The amount is a number and the other texts are
  texts.
\<close>

section \<open>Rules, alerts and the audit trail\<close>

datatype RuleType =
    TRANSACTION_LIMIT | GEOGRAPHIC_RESTRICTION | ASSET_RESTRICTION | VOLUME_LIMIT | FREQUENCY_LIMIT
  | AML_SCREENING | KYC_VERIFICATION | SANCTIONS_CHECK

datatype RuleSeverity = SeverityLow | SeverityMedium | SeverityHigh | SeverityCritical

datatype RuleStatus = RuleActive | RuleInactive | RuleSuspended

datatype ActionType = BLOCK | FLAG | REQUIRE_APPROVAL | NOTIFY | LOG_ONLY

text \<open>The conditions of a rule are a JSON object; every property may be missing.\<close>

record rule_conditions =
  rc_minAmount :: "real option"
  rc_maxAmount :: "real option"
  rc_currency :: "string option"
  rc_restrictedCountries :: "string list option"
  rc_allowedCountries :: "string list option"
  rc_restrictedAssets :: "string list option"
  rc_allowedAssets :: "string list option"
  rc_period :: "string option"
  rc_maxVolume :: "real option"
  rc_maxTransactions :: "real option"
  rc_patterns :: "string list option"
  rc_checkCounterparties :: bool
  rc_checkLocation :: bool

record ComplianceRuleEntity =
  cr_id :: uuid
  cr_ruleName :: string
  cr_ruleType :: RuleType
  cr_severity :: RuleSeverity
  cr_status :: RuleStatus
  cr_description :: string
  cr_conditions :: rule_conditions
  cr_action :: ActionType

datatype tx_time = DateObject timestamp | JsonText string

record TransactionData =
  tx_id :: string
  tx_userId :: uuid
  tx_amount :: real
  tx_currency :: string
  tx_timestamp :: tx_time
  tx_ipAddress :: string
  tx_userAgent :: string
  tx_counterparties :: "string list option"
  tx_geographicLocation :: "string option"
  tx_assetSymbol :: "string option"

datatype AlertStatus = AlertOpen | AlertInvestigating | AlertResolved | AlertFalsePositive | AlertEscalated

datatype AlertPriority = PriorityLow | PriorityMedium | PriorityHigh | PriorityCritical

record ComplianceAlertEntity =
  ce_id :: uuid
  ce_alertId :: string
  ce_userId :: uuid
  ce_ruleId :: uuid
  ce_transactionId :: string
  ce_alertType :: RuleType
  ce_status :: AlertStatus
  ce_priority :: AlertPriority
  ce_severity :: RuleSeverity
  ce_title :: string
  ce_description :: string
  ce_actionTaken :: ActionType
  ce_riskScore :: real
  ce_resolutionDetails :: "string option"
  ce_resolvedBy :: "uuid option"
  ce_resolvedAt :: "timestamp option"
  ce_createdAt :: timestamp
  ce_regulatoryReportRequired :: bool
  ce_regulatoryReportStatus :: "string option"

datatype AuditStatus = AuditSuccess | AuditFailure | AuditPartial | AuditPending

record AuditTrailEntity =
  at_userId :: uuid
  at_resourceId :: string
  at_status :: AuditStatus
  at_triggeredRules :: "uuid list"
  at_totalRules :: nat
  at_riskScore :: "real option"
  at_ipAddress :: string
  at_userAgent :: string
  at_isSensitiveOperation :: bool

datatype action_note = TransactionBlocked string | TransactionFlagged string uuid | ApprovalRequired string uuid
  | NotificationSent uuid

record RuleEvaluation =
  re_rule :: ComplianceRuleEntity
  re_triggered :: bool
  re_riskScore :: real

record compliance_db =
  co_rules :: "ComplianceRuleEntity list"
  co_alerts :: "ComplianceAlertEntity list"
  co_audits :: "AuditTrailEntity list"
  co_notes :: "action_note list"
  co_watchlist :: "string set"
  co_sanctionedCountries :: "string set"

definition loadComplianceData :: "compliance_db \<Rightarrow> compliance_db" where
  "loadComplianceData db = db\<lparr>co_watchlist := co_watchlist db \<union> {''SANCTIONED_ENTITY_1'', ''SANCTIONED_ENTITY_2''},
     co_sanctionedCountries := co_sanctionedCountries db \<union> {''XX'', ''YY''}\<rparr>"

section \<open>The rules\<close>

text \<open>\<open>currency && transaction.currency !== currency\<close>: the empty text does not restrict.\<close>

definition otherCurrency :: "rule_conditions \<Rightarrow> TransactionData \<Rightarrow> bool" where
  "otherCurrency c tx = (case rc_currency c of None \<Rightarrow> False | Some cur \<Rightarrow> cur \<noteq> [] \<and> tx_currency tx \<noteq> cur)"

text \<open>A limit of zero does not restrict either.\<close>

definition checkTransactionLimit :: "rule_conditions \<Rightarrow> TransactionData \<Rightarrow> bool" where
  "checkTransactionLimit c tx \<longleftrightarrow> \<not> otherCurrency c tx \<and>
     ((case rc_minAmount c of None \<Rightarrow> False | Some m \<Rightarrow> m \<noteq> 0 \<and> tx_amount tx < m) \<or>
      (case rc_maxAmount c of None \<Rightarrow> False | Some m \<Rightarrow> m \<noteq> 0 \<and> tx_amount tx > m))"

definition outsideLists :: "string option \<Rightarrow> string list option \<Rightarrow> string list option \<Rightarrow> bool" where
  "outsideLists item restricted allowed =
     (case item of
        None \<Rightarrow> False
      | Some x \<Rightarrow> x \<noteq> [] \<and>
          ((case restricted of None \<Rightarrow> False | Some xs \<Rightarrow> x \<in> set xs) \<or>
           (case allowed of None \<Rightarrow> False | Some xs \<Rightarrow> x \<notin> set xs)))"

definition checkGeographicRestriction :: "rule_conditions \<Rightarrow> TransactionData \<Rightarrow> bool" where
  "checkGeographicRestriction c tx =
     outsideLists (tx_geographicLocation tx) (rc_restrictedCountries c) (rc_allowedCountries c)"

definition checkAssetRestriction :: "rule_conditions \<Rightarrow> TransactionData \<Rightarrow> bool" where
  "checkAssetRestriction c tx = outsideLists (tx_assetSymbol tx) (rc_restrictedAssets c) (rc_allowedAssets c)"

text \<open>\<open>random\<close> is a number from 0 up to 1. A comparison with a missing limit is false.\<close>

definition checkVolumeLimit :: "real \<Rightarrow> rule_conditions \<Rightarrow> TransactionData \<Rightarrow> bool" where
  "checkVolumeLimit random c tx \<longleftrightarrow> \<not> otherCurrency c tx \<and>
     rc_period c \<in> {Some ''daily'', Some ''weekly'', Some ''monthly''} \<and>
     (case rc_maxVolume c of None \<Rightarrow> False | Some m \<Rightarrow> random * 100000 + tx_amount tx > m)"

definition checkFrequencyLimit :: "real \<Rightarrow> rule_conditions \<Rightarrow> TransactionData \<Rightarrow> bool" where
  "checkFrequencyLimit random c tx \<longleftrightarrow>
     rc_period c \<in> {Some ''hourly'', Some ''daily'', Some ''weekly''} \<and>
     (case rc_maxTransactions c of None \<Rightarrow> False | Some m \<Rightarrow> real_of_int \<lfloor>random * 50\<rfloor> \<ge> m)"

text \<open>A text has no \<open>getHours\<close>.\<close>

definition matchesPattern :: "(timestamp \<Rightarrow> nat) \<Rightarrow> TransactionData \<Rightarrow> string \<Rightarrow> bool result" where
  "matchesPattern hourOf tx pattern =
     (if pattern = ''round_amount'' then Inr (tx_amount tx = 1000 * real_of_int \<lfloor>tx_amount tx / 1000\<rfloor>)
      else if pattern = ''high_velocity'' then Inr (tx_amount tx > 10000)
      else if pattern = ''unusual_timing''
      then (case tx_timestamp tx of
              JsonText _ \<Rightarrow> Inl (JsError ''transactionData.timestamp.getHours is not a function'')
            | DateObject t \<Rightarrow> Inr (hourOf t < 6 \<or> hourOf t > 22))
      else if pattern = ''structuring'' then Inr (tx_amount tx > 9000 \<and> tx_amount tx < 10000)
      else Inr False)"

text \<open>The loop ends with the first pattern that matches.\<close>

fun matchesAny :: "(timestamp \<Rightarrow> nat) \<Rightarrow> TransactionData \<Rightarrow> string list \<Rightarrow> bool result" where
  "matchesAny hourOf tx [] = Inr False"
| "matchesAny hourOf tx (p # ps) =
     rbind (matchesPattern hourOf tx p) (\<lambda>m. if m then Inr True else matchesAny hourOf tx ps)"

text \<open>Without patterns there is nothing to iterate over.\<close>

definition checkAMLScreening :: "(timestamp \<Rightarrow> nat) \<Rightarrow> rule_conditions \<Rightarrow> TransactionData \<Rightarrow> bool result" where
  "checkAMLScreening hourOf c tx =
     (case rc_patterns c of
        None \<Rightarrow> Inl (JsError ''patterns is not iterable'')
      | Some ps \<Rightarrow> matchesAny hourOf tx ps)"

definition inSanctionedCountry :: "compliance_db \<Rightarrow> TransactionData \<Rightarrow> bool" where
  "inSanctionedCountry db tx \<longleftrightarrow> orEmpty (tx_geographicLocation tx) \<in> co_sanctionedCountries db"

definition checkSanctions :: "compliance_db \<Rightarrow> rule_conditions \<Rightarrow> TransactionData \<Rightarrow> bool result" where
  "checkSanctions db c tx =
     (if rc_checkLocation c \<and> inSanctionedCountry db tx then Inr True
      else if rc_checkCounterparties c
      then (case tx_counterparties tx of
              None \<Rightarrow> Inl (JsError ''transactionData.counterparties is not iterable'')
            | Some ps \<Rightarrow> Inr (list_ex (\<lambda>p. p \<in> co_watchlist db) ps))
      else Inr False)"

definition checkRuleConditions ::
  "compliance_db \<Rightarrow> (timestamp \<Rightarrow> nat) \<Rightarrow> real \<Rightarrow> ComplianceRuleEntity \<Rightarrow> TransactionData \<Rightarrow> bool result" where
  "checkRuleConditions db hourOf random rule tx =
     (let c = cr_conditions rule
      in case cr_ruleType rule of
           TRANSACTION_LIMIT \<Rightarrow> Inr (checkTransactionLimit c tx)
         | GEOGRAPHIC_RESTRICTION \<Rightarrow> Inr (checkGeographicRestriction c tx)
         | ASSET_RESTRICTION \<Rightarrow> Inr (checkAssetRestriction c tx)
         | VOLUME_LIMIT \<Rightarrow> Inr (checkVolumeLimit random c tx)
         | FREQUENCY_LIMIT \<Rightarrow> Inr (checkFrequencyLimit random c tx)
         | AML_SCREENING \<Rightarrow> checkAMLScreening hourOf c tx
         | KYC_VERIFICATION \<Rightarrow> Inr False
         | SANCTIONS_CHECK \<Rightarrow> checkSanctions db c tx)"

fun severityScore :: "RuleSeverity \<Rightarrow> real" where
  "severityScore SeverityLow = 25"
| "severityScore SeverityMedium = 50"
| "severityScore SeverityHigh = 75"
| "severityScore SeverityCritical = 100"

definition riskScoreOf :: "compliance_db \<Rightarrow> ComplianceRuleEntity \<Rightarrow> TransactionData \<Rightarrow> real" where
  "riskScoreOf db rule tx = min 100 (severityScore (cr_severity rule) +
     (if tx_amount tx > 50000 then 10 else 0) + (if inSanctionedCountry db tx then 20 else 0))"

definition evaluateRule ::
  "compliance_db \<Rightarrow> (timestamp \<Rightarrow> nat) \<Rightarrow> real \<Rightarrow> ComplianceRuleEntity \<Rightarrow> TransactionData \<Rightarrow> RuleEvaluation result" where
  "evaluateRule db hourOf random rule tx =
     map_sum id (\<lambda>triggered. \<lparr>re_rule = rule, re_triggered = triggered,
       re_riskScore = (if triggered then riskScoreOf db rule tx else 0)\<rparr>) (checkRuleConditions db hourOf random rule tx)"

text \<open>Enum columns sort in the order of their values, the greatest severity first here.\<close>

fun severityRank :: "RuleSeverity \<Rightarrow> nat" where
  "severityRank SeverityLow = 3"
| "severityRank SeverityMedium = 2"
| "severityRank SeverityHigh = 1"
| "severityRank SeverityCritical = 0"

definition getApplicableRules :: "compliance_db \<Rightarrow> ComplianceRuleEntity list" where
  "getApplicableRules db = sort_key (\<lambda>r. severityRank (cr_severity r)) (filter (\<lambda>r. cr_status r = RuleActive) (co_rules db))"

fun mapSeverityToPriority :: "RuleSeverity \<Rightarrow> AlertPriority" where
  "mapSeverityToPriority SeverityLow = PriorityLow"
| "mapSeverityToPriority SeverityMedium = PriorityMedium"
| "mapSeverityToPriority SeverityHigh = PriorityHigh"
| "mapSeverityToPriority SeverityCritical = PriorityCritical"

section \<open>Screening a transaction\<close>

record compliance_ids =
  ci_id :: "nat \<Rightarrow> uuid"
  ci_alertId :: "nat \<Rightarrow> string"

definition createAlert :: "uuid \<Rightarrow> string \<Rightarrow> timestamp \<Rightarrow> RuleEvaluation \<Rightarrow> TransactionData \<Rightarrow> ComplianceAlertEntity" where
  "createAlert newId alertId now e tx =
     \<lparr>ce_id = newId, ce_alertId = alertId, ce_userId = tx_userId tx, ce_ruleId = cr_id (re_rule e),
      ce_transactionId = tx_id tx, ce_alertType = cr_ruleType (re_rule e), ce_status = AlertOpen,
      ce_priority = mapSeverityToPriority (cr_severity (re_rule e)), ce_severity = cr_severity (re_rule e),
      ce_title = ''Compliance Alert: '' @ cr_ruleName (re_rule e),
      ce_description = ''Transaction '' @ tx_id tx @ '' triggered rule: '' @ cr_description (re_rule e),
      ce_actionTaken = cr_action (re_rule e), ce_riskScore = re_riskScore e, ce_resolutionDetails = None,
      ce_resolvedBy = None, ce_resolvedAt = None, ce_createdAt = now, ce_regulatoryReportRequired = False,
      ce_regulatoryReportStatus = None\<rparr>"

definition takeAction :: "ActionType \<Rightarrow> uuid \<Rightarrow> TransactionData \<Rightarrow> action_note list" where
  "takeAction action alertId tx =
     (case action of
        BLOCK \<Rightarrow> [TransactionBlocked (tx_id tx)]
      | FLAG \<Rightarrow> [TransactionFlagged (tx_id tx) alertId]
      | REQUIRE_APPROVAL \<Rightarrow> [ApprovalRequired (tx_id tx) alertId]
      | NOTIFY \<Rightarrow> [NotificationSent alertId]
      | LOG_ONLY \<Rightarrow> [])"

fun raiseAlerts ::
  "compliance_ids \<Rightarrow> timestamp \<Rightarrow> TransactionData \<Rightarrow> nat \<Rightarrow> RuleEvaluation list \<Rightarrow> compliance_db \<Rightarrow>
     ComplianceAlertEntity list \<times> compliance_db" where
  "raiseAlerts ids now tx n [] db = ([], db)"
| "raiseAlerts ids now tx n (e # es) db =
     (if re_triggered e
      then let alert = createAlert (ci_id ids n) (ci_alertId ids n) now e tx;
               db1 = db\<lparr>co_alerts := co_alerts db @ [alert],
                        co_notes := co_notes db @ takeAction (cr_action (re_rule e)) (ce_id alert) tx\<rparr>
           in case raiseAlerts ids now tx (Suc n) es db1 of (alerts, db2) \<Rightarrow> (alert # alerts, db2)
      else raiseAlerts ids now tx n es db)"

text \<open>\<open>Math.max()\<close> of no numbers is negative infinity, which JSON cannot hold: the column gets null.\<close>

definition auditEntry :: "TransactionData \<Rightarrow> RuleEvaluation list \<Rightarrow> AuditTrailEntity" where
  "auditEntry tx es =
     (let triggeredRules = map (\<lambda>e. cr_id (re_rule e)) (filter re_triggered es)
      in \<lparr>at_userId = tx_userId tx, at_resourceId = tx_id tx,
          at_status = (if triggeredRules \<noteq> [] then AuditFailure else AuditSuccess),
          at_triggeredRules = triggeredRules, at_totalRules = length es,
          at_riskScore = (if es = [] then None else Some (fold max (map re_riskScore (tl es)) (re_riskScore (hd es)))),
          at_ipAddress = tx_ipAddress tx, at_userAgent = tx_userAgent tx,
          at_isSensitiveOperation = (triggeredRules \<noteq> [])\<rparr>)"

fun evaluateAll ::
  "compliance_db \<Rightarrow> (timestamp \<Rightarrow> nat) \<Rightarrow> (uuid \<Rightarrow> real) \<Rightarrow> TransactionData \<Rightarrow> ComplianceRuleEntity list \<Rightarrow> RuleEvaluation list result" where
  "evaluateAll db hourOf random tx [] = Inr []"
| "evaluateAll db hourOf random tx (r # rs) =
     rbind (evaluateRule db hourOf (random (cr_id r)) r tx)
       (\<lambda>e. rbind (evaluateAll db hourOf random tx rs) (\<lambda>es. Inr (e # es)))"

definition monitorTransaction ::
  "(timestamp \<Rightarrow> nat) \<Rightarrow> (uuid \<Rightarrow> real) \<Rightarrow> compliance_ids \<Rightarrow> timestamp \<Rightarrow> TransactionData \<Rightarrow> compliance_db \<Rightarrow>
     (ComplianceAlertEntity list \<times> compliance_db) result" where
  "monitorTransaction hourOf random ids now tx db =
     rbind (evaluateAll db hourOf random tx (getApplicableRules db))
       (\<lambda>evaluations. case raiseAlerts ids now tx 0 evaluations db of (alerts, db1) \<Rightarrow>
          Inr (alerts, db1\<lparr>co_audits := co_audits db1 @ [auditEntry tx evaluations]\<rparr>))"

definition getActiveAlerts :: "uuid option \<Rightarrow> compliance_db \<Rightarrow> ComplianceAlertEntity list" where
  "getActiveAlerts user db = sort_key (\<lambda>a. - ce_createdAt a) (filter (\<lambda>a. ce_status a = AlertOpen \<and>
     (case user of None \<Rightarrow> True | Some u \<Rightarrow> ce_userId a = u)) (co_alerts db))"

definition resolveAlert :: "uuid \<Rightarrow> string \<Rightarrow> uuid \<Rightarrow> timestamp \<Rightarrow> compliance_db \<Rightarrow> compliance_db" where
  "resolveAlert alertId details by1 now db =
     db\<lparr>co_alerts := map (\<lambda>a. if ce_id a = alertId
       then a\<lparr>ce_status := AlertResolved, ce_resolutionDetails := Some details, ce_resolvedBy := Some by1,
              ce_resolvedAt := Some now\<rparr> else a) (co_alerts db)\<rparr>"

section \<open>Regulatory reports\<close>

datatype ReportType =
    SAR | CTR | AML | KYC | TRANSACTION_MONITORING | SANCTIONS_SCREENING | RISK_ASSESSMENT | COMPLIANCE_SUMMARY
  | AUDIT_TRAIL | INCIDENT_REPORT | SEC_FORM_4 | FINRA_CAT

datatype ReportStatus = DRAFT | PENDING_REVIEW | SUBMITTED | ACKNOWLEDGED | REJECTED | APPROVED | ARCHIVED

datatype RegulatoryFramework = FATF | FINCEN | SEC | FINRA | GDPR | MiFID_II | AMLD | SOX | PCI_DSS | HIPAA

datatype report_value =
    RText string
  | RNumber real
  | RBool bool
  | RDate timestamp
  | RList "report_value list"
  | RObject "(string \<times> report_value) list"

type_synonym report_data = "(string \<times> report_value) list"

datatype field_rule = Required | MinValue real | MinLength nat

datatype submission_format = FormatJson | FormatXml | FormatCsv | FormatPdf

record ReportTemplate =
  rt_requiredFields :: "string list"
  rt_validationRules :: "(string \<times> field_rule \<times> string) list"
  rt_submissionFormat :: submission_format

fun reportTemplate :: "ReportType \<Rightarrow> RegulatoryFramework \<Rightarrow> ReportTemplate option" where
  "reportTemplate SAR FINCEN = Some \<lparr>
     rt_requiredFields = [''reportingEntity'', ''subjectUser'', ''suspiciousActivities'', ''transactionDetails'', ''timeframe''],
     rt_validationRules = [(''suspiciousActivities'', Required, ''Suspicious activities are required''),
       (''transactionDetails'', MinLength 1, ''At least one transaction is required'')],
     rt_submissionFormat = FormatJson\<rparr>"
| "reportTemplate CTR FINCEN = Some \<lparr>
     rt_requiredFields = [''reportingEntity'', ''transactionDetails'', ''totalAmount'', ''currency''],
     rt_validationRules = [(''totalAmount'', MinValue 10000, ''Total amount must be $10,000 or more'')],
     rt_submissionFormat = FormatJson\<rparr>"
| "reportTemplate AML FATF = Some \<lparr>
     rt_requiredFields = [''riskAssessment'', ''monitoringResults'', ''complianceMeasures''],
     rt_validationRules = [], rt_submissionFormat = FormatXml\<rparr>"
| "reportTemplate SEC_FORM_4 SEC = Some \<lparr>
     rt_requiredFields = [''reportingPerson'', ''issuer'', ''transactionDate'', ''derivativeSecurities'', ''nonDerivativeSecurities''],
     rt_validationRules = [(''transactionDate'', Required, ''Transaction date is required'')],
     rt_submissionFormat = FormatXml\<rparr>"
| "reportTemplate FINRA_CAT FINRA = Some \<lparr>
     rt_requiredFields = [''eventTimestamp'', ''orderID'', ''symbol'', ''quantity'', ''price'', ''side''],
     rt_validationRules = [(''orderID'', Required, ''Order ID is required''), (''symbol'', Required, ''Symbol is required'')],
     rt_submissionFormat = FormatJson\<rparr>"
| "reportTemplate _ _ = None"

text \<open>
  The columns of a report. \<open>dueDate\<close>, \<open>reportingEntity\<close>, \<open>reportingEntityId\<close> and \<open>submittedBy\<close> may
  not be null in the table; \<open>None\<close> is a property that was not set.
\<close>

record RegulatoryReportEntity =
  rr_id :: uuid
  rr_reportId :: string
  rr_reportType :: ReportType
  rr_status :: ReportStatus
  rr_regulatoryFramework :: RegulatoryFramework
  rr_reportingPeriodStart :: timestamp
  rr_reportingPeriodEnd :: timestamp
  rr_dueDate :: "timestamp option"
  rr_submissionDate :: "timestamp option"
  rr_reportingEntity :: "report_value option"
  rr_reportingEntityId :: "string option"
  rr_reportData :: report_data
  rr_riskLevel :: string
  rr_submissionReference :: "string option"
  rr_submittedBy :: "uuid option"
  rr_submissionAttempts :: nat
  rr_lastSubmissionAttempt :: "timestamp option"
  rr_createdAt :: timestamp

record ReportData =
  rd_reportType :: ReportType
  rd_framework :: RegulatoryFramework
  rd_start :: timestamp
  rd_end :: timestamp
  rd_data :: report_data

record report_db =
  rb_reports :: "RegulatoryReportEntity list"
  rb_alerts :: "ComplianceAlertEntity list"

text \<open>\<open>!data[field]\<close>: empty texts, zero and false are falsy, lists and objects are not.\<close>

fun truthy :: "report_value option \<Rightarrow> bool" where
  "truthy None = False"
| "truthy (Some (RText s)) = (s \<noteq> [])"
| "truthy (Some (RNumber x)) = (x \<noteq> 0)"
| "truthy (Some (RBool b)) = b"
| "truthy (Some _) = True"

text \<open>
  \<open>textNumber\<close> reads a text as a number. Every value but a list or a text is written with at least one
  character, and one is the only length that is asked for.
\<close>

fun validateField :: "(string \<Rightarrow> real option) \<Rightarrow> report_value option \<Rightarrow> field_rule \<Rightarrow> bool" where
  "validateField textNumber v Required = (v \<noteq> None \<and> v \<noteq> Some (RText []))"
| "validateField textNumber v (MinValue m) =
     (case v of
        Some (RNumber x) \<Rightarrow> x \<ge> m
      | Some (RText s) \<Rightarrow> (case textNumber s of None \<Rightarrow> False | Some x \<Rightarrow> x \<ge> m)
      | Some (RBool b) \<Rightarrow> (if b then 1 else 0) \<ge> m
      | Some (RDate t) \<Rightarrow> real_of_int t \<ge> m
      | _ \<Rightarrow> False)"
| "validateField textNumber v (MinLength n) =
     (case v of Some (RList xs) \<Rightarrow> length xs \<ge> n | Some (RText s) \<Rightarrow> length s \<ge> n | _ \<Rightarrow> n \<le> 1)"

definition validateReportData :: "(string \<Rightarrow> real option) \<Rightarrow> ReportData \<Rightarrow> unit result" where
  "validateReportData textNumber d =
     (case reportTemplate (rd_reportType d) (rd_framework d) of
        None \<Rightarrow> Inl (JsError ''No template found'')
      | Some t \<Rightarrow>
          (case find (\<lambda>f. \<not> truthy (map_of (rd_data d) f)) (rt_requiredFields t) of
             Some f \<Rightarrow> Inl (JsError (''Required field is missing: '' @ f))
           | None \<Rightarrow>
               (case find (\<lambda>(f, r, _). \<not> validateField textNumber (map_of (rd_data d) f) r) (rt_validationRules t) of
                  Some (f, _, message) \<Rightarrow> Inl (JsError (''Validation failed for field '' @ f @ '': '' @ message))
                | None \<Rightarrow> Inr ())))"

definition assessReportRiskLevel :: "ReportType \<Rightarrow> string" where
  "assessReportRiskLevel t = (if t = SAR then ''HIGH'' else if t = CTR then ''MEDIUM'' else ''LOW'')"

definition newReport :: "uuid \<Rightarrow> string \<Rightarrow> timestamp \<Rightarrow> ReportData \<Rightarrow> RegulatoryReportEntity" where
  "newReport newId reportId now d =
     \<lparr>rr_id = newId, rr_reportId = reportId, rr_reportType = rd_reportType d, rr_status = DRAFT,
      rr_regulatoryFramework = rd_framework d, rr_reportingPeriodStart = rd_start d, rr_reportingPeriodEnd = rd_end d,
      rr_dueDate = None, rr_submissionDate = None, rr_reportingEntity = map_of (rd_data d) ''reportingEntity'',
      rr_reportingEntityId = None, rr_reportData = rd_data d, rr_riskLevel = assessReportRiskLevel (rd_reportType d),
      rr_submissionReference = None, rr_submittedBy = None, rr_submissionAttempts = 0,
      rr_lastSubmissionAttempt = None, rr_createdAt = now\<rparr>"

definition saveReport :: "RegulatoryReportEntity \<Rightarrow> report_db \<Rightarrow> report_db result" where
  "saveReport r db =
     (if rr_dueDate r = None \<or> rr_reportingEntity r = None \<or> rr_reportingEntityId r = None \<or> rr_submittedBy r = None
      then Inl (JsError ''null value in column violates not-null constraint'')
      else Inr (db\<lparr>rb_reports := save_row rr_id r (rb_reports db)\<rparr>))"

definition generateRegulatoryReport ::
  "(string \<Rightarrow> real option) \<Rightarrow> uuid \<Rightarrow> string \<Rightarrow> timestamp \<Rightarrow> ReportData \<Rightarrow> report_db \<Rightarrow> (RegulatoryReportEntity \<times> report_db) result" where
  "generateRegulatoryReport textNumber newId reportId now d db =
     rbind (validateReportData textNumber d)
       (\<lambda>_. map_sum id (Pair (newReport newId reportId now d)) (saveReport (newReport newId reportId now d) db))"

definition validateReportForSubmission :: "RegulatoryReportEntity \<Rightarrow> unit result" where
  "validateReportForSubmission r =
     throw_unless (rr_status r = DRAFT \<or> rr_status r = REJECTED) (JsError ''Report is not in a submittable state'')"

text \<open>What is sent depends on the template; the text that is sent goes nowhere but the log.\<close>

definition formatReportForSubmission :: "RegulatoryReportEntity \<Rightarrow> submission_format result" where
  "formatReportForSubmission r =
     (case reportTemplate (rr_reportType r) (rr_regulatoryFramework r) of
        None \<Rightarrow> Inl (JsError ''No submission template found'')
      | Some t \<Rightarrow> Inr (rt_submissionFormat t))"

text \<open>A refused submission is an exception and a change: the attempt is counted.\<close>

definition submitReport :: "string \<Rightarrow> timestamp \<Rightarrow> uuid \<Rightarrow> report_db \<Rightarrow> RegulatoryReportEntity result \<times> report_db" where
  "submitReport reference now reportId db =
     (case row_of rr_id reportId (rb_reports db) of
        None \<Rightarrow> (Inl (JsError ''Report not found''), db)
      | Some r \<Rightarrow>
          let attempted = r\<lparr>rr_submissionAttempts := rr_submissionAttempts r + 1, rr_lastSubmissionAttempt := Some now\<rparr>
          in case rbind (validateReportForSubmission r) (\<lambda>_. formatReportForSubmission r) of
               Inl e \<Rightarrow> (Inl e, db\<lparr>rb_reports := save_row rr_id attempted (rb_reports db)\<rparr>)
             | Inr _ \<Rightarrow>
                 let submitted = attempted\<lparr>rr_status := SUBMITTED, rr_submissionDate := Some now,
                       rr_submissionReference := Some reference\<rparr>
                 in (Inr submitted, db\<lparr>rb_reports := save_row rr_id submitted (rb_reports db)\<rparr>))"

section \<open>The reports that are generated\<close>

text \<open>\<open>alertsByUser\<close>: the groups in the order the users first appear.\<close>

definition alertsByUser :: "ComplianceAlertEntity list \<Rightarrow> (uuid \<times> ComplianceAlertEntity list) list" where
  "alertsByUser alerts = map (\<lambda>u. (u, filter (\<lambda>a. ce_userId a = u) alerts)) (setOrder (map ce_userId alerts))"

definition maxOf :: "real list \<Rightarrow> real" where
  "maxOf xs = fold max (tl xs) (hd xs)"

definition activityValue :: "(RuleType \<Rightarrow> string) \<Rightarrow> ComplianceAlertEntity \<Rightarrow> report_value" where
  "activityValue typeText a = RObject [(''type'', RText (typeText (ce_alertType a))), (''description'', RText (ce_description a)),
     (''riskScore'', RNumber (ce_riskScore a)), (''timestamp'', RDate (ce_createdAt a))]"

definition generateSARData :: "(RuleType \<Rightarrow> string) \<Rightarrow> (uuid \<times> ComplianceAlertEntity list) list \<Rightarrow> report_data" where
  "generateSARData typeText groups =
     [(''reportingEntity'', RText ''PeerX''),
      (''subjects'', RList (map (\<lambda>(u, alerts). RObject [(''userId'', RText (natText u)),
         (''suspiciousActivities'', RList (map (activityValue typeText) alerts)),
         (''totalRiskScore'', RNumber (maxOf (map ce_riskScore alerts)))]) groups)),
      (''totalAlerts'', RNumber (real (sum_list (map (\<lambda>g. length (snd g)) groups))))]"

definition linkAlertsToReport :: "uuid list \<Rightarrow> report_db \<Rightarrow> report_db" where
  "linkAlertsToReport ids db =
     db\<lparr>rb_alerts := map (\<lambda>a. if ce_id a \<in> set ids
       then a\<lparr>ce_regulatoryReportRequired := True, ce_regulatoryReportStatus := Some ''submitted''\<rparr> else a) (rb_alerts db)\<rparr>"

definition generateSARReport ::
  "(RuleType \<Rightarrow> string) \<Rightarrow> (string \<Rightarrow> real option) \<Rightarrow> uuid \<Rightarrow> string \<Rightarrow> timestamp \<Rightarrow> uuid list \<Rightarrow> report_db \<Rightarrow>
     (RegulatoryReportEntity \<times> report_db) result" where
  "generateSARReport typeText textNumber newId reportId now alertIds db =
     (let alerts = filter (\<lambda>a. ce_id a \<in> set alertIds) (rb_alerts db)
      in if alerts = [] then Inl (JsError ''No alerts found for SAR report generation'')
         else rbind (generateRegulatoryReport textNumber newId reportId now
                \<lparr>rd_reportType = SAR, rd_framework = FINCEN, rd_start = Min (set (map ce_createdAt alerts)),
                 rd_end = Max (set (map ce_createdAt alerts)),
                 rd_data = generateSARData typeText (alertsByUser alerts)\<rparr> db)
              (\<lambda>(report, db1). Inr (report, linkAlertsToReport alertIds db1)))"

text \<open>A transaction of a currency report: its amount, its time and the object it is in the report.\<close>

type_synonym ctr_transaction = "real \<times> timestamp \<times> report_value"

definition ctrData :: "ctr_transaction list \<Rightarrow> report_data" where
  "ctrData txs =
     [(''reportingEntity'', RText ''PeerX''), (''transactionDetails'', RList (map (\<lambda>(_, _, v). v) txs)),
      (''totalAmount'', RNumber (sum_list (map fst txs))), (''currency'', RText ''USD''),
      (''timeframe'', RObject [(''start'', RDate (Min (set (map (\<lambda>(_, t, _). t) txs)))),
                              (''end'', RDate (Max (set (map (\<lambda>(_, t, _). t) txs))))])]"

definition generateCTRReport ::
  "(string \<Rightarrow> real option) \<Rightarrow> uuid \<Rightarrow> string \<Rightarrow> timestamp \<Rightarrow> ctr_transaction list \<Rightarrow> report_db \<Rightarrow>
     (RegulatoryReportEntity \<times> report_db) result" where
  "generateCTRReport textNumber newId reportId now transactions db =
     (let reportable = filter (\<lambda>(amount, _, _). amount \<ge> 10000) transactions
      in if reportable = [] then Inl (JsError ''No transactions meet CTR reporting threshold'')
         else generateRegulatoryReport textNumber newId reportId now
                \<lparr>rd_reportType = CTR, rd_framework = FINCEN, rd_start = Min (set (map (\<lambda>(_, t, _). t) reportable)),
                 rd_end = Max (set (map (\<lambda>(_, t, _). t) reportable)), rd_data = ctrData reportable\<rparr> db)"

definition complianceDataForPeriod :: "string \<Rightarrow> real" where
  "complianceDataForPeriod k =
     (if k = ''totalAlerts'' then 150 else if k = ''highRiskAlerts'' then 25
      else if k = ''blockedTransactions'' then 12 else 8)"

definition amlData :: report_data where
  "amlData =
     [(''riskAssessment'', RObject [(''overallRiskLevel'', RText ''MEDIUM''),
         (''riskFactors'', RList [RObject [(''factor'', RText ''High transaction volume''), (''level'', RText ''MEDIUM'')],
            RObject [(''factor'', RText ''Geographic risk''), (''level'', RText ''LOW'')],
            RObject [(''factor'', RText ''Unusual patterns''), (''level'', RText ''HIGH'')]]),
         (''riskScore'', RNumber 65)]),
      (''monitoringResults'', RObject [(''alertsGenerated'', RNumber (complianceDataForPeriod ''totalAlerts'')),
         (''alertsInvestigated'', RNumber (real_of_int \<lfloor>complianceDataForPeriod ''totalAlerts'' * (8 / 10)\<rfloor>)),
         (''alertsResolved'', RNumber (real_of_int \<lfloor>complianceDataForPeriod ''totalAlerts'' * (6 / 10)\<rfloor>)),
         (''falsePositiveRate'', RNumber (15 / 100))]),
      (''complianceMeasures'', RObject [(''automatedMonitoring'', RBool True), (''manualReview'', RBool True),
         (''transactionLimits'', RBool True), (''geographicRestrictions'', RBool True),
         (''staffTraining'', RText ''Quarterly''), (''systemUpdates'', RText ''Monthly'')]),
      (''recommendations'', RList (map RText [''Increase monitoring threshold for high-risk jurisdictions'',
         ''Implement enhanced due diligence for transactions over $50,000'',
         ''Review and update sanction screening procedures'',
         ''Conduct additional staff training on emerging AML patterns'']))]"

definition generateAMLReport ::
  "(string \<Rightarrow> real option) \<Rightarrow> uuid \<Rightarrow> string \<Rightarrow> timestamp \<Rightarrow> timestamp \<Rightarrow> timestamp \<Rightarrow> report_db \<Rightarrow>
     (RegulatoryReportEntity \<times> report_db) result" where
  "generateAMLReport textNumber newId reportId now periodStart periodEnd db =
     generateRegulatoryReport textNumber newId reportId now
       \<lparr>rd_reportType = AML, rd_framework = FATF, rd_start = periodStart, rd_end = periodEnd, rd_data = amlData\<rparr> db"

definition generateSECForm4 ::
  "(string \<Rightarrow> real option) \<Rightarrow> uuid \<Rightarrow> string \<Rightarrow> timestamp \<Rightarrow> string \<Rightarrow> string list \<Rightarrow> report_db \<Rightarrow>
     (RegulatoryReportEntity \<times> report_db) result" where
  "generateSECForm4 textNumber newId reportId now userId transactionIds db =
     generateRegulatoryReport textNumber newId reportId now
       \<lparr>rd_reportType = SEC_FORM_4, rd_framework = SEC, rd_start = now, rd_end = now,
        rd_data = [(''reportingPerson'', RObject [(''userId'', RText userId)]), (''issuer'', RText ''PeerX Platform''),
          (''transactionDate'', RDate now),
          (''nonDerivativeSecurities'', RList (map (\<lambda>i. RObject [(''transactionId'', RText i)]) transactionIds)),
          (''derivativeSecurities'', RList []), (''reportingEntity'', RText ''PeerX'')]\<rparr> db"

definition catEvent :: "timestamp \<Rightarrow> string \<Rightarrow> report_value" where
  "catEvent now i = RObject [(''eventTimestamp'', RDate now), (''orderID'', RText i), (''symbol'', RText ''UNKNOWN''),
     (''quantity'', RNumber 0), (''price'', RNumber 0), (''side'', RText ''BUY'')]"

definition generateFINRACAT ::
  "(string \<Rightarrow> real option) \<Rightarrow> uuid \<Rightarrow> string \<Rightarrow> timestamp \<Rightarrow> string list \<Rightarrow> report_db \<Rightarrow> (RegulatoryReportEntity \<times> report_db) result" where
  "generateFINRACAT textNumber newId reportId now orderIds db =
     generateRegulatoryReport textNumber newId reportId now
       \<lparr>rd_reportType = FINRA_CAT, rd_framework = FINRA, rd_start = now, rd_end = now,
        rd_data = [(''reportingEntity'', RText ''PeerX''), (''events'', RList (map (catEvent now) orderIds)),
          (''eventTimestamp'', RDate now),
          (''orderID'', RText (case orderIds of [] \<Rightarrow> ''GENERIC_ID'' | i # _ \<Rightarrow> if i = [] then ''GENERIC_ID'' else i)),
          (''symbol'', RText ''GENERIC''), (''quantity'', RNumber 1), (''price'', RNumber 1), (''side'', RText ''BUY'')]\<rparr> db"

record tx_check =
  tk_isValid :: bool
  tk_issues :: "string list"

text \<open>A transaction of the history: whether it has a time and an asset, and its amount.\<close>

definition validateTransaction :: "bool \<times> real option \<times> bool \<Rightarrow> tx_check" where
  "validateTransaction tx =
     (case tx of (timed, amount, hasAsset) \<Rightarrow>
        let issues = (if timed then [] else [''Missing timestamp'']) @
              (case amount of Some x \<Rightarrow> if x > 0 then [] else [''Invalid amount''] | None \<Rightarrow> [''Invalid amount'']) @
              (if hasAsset then [] else [''Missing asset''])
        in \<lparr>tk_isValid = (issues = []), tk_issues = issues\<rparr>)"

definition validateTransactionHistory :: "(bool \<times> real option \<times> bool) list \<Rightarrow> (nat \<times> nat \<times> nat) \<times> tx_check list" where
  "validateTransactionHistory txs =
     (let checks = map validateTransaction txs
      in ((length txs, length (filter tk_isValid checks), length (filter (\<lambda>c. \<not> tk_isValid c) checks)), checks))"

definition exportAuditTrail :: "uuid \<Rightarrow> timestamp \<Rightarrow> timestamp \<Rightarrow> AuditLog list \<Rightarrow> bool \<times> AuditLog list" where
  "exportAuditTrail userId from1 to1 logs =
     (snd (verifyChainIntegrity logs), getByUser userId (Some (from1, to1)) logs)"

definition dueReports :: "timestamp \<Rightarrow> report_db \<Rightarrow> RegulatoryReportEntity list" where
  "dueReports today db = filter (\<lambda>r. (case rr_dueDate r of None \<Rightarrow> False | Some t \<Rightarrow> t \<le> today) \<and>
     (rr_status r = DRAFT \<or> rr_status r = PENDING_REVIEW)) (rb_reports db)"

definition getReportsByStatus :: "ReportStatus \<Rightarrow> report_db \<Rightarrow> RegulatoryReportEntity list" where
  "getReportsByStatus st db = sort_key (\<lambda>r. - rr_createdAt r) (filter (\<lambda>r. rr_status r = st) (rb_reports db))"

definition getReportsByType :: "ReportType \<Rightarrow> report_db \<Rightarrow> RegulatoryReportEntity list" where
  "getReportsByType t db = sort_key (\<lambda>r. - rr_createdAt r) (filter (\<lambda>r. rr_reportType r = t) (rb_reports db))"

section \<open>Screening reports every rule that is broken\<close>

text \<open>The patterns that look at the amount alone.\<close>

definition amountPattern :: "TransactionData \<Rightarrow> string \<Rightarrow> bool" where
  "amountPattern tx pattern \<longleftrightarrow>
     pattern = ''round_amount'' \<and> tx_amount tx = 1000 * real_of_int \<lfloor>tx_amount tx / 1000\<rfloor> \<or>
     pattern = ''high_velocity'' \<and> tx_amount tx > 10000 \<or>
     pattern = ''structuring'' \<and> tx_amount tx > 9000 \<and> tx_amount tx < 10000"

text \<open>
  The rules the check of a transaction cannot get through: money-laundering rules that name no patterns,
  or that come to the pattern 'unusual_timing' with a time that is a text before any
  pattern has matched, and sanctions rules that look for counterparties that are missing.
\<close>

definition unscreenable :: "compliance_db \<Rightarrow> TransactionData \<Rightarrow> ComplianceRuleEntity \<Rightarrow> bool" where
  "unscreenable db tx r =
     (let c = cr_conditions r
      in case cr_ruleType r of
           AML_SCREENING \<Rightarrow>
             (case rc_patterns c of
                None \<Rightarrow> True
              | Some ps \<Rightarrow> (case tx_timestamp tx of
                  DateObject _ \<Rightarrow> False
                | JsonText _ \<Rightarrow> list_ex (\<lambda>p. p = ''unusual_timing'') (takeWhile (\<lambda>p. \<not> amountPattern tx p) ps)))
         | SANCTIONS_CHECK \<Rightarrow> rc_checkCounterparties c \<and> tx_counterparties tx = None \<and>
             \<not> (rc_checkLocation c \<and> inSanctionedCountry db tx)
         | _ \<Rightarrow> False)"

lemma matchesAny_text:
  assumes "tx_timestamp tx = JsonText t"
  shows "isl (matchesAny hourOf tx ps) = list_ex (\<lambda>p. p = ''unusual_timing'') (takeWhile (\<lambda>p. \<not> amountPattern tx p) ps)"
  by (induction ps) (auto simp: matchesPattern_def amountPattern_def assms)

lemma matchesAny_date:
  assumes "tx_timestamp tx = DateObject t"
  shows "\<not> isl (matchesAny hourOf tx ps)"
  by (induction ps) (auto simp: matchesPattern_def assms)

lemma check_throws: "isl (checkRuleConditions db hourOf x r tx) = unscreenable db tx r"
  using matchesAny_text matchesAny_date
  by (cases "cr_ruleType r"; cases "tx_timestamp tx")
    (auto simp: checkRuleConditions_def unscreenable_def checkAMLScreening_def checkSanctions_def Let_def
      split: option.split)

definition broken :: "compliance_db \<Rightarrow> (timestamp \<Rightarrow> nat) \<Rightarrow> (uuid \<Rightarrow> real) \<Rightarrow> TransactionData \<Rightarrow> ComplianceRuleEntity \<Rightarrow> bool" where
  "broken db hourOf random tx r \<longleftrightarrow> checkRuleConditions db hourOf (random (cr_id r)) r tx = Inr True"

definition evaluated :: "compliance_db \<Rightarrow> (timestamp \<Rightarrow> nat) \<Rightarrow> (uuid \<Rightarrow> real) \<Rightarrow> TransactionData \<Rightarrow> ComplianceRuleEntity \<Rightarrow> RuleEvaluation" where
  "evaluated db hourOf random tx r =
     \<lparr>re_rule = r, re_triggered = broken db hourOf random tx r,
      re_riskScore = (if broken db hourOf random tx r then riskScoreOf db r tx else 0)\<rparr>"

lemma evaluateRule_evaluated:
  assumes "\<not> unscreenable db tx r"
  shows "evaluateRule db hourOf (random (cr_id r)) r tx = Inr (evaluated db hourOf random tx r)"
proof -
  obtain b where "checkRuleConditions db hourOf (random (cr_id r)) r tx = Inr b"
    using check_throws [of db hourOf "random (cr_id r)" r tx] assms by (metis isl_def old.sum.exhaust)
  then show ?thesis by (simp add: evaluateRule_def evaluated_def broken_def)
qed

lemma evaluateAll_evaluated:
  "\<not> list_ex (unscreenable db tx) rs \<Longrightarrow>
     evaluateAll db hourOf random tx rs = Inr (map (evaluated db hourOf random tx) rs)"
  by (induction rs) (simp_all add: evaluateRule_evaluated)

lemma evaluateAll_refused:
  "list_ex (unscreenable db tx) rs \<Longrightarrow> \<exists>e. evaluateAll db hourOf random tx rs = Inl e"
proof (induction rs)
  case (Cons r rs)
  show ?case
  proof (cases "unscreenable db tx r")
    case True
    then have "isl (checkRuleConditions db hourOf (random (cr_id r)) r tx)" by (simp add: check_throws)
    then show ?thesis by (auto simp: isl_def evaluateRule_def)
  next
    case False
    with Cons obtain e where "evaluateAll db hourOf random tx rs = Inl e" by auto
    then show ?thesis by (simp add: evaluateRule_evaluated [OF False])
  qed
qed simp

lemma raiseAlerts_alerts:
  "map (\<lambda>a. (ce_ruleId a, ce_severity a, ce_riskScore a, ce_status a, ce_userId a)) (fst (raiseAlerts ids now tx n es db)) =
     map (\<lambda>e. (cr_id (re_rule e), cr_severity (re_rule e), re_riskScore e, AlertOpen, tx_userId tx)) (filter re_triggered es)"
  by (induction ids now tx n es db rule: raiseAlerts.induct) (simp_all add: case_prod_beta Let_def createAlert_def)

lemma raiseAlerts_stored:
  "co_alerts (snd (raiseAlerts ids now tx n es db)) = co_alerts db @ fst (raiseAlerts ids now tx n es db)"
  by (induction ids now tx n es db rule: raiseAlerts.induct) (simp_all add: case_prod_beta Let_def)

lemma raiseAlerts_keeps:
  "co_audits (snd (raiseAlerts ids now tx n es db)) = co_audits db"
  "co_rules (snd (raiseAlerts ids now tx n es db)) = co_rules db"
  by (induction ids now tx n es db rule: raiseAlerts.induct) (simp_all add: case_prod_beta Let_def)

lemma filter_evaluated:
  "filter re_triggered (map (evaluated db hourOf random tx) rs) =
     map (evaluated db hourOf random tx) (filter (broken db hourOf random tx) rs)"
  by (induction rs) (simp_all add: evaluated_def)


lemma monitorTransaction_screenable:
  fixes hourOf :: "timestamp \<Rightarrow> nat" and random :: "uuid \<Rightarrow> real" and tx :: TransactionData
  assumes "\<not> list_ex (unscreenable db tx) (getApplicableRules db)"
  defines "es \<equiv> map (evaluated db hourOf random tx) (getApplicableRules db)"
  shows "monitorTransaction hourOf random ids now tx db =
    Inr (fst (raiseAlerts ids now tx 0 es db),
         (snd (raiseAlerts ids now tx 0 es db))\<lparr>co_audits := co_audits db @ [auditEntry tx es]\<rparr>)"
  using assms by (simp add: monitorTransaction_def evaluateAll_evaluated case_prod_beta raiseAlerts_keeps)

lemma monitorTransaction_refused:
  "list_ex (unscreenable db tx) (getApplicableRules db) \<Longrightarrow> \<exists>e. monitorTransaction hourOf random ids now tx db = Inl e"
  using evaluateAll_refused [of db tx "getApplicableRules db" hourOf random] by (auto simp: monitorTransaction_def)

lemma map_eq_lift: "map f xs = map g ys \<Longrightarrow> (\<And>x y. f x = g y \<Longrightarrow> f' x = g' y) \<Longrightarrow> map f' xs = map g' ys"
  by (induction xs arbitrary: ys) auto


text \<open>
  A sanctioned counterparty is reported: when an active sanctions rule checks counterparties and one
  of them is on the watch list, screening the transaction leaves an open alert of that rule among the
  active alerts of the user.
\<close>

theorem sanctioned_counterparty_is_reported:
  assumes "\<not> list_ex (unscreenable db tx) (getApplicableRules db)" and "r \<in> set (co_rules db)" and "cr_status r = RuleActive" and "cr_ruleType r = SANCTIONS_CHECK"
    and "rc_checkCounterparties (cr_conditions r)" and "tx_counterparties tx = Some ps" and "p \<in> set ps" and "p \<in> co_watchlist db"
  shows "\<exists>alerts db1. monitorTransaction hourOf random ids now tx db = Inr (alerts, db1) \<and>
    cr_id r \<in> ce_ruleId ` set (getActiveAlerts (Some (tx_userId tx)) db1)"
proof -
  define es where "es = map (evaluated db hourOf random tx) (getApplicableRules db)"
  define alerts where "alerts = fst (raiseAlerts ids now tx 0 es db)"
  have "broken db hourOf random tx r"
    using assms(4-8) by (auto simp: broken_def checkRuleConditions_def checkSanctions_def list_ex_iff Let_def)
  then have "evaluated db hourOf random tx r \<in> set (filter re_triggered es)"
    using assms by (auto simp: es_def filter_evaluated getApplicableRules_def)
  then have "(cr_id r, AlertOpen, tx_userId tx) \<in>
      set (map (\<lambda>e. (cr_id (re_rule e), AlertOpen, tx_userId tx)) (filter re_triggered es))"
    by (force simp: evaluated_def)
  also have "map (\<lambda>e. (cr_id (re_rule e), AlertOpen, tx_userId tx)) (filter re_triggered es) =
      map (\<lambda>a. (ce_ruleId a, ce_status a, ce_userId a)) alerts"
    unfolding alerts_def by (rule map_eq_lift [OF raiseAlerts_alerts [symmetric]]) simp
  finally have "cr_id r \<in> ce_ruleId ` {a \<in> set alerts. ce_status a = AlertOpen \<and> ce_userId a = tx_userId tx}"
    by (auto simp: image_iff)
  then show ?thesis
    using monitorTransaction_screenable [OF assms(1), of hourOf random ids now]
    by (auto simp: es_def [symmetric] alerts_def [symmetric] getActiveAlerts_def raiseAlerts_stored)
qed

text \<open>
  One active money-laundering rule without patterns and no transaction is screened any more, by any
  rule: nothing is stored, whoever the counterparty is.
\<close>

lemma malformed_rule_disables_screening:
  assumes "r \<in> set (co_rules db)" and "cr_status r = RuleActive" and "cr_ruleType r = AML_SCREENING"
    and "rc_patterns (cr_conditions r) = None"
  shows "\<exists>e. monitorTransaction hourOf random ids now tx db = Inl e"
  by (rule monitorTransaction_refused) (use assms in \<open>auto simp: list_ex_iff getApplicableRules_def unscreenable_def\<close>)

text \<open>So does an active rule that first asks for unusual times, for every transaction that came as JSON.\<close>

lemma timing_rule_disables_screening:
  assumes "r \<in> set (co_rules db)" and "cr_status r = RuleActive" and "cr_ruleType r = AML_SCREENING"
    and "rc_patterns (cr_conditions r) = Some (''unusual_timing'' # ps)" and "tx_timestamp tx = JsonText t"
  shows "\<exists>e. monitorTransaction hourOf random ids now tx db = Inl e"
  by (rule monitorTransaction_refused)
    (use assms in \<open>auto simp: list_ex_iff getApplicableRules_def unscreenable_def amountPattern_def\<close>)

lemma resolved_alerts_are_not_active:
  "getActiveAlerts u (resolveAlert i details by1 now db) =
     sort_key (\<lambda>a. - ce_createdAt a) (filter (\<lambda>a. ce_id a \<noteq> i)
       (filter (\<lambda>a. ce_status a = AlertOpen \<and> (case u of None \<Rightarrow> True | Some v \<Rightarrow> ce_userId a = v)) (co_alerts db)))"
proof -
  have "filter (\<lambda>a. ce_status a = AlertOpen \<and> P a) (map (\<lambda>a. if ce_id a = i
        then a\<lparr>ce_status := AlertResolved, ce_resolutionDetails := Some details, ce_resolvedBy := Some by1,
               ce_resolvedAt := Some now\<rparr> else a) xs) =
      filter (\<lambda>a. ce_id a \<noteq> i) (filter (\<lambda>a. ce_status a = AlertOpen \<and> P a) xs)" for P xs
    by (induction xs) simp_all
  from this [of "\<lambda>a. case u of None \<Rightarrow> True | Some v \<Rightarrow> ce_userId a = v" "co_alerts db"] show ?thesis unfolding getActiveAlerts_def resolveAlert_def by simp
qed

section \<open>Reports are refused, and submitted once\<close>

lemma newReport_refused: "\<exists>e. generateRegulatoryReport textNumber newId reportId now d db = Inl e"
  by (cases "validateReportData textNumber d") (simp_all add: generateRegulatoryReport_def saveReport_def newReport_def)

lemma sar_data_incomplete:
  "rd_reportType d = SAR \<Longrightarrow> rd_framework d = FINCEN \<Longrightarrow> rd_data d = generateSARData typeText g \<Longrightarrow>
     validateReportData textNumber d = Inl (JsError ''Required field is missing: subjectUser'')"
  by (simp add: validateReportData_def generateSARData_def)

text \<open>
  No report is ever generated: each of the five generators throws whatever it is given. A suspicious
  activity report already fails the check of its own template, whose required fields are not those the
  generator fills in; the others fail at the table, since the due date, the id of the reporting entity and
  the submitter are columns without a default that may not be null, and no generator sets them.
\<close>

theorem no_report_is_ever_generated:
  "(\<exists>e. generateSARReport typeText textNumber newId reportId now alertIds db = Inl e) \<and>
   (\<exists>e. generateCTRReport textNumber newId reportId now transactions db = Inl e) \<and>
   (\<exists>e. generateAMLReport textNumber newId reportId now periodStart periodEnd db = Inl e) \<and>
   (\<exists>e. generateSECForm4 textNumber newId reportId now userId transactionIds db = Inl e) \<and>
   (\<exists>e. generateFINRACAT textNumber newId reportId now orderIds db = Inl e)"
proof (intro conjI)
  show "\<exists>e. generateSARReport typeText textNumber newId reportId now alertIds db = Inl e"
    by (simp add: generateSARReport_def Let_def generateRegulatoryReport_def sar_data_incomplete)
  show "\<exists>e. generateCTRReport textNumber newId reportId now transactions db = Inl e"
    by (simp add: generateCTRReport_def Let_def newReport_refused)
qed (simp_all add: generateAMLReport_def generateSECForm4_def generateFINRACAT_def newReport_refused)

text \<open>
  A submittable report goes out; a report that is not submittable is refused, but the attempt is counted.
\<close>

lemma submitReport_step:
  assumes "row_of rr_id i (rb_reports db) = Some r" and "reportTemplate (rr_reportType r) (rr_regulatoryFramework r) \<noteq> None"
  shows "row_of rr_id i (rb_reports (snd (submitReport reference now i db))) =
    Some (let a = r\<lparr>rr_submissionAttempts := rr_submissionAttempts r + 1, rr_lastSubmissionAttempt := Some now\<rparr>
      in if rr_status r = DRAFT \<or> rr_status r = REJECTED
         then a\<lparr>rr_status := SUBMITTED, rr_submissionDate := Some now, rr_submissionReference := Some reference\<rparr> else a)"
proof -
  have "rr_id r = i" using assms(1) by (auto dest: row_of_Some_in)
  then show ?thesis
    using assms by (auto simp: submitReport_def Let_def validateReportForSubmission_def formatReportForSubmission_def row_of_save)
qed

definition submissions :: "uuid \<Rightarrow> (string \<times> timestamp) list \<Rightarrow> report_db \<Rightarrow> report_db" where
  "submissions i = fold (\<lambda>(reference, now) db. snd (submitReport reference now i db))"

lemma submissions_refused:
  "row_of rr_id i (rb_reports db) = Some r \<Longrightarrow> reportTemplate (rr_reportType r) (rr_regulatoryFramework r) \<noteq> None \<Longrightarrow>
   rr_status r = SUBMITTED \<Longrightarrow>
   \<exists>r1. row_of rr_id i (rb_reports (submissions i calls db)) = Some r1 \<and> rr_status r1 = SUBMITTED \<and>
     rr_submissionReference r1 = rr_submissionReference r \<and> rr_submissionDate r1 = rr_submissionDate r \<and>
     rr_submissionAttempts r1 = rr_submissionAttempts r + length calls"
proof (induction calls arbitrary: db r)
  case (Cons c calls)
  define db1 where "db1 = snd (submitReport (fst c) (snd c) i db)"
  define r1 where "r1 = r\<lparr>rr_submissionAttempts := rr_submissionAttempts r + 1, rr_lastSubmissionAttempt := Some (snd c)\<rparr>"
  have "row_of rr_id i (rb_reports db1) = Some r1"
    using Cons.prems submitReport_step [of i db r "fst c" "snd c"] by (simp add: db1_def r1_def Let_def)
  with Cons.IH [of db1 r1] Cons.prems show ?case
    by (auto simp: r1_def submissions_def case_prod_beta db1_def)
qed (simp add: submissions_def)

text \<open>
  A report is submitted once: from a stored draft or rejected report, however often it is submitted
  again, the report is submitted with the reference and the date of the first call, and every call,
  refused ones included, is counted as an attempt.
\<close>

theorem report_is_submitted_once:
  assumes "row_of rr_id i (rb_reports db) = Some r" and "reportTemplate (rr_reportType r) (rr_regulatoryFramework r) \<noteq> None"
    and "rr_status r = DRAFT \<or> rr_status r = REJECTED"
  shows "\<exists>r1. row_of rr_id i (rb_reports (submissions i ((reference, now) # again) db)) = Some r1 \<and>
    rr_status r1 = SUBMITTED \<and> rr_submissionReference r1 = Some reference \<and> rr_submissionDate r1 = Some now \<and>
    rr_submissionAttempts r1 = rr_submissionAttempts r + 1 + length again"
proof -
  define r1 where "r1 = r\<lparr>rr_submissionAttempts := rr_submissionAttempts r + 1, rr_lastSubmissionAttempt := Some now,
    rr_status := SUBMITTED, rr_submissionDate := Some now, rr_submissionReference := Some reference\<rparr>"
  have "row_of rr_id i (rb_reports (snd (submitReport reference now i db))) = Some r1"
    using submitReport_step [OF assms(1,2)] assms(3) by (simp add: r1_def Let_def)
  from submissions_refused [OF this, of again] show ?thesis
    using assms(2) by (auto simp: r1_def submissions_def)
qed

section \<open>Witnesses\<close>

definition ex_conditions :: rule_conditions where
  "ex_conditions = \<lparr>rc_minAmount = None, rc_maxAmount = None, rc_currency = None, rc_restrictedCountries = None,
     rc_allowedCountries = None, rc_restrictedAssets = None, rc_allowedAssets = None, rc_period = None, rc_maxVolume = None,
     rc_maxTransactions = None, rc_patterns = Some [''structuring''], rc_checkCounterparties = True, rc_checkLocation = True\<rparr>"

definition ex_rule :: "nat \<Rightarrow> RuleType \<Rightarrow> RuleSeverity \<Rightarrow> ComplianceRuleEntity" where
  "ex_rule i t s = \<lparr>cr_id = i, cr_ruleName = ''rule'', cr_ruleType = t, cr_severity = s, cr_status = RuleActive,
     cr_description = ''rule'', cr_conditions = ex_conditions, cr_action = FLAG\<rparr>"

definition ex_rules :: compliance_db where
  "ex_rules = loadComplianceData \<lparr>co_rules = [ex_rule 1 AML_SCREENING SeverityMedium, ex_rule 2 SANCTIONS_CHECK SeverityCritical],
     co_alerts = [], co_audits = [], co_notes = [], co_watchlist = {}, co_sanctionedCountries = {}\<rparr>"

definition ex_tx :: TransactionData where
  "ex_tx = \<lparr>tx_id = ''t1'', tx_userId = 7, tx_amount = 9500, tx_currency = ''USD'', tx_timestamp = JsonText ''2026-01-01T00:00:00Z'', tx_ipAddress = [],
     tx_userAgent = [], tx_counterparties = Some [''SANCTIONED_ENTITY_2''], tx_geographicLocation = None, tx_assetSymbol = None\<rparr>"

definition ex_ids :: compliance_ids where
  "ex_ids = \<lparr>ci_id = (\<lambda>n. 100 + n), ci_alertId = (\<lambda>n. natText n)\<rparr>"

lemma ex_applicable:
  "getApplicableRules ex_rules = [ex_rule 2 SANCTIONS_CHECK SeverityCritical, ex_rule 1 AML_SCREENING SeverityMedium]"
  by (simp add: getApplicableRules_def ex_rules_def loadComplianceData_def ex_rule_def)

lemma ex_screenable: "\<not> list_ex (unscreenable ex_rules ex_tx) (getApplicableRules ex_rules)"
  by (simp add: unscreenable_def ex_applicable ex_rule_def ex_conditions_def ex_tx_def)


theorem sanctioned_counterparty_is_reported_witness:
  "\<exists>alerts db1. monitorTransaction (\<lambda>_. 12) (\<lambda>_. 0) ex_ids 5 ex_tx ex_rules = Inr (alerts, db1) \<and>
     2 \<in> ce_ruleId ` set (getActiveAlerts (Some 7) db1)"
  using sanctioned_counterparty_is_reported [OF ex_screenable, where r = "ex_rule 2 SANCTIONS_CHECK SeverityCritical"
      and p = "''SANCTIONED_ENTITY_2''" and hourOf = "\<lambda>_. 12" and random = "\<lambda>_. 0" and ids = ex_ids and now = 5]
  by (simp add: ex_rule_def ex_tx_def ex_conditions_def ex_rules_def loadComplianceData_def)

definition ex_report :: RegulatoryReportEntity where
  "ex_report = (newReport 3 ''RPT_1'' 10 \<lparr>rd_reportType = AML, rd_framework = FATF, rd_start = 0, rd_end = 9, rd_data = amlData\<rparr>)
     \<lparr>rr_dueDate := Some 20, rr_reportingEntityId := Some ''E'', rr_submittedBy := Some 1\<rparr>"

theorem report_is_submitted_once_witness:
  "\<exists>r1. row_of rr_id 3 (rb_reports (submissions 3 ((''REF_1'', 11) # [(''REF_2'', 12)]) \<lparr>rb_reports = [ex_report], rb_alerts = []\<rparr>)) = Some r1 \<and>
     rr_status r1 = SUBMITTED \<and> rr_submissionReference r1 = Some ''REF_1'' \<and> rr_submissionDate r1 = Some 11 \<and>
     rr_submissionAttempts r1 = Suc (Suc 0)"
  using report_is_submitted_once [of 3 "\<lparr>rb_reports = [ex_report], rb_alerts = []\<rparr>" ex_report "''REF_1''" 11 "[(''REF_2'', 12)]"]
  by (simp add: ex_report_def newReport_def)

end
