(* ===== verification/MarketCache.thy ===== *)
theory MarketCache
  imports Prelude "HOL-Library.AList"
begin

text \<open>
  The cache in front of prices, portfolios and order books, \<open>common/services/enhanced-cache.service.ts\<close>.

  The store behind it is a package: it keeps what was set until it is deleted, unless it drops an entry
  on its own, and every call may throw. Which of these happens is an argument, a reply for each call.
  The hit counter is raised on the object read and never written back; it is left out, as is the log.
\<close>

section \<open>The cache\<close>

record 'd CacheEntry =
  ce_data :: 'd
  ce_timestamp :: timestamp
  ce_ttl :: int

record CacheStats =
  cs_hits :: nat
  cs_misses :: nat
  cs_sets :: nat
  cs_deletes :: nat

datatype store_call = StoreGet | StoreSet | StoreDel

datatype store_reply = Answers | Evicted | Throws

type_synonym store_replies = "store_call \<Rightarrow> string \<Rightarrow> store_reply"

record 'd market_cache =
  mc_store :: "(string \<times> 'd CacheEntry) list"
  mc_stats :: CacheStats

definition missed :: "'d market_cache \<Rightarrow> 'd market_cache" where
  "missed c = c\<lparr>mc_stats := (mc_stats c)\<lparr>cs_misses := cs_misses (mc_stats c) + 1\<rparr>\<rparr>"

definition cacheDelete :: "store_replies \<Rightarrow> string \<Rightarrow> 'd market_cache \<Rightarrow> 'd market_cache" where
  "cacheDelete reply key c =
     (if reply StoreDel key = Throws then c
      else c\<lparr>mc_store := AList.delete key (mc_store c),
             mc_stats := (mc_stats c)\<lparr>cs_deletes := cs_deletes (mc_stats c) + 1\<rparr>\<rparr>)"

definition cacheSet :: "store_replies \<Rightarrow> string \<Rightarrow> 'd \<Rightarrow> int \<Rightarrow> timestamp \<Rightarrow> 'd market_cache \<Rightarrow> 'd market_cache" where
  "cacheSet reply key d ttl now c =
     (if reply StoreSet key = Throws then c
      else c\<lparr>mc_store := AList.update key \<lparr>ce_data = d, ce_timestamp = now, ce_ttl = ttl\<rparr> (mc_store c),
             mc_stats := (mc_stats c)\<lparr>cs_sets := cs_sets (mc_stats c) + 1\<rparr>\<rparr>)"

definition cacheGet :: "store_replies \<Rightarrow> string \<Rightarrow> timestamp \<Rightarrow> 'd market_cache \<Rightarrow> 'd option \<times> 'd market_cache" where
  "cacheGet reply key now c =
     (case reply StoreGet key of
        Throws \<Rightarrow> (None, missed c)
      | Evicted \<Rightarrow> (None, missed (c\<lparr>mc_store := AList.delete key (mc_store c)\<rparr>))
      | Answers \<Rightarrow>
          (case map_of (mc_store c) key of
             None \<Rightarrow> (None, missed c)
           | Some e \<Rightarrow>
               if now - ce_timestamp e > ce_ttl e * 1000 then (None, missed (cacheDelete reply key c))
               else (Some (ce_data e), c\<lparr>mc_stats := (mc_stats c)\<lparr>cs_hits := cs_hits (mc_stats c) + 1\<rparr>\<rparr>)))"

section \<open>What is cached\<close>

definition getMarketPrice where
  "getMarketPrice reply symbol = cacheGet reply (''market:price:'' @ symbol)"

definition setMarketPrice where
  "setMarketPrice reply symbol price = cacheSet reply (''market:price:'' @ symbol) price 30"

definition getUserPortfolio where
  "getUserPortfolio reply userId = cacheGet reply (''portfolio:user:'' @ userId)"

definition setUserPortfolio where
  "setUserPortfolio reply userId portfolio = cacheSet reply (''portfolio:user:'' @ userId) portfolio 120"

definition getPortfolioAnalytics where
  "getPortfolioAnalytics reply userId = cacheGet reply (''analytics:portfolio:'' @ userId)"

definition setPortfolioAnalytics where
  "setPortfolioAnalytics reply userId analytics = cacheSet reply (''analytics:portfolio:'' @ userId) analytics 120"

definition getOrderBook where
  "getOrderBook reply asset = cacheGet reply (''orderbook:'' @ asset)"

definition setOrderBook where
  "setOrderBook reply asset book = cacheSet reply (''orderbook:'' @ asset) book 5"

definition invalidateUserCache :: "store_replies \<Rightarrow> string \<Rightarrow> 'd market_cache \<Rightarrow> 'd market_cache" where
  "invalidateUserCache reply userId =
     fold (\<lambda>prefix. cacheDelete reply (prefix @ userId))
       [''portfolio:user:'', ''analytics:portfolio:'', ''trades:user:'', ''balance:user:'']"

definition invalidateMarketCache :: "store_replies \<Rightarrow> string option \<Rightarrow> 'd market_cache \<Rightarrow> 'd market_cache" where
  "invalidateMarketCache reply symbol =
     fold (\<lambda>s. cacheDelete reply (''market:price:'' @ s))
       (case symbol of
          Some (c # cs) \<Rightarrow> [c # cs]
        | _ \<Rightarrow> [''BTC'', ''ETH'', ''XLM'', ''USDT'', ''USDC'', ''BNB'', ''SOL'', ''XRP'', ''ADA''])"

definition invalidateOrderBookCache :: "store_replies \<Rightarrow> string option \<Rightarrow> 'd market_cache \<Rightarrow> 'd market_cache" where
  "invalidateOrderBookCache reply asset c =
     (case asset of Some (a # as) \<Rightarrow> cacheDelete reply (''orderbook:'' @ a # as) c | _ \<Rightarrow> c)"

definition getCacheStats :: "'d market_cache \<Rightarrow> CacheStats \<times> real" where
  "getCacheStats c =
     (let s = mc_stats c; total = cs_hits s + cs_misses s
      in (s, if total > 0 then real (cs_hits s) / real total * 100 else 0))"

definition resetStats :: "'d market_cache \<Rightarrow> 'd market_cache" where
  "resetStats c = c\<lparr>mc_stats := \<lparr>cs_hits = 0, cs_misses = 0, cs_sets = 0, cs_deletes = 0\<rparr>\<rparr>"

definition getMockPrice :: "string \<Rightarrow> real" where
  "getMockPrice symbol =
     (case map_of [(''BTC'', 45000), (''ETH'', 3000), (''XLM'', 1 / 4), (''USDT'', 1), (''USDC'', 1)] symbol of
        None \<Rightarrow> 100 | Some x \<Rightarrow> x)"

definition warmupCache :: "store_replies \<Rightarrow> timestamp \<Rightarrow> real market_cache \<Rightarrow> real market_cache" where
  "warmupCache reply now =
     fold (\<lambda>s. setMarketPrice reply s (getMockPrice s) now) [''BTC'', ''ETH'', ''XLM'', ''USDT'', ''USDC'']"

section \<open>A hit is the last value that was set, and fresh\<close>

datatype 'd cache_request =
    CacheSet store_replies string 'd int timestamp
  | CacheDelete store_replies string
  | CacheGet store_replies string timestamp

fun cacheRequest :: "'d cache_request \<Rightarrow> 'd market_cache \<Rightarrow> 'd market_cache" where
  "cacheRequest (CacheSet reply key d ttl now) c = cacheSet reply key d ttl now c"
| "cacheRequest (CacheDelete reply key) c = cacheDelete reply key c"
| "cacheRequest (CacheGet reply key now) c = snd (cacheGet reply key now c)"

text \<open>The reference: what the last call that reached the store left for a key.\<close>

fun written :: "'d cache_request \<Rightarrow> (string \<Rightarrow> 'd CacheEntry option) \<Rightarrow> string \<Rightarrow> 'd CacheEntry option" where
  "written (CacheSet reply key d ttl now) w =
     (if reply StoreSet key = Throws then w else w(key \<mapsto> \<lparr>ce_data = d, ce_timestamp = now, ce_ttl = ttl\<rparr>))"
| "written (CacheDelete reply key) w = (if reply StoreDel key = Throws then w else w(key := None))"
| "written (CacheGet reply key now) w = w"

definition cached_within :: "(string \<Rightarrow> 'd CacheEntry option) \<Rightarrow> 'd market_cache \<Rightarrow> bool" where
  "cached_within w c \<longleftrightarrow> map_of (mc_store c) \<subseteq>\<^sub>m w"

lemma map_of_alist_delete: "map_of (AList.delete k xs) = (map_of xs)(k := None)"
  by (simp add: delete_conv')

lemma cacheDelete_store: "mc_store (cacheDelete reply key c) = (if reply StoreDel key = Throws then mc_store c else AList.delete key (mc_store c))"
  by (simp add: cacheDelete_def)

lemma missed_store [simp]: "mc_store (missed c) = mc_store c"
  by (simp add: missed_def)

lemma cacheRequest_within: "cached_within w c \<Longrightarrow> cached_within (written r w) (cacheRequest r c)"
proof (cases r)
  case (CacheGet reply key now)
  assume "cached_within w c"
  with CacheGet show ?thesis
    by (auto simp: cached_within_def map_le_def cacheGet_def cacheDelete_store map_of_alist_delete
        split: store_reply.splits option.splits)
qed (auto simp: cached_within_def map_le_def cacheSet_def cacheDelete_store map_of_alist_delete update_conv')

lemma cache_run_within: "cached_within w c \<Longrightarrow> cached_within (fold written rs w) (fold cacheRequest rs c)"
  by (induction rs arbitrary: w c) (simp_all add: cacheRequest_within)

definition emptyCache :: "'d market_cache" where
  "emptyCache = \<lparr>mc_store = [], mc_stats = \<lparr>cs_hits = 0, cs_misses = 0, cs_sets = 0, cs_deletes = 0\<rparr>\<rparr>"

text \<open>
  A hit is current and fresh: after any sequence of calls, however the store answers, drops entries
  or fails, what a read returns is what the last write of that key that reached the store left there,
  not deleted since, and it is not older than its life time.
\<close>

theorem cache_hit_is_current_and_fresh:
  assumes "fst (cacheGet reply key now (fold cacheRequest rs emptyCache)) = Some d"
  shows "\<exists>e. fold written rs (\<lambda>_. None) key = Some e \<and> ce_data e = d \<and> now - ce_timestamp e \<le> ce_ttl e * 1000"
proof -
  have "cached_within (fold written rs (\<lambda>_. None)) (fold cacheRequest rs emptyCache)"
    by (rule cache_run_within) (simp add: cached_within_def emptyCache_def)
  then show ?thesis
    using assms by (auto simp: cacheGet_def cached_within_def map_le_def dom_def split: store_reply.splits option.splits if_splits)
qed

text \<open>Every read counts once, as a hit or as a miss.\<close>

lemma reads_are_counted:
  "cs_hits (mc_stats (snd (cacheGet reply key now c))) + cs_misses (mc_stats (snd (cacheGet reply key now c))) =
     cs_hits (mc_stats c) + cs_misses (mc_stats c) + 1"
  by (simp add: cacheGet_def missed_def cacheDelete_def split: store_reply.split option.split)

text \<open>A value is read back for as long as it lives, when the store answers.\<close>

lemma cache_roundtrip:
  assumes "reply StoreSet key \<noteq> Throws" and "reply' StoreGet key = Answers" and "now \<le> t + ttl * 1000"
  shows "fst (cacheGet reply' key now (cacheSet reply key d ttl t c)) = Some d"
  using assms by (simp add: cacheGet_def cacheSet_def update_conv')

theorem cache_hit_is_current_and_fresh_witness:
  "\<exists>e. fold written [CacheSet (\<lambda>_ _. Answers) ''k'' (7::nat) 5 100] (\<lambda>_. None) ''k'' = Some e \<and> ce_data e = 7 \<and>
     4000 - ce_timestamp e \<le> ce_ttl e * 1000"
  by (rule cache_hit_is_current_and_fresh [where reply = "\<lambda>_ _. Answers"])
    (simp add: cacheGet_def cacheSet_def emptyCache_def)

end
