(* ===== verification/Streaming.thy ===== *)
theory Streaming
  imports MarketCache
begin

text \<open>
  The websocket side: the priority queue of outgoing messages (\<open>message-queue.service.ts\<close>), the pool
  of connections and rooms (\<open>connection-pool.service.ts\<close>), the streams with throttling
  (\<open>stream-manager.service.ts\<close>), the connection table (\<open>connection-manager.service.ts\<close>), all under
  \<open>websocket/services\<close>, and the gateway that puts the first two together
  (\<open>websocket/gateway/optimized-trading.gateway.ts\<close>).

  Sockets are their ids with the state of the connection; what is sent is recorded as a list of
  deliveries. A timer that was started and has not run yet is an entry of a list. Message ids and the
  measured processing times are arguments.
\<close>

section \<open>The queue of outgoing messages\<close>

datatype message_priority = High | Medium | Low

record 'd QueuedMessage =
  qm_id :: uuid
  qm_room :: string
  qm_event :: string
  qm_data :: 'd
  qm_priority :: message_priority
  qm_timestamp :: timestamp
  qm_retryCount :: nat
  qm_maxRetries :: nat

record QueueStats =
  qs_totalMessages :: nat
  qs_processedMessages :: nat
  qs_failedMessages :: nat
  qs_averageProcessingTime :: real
  qs_queueSize :: nat
  qs_messagesByPriority :: "message_priority \<Rightarrow> nat"

text \<open>\<open>mq_retries\<close>: the messages whose retry timer is running. The delay is constant, so they return in this order.\<close>

record 'd message_queue =
  mq_messages :: "'d QueuedMessage list"
  mq_processing :: "uuid set"
  mq_retries :: "'d QueuedMessage list"
  mq_stats :: QueueStats

definition MAX_QUEUE_SIZE :: nat where
  "MAX_QUEUE_SIZE = 10000"

definition BATCH_SIZE :: nat where
  "BATCH_SIZE = 100"

definition emptyStats :: QueueStats where
  "emptyStats = \<lparr>qs_totalMessages = 0, qs_processedMessages = 0, qs_failedMessages = 0, qs_averageProcessingTime = 0,
     qs_queueSize = 0, qs_messagesByPriority = (\<lambda>_. 0)\<rparr>"

fun priorityOrder :: "message_priority \<Rightarrow> nat" where
  "priorityOrder High = 0"
| "priorityOrder Medium = 1"
| "priorityOrder Low = 2"

text \<open>The loop that looks for the first message of lower priority, and the \<open>splice\<close>.\<close>

fun insertByPriority :: "'d QueuedMessage \<Rightarrow> 'd QueuedMessage list \<Rightarrow> 'd QueuedMessage list" where
  "insertByPriority m [] = [m]"
| "insertByPriority m (x # xs) =
     (if priorityOrder (qm_priority m) < priorityOrder (qm_priority x) then m # x # xs else x # insertByPriority m xs)"

definition insertMessageByPriority :: "'d QueuedMessage \<Rightarrow> 'd message_queue \<Rightarrow> 'd message_queue" where
  "insertMessageByPriority m q =
     q\<lparr>mq_messages := insertByPriority m (mq_messages q),
       mq_stats := (mq_stats q)\<lparr>qs_totalMessages := qs_totalMessages (mq_stats q) + 1\<rparr>\<rparr>"

definition dropLowPriorityMessages :: "'d message_queue \<Rightarrow> 'd message_queue" where
  "dropLowPriorityMessages q =
     q\<lparr>mq_messages := filter (\<lambda>m. qm_priority m \<noteq> Low) (mq_messages q),
       mq_stats := (mq_stats q)\<lparr>qs_failedMessages :=
         qs_failedMessages (mq_stats q) + length (filter (\<lambda>m. qm_priority m = Low) (mq_messages q))\<rparr>\<rparr>"

definition updateStats :: "'d message_queue \<Rightarrow> 'd message_queue" where
  "updateStats q =
     q\<lparr>mq_stats := (mq_stats q)\<lparr>qs_queueSize := length (mq_messages q),
         qs_messagesByPriority := (\<lambda>p. length (filter (\<lambda>m. qm_priority m = p) (mq_messages q)))\<rparr>\<rparr>"

definition queueMessage ::
  "uuid \<Rightarrow> string \<Rightarrow> string \<Rightarrow> 'd \<Rightarrow> message_priority \<Rightarrow> timestamp \<Rightarrow> 'd message_queue \<Rightarrow> uuid \<times> 'd message_queue" where
  "queueMessage newId room event d priority now q =
     (let q1 = (if length (mq_messages q) \<ge> MAX_QUEUE_SIZE then dropLowPriorityMessages q else q);
          m = \<lparr>qm_id = newId, qm_room = room, qm_event = event, qm_data = d, qm_priority = priority, qm_timestamp = now,
               qm_retryCount = 0, qm_maxRetries = (if priority = High then 3 else 2)\<rparr>
      in (newId, updateStats (insertMessageByPriority m q1)))"

definition getQueueStats :: "'d message_queue \<Rightarrow> QueueStats \<times> 'd message_queue" where
  "getQueueStats q = (mq_stats (updateStats q), updateStats q)"

text \<open>Timers that are running are not cancelled.\<close>

definition clearQueue :: "'d message_queue \<Rightarrow> 'd message_queue" where
  "clearQueue q = q\<lparr>mq_messages := [], mq_processing := {}, mq_stats := emptyStats\<rparr>"

definition updateAverageProcessingTime :: "real \<Rightarrow> QueueStats \<Rightarrow> QueueStats" where
  "updateAverageProcessingTime t s =
     s\<lparr>qs_averageProcessingTime :=
         (if qs_processedMessages s = 1 then t
          else (qs_averageProcessingTime s * (real (qs_processedMessages s) - 1) + t) / real (qs_processedMessages s))\<rparr>"

text \<open>
  \<open>listener\<close> is what the \<open>processMessage\<close> event runs: whether it returned, and the world it left.
  Nothing in \<open>processMessage\<close> waits, so it runs to its end within the batch.
\<close>

definition processMessage ::
  "('d QueuedMessage \<Rightarrow> 'w \<Rightarrow> bool \<times> 'w) \<Rightarrow> (uuid \<Rightarrow> real) \<Rightarrow> 'd QueuedMessage \<Rightarrow> 'd message_queue \<times> 'w \<Rightarrow> 'd message_queue \<times> 'w" where
  "processMessage listener took m qw =
     (let (q, w) = qw; (returned, w1) = listener m w;
          q1 = q\<lparr>mq_processing := mq_processing q - {qm_id m}\<rparr>; s = mq_stats q1;
          m1 = m\<lparr>qm_retryCount := qm_retryCount m + 1\<rparr>
      in if returned
         then (q1\<lparr>mq_stats := updateAverageProcessingTime (took (qm_id m))
                   (s\<lparr>qs_processedMessages := qs_processedMessages s + 1\<rparr>)\<rparr>, w1)
         else if qm_retryCount m1 < qm_maxRetries m1 then (q1\<lparr>mq_retries := mq_retries q1 @ [m1]\<rparr>, w1)
         else (q1\<lparr>mq_stats := s\<lparr>qs_failedMessages := qs_failedMessages s + 1\<rparr>\<rparr>, w1))"

definition processOne ::
  "('d QueuedMessage \<Rightarrow> 'w \<Rightarrow> bool \<times> 'w) \<Rightarrow> (uuid \<Rightarrow> real) \<Rightarrow> 'd QueuedMessage \<Rightarrow> 'd message_queue \<times> 'w \<Rightarrow> 'd message_queue \<times> 'w" where
  "processOne listener took m qw =
     (let (q, w) = qw
      in if qm_id m \<in> mq_processing q then (q, w)
         else processMessage listener took m (q\<lparr>mq_processing := insert (qm_id m) (mq_processing q)\<rparr>, w))"

definition processBatch ::
  "('d QueuedMessage \<Rightarrow> 'w \<Rightarrow> bool \<times> 'w) \<Rightarrow> (uuid \<Rightarrow> real) \<Rightarrow> 'd message_queue \<times> 'w \<Rightarrow> 'd message_queue \<times> 'w" where
  "processBatch listener took qw =
     (let (q, w) = qw; batch = take BATCH_SIZE (mq_messages q)
      in fold (processOne listener took) batch (q\<lparr>mq_messages := drop BATCH_SIZE (mq_messages q)\<rparr>, w))"

text \<open>The callback of the retry timer that runs out first.\<close>

definition retryTimer :: "'d message_queue \<Rightarrow> 'd message_queue" where
  "retryTimer q = (case mq_retries q of [] \<Rightarrow> q | m # ms \<Rightarrow> insertMessageByPriority m (q\<lparr>mq_retries := ms\<rparr>))"

definition getMessagesForRoom :: "string \<Rightarrow> nat \<Rightarrow> 'd message_queue \<Rightarrow> 'd QueuedMessage list" where
  "getMessagesForRoom room n q = take n (filter (\<lambda>m. qm_room m = room) (mq_messages q))"

definition removeMessagesForRoom :: "string \<Rightarrow> 'd message_queue \<Rightarrow> nat \<times> 'd message_queue" where
  "removeMessagesForRoom room q =
     (let kept = filter (\<lambda>m. qm_room m \<noteq> room) (mq_messages q)
      in (length (mq_messages q) - length kept, q\<lparr>mq_messages := kept\<rparr>))"

section \<open>Connections and rooms\<close>

text \<open>The socket of a connection is its id and whether it is connected; the subscriptions in the order they were added.\<close>

record ConnectionInfo =
  cn_connected :: bool
  cn_userId :: "string option"
  cn_connectedAt :: timestamp
  cn_lastActivity :: timestamp
  cn_subscriptions :: "string list"
  cn_roomCount :: int
  cn_messageCount :: nat

record RoomInfo =
  ri_name :: string
  ri_clients :: "uuid list"
  ri_createdAt :: timestamp
  ri_lastMessage :: timestamp
  ri_messageCount :: nat

text \<open>\<open>cp_sent\<close>: what was emitted, to which socket.\<close>

record 'd connection_pool =
  cp_connections :: "(uuid \<times> ConnectionInfo) list"
  cp_rooms :: "(string \<times> RoomInfo) list"
  cp_sent :: "(uuid \<times> string \<times> 'd) list"

definition MAX_CONNECTIONS_PER_USER :: nat where
  "MAX_CONNECTIONS_PER_USER = 10"

definition MAX_ROOMS_PER_CONNECTION :: int where
  "MAX_ROOMS_PER_CONNECTION = 50"

definition CONNECTION_TIMEOUT :: int where
  "CONNECTION_TIMEOUT = 5 * 60 * 1000"

definition setConnection :: "uuid \<Rightarrow> ConnectionInfo \<Rightarrow> 'd connection_pool \<Rightarrow> 'd connection_pool" where
  "setConnection i c p = p\<lparr>cp_connections := AList.update i c (cp_connections p)\<rparr>"

definition setRoom :: "string \<Rightarrow> RoomInfo \<Rightarrow> 'd connection_pool \<Rightarrow> 'd connection_pool" where
  "setRoom r info p = p\<lparr>cp_rooms := AList.update r info (cp_rooms p)\<rparr>"

text \<open>\<open>Set.add\<close>.\<close>

definition addToSet :: "'a \<Rightarrow> 'a list \<Rightarrow> 'a list" where
  "addToSet x xs = (if x \<in> set xs then xs else xs @ [x])"

definition addConnection :: "uuid \<Rightarrow> timestamp \<Rightarrow> 'd connection_pool \<Rightarrow> 'd connection_pool" where
  "addConnection i now p = setConnection i \<lparr>cn_connected = True, cn_userId = None, cn_connectedAt = now,
     cn_lastActivity = now, cn_subscriptions = [], cn_roomCount = 0, cn_messageCount = 0\<rparr> p"

definition leaveRoom :: "uuid \<Rightarrow> string \<Rightarrow> 'd connection_pool \<Rightarrow> 'd connection_pool" where
  "leaveRoom i r p =
     (case map_of (cp_connections p) i of
        None \<Rightarrow> p
      | Some c \<Rightarrow>
          (case map_of (cp_rooms p) r of
             None \<Rightarrow> p
           | Some room \<Rightarrow>
               let clients = filter (\<lambda>x. x \<noteq> i) (ri_clients room);
                   p1 = setConnection i (c\<lparr>cn_subscriptions := filter (\<lambda>x. x \<noteq> r) (cn_subscriptions c),
                          cn_roomCount := cn_roomCount c - 1\<rparr>) p
               in if clients = [] then p1\<lparr>cp_rooms := AList.delete r (cp_rooms p1)\<rparr>
                  else setRoom r (room\<lparr>ri_clients := clients\<rparr>) p1))"

text \<open>\<open>forEach\<close> over the set it shrinks visits every room that was in it once.\<close>

definition leaveAllRooms :: "uuid \<Rightarrow> 'd connection_pool \<Rightarrow> 'd connection_pool" where
  "leaveAllRooms i p =
     (case map_of (cp_connections p) i of
        None \<Rightarrow> p
      | Some c \<Rightarrow> fold (leaveRoom i) (cn_subscriptions c) p)"

definition deleteConnection :: "uuid \<Rightarrow> 'd connection_pool \<Rightarrow> 'd connection_pool" where
  "deleteConnection i p = p\<lparr>cp_connections := AList.delete i (cp_connections p)\<rparr>"

definition removeConnection :: "uuid \<Rightarrow> 'd connection_pool \<Rightarrow> 'd connection_pool" where
  "removeConnection i p =
     (if map_of (cp_connections p) i = None then p else deleteConnection i (leaveAllRooms i p))"

definition getUserConnectionCount :: "string \<Rightarrow> 'd connection_pool \<Rightarrow> nat" where
  "getUserConnectionCount u p =
     length (filter (\<lambda>(_, c). cn_userId c = Some u \<and> cn_connected c) (cp_connections p))"

definition associateUser :: "uuid \<Rightarrow> string \<Rightarrow> 'd connection_pool \<Rightarrow> bool \<times> 'd connection_pool" where
  "associateUser i u p =
     (case map_of (cp_connections p) i of
        None \<Rightarrow> (False, p)
      | Some c \<Rightarrow>
          if getUserConnectionCount u p \<ge> MAX_CONNECTIONS_PER_USER then (False, p)
          else (True, setConnection i (c\<lparr>cn_userId := Some u\<rparr>) p))"

definition joinRoom :: "uuid \<Rightarrow> string \<Rightarrow> timestamp \<Rightarrow> 'd connection_pool \<Rightarrow> bool \<times> 'd connection_pool" where
  "joinRoom i r now p =
     (case map_of (cp_connections p) i of
        None \<Rightarrow> (False, p)
      | Some c \<Rightarrow>
          if cn_roomCount c \<ge> MAX_ROOMS_PER_CONNECTION then (False, p)
          else let room = (case map_of (cp_rooms p) r of
                     None \<Rightarrow> \<lparr>ri_name = r, ri_clients = [], ri_createdAt = now, ri_lastMessage = now, ri_messageCount = 0\<rparr>
                   | Some room \<Rightarrow> room)
               in (True, setConnection i (c\<lparr>cn_subscriptions := addToSet r (cn_subscriptions c),
                           cn_roomCount := cn_roomCount c + 1\<rparr>)
                          (setRoom r (room\<lparr>ri_clients := addToSet i (ri_clients room)\<rparr>) p)))"

definition sendTo :: "string \<Rightarrow> 'd \<Rightarrow> uuid \<Rightarrow> 'd connection_pool \<Rightarrow> 'd connection_pool" where
  "sendTo event d i p =
     (case map_of (cp_connections p) i of
        None \<Rightarrow> p
      | Some c \<Rightarrow>
          if cn_connected c
          then (setConnection i (c\<lparr>cn_messageCount := cn_messageCount c + 1\<rparr>) p)\<lparr>cp_sent := cp_sent p @ [(i, event, d)]\<rparr>
          else p)"

definition broadcastToRoom :: "string \<Rightarrow> string \<Rightarrow> 'd \<Rightarrow> timestamp \<Rightarrow> 'd connection_pool \<Rightarrow> 'd connection_pool" where
  "broadcastToRoom r event d now p =
     (case map_of (cp_rooms p) r of
        None \<Rightarrow> p
      | Some room \<Rightarrow>
          if ri_clients room = [] then p
          else setRoom r (room\<lparr>ri_lastMessage := now, ri_messageCount := ri_messageCount room + 1\<rparr>)
                 (fold (sendTo event d) (ri_clients room) p))"

definition sendHeartbeat :: "'d \<Rightarrow> timestamp \<Rightarrow> 'd connection_pool \<Rightarrow> 'd connection_pool" where
  "sendHeartbeat beat now p =
     p\<lparr>cp_connections := map (\<lambda>(i, c). (i, if cn_connected c then c\<lparr>cn_lastActivity := now\<rparr> else c)) (cp_connections p),
       cp_sent := cp_sent p @ map (\<lambda>(i, _). (i, ''heartbeat'', beat)) (filter (\<lambda>(_, c). cn_connected c) (cp_connections p))\<rparr>"

definition inactive :: "timestamp \<Rightarrow> ConnectionInfo \<Rightarrow> bool" where
  "inactive now c \<longleftrightarrow> \<not> cn_connected c \<or> now - cn_lastActivity c > CONNECTION_TIMEOUT"

definition cleanupInactiveConnections :: "timestamp \<Rightarrow> 'd connection_pool \<Rightarrow> 'd connection_pool" where
  "cleanupInactiveConnections now p =
     fold (\<lambda>(i, _) q. deleteConnection i (leaveAllRooms i q)) (filter (\<lambda>(_, c). inactive now c) (cp_connections p)) p"

text \<open>A socket that lost its connection; it does not come back under the same id.\<close>

definition socketLost :: "uuid \<Rightarrow> 'd connection_pool \<Rightarrow> 'd connection_pool" where
  "socketLost i p = p\<lparr>cp_connections := AList.map_entry i (\<lambda>c. c\<lparr>cn_connected := False\<rparr>) (cp_connections p)\<rparr>"

definition poolGetUserConnections :: "string \<Rightarrow> 'd connection_pool \<Rightarrow> ConnectionInfo list" where
  "poolGetUserConnections u p = filter (\<lambda>c. cn_userId c = Some u \<and> cn_connected c) (map snd (cp_connections p))"

record pool_stats =
  ps_totalConnections :: nat
  ps_activeConnections :: nat
  ps_totalRooms :: nat
  ps_averageRoomsPerConnection :: real
  ps_topActiveRooms :: "(string \<times> nat \<times> nat) list"
  ps_userConnectionCounts :: "(string \<times> nat) list"

definition poolGetConnectionStats :: "'d connection_pool \<Rightarrow> pool_stats" where
  "poolGetConnectionStats p =
     (let conns = map snd (cp_connections p); users = List.map_filter cn_userId conns
      in \<lparr>ps_totalConnections = length conns, ps_activeConnections = length (filter cn_connected conns),
          ps_totalRooms = length (cp_rooms p),
          ps_averageRoomsPerConnection =
            (if conns = [] then 0 else real_of_int (sum_list (map cn_roomCount conns)) / real (length conns)),
          ps_topActiveRooms = map (\<lambda>room. (ri_name room, length (ri_clients room), ri_messageCount room))
            (take 10 (sort_key (\<lambda>room. - int (length (ri_clients room))) (map snd (cp_rooms p)))),
          ps_userConnectionCounts =
            take 10 (sort_key (\<lambda>(_, n). - int n) (map (\<lambda>u. (u, count_list users u)) (filter (\<lambda>u. u \<noteq> []) (setOrder users))))\<rparr>)"

section \<open>Streams\<close>

text \<open>A configuration as it is given; a missing property is \<open>None\<close>. The stored one has the defaults filled in.\<close>

record StreamConfig =
  sc_name :: string
  sc_throttleMs :: "nat option"
  sc_batchSize :: "nat option"
  sc_maxSubscribers :: "nat option"

record stored_config =
  sg_throttleMs :: nat
  sg_batchSize :: nat
  sg_maxSubscribers :: nat

text \<open>What is emitted for a stream: one message, or a batch.\<close>

datatype 'd emission = Single 'd | Batch "'d list"

text \<open>
  \<open>sm_timers\<close> is the map \<open>throttleTimers\<close>, from a stream to the id of its timer; \<open>sm_pending\<close> are
  the timers that are running, with the stream and the configuration their callback has captured.
\<close>

record 'd stream_manager =
  sm_streams :: "(string \<times> stored_config) list"
  sm_subscribers :: "(string \<times> string list) list"
  sm_messageCounts :: "(string \<times> nat) list"
  sm_lastMessageTime :: "(string \<times> timestamp) list"
  sm_timers :: "(string \<times> nat) list"
  sm_pending :: "(nat \<times> string \<times> stored_config) list"
  sm_nextTimer :: nat
  sm_buffers :: "(string \<times> 'd list) list"
  sm_emitted :: "(string \<times> 'd emission) list"

definition orElse :: "nat \<Rightarrow> nat option \<Rightarrow> nat" where
  "orElse d x = (case x of None \<Rightarrow> d | Some n \<Rightarrow> n)"

definition createStream :: "StreamConfig \<Rightarrow> 'd stream_manager \<Rightarrow> 'd stream_manager result" where
  "createStream config m =
     (if map_of (sm_streams m) (sc_name config) \<noteq> None then Inl (JsError ''Stream already exists'')
      else Inr (m\<lparr>
        sm_streams := AList.update (sc_name config) \<lparr>sg_throttleMs = orElse 0 (sc_throttleMs config),
          sg_batchSize = orElse 1 (sc_batchSize config), sg_maxSubscribers = orElse 1000 (sc_maxSubscribers config)\<rparr> (sm_streams m),
        sm_subscribers := AList.update (sc_name config) [] (sm_subscribers m),
        sm_messageCounts := AList.update (sc_name config) 0 (sm_messageCounts m),
        sm_buffers := AList.update (sc_name config) [] (sm_buffers m)\<rparr>))"

definition destroyStream :: "string \<Rightarrow> 'd stream_manager \<Rightarrow> 'd stream_manager result" where
  "destroyStream n m =
     (if map_of (sm_streams m) n = None then Inl (JsError ''Stream does not exist'')
      else let m1 = (case map_of (sm_timers m) n of
             None \<Rightarrow> m
           | Some t \<Rightarrow> m\<lparr>sm_pending := filter (\<lambda>(i, _). i \<noteq> t) (sm_pending m), sm_timers := AList.delete n (sm_timers m)\<rparr>)
           in Inr (m1\<lparr>sm_streams := AList.delete n (sm_streams m1), sm_subscribers := AList.delete n (sm_subscribers m1),
                sm_messageCounts := AList.delete n (sm_messageCounts m1), sm_buffers := AList.delete n (sm_buffers m1)\<rparr>))"

definition subscribersOf :: "string \<Rightarrow> 'd stream_manager \<Rightarrow> string list" where
  "subscribersOf n m = (case map_of (sm_subscribers m) n of None \<Rightarrow> [] | Some xs \<Rightarrow> xs)"

text \<open>\<open>x || d\<close> for a number.\<close>

definition orNumber :: "nat \<Rightarrow> nat \<Rightarrow> nat" where
  "orNumber x d = (if x = 0 then d else x)"

definition subscribeToStream :: "string \<Rightarrow> string \<Rightarrow> 'd stream_manager \<Rightarrow> (bool \<times> 'd stream_manager) result" where
  "subscribeToStream n clientId m =
     (case map_of (sm_streams m) n of
        None \<Rightarrow> Inl (JsError ''Stream does not exist'')
      | Some stream \<Rightarrow>
          if length (subscribersOf n m) \<ge> orNumber (sg_maxSubscribers stream) 1000 then Inr (False, m)
          else Inr (True, m\<lparr>sm_subscribers := AList.update n (addToSet clientId (subscribersOf n m)) (sm_subscribers m)\<rparr>))"

definition unsubscribeFromStream :: "string \<Rightarrow> string \<Rightarrow> 'd stream_manager \<Rightarrow> 'd stream_manager" where
  "unsubscribeFromStream n clientId m =
     m\<lparr>sm_subscribers := AList.map_entry n (filter (\<lambda>x. x \<noteq> clientId)) (sm_subscribers m)\<rparr>"

definition emitMessage :: "string \<Rightarrow> 'd emission \<Rightarrow> timestamp \<Rightarrow> 'd stream_manager \<Rightarrow> 'd stream_manager" where
  "emitMessage n e now m =
     m\<lparr>sm_lastMessageTime := AList.update n now (sm_lastMessageTime m), sm_emitted := sm_emitted m @ [(n, e)]\<rparr>"

definition bufferOf :: "string \<Rightarrow> 'd stream_manager \<Rightarrow> 'd list" where
  "bufferOf n m = (case map_of (sm_buffers m) n of None \<Rightarrow> [] | Some xs \<Rightarrow> xs)"

definition flushBuffer :: "string \<Rightarrow> stored_config \<Rightarrow> timestamp \<Rightarrow> 'd stream_manager \<Rightarrow> 'd stream_manager" where
  "flushBuffer n config now m =
     (case bufferOf n m of
        [] \<Rightarrow> m\<lparr>sm_timers := AList.delete n (sm_timers m)\<rparr>
      | x # xs \<Rightarrow>
          let m1 = emitMessage n (if sg_batchSize config = 1 then Single x else Batch (x # xs)) now m
          in m1\<lparr>sm_buffers := AList.update n [] (sm_buffers m1), sm_timers := AList.delete n (sm_timers m1)\<rparr>)"

definition bufferMessage :: "string \<Rightarrow> 'd \<Rightarrow> stored_config \<Rightarrow> timestamp \<Rightarrow> 'd stream_manager \<Rightarrow> 'd stream_manager" where
  "bufferMessage n d config now m =
     (let buffer = bufferOf n m @ [d];
          m1 = m\<lparr>sm_buffers := AList.update n buffer (sm_buffers m)\<rparr>;
          m2 = (if map_of (sm_timers m1) n \<noteq> None then m1
                else m1\<lparr>sm_timers := AList.update n (sm_nextTimer m1) (sm_timers m1),
                        sm_pending := sm_pending m1 @ [(sm_nextTimer m1, n, config)], sm_nextTimer := sm_nextTimer m1 + 1\<rparr>)
      in if length buffer \<ge> orNumber (sg_batchSize config) 1 then flushBuffer n config now m2 else m2)"

definition countOf :: "string \<Rightarrow> 'd stream_manager \<Rightarrow> nat" where
  "countOf n m = (case map_of (sm_messageCounts m) n of None \<Rightarrow> 0 | Some k \<Rightarrow> k)"

definition publishToStream :: "string \<Rightarrow> 'd \<Rightarrow> timestamp \<Rightarrow> 'd stream_manager \<Rightarrow> 'd stream_manager result" where
  "publishToStream n d now m =
     (case map_of (sm_streams m) n of
        None \<Rightarrow> Inl (JsError ''Stream does not exist'')
      | Some stream \<Rightarrow>
          if subscribersOf n m = [] then Inr m
          else let m1 = m\<lparr>sm_messageCounts := AList.update n (countOf n m + 1) (sm_messageCounts m)\<rparr>
               in Inr (if sg_throttleMs stream > 0 then bufferMessage n d stream now m1 else emitMessage n (Single d) now m1))"

text \<open>A running timer runs out: its callback flushes the buffer with the configuration it captured.\<close>

definition timerFires :: "nat \<Rightarrow> timestamp \<Rightarrow> 'd stream_manager \<Rightarrow> 'd stream_manager" where
  "timerFires t now m =
     (case map_of (sm_pending m) t of
        None \<Rightarrow> m
      | Some (n, config) \<Rightarrow> flushBuffer n config now (m\<lparr>sm_pending := filter (\<lambda>(i, _). i \<noteq> t) (sm_pending m)\<rparr>))"

record StreamStats =
  ss_name :: string
  ss_subscribers :: nat
  ss_messagesPublished :: nat
  ss_messagesPerSecond :: jsnum

definition streamStats :: "string \<Rightarrow> timestamp \<Rightarrow> 'd stream_manager \<Rightarrow> StreamStats result" where
  "streamStats n now m =
     (if map_of (sm_streams m) n = None then Inl (JsError ''Stream does not exist'')
      else let lastTime = (case map_of (sm_lastMessageTime m) n of None \<Rightarrow> 0 | Some t \<Rightarrow> t)
           in Inr \<lparr>ss_name = n, ss_subscribers = length (subscribersOf n m), ss_messagesPublished = countOf n m,
                ss_messagesPerSecond =
                  (if lastTime > 0 then js_div (Fin (real (countOf n m))) (real_of_int (now - lastTime) / 1000) else Fin 0)\<rparr>)"

definition allStreamStats :: "'d stream_manager \<Rightarrow> StreamStats list" where
  "allStreamStats m = map (\<lambda>(n, _). \<lparr>ss_name = n, ss_subscribers = length (subscribersOf n m),
     ss_messagesPublished = countOf n m, ss_messagesPerSecond = Fin 0\<rparr>) (sm_streams m)"

section \<open>The connection table\<close>

record ConnectionState =
  cx_userId :: "string option"
  cx_connectedAt :: timestamp
  cx_lastActivity :: timestamp
  cx_subscriptions :: "string list"
  cx_reconnectAttempts :: nat
  cx_isAuthenticated :: bool

record ReconnectionConfig =
  rg_maxAttempts :: nat
  rg_backoffMs :: int
  rg_maxBackoffMs :: int

definition defaultReconnection :: ReconnectionConfig where
  "defaultReconnection = \<lparr>rg_maxAttempts = 5, rg_backoffMs = 1000, rg_maxBackoffMs = 30000\<rparr>"

type_synonym connection_table = "(string \<times> ConnectionState) list"

definition registerConnection :: "string \<Rightarrow> string option \<Rightarrow> timestamp \<Rightarrow> connection_table \<Rightarrow> connection_table" where
  "registerConnection clientId userId now t =
     AList.update clientId \<lparr>cx_userId = userId, cx_connectedAt = now, cx_lastActivity = now, cx_subscriptions = [],
       cx_reconnectAttempts = 0, cx_isAuthenticated = False\<rparr> t"

definition unregisterConnection :: "string \<Rightarrow> connection_table \<Rightarrow> connection_table" where
  "unregisterConnection clientId t = AList.delete clientId t"

definition updateActivity :: "string \<Rightarrow> timestamp \<Rightarrow> connection_table \<Rightarrow> connection_table" where
  "updateActivity clientId now = AList.map_entry clientId (\<lambda>s. s\<lparr>cx_lastActivity := now\<rparr>)"

definition addSubscription :: "string \<Rightarrow> string \<Rightarrow> connection_table \<Rightarrow> connection_table" where
  "addSubscription clientId channel =
     AList.map_entry clientId (\<lambda>s. s\<lparr>cx_subscriptions := addToSet channel (cx_subscriptions s)\<rparr>)"

definition removeSubscription :: "string \<Rightarrow> string \<Rightarrow> connection_table \<Rightarrow> connection_table" where
  "removeSubscription clientId channel =
     AList.map_entry clientId (\<lambda>s. s\<lparr>cx_subscriptions := filter (\<lambda>c. c \<noteq> channel) (cx_subscriptions s)\<rparr>)"

definition markAuthenticated :: "string \<Rightarrow> connection_table \<Rightarrow> connection_table" where
  "markAuthenticated clientId = AList.map_entry clientId (\<lambda>s. s\<lparr>cx_isAuthenticated := True\<rparr>)"

definition handleReconnection :: "ReconnectionConfig \<Rightarrow> string \<Rightarrow> connection_table \<Rightarrow> int \<times> connection_table" where
  "handleReconnection cfg clientId t =
     (case map_of t clientId of
        None \<Rightarrow> (0, t)
      | Some s \<Rightarrow>
          let attempts = cx_reconnectAttempts s + 1
          in (if attempts > rg_maxAttempts cfg then -1 else min (rg_backoffMs cfg * 2 ^ (attempts - 1)) (rg_maxBackoffMs cfg),
              AList.update clientId (s\<lparr>cx_reconnectAttempts := attempts\<rparr>) t))"

definition resetReconnection :: "string \<Rightarrow> connection_table \<Rightarrow> connection_table" where
  "resetReconnection clientId = AList.map_entry clientId (\<lambda>s. s\<lparr>cx_reconnectAttempts := 0\<rparr>)"

definition cleanupStaleConnections :: "int \<Rightarrow> timestamp \<Rightarrow> connection_table \<Rightarrow> nat \<times> connection_table" where
  "cleanupStaleConnections timeoutMs now t =
     (let stale = (\<lambda>(_, s). now - cx_lastActivity s > timeoutMs)
      in (length (filter stale t), filter (\<lambda>e. \<not> stale e) t))"

definition getConnectionsByChannel :: "string \<Rightarrow> connection_table \<Rightarrow> ConnectionState list" where
  "getConnectionsByChannel channel t = filter (\<lambda>s. channel \<in> set (cx_subscriptions s)) (map snd t)"

definition getUserConnections :: "string \<Rightarrow> connection_table \<Rightarrow> ConnectionState list" where
  "getUserConnections userId t = filter (\<lambda>s. cx_userId s = Some userId) (map snd t)"

definition calculateAverageDuration :: "ConnectionState list \<Rightarrow> timestamp \<Rightarrow> real" where
  "calculateAverageDuration connections now =
     (if connections = [] then 0
      else real_of_int (sum_list (map (\<lambda>s. now - cx_connectedAt s) connections)) / real (length connections))"

definition countConnectionsByChannel :: "ConnectionState list \<Rightarrow> (string \<times> nat) list" where
  "countConnectionsByChannel connections =
     (let channels = concat (map cx_subscriptions connections)
      in map (\<lambda>c. (c, count_list channels c)) (setOrder channels))"

section \<open>The gateway\<close>

datatype trade_side = Bought | Sold

datatype reply =
    Connected
  | Authenticated string
  | AuthenticationError string
  | Subscribed string
  | RecentTrades string
  | CurrentOrderBook string
  | Unsubscribed string
  | Pong

text \<open>\<open>gw_replies\<close>: what the handlers answer to a socket themselves.\<close>

record 'd gateway =
  gw_pool :: "'d connection_pool"
  gw_queue :: "'d message_queue"
  gw_cache :: "'d market_cache"
  gw_replies :: "(uuid \<times> reply) list"

definition replyTo :: "uuid \<Rightarrow> reply \<Rightarrow> 'd gateway \<Rightarrow> 'd gateway" where
  "replyTo i r g = g\<lparr>gw_replies := gw_replies g @ [(i, r)]\<rparr>"

definition handleConnection :: "uuid \<Rightarrow> timestamp \<Rightarrow> 'd gateway \<Rightarrow> 'd gateway" where
  "handleConnection i now g = replyTo i Connected (g\<lparr>gw_pool := addConnection i now (gw_pool g)\<rparr>)"

definition handleDisconnect :: "uuid \<Rightarrow> 'd gateway \<Rightarrow> 'd gateway" where
  "handleDisconnect i g = g\<lparr>gw_pool := removeConnection i (gw_pool g)\<rparr>"

definition handleAuthentication :: "uuid \<Rightarrow> string \<Rightarrow> string \<Rightarrow> timestamp \<Rightarrow> 'd gateway \<Rightarrow> 'd gateway" where
  "handleAuthentication i token userId now g =
     (if token \<noteq> [] \<and> userId \<noteq> []
      then (case associateUser i userId (gw_pool g) of
              (True, p) \<Rightarrow> (replyTo i (Authenticated userId) g)\<lparr>gw_pool := snd (joinRoom i (''user:'' @ userId) now p)\<rparr>
            | (False, p) \<Rightarrow> (replyTo i (AuthenticationError ''Connection limit exceeded'') g)\<lparr>gw_pool := p\<rparr>)
      else replyTo i (AuthenticationError ''Invalid credentials'') g)"

definition handleSubscribeTrades :: "uuid \<Rightarrow> string \<Rightarrow> string \<Rightarrow> timestamp \<Rightarrow> 'd gateway \<Rightarrow> 'd gateway" where
  "handleSubscribeTrades i asset userId now g =
     (if map_of (cp_connections (gw_pool g)) i = None then g
      else if asset \<noteq> []
      then (case joinRoom i (''trades:'' @ asset) now (gw_pool g) of
              (True, p) \<Rightarrow> replyTo i (RecentTrades asset) (replyTo i (Subscribed (''trades:'' @ asset)) (g\<lparr>gw_pool := p\<rparr>))
            | (False, p) \<Rightarrow> g\<lparr>gw_pool := p\<rparr>)
      else if userId \<noteq> []
      then (case joinRoom i (''user_trades:'' @ userId) now (gw_pool g) of
              (True, p) \<Rightarrow> replyTo i (Subscribed (''user_trades:'' @ userId)) (g\<lparr>gw_pool := p\<rparr>)
            | (False, p) \<Rightarrow> g\<lparr>gw_pool := p\<rparr>)
      else g)"

definition handleSubscribeOrderBook :: "store_replies \<Rightarrow> uuid \<Rightarrow> string \<Rightarrow> timestamp \<Rightarrow> 'd gateway \<Rightarrow> 'd gateway" where
  "handleSubscribeOrderBook reply i asset now g =
     (if map_of (cp_connections (gw_pool g)) i = None then g
      else case joinRoom i (''orderbook:'' @ asset) now (gw_pool g) of
             (False, p) \<Rightarrow> g\<lparr>gw_pool := p\<rparr>
           | (True, p) \<Rightarrow>
               let (book, c) = getOrderBook reply asset now (gw_cache g);
                   g1 = replyTo i (Subscribed (''orderbook:'' @ asset)) (g\<lparr>gw_pool := p, gw_cache := c\<rparr>)
               in if book = None then g1 else replyTo i (CurrentOrderBook asset) g1)"

definition handleUnsubscribe :: "uuid \<Rightarrow> string \<Rightarrow> 'd gateway \<Rightarrow> 'd gateway" where
  "handleUnsubscribe i r g = replyTo i (Unsubscribed r) (g\<lparr>gw_pool := leaveRoom i r (gw_pool g)\<rparr>)"

definition handlePing :: "uuid \<Rightarrow> 'd gateway \<Rightarrow> 'd gateway" where
  "handlePing i = replyTo i Pong"

definition broadcastTradeUpdate ::
  "store_replies \<Rightarrow> uuid \<Rightarrow> uuid \<Rightarrow> string \<Rightarrow> trade_side \<Rightarrow> 'd \<Rightarrow> timestamp \<Rightarrow> 'd gateway \<Rightarrow> 'd gateway" where
  "broadcastTradeUpdate reply id1 id2 asset side d now g =
     (let q = snd (queueMessage id1 (''trades:'' @ asset) ''trade_update'' d High now (gw_queue g));
          q1 = (if side = Bought then snd (queueMessage id2 (''user_trades:'' @ asset) ''trade_update'' d High now q) else q)
      in g\<lparr>gw_queue := q1, gw_cache := invalidateMarketCache reply (Some asset) (gw_cache g)\<rparr>)"

definition broadcastOrderBookUpdate ::
  "store_replies \<Rightarrow> uuid \<Rightarrow> string \<Rightarrow> 'd \<Rightarrow> timestamp \<Rightarrow> 'd gateway \<Rightarrow> 'd gateway" where
  "broadcastOrderBookUpdate reply newId asset d now g =
     g\<lparr>gw_queue := snd (queueMessage newId (''orderbook:'' @ asset) ''orderbook_update'' d High now (gw_queue g)),
       gw_cache := setOrderBook reply asset d now (gw_cache g)\<rparr>"

definition messageQueueListener :: "timestamp \<Rightarrow> 'd QueuedMessage \<Rightarrow> 'd connection_pool \<Rightarrow> bool \<times> 'd connection_pool" where
  "messageQueueListener now m p = (True, broadcastToRoom (qm_room m) (qm_event m) (qm_data m) now p)"

text \<open>One tick of the interval timer of the queue.\<close>

definition gatewayTick :: "(uuid \<Rightarrow> real) \<Rightarrow> timestamp \<Rightarrow> 'd gateway \<Rightarrow> 'd gateway" where
  "gatewayTick took now g =
     (case processBatch (messageQueueListener now) took (gw_queue g, gw_pool g) of
        (q, p) \<Rightarrow> g\<lparr>gw_queue := q, gw_pool := p\<rparr>)"

section \<open>The queue serves by priority, then by arrival\<close>

datatype ('d, 'w) queue_request =
    QueueMessage uuid string string 'd message_priority timestamp
  | ProcessBatch "'d QueuedMessage \<Rightarrow> 'w \<Rightarrow> bool \<times> 'w" "uuid \<Rightarrow> real"
  | RetryTimer
  | ClearQueue
  | RemoveRoom string
  | ReadStats

fun queueRequest :: "('d, 'w) queue_request \<Rightarrow> 'd message_queue \<times> 'w \<Rightarrow> 'd message_queue \<times> 'w" where
  "queueRequest (QueueMessage i r e d pr now) (q, w) = (snd (queueMessage i r e d pr now q), w)"
| "queueRequest (ProcessBatch listener took) (q, w) = processBatch listener took (q, w)"
| "queueRequest RetryTimer (q, w) = (retryTimer q, w)"
| "queueRequest ClearQueue (q, w) = (clearQueue q, w)"
| "queueRequest (RemoveRoom r) (q, w) = (snd (removeMessagesForRoom r q), w)"
| "queueRequest ReadStats (q, w) = (snd (getQueueStats q), w)"

text \<open>
  The reference: one first-in first-out lane for each priority, the messages that wait for a retry, and
  the world of the listener. A batch is the front of the three lanes, one after the other.
\<close>

type_synonym 'd lanes = "message_priority \<Rightarrow> 'd QueuedMessage list"

definition inOrder :: "'d lanes \<Rightarrow> 'd QueuedMessage list" where
  "inOrder l = l High @ l Medium @ l Low"

definition laneAdd :: "'d QueuedMessage \<Rightarrow> 'd lanes \<Rightarrow> 'd lanes" where
  "laneAdd m l = l(qm_priority m := l (qm_priority m) @ [m])"

definition handOut ::
  "('d QueuedMessage \<Rightarrow> 'w \<Rightarrow> bool \<times> 'w) \<Rightarrow> 'd QueuedMessage \<Rightarrow> 'd QueuedMessage list \<times> 'w \<Rightarrow> 'd QueuedMessage list \<times> 'w" where
  "handOut listener m rw =
     (let (waiting, w) = rw; (returned, w1) = listener m w; m1 = m\<lparr>qm_retryCount := qm_retryCount m + 1\<rparr>
      in (if \<not> returned \<and> qm_retryCount m1 < qm_maxRetries m1 then waiting @ [m1] else waiting, w1))"

fun laneRequest ::
  "('d, 'w) queue_request \<Rightarrow> 'd lanes \<times> 'd QueuedMessage list \<times> 'w \<Rightarrow> 'd lanes \<times> 'd QueuedMessage list \<times> 'w" where
  "laneRequest (QueueMessage i r e d pr now) (l, waiting, w) =
     (laneAdd \<lparr>qm_id = i, qm_room = r, qm_event = e, qm_data = d, qm_priority = pr, qm_timestamp = now, qm_retryCount = 0,
                qm_maxRetries = (if pr = High then 3 else 2)\<rparr>
        (if length (inOrder l) \<ge> MAX_QUEUE_SIZE then l(Low := []) else l), waiting, w)"
| "laneRequest (ProcessBatch listener took) (l, waiting, w) =
     (\<lambda>p. filter (\<lambda>m. qm_priority m = p) (drop BATCH_SIZE (inOrder l)),
      fold (handOut listener) (take BATCH_SIZE (inOrder l)) (waiting, w))"
| "laneRequest RetryTimer (l, waiting, w) =
     (case waiting of [] \<Rightarrow> (l, waiting, w) | m # ms \<Rightarrow> (laneAdd m l, ms, w))"
| "laneRequest ClearQueue (l, waiting, w) = (\<lambda>_. [], waiting, w)"
| "laneRequest (RemoveRoom r) (l, waiting, w) = (\<lambda>p. filter (\<lambda>m. qm_room m \<noteq> r) (l p), waiting, w)"
| "laneRequest ReadStats (l, waiting, w) = (l, waiting, w)"

definition lanesOf :: "'d QueuedMessage list \<Rightarrow> 'd lanes" where
  "lanesOf ms p = filter (\<lambda>m. qm_priority m = p) ms"

definition laneView :: "'d message_queue \<times> 'w \<Rightarrow> 'd lanes \<times> 'd QueuedMessage list \<times> 'w" where
  "laneView qw = (lanesOf (mq_messages (fst qw)), mq_retries (fst qw), snd qw)"

definition by_priority :: "'d QueuedMessage list \<Rightarrow> bool" where
  "by_priority ms \<longleftrightarrow> sorted (map (\<lambda>m. priorityOrder (qm_priority m)) ms)"

definition attempts_left :: "'d QueuedMessage \<Rightarrow> bool" where
  "attempts_left m \<longleftrightarrow> qm_retryCount m < qm_maxRetries m \<and> qm_maxRetries m \<le> 3"

definition queue_inv :: "'d message_queue \<times> 'w \<Rightarrow> bool" where
  "queue_inv qw \<longleftrightarrow> by_priority (mq_messages (fst qw)) \<and> mq_processing (fst qw) = {} \<and>
     list_all attempts_left (mq_messages (fst qw) @ mq_retries (fst qw))"

lemma priorityOrder_cases: "p = High \<or> p = Medium \<or> p = Low"
  by (cases p) simp_all

lemma inOrder_lanesOf: "by_priority ms \<Longrightarrow> inOrder (lanesOf ms) = ms"
proof (induction ms)
  case (Cons m ms)
  then have IH: "inOrder (lanesOf ms) = ms" by (simp add: by_priority_def)
  have above: "\<forall>x\<in>set ms. priorityOrder (qm_priority m) \<le> priorityOrder (qm_priority x)"
    using Cons.prems by (simp add: by_priority_def)
  have none: "filter (\<lambda>x. qm_priority x = p) ms = []" if "priorityOrder p < priorityOrder (qm_priority m)" for p
    using above that by (fastforce simp: filter_empty_conv)
  show ?case
    using IH none [of High] none [of Medium] by (cases "qm_priority m") (simp_all add: inOrder_def lanesOf_def)
qed (simp add: inOrder_def lanesOf_def)

lemma set_insertByPriority [simp]: "set (insertByPriority m ms) = insert m (set ms)"
  by (induction ms) auto

lemma by_priority_insert: "by_priority ms \<Longrightarrow> by_priority (insertByPriority m ms)"
  unfolding by_priority_def by (induction ms) (auto dest: le_less_trans less_imp_le)

lemma lanesOf_insert: "by_priority ms \<Longrightarrow> lanesOf (insertByPriority m ms) = laneAdd m (lanesOf ms)"
proof (induction ms)
  case (Cons x ms)
  then have IH: "lanesOf (insertByPriority m ms) = laneAdd m (lanesOf ms)" by (simp add: by_priority_def)
  have above: "\<forall>y\<in>set ms. priorityOrder (qm_priority x) \<le> priorityOrder (qm_priority y)"
    using Cons.prems by (simp add: by_priority_def)
  show ?case
  proof (cases "priorityOrder (qm_priority m) < priorityOrder (qm_priority x)")
    case True
    then have "filter (\<lambda>y. qm_priority y = qm_priority m) (x # ms) = []"
      using above by (fastforce simp: filter_empty_conv)
    with True show ?thesis by (auto simp: lanesOf_def laneAdd_def fun_eq_iff)
  next
    case False
    have "lanesOf (x # insertByPriority m ms) p = laneAdd m (lanesOf (x # ms)) p" for p
      using fun_cong [OF IH, of p] by (cases "qm_priority x = p") (auto simp: lanesOf_def laneAdd_def)
    with False show ?thesis by (auto simp: fun_eq_iff)
  qed
qed (auto simp: lanesOf_def laneAdd_def)

lemma lanesOf_without_low: "lanesOf (filter (\<lambda>m. qm_priority m \<noteq> Low) ms) = (lanesOf ms)(Low := [])"
  by (auto simp: lanesOf_def fun_eq_iff intro: filter_cong)

lemma by_priority_Nil: "by_priority []"
  by (simp add: by_priority_def)

lemma by_priority_filter: "by_priority ms \<Longrightarrow> by_priority (filter P ms)"
  unfolding by_priority_def by (induction ms) auto

lemma by_priority_drop: "by_priority ms \<Longrightarrow> by_priority (drop n ms)"
  unfolding by_priority_def by (simp add: drop_map [symmetric] sorted_wrt_drop)

text \<open>Inside a batch only the statistics, the waiting messages and the world change.\<close>

lemma processOne_view:
  assumes "mq_processing q = {}"
  shows "mq_messages (fst (processOne listener took m (q, w))) = mq_messages q \<and>
    mq_processing (fst (processOne listener took m (q, w))) = {} \<and>
    (mq_retries (fst (processOne listener took m (q, w))), snd (processOne listener took m (q, w))) =
      handOut listener m (mq_retries q, w)"
  using assms by (auto simp: processOne_def processMessage_def handOut_def Let_def case_prod_beta)

lemma batch_view:
  "mq_processing q = {} \<Longrightarrow>
    mq_messages (fst (fold (processOne listener took) ms (q, w))) = mq_messages q \<and>
    mq_processing (fst (fold (processOne listener took) ms (q, w))) = {} \<and>
    (mq_retries (fst (fold (processOne listener took) ms (q, w))), snd (fold (processOne listener took) ms (q, w))) =
      fold (handOut listener) ms (mq_retries q, w)"
proof (induction ms arbitrary: q w)
  case (Cons m ms)
  obtain q1 w1 where one: "processOne listener took m (q, w) = (q1, w1)" by fastforce
  with processOne_view [OF Cons.prems, of listener took m w] Cons.IH [of q1 w1] show ?case by auto
qed simp

lemma handOut_attempts:
  "attempts_left m \<Longrightarrow> list_all attempts_left (fst rw) \<Longrightarrow> list_all attempts_left (fst (handOut listener m rw))"
  by (auto simp: handOut_def attempts_left_def Let_def case_prod_beta)

lemma handOuts_attempts:
  "list_all attempts_left ms \<Longrightarrow> list_all attempts_left (fst rw) \<Longrightarrow> list_all attempts_left (fst (fold (handOut listener) ms rw))"
  by (induction ms arbitrary: rw) (simp_all add: handOut_attempts)

lemma queueRequest_step:
  assumes "queue_inv (q, w)"
  shows "queue_inv (queueRequest r (q, w)) \<and> laneView (queueRequest r (q, w)) = laneRequest r (laneView (q, w))"
proof (cases r)
  case (ProcessBatch listener took)
  define q0 where "q0 = q\<lparr>mq_messages := drop BATCH_SIZE (mq_messages q)\<rparr>"
  define out where "out = fold (processOne listener took) (take BATCH_SIZE (mq_messages q)) (q0, w)"
  have out: "mq_messages (fst out) = drop BATCH_SIZE (mq_messages q)" "mq_processing (fst out) = {}"
    "(mq_retries (fst out), snd out) = fold (handOut listener) (take BATCH_SIZE (mq_messages q)) (mq_retries q, w)"
    using batch_view [of q0 listener took "take BATCH_SIZE (mq_messages q)" w] assms
    by (simp_all add: q0_def out_def queue_inv_def)
  have "list_all attempts_left (fst (fold (handOut listener) (take BATCH_SIZE (mq_messages q)) (mq_retries q, w)))"
    using assms by (intro handOuts_attempts) (auto simp: queue_inv_def list_all_iff dest: in_set_takeD)
  then have "list_all attempts_left (mq_retries (fst out))" by (simp add: out(3) [symmetric])
  then show ?thesis
    using assms ProcessBatch out
    by (auto simp: processBatch_def Let_def q0_def [symmetric] out_def [symmetric] queue_inv_def laneView_def
        by_priority_drop inOrder_lanesOf lanesOf_def fun_eq_iff list_all_iff dest: in_set_dropD)
next
  case (QueueMessage i r e d pr now)
  then show ?thesis
    using assms
    by (auto simp: queueMessage_def Let_def queue_inv_def laneView_def updateStats_def insertMessageByPriority_def
        dropLowPriorityMessages_def by_priority_filter by_priority_insert lanesOf_insert inOrder_lanesOf list_all_iff
        attempts_left_def lanesOf_without_low)
next
  case RetryTimer
  then show ?thesis
    using assms by (cases "mq_retries q")
      (auto simp: retryTimer_def insertMessageByPriority_def queue_inv_def laneView_def by_priority_insert lanesOf_insert list_all_iff)
qed (use assms in \<open>auto simp: clearQueue_def removeMessagesForRoom_def getQueueStats_def updateStats_def Let_def queue_inv_def
       laneView_def by_priority_filter by_priority_Nil list_all_iff lanesOf_def fun_eq_iff conj_commute\<close>)

interpretation outgoing: event_loop queueRequest queue_inv
  by unfold_locales (metis queueRequest_step surj_pair)

definition emptyQueue :: "'d message_queue" where
  "emptyQueue = \<lparr>mq_messages = [], mq_processing = {}, mq_retries = [], mq_stats = emptyStats\<rparr>"

lemma emptyQueue_inv: "queue_inv (emptyQueue, w)"
  by (simp add: queue_inv_def emptyQueue_def by_priority_def)

lemma emptyQueue_view: "laneView (emptyQueue, w) = (\<lambda>_. [], [], w)"
  by (simp add: laneView_def lanesOf_def emptyQueue_def fun_eq_iff)

lemma queue_run_view:
  "queue_inv qw \<Longrightarrow> laneView (fold queueRequest rs qw) = fold laneRequest rs (laneView qw)"
proof (induction rs arbitrary: qw)
  case (Cons r rs)
  obtain q w where "qw = (q, w)" by fastforce
  with Cons queueRequest_step [of q w r] show ?case by simp
qed simp

text \<open>
  C37. The queue of outgoing messages serves by priority, then by arrival: after any sequence of requests,
  batches, retry timers and removals, whatever the listener does, it holds exactly what three
  first-in first-out lanes would hold, the high lane in front of the medium and the low one, and has handed
  out to the listener exactly what they would have handed out; every message that is queued or waits for a
  retry has been handed out fewer times than its limit, at most three.
\<close>

theorem queue_serves_by_priority_then_arrival:
  "let (q, w') = fold queueRequest rs (emptyQueue, w); (l, waiting, v) = fold laneRequest rs (\<lambda>_. [], [], w)
   in mq_messages q = l High @ l Medium @ l Low \<and> mq_retries q = waiting \<and> w' = v \<and>
      list_all (\<lambda>m. qm_retryCount m < qm_maxRetries m \<and> qm_maxRetries m \<le> 3) (mq_messages q @ mq_retries q)"
proof -
  obtain q w' where run: "fold queueRequest rs (emptyQueue, w) = (q, w')" by fastforce
  have inv: "queue_inv (q, w')"
    using outgoing.run_inv [OF emptyQueue_inv, of rs w] by (simp add: run)
  have "laneView (q, w') = fold laneRequest rs (\<lambda>_. [], [], w)"
    using queue_run_view [OF emptyQueue_inv, of rs w] by (simp add: run emptyQueue_view)
  moreover have "mq_messages q = inOrder (lanesOf (mq_messages q))"
    using inv by (simp add: queue_inv_def inOrder_lanesOf)
  ultimately show ?thesis
    using inv by (auto simp: run laneView_def inOrder_def queue_inv_def attempts_left_def list_all_iff)
qed

text \<open>The limit on the length only drops messages of low priority; without any the queue grows past it.\<close>

lemma queue_grows_past_its_limit:
  assumes "list_all (\<lambda>m. qm_priority m \<noteq> Low) (mq_messages q)"
  shows "length (mq_messages (snd (queueMessage i r e d pr now q))) = length (mq_messages q) + 1"
proof -
  have len: "length (insertByPriority m ms) = length ms + 1" for m :: "'a QueuedMessage" and ms
    by (induction ms) simp_all
  have "filter (\<lambda>m. qm_priority m \<noteq> Low) (mq_messages q) = mq_messages q"
    using assms by (simp add: list_all_iff)
  then show ?thesis
    by (simp add: queueMessage_def Let_def updateStats_def insertMessageByPriority_def dropLowPriorityMessages_def len)
qed

section \<open>Rooms and connections agree\<close>

definition subscribedTo :: "'d connection_pool \<Rightarrow> uuid \<Rightarrow> string set" where
  "subscribedTo p i = (case map_of (cp_connections p) i of None \<Rightarrow> {} | Some c \<Rightarrow> set (cn_subscriptions c))"

definition membersOf :: "'d connection_pool \<Rightarrow> string \<Rightarrow> uuid list" where
  "membersOf p r = (case map_of (cp_rooms p) r of None \<Rightarrow> [] | Some room \<Rightarrow> ri_clients room)"

definition isConnected :: "'d connection_pool \<Rightarrow> uuid \<Rightarrow> bool" where
  "isConnected p i = (case map_of (cp_connections p) i of None \<Rightarrow> False | Some c \<Rightarrow> cn_connected c)"

definition connections_inv :: "'d connection_pool \<Rightarrow> bool" where
  "connections_inv p \<longleftrightarrow> distinct (map fst (cp_connections p)) \<and>
     (\<forall>i r. r \<in> subscribedTo p i \<longleftrightarrow> i \<in> set (membersOf p r)) \<and>
     (\<forall>r. distinct (membersOf p r)) \<and>
     (\<forall>r room. map_of (cp_rooms p) r = Some room \<longrightarrow> ri_clients room \<noteq> []) \<and>
     (\<forall>u. getUserConnectionCount u p \<le> MAX_CONNECTIONS_PER_USER)"

lemma count_update:
  "map_of xs i = Some c \<Longrightarrow> distinct (map fst xs) \<Longrightarrow>
     length (filter (\<lambda>(_, c). Q c) (AList.update i c' xs)) + (if Q c then 1 else 0) =
     length (filter (\<lambda>(_, c). Q c) xs) + (if Q c' then 1 else 0)"
  by (induction xs) (auto split: if_splits)

lemma count_delete: "length (filter Q (AList.delete i xs)) \<le> length (filter Q xs)"
  by (induction xs) auto

lemma count_update_new:
  "map_of xs i = None \<Longrightarrow> length (filter Q (AList.update i c xs)) = length (filter Q xs) + (if Q (i, c) then 1 else 0)"
  by (induction xs) (auto split: if_splits)

text \<open>Replacing what a connection is subscribed to, when user and socket stay.\<close>

lemma userCount_setConnection:
  assumes "map_of (cp_connections p) i = Some c" and "distinct (map fst (cp_connections p))"
    and "cn_userId c' = cn_userId c" and "cn_connected c' = cn_connected c"
  shows "getUserConnectionCount u (setConnection i c' p) = getUserConnectionCount u p"
  using count_update [OF assms(1,2), of "\<lambda>c. cn_userId c = Some u \<and> cn_connected c" c'] assms(3,4)
  by (auto simp: getUserConnectionCount_def setConnection_def split: if_splits)

lemma setConnection_simps [simp]:
  "map_of (cp_connections (setConnection i c p)) = (map_of (cp_connections p))(i \<mapsto> c)"
  "cp_rooms (setConnection i c p) = cp_rooms p" "cp_sent (setConnection i c p) = cp_sent p"
  "distinct (map fst (cp_connections p)) \<Longrightarrow> distinct (map fst (cp_connections (setConnection i c p)))"
  by (simp_all add: setConnection_def update_conv' distinct_update)

lemma setRoom_simps [simp]:
  "map_of (cp_rooms (setRoom r room p)) = (map_of (cp_rooms p))(r \<mapsto> room)"
  "cp_connections (setRoom r room p) = cp_connections p" "cp_sent (setRoom r room p) = cp_sent p"
  "getUserConnectionCount u (setRoom r room p) = getUserConnectionCount u p"
  by (simp_all add: setRoom_def update_conv' getUserConnectionCount_def)

lemma userCount_rooms [simp]: "getUserConnectionCount u (p\<lparr>cp_rooms := x\<rparr>) = getUserConnectionCount u p"
  by (simp add: getUserConnectionCount_def)

lemma userCount_sent [simp]: "getUserConnectionCount u (p\<lparr>cp_sent := x\<rparr>) = getUserConnectionCount u p"
  by (simp add: getUserConnectionCount_def)

lemma set_addToSet [simp]: "set (addToSet x xs) = insert x (set xs)"
  by (auto simp: addToSet_def)

lemma distinct_addToSet: "distinct xs \<Longrightarrow> distinct (addToSet x xs)"
  by (simp add: addToSet_def)

lemma addToSet_nonempty [simp]: "addToSet x xs \<noteq> []"
  by (auto simp: addToSet_def)

lemma joinRoom_inv:
  assumes "connections_inv p"
  shows "connections_inv (snd (joinRoom i r now p))"
proof (cases "map_of (cp_connections p) i")
  case (Some c)
  show ?thesis
  proof (cases "cn_roomCount c \<ge> MAX_ROOMS_PER_CONNECTION")
    case False
    define c' where "c' = c\<lparr>cn_subscriptions := addToSet r (cn_subscriptions c), cn_roomCount := cn_roomCount c + 1\<rparr>"
    define room where "room = (case map_of (cp_rooms p) r of
        None \<Rightarrow> \<lparr>ri_name = r, ri_clients = [], ri_createdAt = now, ri_lastMessage = now, ri_messageCount = 0\<rparr>
      | Some room \<Rightarrow> room)"
    define room' where "room' = room\<lparr>ri_clients := addToSet i (ri_clients room)\<rparr>"
    define p' where "p' = setConnection i c' (setRoom r room' p)"
    have joined: "snd (joinRoom i r now p) = p'"
      using Some False by (simp add: joinRoom_def Let_def p'_def c'_def room'_def room_def)
    have clients: "ri_clients room = membersOf p r" by (simp add: room_def membersOf_def split: option.split)
    have subs: "subscribedTo p' j = (if j = i then insert r (subscribedTo p i) else subscribedTo p j)" for j
      using Some by (simp add: subscribedTo_def p'_def c'_def)
    have mem: "membersOf p' s = (if s = r then addToSet i (membersOf p r) else membersOf p s)" for s
      by (simp add: p'_def membersOf_def [of _ s] room'_def clients)
    have "getUserConnectionCount u p' = getUserConnectionCount u p" for u
      using assms Some userCount_setConnection [of "setRoom r room' p" i c c' u]
      by (simp add: p'_def c'_def connections_inv_def)
    then show ?thesis
      using assms unfolding joined connections_inv_def subs mem
      by (auto simp: distinct_addToSet p'_def room'_def split: if_splits)
  qed (use assms Some in \<open>simp add: joinRoom_def\<close>)
qed (use assms in \<open>simp add: joinRoom_def\<close>)

lemma leaveRoom_spec:
  assumes "connections_inv p"
  shows "connections_inv (leaveRoom i r p) \<and>
    (\<forall>j. subscribedTo (leaveRoom i r p) j = (if j = i then subscribedTo p i - {r} else subscribedTo p j)) \<and>
    (\<forall>j. map_of (cp_connections (leaveRoom i r p)) j = None \<longleftrightarrow> map_of (cp_connections p) j = None)"
proof (cases "map_of (cp_connections p) i")
  case (Some c)
  show ?thesis
  proof (cases "map_of (cp_rooms p) r")
    case None
    then have "r \<notin> subscribedTo p i"
      using assms by (auto simp: connections_inv_def membersOf_def)
    with None Some assms show ?thesis by (auto simp: leaveRoom_def)
  next
    case (Some room)
    define c' where "c' = c\<lparr>cn_subscriptions := filter (\<lambda>x. x \<noteq> r) (cn_subscriptions c), cn_roomCount := cn_roomCount c - 1\<rparr>"
    define clients where "clients = filter (\<lambda>x. x \<noteq> i) (ri_clients room)"
    define p' where "p' = leaveRoom i r p"
    have left: "p' = (if clients = [] then (setConnection i c' p)\<lparr>cp_rooms := AList.delete r (cp_rooms p)\<rparr>
        else setRoom r (room\<lparr>ri_clients := clients\<rparr>) (setConnection i c' p))"
      using \<open>map_of (cp_connections p) i = Some c\<close> Some by (simp add: p'_def leaveRoom_def Let_def clients_def c'_def)
    have subs: "subscribedTo p' j = (if j = i then subscribedTo p i - {r} else subscribedTo p j)" for j
      using \<open>map_of (cp_connections p) i = Some c\<close> by (auto simp: subscribedTo_def left c'_def)
    have mem: "membersOf p' s = (if s = r then filter (\<lambda>x. x \<noteq> i) (membersOf p r) else membersOf p s)" for s
      using Some by (auto simp: left membersOf_def clients_def map_of_alist_delete)
    have count: "getUserConnectionCount u p' = getUserConnectionCount u p" for u
      using assms \<open>map_of (cp_connections p) i = Some c\<close> userCount_setConnection [of p i c c' u]
      by (simp add: left c'_def connections_inv_def)
    have "connections_inv p'"
      using assms unfolding connections_inv_def subs mem count
      by (auto simp: left map_of_alist_delete split: if_splits)
    then show ?thesis
      using subs \<open>map_of (cp_connections p) i = Some c\<close> unfolding p'_def [symmetric] by (auto simp: left)
  qed
qed (use assms in \<open>auto simp: leaveRoom_def subscribedTo_def\<close>)

lemma leaveRooms_spec:
  "connections_inv p \<Longrightarrow> connections_inv (fold (leaveRoom i) rs p) \<and>
     (\<forall>j. subscribedTo (fold (leaveRoom i) rs p) j = (if j = i then subscribedTo p i - set rs else subscribedTo p j)) \<and>
     (\<forall>j. map_of (cp_connections (fold (leaveRoom i) rs p)) j = None \<longleftrightarrow> map_of (cp_connections p) j = None)"
proof (induction rs arbitrary: p)
  case (Cons r rs)
  with leaveRoom_spec [OF Cons.prems, of i r] show ?case by auto
qed simp

lemma leaveAllRooms_spec:
  assumes "connections_inv p"
  shows "connections_inv (leaveAllRooms i p) \<and> subscribedTo (leaveAllRooms i p) i = {}"
proof (cases "map_of (cp_connections p) i")
  case (Some c)
  then show ?thesis
    using leaveRooms_spec [OF assms, of i "cn_subscriptions c"] by (simp add: leaveAllRooms_def subscribedTo_def)
qed (use assms in \<open>simp add: leaveAllRooms_def subscribedTo_def\<close>)

text \<open>A change of a connection that keeps its subscriptions, and the rooms.\<close>

lemma same_subscriptions_inv:
  assumes "connections_inv p" and "subscribedTo p' = subscribedTo p" and "membersOf p' = membersOf p"
    and "\<And>r room. map_of (cp_rooms p') r = Some room \<Longrightarrow> ri_clients room \<noteq> []"
    and "distinct (map fst (cp_connections p'))" and "\<And>u. getUserConnectionCount u p' \<le> MAX_CONNECTIONS_PER_USER"
  shows "connections_inv p'"
  using assms by (auto simp: connections_inv_def)

lemma deleteConnection_inv:
  assumes "connections_inv p" and "subscribedTo p i = {}"
  shows "connections_inv (deleteConnection i p)"
proof -
  have "subscribedTo (deleteConnection i p) j = subscribedTo p j" for j
    using assms(2) by (auto simp: subscribedTo_def deleteConnection_def map_of_alist_delete)
  moreover have "membersOf (deleteConnection i p) = membersOf p"
    by (simp add: fun_eq_iff membersOf_def deleteConnection_def)
  moreover have "getUserConnectionCount u (deleteConnection i p) \<le> MAX_CONNECTIONS_PER_USER" for u
    using assms(1) count_delete [of _ i "cp_connections p"]
    by (simp add: getUserConnectionCount_def deleteConnection_def connections_inv_def) (meson le_trans)
  ultimately show ?thesis
    using assms(1)
    by (intro same_subscriptions_inv [OF assms(1)]) (auto simp: connections_inv_def fun_eq_iff deleteConnection_def distinct_delete)
qed

lemma dropConnection_inv: "connections_inv p \<Longrightarrow> connections_inv (deleteConnection i (leaveAllRooms i p))"
  by (simp add: deleteConnection_inv leaveAllRooms_spec)

lemma cleanup_inv: "connections_inv p \<Longrightarrow> connections_inv (cleanupInactiveConnections now p)"
proof -
  have "connections_inv q \<Longrightarrow> connections_inv (fold (\<lambda>(i, _) q. deleteConnection i (leaveAllRooms i q)) cs q)"
    for cs :: "(uuid \<times> ConnectionInfo) list" and q :: "'d connection_pool"
    by (induction cs arbitrary: q) (auto simp: dropConnection_inv)
  then show "connections_inv p \<Longrightarrow> connections_inv (cleanupInactiveConnections now p)"
    by (simp add: cleanupInactiveConnections_def)
qed

lemma associateUser_inv:
  assumes "connections_inv p"
  shows "connections_inv (snd (associateUser i u p))"
proof (cases "map_of (cp_connections p) i")
  case (Some c)
  show ?thesis
  proof (cases "getUserConnectionCount u p \<ge> MAX_CONNECTIONS_PER_USER")
    case False
    define p' where "p' = setConnection i (c\<lparr>cn_userId := Some u\<rparr>) p"
    have "getUserConnectionCount v p' \<le> MAX_CONNECTIONS_PER_USER" for v
    proof -
      have "getUserConnectionCount v p \<le> MAX_CONNECTIONS_PER_USER" using assms by (simp add: connections_inv_def)
      moreover have "getUserConnectionCount v p' + (if cn_userId c = Some v \<and> cn_connected c then 1 else 0) =
          getUserConnectionCount v p + (if u = v \<and> cn_connected c then 1 else 0)"
        using assms count_update [OF Some, of "\<lambda>c. cn_userId c = Some v \<and> cn_connected c" "c\<lparr>cn_userId := Some u\<rparr>"]
        by (simp add: getUserConnectionCount_def p'_def setConnection_def connections_inv_def)
      ultimately show ?thesis using False by (cases "u = v") (simp_all split: if_splits)
    qed
    then have "connections_inv p'"
      using assms Some
      by (intro same_subscriptions_inv [OF assms]) (auto simp: fun_eq_iff subscribedTo_def membersOf_def p'_def connections_inv_def)
    with Some False show ?thesis by (simp add: associateUser_def p'_def)
  qed (use assms Some in \<open>simp add: associateUser_def\<close>)
qed (use assms in \<open>simp add: associateUser_def\<close>)

lemma addConnection_inv:
  assumes "connections_inv p" and "map_of (cp_connections p) i = None"
  shows "connections_inv (addConnection i now p)"
proof (rule same_subscriptions_inv [OF assms(1)])
  show "subscribedTo (addConnection i now p) = subscribedTo p"
    using assms(2) by (auto simp: addConnection_def fun_eq_iff subscribedTo_def)
  fix u
  show "getUserConnectionCount u (addConnection i now p) \<le> MAX_CONNECTIONS_PER_USER"
    using assms by (simp add: addConnection_def getUserConnectionCount_def setConnection_def count_update_new connections_inv_def)
qed (use assms(1) in \<open>auto simp: addConnection_def membersOf_def fun_eq_iff connections_inv_def\<close>)

text \<open>Changes that touch neither ids, users nor subscriptions, entry by entry.\<close>

lemma map_connections_inv:
  assumes "connections_inv p"
    and "\<And>i c. cn_subscriptions (f i c) = cn_subscriptions c" and "\<And>i c. cn_userId (f i c) = cn_userId c"
    and "\<And>i c. cn_connected (f i c) \<Longrightarrow> cn_connected c"
  shows "connections_inv (p\<lparr>cp_connections := map (\<lambda>(i, c). (i, f i c)) (cp_connections p), cp_sent := x\<rparr>)"
proof (rule same_subscriptions_inv [OF assms(1)])
  let ?p = "p\<lparr>cp_connections := map (\<lambda>(i, c). (i, f i c)) (cp_connections p), cp_sent := x\<rparr>"
  have "map_of (map (\<lambda>(i, c). (i, f i c)) cs) i = map_option (f i) (map_of cs i)" for i and cs :: "(uuid \<times> ConnectionInfo) list"
    by (induction cs) auto
  then show "subscribedTo ?p = subscribedTo p"
    by (simp add: fun_eq_iff subscribedTo_def assms(2) split: option.split)
  have fewer: "length (filter (\<lambda>(_, c). cn_userId c = Some u \<and> cn_connected c) (map (\<lambda>(i, c). (i, f i c)) cs)) \<le>
      length (filter (\<lambda>(_, c). cn_userId c = Some u \<and> cn_connected c) cs)" for u and cs :: "(uuid \<times> ConnectionInfo) list"
    by (induction cs) (auto simp: assms(3) dest: assms(4))
  show "getUserConnectionCount u ?p \<le> MAX_CONNECTIONS_PER_USER" for u
    using assms(1) fewer [of u "cp_connections p"] by (auto simp: getUserConnectionCount_def connections_inv_def intro: order_trans)
  show "distinct (map fst (cp_connections ?p))"
    using assms(1) by (simp add: connections_inv_def comp_def case_prod_beta)
qed (use assms(1) in \<open>auto simp: membersOf_def connections_inv_def fun_eq_iff\<close>)

lemma sendTo_conv:
  assumes "distinct (map fst (cp_connections p))"
  shows "sendTo event d i p =
    p\<lparr>cp_connections := map (\<lambda>(j, c). (j, if j = i \<and> cn_connected c then c\<lparr>cn_messageCount := cn_messageCount c + 1\<rparr> else c)) (cp_connections p),
      cp_sent := cp_sent p @ (if isConnected p i then [(i, event, d)] else [])\<rparr>"
proof -
  have upd: "AList.update i (g c) cs = map (\<lambda>(j, c). (j, if j = i then g c else c)) cs"
    if "map_of cs i = Some c" "distinct (map fst cs)" for g c and cs :: "(uuid \<times> ConnectionInfo) list"
    using that by (induction cs) (auto split: if_splits intro!: map_idI [symmetric] simp: image_iff)
  have keep: "map (\<lambda>(j, c). (j, if j = i \<and> cn_connected c then g c else c)) cs = cs"
    if "\<And>c. map_of cs i = Some c \<Longrightarrow> \<not> cn_connected c" "distinct (map fst cs)" for g and cs :: "(uuid \<times> ConnectionInfo) list"
    using that by (intro map_idI) (auto simp: map_of_eq_Some_iff)
  show ?thesis
  proof (cases "map_of (cp_connections p) i")
    case (Some c)
    show ?thesis
    proof (cases "cn_connected c")
      case True
      have "map (\<lambda>(j, c). (j, if j = i \<and> cn_connected c then c\<lparr>cn_messageCount := cn_messageCount c + 1\<rparr> else c)) (cp_connections p) =
          map (\<lambda>(j, c). (j, if j = i then c\<lparr>cn_messageCount := cn_messageCount c + 1\<rparr> else c)) (cp_connections p)"
        using Some True eq_key_imp_eq_value [OF assms, of i] by (intro map_cong refl) (fastforce dest: map_of_SomeD)
      also have "\<dots> = AList.update i (c\<lparr>cn_messageCount := cn_messageCount c + 1\<rparr>) (cp_connections p)"
        by (rule upd [OF Some assms, of "\<lambda>c. c\<lparr>cn_messageCount := cn_messageCount c + 1\<rparr>", symmetric])
      finally show ?thesis
        using Some True by (simp only: sendTo_def setConnection_def isConnected_def option.case if_True)
    qed (use Some assms keep [of "cp_connections p"] in \<open>simp add: sendTo_def isConnected_def\<close>)
  qed (use assms keep [of "cp_connections p"] in \<open>simp add: sendTo_def isConnected_def\<close>)
qed

lemma sendTo_keeps:
  assumes "connections_inv p"
  shows "connections_inv (sendTo event d i p)" "cp_rooms (sendTo event d i p) = cp_rooms p"
    "isConnected (sendTo event d i p) = isConnected p"
    "cp_sent (sendTo event d i p) = cp_sent p @ (if isConnected p i then [(i, event, d)] else [])"
proof -
  have d: "distinct (map fst (cp_connections p))" using assms by (simp add: connections_inv_def)
  show "connections_inv (sendTo event d i p)"
    unfolding sendTo_conv [OF d] by (rule map_connections_inv [OF assms]) (simp_all split: if_splits)
  show "isConnected (sendTo event d i p) = isConnected p"
    by (auto simp: isConnected_def sendTo_def fun_eq_iff split: option.split)
  show "cp_rooms (sendTo event d i p) = cp_rooms p"
    "cp_sent (sendTo event d i p) = cp_sent p @ (if isConnected p i then [(i, event, d)] else [])"
    by (simp_all add: sendTo_conv [OF d])
qed

lemma sendAll_keeps:
  assumes "connections_inv p"
  shows "connections_inv (fold (sendTo event d) is p) \<and> cp_rooms (fold (sendTo event d) is p) = cp_rooms p \<and>
    cp_sent (fold (sendTo event d) is p) = cp_sent p @ map (\<lambda>i. (i, event, d)) (filter (isConnected p) is)"
  using assms by (induction "is" arbitrary: p) (simp_all add: sendTo_keeps)

lemma broadcast_spec:
  assumes "connections_inv p"
  shows "connections_inv (broadcastToRoom r event d now p) \<and>
    cp_sent (broadcastToRoom r event d now p) = cp_sent p @ map (\<lambda>i. (i, event, d)) (filter (isConnected p) (membersOf p r))"
proof (cases "map_of (cp_rooms p) r")
  case (Some room)
  define p1 where "p1 = fold (sendTo event d) (ri_clients room) p"
  define room' where "room' = room\<lparr>ri_lastMessage := now, ri_messageCount := ri_messageCount room + 1\<rparr>"
  have p1: "connections_inv p1" "cp_rooms p1 = cp_rooms p"
    "cp_sent p1 = cp_sent p @ map (\<lambda>i. (i, event, d)) (filter (isConnected p) (membersOf p r))"
    using sendAll_keeps [OF assms] Some by (simp_all add: p1_def membersOf_def)
  have nonempty: "ri_clients room \<noteq> []" using assms Some by (auto simp: connections_inv_def)
  have "connections_inv (setRoom r room' p1)"
    using p1(1) Some p1(2) nonempty
    by (intro same_subscriptions_inv [OF p1(1)])
      (auto simp: fun_eq_iff subscribedTo_def membersOf_def room'_def connections_inv_def split: if_splits)
  then show ?thesis
    using Some nonempty p1(3) by (simp add: broadcastToRoom_def p1_def [symmetric] room'_def)
qed (use assms in \<open>simp add: broadcastToRoom_def membersOf_def\<close>)

lemma heartbeat_inv: "connections_inv p \<Longrightarrow> connections_inv (sendHeartbeat beat now p)"
  unfolding sendHeartbeat_def by (rule map_connections_inv) (simp_all split: if_splits)

lemma socketLost_inv:
  assumes "connections_inv p"
  shows "connections_inv (socketLost i p)"
proof -
  have "AList.map_entry i f cs = map (\<lambda>(j, c). (j, if j = i then f c else c)) cs"
    if "distinct (map fst cs)" for f and cs :: "(uuid \<times> ConnectionInfo) list"
    using that by (induction cs) (auto intro!: map_idI [symmetric] simp: image_iff)
  then have "socketLost i p = p\<lparr>cp_connections := map (\<lambda>(j, c). (j, if j = i then c\<lparr>cn_connected := False\<rparr> else c)) (cp_connections p),
      cp_sent := cp_sent p\<rparr>"
    using assms by (simp add: socketLost_def connections_inv_def)
  also have "connections_inv \<dots>"
    by (rule map_connections_inv [OF assms]) (simp_all split: if_splits)
  finally show ?thesis .
qed

text \<open>The library that opens the sockets gives each one an id that is not in use.\<close>

datatype 'd pool_request =
    Connect uuid timestamp
  | Disconnect uuid
  | SocketLost uuid
  | Associate uuid string
  | Join uuid string timestamp
  | Leave uuid string
  | Broadcast string string 'd timestamp
  | Heartbeat 'd timestamp
  | Cleanup timestamp

fun poolRequest :: "'d pool_request \<Rightarrow> 'd connection_pool \<Rightarrow> 'd connection_pool" where
  "poolRequest (Connect i now) p = (if map_of (cp_connections p) i = None then addConnection i now p else p)"
| "poolRequest (Disconnect i) p = removeConnection i p"
| "poolRequest (SocketLost i) p = socketLost i p"
| "poolRequest (Associate i u) p = snd (associateUser i u p)"
| "poolRequest (Join i r now) p = snd (joinRoom i r now p)"
| "poolRequest (Leave i r) p = leaveRoom i r p"
| "poolRequest (Broadcast r e d now) p = broadcastToRoom r e d now p"
| "poolRequest (Heartbeat beat now) p = sendHeartbeat beat now p"
| "poolRequest (Cleanup now) p = cleanupInactiveConnections now p"

interpretation pool_loop: event_loop poolRequest connections_inv
proof
  fix p :: "'d connection_pool" and r
  assume "connections_inv p"
  then show "connections_inv (poolRequest r p)"
    by (cases r) (simp_all add: addConnection_inv removeConnection_def dropConnection_inv socketLost_inv associateUser_inv
        joinRoom_inv leaveRoom_spec broadcast_spec heartbeat_inv cleanup_inv)
qed

definition emptyPool :: "'d connection_pool" where
  "emptyPool = \<lparr>cp_connections = [], cp_rooms = [], cp_sent = []\<rparr>"

lemma emptyPool_inv: "connections_inv emptyPool"
  by (simp add: connections_inv_def emptyPool_def subscribedTo_def membersOf_def getUserConnectionCount_def)

text \<open>
  C38. A broadcast reaches exactly the subscribers: after any sequence of connects, disconnects, lost
  sockets, joins, leaves, broadcasts, heartbeats and clean-ups, a message to a room is sent once to every
  connected socket that is subscribed to it and to nobody else, and no user ever has more than ten
  connected sockets.
\<close>

theorem broadcast_reaches_exactly_the_subscribers:
  fixes event :: string and d :: 'd
  shows "let p = fold poolRequest rs emptyPool;
             receivers = map fst (drop (length (cp_sent p)) (cp_sent (broadcastToRoom r event d now p)))
         in distinct receivers \<and> set receivers = {i. isConnected p i \<and> r \<in> subscribedTo p i} \<and>
            getUserConnectionCount u p \<le> 10"
proof -
  define p where "p = fold poolRequest rs (emptyPool :: 'd connection_pool)"
  have inv: "connections_inv p" unfolding p_def by (rule pool_loop.run_inv [OF emptyPool_inv])
  have "map fst (drop (length (cp_sent p)) (cp_sent (broadcastToRoom r event d now p))) = filter (isConnected p) (membersOf p r)"
    using broadcast_spec [OF inv, of r event d now] by (simp add: comp_def)
  then show ?thesis
    using inv unfolding p_def [symmetric] Let_def by (auto simp: connections_inv_def MAX_CONNECTIONS_PER_USER_def)
qed

text \<open>
  The room counter is not the number of rooms: joining a room twice counts twice, and leaving a room the
  connection is not in counts it down, so it limits nothing.
\<close>

lemma room_counter_drifts:
  assumes "map_of (cp_connections p) i = Some c" and "cn_roomCount c < MAX_ROOMS_PER_CONNECTION" and "r \<in> set (cn_subscriptions c)"
  shows "map_option cn_roomCount (map_of (cp_connections (snd (joinRoom i r now p))) i) = Some (cn_roomCount c + 1) \<and>
    map_option cn_subscriptions (map_of (cp_connections (snd (joinRoom i r now p))) i) = Some (cn_subscriptions c)"
  using assms by (simp add: joinRoom_def Let_def addToSet_def)

lemma leaving_a_foreign_room_counts:
  assumes "map_of (cp_connections p) i = Some c" and "map_of (cp_rooms p) r = Some room" and "i \<notin> set (ri_clients room)"
  shows "map_option cn_roomCount (map_of (cp_connections (leaveRoom i r p)) i) = Some (cn_roomCount c - 1)"
  using assms by (simp add: leaveRoom_def Let_def)

text \<open>Any text passes as a token: whoever names a user joins that user's room.\<close>

lemma any_token_authenticates:
  assumes "map_of (cp_connections (gw_pool g)) i = Some c" and "token \<noteq> []" and "userId \<noteq> []"
    and "getUserConnectionCount userId (gw_pool g) < MAX_CONNECTIONS_PER_USER" and "cn_roomCount c < MAX_ROOMS_PER_CONNECTION"
  shows "''user:'' @ userId \<in> subscribedTo (gw_pool (handleAuthentication i token userId now g)) i"
  using assms by (simp add: handleAuthentication_def associateUser_def joinRoom_def subscribedTo_def Let_def)

section \<open>A throttled stream loses nothing\<close>

datatype 'd stream_request =
    CreateStream StreamConfig
  | DestroyStream string
  | Subscribe string string
  | Unsubscribe string string
  | Publish string 'd timestamp
  | TimerFires nat timestamp

fun streamRequest :: "'d stream_request \<Rightarrow> 'd stream_manager \<Rightarrow> 'd stream_manager" where
  "streamRequest (CreateStream config) m = commit (createStream config) m"
| "streamRequest (DestroyStream n) m = commit (destroyStream n) m"
| "streamRequest (Subscribe n i) m = commit (\<lambda>m. map_sum id snd (subscribeToStream n i m)) m"
| "streamRequest (Unsubscribe n i) m = unsubscribeFromStream n i m"
| "streamRequest (Publish n d now) m = commit (publishToStream n d now) m"
| "streamRequest (TimerFires t now) m = timerFires t now m"

text \<open>What a stream took in: the messages published while it had subscribers.\<close>

fun accepted :: "string \<Rightarrow> 'd stream_request \<Rightarrow> 'd stream_manager \<Rightarrow> 'd list" where
  "accepted n (Publish k d now) m = (if k = n \<and> map_of (sm_streams m) n \<noteq> None \<and> subscribersOf n m \<noteq> [] then [d] else [])"
| "accepted n _ m = []"

fun streamRun :: "string \<Rightarrow> 'd stream_request list \<Rightarrow> 'd stream_manager \<Rightarrow> 'd list \<times> 'd stream_manager" where
  "streamRun n [] m = ([], m)"
| "streamRun n (r # rs) m = (case streamRun n rs (streamRequest r m) of (ds, m1) \<Rightarrow> (accepted n r m @ ds, m1))"

fun contents :: "'d emission \<Rightarrow> 'd list" where
  "contents (Single d) = [d]"
| "contents (Batch ds) = ds"

definition delivered :: "string \<Rightarrow> 'd stream_manager \<Rightarrow> 'd list" where
  "delivered n m = concat (map (\<lambda>(k, e). if k = n then contents e else []) (sm_emitted m))"

definition taken :: "string \<Rightarrow> 'd stream_manager \<Rightarrow> 'd list" where
  "taken n m = delivered n m @ bufferOf n m"

text \<open>
  Timers of the stream have captured its configuration; a stream without batching or throttling buffers nothing; the
  timer the map names is running and is of that stream; a buffer with messages has a timer in the map.
\<close>

definition unbuffered :: "stored_config \<Rightarrow> bool" where
  "unbuffered cfg \<longleftrightarrow> sg_batchSize cfg = 1 \<or> sg_throttleMs cfg = 0"

definition stream_inv :: "string \<Rightarrow> 'd stream_manager \<Rightarrow> bool" where
  "stream_inv n m \<longleftrightarrow>
     (\<forall>t cfg. (t, n, cfg) \<in> set (sm_pending m) \<longrightarrow> map_of (sm_streams m) n = Some cfg) \<and>
     (case map_of (sm_streams m) n of None \<Rightarrow> bufferOf n m = [] | Some cfg \<Rightarrow> unbuffered cfg \<longrightarrow> bufferOf n m = []) \<and>
     distinct (map fst (sm_pending m)) \<and> (\<forall>e\<in>set (sm_pending m). fst e < sm_nextTimer m) \<and>
     (\<forall>k t. map_of (sm_timers m) k = Some t \<longrightarrow> (\<exists>cfg. (t, k, cfg) \<in> set (sm_pending m))) \<and>
     (map_of (sm_timers m) n = None \<longrightarrow> bufferOf n m = [])"

lemma stream_invD:
  assumes "stream_inv n m"
  shows "(t, n, cfg) \<in> set (sm_pending m) \<Longrightarrow> map_of (sm_streams m) n = Some cfg"
    "case map_of (sm_streams m) n of None \<Rightarrow> bufferOf n m = [] | Some cfg \<Rightarrow> unbuffered cfg \<longrightarrow> bufferOf n m = []"
    "distinct (map fst (sm_pending m))" "(t, k, cfg) \<in> set (sm_pending m) \<Longrightarrow> t < sm_nextTimer m"
    "map_of (sm_timers m) k = Some t \<Longrightarrow> \<exists>cfg. (t, k, cfg) \<in> set (sm_pending m)"
    "map_of (sm_timers m) n = None \<Longrightarrow> bufferOf n m = []"
  using assms unfolding stream_inv_def by (blast, blast, blast, fastforce, blast, blast)

lemma stream_invI:
  assumes "\<And>t cfg. (t, n, cfg) \<in> set (sm_pending m) \<Longrightarrow> map_of (sm_streams m) n = Some cfg"
    and "case map_of (sm_streams m) n of None \<Rightarrow> bufferOf n m = [] | Some cfg \<Rightarrow> unbuffered cfg \<longrightarrow> bufferOf n m = []"
    and "distinct (map fst (sm_pending m))" and "\<And>t k cfg. (t, k, cfg) \<in> set (sm_pending m) \<Longrightarrow> t < sm_nextTimer m"
    and "\<And>k t. map_of (sm_timers m) k = Some t \<Longrightarrow> \<exists>cfg. (t, k, cfg) \<in> set (sm_pending m)"
    and "map_of (sm_timers m) n = None \<Longrightarrow> bufferOf n m = []"
  shows "stream_inv n m"
  using assms unfolding stream_inv_def by fastforce

lemma bufferOf_frame [simp]:
  "bufferOf n (m\<lparr>sm_pending := a\<rparr>) = bufferOf n m" "bufferOf n (m\<lparr>sm_subscribers := b\<rparr>) = bufferOf n m"
  "bufferOf n (m\<lparr>sm_messageCounts := c\<rparr>) = bufferOf n m"
  by (simp_all add: bufferOf_def)

lemma bufferOf_update: "bufferOf n (m\<lparr>sm_buffers := AList.update k b (sm_buffers m)\<rparr>) = (if k = n then b else bufferOf n m)"
  by (simp add: bufferOf_def update_conv')

lemma delivered_emit: "delivered n (emitMessage k e now m) = delivered n m @ (if k = n then contents e else [])"
  by (simp add: delivered_def emitMessage_def)

lemma flush_fields [simp]:
  "sm_streams (flushBuffer k cfg now m) = sm_streams m" "sm_pending (flushBuffer k cfg now m) = sm_pending m"
  "sm_nextTimer (flushBuffer k cfg now m) = sm_nextTimer m"
  "map_of (sm_timers (flushBuffer k cfg now m)) = (map_of (sm_timers m))(k := None)"
  "bufferOf n (flushBuffer k cfg now m) = (if k = n then [] else bufferOf n m)"
  by (simp_all add: flushBuffer_def emitMessage_def Let_def map_of_alist_delete bufferOf_def update_conv' split: list.split)

lemma flush_taken:
  assumes "k = n \<longrightarrow> sg_batchSize cfg = 1 \<longrightarrow> length (bufferOf n m) \<le> 1"
  shows "taken n (flushBuffer k cfg now m) = taken n m"
proof (cases "bufferOf k m")
  case (Cons x xs)
  with assms show ?thesis
    by (auto simp: taken_def flushBuffer_def Let_def bufferOf_def emitMessage_def delivered_def update_conv')
qed (simp add: taken_def flushBuffer_def delivered_def bufferOf_def)

lemma emit_fields [simp]:
  "sm_streams (emitMessage k e now m) = sm_streams m" "sm_pending (emitMessage k e now m) = sm_pending m"
  "sm_nextTimer (emitMessage k e now m) = sm_nextTimer m" "sm_timers (emitMessage k e now m) = sm_timers m"
  "bufferOf n (emitMessage k e now m) = bufferOf n m"
  by (simp_all add: emitMessage_def bufferOf_def)

lemma pending_unique:
  "stream_inv n m \<Longrightarrow> (t, k, cfg) \<in> set (sm_pending m) \<Longrightarrow> (t, k', cfg') \<in> set (sm_pending m) \<Longrightarrow> k = k' \<and> cfg = cfg'"
  using eq_key_imp_eq_value [OF stream_invD(3), of n m t "(k, cfg)" "(k', cfg')"] by simp

lemma create_step:
  assumes inv: "stream_inv n m" and "createStream config m = Inr m1"
  shows "stream_inv n m1 \<and> taken n m1 = taken n m"
proof -
  have old: "map_of (sm_streams m) (sc_name config) = None"
    and m1: "sm_pending m1 = sm_pending m" "sm_timers m1 = sm_timers m" "sm_nextTimer m1 = sm_nextTimer m"
      "sm_emitted m1 = sm_emitted m" "bufferOf n m1 = (if n = sc_name config then [] else bufferOf n m)"
      "n \<noteq> sc_name config \<Longrightarrow> map_of (sm_streams m1) n = map_of (sm_streams m) n"
    using assms(2) by (auto simp: createStream_def bufferOf_def update_conv' split: if_splits)
  have buf: "bufferOf n m1 = bufferOf n m"
    using stream_invD(2) [OF inv] old by (auto simp: m1(5))
  have "stream_inv n m1"
  proof (rule stream_invI)
    show "case map_of (sm_streams m1) n of None \<Rightarrow> bufferOf n m1 = [] | Some cfg \<Rightarrow> unbuffered cfg \<longrightarrow> bufferOf n m1 = []"
      using stream_invD(2) [OF inv] m1(5,6) by (cases "n = sc_name config") (auto split: option.splits)
    show "map_of (sm_streams m1) n = Some cfg" if "(t, n, cfg) \<in> set (sm_pending m1)" for t cfg
      using that stream_invD(1) [OF inv] m1(1,6) old by fastforce
  qed (use stream_invD [OF inv] in \<open>simp_all add: m1(1-4) buf\<close>)
  then show ?thesis by (simp add: taken_def delivered_def buf m1(4))
qed

lemma destroy_step:
  assumes inv: "stream_inv n m" and "destroyStream k m = Inr m1" and "k \<noteq> n"
  shows "stream_inv n m1 \<and> taken n m1 = taken n m"
proof -
  define gone where "gone = (\<lambda>t. Some t = map_of (sm_timers m) k)"
  have m1: "sm_pending m1 = filter (\<lambda>(i, _). \<not> gone i) (sm_pending m)" "map_of (sm_timers m1) = (map_of (sm_timers m))(k := None)"
    "sm_nextTimer m1 = sm_nextTimer m" "sm_emitted m1 = sm_emitted m" "bufferOf n m1 = bufferOf n m"
    "map_of (sm_streams m1) n = map_of (sm_streams m) n"
    using assms(2,3) by (auto simp: destroyStream_def Let_def gone_def bufferOf_def map_of_alist_delete filter_id_conv
        split: if_splits option.splits)
  have kept: "\<exists>cfg. (t, j, cfg) \<in> set (sm_pending m1)" if "map_of (sm_timers m1) j = Some t" for j t
  proof -
    have j: "j \<noteq> k" "map_of (sm_timers m) j = Some t" using that by (auto simp: m1(2) split: if_splits)
    then obtain cfg where cfg: "(t, j, cfg) \<in> set (sm_pending m)" using stream_invD(5) [OF inv] by blast
    have "\<not> gone t"
      using stream_invD(5) [OF inv, of k t] pending_unique [OF inv cfg] j(1) by (auto simp: gone_def)
    with cfg show ?thesis by (auto simp: m1(1))
  qed
  have "stream_inv n m1"
  proof (rule stream_invI)
    show "case map_of (sm_streams m1) n of None \<Rightarrow> bufferOf n m1 = [] | Some cfg \<Rightarrow> unbuffered cfg \<longrightarrow> bufferOf n m1 = []"
      using stream_invD(2) [OF inv] by (simp only: m1)
    show "bufferOf n m1 = []" if "map_of (sm_timers m1) n = None"
      using that stream_invD(6) [OF inv] assms(3) by (simp add: m1)
  qed (use stream_invD(1,3,4) [OF inv] kept in \<open>auto simp: m1(1,3,6) distinct_map_filter\<close>)
  then show ?thesis by (simp add: taken_def delivered_def m1)
qed

lemma buffer_step:
  assumes inv: "stream_inv n m" and cfg: "map_of (sm_streams m) k = Some cfg" and throttled: "sg_throttleMs cfg > 0"
  shows "stream_inv n (bufferMessage k d cfg now m) \<and>
    taken n (bufferMessage k d cfg now m) = taken n m @ (if k = n then [d] else [])"
proof -
  define m1 where "m1 = m\<lparr>sm_buffers := AList.update k (bufferOf k m @ [d]) (sm_buffers m)\<rparr>"
  define m2 where "m2 = (if map_of (sm_timers m1) k \<noteq> None then m1
    else m1\<lparr>sm_timers := AList.update k (sm_nextTimer m1) (sm_timers m1),
            sm_pending := sm_pending m1 @ [(sm_nextTimer m1, k, cfg)], sm_nextTimer := sm_nextTimer m1 + 1\<rparr>)"
  have buf: "bufferOf j m2 = (if j = k then bufferOf k m @ [d] else bufferOf j m)" for j
    by (simp add: m2_def m1_def bufferOf_def update_conv')
  have streams: "sm_streams m2 = sm_streams m" and "sm_emitted m2 = sm_emitted m"
    by (simp_all add: m2_def m1_def)
  then have taken: "taken n m2 = taken n m @ (if k = n then [d] else [])"
    by (simp add: taken_def buf delivered_def)
  have timers: "distinct (map fst (sm_pending m2))" "\<And>t j cfg. (t, j, cfg) \<in> set (sm_pending m2) \<Longrightarrow> t < sm_nextTimer m2"
    "\<And>j t. map_of (sm_timers m2) j = Some t \<Longrightarrow> \<exists>cfg. (t, j, cfg) \<in> set (sm_pending m2)"
    "\<And>t c. (t, n, c) \<in> set (sm_pending m2) \<Longrightarrow> map_of (sm_streams m) n = Some c"
    "map_of (sm_timers m2) k \<noteq> None" "\<And>j. j \<noteq> k \<Longrightarrow> map_of (sm_timers m2) j = map_of (sm_timers m) j"
    using stream_invD(1,3,5) [OF inv] cfg
    by (auto simp: m2_def m1_def update_conv' intro: less_SucI dest: stream_invD(4) [OF inv] split: if_splits)
  have out: "bufferMessage k d cfg now m =
      (if length (bufferOf k m @ [d]) \<ge> orNumber (sg_batchSize cfg) 1 then flushBuffer k cfg now m2 else m2)"
    by (simp add: bufferMessage_def Let_def m1_def m2_def)
  show ?thesis
  proof (cases "length (bufferOf k m @ [d]) \<ge> orNumber (sg_batchSize cfg) 1")
    case True
    have "k = n \<longrightarrow> sg_batchSize cfg = 1 \<longrightarrow> length (bufferOf n m2) \<le> 1"
      using stream_invD(2) [OF inv] cfg by (auto simp: buf unbuffered_def)
    then have "taken n (flushBuffer k cfg now m2) = taken n m2" by (rule flush_taken)
    moreover have "stream_inv n (flushBuffer k cfg now m2)"
      using timers stream_invD(2,6) [OF inv]
      by (intro stream_invI) (auto simp: streams buf split: if_splits option.splits)
    ultimately show ?thesis using True taken by (simp add: out)
  next
    case False
    then have "\<not> unbuffered cfg" using throttled by (auto simp: orNumber_def unbuffered_def)
    then have "stream_inv n m2"
      using timers stream_invD(2,6) [OF inv] cfg
      by (intro stream_invI) (auto simp: streams buf split: if_splits option.splits)
    with False taken show ?thesis by (simp add: out)
  qed
qed

lemma timer_step:
  assumes inv: "stream_inv n m"
  shows "stream_inv n (timerFires t now m) \<and> taken n (timerFires t now m) = taken n m"
proof (cases "map_of (sm_pending m) t")
  case (Some kc)
  obtain k cfg where kc: "kc = (k, cfg)" by fastforce
  define m1 where "m1 = m\<lparr>sm_pending := filter (\<lambda>(i, _). i \<noteq> t) (sm_pending m)\<rparr>"
  have t: "(t, k, cfg) \<in> set (sm_pending m)" using Some kc by (auto dest: map_of_SomeD)
  have buf: "bufferOf j m1 = bufferOf j m" for j by (simp add: m1_def bufferOf_def)
  have "k = n \<longrightarrow> sg_batchSize cfg = 1 \<longrightarrow> length (bufferOf n m1) \<le> 1"
    using t stream_invD(1,2) [OF inv] by (auto simp: buf unbuffered_def)
  then have "taken n (flushBuffer k cfg now m1) = taken n m1" by (rule flush_taken)
  also have "\<dots> = taken n m" by (simp add: taken_def buf delivered_def m1_def)
  finally have taken: "taken n (flushBuffer k cfg now m1) = taken n m" .
  have "stream_inv n (flushBuffer k cfg now m1)"
  proof (rule stream_invI)
    show "case map_of (sm_streams (flushBuffer k cfg now m1)) n of None \<Rightarrow> bufferOf n (flushBuffer k cfg now m1) = []
        | Some c \<Rightarrow> unbuffered c \<longrightarrow> bufferOf n (flushBuffer k cfg now m1) = []"
      using stream_invD(2) [OF inv] by (auto simp: m1_def split: option.splits)
    fix j t'
    assume "map_of (sm_timers (flushBuffer k cfg now m1)) j = Some t'"
    then have j: "j \<noteq> k" "map_of (sm_timers m) j = Some t'" by (auto simp: m1_def split: if_splits)
    then obtain c where c: "(t', j, c) \<in> set (sm_pending m)" using stream_invD(5) [OF inv] by blast
    then have "t' \<noteq> t" using pending_unique [OF inv t] j(1) by auto
    with c show "\<exists>c. (t', j, c) \<in> set (sm_pending (flushBuffer k cfg now m1))" by (auto simp: m1_def)
  next
    assume "map_of (sm_timers (flushBuffer k cfg now m1)) n = None"
    then show "bufferOf n (flushBuffer k cfg now m1) = []"
      using stream_invD(6) [OF inv] by (auto simp: m1_def split: if_splits)
  qed (use stream_invD(1,3,4) [OF inv] in \<open>auto simp: m1_def distinct_map_filter\<close>)
  with taken show ?thesis using Some kc by (simp add: timerFires_def m1_def)
qed (use inv in \<open>simp add: timerFires_def\<close>)

lemma subscribers_irrelevant:
  assumes "stream_inv n m"
  shows "stream_inv n (m\<lparr>sm_subscribers := x\<rparr>) \<and> taken n (m\<lparr>sm_subscribers := x\<rparr>) = taken n m"
    "stream_inv n (m\<lparr>sm_messageCounts := y\<rparr>) \<and> taken n (m\<lparr>sm_messageCounts := y\<rparr>) = taken n m"
  using assms by (simp_all add: stream_inv_def taken_def delivered_def cong: option.case_cong)

lemma publish_step:
  assumes inv: "stream_inv n m" and "publishToStream k d now m = Inr m1"
  shows "stream_inv n m1 \<and> taken n m1 = taken n m @ accepted n (Publish k d now) m"
proof -
  obtain cfg where cfg: "map_of (sm_streams m) k = Some cfg"
    using assms(2) by (cases "map_of (sm_streams m) k") (simp_all add: publishToStream_def)
  define mc where "mc = m\<lparr>sm_messageCounts := AList.update k (countOf k m + 1) (sm_messageCounts m)\<rparr>"
  have mc: "stream_inv n mc" "taken n mc = taken n m" "map_of (sm_streams mc) k = Some cfg"
    using subscribers_irrelevant(2) [OF inv] cfg by (simp_all add: mc_def)
  have emit: "taken n (emitMessage k (Single d) now mc) = taken n m @ (if k = n then [d] else [])" if "sg_throttleMs cfg = 0"
  proof -
    have "k = n \<Longrightarrow> bufferOf n mc = []" using that stream_invD(2) [OF mc(1)] mc(3) by (auto simp: unbuffered_def)
    then show ?thesis using mc(2) by (auto simp: taken_def delivered_emit)
  qed
  have "stream_inv n (emitMessage k (Single d) now mc)"
    using mc(1) by (simp add: stream_inv_def cong: option.case_cong)
  moreover have "m1 = (if subscribersOf k m = [] then m else if sg_throttleMs cfg > 0 then bufferMessage k d cfg now mc
      else emitMessage k (Single d) now mc)"
    using assms(2) cfg by (simp add: publishToStream_def Let_def mc_def split: if_splits)
  ultimately show ?thesis
    using cfg mc(2) buffer_step [OF mc(1,3), of d now] emit inv by auto
qed

lemma streamRequest_step:
  assumes "stream_inv n m" and "r \<noteq> DestroyStream n"
  shows "stream_inv n (streamRequest r m) \<and> taken n (streamRequest r m) = taken n m @ accepted n r m"
proof (cases r)
  case (CreateStream config)
  then show ?thesis using assms create_step [OF assms(1), of config] by (cases "createStream config m") (simp_all add: commit_def)
next
  case (DestroyStream k)
  then show ?thesis using assms destroy_step [OF assms(1), of k] by (cases "destroyStream k m") (simp_all add: commit_def)
next
  case (Subscribe k i)
  then show ?thesis
    using assms subscribers_irrelevant(1) [OF assms(1)]
    by (auto simp: commit_def subscribeToStream_def split: option.split)
next
  case (Unsubscribe k i)
  then show ?thesis using subscribers_irrelevant(1) [OF assms(1)] by (simp add: unsubscribeFromStream_def)
next
  case (Publish k d now)
  then show ?thesis
    using assms publish_step [OF assms(1), of k d now]
    by (cases "publishToStream k d now m") (auto simp: commit_def publishToStream_def Let_def split: option.splits if_splits)
next
  case (TimerFires t now)
  then show ?thesis using timer_step [OF assms(1)] by simp
qed

lemma streamRun_step:
  "stream_inv n m \<Longrightarrow> list_all (\<lambda>r. r \<noteq> DestroyStream n) rs \<Longrightarrow>
     stream_inv n (snd (streamRun n rs m)) \<and> taken n (snd (streamRun n rs m)) = taken n m @ fst (streamRun n rs m)"
proof (induction rs arbitrary: m)
  case (Cons r rs)
  then show ?case using streamRequest_step [OF Cons.prems(1), of r] by (simp add: case_prod_beta)
qed simp

definition newManager :: "'d stream_manager" where
  "newManager = \<lparr>sm_streams = [], sm_subscribers = [], sm_messageCounts = [], sm_lastMessageTime = [], sm_timers = [],
     sm_pending = [], sm_nextTimer = 0, sm_buffers = [], sm_emitted = []\<rparr>"

lemma newManager_ok: "stream_inv n newManager" "taken n newManager = []"
  by (simp_all add: stream_inv_def newManager_def bufferOf_def taken_def delivered_def)

text \<open>
  C39. A throttled stream loses nothing: as long as a stream is not destroyed, whatever happens to it and to
  the others, the messages it delivered, alone or in batches, followed by those it still buffers are the
  messages that were published while it had subscribers, in that order; and while it buffers
  messages a timer of it is running that will deliver all of them.
\<close>

theorem throttled_stream_loses_nothing:
  assumes "list_all (\<lambda>r. r \<noteq> DestroyStream n) rs" and "streamRun n rs newManager = (published, m)"
  shows "delivered n m @ bufferOf n m = published \<and>
    (bufferOf n m = [] \<or> (\<exists>t. map_of (sm_timers m) n = Some t \<and> delivered n (timerFires t now m) = published \<and>
       bufferOf n (timerFires t now m) = []))"
proof -
  have inv: "stream_inv n m" and log: "delivered n m @ bufferOf n m = published"
    using streamRun_step [OF newManager_ok(1) assms(1)] assms(2) newManager_ok(2) [of n] by (simp_all add: taken_def)
  have "\<exists>t. map_of (sm_timers m) n = Some t \<and> delivered n (timerFires t now m) = published \<and> bufferOf n (timerFires t now m) = []"
    if "bufferOf n m \<noteq> []"
  proof -
    obtain t where t: "map_of (sm_timers m) n = Some t" using stream_invD(6) [OF inv] \<open>bufferOf n m \<noteq> []\<close> by blast
    then obtain cfg where "(t, n, cfg) \<in> set (sm_pending m)" using stream_invD(5) [OF inv] by blast
    then have "map_of (sm_pending m) t = Some (n, cfg)" using stream_invD(3) [OF inv] by simp
    then have "bufferOf n (timerFires t now m) = []" by (simp add: timerFires_def)
    with t timer_step [OF inv, of t now] log show ?thesis by (simp add: taken_def)
  qed
  with log show ?thesis by blast
qed

text \<open>With the default batch size of one a throttled stream delivers every message at once.\<close>

lemma throttle_needs_batches:
  assumes "sg_batchSize cfg = 1" and "bufferOf n m = []"
  shows "sm_emitted (bufferMessage n d cfg now m) = sm_emitted m @ [(n, Single d)]"
proof -
  have b: "bufferOf n (m\<lparr>sm_buffers := AList.update n [d] (sm_buffers m)\<rparr>) = [d]"
    "bufferOf n (m\<lparr>sm_buffers := AList.update n [d] (sm_buffers m), sm_timers := x, sm_pending := y, sm_nextTimer := z\<rparr>) = [d]" for x y z
    by (simp_all add: bufferOf_def update_conv')
  show ?thesis
    using assms by (auto simp: bufferMessage_def Let_def orNumber_def flushBuffer_def b emitMessage_def)
qed

lemmas stream_evals = commit_def createStream_def subscribeToStream_def publishToStream_def destroyStream_def bufferMessage_def
  flushBuffer_def emitMessage_def timerFires_def bufferOf_def subscribersOf_def addToSet_def orNumber_def orElse_def
  countOf_def newManager_def delivered_def Let_def

text \<open>
  A stream that is destroyed and created again: the timer of the first one, which the map no longer
  names, is still running with the old configuration, and delivers one message out of two.
\<close>

lemma recreated_stream_loses_messages:
  "snd (streamRun ''s'' [CreateStream \<lparr>sc_name = ''s'', sc_throttleMs = Some 100, sc_batchSize = None, sc_maxSubscribers = None\<rparr>,
     Subscribe ''s'' ''c'', Publish ''s'' (1::nat) 0, DestroyStream ''s'',
     CreateStream \<lparr>sc_name = ''s'', sc_throttleMs = Some 1000, sc_batchSize = Some 10, sc_maxSubscribers = None\<rparr>,
     Subscribe ''s'' ''c'', Publish ''s'' 2 10, Publish ''s'' 3 20, TimerFires 0 100] newManager) = m \<Longrightarrow>
   delivered ''s'' m = [1, 2] \<and> bufferOf ''s'' m = []"
  by (simp add: stream_evals) auto

text \<open>A client that reconnects waits twice as long each time, and gives up after five attempts.\<close>

lemma reconnection_backs_off:
  assumes "map_of t i = Some s"
  shows "fst (handleReconnection defaultReconnection i t) =
    (if cx_reconnectAttempts s < 5 then 1000 * 2 ^ cx_reconnectAttempts s else -1)"
proof -
  have "cx_reconnectAttempts s < 5 \<Longrightarrow> cx_reconnectAttempts s \<in> {0, 1, 2, 3, 4}" by auto
  with assms show ?thesis by (auto simp: handleReconnection_def defaultReconnection_def Let_def)
qed

definition ex_stream :: "nat stream_request list" where
  "ex_stream = [CreateStream \<lparr>sc_name = ''s'', sc_throttleMs = Some 100, sc_batchSize = Some 3, sc_maxSubscribers = None\<rparr>,
     Subscribe ''s'' ''c'', Publish ''s'' 1 0, Publish ''s'' 2 10]"

theorem throttled_stream_loses_nothing_witness:
  "\<exists>m. snd (streamRun ''s'' ex_stream newManager) = m \<and> delivered ''s'' m @ bufferOf ''s'' m = [1, 2] \<and>
     (bufferOf ''s'' m = [] \<or> (\<exists>t. map_of (sm_timers m) ''s'' = Some t \<and> delivered ''s'' (timerFires t 100 m) = [1, 2] \<and>
        bufferOf ''s'' (timerFires t 100 m) = []))"
proof -
  have "fst (streamRun ''s'' ex_stream newManager) = [1, 2]"
    by (simp add: ex_stream_def stream_evals)
  moreover have "list_all (\<lambda>r. r \<noteq> DestroyStream ''s'') ex_stream" by (simp add: ex_stream_def)
  ultimately show ?thesis
    using throttled_stream_loses_nothing [of "''s''" ex_stream "[1, 2]" "snd (streamRun ''s'' ex_stream newManager)" 100]
    by (simp add: prod_eq_iff)
qed

end
