(* ===== verification/AbuseDetection.thy ===== *)
theory AbuseDetection
  imports Prelude "HOL-Library.AList"
begin

text \<open>
  Abuse detection, \<open>ratelimit/abuse-detection.service.ts\<close>: requests of an identifier in a sliding window,
  the patterns found in them, their score, and the blocks.

  The Redis keys are the state: a sorted set of requests and one of addresses for each identifier, a
  block for each blocked identifier, each with the time at which Redis drops it. A member of a sorted set
  is the JSON text of a request; it is the record of what goes into that text.
\<close>

section \<open>Data\<close>

record tracked_request =
  tq_endpoint :: string
  tq_timestamp :: timestamp
  tq_statusCode :: "nat option"
  tq_userAgent :: "string option"
  tq_method :: "string option"

datatype pattern_type = RapidRequests | DistributedAttack | CredentialStuffing | Scraping | SuspiciousPattern

record AbusePattern =
  an_type :: pattern_type
  an_score :: real

record AbuseScore =
  as_identifier :: string
  as_totalScore :: real
  as_patterns :: "AbusePattern list"
  as_isBlocked :: bool
  as_blockExpiresAt :: "timestamp option"

record 'm sorted_set =
  zz_members :: "('m \<times> timestamp) list"
  zz_expiresAt :: timestamp

text \<open>A block: the text that was set, a time, and when the key goes.\<close>

record abuse_store =
  ab_tracks :: "(string \<times> tracked_request sorted_set) list"
  ab_ips :: "(string \<times> string sorted_set) list"
  ab_blocks :: "(string \<times> timestamp \<times> timestamp) list"

definition ABUSE_SCORE_THRESHOLD :: real where
  "ABUSE_SCORE_THRESHOLD = 70"

definition BLOCK_DURATION_MS :: int where
  "BLOCK_DURATION_MS = 3600000"

definition PATTERN_WINDOW_MS :: int where
  "PATTERN_WINDOW_MS = 300000"

definition RAPID_REQUEST_THRESHOLD :: real where
  "RAPID_REQUEST_THRESHOLD = 50"

definition FAILED_AUTH_THRESHOLD :: nat where
  "FAILED_AUTH_THRESHOLD = 5"

definition ENDPOINT_DIVERSITY_THRESHOLD :: real where
  "ENDPOINT_DIVERSITY_THRESHOLD = 8 / 10"

section \<open>Sorted sets\<close>

definition liveMembers :: "timestamp \<Rightarrow> 'm sorted_set option \<Rightarrow> ('m \<times> timestamp) list" where
  "liveMembers now z = (case z of None \<Rightarrow> [] | Some s \<Rightarrow> if now < zz_expiresAt s then zz_members s else [])"

text \<open>\<open>ZADD\<close> and \<open>PEXPIRE\<close>: a member that is there already gets the new score.\<close>

definition zaddExpire :: "timestamp \<Rightarrow> 'm \<Rightarrow> 'm sorted_set option \<Rightarrow> 'm sorted_set" where
  "zaddExpire now x z =
     \<lparr>zz_members = AList.update x now (liveMembers now z), zz_expiresAt = now + PATTERN_WINDOW_MS * 2\<rparr>"

definition inWindow :: "timestamp \<Rightarrow> 'm sorted_set option \<Rightarrow> 'm list" where
  "inWindow now z = map fst (filter (\<lambda>(_, t). now - PATTERN_WINDOW_MS \<le> t \<and> t \<le> now) (liveMembers now z))"

section \<open>Patterns and scores\<close>

definition countUniqueIPs :: "string \<Rightarrow> timestamp \<Rightarrow> abuse_store \<Rightarrow> nat" where
  "countUniqueIPs identifier now s = length (inWindow now (map_of (ab_ips s) identifier))"

definition rapidRequests :: "tracked_request list \<Rightarrow> AbusePattern list" where
  "rapidRequests rs =
     (let perMinute = real (length rs) / real_of_int PATTERN_WINDOW_MS * 60000
      in if perMinute > RAPID_REQUEST_THRESHOLD
         then [\<lparr>an_type = RapidRequests, an_score = min 40 (perMinute / RAPID_REQUEST_THRESHOLD * 20)\<rparr>] else [])"

definition credentialStuffing :: "tracked_request list \<Rightarrow> AbusePattern list" where
  "credentialStuffing rs =
     (let failedAuths = length (filter (\<lambda>r. containsText ''/auth'' (tq_endpoint r) \<and> tq_statusCode r = Some 401) rs)
      in if failedAuths \<ge> FAILED_AUTH_THRESHOLD
         then [\<lparr>an_type = CredentialStuffing, an_score = min 50 (real failedAuths * 10)\<rparr>] else [])"

definition scraping :: "tracked_request list \<Rightarrow> AbusePattern list" where
  "scraping rs =
     (if real (length (setOrder (map tq_endpoint rs))) / real (length rs) > ENDPOINT_DIVERSITY_THRESHOLD \<and> length rs > 20
      then [\<lparr>an_type = Scraping, an_score = 30\<rparr>] else [])"

definition distributedAttack :: "string \<Rightarrow> nat \<Rightarrow> AbusePattern list" where
  "distributedAttack identifier ipCount =
     (if containsText ''user:'' identifier \<and> ipCount > 5
      then [\<lparr>an_type = DistributedAttack, an_score = min 40 (real ipCount * 5)\<rparr>] else [])"

definition suspiciousAgent :: "tracked_request \<Rightarrow> bool" where
  "suspiciousAgent r =
     (case tq_userAgent r of None \<Rightarrow> True | Some ua \<Rightarrow> ua = [] \<or> containsText ''bot'' ua \<or> length ua < 10)"

definition suspiciousPattern :: "tracked_request list \<Rightarrow> AbusePattern list" where
  "suspiciousPattern rs =
     (if real (length (filter suspiciousAgent rs)) > real (length rs) * (1 / 2)
      then [\<lparr>an_type = SuspiciousPattern, an_score = 20\<rparr>] else [])"

definition detectPatterns :: "string \<Rightarrow> timestamp \<Rightarrow> abuse_store \<Rightarrow> AbusePattern list" where
  "detectPatterns identifier now s =
     (let requests = inWindow now (map_of (ab_tracks s) identifier)
      in if requests = [] then []
         else rapidRequests requests @ credentialStuffing requests @ scraping requests @
              distributedAttack identifier (countUniqueIPs identifier now s) @ suspiciousPattern requests)"

definition calculateAbuseScore :: "AbusePattern list \<Rightarrow> real" where
  "calculateAbuseScore ps =
     (if ps = [] then 0
      else min 100 (sum_list (map an_score ps) * (1 + (real (length ps) - 1) * (2 / 10))))"

section \<open>Blocks\<close>

definition blockIdentifier :: "string \<Rightarrow> int \<Rightarrow> timestamp \<Rightarrow> abuse_store \<Rightarrow> abuse_store" where
  "blockIdentifier identifier durationMs now s =
     s\<lparr>ab_blocks := AList.update identifier (now + durationMs, now + durationMs) (ab_blocks s)\<rparr>"

definition getBlockExpiry :: "string \<Rightarrow> timestamp \<Rightarrow> abuse_store \<Rightarrow> timestamp option" where
  "getBlockExpiry identifier now s =
     (case map_of (ab_blocks s) identifier of None \<Rightarrow> None | Some (v, gone) \<Rightarrow> if now < gone then Some v else None)"

definition isBlocked :: "string \<Rightarrow> timestamp \<Rightarrow> abuse_store \<Rightarrow> bool" where
  "isBlocked identifier now s \<longleftrightarrow> getBlockExpiry identifier now s \<noteq> None"

definition unblockIdentifier :: "string \<Rightarrow> abuse_store \<Rightarrow> abuse_store" where
  "unblockIdentifier identifier s = s\<lparr>ab_blocks := AList.delete identifier (ab_blocks s)\<rparr>"

definition getAbuseScore :: "string \<Rightarrow> timestamp \<Rightarrow> abuse_store \<Rightarrow> AbuseScore" where
  "getAbuseScore identifier now s =
     (let patterns = detectPatterns identifier now s
      in \<lparr>as_identifier = identifier, as_totalScore = calculateAbuseScore patterns, as_patterns = patterns,
          as_isBlocked = isBlocked identifier now s, as_blockExpiresAt = getBlockExpiry identifier now s\<rparr>)"

definition storeRequest :: "string \<Rightarrow> tracked_request \<Rightarrow> abuse_store \<Rightarrow> abuse_store" where
  "storeRequest identifier r s =
     s\<lparr>ab_tracks := AList.update identifier (zaddExpire (tq_timestamp r) r (map_of (ab_tracks s) identifier)) (ab_tracks s)\<rparr>"

definition trackRequest ::
  "string \<Rightarrow> string \<Rightarrow> nat option \<Rightarrow> string option \<Rightarrow> string option \<Rightarrow> timestamp \<Rightarrow> abuse_store \<Rightarrow> AbuseScore \<times> abuse_store" where
  "trackRequest identifier endpoint statusCode userAgent method now s =
     (let s1 = storeRequest identifier \<lparr>tq_endpoint = endpoint, tq_timestamp = now, tq_statusCode = statusCode,
                 tq_userAgent = userAgent, tq_method = method\<rparr> s;
          score = getAbuseScore identifier now s1
      in (score, if as_totalScore score \<ge> ABUSE_SCORE_THRESHOLD \<and> \<not> as_isBlocked score
                 then blockIdentifier identifier BLOCK_DURATION_MS now s1 else s1))"

definition trackUserIP :: "string \<Rightarrow> string \<Rightarrow> timestamp \<Rightarrow> abuse_store \<Rightarrow> abuse_store" where
  "trackUserIP userId ip now s =
     s\<lparr>ab_ips := AList.update (''user:'' @ userId) (zaddExpire now ip (map_of (ab_ips s) (''user:'' @ userId))) (ab_ips s)\<rparr>"

definition getBlockedIdentifiers :: "timestamp \<Rightarrow> abuse_store \<Rightarrow> (string \<times> timestamp) list" where
  "getBlockedIdentifiers now s = map (\<lambda>(i, v, _). (i, v)) (filter (\<lambda>(_, _, gone). now < gone) (ab_blocks s))"

definition clearTrackingData :: "string \<Rightarrow> abuse_store \<Rightarrow> abuse_store" where
  "clearTrackingData identifier s =
     s\<lparr>ab_tracks := AList.delete identifier (ab_tracks s), ab_blocks := AList.delete identifier (ab_blocks s),
       ab_ips := AList.delete identifier (ab_ips s)\<rparr>"

section \<open>What a score can be\<close>

lemmas pattern_defs = rapidRequests_def credentialStuffing_def scraping_def distributedAttack_def suspiciousPattern_def

lemma pattern_types:
  "map an_type (rapidRequests rs) \<in> {[], [RapidRequests]}" "map an_type (credentialStuffing rs) \<in> {[], [CredentialStuffing]}"
  "map an_type (scraping rs) \<in> {[], [Scraping]}" "map an_type (distributedAttack i n) \<in> {[], [DistributedAttack]}"
  "map an_type (suspiciousPattern rs) \<in> {[], [SuspiciousPattern]}"
  by (simp_all add: pattern_defs Let_def)

lemma pattern_scores:
  "p \<in> set (detectPatterns identifier now s) \<Longrightarrow> 0 < an_score p \<and> an_score p \<le> 50"
  by (auto simp: detectPatterns_def pattern_defs Let_def RAPID_REQUEST_THRESHOLD_def FAILED_AUTH_THRESHOLD_def
      PATTERN_WINDOW_MS_def split: if_splits)

text \<open>
  A score lies between 0 and 100, and one pattern alone never blocks: whatever was tracked, an
  identifier whose score reaches the threshold shows at least two different patterns.
\<close>

theorem blocking_needs_two_patterns:
  "let a = getAbuseScore identifier now s
   in 0 \<le> as_totalScore a \<and> as_totalScore a \<le> 100 \<and> distinct (map an_type (as_patterns a)) \<and>
      (if as_totalScore a < ABUSE_SCORE_THRESHOLD then True else 2 \<le> length (as_patterns a))"
proof -
  define ps where "ps = detectPatterns identifier now s"
  have scores: "\<forall>p\<in>set ps. 0 < an_score p \<and> an_score p \<le> 50" by (auto simp: ps_def pattern_scores)
  then have sum: "0 \<le> sum_list (map an_score ps)" by (intro sum_list_nonneg) (auto intro: less_imp_le)
  have low: "0 \<le> calculateAbuseScore ps"
    using sum by (cases ps) (simp_all add: calculateAbuseScore_def)
  have high: "calculateAbuseScore ps \<le> 100" by (simp add: calculateAbuseScore_def)
  have two: "2 \<le> length ps" if "\<not> calculateAbuseScore ps < ABUSE_SCORE_THRESHOLD"
  proof (rule ccontr)
    assume "\<not> 2 \<le> length ps"
    then have "ps = [] \<or> (\<exists>p. ps = [p])" by (cases ps; cases "tl ps") auto
    with that scores show False by (auto simp: calculateAbuseScore_def ABUSE_SCORE_THRESHOLD_def)
  qed
  have "distinct (map an_type ps)"
    using pattern_types(1-3,5) [where rs = "inWindow now (map_of (ab_tracks s) identifier)"]
      pattern_types(4) [where i = "identifier" and n = "countUniqueIPs identifier now s"]
    by (auto simp: ps_def detectPatterns_def Let_def simp del: set_map simp flip: set_map)
  with low high two show ?thesis by (simp add: getAbuseScore_def Let_def ps_def [symmetric])
qed

section \<open>A block lasts\<close>

datatype abuse_request =
    TrackRequest string string "nat option" "string option" "string option" timestamp
  | TrackUserIP string string timestamp
  | Block string int timestamp
  | Unblock string
  | ClearTracking string

fun abuseRequest :: "abuse_request \<Rightarrow> abuse_store \<Rightarrow> abuse_store" where
  "abuseRequest (TrackRequest i e st ua me now) s = snd (trackRequest i e st ua me now s)"
| "abuseRequest (TrackUserIP u ip now) s = trackUserIP u ip now s"
| "abuseRequest (Block i d now) s = blockIdentifier i d now s"
| "abuseRequest (Unblock i) s = unblockIdentifier i s"
| "abuseRequest (ClearTracking i) s = clearTrackingData i s"

text \<open>Requests that do not lift the block of an identifier by hand or replace it by a shorter one.\<close>

fun leavesBlock :: "string \<Rightarrow> timestamp \<Rightarrow> abuse_request \<Rightarrow> bool" where
  "leavesBlock i until (Block j d now) = (j = i \<longrightarrow> until \<le> now + d)"
| "leavesBlock i until (Unblock j) = (j \<noteq> i)"
| "leavesBlock i until (ClearTracking j) = (j \<noteq> i)"
| "leavesBlock i until _ = True"

definition blockedUntil :: "string \<Rightarrow> timestamp \<Rightarrow> abuse_store \<Rightarrow> bool" where
  "blockedUntil i until s \<longleftrightarrow> (case map_of (ab_blocks s) i of None \<Rightarrow> False | Some (v, gone) \<Rightarrow> until \<le> gone)"

lemma blockedUntil_isBlocked: "blockedUntil i until s \<Longrightarrow> t < until \<Longrightarrow> isBlocked i t s"
  by (auto simp: blockedUntil_def isBlocked_def getBlockExpiry_def split: option.splits)

lemma isBlocked_storeRequest [simp]: "isBlocked i t (storeRequest j r s) = isBlocked i t s"
  by (simp add: isBlocked_def getBlockExpiry_def storeRequest_def)

lemma trackRequest_store:
  "\<exists>s1. ab_blocks s1 = ab_blocks s \<and>
     snd (trackRequest j e st ua me now s) = s1 \<or>
     \<not> isBlocked j now s \<and> ab_blocks (snd (trackRequest j e st ua me now s)) =
       AList.update j (now + BLOCK_DURATION_MS, now + BLOCK_DURATION_MS) (ab_blocks s)"
  by (auto simp: trackRequest_def Let_def getAbuseScore_def blockIdentifier_def storeRequest_def isBlocked_def getBlockExpiry_def)

lemma abuseRequest_keeps_block:
  assumes "blockedUntil i until s" and "leavesBlock i until r"
  shows "blockedUntil i until (abuseRequest r s)"
proof (cases r)
  case (TrackRequest j e st ua me now)
  consider "ab_blocks (snd (trackRequest j e st ua me now s)) = ab_blocks s"
    | "\<not> isBlocked j now s" "ab_blocks (snd (trackRequest j e st ua me now s)) =
         AList.update j (now + BLOCK_DURATION_MS, now + BLOCK_DURATION_MS) (ab_blocks s)"
    using trackRequest_store [of s j e st ua me now] by blast
  then show ?thesis
  proof cases
    case 2
    then have "until \<le> now" if "j = i" using that assms(1) blockedUntil_isBlocked [of i until s now] by force
    then show ?thesis
      using 2 assms(1) TrackRequest by (auto simp: blockedUntil_def update_conv' BLOCK_DURATION_MS_def)
  qed (use assms TrackRequest in \<open>simp add: blockedUntil_def\<close>)
qed (use assms in \<open>auto simp: blockedUntil_def trackUserIP_def blockIdentifier_def unblockIdentifier_def clearTrackingData_def
       update_conv' delete_conv'\<close>)

interpretation block_kept: guarded_loop abuseRequest "blockedUntil i until" "leavesBlock i until" for i until
  by unfold_locales (rule abuseRequest_keeps_block)

text \<open>
  A block lasts its hour: when a tracked request brings an identifier that is not blocked to the
  threshold, then through any later requests that do not lift the block by hand, whatever their times, it
  counts as blocked at every moment of the hour that follows; and while nothing else is asked it is free
  again from the end of that hour on.
\<close>

theorem automatic_block_lasts_an_hour:
  assumes "trackRequest i e st ua me now s = (a, s1)" and "as_totalScore a \<ge> ABUSE_SCORE_THRESHOLD" and "\<not> as_isBlocked a"
    and "list_all (leavesBlock i (now + 3600000)) rs"
  shows "(t < now + 3600000 \<longrightarrow> isBlocked i t (fold abuseRequest rs s1)) \<and> (now + 3600000 \<le> t \<longrightarrow> \<not> isBlocked i t s1)"
proof -
  have blocks: "ab_blocks s1 = AList.update i (now + BLOCK_DURATION_MS, now + BLOCK_DURATION_MS) (ab_blocks s)"
    using assms(1-3) by (auto simp: trackRequest_def Let_def blockIdentifier_def storeRequest_def)
  then have "blockedUntil i (now + 3600000) s1"
    by (simp add: blockedUntil_def update_conv' BLOCK_DURATION_MS_def)
  then have "blockedUntil i (now + 3600000) (fold abuseRequest rs s1)"
    using assms(4) by (rule block_kept.run_guarded)
  moreover have "now + 3600000 \<le> t \<Longrightarrow> \<not> isBlocked i t s1"
    by (simp add: isBlocked_def getBlockExpiry_def blocks update_conv' BLOCK_DURATION_MS_def)
  ultimately show ?thesis using blockedUntil_isBlocked by blast
qed

text \<open>
  The answer to the request that caused the block says that the identifier is not blocked.
\<close>

lemma blocking_request_is_reported_as_free:
  assumes "trackRequest i e st ua me now s = (a, s1)" and "\<not> isBlocked i now s"
  shows "\<not> as_isBlocked a"
  using assms by (auto simp: trackRequest_def Let_def getAbuseScore_def)

text \<open>Requests that differ in nothing within one millisecond are one member of the sorted set: a burst counts once.\<close>

lemma burst_counts_once:
  "trackRequest i e st ua me now (snd (trackRequest i e st ua me now s)) = (a, s2) \<Longrightarrow>
     length (inWindow now (map_of (ab_tracks s2) i)) = length (inWindow now (map_of (ab_tracks (snd (trackRequest i e st ua me now s))) i))"
proof -
  have upd: "AList.update x v (AList.update x v zs) = AList.update x v zs" for x :: 'x and v :: 'v and zs
    by (induction zs) auto
  have tracks: "map_of (ab_tracks (snd (trackRequest i e st ua me now s'))) i =
      Some (zaddExpire now \<lparr>tq_endpoint = e, tq_timestamp = now, tq_statusCode = st, tq_userAgent = ua, tq_method = me\<rparr> (map_of (ab_tracks s') i))" for s'
    by (simp add: trackRequest_def Let_def storeRequest_def blockIdentifier_def update_conv')
  assume "trackRequest i e st ua me now (snd (trackRequest i e st ua me now s)) = (a, s2)"
  then have "s2 = snd (trackRequest i e st ua me now (snd (trackRequest i e st ua me now s)))" by simp
  then show ?thesis
    using tracks [of s] tracks [of "snd (trackRequest i e st ua me now s)"]
    by (simp add: zaddExpire_def liveMembers_def inWindow_def PATTERN_WINDOW_MS_def upd)
qed

section \<open>Witnesses\<close>

text \<open>Five failed logins without a user agent, the first four at earlier moments.\<close>

definition ex_attempt :: "timestamp \<Rightarrow> tracked_request" where
  "ex_attempt t = \<lparr>tq_endpoint = ''/auth'', tq_timestamp = t, tq_statusCode = Some 401, tq_userAgent = None, tq_method = None\<rparr>"

definition ex_store :: abuse_store where
  "ex_store = fold (storeRequest ''ip'') [ex_attempt 1, ex_attempt 2, ex_attempt 3, ex_attempt 4]
     \<lparr>ab_tracks = [], ab_ips = [], ab_blocks = []\<rparr>"

theorem automatic_block_lasts_an_hour_witness:
  "isBlocked ''ip'' 1000 (snd (trackRequest ''ip'' ''/auth'' (Some 401) None None 5 ex_store)) \<and>
   \<not> isBlocked ''ip'' 3600005 (snd (trackRequest ''ip'' ''/auth'' (Some 401) None None 5 ex_store))"
proof -
  define out where "out = trackRequest ''ip'' ''/auth'' (Some 401) None None 5 ex_store"
  have store: "storeRequest ''ip'' (ex_attempt 5) ex_store =
      \<lparr>ab_tracks = [(''ip'', \<lparr>zz_members = [(ex_attempt 1, 1), (ex_attempt 2, 2), (ex_attempt 3, 3), (ex_attempt 4, 4), (ex_attempt 5, 5)],
         zz_expiresAt = 600005\<rparr>)], ab_ips = [], ab_blocks = []\<rparr>"
    by (simp add: ex_store_def storeRequest_def zaddExpire_def liveMembers_def PATTERN_WINDOW_MS_def ex_attempt_def)
  have patterns: "detectPatterns ''ip'' 5 (storeRequest ''ip'' (ex_attempt 5) ex_store) =
      [\<lparr>an_type = CredentialStuffing, an_score = 50\<rparr>, \<lparr>an_type = SuspiciousPattern, an_score = 20\<rparr>]"
    unfolding store
    by (simp add: detectPatterns_def inWindow_def liveMembers_def PATTERN_WINDOW_MS_def pattern_defs Let_def
        RAPID_REQUEST_THRESHOLD_def FAILED_AUTH_THRESHOLD_def ENDPOINT_DIVERSITY_THRESHOLD_def suspiciousAgent_def
        containsText_def startsWith_def ex_attempt_def upt_rec)
  have score: "fst out = getAbuseScore ''ip'' 5 (storeRequest ''ip'' (ex_attempt 5) ex_store)"
    by (simp add: out_def trackRequest_def Let_def ex_attempt_def)
  have "as_totalScore (fst out) \<ge> ABUSE_SCORE_THRESHOLD"
    unfolding score by (simp add: getAbuseScore_def Let_def patterns calculateAbuseScore_def ABUSE_SCORE_THRESHOLD_def)
  moreover have "\<not> as_isBlocked (fst out)"
    unfolding score by (simp add: getAbuseScore_def Let_def store isBlocked_def getBlockExpiry_def)
  ultimately show ?thesis
    using automatic_block_lasts_an_hour [of "''ip''" "''/auth''" "Some 401" None None 5 ex_store "fst out" "snd out" "[]" 1000]
      automatic_block_lasts_an_hour [of "''ip''" "''/auth''" "Some 401" None None 5 ex_store "fst out" "snd out" "[]" 3600005]
    by (simp add: out_def)
qed

end
