(* ===== verification/PrivateTrading.thy ===== *)
theory PrivateTrading
  imports Prelude
begin

text \<open>
  Private trading, the services under \<open>privacy/services\<close>: encryption of order details, privacy profiles
  with their pseudonyms, encrypted orders, balance proofs, and the audit of private actions.

  The ciphers, hashes and random bytes of node are arguments, with the laws a theorem uses as its
  hypotheses. Texts that are read as big integers are read by an argument. Decimal columns come back
  from the database as the driver gives them, so what \<open>+=\<close> computes is an argument too.
\<close>

section \<open>Encryption\<close>

text \<open>
  The parts of node's \<open>crypto\<close> the service uses: AES-256-GCM, which gives a cipher text and a tag and
  refuses to open what does not fit, PBKDF2, and the two text encodings of bytes.
\<close>

record ('b, 'p) crypto =
  cy_seal :: "'b \<Rightarrow> 'b \<Rightarrow> 'p \<Rightarrow> string \<times> 'b"
  cy_open :: "'b \<Rightarrow> 'b \<Rightarrow> 'b \<Rightarrow> string \<Rightarrow> 'p option"
  cy_length :: "'b \<Rightarrow> nat"
  cy_toBase64 :: "'b \<Rightarrow> string"
  cy_fromBase64 :: "string \<Rightarrow> 'b"
  cy_pbkdf2 :: "string \<Rightarrow> 'b \<Rightarrow> nat \<Rightarrow> 'b"

record sealed =
  sd_ciphertext :: string
  sd_nonce :: string
  sd_tag :: string

record sealed_with_salt = sealed +
  sd_salt :: string

definition encrypt :: "('b, 'p) crypto \<Rightarrow> 'b \<Rightarrow> 'p \<Rightarrow> 'b \<Rightarrow> sealed result" where
  "encrypt c nonce plaintext key =
     (if cy_length c key \<noteq> 32 then Inl (BadRequestException ''Key must be 32 bytes (256 bits)'')
      else let (ciphertext, tag) = cy_seal c key nonce plaintext
           in Inr \<lparr>sd_ciphertext = ciphertext, sd_nonce = cy_toBase64 c nonce, sd_tag = cy_toBase64 c tag\<rparr>)"

definition decrypt :: "('b, 'p) crypto \<Rightarrow> string \<Rightarrow> 'b \<Rightarrow> string \<Rightarrow> string \<Rightarrow> 'p result" where
  "decrypt c ciphertext key nonce tag =
     (if cy_length c key \<noteq> 32 then Inl (BadRequestException ''Key must be 32 bytes (256 bits)'')
      else case cy_open c key (cy_fromBase64 c nonce) (cy_fromBase64 c tag) ciphertext of
             None \<Rightarrow> Inl (JsError ''Decryption failed'')
           | Some p \<Rightarrow> Inr p)"

definition deriveKey :: "('b, 'p) crypto \<Rightarrow> string \<Rightarrow> 'b \<Rightarrow> 'b" where
  "deriveKey c password salt = cy_pbkdf2 c password salt 100000"

text \<open>\<open>salt\<close> and \<open>nonce\<close> are the random bytes that are drawn.\<close>

definition encryptWithPassword :: "('b, 'p) crypto \<Rightarrow> 'b \<Rightarrow> 'b \<Rightarrow> 'p \<Rightarrow> string \<Rightarrow> sealed_with_salt result" where
  "encryptWithPassword c salt nonce plaintext password =
     map_sum id (\<lambda>s. \<lparr>sd_ciphertext = sd_ciphertext s, sd_nonce = sd_nonce s, sd_tag = sd_tag s, sd_salt = cy_toBase64 c salt\<rparr>)
       (encrypt c nonce plaintext (deriveKey c password salt))"

definition decryptWithPassword :: "('b, 'p) crypto \<Rightarrow> string \<Rightarrow> string \<Rightarrow> string \<Rightarrow> string \<Rightarrow> string \<Rightarrow> 'p result" where
  "decryptWithPassword c ciphertext password salt nonce tag =
     decrypt c ciphertext (deriveKey c password (cy_fromBase64 c salt)) nonce tag"

definition createAnonymousHash :: "(string \<Rightarrow> string) \<Rightarrow> string \<Rightarrow> string \<Rightarrow> string" where
  "createAnonymousHash sha256 input salt = sha256 (salt @ '':'' @ input)"

section \<open>Profiles\<close>

datatype AnonymityLevel = LOW | MEDIUM | HIGH

record privacy_settings =
  pv_hideOrderHistory :: "bool option"
  pv_hideBalance :: "bool option"
  pv_enableZKProofs :: "bool option"
  pv_autoDeleteOldOrders :: "bool option"
  pv_orderRetentionDays :: "nat option"

record PrivacyProfile =
  pp_id :: uuid
  pp_userId :: uuid
  pp_pseudonymousId :: uuid
  pp_publicKey :: string
  pp_encryptedPrivateKeyBackup :: "string option"
  pp_anonymityLevel :: AnonymityLevel
  pp_isAnonymous :: bool
  pp_encryptedPseudonym :: "string option"
  pp_anonymousOrderCount :: nat
  pp_anonymousTradeVolume :: real
  pp_privacySettings :: privacy_settings
  pp_createdAt :: timestamp

record CreatePrivacyProfileDto =
  cf_publicKey :: string
  cf_anonymityLevel :: "AnonymityLevel option"
  cf_isAnonymous :: "bool option"
  cf_encryptedPseudonym :: "string option"
  cf_privacySettings :: "privacy_settings option"

record UpdatePrivacyProfileDto =
  uf_anonymityLevel :: "AnonymityLevel option"
  uf_isAnonymous :: "bool option"
  uf_privacySettings :: "privacy_settings option"
  uf_encryptedPseudonym :: "string option"

definition defaultSettings :: privacy_settings where
  "defaultSettings = \<lparr>pv_hideOrderHistory = Some False, pv_hideBalance = Some False, pv_enableZKProofs = Some True,
     pv_autoDeleteOldOrders = Some False, pv_orderRetentionDays = Some 90\<rparr>"

text \<open>\<open>{ ...old, ...new }\<close>.\<close>

definition override :: "'a option \<Rightarrow> 'a option \<Rightarrow> 'a option" where
  "override old new = (case new of None \<Rightarrow> old | Some x \<Rightarrow> Some x)"

definition mergeSettings :: "privacy_settings \<Rightarrow> privacy_settings \<Rightarrow> privacy_settings" where
  "mergeSettings old new =
     \<lparr>pv_hideOrderHistory = override (pv_hideOrderHistory old) (pv_hideOrderHistory new),
      pv_hideBalance = override (pv_hideBalance old) (pv_hideBalance new),
      pv_enableZKProofs = override (pv_enableZKProofs old) (pv_enableZKProofs new),
      pv_autoDeleteOldOrders = override (pv_autoDeleteOldOrders old) (pv_autoDeleteOldOrders new),
      pv_orderRetentionDays = override (pv_orderRetentionDays old) (pv_orderRetentionDays new)\<rparr>"

text \<open>An empty text does not count as given.\<close>

definition nonEmpty :: "string option \<Rightarrow> string option" where
  "nonEmpty x = (case x of Some (c # cs) \<Rightarrow> x | _ \<Rightarrow> None)"

text \<open>
  The loop that draws a pseudonym until it is not in use: the ids that are drawn are an argument, and the
  value is \<open>None\<close> while all of them were in use.
\<close>

fun drawPseudonym :: "uuid list \<Rightarrow> PrivacyProfile list \<Rightarrow> uuid option" where
  "drawPseudonym [] ps = None"
| "drawPseudonym (i # drawn) ps = (if row_of pp_pseudonymousId i ps = None then Some i else drawPseudonym drawn ps)"

definition createPrivacyProfile ::
  "uuid \<Rightarrow> uuid list \<Rightarrow> timestamp \<Rightarrow> uuid \<Rightarrow> CreatePrivacyProfileDto \<Rightarrow> PrivacyProfile list \<Rightarrow>
     (PrivacyProfile \<times> PrivacyProfile list) result option" where
  "createPrivacyProfile newId drawn now userId dto ps =
     (if row_of pp_userId userId ps \<noteq> None then Some (Inl (ConflictException ''User already has a privacy profile''))
      else case drawPseudonym drawn ps of
             None \<Rightarrow> None
           | Some pseudonym \<Rightarrow>
               let profile = \<lparr>pp_id = newId, pp_userId = userId, pp_pseudonymousId = pseudonym, pp_publicKey = cf_publicKey dto,
                     pp_encryptedPrivateKeyBackup = nonEmpty (cf_encryptedPseudonym dto),
                     pp_anonymityLevel = (case cf_anonymityLevel dto of None \<Rightarrow> MEDIUM | Some l \<Rightarrow> l),
                     pp_isAnonymous = (cf_isAnonymous dto = Some True),
                     pp_encryptedPseudonym = nonEmpty (cf_encryptedPseudonym dto), pp_anonymousOrderCount = 0,
                     pp_anonymousTradeVolume = 0,
                     pp_privacySettings = (case cf_privacySettings dto of None \<Rightarrow> defaultSettings | Some s \<Rightarrow> s),
                     pp_createdAt = now\<rparr>
               in Some (Inr (profile, save_row pp_id profile ps)))"

definition getProfileByPseudonymousId :: "uuid \<Rightarrow> PrivacyProfile list \<Rightarrow> PrivacyProfile result" where
  "getProfileByPseudonymousId i ps =
     (case row_of pp_pseudonymousId i ps of None \<Rightarrow> Inl (NotFoundException ''Profile not found'') | Some p \<Rightarrow> Inr p)"

definition changeProfile :: "uuid \<Rightarrow> (PrivacyProfile \<Rightarrow> PrivacyProfile) \<Rightarrow> PrivacyProfile list \<Rightarrow> PrivacyProfile list result" where
  "changeProfile i f ps = map_sum id (\<lambda>p. save_row pp_id (f p) ps) (getProfileByPseudonymousId i ps)"

definition updatePrivacyProfile :: "uuid \<Rightarrow> UpdatePrivacyProfileDto \<Rightarrow> PrivacyProfile list \<Rightarrow> PrivacyProfile list result" where
  "updatePrivacyProfile i dto = changeProfile i (\<lambda>p. p\<lparr>
     pp_anonymityLevel := (case uf_anonymityLevel dto of None \<Rightarrow> pp_anonymityLevel p | Some l \<Rightarrow> l),
     pp_isAnonymous := (case uf_isAnonymous dto of None \<Rightarrow> pp_isAnonymous p | Some b \<Rightarrow> b),
     pp_privacySettings := (case uf_privacySettings dto of None \<Rightarrow> pp_privacySettings p | Some s \<Rightarrow> mergeSettings (pp_privacySettings p) s),
     pp_encryptedPseudonym := override (pp_encryptedPseudonym p) (nonEmpty (uf_encryptedPseudonym dto))\<rparr>)"

definition enableAnonymousMode :: "uuid \<Rightarrow> PrivacyProfile list \<Rightarrow> PrivacyProfile list result" where
  "enableAnonymousMode i = changeProfile i (\<lambda>p. p\<lparr>pp_isAnonymous := True, pp_anonymityLevel := HIGH\<rparr>)"

definition disableAnonymousMode :: "uuid \<Rightarrow> PrivacyProfile list \<Rightarrow> PrivacyProfile list result" where
  "disableAnonymousMode i = changeProfile i (\<lambda>p. p\<lparr>pp_isAnonymous := False, pp_anonymityLevel := LOW\<rparr>)"

text \<open>\<open>add\<close> is what \<open>+=\<close> gives for the volume as the driver returns it.\<close>

definition incrementOrderCount :: "(real \<Rightarrow> real \<Rightarrow> real) \<Rightarrow> uuid \<Rightarrow> real \<Rightarrow> PrivacyProfile list \<Rightarrow> PrivacyProfile list result" where
  "incrementOrderCount add i amount = changeProfile i (\<lambda>p. p\<lparr>pp_anonymousOrderCount := pp_anonymousOrderCount p + 1,
     pp_anonymousTradeVolume := add (pp_anonymousTradeVolume p) amount\<rparr>)"

definition getAggregatedStats :: "uuid \<Rightarrow> timestamp \<Rightarrow> PrivacyProfile list \<Rightarrow> (nat \<times> real \<times> int \<times> AnonymityLevel) result" where
  "getAggregatedStats i now ps = map_sum id (\<lambda>p. (pp_anonymousOrderCount p, pp_anonymousTradeVolume p,
     (now - pp_createdAt p) div (1000 * 60 * 60 * 24), pp_anonymityLevel p)) (getProfileByPseudonymousId i ps)"

definition deleteProfile :: "uuid \<Rightarrow> PrivacyProfile list \<Rightarrow> PrivacyProfile list result" where
  "deleteProfile i ps = map_sum id (\<lambda>p. filter (\<lambda>x. pp_id x \<noteq> pp_id p) ps) (getProfileByPseudonymousId i ps)"

definition rotatePublicKey :: "uuid \<Rightarrow> string \<Rightarrow> PrivacyProfile list \<Rightarrow> PrivacyProfile list result" where
  "rotatePublicKey i newKey ps =
     rbind (getProfileByPseudonymousId i ps) (\<lambda>p.
       if length newKey < 10 then Inl (BadRequestException ''Invalid public key format'')
       else Inr (save_row pp_id (p\<lparr>pp_publicKey := newKey\<rparr>) ps))"

record PrivacyProfileResponseDto =
  pr_id :: uuid
  pr_pseudonymousId :: uuid
  pr_anonymityLevel :: AnonymityLevel
  pr_isAnonymous :: bool
  pr_anonymousOrderCount :: nat
  pr_anonymousTradeVolume :: real
  pr_createdAt :: timestamp

definition profileResponse :: "PrivacyProfile \<Rightarrow> PrivacyProfileResponseDto" where
  "profileResponse p = \<lparr>pr_id = pp_id p, pr_pseudonymousId = pp_pseudonymousId p, pr_anonymityLevel = pp_anonymityLevel p,
     pr_isAnonymous = pp_isAnonymous p, pr_anonymousOrderCount = pp_anonymousOrderCount p,
     pr_anonymousTradeVolume = pp_anonymousTradeVolume p, pr_createdAt = pp_createdAt p\<rparr>"

definition getProfileByUserId :: "uuid \<Rightarrow> PrivacyProfile list \<Rightarrow> PrivacyProfile option" where
  "getProfileByUserId u ps = row_of pp_userId u ps"

definition getProfilesByIds :: "uuid list \<Rightarrow> PrivacyProfile list \<Rightarrow> PrivacyProfile list" where
  "getProfilesByIds is ps = filter (\<lambda>p. pp_pseudonymousId p \<in> set is) ps"

definition getProfilesByAnonymityLevel :: "AnonymityLevel \<Rightarrow> PrivacyProfile list \<Rightarrow> PrivacyProfile list" where
  "getProfilesByAnonymityLevel l ps = filter (\<lambda>p. pp_anonymityLevel p = l) ps"

definition countAnonymousUsers :: "PrivacyProfile list \<Rightarrow> nat" where
  "countAnonymousUsers ps = length (filter pp_isAnonymous ps)"

section \<open>Encrypted orders\<close>

datatype EncryptedOrderStatus = EO_PENDING | EO_MATCHED | EO_CANCELLED | EO_EXECUTED | EO_EXPIRED

record EncryptedOrder =
  eo_id :: uuid
  eo_pseudonymousId :: uuid
  eo_encryptedOrderDetails :: string
  eo_orderHash :: string
  eo_encryptionNonce :: string
  eo_orderMetadata :: "string option"
  eo_status :: EncryptedOrderStatus
  eo_linkedOrderId :: "uuid option"
  eo_encryptedZKProof :: "string option"
  eo_matchedAt :: "timestamp option"
  eo_encryptedMatchDetails :: "string option"
  eo_createdAt :: timestamp

record CreateEncryptedOrderDto =
  ed_encryptedOrderDetails :: string
  ed_orderHash :: string
  ed_encryptionNonce :: string
  ed_orderMetadata :: "string option"
  ed_encryptedZKProof :: "string option"

record UpdateEncryptedOrderDto =
  eu_status :: "EncryptedOrderStatus option"
  eu_linkedOrderId :: "uuid option"
  eu_encryptedMatchDetails :: "string option"

definition createEncryptedOrder :: "uuid \<Rightarrow> timestamp \<Rightarrow> uuid \<Rightarrow> CreateEncryptedOrderDto \<Rightarrow> EncryptedOrder list \<Rightarrow> EncryptedOrder \<times> EncryptedOrder list" where
  "createEncryptedOrder newId now pseudonym dto os =
     (let o1 = \<lparr>eo_id = newId, eo_pseudonymousId = pseudonym, eo_encryptedOrderDetails = ed_encryptedOrderDetails dto,
        eo_orderHash = ed_orderHash dto, eo_encryptionNonce = ed_encryptionNonce dto,
        eo_orderMetadata = ed_orderMetadata dto, eo_status = EO_PENDING,
        eo_linkedOrderId = None, eo_encryptedZKProof = ed_encryptedZKProof dto, eo_matchedAt = None,
        eo_encryptedMatchDetails = None, eo_createdAt = now\<rparr>
      in (o1, save_row eo_id o1 os))"

definition getOrderById :: "uuid \<Rightarrow> EncryptedOrder list \<Rightarrow> EncryptedOrder option" where
  "getOrderById i os = row_of eo_id i os"

definition changeOrder :: "uuid \<Rightarrow> (EncryptedOrder \<Rightarrow> EncryptedOrder result) \<Rightarrow> EncryptedOrder list \<Rightarrow> (EncryptedOrder \<times> EncryptedOrder list) result" where
  "changeOrder i f os =
     (case getOrderById i os of
        None \<Rightarrow> Inl (NotFoundException ''Order not found'')
      | Some x \<Rightarrow> map_sum id (\<lambda>y. (y, save_row eo_id y os)) (f x))"

definition updateEncryptedOrder :: "uuid \<Rightarrow> UpdateEncryptedOrderDto \<Rightarrow> timestamp \<Rightarrow> EncryptedOrder list \<Rightarrow> (EncryptedOrder \<times> EncryptedOrder list) result" where
  "updateEncryptedOrder i dto now = changeOrder i (\<lambda>x.
     let x1 = x\<lparr>eo_status := (case eu_status dto of None \<Rightarrow> eo_status x | Some s \<Rightarrow> s),
                eo_linkedOrderId := override (eo_linkedOrderId x) (eu_linkedOrderId dto)\<rparr>
     in Inr (case nonEmpty (eu_encryptedMatchDetails dto) of
               None \<Rightarrow> x1
             | Some d \<Rightarrow> x1\<lparr>eo_encryptedMatchDetails := Some d, eo_matchedAt := Some now\<rparr>))"

definition updateOrderStatus :: "uuid \<Rightarrow> EncryptedOrderStatus \<Rightarrow> timestamp \<Rightarrow> EncryptedOrder list \<Rightarrow> (EncryptedOrder \<times> EncryptedOrder list) result" where
  "updateOrderStatus i st now = changeOrder i (\<lambda>x.
     Inr (if st = EO_MATCHED then x\<lparr>eo_status := st, eo_matchedAt := Some now\<rparr> else x\<lparr>eo_status := st\<rparr>))"

definition cancelEncryptedOrder :: "uuid \<Rightarrow> EncryptedOrder list \<Rightarrow> (EncryptedOrder \<times> EncryptedOrder list) result" where
  "cancelEncryptedOrder i = changeOrder i (\<lambda>x.
     if eo_status x = EO_EXECUTED then Inl (BadRequestException ''Cannot cancel executed order'') else Inr (x\<lparr>eo_status := EO_CANCELLED\<rparr>))"

definition deleteEncryptedOrder :: "uuid \<Rightarrow> EncryptedOrder list \<Rightarrow> EncryptedOrder list result" where
  "deleteEncryptedOrder i os =
     (case getOrderById i os of
        None \<Rightarrow> Inl (NotFoundException ''Order not found'')
      | Some x \<Rightarrow> Inr (filter (\<lambda>y. eo_id y \<noteq> i) os))"

definition storeDecryptedOrderDetails :: "uuid \<Rightarrow> string \<Rightarrow> EncryptedOrder list \<Rightarrow> (EncryptedOrder \<times> EncryptedOrder list) result" where
  "storeDecryptedOrderDetails i details = changeOrder i (\<lambda>x. Inr (x\<lparr>eo_encryptedMatchDetails := Some details\<rparr>))"

definition getOrdersByPseudonymousId :: "uuid \<Rightarrow> EncryptedOrderStatus option \<Rightarrow> EncryptedOrder list \<Rightarrow> EncryptedOrder list" where
  "getOrdersByPseudonymousId pseudonym st os = sort_key (\<lambda>x. - eo_createdAt x)
     (filter (\<lambda>x. eo_pseudonymousId x = pseudonym \<and> (case st of None \<Rightarrow> True | Some s \<Rightarrow> eo_status x = s)) os)"

definition getPendingOrders :: "EncryptedOrder list \<Rightarrow> EncryptedOrder list" where
  "getPendingOrders os = sort_key eo_createdAt (filter (\<lambda>x. eo_status x = EO_PENDING) os)"

definition getEncryptedOrdersByStatus :: "EncryptedOrderStatus \<Rightarrow> EncryptedOrder list \<Rightarrow> EncryptedOrder list" where
  "getEncryptedOrdersByStatus st os = sort_key (\<lambda>x. - eo_createdAt x) (filter (\<lambda>x. eo_status x = st) os)"

text \<open>In descending order the database puts missing times first.\<close>

definition getMatchedOrders :: "uuid option \<Rightarrow> EncryptedOrder list \<Rightarrow> EncryptedOrder list" where
  "getMatchedOrders pseudonym os =
     (let found = filter (\<lambda>x. eo_status x = EO_MATCHED \<and> (case pseudonym of None \<Rightarrow> True | Some i \<Rightarrow> eo_pseudonymousId x = i)) os
      in filter (\<lambda>x. eo_matchedAt x = None) found @
         sort_key (\<lambda>x. - the (eo_matchedAt x)) (filter (\<lambda>x. eo_matchedAt x \<noteq> None) found))"

definition getOrdersByDateRange :: "timestamp \<Rightarrow> timestamp \<Rightarrow> EncryptedOrder list \<Rightarrow> EncryptedOrder list" where
  "getOrdersByDateRange startDate endDate os =
     sort_key (\<lambda>x. - eo_createdAt x) (filter (\<lambda>x. startDate \<le> eo_createdAt x \<and> eo_createdAt x \<le> endDate) os)"

record EncryptedOrderResponseDto =
  er_id :: uuid
  er_pseudonymousId :: uuid
  er_orderHash :: string
  er_orderMetadata :: "string option"
  er_status :: EncryptedOrderStatus
  er_createdAt :: timestamp

definition orderResponse :: "EncryptedOrder \<Rightarrow> bool \<Rightarrow> EncryptedOrderResponseDto" where
  "orderResponse x includeEncrypted = \<lparr>er_id = eo_id x, er_pseudonymousId = eo_pseudonymousId x, er_orderHash = eo_orderHash x,
     er_orderMetadata = eo_orderMetadata x, er_status = eo_status x, er_createdAt = eo_createdAt x\<rparr>"

definition verifyOrderIntegrity :: "uuid \<Rightarrow> string \<Rightarrow> EncryptedOrder list \<Rightarrow> bool result" where
  "verifyOrderIntegrity i expectedHash os =
     (case getOrderById i os of None \<Rightarrow> Inl (NotFoundException ''Order not found'') | Some x \<Rightarrow> Inr (eo_orderHash x = expectedHash))"

text \<open>The two updates are not one transaction: the first one stays when the second throws.\<close>

definition matchOrder :: "uuid \<Rightarrow> uuid \<Rightarrow> string \<Rightarrow> timestamp \<Rightarrow> EncryptedOrder list \<Rightarrow> EncryptedOrder result \<times> EncryptedOrder list" where
  "matchOrder i j details now os =
     (case updateEncryptedOrder i \<lparr>eu_status = Some EO_MATCHED, eu_linkedOrderId = Some j, eu_encryptedMatchDetails = Some details\<rparr> now os of
        Inl e \<Rightarrow> (Inl e, os)
      | Inr (x, os1) \<Rightarrow>
          (case updateOrderStatus j EO_MATCHED now os1 of Inl e \<Rightarrow> (Inl e, os1) | Inr (_, os2) \<Rightarrow> (Inr x, os2)))"

record execution_stats =
  xs_totalOrders :: nat
  xs_pendingOrders :: nat
  xs_matchedOrders :: nat
  xs_executedOrders :: nat
  xs_cancelledOrders :: nat

definition getExecutionStats :: "EncryptedOrder list \<Rightarrow> execution_stats" where
  "getExecutionStats os =
     (let n = (\<lambda>st. length (filter (\<lambda>x. eo_status x = st) os))
      in \<lparr>xs_totalOrders = length os, xs_pendingOrders = n EO_PENDING, xs_matchedOrders = n EO_MATCHED,
          xs_executedOrders = n EO_EXECUTED, xs_cancelledOrders = n EO_CANCELLED\<rparr>)"

section \<open>Balance proofs\<close>

record ZKProof =
  zp_commitment :: string
  zp_proof :: string
  zp_minAmount :: string
  zp_timestamp :: timestamp
  zp_validity :: nat

text \<open>\<open>BigInt(text)\<close>, which may throw, and the text of a big integer.\<close>

record big_ints =
  bi_read :: "string \<Rightarrow> int option"
  bi_text :: "int \<Rightarrow> string"

definition createBalanceCommitment :: "(string \<Rightarrow> string) \<Rightarrow> string \<Rightarrow> string \<Rightarrow> string \<times> string" where
  "createBalanceCommitment sha256 balance nonce = (sha256 (balance @ '':'' @ nonce), nonce)"

definition generateBalanceProof ::
  "(string \<Rightarrow> string) \<Rightarrow> big_ints \<Rightarrow> int \<Rightarrow> string \<Rightarrow> string \<Rightarrow> string \<Rightarrow> string \<Rightarrow> timestamp \<Rightarrow> ZKProof result" where
  "generateBalanceProof sha256 b witness balance coefficient minAmount challenge now =
     (case (bi_read b balance, bi_read b minAmount, bi_read b coefficient, bi_read b challenge) of
        (Some balanceNum, Some minNum, Some coeffNum, Some challengeNum) \<Rightarrow>
          if balanceNum < minNum then Inl (BadRequestException ''Balance is insufficient to generate valid proof'')
          else Inr \<lparr>zp_commitment = sha256 (bi_text b coeffNum @ '':'' @ bi_text b witness),
                 zp_proof = bi_text b (witness + challengeNum * (balanceNum - minNum)), zp_minAmount = minAmount,
                 zp_timestamp = now, zp_validity = 3600\<rparr>
      | _ \<Rightarrow> Inl (JsError ''Proof generation failed''))"

text \<open>The commitment the verifier computes is not used.\<close>

definition verifyBalanceProof :: "big_ints \<Rightarrow> string \<Rightarrow> string \<Rightarrow> string \<Rightarrow> string \<Rightarrow> string \<Rightarrow> bool" where
  "verifyBalanceProof b commitment proof minAmount challenge coefficient \<longleftrightarrow>
     bi_read b proof \<noteq> None \<and> bi_read b challenge \<noteq> None \<and> bi_read b coefficient \<noteq> None \<and> length commitment = 64"

definition createRangeProof :: "(string \<Rightarrow> string) \<Rightarrow> big_ints \<Rightarrow> string \<Rightarrow> string \<Rightarrow> string \<Rightarrow> string \<Rightarrow> string result" where
  "createRangeProof sha256 b nonce balance minRange maxRange =
     (case (bi_read b balance, bi_read b minRange, bi_read b maxRange) of
        (Some x, Some lo, Some hi) \<Rightarrow>
          if x < lo \<or> x > hi then Inl (BadRequestException ''Balance is outside the specified range'')
          else Inr (sha256 (balance @ '':'' @ nonce @ '':range''))
      | _ \<Rightarrow> Inl (JsError ''Cannot convert to a BigInt''))"

definition hexDigit :: "char \<Rightarrow> bool" where
  "hexDigit c \<longleftrightarrow> c \<in> set ''0123456789abcdef''"

definition verifyRangeProof :: "big_ints \<Rightarrow> string \<Rightarrow> string \<Rightarrow> string \<Rightarrow> bool" where
  "verifyRangeProof b proof minRange maxRange =
     (length proof = 64 \<and> list_all hexDigit proof \<and>
      (case (bi_read b minRange, bi_read b maxRange) of (Some lo, Some hi) \<Rightarrow> lo < hi \<and> lo \<ge> 0 | _ \<Rightarrow> False))"

text \<open>The set is only counted.\<close>

definition createMembershipProof :: "(string \<Rightarrow> string) \<Rightarrow> string \<Rightarrow> string list \<Rightarrow> string \<times> nat" where
  "createMembershipProof sha256 secret members = (sha256 (secret @ '':membership''), length members)"

definition createNonZeroProof :: "(string \<Rightarrow> string) \<Rightarrow> big_ints \<Rightarrow> string \<Rightarrow> timestamp \<Rightarrow> string result" where
  "createNonZeroProof sha256 b balance now =
     (case bi_read b balance of
        None \<Rightarrow> Inl (JsError ''Cannot convert to a BigInt'')
      | Some x \<Rightarrow> if x \<le> 0 then Inl (BadRequestException ''Balance must be positive to generate non-zero proof'')
                  else Inr (sha256 (balance @ '':nonzero:'' @ bi_text b now)))"

definition createTimeLockedProof ::
  "(string \<Rightarrow> string) \<Rightarrow> big_ints \<Rightarrow> string \<Rightarrow> string \<Rightarrow> int \<Rightarrow> timestamp \<Rightarrow> (string \<times> timestamp \<times> timestamp) result" where
  "createTimeLockedProof sha256 b balance minAmount validitySeconds now =
     (case (bi_read b balance, bi_read b minAmount) of
        (Some x, Some lo) \<Rightarrow>
          if x < lo then Inl (BadRequestException ''Insufficient balance for proof'')
          else let expiresAt = now + validitySeconds * 1000
               in Inr (sha256 (balance @ '':'' @ minAmount @ '':'' @ bi_text b now @ '':'' @ bi_text b expiresAt), now, expiresAt)
      | _ \<Rightarrow> Inl (JsError ''Cannot convert to a BigInt''))"

definition verifyTimeLockedProof :: "string \<Rightarrow> timestamp \<Rightarrow> timestamp \<Rightarrow> timestamp \<Rightarrow> bool" where
  "verifyTimeLockedProof proof issuedAt expiresAt now \<longleftrightarrow> length proof = 64 \<and> issuedAt \<le> now \<and> now < expiresAt"

section \<open>The audit of private actions\<close>

datatype ComplianceFlag =
    SUSPICIOUS_VOLUME | PATTERN_MATCH | RAPID_ORDERS | SUSPICIOUS_TIMING | GEOGRAPHIC_ANOMALY | HIGH_FREQUENCY
  | STRUCTURING | SANCTION_HIT

datatype PrivacyAuditAction =
    ORDER_PLACED | ORDER_MATCHED | ORDER_CANCELLED | BALANCE_VERIFIED | PROFILE_CREATED | PROFILE_UPDATED | KEY_ROTATED
  | AUDIT_ACCESSED

datatype risk_level = RiskLow | RiskMedium | RiskHigh | RiskCritical

record access_entry =
  ac_accessedBy :: string
  ac_accessedAt :: timestamp
  ac_reason :: string
  ac_approved :: bool

record PrivacyAuditLog =
  pa_id :: uuid
  pa_pseudonymousIdHash :: string
  pa_action :: PrivacyAuditAction
  pa_encryptedDetails :: string
  pa_complianceFlags :: "ComplianceFlag list"
  pa_riskAssessment :: "(real \<times> risk_level) option"
  pa_accessLog :: "access_entry list"
  pa_accessCount :: nat
  pa_createdAt :: timestamp

record CreatePrivacyAuditLogDto =
  cl_pseudonymousIdHash :: string
  cl_action :: PrivacyAuditAction
  cl_encryptedDetails :: string
  cl_complianceFlags :: "ComplianceFlag list option"
  cl_riskAssessment :: "(real \<times> risk_level) option"

definition createAuditLog :: "uuid \<Rightarrow> timestamp \<Rightarrow> CreatePrivacyAuditLogDto \<Rightarrow> PrivacyAuditLog list \<Rightarrow> PrivacyAuditLog list" where
  "createAuditLog newId now dto logs =
     save_row pa_id \<lparr>pa_id = newId, pa_pseudonymousIdHash = cl_pseudonymousIdHash dto, pa_action = cl_action dto,
       pa_encryptedDetails = cl_encryptedDetails dto,
       pa_complianceFlags = (case cl_complianceFlags dto of None \<Rightarrow> [] | Some fs \<Rightarrow> fs),
       pa_riskAssessment = cl_riskAssessment dto, pa_accessLog = [], pa_accessCount = 0, pa_createdAt = now\<rparr> logs"

definition getAuditLogsByUser :: "string \<Rightarrow> PrivacyAuditAction option \<Rightarrow> PrivacyAuditLog list \<Rightarrow> PrivacyAuditLog list" where
  "getAuditLogsByUser h action logs = sort_key (\<lambda>l. - pa_createdAt l)
     (filter (\<lambda>l. pa_pseudonymousIdHash l = h \<and> (case action of None \<Rightarrow> True | Some a \<Rightarrow> pa_action l = a)) logs)"

record flag_input =
  fi_volume :: "real option"
  fi_previousOrders :: "nat option"
  fi_timeSinceLastOrder :: "int option"
  fi_pattern :: "string option"
  fi_maxNormalAmount :: "real option"

definition isKnownSuspiciousPattern :: "string \<Rightarrow> bool" where
  "isKnownSuspiciousPattern pattern =
     list_ex (\<lambda>p. containsText p (lowerCase pattern)) [''structuring'', ''round-tripping'', ''wash-trading'', ''pump-and-dump'']"

definition detectComplianceFlags :: "nat \<Rightarrow> flag_input \<Rightarrow> ComplianceFlag list" where
  "detectComplianceFlags hour d =
     (case (fi_volume d, fi_maxNormalAmount d) of
        (Some v, Some m) \<Rightarrow> if v \<noteq> 0 \<and> m \<noteq> 0 \<and> v > m * 10 then [SUSPICIOUS_VOLUME] else []
      | _ \<Rightarrow> []) @
     (case fi_timeSinceLastOrder d of None \<Rightarrow> [] | Some t \<Rightarrow> if t < 1000 then [RAPID_ORDERS] else []) @
     (case fi_previousOrders d of None \<Rightarrow> [] | Some n \<Rightarrow> if n > 100 then [HIGH_FREQUENCY] else []) @
     (case nonEmpty (fi_pattern d) of None \<Rightarrow> [] | Some p \<Rightarrow> if isKnownSuspiciousPattern p then [PATTERN_MATCH] else []) @
     (if 2 \<le> hour \<and> hour \<le> 4 then [SUSPICIOUS_TIMING] else [])"

fun flagWeights :: "ComplianceFlag \<Rightarrow> real" where
  "flagWeights SUSPICIOUS_VOLUME = 20"
| "flagWeights PATTERN_MATCH = 25"
| "flagWeights RAPID_ORDERS = 15"
| "flagWeights SUSPICIOUS_TIMING = 10"
| "flagWeights GEOGRAPHIC_ANOMALY = 20"
| "flagWeights HIGH_FREQUENCY = 18"
| "flagWeights STRUCTURING = 30"
| "flagWeights SANCTION_HIT = 100"

definition calculateRiskScore :: "ComplianceFlag list \<Rightarrow> bool \<Rightarrow> nat \<Rightarrow> real" where
  "calculateRiskScore flags isNewAccount previousViolations =
     min (sum_list (map flagWeights flags) + (if isNewAccount then 15 else 0) + real previousViolations * 10) 100"

definition getRiskLevel :: "real \<Rightarrow> risk_level" where
  "getRiskLevel score = (if score \<ge> 80 then RiskCritical else if score \<ge> 60 then RiskHigh
     else if score \<ge> 40 then RiskMedium else RiskLow)"

definition logAuditAccess :: "uuid \<Rightarrow> access_entry \<Rightarrow> PrivacyAuditLog list \<Rightarrow> PrivacyAuditLog list result" where
  "logAuditAccess i access logs =
     (case row_of pa_id i logs of
        None \<Rightarrow> Inl (NotFoundException ''Audit log not found'')
      | Some l \<Rightarrow>
          let entries = pa_accessLog l @ [access]
          in Inr (save_row pa_id (l\<lparr>pa_accessLog := (if length entries > 100 then tl entries else entries),
               pa_accessCount := pa_accessCount l + 1\<rparr>) logs))"

definition getHighRiskLogs :: "risk_level \<Rightarrow> PrivacyAuditLog list \<Rightarrow> PrivacyAuditLog list" where
  "getHighRiskLogs level logs = filter (\<lambda>l. case pa_riskAssessment l of
       None \<Rightarrow> False
     | Some (_, r) \<Rightarrow> r = RiskCritical \<or> level \<noteq> RiskCritical \<and> r = RiskHigh) (sort_key (\<lambda>l. - pa_createdAt l) logs)"

definition getLogsByComplianceFlag :: "ComplianceFlag \<Rightarrow> PrivacyAuditLog list \<Rightarrow> PrivacyAuditLog list" where
  "getLogsByComplianceFlag flag logs = filter (\<lambda>l. flag \<in> set (pa_complianceFlags l)) (sort_key (\<lambda>l. - pa_createdAt l) logs)"

record privacy_report =
  py_totalAudits :: nat
  py_highRiskCount :: nat
  py_criticalRiskCount :: nat
  py_flagDistribution :: "(ComplianceFlag \<times> nat) list"
  py_topFlags :: "(ComplianceFlag \<times> nat) list"

definition generateComplianceReport :: "timestamp \<Rightarrow> timestamp \<Rightarrow> PrivacyAuditLog list \<Rightarrow> privacy_report" where
  "generateComplianceReport start end1 logs =
     (let found = sort_key (\<lambda>l. - pa_createdAt l) (filter (\<lambda>l. start \<le> pa_createdAt l \<and> pa_createdAt l \<le> end1) logs);
          flags = concat (map pa_complianceFlags found);
          distribution = map (\<lambda>f. (f, count_list flags f)) (setOrder flags)
      in \<lparr>py_totalAudits = length found,
          py_highRiskCount = length (filter (\<lambda>l. map_option snd (pa_riskAssessment l) = Some RiskHigh) found),
          py_criticalRiskCount = length (filter (\<lambda>l. map_option snd (pa_riskAssessment l) = Some RiskCritical) found),
          py_flagDistribution = distribution, py_topFlags = take 5 (sort_key (\<lambda>(_, n). - int n) distribution)\<rparr>)"

definition getAuditLogsByAction :: "PrivacyAuditAction \<Rightarrow> PrivacyAuditLog list \<Rightarrow> PrivacyAuditLog list" where
  "getAuditLogsByAction action logs = sort_key (\<lambda>l. - pa_createdAt l) (filter (\<lambda>l. pa_action l = action) logs)"

definition exportAuditLogs :: "uuid \<Rightarrow> timestamp \<Rightarrow> string option \<Rightarrow> PrivacyAuditLog list \<Rightarrow> uuid \<times> nat \<times> timestamp" where
  "exportAuditLogs newId now h logs =
     (newId, length (case nonEmpty h of None \<Rightarrow> logs | Some x \<Rightarrow> getAuditLogsByUser x None logs), now)"

record PrivacyAuditLogResponseDto =
  ar_id :: uuid
  ar_action :: PrivacyAuditAction
  ar_complianceFlags :: "ComplianceFlag list"
  ar_riskAssessment :: "(real \<times> risk_level) option"
  ar_accessCount :: nat
  ar_createdAt :: timestamp

definition auditResponse :: "PrivacyAuditLog \<Rightarrow> PrivacyAuditLogResponseDto" where
  "auditResponse l = \<lparr>ar_id = pa_id l, ar_action = pa_action l, ar_complianceFlags = pa_complianceFlags l,
     ar_riskAssessment = pa_riskAssessment l, ar_accessCount = pa_accessCount l, ar_createdAt = pa_createdAt l\<rparr>"

text \<open>
  The criterion is \<open>{ $lt: cutoff }\<close>, the syntax of another database: which rows it selects is up to the
  mapper, which may also refuse it, so it is an argument.
\<close>

definition deleteOldAuditLogs ::
  "(timestamp \<Rightarrow> (timestamp \<Rightarrow> bool) option) \<Rightarrow> timestamp \<Rightarrow> int \<Rightarrow> PrivacyAuditLog list \<Rightarrow> (nat \<times> PrivacyAuditLog list) result" where
  "deleteOldAuditLogs criterion now olderThanDays logs =
     (case criterion (now - olderThanDays * 86400000) of
        None \<Rightarrow> Inl (JsError ''refused criterion'')
      | Some old \<Rightarrow> Inr (length (filter (\<lambda>l. old (pa_createdAt l)) logs), filter (\<lambda>l. \<not> old (pa_createdAt l)) logs))"

section \<open>What was encrypted can be read again\<close>

text \<open>What node's crypto promises: sealed texts open with what they were sealed with, keys have 32 bytes, base64 can be read back.\<close>

definition crypto_ok :: "('b, 'p) crypto \<Rightarrow> bool" where
  "crypto_ok c \<longleftrightarrow>
     (\<forall>key nonce p ct tag. cy_length c key = 32 \<longrightarrow> cy_seal c key nonce p = (ct, tag) \<longrightarrow> cy_open c key nonce tag ct = Some p) \<and>
     (\<forall>b. cy_fromBase64 c (cy_toBase64 c b) = b) \<and> (\<forall>pw salt n. cy_length c (cy_pbkdf2 c pw salt n) = 32)"

text \<open>
  What is encrypted under a password can be read again with it: encryption succeeds, and decryption
  with the salt, nonce and tag it returns gives the text back, whatever salt and nonce were drawn.
\<close>

theorem password_encryption_roundtrip:
  assumes "crypto_ok c"
  shows "\<exists>s. encryptWithPassword c salt nonce plaintext password = Inr s \<and>
    decryptWithPassword c (sd_ciphertext s) password (sd_salt s) (sd_nonce s) (sd_tag s) = Inr plaintext"
  using assms
  by (auto simp: encryptWithPassword_def decryptWithPassword_def encrypt_def decrypt_def deriveKey_def crypto_ok_def
      case_prod_beta split: option.split)

text \<open>A cipher with the promised laws: bytes are texts, keys are padded to 32 characters, the text is sent as it is.\<close>

definition ex_crypto :: "(string, string) crypto" where
  "ex_crypto = \<lparr>cy_seal = \<lambda>key nonce p. (p, take 4 key @ nonce),
     cy_open = \<lambda>key nonce tag ct. if tag = take 4 key @ nonce then Some ct else None, cy_length = length,
     cy_toBase64 = \<lambda>b. b, cy_fromBase64 = \<lambda>t. t, cy_pbkdf2 = \<lambda>pw salt n. take 32 (pw @ salt @ replicate 32 CHR ''0'')\<rparr>"

lemma ex_crypto_ok: "crypto_ok ex_crypto"
  by (auto simp: crypto_ok_def ex_crypto_def)

theorem password_encryption_roundtrip_witness:
  "crypto_ok ex_crypto \<and> (\<exists>s. encryptWithPassword ex_crypto ''salt'' ''nonce'' ''buy 3'' ''secret'' = Inr s \<and>
    decryptWithPassword ex_crypto (sd_ciphertext s) ''secret'' (sd_salt s) (sd_nonce s) (sd_tag s) = Inr ''buy 3'')"
  using ex_crypto_ok password_encryption_roundtrip [OF ex_crypto_ok] by simp

lemma wrong_key_length_is_refused:
  "cy_length c key \<noteq> 32 \<Longrightarrow> encrypt c nonce p key = Inl (BadRequestException ''Key must be 32 bytes (256 bits)'')"
  by (simp add: encrypt_def)

section \<open>Pseudonyms\<close>

definition profiles_inv :: "PrivacyProfile list \<Rightarrow> bool" where
  "profiles_inv ps \<longleftrightarrow> keyed pp_id ps \<and> keyed pp_userId ps \<and> keyed pp_pseudonymousId ps"

lemma drawPseudonym_fresh: "drawPseudonym drawn ps = Some i \<Longrightarrow> i \<notin> pp_pseudonymousId ` set ps"
  by (induction drawn) (auto simp: row_of_None_iff split: if_splits)

text \<open>The loop ends: among more different ids than there are profiles one is free.\<close>

lemma drawPseudonym_ends:
  assumes "length ps < card (set drawn)"
  shows "\<exists>i. drawPseudonym drawn ps = Some i"
proof -
  have "card (pp_pseudonymousId ` set ps) \<le> length ps"
    using card_image_le [of "set ps" pp_pseudonymousId] card_length [of ps] by simp
  then have "\<not> set drawn \<subseteq> pp_pseudonymousId ` set ps"
    using assms card_mono [of "pp_pseudonymousId ` set ps" "set drawn"] by auto
  then obtain i where "i \<in> set drawn" "row_of pp_pseudonymousId i ps = None" by (auto simp: row_of_None_iff)
  then show ?thesis by (induction drawn) auto
qed

lemma keyed_save_new: "keyed key ps \<Longrightarrow> key r \<notin> key ` set ps \<Longrightarrow> row_of k (k r) ps = None \<Longrightarrow> keyed key (save_row k r ps)"
  by (auto simp: keyed_def save_row_def list_ex_iff row_of_None_iff image_iff)

lemma keyed_save_change:
  assumes "keyed k ps" and "p \<in> set ps" and "k p' = k p" and "key p' = key p" and "keyed key ps"
  shows "keyed key (save_row k p' ps)"
proof -
  have "map key (map (\<lambda>x. if k x = k p' then p' else x) ps) = map key ps"
    using assms by (auto simp: keyed_def distinct_map inj_on_def)
  moreover have "list_ex (\<lambda>x. k x = k p') ps" using assms(2,3) by (auto simp: list_ex_iff)
  ultimately show ?thesis using assms(5) by (simp add: save_row_def keyed_def del: map_map)
qed

lemma changeProfile_inv:
  assumes "profiles_inv ps" and "changeProfile i f ps = Inr ps'"
    and "\<And>p. pp_id (f p) = pp_id p \<and> pp_userId (f p) = pp_userId p \<and> pp_pseudonymousId (f p) = pp_pseudonymousId p"
  shows "profiles_inv ps'"
proof -
  obtain p where p: "row_of pp_pseudonymousId i ps = Some p" and ps': "ps' = save_row pp_id (f p) ps"
    using assms(2) by (auto simp: changeProfile_def getProfileByPseudonymousId_def split: option.splits)
  then have "p \<in> set ps" by (auto dest: row_of_Some_in)
  with assms(1,3) show ?thesis
    unfolding profiles_inv_def ps' by (intro conjI keyed_save_change [where p = p]) auto
qed

datatype profile_request =
    CreateProfile "uuid list" timestamp uuid CreatePrivacyProfileDto
  | UpdateProfile uuid UpdatePrivacyProfileDto
  | EnableAnonymous uuid
  | DisableAnonymous uuid
  | CountOrder "real \<Rightarrow> real \<Rightarrow> real" uuid real
  | RotateKey uuid string
  | DeleteProfile uuid

fun profileRequest :: "profile_request \<Rightarrow> PrivacyProfile list \<Rightarrow> PrivacyProfile list" where
  "profileRequest (CreateProfile drawn now u dto) ps =
     (case createPrivacyProfile (unusedId (map pp_id ps)) drawn now u dto ps of Some (Inr (_, ps')) \<Rightarrow> ps' | _ \<Rightarrow> ps)"
| "profileRequest (UpdateProfile i dto) ps = commit (updatePrivacyProfile i dto) ps"
| "profileRequest (EnableAnonymous i) ps = commit (enableAnonymousMode i) ps"
| "profileRequest (DisableAnonymous i) ps = commit (disableAnonymousMode i) ps"
| "profileRequest (CountOrder add i x) ps = commit (incrementOrderCount add i x) ps"
| "profileRequest (RotateKey i k) ps = commit (rotatePublicKey i k) ps"
| "profileRequest (DeleteProfile i) ps = commit (deleteProfile i) ps"

lemma createPrivacyProfile_inv:
  assumes inv: "profiles_inv ps" and "createPrivacyProfile (unusedId (map pp_id ps)) drawn now u dto ps = Some (Inr (p, ps'))"
  shows "profiles_inv ps'"
proof -
  have p: "ps' = save_row pp_id p ps" "pp_id p = unusedId (map pp_id ps)" "row_of pp_userId (pp_userId p) ps = None"
    "drawPseudonym drawn ps = Some (pp_pseudonymousId p)"
    using assms(2) by (auto simp: createPrivacyProfile_def Let_def split: if_splits option.splits)
  have "pp_id p \<notin> pp_id ` set ps" using unusedId_fresh [of "map pp_id ps"] by (simp add: p(2))
  moreover have "pp_pseudonymousId p \<notin> pp_pseudonymousId ` set ps" using drawPseudonym_fresh [OF p(4)] .
  ultimately show ?thesis
    using inv p(3) unfolding profiles_inv_def p(1) by (auto intro!: keyed_save_new simp: row_of_None_iff)
qed

lemma rotatePublicKey_change: "rotatePublicKey i k ps = Inr ps' \<Longrightarrow> changeProfile i (\<lambda>p. p\<lparr>pp_publicKey := k\<rparr>) ps = Inr ps'"
  by (auto simp: rotatePublicKey_def changeProfile_def split: if_splits)

lemma deleteProfile_inv: "profiles_inv ps \<Longrightarrow> deleteProfile i ps = Inr ps' \<Longrightarrow> profiles_inv ps'"
  by (auto simp: deleteProfile_def getProfileByPseudonymousId_def profiles_inv_def keyed_def distinct_map_filter split: option.splits)

lemma changed_profiles_inv:
  assumes "profiles_inv ps"
    and "\<And>p. pp_id (f p) = pp_id p \<and> pp_userId (f p) = pp_userId p \<and> pp_pseudonymousId (f p) = pp_pseudonymousId p"
  shows "profiles_inv (commit (changeProfile i f) ps)"
  by (rule commit_keeps [where P = profiles_inv, OF _ assms(1)]) (rule changeProfile_inv [OF assms(1) _ assms(2)])

lemma profile_changes:
  assumes "profiles_inv ps"
  shows "profiles_inv (commit (updatePrivacyProfile i dto) ps)" and "profiles_inv (commit (enableAnonymousMode i) ps)"
    and "profiles_inv (commit (disableAnonymousMode i) ps)" and "profiles_inv (commit (incrementOrderCount add i x) ps)"
  unfolding updatePrivacyProfile_def enableAnonymousMode_def disableAnonymousMode_def incrementOrderCount_def
  by (rule changed_profiles_inv [OF assms], simp)+

interpretation profile_loop: event_loop profileRequest profiles_inv
proof
  fix ps r
  assume inv: "profiles_inv ps"
  show "profiles_inv (profileRequest r ps)"
  proof (cases r)
    case (CreateProfile drawn now u dto)
    then show ?thesis
      using inv createPrivacyProfile_inv [OF inv] by (simp split: option.split sum.split prod.split)
  next
    case (RotateKey i k)
    then show ?thesis
      using changeProfile_inv [OF inv rotatePublicKey_change] by (auto intro: commit_keeps [where P = profiles_inv, OF _ inv])
  next
    case (DeleteProfile i)
    then show ?thesis using deleteProfile_inv [OF inv] by (auto intro: commit_keeps [where P = profiles_inv, OF _ inv])
  qed (use inv in \<open>simp_all add: profile_changes\<close>)
qed

text \<open>
  Pseudonyms stay unique: after any sequence of profile requests no two profiles share a pseudonym, and
  no user has two, so a pseudonym leads to at most one user.
\<close>

theorem pseudonyms_stay_unique:
  "let ps = fold profileRequest rs []
   in distinct (map pp_pseudonymousId ps) \<and> distinct (map pp_userId ps) \<and> distinct (map pp_id ps)"
  using profile_loop.run_inv [of "[]" rs] by (simp add: profiles_inv_def keyed_def)

section \<open>Orders, proofs and the audit\<close>

text \<open>What an order is answered with never holds the encrypted details, not even when they are asked for.\<close>

lemma response_ignores_request_for_details:
  "orderResponse (x\<lparr>eo_encryptedOrderDetails := d, eo_encryptionNonce := n, eo_encryptedMatchDetails := m\<rparr>) b = orderResponse x False"
  by (simp add: orderResponse_def)

lemma no_order_is_missing_from_the_lists:
  "set (getMatchedOrders None os) = {x \<in> set os. eo_status x = EO_MATCHED} \<and>
   length (getMatchedOrders None os) = xs_matchedOrders (getExecutionStats os)"
proof -
  have "length (filter (\<lambda>x. eo_matchedAt x = None) ys) + length (filter (\<lambda>x. eo_matchedAt x \<noteq> None) ys) = length ys" for ys
    by (rule sum_length_filter_compl)
  then show ?thesis by (auto simp: getMatchedOrders_def getExecutionStats_def Let_def simp del: filter_filter)
qed

lemma executed_order_is_not_cancelled:
  "row_of eo_id i os = Some x \<Longrightarrow> eo_status x = EO_EXECUTED \<Longrightarrow>
     cancelEncryptedOrder i os = Inl (BadRequestException ''Cannot cancel executed order'')"
  by (simp add: cancelEncryptedOrder_def changeOrder_def getOrderById_def)

text \<open>No status is final for an update: a cancelled or executed order can be matched.\<close>

lemma finished_order_can_be_matched:
  assumes "row_of eo_id i os = Some x" and "row_of eo_id j os = Some y" and "i \<noteq> j"
  shows "\<exists>os'. matchOrder i j d now os = (Inr (x\<lparr>eo_status := EO_MATCHED, eo_linkedOrderId := Some j,
     eo_encryptedMatchDetails := (if d = [] then eo_encryptedMatchDetails x else Some d),
     eo_matchedAt := (if d = [] then eo_matchedAt x else Some now)\<rparr>), os')"
proof -
  have "eo_id x = i" using assms(1) by (auto dest: row_of_Some_in)
  with assms show ?thesis
    by (cases d) (auto simp: matchOrder_def updateEncryptedOrder_def updateOrderStatus_def changeOrder_def getOrderById_def
        override_def nonEmpty_def Let_def row_of_save)
qed

text \<open>An order matched with one that does not exist stays matched, although the call fails.\<close>

lemma failed_match_leaves_order_matched:
  assumes "row_of eo_id i os = Some x" and "row_of eo_id j os = None"
  shows "fst (matchOrder i j d now os) = Inl (NotFoundException ''Order not found'') \<and>
    map_option eo_status (row_of eo_id i (snd (matchOrder i j d now os))) = Some EO_MATCHED"
proof -
  have "eo_id x = i" using assms(1) by (auto dest: row_of_Some_in)
  moreover have "i \<noteq> j" using assms by auto
  ultimately show ?thesis
    using assms by (cases d) (auto simp: matchOrder_def updateEncryptedOrder_def updateOrderStatus_def changeOrder_def
        getOrderById_def override_def nonEmpty_def Let_def row_of_save)
qed

text \<open>Any 64 characters prove any balance.\<close>

lemma forged_proof_is_accepted:
  "bi_read b ''0'' = Some 0 \<Longrightarrow> length commitment = 64 \<Longrightarrow> verifyBalanceProof b commitment ''0'' minAmount ''0'' ''0''"
  by (simp add: verifyBalanceProof_def)

lemma honest_proof_is_accepted:
  assumes "generateBalanceProof sha256 b w balance k lo ch now = Inr z" and "\<And>x. length (sha256 x) = 64"
    and "\<And>n. bi_read b (bi_text b n) = Some n"
  shows "verifyBalanceProof b (zp_commitment z) (zp_proof z) lo ch k \<and> the (bi_read b lo) \<le> the (bi_read b balance)"
  using assms by (auto simp: generateBalanceProof_def verifyBalanceProof_def split: option.splits if_splits)

lemma flagWeights_nonneg: "0 \<le> flagWeights f"
  by (cases f) simp_all

lemma risk_score_bounds: "0 \<le> calculateRiskScore flags new n \<and> calculateRiskScore flags new n \<le> 100"
  by (auto simp: calculateRiskScore_def intro!: add_nonneg_nonneg sum_list_nonneg flagWeights_nonneg)

lemma sanction_hit_is_critical:
  assumes "SANCTION_HIT \<in> set flags"
  shows "getRiskLevel (calculateRiskScore flags new n) = RiskCritical"
proof -
  have "flagWeights SANCTION_HIT \<le> sum_list (map flagWeights flags)"
    using assms by (intro member_le_sum_list_nonneg) (auto simp: flagWeights_nonneg)
  then show ?thesis by (simp add: getRiskLevel_def calculateRiskScore_def)
qed

definition accesses :: "uuid \<Rightarrow> access_entry list \<Rightarrow> PrivacyAuditLog list \<Rightarrow> PrivacyAuditLog list" where
  "accesses i = fold (\<lambda>a. commit (logAuditAccess i a))"

lemma lastn_step:
  "0 < n \<Longrightarrow> (if n < length (drop (length xs - n) xs @ [x]) then tl (drop (length xs - n) xs @ [x])
    else drop (length xs - n) xs @ [x]) = drop (length (xs @ [x]) - n) (xs @ [x])"
proof (cases "length xs < n")
  case False
  moreover assume "0 < n"
  ultimately have "tl (drop (length xs - n) (xs @ [x])) = drop (length (xs @ [x]) - n) (xs @ [x])"
    by (simp add: tl_drop drop_Suc Suc_diff_le)
  then show ?thesis using False \<open>0 < n\<close> by simp
qed auto

text \<open>The access log of an audit record keeps the last hundred accesses and counts all of them.\<close>

lemma access_log_keeps_the_last_hundred:
  assumes "row_of pa_id i logs = Some l" and "pa_accessLog l = []"
  shows "row_of pa_id i (accesses i xs logs) =
    Some (l\<lparr>pa_accessLog := drop (length xs - 100) xs, pa_accessCount := pa_accessCount l + length xs\<rparr>)"
proof (induction xs rule: rev_induct)
  case Nil
  then show ?case using assms by (simp add: accesses_def)
next
  case (snoc x xs)
  have "pa_id l = i" using assms(1) by (auto dest: row_of_Some_in)
  with snoc lastn_step [of 100 xs x] show ?case
    by (simp add: accesses_def commit_def logAuditAccess_def Let_def row_of_save)
qed

end
