(* ===== verification/Sharding.thy ===== *)
theory Sharding
  imports Prelude "HOL-Library.AList" "HOL-Library.Multiset"
begin

text \<open>
  Sharded tables, \<open>database/services/database-sharding.service.ts\<close>: the strategies that route a record
  to a shard, the hash ring with its binary search, queries and transactions over several shards, migration, and
  the rebalancing of misplaced records.

  A shard is a database with one table for each entity. SHA-256, the calendar and \<open>JSON.stringify\<close> are arguments;
  so is whether a call to a database succeeds. Backups and restores copy files and are left out.
\<close>

section \<open>Data\<close>

datatype entity = TradeEntity | UserBalanceEntity | VirtualAssetEntity

text \<open>The columns that routing reads; \<open>sr_rest\<close> stands for the others.\<close>

record shard_row =
  sr_id :: "nat option"
  sr_userId :: "nat option"
  sr_timestamp :: "timestamp option"
  sr_createdAt :: "timestamp option"
  sr_asset :: "string option"
  sr_symbol :: "string option"
  sr_rest :: string

type_synonym shard_db = "entity \<Rightarrow> shard_row list"

record ShardConfig =
  sc_id :: string
  sc_host :: string
  sc_port :: nat
  sc_database :: string
  sc_username :: string
  sc_password :: string
  sc_weight :: real
  sc_isPrimary :: bool
  sc_replicas :: "string list option"

record QueryPlan =
  qp_shards :: "string option list"
  qp_strategy :: string
  qp_parallel :: bool
  qp_aggregationRequired :: bool

type_synonym shards = "(string \<times> shard_db) list"
type_synonym hash_ring = "(nat \<times> string) list"

record sharding =
  sh_shards :: shards
  sh_configs :: "(string \<times> ShardConfig) list"
  sh_ring :: hash_ring

text \<open>\<open>se_hash\<close> is the number the first eight hexadecimal digits of the SHA-256 hash give.\<close>

record shard_env =
  se_hash :: "string \<Rightarrow> nat"
  se_calendar :: "timestamp \<Rightarrow> nat \<times> nat"
  se_json :: "shard_row \<Rightarrow> string"

section \<open>The hash ring\<close>

definition virtualNodes :: nat where
  "virtualNodes = 100"

definition addShardToRing :: "(string \<Rightarrow> nat) \<Rightarrow> string \<Rightarrow> hash_ring \<Rightarrow> hash_ring" where
  "addShardToRing hash shardId ring =
     sort_key fst (ring @ map (\<lambda>i. (hash (shardId @ '':'' @ natText i), shardId)) [0..<virtualNodes])"

definition removeShardFromRing :: "string \<Rightarrow> hash_ring \<Rightarrow> hash_ring" where
  "removeShardFromRing shardId ring = filter (\<lambda>n. snd n \<noteq> shardId) ring"

function ringSearch :: "hash_ring \<Rightarrow> nat \<Rightarrow> int \<Rightarrow> int \<Rightarrow> nat \<Rightarrow> nat" where
  "ringSearch ring h low high index =
     (if low \<le> high
      then let mid = (low + high) div 2
           in if h \<le> fst (ring ! nat mid) then ringSearch ring h low (mid - 1) (nat mid)
              else ringSearch ring h (mid + 1) high index
      else index)"
  by pat_completeness auto
termination
  by (relation "measure (\<lambda>(_, _, low, high, _). nat (high - low + 1))") auto

declare ringSearch.simps [simp del]

definition consistentHash :: "(string \<Rightarrow> nat) \<Rightarrow> string option \<Rightarrow> hash_ring \<Rightarrow> string result" where
  "consistentHash hash key ring =
     (if ring = [] then Inr []
      else case key of
             None \<Rightarrow> Inl (JsError ''data must be a string'')
           | Some k \<Rightarrow> Inr (snd (ring ! ringSearch ring (hash k) 0 (int (length ring) - 1) 0)))"

section \<open>Strategies\<close>

datatype strategy = UserStrategy | TimeStrategy | AssetStrategy | ConsistentStrategy

definition strategies :: "string \<Rightarrow> strategy option" where
  "strategies name =
     map_of [(''user'', UserStrategy), (''time'', TimeStrategy), (''asset'', AssetStrategy), (''consistent'', ConsistentStrategy)] name"

definition padStart2 :: "string \<Rightarrow> string" where
  "padStart2 s = replicate (2 - length s) CHR ''0'' @ s"

definition orElse :: "'a option \<Rightarrow> 'a option \<Rightarrow> 'a option" where
  "orElse x y = (case x of None \<Rightarrow> y | Some _ \<Rightarrow> x)"

fun getShardKey :: "shard_env \<Rightarrow> timestamp \<Rightarrow> strategy \<Rightarrow> shard_row \<Rightarrow> string option" where
  "getShardKey env now UserStrategy r = orElse (map_option natText (sr_userId r)) (map_option natText (sr_id r))"
| "getShardKey env now TimeStrategy r =
     (let t = the (orElse (sr_timestamp r) (orElse (sr_createdAt r) (Some now)));
          (year, month) = se_calendar env t
      in Some (natText year @ ''-'' @ padStart2 (natText month)))"
| "getShardKey env now AssetStrategy r =
     (case sr_asset r of Some (c # cs) \<Rightarrow> sr_asset r | _ \<Rightarrow> sr_symbol r)"
| "getShardKey env now ConsistentStrategy r = orElse (map_option natText (sr_id r)) (Some (se_json env r))"

text \<open>\<open>keys()[index]\<close>, which is undefined when the index is not a number.\<close>

definition shardAt :: "nat \<Rightarrow> string list \<Rightarrow> string option" where
  "shardAt n ids = (if ids = [] then None else Some (ids ! (n mod length ids)))"

fun getShard :: "shard_env \<Rightarrow> hash_ring \<Rightarrow> string list \<Rightarrow> strategy \<Rightarrow> string option \<Rightarrow> string option result" where
  "getShard env ring ids UserStrategy key = map_sum id Some (consistentHash (se_hash env) key ring)"
| "getShard env ring ids ConsistentStrategy key = map_sum id Some (consistentHash (se_hash env) key ring)"
| "getShard env ring ids TimeStrategy key =
     (case key of
        None \<Rightarrow> Inl (JsError ''shardKey is undefined'')
      | Some k \<Rightarrow>
          let year = takeWhile (\<lambda>c. c \<noteq> CHR ''-'') k;
              month = takeWhile (\<lambda>c. c \<noteq> CHR ''-'') (drop (Suc (length year)) k)
          in (case (parseInt year, parseInt month) of
                (Some y, Some m) \<Rightarrow> Inr (shardAt (y * 12 + m) ids)
              | _ \<Rightarrow> Inr None))"
| "getShard env ring ids AssetStrategy key =
     (case key of None \<Rightarrow> Inl (JsError ''data must be a string'') | Some k \<Rightarrow> Inr (shardAt (se_hash env k) ids))"

definition route :: "shard_env \<Rightarrow> timestamp \<Rightarrow> hash_ring \<Rightarrow> string list \<Rightarrow> strategy \<Rightarrow> shard_row \<Rightarrow> string option result" where
  "route env now ring ids st r = getShard env ring ids st (getShardKey env now st r)"

section \<open>Tables of a shard\<close>

definition tableOf :: "entity \<Rightarrow> string \<Rightarrow> shards \<Rightarrow> shard_row list" where
  "tableOf e i sh = (case map_of sh i of None \<Rightarrow> [] | Some db \<Rightarrow> db e)"

definition putTable :: "entity \<Rightarrow> string \<Rightarrow> shard_row list \<Rightarrow> shards \<Rightarrow> shards" where
  "putTable e i t sh = map (\<lambda>(j, db). (j, if j = i then db(e := t) else db)) sh"

text \<open>\<open>save\<close>: a row with a known id is replaced, one without an id gets the next one.\<close>

definition saveData :: "shard_row \<Rightarrow> shard_row list \<Rightarrow> shard_row list" where
  "saveData r t =
     (case sr_id r of
        None \<Rightarrow> t @ [r\<lparr>sr_id := Some (unusedId (map (\<lambda>x. the (sr_id x)) t))\<rparr>]
      | Some _ \<Rightarrow> save_row sr_id r t)"

definition removeData :: "shard_row \<Rightarrow> shard_row list \<Rightarrow> shard_row list" where
  "removeData r t = filter (\<lambda>x. sr_id x \<noteq> sr_id r) t"

text \<open>\<open>insert\<close> of several rows is one statement: it fails when an id is in use or given twice.\<close>

definition insertRows :: "shard_row list \<Rightarrow> shard_row list \<Rightarrow> shard_row list result" where
  "insertRows rs t =
     (let given = map sr_id (filter (\<lambda>r. sr_id r \<noteq> None) rs)
      in if distinct given \<and> set given \<inter> sr_id ` set t = {} then Inr (fold saveData rs t)
         else Inl (JsError ''UNIQUE constraint failed''))"

section \<open>Operations\<close>

definition addShard :: "shard_env \<Rightarrow> ShardConfig \<Rightarrow> shard_db \<Rightarrow> sharding \<Rightarrow> sharding" where
  "addShard env cfg db s =
     \<lparr>sh_shards = AList.update (sc_id cfg) db (sh_shards s), sh_configs = AList.update (sc_id cfg) cfg (sh_configs s),
      sh_ring = addShardToRing (se_hash env) (sc_id cfg) (sh_ring s)\<rparr>"

text \<open>\<open>connect\<close> is the database a configuration leads to, \<open>None\<close> when it cannot be opened.\<close>

fun initializeShards :: "shard_env \<Rightarrow> (ShardConfig \<Rightarrow> shard_db option) \<Rightarrow> ShardConfig list \<Rightarrow> sharding \<Rightarrow> unit result \<times> sharding" where
  "initializeShards env connect [] s = (Inr (), s)"
| "initializeShards env connect (cfg # cfgs) s =
     (case connect cfg of
        None \<Rightarrow> (Inl (JsError ''connection failed''), s)
      | Some db \<Rightarrow> initializeShards env connect cfgs (addShard env cfg db s))"

text \<open>The rebalancing is only scheduled; it runs on its own, later.\<close>

definition provisionNewShard :: "shard_env \<Rightarrow> (ShardConfig \<Rightarrow> shard_db option) \<Rightarrow> ShardConfig \<Rightarrow> sharding \<Rightarrow> sharding result" where
  "provisionNewShard env connect cfg s =
     (if map_of (sh_shards s) (sc_id cfg) \<noteq> None then Inl (JsError ''Shard already exists'')
      else case connect cfg of
             None \<Rightarrow> Inl (JsError ''connection failed'')
           | Some db \<Rightarrow> Inr (addShard env cfg db s))"

definition shardIds :: "sharding \<Rightarrow> string list" where
  "shardIds s = map fst (sh_shards s)"

definition routeIn :: "shard_env \<Rightarrow> timestamp \<Rightarrow> sharding \<Rightarrow> strategy \<Rightarrow> shard_row \<Rightarrow> string option result" where
  "routeIn env now s st r = route env now (sh_ring s) (shardIds s) st r"

definition findShard :: "shard_env \<Rightarrow> timestamp \<Rightarrow> shard_row \<Rightarrow> string \<Rightarrow> sharding \<Rightarrow> string result" where
  "findShard env now r name s =
     (case strategies name of
        None \<Rightarrow> Inl (JsError ''Sharding strategy not found'')
      | Some st \<Rightarrow> rbind (routeIn env now s st r) (\<lambda>target.
          case target of
            None \<Rightarrow> Inl (JsError ''Shard not found'')
          | Some i \<Rightarrow> if i \<in> set (shardIds s) then Inr i else Inl (JsError ''Shard not found'')))"

definition insertData :: "shard_env \<Rightarrow> timestamp \<Rightarrow> entity \<Rightarrow> shard_row \<Rightarrow> string \<Rightarrow> sharding \<Rightarrow> sharding result" where
  "insertData env now e r name s =
     map_sum id (\<lambda>i. s\<lparr>sh_shards := putTable e i (saveData r (tableOf e i (sh_shards s))) (sh_shards s)\<rparr>)
       (findShard env now r name s)"

text \<open>\<open>queryBuilder\<close> is the query that runs on one shard, \<open>None\<close> when it throws.\<close>

definition queryShard :: "(shard_row list \<Rightarrow> 'r list option) \<Rightarrow> entity \<Rightarrow> sharding \<Rightarrow> string option \<Rightarrow> 'r list" where
  "queryShard queryBuilder e s target =
     (case target of
        None \<Rightarrow> []
      | Some i \<Rightarrow>
          (case map_of (sh_shards s) i of
             None \<Rightarrow> []
           | Some db \<Rightarrow> (case queryBuilder (db e) of None \<Rightarrow> [] | Some rs \<Rightarrow> rs)))"

definition executeQueryAcrossShards :: "(shard_row list \<Rightarrow> 'r list option) \<Rightarrow> entity \<Rightarrow> QueryPlan \<Rightarrow> sharding \<Rightarrow> 'r list" where
  "executeQueryAcrossShards queryBuilder e plan s =
     (if qp_parallel plan then concat (map (queryShard queryBuilder e s) (qp_shards plan))
      else fold (\<lambda>i results. results @ queryShard queryBuilder e s i) (qp_shards plan) [])"

definition createQueryPlan ::
  "shard_env \<Rightarrow> timestamp \<Rightarrow> string \<Rightarrow> shard_row option \<Rightarrow> (timestamp \<times> timestamp) option \<Rightarrow> sharding \<Rightarrow> QueryPlan result" where
  "createQueryPlan env now name filters timeRange s =
     (case strategies name of
        None \<Rightarrow> Inl (JsError ''Sharding strategy not found'')
      | Some st \<Rightarrow>
          let plan = (\<lambda>targets. \<lparr>qp_shards = targets, qp_strategy = name, qp_parallel = (1 < length targets),
                        qp_aggregationRequired = (1 < length targets)\<rparr>)
          in if timeRange \<noteq> None \<and> st = TimeStrategy then Inr (plan (map Some (shardIds s)))
             else case filters of
                    None \<Rightarrow> Inr (plan (map Some (shardIds s)))
                  | Some f \<Rightarrow>
                      if sr_userId f \<noteq> None \<and> sr_userId f \<noteq> Some 0 \<and> st = UserStrategy
                      then map_sum id (\<lambda>i. plan [i]) (routeIn env now s st f)
                      else Inr (plan (map Some (shardIds s))))"

text \<open>\<open>m.get(k).push(v)\<close>, after an empty list was set for a new key.\<close>

definition pushTo :: "'k \<Rightarrow> 'v \<Rightarrow> ('k \<times> 'v list) list \<Rightarrow> ('k \<times> 'v list) list" where
  "pushTo k v m = AList.update k ((case map_of m k of None \<Rightarrow> [] | Some vs \<Rightarrow> vs) @ [v]) m"

text \<open>Grouping by target; the first record whose routing throws ends it.\<close>

fun groupByTarget :: "('v \<Rightarrow> 'k result) \<Rightarrow> 'v list \<Rightarrow> ('k \<times> 'v list) list \<Rightarrow> ('k \<times> 'v list) list result" where
  "groupByTarget f [] m = Inr m"
| "groupByTarget f (v # vs) m = rbind (f v) (\<lambda>k. groupByTarget f vs (pushTo k v m))"

text \<open>The inserts run side by side, each on its own shard: one that fails does not stop the others.\<close>

definition batchInsert :: "shard_env \<Rightarrow> timestamp \<Rightarrow> entity \<Rightarrow> shard_row list \<Rightarrow> string \<Rightarrow> sharding \<Rightarrow> unit result \<times> sharding" where
  "batchInsert env now e rs name s =
     (case strategies name of
        None \<Rightarrow> (Inr (), s)
      | Some st \<Rightarrow>
          (case groupByTarget (routeIn env now s st) rs [] of
             Inl x \<Rightarrow> (Inl x, s)
           | Inr groups \<Rightarrow>
               fold (\<lambda>(target, data) (res, s1).
                 case target of
                   None \<Rightarrow> (res, s1)
                 | Some i \<Rightarrow>
                     if i \<notin> set (shardIds s1) then (res, s1)
                     else (case insertRows data (tableOf e i (sh_shards s1)) of
                             Inl x \<Rightarrow> (rbind res (\<lambda>_. Inl x), s1)
                           | Inr t \<Rightarrow> (res, s1\<lparr>sh_shards := putTable e i t (sh_shards s1)\<rparr>)))
                 groups (Inr (), s)))"

text \<open>Without filters \<open>delete\<close> refuses to run, after the rows were inserted.\<close>

definition migrateData :: "string \<Rightarrow> string \<Rightarrow> entity \<Rightarrow> (shard_row \<Rightarrow> bool) option \<Rightarrow> sharding \<Rightarrow> unit result \<times> sharding" where
  "migrateData source target e filters s =
     (if source \<notin> set (shardIds s) \<or> target \<notin> set (shardIds s) then (Inl (JsError ''Invalid shard IDs for migration''), s)
      else let data = (case filters of None \<Rightarrow> id | Some f \<Rightarrow> filter f) (tableOf e source (sh_shards s))
           in if data = [] then (Inr (), s)
              else case insertRows data (tableOf e target (sh_shards s)) of
                     Inl x \<Rightarrow> (Inl x, s)
                   | Inr t \<Rightarrow>
                       let s1 = s\<lparr>sh_shards := putTable e target t (sh_shards s)\<rparr>
                       in (case filters of
                             None \<Rightarrow> (Inl (JsError ''Empty criteria''), s1)
                           | Some f \<Rightarrow> (Inr (), s1\<lparr>sh_shards := putTable e source
                               (filter (\<lambda>r. \<not> f r) (tableOf e source (sh_shards s1))) (sh_shards s1)\<rparr>)))"

section \<open>Transactions over several shards\<close>

datatype op_type = InsertOp | UpdateOp | DeleteOp

record shard_op =
  op_entity :: entity
  op_data :: shard_row
  op_strategy :: "string option"
  op_type :: op_type

definition opStrategy :: "shard_op \<Rightarrow> string" where
  "opStrategy op = (case op_strategy op of Some (c # cs) \<Rightarrow> c # cs | _ \<Rightarrow> ''user'')"

definition applyOp :: "shard_op \<Rightarrow> shard_db \<Rightarrow> shard_db" where
  "applyOp op db = db(op_entity op := (case op_type op of
     DeleteOp \<Rightarrow> removeData (op_data op) (db (op_entity op)) | _ \<Rightarrow> saveData (op_data op) (db (op_entity op))))"

text \<open>The calls that may throw: the start of a transaction, one operation in it, its commit.\<close>

datatype tx_call = StartTx string | RunOp string shard_op | CommitTx string

fun runOps :: "(tx_call \<Rightarrow> bool) \<Rightarrow> string \<Rightarrow> shard_op list \<Rightarrow> shard_db \<Rightarrow> shard_db option" where
  "runOps ok i [] db = Some db"
| "runOps ok i (op # ops) db = (if ok (RunOp i op) then runOps ok i ops (applyOp op db) else None)"

text \<open>What each participant would commit.\<close>

fun runParticipants :: "(tx_call \<Rightarrow> bool) \<Rightarrow> shards \<Rightarrow> (string \<times> shard_op list) list \<Rightarrow> shards option" where
  "runParticipants ok sh [] = Some []"
| "runParticipants ok sh ((i, ops) # ps) =
     (if ok (StartTx i)
      then (case runOps ok i ops (the (map_of sh i)) of
              None \<Rightarrow> None
            | Some db \<Rightarrow> map_option (\<lambda>w. (i, db) # w) (runParticipants ok sh ps))
      else None)"

text \<open>The first commit that throws ends the commits; what was committed stays.\<close>

fun commitAll :: "(tx_call \<Rightarrow> bool) \<Rightarrow> shards \<Rightarrow> shards \<Rightarrow> unit result \<times> shards" where
  "commitAll ok [] sh = (Inr (), sh)"
| "commitAll ok ((i, db) # w) sh =
     (if ok (CommitTx i) then commitAll ok w (AList.update i db sh) else (Inl (JsError ''transaction failed''), sh))"

definition executeTransaction :: "shard_env \<Rightarrow> (tx_call \<Rightarrow> bool) \<Rightarrow> timestamp \<Rightarrow> shard_op list \<Rightarrow> sharding \<Rightarrow> unit result \<times> sharding" where
  "executeTransaction env ok now ops s =
     (case groupByTarget (\<lambda>op. findShard env now (op_data op) (opStrategy op) s) ops [] of
        Inl x \<Rightarrow> (Inl x, s)
      | Inr participants \<Rightarrow>
          (case runParticipants ok (sh_shards s) participants of
             None \<Rightarrow> (Inl (JsError ''transaction failed''), s)
           | Some work \<Rightarrow> (case commitAll ok work (sh_shards s) of (res, sh) \<Rightarrow> (res, s\<lparr>sh_shards := sh\<rparr>))))"

section \<open>Health\<close>

record shard_health =
  hs_healthy :: bool
  hs_tradeCount :: nat
  hs_balanceCount :: nat
  hs_replicas :: "(string \<times> nat) list"

text \<open>\<open>ping\<close> tells whether the shard answers; the latency of a replica is drawn at random.\<close>

definition getShardHealth :: "(string \<Rightarrow> bool) \<Rightarrow> (string \<Rightarrow> nat) \<Rightarrow> sharding \<Rightarrow> (string \<times> shard_health) list" where
  "getShardHealth ping latency s = map (\<lambda>(i, db).
     (i, \<lparr>hs_healthy = ping i, hs_tradeCount = (if ping i then length (db TradeEntity) else 0),
          hs_balanceCount = (if ping i then length (db UserBalanceEntity) else 0),
          hs_replicas = (case map_option sc_replicas (map_of (sh_configs s) i) of
             Some (Some rs) \<Rightarrow> map (\<lambda>r. (r, latency r)) (setOrder rs) | _ \<Rightarrow> [])\<rparr>)) (sh_shards s)"

section \<open>Rebalancing\<close>

definition rebalanceBatchSize :: nat where
  "rebalanceBatchSize = 1000"

definition rebalanceStrategy :: "entity \<Rightarrow> strategy" where
  "rebalanceStrategy e = (if e = TradeEntity then TimeStrategy else UserStrategy)"

text \<open>\<open>saveError\<close> is the message of the error \<open>save\<close> throws for a row on a shard, if it throws.\<close>

definition moveRecord ::
  "(string \<Rightarrow> shard_row \<Rightarrow> string option) \<Rightarrow> entity \<Rightarrow> string \<Rightarrow> string \<times> shard_row \<Rightarrow> shards \<Rightarrow> shards" where
  "moveRecord saveError e source = (\<lambda>(target, r) sh.
     (case saveError target r of
        None \<Rightarrow>
          let sh1 = putTable e target (saveData r (tableOf e target sh)) sh
          in putTable e source (removeData r (tableOf e source sh1)) sh1
      | Some message \<Rightarrow>
          if containsText ''UNIQUE'' message \<or> containsText ''already exists'' message
          then putTable e source (removeData r (tableOf e source sh)) sh else sh))"

definition rebalanceBatch ::
  "(shard_row \<Rightarrow> string option result) \<Rightarrow> (string \<Rightarrow> shard_row \<Rightarrow> string option) \<Rightarrow> entity \<Rightarrow> string \<Rightarrow> shard_row list \<Rightarrow> shards \<Rightarrow> shards result" where
  "rebalanceBatch home saveError e source records sh =
     map_sum id (\<lambda>groups.
       fold (\<lambda>(target, rs) sh1.
         case target of
           None \<Rightarrow> sh1
         | Some i \<Rightarrow> if i = source \<or> i \<notin> fst ` set sh then sh1 else fold (moveRecord saveError e source) (map (Pair i) rs) sh1)
         groups sh)
       (groupByTarget home records [])"

text \<open>
  The loop of one table of one shard, with fuel: \<open>None\<close> when it has not ended. The offset is 0 in every
  round.
\<close>

fun rebalanceLoop ::
  "(shard_row \<Rightarrow> string option result) \<Rightarrow> (string \<Rightarrow> shard_row \<Rightarrow> string option) \<Rightarrow> entity \<Rightarrow> string \<Rightarrow> nat \<Rightarrow> shards \<Rightarrow> shards option" where
  "rebalanceLoop home saveError e source 0 sh = None"
| "rebalanceLoop home saveError e source (Suc fuel) sh =
     (let records = take rebalanceBatchSize (tableOf e source sh)
      in if records = [] then Some sh
         else case rebalanceBatch home saveError e source records sh of
                Inl _ \<Rightarrow> Some sh
              | Inr sh1 \<Rightarrow> if length records < rebalanceBatchSize then Some sh1
                           else rebalanceLoop home saveError e source fuel sh1)"

fun rebalanceTables ::
  "(shard_row \<Rightarrow> string option result) \<Rightarrow> (string \<Rightarrow> shard_row \<Rightarrow> string option) \<Rightarrow> entity \<Rightarrow> nat \<Rightarrow> string list \<Rightarrow> shards \<Rightarrow> shards option" where
  "rebalanceTables home saveError e fuel [] sh = Some sh"
| "rebalanceTables home saveError e fuel (i # is) sh =
     Option.bind (rebalanceLoop home saveError e i fuel sh) (rebalanceTables home saveError e fuel is)"

definition homeOf :: "shard_env \<Rightarrow> timestamp \<Rightarrow> sharding \<Rightarrow> entity \<Rightarrow> shard_row \<Rightarrow> string option result" where
  "homeOf env now s e = routeIn env now s (rebalanceStrategy e)"

definition rebalanceShards :: "shard_env \<Rightarrow> (string \<Rightarrow> shard_row \<Rightarrow> string option) \<Rightarrow> nat \<Rightarrow> timestamp \<Rightarrow> sharding \<Rightarrow> sharding option" where
  "rebalanceShards env saveError fuel now s =
     (if length (shardIds s) < 2 then Some s
      else map_option (\<lambda>sh. s\<lparr>sh_shards := sh\<rparr>)
        (Option.bind (rebalanceTables (homeOf env now s TradeEntity) saveError TradeEntity fuel (shardIds s) (sh_shards s))
           (rebalanceTables (homeOf env now s UserBalanceEntity) saveError UserBalanceEntity fuel (shardIds s))))"

section \<open>The ring finds the next node\<close>

text \<open>The specification: the first node at or after the hash, and the first one of all when there is none.\<close>

definition ringOwner :: "nat \<Rightarrow> hash_ring \<Rightarrow> string" where
  "ringOwner h ring = snd (case find (\<lambda>n. h \<le> fst n) ring of None \<Rightarrow> hd ring | Some n \<Rightarrow> n)"

definition firstAt :: "hash_ring \<Rightarrow> nat \<Rightarrow> nat" where
  "firstAt ring h = (let n = length (takeWhile (\<lambda>n. fst n < h) ring) in if n < length ring then n else 0)"

lemma ringOwner_nth: "ring \<noteq> [] \<Longrightarrow> ringOwner h ring = snd (ring ! firstAt ring h)"
proof (cases "find (\<lambda>n. h \<le> fst n) ring")
  case None
  then have "takeWhile (\<lambda>n. fst n < h) ring = ring" by (auto simp: find_None_iff takeWhile_eq_all_conv not_le)
  moreover assume "ring \<noteq> []"
  ultimately show ?thesis using None by (simp add: ringOwner_def firstAt_def Let_def hd_conv_nth del: takeWhile_eq_all_conv)
next
  case (Some n)
  have "find (\<lambda>n. h \<le> fst n) ring = Some n \<Longrightarrow> length (takeWhile (\<lambda>n. fst n < h) ring) < length ring \<and>
      ring ! length (takeWhile (\<lambda>n. fst n < h) ring) = n"
    by (induction ring) (auto split: if_splits)
  with Some show ?thesis by (simp add: ringOwner_def firstAt_def)
qed

text \<open>What the search keeps: nodes before \<open>low\<close> are too small, those after \<open>high\<close> are not, and \<open>index\<close> is the first of these.\<close>

definition search_inv :: "hash_ring \<Rightarrow> nat \<Rightarrow> int \<Rightarrow> int \<Rightarrow> nat \<Rightarrow> bool" where
  "search_inv ring h low high index \<longleftrightarrow>
     0 \<le> low \<and> low \<le> high + 1 \<and> high < int (length ring) \<and> (\<forall>i. int i < low \<longrightarrow> fst (ring ! i) < h) \<and>
     (\<forall>i < length ring. high < int i \<longrightarrow> h \<le> fst (ring ! i)) \<and>
     index = (if high + 1 < int (length ring) then nat (high + 1) else 0)"

lemma length_takeWhile_eq:
  assumes "k \<le> length xs" and "\<And>i. i < k \<Longrightarrow> P (xs ! i)" and "k < length xs \<Longrightarrow> \<not> P (xs ! k)"
  shows "length (takeWhile P xs) = k"
  using takeWhile_eq_take_P_nth [of k xs P] assms by simp

lemma ringSearch_correct:
  "sorted (map fst ring) \<Longrightarrow> search_inv ring h low high index \<Longrightarrow> ringSearch ring h low high index = firstAt ring h"
proof (induction ring h low high index rule: ringSearch.induct)
  case (1 ring h low high index)
  define mid where "mid = (low + high) div 2"
  note inv = 1(4) [unfolded search_inv_def]
  show ?case
  proof (cases "low \<le> high")
    case True
    then have mid: "low \<le> mid" "mid \<le> high" "0 \<le> mid" "nat mid < length ring" using inv by (auto simp: mid_def)
    have sorted: "i \<le> j \<Longrightarrow> j < length ring \<Longrightarrow> fst (ring ! i) \<le> fst (ring ! j)" for i j
      using sorted_nth_mono [OF 1(3), of i j] by simp
    show ?thesis
    proof (cases "h \<le> fst (ring ! nat mid)")
      case ge: True
      have "search_inv ring h low (mid - 1) (nat mid)"
        unfolding search_inv_def using inv mid ge sorted [of "nat mid"] by (auto intro: order_trans)
      then show ?thesis
        using 1(1) [OF True mid_def _ 1(3)] True ge by (subst ringSearch.simps) (simp add: mid_def Let_def)
    next
      case less: False
      have small: "fst (ring ! i) < h" if "int i < mid + 1" for i
        using sorted [of i "nat mid"] mid less that by linarith
      have "search_inv ring h (mid + 1) high index"
        unfolding search_inv_def using inv mid small by auto
      then show ?thesis
        using 1(2) [OF True mid_def _ 1(3)] True less by (subst ringSearch.simps) (simp add: mid_def Let_def)
    qed
  next
    case False
    then have low: "low = high + 1" using inv by linarith
    have "length (takeWhile (\<lambda>n. fst n < h) ring) = nat low"
    proof (rule length_takeWhile_eq)
      show "nat low \<le> length ring" using inv low by linarith
    next
      fix i
      assume "i < nat low"
      then show "fst (ring ! i) < h" using inv by auto
    next
      assume "nat low < length ring"
      then show "\<not> fst (ring ! nat low) < h" using inv low by (auto simp: not_less)
    qed
    then show ?thesis
      using inv low False by (subst ringSearch.simps) (auto simp: firstAt_def Let_def)
  qed
qed
lemma consistentHash_owner:
  assumes "sorted (map fst ring)" and "ring \<noteq> []"
  shows "consistentHash hash (Some key) ring = Inr (ringOwner (hash key) ring)"
proof -
  have "search_inv ring (hash key) 0 (int (length ring) - 1) 0"
    using assms(2) by (auto simp: search_inv_def)
  then show ?thesis
    using assms by (simp add: consistentHash_def ringSearch_correct ringOwner_nth)
qed

lemma sort_key_Nil_iff [simp]: "sort_key f xs = [] \<longleftrightarrow> xs = []"
  using length_sort [of f xs] by (metis length_0_conv)

lemma added_ring: "sorted (map fst (addShardToRing hash i ring))" "addShardToRing hash i ring \<noteq> []"
  by (simp_all add: addShardToRing_def virtualNodes_def del: sort_key_simps)

lemma built_ring:
  "ids \<noteq> [] \<Longrightarrow> sorted (map fst (fold (addShardToRing hash) ids [])) \<and> fold (addShardToRing hash) ids [] \<noteq> []"
  by (cases ids rule: rev_cases) (simp_all add: added_ring)

text \<open>
  The binary search over the ring finds the shard the specification names: for every key, on the ring
  that any sequence of shards gives, the first node whose hash is at least that of the key, or the first
  node of the ring.
\<close>

theorem consistent_hash_finds_the_next_node:
  assumes "ring = fold (addShardToRing hash) ids []" and "ids \<noteq> []"
  shows "consistentHash hash (Some key) ring = Inr (ringOwner (hash key) ring)"
  using assms built_ring [of ids hash] by (simp add: consistentHash_owner)

section \<open>A new shard takes keys only for itself\<close>

lemma hd_insort_key: "hd (insort_key f a xs) = (if xs = [] \<or> f a \<le> f (hd xs) then a else hd xs)"
  by (cases xs) auto

lemma hd_sort_append:
  "sorted (map f xs) \<Longrightarrow> xs \<noteq> [] \<Longrightarrow> hd (sort_key f (xs @ ys)) = hd xs \<or> hd (sort_key f (xs @ ys)) \<in> set ys"
proof (induction xs)
  case (Cons a xs)
  show ?case
  proof (cases "xs = []")
    case True
    then show ?thesis
      by (cases "sort_key f ys") (auto simp: hd_insort_key dest: arg_cong [of _ _ set])
  next
    case False
    then have "hd (sort_key f (xs @ ys)) = hd xs \<or> hd (sort_key f (xs @ ys)) \<in> set ys" using Cons by simp
    moreover have "f a \<le> f (hd xs)" using Cons.prems False by (cases xs) auto
    ultimately show ?thesis by (auto simp: hd_insort_key)
  qed
qed simp

lemma find_hd_filter: "find P xs = (if filter P xs = [] then None else Some (hd (filter P xs)))"
  by (induction xs) auto

lemma ringOwner_sort:
  assumes "sorted (map fst ring)" and "ring \<noteq> []"
  shows "ringOwner h (sort_key fst (ring @ new)) = ringOwner h ring \<or> ringOwner h (sort_key fst (ring @ new)) \<in> snd ` set new"
proof -
  define old where "old = filter (\<lambda>n. h \<le> fst n) ring"
  define fresh where "fresh = filter (\<lambda>n. h \<le> fst n) new"
  have filtered: "filter (\<lambda>n. h \<le> fst n) (sort_key fst (ring @ new)) = sort_key fst (old @ fresh)"
    by (simp add: filter_sort old_def fresh_def del: sort_key_simps)
  have fresh: "set fresh \<subseteq> set new" by (auto simp: fresh_def)
  have "sorted (map fst old)" unfolding old_def using assms(1) by (rule sorted_filter)
  consider "old \<noteq> []" | "old = []" "fresh \<noteq> []" | "old = []" "fresh = []" by blast
  then show ?thesis
  proof cases
    case 1
    then have "ringOwner h ring = snd (hd old)" "ringOwner h (sort_key fst (ring @ new)) = snd (hd (sort_key fst (old @ fresh)))"
      unfolding ringOwner_def find_hd_filter filtered by (simp_all add: old_def)
    then show ?thesis using hd_sort_append [of fst old fresh] \<open>sorted (map fst old)\<close> 1 fresh by auto
  next
    case 2
    then have "ringOwner h (sort_key fst (ring @ new)) = snd (hd (sort_key fst fresh))"
      unfolding ringOwner_def find_hd_filter filtered by simp
    moreover have "hd (sort_key fst fresh) \<in> set fresh" using 2 by (metis hd_in_set set_empty set_sort)
    ultimately show ?thesis using fresh by auto
  next
    case 3
    then have "ringOwner h ring = snd (hd ring)" "ringOwner h (sort_key fst (ring @ new)) = snd (hd (sort_key fst (ring @ new)))"
      unfolding ringOwner_def find_hd_filter filtered by (simp_all add: old_def)
    then show ?thesis using hd_sort_append [of fst ring new] assms by auto
  qed
qed

text \<open>
  Adding a shard moves keys only to it: whatever shards were added before, a key is afterwards where it was,
  or on the new shard.
\<close>

theorem new_shard_takes_keys_only_for_itself:
  assumes "ring = fold (addShardToRing hash) ids []" and "ids \<noteq> []"
  shows "consistentHash hash (Some key) (addShardToRing hash new ring) \<in> {consistentHash hash (Some key) ring, Inr new}"
  using ringOwner_sort [of ring "hash key" "map (\<lambda>i. (hash (new @ '':'' @ natText i), new)) [0..<virtualNodes]"]
    assms built_ring [of ids hash] added_ring [of hash new ring]
  by (auto simp: consistentHash_owner) (auto simp: addShardToRing_def)

section \<open>Grouping\<close>

lemma map_of_pushTo:
  "map_of (pushTo k v m) j = (if j = k then Some ((case map_of m k of None \<Rightarrow> [] | Some vs \<Rightarrow> vs) @ [v]) else map_of m j)"
  by (simp add: pushTo_def update_conv')

lemma distinct_pushTo: "distinct (map fst m) \<Longrightarrow> distinct (map fst (pushTo k v m))"
  by (simp add: pushTo_def distinct_update)

definition groupOf :: "('k \<times> 'v list) list \<Rightarrow> 'k \<Rightarrow> 'v list" where
  "groupOf m k = (case map_of m k of None \<Rightarrow> [] | Some vs \<Rightarrow> vs)"

lemma groupOf_Nil [simp]: "groupOf [] k = []"
  by (simp add: groupOf_def)

lemma groupOf_pushTo: "groupOf (pushTo k v m) j = groupOf m j @ (if j = k then [v] else [])"
  by (simp add: groupOf_def map_of_pushTo)

lemma groupByTarget_groups:
  "groupByTarget f vs m = Inr m' \<Longrightarrow> distinct (map fst m) \<Longrightarrow>
     distinct (map fst m') \<and> (\<forall>v\<in>set vs. \<exists>k. f v = Inr k) \<and>
     (\<forall>k. groupOf m' k = groupOf m k @ filter (\<lambda>v. f v = Inr k) vs) \<and>
     fst ` set m' = fst ` set m \<union> {k. \<exists>v\<in>set vs. f v = Inr k}"
proof (induction vs arbitrary: m)
  case (Cons v vs)
  obtain k where k: "f v = Inr k" "groupByTarget f vs (pushTo k v m) = Inr m'" using Cons.prems by (cases "f v") auto
  have "fst ` set (pushTo k v m) = insert k (fst ` set m)" by (auto simp: pushTo_def dom_update)
  with Cons.IH [OF k(2) distinct_pushTo [OF Cons.prems(2)]] k(1) show ?case by (auto simp: groupOf_pushTo)
qed simp

lemma groupByTarget_total:
  "(\<And>v. v \<in> set vs \<Longrightarrow> \<exists>k. f v = Inr k) \<Longrightarrow> \<exists>m'. groupByTarget f vs m = Inr m'"
proof (induction vs arbitrary: m)
  case (Cons v vs)
  then obtain k where "f v = Inr k" by fastforce
  with Cons show ?case by simp
qed simp

lemma groupByTarget_error: "groupByTarget f vs m = Inl x \<Longrightarrow> \<exists>v\<in>set vs. f v = Inl x"
proof (induction vs arbitrary: m)
  case (Cons v vs)
  then show ?case by (cases "f v") auto
qed simp

lemma groupOf_mem: "distinct (map fst m) \<Longrightarrow> (k, vs) \<in> set m \<Longrightarrow> groupOf m k = vs"
  by (simp add: groupOf_def)

section \<open>Transactions are all or nothing while commits succeed\<close>

lemma runOps_Some: "runOps ok i ops db = Some db' \<Longrightarrow> db' = fold applyOp ops db"
  by (induction ops arbitrary: db) (auto split: if_splits)

lemma runParticipants_Some:
  "runParticipants ok sh ps = Some w \<Longrightarrow> w = map (\<lambda>(i, ops). (i, fold applyOp ops (the (map_of sh i)))) ps"
proof (induction ps arbitrary: w)
  case (Cons p ps)
  then show ?case by (cases p) (auto split: if_splits option.splits dest!: runOps_Some)
qed simp

lemma commitAll_all:
  "(\<And>i. ok (CommitTx i)) \<Longrightarrow> commitAll ok w sh = (Inr (), fold (\<lambda>(i, db). AList.update i db) w sh)"
proof (induction w arbitrary: sh)
  case (Cons p w)
  then show ?case by (cases p) simp
qed simp

lemma map_of_fold_update:
  "distinct (map fst w) \<Longrightarrow> map_of (fold (\<lambda>(i, db). AList.update i db) w sh) j = (case map_of w j of None \<Rightarrow> map_of sh j | Some db \<Rightarrow> Some db)"
proof (induction w arbitrary: sh)
  case (Cons p w)
  then show ?case
    by (cases p) (auto simp: update_conv' split: option.split dest: map_of_SomeD intro: rev_image_eqI)
qed simp

lemma findShard_exists: "findShard env now r name s = Inr i \<Longrightarrow> \<exists>db. map_of (sh_shards s) i = Some db"
proof -
  assume "findShard env now r name s = Inr i"
  then have "i \<in> set (shardIds s)"
    by (cases "strategies name") (force simp: findShard_def split: option.splits if_splits)+
  then show ?thesis by (simp add: shardIds_def) (metis map_of_eq_None_iff not_None_eq)
qed

abbreviation opTarget :: "shard_env \<Rightarrow> timestamp \<Rightarrow> sharding \<Rightarrow> shard_op \<Rightarrow> string result" where
  "opTarget env now s op \<equiv> findShard env now (op_data op) (opStrategy op) s"

lemma executed_shards:
  assumes "groupByTarget (opTarget env now s) ops [] = Inr ps"
  shows "map_of (fold (\<lambda>(i, db). AList.update i db) (map (\<lambda>(i, os). (i, fold applyOp os (the (map_of (sh_shards s) i)))) ps) (sh_shards s)) i =
    map_option (fold applyOp (filter (\<lambda>op. opTarget env now s op = Inr i) ops)) (map_of (sh_shards s) i)"
proof -
  note ps = groupByTarget_groups [OF assms]
  have work: "map_of (map (\<lambda>(i, os). (i, fold applyOp os (the (map_of (sh_shards s) i)))) ps) i =
      map_option (\<lambda>os. fold applyOp os (the (map_of (sh_shards s) i))) (map_of ps i)"
    by (induction ps) auto
  have group: "groupOf ps i = filter (\<lambda>op. opTarget env now s op = Inr i) ops" using ps by (simp add: groupOf_def)
  have "distinct (map fst ps)" using ps by simp
  then have shards: "map_of (fold (\<lambda>(i, db). AList.update i db) (map (\<lambda>(i, os). (i, fold applyOp os (the (map_of (sh_shards s) i)))) ps) (sh_shards s)) i =
      (case map_of ps i of None \<Rightarrow> map_of (sh_shards s) i | Some os \<Rightarrow> Some (fold applyOp os (the (map_of (sh_shards s) i))))"
    by (subst map_of_fold_update) (auto simp: work comp_def case_prod_beta split: option.split)
  show ?thesis
  proof (cases "map_of ps i")
    case None
    with group show ?thesis unfolding shards by (simp add: groupOf_def option.map_id flip: group)
  next
    case (Some os)
    then have "i \<in> fst ` set ps" by (force dest: map_of_SomeD)
    then obtain op where "opTarget env now s op = Inr i" using ps by auto
    then obtain db where "map_of (sh_shards s) i = Some db" using findShard_exists by blast
    with Some group show ?thesis unfolding shards by (simp add: groupOf_def)
  qed
qed

text \<open>
  While no commit fails a transaction over several shards is all or nothing: either it fails and every shard
  is as before, or every shard has had exactly the operations routed to it applied, in their order. It succeeds
  when every operation finds a shard and no call fails.
\<close>

theorem transaction_is_all_or_nothing:
  assumes "\<And>i. ok (CommitTx i)"
  shows "(case executeTransaction env ok now ops s of
      (Inl _, s') \<Rightarrow> s' = s
    | (Inr _, s') \<Rightarrow> (\<forall>i. map_of (sh_shards s') i =
         map_option (fold applyOp (filter (\<lambda>op. opTarget env now s op = Inr i) ops)) (map_of (sh_shards s) i)) \<and>
         sh_ring s' = sh_ring s \<and> sh_configs s' = sh_configs s) \<and>
    ((\<forall>call. ok call) \<and> (\<forall>op\<in>set ops. \<exists>i. opTarget env now s op = Inr i) \<longrightarrow> fst (executeTransaction env ok now ops s) = Inr ())"
proof (cases "groupByTarget (opTarget env now s) ops []")
  case (Inl x)
  then show ?thesis using groupByTarget_error [OF Inl] by (force simp: executeTransaction_def)
next
  case (Inr ps)
  have runs: "(\<And>call. ok call) \<Longrightarrow> \<exists>db'. runOps ok i os db = Some db'" for i os db by (induction os arbitrary: db) auto
  have works: "(\<And>call. ok call) \<Longrightarrow> \<exists>w. runParticipants ok sh ps = Some w" for sh
  proof (induction ps)
    case (Cons p ps)
    then show ?case using runs by (cases p) (fastforce split: option.split)
  qed simp
  show ?thesis
  proof (cases "runParticipants ok (sh_shards s) ps")
    case None
    then show ?thesis using Inr works [of "sh_shards s"] by (auto simp: executeTransaction_def)
  next
    case (Some w)
    then show ?thesis
      using Inr runParticipants_Some [OF Some] commitAll_all [of ok w "sh_shards s"] assms executed_shards [OF Inr]
      by (simp add: executeTransaction_def)
  qed
qed

section \<open>Rebalancing brings records home\<close>

lemma keys_putTable [simp]: "map fst (putTable e i t sh) = map fst sh"
  by (simp add: putTable_def comp_def case_prod_beta)

lemma map_of_putTable: "map_of (putTable e i t sh) j = map_option (\<lambda>db. if j = i then db(e := t) else db) (map_of sh j)"
  by (induction sh) (auto simp: putTable_def)

lemma tableOf_putTable:
  "tableOf e' j (putTable e i t sh) = (if e' = e \<and> j = i \<and> i \<in> set (map fst sh) then t else tableOf e' j sh)"
proof (cases "map_of sh j")
  case None
  moreover from None have "j \<notin> set (map fst sh)" by (simp add: map_of_eq_None_iff)
  ultimately show ?thesis by (auto simp: tableOf_def map_of_putTable)
next
  case (Some db)
  then have "j \<in> set (map fst sh)" by (force dest: map_of_SomeD)
  with Some show ?thesis by (auto simp: tableOf_def map_of_putTable)
qed

lemma saveData_fresh: "sr_id r \<noteq> None \<Longrightarrow> sr_id r \<notin> sr_id ` set t \<Longrightarrow> saveData r t = t @ [r]"
  by (auto simp: saveData_def save_row_def list_ex_iff image_iff split: option.split)

text \<open>What a list of moves does to the tables.\<close>

lemma moveRecord_run:
  assumes "source \<in> set (map fst sh)" and "distinct (map (sr_id \<circ> snd) moves)" and "\<And>t r. saveError t r = None"
    and "\<And>t r. (t, r) \<in> set moves \<Longrightarrow> t \<noteq> source \<and> t \<in> set (map fst sh) \<and> sr_id r \<noteq> None \<and> sr_id r \<notin> sr_id ` set (tableOf e t sh)"
  shows "map fst (fold (moveRecord saveError e source) moves sh) = map fst sh \<and>
    tableOf e source (fold (moveRecord saveError e source) moves sh) = filter (\<lambda>x. sr_id x \<notin> sr_id ` snd ` set moves) (tableOf e source sh) \<and>
    (\<forall>j. j \<noteq> source \<longrightarrow> tableOf e j (fold (moveRecord saveError e source) moves sh) = tableOf e j sh @ map snd (filter (\<lambda>m. fst m = j) moves)) \<and>
    (\<forall>e' j. e' \<noteq> e \<longrightarrow> tableOf e' j (fold (moveRecord saveError e source) moves sh) = tableOf e' j sh)"
  using assms
proof (induction moves arbitrary: sh)
  case (Cons m moves)
  obtain t r where m: "m = (t, r)" by (cases m)
  define sh1 where "sh1 = moveRecord saveError e source m sh"
  have t: "t \<noteq> source" "t \<in> set (map fst sh)" "sr_id r \<noteq> None" "sr_id r \<notin> sr_id ` set (tableOf e t sh)"
    using Cons.prems(4) [of t r] by (auto simp: m)
  have sh1: "sh1 = putTable e source (removeData r (tableOf e source sh)) (putTable e t (tableOf e t sh @ [r]) sh)"
    using t Cons.prems(3) by (simp add: sh1_def m moveRecord_def Let_def saveData_fresh tableOf_putTable)
  have keys: "map fst sh1 = map fst sh" by (simp add: sh1)
  have tables: "tableOf e' j sh1 = (if e' = e \<and> j = source then removeData r (tableOf e source sh)
      else if e' = e \<and> j = t then tableOf e t sh @ [r] else tableOf e' j sh)" for e' j
    using t Cons.prems(1) by (simp add: sh1 tableOf_putTable)
  have "map fst (fold (moveRecord saveError e source) moves sh1) = map fst sh1 \<and>
    tableOf e source (fold (moveRecord saveError e source) moves sh1) = filter (\<lambda>x. sr_id x \<notin> sr_id ` snd ` set moves) (tableOf e source sh1) \<and>
    (\<forall>j. j \<noteq> source \<longrightarrow> tableOf e j (fold (moveRecord saveError e source) moves sh1) = tableOf e j sh1 @ map snd (filter (\<lambda>m. fst m = j) moves)) \<and>
    (\<forall>e' j. e' \<noteq> e \<longrightarrow> tableOf e' j (fold (moveRecord saveError e source) moves sh1) = tableOf e' j sh1)"
  proof (rule Cons.IH)
    show "source \<in> set (map fst sh1)" using Cons.prems(1) by (simp only: keys)
    show "distinct (map (sr_id \<circ> snd) moves)" using Cons.prems(2) by (simp add: comp_def)
    show "\<And>t r. saveError t r = None" by (rule Cons.prems(3))
    show "t' \<noteq> source \<and> t' \<in> set (map fst sh1) \<and> sr_id r' \<noteq> None \<and> sr_id r' \<notin> sr_id ` set (tableOf e t' sh1)"
      if "(t', r') \<in> set moves" for t' r'
    proof -
      have "sr_id r' \<noteq> sr_id r" using Cons.prems(2) that by (force simp: m)
      then show ?thesis unfolding keys using Cons.prems(4) [of t' r'] that by (auto simp: tables)
    qed
  qed
  then show ?case
    using t(1) by (simp add: keys tables m flip: sh1_def) (auto simp: removeData_def sh1_def m intro: filter_cong)
qed simp

text \<open>The moves of a batch, group by group.\<close>

definition groupMoves :: "string \<Rightarrow> string set \<Rightarrow> string option \<times> shard_row list \<Rightarrow> (string \<times> shard_row) list" where
  "groupMoves source keys = (\<lambda>(target, rs). case target of None \<Rightarrow> [] | Some i \<Rightarrow> if i = source \<or> i \<notin> keys then [] else map (Pair i) rs)"

lemma fold_groups:
  "fold (\<lambda>(target, rs) sh1. case target of None \<Rightarrow> sh1
     | Some i \<Rightarrow> if i = source \<or> i \<notin> keys then sh1 else fold f (map (Pair i) rs) sh1) groups sh =
   fold f (concat (map (groupMoves source keys) groups)) sh"
proof (induction groups arbitrary: sh)
  case (Cons g groups)
  then show ?case by (cases g) (auto simp: groupMoves_def split: option.split)
qed simp

lemma groupMoves_mem:
  "(t, r) \<in> set (concat (map (groupMoves source keys) groups)) \<longleftrightarrow>
     t \<noteq> source \<and> t \<in> keys \<and> (\<exists>rs. (Some t, rs) \<in> set groups \<and> r \<in> set rs)"
  by (force simp: groupMoves_def split: option.splits if_splits)

lemma groupMoves_for:
  "distinct (map fst groups) \<Longrightarrow>
     map snd (filter (\<lambda>m. fst m = j) (concat (map (groupMoves source keys) groups))) =
       (if j \<noteq> source \<and> j \<in> keys then groupOf groups (Some j) else [])"
proof (induction groups)
  case (Cons g groups)
  obtain t rs where g: "g = (t, rs)" by (cases g)
  have other: "groupOf groups (Some j) = []" if "t = Some j"
    using Cons.prems that by (force simp: g groupOf_def split: option.split dest: map_of_SomeD)
  have mine: "map snd (filter (\<lambda>m. fst m = j) (groupMoves source keys g)) = (if t = Some j \<and> j \<noteq> source \<and> j \<in> keys then rs else [])"
    by (auto simp: g groupMoves_def filter_map comp_def filter_empty_conv split: option.split)
  from Cons mine other show ?case by (auto simp: g groupOf_def)
qed (simp add: groupOf_def)

lemma in_snd_image: "y \<in> snd ` S \<longleftrightarrow> (\<exists>x. (x, y) \<in> S)"
  by force

lemma groupMoves_distinct:
  assumes "distinct (map fst groups)" and "\<And>t rs. (t, rs) \<in> set groups \<Longrightarrow> distinct rs \<and> (\<forall>r\<in>set rs. home r = Inr t)"
  shows "distinct (map snd (concat (map (groupMoves source keys) groups)))"
  using assms
proof (induction groups)
  case (Cons g groups)
  obtain t rs where g: "g = (t, rs)" by (cases g)
  have "distinct (map snd (groupMoves source keys g))" using Cons.prems(2) [of t rs] by (auto simp: g groupMoves_def comp_def split: option.split)
  moreover have "home r = Inr t" if "r \<in> snd ` set (groupMoves source keys g)" for r
    using that Cons.prems(2) [of t rs] by (auto simp: g groupMoves_def split: option.splits if_splits)
  moreover have "home r \<noteq> Inr t" if moved: "r \<in> snd ` set (concat (map (groupMoves source keys) groups))" for r
  proof -
    obtain i where "(i, r) \<in> set (concat (map (groupMoves source keys) groups))"
      using moved [unfolded in_snd_image] by blast
    then obtain t' rs' where "(t', rs') \<in> set groups" "r \<in> set rs'" unfolding groupMoves_mem by blast
    moreover from this have "t' \<noteq> t" using Cons.prems(1) by (force simp: g)
    ultimately have "home r = Inr t'" "t' \<noteq> t" using Cons.prems(2) [of t' rs'] by auto
    then show ?thesis by simp
  qed
  moreover have "distinct (map snd (concat (map (groupMoves source keys) groups)))"
    using Cons.prems(1) by (intro Cons.IH Cons.prems(2)) simp_all
  ultimately show ?case by (force simp del: set_concat)
qed simp

text \<open>
  What rebalancing one table relies on: the rows of the shard have ids, each one once and none of them on another
  shard, and each row has a home among the shards.
\<close>

definition ready :: "(shard_row \<Rightarrow> string option result) \<Rightarrow> entity \<Rightarrow> string \<Rightarrow> shards \<Rightarrow> bool" where
  "ready home e source sh \<longleftrightarrow>
     source \<in> set (map fst sh) \<and> distinct (map sr_id (tableOf e source sh)) \<and>
     (\<forall>r\<in>set (tableOf e source sh). sr_id r \<noteq> None \<and> (\<exists>j\<in>set (map fst sh). home r = Inr (Some j))) \<and>
     (\<forall>j. j \<noteq> source \<longrightarrow> sr_id ` set (tableOf e source sh) \<inter> sr_id ` set (tableOf e j sh) = {})"

text \<open>The rows \<open>B\<close> at the start of the table of the source were sent home.\<close>

definition sentHome :: "(shard_row \<Rightarrow> string option result) \<Rightarrow> entity \<Rightarrow> string \<Rightarrow> nat \<Rightarrow> shards \<Rightarrow> shards \<Rightarrow> bool" where
  "sentHome home e source n sh sh' \<longleftrightarrow>
     map fst sh' = map fst sh \<and>
     tableOf e source sh' = filter (\<lambda>r. home r = Inr (Some source)) (take n (tableOf e source sh)) @ drop n (tableOf e source sh) \<and>
     (\<forall>j. j \<noteq> source \<longrightarrow> j \<in> set (map fst sh) \<longrightarrow>
        tableOf e j sh' = tableOf e j sh @ filter (\<lambda>r. home r = Inr (Some j)) (take n (tableOf e source sh))) \<and>
     (\<forall>e' j. e' \<noteq> e \<longrightarrow> tableOf e' j sh' = tableOf e' j sh)"

lemma filter_ids:
  assumes "distinct (map f (xs @ ys))" and "set ms = {x \<in> set xs. \<not> P x}"
  shows "filter (\<lambda>x. f x \<notin> f ` set ms) (xs @ ys) = filter P xs @ ys"
proof -
  have inj: "inj_on f (set (xs @ ys))" using assms(1) by (simp only: distinct_map)
  have "f x \<in> f ` set ms \<longleftrightarrow> x \<in> set ms" if "x \<in> set (xs @ ys)" for x
    using that assms(2) by (intro inj_on_image_mem_iff [OF inj]) auto
  then have "filter (\<lambda>x. f x \<notin> f ` set ms) (xs @ ys) = filter (\<lambda>x. x \<notin> set ms) (xs @ ys)" by (intro filter_cong [OF refl]) simp
  moreover have "set xs \<inter> set ys = {}" using assms(1) by auto
  moreover have "filter (\<lambda>x. x \<notin> set ms) xs = filter P xs" using assms(2) by (intro filter_cong [OF refl]) simp
  moreover have "filter (\<lambda>x. x \<notin> set ms) ys = ys" using assms(2) \<open>set xs \<inter> set ys = {}\<close> by (intro filter_True) auto
  ultimately show ?thesis by simp
qed

lemma rebalanceBatch_sends_home:
  assumes ready: "ready home e source sh" and ok: "\<And>t r. saveError t r = None"
  shows "\<exists>sh'. rebalanceBatch home saveError e source (take n (tableOf e source sh)) sh = Inr sh' \<and> sentHome home e source n sh sh'"
proof -
  define T where "T = tableOf e source sh"
  define B where "B = take n T"
  note ready' = ready [unfolded ready_def, folded T_def]
  have homes: "\<exists>j\<in>set (map fst sh). home r = Inr (Some j)" if "r \<in> set B" for r
    using ready' that by (auto simp: B_def dest: in_set_takeD)
  obtain groups where groups: "groupByTarget home B [] = Inr groups"
    using groupByTarget_total [of B home "[]"] homes by blast
  note gs = groupByTarget_groups [OF groups]
  define moves where "moves = concat (map (groupMoves source (fst ` set sh)) groups)"
  have distB: "distinct (map sr_id B)" unfolding B_def take_map [symmetric] using ready' by (simp add: distinct_take)
  have grp: "rs = filter (\<lambda>r. home r = Inr t) B" if "(t, rs) \<in> set groups" for t rs
    using gs groupOf_mem [of groups t rs] that by simp
  have mem: "(t, r) \<in> set moves \<longleftrightarrow> t \<noteq> source \<and> t \<in> fst ` set sh \<and> r \<in> set B \<and> home r = Inr (Some t)" for t r
  proof -
    have "(\<exists>rs. (Some t, rs) \<in> set groups \<and> r \<in> set rs) \<longleftrightarrow> r \<in> set B \<and> home r = Inr (Some t)"
    proof
      assume "r \<in> set B \<and> home r = Inr (Some t)"
      then have "Some t \<in> fst ` set groups" using gs by auto
      then obtain rs where "(Some t, rs) \<in> set groups" by auto
      with grp [OF this] \<open>r \<in> set B \<and> home r = Inr (Some t)\<close> show "\<exists>rs. (Some t, rs) \<in> set groups \<and> r \<in> set rs" by auto
    next
      assume "\<exists>rs. (Some t, rs) \<in> set groups \<and> r \<in> set rs"
      then obtain rs where "(Some t, rs) \<in> set groups" "r \<in> set rs" by blast
      with grp [OF this(1)] show "r \<in> set B \<and> home r = Inr (Some t)" by simp
    qed
    then show ?thesis by (simp only: moves_def groupMoves_mem)
  qed
  have sent: "set (map snd moves) = {r \<in> set B. home r \<noteq> Inr (Some source)}"
  proof (rule set_eqI)
    fix r
    have "r \<in> set (map snd moves) \<longleftrightarrow> (\<exists>t. t \<noteq> source \<and> t \<in> fst ` set sh \<and> r \<in> set B \<and> home r = Inr (Some t))"
      by (simp only: set_map in_snd_image mem)
    then show "r \<in> set (map snd moves) \<longleftrightarrow> r \<in> {r \<in> set B. home r \<noteq> Inr (Some source)}" using homes [of r, unfolded set_map] by (simp only: mem_Collect_eq) (metis option.inject sum.inject(2))
  qed
  have "distinct rs \<and> (\<forall>r\<in>set rs. home r = Inr t)" if "(t, rs) \<in> set groups" for t rs
    using grp [OF that] distB by (simp add: distinct_map)
  then have "distinct (map snd moves)"
    unfolding moves_def using gs by (intro groupMoves_distinct [where home = home]) simp_all
  then have dist: "distinct (map (sr_id \<circ> snd) moves)"
    using sent distB by (auto simp: distinct_map comp_inj_on_iff intro: comp_inj_on inj_on_subset)
  have run: "rebalanceBatch home saveError e source B sh = Inr (fold (moveRecord saveError e source) moves sh)"
    by (simp add: rebalanceBatch_def groups fold_groups moves_def)
  have fresh: "t \<noteq> source \<and> t \<in> set (map fst sh) \<and> sr_id r \<noteq> None \<and> sr_id r \<notin> sr_id ` set (tableOf e t sh)"
    if "(t, r) \<in> set moves" for t r
    using that ready' by (auto simp: mem B_def dest!: in_set_takeD)
  note moved = moveRecord_run [where e = e, OF _ dist ok fresh]
  have left: "filter (\<lambda>x. sr_id x \<notin> sr_id ` snd ` set moves) T = filter (\<lambda>r. home r = Inr (Some source)) B @ drop n T"
    using filter_ids [of sr_id B "drop n T" "map snd moves" "\<lambda>r. home r = Inr (Some source)"] ready' sent
    by (simp add: B_def)
  have "sentHome home e source n sh (fold (moveRecord saveError e source) moves sh)"
    using moved ready' left gs groupMoves_for [of groups _ source "fst ` set sh"]
    by (simp add: sentHome_def T_def [symmetric] B_def [symmetric] moves_def)
  with run show ?thesis by (simp add: B_def T_def)
qed

lemma tableOf_outside: "j \<notin> set (map fst sh) \<Longrightarrow> tableOf e j sh = []"
  by (simp add: tableOf_def map_of_eq_None_iff split: option.split) (metis map_of_eq_None_iff option.distinct(1))

lemma sentHome_ready:
  assumes ready: "ready home e source sh" and sent: "sentHome home e source n sh sh'"
  shows "ready home e source sh'"
proof -
  define T where "T = tableOf e source sh"
  note ready' = ready [unfolded ready_def, folded T_def] and sent' = sent [unfolded sentHome_def, folded T_def]
  define T' where "T' = filter (\<lambda>r. home r = Inr (Some source)) (take n T) @ drop n T"
  have sub: "set T' \<subseteq> set T" by (auto simp: T'_def dest: in_set_takeD in_set_dropD)
  have inj: "inj_on sr_id (set T)" and "distinct T" using ready' by (simp_all add: distinct_map)
  have parts: "set (take n T) \<inter> set (drop n T) = {}"
    using \<open>distinct T\<close> by (metis append_take_drop_id distinct_append)
  have "distinct T'" using \<open>distinct T\<close> parts by (auto simp: T'_def distinct_take distinct_drop)
  then have "distinct (map sr_id T')" using inj sub by (auto simp: distinct_map intro: inj_on_subset)
  moreover have "sr_id ` set T' \<inter> sr_id ` set (tableOf e j sh') = {}" if "j \<noteq> source" for j
  proof (cases "j \<in> set (map fst sh)")
    case True
    have "x \<notin> set (filter (\<lambda>r. home r = Inr (Some j)) (take n T))" if "x \<in> set T'" for x
      using that \<open>j \<noteq> source\<close> parts by (auto simp: T'_def)
    moreover have "set (filter (\<lambda>r. home r = Inr (Some j)) (take n T)) \<subseteq> set T" by (auto dest: in_set_takeD)
    ultimately have "sr_id ` set T' \<inter> sr_id ` set (filter (\<lambda>r. home r = Inr (Some j)) (take n T)) = {}"
      using inj sub by (subst inj_on_image_Int [symmetric]) auto
    moreover have "sr_id ` set T' \<inter> sr_id ` set (tableOf e j sh) = {}" using ready' sub \<open>j \<noteq> source\<close> by blast
    ultimately show ?thesis using sent' True \<open>j \<noteq> source\<close> by (auto simp: image_Un)
  qed (use sent' in \<open>simp add: tableOf_outside\<close>)
  ultimately show ?thesis
    using ready' sub sent' by (auto simp: ready_def T'_def [symmetric])
qed

lemma filter_halves: "filter P xs = filter P (take n xs) @ filter P (drop n xs)"
  by (metis append_take_drop_id filter_append)

lemma sentHome_trans:
  assumes "sentHome home e source n sh sh1" and "sentHome home e source (length (tableOf e source sh1)) sh1 sh'"
  shows "sentHome home e source (length (tableOf e source sh)) sh sh'"
proof -
  define T where "T = tableOf e source sh"
  have none: "filter (\<lambda>r. home r = Inr (Some j) \<and> home r = Inr (Some source)) (take n T) = []" if "j \<noteq> source" for j
    using that by (auto simp: filter_empty_conv)
  have again: "filter (\<lambda>r. home r = Inr (Some source) \<and> home r = Inr (Some source)) (take n T) = filter (\<lambda>r. home r = Inr (Some source)) (take n T)"
    by simp
  show ?thesis
    using assms unfolding sentHome_def T_def [symmetric] by (simp add: filter_halves [of _ T n] none again conj_commute)
qed

lemma rebalanceLoop_ends:
  assumes "ready home e source sh" and ok: "\<And>t r. saveError t r = None"
    and "length (filter (\<lambda>r. home r = Inr (Some source)) (tableOf e source sh)) < rebalanceBatchSize"
    and "length (filter (\<lambda>r. home r \<noteq> Inr (Some source)) (tableOf e source sh)) < fuel"
  shows "\<exists>sh'. rebalanceLoop home saveError e source fuel sh = Some sh' \<and> sentHome home e source (length (tableOf e source sh)) sh sh'"
  using assms(1,3,4)
proof (induction fuel arbitrary: sh)
  case (Suc fuel)
  define T where "T = tableOf e source sh"
  obtain sh1 where sh1: "rebalanceBatch home saveError e source (take rebalanceBatchSize T) sh = Inr sh1"
      "sentHome home e source rebalanceBatchSize sh sh1"
    using rebalanceBatch_sends_home [OF Suc.prems(1), of saveError rebalanceBatchSize] ok by (auto simp: T_def)
  show ?case
  proof (cases "length (take rebalanceBatchSize T) < rebalanceBatchSize")
    case True
    then have short: "length T < rebalanceBatchSize" by simp
    show ?thesis
    proof (cases "T = []")
      case True
      then show ?thesis by (simp add: T_def sentHome_def)
    next
      case False
      then show ?thesis
        using short sh1 by (simp add: T_def [symmetric] Let_def sentHome_def rebalanceBatchSize_def)
    qed
  next
    case False
    define B where "B = take rebalanceBatchSize T"
    have T1: "tableOf e source sh1 = filter (\<lambda>r. home r = Inr (Some source)) B @ drop rebalanceBatchSize T"
      using sh1(2) by (simp add: sentHome_def T_def B_def)
    have T: "T = B @ drop rebalanceBatchSize T" by (simp add: B_def)
    have halves: "length (filter P T) = length (filter P B) + length (filter P (drop rebalanceBatchSize T))" for P
      by (subst T) simp
    have "length (filter (\<lambda>r. home r = Inr (Some source)) B) < length B"
      using Suc.prems(2) False halves [of "\<lambda>r. home r = Inr (Some source)"] by (simp add: T_def [symmetric] B_def)
    then have "0 < length (filter (\<lambda>r. home r \<noteq> Inr (Some source)) B)"
      using sum_length_filter_compl [of "\<lambda>r. home r = Inr (Some source)" B] by linarith
    moreover have left: "filter (\<lambda>r. home r \<noteq> Inr (Some source)) (tableOf e source sh1) =
        filter (\<lambda>r. home r \<noteq> Inr (Some source)) (drop rebalanceBatchSize T)"
      unfolding T1 filter_append by (simp add: filter_empty_conv)
    ultimately have fewer: "length (filter (\<lambda>r. home r \<noteq> Inr (Some source)) (tableOf e source sh1)) < fuel"
      using Suc.prems(3) halves [of "\<lambda>r. home r \<noteq> Inr (Some source)"] unfolding T_def [symmetric] left by linarith
    have same: "filter (\<lambda>r. home r = Inr (Some source)) (tableOf e source sh1) = filter (\<lambda>r. home r = Inr (Some source)) T"
      unfolding T1 B_def by (simp add: filter_halves [of _ T rebalanceBatchSize])
    obtain sh' where "rebalanceLoop home saveError e source fuel sh1 = Some sh'"
        "sentHome home e source (length (tableOf e source sh1)) sh1 sh'"
      using Suc.IH [OF sentHome_ready [OF Suc.prems(1) sh1(2)] _ fewer] Suc.prems(2) same by (auto simp: T_def)
    moreover have "take rebalanceBatchSize T \<noteq> []" using False by (auto simp: rebalanceBatchSize_def)
    ultimately show ?thesis
      using sh1 False sentHome_trans by (fastforce simp: T_def [symmetric] Let_def)
  qed
qed simp

text \<open>With a full batch of records that are where they belong the loop does not end.\<close>

lemma rebalanceLoop_never_ends:
  assumes "ready home e source sh" and ok: "\<And>t r. saveError t r = None"
    and "rebalanceBatchSize \<le> length (filter (\<lambda>r. home r = Inr (Some source)) (tableOf e source sh))"
  shows "rebalanceLoop home saveError e source fuel sh = None"
  using assms(1,3)
proof (induction fuel arbitrary: sh)
  case (Suc fuel)
  define T where "T = tableOf e source sh"
  obtain sh1 where sh1: "rebalanceBatch home saveError e source (take rebalanceBatchSize T) sh = Inr sh1"
      "sentHome home e source rebalanceBatchSize sh sh1"
    using rebalanceBatch_sends_home [OF Suc.prems(1), of saveError rebalanceBatchSize] ok by (auto simp: T_def)
  have same: "filter (\<lambda>r. home r = Inr (Some source)) (tableOf e source sh1) = filter (\<lambda>r. home r = Inr (Some source)) T"
    using sh1(2) filter_halves [of _ T rebalanceBatchSize] by (simp add: sentHome_def T_def [symmetric])
  have "rebalanceBatchSize \<le> length T"
    using Suc.prems(2) length_filter_le [of _ T] by (auto simp: T_def intro: order_trans)
  moreover from this have "take rebalanceBatchSize T \<noteq> []" by (auto simp: rebalanceBatchSize_def)
  ultimately show ?case
    using sh1 Suc.IH [OF sentHome_ready [OF Suc.prems(1) sh1(2)]] Suc.prems(2) same
    by (simp add: T_def [symmetric] Let_def)
qed simp

text \<open>Every row is there once, on one shard, and has a home.\<close>

definition uniqueRows :: "entity \<Rightarrow> shards \<Rightarrow> bool" where
  "uniqueRows e sh \<longleftrightarrow>
     (\<forall>i. distinct (tableOf e i sh)) \<and>
     (\<forall>i j. \<forall>r\<in>set (tableOf e i sh). \<forall>q\<in>set (tableOf e j sh). sr_id r = sr_id q \<longrightarrow> i = j \<and> r = q)"

definition housed :: "(shard_row \<Rightarrow> string option result) \<Rightarrow> entity \<Rightarrow> shards \<Rightarrow> bool" where
  "housed home e sh \<longleftrightarrow>
     (\<forall>i. \<forall>r\<in>set (tableOf e i sh). sr_id r \<noteq> None \<and> (\<exists>j\<in>set (map fst sh). home r = Inr (Some j)))"

definition rowsWith :: "(shard_row \<Rightarrow> bool) \<Rightarrow> entity \<Rightarrow> shards \<Rightarrow> shard_row multiset" where
  "rowsWith P e sh = (\<Sum>i\<in>set (map fst sh). mset (filter P (tableOf e i sh)))"

lemma ready_of: "uniqueRows e sh \<Longrightarrow> housed home e sh \<Longrightarrow> source \<in> set (map fst sh) \<Longrightarrow> ready home e source sh"
  unfolding ready_def uniqueRows_def housed_def by (auto simp: distinct_map inj_on_def)

lemma sentHome_table:
  assumes "sentHome home e source (length (tableOf e source sh)) sh sh'" and "j \<in> set (map fst sh)"
  shows "tableOf e j sh' = (if j = source then [] else tableOf e j sh) @ filter (\<lambda>r. home r = Inr (Some j)) (tableOf e source sh)"
  using assms by (simp add: sentHome_def)

lemma sentHome_from:
  assumes "sentHome home e source (length (tableOf e source sh)) sh sh'" and "r \<in> set (tableOf e j sh')"
  shows "j \<in> set (map fst sh) \<and> (j \<noteq> source \<and> r \<in> set (tableOf e j sh) \<or> r \<in> set (tableOf e source sh) \<and> home r = Inr (Some j))"
proof -
  have "map fst sh' = map fst sh" using assms(1) by (simp add: sentHome_def)
  then have "j \<in> set (map fst sh)" using assms(2) tableOf_outside [of j sh' e] by (metis empty_iff empty_set)
  with assms show ?thesis by (auto simp: sentHome_table split: if_splits)
qed

lemma sentHome_keeps_unique:
  assumes unique: "uniqueRows e sh" and sent: "sentHome home e source (length (tableOf e source sh)) sh sh'"
  shows "uniqueRows e sh'"
proof -
  have dist: "distinct (tableOf e i sh)" for i using unique by (simp add: uniqueRows_def)
  have same: "i = j \<and> r = q" if "r \<in> set (tableOf e i sh)" "q \<in> set (tableOf e j sh)" "sr_id r = sr_id q" for i j r q
    using unique that unfolding uniqueRows_def by blast
  have "distinct (tableOf e i sh')" for i
  proof (cases "i \<in> set (map fst sh)")
    case True
    then show ?thesis using dist same by (auto simp: sentHome_table [OF sent])
  next
    case False
    then show ?thesis using sentHome_from [OF sent, of _ i] by (cases "tableOf e i sh'") auto
  qed
  moreover have "i = j \<and> r = q" if "r \<in> set (tableOf e i sh')" "q \<in> set (tableOf e j sh')" "sr_id r = sr_id q" for i j r q
    using sentHome_from [OF sent that(1)] sentHome_from [OF sent that(2)] that(3) same by (metis option.inject sum.inject(2))
  ultimately show ?thesis unfolding uniqueRows_def by blast
qed

lemma sentHome_keeps_housed:
  assumes "housed home e sh" and "sentHome home e source (length (tableOf e source sh)) sh sh'"
  shows "housed home e sh'"
proof -
  have "map fst sh' = map fst sh" using assms(2) by (simp add: sentHome_def)
  then show ?thesis using assms(1) sentHome_from [OF assms(2)] unfolding housed_def by metis
qed

lemma sum_homes:
  assumes "finite K" and "\<And>r. r \<in> set T \<Longrightarrow> \<exists>j\<in>K. home r = Inr (Some j)"
  shows "(\<Sum>j\<in>K. mset (filter P (filter (\<lambda>r. home r = Inr (Some j)) T))) = mset (filter P T)"
  using assms(2)
proof (induction T)
  case (Cons r T)
  then obtain k where k: "k \<in> K" "home r = Inr (Some k)" by auto
  have "(\<Sum>j\<in>K. mset (filter P (filter (\<lambda>r. home r = Inr (Some j)) (r # T)))) =
      (\<Sum>j\<in>K. (if j = k then if P r then {#r#} else {#} else {#}) + mset (filter P (filter (\<lambda>r. home r = Inr (Some j)) T)))"
    using k by (intro sum.cong refl) (auto simp del: mset_filter)
  also have "\<dots> = (if P r then {#r#} else {#}) + mset (filter P T)"
    using Cons k(1) assms(1) by (simp add: sum.distrib sum.delta)
  finally show ?case by simp
qed simp

lemma sentHome_keeps_rows:
  assumes "housed home e sh" and sent: "sentHome home e source (length (tableOf e source sh)) sh sh'" and "source \<in> set (map fst sh)"
  shows "rowsWith P e sh' = rowsWith P e sh"
proof -
  define K where "K = set (map fst sh)"
  define T where "T = tableOf e source sh"
  have "finite K" by (simp add: K_def)
  have keys: "set (map fst sh') = K" using sent by (simp add: sentHome_def K_def)
  have "rowsWith P e sh' = (\<Sum>j\<in>K. mset (filter P (if j = source then [] else tableOf e j sh)) + mset (filter P (filter (\<lambda>r. home r = Inr (Some j)) T)))"
    unfolding rowsWith_def keys
    by (intro sum.cong refl) (subst sentHome_table [OF sent], simp_all only: K_def T_def filter_append mset_append)
  also have "\<dots> = (\<Sum>j\<in>K. mset (filter P (if j = source then [] else tableOf e j sh))) + mset (filter P T)"
    using assms(1) sum_homes [OF \<open>finite K\<close>, of T home P] by (simp add: sum.distrib housed_def K_def T_def)
  also have "(\<Sum>j\<in>K. mset (filter P (if j = source then [] else tableOf e j sh))) = (\<Sum>j\<in>K - {source}. mset (filter P (tableOf e j sh)))"
    using \<open>finite K\<close> by (intro sum.mono_neutral_cong_right) auto
  finally show ?thesis
    using sum.remove [OF \<open>finite K\<close>, of source "\<lambda>j. mset (filter P (tableOf e j sh))"] assms(3)
    by (simp add: rowsWith_def K_def [symmetric] T_def add.commute del: set_map)
qed

lemma size_rowsWith:
  assumes "i \<in> set (map fst sh)"
  shows "length (filter P (tableOf e i sh)) \<le> size (rowsWith P e sh)"
proof -
  have "rowsWith P e sh = mset (filter P (tableOf e i sh)) + (\<Sum>j\<in>set (map fst sh) - {i}. mset (filter P (tableOf e j sh)))"
    unfolding rowsWith_def by (rule sum.remove [OF finite_set assms])
  then have "size (rowsWith P e sh) = length (filter P (tableOf e i sh)) + size (\<Sum>j\<in>set (map fst sh) - {i}. mset (filter P (tableOf e j sh)))"
    by (simp only: size_union size_mset)
  then show ?thesis by linarith
qed

lemma rebalanceTables_brings_home:
  assumes "uniqueRows e sh" and "housed home e sh" and ok: "\<And>t r. saveError t r = None"
    and "set is \<subseteq> set (map fst sh)"
    and "\<And>k. k \<in> set (map fst sh) \<Longrightarrow> size (rowsWith (\<lambda>r. home r = Inr (Some k)) e sh) < rebalanceBatchSize"
    and "size (rowsWith (\<lambda>_. True) e sh) < fuel"
    and "\<And>i r. i \<notin> set is \<Longrightarrow> r \<in> set (tableOf e i sh) \<Longrightarrow> home r = Inr (Some i)"
  shows "\<exists>sh'. rebalanceTables home saveError e fuel is sh = Some sh' \<and> map fst sh' = map fst sh \<and>
    (\<forall>P. rowsWith P e sh' = rowsWith P e sh) \<and> (\<forall>i. \<forall>r\<in>set (tableOf e i sh'). home r = Inr (Some i)) \<and>
    (\<forall>e' j. e' \<noteq> e \<longrightarrow> tableOf e' j sh' = tableOf e' j sh)"
  using assms(1,2,4-)
proof (induction "is" arbitrary: sh)
  case (Cons i "is")
  have i: "i \<in> set (map fst sh)" using Cons.prems(3) by simp
  have "length (filter (\<lambda>r. home r \<noteq> Inr (Some i)) (tableOf e i sh)) \<le> length (tableOf e i sh)" by simp
  also have "\<dots> \<le> size (rowsWith (\<lambda>_. True) e sh)" using size_rowsWith [OF i, of "\<lambda>_. True"] by simp
  finally have "length (filter (\<lambda>r. home r \<noteq> Inr (Some i)) (tableOf e i sh)) < fuel" using Cons.prems(5) by linarith
  moreover have "length (filter (\<lambda>r. home r = Inr (Some i)) (tableOf e i sh)) < rebalanceBatchSize"
    using size_rowsWith [OF i] Cons.prems(4) [OF i] by (rule le_less_trans)
  ultimately obtain sh1 where sh1: "rebalanceLoop home saveError e i fuel sh = Some sh1"
      and sent: "sentHome home e i (length (tableOf e i sh)) sh sh1"
    using rebalanceLoop_ends [OF ready_of [OF Cons.prems(1,2) i], of saveError fuel] ok by auto
  have keys: "map fst sh1 = map fst sh" and others: "\<And>e' j. e' \<noteq> e \<Longrightarrow> tableOf e' j sh1 = tableOf e' j sh"
    using sent by (simp_all add: sentHome_def)
  have rows: "rowsWith P e sh1 = rowsWith P e sh" for P by (rule sentHome_keeps_rows [OF Cons.prems(2) sent i])
  have home: "home r = Inr (Some j)" if "j \<notin> set is" "r \<in> set (tableOf e j sh1)" for j r
    using sentHome_from [OF sent that(2)] Cons.prems(6) [of j r] that(1) by auto
  have "\<exists>sh'. rebalanceTables home saveError e fuel is sh1 = Some sh' \<and> map fst sh' = map fst sh1 \<and>
    (\<forall>P. rowsWith P e sh' = rowsWith P e sh1) \<and> (\<forall>i. \<forall>r\<in>set (tableOf e i sh'). home r = Inr (Some i)) \<and>
    (\<forall>e' j. e' \<noteq> e \<longrightarrow> tableOf e' j sh' = tableOf e' j sh1)"
    using Cons.prems(3-5) home
    by (intro Cons.IH sentHome_keeps_unique [OF Cons.prems(1) sent] sentHome_keeps_housed [OF Cons.prems(2) sent])
      (simp_all only: keys rows, simp_all)
  with sh1 show ?case by (simp add: keys rows others)
qed simp

lemma rebalance_all_tables:
  assumes "uniqueRows e sh" and "housed home e sh" and "\<And>t r. saveError t r = None"
    and "\<And>k. k \<in> set (map fst sh) \<Longrightarrow> size (rowsWith (\<lambda>r. home r = Inr (Some k)) e sh) < rebalanceBatchSize"
    and "size (rowsWith (\<lambda>_. True) e sh) < fuel"
  shows "\<exists>sh'. rebalanceTables home saveError e fuel (map fst sh) sh = Some sh' \<and> map fst sh' = map fst sh \<and>
    (\<forall>P. rowsWith P e sh' = rowsWith P e sh) \<and> (\<forall>i. \<forall>r\<in>set (tableOf e i sh'). home r = Inr (Some i)) \<and>
    (\<forall>e' j. e' \<noteq> e \<longrightarrow> tableOf e' j sh' = tableOf e' j sh)"
proof (rule rebalanceTables_brings_home [OF assms(1-3) subset_refl assms(4,5)])
  fix i r
  assume "i \<notin> set (map fst sh)" and "r \<in> set (tableOf e i sh)"
  then show "home r = Inr (Some i)" using tableOf_outside [of i sh e] by simp
qed

lemma rowsWith_home:
  assumes "\<forall>i. \<forall>r\<in>set (tableOf e i sh). home r = Inr (Some i)" and "i \<in> set (map fst sh)"
  shows "rowsWith (\<lambda>r. home r = Inr (Some i)) e sh = mset (tableOf e i sh)"
proof -
  have "mset (filter (\<lambda>r. home r = Inr (Some i)) (tableOf e j sh)) = (if j = i then mset (tableOf e i sh) else {#})" for j
    using assms(1) by (auto simp: filter_True filter_False simp del: mset_filter)
  then show ?thesis using assms(2) by (simp add: rowsWith_def sum.delta del: set_map)
qed

text \<open>What is asked of the tables before they are rebalanced.\<close>

definition rebalanceable :: "shard_env \<Rightarrow> timestamp \<Rightarrow> sharding \<Rightarrow> entity \<Rightarrow> bool" where
  "rebalanceable env now s e \<longleftrightarrow>
     uniqueRows e (sh_shards s) \<and> housed (homeOf env now s e) e (sh_shards s) \<and>
     (\<forall>i\<in>set (shardIds s). size (rowsWith (\<lambda>r. homeOf env now s e r = Inr (Some i)) e (sh_shards s)) < rebalanceBatchSize)"

text \<open>
  A save that is refused as a duplicate removes the record from its shard all the same: two balances of one
  user in one asset, with numbers of their own, and one of them is on no shard any more.
\<close>

lemma refused_duplicate_is_lost:
  assumes "saveError target r = Some message" and "containsText ''UNIQUE'' message"
    and "source \<in> set (map fst sh)" and "target \<noteq> source" and "r \<notin> set (tableOf e target sh)"
  shows "r \<notin> set (tableOf e source (moveRecord saveError e source (target, r) sh)) \<and>
    r \<notin> set (tableOf e target (moveRecord saveError e source (target, r) sh))"
  using assms by (simp add: moveRecord_def tableOf_putTable removeData_def del: set_map)

text \<open>
  C40. Rebalancing ends and brings every record home: when no id is used twice, every record has a home,
  fewer than a thousand belong to each shard and no save fails (so no two balances of a user in one asset meet on
  a shard, which their unique index forbids), enough rounds end it, and then the trades and the balances on a shard
  are exactly those that belong there, taken from all shards, each one once. Other tables are as before.
  What a refused save does, the lemma \<open>refused_duplicate_is_lost\<close> shows.
\<close>

theorem rebalancing_brings_every_record_home:
  assumes "rebalanceable env now s TradeEntity" and "rebalanceable env now s UserBalanceEntity"
    and "\<And>t r. saveError t r = None" and "2 \<le> length (shardIds s)"
    and "\<forall>e\<in>{TradeEntity, UserBalanceEntity}. size (rowsWith (\<lambda>_. True) e (sh_shards s)) < fuel"
  shows "\<exists>s'. rebalanceShards env saveError fuel now s = Some s' \<and> shardIds s' = shardIds s \<and> sh_ring s' = sh_ring s \<and>
    (\<forall>e\<in>{TradeEntity, UserBalanceEntity}. \<forall>i\<in>set (shardIds s). mset (tableOf e i (sh_shards s')) =
       rowsWith (\<lambda>r. homeOf env now s e r = Inr (Some i)) e (sh_shards s)) \<and>
    (\<forall>i. tableOf VirtualAssetEntity i (sh_shards s') = tableOf VirtualAssetEntity i (sh_shards s))"
proof -
  define sh where "sh = sh_shards s"
  have keys: "shardIds s = map fst sh" by (simp add: shardIds_def sh_def)
  obtain sh1 where sh1: "rebalanceTables (homeOf env now s TradeEntity) saveError TradeEntity fuel (map fst sh) sh = Some sh1"
      "map fst sh1 = map fst sh" "\<And>P. rowsWith P TradeEntity sh1 = rowsWith P TradeEntity sh"
      "\<forall>i. \<forall>r\<in>set (tableOf TradeEntity i sh1). homeOf env now s TradeEntity r = Inr (Some i)"
      "\<And>e' j. e' \<noteq> TradeEntity \<Longrightarrow> tableOf e' j sh1 = tableOf e' j sh"
    using rebalance_all_tables [of TradeEntity sh "homeOf env now s TradeEntity" saveError fuel] assms
    unfolding rebalanceable_def keys sh_def [symmetric] by blast
  have same: "uniqueRows UserBalanceEntity sh1 = uniqueRows UserBalanceEntity sh"
      "housed home UserBalanceEntity sh1 = housed home UserBalanceEntity sh"
      "rowsWith P UserBalanceEntity sh1 = rowsWith P UserBalanceEntity sh" for home P
    by (simp_all add: uniqueRows_def housed_def rowsWith_def sh1(2,5) del: set_map)
  obtain sh2 where sh2: "rebalanceTables (homeOf env now s UserBalanceEntity) saveError UserBalanceEntity fuel (map fst sh) sh1 = Some sh2"
      "map fst sh2 = map fst sh" "\<And>P. rowsWith P UserBalanceEntity sh2 = rowsWith P UserBalanceEntity sh"
      "\<forall>i. \<forall>r\<in>set (tableOf UserBalanceEntity i sh2). homeOf env now s UserBalanceEntity r = Inr (Some i)"
      "\<And>e' j. e' \<noteq> UserBalanceEntity \<Longrightarrow> tableOf e' j sh2 = tableOf e' j sh1"
    using rebalance_all_tables [of UserBalanceEntity sh1 "homeOf env now s UserBalanceEntity" saveError fuel] assms
    unfolding rebalanceable_def keys sh_def [symmetric] same sh1(2) using sh1(2) by (auto simp: sh1(5) simp del: set_map)
  have "mset (tableOf TradeEntity i sh2) = rowsWith (\<lambda>r. homeOf env now s TradeEntity r = Inr (Some i)) TradeEntity sh"
    if "i \<in> set (map fst sh)" for i
    using rowsWith_home [OF sh1(4), of i] that by (simp add: sh1(2,3) sh2(5) del: set_map)
  moreover have "mset (tableOf UserBalanceEntity i sh2) =
      rowsWith (\<lambda>r. homeOf env now s UserBalanceEntity r = Inr (Some i)) UserBalanceEntity sh" if "i \<in> set (map fst sh)" for i
    using rowsWith_home [OF sh2(4), of i] that by (simp add: sh2(2,3) del: set_map)
  moreover have "rebalanceShards env saveError fuel now s = Some (s\<lparr>sh_shards := sh2\<rparr>)"
    using assms(4) sh1(1) sh2(1) by (simp add: rebalanceShards_def keys sh_def)
  ultimately show ?thesis
    using sh1 sh2 by (simp add: keys sh_def [symmetric] shardIds_def del: set_map)
qed

text \<open>
  A thousand records in their place are enough that rebalancing never ends, however long it runs: every round
  reads the same first batch again.
\<close>

lemma rebalancing_never_ends:
  assumes "uniqueRows TradeEntity (sh_shards s)" and "housed (homeOf env now s TradeEntity) TradeEntity (sh_shards s)"
    and "\<And>t r. saveError t r = None" and "shardIds s = i # i' # is"
    and "1000 \<le> length (filter (\<lambda>r. homeOf env now s TradeEntity r = Inr (Some i)) (tableOf TradeEntity i (sh_shards s)))"
  shows "rebalanceShards env saveError fuel now s = None"
proof -
  have "i \<in> set (map fst (sh_shards s))" using assms(4) by (simp add: shardIds_def del: set_map)
  then have "rebalanceLoop (homeOf env now s TradeEntity) saveError TradeEntity i fuel (sh_shards s) = None"
    using rebalanceLoop_never_ends [OF ready_of [OF assms(1,2)], of i saveError fuel] assms(3,5)
    by (simp add: rebalanceBatchSize_def del: set_map)
  then show ?thesis using assms(4) by (simp add: rebalanceShards_def)
qed

section \<open>Keys of months\<close>

lemma parseInt_digits: "ds \<noteq> [] \<Longrightarrow> list_all isDigit ds \<Longrightarrow> parseInt ds = Some (foldl (\<lambda>n c. 10 * n + digitVal c) 0 ds)"
  by (cases ds) (auto simp: parseInt_def Let_def digit_not_blank takeWhile_eq_all_conv [THEN iffD2] list_all_iff)

lemma foldl_zeros: "foldl (\<lambda>n c. 10 * n + digitVal c) 0 (replicate k CHR ''0'') = 0"
  by (induction k) (simp_all add: digitVal_def)

lemma parseInt_padStart2: "parseInt (padStart2 (natText m)) = Some m"
proof -
  have "list_all isDigit (padStart2 (natText m))"
    using natText_digits [of m] by (auto simp: padStart2_def list_all_iff isDigit_def)
  then show ?thesis
    using parseInt_digits [of "padStart2 (natText m)"] natText_value [of m] by (simp add: padStart2_def foldl_zeros)
qed

lemma digits_no_dash: "list_all isDigit ds \<Longrightarrow> takeWhile (\<lambda>c. c \<noteq> CHR ''-'') (ds @ CHR ''-'' # xs) = ds"
  by (subst takeWhile_append2) (auto simp: list_all_iff isDigit_def)

lemma digits_only: "list_all isDigit ds \<Longrightarrow> takeWhile (\<lambda>c. c \<noteq> CHR ''-'') ds = ds"
  by (auto simp: takeWhile_eq_all_conv list_all_iff isDigit_def)

text \<open>Year and month are read back from the key they were written to.\<close>

lemma time_key_roundtrip:
  "se_calendar env (the (orElse (sr_timestamp r) (orElse (sr_createdAt r) (Some now)))) = (year, month) \<Longrightarrow>
     route env now ring ids TimeStrategy r = Inr (shardAt (year * 12 + month) ids)"
proof -
  have "list_all isDigit (padStart2 (natText month))"
    using natText_digits [of month] by (auto simp: padStart2_def list_all_iff isDigit_def)
  then show "se_calendar env (the (orElse (sr_timestamp r) (orElse (sr_createdAt r) (Some now)))) = (year, month) \<Longrightarrow> ?thesis"
    by (simp add: route_def Let_def digits_no_dash digits_only natText_digits parseInt_padStart2)
qed

section \<open>A query for a user looks where the user's rows are stored\<close>

lemma inserted_row_is_queried:
  assumes "insertData env now e r ''user'' s = Inr s'" and "sr_userId r = Some u" and "u \<noteq> 0" and "sr_id r = Some n"
    and "sr_userId f = Some u"
  shows "\<exists>i. map_sum id qp_shards (createQueryPlan env now' ''user'' (Some f) range1 s') = Inr [Some i] \<and>
    r \<in> set (tableOf e i (sh_shards s'))"
proof -
  obtain i where i: "findShard env now r ''user'' s = Inr i"
      and s': "s' = s\<lparr>sh_shards := putTable e i (saveData r (tableOf e i (sh_shards s))) (sh_shards s)\<rparr>"
    using assms(1) by (cases "findShard env now r ''user'' s") (auto simp: insertData_def)
  have target: "routeIn env now s UserStrategy r = Inr (Some i)" and "i \<in> set (shardIds s)"
    using i by (auto simp: findShard_def strategies_def split: option.splits if_splits)
  have ids: "shardIds s' = shardIds s" by (simp add: s' shardIds_def)
  have "routeIn env now' s' UserStrategy f = routeIn env now s UserStrategy r"
    using assms(2,5) by (simp add: routeIn_def route_def ids s' orElse_def)
  then have "map_sum id qp_shards (createQueryPlan env now' ''user'' (Some f) range1 s') = Inr [Some i]"
    using assms(3,5) target by (simp add: createQueryPlan_def strategies_def Let_def)
  moreover have "r \<in> set (tableOf e i (sh_shards s'))"
    using \<open>i \<in> set (shardIds s)\<close> assms(4) by (simp add: s' tableOf_putTable shardIds_def saveData_def set_save_row del: set_map)
  ultimately show ?thesis by blast
qed

text \<open>Queries give the same rows whether they run side by side or one after another.\<close>

lemma parallel_query_equals_sequential:
  "executeQueryAcrossShards q e (plan\<lparr>qp_parallel := True\<rparr>) s = executeQueryAcrossShards q e (plan\<lparr>qp_parallel := False\<rparr>) s"
proof -
  have "fold (\<lambda>i results. results @ queryShard q e s i) is acc = acc @ concat (map (queryShard q e s) is)" for "is" acc
    by (induction "is" arbitrary: acc) simp_all
  then show ?thesis by (simp add: executeQueryAcrossShards_def)
qed

section \<open>Defects\<close>

text \<open>Balances are numbered on each shard: a moved balance replaces the one with its number, of another user.\<close>

lemma moving_overwrites_same_id:
  assumes "t \<noteq> source" and "tableOf e t sh = [q]" and "sr_id q = Some n" and "sr_id r = Some n" and "saveError t r = None"
    and "source \<in> set (map fst sh)" and "t \<in> set (map fst sh)"
  shows "tableOf e t (moveRecord saveError e source (t, r) sh) = [r]"
  using assms by (simp add: moveRecord_def Let_def tableOf_putTable saveData_def save_row_def del: set_map)

text \<open>Without filters a migration fails after it copied: the records are then on both shards.\<close>

lemma migration_without_filters_duplicates:
  assumes "source \<in> set (shardIds s)" and "target \<in> set (shardIds s)" and "source \<noteq> target"
    and "tableOf e source (sh_shards s) \<noteq> []" and "insertRows (tableOf e source (sh_shards s)) (tableOf e target (sh_shards s)) = Inr t"
  shows "fst (migrateData source target e None s) = Inl (JsError ''Empty criteria'') \<and>
    tableOf e source (sh_shards (snd (migrateData source target e None s))) = tableOf e source (sh_shards s) \<and>
    tableOf e target (sh_shards (snd (migrateData source target e None s))) = t"
  using assms by (simp add: migrateData_def Let_def tableOf_putTable shardIds_def del: set_map)

section \<open>Witnesses\<close>

definition ex_shard_env :: shard_env where
  "ex_shard_env = \<lparr>se_hash = length, se_calendar = \<lambda>t. (2024, nat t), se_json = \<lambda>_. []\<rparr>"

definition ex_row :: "nat \<Rightarrow> nat \<Rightarrow> timestamp \<Rightarrow> shard_row" where
  "ex_row i u t = \<lparr>sr_id = Some i, sr_userId = Some u, sr_timestamp = Some t, sr_createdAt = None, sr_asset = Some ''BTC'',
     sr_symbol = None, sr_rest = []\<rparr>"

text \<open>Two shards; the trade of February and the balance are not where they belong.\<close>

definition ex_sharding :: sharding where
  "ex_sharding = \<lparr>sh_shards = [(''a'', (\<lambda>_. [])(TradeEntity := [ex_row 4 7 1, ex_row 5 7 2], UserBalanceEntity := [ex_row 4 7 3])), (''b'', \<lambda>_. [])],
     sh_configs = [], sh_ring = [(0, ''a''), (5, ''b'')]\<rparr>"

lemma ex_homes:
  "homeOf ex_shard_env now ex_sharding TradeEntity (ex_row 4 7 1) = Inr (Some ''b'')"
  "homeOf ex_shard_env now ex_sharding TradeEntity (ex_row 5 7 2) = Inr (Some ''a'')"
  "homeOf ex_shard_env now ex_sharding UserBalanceEntity (ex_row 4 7 3) = Inr (Some ''b'')"
proof -
  have trade: "homeOf ex_shard_env now ex_sharding TradeEntity (ex_row i u t) = Inr (shardAt (24288 + nat t) [''a'', ''b''])" for i u t
    by (simp add: homeOf_def rebalanceStrategy_def routeIn_def shardIds_def time_key_roundtrip [of _ _ _ 2024 "nat t"]
        ex_shard_env_def ex_row_def ex_sharding_def orElse_def)
  show "homeOf ex_shard_env now ex_sharding TradeEntity (ex_row 4 7 1) = Inr (Some ''b'')"
    "homeOf ex_shard_env now ex_sharding TradeEntity (ex_row 5 7 2) = Inr (Some ''a'')"
    unfolding trade by (simp_all add: shardAt_def flip: numeral_2_eq_2)
  have "length (natText 7) = 1" by (subst natText.simps) simp
  then show "homeOf ex_shard_env now ex_sharding UserBalanceEntity (ex_row 4 7 3) = Inr (Some ''b'')"
    by (simp add: homeOf_def rebalanceStrategy_def routeIn_def route_def orElse_def ex_row_def consistentHash_owner ringOwner_def
        ex_sharding_def ex_shard_env_def)
qed

lemma ex_tables:
  "tableOf e i (sh_shards ex_sharding) =
     (if i = ''a'' then if e = TradeEntity then [ex_row 4 7 1, ex_row 5 7 2] else if e = UserBalanceEntity then [ex_row 4 7 3] else [] else [])"
  by (cases e) (auto simp: tableOf_def ex_sharding_def)

lemma ex_keys: "map fst (sh_shards ex_sharding) = [''a'', ''b'']" "shardIds ex_sharding = [''a'', ''b'']"
  by (simp_all add: ex_sharding_def shardIds_def)

lemma ex_rebalanceable: "e \<in> {TradeEntity, UserBalanceEntity} \<Longrightarrow> rebalanceable ex_shard_env now ex_sharding e"
proof -
  have different: "ex_row 4 7 1 \<noteq> ex_row 5 7 2" "sr_id (ex_row 4 7 1) = Some 4" "sr_id (ex_row 5 7 2) = Some 5"
    "sr_id (ex_row 4 7 3) = Some 4" by (simp_all add: ex_row_def)
  show "e \<in> {TradeEntity, UserBalanceEntity} \<Longrightarrow> ?thesis"
    by (auto simp: rebalanceable_def uniqueRows_def housed_def rowsWith_def ex_tables ex_keys ex_homes
        different rebalanceBatchSize_def split: if_splits)
qed

theorem rebalancing_brings_every_record_home_witness:
  "\<exists>s'. rebalanceShards ex_shard_env (\<lambda>_ _. None) 3 0 ex_sharding = Some s' \<and>
     tableOf TradeEntity ''a'' (sh_shards s') = [ex_row 5 7 2] \<and> tableOf TradeEntity ''b'' (sh_shards s') = [ex_row 4 7 1] \<and>
     tableOf UserBalanceEntity ''b'' (sh_shards s') = [ex_row 4 7 3]"
proof -
  have "\<forall>e\<in>{TradeEntity, UserBalanceEntity}. size (rowsWith (\<lambda>_. True) e (sh_shards ex_sharding)) < 3"
    by (simp add: rowsWith_def ex_tables ex_keys)
  then obtain s' where "rebalanceShards ex_shard_env (\<lambda>_ _. None) 3 0 ex_sharding = Some s'"
    and tables: "\<forall>e\<in>{TradeEntity, UserBalanceEntity}. \<forall>i\<in>set (shardIds ex_sharding). mset (tableOf e i (sh_shards s')) =
       rowsWith (\<lambda>r. homeOf ex_shard_env 0 ex_sharding e r = Inr (Some i)) e (sh_shards ex_sharding)"
    using rebalancing_brings_every_record_home [of ex_shard_env 0 ex_sharding "\<lambda>_ _. None" 3] ex_rebalanceable
    by (auto simp: ex_keys)
  moreover have "mset (tableOf TradeEntity ''a'' (sh_shards s')) = {#ex_row 5 7 2#}"
    "mset (tableOf TradeEntity ''b'' (sh_shards s')) = {#ex_row 4 7 1#}"
    "mset (tableOf UserBalanceEntity ''b'' (sh_shards s')) = {#ex_row 4 7 3#}"
    using tables by (simp_all add: ex_keys rowsWith_def ex_tables ex_homes)
  ultimately show ?thesis by (simp add: mset_single_iff)
qed

theorem consistent_hash_finds_the_next_node_witness:
  "consistentHash length (Some ''abc'') (addShardToRing length ''s'' []) = Inr (ringOwner (length ''abc'') (addShardToRing length ''s'' []))"
  using consistent_hash_finds_the_next_node [of "addShardToRing length ''s'' []" length "[''s'']" "''abc''"] by simp

theorem new_shard_takes_keys_only_for_itself_witness:
  "consistentHash length (Some ''abc'') (addShardToRing length ''t'' (addShardToRing length ''s'' []))
     \<in> {consistentHash length (Some ''abc'') (addShardToRing length ''s'' []), Inr ''t''}"
  using new_shard_takes_keys_only_for_itself [of "addShardToRing length ''s'' []" length "[''s'']" "''abc''" "''t''"] by simp

text \<open>Two trades of two months, for two shards.\<close>

definition ex_ops :: "shard_op list" where
  "ex_ops = map (\<lambda>r. \<lparr>op_entity = TradeEntity, op_data = r, op_strategy = Some ''time'', op_type = InsertOp\<rparr>) [ex_row 8 7 2, ex_row 9 7 3]"

lemma ex_op_targets:
  "findShard ex_shard_env now (ex_row i u t) ''time'' ex_sharding = Inr ([''a'', ''b''] ! ((24288 + nat t) mod 2))"
proof -
  have "[''a'', ''b''] ! ((24288 + nat t) mod 2) \<in> {''a'', ''b''}" by (cases "(24288 + nat t) mod 2") (auto simp: nth_Cons')
  then show ?thesis
    by (simp add: findShard_def strategies_def routeIn_def ex_keys time_key_roundtrip [of _ _ _ 2024 "nat t"] ex_shard_env_def ex_row_def
        orElse_def shardAt_def flip: numeral_2_eq_2)
qed

lemma ex_ops_routes:
  "op_data (ex_ops ! 0) = ex_row 8 7 2" "ex_ops = [ex_ops ! 0, ex_ops ! 1]"
  "findShard ex_shard_env now (op_data (ex_ops ! 0)) (opStrategy (ex_ops ! 0)) ex_sharding = Inr ''a''"
  "findShard ex_shard_env now (op_data (ex_ops ! 1)) (opStrategy (ex_ops ! 1)) ex_sharding = Inr ''b''"
  by (simp_all add: ex_ops_def opStrategy_def ex_op_targets)

theorem transaction_is_all_or_nothing_witness:
  "fst (executeTransaction ex_shard_env (\<lambda>_. True) 0 ex_ops ex_sharding) = Inr () \<and>
   map_of (sh_shards (snd (executeTransaction ex_shard_env (\<lambda>_. True) 0 ex_ops ex_sharding))) ''b'' =
     Some (applyOp (ex_ops ! 1) (\<lambda>_. []))"
proof -
  have routed: "\<forall>op\<in>set ex_ops. \<exists>i. opTarget ex_shard_env 0 ex_sharding op = Inr i"
    by (subst ex_ops_routes(2)) (simp add: ex_ops_routes(3,4) ex_ops_routes(4) [simplified])
  have mine: "filter (\<lambda>op. opTarget ex_shard_env 0 ex_sharding op = Inr ''b'') ex_ops = [ex_ops ! 1]"
    by (subst ex_ops_routes(2)) (simp add: ex_ops_routes(3,4) ex_ops_routes(4) [simplified])
  have "fst (executeTransaction ex_shard_env (\<lambda>_. True) 0 ex_ops ex_sharding) = Inr ()"
    using transaction_is_all_or_nothing [where ok = "\<lambda>_. True" and env = ex_shard_env and now = 0 and ops = ex_ops and s = ex_sharding] routed by blast
  moreover from this have "map_of (sh_shards (snd (executeTransaction ex_shard_env (\<lambda>_. True) 0 ex_ops ex_sharding))) ''b'' =
      map_option (fold applyOp [ex_ops ! 1]) (map_of (sh_shards ex_sharding) ''b'')"
    using transaction_is_all_or_nothing [where ok = "\<lambda>_. True" and env = ex_shard_env and now = 0 and ops = ex_ops and s = ex_sharding]
    by (simp add: case_prod_beta mine)
  ultimately show ?thesis by (simp add: ex_sharding_def)
qed

text \<open>When a commit fails after another one, the shards disagree: the trade for the first one is stored, the other is not.\<close>

lemma failed_commit_splits_transaction:
  "executeTransaction ex_shard_env (\<lambda>call. call \<noteq> CommitTx ''b'') 0 ex_ops ex_sharding =
     (Inl (JsError ''transaction failed''), ex_sharding\<lparr>sh_shards := AList.update ''a'' (applyOp (ex_ops ! 0) (the (map_of (sh_shards ex_sharding) ''a'')))
        (sh_shards ex_sharding)\<rparr>)"
proof -
  have "groupByTarget (opTarget ex_shard_env 0 ex_sharding) ex_ops [] = Inr [(''a'', [ex_ops ! 0]), (''b'', [ex_ops ! 1])]"
    by (subst ex_ops_routes(2)) (simp add: ex_ops_routes(3,4) ex_ops_routes(4) [simplified] pushTo_def)
  then show ?thesis by (simp add: executeTransaction_def)
qed

end
