(* ===== verification/Spec2Isabelle.thy ===== *)
theory Spec2Isabelle
  imports StopOrderMonitor LiquidityPools MarginTrading Bridge Governance Kyc RateLimit Leaderboard Saga
    Auth Institutional ZeroLoss Messaging WorkerPool Compliance Streaming AbuseDetection PrivateTrading Sharding
begin

text \<open>
  \<^bold>\<open>PeerX backend: a verification library of its trading core.\<close>

  The backend is a NestJS service.  Its own logic, as opposed to transport and glue, sits in
  services that read and write database tables inside transactions and announce what they did
  as events.  Every modelled service becomes a group of definitions over one record that holds
  the tables it touches; every method becomes one definition that returns either an exception
  (\<open>Inl\<close>) or a result with the new state (\<open>Inr\<close>), so an exception leaves
  the state as it was: the rollback of a transaction.

  \<^bold>\<open>Theories, in order of import\<close>

  \<^item> \<open>Prelude\<close>: JavaScript numbers with \<open>NaN\<close> where the code can
    produce it, exceptions, results and their sequencing, tables as lists of rows with unique
    ids (the effect of \<open>repository.save\<close>), and the interfaces used below:
    \<open>repository\<close> (what a save promises to later reads), \<open>query_order\<close>
    (what an ORDER BY promises), \<open>guarded_loop\<close> and \<open>event_loop\<close>
    (a service that handles requests one after another, with or without a condition on the
    requests) and \<open>row_sweep\<close> (a job that visits rows one by one).
  \<^item> \<open>Balances\<close>: \<open>database/entities\<close>, the asset and balance rows
    that orders and margin trading share.
  \<^item> \<open>OrderBook\<close>: \<open>orders/services/order-book.service.ts\<close>.  Matching
    of a taker against the resting orders: the query for crossable makers, the choice of the
    best one, the fill, the loop, the trade rows and events, and the book snapshot.
  \<^item> \<open>OrdersService\<close>: \<open>orders/orders.service.ts\<close> and the request
    DTOs.  Validation, reservation and release of funds, place, cancel and modify.  Requests to place an
    order pass the validation of their DTO; the body of a modify request is validated nowhere.
  \<^item> \<open>StopOrderMonitor\<close>: \<open>orders/services/stop-order-monitor.service.ts\<close>.
    The sweep that triggers stop orders, and the whole order system as a sequence of
    requests and sweeps.
  \<^item> \<open>Amm\<close>: \<open>exchange/services/amm.service.ts\<close>, the constant product
    formulas over the reals.
  \<^item> \<open>LiquidityPools\<close>: \<open>exchange/services/liquidity-pool.service.ts\<close>
    and \<open>pool-analytics.service.ts\<close>.
  \<^item> \<open>Insurance\<close>: \<open>protection/services/insurance-fund.service.ts\<close>,
    \<open>fund-health.service.ts\<close> and \<open>insurance-fee-contribution.service.ts\<close>.
  \<^item> \<open>LiquidationProtection\<close>:
    \<open>protection/services/liquidation-protection.service.ts\<close>, the payout of a
    shortfall from the tiers of insurance funds.
  \<^item> \<open>MarginCalculator\<close>: \<open>margin/services/margin-calculator.service.ts\<close>.
  \<^item> \<open>MarginTrading\<close>: the pair configuration, position, liquidation-engine and
    interest services under \<open>margin/services\<close>.
  \<^item> \<open>Resilience\<close>: \<open>common/services/circuit-breaker.service.ts\<close> and
    \<open>bulkhead.service.ts\<close>, the guards around calls to the outside.
  \<^item> \<open>Bridge\<close>: \<open>blockchain/services/stellar.service.ts\<close> and
    \<open>cross-chain-bridge.service.ts\<close>; transfers approved by several signers, as
    handlers and as a step relation that interleaves overlapping requests.
  \<^item> \<open>Governance\<close>: \<open>governance/services\<close>; proposals, votes,
    delegation and execution over decimal columns as the database driver returns them.
  \<^item> \<open>Kyc\<close>: \<open>kyc\<close> and \<open>common/security/role-separation.ts\<close>;
    the verification state machine and who may move it.
  \<^item> \<open>SocialTrading\<close>: \<open>social-trading/services\<close>, the copy-trading listener and
    the daily reset; profiles, subscriptions, risk control and mirrored orders on top of the
    orders module.
  \<^item> \<open>Leaderboard\<close>: \<open>sortino.util.ts\<close> and \<open>leaderboard.service.ts\<close>;
    round trips, first in first out, and the ranking by Sortino ratio.
  \<^item> \<open>RateLimit\<close>: \<open>ratelimit\<close>; the in-memory token bucket, the fixed windows
    with their middleware, and the Redis token bucket with its guard.
  \<^item> \<open>Saga\<close>: \<open>common/services/saga.service.ts\<close>; sequences of steps with
    compensation.
  \<^item> \<open>Roles\<close>: \<open>identity/roles\<close> and the permission guards; the role
    hierarchy and its walk, metadata, incompatibilities, permission checks and both route guards.
  \<^item> \<open>Users\<close>: \<open>user/user.service.ts\<close>, \<open>identity/admin/services\<close>,
    the role and permission management services; user rows, role assignment, suspension, and the
    portfolio columns of the balance rows.
  \<^item> \<open>Auth\<close>: \<open>auth/auth.service.ts\<close>, \<open>mfa.service.ts\<close>,
    \<open>rate-limiter.ts\<close> and the JWT guard; registration, login with lock-out, rotation of
    refresh tokens, passwords, sessions and the second factor on the identity tables.
  \<^item> \<open>Institutional\<close>: \<open>institutional/services\<close>; clients and service-level
    policies, bulk trades on the tables of the order service, reconciliation reports and tickets.
  \<^item> \<open>ZeroLoss\<close>: \<open>queue/zero-loss-message.service.ts\<close>; messages kept in Redis, the
    leases of workers, and recovery, as handlers and as step relations over single Redis commands:
    \<open>zl_step\<close> for the protocol of producers, workers, sweeps and clean-ups, and \<open>zl_any\<close> for everything
    the public operations allow on top, retries and ids that are used again included.
  \<^item> \<open>Messaging\<close>: \<open>message-ordering\<close>, \<open>message-deduplication\<close> and
    \<open>exponential-backoff.service.ts\<close> under \<open>queue\<close>; partitions and their switch, fingerprints, retry delays.
  \<^item> \<open>FaultTolerance\<close>: \<open>queue-fault-tolerance.service.ts\<close> and
    \<open>dead-letter-queue.service.ts\<close>; breakers, failover targets and dead letters.
  \<^item> \<open>WorkerPool\<close>: \<open>queue-worker-manager\<close>, \<open>queue-load-balancer\<close>,
    \<open>dynamic-scaling\<close> and \<open>scheduler-failover.service.ts\<close>; the worker table, the choice of a
    worker, scaling, and the retry of failed jobs.
  \<^item> \<open>AuditChain\<close>: \<open>audit-log/audit-log.service.ts\<close>; the chain of checksums, its check,
    queries, pages and the export.
  \<^item> \<open>Compliance\<close>: \<open>compliance/services\<close>; rules, the screening of transactions, alerts,
    and the generation and submission of regulatory reports.  The transaction to screen is a JSON body
    that is not validated: its time may be a text, its counterparties may be missing.
  \<^item> \<open>MarketCache\<close>: \<open>common/services/enhanced-cache.service.ts\<close>; cached prices, portfolios and
    order books with their life times.
  \<^item> \<open>Streaming\<close>: \<open>websocket/services\<close> (queue, connection pool, streams, connection table) and
    \<open>optimized-trading.gateway.ts\<close>; outgoing messages, rooms and throttled streams.
  \<^item> \<open>AbuseDetection\<close>: \<open>ratelimit/abuse-detection.service.ts\<close>; tracked requests, the
    patterns found in them, scores and blocks.
  \<^item> \<open>PrivateTrading\<close>: \<open>privacy/services\<close>; encryption under passwords, pseudonymous
    profiles, encrypted orders, balance proofs and the audit of private actions.
  \<^item> \<open>Sharding\<close>: \<open>database/services/database-sharding.service.ts\<close>; routing strategies, the
    hash ring, queries and transactions over several shards, migration and rebalancing.

  \<^bold>\<open>How the parts interact\<close>

  Orders and margin positions reserve funds in the \<open>lockedBalance\<close> column of the same
  balance table.  The stop monitor re-enters the matching engine.  The liquidation engine
  settles a position through the position service and hands the negative rest to the liquidation
  protection, which debits the insurance funds.  Pools keep their own reserves and touch no
  balance row.  The bridge pays through the Stellar gateway, which runs every withdrawal inside a
  bulkhead and a circuit breaker.  Every fill of the matching engine is an event that the copy-trading
  listener turns into orders of the followers in the same book.  Governance and KYC share the rule that nobody holds roles of both, and
  every save of a user row applies it.  Bulk trades of institutional clients write the tables of the
  order service.  Login and administration share the identity tables: users, credentials, sessions,
  roles and permissions.  Queue workers take messages under leases, the load balancer chooses among
  the workers of the pool that the scaler grows and shrinks, and jobs that fail for good become dead
  letters.  Regulatory reports are built from the alerts of the screening, and their export contains
  the verdict on the audit chain.  The websocket gateway queues its updates, and the queue hands them
  to the rooms of the connection pool; new subscribers of an order book get it from the cache.

  \<^bold>\<open>What the theorems show\<close>

  \<^item> Orders (C1 to C5): funds behind open sell orders stay locked, buys equal sells, whatever numbers
    the modify requests carry; matching follows price-time priority, never overfills and leaves nothing to cross.
    Beside the numbered claims: an order modified to a negative price is traded at it, a trailing stop whose
    delta stays positive can never fire, average
    prices are volume weighted, a shrunken order makes the average of its counterparty
    \<open>NaN\<close>, the snapshot adds up, and placing and cancelling is neutral.
  \<^item> Pools (C6 to C9): shares add up to the supply, and, for fees of at most 100%, which nothing enforces,
    reserves stay positive, swaps keep the product of the
    reserves and the backing of a share never falls; deposits can be taken back.  Further theorems:
    a holder can always withdraw; fees are distributed in full; the unbounded fee, the
    emergency withdrawal that pays before approval and the sign of the impermanent loss.
  \<^item> Insurance (C10, C11): balances are explained by the ledger, and a coverage report is
    exact whatever the advisory snapshot was.  Further theorems: the coverage is as large as the
    funds allow, and the health refresh can lose a payout.
  \<^item> Margin (C12 to C14): for maintenance rates below 1 the liquidation price is the exact boundary of the
    liquidation test; collateral stays locked as long as no pair is moved to another quote asset;
    liquidation settles exactly.  Further theorems: finished
    positions stay finished under whole requests, but a sweep that overlaps a close reopens the
    position; evaluation sets the status the numbers call for, interest is charged once a day, and
    the close price is taken from the request.
  \<^item> Bridge and resilience (C15, C17): under every interleaving a transfer runs at most
    once and with a quorum of signers, and the handler is one such run.  Further theorems: a
    bulkhead accounts for its tasks, transfers complete without a payment because the breaker runs a
    stub, and time-outs let the number of running calls grow without bound.
  \<^item> KYC (C16): status changes are authorized; decisions are final.
  \<^item> Governance (C18): nobody votes twice, tallies are the sums of the votes, what is
    executed had passed; on a driver that returns decimals as text no vote ever counts.
  \<^item> Social trading: a mirrored sale is not backed by funds, the daily
    loss limit never takes effect, ending a subscription twice counts twice, an identifier is
    cut to its leading digits, and the pairing of trades tracks the position.
  \<^item> Rate limits (C19, C20): a token bucket never lets through more than its capacity plus
    what was refilled, and the Redis bucket decides like the in-memory one whenever its keys
    expire.  Further theorems: a fixed window admits exactly its limit, and the retry time of a
    refusal is enough.
  \<^item> Sagas (C21): a sequential saga of reversible steps with different names is all or nothing; with
    equal names it is not, and a parallel one also compensates the steps that failed.
  \<^item> Authentication (C22 to C24): the identity tables keep their typing invariant through any
    sequence of requests, repeated failures lock an account, a refresh token works once.  Further
    theorems: a password change ends every session; a login silently ends the tokens of other devices.
  \<^item> Roles and users (C25, C26): the walk over the hierarchy ends, and a permission check is the
    closure of the hierarchy.  Further theorems: the guard decides as specified, assigning and
    revoking is neutral, and a support agent can make itself super administrator.
  \<^item> Institutional (C27): an atomic batch is all or nothing and equals the item-by-item run.
    Further theorems: bulk trades keep the order tables sound; ticket deadlines are never recorded
    as met.
  \<^item> Queues (C28 to C33): a lease gives one process a message at a time under every interleaving and any
    crashes, as long as leases are not outlived and nobody retries by hand; no message is lost before it was
    completed, whatever is called; one sweep returns an orphan or fails it; partitions are first in
    first out, also when ordering is switched off and on; failover tries the targets by priority; recovery never loses a dead letter.
    Further theorems: round robin is fair, the handlers of the message store are runs of the interleaved commands,
    scaling keeps the pool in its range and its events apart, every strategy chooses the best worker by
    its own measure, an open breaker refuses until its retry time, the first failure opens a breaker,
    and a half-open one admits everything.
  \<^item> Audit and compliance (C34 to C36): a log written one entry after another at increasing times
    is a valid chain and a deletion inside it is found; screening fails exactly for the rules that cannot be
    checked and otherwise reports exactly the broken ones.  Further theorems:
    a report is submitted once, the pages of a query cover it, altered contents pass the
    check, a sanctioned counterparty is reported, one malformed rule, or one that
    looks at the time of a transaction, disables screening, and no
    report is ever generated.
  \<^item> Websockets (C37 to C39): the queue serves by priority, then by arrival; a broadcast reaches
    exactly the subscribers; a throttled stream loses nothing.  Further theorems: a cache hit is current
    and fresh, and the defects of the room counter, of recreated streams and of the throttle.
  \<^item> Abuse and privacy, beside the numbered claims: a block needs two patterns and lasts its hour;
    what is encrypted under a password can be read again with it, pseudonyms stay unique, the access
    log keeps the last hundred accesses, a sanction hit is critical, and a forged balance proof is accepted.
  \<^item> Sharding (C40): when no save fails, rebalancing ends and brings every record home.  Further theorems: the binary
    search over the ring finds the next node, a new shard takes keys only for itself, a transaction over
    several shards is all or nothing while commits succeed, and a query for a user looks where the rows of
    the user are; the rebalancing that never ends, the balances it overwrites or drops as duplicates, and
    the split transaction.

  \<^bold>\<open>Numbers, loops and bounds\<close>

  Decimal columns and JavaScript numbers are reals: rounding of doubles and of the columns'
  scale is not modelled.  Where the code divides by a value that can be zero the result is a
  \<open>jsnum\<close>, so \<open>NaN\<close> and infinities are values.  The matching loop is a
  terminating recursion (its measure is the number of resting makers that still cross); the
  retry loop of the payout runs a constant number of attempts, as the code bounds it.  Only the
  rebalancing of shards runs on fuel, because it may not end: more rounds than there are records are enough
  when it ends at all (C40).

  \<^bold>\<open>Parameters\<close>

  Third-party code is an argument of the definitions that call it: the breaker objects of
  \<open>opossum\<close> (\<open>opossum_ok\<close> states what is assumed of them), the limiter of
  \<open>p-limit\<close> (\<open>limiter_ok\<close>), the Stellar SDK (nothing assumed), how long Redis keeps a
  key (at least its life time), its sorted sets (nothing assumed), the actions of a saga, the
  database driver's reading of decimals, and in \<open>auth_env\<close> the password hash, the token
  signer, the one-time passwords, random values and the configuration.  For the queues, the command
  sequence of Redis, the operation a failover runs, and what Bull reports and accepts are arguments; so
  are the hash of the audit log and of the message fingerprints, and the numbers the compliance checks
  draw at random in place of a query, and how the store behind the cache answers.  The
  ciphers of node are arguments of the private trading services (\<open>crypto_ok\<close> states that what was
  sealed can be opened), as are its hashes and the reading of big integers.  The
  hash of the shard ring, the calendar, and whether a call to a shard succeeds are arguments as well.  Prices come from a feed outside the source and are arguments.  Time is an argument of every
  operation that reads the clock.  Ids the database generates are larger than every id in use.

  \<^bold>\<open>Not modelled\<close>

  Controllers, resolvers and modules, the socket and notification transport, the cron
  registration, the queue producers and metrics, and the rest of the infrastructure under \<open>common\<close> and
  \<open>database/services\<close>, with the backups of shards.  Requests are handled one at a time except where a theorem
  splits an operation into its read and its write or interleaves its pieces (C15, C17, C28 and C29).  A modify request carries numbers and a configuration
  request objects: a text in their place is outside the model.
\<close>

end
